(* ===== verification/Prelude.thy ===== *)
theory Prelude
  imports Main "HOL-Library.Word"
begin

text \<open>
  Shared material of the development: the names of the machine types of the C program
  (\<open>uint8_t\<close> \dots \<open>uint64_t\<close>, \<open>size_t\<close>), the memory primitives of the C library
  that the sources call (\<open>memmove\<close> into an array, \<open>memcmp\<close> against zero), the
  theorem collections of the components and generic lemmas on lists and words.

  The firmware runs on 32-bit ARM cores, so \<open>size_t\<close> is a 32-bit word here; additions
  and subtractions on it wrap as they do in C.
\<close>

unbundle bit_operations_syntax

subsection \<open>Machine types\<close>

type_synonym u8 = "8 word"
type_synonym u16 = "16 word"
type_synonym u32 = "32 word"
type_synonym u64 = "64 word"
type_synonym size_t = "32 word"
type_synonym bytes = "8 word list"

subsection \<open>Theorem collections\<close>

named_theorems buf_simps \<open>behaviour of the read and write buffers on well-formed buffers\<close>
named_theorems wf_intros \<open>preservation of the well-formedness predicates\<close>
named_theorems res_defs \<open>the one-line error helpers of the serializers\<close>

subsection \<open>C library memory primitives\<close>

text \<open>\<open>memmove(dst + off, src, length src)\<close> on the array \<open>dst\<close>.\<close>

definition mem_write :: "'a list \<Rightarrow> nat \<Rightarrow> 'a list \<Rightarrow> 'a list" where
  "mem_write dst off src = take off dst @ src @ drop (off + length src) dst"

text \<open>\<open>memcmp(a, b, n) == 0\<close>.\<close>

definition memcmp_eq :: "bytes \<Rightarrow> bytes \<Rightarrow> nat \<Rightarrow> bool" where
  "memcmp_eq a b n = (take n a = take n b)"

lemma length_mem_write [simp]:
  "off + length src \<le> length dst \<Longrightarrow> length (mem_write dst off src) = length dst"
  by (simp add: mem_write_def)

lemma take_mem_write_prefix [simp]:
  "n \<le> off \<Longrightarrow> off \<le> length dst \<Longrightarrow> take n (mem_write dst off src) = take n dst"
  by (simp add: mem_write_def min_def)

lemma take_mem_write_all:
  "off + length src \<le> length dst \<Longrightarrow>
     take (off + length src) (mem_write dst off src) = take off dst @ src"
  by (simp add: mem_write_def)

lemma mem_write_nil [simp]: "mem_write dst off [] = dst"
  by (simp add: mem_write_def)

subsection \<open>Lists\<close>

lemma take_drop_append_right:
  "i \<le> j \<Longrightarrow> j \<le> length xs \<Longrightarrow> take (j - i) (drop i xs @ ys) = take (j - i) (drop i xs)"
  by simp

lemma drop_take_eq: "take n (drop i xs) = drop i (take (i + n) xs)"
  by (simp add: drop_take)

lemma take_eq_self_iff: "take n xs = xs \<longleftrightarrow> length xs \<le> n"
  by (metis take_all_iff)

subsection \<open>Words\<close>

lemma word_sub_le_unat: "(b :: 'a::len word) \<le> a \<Longrightarrow> unat (a - b) = unat a - unat b"
  by (simp add: unat_sub)

lemma word_add_no_wrap:
  "unat (a :: 'a::len word) + unat b < 2 ^ LENGTH('a) \<Longrightarrow> unat (a + b) = unat a + unat b"
  by (simp add: unat_add_lem)

lemma word_add_le_iff:
  fixes a b c :: "'a::len word"
  assumes "\<not> a + b < a"
  shows "unat (a + b) = unat a + unat b"
  using assms by (metis no_olen_add_nat not_le unat_add_lem)

lemma word_sub_less:
  fixes x n :: "'a::len word"
  assumes "n \<le> x" and "n \<noteq> 0"
  shows "x - n < x"
  using assms by (metis linorder_not_less word_sub_le word_sub_le_iff order_antisym_conv
      eq_iff_diff_eq_0 diff_diff_eq2 add_diff_cancel_left')

lemma unat_u64_less: "unat (v :: u64) < 18446744073709551616"
  using unsigned_less [of v] by simp

lemma unat_u32_less: "unat (v :: u32) < 4294967296"
  using unsigned_less [of v] by simp

lemma unat_u16_less: "unat (v :: u16) < 65536"
  using unsigned_less [of v] by simp

lemma unat_u8_less: "unat (v :: u8) < 256"
  using unsigned_less [of v] by simp

lemma unat_of_nat_small: "n < 2 ^ LENGTH('a) \<Longrightarrow> unat (of_nat n :: 'a::len word) = n"
  by (simp add: unsigned_of_nat take_bit_nat_eq_self)

lemma unat_ucast_up: "LENGTH('a) \<le> LENGTH('b) \<Longrightarrow> unat (ucast (x :: 'a::len word) :: 'b::len word) = unat x"
  by (simp add: unsigned_ucast_eq take_bit_nat_eq_self order.strict_trans2 [OF unsigned_less])

lemma ucast_up_down:
  "LENGTH('a) \<le> LENGTH('b) \<Longrightarrow> ucast (ucast (x :: 'a::len word) :: 'b::len word) = x"
  by (rule bit_word_eqI) (simp add: bit_simps)

lemma and_0x7F: "(v :: 'a::len word) AND 0x7F = take_bit 7 v"
  by (simp add: take_bit_eq_mask mask_numeral mask_Suc_double numeral_eq_Suc)

lemma unat_take_bit_7: "unat (take_bit 7 v) = unat v mod 128"
  unfolding unsigned_take_bit_eq unfolding take_bit_eq_mod by simp

lemma unat_drop_bit_7: "unat (drop_bit 7 v) = unat v div 128"
  unfolding unat_drop_bit_eq unfolding drop_bit_eq_div by simp

lemma or_push_bit_add:
  fixes v w :: "'a::len word"
  assumes "unat v < 2 ^ s"
  shows "v OR push_bit s w = v + push_bit s w"
proof (rule disjunctive_add_eq_or [symmetric])
  have "\<not> bit (unat v) n" if "s \<le> n" for n
    using assms that by (metis bit_take_bit_iff linorder_not_less take_bit_nat_eq_self)
  then have "\<not> bit v n" if "s \<le> n" for n
    using that by (metis bit_imp_le_length bit_unsigned_iff possible_bit_nat)
  then show "v AND push_bit s w = 0"
    by (intro bit_word_eqI) (auto simp: bit_simps not_le)
qed

text \<open>A byte that is cut out of a word and put back is the part of the word at its place.\<close>

lemma bit_byte_at:
  "bit (push_bit k (ucast (ucast (drop_bit k (v :: 'v::len word)) :: u8)) :: 'w::len word) n \<longleftrightarrow>
     k \<le> n \<and> n < k + 8 \<and> n < LENGTH('w) \<and> bit v n"
  by (auto simp: bit_simps dest: bit_imp_le_length)

end
