(* ===== verification/SafeInt.thy ===== *)
theory SafeInt
  imports Prelude
begin

text \<open>
  The checked 64-bit arithmetic of \<^verbatim>\<open>src/common/safeint.h\<close>. A C function that returns
  \<open>bool\<close> and stores its result through \<open>out\<close> is a function into \<open>option\<close> (\<open>None\<close>: it
  returned false and did not touch \<open>*out\<close>). An \<open>int64_t\<close> is a 64-bit word read with
  \<open>sint\<close>; mixed expressions are converted to \<open>uint64_t\<close> as C does.

  The locale \<open>checked_accum\<close> is the contract that the amount accounting relies on: a step is
  exact when it succeeds and fails only when the mathematical result is out of range.
\<close>

definition UINT64_MAX :: u64 where "UINT64_MAX = 0xFFFFFFFFFFFFFFFF"
definition INT64_MAX :: u64 where "INT64_MAX = 0x7FFFFFFFFFFFFFFF"

definition checked_add_u64 :: "u64 \<Rightarrow> u64 \<Rightarrow> u64 option" where
  "checked_add_u64 l r = (if UINT64_MAX - l < r then None else Some (l + r))"

definition checked_sub_u64 :: "u64 \<Rightarrow> u64 \<Rightarrow> u64 option" where
  "checked_sub_u64 l r = (if r > l then None else Some (l - r))"

definition checked_add_i64 :: "u64 \<Rightarrow> u64 \<Rightarrow> u64 option" where
  "checked_add_i64 l r =
     (if sint l < 0
      then (if r \<ge> - l \<and> r + l > INT64_MAX then None else Some (l + r))
      else (if r > INT64_MAX \<or> INT64_MAX - r < l then None else Some (l + r)))"

definition checked_sub_i64 :: "u64 \<Rightarrow> u64 \<Rightarrow> u64 option" where
  "checked_sub_i64 l r =
     (if sint l < 0
      then (if r > INT64_MAX \<or> r - l > INT64_MAX + 1 then None else Some (l - r))
      else (if l < r \<and> r - l > INT64_MAX + 1 then None else Some (l - r)))"

subsection \<open>Running a checked step over a list of amounts\<close>

primrec accumulate :: "('a \<Rightarrow> 'v \<Rightarrow> 'a option) \<Rightarrow> 'a \<Rightarrow> 'v list \<Rightarrow> 'a option" where
  "accumulate step a [] = Some a"
| "accumulate step a (v # vs) =
     (case step a v of None \<Rightarrow> None | Some a' \<Rightarrow> accumulate step a' vs)"

locale checked_accum =
  fixes step :: "'a \<Rightarrow> 'v \<Rightarrow> 'a option"
    and aval :: "'a \<Rightarrow> int"
    and delta :: "'v \<Rightarrow> int"
    and lo hi :: int
  assumes step_exact: "step a v = Some a' \<Longrightarrow> aval a' = aval a + delta v"
    and step_total: "lo \<le> aval a + delta v \<Longrightarrow> aval a + delta v \<le> hi \<Longrightarrow> step a v \<noteq> None"
    and aval_lo: "lo \<le> aval a"
    and aval_hi: "aval a \<le> hi"
begin

lemma step_None_iff: "step a v = None \<longleftrightarrow> \<not> (lo \<le> aval a + delta v \<and> aval a + delta v \<le> hi)"
proof (cases "step a v")
  case None
  then show ?thesis using step_total [of a v] by auto
next
  case (Some a')
  with step_exact have "aval a' = aval a + delta v" by blast
  with Some aval_lo [of a'] aval_hi [of a'] show ?thesis by simp
qed

lemma step_map:
  "map_option aval (step a v) =
     (if lo \<le> aval a + delta v \<and> aval a + delta v \<le> hi then Some (aval a + delta v) else None)"
  using step_None_iff [of a v] step_exact [of a v] by (cases "step a v") auto

lemma accumulate_exact:
  "accumulate step a vs = Some a' \<Longrightarrow> aval a' = aval a + (\<Sum>v\<leftarrow>vs. delta v)"
  by (induction vs arbitrary: a) (auto split: option.splits dest: step_exact)

lemma accumulate_None_iff:
  "accumulate step a vs = None \<longleftrightarrow>
     (\<exists>n \<le> length vs. \<not> (lo \<le> aval a + (\<Sum>v\<leftarrow>take n vs. delta v) \<and>
                       aval a + (\<Sum>v\<leftarrow>take n vs. delta v) \<le> hi))"
proof (induction vs arbitrary: a)
  case Nil
  then show ?case by (simp add: aval_lo aval_hi)
next
  case (Cons v vs)
  define P where "P x \<longleftrightarrow> \<not> (lo \<le> x \<and> x \<le> hi)" for x
  have a0: "\<not> P (aval a)" by (simp add: P_def aval_lo aval_hi)
  have split: "(\<exists>n \<le> Suc (length vs). P (aval a + (\<Sum>v\<leftarrow>take n (v # vs). delta v))) \<longleftrightarrow>
      (\<exists>n \<le> length vs. P (aval a + delta v + (\<Sum>v\<leftarrow>take n vs. delta v)))" (is "?L \<longleftrightarrow> ?R")
  proof
    assume ?L
    then obtain n where "n \<le> Suc (length vs)" "P (aval a + (\<Sum>v\<leftarrow>take n (v # vs). delta v))" by blast
    then show ?R using a0 by (cases n) (auto simp: add.assoc)
  next
    assume ?R
    then obtain n where "n \<le> length vs" "P (aval a + delta v + (\<Sum>v\<leftarrow>take n vs. delta v))" by blast
    then show ?L by (intro exI [of _ "Suc n"]) (simp add: add.assoc)
  qed
  show ?case
  proof (cases "step a v")
    case None
    then have "P (aval a + delta v)" by (simp add: step_None_iff P_def)
    then have "\<exists>n \<le> length vs. P (aval a + delta v + (\<Sum>v\<leftarrow>take n vs. delta v))"
      by (intro exI [of _ "0::nat"]) simp
    with None split show ?thesis by (simp add: P_def)
  next
    case (Some b)
    then have "aval b = aval a + delta v" by (rule step_exact)
    with Some Cons.IH [of b] split show ?thesis by (simp add: P_def)
  qed
qed

end

subsection \<open>Reading 64-bit words as integers\<close>

lemma uint_u64_range: "0 \<le> uint (x :: u64)" "uint (x :: u64) < 18446744073709551616"
  using uint_bounded [of x] by simp_all

lemma sint_u64_cases:
  "sint (x :: u64) = (if uint x < 9223372036854775808 then uint x
                      else uint x - 18446744073709551616)"
proof -
  have r: "0 \<le> uint x" "uint x < 2 * 9223372036854775808" using uint_u64_range [of x] by simp_all
  have "uint x div 9223372036854775808 = (if uint x < 9223372036854775808 then 0 else 1)"
    using r by (auto simp: div_pos_pos_trivial intro: int_div_pos_eq [of _ _ 1 "uint x - 9223372036854775808"])
  then show ?thesis
    using r by (simp add: sint_uint signed_take_bit_eq_take_bit_minus bit_iff_odd_drop_bit
        drop_bit_eq_div take_bit_int_eq_self_iff split: if_splits)
qed

lemma uint_u64_add:
  "uint (x + y :: u64) = (if uint x + uint y < 18446744073709551616 then uint x + uint y
                          else uint x + uint y - 18446744073709551616)"
  using uint_u64_range [of x] uint_u64_range [of y] by (simp add: uint_plus_if_size word_size)

lemma uint_u64_sub:
  "uint (x - y :: u64) = (if uint y \<le> uint x then uint x - uint y
                          else uint x - uint y + 18446744073709551616)"
  using uint_u64_range [of x] uint_u64_range [of y] by (simp add: uint_sub_if_size word_size)

lemma uint_u64_neg:
  "uint (- x :: u64) = (if uint x = 0 then 0 else 18446744073709551616 - uint x)"
  using uint_u64_sub [of 0 x] uint_u64_range [of x] by simp

lemmas u64_int = uint_u64_add uint_u64_sub uint_u64_neg sint_u64_cases
  word_less_def word_le_def UINT64_MAX_def INT64_MAX_def

subsection \<open>The four operations meet the contract\<close>

interpretation add_u64: checked_accum checked_add_u64 uint uint 0 "2 ^ 64 - 1"
proof unfold_locales
  fix a v a' :: u64
  show "0 \<le> uint a" "uint a \<le> 2 ^ 64 - 1" using uint_u64_range [of a] by simp_all
  show "checked_add_u64 a v = Some a' \<Longrightarrow> uint a' = uint a + uint v"
    using uint_u64_range [of a] uint_u64_range [of v]
    by (auto simp: checked_add_u64_def u64_int split: if_splits)
  show "0 \<le> uint a + uint v \<Longrightarrow> uint a + uint v \<le> 2 ^ 64 - 1 \<Longrightarrow> checked_add_u64 a v \<noteq> None"
    using uint_u64_range [of a] uint_u64_range [of v]
    by (auto simp: checked_add_u64_def u64_int split: if_splits)
qed

interpretation sub_u64: checked_accum checked_sub_u64 uint "\<lambda>v. - uint v" 0 "2 ^ 64 - 1"
proof unfold_locales
  fix a v a' :: u64
  show "0 \<le> uint a" "uint a \<le> 2 ^ 64 - 1" using uint_u64_range [of a] by simp_all
  show "checked_sub_u64 a v = Some a' \<Longrightarrow> uint a' = uint a + - uint v"
    by (auto simp: checked_sub_u64_def u64_int split: if_splits)
  show "0 \<le> uint a + - uint v \<Longrightarrow> uint a + - uint v \<le> 2 ^ 64 - 1 \<Longrightarrow> checked_sub_u64 a v \<noteq> None"
    by (auto simp: checked_sub_u64_def u64_int split: if_splits)
qed

interpretation add_i64: checked_accum checked_add_i64 sint uint "- (2 ^ 63)" "2 ^ 63 - 1"
proof unfold_locales
  fix a v a' :: u64
  note r = uint_u64_range [of a] uint_u64_range [of v]
  show "- (2 ^ 63) \<le> sint a" "sint a \<le> 2 ^ 63 - 1"
    using sint_greater_eq [of a] sint_less [of a] by simp_all
  show "checked_add_i64 a v = Some a' \<Longrightarrow> sint a' = sint a + uint v"
    using r by (auto simp: checked_add_i64_def u64_int split: if_splits)
      (use uint_u64_range(1) [of v] in linarith)+
  show "- (2 ^ 63) \<le> sint a + uint v \<Longrightarrow> sint a + uint v \<le> 2 ^ 63 - 1 \<Longrightarrow> checked_add_i64 a v \<noteq> None"
    using r by (auto simp: checked_add_i64_def u64_int split: if_splits)
qed

interpretation sub_i64: checked_accum checked_sub_i64 sint "\<lambda>v. - uint v" "- (2 ^ 63)" "2 ^ 63 - 1"
proof unfold_locales
  fix a v a' :: u64
  note r = uint_u64_range [of a] uint_u64_range [of v]
  show "- (2 ^ 63) \<le> sint a" "sint a \<le> 2 ^ 63 - 1"
    using sint_greater_eq [of a] sint_less [of a] by simp_all
  show "checked_sub_i64 a v = Some a' \<Longrightarrow> sint a' = sint a + - uint v"
    using r by (auto simp: checked_sub_i64_def u64_int split: if_splits)
      (use uint_u64_range(1) [of v] in linarith)+
  show "- (2 ^ 63) \<le> sint a + - uint v \<Longrightarrow> sint a + - uint v \<le> 2 ^ 63 - 1 \<Longrightarrow>
        checked_sub_i64 a v \<noteq> None"
    using r by (auto simp: checked_sub_i64_def u64_int split: if_splits)
qed

subsection \<open>Properties\<close>

text \<open>
  C19. The checked additions and subtractions, signed and unsigned, are exact: each returns the
  mathematical result when it fits the 64-bit result type and fails when it does not.
\<close>

theorem checked_arithmetic_exact:
  "map_option uint (checked_add_u64 l r) =
     (if uint l + uint r \<le> 2 ^ 64 - 1 then Some (uint l + uint r) else None) \<and>
   map_option uint (checked_sub_u64 l r) =
     (if 0 \<le> uint l - uint r then Some (uint l - uint r) else None) \<and>
   map_option sint (checked_add_i64 l r) =
     (if sint l + uint r \<le> 2 ^ 63 - 1 then Some (sint l + uint r) else None) \<and>
   map_option sint (checked_sub_i64 l r) =
     (if - (2 ^ 63) \<le> sint l - uint r then Some (sint l - uint r) else None)"
proof -
  have r: "0 \<le> uint l" "0 \<le> uint r" "uint l < 2 ^ 64" "- (2 ^ 63) \<le> sint l" "sint l \<le> 2 ^ 63 - 1"
    using uint_u64_range [of l] uint_u64_range [of r] add_i64.aval_lo [of l] add_i64.aval_hi [of l] by simp_all
  have c: "(0 \<le> uint l + uint r \<and> uint l + uint r \<le> 2 ^ 64 - 1) = (uint l + uint r \<le> 2 ^ 64 - 1)"
    "(0 \<le> uint l + - uint r \<and> uint l + - uint r \<le> 2 ^ 64 - 1) = (0 \<le> uint l - uint r)"
    "(- (2 ^ 63) \<le> sint l + uint r \<and> sint l + uint r \<le> 2 ^ 63 - 1) = (sint l + uint r \<le> 2 ^ 63 - 1)"
    "(- (2 ^ 63) \<le> sint l + - uint r \<and> sint l + - uint r \<le> 2 ^ 63 - 1) = (- (2 ^ 63) \<le> sint l - uint r)"
    using r by linarith+
  show ?thesis
    using add_u64.step_map [of l r, unfolded c] sub_u64.step_map [of l r, unfolded c]
      add_i64.step_map [of l r, unfolded c] sub_i64.step_map [of l r, unfolded c]
    by (simp only: simp_thms add_uminus_conv_diff)
qed

end
