(* ===== verification/Zigzag.thy ===== *)
theory Zigzag
  imports SafeInt
begin

text \<open>
  The ZigZag integer coding of \<^verbatim>\<open>src/common/zigzag.h\<close>. An \<open>int32_t\<close> (\<open>int64_t\<close>) is a
  32-bit (64-bit) word in two's complement: \<open><<\<close> is \<open>push_bit\<close>, the arithmetic \<open>>>\<close> of a
  signed value is \<open>signed_drop_bit\<close>, the logical one of an unsigned value is \<open>drop_bit\<close>.
  The cast \<open>(uint64_t)\<close> of an \<open>int32_t\<close> expression extends the sign (\<open>scast\<close>).
\<close>

definition zigzag_encode_i32 :: "u32 \<Rightarrow> u64" where
  "zigzag_encode_i32 v = scast (push_bit 1 v XOR signed_drop_bit 31 v)"

definition zigzag_decode_i32 :: "u64 \<Rightarrow> u32" where
  "zigzag_decode_i32 v = drop_bit 1 (ucast v :: u32) XOR (- ((ucast v :: u32) AND 1))"

definition zigzag_encode_i64 :: "u64 \<Rightarrow> u64" where
  "zigzag_encode_i64 v = push_bit 1 v XOR signed_drop_bit 63 v"

definition zigzag_decode_i64 :: "u64 \<Rightarrow> u64" where
  "zigzag_decode_i64 v = drop_bit 1 v XOR (- (v AND 1))"

subsection \<open>The bits of an encoded value\<close>

lemma minus_and_1_cases: "- ((x :: 'a::len word) AND 1) = (if bit x 0 then - 1 else 0)"
  by (simp add: and_one_eq odd_iff_mod_2_eq_one bit_0)

lemma zigzag_core_roundtrip:
  fixes v :: "'a::len word"
  defines "e \<equiv> push_bit 1 v XOR signed_drop_bit (LENGTH('a) - 1) v"
  shows "drop_bit 1 e XOR (- (e AND 1)) = v"
proof (rule bit_word_eqI)
  fix n assume n: "n < LENGTH('a)"
  have b0: "bit e 0 = bit v (LENGTH('a) - 1)"
    unfolding e_def bit_xor_iff bit_push_bit_iff by (simp add: bit_simps)
  have bS: "bit e (Suc m) = (bit v m \<noteq> bit v (LENGTH('a) - 1))" if "Suc m < LENGTH('a)" for m
    using that unfolding e_def bit_xor_iff bit_push_bit_iff by (auto simp: bit_simps)
  show "bit (drop_bit 1 e XOR (- (e AND 1))) n = bit v n"
  proof (cases "Suc n < LENGTH('a)")
    case True
    then show ?thesis using n by (simp add: minus_and_1_cases bit_xor_iff bit_drop_bit_eq b0 bS)
  next
    case False
    with n have "n = LENGTH('a) - 1" by simp
    moreover have "\<not> bit e (Suc n)" using False bit_imp_le_length by blast
    ultimately show ?thesis
      using n by (simp add: minus_and_1_cases bit_xor_iff bit_drop_bit_eq b0)
  qed
qed

lemma zigzag_i64_roundtrip: "zigzag_decode_i64 (zigzag_encode_i64 v) = v"
  using zigzag_core_roundtrip [of v] by (simp add: zigzag_decode_i64_def zigzag_encode_i64_def)

lemma zigzag_i32_ucast_scast: "ucast (scast (x :: u32) :: u64) = (x :: u32)"
  by (rule bit_word_eqI) (auto simp: bit_simps)

lemma zigzag_i32_roundtrip: "zigzag_decode_i32 (zigzag_encode_i32 v) = v"
  using zigzag_core_roundtrip [of v]
  by (simp add: zigzag_decode_i32_def zigzag_encode_i32_def zigzag_i32_ucast_scast)

subsection \<open>The encoded value\<close>

lemma signed_drop_bit_sign:
  "signed_drop_bit (LENGTH('a) - 1) (v :: 'a::len word) = (if sint v < 0 then - 1 else 0)"
proof (rule bit_word_eqI)
  fix n assume "n < LENGTH('a)"
  then show "bit (signed_drop_bit (LENGTH('a) - 1) v) n = bit (if sint v < 0 then - 1 else 0 :: 'a word) n"
    by (cases n) (auto simp: bit_signed_drop_bit_iff bit_last_iff [symmetric] not_less)
qed

lemma zigzag_core_value:
  fixes v :: "'a::len word"
  shows "push_bit 1 v XOR signed_drop_bit (LENGTH('a) - 1) v = (if sint v < 0 then - (2 * v) - 1 else 2 * v)"
proof -
  have p: "push_bit 1 v = 2 * v" by simp
  show ?thesis
    unfolding signed_drop_bit_sign p by (simp add: not_eq_complement)
qed

text \<open>The mathematical ZigZag code: 0, -1, 1, -2, 2, \dots\ become 0, 1, 2, 3, 4, \dots\<close>

definition zigzag_int :: "int \<Rightarrow> int" where
  "zigzag_int i = (if i < 0 then - 2 * i - 1 else 2 * i)"

lemma uint_zigzag_core:
  fixes v :: "'a::len word"
  shows "uint (push_bit 1 v XOR signed_drop_bit (LENGTH('a) - 1) v) = zigzag_int (sint v)"
proof -
  have e: "push_bit 1 v XOR signed_drop_bit (LENGTH('a) - 1) v = word_of_int (zigzag_int (sint v))"
    unfolding zigzag_core_value by (simp add: zigzag_int_def)
  have p: "(2 :: int) ^ LENGTH('a) = 2 * 2 ^ (LENGTH('a) - 1)"
    by (simp flip: power_Suc)
  have "0 \<le> zigzag_int (sint v)" "zigzag_int (sint v) < 2 ^ LENGTH('a)"
    using sint_ge [of v] sint_lt [of v] unfolding p zigzag_int_def by auto
  then show ?thesis unfolding e by (simp add: uint_word_of_int_eq take_bit_int_eq_self)
qed

lemma uint_scast_u32:
  "uint (scast (w :: u32) :: u64) = (if uint w < 2147483648 then uint w else uint w + 18446744069414584320)"
proof -
  have r: "0 \<le> uint w" "uint w < 2 * 2147483648" using uint_bounded [of w] by simp_all
  have d: "uint w div 2147483648 = (if uint w < 2147483648 then 0 else 1)"
    using r by (auto simp: div_pos_pos_trivial intro: int_div_pos_eq [of _ _ 1 "uint w - 2147483648"])
  have "sint w = (if uint w < 2147483648 then uint w else uint w - 4294967296)"
    using r d by (simp add: sint_uint signed_take_bit_eq_take_bit_minus bit_iff_odd_drop_bit
        drop_bit_eq_div take_bit_int_eq_self_iff split: if_splits)
  moreover have "uint (scast w :: u64) = sint w mod 18446744073709551616"
    unfolding scast_eq uint_word_of_int by simp
  moreover have "(uint w - 4294967296) mod 18446744073709551616 = uint w + 18446744069414584320"
    if "\<not> uint w < 2147483648"
    by (rule int_mod_pos_eq [of _ _ "- 1"]) (use that r in simp_all)
  moreover have "uint w mod 18446744073709551616 = uint w"
    by (rule mod_pos_pos_trivial) (use r in simp_all)
  ultimately show ?thesis by (cases "uint w < 2147483648") (simp_all only: if_True if_False simp_thms)
qed

lemma zigzag_encode_i64_value: "uint (zigzag_encode_i64 v) = zigzag_int (sint v)"
  using uint_zigzag_core [of v] by (simp add: zigzag_encode_i64_def)

lemma zigzag_encode_i32_value:
  "uint (zigzag_encode_i32 v) =
     (if - (2 ^ 30) \<le> sint v \<and> sint v < 2 ^ 30 then zigzag_int (sint v)
      else zigzag_int (sint v) + (2 ^ 64 - 2 ^ 32))"
proof -
  have u: "uint (push_bit 1 v XOR signed_drop_bit 31 v) = zigzag_int (sint v)"
    using uint_zigzag_core [of v] by simp
  show ?thesis
    unfolding zigzag_encode_i32_def uint_scast_u32 u by (auto simp: zigzag_int_def)
qed

subsection \<open>Properties\<close>

text \<open>
  The 64-bit coding is the mathematical ZigZag code and decodes to the value; the 32-bit
  decoder inverts the 32-bit encoder, but the code itself is the ZigZag code only for
  values from -2^30 to 2^30 - 1: outside, the sign of the 32-bit intermediate is extended into the
  upper half of the 64-bit result.
\<close>

theorem zigzag_codes:
  "uint (zigzag_encode_i64 v) = zigzag_int (sint v) \<and> zigzag_decode_i64 (zigzag_encode_i64 v) = v \<and>
   uint (zigzag_encode_i32 w) =
     (if - (2 ^ 30) \<le> sint w \<and> sint w < 2 ^ 30 then zigzag_int (sint w)
      else zigzag_int (sint w) + (2 ^ 64 - 2 ^ 32)) \<and>
   zigzag_decode_i32 (zigzag_encode_i32 w) = w"
  by (intro conjI zigzag_encode_i64_value zigzag_i64_roundtrip zigzag_encode_i32_value zigzag_i32_roundtrip)

end
