(* ===== verification/Buffer.thy ===== *)
theory Buffer
  imports Prelude
begin

text \<open>
  The read buffer (\<open>buffer_t\<close> of the SDK, in the copy the unit tests build against,
  \<^verbatim>\<open>unit-tests/utils/buffer.c\<close>, \<^verbatim>\<open>read.c\<close> and \<^verbatim>\<open>write.c\<close>) and its
  extension \<^verbatim>\<open>src/common/buffer_ext.h\<close>/\<^verbatim>\<open>.c\<close>.

  \<open>buf_ptr\<close> is the memory the pointer addresses, \<open>buf_size\<close> and \<open>buf_offset\<close> are the
  \<open>size_t\<close> fields, with wrap-around. A read that returns \<open>false\<close> is \<open>None\<close> (the integer
  reads then store 0 through \<open>value\<close>, which no caller looks at). \<open>buffer_wf\<close> is the
  invariant every operation keeps, \<open>buffer_data\<close> the abstraction: the bytes still to be
  read.
\<close>

datatype endianness_t = BE | LE

record buffer_t =
  buf_ptr :: bytes
  buf_size :: size_t
  buf_offset :: size_t

subsection \<open>Integers in memory: \<open>read.c\<close>, \<open>write.c\<close>\<close>

definition read_u16_be :: "bytes \<Rightarrow> size_t \<Rightarrow> u16" where
  "read_u16_be ptr offset =
     (push_bit 8 (ucast (ptr ! unat (offset + 0))) OR ucast (ptr ! unat (offset + 1)))"

definition read_u16_le :: "bytes \<Rightarrow> size_t \<Rightarrow> u16" where
  "read_u16_le ptr offset =
     (ucast (ptr ! unat (offset + 0)) OR push_bit 8 (ucast (ptr ! unat (offset + 1))))"

definition read_u32_be :: "bytes \<Rightarrow> size_t \<Rightarrow> u32" where
  "read_u32_be ptr offset =
     (push_bit 24 (ucast (ptr ! unat (offset + 0))) OR push_bit 16 (ucast (ptr ! unat (offset + 1))) OR
      push_bit 8 (ucast (ptr ! unat (offset + 2))) OR ucast (ptr ! unat (offset + 3)))"

definition read_u32_le :: "bytes \<Rightarrow> size_t \<Rightarrow> u32" where
  "read_u32_le ptr offset =
     (ucast (ptr ! unat (offset + 0)) OR push_bit 8 (ucast (ptr ! unat (offset + 1))) OR
      push_bit 16 (ucast (ptr ! unat (offset + 2))) OR push_bit 24 (ucast (ptr ! unat (offset + 3))))"

definition read_u64_be :: "bytes \<Rightarrow> size_t \<Rightarrow> u64" where
  "read_u64_be ptr offset =
     (push_bit 56 (ucast (ptr ! unat (offset + 0))) OR push_bit 48 (ucast (ptr ! unat (offset + 1))) OR
      push_bit 40 (ucast (ptr ! unat (offset + 2))) OR push_bit 32 (ucast (ptr ! unat (offset + 3))) OR
      push_bit 24 (ucast (ptr ! unat (offset + 4))) OR push_bit 16 (ucast (ptr ! unat (offset + 5))) OR
      push_bit 8 (ucast (ptr ! unat (offset + 6))) OR ucast (ptr ! unat (offset + 7)))"

definition read_u64_le :: "bytes \<Rightarrow> size_t \<Rightarrow> u64" where
  "read_u64_le ptr offset =
     (ucast (ptr ! unat (offset + 0)) OR push_bit 8 (ucast (ptr ! unat (offset + 1))) OR
      push_bit 16 (ucast (ptr ! unat (offset + 2))) OR push_bit 24 (ucast (ptr ! unat (offset + 3))) OR
      push_bit 32 (ucast (ptr ! unat (offset + 4))) OR push_bit 40 (ucast (ptr ! unat (offset + 5))) OR
      push_bit 48 (ucast (ptr ! unat (offset + 6))) OR push_bit 56 (ucast (ptr ! unat (offset + 7))))"

definition write_u16_be :: "bytes \<Rightarrow> size_t \<Rightarrow> u16 \<Rightarrow> bytes" where
  "write_u16_be ptr offset value =
     mem_write ptr (unat offset) [ucast (drop_bit 8 value), ucast value]"

definition write_u16_le :: "bytes \<Rightarrow> size_t \<Rightarrow> u16 \<Rightarrow> bytes" where
  "write_u16_le ptr offset value =
     mem_write ptr (unat offset) [ucast value, ucast (drop_bit 8 value)]"

definition write_u32_be :: "bytes \<Rightarrow> size_t \<Rightarrow> u32 \<Rightarrow> bytes" where
  "write_u32_be ptr offset value =
     mem_write ptr (unat offset)
       [ucast (drop_bit 24 value), ucast (drop_bit 16 value), ucast (drop_bit 8 value), ucast value]"

definition write_u32_le :: "bytes \<Rightarrow> size_t \<Rightarrow> u32 \<Rightarrow> bytes" where
  "write_u32_le ptr offset value =
     mem_write ptr (unat offset)
       [ucast value, ucast (drop_bit 8 value), ucast (drop_bit 16 value), ucast (drop_bit 24 value)]"

definition write_u64_be :: "bytes \<Rightarrow> size_t \<Rightarrow> u64 \<Rightarrow> bytes" where
  "write_u64_be ptr offset value =
     mem_write ptr (unat offset)
       [ucast (drop_bit 56 value), ucast (drop_bit 48 value), ucast (drop_bit 40 value),
        ucast (drop_bit 32 value), ucast (drop_bit 24 value), ucast (drop_bit 16 value),
        ucast (drop_bit 8 value), ucast value]"

definition write_u64_le :: "bytes \<Rightarrow> size_t \<Rightarrow> u64 \<Rightarrow> bytes" where
  "write_u64_le ptr offset value =
     mem_write ptr (unat offset)
       [ucast value, ucast (drop_bit 8 value), ucast (drop_bit 16 value), ucast (drop_bit 24 value),
        ucast (drop_bit 32 value), ucast (drop_bit 40 value), ucast (drop_bit 48 value),
        ucast (drop_bit 56 value)]"

subsection \<open>\<open>buffer.c\<close> and \<open>buffer_ext.c\<close>\<close>

definition buffer_init :: "bytes \<Rightarrow> size_t \<Rightarrow> buffer_t" where
  "buffer_init ptr data_size = \<lparr>buf_ptr = ptr, buf_size = data_size, buf_offset = 0\<rparr>"

definition buffer_read_ptr :: "buffer_t \<Rightarrow> bytes" where
  "buffer_read_ptr b = drop (unat (buf_offset b)) (buf_ptr b)"

definition buffer_data_len :: "buffer_t \<Rightarrow> size_t" where
  "buffer_data_len b = buf_size b - buf_offset b"

definition buffer_can_read :: "buffer_t \<Rightarrow> size_t \<Rightarrow> bool" where
  "buffer_can_read b n \<longleftrightarrow> buf_size b - buf_offset b \<ge> n"

definition buffer_seek_set :: "buffer_t \<Rightarrow> size_t \<Rightarrow> bool \<times> buffer_t" where
  "buffer_seek_set b offset =
     (if offset > buf_size b then (False, b) else (True, b\<lparr>buf_offset := offset\<rparr>))"

definition buffer_seek_cur :: "buffer_t \<Rightarrow> size_t \<Rightarrow> bool \<times> buffer_t" where
  "buffer_seek_cur b offset =
     (if buf_offset b + offset < buf_offset b \<or> buf_offset b + offset > buf_size b
      then (False, b)
      else (True, b\<lparr>buf_offset := buf_offset b + offset\<rparr>))"

definition buffer_seek_end :: "buffer_t \<Rightarrow> size_t \<Rightarrow> bool \<times> buffer_t" where
  "buffer_seek_end b offset =
     (if offset > buf_size b then (False, b)
      else (True, b\<lparr>buf_offset := buf_size b - offset\<rparr>))"

definition buffer_read_u8 :: "buffer_t \<Rightarrow> u8 option \<times> buffer_t" where
  "buffer_read_u8 b =
     (if \<not> buffer_can_read b 1 then (None, b)
      else (Some (buf_ptr b ! unat (buf_offset b)), snd (buffer_seek_cur b 1)))"

definition buffer_read_u16 :: "buffer_t \<Rightarrow> endianness_t \<Rightarrow> u16 option \<times> buffer_t" where
  "buffer_read_u16 b endianness =
     (if \<not> buffer_can_read b 2 then (None, b)
      else (Some (if endianness = BE then read_u16_be (buf_ptr b) (buf_offset b)
                  else read_u16_le (buf_ptr b) (buf_offset b)),
            snd (buffer_seek_cur b 2)))"

definition buffer_read_u32 :: "buffer_t \<Rightarrow> endianness_t \<Rightarrow> u32 option \<times> buffer_t" where
  "buffer_read_u32 b endianness =
     (if \<not> buffer_can_read b 4 then (None, b)
      else (Some (if endianness = BE then read_u32_be (buf_ptr b) (buf_offset b)
                  else read_u32_le (buf_ptr b) (buf_offset b)),
            snd (buffer_seek_cur b 4)))"

definition buffer_read_u64 :: "buffer_t \<Rightarrow> endianness_t \<Rightarrow> u64 option \<times> buffer_t" where
  "buffer_read_u64 b endianness =
     (if \<not> buffer_can_read b 8 then (None, b)
      else (Some (if endianness = BE then read_u64_be (buf_ptr b) (buf_offset b)
                  else read_u64_le (buf_ptr b) (buf_offset b)),
            snd (buffer_seek_cur b 8)))"

definition buffer_copy_bytes :: "buffer_t \<Rightarrow> size_t \<Rightarrow> bytes option" where
  "buffer_copy_bytes b count =
     (if \<not> buffer_can_read b count then None
      else Some (take (unat count) (buffer_read_ptr b)))"

text \<open>
  \<open>buffer_read_bytes\<close> returns the result of the final \<open>buffer_seek_cur\<close>: the bytes are
  already copied when the seek fails, and the call still reports failure.
\<close>

definition buffer_read_bytes :: "buffer_t \<Rightarrow> size_t \<Rightarrow> bytes option \<times> buffer_t" where
  "buffer_read_bytes b count =
     (case buffer_copy_bytes b count of
        None \<Rightarrow> (None, b)
      | Some out \<Rightarrow>
          (case buffer_seek_cur b count of
             (True, b') \<Rightarrow> (Some out, b')
           | (False, b') \<Rightarrow> (None, b')))"

subsection \<open>Invariant and abstraction\<close>

definition buffer_wf :: "buffer_t \<Rightarrow> bool" where
  "buffer_wf b \<longleftrightarrow> buf_offset b \<le> buf_size b \<and> unat (buf_size b) \<le> length (buf_ptr b)"

definition buffer_data :: "buffer_t \<Rightarrow> bytes" where
  "buffer_data b = take (unat (buffer_data_len b)) (buffer_read_ptr b)"

definition buffer_skip :: "buffer_t \<Rightarrow> size_t \<Rightarrow> buffer_t" where
  "buffer_skip b n = b\<lparr>buf_offset := buf_offset b + n\<rparr>"

lemma buffer_wfD:
  assumes "buffer_wf b"
  shows "unat (buf_offset b) \<le> unat (buf_size b)" "unat (buf_size b) \<le> length (buf_ptr b)"
    "unat (buffer_data_len b) = unat (buf_size b) - unat (buf_offset b)"
  using assms by (auto simp: buffer_wf_def buffer_data_len_def word_le_nat_alt word_sub_le_unat)

lemma buffer_wf_init [wf_intros]: "unat n \<le> length xs \<Longrightarrow> buffer_wf (buffer_init xs n)"
  by (simp add: buffer_wf_def buffer_init_def)

lemma buffer_data_init [buf_simps]: "buffer_data (buffer_init xs n) = take (unat n) xs"
  by (simp add: buffer_data_def buffer_init_def buffer_data_len_def buffer_read_ptr_def)

lemma length_buffer_data:
  "buffer_wf b \<Longrightarrow> length (buffer_data b) = unat (buffer_data_len b)"
  using buffer_wfD [of b] by (simp add: buffer_data_def buffer_read_ptr_def)

lemma unat_buffer_data_len [buf_simps]:
  "buffer_wf b \<Longrightarrow> unat (buffer_data_len b) = length (buffer_data b)"
  by (simp add: length_buffer_data)

lemma buffer_data_empty_iff: "buffer_wf b \<Longrightarrow> buffer_data b = [] \<longleftrightarrow> buffer_data_len b = 0"
  by (metis length_0_conv length_buffer_data unat_eq_zero)

lemma buffer_can_read_iff [buf_simps]:
  "buffer_wf b \<Longrightarrow> buffer_can_read b n \<longleftrightarrow> unat n \<le> length (buffer_data b)"
  by (simp add: buffer_can_read_def length_buffer_data word_le_nat_alt flip: buffer_data_len_def)

lemma buffer_offset_add:
  assumes "buffer_wf b" and "unat n \<le> length (buffer_data b)"
  shows "unat (buf_offset b + n) = unat (buf_offset b) + unat n"
    and "unat (buf_offset b) + unat n \<le> unat (buf_size b)"
proof -
  note w = buffer_wfD [OF assms(1)]
  show le: "unat (buf_offset b) + unat n \<le> unat (buf_size b)"
    using assms(2) w by (simp add: length_buffer_data [OF assms(1)])
  have "unat (buf_size b) < 2 ^ 32" using unsigned_less [of "buf_size b"] by simp
  with le show "unat (buf_offset b + n) = unat (buf_offset b) + unat n"
    by (intro word_add_no_wrap) simp
qed

lemma buffer_seek_cur_ok [buf_simps]:
  assumes "buffer_wf b" and "unat n \<le> length (buffer_data b)"
  shows "buffer_seek_cur b n = (True, buffer_skip b n)"
  using buffer_offset_add [OF assms]
  by (simp add: buffer_seek_cur_def buffer_skip_def word_less_nat_alt)

lemma buffer_wf_skip [wf_intros]:
  assumes "buffer_wf b" and "unat n \<le> length (buffer_data b)"
  shows "buffer_wf (buffer_skip b n)"
  using buffer_offset_add [OF assms] assms(1)
  by (simp add: buffer_wf_def buffer_skip_def word_le_nat_alt)

lemma buffer_data_skip [buf_simps]:
  assumes "buffer_wf b" and "unat n \<le> length (buffer_data b)"
  shows "buffer_data (buffer_skip b n) = drop (unat n) (buffer_data b)"
proof -
  note o = buffer_offset_add [OF assms]
  note w = buffer_wfD [OF buffer_wf_skip [OF assms]] buffer_wfD [OF assms(1)]
  have len: "unat (buffer_data_len (buffer_skip b n)) = unat (buffer_data_len b) - unat n"
    using o w by (simp add: buffer_skip_def)
  have "buffer_read_ptr (buffer_skip b n) = drop (unat n) (buffer_read_ptr b)"
    using o by (simp add: buffer_read_ptr_def buffer_skip_def add.commute)
  with len show ?thesis by (simp add: buffer_data_def drop_take)
qed

lemma buffer_skip_fields [simp]:
  "buf_ptr (buffer_skip b n) = buf_ptr b" "buf_size (buffer_skip b n) = buf_size b"
  by (simp_all add: buffer_skip_def)

lemma take_buffer_read_ptr:
  "n \<le> unat (buffer_data_len b) \<Longrightarrow> take n (buffer_read_ptr b) = take n (buffer_data b)"
  by (simp add: buffer_data_def)

lemma buffer_nth:
  assumes "buffer_wf b" and "k < length (buffer_data b)" and "k < 2 ^ 32"
  shows "buf_ptr b ! unat (buf_offset b + of_nat k) = buffer_data b ! k"
proof -
  have k: "unat (of_nat k :: size_t) = k" using assms(3) by (simp add: unsigned_of_nat take_bit_nat_eq_self)
  have "unat (buf_offset b + of_nat k) = unat (buf_offset b) + k"
    using buffer_offset_add(1) [OF assms(1), of "of_nat k"] assms(2) k by simp
  then show ?thesis
    using assms(2) buffer_wfD [OF assms(1)]
    by (simp add: buffer_data_def buffer_read_ptr_def)
qed

subsection \<open>What the reads return\<close>

lemma buffer_read_bytes_eq [buf_simps]:
  "buffer_wf b \<Longrightarrow> buffer_read_bytes b n =
     (if unat n \<le> length (buffer_data b)
      then (Some (take (unat n) (buffer_data b)), buffer_skip b n) else (None, b))"
  by (simp add: buffer_read_bytes_def buffer_copy_bytes_def buffer_can_read_iff buffer_seek_cur_ok
      take_buffer_read_ptr length_buffer_data)

lemma buffer_read_u8_eq [buf_simps]:
  "buffer_wf b \<Longrightarrow> buffer_read_u8 b =
     (case buffer_data b of [] \<Rightarrow> (None, b) | x # _ \<Rightarrow> (Some x, buffer_skip b 1))"
  using buffer_nth [of b 0]
  by (auto simp: buffer_read_u8_def buf_simps split: list.splits)

primrec word_of_be :: "bytes \<Rightarrow> 'a::len word \<Rightarrow> 'a word" where
  "word_of_be [] acc = acc"
| "word_of_be (x # xs) acc = word_of_be xs (push_bit 8 acc OR ucast x)"

lemma list_of_8:
  "8 \<le> length xs \<Longrightarrow> take 8 xs = [xs!0, xs!1, xs!2, xs!3, xs!4, xs!5, xs!6, xs!7]"
  by (auto simp: list_eq_iff_nth_eq less_Suc_eq numeral_eq_Suc)

lemma list_of_4: "4 \<le> length xs \<Longrightarrow> take 4 xs = [xs!0, xs!1, xs!2, xs!3]"
  by (auto simp: list_eq_iff_nth_eq less_Suc_eq numeral_eq_Suc)

lemma list_of_2: "2 \<le> length xs \<Longrightarrow> take 2 xs = [xs!0, xs!1]"
  by (auto simp: list_eq_iff_nth_eq less_Suc_eq numeral_eq_Suc)

lemma buffer_read_u64_be_eq [buf_simps]:
  assumes "buffer_wf b"
  shows "buffer_read_u64 b BE =
     (if 8 \<le> length (buffer_data b)
      then (Some (word_of_be (take 8 (buffer_data b)) 0), buffer_skip b 8) else (None, b))"
proof (cases "8 \<le> length (buffer_data b)")
  case True
  have "buf_ptr b ! unat (buf_offset b + of_nat k) = buffer_data b ! k" if "k < 8" for k
    using buffer_nth [OF assms] True that by simp
  from this [of 0] this [of 1] this [of 2] this [of 3] this [of 4] this [of 5] this [of 6] this [of 7]
  have "read_u64_be (buf_ptr b) (buf_offset b) = word_of_be (take 8 (buffer_data b)) 0"
    by (simp add: read_u64_be_def list_of_8 [OF True] push_bit_or or.assoc)
  then show ?thesis using True assms by (simp add: buffer_read_u64_def buf_simps)
qed (use assms in \<open>simp add: buffer_read_u64_def buf_simps\<close>)

lemma buffer_read_u32_be_eq [buf_simps]:
  assumes "buffer_wf b"
  shows "buffer_read_u32 b BE =
     (if 4 \<le> length (buffer_data b)
      then (Some (word_of_be (take 4 (buffer_data b)) 0), buffer_skip b 4) else (None, b))"
proof (cases "4 \<le> length (buffer_data b)")
  case True
  have "buf_ptr b ! unat (buf_offset b + of_nat k) = buffer_data b ! k" if "k < 4" for k
    using buffer_nth [OF assms] True that by simp
  from this [of 0] this [of 1] this [of 2] this [of 3]
  have "read_u32_be (buf_ptr b) (buf_offset b) = word_of_be (take 4 (buffer_data b)) 0"
    by (simp add: read_u32_be_def list_of_4 [OF True] push_bit_or or.assoc)
  then show ?thesis using True assms by (simp add: buffer_read_u32_def buf_simps)
qed (use assms in \<open>simp add: buffer_read_u32_def buf_simps\<close>)

lemma buffer_read_u16_be_eq [buf_simps]:
  assumes "buffer_wf b"
  shows "buffer_read_u16 b BE =
     (if 2 \<le> length (buffer_data b)
      then (Some (word_of_be (take 2 (buffer_data b)) 0), buffer_skip b 2) else (None, b))"
proof (cases "2 \<le> length (buffer_data b)")
  case True
  have "buf_ptr b ! unat (buf_offset b + of_nat k) = buffer_data b ! k" if "k < 2" for k
    using buffer_nth [OF assms] True that by simp
  from this [of 0] this [of 1]
  have "read_u16_be (buf_ptr b) (buf_offset b) = word_of_be (take 2 (buffer_data b)) 0"
    by (simp add: read_u16_be_def list_of_2 [OF True] push_bit_or or.assoc)
  then show ?thesis using True assms by (simp add: buffer_read_u16_def buf_simps)
qed (use assms in \<open>simp add: buffer_read_u16_def buf_simps\<close>)

subsection \<open>Reads make progress (also on buffers that are not well formed)\<close>

lemma buffer_seek_cur_data_len:
  "buffer_seek_cur b n = (True, b') \<Longrightarrow> buffer_data_len b' = buffer_data_len b - n"
  by (auto simp: buffer_seek_cur_def buffer_data_len_def split: if_splits)

lemma buffer_read_bytes_progress:
  assumes "buffer_read_bytes b n = (Some out, b')" and "n \<noteq> 0"
  shows "unat (buffer_data_len b') < unat (buffer_data_len b)"
proof -
  from assms(1) have "n \<le> buffer_data_len b" and s: "buffer_seek_cur b n = (True, b')"
    by (auto simp: buffer_read_bytes_def buffer_copy_bytes_def buffer_can_read_def buffer_data_len_def
        split: option.splits prod.splits bool.splits if_splits)
  with buffer_seek_cur_data_len [OF s] assms(2) word_sub_less show ?thesis
    by (simp add: word_less_nat_alt)
qed

lemma buffer_read_u64_progress:
  assumes "buffer_read_u64 b e = (Some v, b')"
  shows "unat (buffer_data_len b') \<le> unat (buffer_data_len b)"
proof -
  from assms have le: "8 \<le> buffer_data_len b" and b': "b' = snd (buffer_seek_cur b 8)"
    by (auto simp: buffer_read_u64_def buffer_can_read_def buffer_data_len_def split: if_splits)
  have "b' = b \<or> buffer_data_len b' = buffer_data_len b - 8"
    unfolding b' by (auto simp: buffer_seek_cur_def buffer_data_len_def)
  moreover have "buffer_data_len b - 8 \<le> buffer_data_len b" using le by (simp add: word_sub_le)
  ultimately show ?thesis by (auto simp: word_le_nat_alt)
qed

subsection \<open>Big-endian integers survive a write and a read\<close>

lemma word_of_be_step:
  "push_bit 8 (drop_bit (k + 8) v) OR ucast (ucast (drop_bit k v) :: u8) = drop_bit k (v :: 'a::len word)"
proof (rule bit_word_eqI)
  fix n assume n: "n < LENGTH('a)"
  show "bit (push_bit 8 (drop_bit (k + 8) v) OR ucast (ucast (drop_bit k v) :: u8)) n = bit (drop_bit k v) n"
  proof (cases "n < 8")
    case True
    then show ?thesis using n by (simp add: bit_simps)
  next
    case False
    then have "k + 8 + (n - 8) = k + n" by simp
    with False n show ?thesis by (simp add: bit_simps)
  qed
qed

lemma word_of_be_drop:
  "word_of_be (ucast (drop_bit k v) # xs) (drop_bit (k + 8) v) = word_of_be xs (drop_bit k v)"
  by (simp only: word_of_be.simps word_of_be_step)

lemma word_of_be_u16: "word_of_be [ucast (drop_bit 8 v), ucast v] 0 = (v :: u16)"
proof -
  have z: "(0 :: u16) = drop_bit (8 + 8) v" by (rule bit_word_eqI) (simp add: bit_simps)
  note d = word_of_be_drop [where v = v]
  show ?thesis unfolding z d using d [of 0 "[]"] by (simp del: word_of_be.simps(2))
qed

lemma word_of_be_u32:
  "word_of_be [ucast (drop_bit 24 v), ucast (drop_bit 16 v), ucast (drop_bit 8 v), ucast v] 0 = (v :: u32)"
proof -
  have z: "(0 :: u32) = drop_bit (24 + 8) v" by (rule bit_word_eqI) (simp add: bit_simps)
  note d = word_of_be_drop [where v = v]
  show ?thesis
    unfolding z d using d [of 16] d [of 8] d [of 0 "[]"] by (simp del: word_of_be.simps(2))
qed

lemma word_of_be_u64:
  "word_of_be [ucast (drop_bit 56 v), ucast (drop_bit 48 v), ucast (drop_bit 40 v),
      ucast (drop_bit 32 v), ucast (drop_bit 24 v), ucast (drop_bit 16 v), ucast (drop_bit 8 v),
      ucast v] 0 = (v :: u64)"
proof -
  have z: "(0 :: u64) = drop_bit (56 + 8) v" by (rule bit_word_eqI) (simp add: bit_simps)
  note d = word_of_be_drop [where v = v]
  show ?thesis
    unfolding z d using d [of 48] d [of 40] d [of 32] d [of 24] d [of 16] d [of 8] d [of 0 "[]"]
    by (simp del: word_of_be.simps(2))
qed

end
