(* ===== verification/RwBuffer.thy ===== *)
theory RwBuffer
  imports Buffer
begin

text \<open>
  The read/write buffer of \<^verbatim>\<open>src/common/rwbuffer.h\<close> and \<^verbatim>\<open>rwbuffer.c\<close>: a read
  buffer whose \<open>size\<close> is the write position, and the allocated size. The functions that
  store through the buffer pointer return the updated buffer; a \<open>false\<close> result leaves it
  unchanged. \<open>rw_wf\<close> is the invariant, \<open>rw_data\<close> the abstraction (the bytes written and not
  yet read) and \<open>rw_append\<close> the effect of a successful write.
\<close>

record rw_buffer_t =
  rw_read :: buffer_t
  rw_size :: size_t

definition rw_buffer_init :: "bytes \<Rightarrow> size_t \<Rightarrow> size_t \<Rightarrow> rw_buffer_t" where
  "rw_buffer_init ptr bsize data_size = \<lparr>rw_read = buffer_init ptr data_size, rw_size = bsize\<rparr>"

text \<open>\<open>RW_BUFFER_NEW_LOCAL_EMPTY\<close>: a local array; its initial bytes are never read, here 0.\<close>

definition rw_buffer_new_local_empty :: "size_t \<Rightarrow> rw_buffer_t" where
  "rw_buffer_new_local_empty n = rw_buffer_init (replicate (unat n) 0) n 0"

definition rw_buffer_empty :: "rw_buffer_t \<Rightarrow> rw_buffer_t" where
  "rw_buffer_empty b = b\<lparr>rw_read := (rw_read b)\<lparr>buf_offset := 0, buf_size := 0\<rparr>\<rparr>"

definition rw_buffer_data_len :: "rw_buffer_t \<Rightarrow> size_t" where
  "rw_buffer_data_len b = buffer_data_len (rw_read b)"

definition rw_buffer_empty_space_len :: "rw_buffer_t \<Rightarrow> size_t" where
  "rw_buffer_empty_space_len b = rw_size b - buf_size (rw_read b)"

definition rw_buffer_read_ptr :: "rw_buffer_t \<Rightarrow> bytes" where
  "rw_buffer_read_ptr b = buffer_read_ptr (rw_read b)"

definition rw_buffer_write_ptr :: "rw_buffer_t \<Rightarrow> nat" where
  "rw_buffer_write_ptr b = unat (buf_size (rw_read b))"

definition rw_buffer_can_read :: "rw_buffer_t \<Rightarrow> size_t \<Rightarrow> bool" where
  "rw_buffer_can_read b n \<longleftrightarrow> buffer_can_read (rw_read b) n"

definition rw_buffer_can_write :: "rw_buffer_t \<Rightarrow> size_t \<Rightarrow> bool" where
  "rw_buffer_can_write b n \<longleftrightarrow> rw_buffer_empty_space_len b \<ge> n"

definition rw_buffer_read_position :: "rw_buffer_t \<Rightarrow> size_t" where
  "rw_buffer_read_position b = buf_offset (rw_read b)"

definition rw_buffer_write_position :: "rw_buffer_t \<Rightarrow> size_t" where
  "rw_buffer_write_position b = buf_size (rw_read b)"

text \<open>The wrappers that run a read operation on the inner buffer.\<close>

definition rw_lift :: "(buffer_t \<Rightarrow> 'r \<times> buffer_t) \<Rightarrow> rw_buffer_t \<Rightarrow> 'r \<times> rw_buffer_t" where
  "rw_lift f b = (case f (rw_read b) of (r, rb) \<Rightarrow> (r, b\<lparr>rw_read := rb\<rparr>))"

definition rw_buffer_seek_read_set :: "rw_buffer_t \<Rightarrow> size_t \<Rightarrow> bool \<times> rw_buffer_t" where
  "rw_buffer_seek_read_set b offset = rw_lift (\<lambda>r. buffer_seek_set r offset) b"

definition rw_buffer_seek_read_cur :: "rw_buffer_t \<Rightarrow> size_t \<Rightarrow> bool \<times> rw_buffer_t" where
  "rw_buffer_seek_read_cur b offset = rw_lift (\<lambda>r. buffer_seek_cur r offset) b"

definition rw_buffer_seek_read_end :: "rw_buffer_t \<Rightarrow> size_t \<Rightarrow> bool \<times> rw_buffer_t" where
  "rw_buffer_seek_read_end b offset = rw_lift (\<lambda>r. buffer_seek_end r offset) b"

definition rw_buffer_read_u8 :: "rw_buffer_t \<Rightarrow> u8 option \<times> rw_buffer_t" where
  "rw_buffer_read_u8 b = rw_lift buffer_read_u8 b"

definition rw_buffer_read_u16 :: "rw_buffer_t \<Rightarrow> endianness_t \<Rightarrow> u16 option \<times> rw_buffer_t" where
  "rw_buffer_read_u16 b e = rw_lift (\<lambda>r. buffer_read_u16 r e) b"

definition rw_buffer_read_u32 :: "rw_buffer_t \<Rightarrow> endianness_t \<Rightarrow> u32 option \<times> rw_buffer_t" where
  "rw_buffer_read_u32 b e = rw_lift (\<lambda>r. buffer_read_u32 r e) b"

definition rw_buffer_read_u64 :: "rw_buffer_t \<Rightarrow> endianness_t \<Rightarrow> u64 option \<times> rw_buffer_t" where
  "rw_buffer_read_u64 b e = rw_lift (\<lambda>r. buffer_read_u64 r e) b"

definition rw_buffer_read_bytes :: "rw_buffer_t \<Rightarrow> size_t \<Rightarrow> bytes option \<times> rw_buffer_t" where
  "rw_buffer_read_bytes b count = rw_lift (\<lambda>r. buffer_read_bytes r count) b"

definition rw_buffer_copy_bytes :: "rw_buffer_t \<Rightarrow> size_t \<Rightarrow> bytes option" where
  "rw_buffer_copy_bytes b count = buffer_copy_bytes (rw_read b) count"

definition rw_buffer_seek_write_set :: "rw_buffer_t \<Rightarrow> size_t \<Rightarrow> bool \<times> rw_buffer_t" where
  "rw_buffer_seek_write_set b offset =
     (if offset > rw_size b then (False, b)
      else (True, b\<lparr>rw_read := (rw_read b)\<lparr>buf_size := offset\<rparr>\<rparr>))"

definition rw_buffer_seek_write_cur :: "rw_buffer_t \<Rightarrow> size_t \<Rightarrow> bool \<times> rw_buffer_t" where
  "rw_buffer_seek_write_cur b offset =
     (let w = buf_size (rw_read b) in
      if w + offset < w \<or> w + offset > rw_size b then (False, b)
      else (True, b\<lparr>rw_read := (rw_read b)\<lparr>buf_size := w + offset\<rparr>\<rparr>))"

definition rw_buffer_seek_write_end :: "rw_buffer_t \<Rightarrow> size_t \<Rightarrow> bool \<times> rw_buffer_t" where
  "rw_buffer_seek_write_end b offset =
     (if offset > rw_size b then (False, b)
      else (True, b\<lparr>rw_read := (rw_read b)\<lparr>buf_size := rw_size b - offset\<rparr>\<rparr>))"

text \<open>A store through \<open>buffer->read.ptr\<close>.\<close>

definition rw_store :: "(bytes \<Rightarrow> bytes) \<Rightarrow> rw_buffer_t \<Rightarrow> rw_buffer_t" where
  "rw_store f b = b\<lparr>rw_read := (rw_read b)\<lparr>buf_ptr := f (buf_ptr (rw_read b))\<rparr>\<rparr>"

definition rw_buffer_write_u8 :: "rw_buffer_t \<Rightarrow> u8 \<Rightarrow> bool \<times> rw_buffer_t" where
  "rw_buffer_write_u8 b v =
     (if \<not> rw_buffer_can_write b 1 then (False, b)
      else let b1 = rw_store (\<lambda>p. p[unat (buf_size (rw_read b)) := v]) b
           in (True, snd (rw_buffer_seek_write_cur b1 1)))"

definition rw_buffer_write_u16 :: "rw_buffer_t \<Rightarrow> u16 \<Rightarrow> endianness_t \<Rightarrow> bool \<times> rw_buffer_t" where
  "rw_buffer_write_u16 b v e =
     (if \<not> rw_buffer_can_write b 2 then (False, b)
      else let b1 = rw_store (\<lambda>p. if e = BE then write_u16_be p (buf_size (rw_read b)) v
                                  else write_u16_le p (buf_size (rw_read b)) v) b
           in (True, snd (rw_buffer_seek_write_cur b1 2)))"

definition rw_buffer_write_u32 :: "rw_buffer_t \<Rightarrow> u32 \<Rightarrow> endianness_t \<Rightarrow> bool \<times> rw_buffer_t" where
  "rw_buffer_write_u32 b v e =
     (if \<not> rw_buffer_can_write b 4 then (False, b)
      else let b1 = rw_store (\<lambda>p. if e = BE then write_u32_be p (buf_size (rw_read b)) v
                                  else write_u32_le p (buf_size (rw_read b)) v) b
           in (True, snd (rw_buffer_seek_write_cur b1 4)))"

definition rw_buffer_write_u64 :: "rw_buffer_t \<Rightarrow> u64 \<Rightarrow> endianness_t \<Rightarrow> bool \<times> rw_buffer_t" where
  "rw_buffer_write_u64 b v e =
     (if \<not> rw_buffer_can_write b 8 then (False, b)
      else let b1 = rw_store (\<lambda>p. if e = BE then write_u64_be p (buf_size (rw_read b)) v
                                  else write_u64_le p (buf_size (rw_read b)) v) b
           in (True, snd (rw_buffer_seek_write_cur b1 8)))"

definition rw_buffer_write_bytes :: "rw_buffer_t \<Rightarrow> bytes \<Rightarrow> size_t \<Rightarrow> bool \<times> rw_buffer_t" where
  "rw_buffer_write_bytes b from from_len =
     (if \<not> rw_buffer_can_write b from_len then (False, b)
      else let b1 = rw_store (\<lambda>p. mem_write p (rw_buffer_write_ptr b) (take (unat from_len) from)) b
           in (True, snd (rw_buffer_seek_write_cur b1 from_len)))"

definition rw_buffer_shift_data :: "rw_buffer_t \<Rightarrow> rw_buffer_t" where
  "rw_buffer_shift_data b =
     (if rw_buffer_read_position b = 0 then b
      else let data_len = rw_buffer_data_len b;
               b1 = rw_store (\<lambda>p. mem_write p 0 (take (unat data_len) (rw_buffer_read_ptr b))) b;
               b2 = snd (rw_buffer_seek_read_set b1 0)
           in snd (rw_buffer_seek_write_set b2 data_len))"

subsection \<open>Invariant, abstraction and the effect of a write\<close>

definition rw_wf :: "rw_buffer_t \<Rightarrow> bool" where
  "rw_wf b \<longleftrightarrow> buf_offset (rw_read b) \<le> buf_size (rw_read b) \<and> buf_size (rw_read b) \<le> rw_size b \<and>
     unat (rw_size b) \<le> length (buf_ptr (rw_read b))"

definition rw_data :: "rw_buffer_t \<Rightarrow> bytes" where
  "rw_data b = buffer_data (rw_read b)"

definition rw_space :: "rw_buffer_t \<Rightarrow> nat" where
  "rw_space b = unat (rw_size b) - unat (buf_size (rw_read b))"

definition rw_append :: "rw_buffer_t \<Rightarrow> bytes \<Rightarrow> rw_buffer_t" where
  "rw_append b bs = b\<lparr>rw_read := (rw_read b)
     \<lparr>buf_ptr := mem_write (buf_ptr (rw_read b)) (unat (buf_size (rw_read b))) bs,
      buf_size := buf_size (rw_read b) + of_nat (length bs)\<rparr>\<rparr>"

lemma rw_wfD:
  assumes "rw_wf b"
  shows "buffer_wf (rw_read b)"
    "unat (buf_offset (rw_read b)) \<le> unat (buf_size (rw_read b))"
    "unat (buf_size (rw_read b)) \<le> unat (rw_size b)"
    "unat (rw_size b) \<le> length (buf_ptr (rw_read b))"
    "unat (rw_size b) < 2 ^ 32"
  using assms unsigned_less [of "rw_size b"]
  by (auto simp: rw_wf_def buffer_wf_def word_le_nat_alt)

lemma rw_can_write_iff [buf_simps]:
  "rw_wf b \<Longrightarrow> rw_buffer_can_write b n \<longleftrightarrow> unat n \<le> rw_space b"
  unfolding rw_buffer_can_write_def rw_buffer_empty_space_len_def rw_space_def word_le_nat_alt
  by (subst word_sub_le_unat) (simp_all add: rw_wf_def)

lemma rw_seek_write_cur_ok:
  assumes "rw_wf b" and "unat n \<le> rw_space b"
  shows "rw_buffer_seek_write_cur (rw_store f b) n =
     (True, (rw_store f b)\<lparr>rw_read := (rw_read (rw_store f b))\<lparr>buf_size := buf_size (rw_read b) + n\<rparr>\<rparr>)"
    and "unat (buf_size (rw_read b) + n) = unat (buf_size (rw_read b)) + unat n"
proof -
  note w = rw_wfD [OF assms(1)]
  have le: "unat (buf_size (rw_read b)) + unat n \<le> unat (rw_size b)"
    using assms(2) w(3) by (simp add: rw_space_def)
  show u: "unat (buf_size (rw_read b) + n) = unat (buf_size (rw_read b)) + unat n"
    using le w(5) by (intro word_add_no_wrap) simp
  show "rw_buffer_seek_write_cur (rw_store f b) n =
     (True, (rw_store f b)\<lparr>rw_read := (rw_read (rw_store f b))\<lparr>buf_size := buf_size (rw_read b) + n\<rparr>\<rparr>)"
    using u le by (simp add: rw_buffer_seek_write_cur_def rw_store_def word_less_nat_alt Let_def)
qed

lemma rw_store_seek:
  assumes "rw_wf b" and "unat n \<le> rw_space b"
  shows "snd (rw_buffer_seek_write_cur (rw_store f b) n) =
     b\<lparr>rw_read := (rw_read b)\<lparr>buf_ptr := f (buf_ptr (rw_read b)), buf_size := buf_size (rw_read b) + n\<rparr>\<rparr>"
  unfolding rw_seek_write_cur_ok(1) [OF assms] by (simp add: rw_store_def)

lemma rw_write_bytes_eq [buf_simps]:
  assumes "rw_wf b" and "unat n \<le> length xs"
  shows "rw_buffer_write_bytes b xs n =
     (if unat n \<le> rw_space b then (True, rw_append b (take (unat n) xs)) else (False, b))"
  using assms
  by (simp add: rw_buffer_write_bytes_def rw_can_write_iff rw_append_def rw_store_seek Let_def
      rw_buffer_write_ptr_def min_absorb2)

lemma rw_write_u8_eq [buf_simps]:
  assumes "rw_wf b"
  shows "rw_buffer_write_u8 b v = (if 1 \<le> rw_space b then (True, rw_append b [v]) else (False, b))"
proof -
  have "p[k := v] = mem_write p k [v]" if "k < length p" for p :: bytes and k
    using that by (simp add: mem_write_def upd_conv_take_nth_drop)
  moreover have "unat (buf_size (rw_read b)) < length (buf_ptr (rw_read b))" if "1 \<le> rw_space b"
    using that rw_wfD [OF assms] by (simp add: rw_space_def)
  ultimately show ?thesis
    using assms by (simp add: rw_buffer_write_u8_def rw_can_write_iff rw_append_def rw_store_seek Let_def)
qed

lemma rw_write_u64_be_eq [buf_simps]:
  assumes "rw_wf b"
  shows "rw_buffer_write_u64 b v BE =
     (if 8 \<le> rw_space b
      then (True, rw_append b [ucast (drop_bit 56 v), ucast (drop_bit 48 v), ucast (drop_bit 40 v),
              ucast (drop_bit 32 v), ucast (drop_bit 24 v), ucast (drop_bit 16 v),
              ucast (drop_bit 8 v), ucast v])
      else (False, b))"
  using assms
  by (simp add: rw_buffer_write_u64_def rw_can_write_iff rw_append_def rw_store_seek Let_def write_u64_be_def)

lemma rw_append_props:
  assumes "rw_wf b" and "length bs \<le> rw_space b"
  shows rw_wf_append [wf_intros]: "rw_wf (rw_append b bs)"
    and rw_data_append [buf_simps]: "rw_data (rw_append b bs) = rw_data b @ bs"
    and rw_space_append [buf_simps]: "rw_space (rw_append b bs) = rw_space b - length bs"
    and rw_size_append [buf_simps]: "rw_size (rw_append b bs) = rw_size b"
proof -
  note w = rw_wfD [OF assms(1)]
  define n :: size_t where "n = of_nat (length bs)"
  have n: "unat n = length bs"
    using assms(2) w(3,5) by (simp add: n_def rw_space_def unsigned_of_nat take_bit_nat_eq_self)
  have u: "unat (buf_size (rw_read b) + n) = unat (buf_size (rw_read b)) + length bs"
    using rw_seek_write_cur_ok(2) [OF assms(1), of n] assms(2) n by simp
  have le: "unat (buf_size (rw_read b)) + length bs \<le> unat (rw_size b)"
    using assms(2) w(3) by (simp add: rw_space_def)
  have "length (mem_write (buf_ptr (rw_read b)) (unat (buf_size (rw_read b))) bs) = length (buf_ptr (rw_read b))"
    using le w(4) by simp
  then show wf: "rw_wf (rw_append b bs)"
    using le u w by (simp add: rw_wf_def rw_append_def word_le_nat_alt flip: n_def)
  show "rw_space (rw_append b bs) = rw_space b - length bs"
    using u by (simp add: rw_space_def rw_append_def flip: n_def)
  show "rw_size (rw_append b bs) = rw_size b" by (simp add: rw_append_def)
  have d: "buffer_data r = drop (unat (buf_offset r)) (take (unat (buf_size r)) (buf_ptr r))"
    if "buffer_wf r" for r
    using buffer_wfD [OF that] by (simp add: buffer_data_def buffer_read_ptr_def drop_take)
  have "take (unat (buf_size (rw_read b)) + length bs)
      (mem_write (buf_ptr (rw_read b)) (unat (buf_size (rw_read b))) bs)
      = take (unat (buf_size (rw_read b))) (buf_ptr (rw_read b)) @ bs"
    using le w(4) by (intro take_mem_write_all) simp
  then show "rw_data (rw_append b bs) = rw_data b @ bs"
    using d [OF rw_wfD(1) [OF wf]] d [OF w(1)] u w
    by (simp add: rw_data_def rw_append_def flip: n_def)
qed

lemma rw_new_local_empty [wf_intros]: "rw_wf (rw_buffer_new_local_empty n)"
  by (simp add: rw_wf_def rw_buffer_new_local_empty_def rw_buffer_init_def buffer_init_def)

lemma rw_new_local_empty_simps [buf_simps]:
  "rw_data (rw_buffer_new_local_empty n) = []"
  "rw_space (rw_buffer_new_local_empty n) = unat n"
  "rw_size (rw_buffer_new_local_empty n) = n"
  by (simp_all add: rw_data_def rw_space_def rw_buffer_new_local_empty_def rw_buffer_init_def
      buf_simps) (simp_all add: buffer_init_def)

lemma rw_init_empty [wf_intros]: "unat n \<le> length xs \<Longrightarrow> rw_wf (rw_buffer_init xs n 0)"
  by (simp add: rw_wf_def rw_buffer_init_def buffer_init_def)

lemma rw_init_empty_simps [buf_simps]:
  "rw_data (rw_buffer_init xs n 0) = []" "rw_space (rw_buffer_init xs n 0) = unat n"
  by (simp_all add: rw_data_def rw_space_def rw_buffer_init_def buf_simps) (simp add: buffer_init_def)

lemma rw_empty_props:
  assumes "rw_wf b"
  shows rw_wf_empty [wf_intros]: "rw_wf (rw_buffer_empty b)"
    and rw_data_empty [buf_simps]: "rw_data (rw_buffer_empty b) = []"
    and rw_space_empty [buf_simps]: "rw_space (rw_buffer_empty b) = unat (rw_size b)"
    and rw_size_empty [buf_simps]: "rw_size (rw_buffer_empty b) = rw_size b"
  using assms
  by (simp_all add: rw_wf_def rw_buffer_empty_def rw_data_def rw_space_def buffer_data_def buffer_data_len_def)

lemma rw_read_back [buf_simps]:
  "rw_wf b \<Longrightarrow> take (unat (rw_buffer_data_len b)) (rw_buffer_read_ptr b) = rw_data b"
  by (simp add: rw_buffer_data_len_def rw_buffer_read_ptr_def rw_data_def buffer_data_def)

subsection \<open>Properties\<close>

lemma rw_data_eq:
  "rw_wf b \<Longrightarrow> rw_data b =
     drop (unat (buf_offset (rw_read b))) (take (unat (buf_size (rw_read b))) (buf_ptr (rw_read b)))"
  using rw_wfD [of b] buffer_wfD [of "rw_read b"]
  by (simp add: rw_data_def buffer_data_def buffer_read_ptr_def drop_take)

lemma length_rw_data:
  "rw_wf b \<Longrightarrow> length (rw_data b) = unat (rw_buffer_data_len b)"
  using rw_wfD(1) [of b] by (simp add: rw_data_def rw_buffer_data_len_def length_buffer_data)

text \<open>
  C21. \<open>rw_buffer_shift_data\<close> moves the unread bytes to the front: the buffer stays well formed, its
  unread data and its allocated size are unchanged, reading starts at offset 0, and all the space that
  is not occupied by unread data becomes writable.
\<close>

theorem rw_shift_data_correct:
  assumes "rw_wf b"
  shows "rw_wf (rw_buffer_shift_data b) \<and> rw_data (rw_buffer_shift_data b) = rw_data b \<and>
     rw_size (rw_buffer_shift_data b) = rw_size b \<and> rw_buffer_read_position (rw_buffer_shift_data b) = 0 \<and>
     rw_space (rw_buffer_shift_data b) = unat (rw_size b) - length (rw_data b)"
proof (cases "rw_buffer_read_position b = 0")
  case True
  then show ?thesis
    using assms length_rw_data [OF assms] rw_wfD(1) [OF assms]
    by (simp add: rw_buffer_shift_data_def rw_space_def rw_buffer_data_len_def buffer_data_len_def
        rw_buffer_read_position_def)
next
  case False
  note w = rw_wfD [OF assms]
  let ?d = "rw_data b" and ?n = "rw_buffer_data_len b" and ?p = "buf_ptr (rw_read b)"
  have n: "unat ?n = length ?d" using length_rw_data [OF assms] by simp
  have le: "unat ?n \<le> unat (buf_size (rw_read b))"
    using buffer_wfD(3) [OF w(1)] by (simp add: rw_buffer_data_len_def)
  have s: "rw_buffer_shift_data b = b\<lparr>rw_read := \<lparr>buf_ptr = mem_write ?p 0 ?d, buf_size = ?n, buf_offset = 0\<rparr>\<rparr>"
    using False le w(3) rw_read_back [OF assms]
    by (simp add: rw_buffer_shift_data_def Let_def rw_store_def rw_buffer_seek_read_set_def rw_lift_def
        buffer_seek_set_def rw_buffer_seek_write_set_def word_less_nat_alt)
  have len: "length (mem_write ?p 0 ?d) = length ?p" using n le w(3,4) by simp
  then have wf: "rw_wf (rw_buffer_shift_data b)"
    using s le w(3,4) by (simp add: rw_wf_def word_le_nat_alt)
  have "rw_data (rw_buffer_shift_data b) = ?d"
    using rw_data_eq [OF wf] s n take_mem_write_all [of 0 ?d ?p] le w(3,4) by simp
  with wf s n show ?thesis by (simp add: rw_space_def rw_buffer_read_position_def)
qed

theorem rw_shift_data_correct_witness:
  "rw_wf \<lparr>rw_read = \<lparr>buf_ptr = [1, 2, 3, 4], buf_size = 3, buf_offset = 1\<rparr>, rw_size = 4\<rparr> \<and>
   rw_data (rw_buffer_shift_data \<lparr>rw_read = \<lparr>buf_ptr = [1, 2, 3, 4], buf_size = 3, buf_offset = 1\<rparr>, rw_size = 4\<rparr>) = [2, 3] \<and>
   rw_space (rw_buffer_shift_data \<lparr>rw_read = \<lparr>buf_ptr = [1, 2, 3, 4], buf_size = 3, buf_offset = 1\<rparr>, rw_size = 4\<rparr>) = 2"
proof -
  let ?b = "\<lparr>rw_read = \<lparr>buf_ptr = [1, 2, 3, 4], buf_size = 3, buf_offset = 1\<rparr>, rw_size = 4\<rparr>"
  have "rw_wf ?b" "rw_data ?b = [2, 3]" by code_simp+
  then show ?thesis using rw_shift_data_correct [of ?b] by simp
qed

text \<open>
  A 64-bit integer written big-endian at the end of a buffer that holds no unread data is read
  back unchanged, and reading it leaves no data behind.
\<close>

theorem rw_u64_roundtrip:
  assumes "rw_wf b" and "rw_data b = []" and "rw_buffer_write_u64 b v BE = (True, b')"
  shows "\<exists>b''. rw_buffer_read_u64 b' BE = (Some v, b'') \<and> rw_data b'' = []"
proof -
  let ?v = "[ucast (drop_bit 56 v), ucast (drop_bit 48 v), ucast (drop_bit 40 v), ucast (drop_bit 32 v),
     ucast (drop_bit 24 v), ucast (drop_bit 16 v), ucast (drop_bit 8 v), ucast v] :: bytes"
  have b': "8 \<le> rw_space b" "b' = rw_append b ?v"
    using assms(1,3) by (auto simp: rw_write_u64_be_eq split: if_splits)
  then have d: "buffer_wf (rw_read b')" "buffer_data (rw_read b') = ?v"
    using rw_append_props [of b ?v] assms(1,2) rw_wfD(1) [of b'] by (simp_all add: rw_data_def)
  have "buffer_read_u64 (rw_read b') BE = (Some v, buffer_skip (rw_read b') 8)"
    unfolding buffer_read_u64_be_eq [OF d(1)] d(2) using word_of_be_u64 [of v] by simp
  moreover have "buffer_data (buffer_skip (rw_read b') 8) = []"
    using buffer_data_skip [OF d(1), of 8] d(2) by simp
  ultimately show ?thesis by (simp add: rw_buffer_read_u64_def rw_lift_def rw_data_def)
qed

theorem rw_u64_roundtrip_witness:
  "\<exists>b' b''. rw_buffer_write_u64 (rw_buffer_new_local_empty 10) 0x0102030405060708 BE = (True, b') \<and>
     rw_buffer_read_u64 b' BE = (Some 0x0102030405060708, b'')"
proof -
  let ?w = "rw_buffer_write_u64 (rw_buffer_new_local_empty 10) 0x0102030405060708 BE"
  have "?w = (True, snd ?w)" by (simp add: rw_write_u64_be_eq wf_intros buf_simps)
  with rw_u64_roundtrip [of "rw_buffer_new_local_empty 10" "0x0102030405060708" "snd ?w"]
  show ?thesis by (auto simp: wf_intros buf_simps)
qed

end
