(* ===== verification/Gve.thy ===== *)
theory Gve
  imports RwBuffer Zigzag
begin

text \<open>
  The variable-length integer coding of \<^verbatim>\<open>src/common/gve.h\<close> and \<^verbatim>\<open>gve.c\<close>. A
  \<open>gve_get_*\<close> call returns its result code, the value stored through \<open>val\<close> and the advanced
  buffer; a \<open>gve_put_*\<close> call returns its result code and the extended buffer.

  \<open>vlq\<close> is the reference coding on natural numbers; the lemmas show that \<open>gve_put_u64\<close>
  appends exactly \<open>vlq\<close> of the value, that its local array of ten bytes is never exceeded, and
  that \<open>gve_get_u64\<close> reads the value back.
\<close>

datatype gve_result_e = GVE_OK | GVE_ERR_INT_TO_BIG | GVE_ERR_DATA_SIZE

definition gve_get_u8 :: "buffer_t \<Rightarrow> gve_result_e \<times> u8 \<times> buffer_t" where
  "gve_get_u8 b =
     (case buffer_read_u8 b of
        (Some v, b') \<Rightarrow> (GVE_OK, v, b')
      | (None, b') \<Rightarrow> (GVE_ERR_DATA_SIZE, 0, b'))"

definition gve_get_i8 :: "buffer_t \<Rightarrow> gve_result_e \<times> u8 \<times> buffer_t" where
  "gve_get_i8 b = gve_get_u8 b"

function gve_get_u64_loop ::
    "gve_result_e \<Rightarrow> nat \<Rightarrow> u64 \<Rightarrow> buffer_t \<Rightarrow> gve_result_e \<times> u64 \<times> buffer_t" where
  "gve_get_u64_loop res shift val b =
     (if shift < 64 then
        case gve_get_u8 b of (r, byte, b') \<Rightarrow>
          if r \<noteq> GVE_OK then (r, val, b')
          else let val' = val OR push_bit shift (ucast (byte AND 0x7F)) in
               if byte AND 0x80 = 0 then (GVE_OK, val', b')
               else gve_get_u64_loop r (shift + 7) val' b'
      else (res, val, b))"
  by pat_completeness auto
termination
  by (relation "measure (\<lambda>(res, shift, val, b). 64 - shift)") auto

declare gve_get_u64_loop.simps [simp del]

definition gve_get_u64 :: "buffer_t \<Rightarrow> gve_result_e \<times> u64 \<times> buffer_t" where
  "gve_get_u64 b = gve_get_u64_loop GVE_ERR_DATA_SIZE 0 0 b"

definition gve_get_u32 :: "buffer_t \<Rightarrow> gve_result_e \<times> u32 \<times> buffer_t" where
  "gve_get_u32 b =
     (case gve_get_u64 b of (res, v, b') \<Rightarrow>
        if res \<noteq> GVE_OK then (res, 0, b')
        else if v > 0xFFFFFFFF then (GVE_ERR_INT_TO_BIG, 0, b')
        else (GVE_OK, ucast v, b'))"

definition gve_get_u16 :: "buffer_t \<Rightarrow> gve_result_e \<times> u16 \<times> buffer_t" where
  "gve_get_u16 b =
     (case gve_get_u64 b of (res, v, b') \<Rightarrow>
        if res \<noteq> GVE_OK then (res, 0, b')
        else if v > 0xFFFF then (GVE_ERR_INT_TO_BIG, 0, b')
        else (GVE_OK, ucast v, b'))"

definition gve_get_i64 :: "buffer_t \<Rightarrow> gve_result_e \<times> u64 \<times> buffer_t" where
  "gve_get_i64 b =
     (case gve_get_u64 b of (res, v, b') \<Rightarrow>
        if res \<noteq> GVE_OK then (res, 0, b') else (GVE_OK, zigzag_decode_i64 v, b'))"

definition gve_get_i32 :: "buffer_t \<Rightarrow> gve_result_e \<times> u32 \<times> buffer_t" where
  "gve_get_i32 b =
     (case gve_get_u64 b of (res, v, b') \<Rightarrow>
        if res \<noteq> GVE_OK then (res, 0, b')
        else if v > 0xFFFFFFFF then (GVE_ERR_INT_TO_BIG, 0, b')
        else (GVE_OK, zigzag_decode_i32 v, b'))"

definition gve_get_i16 :: "buffer_t \<Rightarrow> gve_result_e \<times> u16 \<times> buffer_t" where
  "gve_get_i16 b =
     (case gve_get_i32 b of (res, v, b') \<Rightarrow>
        if res \<noteq> GVE_OK then (res, 0, b')
        else if sint v > 32767 \<or> sint v < - 32768 then (GVE_ERR_INT_TO_BIG, 0, b')
        else (GVE_OK, ucast v, b'))"

text \<open>The loop that fills \<open>out[10]\<close>; \<open>out\<close> holds the first \<open>i\<close> bytes of the array.\<close>

function gve_put_u64_loop :: "u64 \<Rightarrow> bytes \<Rightarrow> bytes" where
  "gve_put_u64_loop val out =
     (let byte = (ucast (val AND 0x7F) :: u8);
          val' = drop_bit 7 val;
          byte' = (if val' \<noteq> 0 then byte OR 0x80 else byte);
          out' = out @ [byte']
      in if val' \<noteq> 0 then gve_put_u64_loop val' out' else out')"
  by pat_completeness auto
termination
proof (relation "measure (\<lambda>(val, out). unat val)")
  fix val :: u64 and byte :: u8 and val' :: u64 and byte' :: u8 and out out' :: bytes
  assume "val' = drop_bit 7 val" and "val' \<noteq> 0"
  then have "unat val' = unat val div 128" and "unat val' \<noteq> 0"
    by (simp_all only: unat_drop_bit_7 flip: unat_eq_zero) simp_all
  then have "unat val' < unat val" by simp
  then show "((val', out'), val, out) \<in> measure (\<lambda>(val, out). unat val)" by simp
qed simp

declare gve_put_u64_loop.simps [simp del]

definition gve_put_u64 :: "rw_buffer_t \<Rightarrow> u64 \<Rightarrow> gve_result_e \<times> rw_buffer_t" where
  "gve_put_u64 b val =
     (let out = gve_put_u64_loop val [] in
      case rw_buffer_write_bytes b out (of_nat (length out)) of
        (True, b') \<Rightarrow> (GVE_OK, b')
      | (False, b') \<Rightarrow> (GVE_ERR_DATA_SIZE, b'))"

definition gve_put_i64 :: "rw_buffer_t \<Rightarrow> u64 \<Rightarrow> gve_result_e \<times> rw_buffer_t" where
  "gve_put_i64 b val = gve_put_u64 b (zigzag_encode_i64 val)"

definition gve_put_u32 :: "rw_buffer_t \<Rightarrow> u32 \<Rightarrow> gve_result_e \<times> rw_buffer_t" where
  "gve_put_u32 b val = gve_put_u64 b (ucast val)"

definition gve_put_i32 :: "rw_buffer_t \<Rightarrow> u32 \<Rightarrow> gve_result_e \<times> rw_buffer_t" where
  "gve_put_i32 b val = gve_put_u64 b (zigzag_encode_i32 val)"

definition gve_put_u8 :: "rw_buffer_t \<Rightarrow> u8 \<Rightarrow> gve_result_e \<times> rw_buffer_t" where
  "gve_put_u8 b val =
     (case rw_buffer_write_u8 b val of
        (True, b') \<Rightarrow> (GVE_OK, b')
      | (False, b') \<Rightarrow> (GVE_ERR_DATA_SIZE, b'))"

definition gve_put_i8 :: "rw_buffer_t \<Rightarrow> u8 \<Rightarrow> gve_result_e \<times> rw_buffer_t" where
  "gve_put_i8 b val = gve_put_u8 b val"

definition gve_put_i16 :: "rw_buffer_t \<Rightarrow> u16 \<Rightarrow> gve_result_e \<times> rw_buffer_t" where
  "gve_put_i16 b val = gve_put_u32 b (ucast (zigzag_encode_i32 (scast val)))"

definition gve_put_u16 :: "rw_buffer_t \<Rightarrow> u16 \<Rightarrow> gve_result_e \<times> rw_buffer_t" where
  "gve_put_u16 b val = gve_put_u64 b (ucast val)"

subsection \<open>The reference coding\<close>

fun vlq :: "nat \<Rightarrow> bytes" where
  "vlq n = (if n < 128 then [of_nat n] else of_nat (n mod 128 + 128) # vlq (n div 128))"

declare vlq.simps [simp del]

lemma vlq_nonempty [simp]: "vlq n \<noteq> []"
  by (subst vlq.simps) simp

lemma length_vlq_le: "0 < k \<Longrightarrow> n < 128 ^ k \<Longrightarrow> length (vlq n) \<le> k"
proof (induction k arbitrary: n)
  case 0
  then show ?case by simp
next
  case (Suc k)
  show ?case
  proof (cases "n < 128")
    case True
    then show ?thesis by (subst vlq.simps) simp
  next
    case False
    with Suc.prems have "n div 128 < 128 ^ k" "0 < k"
      by (auto simp: less_mult_imp_div_less mult.commute intro: gr0I)
    then have "length (vlq (n div 128)) \<le> k" by (intro Suc.IH)
    with False show ?thesis by (subst vlq.simps) simp
  qed
qed

lemma vlq_u64_length: "length (vlq (unat (v :: u64))) \<le> 10"
  by (rule length_vlq_le) (use unat_u64_less [of v] in simp_all)

lemma vlq_u32_length: "length (vlq (unat (v :: u32))) \<le> 5"
  by (rule length_vlq_le) (use unat_u32_less [of v] in simp_all)

lemma vlq_u16_length: "length (vlq (unat (v :: u16))) \<le> 3"
  by (rule length_vlq_le) (use unat_u16_less [of v] in simp_all)


subsection \<open>Encoding\<close>

lemma put_byte: "(ucast ((v :: u64) AND 0x7F) :: u8) = of_nat (unat v mod 128)"
  by (simp only: and_0x7F unat_take_bit_7 flip: unat_take_bit_7)
    (simp add: of_nat_unat)

lemma put_byte_cont: "m < 128 \<Longrightarrow> (of_nat m :: u8) OR 0x80 = of_nat (m + 128)"
  using or_push_bit_add [of "of_nat m :: u8" 7 1] by (simp add: unat_of_nat_small)

lemma gve_put_u64_loop_eq: "gve_put_u64_loop v out = out @ vlq (unat v)"
proof (induction v out rule: gve_put_u64_loop.induct)
  case (1 val out)
  define n where "n = unat val"
  have d: "drop_bit 7 val \<noteq> 0 \<longleftrightarrow> \<not> n < 128"
    unfolding n_def unat_eq_zero [symmetric] unat_drop_bit_7 by (simp add: div_greater_zero_iff not_less)
  show ?case
  proof (cases "n < 128")
    case True
    then show ?thesis
      using d by (subst gve_put_u64_loop.simps, subst vlq.simps)
        (simp only: Let_def put_byte flip: n_def, simp)
  next
    case False
    then have "drop_bit 7 val \<noteq> 0" using d by blast
    note IH = "1.IH" [OF refl refl refl refl this]
    show ?thesis
      using False d IH by (subst gve_put_u64_loop.simps, subst vlq.simps)
        (simp only: Let_def put_byte unat_drop_bit_7 flip: n_def, simp add: put_byte_cont)
  qed
qed

text \<open>The bytes are appended, and the array \<open>out[10]\<close> is never exceeded (\<open>vlq_u64_length\<close>).\<close>

lemma gve_put_u64_eq [buf_simps]:
  assumes "rw_wf b"
  shows "gve_put_u64 b v =
     (if length (vlq (unat v)) \<le> rw_space b
      then (GVE_OK, rw_append b (vlq (unat v))) else (GVE_ERR_DATA_SIZE, b))"
proof -
  have "unat (of_nat (length (vlq (unat v))) :: size_t) = length (vlq (unat v))"
    using vlq_u64_length [of v] by (intro unat_of_nat_small) simp
  then show ?thesis
    using assms by (simp add: gve_put_u64_def gve_put_u64_loop_eq rw_write_bytes_eq)
qed

lemma gve_put_u32_eq [buf_simps]:
  "rw_wf b \<Longrightarrow> gve_put_u32 b v =
     (if length (vlq (unat v)) \<le> rw_space b
      then (GVE_OK, rw_append b (vlq (unat v))) else (GVE_ERR_DATA_SIZE, b))"
  by (simp add: gve_put_u32_def gve_put_u64_eq unat_ucast_up)

lemma gve_put_u16_eq [buf_simps]:
  "rw_wf b \<Longrightarrow> gve_put_u16 b v =
     (if length (vlq (unat v)) \<le> rw_space b
      then (GVE_OK, rw_append b (vlq (unat v))) else (GVE_ERR_DATA_SIZE, b))"
  by (simp add: gve_put_u16_def gve_put_u64_eq unat_ucast_up)

lemma gve_put_u8_eq [buf_simps]:
  "rw_wf b \<Longrightarrow> gve_put_u8 b v =
     (if 1 \<le> rw_space b then (GVE_OK, rw_append b [v]) else (GVE_ERR_DATA_SIZE, b))"
  by (simp add: gve_put_u8_def rw_write_u8_eq)

subsection \<open>Decoding\<close>

lemma get_byte_last: "(x :: u8) AND 0x80 = 0 \<longleftrightarrow> unat x < 128"
proof -
  have "x AND 0x80 = 0 \<longleftrightarrow> \<not> bit x 7"
    using and_exp_eq_0_iff_not_bit [of x 7] by simp
  also have "\<dots> \<longleftrightarrow> even (unat x div 128)"
    using bit_unsigned_iff [of x 7] bit_iff_odd [of "unat x" 7] by auto
  also have "\<dots> \<longleftrightarrow> unat x < 128"
  proof -
    have "unat x div 128 = 0 \<or> unat x div 128 = 1" using unat_u8_less [of x] by (simp add: div_eq_0_iff) linarith
    then show ?thesis by (auto simp: div_eq_0_iff)
  qed
  finally show ?thesis .
qed

lemma gve_get_u8_eq [buf_simps]:
  "buffer_wf b \<Longrightarrow> gve_get_u8 b =
     (case buffer_data b of [] \<Rightarrow> (GVE_ERR_DATA_SIZE, 0, b) | x # _ \<Rightarrow> (GVE_OK, x, buffer_skip b 1))"
  by (simp add: gve_get_u8_def buffer_read_u8_eq split: list.splits)

text \<open>The accumulated value after one more byte.\<close>

lemma get_accumulate:
  assumes "unat val < 2 ^ s" and "unat val + 2 ^ s * m < 2 ^ 64" and "m < 128" and "unat (byte :: u8) mod 128 = m"
  shows "unat (val OR push_bit s (ucast (byte AND 0x7F)) :: u64) = unat val + 2 ^ s * m"
proof -
  define w :: u64 where "w = ucast (byte AND 0x7F)"
  have u: "unat w = m"
    using assms(4) unfolding w_def and_0x7F
    by (subst unat_ucast_up) (simp, simp only: unat_take_bit_7)
  then have "w = of_nat m" by (metis of_nat_unat ucast_id)
  then have "push_bit s w = of_nat (2 ^ s * m)" by (simp add: push_bit_eq_mult mult.commute)
  then have "unat (push_bit s w) = 2 ^ s * m"
    using assms(2) by (simp only:) (rule unat_of_nat_small, simp)
  then show ?thesis
    using assms(1,2) unfolding or_push_bit_add [OF assms(1)] w_def [symmetric]
    by (subst word_add_no_wrap) simp_all
qed

lemma gve_get_u64_loop_vlq:
  assumes "buffer_wf b" and "buffer_data b = vlq n @ rest"
    and "s < 64" and "unat val < 2 ^ s" and "unat val + 2 ^ s * n < 2 ^ 64"
  shows "gve_get_u64_loop res s val b =
     (GVE_OK, of_nat (unat val + 2 ^ s * n), buffer_skip b (of_nat (length (vlq n))))"
  using assms
proof (induction n arbitrary: res s val b rule: vlq.induct)
  case (1 n)
  note wf = "1.prems"(1) and dt = "1.prems"(2) and s = "1.prems"(3) and v = "1.prems"(4) and lt = "1.prems"(5)
  show ?case
  proof (cases "n < 128")
    case True
    then have d: "buffer_data b = of_nat n # rest" using dt by (simp add: vlq.simps [of n])
    have u: "unat (of_nat n :: u8) = n" using True by (intro unat_of_nat_small) simp
    then have a: "unat (val OR push_bit s (ucast ((of_nat n :: u8) AND 0x7F))) = unat val + 2 ^ s * n"
      using True v lt by (intro get_accumulate) simp_all
    show ?thesis
      using True s d wf u
      by (subst gve_get_u64_loop.simps)
        (simp add: gve_get_u8_eq get_byte_last Let_def vlq.simps [of n] flip: a)
  next
    case False
    define m where "m = n mod 128"
    define c :: u8 where "c = of_nat (m + 128)"
    have m: "m < 128" and n: "n = m + 128 * (n div 128)" by (simp_all add: m_def)
    have d: "buffer_data b = c # vlq (n div 128) @ rest"
      using False dt by (simp add: vlq.simps [of n] c_def m_def)
    have u: "unat c = m + 128" using m unfolding c_def by (intro unat_of_nat_small) simp
    have split: "2 ^ s * n = 2 ^ s * m + 2 ^ (s + 7) * (n div 128)"
      by (subst n) (simp add: algebra_simps power_add)
    define val' where "val' = val OR push_bit s (ucast (c AND 0x7F))"
    have a: "unat val' = unat val + 2 ^ s * m"
      unfolding val'_def using v lt split m u by (intro get_accumulate) simp_all
    have "(2::nat) ^ s * m \<le> 2 ^ s * 127" using m by (intro mult_left_mono) simp_all
    moreover have "(2::nat) ^ (s + 7) = 2 ^ s * 128" by (simp add: power_add)
    ultimately have v': "unat val' < 2 ^ (s + 7)" using v unfolding a by linarith
    have "0 < n div 128" using False by (simp add: div_greater_zero_iff)
    then have "(2::nat) ^ (s + 7) \<le> 2 ^ (s + 7) * (n div 128)" by simp
    also have "\<dots> < 2 ^ 64" using lt split by simp
    finally have s': "s + 7 < 64" by (simp only: power_strict_increasing_iff)
    have wf': "buffer_wf (buffer_skip b 1)" and d': "buffer_data (buffer_skip b 1) = vlq (n div 128) @ rest"
      using wf d by (simp_all add: buffer_wf_skip buffer_data_skip)
    have sk: "buffer_skip (buffer_skip b 1) (of_nat (length (vlq (n div 128)))) =
        buffer_skip b (of_nat (length (vlq n)))"
      using False by (simp add: buffer_skip_def vlq.simps [of n] add.assoc)
    have "gve_get_u64_loop GVE_OK (s + 7) val' (buffer_skip b 1) =
        (GVE_OK, of_nat (unat val' + 2 ^ (s + 7) * (n div 128)), buffer_skip b (of_nat (length (vlq n))))"
      using "1.IH" [OF False wf' d' s' v'] lt split sk by (simp add: a)
    then show ?thesis
      using s d wf u by (subst gve_get_u64_loop.simps)
        (simp add: gve_get_u8_eq get_byte_last Let_def split a flip: val'_def)
  qed
qed

lemma gve_get_u64_vlq [buf_simps]:
  assumes "buffer_wf b" and "buffer_data b = vlq (unat (v :: u64)) @ rest"
  shows "gve_get_u64 b = (GVE_OK, v, buffer_skip b (of_nat (length (vlq (unat v)))))"
  using gve_get_u64_loop_vlq [OF assms, of 0 0] unat_u64_less [of v]
  by (simp add: gve_get_u64_def)

lemma gve_get_i64_vlq:
  assumes "buffer_wf b" and "buffer_data b = vlq (unat (zigzag_encode_i64 v)) @ rest"
  shows "gve_get_i64 b = (GVE_OK, v, buffer_skip b (of_nat (length (vlq (unat (zigzag_encode_i64 v))))))"
  by (simp add: gve_get_i64_def gve_get_u64_vlq [OF assms] zigzag_i64_roundtrip)

lemma unat_vlq_len [simp]: "unat (of_nat (length (vlq (unat (v :: u64)))) :: size_t) = length (vlq (unat v))"
  using vlq_u64_length [of v] by (intro unat_of_nat_small) simp

lemma gve_get_u32_vlq [buf_simps]:
  assumes "buffer_wf b" and "buffer_data b = vlq (unat (v :: u32)) @ rest"
  shows "gve_get_u32 b = (GVE_OK, v, buffer_skip b (of_nat (length (vlq (unat v)))))"
proof -
  have u: "unat (ucast v :: u64) = unat v" by (rule unat_ucast_up) simp
  have "\<not> 0xFFFFFFFF < (ucast v :: u64)" unfolding word_less_nat_alt u using unat_u32_less [of v] by simp
  then show ?thesis
    using gve_get_u64_vlq [of b "ucast v" rest] assms u by (simp add: gve_get_u32_def ucast_up_down)
qed

lemma gve_get_u16_vlq [buf_simps]:
  assumes "buffer_wf b" and "buffer_data b = vlq (unat (v :: u16)) @ rest"
  shows "gve_get_u16 b = (GVE_OK, v, buffer_skip b (of_nat (length (vlq (unat v)))))"
proof -
  have u: "unat (ucast v :: u64) = unat v" by (rule unat_ucast_up) simp
  have "\<not> 0xFFFF < (ucast v :: u64)" unfolding word_less_nat_alt u using unat_u16_less [of v] by simp
  then show ?thesis
    using gve_get_u64_vlq [of b "ucast v" rest] assms u by (simp add: gve_get_u16_def ucast_up_down)
qed

lemma zigzag_i32_small_iff:
  "0xFFFFFFFF < zigzag_encode_i32 v \<longleftrightarrow> \<not> (- (2 ^ 30) \<le> sint v \<and> sint v < 2 ^ 30)"
  using sint_greater_eq [of v] sint_less [of v]
  unfolding word_less_def zigzag_encode_i32_value by (auto simp: zigzag_int_def)

text \<open>The loop from its \<open>i\<close>-th iteration: it fails only by running out of bytes.\<close>

lemma gve_get_u64_loop_outcome:
  assumes "buffer_wf b" and "i + k = 10" and "k = 0 \<longrightarrow> res = GVE_OK"
  shows "fst (gve_get_u64_loop res (7 * i) val b) =
     (if length (buffer_data b) < k \<and> (\<forall>x \<in> set (buffer_data b). 128 \<le> unat x)
      then GVE_ERR_DATA_SIZE else GVE_OK)"
  using assms
proof (induction k arbitrary: i res val b)
  case 0
  then show ?case by (subst gve_get_u64_loop.simps) simp
next
  case (Suc k)
  then have i: "7 * i < 64" and wf: "buffer_wf b" by simp_all
  show ?case
  proof (cases "buffer_data b")
    case Nil
    then show ?thesis using wf i by (subst gve_get_u64_loop.simps) (simp add: gve_get_u8_eq)
  next
    case (Cons x xs)
    have sk: "buffer_wf (buffer_skip b 1)" "buffer_data (buffer_skip b 1) = xs"
      using wf Cons by (simp_all add: buffer_wf_skip buffer_data_skip)
    have IH: "fst (gve_get_u64_loop GVE_OK (7 * i + 7) v (buffer_skip b 1)) =
       (if length xs < k \<and> (\<forall>x \<in> set xs. 128 \<le> unat x) then GVE_ERR_DATA_SIZE else GVE_OK)" for v
      using Suc.IH [of "buffer_skip b 1" "Suc i" GVE_OK v] Suc.prems(2) sk by (simp add: add.commute)
    show ?thesis
      using Cons wf i by (subst gve_get_u64_loop.simps)
        (simp add: gve_get_u8_eq get_byte_last Let_def IH not_less [symmetric])
  qed
qed

subsection \<open>Properties\<close>

text \<open>
  C18. The codec of unsigned 64-bit integers. Writing a value into a buffer with ten free bytes
  succeeds, keeps the buffer well formed and appends the variable-length code of the value, which
  has at most ten bytes (the size of the local array of \<open>gve_put_u64\<close>); a buffer that starts
  with these bytes decodes to the value and is left right behind them.
\<close>

theorem gve_u64_roundtrip:
  assumes "rw_wf w" and "10 \<le> rw_space w"
  shows "\<exists>w'. gve_put_u64 w v = (GVE_OK, w') \<and> rw_wf w' \<and> rw_data w' = rw_data w @ vlq (unat v) \<and>
      length (vlq (unat v)) \<le> 10 \<and>
      (\<forall>b rest. buffer_wf b \<longrightarrow> buffer_data b = vlq (unat v) @ rest \<longrightarrow>
         (\<exists>b'. gve_get_u64 b = (GVE_OK, v, b') \<and> buffer_wf b' \<and> buffer_data b' = rest))"
proof -
  have l: "length (vlq (unat v)) \<le> rw_space w" using vlq_u64_length [of v] assms(2) by simp
  have dec: "\<exists>b'. gve_get_u64 b = (GVE_OK, v, b') \<and> buffer_wf b' \<and> buffer_data b' = rest"
    if "buffer_wf b" "buffer_data b = vlq (unat v) @ rest" for b rest
    using that by (simp add: gve_get_u64_vlq [OF that] buffer_wf_skip buffer_data_skip)
  then show ?thesis
    using assms(1) l by (simp add: gve_put_u64_eq rw_append_props vlq_u64_length)
qed

text \<open>Witness of C1: 300 in a ten-byte buffer is \<open>AC 02\<close>, and \<open>AC 02 07\<close> decodes to it.\<close>

theorem gve_u64_roundtrip_witness:
  "\<exists>w'. gve_put_u64 (rw_buffer_new_local_empty 10) 300 = (GVE_OK, w') \<and> rw_data w' = [0xAC, 0x02] \<and>
     (\<exists>b'. gve_get_u64 (buffer_init [0xAC, 0x02, 0x07] 3) = (GVE_OK, 300, b') \<and> buffer_data b' = [0x07])"
proof -
  have v: "vlq 300 = [0xAC, 0x02]" by (simp add: vlq.simps)
  have "buffer_data (buffer_init [0xAC, 0x02, 0x07] 3) = vlq (unat (300 :: u64)) @ [0x07]"
    by (simp add: v buffer_data_init)
  moreover have "buffer_wf (buffer_init [0xAC, 0x02, 0x07] 3)" by (intro wf_intros) simp
  moreover have "rw_wf (rw_buffer_new_local_empty 10)" "10 \<le> rw_space (rw_buffer_new_local_empty 10)"
    by (simp_all add: wf_intros buf_simps)
  ultimately show ?thesis
    using gve_u64_roundtrip [of "rw_buffer_new_local_empty 10" 300]
    by (fastforce simp add: v buf_simps)
qed

text \<open>
  What \<open>gve_get_u64\<close> does on any input: it runs out of data exactly when fewer than ten bytes
  remain and all of them have the continuation bit set; otherwise it returns \<open>GVE_OK\<close>. In
  particular ten continuation bytes, which no encoder produces, are accepted as a complete integer.
\<close>

theorem gve_get_u64_outcome:
  assumes "buffer_wf b"
  shows "fst (gve_get_u64 b) =
     (if length (buffer_data b) < 10 \<and> (\<forall>x \<in> set (buffer_data b). 128 \<le> unat x)
      then GVE_ERR_DATA_SIZE else GVE_OK)"
  using gve_get_u64_loop_outcome [of b 0 10 GVE_ERR_DATA_SIZE 0] assms by (simp add: gve_get_u64_def)

theorem gve_get_u64_outcome_witness:
  "fst (gve_get_u64 (buffer_init (replicate 10 0x80) 10)) = GVE_OK \<and>
   fst (gve_get_u64 (buffer_init (replicate 9 0x80) 9)) = GVE_ERR_DATA_SIZE"
  by (subst gve_get_u64_outcome, simp add: wf_intros, subst gve_get_u64_outcome, simp add: wf_intros)
    (simp add: buf_simps)

text \<open>
  Signed 64-bit integers survive \<open>gve_put_i64\<close> and \<open>gve_get_i64\<close>, for every value.
\<close>

theorem gve_i64_roundtrip:
  assumes "rw_wf w" and "10 \<le> rw_space w"
  shows "\<exists>w' code. gve_put_i64 w v = (GVE_OK, w') \<and> rw_wf w' \<and> rw_data w' = rw_data w @ code \<and>
      (\<forall>b rest. buffer_wf b \<longrightarrow> buffer_data b = code @ rest \<longrightarrow>
         (\<exists>b'. gve_get_i64 b = (GVE_OK, v, b') \<and> buffer_wf b' \<and> buffer_data b' = rest))"
proof -
  let ?c = "vlq (unat (zigzag_encode_i64 v))"
  have l: "length ?c \<le> rw_space w" using vlq_u64_length [of "zigzag_encode_i64 v"] assms(2) by simp
  have "\<exists>b'. gve_get_i64 b = (GVE_OK, v, b') \<and> buffer_wf b' \<and> buffer_data b' = rest"
    if "buffer_wf b" "buffer_data b = ?c @ rest" for b rest
    using that by (simp add: gve_get_i64_vlq [OF that] buffer_wf_skip buffer_data_skip)
  then show ?thesis
    using assms(1) l by (simp add: gve_put_i64_def gve_put_u64_eq rw_append_props)
qed

theorem gve_i64_roundtrip_witness:
  "\<exists>w' code. gve_put_i64 (rw_buffer_new_local_empty 10) (- 1) = (GVE_OK, w') \<and> rw_data w' = code \<and>
     (\<forall>b. buffer_wf b \<longrightarrow> buffer_data b = code \<longrightarrow> fst (snd (gve_get_i64 b)) = - 1)"
proof -
  have w: "rw_wf (rw_buffer_new_local_empty 10)" "10 \<le> rw_space (rw_buffer_new_local_empty 10)"
    by (simp_all add: wf_intros buf_simps)
  from gve_i64_roundtrip [OF w, of "- 1"]
  obtain w' code where *: "gve_put_i64 (rw_buffer_new_local_empty 10) (- 1) = (GVE_OK, w')"
    "rw_data w' = rw_data (rw_buffer_new_local_empty 10) @ code"
    and dec: "\<forall>b rest. buffer_wf b \<longrightarrow> buffer_data b = code @ rest \<longrightarrow>
      (\<exists>b'. gve_get_i64 b = (GVE_OK, - 1, b') \<and> buffer_wf b' \<and> buffer_data b' = rest)"
    by blast
  have "fst (snd (gve_get_i64 b)) = - 1" if "buffer_wf b" "buffer_data b = code" for b
    using dec [rule_format, of b "[]"] that by auto
  with * show ?thesis by (simp add: buf_simps)
qed

text \<open>
  C20. The 32-bit signed pair is not total: \<open>gve_get_i32\<close> reads back what \<open>gve_put_i32\<close> wrote
  exactly for the values from -2^30 to 2^30 - 1. Outside, \<open>zigzag_encode_i32\<close> extends the sign
  of the code into the high word, and \<open>gve_get_i32\<close> rejects it with \<open>GVE_ERR_INT_TO_BIG\<close>.
\<close>

theorem gve_i32_roundtrip_range:
  assumes "rw_wf w" and "10 \<le> rw_space w"
  shows "\<exists>w' code. gve_put_i32 w v = (GVE_OK, w') \<and> rw_wf w' \<and> rw_data w' = rw_data w @ code \<and>
      (\<forall>b rest. buffer_wf b \<longrightarrow> buffer_data b = code @ rest \<longrightarrow>
         (\<exists>b'. gve_get_i32 b =
            (if - (2 ^ 30) \<le> sint v \<and> sint v < 2 ^ 30 then (GVE_OK, v, b') else (GVE_ERR_INT_TO_BIG, 0, b'))))"
proof -
  let ?c = "vlq (unat (zigzag_encode_i32 v))"
  have l: "length ?c \<le> rw_space w" using vlq_u64_length [of "zigzag_encode_i32 v"] assms(2) by simp
  have "\<exists>b'. gve_get_i32 b =
      (if - (2 ^ 30) \<le> sint v \<and> sint v < 2 ^ 30 then (GVE_OK, v, b') else (GVE_ERR_INT_TO_BIG, 0, b'))"
    if "buffer_wf b" "buffer_data b = ?c @ rest" for b rest
    by (simp add: gve_get_i32_def gve_get_u64_vlq [OF that] zigzag_i32_small_iff zigzag_i32_roundtrip)
  then show ?thesis
    using assms(1) l by (simp add: gve_put_i32_def gve_put_u64_eq rw_append_props split del: if_split) blast
qed

text \<open>Witness: the code of 2^30 is ten bytes long and is rejected by the decoder.\<close>

theorem gve_i32_roundtrip_range_witness:
  "\<exists>w' code. gve_put_i32 (rw_buffer_new_local_empty 10) 0x40000000 = (GVE_OK, w') \<and> rw_data w' = code \<and>
     (\<forall>b. buffer_wf b \<longrightarrow> buffer_data b = code \<longrightarrow> fst (gve_get_i32 b) = GVE_ERR_INT_TO_BIG)"
proof -
  have v: "\<not> (- (2 ^ 30) \<le> sint (0x40000000 :: u32) \<and> sint (0x40000000 :: u32) < 2 ^ 30)" by simp
  have w: "rw_wf (rw_buffer_new_local_empty 10)" "10 \<le> rw_space (rw_buffer_new_local_empty 10)"
    by (simp_all add: wf_intros buf_simps)
  from gve_i32_roundtrip_range [OF w, of "0x40000000", unfolded if_not_P [OF v]]
  obtain w' code where *: "gve_put_i32 (rw_buffer_new_local_empty 10) 0x40000000 = (GVE_OK, w')"
    "rw_data w' = rw_data (rw_buffer_new_local_empty 10) @ code"
    and dec: "\<forall>b rest. buffer_wf b \<longrightarrow> buffer_data b = code @ rest \<longrightarrow>
      (\<exists>b'. gve_get_i32 b = (GVE_ERR_INT_TO_BIG, 0, b'))"
    by blast
  have "fst (gve_get_i32 b) = GVE_ERR_INT_TO_BIG" if "buffer_wf b" "buffer_data b = code" for b
    using dec [rule_format, of b "[]"] that by auto
  with * show ?thesis by (simp add: buf_simps)
qed

end
