(* ===== verification/ChunkSink.thy ===== *)
theory ChunkSink
  imports Buffer
begin

text \<open>
  The contract of the operations that take a byte string of a declared length in chunks: the ids of
  the token table, the ErgoTree and the registers of a box, the context extension of an input.
  Each call gets one chunk and answers \<open>again\<close> or, when the declared length is reached, \<open>fin\<close>;
  anything else is an error.

  \<open>emit s d s'\<close> says that the bytes \<open>d\<close> went out between the states, \<open>complete\<close> what the
  operation does once the last byte arrived. The lemma \<open>feed_all_fin\<close> is about a whole sequence of
  calls: the cut into chunks does not matter, every byte goes out once and in order, and exactly
  the declared number of bytes is taken.
\<close>

text \<open>A host that sends the chunks in turn and gives up when an answer before the last is not \<open>again\<close>.\<close>

fun feed_all :: "('s \<Rightarrow> 'b \<Rightarrow> 'r \<times> 's) \<Rightarrow> 'r \<Rightarrow> 's \<Rightarrow> 'b list \<Rightarrow> ('r \<times> 's) option" where
  "feed_all feed again s [] = Some (again, s)"
| "feed_all feed again s [b] = Some (feed s b)"
| "feed_all feed again s (b # c # bs) =
     (case feed s b of (r, s') \<Rightarrow> if r = again then feed_all feed again s' (c # bs) else None)"

primrec emits :: "('s \<Rightarrow> 'd \<Rightarrow> 's \<Rightarrow> bool) \<Rightarrow> 's \<Rightarrow> 'd list \<Rightarrow> 's \<Rightarrow> bool" where
  "emits emit s [] s' \<longleftrightarrow> s' = s"
| "emits emit s (d # ds) s' \<longleftrightarrow> (\<exists>s1. emit s d s1 \<and> emits emit s1 ds s')"

lemma emits_append: "emits emit s (ds @ es) s' \<longleftrightarrow> (\<exists>s1. emits emit s ds s1 \<and> emits emit s1 es s')"
  by (induction ds arbitrary: s) auto

lemma emits_measure:
  assumes "emits emit s ds s'" and "\<And>s d s'. emit s d s' \<Longrightarrow> g s' = g s @ f d"
  shows "g s' = g s @ concat (map f ds)"
  using assms(1) by (induction ds arbitrary: s) (auto dest: assms(2))

locale chunk_sink =
  fixes feed :: "'s \<Rightarrow> buffer_t \<Rightarrow> 'r \<times> 's"
    and again fin :: 'r
    and inv :: "'s \<Rightarrow> bool"
    and remaining :: "'s \<Rightarrow> nat"
    and emit :: "'s \<Rightarrow> bytes \<Rightarrow> 's \<Rightarrow> bool"
    and complete :: "'s \<Rightarrow> 's \<Rightarrow> bool"
  assumes feed_again: "inv s \<Longrightarrow> buffer_wf b \<Longrightarrow> feed s b = (again, s') \<Longrightarrow>
      inv s' \<and> emit s (buffer_data b) s' \<and> remaining s = remaining s' + length (buffer_data b)"
    and feed_fin: "inv s \<Longrightarrow> buffer_wf b \<Longrightarrow> feed s b = (fin, s') \<Longrightarrow>
      (\<exists>s1. emit s (buffer_data b) s1 \<and> complete s1 s') \<and> remaining s = length (buffer_data b)"
    and again_not_fin: "again \<noteq> fin"
begin

lemma feed_all_fin:
  assumes "feed_all feed again s bs = Some (fin, s')" and "inv s" and "\<forall>b \<in> set bs. buffer_wf b"
  shows "\<exists>s1. emits emit s (map buffer_data bs) s1 \<and> complete s1 s' \<and>
    remaining s = length (concat (map buffer_data bs))"
  using assms
proof (induction bs arbitrary: s)
  case Nil
  then show ?case using again_not_fin by simp
next
  case (Cons b bs)
  show ?case
  proof (cases bs)
    case Nil
    then show ?thesis using Cons.prems feed_fin by simp
  next
    case (Cons c cs)
    obtain s1 where f: "feed s b = (again, s1)" and r: "feed_all feed again s1 bs = Some (fin, s')"
      using Cons.prems(1) Cons by (auto split: prod.splits if_splits)
    have a: "inv s1 \<and> emit s (buffer_data b) s1 \<and> remaining s = remaining s1 + length (buffer_data b)"
      using feed_again [OF _ _ f] Cons.prems by simp
    with Cons.IH [OF r] Cons.prems(3) show ?thesis by auto
  qed
qed

end

end
