(* ===== verification/Blake2b.thy ===== *)
theory Blake2b
  imports RwBuffer ChunkSink
begin

text \<open>
  \<^verbatim>\<open>src/helpers/blake2b.c\<close> over the cryptography library of the device. The library is
  not part of the repository: its functions are the fields of a record \<open>cx\<close> that every
  definition which hashes takes as an argument. A library function returns a \<open>cx_err_t\<close> (0 is
  \<open>CX_OK\<close>), the new hash context and the bytes stored through \<open>out\<close>.

  \<open>hash_trace cx h ds h'\<close> says that the updates with the byte strings \<open>ds\<close>, all successful, lead
  from \<open>h\<close> to \<open>h'\<close>. \<open>cx_absorbs\<close> is what the theorems about serialized bytes rely on: a successful update has
  appended its data to what the context has absorbed. It does not say that an update succeeds;
  \<open>cx_streams\<close> adds that.
\<close>

record 'h cx_sdk =
  cx_blake2b_init_no_throw :: "'h \<Rightarrow> size_t \<Rightarrow> u32 \<times> 'h"
  cx_hash_no_throw :: "'h \<Rightarrow> u32 \<Rightarrow> bytes \<Rightarrow> size_t \<Rightarrow> u32 \<times> 'h \<times> bytes"
  cx_blake2b_256_hash :: "bytes \<Rightarrow> u32 \<times> bytes"

definition CX_OK :: u32 where "CX_OK = 0"
definition CX_LAST :: u32 where "CX_LAST = push_bit 0 1"
definition CX_NO_REINIT :: u32 where "CX_NO_REINIT = push_bit 15 1"
definition CX_BLAKE2B_256_SIZE :: size_t where "CX_BLAKE2B_256_SIZE = 32"

definition blake2b_256_init :: "('h, 'x) cx_sdk_scheme \<Rightarrow> 'h \<Rightarrow> bool \<times> 'h" where
  "blake2b_256_init cx h = (case cx_blake2b_init_no_throw cx h 256 of (e, h') \<Rightarrow> (e = CX_OK, h'))"

definition blake2b_update :: "('h, 'x) cx_sdk_scheme \<Rightarrow> 'h \<Rightarrow> bytes \<Rightarrow> size_t \<Rightarrow> bool \<times> 'h" where
  "blake2b_update cx h data len =
     (case cx_hash_no_throw cx h 0 (take (unat len) data) 0 of (e, h', _) \<Rightarrow> (e = CX_OK, h'))"

definition blake2b_256_finalize :: "('h, 'x) cx_sdk_scheme \<Rightarrow> 'h \<Rightarrow> bool \<times> 'h \<times> bytes" where
  "blake2b_256_finalize cx h =
     (case cx_hash_no_throw cx h (CX_LAST OR CX_NO_REINIT) [] CX_BLAKE2B_256_SIZE of
        (e, h', out) \<Rightarrow> (e = CX_OK, h', out))"

definition blake2b_256 :: "('h, 'x) cx_sdk_scheme \<Rightarrow> bytes \<Rightarrow> size_t \<Rightarrow> bool \<times> bytes" where
  "blake2b_256 cx data len =
     (case cx_blake2b_256_hash cx (take (unat len) data) of (e, out) \<Rightarrow> (e = CX_OK, out))"

subsection \<open>What the serializers rely on\<close>

text \<open>A successful update, and a sequence of them.\<close>

definition hash_absorb :: "('h, 'x) cx_sdk_scheme \<Rightarrow> 'h \<Rightarrow> bytes \<Rightarrow> 'h \<Rightarrow> bool" where
  "hash_absorb cx h data h' \<longleftrightarrow> (\<exists>out. cx_hash_no_throw cx h 0 data 0 = (CX_OK, h', out))"

abbreviation hash_trace :: "('h, 'x) cx_sdk_scheme \<Rightarrow> 'h \<Rightarrow> bytes list \<Rightarrow> 'h \<Rightarrow> bool" where
  "hash_trace cx \<equiv> emits (hash_absorb cx)"

definition cx_absorbs :: "('h, 'x) cx_sdk_scheme \<Rightarrow> ('h \<Rightarrow> bytes) \<Rightarrow> bool" where
  "cx_absorbs cx ab \<longleftrightarrow>
     (\<forall>h data h'. hash_absorb cx h data h' \<longrightarrow> ab h' = ab h @ data) \<and>
     (\<forall>h h'. cx_blake2b_init_no_throw cx h 256 = (CX_OK, h') \<longrightarrow> ab h' = [])"

definition cx_streams :: "('h, 'x) cx_sdk_scheme \<Rightarrow> ('h \<Rightarrow> bytes) \<Rightarrow> bool" where
  "cx_streams cx ab \<longleftrightarrow> cx_absorbs cx ab \<and>
     (\<forall>h data. fst (cx_hash_no_throw cx h 0 data 0) = CX_OK) \<and>
     (\<forall>h. fst (cx_blake2b_init_no_throw cx h 256) = CX_OK)"

lemma blake2b_update_True:
  "blake2b_update cx h data len = (True, h') \<longleftrightarrow> hash_absorb cx h (take (unat len) data) h'"
  by (auto simp: blake2b_update_def hash_absorb_def split: prod.splits)

lemma blake2b_update_absorbs:
  assumes "cx_absorbs cx ab" and "blake2b_update cx h data len = (True, h')"
  shows "ab h' = ab h @ take (unat len) data"
  using assms by (simp add: cx_absorbs_def blake2b_update_True)

lemma hash_trace_absorbs:
  assumes "cx_absorbs cx ab" and "hash_trace cx h ds h'"
  shows "ab h' = ab h @ concat ds"
  using emits_measure [OF assms(2), of ab "\<lambda>d. d"] assms(1) by (simp add: cx_absorbs_def)

lemma hash_trace_1: "hash_trace cx h [d] h' \<longleftrightarrow> hash_absorb cx h d h'"
  by simp

lemma blake2b_init_absorbs:
  assumes "cx_absorbs cx ab" and "blake2b_256_init cx h = (True, h')"
  shows "ab h' = []"
  using assms by (auto simp: cx_absorbs_def blake2b_256_init_def split: prod.splits)

lemma cx_streams_absorbs: "cx_streams cx ab \<Longrightarrow> cx_absorbs cx ab"
  by (simp add: cx_streams_def)

lemma blake2b_update_streams:
  assumes "cx_streams cx ab"
  shows "\<exists>h'. blake2b_update cx h data len = (True, h') \<and> ab h' = ab h @ take (unat len) data"
proof -
  obtain e h' out where u: "cx_hash_no_throw cx h 0 (take (unat len) data) 0 = (e, h', out)"
    by (metis prod_cases3)
  then have "blake2b_update cx h data len = (True, h')"
    using assms by (simp add: cx_streams_def blake2b_update_def) (metis fst_conv)
  with blake2b_update_absorbs [OF cx_streams_absorbs [OF assms]] show ?thesis by blast
qed

text \<open>The recording library: its context is the list of absorbed bytes.\<close>

definition cx_record :: "bytes cx_sdk" where
  "cx_record = \<lparr>cx_blake2b_init_no_throw = (\<lambda>h n. (0, [])),
                cx_hash_no_throw = (\<lambda>h mode data n. (0, h @ data, take (unat n) (h @ data))),
                cx_blake2b_256_hash = (\<lambda>data. (0, data))\<rparr>"

lemma cx_record_streams: "cx_streams cx_record (\<lambda>h. h)"
  by (simp add: cx_streams_def cx_absorbs_def hash_absorb_def cx_record_def CX_OK_def)

lemma cx_record_absorbs: "cx_absorbs cx_record (\<lambda>h. h)"
  by (rule cx_streams_absorbs [OF cx_record_streams])

end
