(* ===== verification/TxSerTable.thy ===== *)
theory TxSerTable
  imports Blake2b Gve
begin

text \<open>
  The table of distinct token ids, \<^verbatim>\<open>src/ergo/tx_ser_table.h\<close> and \<^verbatim>\<open>tx_ser_table.c\<close>.

  The serializers share the hash context and the token table through pointers; \<open>ser_mem\<close> holds
  both, and callers extend it with the objects that their callbacks update.

  The locale \<open>id_index\<close> is the contract of a table of ids as the amount accounting uses it (find an
  id, or append it); it is interpreted on \<open>token_table_find_token_index\<close> and
  \<open>token_table_add_token\<close>.
\<close>

definition TOKEN_MAX_COUNT :: u8 where "TOKEN_MAX_COUNT = 100"
definition ERGO_ID_LEN :: size_t where "ERGO_ID_LEN = 32"
definition INDEX_NOT_EXIST :: u8 where "INDEX_NOT_EXIST = 0xFF"

definition IS_ELEMENT_FOUND :: "u8 \<Rightarrow> bool" where
  "IS_ELEMENT_FOUND index \<longleftrightarrow> index \<noteq> INDEX_NOT_EXIST"

record token_table_t =
  tt_count :: u8
  tt_tokens :: "bytes list"

record 'h ser_mem =
  hash_ctx :: 'h
  tokens_table :: token_table_t

datatype ergo_tx_serializer_table_result_e =
    ERGO_TX_SERIALIZER_TABLE_RES_OK
  | ERGO_TX_SERIALIZER_TABLE_RES_MORE_DATA
  | ERGO_TX_SERIALIZER_TABLE_RES_ERR_BAD_TOKEN_ID
  | ERGO_TX_SERIALIZER_TABLE_RES_ERR_TOO_MANY_TOKENS
  | ERGO_TX_SERIALIZER_TABLE_RES_ERR_HASHER
  | ERGO_TX_SERIALIZER_TABLE_RES_ERR_BUFFER

text \<open>The context; its pointer to the table is the \<open>tokens_table\<close> of the memory.\<close>

record ergo_tx_serializer_table_context_t =
  distinct_tokens_count :: u8

function token_table_find_loop :: "token_table_t \<Rightarrow> bytes \<Rightarrow> u8 \<Rightarrow> u8" where
  "token_table_find_loop table tid i =
     (if i < tt_count table then
        if memcmp_eq (tt_tokens table ! unat i) tid (unat ERGO_ID_LEN) then i
        else token_table_find_loop table tid (i + 1)
      else INDEX_NOT_EXIST)"
  by pat_completeness auto
termination
proof (relation "measure (\<lambda>(table, tid, i). unat (tt_count table) - unat i)")
  fix table tid and i :: u8
  assume "i < tt_count table"
  then have "unat i < unat (tt_count table)" "unat (i + 1) = unat i + 1"
    using unat_u8_less [of "tt_count table"]
    by (simp_all add: word_less_nat_alt word_add_no_wrap)
  then show "((table, tid, i + 1), table, tid, i) \<in> measure (\<lambda>(table, tid, i). unat (tt_count table) - unat i)"
    by simp
qed simp

declare token_table_find_loop.simps [simp del]

definition token_table_find_token_index :: "token_table_t \<Rightarrow> bytes \<Rightarrow> u8" where
  "token_table_find_token_index table tid = token_table_find_loop table tid 0"

definition token_table_add_token :: "token_table_t \<Rightarrow> bytes \<Rightarrow> u8 \<times> token_table_t" where
  "token_table_add_token table tid =
     (if tt_count table \<ge> TOKEN_MAX_COUNT then (INDEX_NOT_EXIST, table)
      else let index = tt_count table in
           (index, \<lparr>tt_count = tt_count table + 1,
                    tt_tokens = (tt_tokens table)[unat index := take (unat ERGO_ID_LEN) tid]\<rparr>))"

text \<open>\<open>table->count\<close> is incremented before the read, also when the read fails.\<close>

definition parse_token ::
    "buffer_t \<Rightarrow> token_table_t \<Rightarrow> u8 \<Rightarrow> ergo_tx_serializer_table_result_e \<times> token_table_t \<times> buffer_t" where
  "parse_token tokens table tokens_max =
     (if tt_count table \<ge> tokens_max
      then (ERGO_TX_SERIALIZER_TABLE_RES_ERR_TOO_MANY_TOKENS, table, tokens)
      else let k = tt_count table; table1 = table\<lparr>tt_count := tt_count table + 1\<rparr> in
           case buffer_read_bytes tokens ERGO_ID_LEN of
             (None, b') \<Rightarrow> (ERGO_TX_SERIALIZER_TABLE_RES_ERR_BAD_TOKEN_ID, table1, b')
           | (Some tid, b') \<Rightarrow> (ERGO_TX_SERIALIZER_TABLE_RES_OK,
                             table1\<lparr>tt_tokens := (tt_tokens table)[unat k := tid]\<rparr>, b'))"

definition ergo_tx_serializer_table_init ::
    "u8 \<Rightarrow> token_table_t \<Rightarrow> ergo_tx_serializer_table_context_t \<Rightarrow>
     ergo_tx_serializer_table_result_e \<times> ergo_tx_serializer_table_context_t \<times> token_table_t" where
  "ergo_tx_serializer_table_init tokens_count table ctx =
     (if tt_count table \<noteq> 0 \<or> tokens_count > TOKEN_MAX_COUNT
      then (ERGO_TX_SERIALIZER_TABLE_RES_ERR_TOO_MANY_TOKENS, ctx, table)
      else (ERGO_TX_SERIALIZER_TABLE_RES_OK, ctx\<lparr>distinct_tokens_count := tokens_count\<rparr>,
            table\<lparr>tt_tokens := replicate (unat TOKEN_MAX_COUNT) (replicate (unat ERGO_ID_LEN) 0)\<rparr>))"

definition ergo_tx_serializer_table_is_finished ::
    "ergo_tx_serializer_table_context_t \<Rightarrow> token_table_t \<Rightarrow> bool" where
  "ergo_tx_serializer_table_is_finished ctx table \<longleftrightarrow> tt_count table \<ge> distinct_tokens_count ctx"

lemma parse_token_progress:
  assumes "parse_token tokens table n = (ERGO_TX_SERIALIZER_TABLE_RES_OK, table', tokens')"
  shows "unat (buffer_data_len tokens') < unat (buffer_data_len tokens)"
proof -
  from assms have "\<exists>tid. buffer_read_bytes tokens ERGO_ID_LEN = (Some tid, tokens')"
    by (auto simp: parse_token_def Let_def split: if_splits prod.splits option.splits)
  then show ?thesis by (auto dest!: buffer_read_bytes_progress simp: ERGO_ID_LEN_def)
qed

function ergo_tx_serializer_table_add ::
    "ergo_tx_serializer_table_context_t \<Rightarrow> token_table_t \<Rightarrow> buffer_t \<Rightarrow>
     ergo_tx_serializer_table_result_e \<times> token_table_t \<times> buffer_t" where
  "ergo_tx_serializer_table_add ctx table tokens =
     (if buffer_data_len tokens > 0 then
        case parse_token tokens table (distinct_tokens_count ctx) of (res, table', tokens') \<Rightarrow>
          if res \<noteq> ERGO_TX_SERIALIZER_TABLE_RES_OK then (res, table', tokens')
          else ergo_tx_serializer_table_add ctx table' tokens'
      else if ergo_tx_serializer_table_is_finished ctx table
      then (ERGO_TX_SERIALIZER_TABLE_RES_OK, table, tokens)
      else (ERGO_TX_SERIALIZER_TABLE_RES_MORE_DATA, table, tokens))"
  by pat_completeness auto
termination
  by (relation "measure (\<lambda>(ctx, table, tokens). unat (buffer_data_len tokens))")
    (auto dest: parse_token_progress [OF sym])

declare ergo_tx_serializer_table_add.simps [simp del]

text \<open>The loop of \<open>ergo_tx_serializer_table_hash\<close> over \<open>uint8_t i\<close>.\<close>

function table_hash_loop ::
    "('h, 'x) cx_sdk_scheme \<Rightarrow> u8 \<Rightarrow> bytes list \<Rightarrow> u8 \<Rightarrow> 'h \<Rightarrow> ergo_tx_serializer_table_result_e \<times> 'h" where
  "table_hash_loop cx n tokens i h =
     (if i < n then
        case blake2b_update cx h (tokens ! unat i) ERGO_ID_LEN of (ok, h') \<Rightarrow>
          if \<not> ok then (ERGO_TX_SERIALIZER_TABLE_RES_ERR_HASHER, h')
          else table_hash_loop cx n tokens (i + 1) h'
      else (ERGO_TX_SERIALIZER_TABLE_RES_OK, h))"
  by pat_completeness auto
termination
proof (relation "measure (\<lambda>(cx, n, tokens, i, h). unat n - unat i)")
  fix i n :: u8
  assume "i < n"
  then have "unat i < unat n" "unat (i + 1) = unat i + 1"
    using unat_u8_less [of n] by (simp_all add: word_less_nat_alt word_add_no_wrap)
  then show "((cx, n, tokens, i + 1, h'), cx, n, tokens, i, h)
     \<in> measure (\<lambda>(cx, n, tokens, i, h). unat n - unat i)"
    for cx :: "('h, 'x) cx_sdk_scheme" and tokens :: "bytes list" and h h' :: 'h
    by simp
qed simp

declare table_hash_loop.simps [simp del]

definition ergo_tx_serializer_table_hash ::
    "('h, 'x) cx_sdk_scheme \<Rightarrow> ergo_tx_serializer_table_context_t \<Rightarrow> token_table_t \<Rightarrow> 'h \<Rightarrow>
     ergo_tx_serializer_table_result_e \<times> 'h" where
  "ergo_tx_serializer_table_hash cx ctx table h =
     (case gve_put_u32 (rw_buffer_new_local_empty 10) (ucast (distinct_tokens_count ctx)) of (r, buffer) \<Rightarrow>
        if r \<noteq> GVE_OK then (ERGO_TX_SERIALIZER_TABLE_RES_ERR_BUFFER, h)
        else case blake2b_update cx h (rw_buffer_read_ptr buffer) (rw_buffer_data_len buffer) of (ok, h') \<Rightarrow>
          if \<not> ok then (ERGO_TX_SERIALIZER_TABLE_RES_ERR_HASHER, h')
          else table_hash_loop cx (distinct_tokens_count ctx) (tt_tokens table) 0 h')"

subsection \<open>The contract of a table of ids\<close>

locale id_index =
  fixes find :: "'t \<Rightarrow> 'k \<Rightarrow> 'i"
    and add :: "'t \<Rightarrow> 'k \<Rightarrow> 'i \<times> 't"
    and found :: "'i \<Rightarrow> bool"
    and pos :: "'i \<Rightarrow> nat"
    and wf :: "'t \<Rightarrow> bool"
    and keys :: "'t \<Rightarrow> 'k list"
    and valid :: "'k \<Rightarrow> bool"
    and capacity :: nat
  assumes find_found: "wf t \<Longrightarrow> valid k \<Longrightarrow> found (find t k) \<longleftrightarrow> k \<in> set (keys t)"
    and find_first: "wf t \<Longrightarrow> valid k \<Longrightarrow> found (find t k) \<Longrightarrow>
      pos (find t k) < length (keys t) \<and> keys t ! pos (find t k) = k \<and>
      (\<forall>j < pos (find t k). keys t ! j \<noteq> k)"
    and add_found: "wf t \<Longrightarrow> found (fst (add t k)) \<longleftrightarrow> length (keys t) < capacity"
    and add_keys: "wf t \<Longrightarrow> valid k \<Longrightarrow> found (fst (add t k)) \<Longrightarrow>
      wf (snd (add t k)) \<and> keys (snd (add t k)) = keys t @ [k] \<and> pos (fst (add t k)) = length (keys t)"
begin

lemma find_unique:
  assumes "wf t" "valid k" "n < length (keys t)" "keys t ! n = k" "\<forall>j < n. keys t ! j \<noteq> k"
  shows "found (find t k)" "pos (find t k) = n"
proof -
  show f: "found (find t k)" using assms by (metis find_found nth_mem)
  show "pos (find t k) = n"
    using find_first [OF assms(1,2) f] assms(3-5) by (metis linorder_neqE_nat)
qed

lemma find_after_add:
  assumes "wf t" "valid k" "valid k'" "found (fst (add t k))"
  shows "found (find (snd (add t k)) k') \<longleftrightarrow> k' = k \<or> found (find t k')"
    and "found (find t k') \<Longrightarrow> pos (find (snd (add t k)) k') = pos (find t k')"
    and "\<not> found (find t k) \<Longrightarrow> pos (find (snd (add t k)) k) = pos (fst (add t k))"
proof -
  note a = add_keys [OF assms(1,2,4)]
  show "found (find (snd (add t k)) k') \<longleftrightarrow> k' = k \<or> found (find t k')"
    using a assms by (auto simp: find_found)
  show "pos (find (snd (add t k)) k') = pos (find t k')" if f: "found (find t k')"
    using find_first [OF assms(1,3) f] a assms(3)
    by (intro find_unique(2)) (auto simp: nth_append)
  show "pos (find (snd (add t k)) k) = pos (fst (add t k))" if "\<not> found (find t k)"
    using that a assms(1,2) by (intro find_unique(2)) (auto simp: nth_append find_found)
qed

text \<open>Look an id up and append it when it is new, as the accounting of input tokens does.\<close>

lemma intern:
  assumes "wf t" "valid k" "distinct (keys t)"
    and "(if found (find t k) then (find t k, t) else add t k) = (i, t')"
  shows "found i \<longleftrightarrow> k \<in> set (keys t) \<or> length (keys t) < capacity"
    and "found i \<Longrightarrow> wf t' \<and> distinct (keys t') \<and> pos i < length (keys t') \<and> keys t' ! pos i = k \<and>
       keys t' = keys t @ (if k \<in> set (keys t) then [] else [k])"
proof -
  show "found i \<longleftrightarrow> k \<in> set (keys t) \<or> length (keys t) < capacity"
    using assms add_found [OF assms(1), of k] by (auto simp: find_found split: if_splits)
  assume f: "found i"
  show "wf t' \<and> distinct (keys t') \<and> pos i < length (keys t') \<and> keys t' ! pos i = k \<and>
       keys t' = keys t @ (if k \<in> set (keys t) then [] else [k])"
  proof (cases "found (find t k)")
    case True
    then show ?thesis using find_first [OF assms(1,2)] assms find_found by auto
  next
    case False
    then have "add t k = (i, t')" using assms(4) by simp
    then show ?thesis
      using add_keys [OF assms(1,2)] f False assms find_found by auto
  qed
qed

end

subsection \<open>Well-formed tables\<close>

definition token_table_wf :: "token_table_t \<Rightarrow> bool" where
  "token_table_wf t \<longleftrightarrow> length (tt_tokens t) = 100 \<and> (\<forall>x \<in> set (tt_tokens t). length x = 32) \<and>
     unat (tt_count t) \<le> 100"

definition table_ids :: "token_table_t \<Rightarrow> bytes list" where
  "table_ids t = take (unat (tt_count t)) (tt_tokens t)"

lemma length_table_ids: "token_table_wf t \<Longrightarrow> length (table_ids t) = unat (tt_count t)"
  by (simp add: token_table_wf_def table_ids_def)

lemma unat_TOKEN_MAX_COUNT [simp]: "unat TOKEN_MAX_COUNT = 100" and unat_ERGO_ID_LEN [simp]: "unat ERGO_ID_LEN = 32"
  by (simp_all add: TOKEN_MAX_COUNT_def ERGO_ID_LEN_def)

lemma u8_succ: "unat (i :: u8) < n \<Longrightarrow> n \<le> 255 \<Longrightarrow> unat (i + 1) = unat i + 1"
  by (simp add: word_add_no_wrap)

lemma token_table_find_loop_spec:
  assumes "token_table_wf t" and "length tid = 32" and "unat i \<le> unat (tt_count t)"
  shows "if tid \<in> set (drop (unat i) (table_ids t))
     then unat (token_table_find_loop t tid i) < unat (tt_count t) \<and>
          table_ids t ! unat (token_table_find_loop t tid i) = tid \<and>
          (\<forall>j. unat i \<le> j \<and> j < unat (token_table_find_loop t tid i) \<longrightarrow> table_ids t ! j \<noteq> tid)
     else token_table_find_loop t tid i = INDEX_NOT_EXIST"
  using assms
proof (induction t tid i rule: token_table_find_loop.induct)
  case (1 t tid i)
  note len = length_table_ids [OF "1.prems"(1)]
  show ?case
  proof (cases "i < tt_count t")
    case False
    then show ?thesis
      using len by (simp add: token_table_find_loop.simps [of t tid i] word_less_nat_alt)
  next
    case True
    then have lt: "unat i < unat (tt_count t)" by (simp add: word_less_nat_alt)
    then have s: "unat (i + 1) = unat i + 1"
      using "1.prems"(1) by (intro u8_succ) (auto simp: token_table_wf_def)
    have nth: "tt_tokens t ! unat i = table_ids t ! unat i" using lt by (simp add: table_ids_def)
    have l32: "length (tt_tokens t ! unat i) = 32"
      using lt "1.prems"(1) by (auto simp: token_table_wf_def)
    have d: "drop (unat i) (table_ids t) = table_ids t ! unat i # drop (unat i + 1) (table_ids t)"
      using lt len by (simp add: Cons_nth_drop_Suc)
    have eq: "memcmp_eq (tt_tokens t ! unat i) tid (unat ERGO_ID_LEN) \<longleftrightarrow> table_ids t ! unat i = tid"
      using l32 "1.prems"(2) nth by (simp add: memcmp_eq_def)
    show ?thesis
    proof (cases "table_ids t ! unat i = tid")
      case True
      then have "token_table_find_loop t tid i = i"
        using eq \<open>i < tt_count t\<close> by (simp add: token_table_find_loop.simps [of t tid i])
      then show ?thesis using True lt d by auto
    next
      case False
      then have l: "token_table_find_loop t tid i = token_table_find_loop t tid (i + 1)"
        using eq True by (simp add: token_table_find_loop.simps [of t tid i])
      have "\<not> memcmp_eq (tt_tokens t ! unat i) tid (unat ERGO_ID_LEN)" using eq False by simp
      then have IH: "if tid \<in> set (drop (unat i + 1) (table_ids t))
         then unat (token_table_find_loop t tid (i + 1)) < unat (tt_count t) \<and>
              table_ids t ! unat (token_table_find_loop t tid (i + 1)) = tid \<and>
              (\<forall>j. unat i + 1 \<le> j \<and> j < unat (token_table_find_loop t tid (i + 1)) \<longrightarrow> table_ids t ! j \<noteq> tid)
         else token_table_find_loop t tid (i + 1) = INDEX_NOT_EXIST"
        using "1.IH" [OF True _ "1.prems"(1,2)] lt unfolding s by simp
      have first: "unat i \<le> j \<and> j < r \<longleftrightarrow> unat i < r \<and> (j = unat i \<or> unat i + 1 \<le> j \<and> j < r)" for j r by auto
      show ?thesis
        unfolding l d first using IH False by (simp split: if_splits) metis
    qed
  qed
qed

lemma token_table_find_spec:
  assumes "token_table_wf t" and "length tid = 32"
  shows "IS_ELEMENT_FOUND (token_table_find_token_index t tid) \<longleftrightarrow> tid \<in> set (table_ids t)"
    and "IS_ELEMENT_FOUND (token_table_find_token_index t tid) \<Longrightarrow>
      unat (token_table_find_token_index t tid) < length (table_ids t) \<and>
      table_ids t ! unat (token_table_find_token_index t tid) = tid \<and>
      (\<forall>j < unat (token_table_find_token_index t tid). table_ids t ! j \<noteq> tid)"
proof -
  let ?r = "token_table_find_token_index t tid"
  note spec = token_table_find_loop_spec [OF assms, of 0, folded token_table_find_token_index_def, simplified]
  have "?r \<noteq> INDEX_NOT_EXIST" if "unat ?r < unat (tt_count t)"
    using that assms(1) by (auto simp: token_table_wf_def INDEX_NOT_EXIST_def)
  then show f: "IS_ELEMENT_FOUND ?r \<longleftrightarrow> tid \<in> set (table_ids t)"
    using spec by (auto simp: IS_ELEMENT_FOUND_def split: if_splits)
  show "unat ?r < length (table_ids t) \<and> table_ids t ! unat ?r = tid \<and> (\<forall>j < unat ?r. table_ids t ! j \<noteq> tid)"
    if "IS_ELEMENT_FOUND ?r"
    using spec f that length_table_ids [OF assms(1)] by simp
qed

lemma take_list_update_append:
  "n < length xs \<Longrightarrow> take (Suc n) (xs[n := x]) = take n xs @ [x]"
  by (simp add: take_Suc_conv_app_nth)

lemma token_table_store:
  assumes "token_table_wf t" and "unat (tt_count t) < 100" and "length tid = 32"
  shows "token_table_wf \<lparr>tt_count = tt_count t + 1, tt_tokens = (tt_tokens t)[unat (tt_count t) := tid]\<rparr>"
    and "table_ids \<lparr>tt_count = tt_count t + 1, tt_tokens = (tt_tokens t)[unat (tt_count t) := tid]\<rparr>
       = table_ids t @ [tid]"
proof -
  have u: "unat (tt_count t + 1) = Suc (unat (tt_count t))" using u8_succ [OF assms(2)] by simp
  show "token_table_wf \<lparr>tt_count = tt_count t + 1, tt_tokens = (tt_tokens t)[unat (tt_count t) := tid]\<rparr>"
    using assms u set_update_subset_insert [of "tt_tokens t" "unat (tt_count t)" tid]
    by (auto simp: token_table_wf_def)
  show "table_ids \<lparr>tt_count = tt_count t + 1, tt_tokens = (tt_tokens t)[unat (tt_count t) := tid]\<rparr>
       = table_ids t @ [tid]"
    using assms u by (simp add: table_ids_def token_table_wf_def take_list_update_append)
qed

lemma token_table_add_spec:
  assumes "token_table_wf t"
  shows "IS_ELEMENT_FOUND (fst (token_table_add_token t tid)) \<longleftrightarrow> length (table_ids t) < 100"
    and "length tid = 32 \<Longrightarrow> IS_ELEMENT_FOUND (fst (token_table_add_token t tid)) \<Longrightarrow>
      token_table_wf (snd (token_table_add_token t tid)) \<and>
      table_ids (snd (token_table_add_token t tid)) = table_ids t @ [tid] \<and>
      unat (fst (token_table_add_token t tid)) = length (table_ids t)"
proof -
  have c: "unat (tt_count t) \<le> 100" using assms by (simp add: token_table_wf_def)
  then have ne: "tt_count t \<noteq> 0xFF" by auto
  show f: "IS_ELEMENT_FOUND (fst (token_table_add_token t tid)) \<longleftrightarrow> length (table_ids t) < 100"
    using c ne by (auto simp: token_table_add_token_def IS_ELEMENT_FOUND_def INDEX_NOT_EXIST_def Let_def
        word_le_nat_alt length_table_ids [OF assms])
  show "token_table_wf (snd (token_table_add_token t tid)) \<and>
      table_ids (snd (token_table_add_token t tid)) = table_ids t @ [tid] \<and>
      unat (fst (token_table_add_token t tid)) = length (table_ids t)"
    if "length tid = 32" "IS_ELEMENT_FOUND (fst (token_table_add_token t tid))"
    using that f token_table_store [OF assms _ that(1)]
    by (auto simp: token_table_add_token_def Let_def word_le_nat_alt length_table_ids [OF assms])
qed

interpretation tt: id_index token_table_find_token_index token_table_add_token IS_ELEMENT_FOUND unat
  token_table_wf table_ids "\<lambda>tid. length tid = 32" 100
  by unfold_locales (use token_table_find_spec token_table_add_spec in blast)+

subsection \<open>Reading ids into the table\<close>

lemma parse_token_eq:
  assumes "token_table_wf t" and "buffer_wf b" and "unat n \<le> 100"
  shows "parse_token b t n =
     (if unat n \<le> length (table_ids t) then (ERGO_TX_SERIALIZER_TABLE_RES_ERR_TOO_MANY_TOKENS, t, b)
      else if length (buffer_data b) < 32
      then (ERGO_TX_SERIALIZER_TABLE_RES_ERR_BAD_TOKEN_ID, t\<lparr>tt_count := tt_count t + 1\<rparr>, b)
      else (ERGO_TX_SERIALIZER_TABLE_RES_OK,
            \<lparr>tt_count = tt_count t + 1,
             tt_tokens = (tt_tokens t)[unat (tt_count t) := take 32 (buffer_data b)]\<rparr>, buffer_skip b 32))"
  using assms by (simp add: parse_token_def buf_simps Let_def word_le_nat_alt length_table_ids)
    (simp add: ERGO_ID_LEN_def)

fun chunks :: "nat \<Rightarrow> 'a list \<Rightarrow> 'a list list" where
  "chunks n xs = (if n = 0 \<or> length xs < n then [] else take n xs # chunks n (drop n xs))"

declare chunks.simps [simp del]

lemma chunks_lengths: "x \<in> set (chunks n xs) \<Longrightarrow> length x = n"
  by (induction n xs rule: chunks.induct) (subst (asm) (2) chunks.simps, auto split: if_splits)

lemma length_chunks: "0 < n \<Longrightarrow> length (chunks n xs) = length xs div n"
  by (induction n xs rule: chunks.induct)
    (subst chunks.simps, auto simp: le_div_geq)

lemma concat_chunks: "0 < n \<Longrightarrow> length xs mod n = 0 \<Longrightarrow> concat (chunks n xs) = xs"
proof (induction n xs rule: chunks.induct)
  case (1 n xs)
  show ?case
  proof (cases "length xs < n")
    case True
    then show ?thesis using "1.prems" by (subst chunks.simps) simp
  next
    case False
    then have "(length xs - n) mod n = 0" using "1.prems" by (metis le_mod_geq not_less)
    with False 1 show ?thesis by (subst chunks.simps) simp
  qed
qed

lemma table_add_spec:
  assumes "token_table_wf t" and "buffer_wf b" and "unat (distinct_tokens_count ctx) \<le> 100"
    and "length (table_ids t) \<le> unat (distinct_tokens_count ctx)"
    and "ergo_tx_serializer_table_add ctx t b = (res, t', b')"
  defines "n \<equiv> length (table_ids t) + length (buffer_data b) div 32"
    and "full \<equiv> unat (distinct_tokens_count ctx)"
  shows "res =
     (if length (buffer_data b) mod 32 = 0
      then (if n < full then ERGO_TX_SERIALIZER_TABLE_RES_MORE_DATA
            else if n = full then ERGO_TX_SERIALIZER_TABLE_RES_OK
            else ERGO_TX_SERIALIZER_TABLE_RES_ERR_TOO_MANY_TOKENS)
      else (if n < full then ERGO_TX_SERIALIZER_TABLE_RES_ERR_BAD_TOKEN_ID
            else ERGO_TX_SERIALIZER_TABLE_RES_ERR_TOO_MANY_TOKENS)) \<and>
     (length (buffer_data b) mod 32 = 0 \<and> n \<le> full \<longrightarrow>
        token_table_wf t' \<and> table_ids t' = table_ids t @ chunks 32 (buffer_data b) \<and> buffer_data b' = [])"
  using assms(1-5) unfolding n_def full_def
proof (induction ctx t b rule: ergo_tx_serializer_table_add.induct)
  case (1 ctx t b)
  note wf = "1.prems"(1) and bwf = "1.prems"(2) and f100 = "1.prems"(3) and le = "1.prems"(4)
  note run = "1.prems"(5) [unfolded ergo_tx_serializer_table_add.simps [of ctx t b]]
  let ?f = "unat (distinct_tokens_count ctx)"
  show ?case
  proof (cases "buffer_data b = []")
    case True
    then have "buffer_data_len b = 0" using bwf by (simp add: buffer_data_empty_iff)
    with run True le wf show ?thesis
      by (auto simp: ergo_tx_serializer_table_is_finished_def word_le_nat_alt length_table_ids chunks.simps
          split: if_splits)
  next
    case False
    then have pos: "0 < buffer_data_len b" using bwf by (simp add: buffer_data_empty_iff word_neq_0_conv)
    define L where "L = length (buffer_data b)"
    have L: "0 < L" using False by (simp add: L_def)
    show ?thesis
    proof (cases "length (table_ids t) < ?f \<and> 32 \<le> L")
      case True
      let ?t = "\<lparr>tt_count = tt_count t + 1,
             tt_tokens = (tt_tokens t)[unat (tt_count t) := take 32 (buffer_data b)]\<rparr>"
      have p: "parse_token b t (distinct_tokens_count ctx) =
          (ERGO_TX_SERIALIZER_TABLE_RES_OK, ?t, buffer_skip b 32)"
        using True by (simp add: parse_token_eq [OF wf bwf f100] L_def)
      have l32: "length (take 32 (buffer_data b)) = 32" using True by (simp add: L_def)
      note st = token_table_store [OF wf _ l32]
      have c: "unat (tt_count t) < 100" using True f100 wf by (simp add: length_table_ids)
      have sk: "buffer_wf (buffer_skip b 32)" "buffer_data (buffer_skip b 32) = drop 32 (buffer_data b)"
        using True bwf by (simp_all add: buffer_wf_skip buffer_data_skip L_def)
      have r: "ergo_tx_serializer_table_add ctx ?t (buffer_skip b 32) = (res, t', b')"
        using run pos p by simp
      note IH = "1.IH" [OF pos p [symmetric] refl _ st(1) [OF c] sk(1) f100 _ r]
      have d: "L div 32 = Suc ((L - 32) div 32)" "L mod 32 = (L - 32) mod 32"
        using True by (simp_all add: le_div_geq le_mod_geq)
      have ch: "chunks 32 (buffer_data b) = take 32 (buffer_data b) # chunks 32 (drop 32 (buffer_data b))"
        using True by (subst chunks.simps) (simp add: L_def)
      show ?thesis
        using IH True by (simp add: st(2) [OF c] sk ch d flip: L_def)
    next
      case no: False
      then have "res = (if ?f \<le> length (table_ids t) then ERGO_TX_SERIALIZER_TABLE_RES_ERR_TOO_MANY_TOKENS
           else ERGO_TX_SERIALIZER_TABLE_RES_ERR_BAD_TOKEN_ID)"
        using run pos by (auto simp: parse_token_eq [OF wf bwf f100] L_def split: if_splits)
      moreover have "L mod 32 = 0 \<Longrightarrow> 32 \<le> L" using L by (metis mod_less not_le less_irrefl)
      moreover have "32 \<le> L \<Longrightarrow> 0 < L div 32" by (simp add: div_greater_zero_iff)
      moreover have "\<not> 32 \<le> L \<Longrightarrow> L div 32 = 0" by simp
      ultimately show ?thesis using no le L by (auto simp flip: L_def)
    qed
  qed
qed

subsection \<open>Hashing the table\<close>

lemma table_hash_loop_trace:
  assumes "table_hash_loop cx n tokens i h = (ERGO_TX_SERIALIZER_TABLE_RES_OK, h')"
    and "unat n \<le> length tokens" and "\<forall>x \<in> set tokens. length x = 32" and "unat i \<le> unat n"
  shows "hash_trace cx h (drop (unat i) (take (unat n) tokens)) h'"
  using assms
proof (induction cx n tokens i h rule: table_hash_loop.induct)
  case (1 cx n tokens i h)
  show ?case
  proof (cases "i < n")
    case False
    then show ?thesis
      using "1.prems" by (simp add: table_hash_loop.simps [of cx n tokens i h] word_less_nat_alt)
  next
    case True
    obtain h1 where u: "blake2b_update cx h (tokens ! unat i) ERGO_ID_LEN = (True, h1)"
      and r: "table_hash_loop cx n tokens (i + 1) h1 = (ERGO_TX_SERIALIZER_TABLE_RES_OK, h')"
      using "1.prems"(1) True by (auto simp: table_hash_loop.simps [of cx n tokens i h] split: prod.splits if_splits)
    have lt: "unat i < unat n" "unat (i + 1) = unat i + 1"
      using True unat_u8_less [of n] by (simp_all add: word_less_nat_alt word_add_no_wrap)
    have "hash_absorb cx h (tokens ! unat i) h1"
      using u "1.prems"(2,3) lt by (simp add: blake2b_update_True)
    moreover have "hash_trace cx h1 (drop (unat i + 1) (take (unat n) tokens)) h'"
      using "1.IH" [OF True u [symmetric] _ r "1.prems"(2,3)] lt by simp
    moreover have "drop (unat i) (take (unat n) tokens) = tokens ! unat i # drop (unat i + 1) (take (unat n) tokens)"
      using lt "1.prems"(2) by (subst Cons_nth_drop_Suc [symmetric]) simp_all
    ultimately show ?thesis by auto
  qed
qed

text \<open>A local buffer holding one variable-length integer, as the serializers hash it.\<close>

lemma local_u64:
  assumes "10 \<le> unat n"
  shows "\<exists>b. gve_put_u64 (rw_buffer_new_local_empty n) v = (GVE_OK, b) \<and> rw_wf b \<and> rw_size b = n \<and>
     take (unat (rw_buffer_data_len b)) (rw_buffer_read_ptr b) = vlq (unat v)"
  using assms vlq_u64_length [of v] by (simp add: wf_intros buf_simps)

lemma local_u32:
  assumes "5 \<le> unat n"
  shows "\<exists>b. gve_put_u32 (rw_buffer_new_local_empty n) v = (GVE_OK, b) \<and> rw_wf b \<and> rw_size b = n \<and>
     take (unat (rw_buffer_data_len b)) (rw_buffer_read_ptr b) = vlq (unat v)"
  using assms vlq_u32_length [of v] by (simp add: wf_intros buf_simps)

lemma local_u16:
  assumes "3 \<le> unat n"
  shows "\<exists>b. gve_put_u16 (rw_buffer_new_local_empty n) v = (GVE_OK, b) \<and> rw_wf b \<and> rw_size b = n \<and>
     take (unat (rw_buffer_data_len b)) (rw_buffer_read_ptr b) = vlq (unat v)"
  using assms vlq_u16_length [of v] by (simp add: wf_intros buf_simps)

lemma table_hash_trace:
  assumes "token_table_wf t" and "unat (distinct_tokens_count ctx) \<le> 100"
    and "ergo_tx_serializer_table_hash cx ctx t h = (ERGO_TX_SERIALIZER_TABLE_RES_OK, h')"
  shows "hash_trace cx h (vlq (unat (distinct_tokens_count ctx)) #
           take (unat (distinct_tokens_count ctx)) (tt_tokens t)) h'"
proof -
  let ?n = "distinct_tokens_count ctx"
  have u: "unat (ucast ?n :: u32) = unat ?n" by (rule unat_ucast_up) simp
  obtain b where b: "gve_put_u32 (rw_buffer_new_local_empty 10) (ucast ?n) = (GVE_OK, b)"
    "take (unat (rw_buffer_data_len b)) (rw_buffer_read_ptr b) = vlq (unat ?n)"
    using local_u32 [of 10 "ucast ?n"] u by auto
  obtain h1 where "hash_absorb cx h (vlq (unat ?n)) h1"
    and l: "table_hash_loop cx ?n (tt_tokens t) 0 h1 = (ERGO_TX_SERIALIZER_TABLE_RES_OK, h')"
    using assms(3) b by (auto simp: ergo_tx_serializer_table_hash_def blake2b_update_True split: prod.splits if_splits)
  then show ?thesis
    using table_hash_loop_trace [OF l] assms(1,2) by (auto simp: token_table_wf_def)
qed

subsection \<open>The ids may arrive in any chunks\<close>

interpretation table_sink: chunk_sink
  "\<lambda>t b. case ergo_tx_serializer_table_add ctx t b of (r, t', _) \<Rightarrow> (r, t')"
  ERGO_TX_SERIALIZER_TABLE_RES_MORE_DATA ERGO_TX_SERIALIZER_TABLE_RES_OK
  "\<lambda>t. token_table_wf t \<and> unat (distinct_tokens_count ctx) \<le> 100 \<and>
       length (table_ids t) \<le> unat (distinct_tokens_count ctx)"
  "\<lambda>t. 32 * (unat (distinct_tokens_count ctx) - length (table_ids t))"
  "\<lambda>t d t'. token_table_wf t' \<and> length d mod 32 = 0 \<and> table_ids t' = table_ids t @ chunks 32 d"
  "\<lambda>t t'. t = t' \<and> length (table_ids t) = unat (distinct_tokens_count ctx)"
  for ctx
proof unfold_locales
  fix t b t'
  assume inv: "token_table_wf t \<and> unat (distinct_tokens_count ctx) \<le> 100 \<and>
       length (table_ids t) \<le> unat (distinct_tokens_count ctx)" and b: "buffer_wf b"
  let ?f = "unat (distinct_tokens_count ctx)"
  let ?d = "buffer_data b"
  obtain r t1 b1 where run: "ergo_tx_serializer_table_add ctx t b = (r, t1, b1)" by (metis prod_cases3)
  note spec = table_add_spec [OF _ b _ _ run]
  have len: "length (chunks 32 ?d) = length ?d div 32" by (simp add: length_chunks)
  have m: "length ?d mod 32 = 0 \<Longrightarrow> 32 * (length ?d div 32) = length ?d" by auto
  assume "(case ergo_tx_serializer_table_add ctx t b of (r, t', _) \<Rightarrow> (r, t')) =
     (ERGO_TX_SERIALIZER_TABLE_RES_MORE_DATA, t')"
  then show "(token_table_wf t' \<and> ?f \<le> 100 \<and> length (table_ids t') \<le> ?f) \<and>
     (token_table_wf t' \<and> length ?d mod 32 = 0 \<and> table_ids t' = table_ids t @ chunks 32 ?d) \<and>
     32 * (?f - length (table_ids t)) = 32 * (?f - length (table_ids t')) + length ?d"
    using spec inv run len m by (auto split: if_splits)
next
  fix t b t'
  assume inv: "token_table_wf t \<and> unat (distinct_tokens_count ctx) \<le> 100 \<and>
       length (table_ids t) \<le> unat (distinct_tokens_count ctx)" and b: "buffer_wf b"
  let ?f = "unat (distinct_tokens_count ctx)"
  let ?d = "buffer_data b"
  obtain r t1 b1 where run: "ergo_tx_serializer_table_add ctx t b = (r, t1, b1)" by (metis prod_cases3)
  note spec = table_add_spec [OF _ b _ _ run]
  have len: "length (chunks 32 ?d) = length ?d div 32" by (simp add: length_chunks)
  have m: "length ?d mod 32 = 0 \<Longrightarrow> 32 * (length ?d div 32) = length ?d" by auto
  assume "(case ergo_tx_serializer_table_add ctx t b of (r, t', _) \<Rightarrow> (r, t')) =
     (ERGO_TX_SERIALIZER_TABLE_RES_OK, t')"
  then show "(\<exists>s1. (token_table_wf s1 \<and> length ?d mod 32 = 0 \<and> table_ids s1 = table_ids t @ chunks 32 ?d) \<and>
      s1 = t' \<and> length (table_ids s1) = ?f) \<and>
     32 * (?f - length (table_ids t)) = length ?d"
    using spec inv run len m by (auto split: if_splits)
qed simp

lemma table_sink_all:
  assumes "feed_all (\<lambda>t b. case ergo_tx_serializer_table_add ctx t b of (r, t', _) \<Rightarrow> (r, t'))
             ERGO_TX_SERIALIZER_TABLE_RES_MORE_DATA t bs = Some (ERGO_TX_SERIALIZER_TABLE_RES_OK, t')"
    and "token_table_wf t" and "unat (distinct_tokens_count ctx) \<le> 100" and "table_ids t = []"
    and "\<forall>b \<in> set bs. buffer_wf b"
  shows "token_table_wf t'" and "length (table_ids t') = unat (distinct_tokens_count ctx)"
    and "concat (table_ids t') = concat (map buffer_data bs)"
    and "length (concat (map buffer_data bs)) = 32 * unat (distinct_tokens_count ctx)"
proof -
  let ?em = "\<lambda>t d t'. token_table_wf t' \<and> length d mod 32 = 0 \<and> table_ids t' = table_ids t @ chunks 32 (d :: bytes)"
  from table_sink.feed_all_fin [OF assms(1) _ assms(5)] assms(2-4)
  have e: "emits ?em t (map buffer_data bs) t'" and len: "length (table_ids t') = unat (distinct_tokens_count ctx)"
    and l32: "length (concat (map buffer_data bs)) = 32 * unat (distinct_tokens_count ctx)" by auto
  show "length (table_ids t') = unat (distinct_tokens_count ctx)"
    "length (concat (map buffer_data bs)) = 32 * unat (distinct_tokens_count ctx)" by (fact len, fact l32)
  show "concat (table_ids t') = concat (map buffer_data bs)"
    using emits_measure [OF e, of "\<lambda>t. concat (table_ids t)" "\<lambda>d. d"] assms(4) by (simp add: concat_chunks)
  show "token_table_wf t'"
    using e assms(2) by (induction "map buffer_data bs" arbitrary: t bs) auto
qed

text \<open>
  C14. Token table of a transaction. When the table was initialised for \<open>n\<close> distinct tokens, the ids
  were accepted in any number of chunks and the table was then hashed, the hash has absorbed the
  variable-length count followed by exactly the bytes that were received, in order, and exactly
  32 bytes per announced token were received.
\<close>

theorem table_transcript:
  assumes "cx_absorbs cx ab"
    and "ergo_tx_serializer_table_init n t ctx = (ERGO_TX_SERIALIZER_TABLE_RES_OK, ctx', t0)"
    and "feed_all (\<lambda>t b. case ergo_tx_serializer_table_add ctx' t b of (r, t', _) \<Rightarrow> (r, t'))
           ERGO_TX_SERIALIZER_TABLE_RES_MORE_DATA t0 bs = Some (ERGO_TX_SERIALIZER_TABLE_RES_OK, t1)"
    and "\<forall>b \<in> set bs. buffer_wf b"
    and "ergo_tx_serializer_table_hash cx ctx' t1 h = (ERGO_TX_SERIALIZER_TABLE_RES_OK, h')"
  shows "ab h' = ab h @ vlq (unat n) @ concat (map buffer_data bs) \<and>
     length (concat (map buffer_data bs)) = 32 * unat n"
proof -
  have i: "distinct_tokens_count ctx' = n" "unat n \<le> 100" "token_table_wf t0" "table_ids t0 = []"
    using assms(2) by (auto simp: ergo_tx_serializer_table_init_def token_table_wf_def table_ids_def
        word_less_nat_alt split: if_splits)
  note a = table_sink_all [OF assms(3) i(3) _ i(4) assms(4), unfolded i(1), OF i(2)]
  have "take (unat n) (tt_tokens t1) = table_ids t1"
    using a(2) length_table_ids [OF a(1)] by (simp add: table_ids_def)
  then show ?thesis
    using hash_trace_absorbs [OF assms(1) table_hash_trace [OF a(1) _ assms(5)]] a i by simp
qed

text \<open>Witness: two ids, each in its own chunk, hashed by the recording library.\<close>

definition demo_table :: token_table_t where
  "demo_table = \<lparr>tt_count = 0, tt_tokens = []\<rparr>"

definition demo_id :: "u8 \<Rightarrow> bytes" where
  "demo_id x = replicate 32 x"

definition demo_chunks :: "buffer_t list" where
  "demo_chunks = [buffer_init (demo_id 1) 32, buffer_init (demo_id 2) 32]"

theorem table_transcript_witness:
  "\<exists>ctx t0 t1 h. ergo_tx_serializer_table_init 2 demo_table \<lparr>distinct_tokens_count = 0\<rparr> =
       (ERGO_TX_SERIALIZER_TABLE_RES_OK, ctx, t0) \<and>
     feed_all (\<lambda>t b. case ergo_tx_serializer_table_add ctx t b of (r, t', _) \<Rightarrow> (r, t'))
       ERGO_TX_SERIALIZER_TABLE_RES_MORE_DATA t0 demo_chunks = Some (ERGO_TX_SERIALIZER_TABLE_RES_OK, t1) \<and>
     ergo_tx_serializer_table_hash cx_record ctx t1 [] = (ERGO_TX_SERIALIZER_TABLE_RES_OK, h) \<and>
     h = 2 # demo_id 1 @ demo_id 2"
proof -
  let ?i = "ergo_tx_serializer_table_init 2 demo_table \<lparr>distinct_tokens_count = 0\<rparr>"
  let ?ctx = "fst (snd ?i)" and ?t0 = "snd (snd ?i)"
  let ?f = "feed_all (\<lambda>t b. case ergo_tx_serializer_table_add ?ctx t b of (r, t', _) \<Rightarrow> (r, t'))
       ERGO_TX_SERIALIZER_TABLE_RES_MORE_DATA ?t0 demo_chunks"
  let ?t1 = "snd (the ?f)"
  let ?h = "ergo_tx_serializer_table_hash cx_record ?ctx ?t1 []"
  have i: "?i = (ERGO_TX_SERIALIZER_TABLE_RES_OK, ?ctx, ?t0)" by code_simp
  have f: "?f = Some (ERGO_TX_SERIALIZER_TABLE_RES_OK, ?t1)" by code_simp
  have h: "?h = (ERGO_TX_SERIALIZER_TABLE_RES_OK, snd ?h)" by code_simp
  have b: "\<forall>b \<in> set demo_chunks. buffer_wf b" by code_simp
  have d: "vlq (unat (2 :: u8)) @ concat (map buffer_data demo_chunks) = 2 # demo_id 1 @ demo_id 2" by code_simp
  have "snd ?h = 2 # demo_id 1 @ demo_id 2"
    using table_transcript [OF cx_record_absorbs i f b h] d by simp
  with i f h show ?thesis by metis
qed

end
