(* ===== verification/ErgoTree.thy ===== *)
theory ErgoTree
  imports RwBuffer
begin

text \<open>
  The ErgoTree scripts the device builds and recognises, \<^verbatim>\<open>src/ergo/ergo_tree.c\<close>: the
  pay-to-public-key tree, the pay-to-script-hash tree and the miners' fee tree. A parser that
  returns false is \<open>None\<close>.
\<close>

definition ERGO_TREE_P2PK_PREFIX_LEN :: size_t where "ERGO_TREE_P2PK_PREFIX_LEN = 3"
definition ERGO_TREE_P2PK_LEN :: size_t where "ERGO_TREE_P2PK_LEN = 36"
definition ERGO_TREE_P2SH_PREFIX_LEN :: size_t where "ERGO_TREE_P2SH_PREFIX_LEN = 17"
definition ERGO_TREE_P2SH_SUFFIX_LEN :: size_t where "ERGO_TREE_P2SH_SUFFIX_LEN = 3"
definition ERGO_TREE_P2SH_LEN :: size_t where "ERGO_TREE_P2SH_LEN = 44"
definition COMPRESSED_PUBLIC_KEY_LEN :: size_t where "COMPRESSED_PUBLIC_KEY_LEN = 33"
definition P2SH_HASH_LEN :: size_t where "P2SH_HASH_LEN = 24"

definition C_ERGO_TREE_P2PK_PREFIX :: bytes where
  "C_ERGO_TREE_P2PK_PREFIX = [0x00, 0x08, 0xcd]"

definition C_ERGO_TREE_P2SH_PREFIX :: bytes where
  "C_ERGO_TREE_P2SH_PREFIX =
     [0x00, 0xea, 0x02, 0xd1, 0x93, 0xb4, 0xcb, 0xe4, 0xe3,
      0x01, 0x0e, 0x04, 0x00, 0x04, 0x30, 0x0e, 0x18]"

definition C_ERGO_TREE_P2SH_SUFFIX :: bytes where
  "C_ERGO_TREE_P2SH_SUFFIX = [0xd4, 0x08, 0x01]"

definition C_ERGO_TREE_MINERS_HASH_FEE_MAINNET :: bytes where
  "C_ERGO_TREE_MINERS_HASH_FEE_MAINNET =
    [0x10, 0x05, 0x04, 0x00, 0x04, 0x00, 0x0e, 0x36, 0x10, 0x02, 0x04, 0xa0, 0x0b, 0x08, 0xcd,
     0x02, 0x79, 0xbe, 0x66, 0x7e, 0xf9, 0xdc, 0xbb, 0xac, 0x55, 0xa0, 0x62, 0x95, 0xce, 0x87,
     0x0b, 0x07, 0x02, 0x9b, 0xfc, 0xdb, 0x2d, 0xce, 0x28, 0xd9, 0x59, 0xf2, 0x81, 0x5b, 0x16,
     0xf8, 0x17, 0x98, 0xea, 0x02, 0xd1, 0x92, 0xa3, 0x9a, 0x8c, 0xc7, 0xa7, 0x01, 0x73, 0x00,
     0x73, 0x01, 0x10, 0x01, 0x02, 0x04, 0x02, 0xd1, 0x96, 0x83, 0x03, 0x01, 0x93, 0xa3, 0x8c,
     0xc7, 0xb2, 0xa5, 0x73, 0x00, 0x00, 0x01, 0x93, 0xc2, 0xb2, 0xa5, 0x73, 0x01, 0x00, 0x74,
     0x73, 0x02, 0x73, 0x03, 0x83, 0x01, 0x08, 0xcd, 0xee, 0xac, 0x93, 0xb1, 0xa5, 0x73, 0x04]"

text \<open>\<open>tree\<close> is the array the result is written to, with whatever it held before.\<close>

definition ergo_tree_generate_p2pk :: "bytes \<Rightarrow> bytes \<Rightarrow> bytes" where
  "ergo_tree_generate_p2pk raw_public_key tree =
     (let out0 = rw_buffer_init tree ERGO_TREE_P2PK_LEN 0;
          out1 = snd (rw_buffer_write_bytes out0 C_ERGO_TREE_P2PK_PREFIX ERGO_TREE_P2PK_PREFIX_LEN);
          out2 = snd (rw_buffer_write_u8 out1 (if raw_public_key ! 64 AND 1 \<noteq> 0 then 0x03 else 0x02));
          out3 = snd (rw_buffer_write_bytes out2 (drop 1 raw_public_key) 32)
      in buf_ptr (rw_read out3))"

definition ergo_tree_parse_p2pk :: "bytes \<Rightarrow> bytes option" where
  "ergo_tree_parse_p2pk tree =
     (if \<not> memcmp_eq tree C_ERGO_TREE_P2PK_PREFIX (unat ERGO_TREE_P2PK_PREFIX_LEN) then None
      else if tree ! unat ERGO_TREE_P2PK_PREFIX_LEN \<noteq> 0x02 \<and> tree ! unat ERGO_TREE_P2PK_PREFIX_LEN \<noteq> 0x03
      then None
      else Some (take (unat COMPRESSED_PUBLIC_KEY_LEN) (drop (unat ERGO_TREE_P2PK_PREFIX_LEN) tree)))"

definition ergo_tree_parse_p2sh :: "bytes \<Rightarrow> bytes option" where
  "ergo_tree_parse_p2sh tree =
     (if \<not> memcmp_eq tree C_ERGO_TREE_P2SH_PREFIX (unat ERGO_TREE_P2SH_PREFIX_LEN) then None
      else if \<not> memcmp_eq (drop (unat ERGO_TREE_P2SH_PREFIX_LEN + unat P2SH_HASH_LEN) tree)
                 C_ERGO_TREE_P2SH_SUFFIX (unat ERGO_TREE_P2SH_SUFFIX_LEN) then None
      else Some (take (unat P2SH_HASH_LEN) (drop (unat ERGO_TREE_P2SH_PREFIX_LEN) tree)))"

text \<open>The network argument is ignored by the source.\<close>

definition ergo_tree_miners_fee_tree :: "bool \<Rightarrow> bytes \<times> size_t" where
  "ergo_tree_miners_fee_tree is_mainnet =
     (C_ERGO_TREE_MINERS_HASH_FEE_MAINNET, of_nat (length C_ERGO_TREE_MINERS_HASH_FEE_MAINNET))"

subsection \<open>Properties\<close>

lemmas tree_lens = ERGO_TREE_P2PK_PREFIX_LEN_def ERGO_TREE_P2PK_LEN_def ERGO_TREE_P2SH_PREFIX_LEN_def
  ERGO_TREE_P2SH_SUFFIX_LEN_def ERGO_TREE_P2SH_LEN_def COMPRESSED_PUBLIC_KEY_LEN_def P2SH_HASH_LEN_def
  C_ERGO_TREE_P2PK_PREFIX_def

text \<open>The compressed form of an uncompressed point \<open>04 x y\<close>.\<close>

definition compressed_key :: "bytes \<Rightarrow> bytes" where
  "compressed_key raw = (if odd (unat (raw ! 64)) then 0x03 else 0x02) # take 32 (drop 1 raw)"

lemma and_1_odd: "(x :: u8) AND 1 \<noteq> 0 \<longleftrightarrow> odd (unat x)"
  unfolding and_one_eq unat_eq_zero [symmetric] unat_mod by (simp add: odd_iff_mod_2_eq_one)

lemma rw_full_buffer:
  assumes "rw_wf b" and "rw_data b = d" and "length d = unat (rw_size b)" and "length (buf_ptr (rw_read b)) = unat (rw_size b)"
  shows "buf_ptr (rw_read b) = d"
proof -
  have "length d \<le> unat (buf_size (rw_read b)) - unat (buf_offset (rw_read b))"
    using assms(2) rw_wfD [OF assms(1)] buffer_wfD [OF rw_wfD(1) [OF assms(1)]]
    by (simp add: rw_data_def length_buffer_data flip: assms(2))
  then have "unat (buf_offset (rw_read b)) = 0" "unat (buf_size (rw_read b)) = unat (rw_size b)"
    using assms(3) rw_wfD(2,3) [OF assms(1)] by simp_all
  then show ?thesis
    using assms buffer_wfD(3) [OF rw_wfD(1) [OF assms(1)]]
    by (simp add: rw_data_def buffer_data_def buffer_read_ptr_def)
qed

lemma length_compressed_key: "length raw = 65 \<Longrightarrow> length (compressed_key raw) = 33"
  by (simp add: compressed_key_def)

lemma rw_append_ptr_length:
  "rw_wf b \<Longrightarrow> length bs \<le> rw_space b \<Longrightarrow> length (buf_ptr (rw_read (rw_append b bs))) = length (buf_ptr (rw_read b))"
  using rw_wfD [of b] by (simp add: rw_append_def rw_space_def)

lemma ergo_tree_generate_p2pk_eq:
  assumes "length raw = 65" and "length tree = 36"
  shows "ergo_tree_generate_p2pk raw tree = C_ERGO_TREE_P2PK_PREFIX @ compressed_key raw"
proof -
  define out0 where "out0 = rw_buffer_init tree 36 0"
  define c :: u8 where "c = (if odd (unat (raw ! 64)) then 0x03 else 0x02)"
  have 0: "rw_wf out0" "rw_data out0 = []" "rw_space out0 = 36" "rw_size out0 = 36" "length (buf_ptr (rw_read out0)) = 36"
    using assms(2) by (simp_all add: out0_def wf_intros buf_simps) (simp_all add: rw_buffer_init_def buffer_init_def)
  define out1 where "out1 = rw_append out0 C_ERGO_TREE_P2PK_PREFIX"
  have 1: "rw_wf out1" "rw_data out1 = C_ERGO_TREE_P2PK_PREFIX" "rw_space out1 = 33" "rw_size out1 = 36"
    "length (buf_ptr (rw_read out1)) = 36"
    using 0 by (simp_all add: out1_def tree_lens rw_append_props rw_append_ptr_length)
  define out2 where "out2 = rw_append out1 [c]"
  have 2: "rw_wf out2" "rw_data out2 = C_ERGO_TREE_P2PK_PREFIX @ [c]" "rw_space out2 = 32" "rw_size out2 = 36"
    "length (buf_ptr (rw_read out2)) = 36"
    using 1 by (simp_all add: out2_def rw_append_props rw_append_ptr_length)
  define out3 where "out3 = rw_append out2 (take 32 (drop 1 raw))"
  have 3: "rw_wf out3" "rw_data out3 = C_ERGO_TREE_P2PK_PREFIX @ compressed_key raw" "rw_size out3 = 36"
    "length (buf_ptr (rw_read out3)) = 36"
    using 2 assms(1) by (simp_all add: out3_def rw_append_props rw_append_ptr_length compressed_key_def c_def)
  have "ergo_tree_generate_p2pk raw tree = buf_ptr (rw_read out3)"
    using 0 1 2 assms(1)
    by (simp add: ergo_tree_generate_p2pk_def tree_lens rw_write_bytes_eq rw_write_u8_eq and_1_odd Let_def
        c_def [symmetric] out0_def [symmetric] out1_def [symmetric, unfolded tree_lens] out2_def [symmetric])
      (simp add: out3_def)
  then show ?thesis
    using rw_full_buffer [OF 3(1) 3(2)] 3 length_compressed_key [OF assms(1)] by (simp add: tree_lens)
qed

lemma ergo_tree_parse_p2pk_iff:
  assumes "length tree = 36"
  shows "ergo_tree_parse_p2pk tree = Some key \<longleftrightarrow>
     tree = C_ERGO_TREE_P2PK_PREFIX @ key \<and> (hd key = 0x02 \<or> hd key = 0x03)"
proof -
  let ?k = "drop 3 tree"
  have k: "hd ?k = tree ! 3" "length ?k = 33" "take 33 ?k = ?k" using assms by (simp_all add: hd_drop_conv_nth)
  have "tree = C_ERGO_TREE_P2PK_PREFIX @ key \<longleftrightarrow> take 3 tree = C_ERGO_TREE_P2PK_PREFIX \<and> ?k = key"
    by (metis append_eq_conv_conj append_take_drop_id length_Cons list.size(3) C_ERGO_TREE_P2PK_PREFIX_def
        numeral_3_eq_3)
  then show ?thesis
    using k by (auto simp: ergo_tree_parse_p2pk_def memcmp_eq_def ERGO_TREE_P2PK_PREFIX_LEN_def
        COMPRESSED_PUBLIC_KEY_LEN_def) (simp_all add: C_ERGO_TREE_P2PK_PREFIX_def)
qed

text \<open>
  C22. A tree that the device generates for a public key is recognised by its own parser, which
  returns the compressed key; the parser accepts a 36-byte tree exactly when it is the prefix
  followed by a key that starts with 02 or 03.
\<close>

theorem ergo_tree_p2pk_roundtrip:
  assumes "length raw = 65" and "length tree = 36"
  shows "ergo_tree_parse_p2pk (ergo_tree_generate_p2pk raw tree) = Some (compressed_key raw) \<and>
     length (ergo_tree_generate_p2pk raw tree) = 36 \<and>
     (ergo_tree_parse_p2pk tree = Some key \<longleftrightarrow>
        tree = C_ERGO_TREE_P2PK_PREFIX @ key \<and> (hd key = 0x02 \<or> hd key = 0x03))"
  unfolding ergo_tree_generate_p2pk_eq [OF assms] ergo_tree_parse_p2pk_iff [OF assms(2)]
  using length_compressed_key [OF assms(1)]
  by (auto simp: ergo_tree_parse_p2pk_def memcmp_eq_def tree_lens compressed_key_def)

theorem ergo_tree_p2pk_roundtrip_witness:
  "ergo_tree_parse_p2pk (ergo_tree_generate_p2pk (4 # replicate 64 7) (replicate 36 0)) = Some (3 # replicate 32 7) \<and>
   ergo_tree_parse_p2pk (replicate 36 0) \<noteq> Some (replicate 33 0)"
proof -
  have "compressed_key (4 # replicate 64 7) = 3 # replicate 32 7" by code_simp
  then show ?thesis
    using ergo_tree_p2pk_roundtrip [of "4 # replicate 64 7" "replicate 36 0" "replicate 33 0"] by auto
qed

lemma ergo_tree_parse_p2sh_form:
  assumes "length tree = 44"
  shows "ergo_tree_parse_p2sh tree = Some hash \<longleftrightarrow>
     length hash = 24 \<and> tree = C_ERGO_TREE_P2SH_PREFIX @ hash @ C_ERGO_TREE_P2SH_SUFFIX"
proof -
  let ?h = "take 24 (drop 17 tree)"
  have l: "length C_ERGO_TREE_P2SH_PREFIX = 17" "length C_ERGO_TREE_P2SH_SUFFIX = 3"
    by (simp_all add: C_ERGO_TREE_P2SH_PREFIX_def C_ERGO_TREE_P2SH_SUFFIX_def)
  have h: "length ?h = 24" "take 3 (drop 41 tree) = drop 41 tree" using assms by simp_all
  have cut: "tree = take 17 tree @ ?h @ drop 41 tree"
    using append_take_drop_id [of 24 "drop 17 tree"] by simp
  have "length hash = 24 \<and> tree = C_ERGO_TREE_P2SH_PREFIX @ hash @ C_ERGO_TREE_P2SH_SUFFIX \<longleftrightarrow>
      take 17 tree = C_ERGO_TREE_P2SH_PREFIX \<and> drop 41 tree = C_ERGO_TREE_P2SH_SUFFIX \<and> ?h = hash"
    (is "?L \<longleftrightarrow> ?R")
  proof
    assume ?L
    then show ?R using l by auto
  next
    assume ?R
    then show ?L using cut h by metis
  qed
  then show ?thesis
    using h l by (simp add: ergo_tree_parse_p2sh_def memcmp_eq_def ERGO_TREE_P2SH_PREFIX_LEN_def
        ERGO_TREE_P2SH_SUFFIX_LEN_def P2SH_HASH_LEN_def)
qed

text \<open>
  C23. The script-hash parser accepts a 44-byte tree exactly when it is the fixed prefix, a hash of
  24 bytes and the fixed suffix, and returns that hash.
\<close>

theorem ergo_tree_parse_p2sh_iff:
  assumes "length tree = 44"
  shows "ergo_tree_parse_p2sh tree = Some hash \<longleftrightarrow>
     length hash = 24 \<and> tree = C_ERGO_TREE_P2SH_PREFIX @ hash @ C_ERGO_TREE_P2SH_SUFFIX"
  by (rule ergo_tree_parse_p2sh_form [OF assms])

theorem ergo_tree_parse_p2sh_iff_witness:
  "ergo_tree_parse_p2sh (C_ERGO_TREE_P2SH_PREFIX @ replicate 24 7 @ C_ERGO_TREE_P2SH_SUFFIX) = Some (replicate 24 7)"
proof -
  have "length (C_ERGO_TREE_P2SH_PREFIX @ replicate 24 7 @ C_ERGO_TREE_P2SH_SUFFIX) = 44" by code_simp
  from ergo_tree_parse_p2sh_iff [OF this, of "replicate 24 7"] show ?thesis by simp
qed

end
