(* ===== verification/TxSerBox.thy ===== *)
theory TxSerBox
  imports TxSerTable ErgoTree
begin

text \<open>
  The serializer of one output box, \<^verbatim>\<open>src/ergo/tx_ser_box.h\<close> and \<^verbatim>\<open>tx_ser_box.c\<close>.

  The context is the C structure without its pointers: the hash context it points to is
  \<open>hash_ctx\<close> of the memory, the callback context is part of the memory too, and a callback is a
  function on the memory (\<open>None\<close>: NULL). An operation returns its result, the context, the memory
  and, where it takes a buffer, the buffer.

  Each operation has a lemma that says which byte strings it hashes; together they give the
  theorem that a finished box has been hashed as \<open>box_bytes\<close>, whatever the chunks it came in.
\<close>

datatype ergo_tx_serializer_box_result_e =
    ERGO_TX_SERIALIZER_BOX_RES_OK
  | ERGO_TX_SERIALIZER_BOX_RES_MORE_DATA
  | ERGO_TX_SERIALIZER_BOX_RES_ERR_BAD_TOKEN_INDEX
  | ERGO_TX_SERIALIZER_BOX_RES_ERR_BAD_TOKEN_ID
  | ERGO_TX_SERIALIZER_BOX_RES_ERR_BAD_TOKEN_VALUE
  | ERGO_TX_SERIALIZER_BOX_RES_ERR_TOO_MANY_TOKENS
  | ERGO_TX_SERIALIZER_BOX_RES_ERR_TOO_MUCH_DATA
  | ERGO_TX_SERIALIZER_BOX_RES_ERR_HASHER
  | ERGO_TX_SERIALIZER_BOX_RES_ERR_BUFFER
  | ERGO_TX_SERIALIZER_BOX_RES_ERR_BAD_STATE
  | ERGO_TX_SERIALIZER_BOX_RES_ERR_U64_OVERFLOW
  | ERGO_TX_SERIALIZER_BOX_RES_ERR_SMALL_CHUNK

datatype ergo_tx_serializer_box_state_e =
    ERGO_TX_SERIALIZER_BOX_STATE_INITIALIZED
  | ERGO_TX_SERIALIZER_BOX_STATE_TREE_ADDED
  | ERGO_TX_SERIALIZER_BOX_STATE_TOKENS_ADDED
  | ERGO_TX_SERIALIZER_BOX_STATE_FINISHED
  | ERGO_TX_SERIALIZER_BOX_STATE_HASH_FINALIZED
  | ERGO_TX_SERIALIZER_BOX_STATE_ERROR

datatype ergo_tx_serializer_box_type_e =
    ERGO_TX_SERIALIZER_BOX_TYPE_FEE
  | ERGO_TX_SERIALIZER_BOX_TYPE_CHANGE
  | ERGO_TX_SERIALIZER_BOX_TYPE_TREE

type_synonym 'm box_type_cb =
  "ergo_tx_serializer_box_type_e \<Rightarrow> u64 \<Rightarrow> 'm \<Rightarrow> ergo_tx_serializer_box_result_e \<times> 'm"
type_synonym 'm box_token_cb =
  "ergo_tx_serializer_box_type_e \<Rightarrow> bytes \<Rightarrow> u64 \<Rightarrow> 'm \<Rightarrow> ergo_tx_serializer_box_result_e \<times> 'm"
type_synonym 'm box_finished_cb =
  "ergo_tx_serializer_box_type_e \<Rightarrow> 'm \<Rightarrow> ergo_tx_serializer_box_result_e \<times> 'm"

record 'm ergo_tx_serializer_box_callbacks_t =
  on_type :: "'m box_type_cb option"
  on_token :: "'m box_token_cb option"
  on_finished :: "'m box_finished_cb option"

record 'm ergo_tx_serializer_box_context_t =
  box_callbacks :: "'m ergo_tx_serializer_box_callbacks_t"
  box_value :: u64
  box_ergo_tree_size :: u32
  box_creation_height :: u32
  box_registers_size :: u32
  box_tokens_count :: u8
  box_state :: ergo_tx_serializer_box_state_e
  box_type :: ergo_tx_serializer_box_type_e

type_synonym 'm box_ctx = "'m ergo_tx_serializer_box_context_t"
type_synonym 'm box_out = "ergo_tx_serializer_box_result_e \<times> 'm box_ctx \<times> 'm"

definition MAX_TX_DATA_PART_LEN :: u32 where "MAX_TX_DATA_PART_LEN = 32768"
definition MAX_DATA_CHUNK_LEN :: u32 where "MAX_DATA_CHUNK_LEN = 255"

text \<open>\<open>memset(context, 0, sizeof(*context))\<close>.\<close>

definition box_ctx_zero :: "'m box_ctx" where
  "box_ctx_zero = \<lparr>box_callbacks = \<lparr>on_type = None, on_token = None, on_finished = None\<rparr>,
     box_value = 0, box_ergo_tree_size = 0, box_creation_height = 0, box_registers_size = 0,
     box_tokens_count = 0, box_state = ERGO_TX_SERIALIZER_BOX_STATE_INITIALIZED,
     box_type = ERGO_TX_SERIALIZER_BOX_TYPE_FEE\<rparr>"

text \<open>\<open>blake2b_update(context->hash, data, len)\<close>.\<close>

definition mem_update ::
    "('h, 'x) cx_sdk_scheme \<Rightarrow> ('h, 'z) ser_mem_scheme \<Rightarrow> bytes \<Rightarrow> size_t \<Rightarrow> bool \<times> ('h, 'z) ser_mem_scheme" where
  "mem_update cx m data len =
     (case blake2b_update cx (hash_ctx m) data len of (ok, h) \<Rightarrow> (ok, m\<lparr>hash_ctx := h\<rparr>))"

definition box_res_error :: "'m box_ctx \<Rightarrow> 'm \<Rightarrow> ergo_tx_serializer_box_result_e \<Rightarrow> 'm box_out" where
  "box_res_error c m err = (err, c\<lparr>box_state := ERGO_TX_SERIALIZER_BOX_STATE_ERROR\<rparr>, m)"

text \<open>The results with which \<open>CHECK_CALL_RESULT_OK\<close> goes on.\<close>

definition box_res_ok :: "ergo_tx_serializer_box_result_e \<Rightarrow> bool" where
  "box_res_ok r \<longleftrightarrow> r = ERGO_TX_SERIALIZER_BOX_RES_OK \<or> r = ERGO_TX_SERIALIZER_BOX_RES_MORE_DATA"

definition add_height_and_token_count ::
    "('h, 'x) cx_sdk_scheme \<Rightarrow> ('h, 'z) ser_mem_scheme box_ctx \<Rightarrow> ('h, 'z) ser_mem_scheme \<Rightarrow>
     ('h, 'z) ser_mem_scheme box_out" where
  "add_height_and_token_count cx c m =
     (case gve_put_u32 (rw_buffer_new_local_empty 10) (box_creation_height c) of (r, b) \<Rightarrow>
        if r \<noteq> GVE_OK then box_res_error c m ERGO_TX_SERIALIZER_BOX_RES_ERR_BUFFER
        else case mem_update cx m (rw_buffer_read_ptr b) (rw_buffer_data_len b) of (ok, m1) \<Rightarrow>
          if \<not> ok then box_res_error c m1 ERGO_TX_SERIALIZER_BOX_RES_ERR_HASHER
          else case gve_put_u8 (rw_buffer_empty b) (box_tokens_count c) of (r2, b2) \<Rightarrow>
            if r2 \<noteq> GVE_OK then box_res_error c m1 ERGO_TX_SERIALIZER_BOX_RES_ERR_BUFFER
            else case mem_update cx m1 (rw_buffer_read_ptr b2) (rw_buffer_data_len b2) of (ok2, m2) \<Rightarrow>
              if \<not> ok2 then box_res_error c m2 ERGO_TX_SERIALIZER_BOX_RES_ERR_HASHER
              else (ERGO_TX_SERIALIZER_BOX_RES_OK, c, m2))"

definition add_empty_registers_count ::
    "('h, 'x) cx_sdk_scheme \<Rightarrow> ('h, 'z) ser_mem_scheme box_ctx \<Rightarrow> ('h, 'z) ser_mem_scheme \<Rightarrow>
     ('h, 'z) ser_mem_scheme box_out" where
  "add_empty_registers_count cx c m =
     (case gve_put_u8 (rw_buffer_new_local_empty 1) 0 of (r, b) \<Rightarrow>
        if r \<noteq> GVE_OK then box_res_error c m ERGO_TX_SERIALIZER_BOX_RES_ERR_BUFFER
        else case mem_update cx m (rw_buffer_read_ptr b) (rw_buffer_data_len b) of (ok, m1) \<Rightarrow>
          if \<not> ok then box_res_error c m1 ERGO_TX_SERIALIZER_BOX_RES_ERR_HASHER
          else (ERGO_TX_SERIALIZER_BOX_RES_OK, c, m1))"

definition box_finished :: "'m box_ctx \<Rightarrow> 'm \<Rightarrow> 'm box_out" where
  "box_finished c m =
     (case (case on_finished (box_callbacks c) of
              None \<Rightarrow> (ERGO_TX_SERIALIZER_BOX_RES_OK, m)
            | Some cb \<Rightarrow> cb (box_type c) m) of (res, m1) \<Rightarrow>
        if \<not> box_res_ok res then box_res_error c m1 res
        else (ERGO_TX_SERIALIZER_BOX_RES_OK, c\<lparr>box_state := ERGO_TX_SERIALIZER_BOX_STATE_FINISHED\<rparr>, m1))"

definition ergo_tree_added ::
    "('h, 'x) cx_sdk_scheme \<Rightarrow> ('h, 'z) ser_mem_scheme box_ctx \<Rightarrow> ('h, 'z) ser_mem_scheme \<Rightarrow>
     ('h, 'z) ser_mem_scheme box_out" where
  "ergo_tree_added cx c m =
     (case (case on_type (box_callbacks c) of
              None \<Rightarrow> (ERGO_TX_SERIALIZER_BOX_RES_OK, m)
            | Some cb \<Rightarrow> cb (box_type c) (box_value c) m) of (res, m1) \<Rightarrow>
        if \<not> box_res_ok res then box_res_error c m1 res
        else case add_height_and_token_count cx c m1 of (res2, c2, m2) \<Rightarrow>
          if \<not> box_res_ok res2 then box_res_error c2 m2 res2
          else if box_tokens_count c2 = 0 then
            let c3 = c2\<lparr>box_state := ERGO_TX_SERIALIZER_BOX_STATE_TOKENS_ADDED\<rparr> in
            if box_registers_size c3 = 0 then
              case add_empty_registers_count cx c3 m2 of (res4, c4, m4) \<Rightarrow>
                if \<not> box_res_ok res4 then box_res_error c4 m4 res4 else box_finished c4 m4
            else (ERGO_TX_SERIALIZER_BOX_RES_OK, c3, m2)
          else (ERGO_TX_SERIALIZER_BOX_RES_OK,
                c2\<lparr>box_state := ERGO_TX_SERIALIZER_BOX_STATE_TREE_ADDED\<rparr>, m2))"

definition ergo_tx_serializer_box_init ::
    "('h, 'x) cx_sdk_scheme \<Rightarrow> u64 \<Rightarrow> u32 \<Rightarrow> u32 \<Rightarrow> u8 \<Rightarrow> u32 \<Rightarrow> ('h, 'z) ser_mem_scheme \<Rightarrow>
     ('h, 'z) ser_mem_scheme box_out" where
  "ergo_tx_serializer_box_init cx value ergo_tree_size creation_height tokens_count registers_size m =
     (let c = box_ctx_zero in
      if tokens_count > TOKEN_MAX_COUNT
      then box_res_error c m ERGO_TX_SERIALIZER_BOX_RES_ERR_TOO_MANY_TOKENS
      else if ergo_tree_size > MAX_TX_DATA_PART_LEN
      then box_res_error c m ERGO_TX_SERIALIZER_BOX_RES_ERR_TOO_MUCH_DATA
      else if registers_size > MAX_TX_DATA_PART_LEN
      then box_res_error c m ERGO_TX_SERIALIZER_BOX_RES_ERR_TOO_MUCH_DATA
      else case gve_put_u64 (rw_buffer_new_local_empty 10) value of (r, b) \<Rightarrow>
        if r \<noteq> GVE_OK then box_res_error c m ERGO_TX_SERIALIZER_BOX_RES_ERR_BUFFER
        else case mem_update cx m (rw_buffer_read_ptr b) (rw_buffer_data_len b) of (ok, m1) \<Rightarrow>
          if \<not> ok then box_res_error c m1 ERGO_TX_SERIALIZER_BOX_RES_ERR_HASHER
          else (ERGO_TX_SERIALIZER_BOX_RES_OK,
                c\<lparr>box_ergo_tree_size := ergo_tree_size, box_creation_height := creation_height,
                  box_tokens_count := tokens_count, box_registers_size := registers_size,
                  box_value := value, box_type := ERGO_TX_SERIALIZER_BOX_TYPE_TREE,
                  box_state := ERGO_TX_SERIALIZER_BOX_STATE_INITIALIZED\<rparr>, m1))"

definition ergo_tx_serializer_box_add_tree ::
    "('h, 'x) cx_sdk_scheme \<Rightarrow> ('h, 'z) ser_mem_scheme box_ctx \<Rightarrow> ('h, 'z) ser_mem_scheme \<Rightarrow> buffer_t \<Rightarrow>
     ergo_tx_serializer_box_result_e \<times> ('h, 'z) ser_mem_scheme box_ctx \<times> ('h, 'z) ser_mem_scheme \<times> buffer_t" where
  "ergo_tx_serializer_box_add_tree cx c m chunk =
     (let ret = (\<lambda>(r, c', m') b. (r, c', m', b)); len = buffer_data_len chunk in
      if box_state c \<noteq> ERGO_TX_SERIALIZER_BOX_STATE_INITIALIZED
      then ret (box_res_error c m ERGO_TX_SERIALIZER_BOX_RES_ERR_BAD_STATE) chunk
      else if box_ergo_tree_size c < len
      then ret (box_res_error c m ERGO_TX_SERIALIZER_BOX_RES_ERR_TOO_MUCH_DATA) chunk
      else if box_ergo_tree_size c > len \<and> len < MAX_DATA_CHUNK_LEN
      then ret (box_res_error c m ERGO_TX_SERIALIZER_BOX_RES_ERR_SMALL_CHUNK) chunk
      else case mem_update cx m (buffer_read_ptr chunk) len of (ok, m1) \<Rightarrow>
        if \<not> ok then ret (box_res_error c m1 ERGO_TX_SERIALIZER_BOX_RES_ERR_HASHER) chunk
        else case buffer_seek_cur chunk len of (sk, chunk') \<Rightarrow>
          if \<not> sk then ret (box_res_error c m1 ERGO_TX_SERIALIZER_BOX_RES_ERR_BUFFER) chunk'
          else let c1 = c\<lparr>box_ergo_tree_size := box_ergo_tree_size c - len\<rparr> in
            if box_ergo_tree_size c1 = 0
            then ret (ergo_tree_added cx (c1\<lparr>box_type := ERGO_TX_SERIALIZER_BOX_TYPE_TREE\<rparr>) m1) chunk'
            else (ERGO_TX_SERIALIZER_BOX_RES_MORE_DATA, c1, m1, chunk'))"

definition ergo_tx_serializer_box_add_miners_fee_tree ::
    "('h, 'x) cx_sdk_scheme \<Rightarrow> ('h, 'z) ser_mem_scheme box_ctx \<Rightarrow> ('h, 'z) ser_mem_scheme \<Rightarrow> bool \<Rightarrow>
     ('h, 'z) ser_mem_scheme box_out" where
  "ergo_tx_serializer_box_add_miners_fee_tree cx c m is_mainnet =
     (if box_state c \<noteq> ERGO_TX_SERIALIZER_BOX_STATE_INITIALIZED
      then box_res_error c m ERGO_TX_SERIALIZER_BOX_RES_ERR_BAD_STATE
      else case ergo_tree_miners_fee_tree is_mainnet of (tree, tree_len) \<Rightarrow>
        case mem_update cx m tree tree_len of (ok, m1) \<Rightarrow>
          if \<not> ok then box_res_error c m1 ERGO_TX_SERIALIZER_BOX_RES_ERR_HASHER
          else ergo_tree_added cx (c\<lparr>box_type := ERGO_TX_SERIALIZER_BOX_TYPE_FEE\<rparr>) m1)"

text \<open>The local array \<open>tree\<close> is overwritten completely; its initial bytes are 0 here.\<close>

definition ergo_tx_serializer_box_add_change_tree ::
    "('h, 'x) cx_sdk_scheme \<Rightarrow> ('h, 'z) ser_mem_scheme box_ctx \<Rightarrow> ('h, 'z) ser_mem_scheme \<Rightarrow> bytes \<Rightarrow>
     ('h, 'z) ser_mem_scheme box_out" where
  "ergo_tx_serializer_box_add_change_tree cx c m raw_public_key =
     (if box_state c \<noteq> ERGO_TX_SERIALIZER_BOX_STATE_INITIALIZED
      then box_res_error c m ERGO_TX_SERIALIZER_BOX_RES_ERR_BAD_STATE
      else let tree = ergo_tree_generate_p2pk raw_public_key (replicate (unat ERGO_TREE_P2PK_LEN) 0) in
        case mem_update cx m tree ERGO_TREE_P2PK_LEN of (ok, m1) \<Rightarrow>
          if \<not> ok then box_res_error c m1 ERGO_TX_SERIALIZER_BOX_RES_ERR_HASHER
          else ergo_tree_added cx (c\<lparr>box_type := ERGO_TX_SERIALIZER_BOX_TYPE_CHANGE\<rparr>) m1)"

text \<open>
  The first half of a loop iteration of \<open>ergo_tx_serializer_box_add_tokens\<close>: read the token id
  (or its index in the table), hash it. \<open>Inl\<close> is an early return; the index failure of line 209
  returns without \<open>res_error\<close>, so the state stays as it is. The local buffer is threaded through.
\<close>

definition box_token_id ::
    "('h, 'x) cx_sdk_scheme \<Rightarrow> ('h, 'z) ser_mem_scheme box_ctx \<Rightarrow> ('h, 'z) ser_mem_scheme \<Rightarrow> rw_buffer_t \<Rightarrow>
     buffer_t \<Rightarrow> ergo_tx_serializer_table_context_t option \<Rightarrow>
     (('h, 'z) ser_mem_scheme box_out \<times> buffer_t) +
     (bytes \<times> ('h, 'z) ser_mem_scheme \<times> rw_buffer_t \<times> buffer_t)" where
  "box_token_id cx c m buffer input table =
     (case table of
        None \<Rightarrow>
          (case buffer_read_bytes input ERGO_ID_LEN of
             (None, input1) \<Rightarrow> Inl (box_res_error c m ERGO_TX_SERIALIZER_BOX_RES_ERR_BAD_TOKEN_ID, input1)
           | (Some tid, input1) \<Rightarrow>
               (case mem_update cx m tid ERGO_ID_LEN of (ok, m1) \<Rightarrow>
                  if \<not> ok then Inl (box_res_error c m1 ERGO_TX_SERIALIZER_BOX_RES_ERR_HASHER, input1)
                  else Inr (tid, m1, buffer, input1)))
      | Some tc \<Rightarrow>
          (case buffer_read_u32 input BE of
             (None, input1) \<Rightarrow> Inl ((ERGO_TX_SERIALIZER_BOX_RES_ERR_BAD_TOKEN_INDEX, c, m), input1)
           | (Some index, input1) \<Rightarrow>
               if index \<ge> ucast (distinct_tokens_count tc)
               then Inl (box_res_error c m ERGO_TX_SERIALIZER_BOX_RES_ERR_BAD_TOKEN_INDEX, input1)
               else case gve_put_u32 (rw_buffer_empty buffer) index of (r, buffer1) \<Rightarrow>
                 if r \<noteq> GVE_OK then Inl (box_res_error c m ERGO_TX_SERIALIZER_BOX_RES_ERR_BUFFER, input1)
                 else case mem_update cx m (rw_buffer_read_ptr buffer1) (rw_buffer_data_len buffer1) of (ok, m1) \<Rightarrow>
                   if \<not> ok then Inl (box_res_error c m1 ERGO_TX_SERIALIZER_BOX_RES_ERR_HASHER, input1)
                   else Inr (tt_tokens (tokens_table m1) ! unat index, m1, buffer1, input1)))"

text \<open>One iteration.\<close>

definition box_token_step ::
    "('h, 'x) cx_sdk_scheme \<Rightarrow> ('h, 'z) ser_mem_scheme box_ctx \<Rightarrow> ('h, 'z) ser_mem_scheme \<Rightarrow> rw_buffer_t \<Rightarrow>
     buffer_t \<Rightarrow> ergo_tx_serializer_table_context_t option \<Rightarrow>
     (('h, 'z) ser_mem_scheme box_out \<times> buffer_t) +
     (('h, 'z) ser_mem_scheme box_ctx \<times> ('h, 'z) ser_mem_scheme \<times> rw_buffer_t \<times> buffer_t)" where
  "box_token_step cx c m buffer input table =
     (if box_tokens_count c = 0
      then Inl (box_res_error c m ERGO_TX_SERIALIZER_BOX_RES_ERR_TOO_MANY_TOKENS, input)
      else case box_token_id cx c m buffer input table of
        Inl out \<Rightarrow> Inl out
      | Inr (tid, m1, buffer1, input1) \<Rightarrow>
          (case buffer_read_u64 input1 BE of
             (None, input2) \<Rightarrow> Inl (box_res_error c m1 ERGO_TX_SERIALIZER_BOX_RES_ERR_BAD_TOKEN_VALUE, input2)
           | (Some value, input2) \<Rightarrow>
               (case gve_put_u64 (rw_buffer_empty buffer1) value of (r, buffer2) \<Rightarrow>
                  if r \<noteq> GVE_OK then Inl (box_res_error c m1 ERGO_TX_SERIALIZER_BOX_RES_ERR_BUFFER, input2)
                  else case mem_update cx m1 (rw_buffer_read_ptr buffer2) (rw_buffer_data_len buffer2) of (ok, m2) \<Rightarrow>
                    if \<not> ok then Inl (box_res_error c m2 ERGO_TX_SERIALIZER_BOX_RES_ERR_HASHER, input2)
                    else case (case on_token (box_callbacks c) of
                                 None \<Rightarrow> (ERGO_TX_SERIALIZER_BOX_RES_OK, m2)
                               | Some cb \<Rightarrow> cb (box_type c) tid value m2) of (res, m3) \<Rightarrow>
                      if \<not> box_res_ok res then Inl (box_res_error c m3 res, input2)
                      else Inr (c\<lparr>box_tokens_count := box_tokens_count c - 1\<rparr>, m3, buffer2, input2))))"

lemma box_token_step_count:
  assumes "box_token_step cx c m buffer input table = Inr (c', m', buffer', input')"
  shows "box_tokens_count c \<noteq> 0" and "box_tokens_count c' = box_tokens_count c - 1"
  using assms by (auto simp: box_token_step_def split: if_splits sum.splits prod.splits option.splits)

text \<open>The loop, and what follows it; it ends because every iteration counts a token down.\<close>

function box_tokens_loop ::
    "('h, 'x) cx_sdk_scheme \<Rightarrow> ('h, 'z) ser_mem_scheme box_ctx \<Rightarrow> ('h, 'z) ser_mem_scheme \<Rightarrow> rw_buffer_t \<Rightarrow>
     buffer_t \<Rightarrow> ergo_tx_serializer_table_context_t option \<Rightarrow>
     (('h, 'z) ser_mem_scheme box_out \<times> buffer_t) +
     (('h, 'z) ser_mem_scheme box_ctx \<times> ('h, 'z) ser_mem_scheme \<times> buffer_t)" where
  "box_tokens_loop cx c m buffer input table =
     (if buffer_data_len input > 0 then
        case box_token_step cx c m buffer input table of
          Inl out \<Rightarrow> Inl out
        | Inr (c', m', buffer', input') \<Rightarrow> box_tokens_loop cx c' m' buffer' input' table
      else Inr (c, m, input))"
  by pat_completeness auto
termination
proof (relation "measure (\<lambda>(cx, c, m, buffer, input, table). unat (box_tokens_count c))", goal_cases)
  case (2 cx c m buffer input table r c' y m' z buffer' input')
  then have "box_tokens_count c \<noteq> 0" "box_tokens_count c' = box_tokens_count c - 1"
    using box_token_step_count [of cx c m buffer input table c' m' buffer' input'] by simp_all
  then have "unat (box_tokens_count c') < unat (box_tokens_count c)"
    using unat_minus_one [of "box_tokens_count c"] by (simp add: word_greater_zero_iff unat_gt_0)
  then show ?case by simp
qed simp

declare box_tokens_loop.simps [simp del]

definition ergo_tx_serializer_box_add_tokens ::
    "('h, 'x) cx_sdk_scheme \<Rightarrow> ('h, 'z) ser_mem_scheme box_ctx \<Rightarrow> ('h, 'z) ser_mem_scheme \<Rightarrow> buffer_t \<Rightarrow>
     ergo_tx_serializer_table_context_t option \<Rightarrow>
     ergo_tx_serializer_box_result_e \<times> ('h, 'z) ser_mem_scheme box_ctx \<times> ('h, 'z) ser_mem_scheme \<times> buffer_t" where
  "ergo_tx_serializer_box_add_tokens cx c m input table =
     (let ret = (\<lambda>(r, c', m') b. (r, c', m', b)) in
      if box_state c \<noteq> ERGO_TX_SERIALIZER_BOX_STATE_TREE_ADDED
      then ret (box_res_error c m ERGO_TX_SERIALIZER_BOX_RES_ERR_BAD_STATE) input
      else case box_tokens_loop cx c m (rw_buffer_new_local_empty 10) input table of
        Inl (out, input') \<Rightarrow> ret out input'
      | Inr (c1, m1, input') \<Rightarrow>
          if box_tokens_count c1 = 0 then
            if box_registers_size c1 = 0 then
              case add_empty_registers_count cx c1 m1 of (res, c2, m2) \<Rightarrow>
                if \<not> box_res_ok res then ret (box_res_error c2 m2 res) input'
                else ret (box_finished c2 m2) input'
            else (ERGO_TX_SERIALIZER_BOX_RES_OK,
                  c1\<lparr>box_state := ERGO_TX_SERIALIZER_BOX_STATE_TOKENS_ADDED\<rparr>, m1, input')
          else (ERGO_TX_SERIALIZER_BOX_RES_MORE_DATA, c1, m1, input'))"

definition ergo_tx_serializer_box_add_registers ::
    "('h, 'x) cx_sdk_scheme \<Rightarrow> ('h, 'z) ser_mem_scheme box_ctx \<Rightarrow> ('h, 'z) ser_mem_scheme \<Rightarrow> buffer_t \<Rightarrow>
     ergo_tx_serializer_box_result_e \<times> ('h, 'z) ser_mem_scheme box_ctx \<times> ('h, 'z) ser_mem_scheme \<times> buffer_t" where
  "ergo_tx_serializer_box_add_registers cx c m chunk =
     (let ret = (\<lambda>(r, c', m') b. (r, c', m', b)); len = buffer_data_len chunk in
      if box_state c \<noteq> ERGO_TX_SERIALIZER_BOX_STATE_TOKENS_ADDED
      then ret (box_res_error c m ERGO_TX_SERIALIZER_BOX_RES_ERR_BAD_STATE) chunk
      else if box_registers_size c < len
      then ret (box_res_error c m ERGO_TX_SERIALIZER_BOX_RES_ERR_TOO_MUCH_DATA) chunk
      else case mem_update cx m (buffer_read_ptr chunk) len of (ok, m1) \<Rightarrow>
        if \<not> ok then ret (box_res_error c m1 ERGO_TX_SERIALIZER_BOX_RES_ERR_HASHER) chunk
        else case buffer_seek_cur chunk len of (sk, chunk') \<Rightarrow>
          if \<not> sk then ret (box_res_error c m1 ERGO_TX_SERIALIZER_BOX_RES_ERR_BUFFER) chunk'
          else let c1 = c\<lparr>box_registers_size := box_registers_size c - len\<rparr> in
            if box_registers_size c1 = 0 then ret (box_finished c1 m1) chunk'
            else (ERGO_TX_SERIALIZER_BOX_RES_MORE_DATA, c1, m1, chunk'))"

definition ergo_tx_serializer_box_id_hash_init :: "('h, 'x) cx_sdk_scheme \<Rightarrow> 'h \<Rightarrow> bool \<times> 'h" where
  "ergo_tx_serializer_box_id_hash_init cx h = blake2b_256_init cx h"

text \<open>The result carries the bytes stored to \<open>box_id\<close>; an early return leaves \<open>box_id\<close> as it is.\<close>

definition ergo_tx_serializer_box_id_hash ::
    "('h, 'x) cx_sdk_scheme \<Rightarrow> ('h, 'z) ser_mem_scheme box_ctx \<Rightarrow> ('h, 'z) ser_mem_scheme \<Rightarrow> bytes \<Rightarrow> u16 \<Rightarrow> bytes \<Rightarrow>
     ('h, 'z) ser_mem_scheme box_out \<times> bytes" where
  "ergo_tx_serializer_box_id_hash cx c m tx_id box_index box_id =
     (if box_state c \<noteq> ERGO_TX_SERIALIZER_BOX_STATE_FINISHED
      then (box_res_error c m ERGO_TX_SERIALIZER_BOX_RES_ERR_BAD_STATE, box_id)
      else case mem_update cx m tx_id ERGO_ID_LEN of (ok, m1) \<Rightarrow>
        if \<not> ok then (box_res_error c m1 ERGO_TX_SERIALIZER_BOX_RES_ERR_HASHER, box_id)
        else case gve_put_u16 (rw_buffer_new_local_empty 4) box_index of (r, b) \<Rightarrow>
          if r \<noteq> GVE_OK then (box_res_error c m1 ERGO_TX_SERIALIZER_BOX_RES_ERR_BUFFER, box_id)
          else case mem_update cx m1 (rw_buffer_read_ptr b) (rw_buffer_data_len b) of (ok2, m2) \<Rightarrow>
            if \<not> ok2 then (box_res_error c m2 ERGO_TX_SERIALIZER_BOX_RES_ERR_HASHER, box_id)
            else case blake2b_256_finalize cx (hash_ctx m2) of (ok3, h3, out) \<Rightarrow>
              if \<not> ok3 then (box_res_error c (m2\<lparr>hash_ctx := h3\<rparr>) ERGO_TX_SERIALIZER_BOX_RES_ERR_HASHER, out)
              else ((ERGO_TX_SERIALIZER_BOX_RES_OK,
                     c\<lparr>box_state := ERGO_TX_SERIALIZER_BOX_STATE_HASH_FINALIZED\<rparr>, m2\<lparr>hash_ctx := h3\<rparr>), out))"

definition ergo_tx_serializer_box_is_finished :: "'m box_ctx \<Rightarrow> bool" where
  "ergo_tx_serializer_box_is_finished c \<longleftrightarrow> box_state c = ERGO_TX_SERIALIZER_BOX_STATE_FINISHED"

definition ergo_tx_serializer_box_set_callbacks ::
    "'m box_ctx \<Rightarrow> 'm box_type_cb option \<Rightarrow> 'm box_token_cb option \<Rightarrow> 'm box_finished_cb option \<Rightarrow> 'm box_ctx" where
  "ergo_tx_serializer_box_set_callbacks c f g h =
     c\<lparr>box_callbacks := \<lparr>on_type = f, on_token = g, on_finished = h\<rparr>\<rparr>"

subsection \<open>What the helpers hash\<close>

text \<open>The callbacks work on the objects of their caller and leave the hash context alone.\<close>

definition box_cbs_frame :: "('h, 'z) ser_mem_scheme box_ctx \<Rightarrow> bool" where
  "box_cbs_frame c \<longleftrightarrow>
     (\<forall>f t v m. on_type (box_callbacks c) = Some f \<longrightarrow> hash_ctx (snd (f t v m)) = hash_ctx m) \<and>
     (\<forall>f t i v m. on_token (box_callbacks c) = Some f \<longrightarrow> hash_ctx (snd (f t i v m)) = hash_ctx m) \<and>
     (\<forall>f t m. on_finished (box_callbacks c) = Some f \<longrightarrow> hash_ctx (snd (f t m)) = hash_ctx m)"

named_theorems box_trace \<open>the byte strings that an operation of the box serializer hashes\<close>

lemma mem_update_True:
  "mem_update cx m data len = (True, m') \<longleftrightarrow>
     (\<exists>h. hash_absorb cx (hash_ctx m) (take (unat len) data) h \<and> m' = m\<lparr>hash_ctx := h\<rparr>)"
  by (auto simp: mem_update_def blake2b_update_True [symmetric] split: prod.splits)

lemma box_res_ok_simps [simp]:
  "box_res_ok ERGO_TX_SERIALIZER_BOX_RES_OK" "box_res_ok ERGO_TX_SERIALIZER_BOX_RES_MORE_DATA"
  "\<not> box_res_ok ERGO_TX_SERIALIZER_BOX_RES_ERR_BAD_TOKEN_INDEX"
  "\<not> box_res_ok ERGO_TX_SERIALIZER_BOX_RES_ERR_BAD_TOKEN_ID"
  "\<not> box_res_ok ERGO_TX_SERIALIZER_BOX_RES_ERR_BAD_TOKEN_VALUE"
  "\<not> box_res_ok ERGO_TX_SERIALIZER_BOX_RES_ERR_TOO_MANY_TOKENS"
  "\<not> box_res_ok ERGO_TX_SERIALIZER_BOX_RES_ERR_TOO_MUCH_DATA"
  "\<not> box_res_ok ERGO_TX_SERIALIZER_BOX_RES_ERR_HASHER"
  "\<not> box_res_ok ERGO_TX_SERIALIZER_BOX_RES_ERR_BUFFER"
  "\<not> box_res_ok ERGO_TX_SERIALIZER_BOX_RES_ERR_BAD_STATE"
  "\<not> box_res_ok ERGO_TX_SERIALIZER_BOX_RES_ERR_U64_OVERFLOW"
  "\<not> box_res_ok ERGO_TX_SERIALIZER_BOX_RES_ERR_SMALL_CHUNK"
  by (simp_all add: box_res_ok_def)

lemma box_res_error_not_ok [simp]:
  "\<not> box_res_ok e \<Longrightarrow> box_res_ok r \<Longrightarrow> box_res_error c m e = (r, c', m') \<longleftrightarrow> False"
  by (auto simp: box_res_error_def)

lemma ret_eq [simp]:
  "(case p of (r, c, m) \<Rightarrow> \<lambda>b. (r, c, m, b)) b = (r', c', m', b') \<longleftrightarrow> p = (r', c', m') \<and> b = b'"
  by (cases p) simp

lemma rw_empty_put_u8:
  assumes "rw_wf b" and "1 \<le> unat (rw_size b)"
  shows "\<exists>b'. gve_put_u8 (rw_buffer_empty b) v = (GVE_OK, b') \<and> rw_wf b' \<and> rw_size b' = rw_size b \<and>
     take (unat (rw_buffer_data_len b')) (rw_buffer_read_ptr b') = [v]"
  using assms by (simp add: wf_intros buf_simps)

lemma rw_empty_put_u32:
  assumes "rw_wf b" and "5 \<le> unat (rw_size b)"
  shows "\<exists>b'. gve_put_u32 (rw_buffer_empty b) v = (GVE_OK, b') \<and> rw_wf b' \<and> rw_size b' = rw_size b \<and>
     take (unat (rw_buffer_data_len b')) (rw_buffer_read_ptr b') = vlq (unat v)"
  using assms vlq_u32_length [of v] by (simp add: wf_intros buf_simps)

lemma rw_empty_put_u64:
  assumes "rw_wf b" and "10 \<le> unat (rw_size b)"
  shows "\<exists>b'. gve_put_u64 (rw_buffer_empty b) v = (GVE_OK, b') \<and> rw_wf b' \<and> rw_size b' = rw_size b \<and>
     take (unat (rw_buffer_data_len b')) (rw_buffer_read_ptr b') = vlq (unat v)"
  using assms vlq_u64_length [of v] by (simp add: wf_intros buf_simps)

lemma add_height_trace [box_trace]:
  assumes "add_height_and_token_count cx c m = (r, c', m')" and "box_res_ok r"
  shows "r = ERGO_TX_SERIALIZER_BOX_RES_OK \<and> c' = c \<and> tokens_table m' = tokens_table m \<and>
     hash_trace cx (hash_ctx m) [vlq (unat (box_creation_height c)), [box_tokens_count c]] (hash_ctx m')"
proof -
  obtain b where b: "gve_put_u32 (rw_buffer_new_local_empty 10) (box_creation_height c) = (GVE_OK, b)"
    "rw_wf b" "rw_size b = 10"
    "take (unat (rw_buffer_data_len b)) (rw_buffer_read_ptr b) = vlq (unat (box_creation_height c))"
    using local_u32 [of 10 "box_creation_height c"] by auto
  then obtain b2 where b2: "gve_put_u8 (rw_buffer_empty b) (box_tokens_count c) = (GVE_OK, b2)"
    "take (unat (rw_buffer_data_len b2)) (rw_buffer_read_ptr b2) = [box_tokens_count c]"
    using rw_empty_put_u8 [of b "box_tokens_count c"] by auto
  show ?thesis
    using assms b b2 by (auto simp: add_height_and_token_count_def mem_update_True split: prod.splits if_splits)
qed

lemma add_empty_registers_trace [box_trace]:
  assumes "add_empty_registers_count cx c m = (r, c', m')" and "box_res_ok r"
  shows "r = ERGO_TX_SERIALIZER_BOX_RES_OK \<and> c' = c \<and> tokens_table m' = tokens_table m \<and>
     hash_trace cx (hash_ctx m) [[0]] (hash_ctx m')"
proof -
  have "\<exists>b. gve_put_u8 (rw_buffer_new_local_empty 1) 0 = (GVE_OK, b) \<and>
      take (unat (rw_buffer_data_len b)) (rw_buffer_read_ptr b) = [0]"
    by (simp add: wf_intros buf_simps)
  then show ?thesis
    using assms by (auto simp: add_empty_registers_count_def mem_update_True split: prod.splits if_splits)
qed

lemma box_finished_trace [box_trace]:
  assumes "box_finished c m = (r, c', m')" and "box_res_ok r" and "box_cbs_frame c"
  shows "r = ERGO_TX_SERIALIZER_BOX_RES_OK \<and>
     c' = c\<lparr>box_state := ERGO_TX_SERIALIZER_BOX_STATE_FINISHED\<rparr> \<and> hash_ctx m' = hash_ctx m"
  using assms by (auto simp: box_finished_def box_cbs_frame_def split: option.splits prod.splits if_splits)
    (metis snd_conv)+

text \<open>The state in which a box is left once its tree is complete.\<close>

definition box_state_after_tree :: "u8 \<Rightarrow> u32 \<Rightarrow> ergo_tx_serializer_box_state_e" where
  "box_state_after_tree tokens regs =
     (if tokens \<noteq> 0 then ERGO_TX_SERIALIZER_BOX_STATE_TREE_ADDED
      else if regs \<noteq> 0 then ERGO_TX_SERIALIZER_BOX_STATE_TOKENS_ADDED
      else ERGO_TX_SERIALIZER_BOX_STATE_FINISHED)"

lemma ergo_tree_added_trace [box_trace]:
  assumes "ergo_tree_added cx c m = (r, c', m')" and "box_res_ok r" and "box_cbs_frame c"
  shows "r = ERGO_TX_SERIALIZER_BOX_RES_OK \<and>
     c' = c\<lparr>box_state := box_state_after_tree (box_tokens_count c) (box_registers_size c)\<rparr> \<and>
     hash_trace cx (hash_ctx m) ([vlq (unat (box_creation_height c)), [box_tokens_count c]] @
       (if box_tokens_count c = 0 \<and> box_registers_size c = 0 then [[0]] else [])) (hash_ctx m')"
proof -
  obtain res m1 where cb: "(case on_type (box_callbacks c) of None \<Rightarrow> (ERGO_TX_SERIALIZER_BOX_RES_OK, m)
      | Some cb \<Rightarrow> cb (box_type c) (box_value c) m) = (res, m1)" by (metis surj_pair)
  then have h1: "hash_ctx m1 = hash_ctx m"
    using assms(3) by (auto simp: box_cbs_frame_def split: option.splits) (metis snd_conv)
  obtain res2 c2 m2 where a: "add_height_and_token_count cx c m1 = (res2, c2, m2)" by (metis prod_cases3)
  have ok: "box_res_ok res" "box_res_ok res2"
    using assms(1,2) cb a by (auto simp: ergo_tree_added_def split: if_splits)
  note t = add_height_trace [OF a ok(2)]
  show ?thesis
  proof (cases "box_tokens_count c = 0 \<and> box_registers_size c = 0")
    case True
    let ?c3 = "c\<lparr>box_state := ERGO_TX_SERIALIZER_BOX_STATE_TOKENS_ADDED\<rparr>"
    obtain res4 c4 m4 where e: "add_empty_registers_count cx ?c3 m2 = (res4, c4, m4)" by (metis prod_cases3)
    have ok4: "box_res_ok res4" and f: "box_finished c4 m4 = (r, c', m')"
      using assms(1,2) cb a ok t e True by (auto simp: ergo_tree_added_def split: if_splits)
    note t4 = add_empty_registers_trace [OF e ok4]
    have "box_cbs_frame c4" using t4 assms(3) by (simp add: box_cbs_frame_def)
    with box_finished_trace [OF f assms(2)] t t4 True h1 show ?thesis
      by (auto simp: box_state_after_tree_def)
  next
    case False
    then show ?thesis
      using assms(1,2) cb a ok t h1 by (auto simp: ergo_tree_added_def box_state_after_tree_def Let_def)
  qed
qed

lemma box_init_trace [box_trace]:
  assumes "ergo_tx_serializer_box_init cx v tree_size height tokens_count regs m = (r, c', m')"
    and "box_res_ok r"
  shows "r = ERGO_TX_SERIALIZER_BOX_RES_OK \<and>
     c' = box_ctx_zero\<lparr>box_ergo_tree_size := tree_size, box_creation_height := height,
            box_tokens_count := tokens_count, box_registers_size := regs, box_value := v,
            box_type := ERGO_TX_SERIALIZER_BOX_TYPE_TREE,
            box_state := ERGO_TX_SERIALIZER_BOX_STATE_INITIALIZED\<rparr> \<and>
     unat tokens_count \<le> 100 \<and> unat tree_size \<le> 32768 \<and> unat regs \<le> 32768 \<and>
     tokens_table m' = tokens_table m \<and> hash_trace cx (hash_ctx m) [vlq (unat v)] (hash_ctx m')"
proof -
  obtain b where "gve_put_u64 (rw_buffer_new_local_empty 10) v = (GVE_OK, b)"
    "take (unat (rw_buffer_data_len b)) (rw_buffer_read_ptr b) = vlq (unat v)"
    using local_u64 [of 10 v] by auto
  then show ?thesis
    using assms by (auto simp: ergo_tx_serializer_box_init_def mem_update_True Let_def word_less_nat_alt
        MAX_TX_DATA_PART_LEN_def TOKEN_MAX_COUNT_def split: prod.splits if_splits)
qed

lemma box_add_tree_trace [box_trace]:
  assumes "ergo_tx_serializer_box_add_tree cx c m b = (r, c', m', b')" and "box_res_ok r" and "buffer_wf b"
  defines "d \<equiv> buffer_data b"
  defines "c1 \<equiv> c\<lparr>box_ergo_tree_size := box_ergo_tree_size c - of_nat (length d)\<rparr>"
  shows "box_state c = ERGO_TX_SERIALIZER_BOX_STATE_INITIALIZED \<and>
     unat (box_ergo_tree_size c) = unat (box_ergo_tree_size c1) + length d \<and>
     (\<exists>h. hash_trace cx (hash_ctx m) [d] h \<and>
        (if box_ergo_tree_size c1 = 0
         then ergo_tree_added cx (c1\<lparr>box_type := ERGO_TX_SERIALIZER_BOX_TYPE_TREE\<rparr>) (m\<lparr>hash_ctx := h\<rparr>) = (r, c', m')
         else 255 \<le> length d \<and> r = ERGO_TX_SERIALIZER_BOX_RES_MORE_DATA \<and> c' = c1 \<and> m' = m\<lparr>hash_ctx := h\<rparr>))"
proof -
  have len: "unat (buffer_data_len b) = length d" by (simp add: d_def unat_buffer_data_len [OF assms(3)])
  then have w: "of_nat (length d) = buffer_data_len b" by (metis of_nat_unat ucast_id)
  have st: "box_state c = ERGO_TX_SERIALIZER_BOX_STATE_INITIALIZED" "\<not> box_ergo_tree_size c < buffer_data_len b"
    "\<not> (box_ergo_tree_size c > buffer_data_len b \<and> buffer_data_len b < MAX_DATA_CHUNK_LEN)"
    using assms(1,2) by (auto simp: ergo_tx_serializer_box_add_tree_def Let_def split: if_splits)
  obtain b2 where sk: "buffer_seek_cur b (buffer_data_len b) = (True, b2)"
    using assms(3) by (simp add: buffer_seek_cur_ok unat_buffer_data_len)
  have rd: "take (unat (buffer_data_len b)) (buffer_read_ptr b) = d" by (simp add: d_def buffer_data_def)
  obtain m1 where m1: "mem_update cx m (buffer_read_ptr b) (buffer_data_len b) = (True, m1)"
    using assms(1,2) st by (auto simp: ergo_tx_serializer_box_add_tree_def Let_def split: if_splits prod.splits)
  have sub: "unat (box_ergo_tree_size c1) = unat (box_ergo_tree_size c) - length d"
    using st(2) len by (simp add: c1_def w word_sub_le_unat)
  have small: "box_ergo_tree_size c1 \<noteq> 0 \<Longrightarrow> 255 \<le> length d"
    using st(2,3) len sub unat_eq_zero [of "box_ergo_tree_size c1"]
    by (auto simp: MAX_DATA_CHUNK_LEN_def word_less_nat_alt not_less)
  obtain h where h: "hash_absorb cx (hash_ctx m) d h" "m1 = m\<lparr>hash_ctx := h\<rparr>"
    using m1 rd by (auto simp: mem_update_True)
  have "if box_ergo_tree_size c1 = 0 then ergo_tree_added cx (c1\<lparr>box_type := ERGO_TX_SERIALIZER_BOX_TYPE_TREE\<rparr>) m1 = (r, c', m')
        else r = ERGO_TX_SERIALIZER_BOX_RES_MORE_DATA \<and> c' = c1 \<and> m' = m1"
    using assms(1) st by (simp add: ergo_tx_serializer_box_add_tree_def Let_def m1 sk c1_def w split: if_splits)
  then show ?thesis
    using st sub len small h by (intro conjI exI [of _ h]) (auto simp: word_less_nat_alt)
qed

lemma box_add_fee_tree_trace [box_trace]:
  assumes "ergo_tx_serializer_box_add_miners_fee_tree cx c m is_mainnet = (r, c', m')" and "box_res_ok r"
  shows "box_state c = ERGO_TX_SERIALIZER_BOX_STATE_INITIALIZED \<and>
     (\<exists>h. hash_trace cx (hash_ctx m) [C_ERGO_TREE_MINERS_HASH_FEE_MAINNET] h \<and>
        ergo_tree_added cx (c\<lparr>box_type := ERGO_TX_SERIALIZER_BOX_TYPE_FEE\<rparr>) (m\<lparr>hash_ctx := h\<rparr>) = (r, c', m'))"
proof -
  have "length C_ERGO_TREE_MINERS_HASH_FEE_MAINNET = 105"
    by (simp add: C_ERGO_TREE_MINERS_HASH_FEE_MAINNET_def)
  then show ?thesis
    using assms by (auto simp: ergo_tx_serializer_box_add_miners_fee_tree_def ergo_tree_miners_fee_tree_def
        mem_update_True split: prod.splits if_splits)
qed

lemma box_add_change_tree_trace [box_trace]:
  assumes "ergo_tx_serializer_box_add_change_tree cx c m raw = (r, c', m')" and "box_res_ok r"
    and "length raw = 65"
  shows "box_state c = ERGO_TX_SERIALIZER_BOX_STATE_INITIALIZED \<and>
     (\<exists>h. hash_trace cx (hash_ctx m) [C_ERGO_TREE_P2PK_PREFIX @ compressed_key raw] h \<and>
        ergo_tree_added cx (c\<lparr>box_type := ERGO_TX_SERIALIZER_BOX_TYPE_CHANGE\<rparr>) (m\<lparr>hash_ctx := h\<rparr>) = (r, c', m'))"
proof -
  let ?t = "ergo_tree_generate_p2pk raw (replicate (unat ERGO_TREE_P2PK_LEN) 0)"
  have "?t = C_ERGO_TREE_P2PK_PREFIX @ compressed_key raw"
    by (rule ergo_tree_generate_p2pk_eq) (simp_all add: assms(3) ERGO_TREE_P2PK_LEN_def)
  moreover have "take (unat ERGO_TREE_P2PK_LEN) (C_ERGO_TREE_P2PK_PREFIX @ compressed_key raw) =
      C_ERGO_TREE_P2PK_PREFIX @ compressed_key raw"
    using length_compressed_key [OF assms(3)] by (simp add: ERGO_TREE_P2PK_LEN_def C_ERGO_TREE_P2PK_PREFIX_def)
  ultimately show ?thesis
    using assms(1,2) by (auto simp: ergo_tx_serializer_box_add_change_tree_def mem_update_True Let_def
        split: prod.splits if_splits)
qed

lemma box_add_registers_trace [box_trace]:
  assumes "ergo_tx_serializer_box_add_registers cx c m b = (r, c', m', b')" and "box_res_ok r" and "buffer_wf b"
  defines "d \<equiv> buffer_data b"
  defines "c1 \<equiv> c\<lparr>box_registers_size := box_registers_size c - of_nat (length d)\<rparr>"
  shows "box_state c = ERGO_TX_SERIALIZER_BOX_STATE_TOKENS_ADDED \<and>
     unat (box_registers_size c) = unat (box_registers_size c1) + length d \<and>
     (\<exists>h. hash_trace cx (hash_ctx m) [d] h \<and>
        (if box_registers_size c1 = 0 then box_finished c1 (m\<lparr>hash_ctx := h\<rparr>) = (r, c', m')
         else r = ERGO_TX_SERIALIZER_BOX_RES_MORE_DATA \<and> c' = c1 \<and> m' = m\<lparr>hash_ctx := h\<rparr>))"
proof -
  have len: "unat (buffer_data_len b) = length d" by (simp add: d_def unat_buffer_data_len [OF assms(3)])
  then have w: "of_nat (length d) = buffer_data_len b" by (metis of_nat_unat ucast_id)
  have st: "box_state c = ERGO_TX_SERIALIZER_BOX_STATE_TOKENS_ADDED" "\<not> box_registers_size c < buffer_data_len b"
    using assms(1,2) by (auto simp: ergo_tx_serializer_box_add_registers_def Let_def split: if_splits)
  obtain b2 where sk: "buffer_seek_cur b (buffer_data_len b) = (True, b2)"
    using assms(3) by (simp add: buffer_seek_cur_ok unat_buffer_data_len)
  have rd: "take (unat (buffer_data_len b)) (buffer_read_ptr b) = d" by (simp add: d_def buffer_data_def)
  obtain m1 where m1: "mem_update cx m (buffer_read_ptr b) (buffer_data_len b) = (True, m1)"
    using assms(1,2) st by (auto simp: ergo_tx_serializer_box_add_registers_def Let_def split: if_splits prod.splits)
  have sub: "unat (box_registers_size c1) = unat (box_registers_size c) - length d"
    using st(2) len by (simp add: c1_def w word_sub_le_unat)
  obtain h where h: "hash_absorb cx (hash_ctx m) d h" "m1 = m\<lparr>hash_ctx := h\<rparr>"
    using m1 rd by (auto simp: mem_update_True)
  have "if box_registers_size c1 = 0 then box_finished c1 m1 = (r, c', m')
        else r = ERGO_TX_SERIALIZER_BOX_RES_MORE_DATA \<and> c' = c1 \<and> m' = m1"
    using assms(1) st by (simp add: ergo_tx_serializer_box_add_registers_def Let_def m1 sk c1_def w split: if_splits)
  then show ?thesis
    using st sub len  h by (intro conjI exI [of _ h]) (auto simp: word_less_nat_alt)
qed

subsection \<open>The tokens of a box\<close>

text \<open>
  Width of a token on the wire, and the byte strings that are hashed for it: without a table the
  full id, with a table the variable-length index, then the variable-length amount.
\<close>

definition token_width :: "'t option \<Rightarrow> nat" where
  "token_width table = (case table of None \<Rightarrow> 40 | Some _ \<Rightarrow> 12)"

definition token_parts :: "'t option \<Rightarrow> bytes \<Rightarrow> bytes list" where
  "token_parts table e =
     (case table of
        None \<Rightarrow> [take 32 e, vlq (unat (word_of_be (take 8 (drop 32 e)) 0 :: u64))]
      | Some _ \<Rightarrow> [vlq (unat (word_of_be (take 4 e) 0 :: u32)), vlq (unat (word_of_be (take 8 (drop 4 e)) 0 :: u64))])"

lemma box_token_id_trace:
  assumes "box_token_id cx c m buffer input table = Inr (tid, m1, buffer1, input1)"
    and "buffer_wf input" and "rw_wf buffer" and "rw_size buffer = 10"
  shows "\<exists>k. k = (if table = None then 32 else 4) \<and> k \<le> length (buffer_data input) \<and>
     buffer_wf input1 \<and> buffer_data input1 = drop k (buffer_data input) \<and>
     rw_wf buffer1 \<and> rw_size buffer1 = 10 \<and> tokens_table m1 = tokens_table m \<and>
     hash_trace cx (hash_ctx m) [hd (token_parts table (buffer_data input))] (hash_ctx m1)"
proof (cases table)
  case None
  then show ?thesis
    using assms by (auto simp: box_token_id_def buf_simps wf_intros mem_update_True token_parts_def
        split: prod.splits if_splits)
next
  case (Some tc)
  let ?i = "word_of_be (take 4 (buffer_data input)) 0 :: u32"
  obtain b where b: "gve_put_u32 (rw_buffer_empty buffer) ?i = (GVE_OK, b)" "rw_wf b" "rw_size b = 10"
    "take (unat (rw_buffer_data_len b)) (rw_buffer_read_ptr b) = vlq (unat ?i)"
    using rw_empty_put_u32 [OF assms(3), of ?i] assms(4) by auto
  then show ?thesis
    using Some assms by (auto simp: box_token_id_def buffer_read_u32_be_eq buffer_wf_skip buffer_data_skip
        mem_update_True token_parts_def split: prod.splits if_splits)
qed

lemma box_token_step_trace:
  assumes "box_token_step cx c m buffer input table = Inr (c', m', buffer', input')"
    and "buffer_wf input" and "rw_wf buffer" and "rw_size buffer = 10" and "box_cbs_frame c"
  defines "d \<equiv> buffer_data input"
  shows "token_width table \<le> length d" and "buffer_wf input'" and "buffer_data input' = drop (token_width table) d"
    and "rw_wf buffer'" and "rw_size buffer' = 10"
    and "box_tokens_count c \<noteq> 0" and "c' = c\<lparr>box_tokens_count := box_tokens_count c - 1\<rparr>"
    and "hash_trace cx (hash_ctx m) (token_parts table (take (token_width table) d)) (hash_ctx m')"
proof -
  define k where "k = (if table = None then 32 else 4 :: nat)"
  obtain tid m1 buffer1 input1 where i: "box_token_id cx c m buffer input table = Inr (tid, m1, buffer1, input1)"
    using assms(1) by (auto simp: box_token_step_def split: if_splits sum.splits)
  have 1: "k \<le> length d" "buffer_wf input1" "buffer_data input1 = drop k d" "rw_wf buffer1" "rw_size buffer1 = 10"
    "hash_trace cx (hash_ctx m) [hd (token_parts table d)] (hash_ctx m1)"
    using box_token_id_trace [OF i assms(2-4)] by (simp_all add: k_def d_def)
  let ?v = "word_of_be (take 8 (drop k d)) 0 :: u64"
  have 8: "8 \<le> length (drop k d)"
    using assms(1) i 1 by (auto simp: box_token_step_def buffer_read_u64_be_eq split: if_splits)
  then have rd: "buffer_read_u64 input1 BE = (Some ?v, buffer_skip input1 8)"
    using 1 by (simp add: buffer_read_u64_be_eq)
  obtain b2 where b2: "gve_put_u64 (rw_buffer_empty buffer1) ?v = (GVE_OK, b2)" "rw_wf b2" "rw_size b2 = 10"
    "take (unat (rw_buffer_data_len b2)) (rw_buffer_read_ptr b2) = vlq (unat ?v)"
    using rw_empty_put_u64 [OF 1(4), of ?v] 1(5) by auto
  obtain m2 where m2: "mem_update cx m1 (rw_buffer_read_ptr b2) (rw_buffer_data_len b2) = (True, m2)"
    using assms(1) i rd b2 by (auto simp: box_token_step_def split: if_splits prod.splits)
  then have h2: "hash_absorb cx (hash_ctx m1) (vlq (unat ?v)) (hash_ctx m2)"
    using b2(4) by (auto simp: mem_update_True)
  obtain res m3 where cb: "(case on_token (box_callbacks c) of None \<Rightarrow> (ERGO_TX_SERIALIZER_BOX_RES_OK, m2)
      | Some cb \<Rightarrow> cb (box_type c) tid ?v m2) = (res, m3)" by (metis surj_pair)
  then have h3: "hash_ctx m3 = hash_ctx m2"
    using assms(5) by (auto simp: box_cbs_frame_def split: option.splits) (metis snd_conv)
  have out: "box_tokens_count c \<noteq> 0" "c' = c\<lparr>box_tokens_count := box_tokens_count c - 1\<rparr>" "m' = m3" "buffer' = b2"
    "input' = buffer_skip input1 8"
    using assms(1) i rd b2 m2 cb by (auto simp: box_token_step_def split: if_splits)
  have w: "token_width table = 8 + k" by (cases table) (simp_all add: token_width_def k_def)
  show "token_width table \<le> length d" using 8 1(1) w by simp
  have l8: "unat (8 :: size_t) \<le> length (buffer_data input1)" using 1(3) 8 by simp
  show "buffer_wf input'" "buffer_data input' = drop (token_width table) d"
    using buffer_wf_skip [OF 1(2) l8] buffer_data_skip [OF 1(2) l8] out(5) 1(3) w by simp_all
  show "rw_wf buffer'" "rw_size buffer' = 10" using out b2 by simp_all
  show "box_tokens_count c \<noteq> 0" "c' = c\<lparr>box_tokens_count := box_tokens_count c - 1\<rparr>" using out by simp_all
  have "token_parts table (take (token_width table) d) = [hd (token_parts table d), vlq (unat ?v)]"
    unfolding w by (cases table) (simp_all add: token_parts_def k_def drop_take)
  then show "hash_trace cx (hash_ctx m) (token_parts table (take (token_width table) d)) (hash_ctx m')"
    using 1(6) h2 h3 out(3) by auto
qed

lemma token_width_pos [simp]: "0 < token_width table"
  by (simp add: token_width_def split: option.splits)

lemma box_tokens_loop_trace:
  assumes "box_tokens_loop cx c m buffer input table = Inr (c', m', input')"
    and "buffer_wf input" and "rw_wf buffer" and "rw_size buffer = 10" and "box_cbs_frame c"
  shows "length (buffer_data input) mod token_width table = 0 \<and>
     length (buffer_data input) div token_width table \<le> unat (box_tokens_count c) \<and>
     c' = c\<lparr>box_tokens_count := box_tokens_count c - of_nat (length (buffer_data input) div token_width table)\<rparr> \<and>
     hash_trace cx (hash_ctx m)
       (concat (map (token_parts table) (chunks (token_width table) (buffer_data input)))) (hash_ctx m')"
  using assms
proof (induction cx c m buffer input table rule: box_tokens_loop.induct)
  case (1 cx c m buffer input table)
  let ?w = "token_width table" and ?d = "buffer_data input"
  note run = "1.prems"(1) [unfolded box_tokens_loop.simps [of cx c m buffer input table]]
  show ?case
  proof (cases "?d = []")
    case True
    then have "buffer_data_len input = 0" using "1.prems"(2) by (simp add: buffer_data_empty_iff)
    with run True show ?thesis by (simp add: chunks.simps)
  next
    case False
    then have pos: "0 < buffer_data_len input"
      using "1.prems"(2) by (simp add: buffer_data_empty_iff word_neq_0_conv)
    then obtain c1 m1 buffer1 input1 where st: "box_token_step cx c m buffer input table = Inr (c1, m1, buffer1, input1)"
      and r: "box_tokens_loop cx c1 m1 buffer1 input1 table = Inr (c', m', input')"
      using run by (auto split: sum.splits)
    note t = box_token_step_trace [OF st "1.prems"(2-5)]
    have fr: "box_cbs_frame c1" using t(7) "1.prems"(5) by (simp add: box_cbs_frame_def)
    note IH = "1.IH" [OF pos st refl refl refl r t(2,4,5) fr]
    have dv: "length ?d div ?w = Suc ((length ?d - ?w) div ?w)" "length ?d mod ?w = (length ?d - ?w) mod ?w"
      using t(1) by (simp_all add: le_div_geq le_mod_geq)
    have ch: "chunks ?w ?d = take ?w ?d # chunks ?w (drop ?w ?d)"
      using t(1) by (subst chunks.simps) simp
    have "unat (box_tokens_count c - 1) = unat (box_tokens_count c) - 1" "0 < unat (box_tokens_count c)"
      using t(6) by (simp_all add: unat_minus_one unat_gt_0 word_greater_zero_iff)
    with IH t show ?thesis
      by (auto simp: ch dv emits_append diff_diff_eq add.commute intro: exI [of _ "hash_ctx m1"])
  qed
qed

lemma box_token_id_Inl: "box_token_id cx c m buffer b table = Inl ((r, x), y) \<Longrightarrow> \<not> box_res_ok r"
  by (cases table) (auto simp: box_token_id_def box_res_error_def split: if_splits option.splits prod.splits)

lemma box_token_step_Inl: "box_token_step cx c m buffer b table = Inl ((r, x), y) \<Longrightarrow> \<not> box_res_ok r"
  by (auto simp: box_token_step_def box_res_error_def dest: box_token_id_Inl
      split: if_splits sum.splits option.splits prod.splits)

lemma box_tokens_loop_Inl: "box_tokens_loop cx c m buffer b table = Inl ((r, x), y) \<Longrightarrow> \<not> box_res_ok r"
proof (induction cx c m buffer b table rule: box_tokens_loop.induct)
  case (1 cx c m buffer b table)
  from "1.prems" show ?case
    unfolding box_tokens_loop.simps [of cx c m buffer b table]
    by (auto dest: box_token_step_Inl "1.IH" split: if_splits sum.splits)
qed

lemma box_add_tokens_trace [box_trace]:
  assumes "ergo_tx_serializer_box_add_tokens cx c m b table = (r, c', m', b')" and "box_res_ok r"
    and "buffer_wf b" and "box_cbs_frame c"
  defines "d \<equiv> buffer_data b" and "w \<equiv> token_width table"
  defines "c1 \<equiv> c\<lparr>box_tokens_count := box_tokens_count c - of_nat (length d div w)\<rparr>"
  shows "box_state c = ERGO_TX_SERIALIZER_BOX_STATE_TREE_ADDED \<and> length d mod w = 0 \<and>
     length d div w \<le> unat (box_tokens_count c) \<and>
     hash_trace cx (hash_ctx m) (concat (map (token_parts table) (chunks w d)) @
        (if box_tokens_count c1 = 0 \<and> box_registers_size c = 0 then [[0]] else [])) (hash_ctx m') \<and>
     c' = (if box_tokens_count c1 = 0 then c1\<lparr>box_state := box_state_after_tree 0 (box_registers_size c)\<rparr> else c1)"
proof -
  have st: "box_state c = ERGO_TX_SERIALIZER_BOX_STATE_TREE_ADDED"
    using assms(1,2) by (auto simp: ergo_tx_serializer_box_add_tokens_def Let_def split: if_splits)
  then obtain c2 m2 b2 where lp: "box_tokens_loop cx c m (rw_buffer_new_local_empty 10) b table = Inr (c2, m2, b2)"
    using assms(1,2) box_tokens_loop_Inl [of cx c m "rw_buffer_new_local_empty 10" b table]
    by (cases "box_tokens_loop cx c m (rw_buffer_new_local_empty 10) b table")
      (auto simp: ergo_tx_serializer_box_add_tokens_def Let_def)
  have t: "length d mod w = 0" "length d div w \<le> unat (box_tokens_count c)" "c2 = c1"
    "hash_trace cx (hash_ctx m) (concat (map (token_parts table) (chunks w d))) (hash_ctx m2)"
    using box_tokens_loop_trace [OF lp assms(3) _ _ assms(4)] by (simp_all add: wf_intros buf_simps c1_def d_def w_def)
  have fr: "box_cbs_frame c1" and rs: "box_registers_size c1 = box_registers_size c"
    using assms(4) by (simp_all add: c1_def box_cbs_frame_def)
  show ?thesis
  proof (cases "box_tokens_count c1 = 0 \<and> box_registers_size c = 0")
    case True
    obtain res c3 m3 where e: "add_empty_registers_count cx c1 m2 = (res, c3, m3)" by (metis prod_cases3)
    have ok: "box_res_ok res" and f: "box_finished c3 m3 = (r, c', m')"
      using assms(1,2) st lp t(3) True rs e
      by (auto simp: ergo_tx_serializer_box_add_tokens_def Let_def split: if_splits)
    note t3 = add_empty_registers_trace [OF e ok]
    with box_finished_trace [OF f assms(2)] fr have "c' = c1\<lparr>box_state := ERGO_TX_SERIALIZER_BOX_STATE_FINISHED\<rparr>"
      "hash_ctx m' = hash_ctx m3" by simp_all
    with t t3 st True show ?thesis by (auto simp: emits_append box_state_after_tree_def)
  next
    case False
    then show ?thesis
      using assms(1) st lp t rs
      by (auto simp: ergo_tx_serializer_box_add_tokens_def Let_def box_state_after_tree_def split: if_splits)
  qed
qed

subsection \<open>Any sequence of operations\<close>

text \<open>The operations a caller may perform on an initialised box, in any order.\<close>

datatype box_op =
    BoxTree buffer_t
  | BoxFeeTree bool
  | BoxChangeTree bytes
  | BoxTokens buffer_t "ergo_tx_serializer_table_context_t option"
  | BoxRegisters buffer_t

fun box_op_wf :: "box_op \<Rightarrow> bool" where
  "box_op_wf (BoxTree b) = buffer_wf b"
| "box_op_wf (BoxFeeTree _) = True"
| "box_op_wf (BoxChangeTree raw) = (length raw = 65)"
| "box_op_wf (BoxTokens b _) = buffer_wf b"
| "box_op_wf (BoxRegisters b) = buffer_wf b"

fun box_exec ::
    "('h, 'x) cx_sdk_scheme \<Rightarrow> box_op \<Rightarrow> ('h, 'z) ser_mem_scheme box_ctx \<Rightarrow> ('h, 'z) ser_mem_scheme \<Rightarrow>
     ('h, 'z) ser_mem_scheme box_out" where
  "box_exec cx (BoxTree b) c m =
     (case ergo_tx_serializer_box_add_tree cx c m b of (r, c', m', _) \<Rightarrow> (r, c', m'))"
| "box_exec cx (BoxFeeTree mainnet) c m = ergo_tx_serializer_box_add_miners_fee_tree cx c m mainnet"
| "box_exec cx (BoxChangeTree raw) c m = ergo_tx_serializer_box_add_change_tree cx c m raw"
| "box_exec cx (BoxTokens b table) c m =
     (case ergo_tx_serializer_box_add_tokens cx c m b table of (r, c', m', _) \<Rightarrow> (r, c', m'))"
| "box_exec cx (BoxRegisters b) c m =
     (case ergo_tx_serializer_box_add_registers cx c m b of (r, c', m', _) \<Rightarrow> (r, c', m'))"

text \<open>A run in which every operation answered OK or MORE_DATA.\<close>

primrec box_run ::
    "('h, 'x) cx_sdk_scheme \<Rightarrow> box_op list \<Rightarrow> ('h, 'z) ser_mem_scheme box_ctx \<Rightarrow> ('h, 'z) ser_mem_scheme \<Rightarrow>
     (('h, 'z) ser_mem_scheme box_ctx \<times> ('h, 'z) ser_mem_scheme) option" where
  "box_run cx [] c m = Some (c, m)"
| "box_run cx (p # ps) c m =
     (case box_exec cx p c m of (r, c', m') \<Rightarrow> if box_res_ok r then box_run cx ps c' m' else None)"

text \<open>The bytes that an operation contributes to the tree, the tokens and the registers.\<close>

fun op_tree :: "box_op \<Rightarrow> bytes" where
  "op_tree (BoxTree b) = buffer_data b"
| "op_tree (BoxFeeTree _) = C_ERGO_TREE_MINERS_HASH_FEE_MAINNET"
| "op_tree (BoxChangeTree raw) = C_ERGO_TREE_P2PK_PREFIX @ compressed_key raw"
| "op_tree _ = []"

fun op_tokens :: "box_op \<Rightarrow> bytes" where
  "op_tokens (BoxTokens b table) =
     concat (concat (map (token_parts table) (chunks (token_width table) (buffer_data b))))"
| "op_tokens _ = []"

fun op_token_count :: "box_op \<Rightarrow> nat" where
  "op_token_count (BoxTokens b table) = length (buffer_data b) div token_width table"
| "op_token_count _ = 0"

fun op_registers :: "box_op \<Rightarrow> bytes" where
  "op_registers (BoxRegisters b) = buffer_data b"
| "op_registers _ = []"

text \<open>The reference serialization of a box.\<close>

definition box_bytes :: "u64 \<Rightarrow> bytes \<Rightarrow> u32 \<Rightarrow> u8 \<Rightarrow> bytes \<Rightarrow> u32 \<Rightarrow> bytes \<Rightarrow> bytes" where
  "box_bytes v tree height count tokens regs_size regs =
     vlq (unat v) @ tree @ vlq (unat height) @ [count] @ tokens @ (if regs_size = 0 then [0] else regs)"

record box_acc =
  acc_tree :: bytes
  acc_tokens :: bytes
  acc_count :: nat
  acc_registers :: bytes

definition acc_op :: "box_acc \<Rightarrow> box_op \<Rightarrow> box_acc" where
  "acc_op a p = \<lparr>acc_tree = acc_tree a @ op_tree p, acc_tokens = acc_tokens a @ op_tokens p,
     acc_count = acc_count a + op_token_count p, acc_registers = acc_registers a @ op_registers p\<rparr>"

text \<open>What has been absorbed in each state, and how the counters relate to what was received.\<close>

definition box_inv ::
    "bytes \<Rightarrow> u64 \<Rightarrow> u32 \<Rightarrow> u8 \<Rightarrow> u32 \<Rightarrow> box_acc \<Rightarrow> bytes \<Rightarrow> 'm box_ctx \<Rightarrow> bool" where
  "box_inv base v height count regs a h c \<longleftrightarrow> box_value c = v \<and> box_creation_height c = height \<and>
     (case box_state c of
        ERGO_TX_SERIALIZER_BOX_STATE_INITIALIZED \<Rightarrow>
          box_tokens_count c = count \<and> box_registers_size c = regs \<and>
          acc_tokens a = [] \<and> acc_count a = 0 \<and> acc_registers a = [] \<and> h = base @ vlq (unat v) @ acc_tree a
      | ERGO_TX_SERIALIZER_BOX_STATE_TREE_ADDED \<Rightarrow>
          count \<noteq> 0 \<and> box_registers_size c = regs \<and> acc_registers a = [] \<and> box_tokens_count c \<noteq> 0 \<and>
          acc_count a + unat (box_tokens_count c) = unat count \<and>
          h = base @ vlq (unat v) @ acc_tree a @ vlq (unat height) @ [count] @ acc_tokens a
      | ERGO_TX_SERIALIZER_BOX_STATE_TOKENS_ADDED \<Rightarrow>
          regs \<noteq> 0 \<and> acc_count a = unat count \<and> box_registers_size c \<noteq> 0 \<and>
          length (acc_registers a) + unat (box_registers_size c) = unat regs \<and>
          h = base @ vlq (unat v) @ acc_tree a @ vlq (unat height) @ [count] @ acc_tokens a @ acc_registers a
      | ERGO_TX_SERIALIZER_BOX_STATE_FINISHED \<Rightarrow>
          acc_count a = unat count \<and> length (acc_registers a) = unat regs \<and>
          h = base @ box_bytes v (acc_tree a) height count (acc_tokens a) regs (acc_registers a)
      | _ \<Rightarrow> False)"

lemma box_inv_tree_added:
  assumes "cx_absorbs cx ab" and "box_inv base v height count regs a (ab (hash_ctx m)) c"
    and "box_state c = ERGO_TX_SERIALIZER_BOX_STATE_INITIALIZED"
    and "hash_trace cx (hash_ctx m) [op_tree p] h1" and "op_tokens p = []" "op_token_count p = 0" "op_registers p = []"
    and "ergo_tree_added cx c1 m1 = (r, c', m')" and "box_res_ok r" and "box_cbs_frame c1"
    and "hash_ctx m1 = h1" and "box_value c1 = box_value c" "box_creation_height c1 = box_creation_height c"
      "box_tokens_count c1 = box_tokens_count c" "box_registers_size c1 = box_registers_size c"
  shows "box_inv base v height count regs (acc_op a p) (ab (hash_ctx m')) c'"
proof -
  note t = ergo_tree_added_trace [OF assms(8-10)]
  have h1: "ab h1 = ab (hash_ctx m) @ op_tree p" using hash_trace_absorbs [OF assms(1,4)] by simp
  have "ab (hash_ctx m') = ab h1 @ vlq (unat (box_creation_height c)) @ [box_tokens_count c] @
      (if box_tokens_count c = 0 \<and> box_registers_size c = 0 then [0] else [])"
    using hash_trace_absorbs [OF assms(1) conjunct2 [OF conjunct2 [OF t]]] assms(11-15) by (simp split: if_splits)
  then show ?thesis
    using t h1 assms(2,3,5-7,12-15)
    by (auto simp: box_inv_def acc_op_def box_state_after_tree_def box_bytes_def)
qed

lemma box_exec_inv_tree:
  assumes "cx_absorbs cx ab" and "box_inv base v height count regs a (ab (hash_ctx m)) c"
    and "ergo_tx_serializer_box_add_tree cx c m b = (r, c', m', b')" and "box_res_ok r"
    and "buffer_wf b" and "box_cbs_frame c"
  shows "box_inv base v height count regs (acc_op a (BoxTree b)) (ab (hash_ctx m')) c' \<and> box_callbacks c' = box_callbacks c"
proof -
  let ?c1 = "c\<lparr>box_ergo_tree_size := box_ergo_tree_size c - of_nat (length (buffer_data b))\<rparr>"
  from box_add_tree_trace [OF assms(3-5)] obtain h where
    st: "box_state c = ERGO_TX_SERIALIZER_BOX_STATE_INITIALIZED" and tr: "hash_trace cx (hash_ctx m) [buffer_data b] h"
    and fin: "if box_ergo_tree_size ?c1 = 0
         then ergo_tree_added cx (?c1\<lparr>box_type := ERGO_TX_SERIALIZER_BOX_TYPE_TREE\<rparr>) (m\<lparr>hash_ctx := h\<rparr>) = (r, c', m')
         else c' = ?c1 \<and> m' = m\<lparr>hash_ctx := h\<rparr>" by (auto split: if_splits)
  show ?thesis
  proof (cases "box_ergo_tree_size ?c1 = 0")
    case True
    with fin have f: "ergo_tree_added cx (?c1\<lparr>box_type := ERGO_TX_SERIALIZER_BOX_TYPE_TREE\<rparr>) (m\<lparr>hash_ctx := h\<rparr>) = (r, c', m')"
      by simp
    have fr: "box_cbs_frame (?c1\<lparr>box_type := ERGO_TX_SERIALIZER_BOX_TYPE_TREE\<rparr>)"
      using assms(6) by (simp add: box_cbs_frame_def)
    show ?thesis
      using box_inv_tree_added [OF assms(1,2) st, of "BoxTree b" h, OF _ _ _ _ f assms(4) fr] tr
        ergo_tree_added_trace [OF f assms(4) fr] by simp
  next
    case False
    then show ?thesis
      using fin st hash_trace_absorbs [OF assms(1) tr] assms(2) by (simp add: box_inv_def acc_op_def)
  qed
qed

lemma box_exec_inv_fixed_tree:
  assumes "cx_absorbs cx ab" and "box_inv base v height count regs a (ab (hash_ctx m)) c"
    and "p = BoxFeeTree mainnet \<or> p = BoxChangeTree raw \<and> length raw = 65"
    and "box_exec cx p c m = (r, c', m')" and "box_res_ok r" and "box_cbs_frame c"
  shows "box_inv base v height count regs (acc_op a p) (ab (hash_ctx m')) c' \<and> box_callbacks c' = box_callbacks c"
proof -
  have "\<exists>ty h. box_state c = ERGO_TX_SERIALIZER_BOX_STATE_INITIALIZED \<and> hash_trace cx (hash_ctx m) [op_tree p] h \<and>
     ergo_tree_added cx (c\<lparr>box_type := ty\<rparr>) (m\<lparr>hash_ctx := h\<rparr>) = (r, c', m')"
    using assms(3,4) box_add_fee_tree_trace [of cx c m mainnet r c' m', OF _ assms(5)]
      box_add_change_tree_trace [of cx c m raw r c' m', OF _ assms(5)] by auto blast+
  then obtain ty h where st: "box_state c = ERGO_TX_SERIALIZER_BOX_STATE_INITIALIZED"
    and tr: "hash_trace cx (hash_ctx m) [op_tree p] h"
    and f: "ergo_tree_added cx (c\<lparr>box_type := ty\<rparr>) (m\<lparr>hash_ctx := h\<rparr>) = (r, c', m')" by blast
  have fr: "box_cbs_frame (c\<lparr>box_type := ty\<rparr>)" using assms(6) by (simp add: box_cbs_frame_def)
  show ?thesis
    using box_inv_tree_added [OF assms(1,2) st tr _ _ _ f assms(5) fr] assms(3)
      ergo_tree_added_trace [OF f assms(5) fr] by auto
qed

lemma box_exec_inv_tokens:
  assumes "cx_absorbs cx ab" and "box_inv base v height count regs a (ab (hash_ctx m)) c"
    and "ergo_tx_serializer_box_add_tokens cx c m b table = (r, c', m', b')" and "box_res_ok r"
    and "buffer_wf b" and "box_cbs_frame c"
  shows "box_inv base v height count regs (acc_op a (BoxTokens b table)) (ab (hash_ctx m')) c' \<and>
     box_callbacks c' = box_callbacks c"
proof -
  let ?n = "length (buffer_data b) div token_width table" and ?k = "box_tokens_count c"
  note t = box_add_tokens_trace [OF assms(3-6)]
  have "?n < 2 ^ LENGTH(8)" using t unat_u8_less [of ?k] by simp
  then have "unat (of_nat ?n :: u8) = ?n" by (rule unat_of_nat_small)
  then have u: "unat (?k - of_nat ?n) = unat ?k - ?n" using t by (simp add: word_sub_le_unat word_le_nat_alt)
  have z: "?k - of_nat ?n = 0 \<longleftrightarrow> unat ?k = ?n" using u t unat_eq_zero [of "?k - of_nat ?n"] by auto
  have h: "ab (hash_ctx m') = ab (hash_ctx m) @ op_tokens (BoxTokens b table) @
      (if ?k - of_nat ?n = 0 \<and> box_registers_size c = 0 then [0] else [])"
    using hash_trace_absorbs [OF assms(1) conjunct1 [OF conjunct2 [OF conjunct2 [OF conjunct2 [OF t]]]]]
    by (simp split: if_splits)
  show ?thesis
    using t h z u assms(2)
    by (auto simp: box_inv_def acc_op_def box_state_after_tree_def box_bytes_def split: if_splits)
qed

lemma box_exec_inv_registers:
  assumes "cx_absorbs cx ab" and "box_inv base v height count regs a (ab (hash_ctx m)) c"
    and "ergo_tx_serializer_box_add_registers cx c m b = (r, c', m', b')" and "box_res_ok r"
    and "buffer_wf b" and "box_cbs_frame c"
  shows "box_inv base v height count regs (acc_op a (BoxRegisters b)) (ab (hash_ctx m')) c' \<and>
     box_callbacks c' = box_callbacks c"
proof -
  let ?c1 = "c\<lparr>box_registers_size := box_registers_size c - of_nat (length (buffer_data b))\<rparr>"
  from box_add_registers_trace [OF assms(3-5)] obtain h where
    st: "box_state c = ERGO_TX_SERIALIZER_BOX_STATE_TOKENS_ADDED"
    and sz: "unat (box_registers_size c) = unat (box_registers_size ?c1) + length (buffer_data b)"
    and tr: "hash_trace cx (hash_ctx m) [buffer_data b] h"
    and fin: "if box_registers_size ?c1 = 0 then box_finished ?c1 (m\<lparr>hash_ctx := h\<rparr>) = (r, c', m')
         else c' = ?c1 \<and> m' = m\<lparr>hash_ctx := h\<rparr>" by (auto split: if_splits)
  have h: "ab h = ab (hash_ctx m) @ buffer_data b" using hash_trace_absorbs [OF assms(1) tr] by simp
  have fr: "box_cbs_frame ?c1" using assms(6) by (simp add: box_cbs_frame_def)
  show ?thesis
  proof (cases "box_registers_size ?c1 = 0")
    case True
    then have "box_finished ?c1 (m\<lparr>hash_ctx := h\<rparr>) = (r, c', m')" using fin by simp
    from box_finished_trace [OF this assms(4) fr] True show ?thesis
      using st sz h assms(2) by (auto simp: box_inv_def acc_op_def box_bytes_def)
  next
    case False
    then show ?thesis
      using fin st sz h assms(2) by (auto simp: box_inv_def acc_op_def)
  qed
qed

lemma box_exec_inv:
  assumes "cx_absorbs cx ab" and "box_inv base v height count regs a (ab (hash_ctx m)) c"
    and "box_exec cx p c m = (r, c', m')" and "box_res_ok r" and "box_op_wf p" and "box_cbs_frame c"
  shows "box_inv base v height count regs (acc_op a p) (ab (hash_ctx m')) c' \<and> box_callbacks c' = box_callbacks c"
proof (cases p)
  case (BoxTree b)
  then show ?thesis using box_exec_inv_tree [OF assms(1,2) _ assms(4) _ assms(6)] assms(3,5) by (auto split: prod.splits)
next
  case (BoxFeeTree mainnet)
  then show ?thesis using box_exec_inv_fixed_tree [OF assms(1,2) _ assms(3,4,6), of mainnet "[]"] by simp
next
  case (BoxChangeTree raw)
  then show ?thesis using box_exec_inv_fixed_tree [OF assms(1,2) _ assms(3,4,6), of True raw] assms(5) by simp
next
  case (BoxTokens b table)
  then show ?thesis using box_exec_inv_tokens [OF assms(1,2) _ assms(4) _ assms(6)] assms(3,5) by (auto split: prod.splits)
next
  case (BoxRegisters b)
  then show ?thesis using box_exec_inv_registers [OF assms(1,2) _ assms(4) _ assms(6)] assms(3,5) by (auto split: prod.splits)
qed

lemma box_run_inv:
  assumes "cx_absorbs cx ab" and "box_inv base v height count regs a (ab (hash_ctx m)) c"
    and "box_run cx ps c m = Some (c', m')" and "\<forall>p \<in> set ps. box_op_wf p" and "box_cbs_frame c"
  shows "box_inv base v height count regs (foldl acc_op a ps) (ab (hash_ctx m')) c'"
  using assms(2-5)
proof (induction ps arbitrary: a c m)
  case Nil
  then show ?case by simp
next
  case (Cons p ps)
  obtain r c1 m1 where e: "box_exec cx p c m = (r, c1, m1)" by (metis prod_cases3)
  with Cons.prems have ok: "box_res_ok r" "box_run cx ps c1 m1 = Some (c', m')" by (auto split: if_splits)
  have s: "box_inv base v height count regs (acc_op a p) (ab (hash_ctx m1)) c1" "box_callbacks c1 = box_callbacks c"
    using box_exec_inv [OF assms(1) Cons.prems(1) e ok(1)] Cons.prems(3,4) by simp_all
  then have "box_cbs_frame c1" using Cons.prems(4) by (simp add: box_cbs_frame_def)
  with Cons.IH [OF s(1) ok(2)] Cons.prems(3) show ?case by simp
qed

lemma foldl_acc_op:
  "foldl acc_op a ps = \<lparr>acc_tree = acc_tree a @ concat (map op_tree ps),
     acc_tokens = acc_tokens a @ concat (map op_tokens ps),
     acc_count = acc_count a + sum_list (map op_token_count ps),
     acc_registers = acc_registers a @ concat (map op_registers ps)\<rparr>"
  by (induction ps arbitrary: a) (simp_all add: acc_op_def)

lemma box_hashed:
  assumes "cx_absorbs cx ab"
    and "ergo_tx_serializer_box_init cx v tree_size height count regs m0 = (ERGO_TX_SERIALIZER_BOX_RES_OK, c0, m1)"
    and "c1 = ergo_tx_serializer_box_set_callbacks c0 f g k" and "box_cbs_frame c1"
    and "\<forall>p \<in> set ps. box_op_wf p"
    and "box_run cx ps c1 m1 = Some (c, m)" and "ergo_tx_serializer_box_is_finished c"
  shows "ab (hash_ctx m) = ab (hash_ctx m0) @
      box_bytes v (concat (map op_tree ps)) height count (concat (map op_tokens ps)) regs (concat (map op_registers ps)) \<and>
     sum_list (map op_token_count ps) = unat count \<and> length (concat (map op_registers ps)) = unat regs"
proof -
  let ?a = "\<lparr>acc_tree = [], acc_tokens = [], acc_count = 0, acc_registers = []\<rparr>"
  note t = box_init_trace [OF assms(2)]
  have "ab (hash_ctx m1) = ab (hash_ctx m0) @ vlq (unat v)"
    using hash_trace_absorbs [OF assms(1), of "hash_ctx m0" "[vlq (unat v)]" "hash_ctx m1"] t by simp
  then have "box_inv (ab (hash_ctx m0)) v height count regs ?a (ab (hash_ctx m1)) c1"
    using t assms(3) by (simp add: box_inv_def ergo_tx_serializer_box_set_callbacks_def)
  from box_run_inv [OF assms(1) this assms(6,5,4)] assms(7) show ?thesis
    by (simp add: box_inv_def foldl_acc_op ergo_tx_serializer_box_is_finished_def)
qed

text \<open>
  C13. Transcript of a box. Take a box that was initialised with a value, a creation height, a
  token count and a register size, and any sequence of operations on it, in any chunks, that were
  all accepted and left it finished. Then the hash has absorbed exactly the reference
  serialization of the box: value, tree bytes in the order received, height, token count,
  tokens, registers (a single 0 when there are none). The number of tokens and of register bytes
  received is the announced one.
\<close>

theorem box_transcript:
  assumes "cx_absorbs cx ab"
    and "ergo_tx_serializer_box_init cx v tree_size height count regs m0 = (ERGO_TX_SERIALIZER_BOX_RES_OK, c0, m1)"
    and "c1 = ergo_tx_serializer_box_set_callbacks c0 f g k" and "box_cbs_frame c1"
    and "\<forall>p \<in> set ps. box_op_wf p"
    and "box_run cx ps c1 m1 = Some (c, m)" and "ergo_tx_serializer_box_is_finished c"
  shows "ab (hash_ctx m) = ab (hash_ctx m0) @
      box_bytes v (concat (map op_tree ps)) height count (concat (map op_tokens ps)) regs (concat (map op_registers ps)) \<and>
     sum_list (map op_token_count ps) = unat count \<and> length (concat (map op_registers ps)) = unat regs"
  by (rule box_hashed [OF assms])

text \<open>
  Witness: a box of value 300 at height 5 with a three-byte tree, one token with its full id and
  two bytes of registers, hashed by the recording library.
\<close>

definition demo_mem :: "bytes ser_mem" where
  "demo_mem = \<lparr>hash_ctx = [], tokens_table = demo_table\<rparr>"

definition demo_box_ops :: "box_op list" where
  "demo_box_ops = [BoxTree (buffer_init [1, 2, 3] 3), BoxTokens (buffer_init (demo_id 9 @ [0, 0, 0, 0, 0, 0, 0, 7]) 40) None,
     BoxRegisters (buffer_init [1] 1), BoxRegisters (buffer_init [4] 1)]"

definition demo_box :: "bytes ser_mem box_out" where
  "demo_box = ergo_tx_serializer_box_init cx_record 300 3 5 1 2 demo_mem"

theorem box_transcript_witness:
  "\<exists>c0 m1 c m. ergo_tx_serializer_box_init cx_record 300 3 5 1 2 demo_mem = (ERGO_TX_SERIALIZER_BOX_RES_OK, c0, m1) \<and>
     box_run cx_record demo_box_ops (ergo_tx_serializer_box_set_callbacks c0 None None None) m1 = Some (c, m) \<and>
     hash_ctx m = [0xAC, 2] @ [1, 2, 3] @ [5] @ [1] @ demo_id 9 @ [7] @ [1, 4]"
proof -
  let ?c0 = "fst (snd demo_box)" and ?m1 = "snd (snd demo_box)"
  let ?c1 = "ergo_tx_serializer_box_set_callbacks ?c0 None None None"
  let ?r = "box_run cx_record demo_box_ops ?c1 ?m1"
  have "fst demo_box = ERGO_TX_SERIALIZER_BOX_RES_OK" by code_simp
  then have i: "ergo_tx_serializer_box_init cx_record 300 3 5 1 2 demo_mem = (ERGO_TX_SERIALIZER_BOX_RES_OK, ?c0, ?m1)"
    by (metis demo_box_def prod.collapse)
  have "?r \<noteq> None" by code_simp
  then have r: "?r = Some (fst (the ?r), snd (the ?r))" by auto
  have fin: "ergo_tx_serializer_box_is_finished (fst (the ?r))" by code_simp
  have wf: "\<forall>p \<in> set demo_box_ops. box_op_wf p" by code_simp
  have fr: "box_cbs_frame ?c1" by (simp add: box_cbs_frame_def ergo_tx_serializer_box_set_callbacks_def)
  have "hash_ctx demo_mem @ box_bytes 300 (concat (map op_tree demo_box_ops)) 5 1 (concat (map op_tokens demo_box_ops)) 2
      (concat (map op_registers demo_box_ops)) = [0xAC, 2] @ [1, 2, 3] @ [5] @ [1] @ demo_id 9 @ [7] @ [1, 4]" by code_simp
  then have "hash_ctx (snd (the ?r)) = [0xAC, 2] @ [1, 2, 3] @ [5] @ [1] @ demo_id 9 @ [7] @ [1, 4]"
    using box_transcript [OF cx_record_absorbs i refl fr wf r fin] by simp
  with i r show ?thesis by blast
qed

end
