(* ===== verification/FailStop.thy ===== *)
theory FailStop
  imports Prelude
begin

text \<open>
  The contract of a fail-stop component: an operation that does not answer with a good result
  leaves the component in its error state, and in the error state no operation answers with a good
  result. The serializers of inputs and of whole transactions have it. Its consequence for a host
  that sends any sequence of commands is \<open>answers_prefix\<close>: the good answers come first, and
  after the first bad one there are only bad ones.
\<close>

primrec answers :: "('p \<Rightarrow> 's \<Rightarrow> 'r \<times> 's) \<Rightarrow> 'p list \<Rightarrow> 's \<Rightarrow> 'r list \<times> 's" where
  "answers exec [] s = ([], s)"
| "answers exec (p # ps) s =
     (case exec p s of (r, s') \<Rightarrow> case answers exec ps s' of (rs, s'') \<Rightarrow> (r # rs, s''))"

lemma length_answers: "length (fst (answers exec ps s)) = length ps"
  by (induction ps arbitrary: s) (auto split: prod.splits, metis fst_conv)

locale fail_stop =
  fixes exec :: "'p \<Rightarrow> 's \<Rightarrow> 'r \<times> 's"
    and good :: "'r \<Rightarrow> bool"
    and failed :: "'s \<Rightarrow> bool"
  assumes bad_fails: "\<not> good (fst (exec p s)) \<Longrightarrow> failed (snd (exec p s))"
    and failed_bad: "failed s \<Longrightarrow> \<not> good (fst (exec p s))"
begin

lemma failed_stays: "failed s \<Longrightarrow> failed (snd (exec p s))"
  using failed_bad bad_fails by blast

lemma failed_answers:
  "failed s \<Longrightarrow> (\<forall>r \<in> set (fst (answers exec ps s)). \<not> good r) \<and> failed (snd (answers exec ps s))"
proof (induction ps arbitrary: s)
  case Nil
  then show ?case by simp
next
  case (Cons p ps)
  obtain r s' where e: "exec p s = (r, s')" by (cases "exec p s")
  then have "\<not> good r" "failed s'" using failed_bad [OF Cons.prems, of p] failed_stays [OF Cons.prems, of p] by simp_all
  with Cons.IH [of s'] e show ?case by (auto split: prod.splits)
qed

lemma answers_prefix:
  "\<exists>gs bs. fst (answers exec ps s) = gs @ bs \<and> (\<forall>r \<in> set gs. good r) \<and> (\<forall>r \<in> set bs. \<not> good r) \<and>
     (bs \<noteq> [] \<longrightarrow> failed (snd (answers exec ps s)))"
proof (induction ps arbitrary: s)
  case Nil
  then show ?case by simp
next
  case (Cons p ps)
  obtain r s' where e: "exec p s = (r, s')" by (cases "exec p s")
  obtain rs s'' where a: "answers exec ps s' = (rs, s'')" by (cases "answers exec ps s'")
  show ?case
  proof (cases "good r")
    case True
    obtain gs bs where "rs = gs @ bs" "\<forall>r \<in> set gs. good r" "\<forall>r \<in> set bs. \<not> good r" "bs \<noteq> [] \<longrightarrow> failed s''"
      using Cons.IH [of s'] a by auto
    with True e a show ?thesis by (intro exI [of _ "r # gs"] exI [of _ bs]) simp
  next
    case False
    then have "failed s'" using bad_fails [of p s] e by simp
    from failed_answers [OF this, of ps] False e a show ?thesis
      by (intro exI [of _ "[]"] exI [of _ "r # rs"]) simp
  qed
qed

end

end
