(* ===== verification/TxSerInput.thy ===== *)
theory TxSerInput
  imports TxSerBox FailStop SafeInt
begin

text \<open>
  The serializer of one transaction input, \<^verbatim>\<open>src/ergo/tx_ser_input.h\<close> and
  \<^verbatim>\<open>tx_ser_input.c\<close>: token frames first (the tokens go to the callback, nothing is hashed),
  then the box id, an empty proof and the context extension.
\<close>

datatype ergo_tx_serializer_input_result_e =
    ERGO_TX_SERIALIZER_INPUT_RES_OK
  | ERGO_TX_SERIALIZER_INPUT_RES_MORE_DATA
  | ERGO_TX_SERIALIZER_INPUT_RES_ERR_BAD_CONTEXT_EXTENSION_SIZE
  | ERGO_TX_SERIALIZER_INPUT_RES_ERR_BAD_INPUT_ID
  | ERGO_TX_SERIALIZER_INPUT_RES_ERR_BAD_FRAME_INDEX
  | ERGO_TX_SERIALIZER_INPUT_RES_ERR_BAD_TOKEN_ID
  | ERGO_TX_SERIALIZER_INPUT_RES_ERR_BAD_TOKEN_VALUE
  | ERGO_TX_SERIALIZER_INPUT_RES_ERR_TOO_MANY_INPUT_FRAMES
  | ERGO_TX_SERIALIZER_INPUT_RES_ERR_TOO_MUCH_PROOF_DATA
  | ERGO_TX_SERIALIZER_INPUT_RES_ERR_HASHER
  | ERGO_TX_SERIALIZER_INPUT_RES_ERR_BUFFER
  | ERGO_TX_SERIALIZER_INPUT_RES_ERR_BAD_STATE
  | ERGO_TX_SERIALIZER_INPUT_RES_ERR_U64_OVERFLOW
  | ERGO_TX_SERIALIZER_INPUT_RES_ERR_TOO_MANY_TOKENS

datatype ergo_tx_serializer_input_state_e =
    ERGO_TX_SERIALIZER_INPUT_STATE_FRAMES_STARTED
  | ERGO_TX_SERIALIZER_INPUT_STATE_EXTENSION_STARTED
  | ERGO_TX_SERIALIZER_INPUT_STATE_FINISHED
  | ERGO_TX_SERIALIZER_INPUT_STATE_ERROR

type_synonym 'm input_token_cb =
  "bytes \<Rightarrow> bytes \<Rightarrow> u64 \<Rightarrow> 'm \<Rightarrow> ergo_tx_serializer_input_result_e \<times> 'm"

record 'm ergo_tx_serializer_input_context_t =
  input_state :: ergo_tx_serializer_input_state_e
  input_box_id :: bytes
  frames_count :: u8
  frames_processed :: u8
  context_extension_data_size :: u32
  on_token_cb :: "'m input_token_cb option"

type_synonym 'm input_ctx = "'m ergo_tx_serializer_input_context_t"
type_synonym 'm input_out = "ergo_tx_serializer_input_result_e \<times> 'm input_ctx \<times> 'm"

definition input_ctx_zero :: "'m input_ctx" where
  "input_ctx_zero = \<lparr>input_state = ERGO_TX_SERIALIZER_INPUT_STATE_FRAMES_STARTED,
     input_box_id = replicate (unat ERGO_ID_LEN) 0, frames_count = 0, frames_processed = 0,
     context_extension_data_size = 0, on_token_cb = None\<rparr>"

definition input_res_error :: "'m input_ctx \<Rightarrow> 'm \<Rightarrow> ergo_tx_serializer_input_result_e \<Rightarrow> 'm input_out" where
  "input_res_error c m err = (err, c\<lparr>input_state := ERGO_TX_SERIALIZER_INPUT_STATE_ERROR\<rparr>, m)"

definition ergo_tx_serializer_input_init ::
    "bytes \<Rightarrow> u8 \<Rightarrow> u32 \<Rightarrow> ergo_tx_serializer_input_result_e \<times> 'm input_ctx" where
  "ergo_tx_serializer_input_init box_id token_frames_count extension_size =
     (let c = input_ctx_zero in
      if extension_size = 1 \<or> extension_size > MAX_TX_DATA_PART_LEN
      then (ERGO_TX_SERIALIZER_INPUT_RES_ERR_BAD_CONTEXT_EXTENSION_SIZE,
            c\<lparr>input_state := ERGO_TX_SERIALIZER_INPUT_STATE_ERROR\<rparr>)
      else (ERGO_TX_SERIALIZER_INPUT_RES_OK,
            c\<lparr>input_box_id := take (unat ERGO_ID_LEN) box_id, frames_count := token_frames_count,
              frames_processed := 0, context_extension_data_size := extension_size,
              input_state := ERGO_TX_SERIALIZER_INPUT_STATE_FRAMES_STARTED\<rparr>))"

lemma token_read_progress:
  assumes "buffer_read_bytes b ERGO_ID_LEN = (Some tid, b1)" and "buffer_read_u64 b1 BE = (Some v, b2)"
  shows "unat (buffer_data_len b2) < unat (buffer_data_len b)"
  using buffer_read_bytes_progress [OF assms(1)] buffer_read_u64_progress [OF assms(2)]
  by (simp add: ERGO_ID_LEN_def)

text \<open>The token loop; \<open>Inl\<close> is an error return, \<open>Inr\<close> the memory after the loop.\<close>

function input_tokens_loop ::
    "'m input_ctx \<Rightarrow> 'm \<Rightarrow> buffer_t \<Rightarrow> (ergo_tx_serializer_input_result_e \<times> 'm \<times> buffer_t) + ('m \<times> buffer_t)" where
  "input_tokens_loop c m tokens =
     (if buffer_data_len tokens > 0 then
        case buffer_read_bytes tokens ERGO_ID_LEN of
          (None, tokens1) \<Rightarrow> Inl (ERGO_TX_SERIALIZER_INPUT_RES_ERR_BAD_TOKEN_ID, m, tokens1)
        | (Some token_id, tokens1) \<Rightarrow>
            (case buffer_read_u64 tokens1 BE of
               (None, tokens2) \<Rightarrow> Inl (ERGO_TX_SERIALIZER_INPUT_RES_ERR_BAD_TOKEN_VALUE, m, tokens2)
             | (Some token_value, tokens2) \<Rightarrow>
                 (case (case on_token_cb c of
                          None \<Rightarrow> (ERGO_TX_SERIALIZER_INPUT_RES_OK, m)
                        | Some cb \<Rightarrow> cb (input_box_id c) token_id token_value m) of (res, m1) \<Rightarrow>
                    if res \<noteq> ERGO_TX_SERIALIZER_INPUT_RES_OK then Inl (res, m1, tokens2)
                    else input_tokens_loop c m1 tokens2))
      else Inr (m, tokens))"
  by pat_completeness auto
termination
  by (relation "measure (\<lambda>(c, m, tokens). unat (buffer_data_len tokens))")
    (auto intro: token_read_progress [OF sym sym])

declare input_tokens_loop.simps [simp del]

text \<open>The end of the last frame: the id, an empty proof and, without extension data, an empty extension.\<close>

definition input_frames_done ::
    "('h, 'x) cx_sdk_scheme \<Rightarrow> ('h, 'z) ser_mem_scheme input_ctx \<Rightarrow> ('h, 'z) ser_mem_scheme \<Rightarrow> bytes \<Rightarrow>
     ('h, 'z) ser_mem_scheme input_out" where
  "input_frames_done cx c m box_id =
     (case mem_update cx m box_id ERGO_ID_LEN of (ok1, m1) \<Rightarrow>
        if \<not> ok1 then input_res_error c m1 ERGO_TX_SERIALIZER_INPUT_RES_ERR_HASHER
        else case mem_update cx m1 [0] 1 of (ok2, m2) \<Rightarrow>
          if \<not> ok2 then input_res_error c m2 ERGO_TX_SERIALIZER_INPUT_RES_ERR_HASHER
          else if context_extension_data_size c = 0 then
            (case mem_update cx m2 [0] 1 of (ok3, m3) \<Rightarrow>
               if \<not> ok3 then input_res_error c m3 ERGO_TX_SERIALIZER_INPUT_RES_ERR_HASHER
               else (ERGO_TX_SERIALIZER_INPUT_RES_OK,
                     c\<lparr>input_state := ERGO_TX_SERIALIZER_INPUT_STATE_FINISHED\<rparr>, m3))
          else (ERGO_TX_SERIALIZER_INPUT_RES_OK,
                c\<lparr>input_state := ERGO_TX_SERIALIZER_INPUT_STATE_EXTENSION_STARTED\<rparr>, m2))"

definition ergo_tx_serializer_input_add_tokens ::
    "('h, 'x) cx_sdk_scheme \<Rightarrow> ('h, 'z) ser_mem_scheme input_ctx \<Rightarrow> ('h, 'z) ser_mem_scheme \<Rightarrow> bytes \<Rightarrow> u8 \<Rightarrow>
     buffer_t \<Rightarrow> ('h, 'z) ser_mem_scheme input_out" where
  "ergo_tx_serializer_input_add_tokens cx c m box_id token_frame_index tokens =
     (if input_state c \<noteq> ERGO_TX_SERIALIZER_INPUT_STATE_FRAMES_STARTED
      then input_res_error c m ERGO_TX_SERIALIZER_INPUT_RES_ERR_BAD_STATE
      else if \<not> memcmp_eq (input_box_id c) box_id (unat ERGO_ID_LEN)
      then input_res_error c m ERGO_TX_SERIALIZER_INPUT_RES_ERR_BAD_INPUT_ID
      else if token_frame_index \<ge> frames_count c
      then input_res_error c m ERGO_TX_SERIALIZER_INPUT_RES_ERR_TOO_MANY_INPUT_FRAMES
      else if token_frame_index \<noteq> frames_processed c
      then input_res_error c m ERGO_TX_SERIALIZER_INPUT_RES_ERR_BAD_FRAME_INDEX
      else case input_tokens_loop c m tokens of
        Inl (err, m1, _) \<Rightarrow> input_res_error c m1 err
      | Inr (m1, _) \<Rightarrow>
          let c1 = c\<lparr>frames_processed := frames_processed c + 1\<rparr> in
          if frames_processed c1 = frames_count c1 then input_frames_done cx c1 m1 box_id
          else (ERGO_TX_SERIALIZER_INPUT_RES_MORE_DATA, c1, m1))"

definition ergo_tx_serializer_input_add_context_extension ::
    "('h, 'x) cx_sdk_scheme \<Rightarrow> ('h, 'z) ser_mem_scheme input_ctx \<Rightarrow> ('h, 'z) ser_mem_scheme \<Rightarrow> buffer_t \<Rightarrow>
     ('h, 'z) ser_mem_scheme input_out" where
  "ergo_tx_serializer_input_add_context_extension cx c m chunk =
     (let len = buffer_data_len chunk in
      if input_state c \<noteq> ERGO_TX_SERIALIZER_INPUT_STATE_EXTENSION_STARTED
      then input_res_error c m ERGO_TX_SERIALIZER_INPUT_RES_ERR_BAD_STATE
      else if context_extension_data_size c < len
      then input_res_error c m ERGO_TX_SERIALIZER_INPUT_RES_ERR_TOO_MUCH_PROOF_DATA
      else case mem_update cx m (buffer_read_ptr chunk) len of (ok, m1) \<Rightarrow>
        if \<not> ok then input_res_error c m1 ERGO_TX_SERIALIZER_INPUT_RES_ERR_HASHER
        else let c1 = c\<lparr>context_extension_data_size := context_extension_data_size c - len\<rparr> in
          if context_extension_data_size c1 = 0
          then (ERGO_TX_SERIALIZER_INPUT_RES_OK, c1\<lparr>input_state := ERGO_TX_SERIALIZER_INPUT_STATE_FINISHED\<rparr>, m1)
          else (ERGO_TX_SERIALIZER_INPUT_RES_MORE_DATA, c1, m1))"

definition ergo_tx_serializer_input_set_callback :: "'m input_ctx \<Rightarrow> 'm input_token_cb option \<Rightarrow> 'm input_ctx" where
  "ergo_tx_serializer_input_set_callback c cb = c\<lparr>on_token_cb := cb\<rparr>"

definition ergo_tx_serializer_input_is_finished :: "'m input_ctx \<Rightarrow> bool" where
  "ergo_tx_serializer_input_is_finished c \<longleftrightarrow> input_state c = ERGO_TX_SERIALIZER_INPUT_STATE_FINISHED"

subsection \<open>The tokens of a frame\<close>

definition input_res_ok :: "ergo_tx_serializer_input_result_e \<Rightarrow> bool" where
  "input_res_ok r \<longleftrightarrow> r = ERGO_TX_SERIALIZER_INPUT_RES_OK \<or> r = ERGO_TX_SERIALIZER_INPUT_RES_MORE_DATA"

text \<open>The tokens in the bytes of a frame, and their delivery to the callback in order.\<close>

definition frame_tokens :: "bytes \<Rightarrow> (bytes \<times> u64) list" where
  "frame_tokens d = map (\<lambda>e. (take 32 e, word_of_be (take 8 (drop 32 e)) 0)) (chunks 40 d)"

definition deliver_token :: "'m input_ctx \<Rightarrow> 'm \<Rightarrow> bytes \<times> u64 \<Rightarrow> 'm option" where
  "deliver_token c m tv =
     (case on_token_cb c of
        None \<Rightarrow> Some m
      | Some cb \<Rightarrow> (case cb (input_box_id c) (fst tv) (snd tv) m of (res, m') \<Rightarrow>
          if res = ERGO_TX_SERIALIZER_INPUT_RES_OK then Some m' else None))"

definition input_cb_frame :: "('h, 'z) ser_mem_scheme input_ctx \<Rightarrow> bool" where
  "input_cb_frame c \<longleftrightarrow> (\<forall>f i t v m. on_token_cb c = Some f \<longrightarrow> hash_ctx (snd (f i t v m)) = hash_ctx m)"

lemma deliver_token_frame:
  assumes "input_cb_frame c" and "deliver_token c m tv = Some m'"
  shows "hash_ctx m' = hash_ctx m"
  using assms by (auto simp: input_cb_frame_def deliver_token_def split: option.splits prod.splits if_splits)
    (metis snd_conv)

lemma accumulate_frame:
  assumes "input_cb_frame c" and "accumulate (deliver_token c) m tvs = Some m'"
  shows "hash_ctx m' = hash_ctx m"
  using assms(2) by (induction tvs arbitrary: m) (auto split: option.splits dest: deliver_token_frame [OF assms(1)])

lemma input_tokens_loop_Inr:
  assumes "input_tokens_loop c m b = Inr (m', b')" and "buffer_wf b"
  shows "length (buffer_data b) mod 40 = 0 \<and> accumulate (deliver_token c) m (frame_tokens (buffer_data b)) = Some m'"
  using assms
proof (induction c m b rule: input_tokens_loop.induct)
  case (1 c m b)
  let ?d = "buffer_data b"
  note run = "1.prems"(1) [unfolded input_tokens_loop.simps [of c m b]]
  show ?case
  proof (cases "?d = []")
    case True
    then have "buffer_data_len b = 0" using "1.prems"(2) by (simp add: buffer_data_empty_iff)
    with run True show ?thesis by (simp add: frame_tokens_def chunks.simps)
  next
    case False
    then have pos: "0 < buffer_data_len b" using "1.prems"(2) by (simp add: buffer_data_empty_iff word_neq_0_conv)
    have l32: "32 \<le> length ?d" using run pos "1.prems"(2) by (auto simp: buffer_read_bytes_eq split: if_splits)
    define b1 where "b1 = buffer_skip b 32"
    have b1: "buffer_read_bytes b ERGO_ID_LEN = (Some (take 32 ?d), b1)" "buffer_wf b1" "buffer_data b1 = drop 32 ?d"
      using l32 "1.prems"(2) by (simp_all add: b1_def buffer_read_bytes_eq buffer_wf_skip buffer_data_skip)
        (simp add: ERGO_ID_LEN_def)
    let ?v = "word_of_be (take 8 (drop 32 ?d)) 0 :: u64"
    have l8: "8 \<le> length (buffer_data b1)"
      using run pos b1(1) b1(2) by (auto simp: buffer_read_u64_be_eq split: if_splits)
    then have l8': "unat (8 :: size_t) \<le> length (buffer_data b1)" by simp
    define b2 where "b2 = buffer_skip b1 8"
    have b2: "buffer_read_u64 b1 BE = (Some ?v, b2)" "buffer_wf b2" "buffer_data b2 = drop 40 ?d"
      using l8 b1 buffer_wf_skip [OF b1(2) l8'] buffer_data_skip [OF b1(2) l8']
      by (simp_all add: b2_def buffer_read_u64_be_eq)
    obtain res m1 where cb: "(case on_token_cb c of None \<Rightarrow> (ERGO_TX_SERIALIZER_INPUT_RES_OK, m)
        | Some cb \<Rightarrow> cb (input_box_id c) (take 32 ?d) ?v m) = (res, m1)" by (metis surj_pair)
    have ok: "res = ERGO_TX_SERIALIZER_INPUT_RES_OK" and r: "input_tokens_loop c m1 b2 = Inr (m', b')"
      using run pos b1(1) b2(1) cb by (auto split: if_splits)
    note IH = "1.IH" [OF pos b1(1) [symmetric] refl b2(1) [symmetric] refl cb [symmetric] _ r b2(2)]
    have l40: "40 \<le> length ?d" using l8 b1(3) l32 by simp
    have ch: "chunks 40 ?d = take 40 ?d # chunks 40 (drop 40 ?d)" using l40 by (subst chunks.simps) simp
    have "deliver_token c m (take 32 ?d, ?v) = Some m1"
      using cb ok by (auto simp: deliver_token_def split: option.splits)
    with IH ok b2(3) l40 show ?thesis
      by (simp add: frame_tokens_def ch drop_take le_mod_geq)
  qed
qed

subsection \<open>What the operations hash\<close>

lemma input_res_ok_simps [simp]:
  "input_res_ok ERGO_TX_SERIALIZER_INPUT_RES_OK" "input_res_ok ERGO_TX_SERIALIZER_INPUT_RES_MORE_DATA"
  "\<not> input_res_ok ERGO_TX_SERIALIZER_INPUT_RES_ERR_HASHER" "\<not> input_res_ok ERGO_TX_SERIALIZER_INPUT_RES_ERR_BAD_STATE"
  "\<not> input_res_ok ERGO_TX_SERIALIZER_INPUT_RES_ERR_BAD_INPUT_ID"
  "\<not> input_res_ok ERGO_TX_SERIALIZER_INPUT_RES_ERR_TOO_MANY_INPUT_FRAMES"
  "\<not> input_res_ok ERGO_TX_SERIALIZER_INPUT_RES_ERR_BAD_FRAME_INDEX"
  "\<not> input_res_ok ERGO_TX_SERIALIZER_INPUT_RES_ERR_TOO_MUCH_PROOF_DATA"
  "\<not> input_res_ok ERGO_TX_SERIALIZER_INPUT_RES_ERR_BAD_TOKEN_ID"
  "\<not> input_res_ok ERGO_TX_SERIALIZER_INPUT_RES_ERR_BAD_TOKEN_VALUE"
  "\<not> input_res_ok ERGO_TX_SERIALIZER_INPUT_RES_ERR_BAD_CONTEXT_EXTENSION_SIZE"
  "\<not> input_res_ok ERGO_TX_SERIALIZER_INPUT_RES_ERR_U64_OVERFLOW"
  "\<not> input_res_ok ERGO_TX_SERIALIZER_INPUT_RES_ERR_TOO_MANY_TOKENS"
  by (simp_all add: input_res_ok_def)

lemma input_res_error_not_ok [simp]:
  "\<not> input_res_ok e \<Longrightarrow> input_res_ok r \<Longrightarrow> input_res_error c m e = (r, c', m') \<longleftrightarrow> False"
  by (auto simp: input_res_error_def)

text \<open>A callback that answers MORE_DATA would pass for a result of the operation; none does.\<close>

definition input_cb_no_more :: "'m input_ctx \<Rightarrow> bool" where
  "input_cb_no_more c \<longleftrightarrow>
     (\<forall>f i t v m. on_token_cb c = Some f \<longrightarrow> fst (f i t v m) \<noteq> ERGO_TX_SERIALIZER_INPUT_RES_MORE_DATA)"

lemma input_tokens_loop_Inl:
  assumes "input_tokens_loop c m b = Inl (r, m', b')" and "input_cb_no_more c"
  shows "\<not> input_res_ok r"
  using assms
proof (induction c m b rule: input_tokens_loop.induct)
  case (1 c m b)
  from "1.prems" show ?case
    unfolding input_tokens_loop.simps [of c m b]
    by (auto simp: input_res_ok_def input_cb_no_more_def dest: "1.IH" split: if_splits option.splits prod.splits)
      (metis fst_conv)
qed

lemma input_frames_done_trace:
  assumes "input_frames_done cx c m bid = (r, c', m')" and "input_res_ok r" and "length bid = 32"
  shows "r = ERGO_TX_SERIALIZER_INPUT_RES_OK \<and>
     c' = c\<lparr>input_state := (if context_extension_data_size c = 0 then ERGO_TX_SERIALIZER_INPUT_STATE_FINISHED
                           else ERGO_TX_SERIALIZER_INPUT_STATE_EXTENSION_STARTED)\<rparr> \<and>
     (\<exists>h. hash_trace cx (hash_ctx m) ([bid, [0]] @ (if context_extension_data_size c = 0 then [[0]] else [])) h \<and>
        m' = m\<lparr>hash_ctx := h\<rparr>)"
proof -
  obtain m1 where m1: "mem_update cx m bid ERGO_ID_LEN = (True, m1)"
    using assms(1,2) by (auto simp: input_frames_done_def split: prod.splits if_splits)
  obtain m2 where m2: "mem_update cx m1 [0] 1 = (True, m2)"
    using assms(1,2) m1 by (auto simp: input_frames_done_def split: prod.splits if_splits)
  obtain h1 h2 where h: "hash_absorb cx (hash_ctx m) bid h1" "hash_absorb cx h1 [0] h2" "m2 = m\<lparr>hash_ctx := h2\<rparr>"
    using m1 m2 assms(3) by (auto simp: mem_update_True)
  show ?thesis
  proof (cases "context_extension_data_size c = 0")
    case True
    obtain m3 where m3: "mem_update cx m2 [0] 1 = (True, m3)"
      using assms(1,2) m1 m2 True by (auto simp: input_frames_done_def split: prod.splits if_splits)
    then obtain h3 where "hash_absorb cx h2 [0] h3" "m3 = m\<lparr>hash_ctx := h3\<rparr>"
      using h by (auto simp: mem_update_True)
    with assms(1) m1 m2 m3 True h show ?thesis by (auto simp: input_frames_done_def)
  next
    case False
    with assms(1) m1 m2 h show ?thesis by (auto simp: input_frames_done_def)
  qed
qed

lemma input_add_tokens_trace:
  assumes "ergo_tx_serializer_input_add_tokens cx c m bid idx b = (r, c', m')" and "input_res_ok r"
    and "buffer_wf b" and "length bid = 32" and "length (input_box_id c) = 32" and "input_cb_no_more c"
  defines "c1 \<equiv> c\<lparr>frames_processed := frames_processed c + 1\<rparr>"
  shows "input_state c = ERGO_TX_SERIALIZER_INPUT_STATE_FRAMES_STARTED \<and> bid = input_box_id c \<and>
     idx = frames_processed c \<and> idx < frames_count c \<and> length (buffer_data b) mod 40 = 0 \<and>
     (\<exists>m1. accumulate (deliver_token c) m (frame_tokens (buffer_data b)) = Some m1 \<and>
        (if frames_processed c1 = frames_count c then input_frames_done cx c1 m1 bid = (r, c', m')
         else r = ERGO_TX_SERIALIZER_INPUT_RES_MORE_DATA \<and> c' = c1 \<and> m' = m1))"
proof -
  have g: "input_state c = ERGO_TX_SERIALIZER_INPUT_STATE_FRAMES_STARTED" "bid = input_box_id c"
    "idx = frames_processed c" "\<not> frames_count c \<le> idx"
    using assms(1,2,4,5) by (auto simp: ergo_tx_serializer_input_add_tokens_def memcmp_eq_def split: if_splits)
  obtain m1 b1 where l: "input_tokens_loop c m b = Inr (m1, b1)"
    using assms(1,2) g input_tokens_loop_Inl [OF _ assms(6), of m b]
    by (cases "input_tokens_loop c m b") (auto simp: ergo_tx_serializer_input_add_tokens_def memcmp_eq_def)
  show ?thesis
    using assms(1) g l input_tokens_loop_Inr [OF l assms(3)]
    by (auto simp: ergo_tx_serializer_input_add_tokens_def memcmp_eq_def c1_def Let_def not_le split: if_splits)
qed

lemma input_add_extension_trace:
  assumes "ergo_tx_serializer_input_add_context_extension cx c m b = (r, c', m')" and "input_res_ok r" and "buffer_wf b"
  defines "d \<equiv> buffer_data b"
  defines "c1 \<equiv> c\<lparr>context_extension_data_size := context_extension_data_size c - of_nat (length d)\<rparr>"
  shows "input_state c = ERGO_TX_SERIALIZER_INPUT_STATE_EXTENSION_STARTED \<and>
     unat (context_extension_data_size c) = unat (context_extension_data_size c1) + length d \<and>
     (\<exists>h. hash_trace cx (hash_ctx m) [d] h \<and> m' = m\<lparr>hash_ctx := h\<rparr> \<and>
       (r, c') = (if context_extension_data_size c1 = 0
         then (ERGO_TX_SERIALIZER_INPUT_RES_OK, c1\<lparr>input_state := ERGO_TX_SERIALIZER_INPUT_STATE_FINISHED\<rparr>)
         else (ERGO_TX_SERIALIZER_INPUT_RES_MORE_DATA, c1)))"
proof -
  have len: "unat (buffer_data_len b) = length d" by (simp add: d_def unat_buffer_data_len [OF assms(3)])
  then have w: "of_nat (length d) = buffer_data_len b" by (metis of_nat_unat ucast_id)
  have st: "input_state c = ERGO_TX_SERIALIZER_INPUT_STATE_EXTENSION_STARTED"
    "\<not> context_extension_data_size c < buffer_data_len b"
    using assms(1,2) by (auto simp: ergo_tx_serializer_input_add_context_extension_def Let_def split: if_splits)
  obtain m1 where m1: "mem_update cx m (buffer_read_ptr b) (buffer_data_len b) = (True, m1)"
    using assms(1,2) st by (auto simp: ergo_tx_serializer_input_add_context_extension_def Let_def split: if_splits prod.splits)
  have rd: "take (unat (buffer_data_len b)) (buffer_read_ptr b) = d" by (simp add: d_def buffer_data_def)
  obtain h where h: "hash_absorb cx (hash_ctx m) d h" "m1 = m\<lparr>hash_ctx := h\<rparr>"
    using m1 rd by (auto simp: mem_update_True)
  have sub: "unat (context_extension_data_size c1) = unat (context_extension_data_size c) - length d"
    using st(2) len by (simp add: c1_def w word_sub_le_unat)
  have "m' = m1 \<and> (r, c') = (if context_extension_data_size c1 = 0
         then (ERGO_TX_SERIALIZER_INPUT_RES_OK, c1\<lparr>input_state := ERGO_TX_SERIALIZER_INPUT_STATE_FINISHED\<rparr>)
         else (ERGO_TX_SERIALIZER_INPUT_RES_MORE_DATA, c1))"
    using assms(1) st by (simp add: ergo_tx_serializer_input_add_context_extension_def Let_def m1 c1_def w split: if_splits)
  then show ?thesis
    using st sub len h by (intro conjI exI [of _ h]) (auto simp: word_less_nat_alt)
qed

subsection \<open>Any sequence of operations\<close>

datatype input_op = InputTokens bytes u8 buffer_t | InputExtension buffer_t

fun input_op_wf :: "input_op \<Rightarrow> bool" where
  "input_op_wf (InputTokens bid idx b) = (length bid = 32 \<and> buffer_wf b)"
| "input_op_wf (InputExtension b) = buffer_wf b"

fun input_exec ::
    "('h, 'x) cx_sdk_scheme \<Rightarrow> input_op \<Rightarrow> ('h, 'z) ser_mem_scheme input_ctx \<Rightarrow> ('h, 'z) ser_mem_scheme \<Rightarrow>
     ('h, 'z) ser_mem_scheme input_out" where
  "input_exec cx (InputTokens bid idx b) c m = ergo_tx_serializer_input_add_tokens cx c m bid idx b"
| "input_exec cx (InputExtension b) c m = ergo_tx_serializer_input_add_context_extension cx c m b"

primrec input_run ::
    "('h, 'x) cx_sdk_scheme \<Rightarrow> input_op list \<Rightarrow> ('h, 'z) ser_mem_scheme input_ctx \<Rightarrow> ('h, 'z) ser_mem_scheme \<Rightarrow>
     (('h, 'z) ser_mem_scheme input_ctx \<times> ('h, 'z) ser_mem_scheme) option" where
  "input_run cx [] c m = Some (c, m)"
| "input_run cx (p # ps) c m =
     (case input_exec cx p c m of (r, c', m') \<Rightarrow> if input_res_ok r then input_run cx ps c' m' else None)"

interpretation input_machine: fail_stop
  "\<lambda>p s. input_exec cx p (fst s) (snd s)"
  input_res_ok "\<lambda>s. input_state (fst s) = ERGO_TX_SERIALIZER_INPUT_STATE_ERROR"
  for cx :: "('h, 'x) cx_sdk_scheme"
proof unfold_locales
  fix p and s :: "('h, 'z) ser_mem_scheme input_ctx \<times> ('h, 'z) ser_mem_scheme"
  obtain c m where s: "s = (c, m)" by fastforce
  have t: "input_state (fst (snd (ergo_tx_serializer_input_add_tokens cx c m bid idx b))) = ERGO_TX_SERIALIZER_INPUT_STATE_ERROR"
    if "\<not> input_res_ok (fst (ergo_tx_serializer_input_add_tokens cx c m bid idx b))" for bid idx b
    using that by (auto simp: ergo_tx_serializer_input_add_tokens_def input_frames_done_def input_res_error_def Let_def
        split: if_splits sum.splits prod.splits)
  have e: "input_state (fst (snd (ergo_tx_serializer_input_add_context_extension cx c m b))) = ERGO_TX_SERIALIZER_INPUT_STATE_ERROR"
    if "\<not> input_res_ok (fst (ergo_tx_serializer_input_add_context_extension cx c m b))" for b
    using that by (auto simp: ergo_tx_serializer_input_add_context_extension_def input_res_error_def Let_def
        split: if_splits prod.splits)
  show "\<not> input_res_ok (fst (input_exec cx p (fst s) (snd s))) \<Longrightarrow>
     input_state (fst (snd (input_exec cx p (fst s) (snd s)))) =
       ERGO_TX_SERIALIZER_INPUT_STATE_ERROR"
    unfolding s by (cases p) (auto intro: t e)
  show "input_state (fst s) = ERGO_TX_SERIALIZER_INPUT_STATE_ERROR \<Longrightarrow>
     \<not> input_res_ok (fst (input_exec cx p (fst s) (snd s)))"
    unfolding s by (cases p) (auto simp: ergo_tx_serializer_input_add_tokens_def Let_def input_res_error_def
        ergo_tx_serializer_input_add_context_extension_def)
qed

text \<open>The extension bytes may arrive in any chunks.\<close>

interpretation extension_sink: chunk_sink
  "\<lambda>s b. ergo_tx_serializer_input_add_context_extension cx (fst s) (snd s) b"
  ERGO_TX_SERIALIZER_INPUT_RES_MORE_DATA ERGO_TX_SERIALIZER_INPUT_RES_OK
  "\<lambda>s. input_state (fst s) = ERGO_TX_SERIALIZER_INPUT_STATE_EXTENSION_STARTED"
  "\<lambda>s. unat (context_extension_data_size (fst s))"
  "\<lambda>s d s'. hash_absorb cx (hash_ctx (snd s)) d (hash_ctx (snd s'))"
  "\<lambda>s s'. s = s' \<and> ergo_tx_serializer_input_is_finished (fst s')"
  for cx :: "('h, 'x) cx_sdk_scheme"
proof unfold_locales
  fix s s' :: "('h, 'z) ser_mem_scheme input_ctx \<times> ('h, 'z) ser_mem_scheme" and b
  let ?e = "\<lambda>s b. ergo_tx_serializer_input_add_context_extension cx (fst s) (snd s) b"
  assume b: "buffer_wf b"
  note t = input_add_extension_trace [OF _ _ b, of cx "fst s" "snd s" _ "fst s'" "snd s'"]
  show "?e s b = (ERGO_TX_SERIALIZER_INPUT_RES_MORE_DATA, s') \<Longrightarrow>
     input_state (fst s') = ERGO_TX_SERIALIZER_INPUT_STATE_EXTENSION_STARTED \<and>
     hash_absorb cx (hash_ctx (snd s)) (buffer_data b) (hash_ctx (snd s')) \<and>
     unat (context_extension_data_size (fst s)) =
       unat (context_extension_data_size (fst s')) + length (buffer_data b)"
    using t [of ERGO_TX_SERIALIZER_INPUT_RES_MORE_DATA] by (auto split: prod.splits if_splits)
  show "?e s b = (ERGO_TX_SERIALIZER_INPUT_RES_OK, s') \<Longrightarrow>
     (\<exists>s1. hash_absorb cx (hash_ctx (snd s)) (buffer_data b) (hash_ctx (snd s1)) \<and>
        s1 = s' \<and> ergo_tx_serializer_input_is_finished (fst s')) \<and>
     unat (context_extension_data_size (fst s)) = length (buffer_data b)"
    using t [of ERGO_TX_SERIALIZER_INPUT_RES_OK]
    by (cases s') (auto simp: ergo_tx_serializer_input_is_finished_def split: if_splits)
qed simp

text \<open>The reference serialization of an input.\<close>

definition input_bytes :: "bytes \<Rightarrow> u32 \<Rightarrow> bytes \<Rightarrow> bytes" where
  "input_bytes bid ext_size ext = bid @ [0] @ (if ext_size = 0 then [0] else ext)"

fun op_frame :: "input_op \<Rightarrow> (bytes \<times> u8) list" where
  "op_frame (InputTokens bid idx _) = [(bid, idx)]"
| "op_frame (InputExtension _) = []"

fun op_frame_tokens :: "input_op \<Rightarrow> (bytes \<times> u64) list" where
  "op_frame_tokens (InputTokens _ _ b) = frame_tokens (buffer_data b)"
| "op_frame_tokens (InputExtension _) = []"

fun op_extension :: "input_op \<Rightarrow> bytes" where
  "op_extension (InputTokens _ _ _) = []"
| "op_extension (InputExtension b) = buffer_data b"

text \<open>\<open>fs\<close> are the frames received so far and \<open>ext\<close> the extension bytes.\<close>

definition input_inv :: "bytes \<Rightarrow> bytes \<Rightarrow> u8 \<Rightarrow> u32 \<Rightarrow> (bytes \<times> u8) list \<Rightarrow> bytes \<Rightarrow> bytes \<Rightarrow> 'm input_ctx \<Rightarrow> bool" where
  "input_inv base bid fc ext_size fs ext h c \<longleftrightarrow>
     input_box_id c = bid \<and> length bid = 32 \<and> frames_count c = fc \<and>
     unat (frames_processed c) = length fs \<and> fs = map (\<lambda>i. (bid, of_nat i)) [0..<length fs] \<and>
     (case input_state c of
        ERGO_TX_SERIALIZER_INPUT_STATE_FRAMES_STARTED \<Rightarrow>
          context_extension_data_size c = ext_size \<and> ext = [] \<and> h = base
      | ERGO_TX_SERIALIZER_INPUT_STATE_EXTENSION_STARTED \<Rightarrow>
          length fs = unat fc \<and> ext_size \<noteq> 0 \<and> context_extension_data_size c \<noteq> 0 \<and>
          length ext + unat (context_extension_data_size c) = unat ext_size \<and> h = base @ bid @ [0] @ ext
      | ERGO_TX_SERIALIZER_INPUT_STATE_FINISHED \<Rightarrow>
          length fs = unat fc \<and> length ext = unat ext_size \<and> h = base @ input_bytes bid ext_size ext
      | ERGO_TX_SERIALIZER_INPUT_STATE_ERROR \<Rightarrow> False)"

lemma input_exec_inv_tokens:
  assumes "cx_absorbs cx ab" and "input_inv base bid fc ext_size fs ext (ab (hash_ctx m)) c"
    and "ergo_tx_serializer_input_add_tokens cx c m bid' idx b = (r, c', m')" and "input_res_ok r"
    and "buffer_wf b" and "length bid' = 32" and "input_cb_frame c" and "input_cb_no_more c"
  shows "input_inv base bid fc ext_size (fs @ [(bid', idx)]) ext (ab (hash_ctx m')) c' \<and> on_token_cb c' = on_token_cb c"
proof -
  have l: "length (input_box_id c) = 32" using assms(2) by (simp add: input_inv_def)
  define c1 where "c1 = c\<lparr>frames_processed := frames_processed c + 1\<rparr>"
  from input_add_tokens_trace [OF assms(3,4,5,6) l assms(8)] obtain m1 where
    st: "input_state c = ERGO_TX_SERIALIZER_INPUT_STATE_FRAMES_STARTED" "bid' = input_box_id c"
      "idx = frames_processed c" "idx < frames_count c"
    and d: "accumulate (deliver_token c) m (frame_tokens (buffer_data b)) = Some m1"
    and fin: "if frames_processed c1 = frames_count c then input_frames_done cx c1 m1 bid' = (r, c', m')
         else r = ERGO_TX_SERIALIZER_INPUT_RES_MORE_DATA \<and> c' = c1 \<and> m' = m1"
    unfolding c1_def by blast
  have h1: "hash_ctx m1 = hash_ctx m" by (rule accumulate_frame [OF assms(7) d])
  have u: "unat (frames_processed c + 1) = unat (frames_processed c) + 1"
    using st(3,4) unat_u8_less [of "frames_count c"]
    by (intro u8_succ [of _ "unat (frames_count c)"]) (simp_all add: word_less_nat_alt)
  have n: "frames_processed c = of_nat (length fs)" using assms(2) by (metis input_inv_def of_nat_unat ucast_id)
  have fs: "fs @ [(bid', idx)] = map (\<lambda>i. (bid, of_nat i)) [0..<Suc (length fs)]"
    using assms(2) st(2,3) n by (simp add: input_inv_def)
  show ?thesis
  proof (cases "frames_processed c1 = frames_count c")
    case True
    then have f: "input_frames_done cx c1 m1 bid' = (r, c', m')" using fin by simp
    from input_frames_done_trace [OF f assms(4,6)] obtain h where
      c': "c' = c1\<lparr>input_state := (if context_extension_data_size c1 = 0 then ERGO_TX_SERIALIZER_INPUT_STATE_FINISHED
                           else ERGO_TX_SERIALIZER_INPUT_STATE_EXTENSION_STARTED)\<rparr>"
      and tr: "hash_trace cx (hash_ctx m1) ([bid', [0]] @ (if context_extension_data_size c1 = 0 then [[0]] else [])) h"
      and m': "m' = m1\<lparr>hash_ctx := h\<rparr>" by blast
    have "ab h = ab (hash_ctx m) @ bid' @ [0] @ (if context_extension_data_size c = 0 then [0] else [])"
      using hash_trace_absorbs [OF assms(1) tr] h1 by (simp add: c1_def split: if_splits)
    moreover have "unat fc = length fs + 1" using True u assms(2) by (auto simp: c1_def input_inv_def)
    ultimately show ?thesis
      using c' m' st fs u assms(2) by (auto simp: input_inv_def c1_def input_bytes_def)
  next
    case False
    then show ?thesis
      using fin st h1 u fs assms(2) by (auto simp: input_inv_def c1_def)
  qed
qed

lemma input_exec_inv_extension:
  assumes "cx_absorbs cx ab" and "input_inv base bid fc ext_size fs ext (ab (hash_ctx m)) c"
    and "ergo_tx_serializer_input_add_context_extension cx c m b = (r, c', m')" and "input_res_ok r" and "buffer_wf b"
  shows "input_inv base bid fc ext_size fs (ext @ buffer_data b) (ab (hash_ctx m')) c' \<and> on_token_cb c' = on_token_cb c"
proof -
  from input_add_extension_trace [OF assms(3-5)] obtain h where
    st: "input_state c = ERGO_TX_SERIALIZER_INPUT_STATE_EXTENSION_STARTED"
    and sz: "unat (context_extension_data_size c) =
       unat (context_extension_data_size c - of_nat (length (buffer_data b))) + length (buffer_data b)"
    and tr: "hash_trace cx (hash_ctx m) [buffer_data b] h" and m': "m' = m\<lparr>hash_ctx := h\<rparr>"
    and rc: "(r, c') = (if context_extension_data_size c - of_nat (length (buffer_data b)) = 0
         then (ERGO_TX_SERIALIZER_INPUT_RES_OK, c\<lparr>context_extension_data_size :=
                context_extension_data_size c - of_nat (length (buffer_data b)),
                input_state := ERGO_TX_SERIALIZER_INPUT_STATE_FINISHED\<rparr>)
         else (ERGO_TX_SERIALIZER_INPUT_RES_MORE_DATA, c\<lparr>context_extension_data_size :=
                context_extension_data_size c - of_nat (length (buffer_data b))\<rparr>))" by auto
  have "ab h = ab (hash_ctx m) @ buffer_data b" using hash_trace_absorbs [OF assms(1) tr] by simp
  then show ?thesis
    using rc m' st sz assms(2) by (auto simp: input_inv_def input_bytes_def split: if_splits)
qed

lemma input_run_inv:
  assumes "cx_absorbs cx ab" and "input_inv base bid fc ext_size fs ext (ab (hash_ctx m)) c"
    and "input_run cx ps c m = Some (c', m')" and "\<forall>p \<in> set ps. input_op_wf p"
    and "input_cb_frame c" and "input_cb_no_more c"
  shows "input_inv base bid fc ext_size (fs @ concat (map op_frame ps)) (ext @ concat (map op_extension ps)) (ab (hash_ctx m')) c'"
  using assms(2-)
proof (induction ps arbitrary: fs ext c m)
  case Nil
  then show ?case by simp
next
  case (Cons p ps)
  obtain r c1 m1 where e: "input_exec cx p c m = (r, c1, m1)" by (metis prod_cases3)
  with Cons.prems have ok: "input_res_ok r" "input_run cx ps c1 m1 = Some (c', m')" by (auto split: if_splits)
  have s: "input_inv base bid fc ext_size (fs @ op_frame p) (ext @ op_extension p) (ab (hash_ctx m1)) c1 \<and>
      on_token_cb c1 = on_token_cb c"
    using input_exec_inv_tokens [OF assms(1) Cons.prems(1) _ ok(1) _ _ Cons.prems(4,5)]
      input_exec_inv_extension [OF assms(1) Cons.prems(1) _ ok(1)] e Cons.prems(3)
    by (cases p) auto
  then have "input_cb_frame c1" "input_cb_no_more c1"
    using Cons.prems(4,5) by (simp_all add: input_cb_frame_def input_cb_no_more_def)
  with Cons.IH [OF conjunct1 [OF s] ok(2)] Cons.prems(3) show ?case by simp
qed

text \<open>
  C12. Transcript of an input. Take an input that was initialised with a box id, a number of token
  frames and the size of its context extension, and any sequence of operations that were all
  accepted and left it finished. Then the frames were exactly those with indices 0, 1, \dots of this
  box id, in order; the extension bytes have the announced length; and the hash has absorbed the
  box id, an empty proof and the extension (a single 0 when there is none), nothing else.
\<close>

theorem input_transcript:
  assumes "cx_absorbs cx ab" and "length bid = 32"
    and "ergo_tx_serializer_input_init bid fc ext_size = (ERGO_TX_SERIALIZER_INPUT_RES_OK, c0)"
    and "c1 = ergo_tx_serializer_input_set_callback c0 cb" and "input_cb_frame c1" and "input_cb_no_more c1"
    and "\<forall>p \<in> set ps. input_op_wf p" and "input_run cx ps c1 m0 = Some (c, m)"
    and "ergo_tx_serializer_input_is_finished c"
  shows "ab (hash_ctx m) = ab (hash_ctx m0) @ input_bytes bid ext_size (concat (map op_extension ps)) \<and>
     length (concat (map op_extension ps)) = unat ext_size \<and>
     concat (map op_frame ps) = map (\<lambda>i. (bid, of_nat i)) [0..<unat fc]"
proof -
  have "input_inv (ab (hash_ctx m0)) bid fc ext_size [] [] (ab (hash_ctx m0)) c1"
    using assms(2-4) by (auto simp: input_inv_def ergo_tx_serializer_input_init_def Let_def input_ctx_zero_def
        ergo_tx_serializer_input_set_callback_def split: if_splits)
  from input_run_inv [OF assms(1) this assms(8,7,5,6)] assms(9) show ?thesis
    by (auto simp: input_inv_def ergo_tx_serializer_input_is_finished_def)
qed

text \<open>Witness: two frames, the first with one token, and three bytes of extension in two chunks.\<close>

definition demo_input_ops :: "input_op list" where
  "demo_input_ops = [InputTokens (demo_id 5) 0 (buffer_init (demo_id 9 @ [0, 0, 0, 0, 0, 0, 0, 7]) 40),
     InputTokens (demo_id 5) 1 (buffer_init [] 0), InputExtension (buffer_init [1, 2] 2), InputExtension (buffer_init [3] 1)]"

definition demo_input :: "bytes ser_mem input_ctx" where
  "demo_input = ergo_tx_serializer_input_set_callback (snd (ergo_tx_serializer_input_init (demo_id 5) 2 3)) None"

theorem input_transcript_witness:
  "\<exists>c m. input_run cx_record demo_input_ops demo_input demo_mem = Some (c, m) \<and>
     hash_ctx m = demo_id 5 @ [0] @ [1, 2, 3]"
proof -
  let ?i = "ergo_tx_serializer_input_init (demo_id 5) 2 3 :: ergo_tx_serializer_input_result_e \<times> bytes ser_mem input_ctx"
  let ?r = "input_run cx_record demo_input_ops demo_input demo_mem"
  have "fst ?i = ERGO_TX_SERIALIZER_INPUT_RES_OK" by code_simp
  then have i: "?i = (ERGO_TX_SERIALIZER_INPUT_RES_OK, snd ?i)" by (metis prod.collapse)
  have "?r \<noteq> None" by code_simp
  then have r: "?r = Some (fst (the ?r), snd (the ?r))" by auto
  have fin: "ergo_tx_serializer_input_is_finished (fst (the ?r))" by code_simp
  have wf: "\<forall>p \<in> set demo_input_ops. input_op_wf p" by code_simp
  have cb: "input_cb_frame demo_input" "input_cb_no_more demo_input"
    by (simp_all add: input_cb_frame_def input_cb_no_more_def demo_input_def ergo_tx_serializer_input_set_callback_def)
  have "length (demo_id 5) = 32" by code_simp
  moreover have "hash_ctx demo_mem @ input_bytes (demo_id 5) 3 (concat (map op_extension demo_input_ops)) =
      demo_id 5 @ [0] @ [1, 2, 3]" by code_simp
  ultimately have "hash_ctx (snd (the ?r)) = demo_id 5 @ [0] @ [1, 2, 3]"
    using input_transcript [OF cx_record_absorbs _ i demo_input_def cb wf r fin] by simp
  with r show ?thesis by blast
qed

text \<open>
  C15. The tokens of an input reach the caller. When a frame is accepted, its data is a whole number
  of 40-byte entries and the callback was run, in order, exactly once for every entry, with the
  box id of the input, the 32-byte token id and the big-endian amount, and answered OK each time;
  the memory after the frame is the memory after these calls, except for the hash.
\<close>

theorem input_tokens_delivered:
  assumes "ergo_tx_serializer_input_add_tokens cx c m bid idx b = (r, c', m')" and "input_res_ok r"
    and "buffer_wf b" and "length bid = 32" and "length (input_box_id c) = 32" and "input_cb_no_more c"
  shows "length (buffer_data b) mod 40 = 0 \<and>
     (\<exists>m1. accumulate (deliver_token c) m (frame_tokens (buffer_data b)) = Some m1 \<and>
        m' = m1\<lparr>hash_ctx := hash_ctx m'\<rparr>)"
proof -
  note t = input_add_tokens_trace [OF assms]
  then obtain m1 where d: "accumulate (deliver_token c) m (frame_tokens (buffer_data b)) = Some m1"
    and m: "input_frames_done cx (c\<lparr>frames_processed := frames_processed c + 1\<rparr>) m1 bid = (r, c', m') \<or> m' = m1"
    by (auto split: if_splits)
  have "m' = m1\<lparr>hash_ctx := hash_ctx m'\<rparr>"
    using m input_frames_done_trace [OF _ assms(2,4), of cx "c\<lparr>frames_processed := frames_processed c + 1\<rparr>" m1 c' m'] by auto
  with d t show ?thesis by blast
qed

text \<open>Witness: the callback of this instance appends the amount to the ids of the token table.\<close>

definition demo_cb :: "bytes ser_mem input_token_cb" where
  "demo_cb bid tid v m = (ERGO_TX_SERIALIZER_INPUT_RES_OK,
     m\<lparr>tokens_table := (tokens_table m)\<lparr>tt_tokens := tt_tokens (tokens_table m) @ [tid @ [ucast v]]\<rparr>\<rparr>)"

definition demo_frame :: "bytes ser_mem input_out" where
  "demo_frame = ergo_tx_serializer_input_add_tokens cx_record
     (ergo_tx_serializer_input_set_callback demo_input (Some demo_cb)) demo_mem (demo_id 5) 0
     (buffer_init (demo_id 9 @ [0, 0, 0, 0, 0, 0, 0, 7]) 40)"

theorem input_tokens_delivered_witness:
  "tt_tokens (tokens_table (snd (snd demo_frame))) = [demo_id 9 @ [7]]"
proof -
  let ?c = "ergo_tx_serializer_input_set_callback demo_input (Some demo_cb)"
  let ?b = "buffer_init (demo_id 9 @ [0, 0, 0, 0, 0, 0, 0, 7]) 40"
  have e: "ergo_tx_serializer_input_add_tokens cx_record ?c demo_mem (demo_id 5) 0 ?b =
      (fst demo_frame, fst (snd demo_frame), snd (snd demo_frame))" by (simp add: demo_frame_def)
  have ok: "input_res_ok (fst demo_frame)" by code_simp
  have wf: "buffer_wf ?b" and l: "length (demo_id 5) = 32" and lc: "length (input_box_id ?c) = 32" by code_simp+
  have n: "input_cb_no_more ?c"
    by (simp add: input_cb_no_more_def ergo_tx_serializer_input_set_callback_def demo_cb_def)
  from input_tokens_delivered [OF e ok wf l lc n] obtain m1 where
    a: "accumulate (deliver_token ?c) demo_mem (frame_tokens (buffer_data ?b)) = Some m1"
    and m: "snd (snd demo_frame) = m1\<lparr>hash_ctx := hash_ctx (snd (snd demo_frame))\<rparr>" by blast
  have "tt_tokens (tokens_table (the (accumulate (deliver_token ?c) demo_mem (frame_tokens (buffer_data ?b))))) = [demo_id 9 @ [7]]"
    by code_simp
  then have "tt_tokens (tokens_table m1) = [demo_id 9 @ [7]]" unfolding a by simp
  then show ?thesis by (subst m) simp
qed

text \<open>
  The input serializer is fail-stop: in the answers to any sequence of operations, from any
  state, the accepted ones come first; after the first error every operation is refused, and the
  context is in its error state.
\<close>

theorem input_fail_stop:
  "\<exists>gs bs. fst (answers (\<lambda>p s. input_exec cx p (fst s) (snd s)) ps s) = gs @ bs \<and>
     list_all input_res_ok gs \<and> list_all (\<lambda>r. \<not> input_res_ok r) bs \<and>
     (bs = [] \<or> input_state (fst (snd (answers (\<lambda>p s. input_exec cx p (fst s) (snd s)) ps s))) =
        ERGO_TX_SERIALIZER_INPUT_STATE_ERROR)"
  using input_machine.answers_prefix [of cx ps s] by (auto simp: list_all_iff)

end
