(* ===== verification/TxSerFull.thy ===== *)
theory TxSerFull
  imports TxSerInput
begin

text \<open>
  The serializer of a whole transaction, \<^verbatim>\<open>src/ergo/tx_ser_full.h\<close> and
  \<^verbatim>\<open>tx_ser_full.c\<close>: token table, inputs, data inputs, outputs.

  The C structure keeps the input context and the box context in one union. Here \<open>full_input_ctx\<close>
  is the input context and \<open>full_box_ctx\<close> the box context once \<open>add_box\<close> has written it
  (\<open>None\<close>: the union still holds the input context). A box operation before the first
  \<open>add_box\<close> reads the bytes of the input context as a box context; what it then sees depends on
  the layout, so the reinterpretation is the parameter \<open>ub\<close> of these operations. No operation
  touches the input context after a box context was written (\<open>full_phase\<close> below).

  The final position of the buffer that an operation consumes is not returned: every caller drops
  the buffer after the call.
\<close>

datatype ergo_tx_serializer_full_result_e =
    ERGO_TX_SERIALIZER_FULL_RES_OK
  | ERGO_TX_SERIALIZER_FULL_RES_MORE_DATA
  | ERGO_TX_SERIALIZER_FULL_RES_ERR_BAD_TOKEN_ID
  | ERGO_TX_SERIALIZER_FULL_RES_ERR_BAD_TOKEN_VALUE
  | ERGO_TX_SERIALIZER_FULL_RES_ERR_BAD_CONTEXT_EXTENSION_SIZE
  | ERGO_TX_SERIALIZER_FULL_RES_ERR_BAD_DATA_INPUT
  | ERGO_TX_SERIALIZER_FULL_RES_ERR_BAD_INPUT_ID
  | ERGO_TX_SERIALIZER_FULL_RES_ERR_BAD_TOKEN_INDEX
  | ERGO_TX_SERIALIZER_FULL_RES_ERR_BAD_FRAME_INDEX
  | ERGO_TX_SERIALIZER_FULL_RES_ERR_BAD_INPUT_COUNT
  | ERGO_TX_SERIALIZER_FULL_RES_ERR_BAD_OUTPUT_COUNT
  | ERGO_TX_SERIALIZER_FULL_RES_ERR_TOO_MANY_TOKENS
  | ERGO_TX_SERIALIZER_FULL_RES_ERR_TOO_MANY_INPUTS
  | ERGO_TX_SERIALIZER_FULL_RES_ERR_TOO_MANY_DATA_INPUTS
  | ERGO_TX_SERIALIZER_FULL_RES_ERR_TOO_MANY_INPUT_FRAMES
  | ERGO_TX_SERIALIZER_FULL_RES_ERR_TOO_MANY_OUTPUTS
  | ERGO_TX_SERIALIZER_FULL_RES_ERR_TOO_MUCH_DATA
  | ERGO_TX_SERIALIZER_FULL_RES_ERR_HASHER
  | ERGO_TX_SERIALIZER_FULL_RES_ERR_BUFFER
  | ERGO_TX_SERIALIZER_FULL_RES_ERR_BAD_STATE
  | ERGO_TX_SERIALIZER_FULL_RES_ERR_U64_OVERFLOW
  | ERGO_TX_SERIALIZER_FULL_RES_ERR_SMALL_CHUNK

datatype ergo_tx_serializer_full_state_e =
    ERGO_TX_SERIALIZER_FULL_STATE_TOKENS_STARTED
  | ERGO_TX_SERIALIZER_FULL_STATE_INPUTS_STARTED
  | ERGO_TX_SERIALIZER_FULL_STATE_DATA_INPUTS_STARTED
  | ERGO_TX_SERIALIZER_FULL_STATE_OUTPUTS_STARTED
  | ERGO_TX_SERIALIZER_FULL_STATE_FINISHED
  | ERGO_TX_SERIALIZER_FULL_STATE_ERROR

record 'm ergo_tx_serializer_full_context_t =
  full_state :: ergo_tx_serializer_full_state_e
  full_inputs_count :: u16
  full_data_inputs_count :: u16
  full_outputs_count :: u16
  full_table_ctx :: ergo_tx_serializer_table_context_t
  full_input_ctx :: "'m input_ctx"
  full_box_ctx :: "'m box_ctx option"

type_synonym 'm full_ctx = "'m ergo_tx_serializer_full_context_t"
type_synonym 'm full_out = "ergo_tx_serializer_full_result_e \<times> 'm full_ctx \<times> 'm"

definition full_ctx_zero :: "'m full_ctx" where
  "full_ctx_zero = \<lparr>full_state = ERGO_TX_SERIALIZER_FULL_STATE_TOKENS_STARTED, full_inputs_count = 0,
     full_data_inputs_count = 0, full_outputs_count = 0, full_table_ctx = \<lparr>distinct_tokens_count = 0\<rparr>,
     full_input_ctx = input_ctx_zero, full_box_ctx = None\<rparr>"

definition full_res_error :: "'m full_ctx \<Rightarrow> 'm \<Rightarrow> ergo_tx_serializer_full_result_e \<Rightarrow> 'm full_out" where
  "full_res_error c m err = (err, c\<lparr>full_state := ERGO_TX_SERIALIZER_FULL_STATE_ERROR\<rparr>, m)"

definition full_res_ok :: "ergo_tx_serializer_full_result_e \<Rightarrow> bool" where
  "full_res_ok r \<longleftrightarrow> r = ERGO_TX_SERIALIZER_FULL_RES_OK \<or> r = ERGO_TX_SERIALIZER_FULL_RES_MORE_DATA"

text \<open>\<open>CHECK_CALL_DATA_IS_FINISHED\<close>: run the block on OK, pass MORE_DATA on, fail otherwise.\<close>

definition check_call_data_is_finished ::
    "ergo_tx_serializer_full_result_e \<Rightarrow> 'm full_ctx \<Rightarrow> 'm \<Rightarrow> ('m full_ctx \<Rightarrow> 'm \<Rightarrow> 'm full_out) \<Rightarrow> 'm full_out" where
  "check_call_data_is_finished res c m block =
     (if res = ERGO_TX_SERIALIZER_FULL_RES_OK then block c m
      else if res = ERGO_TX_SERIALIZER_FULL_RES_MORE_DATA then (res, c, m)
      else full_res_error c m res)"

fun map_table_result :: "ergo_tx_serializer_table_result_e \<Rightarrow> ergo_tx_serializer_full_result_e" where
  "map_table_result ERGO_TX_SERIALIZER_TABLE_RES_OK = ERGO_TX_SERIALIZER_FULL_RES_OK"
| "map_table_result ERGO_TX_SERIALIZER_TABLE_RES_MORE_DATA = ERGO_TX_SERIALIZER_FULL_RES_MORE_DATA"
| "map_table_result ERGO_TX_SERIALIZER_TABLE_RES_ERR_BAD_TOKEN_ID = ERGO_TX_SERIALIZER_FULL_RES_ERR_BAD_TOKEN_ID"
| "map_table_result ERGO_TX_SERIALIZER_TABLE_RES_ERR_TOO_MANY_TOKENS = ERGO_TX_SERIALIZER_FULL_RES_ERR_TOO_MANY_TOKENS"
| "map_table_result ERGO_TX_SERIALIZER_TABLE_RES_ERR_HASHER = ERGO_TX_SERIALIZER_FULL_RES_ERR_HASHER"
| "map_table_result ERGO_TX_SERIALIZER_TABLE_RES_ERR_BUFFER = ERGO_TX_SERIALIZER_FULL_RES_ERR_BUFFER"

fun map_input_result :: "ergo_tx_serializer_input_result_e \<Rightarrow> ergo_tx_serializer_full_result_e" where
  "map_input_result ERGO_TX_SERIALIZER_INPUT_RES_OK = ERGO_TX_SERIALIZER_FULL_RES_OK"
| "map_input_result ERGO_TX_SERIALIZER_INPUT_RES_MORE_DATA = ERGO_TX_SERIALIZER_FULL_RES_MORE_DATA"
| "map_input_result ERGO_TX_SERIALIZER_INPUT_RES_ERR_BAD_CONTEXT_EXTENSION_SIZE = ERGO_TX_SERIALIZER_FULL_RES_ERR_BAD_CONTEXT_EXTENSION_SIZE"
| "map_input_result ERGO_TX_SERIALIZER_INPUT_RES_ERR_BAD_INPUT_ID = ERGO_TX_SERIALIZER_FULL_RES_ERR_BAD_INPUT_ID"
| "map_input_result ERGO_TX_SERIALIZER_INPUT_RES_ERR_BAD_FRAME_INDEX = ERGO_TX_SERIALIZER_FULL_RES_ERR_BAD_FRAME_INDEX"
| "map_input_result ERGO_TX_SERIALIZER_INPUT_RES_ERR_BAD_TOKEN_ID = ERGO_TX_SERIALIZER_FULL_RES_ERR_BAD_TOKEN_ID"
| "map_input_result ERGO_TX_SERIALIZER_INPUT_RES_ERR_BAD_TOKEN_VALUE = ERGO_TX_SERIALIZER_FULL_RES_ERR_BAD_TOKEN_VALUE"
| "map_input_result ERGO_TX_SERIALIZER_INPUT_RES_ERR_TOO_MANY_INPUT_FRAMES = ERGO_TX_SERIALIZER_FULL_RES_ERR_TOO_MANY_INPUT_FRAMES"
| "map_input_result ERGO_TX_SERIALIZER_INPUT_RES_ERR_TOO_MUCH_PROOF_DATA = ERGO_TX_SERIALIZER_FULL_RES_ERR_TOO_MUCH_DATA"
| "map_input_result ERGO_TX_SERIALIZER_INPUT_RES_ERR_U64_OVERFLOW = ERGO_TX_SERIALIZER_FULL_RES_ERR_U64_OVERFLOW"
| "map_input_result ERGO_TX_SERIALIZER_INPUT_RES_ERR_HASHER = ERGO_TX_SERIALIZER_FULL_RES_ERR_HASHER"
| "map_input_result ERGO_TX_SERIALIZER_INPUT_RES_ERR_BUFFER = ERGO_TX_SERIALIZER_FULL_RES_ERR_BUFFER"
| "map_input_result ERGO_TX_SERIALIZER_INPUT_RES_ERR_BAD_STATE = ERGO_TX_SERIALIZER_FULL_RES_ERR_BAD_STATE"
| "map_input_result ERGO_TX_SERIALIZER_INPUT_RES_ERR_TOO_MANY_TOKENS = ERGO_TX_SERIALIZER_FULL_RES_ERR_TOO_MANY_TOKENS"

fun map_box_result :: "ergo_tx_serializer_box_result_e \<Rightarrow> ergo_tx_serializer_full_result_e" where
  "map_box_result ERGO_TX_SERIALIZER_BOX_RES_OK = ERGO_TX_SERIALIZER_FULL_RES_OK"
| "map_box_result ERGO_TX_SERIALIZER_BOX_RES_MORE_DATA = ERGO_TX_SERIALIZER_FULL_RES_MORE_DATA"
| "map_box_result ERGO_TX_SERIALIZER_BOX_RES_ERR_BAD_TOKEN_INDEX = ERGO_TX_SERIALIZER_FULL_RES_ERR_BAD_TOKEN_INDEX"
| "map_box_result ERGO_TX_SERIALIZER_BOX_RES_ERR_BAD_TOKEN_ID = ERGO_TX_SERIALIZER_FULL_RES_ERR_BAD_TOKEN_ID"
| "map_box_result ERGO_TX_SERIALIZER_BOX_RES_ERR_BAD_TOKEN_VALUE = ERGO_TX_SERIALIZER_FULL_RES_ERR_BAD_TOKEN_VALUE"
| "map_box_result ERGO_TX_SERIALIZER_BOX_RES_ERR_TOO_MANY_TOKENS = ERGO_TX_SERIALIZER_FULL_RES_ERR_TOO_MANY_TOKENS"
| "map_box_result ERGO_TX_SERIALIZER_BOX_RES_ERR_TOO_MUCH_DATA = ERGO_TX_SERIALIZER_FULL_RES_ERR_TOO_MUCH_DATA"
| "map_box_result ERGO_TX_SERIALIZER_BOX_RES_ERR_HASHER = ERGO_TX_SERIALIZER_FULL_RES_ERR_HASHER"
| "map_box_result ERGO_TX_SERIALIZER_BOX_RES_ERR_BUFFER = ERGO_TX_SERIALIZER_FULL_RES_ERR_BUFFER"
| "map_box_result ERGO_TX_SERIALIZER_BOX_RES_ERR_U64_OVERFLOW = ERGO_TX_SERIALIZER_FULL_RES_ERR_U64_OVERFLOW"
| "map_box_result ERGO_TX_SERIALIZER_BOX_RES_ERR_BAD_STATE = ERGO_TX_SERIALIZER_FULL_RES_ERR_BAD_STATE"
| "map_box_result ERGO_TX_SERIALIZER_BOX_RES_ERR_SMALL_CHUNK = ERGO_TX_SERIALIZER_FULL_RES_ERR_SMALL_CHUNK"

definition hash_u16 ::
    "('h, 'x) cx_sdk_scheme \<Rightarrow> ('h, 'z) ser_mem_scheme \<Rightarrow> u16 \<Rightarrow> bool \<times> ('h, 'z) ser_mem_scheme" where
  "hash_u16 cx m v =
     (case gve_put_u16 (rw_buffer_new_local_empty 4) v of (r, b) \<Rightarrow>
        if r \<noteq> GVE_OK then (False, m)
        else mem_update cx m (rw_buffer_read_ptr b) (rw_buffer_data_len b))"

definition data_inputs_finished ::
    "('h, 'x) cx_sdk_scheme \<Rightarrow> ('h, 'z) ser_mem_scheme full_ctx \<Rightarrow> ('h, 'z) ser_mem_scheme \<Rightarrow>
     ('h, 'z) ser_mem_scheme full_out" where
  "data_inputs_finished cx c m =
     (case ergo_tx_serializer_table_hash cx (full_table_ctx c) (tokens_table m) (hash_ctx m) of (r, h) \<Rightarrow>
        let m1 = m\<lparr>hash_ctx := h\<rparr>; res = map_table_result r in
        if \<not> full_res_ok res then full_res_error c m1 res
        else case hash_u16 cx m1 (full_outputs_count c) of (ok, m2) \<Rightarrow>
          if \<not> ok then full_res_error c m2 ERGO_TX_SERIALIZER_FULL_RES_ERR_HASHER
          else (ERGO_TX_SERIALIZER_FULL_RES_OK,
                c\<lparr>full_state := ERGO_TX_SERIALIZER_FULL_STATE_OUTPUTS_STARTED\<rparr>, m2))"

definition input_finished ::
    "('h, 'x) cx_sdk_scheme \<Rightarrow> ('h, 'z) ser_mem_scheme full_ctx \<Rightarrow> ('h, 'z) ser_mem_scheme \<Rightarrow>
     ('h, 'z) ser_mem_scheme full_out" where
  "input_finished cx c m =
     (let c1 = c\<lparr>full_inputs_count := full_inputs_count c - 1\<rparr> in
      if full_inputs_count c1 = 0 then
        case hash_u16 cx m (full_data_inputs_count c1) of (ok, m1) \<Rightarrow>
          if \<not> ok then full_res_error c1 m1 ERGO_TX_SERIALIZER_FULL_RES_ERR_HASHER
          else let c2 = c1\<lparr>full_state := ERGO_TX_SERIALIZER_FULL_STATE_DATA_INPUTS_STARTED\<rparr> in
            if full_data_inputs_count c2 = 0 then data_inputs_finished cx c2 m1
            else (ERGO_TX_SERIALIZER_FULL_RES_OK, c2, m1)
      else (ERGO_TX_SERIALIZER_FULL_RES_OK, c1, m))"

definition output_finished :: "'m full_ctx \<Rightarrow> 'm \<Rightarrow> 'm full_out" where
  "output_finished c m =
     (let c1 = c\<lparr>full_outputs_count := full_outputs_count c - 1\<rparr> in
      (ERGO_TX_SERIALIZER_FULL_RES_OK,
       (if full_outputs_count c1 = 0 then c1\<lparr>full_state := ERGO_TX_SERIALIZER_FULL_STATE_FINISHED\<rparr> else c1), m))"

subsection \<open>The operations\<close>

definition ergo_tx_serializer_full_init ::
    "('h, 'x) cx_sdk_scheme \<Rightarrow> u16 \<Rightarrow> u16 \<Rightarrow> u16 \<Rightarrow> u8 \<Rightarrow> ('h, 'z) ser_mem_scheme \<Rightarrow> ('h, 'z) ser_mem_scheme full_out" where
  "ergo_tx_serializer_full_init cx inputs_count data_inputs_count outputs_count tokens_count m =
     (let c = full_ctx_zero in
      if inputs_count = 0 then full_res_error c m ERGO_TX_SERIALIZER_FULL_RES_ERR_BAD_INPUT_COUNT
      else if outputs_count = 0 then full_res_error c m ERGO_TX_SERIALIZER_FULL_RES_ERR_BAD_OUTPUT_COUNT
      else case hash_u16 cx m inputs_count of (ok, m1) \<Rightarrow>
        if \<not> ok then full_res_error c m1 ERGO_TX_SERIALIZER_FULL_RES_ERR_HASHER
        else let c1 = c\<lparr>full_inputs_count := inputs_count, full_data_inputs_count := data_inputs_count,
                        full_outputs_count := outputs_count\<rparr> in
          case ergo_tx_serializer_table_init tokens_count (tokens_table m1) (full_table_ctx c1) of (r, tc, t) \<Rightarrow>
            let c2 = c1\<lparr>full_table_ctx := tc\<rparr>; m2 = m1\<lparr>tokens_table := t\<rparr>; res = map_table_result r in
            if \<not> full_res_ok res then full_res_error c2 m2 res
            else (ERGO_TX_SERIALIZER_FULL_RES_OK,
                  (if tokens_count \<noteq> 0 then c2\<lparr>full_state := ERGO_TX_SERIALIZER_FULL_STATE_TOKENS_STARTED\<rparr>
                   else c2\<lparr>full_state := ERGO_TX_SERIALIZER_FULL_STATE_INPUTS_STARTED,
                           full_input_ctx := (full_input_ctx c2)\<lparr>input_state := ERGO_TX_SERIALIZER_INPUT_STATE_FINISHED\<rparr>\<rparr>),
                  m2))"

definition ergo_tx_serializer_full_add_tokens ::
    "('h, 'z) ser_mem_scheme full_ctx \<Rightarrow> ('h, 'z) ser_mem_scheme \<Rightarrow> buffer_t \<Rightarrow> ('h, 'z) ser_mem_scheme full_out" where
  "ergo_tx_serializer_full_add_tokens c m tokens =
     (if full_state c \<noteq> ERGO_TX_SERIALIZER_FULL_STATE_TOKENS_STARTED
      then full_res_error c m ERGO_TX_SERIALIZER_FULL_RES_ERR_BAD_STATE
      else case ergo_tx_serializer_table_add (full_table_ctx c) (tokens_table m) tokens of (r, t, _) \<Rightarrow>
        check_call_data_is_finished (map_table_result r) c (m\<lparr>tokens_table := t\<rparr>)
          (\<lambda>c m. (ERGO_TX_SERIALIZER_FULL_RES_OK,
             c\<lparr>full_state := ERGO_TX_SERIALIZER_FULL_STATE_INPUTS_STARTED,
               full_input_ctx := (full_input_ctx c)\<lparr>input_state := ERGO_TX_SERIALIZER_INPUT_STATE_FINISHED\<rparr>\<rparr>, m)))"

definition ergo_tx_serializer_full_add_input ::
    "'m full_ctx \<Rightarrow> 'm \<Rightarrow> bytes \<Rightarrow> u8 \<Rightarrow> u32 \<Rightarrow> 'm full_out" where
  "ergo_tx_serializer_full_add_input c m box_id frames extension_size =
     (if full_state c \<noteq> ERGO_TX_SERIALIZER_FULL_STATE_INPUTS_STARTED
      then full_res_error c m ERGO_TX_SERIALIZER_FULL_RES_ERR_BAD_STATE
      else if \<not> ergo_tx_serializer_input_is_finished (full_input_ctx c)
      then full_res_error c m ERGO_TX_SERIALIZER_FULL_RES_ERR_BAD_STATE
      else if full_inputs_count c = 0
      then full_res_error c m ERGO_TX_SERIALIZER_FULL_RES_ERR_TOO_MANY_INPUTS
      else case ergo_tx_serializer_input_init box_id frames extension_size of (r, ic) \<Rightarrow>
        let c1 = c\<lparr>full_input_ctx := ic, full_box_ctx := None\<rparr>; res = map_input_result r in
        if \<not> full_res_ok res then full_res_error c1 m res
        else (ERGO_TX_SERIALIZER_FULL_RES_OK, c1, m))"

definition ergo_tx_serializer_full_add_input_tokens ::
    "('h, 'x) cx_sdk_scheme \<Rightarrow> ('h, 'z) ser_mem_scheme full_ctx \<Rightarrow> ('h, 'z) ser_mem_scheme \<Rightarrow> bytes \<Rightarrow> u8 \<Rightarrow> buffer_t \<Rightarrow>
     ('h, 'z) ser_mem_scheme full_out" where
  "ergo_tx_serializer_full_add_input_tokens cx c m box_id frame_index tokens =
     (if full_state c \<noteq> ERGO_TX_SERIALIZER_FULL_STATE_INPUTS_STARTED
      then full_res_error c m ERGO_TX_SERIALIZER_FULL_RES_ERR_BAD_STATE
      else case ergo_tx_serializer_input_add_tokens cx (full_input_ctx c) m box_id frame_index tokens of (r, ic, m1) \<Rightarrow>
        check_call_data_is_finished (map_input_result r) (c\<lparr>full_input_ctx := ic\<rparr>) m1
          (\<lambda>c m. if ergo_tx_serializer_input_is_finished (full_input_ctx c) then input_finished cx c m
                 else (ERGO_TX_SERIALIZER_FULL_RES_OK, c, m)))"

definition ergo_tx_serializer_full_add_input_context_extension ::
    "('h, 'x) cx_sdk_scheme \<Rightarrow> ('h, 'z) ser_mem_scheme full_ctx \<Rightarrow> ('h, 'z) ser_mem_scheme \<Rightarrow> buffer_t \<Rightarrow>
     ('h, 'z) ser_mem_scheme full_out" where
  "ergo_tx_serializer_full_add_input_context_extension cx c m echunk =
     (if full_state c \<noteq> ERGO_TX_SERIALIZER_FULL_STATE_INPUTS_STARTED
      then full_res_error c m ERGO_TX_SERIALIZER_FULL_RES_ERR_BAD_STATE
      else case ergo_tx_serializer_input_add_context_extension cx (full_input_ctx c) m echunk of (r, ic, m1) \<Rightarrow>
        check_call_data_is_finished (map_input_result r) (c\<lparr>full_input_ctx := ic\<rparr>) m1 (input_finished cx))"

function data_inputs_loop ::
    "('h, 'x) cx_sdk_scheme \<Rightarrow> ('h, 'z) ser_mem_scheme full_ctx \<Rightarrow> ('h, 'z) ser_mem_scheme \<Rightarrow> buffer_t \<Rightarrow>
     ('h, 'z) ser_mem_scheme full_out + (('h, 'z) ser_mem_scheme full_ctx \<times> ('h, 'z) ser_mem_scheme)" where
  "data_inputs_loop cx c m inputs =
     (if buffer_data_len inputs > 0 then
        if full_data_inputs_count c = 0
        then Inl (full_res_error c m ERGO_TX_SERIALIZER_FULL_RES_ERR_TOO_MANY_DATA_INPUTS)
        else case buffer_read_bytes inputs ERGO_ID_LEN of
          (None, inputs1) \<Rightarrow> Inl (full_res_error c m ERGO_TX_SERIALIZER_FULL_RES_ERR_BAD_DATA_INPUT)
        | (Some box_id, inputs1) \<Rightarrow>
            (case mem_update cx m box_id ERGO_ID_LEN of (ok, m1) \<Rightarrow>
               if \<not> ok then Inl (full_res_error c m1 ERGO_TX_SERIALIZER_FULL_RES_ERR_HASHER)
               else data_inputs_loop cx (c\<lparr>full_data_inputs_count := full_data_inputs_count c - 1\<rparr>) m1 inputs1)
      else Inr (c, m))"
  by pat_completeness auto
termination
  by (relation "measure (\<lambda>(cx, c, m, inputs). unat (buffer_data_len inputs))")
    (auto simp: ERGO_ID_LEN_def intro: buffer_read_bytes_progress [OF sym])

declare data_inputs_loop.simps [simp del]

definition ergo_tx_serializer_full_add_data_inputs ::
    "('h, 'x) cx_sdk_scheme \<Rightarrow> ('h, 'z) ser_mem_scheme full_ctx \<Rightarrow> ('h, 'z) ser_mem_scheme \<Rightarrow> buffer_t \<Rightarrow>
     ('h, 'z) ser_mem_scheme full_out" where
  "ergo_tx_serializer_full_add_data_inputs cx c m inputs =
     (if full_state c \<noteq> ERGO_TX_SERIALIZER_FULL_STATE_DATA_INPUTS_STARTED
      then full_res_error c m ERGO_TX_SERIALIZER_FULL_RES_ERR_BAD_STATE
      else case data_inputs_loop cx c m inputs of
        Inl out \<Rightarrow> out
      | Inr (c1, m1) \<Rightarrow>
          if full_data_inputs_count c1 = 0 then data_inputs_finished cx c1 m1
          else (ERGO_TX_SERIALIZER_FULL_RES_MORE_DATA, c1, m1))"

definition ergo_tx_serializer_full_add_box ::
    "('h, 'x) cx_sdk_scheme \<Rightarrow> ('h, 'z) ser_mem_scheme full_ctx \<Rightarrow> ('h, 'z) ser_mem_scheme \<Rightarrow>
     u64 \<Rightarrow> u32 \<Rightarrow> u32 \<Rightarrow> u8 \<Rightarrow> u32 \<Rightarrow> ('h, 'z) ser_mem_scheme full_out" where
  "ergo_tx_serializer_full_add_box cx c m value ergo_tree_size creation_height tokens_count registers_size =
     (if full_state c \<noteq> ERGO_TX_SERIALIZER_FULL_STATE_OUTPUTS_STARTED
      then full_res_error c m ERGO_TX_SERIALIZER_FULL_RES_ERR_BAD_STATE
      else if full_outputs_count c = 0
      then full_res_error c m ERGO_TX_SERIALIZER_FULL_RES_ERR_TOO_MANY_OUTPUTS
      else case ergo_tx_serializer_box_init cx value ergo_tree_size creation_height tokens_count registers_size m of
        (r, bc, m1) \<Rightarrow>
        let c1 = c\<lparr>full_box_ctx := Some bc\<rparr>; res = map_box_result r in
        if \<not> full_res_ok res then full_res_error c1 m1 res
        else (ERGO_TX_SERIALIZER_FULL_RES_OK, c1, m1))"

text \<open>The box context as the box operations read it, and the end of a box.\<close>

definition full_box :: "('m input_ctx \<Rightarrow> 'm box_ctx) \<Rightarrow> 'm full_ctx \<Rightarrow> 'm box_ctx" where
  "full_box ub c = (case full_box_ctx c of Some bc \<Rightarrow> bc | None \<Rightarrow> ub (full_input_ctx c))"

definition box_done :: "('m input_ctx \<Rightarrow> 'm box_ctx) \<Rightarrow> 'm full_ctx \<Rightarrow> 'm \<Rightarrow> 'm full_out" where
  "box_done ub c m =
     (if ergo_tx_serializer_box_is_finished (full_box ub c) then output_finished c m
      else (ERGO_TX_SERIALIZER_FULL_RES_OK, c, m))"

definition ergo_tx_serializer_full_add_box_ergo_tree ::
    "('h, 'x) cx_sdk_scheme \<Rightarrow> (('h, 'z) ser_mem_scheme input_ctx \<Rightarrow> ('h, 'z) ser_mem_scheme box_ctx) \<Rightarrow>
     ('h, 'z) ser_mem_scheme full_ctx \<Rightarrow> ('h, 'z) ser_mem_scheme \<Rightarrow> buffer_t \<Rightarrow> ('h, 'z) ser_mem_scheme full_out" where
  "ergo_tx_serializer_full_add_box_ergo_tree cx ub c m tree_chunk =
     (if full_state c \<noteq> ERGO_TX_SERIALIZER_FULL_STATE_OUTPUTS_STARTED
      then full_res_error c m ERGO_TX_SERIALIZER_FULL_RES_ERR_BAD_STATE
      else case ergo_tx_serializer_box_add_tree cx (full_box ub c) m tree_chunk of (r, bc, m1, _) \<Rightarrow>
        check_call_data_is_finished (map_box_result r) (c\<lparr>full_box_ctx := Some bc\<rparr>) m1 (box_done ub))"

definition ergo_tx_serializer_full_add_box_change_tree ::
    "('h, 'x) cx_sdk_scheme \<Rightarrow> (('h, 'z) ser_mem_scheme input_ctx \<Rightarrow> ('h, 'z) ser_mem_scheme box_ctx) \<Rightarrow>
     ('h, 'z) ser_mem_scheme full_ctx \<Rightarrow> ('h, 'z) ser_mem_scheme \<Rightarrow> bytes \<Rightarrow> ('h, 'z) ser_mem_scheme full_out" where
  "ergo_tx_serializer_full_add_box_change_tree cx ub c m raw_pub_key =
     (if full_state c \<noteq> ERGO_TX_SERIALIZER_FULL_STATE_OUTPUTS_STARTED
      then full_res_error c m ERGO_TX_SERIALIZER_FULL_RES_ERR_BAD_STATE
      else case ergo_tx_serializer_box_add_change_tree cx (full_box ub c) m raw_pub_key of (r, bc, m1) \<Rightarrow>
        let c1 = c\<lparr>full_box_ctx := Some bc\<rparr>; res = map_box_result r in
        if \<not> full_res_ok res then full_res_error c1 m1 res else box_done ub c1 m1)"

definition ergo_tx_serializer_full_add_box_miners_fee_tree ::
    "('h, 'x) cx_sdk_scheme \<Rightarrow> (('h, 'z) ser_mem_scheme input_ctx \<Rightarrow> ('h, 'z) ser_mem_scheme box_ctx) \<Rightarrow>
     ('h, 'z) ser_mem_scheme full_ctx \<Rightarrow> ('h, 'z) ser_mem_scheme \<Rightarrow> bool \<Rightarrow> ('h, 'z) ser_mem_scheme full_out" where
  "ergo_tx_serializer_full_add_box_miners_fee_tree cx ub c m is_mainnet =
     (if full_state c \<noteq> ERGO_TX_SERIALIZER_FULL_STATE_OUTPUTS_STARTED
      then full_res_error c m ERGO_TX_SERIALIZER_FULL_RES_ERR_BAD_STATE
      else case ergo_tx_serializer_box_add_miners_fee_tree cx (full_box ub c) m is_mainnet of (r, bc, m1) \<Rightarrow>
        let c1 = c\<lparr>full_box_ctx := Some bc\<rparr>; res = map_box_result r in
        if \<not> full_res_ok res then full_res_error c1 m1 res else box_done ub c1 m1)"

definition ergo_tx_serializer_full_add_box_tokens ::
    "('h, 'x) cx_sdk_scheme \<Rightarrow> (('h, 'z) ser_mem_scheme input_ctx \<Rightarrow> ('h, 'z) ser_mem_scheme box_ctx) \<Rightarrow>
     ('h, 'z) ser_mem_scheme full_ctx \<Rightarrow> ('h, 'z) ser_mem_scheme \<Rightarrow> buffer_t \<Rightarrow> ('h, 'z) ser_mem_scheme full_out" where
  "ergo_tx_serializer_full_add_box_tokens cx ub c m tokens =
     (if full_state c \<noteq> ERGO_TX_SERIALIZER_FULL_STATE_OUTPUTS_STARTED
      then full_res_error c m ERGO_TX_SERIALIZER_FULL_RES_ERR_BAD_STATE
      else case ergo_tx_serializer_box_add_tokens cx (full_box ub c) m tokens (Some (full_table_ctx c)) of (r, bc, m1, _) \<Rightarrow>
        check_call_data_is_finished (map_box_result r) (c\<lparr>full_box_ctx := Some bc\<rparr>) m1 (box_done ub))"

definition ergo_tx_serializer_full_add_box_registers ::
    "('h, 'x) cx_sdk_scheme \<Rightarrow> (('h, 'z) ser_mem_scheme input_ctx \<Rightarrow> ('h, 'z) ser_mem_scheme box_ctx) \<Rightarrow>
     ('h, 'z) ser_mem_scheme full_ctx \<Rightarrow> ('h, 'z) ser_mem_scheme \<Rightarrow> buffer_t \<Rightarrow> ('h, 'z) ser_mem_scheme full_out" where
  "ergo_tx_serializer_full_add_box_registers cx ub c m registers_chunk =
     (if full_state c \<noteq> ERGO_TX_SERIALIZER_FULL_STATE_OUTPUTS_STARTED
      then full_res_error c m ERGO_TX_SERIALIZER_FULL_RES_ERR_BAD_STATE
      else case ergo_tx_serializer_box_add_registers cx (full_box ub c) m registers_chunk of (r, bc, m1, _) \<Rightarrow>
        check_call_data_is_finished (map_box_result r) (c\<lparr>full_box_ctx := Some bc\<rparr>) m1 output_finished)"

definition ergo_tx_serializer_full_is_finished :: "'m full_ctx \<Rightarrow> bool" where
  "ergo_tx_serializer_full_is_finished c \<longleftrightarrow> full_state c = ERGO_TX_SERIALIZER_FULL_STATE_FINISHED"

definition ergo_tx_serializer_full_set_input_callback ::
    "'m full_ctx \<Rightarrow> 'm input_token_cb option \<Rightarrow> ergo_tx_serializer_full_result_e \<times> 'm full_ctx" where
  "ergo_tx_serializer_full_set_input_callback c cb =
     (if full_state c \<noteq> ERGO_TX_SERIALIZER_FULL_STATE_INPUTS_STARTED
      then (ERGO_TX_SERIALIZER_FULL_RES_ERR_BAD_STATE, c\<lparr>full_state := ERGO_TX_SERIALIZER_FULL_STATE_ERROR\<rparr>)
      else (ERGO_TX_SERIALIZER_FULL_RES_OK,
            c\<lparr>full_input_ctx := ergo_tx_serializer_input_set_callback (full_input_ctx c) cb\<rparr>))"

definition ergo_tx_serializer_full_set_box_callbacks ::
    "('m input_ctx \<Rightarrow> 'm box_ctx) \<Rightarrow> 'm full_ctx \<Rightarrow> 'm box_type_cb option \<Rightarrow> 'm box_token_cb option \<Rightarrow>
     'm box_finished_cb option \<Rightarrow> ergo_tx_serializer_full_result_e \<times> 'm full_ctx" where
  "ergo_tx_serializer_full_set_box_callbacks ub c f g h =
     (if full_state c \<noteq> ERGO_TX_SERIALIZER_FULL_STATE_OUTPUTS_STARTED
      then (ERGO_TX_SERIALIZER_FULL_RES_ERR_BAD_STATE, c\<lparr>full_state := ERGO_TX_SERIALIZER_FULL_STATE_ERROR\<rparr>)
      else (ERGO_TX_SERIALIZER_FULL_RES_OK,
            c\<lparr>full_box_ctx := Some (ergo_tx_serializer_box_set_callbacks (full_box ub c) f g h)\<rparr>))"

end
