(* ===== verification/TxTranscript.thy ===== *)
theory TxTranscript
  imports TxRun
begin

text \<open>
  What the transaction serializer has hashed. The ghost record \<open>tx_acc\<close> collects what the accepted
  operations carried (token ids, inputs with their frames and extension bytes, data inputs, output
  boxes); \<open>full_inv\<close> ties it to the context and to the bytes absorbed by the hash, state by state.
  Every accepted operation keeps it, so a finished transaction has been hashed as \<open>tx_bytes\<close>.
\<close>

record input_rec =
  ir_id :: bytes
  ir_frames :: u8
  ir_size :: u32
  ir_fs :: "(bytes \<times> u8) list"
  ir_ext :: bytes

record box_rec =
  br_value :: u64
  br_height :: u32
  br_count :: u8
  br_regs :: u32
  br_acc :: box_acc
  br_state :: ergo_tx_serializer_box_state_e

record tx_acc =
  ta_tokens :: bytes
  ta_inputs :: "input_rec list"
  ta_data :: bytes
  ta_boxes :: "box_rec list"

definition tx_acc_empty :: tx_acc where
  "tx_acc_empty = \<lparr>ta_tokens = [], ta_inputs = [], ta_data = [], ta_boxes = []\<rparr>"

definition upd_last :: "('a \<Rightarrow> 'a) \<Rightarrow> 'a list \<Rightarrow> 'a list" where
  "upd_last f xs = (if xs = [] then [] else butlast xs @ [f (last xs)])"

lemma upd_last_simps [simp]:
  "xs \<noteq> [] \<Longrightarrow> upd_last f xs \<noteq> []" "xs \<noteq> [] \<Longrightarrow> butlast (upd_last f xs) = butlast xs"
  "xs \<noteq> [] \<Longrightarrow> last (upd_last f xs) = f (last xs)" "length (upd_last f xs) = length xs"
  by (simp_all add: upd_last_def)

fun as_box_op :: "ergo_tx_serializer_table_context_t \<Rightarrow> 'm full_op \<Rightarrow> box_op option" where
  "as_box_op tc (FullBoxTree b) = Some (BoxTree b)"
| "as_box_op tc (FullBoxChange raw) = Some (BoxChangeTree raw)"
| "as_box_op tc (FullBoxFee mainnet) = Some (BoxFeeTree mainnet)"
| "as_box_op tc (FullBoxTokens b) = Some (BoxTokens b (Some tc))"
| "as_box_op tc (FullBoxRegisters b) = Some (BoxRegisters b)"
| "as_box_op tc _ = None"

text \<open>What an accepted operation adds; \<open>c\<close> is the context after it.\<close>

fun tx_acc_op :: "tx_acc \<Rightarrow> 'm full_op \<Rightarrow> 'm full_ctx \<Rightarrow> tx_acc" where
  "tx_acc_op a (FullTokens b) c = a\<lparr>ta_tokens := ta_tokens a @ buffer_data b\<rparr>"
| "tx_acc_op a (FullInput bid fc e) c =
     a\<lparr>ta_inputs := ta_inputs a @ [\<lparr>ir_id = bid, ir_frames = fc, ir_size = e, ir_fs = [], ir_ext = []\<rparr>]\<rparr>"
| "tx_acc_op a (FullInputTokens bid idx b) c =
     a\<lparr>ta_inputs := upd_last (\<lambda>i. i\<lparr>ir_fs := ir_fs i @ [(bid, idx)]\<rparr>) (ta_inputs a)\<rparr>"
| "tx_acc_op a (FullExtension b) c =
     a\<lparr>ta_inputs := upd_last (\<lambda>i. i\<lparr>ir_ext := ir_ext i @ buffer_data b\<rparr>) (ta_inputs a)\<rparr>"
| "tx_acc_op a (FullDataInputs b) c = a\<lparr>ta_data := ta_data a @ buffer_data b\<rparr>"
| "tx_acc_op a (FullBox v ts h n r) c =
     a\<lparr>ta_boxes := ta_boxes a @ [\<lparr>br_value = v, br_height = h, br_count = n, br_regs = r,
        br_acc = \<lparr>acc_tree = [], acc_tokens = [], acc_count = 0, acc_registers = []\<rparr>,
        br_state = ERGO_TX_SERIALIZER_BOX_STATE_INITIALIZED\<rparr>]\<rparr>"
| "tx_acc_op a p c =
     (case as_box_op (full_table_ctx c) p of
        None \<Rightarrow> a
      | Some bp \<Rightarrow> a\<lparr>ta_boxes := upd_last (\<lambda>x. x\<lparr>br_acc := acc_op (br_acc x) bp,
                    br_state := box_state (the (full_box_ctx c))\<rparr>) (ta_boxes a)\<rparr>)"

definition in_bytes :: "input_rec \<Rightarrow> bytes" where
  "in_bytes i = input_bytes (ir_id i) (ir_size i) (ir_ext i)"

definition input_complete :: "input_rec \<Rightarrow> bool" where
  "input_complete i \<longleftrightarrow> length (ir_id i) = 32 \<and> length (ir_ext i) = unat (ir_size i) \<and>
     ir_fs i = map (\<lambda>k. (ir_id i, of_nat k)) [0..<unat (ir_frames i)]"

text \<open>The bytes hashed for a box: its serialization when it is finished, a prefix of it otherwise.\<close>

definition br_bytes :: "box_rec \<Rightarrow> bytes" where
  "br_bytes b =
     (let head = vlq (unat (br_value b)) @ acc_tree (br_acc b);
          mid = head @ vlq (unat (br_height b)) @ [br_count b] @ acc_tokens (br_acc b) in
      case br_state b of
        ERGO_TX_SERIALIZER_BOX_STATE_INITIALIZED \<Rightarrow> head
      | ERGO_TX_SERIALIZER_BOX_STATE_TREE_ADDED \<Rightarrow> mid
      | ERGO_TX_SERIALIZER_BOX_STATE_TOKENS_ADDED \<Rightarrow> mid @ acc_registers (br_acc b)
      | ERGO_TX_SERIALIZER_BOX_STATE_FINISHED \<Rightarrow>
          box_bytes (br_value b) (acc_tree (br_acc b)) (br_height b) (br_count b) (acc_tokens (br_acc b))
            (br_regs b) (acc_registers (br_acc b))
      | _ \<Rightarrow> [])"

definition br_finished :: "box_rec \<Rightarrow> bool" where
  "br_finished b \<longleftrightarrow> br_state b = ERGO_TX_SERIALIZER_BOX_STATE_FINISHED"

text \<open>A finished box received the announced number of tokens and register bytes.\<close>

definition br_ok :: "box_rec \<Rightarrow> bool" where
  "br_ok b \<longleftrightarrow> (br_finished b \<longrightarrow> acc_count (br_acc b) = unat (br_count b) \<and>
     length (acc_registers (br_acc b)) = unat (br_regs b))"

definition box_rec_inv :: "bytes \<Rightarrow> box_rec \<Rightarrow> bytes \<Rightarrow> 'm box_ctx \<Rightarrow> bool" where
  "box_rec_inv base b h c \<longleftrightarrow> br_state b = box_state c \<and>
     box_inv base (br_value b) (br_height b) (br_count b) (br_regs b) (br_acc b) h c"

lemma box_rec_inv_bytes:
  "box_rec_inv base b h c \<Longrightarrow> h = base @ br_bytes b \<and> br_ok b"
  by (auto simp: box_rec_inv_def box_inv_def br_bytes_def br_ok_def br_finished_def Let_def
      split: ergo_tx_serializer_box_state_e.splits)

text \<open>The reference serialization of a transaction without its proofs.\<close>

definition tx_bytes :: "u16 \<Rightarrow> u16 \<Rightarrow> u8 \<Rightarrow> u16 \<Rightarrow> tx_acc \<Rightarrow> bytes" where
  "tx_bytes ni nd nt no a =
     vlq (unat ni) @ concat (map in_bytes (ta_inputs a)) @ vlq (unat nd) @ ta_data a @
     vlq (unat nt) @ ta_tokens a @ vlq (unat no) @ concat (map br_bytes (ta_boxes a))"

subsection \<open>The invariant\<close>

definition table_ok :: "u8 \<Rightarrow> bytes \<Rightarrow> ('h, 'z) ser_mem_scheme \<Rightarrow> bool" where
  "table_ok nt toks m \<longleftrightarrow> token_table_wf (tokens_table m) \<and> unat nt \<le> unat (tt_count (tokens_table m)) \<and>
     concat (take (unat nt) (tt_tokens (tokens_table m))) = toks"

text \<open>
  What is asked of a token callback of an input: it leaves the hash context alone, never answers
  MORE_DATA, and keeps the ids that the table holds (it may append to the table).
\<close>

definition input_cb_ok :: "('h, 'z) ser_mem_scheme input_token_cb option \<Rightarrow> bool" where
  "input_cb_ok cb \<longleftrightarrow> (\<forall>f bid tid v m. cb = Some f \<longrightarrow>
     hash_ctx (snd (f bid tid v m)) = hash_ctx m \<and> fst (f bid tid v m) \<noteq> ERGO_TX_SERIALIZER_INPUT_RES_MORE_DATA \<and>
     (length tid = 32 \<longrightarrow> (\<forall>nt toks. table_ok nt toks m \<longrightarrow> table_ok nt toks (snd (f bid tid v m)))))"

definition tx_head :: "bytes \<Rightarrow> u16 \<Rightarrow> input_rec list \<Rightarrow> bytes" where
  "tx_head base ni ins = base @ vlq (unat ni) @ concat (map in_bytes ins)"

definition tx_mid :: "bytes \<Rightarrow> u16 \<Rightarrow> u16 \<Rightarrow> u8 \<Rightarrow> u16 \<Rightarrow> tx_acc \<Rightarrow> bytes" where
  "tx_mid base ni nd nt no a =
     tx_head base ni (ta_inputs a) @ vlq (unat nd) @ ta_data a @ vlq (unat nt) @ ta_tokens a @ vlq (unat no)"

text \<open>The inputs received so far, the last of them possibly in progress, against the input context.\<close>

definition inputs_inv :: "bytes \<Rightarrow> u16 \<Rightarrow> input_rec list \<Rightarrow> bytes \<Rightarrow> ('h, 'z) ser_mem_scheme input_ctx \<Rightarrow> bool" where
  "inputs_inv base ni ins h ic \<longleftrightarrow> input_cb_ok (on_token_cb ic) \<and>
     (if ins = [] then ergo_tx_serializer_input_is_finished ic \<and> h = base @ vlq (unat ni)
      else list_all input_complete (butlast ins) \<and>
        input_inv (tx_head base ni (butlast ins)) (ir_id (last ins)) (ir_frames (last ins)) (ir_size (last ins))
          (ir_fs (last ins)) (ir_ext (last ins)) h ic)"

definition full_inv ::
    "bytes \<Rightarrow> u16 \<Rightarrow> u16 \<Rightarrow> u8 \<Rightarrow> u16 \<Rightarrow> tx_acc \<Rightarrow> bytes \<Rightarrow> ('h, 'z) ser_mem_scheme full_ctx \<Rightarrow> ('h, 'z) ser_mem_scheme \<Rightarrow> bool" where
  "full_inv base ni nd nt no a h c m \<longleftrightarrow> distinct_tokens_count (full_table_ctx c) = nt \<and> unat nt \<le> 100 \<and>
     (case full_state c of
        ERGO_TX_SERIALIZER_FULL_STATE_TOKENS_STARTED \<Rightarrow>
          full_inputs_count c = ni \<and> ni \<noteq> 0 \<and> full_data_inputs_count c = nd \<and> full_outputs_count c = no \<and> no \<noteq> 0 \<and>
          full_box_ctx c = None \<and> on_token_cb (full_input_ctx c) = None \<and>
          token_table_wf (tokens_table m) \<and> length (table_ids (tokens_table m)) \<le> unat nt \<and>
          concat (table_ids (tokens_table m)) = ta_tokens a \<and>
          ta_inputs a = [] \<and> ta_data a = [] \<and> ta_boxes a = [] \<and> h = base @ vlq (unat ni)
      | ERGO_TX_SERIALIZER_FULL_STATE_INPUTS_STARTED \<Rightarrow>
          full_data_inputs_count c = nd \<and> full_outputs_count c = no \<and> no \<noteq> 0 \<and> full_box_ctx c = None \<and>
          table_ok nt (ta_tokens a) m \<and> inputs_inv base ni (ta_inputs a) h (full_input_ctx c) \<and>
          full_inputs_count c \<noteq> 0 \<and>
          unat (full_inputs_count c) + length (ta_inputs a) =
            unat ni + (if ergo_tx_serializer_input_is_finished (full_input_ctx c) then 0 else 1) \<and>
          ta_data a = [] \<and> ta_boxes a = []
      | ERGO_TX_SERIALIZER_FULL_STATE_DATA_INPUTS_STARTED \<Rightarrow>
          full_outputs_count c = no \<and> no \<noteq> 0 \<and> full_box_ctx c = None \<and> table_ok nt (ta_tokens a) m \<and>
          list_all input_complete (ta_inputs a) \<and> length (ta_inputs a) = unat ni \<and>
          full_data_inputs_count c \<noteq> 0 \<and> 32 * unat (full_data_inputs_count c) + length (ta_data a) = 32 * unat nd \<and>
          ta_boxes a = [] \<and> h = tx_head base ni (ta_inputs a) @ vlq (unat nd) @ ta_data a
      | ERGO_TX_SERIALIZER_FULL_STATE_OUTPUTS_STARTED \<Rightarrow>
          list_all input_complete (ta_inputs a) \<and> length (ta_inputs a) = unat ni \<and>
          length (ta_data a) = 32 * unat nd \<and> length (ta_tokens a) = 32 * unat nt \<and>
          full_outputs_count c \<noteq> 0 \<and>
          unat (full_outputs_count c) + length (filter br_finished (ta_boxes a)) = unat no \<and>
          (if ta_boxes a = [] then full_box_ctx c = None \<and> h = tx_mid base ni nd nt no a
           else list_all br_ok (butlast (ta_boxes a)) \<and>
             (\<exists>bc. full_box_ctx c = Some bc \<and> box_cbs_frame bc \<and>
                box_rec_inv (tx_mid base ni nd nt no a @ concat (map br_bytes (butlast (ta_boxes a))))
                  (last (ta_boxes a)) h bc))
      | ERGO_TX_SERIALIZER_FULL_STATE_FINISHED \<Rightarrow>
          list_all input_complete (ta_inputs a) \<and> length (ta_inputs a) = unat ni \<and>
          length (ta_data a) = 32 * unat nd \<and> length (ta_tokens a) = 32 * unat nt \<and>
          list_all br_ok (ta_boxes a) \<and> length (filter br_finished (ta_boxes a)) = unat no \<and>
          h = tx_mid base ni nd nt no a @ concat (map br_bytes (ta_boxes a))
      | ERGO_TX_SERIALIZER_FULL_STATE_ERROR \<Rightarrow> False)"

subsection \<open>Helpers of the serializer\<close>

lemma full_res_error_ok [simp]: "full_res_error c m e = (r, c', m') \<longleftrightarrow> r = e \<and> c' = c\<lparr>full_state := ERGO_TX_SERIALIZER_FULL_STATE_ERROR\<rparr> \<and> m' = m"
  by (auto simp: full_res_error_def)

lemma not_full_res_ok [simp]:
  "\<not> full_res_ok ERGO_TX_SERIALIZER_FULL_RES_ERR_HASHER" "\<not> full_res_ok ERGO_TX_SERIALIZER_FULL_RES_ERR_BAD_STATE"
  "\<not> full_res_ok ERGO_TX_SERIALIZER_FULL_RES_ERR_TOO_MANY_INPUTS" "\<not> full_res_ok ERGO_TX_SERIALIZER_FULL_RES_ERR_TOO_MANY_OUTPUTS"
  "\<not> full_res_ok ERGO_TX_SERIALIZER_FULL_RES_ERR_TOO_MANY_DATA_INPUTS" "\<not> full_res_ok ERGO_TX_SERIALIZER_FULL_RES_ERR_BAD_DATA_INPUT"
  "\<not> full_res_ok ERGO_TX_SERIALIZER_FULL_RES_ERR_BAD_CONTEXT_EXTENSION_SIZE"
  "\<not> full_res_ok ERGO_TX_SERIALIZER_FULL_RES_ERR_BAD_INPUT_COUNT" "\<not> full_res_ok ERGO_TX_SERIALIZER_FULL_RES_ERR_BAD_OUTPUT_COUNT"
  by (simp_all add: full_res_ok_def)

lemma hash_u16_True:
  "hash_u16 cx m v = (True, m') \<longleftrightarrow> (\<exists>h. hash_absorb cx (hash_ctx m) (vlq (unat v)) h \<and> m' = m\<lparr>hash_ctx := h\<rparr>)"
proof -
  obtain b where "gve_put_u16 (rw_buffer_new_local_empty 4) v = (GVE_OK, b)"
    "take (unat (rw_buffer_data_len b)) (rw_buffer_read_ptr b) = vlq (unat v)"
    using local_u16 [of 4 v] by auto
  then show ?thesis by (simp add: hash_u16_def mem_update_True)
qed

lemma hash_absorbD: "cx_absorbs cx ab \<Longrightarrow> hash_absorb cx h d h' \<Longrightarrow> ab h' = ab h @ d"
  by (simp add: cx_absorbs_def)

lemma check_call_ok:
  assumes "check_call_data_is_finished res c m block = (r, c', m')" and "full_res_ok r"
  shows "res = ERGO_TX_SERIALIZER_FULL_RES_OK \<and> block c m = (r, c', m') \<or>
     res = ERGO_TX_SERIALIZER_FULL_RES_MORE_DATA \<and> c' = c \<and> m' = m"
  using assms by (auto simp: check_call_data_is_finished_def full_res_ok_def split: if_splits)

lemma map_table_result_simps [simp]:
  "map_table_result r = ERGO_TX_SERIALIZER_FULL_RES_OK \<longleftrightarrow> r = ERGO_TX_SERIALIZER_TABLE_RES_OK"
  "map_table_result r = ERGO_TX_SERIALIZER_FULL_RES_MORE_DATA \<longleftrightarrow> r = ERGO_TX_SERIALIZER_TABLE_RES_MORE_DATA"
  by (cases r; simp)+

lemma map_input_result_simps [simp]:
  "map_input_result r = ERGO_TX_SERIALIZER_FULL_RES_OK \<longleftrightarrow> r = ERGO_TX_SERIALIZER_INPUT_RES_OK"
  "map_input_result r = ERGO_TX_SERIALIZER_FULL_RES_MORE_DATA \<longleftrightarrow> r = ERGO_TX_SERIALIZER_INPUT_RES_MORE_DATA"
  by (cases r; simp)+

lemma map_box_result_simps [simp]:
  "map_box_result r = ERGO_TX_SERIALIZER_FULL_RES_OK \<longleftrightarrow> r = ERGO_TX_SERIALIZER_BOX_RES_OK"
  "map_box_result r = ERGO_TX_SERIALIZER_FULL_RES_MORE_DATA \<longleftrightarrow> r = ERGO_TX_SERIALIZER_BOX_RES_MORE_DATA"
  by (cases r; simp)+

lemma table_hash_no_more: "ergo_tx_serializer_table_hash cx ctx t h \<noteq> (ERGO_TX_SERIALIZER_TABLE_RES_MORE_DATA, h')"
proof -
  have "fst (table_hash_loop cx n tokens i h) \<noteq> ERGO_TX_SERIALIZER_TABLE_RES_MORE_DATA" for n tokens i h
    by (induction cx n tokens i h rule: table_hash_loop.induct)
      (subst table_hash_loop.simps, simp split: prod.splits)
  then show ?thesis
    by (auto simp: ergo_tx_serializer_table_hash_def split: prod.splits) (metis fst_conv)
qed

lemma table_ok_length: "table_ok nt toks m \<Longrightarrow> length toks = 32 * unat nt"
proof -
  assume t: "table_ok nt toks m"
  let ?ids = "take (unat nt) (tt_tokens (tokens_table m))"
  have "\<forall>x \<in> set ?ids. length x = 32" "length ?ids = unat nt"
    using t by (auto simp: table_ok_def token_table_wf_def dest: in_set_takeD)
  then have "length (concat ?ids) = 32 * unat nt" by (simp add: length_concat map_idI sum_list_triv cong: map_cong)
  then show ?thesis using t by (simp add: table_ok_def)
qed

lemma data_inputs_finished_inv:
  assumes "cx_absorbs cx ab" and "data_inputs_finished cx c m = (r, c', m')" and "full_res_ok r"
    and "distinct_tokens_count (full_table_ctx c) = nt" "unat nt \<le> 100" "full_outputs_count c = no" "no \<noteq> 0"
      "full_box_ctx c = None" "table_ok nt (ta_tokens a) m" "list_all input_complete (ta_inputs a)"
      "length (ta_inputs a) = unat ni" "length (ta_data a) = 32 * unat nd" "ta_boxes a = []"
      "ab (hash_ctx m) = tx_head base ni (ta_inputs a) @ vlq (unat nd) @ ta_data a"
  shows "full_inv base ni nd nt no a (ab (hash_ctx m')) c' m'"
proof -
  obtain tr h where th: "ergo_tx_serializer_table_hash cx (full_table_ctx c) (tokens_table m) (hash_ctx m) = (tr, h)" by fastforce
  have "tr = ERGO_TX_SERIALIZER_TABLE_RES_OK"
    using assms(2,3) th table_hash_no_more [of cx "full_table_ctx c" "tokens_table m" "hash_ctx m" h]
    by (auto simp: data_inputs_finished_def Let_def full_res_error_def split: if_splits)
  note th = th [unfolded this]
  have "fst (hash_u16 cx (m\<lparr>hash_ctx := h\<rparr>) no)"
    using assms(2,3,6) th by (auto simp: data_inputs_finished_def Let_def full_res_error_def split: if_splits prod.splits)
  then obtain m2 where u: "hash_u16 cx (m\<lparr>hash_ctx := h\<rparr>) no = (True, m2)" by (metis prod.collapse)
  have out: "m' = m2" "c' = c\<lparr>full_state := ERGO_TX_SERIALIZER_FULL_STATE_OUTPUTS_STARTED\<rparr>"
    using assms(2,6) th u by (auto simp: data_inputs_finished_def)
  have wf: "token_table_wf (tokens_table m)" using assms(9) by (simp add: table_ok_def)
  have "ab h = ab (hash_ctx m) @ vlq (unat nt) @ ta_tokens a"
    using hash_trace_absorbs [OF assms(1) table_hash_trace [OF wf _ th]] assms(4,5,9) by (simp add: table_ok_def)
  moreover obtain h2 where "m2 = m\<lparr>hash_ctx := h2\<rparr>" "ab h2 = ab h @ vlq (unat no)"
    using u assms(1) by (auto simp: hash_u16_True dest: hash_absorbD)
  ultimately show ?thesis
    using assms table_ok_length [OF assms(9)] by (simp add: full_inv_def out tx_mid_def)
qed

text \<open>An input that is finished is complete and hashed as a whole.\<close>

lemma inputs_inv_finished:
  assumes "inputs_inv base ni ins h ic" and "ergo_tx_serializer_input_is_finished ic"
  shows "list_all input_complete ins" and "h = tx_head base ni ins"
proof -
  have "list_all input_complete ins \<and> h = tx_head base ni ins"
  proof (cases "ins = []")
    case True
    then show ?thesis using assms by (simp add: inputs_inv_def tx_head_def)
  next
    case False
    then have "ins = butlast ins @ [last ins]" by simp
    then obtain xs x where ins: "ins = xs @ [x]" by blast
    have i: "input_inv (tx_head base ni xs) (ir_id x) (ir_frames x) (ir_size x) (ir_fs x) (ir_ext x) h ic"
      "list_all input_complete xs" using assms(1) by (simp_all add: inputs_inv_def ins)
    then have "input_complete x" "h = tx_head base ni xs @ in_bytes x"
      using assms(2) by (auto simp: input_inv_def input_complete_def in_bytes_def ergo_tx_serializer_input_is_finished_def)
    then show ?thesis using i by (simp add: ins tx_head_def)
  qed
  then show "list_all input_complete ins" "h = tx_head base ni ins" by simp_all
qed

lemma input_finished_inv:
  assumes "cx_absorbs cx ab" and "input_finished cx c m = (r, c', m')" and "full_res_ok r"
    and "distinct_tokens_count (full_table_ctx c) = nt" "unat nt \<le> 100" "full_outputs_count c = no" "no \<noteq> 0"
      "full_box_ctx c = None" "table_ok nt (ta_tokens a) m" "full_data_inputs_count c = nd"
      "full_inputs_count c \<noteq> 0" "unat (full_inputs_count c) + length (ta_inputs a) = unat ni + 1"
      "inputs_inv base ni (ta_inputs a) (ab (hash_ctx m)) (full_input_ctx c)"
      "ergo_tx_serializer_input_is_finished (full_input_ctx c)" "ta_data a = []" "ta_boxes a = []"
      "full_state c = ERGO_TX_SERIALIZER_FULL_STATE_INPUTS_STARTED"
  shows "full_inv base ni nd nt no a (ab (hash_ctx m')) c' m'"
proof -
  note fin = inputs_inv_finished [OF assms(13,14)]
  have n: "unat (full_inputs_count c - 1) = unat (full_inputs_count c) - 1" using assms(11) by (rule unat_minus_one)
  define c1 where "c1 = c\<lparr>full_inputs_count := full_inputs_count c - 1\<rparr>"
  show ?thesis
  proof (cases "full_inputs_count c - 1 = 0")
    case False
    then have "c' = c1" "m' = m" using assms(2) by (simp_all add: input_finished_def c1_def)
    moreover have "unat (full_inputs_count c) \<noteq> 0" using assms(11) by (simp add: unat_eq_zero)
    ultimately show ?thesis using assms False n by (auto simp: full_inv_def c1_def)
  next
    case True
    have len: "length (ta_inputs a) = unat ni"
      using assms(12) True n assms(11) by (simp add: unat_eq_zero)
    have "fst (hash_u16 cx m nd)"
      using assms(2,3,10) True by (auto simp: input_finished_def Let_def full_res_error_def split: if_splits prod.splits)
    then obtain m1 where u: "hash_u16 cx m nd = (True, m1)" by (metis prod.collapse)
    then obtain h1 where h1: "m1 = m\<lparr>hash_ctx := h1\<rparr>" "ab h1 = ab (hash_ctx m) @ vlq (unat nd)"
      using assms(1) by (auto simp: hash_u16_True dest: hash_absorbD)
    define c2 where "c2 = c1\<lparr>full_state := ERGO_TX_SERIALIZER_FULL_STATE_DATA_INPUTS_STARTED\<rparr>"
    have out: "(if nd = 0 then data_inputs_finished cx c2 m1 else (ERGO_TX_SERIALIZER_FULL_RES_OK, c2, m1)) = (r, c', m')"
      using assms(2,10) True u by (simp add: input_finished_def Let_def c2_def c1_def split: if_splits)
    show ?thesis
    proof (cases "nd = 0")
      case True
      then have d: "data_inputs_finished cx c2 m1 = (r, c', m')" using out by simp
      show ?thesis
        by (rule data_inputs_finished_inv [OF assms(1) d assms(3)])
          (use assms fin h1 len True in \<open>simp_all add: c2_def c1_def table_ok_def\<close>)
    next
      case False
      then have "c' = c2" "m' = m1" using out by simp_all
      then show ?thesis using assms fin h1 len False by (simp add: full_inv_def c2_def c1_def table_ok_def)
    qed
  qed
qed

subsection \<open>Token ids and inputs\<close>

lemma table_ok_ids:
  assumes "token_table_wf (tokens_table m)" and "length (table_ids (tokens_table m)) = unat nt"
  shows "table_ok nt (concat (table_ids (tokens_table m))) m"
  using assms length_table_ids [OF assms(1)] by (simp add: table_ok_def table_ids_def)

lemma full_step_tokens:
  assumes "full_inv base ni nd nt no a (ab (hash_ctx m)) c m" and "ergo_tx_serializer_full_add_tokens c m b = (r, c', m')"
    and "full_res_ok r" and "buffer_wf b"
  shows "full_inv base ni nd nt no (a\<lparr>ta_tokens := ta_tokens a @ buffer_data b\<rparr>) (ab (hash_ctx m')) c' m'"
proof -
  obtain tr t b' where ta: "ergo_tx_serializer_table_add (full_table_ctx c) (tokens_table m) b = (tr, t, b')"
    by (metis prod_cases3)
  have st: "full_state c = ERGO_TX_SERIALIZER_FULL_STATE_TOKENS_STARTED"
    using assms(2,3) by (auto simp: ergo_tx_serializer_full_add_tokens_def split: if_splits)
  define c1 where "c1 = c\<lparr>full_state := ERGO_TX_SERIALIZER_FULL_STATE_INPUTS_STARTED,
     full_input_ctx := (full_input_ctx c)\<lparr>input_state := ERGO_TX_SERIALIZER_INPUT_STATE_FINISHED\<rparr>\<rparr>"
  have out: "tr = ERGO_TX_SERIALIZER_TABLE_RES_OK \<and> c' = c1 \<or> tr = ERGO_TX_SERIALIZER_TABLE_RES_MORE_DATA \<and> c' = c"
    "m' = m\<lparr>tokens_table := t\<rparr>"
    using assms(2,3) st ta
    by (auto simp: ergo_tx_serializer_full_add_tokens_def c1_def dest!: check_call_ok)
  note i = assms(1) [unfolded full_inv_def st]
  have spec: "token_table_wf t \<and> table_ids t = table_ids (tokens_table m) @ chunks 32 (buffer_data b) \<and>
     length (buffer_data b) mod 32 = 0 \<and>
     length (table_ids t) \<le> unat nt \<and> (tr = ERGO_TX_SERIALIZER_TABLE_RES_OK \<longrightarrow> length (table_ids t) = unat nt)"
    using table_add_spec [OF _ assms(4) _ _ ta] i out(1) by (auto simp: length_chunks split: if_splits)
  then have "concat (table_ids t) = ta_tokens a @ buffer_data b"
    using i by (simp add: concat_chunks)
  then show ?thesis
    using out spec i st table_ok_ids [of m' nt]
    by (auto simp: full_inv_def c1_def inputs_inv_def input_cb_ok_def ergo_tx_serializer_input_is_finished_def)
qed

lemma full_step_input:
  assumes "full_inv base ni nd nt no a (ab (hash_ctx m)) c m"
    and "ergo_tx_serializer_full_add_input c m bid fc e = (r, c', m')" and "full_res_ok r" and "length bid = 32"
  shows "full_inv base ni nd nt no
     (a\<lparr>ta_inputs := ta_inputs a @ [\<lparr>ir_id = bid, ir_frames = fc, ir_size = e, ir_fs = [], ir_ext = []\<rparr>]\<rparr>)
     (ab (hash_ctx m')) c' m'"
proof -
  have st: "full_state c = ERGO_TX_SERIALIZER_FULL_STATE_INPUTS_STARTED"
    "ergo_tx_serializer_input_is_finished (full_input_ctx c)" "full_inputs_count c \<noteq> 0"
    using assms(2,3) by (auto simp: ergo_tx_serializer_full_add_input_def split: if_splits)
  define ic :: "('a, 'b) ser_mem_scheme input_ctx" where "ic = snd (ergo_tx_serializer_input_init bid fc e)"
  have out: "m' = m" "c' = c\<lparr>full_input_ctx := ic, full_box_ctx := None\<rparr>"
    "fst (ergo_tx_serializer_input_init bid fc e) = ERGO_TX_SERIALIZER_INPUT_RES_OK"
    using assms(2,3) st
    by (auto simp: ergo_tx_serializer_full_add_input_def ergo_tx_serializer_input_init_def Let_def ic_def input_res_ok_def
        full_res_error_def split: if_splits)
  have ic: "input_inv h bid fc e [] [] h ic" "on_token_cb ic = None" "\<not> ergo_tx_serializer_input_is_finished ic" for h
    using out(3) assms(4) by (auto simp: input_inv_def ic_def ergo_tx_serializer_input_init_def Let_def input_ctx_zero_def
        ergo_tx_serializer_input_is_finished_def split: if_splits)
  note i = assms(1) [unfolded full_inv_def st(1)]
  have "inputs_inv base ni (ta_inputs a) (ab (hash_ctx m)) (full_input_ctx c)" using i by simp
  note fin = inputs_inv_finished [OF this st(2)]
  show ?thesis
    using i st out ic fin by (simp add: full_inv_def inputs_inv_def input_cb_ok_def)
qed

lemma input_inv_callback [simp]:
  "input_inv base bid fc e fs ext h (ic\<lparr>on_token_cb := cb\<rparr>) \<longleftrightarrow> input_inv base bid fc e fs ext h ic"
  "ergo_tx_serializer_input_is_finished (ic\<lparr>on_token_cb := cb\<rparr>) \<longleftrightarrow> ergo_tx_serializer_input_is_finished ic"
  by (cases "input_state ic"; simp add: input_inv_def) (simp add: ergo_tx_serializer_input_is_finished_def)

lemma full_step_input_callback:
  assumes "full_inv base ni nd nt no a (ab (hash_ctx m)) c m"
    and "ergo_tx_serializer_full_set_input_callback c cb = (r, c')" and "full_res_ok r" and "input_cb_ok cb"
  shows "full_inv base ni nd nt no a (ab (hash_ctx m)) c' m"
proof -
  have st: "full_state c = ERGO_TX_SERIALIZER_FULL_STATE_INPUTS_STARTED"
    "c' = c\<lparr>full_input_ctx := (full_input_ctx c)\<lparr>on_token_cb := cb\<rparr>\<rparr>"
    using assms(2,3) by (auto simp: ergo_tx_serializer_full_set_input_callback_def
        ergo_tx_serializer_input_set_callback_def split: if_splits)
  show ?thesis
    using assms(1,4) st by (simp add: full_inv_def inputs_inv_def split: if_splits)
qed

text \<open>The callbacks of a frame keep the ids that are in the table.\<close>

lemma length_frame_token: "tv \<in> set (frame_tokens d) \<Longrightarrow> length (fst tv) = 32"
proof -
  have "e \<in> set (chunks 40 d) \<Longrightarrow> length e = 40" for e
    by (induction "40::nat" d rule: chunks.induct) (subst (asm) (2) chunks.simps, auto split: if_splits)
  then show "tv \<in> set (frame_tokens d) \<Longrightarrow> length (fst tv) = 32" by (auto simp: frame_tokens_def)
qed

lemma deliver_table_ok:
  assumes "input_cb_ok (on_token_cb c)" and "accumulate (deliver_token c) m tvs = Some m'"
    and "\<forall>tv \<in> set tvs. length (fst tv) = 32" and "table_ok nt toks m"
  shows "table_ok nt toks m'"
  using assms(2-)
proof (induction tvs arbitrary: m)
  case (Cons tv tvs)
  then obtain m1 where m1: "deliver_token c m tv = Some m1" "accumulate (deliver_token c) m1 tvs = Some m'"
    by (auto split: option.splits)
  have "table_ok nt toks m1"
  proof (cases "on_token_cb c")
    case None
    then show ?thesis using m1(1) Cons.prems(3) by (simp add: deliver_token_def)
  next
    case (Some f)
    then have "m1 = snd (f (input_box_id c) (fst tv) (snd tv) m)"
      using m1(1) by (auto simp: deliver_token_def split: prod.splits if_splits)
    then show ?thesis using assms(1) Some Cons.prems(2,3) by (simp add: input_cb_ok_def)
  qed
  with Cons.IH [OF m1(2)] Cons.prems(2) show ?case by simp
qed simp

text \<open>What the transaction needs to know of an accepted operation on the input.\<close>

lemma add_tokens_table_ok:
  assumes "ergo_tx_serializer_input_add_tokens cx c m bid idx b = (r, c', m')" and "input_res_ok r"
    and "buffer_wf b" and "length bid = 32" and "length (input_box_id c) = 32" and "input_cb_ok (on_token_cb c)"
    and "table_ok nt toks m"
  shows "table_ok nt toks m' \<and> \<not> ergo_tx_serializer_input_is_finished c \<and>
     (r = ERGO_TX_SERIALIZER_INPUT_RES_MORE_DATA \<longrightarrow> \<not> ergo_tx_serializer_input_is_finished c')"
proof -
  have "input_cb_no_more c" using assms(6) by (auto simp: input_cb_ok_def input_cb_no_more_def)
  from input_add_tokens_trace [OF assms(1-5) this] obtain m1 where
    st: "input_state c = ERGO_TX_SERIALIZER_INPUT_STATE_FRAMES_STARTED"
    and d: "accumulate (deliver_token c) m (frame_tokens (buffer_data b)) = Some m1"
    and fin: "input_frames_done cx (c\<lparr>frames_processed := frames_processed c + 1\<rparr>) m1 bid = (r, c', m') \<or>
       r = ERGO_TX_SERIALIZER_INPUT_RES_MORE_DATA \<and> c' = c\<lparr>frames_processed := frames_processed c + 1\<rparr> \<and> m' = m1"
    by (auto split: if_splits)
  have "table_ok nt toks m1"
    using deliver_table_ok [OF assms(6) d _ assms(7)] length_frame_token by blast
  then show ?thesis
    using fin st input_frames_done_trace [OF _ assms(2,4)]
    by (auto simp: table_ok_def ergo_tx_serializer_input_is_finished_def dest!: input_frames_done_trace [OF _ assms(2,4)])
qed

lemma inputs_inv_last:
  assumes "inputs_inv base ni ins h ic" and "\<not> ergo_tx_serializer_input_is_finished ic"
  shows "ins \<noteq> []" and "list_all input_complete (butlast ins)" and "input_cb_ok (on_token_cb ic)"
    and "input_inv (tx_head base ni (butlast ins)) (ir_id (last ins)) (ir_frames (last ins)) (ir_size (last ins))
          (ir_fs (last ins)) (ir_ext (last ins)) h ic"
  using assms by (auto simp: inputs_inv_def split: if_splits)

text \<open>Both operations on an input continue the input or finish it.\<close>

lemma full_step_input_op:
  assumes "cx_absorbs cx ab" and "full_inv base ni nd nt no a (ab (hash_ctx m)) c m"
    and "full_state c = ERGO_TX_SERIALIZER_FULL_STATE_INPUTS_STARTED"
    and "\<not> ergo_tx_serializer_input_is_finished (full_input_ctx c)" and "table_ok nt (ta_tokens a) m1"
    and "if ergo_tx_serializer_input_is_finished ic then input_finished cx (c\<lparr>full_input_ctx := ic\<rparr>) m1 = (r, c', m')
         else c' = c\<lparr>full_input_ctx := ic\<rparr> \<and> m' = m1" and "full_res_ok r"
    and "input_inv (tx_head base ni (butlast (ta_inputs a))) (ir_id x) (ir_frames x) (ir_size x) (ir_fs x) (ir_ext x)
          (ab (hash_ctx m1)) ic"
    and "on_token_cb ic = on_token_cb (full_input_ctx c)"
  shows "full_inv base ni nd nt no (a\<lparr>ta_inputs := butlast (ta_inputs a) @ [x]\<rparr>) (ab (hash_ctx m')) c' m'"
proof -
  note i = assms(2) [unfolded full_inv_def assms(3)]
  have "inputs_inv base ni (ta_inputs a) (ab (hash_ctx m)) (full_input_ctx c)" using i by simp
  note l = inputs_inv_last [OF this assms(4)]
  then have ne: "length (butlast (ta_inputs a)) + 1 = length (ta_inputs a)" by (cases "ta_inputs a" rule: rev_cases) auto
  let ?a = "a\<lparr>ta_inputs := butlast (ta_inputs a) @ [x]\<rparr>"
  have inv: "inputs_inv base ni (ta_inputs ?a) (ab (hash_ctx m1)) ic"
    using l assms(8,9) by (simp add: inputs_inv_def)
  show ?thesis
  proof (cases "ergo_tx_serializer_input_is_finished ic")
    case True
    then have f: "input_finished cx (c\<lparr>full_input_ctx := ic\<rparr>) m1 = (r, c', m')" using assms(6) by simp
    show ?thesis
      by (rule input_finished_inv [OF assms(1) f assms(7)]) (use i True inv assms(3,4,5) ne in simp_all)
  next
    case False
    then show ?thesis using i assms inv ne by (simp add: full_inv_def)
  qed
qed

lemma upd_last_snoc: "xs \<noteq> [] \<Longrightarrow> upd_last f xs = butlast xs @ [f (last xs)]"
  by (simp add: upd_last_def)

lemma full_step_input_tokens:
  assumes "cx_absorbs cx ab" and "full_inv base ni nd nt no a (ab (hash_ctx m)) c m"
    and "ergo_tx_serializer_full_add_input_tokens cx c m bid idx b = (r, c', m')" and "full_res_ok r"
    and "buffer_wf b" and "length bid = 32"
  shows "full_inv base ni nd nt no (a\<lparr>ta_inputs := upd_last (\<lambda>i. i\<lparr>ir_fs := ir_fs i @ [(bid, idx)]\<rparr>) (ta_inputs a)\<rparr>)
     (ab (hash_ctx m')) c' m'"
proof -
  obtain ir ic m1 where t: "ergo_tx_serializer_input_add_tokens cx (full_input_ctx c) m bid idx b = (ir, ic, m1)"
    by (metis prod_cases3)
  have st: "full_state c = ERGO_TX_SERIALIZER_FULL_STATE_INPUTS_STARTED"
    using assms(3,4) by (auto simp: ergo_tx_serializer_full_add_input_tokens_def split: if_splits)
  have out: "ir = ERGO_TX_SERIALIZER_INPUT_RES_OK \<and>
       (if ergo_tx_serializer_input_is_finished ic then input_finished cx (c\<lparr>full_input_ctx := ic\<rparr>) m1
        else (ERGO_TX_SERIALIZER_FULL_RES_OK, c\<lparr>full_input_ctx := ic\<rparr>, m1)) = (r, c', m') \<or>
     ir = ERGO_TX_SERIALIZER_INPUT_RES_MORE_DATA \<and> c' = c\<lparr>full_input_ctx := ic\<rparr> \<and> m' = m1"
    using assms(3,4) st t by (auto simp: ergo_tx_serializer_full_add_input_tokens_def dest!: check_call_ok)
  then have ok: "input_res_ok ir" by auto
  note i = assms(2) [unfolded full_inv_def st]
  have inv: "inputs_inv base ni (ta_inputs a) (ab (hash_ctx m)) (full_input_ctx c)" "table_ok nt (ta_tokens a) m"
    using i by simp_all
  have nf: "\<not> ergo_tx_serializer_input_is_finished (full_input_ctx c)"
    using t ok by (auto simp: ergo_tx_serializer_input_add_tokens_def ergo_tx_serializer_input_is_finished_def)
  note l = inputs_inv_last [OF inv(1) nf]
  have len: "length (input_box_id (full_input_ctx c)) = 32" using l(4) by (simp add: input_inv_def)
  note ex = add_tokens_table_ok [OF t ok assms(5,6) len l(3) inv(2)]
  have cb: "input_cb_frame (full_input_ctx c)" "input_cb_no_more (full_input_ctx c)"
    using l(3) by (auto simp: input_cb_ok_def input_cb_frame_def input_cb_no_more_def)
  note n = input_exec_inv_tokens [OF assms(1) l(4) t ok assms(5,6) cb]
  have step: "if ergo_tx_serializer_input_is_finished ic then input_finished cx (c\<lparr>full_input_ctx := ic\<rparr>) m1 = (r, c', m')
       else c' = c\<lparr>full_input_ctx := ic\<rparr> \<and> m' = m1" using out ex by (auto split: if_splits)
  show ?thesis
    unfolding upd_last_snoc [OF l(1)]
    by (rule full_step_input_op [OF assms(1,2) st nf conjunct1 [OF ex] step assms(4)]) (use n in simp_all)
qed

lemma full_step_extension:
  assumes "cx_absorbs cx ab" and "full_inv base ni nd nt no a (ab (hash_ctx m)) c m"
    and "ergo_tx_serializer_full_add_input_context_extension cx c m b = (r, c', m')" and "full_res_ok r" and "buffer_wf b"
  shows "full_inv base ni nd nt no (a\<lparr>ta_inputs := upd_last (\<lambda>i. i\<lparr>ir_ext := ir_ext i @ buffer_data b\<rparr>) (ta_inputs a)\<rparr>)
     (ab (hash_ctx m')) c' m'"
proof -
  obtain ir ic m1 where t: "ergo_tx_serializer_input_add_context_extension cx (full_input_ctx c) m b = (ir, ic, m1)"
    by (metis prod_cases3)
  have st: "full_state c = ERGO_TX_SERIALIZER_FULL_STATE_INPUTS_STARTED"
    using assms(3,4) by (auto simp: ergo_tx_serializer_full_add_input_context_extension_def split: if_splits)
  have out: "ir = ERGO_TX_SERIALIZER_INPUT_RES_OK \<and> input_finished cx (c\<lparr>full_input_ctx := ic\<rparr>) m1 = (r, c', m') \<or>
     ir = ERGO_TX_SERIALIZER_INPUT_RES_MORE_DATA \<and> c' = c\<lparr>full_input_ctx := ic\<rparr> \<and> m' = m1"
    using assms(3,4) st t by (auto simp: ergo_tx_serializer_full_add_input_context_extension_def dest!: check_call_ok)
  then have ok: "input_res_ok ir" by auto
  from input_add_extension_trace [OF t ok assms(5)] have
    nf: "\<not> ergo_tx_serializer_input_is_finished (full_input_ctx c)" and tm: "tokens_table m1 = tokens_table m"
    and fin: "ergo_tx_serializer_input_is_finished ic \<longleftrightarrow> ir = ERGO_TX_SERIALIZER_INPUT_RES_OK"
    by (auto simp: ergo_tx_serializer_input_is_finished_def split: if_splits)
  note i = assms(2) [unfolded full_inv_def st]
  have inv: "inputs_inv base ni (ta_inputs a) (ab (hash_ctx m)) (full_input_ctx c)" "table_ok nt (ta_tokens a) m1"
    using i tm by (simp_all add: table_ok_def)
  note l = inputs_inv_last [OF inv(1) nf]
  note n = input_exec_inv_extension [OF assms(1) l(4) t ok assms(5)]
  have step: "if ergo_tx_serializer_input_is_finished ic then input_finished cx (c\<lparr>full_input_ctx := ic\<rparr>) m1 = (r, c', m')
       else c' = c\<lparr>full_input_ctx := ic\<rparr> \<and> m' = m1" using out fin by (auto split: if_splits)
  show ?thesis
    unfolding upd_last_snoc [OF l(1)]
    by (rule full_step_input_op [OF assms(1,2) st nf inv(2) step assms(4)]) (use n in simp_all)
qed

subsection \<open>Data inputs\<close>

lemma data_inputs_loop_not_ok: "data_inputs_loop cx c m b = Inl (r, c', m') \<Longrightarrow> \<not> full_res_ok r"
proof (induction cx c m b rule: data_inputs_loop.induct)
  case (1 cx c m b)
  from "1.prems" show ?case
    unfolding data_inputs_loop.simps [of cx c m b]
    by (auto dest: "1.IH" split: if_splits option.splits prod.splits)
qed

lemma data_inputs_loop_Inr:
  assumes "data_inputs_loop cx c m b = Inr (c', m')" and "buffer_wf b" and "cx_absorbs cx ab"
  shows "length (buffer_data b) = 32 * (unat (full_data_inputs_count c) - unat (full_data_inputs_count c')) \<and>
     unat (full_data_inputs_count c') \<le> unat (full_data_inputs_count c) \<and>
     c' = c\<lparr>full_data_inputs_count := full_data_inputs_count c'\<rparr> \<and>
     (\<exists>h. m' = m\<lparr>hash_ctx := h\<rparr> \<and> ab h = ab (hash_ctx m) @ buffer_data b)"
  using assms
proof (induction cx c m b rule: data_inputs_loop.induct)
  case (1 cx c m b)
  note run = "1.prems"(1) [unfolded data_inputs_loop.simps [of cx c m b]]
  show ?case
  proof (cases "buffer_data b = []")
    case True
    then have "buffer_data_len b = 0" using "1.prems"(2) by (simp add: buffer_data_empty_iff)
    with run True show ?thesis by (auto intro!: exI [of _ "hash_ctx m"])
  next
    case False
    then have pos: "0 < buffer_data_len b" using "1.prems"(2) by (simp add: buffer_data_empty_iff word_neq_0_conv)
    have n: "full_data_inputs_count c \<noteq> 0" using run pos by (auto split: if_splits)
    have l: "32 \<le> length (buffer_data b)" using run pos n "1.prems"(2) by (auto simp: buffer_read_bytes_eq split: if_splits)
    let ?b = "buffer_skip b 32" and ?c = "c\<lparr>full_data_inputs_count := full_data_inputs_count c - 1\<rparr>"
    have rd: "buffer_read_bytes b ERGO_ID_LEN = (Some (take 32 (buffer_data b)), ?b)"
      and b: "buffer_wf ?b" "buffer_data ?b = drop 32 (buffer_data b)"
      using l "1.prems"(2) by (simp_all add: buffer_read_bytes_eq buffer_wf_skip buffer_data_skip) (simp add: ERGO_ID_LEN_def)
    obtain m1 where u: "mem_update cx m (take 32 (buffer_data b)) ERGO_ID_LEN = (True, m1)"
      and r: "data_inputs_loop cx ?c m1 ?b = Inr (c', m')"
      using run pos n rd by (auto split: if_splits prod.splits)
    obtain h1 where h1: "m1 = m\<lparr>hash_ctx := h1\<rparr>" "ab h1 = ab (hash_ctx m) @ take 32 (buffer_data b)"
      using u "1.prems"(3) by (auto simp: mem_update_True dest: hash_absorbD)
    note IH = "1.IH" [OF pos n rd [symmetric] refl u [symmetric] _ r b(1) "1.prems"(3)]
    from IH obtain h where h: "m' = m1\<lparr>hash_ctx := h\<rparr>" "ab h = ab (hash_ctx m1) @ drop 32 (buffer_data b)"
      using b(2) by auto
    have ab': "ab h = ab (hash_ctx m) @ buffer_data b" using h h1 by simp
    have k: "unat (full_data_inputs_count c - 1) = unat (full_data_inputs_count c) - 1" "0 < unat (full_data_inputs_count c)"
      using n by (auto simp: unat_minus_one unat_gt_0)
    have "unat (full_data_inputs_count c') \<le> unat (full_data_inputs_count c) - 1"
      "length (buffer_data b) - 32 = 32 * (unat (full_data_inputs_count c) - 1 - unat (full_data_inputs_count c'))"
      using IH k b(2) by simp_all
    then have "length (buffer_data b) = 32 * (unat (full_data_inputs_count c) - unat (full_data_inputs_count c'))"
      using l k(2) by simp
    moreover have "c' = c\<lparr>full_data_inputs_count := full_data_inputs_count c'\<rparr>" using IH by simp
    ultimately show ?thesis using IH k h h1 ab' by auto
  qed
qed

lemma full_step_data_inputs:
  assumes "cx_absorbs cx ab" and "full_inv base ni nd nt no a (ab (hash_ctx m)) c m"
    and "ergo_tx_serializer_full_add_data_inputs cx c m b = (r, c', m')" and "full_res_ok r" and "buffer_wf b"
  shows "full_inv base ni nd nt no (a\<lparr>ta_data := ta_data a @ buffer_data b\<rparr>) (ab (hash_ctx m')) c' m'"
proof -
  have st: "full_state c = ERGO_TX_SERIALIZER_FULL_STATE_DATA_INPUTS_STARTED"
    using assms(3,4) by (auto simp: ergo_tx_serializer_full_add_data_inputs_def split: if_splits)
  note i = assms(2) [unfolded full_inv_def st]
  obtain c1 m1 where l: "data_inputs_loop cx c m b = Inr (c1, m1)"
    and out: "(if full_data_inputs_count c1 = 0 then data_inputs_finished cx c1 m1
         else (ERGO_TX_SERIALIZER_FULL_RES_MORE_DATA, c1, m1)) = (r, c', m')"
    using assms(3,4) st data_inputs_loop_not_ok [of cx c m b]
    by (cases "data_inputs_loop cx c m b") (auto simp: ergo_tx_serializer_full_add_data_inputs_def split: prod.splits)
  note t = data_inputs_loop_Inr [OF l assms(5,1)]
  from t obtain h where h: "m1 = m\<lparr>hash_ctx := h\<rparr>" "ab h = ab (hash_ctx m) @ buffer_data b" by blast
  define k where "k = full_data_inputs_count c1"
  have c1: "c1 = c\<lparr>full_data_inputs_count := k\<rparr>" using t by (simp add: k_def)
  have len: "32 * unat k + length (ta_data a @ buffer_data b) = 32 * unat nd"
    using conjunct1 [OF t] conjunct1 [OF conjunct2 [OF t]] i by (simp add: k_def) arith
  show ?thesis
  proof (cases "k = 0")
    case True
    then have f: "data_inputs_finished cx c1 m1 = (r, c', m')" using out by (simp add: k_def)
    show ?thesis
      by (rule data_inputs_finished_inv [OF assms(1) f assms(4)])
        (use i c1 h len True in \<open>simp_all add: table_ok_def\<close>)
  next
    case False
    then have "c' = c1" "m' = m1" using out by (simp_all add: k_def)
    then show ?thesis using i c1 h len False st by (simp add: full_inv_def table_ok_def)
  qed
qed

subsection \<open>Output boxes\<close>

text \<open>MORE_DATA is answered for unfinished boxes only, and the last registers finish a box.\<close>

lemma box_finished_no_more [simp]: "box_finished c m \<noteq> (ERGO_TX_SERIALIZER_BOX_RES_MORE_DATA, x)"
  by (auto simp: box_finished_def box_res_error_def split: option.splits prod.splits)

lemma ergo_tree_added_no_more [simp]: "ergo_tree_added cx c m \<noteq> (ERGO_TX_SERIALIZER_BOX_RES_MORE_DATA, x)"
  by (auto simp: ergo_tree_added_def box_res_error_def Let_def split: option.splits prod.splits)

lemma box_add_tokens_more:
  assumes "ergo_tx_serializer_box_add_tokens cx c m b table = (ERGO_TX_SERIALIZER_BOX_RES_MORE_DATA, c', m', b')"
    and "box_cbs_frame c"
  shows "box_tokens_count c' \<noteq> 0"
proof -
  obtain c1 m1 b1 where l: "box_tokens_loop cx c m (rw_buffer_new_local_empty 10) b table = Inr (c1, m1, b1)"
    using assms(1) box_tokens_loop_Inl [of cx c m "rw_buffer_new_local_empty 10" b table]
    by (cases "box_tokens_loop cx c m (rw_buffer_new_local_empty 10) b table")
      (fastforce simp: ergo_tx_serializer_box_add_tokens_def Let_def box_res_error_def split: if_splits)+
  show ?thesis
    using assms(1) l
    by (auto simp: ergo_tx_serializer_box_add_tokens_def Let_def box_res_error_def split: if_splits prod.splits)
qed

lemma box_exec_progress:
  assumes "box_exec cx p c m = (r, c', m')" and "box_res_ok r" and "box_op_wf p" and "box_cbs_frame c"
  shows "\<not> ergo_tx_serializer_box_is_finished c \<and>
     (r = ERGO_TX_SERIALIZER_BOX_RES_MORE_DATA \<longrightarrow> \<not> ergo_tx_serializer_box_is_finished c') \<and>
     (r = ERGO_TX_SERIALIZER_BOX_RES_OK \<and> (\<exists>b. p = BoxRegisters b) \<longrightarrow> ergo_tx_serializer_box_is_finished c')"
proof -
  have fr: "box_cbs_frame (c\<lparr>box_ergo_tree_size := s, box_type := ty\<rparr>)" "box_cbs_frame (c\<lparr>box_type := ty\<rparr>)"
    "box_cbs_frame (c\<lparr>box_registers_size := s\<rparr>)" for s ty
    using assms(4) by (simp_all add: box_cbs_frame_def)
  show ?thesis
  proof (cases p)
    case (BoxTree b)
    then obtain b' where "ergo_tx_serializer_box_add_tree cx c m b = (r, c', m', b')"
      using assms(1) by (auto split: prod.splits)
    from box_add_tree_trace [OF this assms(2)] BoxTree assms(3) show ?thesis
      by (auto simp: ergo_tx_serializer_box_is_finished_def split: if_splits dest!: ergo_tree_added_trace [OF _ assms(2) fr(1)])
  next
    case (BoxFeeTree mainnet)
    with assms(1) box_add_fee_tree_trace [OF _ assms(2)] show ?thesis
      by (fastforce simp: ergo_tx_serializer_box_is_finished_def dest!: ergo_tree_added_trace [OF _ assms(2) fr(2)])
  next
    case (BoxChangeTree raw)
    with assms(1,3) box_add_change_tree_trace [OF _ assms(2)] show ?thesis
      by (fastforce simp: ergo_tx_serializer_box_is_finished_def dest!: ergo_tree_added_trace [OF _ assms(2) fr(2)])
  next
    case (BoxTokens b table)
    then obtain b' where t: "ergo_tx_serializer_box_add_tokens cx c m b table = (r, c', m', b')"
      using assms(1) by (auto split: prod.splits)
    have "buffer_wf b" using assms(3) BoxTokens by simp
    from box_add_tokens_trace [OF t assms(2) this assms(4)] BoxTokens box_add_tokens_more [of cx c m b table c' m' b'] t assms(4)
    show ?thesis by (auto simp: ergo_tx_serializer_box_is_finished_def split: if_splits)
  next
    case (BoxRegisters b)
    then obtain b' where "ergo_tx_serializer_box_add_registers cx c m b = (r, c', m', b')"
      using assms(1) by (auto split: prod.splits)
    from box_add_registers_trace [OF this assms(2)] BoxRegisters assms(3) show ?thesis
      by (auto simp: ergo_tx_serializer_box_is_finished_def split: if_splits dest!: box_finished_trace [OF _ assms(2) fr(3)])
  qed
qed

text \<open>All operations on a box have one form: run the box serializer, count a finished output.\<close>

definition box_next :: "'m full_ctx \<Rightarrow> 'm box_ctx \<Rightarrow> 'm full_ctx" where
  "box_next c bc =
     (let c1 = c\<lparr>full_box_ctx := Some bc\<rparr>; n = full_outputs_count c - 1 in
      if \<not> ergo_tx_serializer_box_is_finished bc then c1
      else if n = 0 then c1\<lparr>full_outputs_count := n, full_state := ERGO_TX_SERIALIZER_FULL_STATE_FINISHED\<rparr>
      else c1\<lparr>full_outputs_count := n\<rparr>)"

lemma box_done_next: "box_done ub (c\<lparr>full_box_ctx := Some bc\<rparr>) m = (ERGO_TX_SERIALIZER_FULL_RES_OK, box_next c bc, m)"
  by (simp add: box_done_def full_box_def output_finished_def box_next_def Let_def)

lemma output_finished_next:
  "ergo_tx_serializer_box_is_finished bc \<Longrightarrow>
     output_finished (c\<lparr>full_box_ctx := Some bc\<rparr>) m = (ERGO_TX_SERIALIZER_FULL_RES_OK, box_next c bc, m)"
  by (simp add: output_finished_def box_next_def Let_def)

lemma full_box_state:
  assumes "full_exec cx ub p c m = (r, c', m')" and "full_res_ok r" and "as_box_op tc p = Some bp"
  shows "full_state c = ERGO_TX_SERIALIZER_FULL_STATE_OUTPUTS_STARTED"
  using assms by (cases p) (auto simp: ergo_tx_serializer_full_add_box_ergo_tree_def
      ergo_tx_serializer_full_add_box_change_tree_def ergo_tx_serializer_full_add_box_miners_fee_tree_def
      ergo_tx_serializer_full_add_box_tokens_def ergo_tx_serializer_full_add_box_registers_def split: if_splits)

lemma full_box_exec:
  assumes "full_exec cx ub p c m = (r, c', m')" and "full_res_ok r"
    and "as_box_op (full_table_ctx c) p = Some bp" and "box_op_wf bp" and "box_cbs_frame (full_box ub c)"
  shows "full_state c = ERGO_TX_SERIALIZER_FULL_STATE_OUTPUTS_STARTED \<and>
     (\<exists>br bc. box_exec cx bp (full_box ub c) m = (br, bc, m') \<and> box_res_ok br \<and> c' = box_next c bc)"
proof -
  obtain br bc m1 where e: "box_exec cx bp (full_box ub c) m = (br, bc, m1)" by (metis prod_cases3)
  note st = full_box_state [OF assms(1-3)]
  let ?c1 = "c\<lparr>full_box_ctx := Some bc\<rparr>"
  have out: "box_res_ok br \<and> (check_call_data_is_finished (map_box_result br) ?c1 m1 (box_done ub) = (r, c', m') \<or>
       box_done ub ?c1 m1 = (r, c', m') \<or>
       (\<exists>b. bp = BoxRegisters b) \<and> check_call_data_is_finished (map_box_result br) ?c1 m1 output_finished = (r, c', m'))"
    using assms(1-3) st e
    by (cases p) (auto simp: ergo_tx_serializer_full_add_box_ergo_tree_def Let_def check_call_data_is_finished_def
        ergo_tx_serializer_full_add_box_change_tree_def ergo_tx_serializer_full_add_box_miners_fee_tree_def
        ergo_tx_serializer_full_add_box_tokens_def ergo_tx_serializer_full_add_box_registers_def
        split: if_splits prod.splits)
  then have ok: "box_res_ok br" by simp
  note pr = box_exec_progress [OF e ok assms(4,5)]
  have nx: "br = ERGO_TX_SERIALIZER_BOX_RES_MORE_DATA \<Longrightarrow> box_next c bc = ?c1" using pr by (simp add: box_next_def)
  have "m' = m1 \<and> c' = box_next c bc"
    using out assms(2) pr nx
    by (auto simp: box_done_next output_finished_next dest!: check_call_ok)
  then show ?thesis using st e ok by blast
qed

lemma full_step_box_op:
  assumes "cx_absorbs cx ab" and "full_inv base ni nd nt no a (ab (hash_ctx m)) c m"
    and "full_exec cx ub p c m = (r, c', m')" and "full_res_ok r"
    and "as_box_op (full_table_ctx c) p = Some bp" and "box_op_wf bp" and "full_box_ctx c \<noteq> None"
  shows "full_inv base ni nd nt no
     (a\<lparr>ta_boxes := upd_last (\<lambda>x. x\<lparr>br_acc := acc_op (br_acc x) bp, br_state := box_state (the (full_box_ctx c'))\<rparr>) (ta_boxes a)\<rparr>)
     (ab (hash_ctx m')) c' m'"
proof -
  note st = full_box_state [OF assms(3-5)]
  note i = assms(2) [unfolded full_inv_def st]
  have ne: "ta_boxes a \<noteq> []" using i assms(7) by (auto split: if_splits)
  define xs where "xs = butlast (ta_boxes a)"
  define x where "x = last (ta_boxes a)"
  have bx: "ta_boxes a = xs @ [x]" using ne by (simp add: xs_def x_def)
  define pre where "pre = tx_mid base ni nd nt no a @ concat (map br_bytes xs)"
  from i ne obtain bc where bc: "full_box_ctx c = Some bc" "box_cbs_frame bc" "box_rec_inv pre x (ab (hash_ctx m)) bc"
    by (auto simp: xs_def x_def pre_def)
  have fb: "full_box ub c = bc" using bc by (simp add: full_box_def)
  from full_box_exec [OF assms(3-6)] bc(2) obtain br bc' where
    e: "box_exec cx bp bc m = (br, bc', m')" "box_res_ok br" and c': "c' = box_next c bc'" by (auto simp: fb)
  define y where "y = x\<lparr>br_acc := acc_op (br_acc x) bp, br_state := box_state bc'\<rparr>"
  have n: "box_inv pre (br_value x) (br_height x) (br_count x) (br_regs x) (acc_op (br_acc x) bp) (ab (hash_ctx m')) bc'"
    "box_callbacks bc' = box_callbacks bc"
    using box_exec_inv [OF assms(1) _ e assms(6) bc(2)] bc(3) by (auto simp: box_rec_inv_def)
  then have fr: "box_cbs_frame bc'" and y: "box_rec_inv pre y (ab (hash_ctx m')) bc'"
    using bc(2) by (simp_all add: box_cbs_frame_def y_def box_rec_inv_def)
  note yb = box_rec_inv_bytes [OF y]
  have fin: "br_finished y \<longleftrightarrow> ergo_tx_serializer_box_is_finished bc'" "\<not> br_finished x"
    using box_exec_progress [OF e assms(6) bc(2)] bc(3)
    by (simp_all add: y_def br_finished_def ergo_tx_serializer_box_is_finished_def box_rec_inv_def)
  have mid: "tx_mid base ni nd nt no (a\<lparr>ta_boxes := zs\<rparr>) = tx_mid base ni nd nt no a" for zs by (simp add: tx_mid_def)
  have k: "unat (full_outputs_count c - 1) = unat (full_outputs_count c) - 1" "0 < unat (full_outputs_count c)"
    using i by (auto simp: unat_minus_one unat_gt_0)
  have new: "upd_last (\<lambda>x. x\<lparr>br_acc := acc_op (br_acc x) bp, br_state := box_state (the (full_box_ctx c'))\<rparr>) (ta_boxes a) = xs @ [y]"
    by (simp add: bx upd_last_def y_def c' box_next_def Let_def)
  have cnt: "unat (full_outputs_count c) + length (filter br_finished xs) = unat no" using i fin(2) bx by simp
  show ?thesis
    unfolding new using i k yb y fr fin cnt
    by (auto simp: full_inv_def c' box_next_def Let_def st mid bx pre_def unat_eq_zero list_all_iff)
qed

lemma full_step_box:
  assumes "cx_absorbs cx ab" and "full_inv base ni nd nt no a (ab (hash_ctx m)) c m"
    and "ergo_tx_serializer_full_add_box cx c m v ts h n rs = (r, c', m')" and "full_res_ok r"
  shows "full_inv base ni nd nt no
     (a\<lparr>ta_boxes := ta_boxes a @ [\<lparr>br_value = v, br_height = h, br_count = n, br_regs = rs,
        br_acc = \<lparr>acc_tree = [], acc_tokens = [], acc_count = 0, acc_registers = []\<rparr>,
        br_state = ERGO_TX_SERIALIZER_BOX_STATE_INITIALIZED\<rparr>]\<rparr>)
     (ab (hash_ctx m')) c' m' \<and> full_box_ctx c' \<noteq> None"
proof -
  obtain br bc m1 where b: "ergo_tx_serializer_box_init cx v ts h n rs m = (br, bc, m1)" by (metis prod_cases3)
  have st: "full_state c = ERGO_TX_SERIALIZER_FULL_STATE_OUTPUTS_STARTED"
    using assms(3,4) by (auto simp: ergo_tx_serializer_full_add_box_def split: if_splits)
  have ok: "box_res_ok br" and out: "c' = c\<lparr>full_box_ctx := Some bc\<rparr>" "m' = m1"
    using assms(3,4) st b by (auto simp: ergo_tx_serializer_full_add_box_def Let_def split: if_splits)
  note t = box_init_trace [OF b ok]
  have h1: "ab (hash_ctx m1) = ab (hash_ctx m) @ vlq (unat v)" using t assms(1) by (auto dest: hash_absorbD)
  note i = assms(2) [unfolded full_inv_def st]
  let ?pre = "tx_mid base ni nd nt no a @ concat (map br_bytes (ta_boxes a))"
  let ?x = "\<lparr>br_value = v, br_height = h, br_count = n, br_regs = rs,
        br_acc = \<lparr>acc_tree = [], acc_tokens = [], acc_count = 0, acc_registers = []\<rparr>,
        br_state = ERGO_TX_SERIALIZER_BOX_STATE_INITIALIZED\<rparr>"
  have pre: "ab (hash_ctx m) = ?pre \<and> list_all br_ok (ta_boxes a)"
  proof (cases "ta_boxes a" rule: rev_cases)
    case Nil
    then show ?thesis using i by simp
  next
    case (snoc xs x)
    with i obtain bo where "full_box_ctx c = Some bo"
      "box_rec_inv (tx_mid base ni nd nt no a @ concat (map br_bytes xs)) x (ab (hash_ctx m)) bo" by auto
    from box_rec_inv_bytes [OF this(2)] show ?thesis using i snoc by simp
  qed
  have "box_rec_inv ?pre ?x (ab (hash_ctx m1)) bc" "box_cbs_frame bc"
    using t h1 pre by (simp_all add: box_rec_inv_def box_inv_def box_ctx_zero_def box_cbs_frame_def)
  moreover have "tx_mid base ni nd nt no (a\<lparr>ta_boxes := zs\<rparr>) = tx_mid base ni nd nt no a" for zs by (simp add: tx_mid_def)
  ultimately show ?thesis
    using i st out pre by (simp add: full_inv_def br_finished_def)
qed

lemma full_step_box_callbacks:
  assumes "full_inv base ni nd nt no a (ab (hash_ctx m)) c m"
    and "ergo_tx_serializer_full_set_box_callbacks ub c f g k = (r, c')" and "full_res_ok r" and "full_box_ctx c \<noteq> None"
    and "box_cbs_frame (ergo_tx_serializer_box_set_callbacks box_ctx_zero f g k :: ('h, 'z) ser_mem_scheme box_ctx)"
  shows "full_inv base ni nd nt no a (ab (hash_ctx m)) c' m \<and> full_box_ctx c' \<noteq> None"
proof -
  have st: "full_state c = ERGO_TX_SERIALIZER_FULL_STATE_OUTPUTS_STARTED"
    "c' = c\<lparr>full_box_ctx := Some (ergo_tx_serializer_box_set_callbacks (full_box ub c) f g k)\<rparr>"
    using assms(2,3) by (auto simp: ergo_tx_serializer_full_set_box_callbacks_def split: if_splits)
  note i = assms(1) [unfolded full_inv_def st(1)]
  from i assms(4) obtain bc where bc: "full_box_ctx c = Some bc" by blast
  let ?b = "ergo_tx_serializer_box_set_callbacks bc f g k"
  have "box_cbs_frame ?b" using assms(5) by (simp add: box_cbs_frame_def ergo_tx_serializer_box_set_callbacks_def)
  moreover have "box_rec_inv pre x hh ?b \<longleftrightarrow> box_rec_inv pre x hh bc" for pre x hh
    by (cases "box_state bc"; simp add: box_rec_inv_def box_inv_def ergo_tx_serializer_box_set_callbacks_def)
  ultimately show ?thesis
    using i st bc by (auto simp: full_inv_def full_box_def split: if_splits)
qed

subsection \<open>Whole runs\<close>

text \<open>The operands come from well-formed buffers and arrays of the declared sizes.\<close>

fun full_op_wf :: "('h, 'z) ser_mem_scheme full_op \<Rightarrow> bool" where
  "full_op_wf (FullTokens b) = buffer_wf b"
| "full_op_wf (FullInput bid _ _) = (length bid = 32)"
| "full_op_wf (FullInputCallback cb) = input_cb_ok cb"
| "full_op_wf (FullInputTokens bid _ b) = (length bid = 32 \<and> buffer_wf b)"
| "full_op_wf (FullExtension b) = buffer_wf b"
| "full_op_wf (FullDataInputs b) = buffer_wf b"
| "full_op_wf (FullBox _ _ _ _ _) = True"
| "full_op_wf (FullBoxCallbacks f g k) =
     box_cbs_frame (ergo_tx_serializer_box_set_callbacks box_ctx_zero f g k :: ('h, 'z) ser_mem_scheme box_ctx)"
| "full_op_wf (FullBoxTree b) = buffer_wf b"
| "full_op_wf (FullBoxChange raw) = (length raw = 65)"
| "full_op_wf (FullBoxFee _) = True"
| "full_op_wf (FullBoxTokens b) = buffer_wf b"
| "full_op_wf (FullBoxRegisters b) = buffer_wf b"

text \<open>The box context is only used once a box was added (before, the union holds an input).\<close>

fun uses_box :: "'m full_op \<Rightarrow> bool" where
  "uses_box (FullBoxCallbacks _ _ _) = True"
| "uses_box p = (as_box_op \<lparr>distinct_tokens_count = 0\<rparr> p \<noteq> None)"

fun opens_box :: "'m full_op \<Rightarrow> bool" where
  "opens_box (FullBox _ _ _ _ _) = True"
| "opens_box _ = False"

primrec box_opened_first :: "bool \<Rightarrow> 'm full_op list \<Rightarrow> bool" where
  "box_opened_first opened [] = True"
| "box_opened_first opened (p # ps) =
     ((uses_box p \<longrightarrow> opened) \<and> box_opened_first (opened \<or> opens_box p) ps)"

primrec tx_collect ::
    "('h, 'x) cx_sdk_scheme \<Rightarrow> ('h, 'z) union_box \<Rightarrow> ('h, 'z) ser_mem_scheme full_op list \<Rightarrow>
     ('h, 'z) ser_mem_scheme full_ctx \<Rightarrow> ('h, 'z) ser_mem_scheme \<Rightarrow> tx_acc \<Rightarrow> tx_acc" where
  "tx_collect cx ub [] c m a = a"
| "tx_collect cx ub (p # ps) c m a =
     (case full_exec cx ub p c m of (r, c', m') \<Rightarrow> tx_collect cx ub ps c' m' (tx_acc_op a p c'))"

lemma box_next_table [simp]: "full_table_ctx (box_next c bc) = full_table_ctx c" "full_box_ctx (box_next c bc) = Some bc"
  by (simp_all add: box_next_def Let_def)

lemma full_inv_box_state:
  "full_inv base ni nd nt no a h c m \<Longrightarrow> full_box_ctx c \<noteq> None \<Longrightarrow>
     full_state c = ERGO_TX_SERIALIZER_FULL_STATE_OUTPUTS_STARTED \<or> full_state c = ERGO_TX_SERIALIZER_FULL_STATE_FINISHED"
  by (cases "full_state c") (auto simp: full_inv_def)

lemma full_exec_box_op_inv:
  assumes "cx_absorbs cx ab" and "full_inv base ni nd nt no a (ab (hash_ctx m)) c m"
    and "full_exec cx ub p c m = (r, c', m')" and "full_res_ok r" and "full_op_wf p"
    and "as_box_op (full_table_ctx c) p = Some bp" and "full_box_ctx c \<noteq> None"
  shows "full_inv base ni nd nt no (tx_acc_op a p c') (ab (hash_ctx m')) c' m' \<and> full_box_ctx c' \<noteq> None"
proof -
  have wf: "box_op_wf bp" using assms(5,6) by (cases p) auto
  note st = full_box_state [OF assms(3,4,6)]
  have fr: "box_cbs_frame (full_box ub c)"
    using assms(2,7) st by (auto simp: full_inv_def full_box_def split: if_splits)
  from full_box_exec [OF assms(3,4,6) wf fr] obtain bc where c': "c' = box_next c bc" by blast
  have "tx_acc_op a p c' = a\<lparr>ta_boxes := upd_last (\<lambda>x. x\<lparr>br_acc := acc_op (br_acc x) bp,
      br_state := box_state (the (full_box_ctx c'))\<rparr>) (ta_boxes a)\<rparr>"
    using assms(6) c' by (cases p) auto
  with full_step_box_op [OF assms(1-4) assms(6) wf assms(7)] c' show ?thesis by simp
qed

lemma full_exec_inv:
  assumes "cx_absorbs cx ab" and "full_inv base ni nd nt no a (ab (hash_ctx m)) c m"
    and "full_exec cx ub p c m = (r, c', m')" and "full_res_ok r" and "full_op_wf p"
    and "uses_box p \<longrightarrow> full_box_ctx c \<noteq> None"
  shows "full_inv base ni nd nt no (tx_acc_op a p c') (ab (hash_ctx m')) c' m' \<and>
     (full_box_ctx c \<noteq> None \<or> opens_box p \<longrightarrow> full_box_ctx c' \<noteq> None)"
proof (cases "as_box_op (full_table_ctx c) p")
  case (Some bp)
  then have "uses_box p" by (cases p) auto
  then show ?thesis using full_exec_box_op_inv [OF assms(1-5) Some] assms(6) by simp
next
  case None
  note b = full_inv_box_state [OF assms(2)]
  show ?thesis
  proof (cases p)
    case (FullBox v ts h n rs)
    then show ?thesis using full_step_box [OF assms(1,2) _ assms(4)] assms(3) by simp
  next
    case (FullBoxCallbacks f g k)
    then show ?thesis using full_step_box_callbacks [where ab = ab, OF assms(2) _ assms(4)] assms(3,5,6) by (auto split: prod.splits)
  next
    case (FullTokens x)
    then show ?thesis using full_step_tokens [where ab = ab, OF assms(2) _ assms(4)] assms(3-5) b
      by (auto simp: ergo_tx_serializer_full_add_tokens_def)
  next
    case (FullInput bid fc e)
    then show ?thesis using full_step_input [where ab = ab, OF assms(2) _ assms(4)] assms(3-5) b
      by (auto simp: ergo_tx_serializer_full_add_input_def)
  next
    case (FullInputCallback cb)
    then have s: "ergo_tx_serializer_full_set_input_callback c cb = (r, c')" "m' = m" "input_cb_ok cb"
      using assms(3,5) by (auto split: prod.splits)
    have "full_state c = ERGO_TX_SERIALIZER_FULL_STATE_INPUTS_STARTED"
      using s(1) assms(4) by (auto simp: ergo_tx_serializer_full_set_input_callback_def split: if_splits)
    then show ?thesis
      using full_step_input_callback [where ab = ab, OF assms(2) s(1) assms(4) s(3)] s(2) b FullInputCallback by auto
  next
    case (FullInputTokens bid idx x)
    then show ?thesis using full_step_input_tokens [OF assms(1,2) _ assms(4)] assms(3-5) b
      by (auto simp: ergo_tx_serializer_full_add_input_tokens_def)
  next
    case (FullExtension x)
    then show ?thesis using full_step_extension [OF assms(1,2) _ assms(4)] assms(3-5) b
      by (auto simp: ergo_tx_serializer_full_add_input_context_extension_def)
  next
    case (FullDataInputs x)
    then show ?thesis using full_step_data_inputs [OF assms(1,2) _ assms(4)] assms(3-5) b
      by (auto simp: ergo_tx_serializer_full_add_data_inputs_def)
  qed (use None in auto)
qed

lemma full_run_inv:
  assumes "cx_absorbs cx ab" and "full_inv base ni nd nt no a (ab (hash_ctx m)) c m"
    and "full_run cx ub ps c m = Some (c', m')" and "\<forall>p \<in> set ps. full_op_wf p"
    and "box_opened_first opened ps" and "opened \<longrightarrow> full_box_ctx c \<noteq> None"
  shows "full_inv base ni nd nt no (tx_collect cx ub ps c m a) (ab (hash_ctx m')) c' m'"
  using assms(2-)
proof (induction ps arbitrary: a c m opened)
  case (Cons p ps)
  obtain r c1 m1 where e: "full_exec cx ub p c m = (r, c1, m1)" by (metis prod_cases3)
  with Cons.prems have ok: "full_res_ok r" "full_run cx ub ps c1 m1 = Some (c', m')" by (auto split: if_splits)
  have s: "full_inv base ni nd nt no (tx_acc_op a p c1) (ab (hash_ctx m1)) c1 m1"
    "full_box_ctx c \<noteq> None \<or> opens_box p \<longrightarrow> full_box_ctx c1 \<noteq> None"
    using full_exec_inv [OF assms(1) Cons.prems(1) e ok(1)] Cons.prems(3-5) by auto
  show ?case
    using Cons.IH [OF s(1) ok(2), of "opened \<or> opens_box p"] Cons.prems(3-5) s(2) e by simp
qed simp

lemma full_init_inv:
  assumes "cx_absorbs cx ab" and "ergo_tx_serializer_full_init cx ni nd no nt m0 = (ERGO_TX_SERIALIZER_FULL_RES_OK, c, m)"
  shows "full_inv (ab (hash_ctx m0)) ni nd nt no tx_acc_empty (ab (hash_ctx m)) c m"
proof -
  have z: "ni \<noteq> 0" "no \<noteq> 0" "fst (hash_u16 cx m0 ni)"
    using assms(2) by (auto simp: ergo_tx_serializer_full_init_def Let_def full_res_error_def split: if_splits prod.splits)
  then obtain m1 where u: "hash_u16 cx m0 ni = (True, m1)" by (metis prod.collapse)
  then obtain h where h: "m1 = m0\<lparr>hash_ctx := h\<rparr>" "ab h = ab (hash_ctx m0) @ vlq (unat ni)"
    using assms(1) by (auto simp: hash_u16_True dest: hash_absorbD)
  have t: "tt_count (tokens_table m0) = 0" "unat nt \<le> 100"
    using assms(2) z u h by (auto simp: ergo_tx_serializer_full_init_def Let_def full_res_error_def full_ctx_zero_def
        ergo_tx_serializer_table_init_def word_less_nat_alt split: if_splits)
  let ?t = "(tokens_table m0)\<lparr>tt_tokens := replicate (unat TOKEN_MAX_COUNT) (replicate (unat ERGO_ID_LEN) 0)\<rparr>"
  have w: "token_table_wf ?t" "table_ids ?t = []" using t by (simp_all add: token_table_wf_def table_ids_def)
  have out: "m = m1\<lparr>tokens_table := ?t\<rparr>"
    "c = full_ctx_zero\<lparr>full_inputs_count := ni, full_data_inputs_count := nd, full_outputs_count := no,
        full_table_ctx := \<lparr>distinct_tokens_count = nt\<rparr>,
        full_state := (if nt \<noteq> 0 then ERGO_TX_SERIALIZER_FULL_STATE_TOKENS_STARTED else ERGO_TX_SERIALIZER_FULL_STATE_INPUTS_STARTED),
        full_input_ctx := (if nt \<noteq> 0 then input_ctx_zero
          else input_ctx_zero\<lparr>input_state := ERGO_TX_SERIALIZER_INPUT_STATE_FINISHED\<rparr>)\<rparr>"
    using assms(2) z u h t by (auto simp: ergo_tx_serializer_full_init_def Let_def full_res_error_def full_ctx_zero_def
        ergo_tx_serializer_table_init_def word_less_nat_alt split: if_splits)
  show ?thesis
    using z h t w by (auto simp: full_inv_def out full_ctx_zero_def input_ctx_zero_def tx_acc_empty_def table_ok_def
        inputs_inv_def input_cb_ok_def ergo_tx_serializer_input_is_finished_def)
qed

text \<open>
  C11. Transcript of a transaction. Take a transaction that was initialised with its counts and any
  sequence of operations that were all accepted and left it finished. Then exactly the announced
  number of inputs arrived, each complete (its token frames 0, 1, \dots of its own box id, in order,
  and its context extension of the announced size), the announced numbers of data inputs and token
  ids, and the announced number of finished output boxes, each with the announced number of tokens
  and of register bytes; and the hash has absorbed the serialization of this transaction: input
  count, inputs, data input count, data inputs, token count, token ids, output count, outputs. A box
  that was opened and left unfinished is not counted, but as far as it was received it is part of
  this serialization. The signature is computed over this hash.
\<close>

theorem tx_transcript:
  assumes "cx_absorbs cx ab"
    and "ergo_tx_serializer_full_init cx ni nd no nt m0 = (ERGO_TX_SERIALIZER_FULL_RES_OK, c1, m1)"
    and "\<forall>p \<in> set ps. full_op_wf p" and "box_opened_first False ps"
    and "full_run cx ub ps c1 m1 = Some (c, m)" and "ergo_tx_serializer_full_is_finished c"
    and "a = tx_collect cx ub ps c1 m1 tx_acc_empty"
  shows "ab (hash_ctx m) = ab (hash_ctx m0) @ tx_bytes ni nd nt no a \<and>
     length (ta_inputs a) = unat ni \<and> list_all input_complete (ta_inputs a) \<and>
     length (ta_data a) = 32 * unat nd \<and> length (ta_tokens a) = 32 * unat nt \<and>
     length (filter br_finished (ta_boxes a)) = unat no \<and> list_all br_ok (ta_boxes a)"
  using full_run_inv [OF assms(1) full_init_inv [OF assms(1,2)] assms(5,3,4)] assms(6,7)
  by (simp add: full_inv_def ergo_tx_serializer_full_is_finished_def tx_mid_def tx_head_def tx_bytes_def)

text \<open>Witness: one token id, one input with one frame, one data input, one output with a token.\<close>

definition demo_union :: "(bytes, unit) union_box" where
  "demo_union ic = box_ctx_zero"

definition demo_tx_ops :: "bytes ser_mem full_op list" where
  "demo_tx_ops = [FullTokens (buffer_init (demo_id 9) 32), FullInput (demo_id 5) 1 0,
     FullInputTokens (demo_id 5) 0 (buffer_init (demo_id 9 @ [0, 0, 0, 0, 0, 0, 0, 7]) 40),
     FullDataInputs (buffer_init (demo_id 6) 32), FullBox 200 2 3 1 0, FullBoxTree (buffer_init [1, 2] 2),
     FullBoxTokens (buffer_init [0, 0, 0, 0, 0, 0, 0, 0, 0, 0, 0, 7] 12)]"

definition demo_tx :: "bytes ser_mem full_ctx" where
  "demo_tx = full_ctx_zero\<lparr>full_inputs_count := 1, full_data_inputs_count := 1, full_outputs_count := 1,
     full_table_ctx := \<lparr>distinct_tokens_count = 1\<rparr>\<rparr>"

definition demo_tx_mem :: "bytes list \<Rightarrow> bytes ser_mem" where
  "demo_tx_mem ids = \<lparr>hash_ctx = [1], tokens_table = \<lparr>tt_count = 0, tt_tokens = ids\<rparr>\<rparr>"

lemma demo_tx_init:
  "ergo_tx_serializer_full_init cx_record 1 1 1 1 demo_mem =
     (ERGO_TX_SERIALIZER_FULL_RES_OK, demo_tx, demo_tx_mem (replicate 100 (replicate 32 0)))"
proof -
  have "fst (hash_u16 cx_record demo_mem 1)" "hash_ctx (snd (hash_u16 cx_record demo_mem 1)) = [1]" by code_simp+
  then have "hash_u16 cx_record demo_mem 1 = (True, demo_mem\<lparr>hash_ctx := [1]\<rparr>)"
    by (cases "hash_u16 cx_record demo_mem 1") (auto simp: hash_u16_True)
  then show ?thesis
    by (simp add: ergo_tx_serializer_full_init_def Let_def demo_tx_def demo_tx_mem_def full_ctx_zero_def demo_mem_def
        demo_table_def ergo_tx_serializer_table_init_def TOKEN_MAX_COUNT_def)
qed

theorem tx_transcript_witness:
  "\<exists>c0 m0 c m. ergo_tx_serializer_full_init cx_record 1 1 1 1 demo_mem = (ERGO_TX_SERIALIZER_FULL_RES_OK, c0, m0) \<and>
     full_run cx_record demo_union demo_tx_ops c0 m0 = Some (c, m) \<and>
     hash_ctx m = [1] @ demo_id 5 @ [0, 0] @ [1] @ demo_id 6 @ [1] @ demo_id 9 @ [1] @ [200, 1, 1, 2, 3, 1, 0, 7, 0]"
proof -
  define ids :: "bytes list" where "ids = replicate 100 (replicate 32 0)"
  let ?r = "full_run cx_record demo_union demo_tx_ops demo_tx (demo_tx_mem ids)"
  let ?a = "tx_collect cx_record demo_union demo_tx_ops demo_tx (demo_tx_mem ids) tx_acc_empty"
  note i = demo_tx_init [folded ids_def]
  have "?r \<noteq> None" by code_simp
  then have r: "?r = Some (fst (the ?r), snd (the ?r))" by auto
  have fin: "ergo_tx_serializer_full_is_finished (fst (the ?r))" by code_simp
  have wf: "\<forall>p \<in> set demo_tx_ops. full_op_wf p" by (simp add: demo_tx_ops_def) code_simp
  have g: "box_opened_first False demo_tx_ops" by code_simp
  have "hash_ctx demo_mem @ tx_bytes 1 1 1 1 ?a =
      [1] @ demo_id 5 @ [0, 0] @ [1] @ demo_id 6 @ [1] @ demo_id 9 @ [1] @ [200, 1, 1, 2, 3, 1, 0, 7, 0]" by code_simp
  then have "hash_ctx (snd (the ?r)) =
      [1] @ demo_id 5 @ [0, 0] @ [1] @ demo_id 6 @ [1] @ demo_id 9 @ [1] @ [200, 1, 1, 2, 3, 1, 0, 7, 0]"
    using tx_transcript [OF cx_record_absorbs i wf g r fin refl] by simp
  with i r show ?thesis by blast
qed

end
