(* ===== verification/SwResult.thy ===== *)
theory SwResult
  imports TxSerFull
begin

text \<open>
  Status words, \<^verbatim>\<open>src/sw.h\<close>, and the translation of the results of the serializers
  into them, \<^verbatim>\<open>src/helpers/sw_result.h\<close>. A command answers \<open>SW_OK\<close> exactly
  when the serializer accepted the operation.
\<close>

definition SW_OK :: u16 where "SW_OK = 0x9000"
definition SW_DENY :: u16 where "SW_DENY = 0x6985"
definition SW_WRONG_P1P2 :: u16 where "SW_WRONG_P1P2 = 0x6A86"
definition SW_WRONG_APDU_DATA_LENGTH :: u16 where "SW_WRONG_APDU_DATA_LENGTH = 0x6A87"
definition SW_INS_NOT_SUPPORTED :: u16 where "SW_INS_NOT_SUPPORTED = 0x6D00"
definition SW_CLA_NOT_SUPPORTED :: u16 where "SW_CLA_NOT_SUPPORTED = 0x6E00"
definition SW_BUSY :: u16 where "SW_BUSY = 0xB000"
definition SW_WRONG_RESPONSE_LENGTH :: u16 where "SW_WRONG_RESPONSE_LENGTH = 0xB001"
definition SW_BAD_SESSION_ID :: u16 where "SW_BAD_SESSION_ID = 0xB002"
definition SW_WRONG_SUBCOMMAND :: u16 where "SW_WRONG_SUBCOMMAND = 0xB003"
definition SW_SCREENS_BUFFER_OVERFLOW :: u16 where "SW_SCREENS_BUFFER_OVERFLOW = 0xB004"
definition SW_BAD_STATE :: u16 where "SW_BAD_STATE = 0xB0FF"
definition SW_BAD_TOKEN_ID :: u16 where "SW_BAD_TOKEN_ID = 0xE001"
definition SW_BAD_TOKEN_VALUE :: u16 where "SW_BAD_TOKEN_VALUE = 0xE002"
definition SW_BAD_CONTEXT_EXTENSION_SIZE :: u16 where "SW_BAD_CONTEXT_EXTENSION_SIZE = 0xE003"
definition SW_BAD_DATA_INPUT :: u16 where "SW_BAD_DATA_INPUT = 0xE004"
definition SW_BAD_BOX_ID :: u16 where "SW_BAD_BOX_ID = 0xE005"
definition SW_BAD_TOKEN_INDEX :: u16 where "SW_BAD_TOKEN_INDEX = 0xE006"
definition SW_BAD_FRAME_INDEX :: u16 where "SW_BAD_FRAME_INDEX = 0xE007"
definition SW_BAD_INPUT_COUNT :: u16 where "SW_BAD_INPUT_COUNT = 0xE008"
definition SW_BAD_OUTPUT_COUNT :: u16 where "SW_BAD_OUTPUT_COUNT = 0xE009"
definition SW_TOO_MANY_TOKENS :: u16 where "SW_TOO_MANY_TOKENS = 0xE00A"
definition SW_TOO_MANY_INPUTS :: u16 where "SW_TOO_MANY_INPUTS = 0xE00B"
definition SW_TOO_MANY_DATA_INPUTS :: u16 where "SW_TOO_MANY_DATA_INPUTS = 0xE00C"
definition SW_TOO_MANY_INPUT_FRAMES :: u16 where "SW_TOO_MANY_INPUT_FRAMES = 0xE00D"
definition SW_TOO_MANY_OUTPUTS :: u16 where "SW_TOO_MANY_OUTPUTS = 0xE00E"
definition SW_HASHER_ERROR :: u16 where "SW_HASHER_ERROR = 0xE00F"
definition SW_BUFFER_ERROR :: u16 where "SW_BUFFER_ERROR = 0xE010"
definition SW_U64_OVERFLOW :: u16 where "SW_U64_OVERFLOW = 0xE011"
definition SW_BIP32_BAD_PATH :: u16 where "SW_BIP32_BAD_PATH = 0xE012"
definition SW_INTERNAL_CRYPTO_ERROR :: u16 where "SW_INTERNAL_CRYPTO_ERROR = 0xE013"
definition SW_NOT_ENOUGH_DATA :: u16 where "SW_NOT_ENOUGH_DATA = 0xE014"
definition SW_TOO_MUCH_DATA :: u16 where "SW_TOO_MUCH_DATA = 0xE015"
definition SW_ADDRESS_GENERATION_FAILED :: u16 where "SW_ADDRESS_GENERATION_FAILED = 0xE016"
definition SW_SCHNORR_SIGNING_FAILED :: u16 where "SW_SCHNORR_SIGNING_FAILED = 0xE017"
definition SW_BAD_FRAME_SIGNATURE :: u16 where "SW_BAD_FRAME_SIGNATURE = 0xE018"
definition SW_BAD_NET_TYPE_VALUE :: u16 where "SW_BAD_NET_TYPE_VALUE = 0xE019"
definition SW_SMALL_CHUNK :: u16 where "SW_SMALL_CHUNK = 0xE01A"
definition SW_BIP32_FORMATTING_FAILED :: u16 where "SW_BIP32_FORMATTING_FAILED = 0xE101"
definition SW_ADDRESS_FORMATTING_FAILED :: u16 where "SW_ADDRESS_FORMATTING_FAILED = 0xE102"

lemmas sw_defs =
  SW_OK_def SW_DENY_def SW_WRONG_P1P2_def SW_WRONG_APDU_DATA_LENGTH_def SW_INS_NOT_SUPPORTED_def SW_CLA_NOT_SUPPORTED_def SW_BUSY_def SW_WRONG_RESPONSE_LENGTH_def SW_BAD_SESSION_ID_def SW_WRONG_SUBCOMMAND_def SW_SCREENS_BUFFER_OVERFLOW_def SW_BAD_STATE_def SW_BAD_TOKEN_ID_def SW_BAD_TOKEN_VALUE_def SW_BAD_CONTEXT_EXTENSION_SIZE_def SW_BAD_DATA_INPUT_def SW_BAD_BOX_ID_def SW_BAD_TOKEN_INDEX_def SW_BAD_FRAME_INDEX_def SW_BAD_INPUT_COUNT_def SW_BAD_OUTPUT_COUNT_def SW_TOO_MANY_TOKENS_def SW_TOO_MANY_INPUTS_def SW_TOO_MANY_DATA_INPUTS_def SW_TOO_MANY_INPUT_FRAMES_def SW_TOO_MANY_OUTPUTS_def SW_HASHER_ERROR_def SW_BUFFER_ERROR_def SW_U64_OVERFLOW_def SW_BIP32_BAD_PATH_def SW_INTERNAL_CRYPTO_ERROR_def SW_NOT_ENOUGH_DATA_def SW_TOO_MUCH_DATA_def SW_ADDRESS_GENERATION_FAILED_def SW_SCHNORR_SIGNING_FAILED_def SW_BAD_FRAME_SIGNATURE_def SW_BAD_NET_TYPE_VALUE_def SW_SMALL_CHUNK_def SW_BIP32_FORMATTING_FAILED_def SW_ADDRESS_FORMATTING_FAILED_def

fun sw_from_tx_full_result :: "ergo_tx_serializer_full_result_e \<Rightarrow> u16" where
  "sw_from_tx_full_result ERGO_TX_SERIALIZER_FULL_RES_OK = SW_OK"
| "sw_from_tx_full_result ERGO_TX_SERIALIZER_FULL_RES_MORE_DATA = SW_OK"
| "sw_from_tx_full_result ERGO_TX_SERIALIZER_FULL_RES_ERR_BAD_TOKEN_ID = SW_BAD_TOKEN_ID"
| "sw_from_tx_full_result ERGO_TX_SERIALIZER_FULL_RES_ERR_BAD_TOKEN_VALUE = SW_BAD_TOKEN_VALUE"
| "sw_from_tx_full_result ERGO_TX_SERIALIZER_FULL_RES_ERR_BAD_CONTEXT_EXTENSION_SIZE = SW_BAD_CONTEXT_EXTENSION_SIZE"
| "sw_from_tx_full_result ERGO_TX_SERIALIZER_FULL_RES_ERR_BAD_DATA_INPUT = SW_BAD_DATA_INPUT"
| "sw_from_tx_full_result ERGO_TX_SERIALIZER_FULL_RES_ERR_BAD_INPUT_ID = SW_BAD_BOX_ID"
| "sw_from_tx_full_result ERGO_TX_SERIALIZER_FULL_RES_ERR_BAD_TOKEN_INDEX = SW_BAD_TOKEN_INDEX"
| "sw_from_tx_full_result ERGO_TX_SERIALIZER_FULL_RES_ERR_BAD_FRAME_INDEX = SW_BAD_FRAME_INDEX"
| "sw_from_tx_full_result ERGO_TX_SERIALIZER_FULL_RES_ERR_BAD_INPUT_COUNT = SW_BAD_INPUT_COUNT"
| "sw_from_tx_full_result ERGO_TX_SERIALIZER_FULL_RES_ERR_BAD_OUTPUT_COUNT = SW_BAD_OUTPUT_COUNT"
| "sw_from_tx_full_result ERGO_TX_SERIALIZER_FULL_RES_ERR_TOO_MANY_TOKENS = SW_TOO_MANY_TOKENS"
| "sw_from_tx_full_result ERGO_TX_SERIALIZER_FULL_RES_ERR_TOO_MANY_INPUTS = SW_TOO_MANY_INPUTS"
| "sw_from_tx_full_result ERGO_TX_SERIALIZER_FULL_RES_ERR_TOO_MANY_DATA_INPUTS = SW_TOO_MANY_DATA_INPUTS"
| "sw_from_tx_full_result ERGO_TX_SERIALIZER_FULL_RES_ERR_TOO_MANY_INPUT_FRAMES = SW_TOO_MANY_INPUT_FRAMES"
| "sw_from_tx_full_result ERGO_TX_SERIALIZER_FULL_RES_ERR_TOO_MANY_OUTPUTS = SW_TOO_MANY_OUTPUTS"
| "sw_from_tx_full_result ERGO_TX_SERIALIZER_FULL_RES_ERR_TOO_MUCH_DATA = SW_TOO_MUCH_DATA"
| "sw_from_tx_full_result ERGO_TX_SERIALIZER_FULL_RES_ERR_HASHER = SW_HASHER_ERROR"
| "sw_from_tx_full_result ERGO_TX_SERIALIZER_FULL_RES_ERR_BUFFER = SW_BUFFER_ERROR"
| "sw_from_tx_full_result ERGO_TX_SERIALIZER_FULL_RES_ERR_BAD_STATE = SW_BAD_STATE"
| "sw_from_tx_full_result ERGO_TX_SERIALIZER_FULL_RES_ERR_U64_OVERFLOW = SW_U64_OVERFLOW"
| "sw_from_tx_full_result ERGO_TX_SERIALIZER_FULL_RES_ERR_SMALL_CHUNK = SW_SMALL_CHUNK"

fun sw_from_tx_box_result :: "ergo_tx_serializer_box_result_e \<Rightarrow> u16" where
  "sw_from_tx_box_result ERGO_TX_SERIALIZER_BOX_RES_OK = SW_OK"
| "sw_from_tx_box_result ERGO_TX_SERIALIZER_BOX_RES_MORE_DATA = SW_OK"
| "sw_from_tx_box_result ERGO_TX_SERIALIZER_BOX_RES_ERR_BAD_TOKEN_INDEX = SW_BAD_TOKEN_INDEX"
| "sw_from_tx_box_result ERGO_TX_SERIALIZER_BOX_RES_ERR_BAD_TOKEN_ID = SW_BAD_TOKEN_ID"
| "sw_from_tx_box_result ERGO_TX_SERIALIZER_BOX_RES_ERR_BAD_TOKEN_VALUE = SW_BAD_TOKEN_VALUE"
| "sw_from_tx_box_result ERGO_TX_SERIALIZER_BOX_RES_ERR_TOO_MANY_TOKENS = SW_TOO_MANY_TOKENS"
| "sw_from_tx_box_result ERGO_TX_SERIALIZER_BOX_RES_ERR_TOO_MUCH_DATA = SW_TOO_MUCH_DATA"
| "sw_from_tx_box_result ERGO_TX_SERIALIZER_BOX_RES_ERR_HASHER = SW_HASHER_ERROR"
| "sw_from_tx_box_result ERGO_TX_SERIALIZER_BOX_RES_ERR_BUFFER = SW_BUFFER_ERROR"
| "sw_from_tx_box_result ERGO_TX_SERIALIZER_BOX_RES_ERR_BAD_STATE = SW_BAD_STATE"
| "sw_from_tx_box_result ERGO_TX_SERIALIZER_BOX_RES_ERR_U64_OVERFLOW = SW_U64_OVERFLOW"
| "sw_from_tx_box_result ERGO_TX_SERIALIZER_BOX_RES_ERR_SMALL_CHUNK = SW_SMALL_CHUNK"

lemma sw_from_tx_full_result_ok [simp]: "sw_from_tx_full_result r = SW_OK \<longleftrightarrow> full_res_ok r"
  by (cases r) (simp_all add: sw_defs full_res_ok_def)

lemma sw_from_tx_box_result_ok [simp]: "sw_from_tx_box_result r = SW_OK \<longleftrightarrow> box_res_ok r"
  by (cases r) (simp_all add: sw_defs box_res_ok_def)

text \<open>
  Status words are faithful: the two translations answer SW_OK exactly for OK and MORE_DATA,
  and two different errors of the transaction serializer never share a status word, so the host
  can tell every failure apart; and the status word of a box error is the one that the same error
  has when it is passed on by the transaction serializer.
\<close>

theorem sw_results_faithful:
  "(sw_from_tx_full_result r = SW_OK \<longleftrightarrow> full_res_ok r) \<and>
   (sw_from_tx_full_result r = sw_from_tx_full_result s \<longleftrightarrow> r = s \<or> full_res_ok r \<and> full_res_ok s) \<and>
   sw_from_tx_box_result b = sw_from_tx_full_result (map_box_result b)"
proof (intro conjI)
  show "sw_from_tx_full_result r = SW_OK \<longleftrightarrow> full_res_ok r" by simp
  show "sw_from_tx_full_result r = sw_from_tx_full_result s \<longleftrightarrow> r = s \<or> full_res_ok r \<and> full_res_ok s"
    by (cases r; cases s; simp add: sw_defs full_res_ok_def)
  show "sw_from_tx_box_result b = sw_from_tx_full_result (map_box_result b)" by (cases b) simp_all
qed

end
