(* ===== verification/Amounts.thy ===== *)
theory Amounts
  imports SwResult
begin

text \<open>
  The accounting of a transaction, \<^verbatim>\<open>src/commands/signtx/stx_amounts.h\<close> and
  \<^verbatim>\<open>stx_amounts.c\<close>: the value that leaves the wallet, the fee, and one signed balance
  per token id. The balances (\<open>int64_t\<close>) are kept as 64-bit words, read with \<open>sint\<close>.

  The main theorem is conservation: after any sequence of accepted operations the balances are
  the exact sums over what was added; nothing wraps around.
\<close>

record sign_transaction_amounts_ctx_t =
  am_fee :: u64
  am_value :: u64
  am_tokens :: "u64 list"
  am_tokens_table :: token_table_t

definition stx_amounts_init :: sign_transaction_amounts_ctx_t where
  "stx_amounts_init = \<lparr>am_fee = 0, am_value = 0, am_tokens = replicate (unat TOKEN_MAX_COUNT) 0,
     am_tokens_table = \<lparr>tt_count = 0, tt_tokens = replicate (unat TOKEN_MAX_COUNT) (replicate (unat ERGO_ID_LEN) 0)\<rparr>\<rparr>"

definition stx_amounts_add_input ::
    "sign_transaction_amounts_ctx_t \<Rightarrow> u64 \<Rightarrow> u16 \<times> sign_transaction_amounts_ctx_t" where
  "stx_amounts_add_input ctx v =
     (case checked_add_u64 (am_value ctx) v of
        None \<Rightarrow> (SW_U64_OVERFLOW, ctx)
      | Some s \<Rightarrow> (SW_OK, ctx\<lparr>am_value := s\<rparr>))"

definition stx_amounts_add_input_token ::
    "sign_transaction_amounts_ctx_t \<Rightarrow> bytes \<Rightarrow> bytes \<Rightarrow> u64 \<Rightarrow>
     ergo_tx_serializer_input_result_e \<times> sign_transaction_amounts_ctx_t" where
  "stx_amounts_add_input_token ctx box_id tn_id v =
     (let index = token_table_find_token_index (am_tokens_table ctx) tn_id in
      case (if IS_ELEMENT_FOUND index then (index, ctx)
            else case token_table_add_token (am_tokens_table ctx) tn_id of (index', t) \<Rightarrow>
              (index', ctx\<lparr>am_tokens_table := t,
                 am_tokens := (if IS_ELEMENT_FOUND index' then (am_tokens ctx)[unat index' := 0] else am_tokens ctx)\<rparr>)) of
        (index1, ctx1) \<Rightarrow>
          if \<not> IS_ELEMENT_FOUND index1 then (ERGO_TX_SERIALIZER_INPUT_RES_ERR_TOO_MANY_TOKENS, ctx1)
          else case checked_add_i64 (am_tokens ctx1 ! unat index1) v of
            None \<Rightarrow> (ERGO_TX_SERIALIZER_INPUT_RES_ERR_U64_OVERFLOW, ctx1)
          | Some s \<Rightarrow> (ERGO_TX_SERIALIZER_INPUT_RES_OK, ctx1\<lparr>am_tokens := (am_tokens ctx1)[unat index1 := s]\<rparr>))"

definition stx_amounts_add_output ::
    "sign_transaction_amounts_ctx_t \<Rightarrow> ergo_tx_serializer_box_type_e \<Rightarrow> u64 \<Rightarrow>
     ergo_tx_serializer_box_result_e \<times> sign_transaction_amounts_ctx_t" where
  "stx_amounts_add_output ctx ty v =
     (case ty of
        ERGO_TX_SERIALIZER_BOX_TYPE_CHANGE \<Rightarrow>
          (case checked_sub_u64 (am_value ctx) v of
             None \<Rightarrow> (ERGO_TX_SERIALIZER_BOX_RES_ERR_U64_OVERFLOW, ctx)
           | Some s \<Rightarrow> (ERGO_TX_SERIALIZER_BOX_RES_OK, ctx\<lparr>am_value := s\<rparr>))
      | ERGO_TX_SERIALIZER_BOX_TYPE_FEE \<Rightarrow>
          (case checked_sub_u64 (am_value ctx) v of
             None \<Rightarrow> (ERGO_TX_SERIALIZER_BOX_RES_ERR_U64_OVERFLOW, ctx)
           | Some s \<Rightarrow>
               (let ctx1 = ctx\<lparr>am_value := s\<rparr> in
                case checked_add_u64 (am_fee ctx1) v of
                  None \<Rightarrow> (ERGO_TX_SERIALIZER_BOX_RES_ERR_U64_OVERFLOW, ctx1)
                | Some f \<Rightarrow> (ERGO_TX_SERIALIZER_BOX_RES_OK, ctx1\<lparr>am_fee := f\<rparr>)))
      | ERGO_TX_SERIALIZER_BOX_TYPE_TREE \<Rightarrow> (ERGO_TX_SERIALIZER_BOX_RES_OK, ctx))"

definition stx_amounts_add_output_token ::
    "sign_transaction_amounts_ctx_t \<Rightarrow> ergo_tx_serializer_box_type_e \<Rightarrow> bytes \<Rightarrow> u64 \<Rightarrow>
     ergo_tx_serializer_box_result_e \<times> sign_transaction_amounts_ctx_t" where
  "stx_amounts_add_output_token ctx ty tid v =
     (let index = token_table_find_token_index (am_tokens_table ctx) tid in
      if \<not> IS_ELEMENT_FOUND index then (ERGO_TX_SERIALIZER_BOX_RES_ERR_BAD_TOKEN_ID, ctx)
      else case checked_sub_i64 (am_tokens ctx ! unat index) v of
        None \<Rightarrow> (ERGO_TX_SERIALIZER_BOX_RES_ERR_U64_OVERFLOW, ctx)
      | Some s \<Rightarrow> (ERGO_TX_SERIALIZER_BOX_RES_OK, ctx\<lparr>am_tokens := (am_tokens ctx)[unat index := s]\<rparr>))"

text \<open>The two loops over \<open>uint8_t i < TOKEN_MAX_COUNT\<close>.\<close>

definition count_loop :: "('v \<Rightarrow> bool) \<Rightarrow> 'v list \<Rightarrow> u8" where
  "count_loop P tokens = foldl (\<lambda>count i. if P (tokens ! i) then count + 1 else count) 0 [0..<unat TOKEN_MAX_COUNT]"

primrec index_loop :: "('v \<Rightarrow> bool) \<Rightarrow> 'v list \<Rightarrow> u8 \<Rightarrow> u8 \<Rightarrow> nat list \<Rightarrow> u8" where
  "index_loop P tokens wanted count [] = INDEX_NOT_EXIST"
| "index_loop P tokens wanted count (i # is) =
     (if P (tokens ! i) then
        if count = wanted then of_nat i else index_loop P tokens wanted (count + 1) is
      else index_loop P tokens wanted count is)"

definition stx_amounts_non_zero_tokens_count :: "sign_transaction_amounts_ctx_t \<Rightarrow> u8" where
  "stx_amounts_non_zero_tokens_count ctx = count_loop (\<lambda>t. t \<noteq> 0) (am_tokens ctx)"

definition stx_amounts_non_zero_token_index :: "sign_transaction_amounts_ctx_t \<Rightarrow> u8 \<Rightarrow> u8" where
  "stx_amounts_non_zero_token_index ctx zero_index =
     index_loop (\<lambda>t. t \<noteq> 0) (am_tokens ctx) zero_index 0 [0..<unat TOKEN_MAX_COUNT]"

subsection \<open>Invariant and balances\<close>

definition amounts_wf :: "sign_transaction_amounts_ctx_t \<Rightarrow> bool" where
  "amounts_wf ctx \<longleftrightarrow> token_table_wf (am_tokens_table ctx) \<and> length (am_tokens ctx) = 100"

definition token_balance :: "sign_transaction_amounts_ctx_t \<Rightarrow> bytes \<Rightarrow> int" where
  "token_balance ctx tid =
     (let index = token_table_find_token_index (am_tokens_table ctx) tid in
      if IS_ELEMENT_FOUND index then sint (am_tokens ctx ! unat index) else 0)"

lemma amounts_wf_init: "amounts_wf stx_amounts_init"
  by (simp add: amounts_wf_def stx_amounts_init_def token_table_wf_def)

lemma table_ids_le_100: "token_table_wf t \<Longrightarrow> length (table_ids t) \<le> 100"
  by (simp add: length_table_ids token_table_wf_def)

lemma find_pos_100:
  "token_table_wf t \<Longrightarrow> length tid = 32 \<Longrightarrow> IS_ELEMENT_FOUND (token_table_find_token_index t tid) \<Longrightarrow>
     unat (token_table_find_token_index t tid) < 100"
  using tt.find_first [of t tid] table_ids_le_100 [of t] by auto

lemma find_pos_inj:
  assumes "token_table_wf t" "length a = 32" "length b = 32" "a \<noteq> b"
    "IS_ELEMENT_FOUND (token_table_find_token_index t a)" "IS_ELEMENT_FOUND (token_table_find_token_index t b)"
  shows "unat (token_table_find_token_index t a) \<noteq> unat (token_table_find_token_index t b)"
  using tt.find_first [OF assms(1,2,5)] tt.find_first [OF assms(1,3,6)] assms(4) by metis

text \<open>A change of the balance at the position of one id moves no other balance.\<close>

lemma token_balance_update:
  assumes "amounts_wf ctx" "length tid = 32" "length t = 32"
    and "IS_ELEMENT_FOUND (token_table_find_token_index (am_tokens_table ctx) tid)"
  shows "token_balance (ctx\<lparr>am_tokens := (am_tokens ctx)[unat (token_table_find_token_index (am_tokens_table ctx) tid) := s]\<rparr>) t =
     (if t = tid then sint s else token_balance ctx t)"
  using assms find_pos_100 [of "am_tokens_table ctx" tid] find_pos_inj [of "am_tokens_table ctx" t tid]
  by (auto simp: token_balance_def amounts_wf_def Let_def nth_list_update)

lemma add_output_token_exact:
  assumes "amounts_wf ctx" "length tid = 32"
    and "stx_amounts_add_output_token ctx ty tid v = (ERGO_TX_SERIALIZER_BOX_RES_OK, ctx')"
  shows "amounts_wf ctx' \<and> am_value ctx' = am_value ctx \<and> am_fee ctx' = am_fee ctx \<and>
     am_tokens_table ctx' = am_tokens_table ctx \<and>
     (\<forall>t. length t = 32 \<longrightarrow> token_balance ctx' t = token_balance ctx t - (if t = tid then uint v else 0))"
proof -
  let ?i = "token_table_find_token_index (am_tokens_table ctx) tid"
  obtain s where f: "IS_ELEMENT_FOUND ?i" and s: "checked_sub_i64 (am_tokens ctx ! unat ?i) v = Some s"
    and c: "ctx' = ctx\<lparr>am_tokens := (am_tokens ctx)[unat ?i := s]\<rparr>"
    using assms(3) by (auto simp: stx_amounts_add_output_token_def Let_def split: if_splits option.splits)
  have "sint s = token_balance ctx tid - uint v"
    using sub_i64.step_exact [OF s] f by (simp add: token_balance_def Let_def)
  then show ?thesis
    using c assms(1) token_balance_update [OF assms(1,2) _ f] by (auto simp: amounts_wf_def)
qed

lemma add_input_token_exact:
  assumes "amounts_wf ctx" "length tid = 32"
    and "stx_amounts_add_input_token ctx bid tid v = (ERGO_TX_SERIALIZER_INPUT_RES_OK, ctx')"
  shows "amounts_wf ctx' \<and> am_value ctx' = am_value ctx \<and> am_fee ctx' = am_fee ctx \<and>
     (\<exists>ids. table_ids (am_tokens_table ctx') = table_ids (am_tokens_table ctx) @ ids) \<and>
     (\<forall>t. length t = 32 \<longrightarrow> token_balance ctx' t = token_balance ctx t + (if t = tid then uint v else 0))"
proof -
  let ?t = "am_tokens_table ctx"
  let ?i = "token_table_find_token_index ?t tid"
  define ctx1 where "ctx1 = (if IS_ELEMENT_FOUND ?i then ctx
     else ctx\<lparr>am_tokens_table := snd (token_table_add_token ?t tid),
              am_tokens := (am_tokens ctx)[unat (fst (token_table_add_token ?t tid)) := 0]\<rparr>)"
  let ?j = "token_table_find_token_index (am_tokens_table ctx1) tid"
  have wf: "token_table_wf ?t" using assms(1) by (simp add: amounts_wf_def)
  have a: "\<not> IS_ELEMENT_FOUND ?i \<Longrightarrow> IS_ELEMENT_FOUND (fst (token_table_add_token ?t tid))"
    using assms(3) by (auto simp: stx_amounts_add_input_token_def Let_def split: if_splits prod.splits)
  have j: "IS_ELEMENT_FOUND ?j" "\<not> IS_ELEMENT_FOUND ?i \<Longrightarrow> unat ?j = unat (fst (token_table_add_token ?t tid))"
    "IS_ELEMENT_FOUND ?i \<Longrightarrow> ?j = ?i"
    using tt.find_after_add [OF wf assms(2,2) a] by (auto simp: ctx1_def)
  have w1: "amounts_wf ctx1" "\<exists>ids. table_ids (am_tokens_table ctx1) = table_ids ?t @ ids"
    using assms(1) tt.add_keys [OF wf assms(2) a] by (auto simp: amounts_wf_def ctx1_def)
  have b1: "token_balance ctx1 t = token_balance ctx t" if t: "length t = 32" for t
  proof (cases "IS_ELEMENT_FOUND ?i")
    case False
    note fa = tt.find_after_add [OF wf assms(2) t a, OF False]
    have "unat (fst (token_table_add_token ?t tid)) < 100"
      using j(1) j(2) [OF False] find_pos_100 [OF _ assms(2) j(1)] w1(1) by (simp add: amounts_wf_def)
    moreover have "IS_ELEMENT_FOUND (token_table_find_token_index ?t t) \<Longrightarrow>
        unat (token_table_find_token_index ?t t) \<noteq> unat (fst (token_table_add_token ?t tid))"
      using tt.find_first [OF wf t] tt.add_keys [OF wf assms(2) a [OF False]] by auto
    moreover have "t = tid \<Longrightarrow> \<not> IS_ELEMENT_FOUND (token_table_find_token_index ?t t)" using False by simp
    ultimately show ?thesis
      using fa False assms(1) j(2) [OF False]
      by (auto simp: token_balance_def ctx1_def Let_def amounts_wf_def nth_list_update)
  qed (simp add: ctx1_def)
  obtain s where s: "checked_add_i64 (am_tokens ctx1 ! unat ?j) v = Some s"
    and c: "ctx' = ctx1\<lparr>am_tokens := (am_tokens ctx1)[unat ?j := s]\<rparr>"
    using assms(3) a j by (auto simp: stx_amounts_add_input_token_def Let_def ctx1_def split: if_splits option.splits prod.splits)
  have "sint s = token_balance ctx1 tid + uint v"
    using add_i64.step_exact [OF s] j(1) by (simp add: token_balance_def Let_def)
  moreover have "am_value ctx1 = am_value ctx" "am_fee ctx1 = am_fee ctx" by (simp_all add: ctx1_def)
  ultimately show ?thesis
    using c w1 b1 token_balance_update [OF w1(1) assms(2) _ j(1)] by (auto simp: amounts_wf_def)
qed

subsection \<open>Conservation\<close>

datatype amount_op =
    AmInput u64
  | AmInputToken bytes bytes u64
  | AmOutput ergo_tx_serializer_box_type_e u64
  | AmOutputToken ergo_tx_serializer_box_type_e bytes u64

fun amount_exec :: "sign_transaction_amounts_ctx_t \<Rightarrow> amount_op \<Rightarrow> sign_transaction_amounts_ctx_t option" where
  "amount_exec ctx (AmInput v) =
     (case stx_amounts_add_input ctx v of (r, c) \<Rightarrow> if r = SW_OK then Some c else None)"
| "amount_exec ctx (AmInputToken bid tid v) =
     (case stx_amounts_add_input_token ctx bid tid v of (r, c) \<Rightarrow>
        if r = ERGO_TX_SERIALIZER_INPUT_RES_OK then Some c else None)"
| "amount_exec ctx (AmOutput ty v) =
     (case stx_amounts_add_output ctx ty v of (r, c) \<Rightarrow>
        if r = ERGO_TX_SERIALIZER_BOX_RES_OK then Some c else None)"
| "amount_exec ctx (AmOutputToken ty tid v) =
     (case stx_amounts_add_output_token ctx ty tid v of (r, c) \<Rightarrow>
        if r = ERGO_TX_SERIALIZER_BOX_RES_OK then Some c else None)"

fun amount_op_wf :: "amount_op \<Rightarrow> bool" where
  "amount_op_wf (AmInputToken _ tid _) = (length tid = 32)"
| "amount_op_wf (AmOutputToken _ tid _) = (length tid = 32)"
| "amount_op_wf _ = True"

text \<open>What an operation adds to the value, the fee and the balance of a token.\<close>

fun value_delta :: "amount_op \<Rightarrow> int" where
  "value_delta (AmInput v) = uint v"
| "value_delta (AmOutput ERGO_TX_SERIALIZER_BOX_TYPE_TREE v) = 0"
| "value_delta (AmOutput _ v) = - uint v"
| "value_delta _ = 0"

fun fee_delta :: "amount_op \<Rightarrow> int" where
  "fee_delta (AmOutput ERGO_TX_SERIALIZER_BOX_TYPE_FEE v) = uint v"
| "fee_delta _ = 0"

fun token_delta :: "bytes \<Rightarrow> amount_op \<Rightarrow> int" where
  "token_delta t (AmInputToken _ tid v) = (if t = tid then uint v else 0)"
| "token_delta t (AmOutputToken _ tid v) = (if t = tid then - uint v else 0)"
| "token_delta t _ = 0"

lemma token_balance_cong [simp]:
  "token_balance (ctx\<lparr>am_value := v\<rparr>) t = token_balance ctx t" "token_balance (ctx\<lparr>am_fee := v\<rparr>) t = token_balance ctx t"
  "amounts_wf (ctx\<lparr>am_value := v\<rparr>) = amounts_wf ctx" "amounts_wf (ctx\<lparr>am_fee := v\<rparr>) = amounts_wf ctx"
  by (simp_all add: token_balance_def amounts_wf_def Let_def)

lemma add_input_exact:
  "stx_amounts_add_input ctx v = (SW_OK, ctx') \<Longrightarrow>
     \<exists>s. ctx' = ctx\<lparr>am_value := s\<rparr> \<and> uint s = uint (am_value ctx) + uint v"
  by (auto simp: stx_amounts_add_input_def sw_defs split: option.splits dest: add_u64.step_exact)

lemma add_output_exact:
  "stx_amounts_add_output ctx ty v = (ERGO_TX_SERIALIZER_BOX_RES_OK, ctx') \<Longrightarrow>
     \<exists>s f. ctx' = ctx\<lparr>am_value := s, am_fee := f\<rparr> \<and> uint s = uint (am_value ctx) + value_delta (AmOutput ty v) \<and>
       uint f = uint (am_fee ctx) + fee_delta (AmOutput ty v)"
  by (cases ty; cases ctx) (auto simp: stx_amounts_add_output_def Let_def split: option.splits
      dest!: add_u64.step_exact sub_u64.step_exact)

lemma amount_exec_exact:
  assumes "amount_exec ctx p = Some ctx'" and "amounts_wf ctx" and "amount_op_wf p"
  shows "amounts_wf ctx' \<and> uint (am_value ctx') = uint (am_value ctx) + value_delta p \<and>
     uint (am_fee ctx') = uint (am_fee ctx) + fee_delta p \<and>
     (\<forall>t. length t = 32 \<longrightarrow> token_balance ctx' t = token_balance ctx t + token_delta t p)"
proof (cases p)
  case (AmInput v)
  then have "stx_amounts_add_input ctx v = (SW_OK, ctx')" using assms(1) by (auto split: prod.splits if_splits)
  from add_input_exact [OF this] AmInput assms(2) show ?thesis by auto
next
  case (AmInputToken bid tid v)
  then show ?thesis using assms add_input_token_exact [OF assms(2)] by (auto split: prod.splits if_splits)
next
  case (AmOutput ty v)
  then have "stx_amounts_add_output ctx ty v = (ERGO_TX_SERIALIZER_BOX_RES_OK, ctx')"
    using assms(1) by (auto split: prod.splits if_splits)
  from add_output_exact [OF this] AmOutput assms(2) show ?thesis by auto
next
  case (AmOutputToken ty tid v)
  then show ?thesis using assms add_output_token_exact [OF assms(2)] by (auto split: prod.splits if_splits)
qed

text \<open>
  C25. Conservation of amounts. After any sequence of accepted operations, from any well-formed
  context: the value is the value before plus the input values minus the values of change and fee
  outputs (what leaves the wallet), the fee is the sum of the fee outputs, and the balance of every
  token id is its input amounts minus its output amounts. All sums are exact integers: an operation
  that would overflow is refused.
\<close>

theorem amounts_conservation:
  assumes "accumulate amount_exec ctx ps = Some ctx'" and "amounts_wf ctx" and "\<forall>p \<in> set ps. amount_op_wf p"
  shows "amounts_wf ctx' \<and> uint (am_value ctx') = uint (am_value ctx) + (\<Sum>p\<leftarrow>ps. value_delta p) \<and>
     uint (am_fee ctx') = uint (am_fee ctx) + (\<Sum>p\<leftarrow>ps. fee_delta p) \<and>
     (\<forall>t. length t = 32 \<longrightarrow> token_balance ctx' t = token_balance ctx t + (\<Sum>p\<leftarrow>ps. token_delta t p))"
  using assms
proof (induction ps arbitrary: ctx)
  case (Cons p ps)
  then obtain c1 where c1: "amount_exec ctx p = Some c1" "accumulate amount_exec c1 ps = Some ctx'"
    by (auto split: option.splits)
  note e = amount_exec_exact [OF c1(1) Cons.prems(2)]
  show ?case using Cons.IH [OF c1(2)] e Cons.prems(3) by auto
qed simp

text \<open>Witness: an input, a change, a fee and a payment output, and a token of which 5 come in and 2 go out.\<close>

definition demo_amounts :: sign_transaction_amounts_ctx_t where
  "demo_amounts = stx_amounts_init\<lparr>am_value := 3\<rparr>"

definition demo_amount_ops :: "amount_op list" where
  "demo_amount_ops = [AmInput 10, AmOutput ERGO_TX_SERIALIZER_BOX_TYPE_CHANGE 4, AmOutput ERGO_TX_SERIALIZER_BOX_TYPE_FEE 1,
     AmOutput ERGO_TX_SERIALIZER_BOX_TYPE_TREE 5, AmInputToken (demo_id 1) (demo_id 9) 5,
     AmOutputToken ERGO_TX_SERIALIZER_BOX_TYPE_CHANGE (demo_id 9) 2]"

theorem amounts_conservation_witness:
  "\<exists>ctx. accumulate amount_exec demo_amounts demo_amount_ops = Some ctx \<and> uint (am_value ctx) = 8 \<and> uint (am_fee ctx) = 1 \<and>
     token_balance ctx (demo_id 9) = 3"
proof -
  let ?r = "accumulate amount_exec demo_amounts demo_amount_ops"
  have id32: "length (demo_id x) = 32" for x by (simp add: demo_id_def)
  have "?r \<noteq> None"
    by (simp add: demo_amount_ops_def demo_amounts_def stx_amounts_init_def stx_amounts_add_input_def
        stx_amounts_add_output_def checked_add_u64_def checked_sub_u64_def UINT64_MAX_def sw_defs
        stx_amounts_add_input_token_def stx_amounts_add_output_token_def token_table_find_token_index_def
        token_table_find_loop.simps IS_ELEMENT_FOUND_def INDEX_NOT_EXIST_def token_table_add_token_def TOKEN_MAX_COUNT_def
        checked_add_i64_def checked_sub_i64_def INT64_MAX_def memcmp_eq_def id32)
  then obtain c where c: "?r = Some c" by blast
  have wf: "amounts_wf demo_amounts" using amounts_wf_init by (simp add: demo_amounts_def)
  have ops: "\<forall>p \<in> set demo_amount_ops. amount_op_wf p" by (simp add: demo_amount_ops_def id32)
  have "token_balance demo_amounts (demo_id 9) = 0"
    by (simp add: token_balance_def demo_amounts_def stx_amounts_init_def token_table_find_token_index_def
        token_table_find_loop.simps IS_ELEMENT_FOUND_def)
  with amounts_conservation [OF c wf ops]
  have "uint (am_value c) = 8 \<and> uint (am_fee c) = 1 \<and> token_balance c (demo_id 9) = 3"
    by (simp add: demo_amount_ops_def demo_amounts_def stx_amounts_init_def id32)
  with c show ?thesis by blast
qed

subsection \<open>The tokens shown to the user\<close>

lemma foldl_count:
  "foldl (\<lambda>count i. if P (ts ! i) then count + 1 else count) c is = c + (of_nat (length (filter (\<lambda>i. P (ts ! i)) is)) :: u8)"
  by (induction "is" arbitrary: c) simp_all

lemma count_loop_eq: "unat (count_loop P ts) = length (filter (\<lambda>i. P (ts ! i)) [0..<100])"
proof -
  have "length (filter (\<lambda>i. P (ts ! i)) [0..<100]) \<le> 100" using length_filter_le [of _ "[0..<100]"] by simp
  then show ?thesis by (simp add: count_loop_def foldl_count) (rule unat_of_nat_small, simp)
qed

lemma index_loop_eq:
  "unat c \<le> unat w \<Longrightarrow> unat c + length is \<le> 255 \<Longrightarrow> index_loop P ts w c is =
     (if unat w - unat c < length (filter (\<lambda>i. P (ts ! i)) is)
      then of_nat (filter (\<lambda>i. P (ts ! i)) is ! (unat w - unat c)) else INDEX_NOT_EXIST)"
proof (induction "is" arbitrary: c)
  case (Cons i "is")
  have u: "unat (c + 1) = unat c + 1" using Cons.prems(2) by (intro u8_succ [of _ 255]) simp_all
  show ?case
  proof (cases "P (ts ! i) \<and> c \<noteq> w")
    case True
    then have lt: "unat c < unat w" using Cons.prems(1) by (metis le_neq_implies_less word_unat_eq_iff)
    then have "unat w - unat c = Suc (unat w - unat (c + 1))" using u by simp
    with True lt u Cons.IH [of "c + 1"] Cons.prems(2) show ?thesis by simp
  next
    case False
    then show ?thesis using Cons.IH [of c] Cons.prems by auto
  qed
qed simp

text \<open>
  C24. The two functions behind the screens of minted and burnt tokens list every such token: the count is the number of table
  entries with a non-zero balance, the k-th index is the k-th such entry in increasing order, and
  an index beyond the count is answered with INDEX_NOT_EXIST.
\<close>

theorem non_zero_tokens_listed:
  "unat (stx_amounts_non_zero_tokens_count ctx) = length (filter (\<lambda>i. am_tokens ctx ! i \<noteq> 0) [0..<100]) \<and>
   stx_amounts_non_zero_token_index ctx k =
     (if k < stx_amounts_non_zero_tokens_count ctx
      then of_nat (filter (\<lambda>i. am_tokens ctx ! i \<noteq> 0) [0..<100] ! unat k) else INDEX_NOT_EXIST)"
  using index_loop_eq [of 0 k "[0..<100]" "\<lambda>t. t \<noteq> 0" "am_tokens ctx"] count_loop_eq [of "\<lambda>t. t \<noteq> 0" "am_tokens ctx"]
  by (simp add: stx_amounts_non_zero_tokens_count_def stx_amounts_non_zero_token_index_def word_less_nat_alt)

end
