(* ===== verification/Bip32Ext.thy ===== *)
theory Bip32Ext
  imports Buffer
begin

text \<open>
  BIP32 derivation paths: reading a path from a command (\<open>bip32_path_read\<close> of the SDK, in the
  copy \<^verbatim>\<open>unit-tests/utils/bip32.c\<close>, and \<open>buffer_read_bip32_path\<close> of
  \<^verbatim>\<open>buffer.c\<close>), and \<^verbatim>\<open>src/common/bip32_ext.h\<close>/\<^verbatim>\<open>.c\<close>:
  validation and comparison. A path is the C array of \<open>MAX_BIP32_PATH\<close> words with its length.

  The comparisons are \<open>memcmp\<close> on the array, so the words are laid out in memory as on the device,
  little-endian (\<open>path_mem\<close>).
\<close>

definition MAX_BIP32_PATH :: size_t where "MAX_BIP32_PATH = 10"
definition BIP32_HARDENED_CONSTANT :: u32 where "BIP32_HARDENED_CONSTANT = 0x80000000"
definition BIP32_HARDENED :: "u32 \<Rightarrow> u32" where "BIP32_HARDENED x = BIP32_HARDENED_CONSTANT + x"
definition BIP32_ERGO_COIN :: u32 where "BIP32_ERGO_COIN = 429"

datatype bip32_path_validation_type_e =
    BIP32_PATH_VALIDATE_COIN
  | BIP32_PATH_VALIDATE_COIN_GE2_HARD
  | BIP32_PATH_VALIDATE_ACCOUNT_E3
  | BIP32_PATH_VALIDATE_ACCOUNT_GE3
  | BIP32_PATH_VALIDATE_ADDRESS_E5
  | BIP32_PATH_VALIDATE_ADDRESS_GE5

subsection \<open>Reading a path\<close>

function bip32_path_read_loop ::
    "bytes \<Rightarrow> size_t \<Rightarrow> size_t \<Rightarrow> size_t \<Rightarrow> size_t \<Rightarrow> u32 list \<Rightarrow> bool \<times> u32 list" where
  "bip32_path_read_loop inp in_len out_len i offset out =
     (if i < out_len then
        if offset + 4 > in_len then (False, out)
        else bip32_path_read_loop inp in_len out_len (i + 1) (offset + 4) (out[unat i := read_u32_be inp offset])
      else (True, out))"
  by pat_completeness auto
termination
proof (relation "measure (\<lambda>(inp, in_len, out_len, i, offset, out). unat out_len - unat i)")
  fix i out_len :: size_t
  assume "i < out_len"
  then have "unat i < unat out_len" "unat (i + 1) = unat i + 1"
    using unat_u32_less [of out_len] by (simp_all add: word_less_nat_alt word_add_no_wrap)
  then show "((inp, in_len, out_len, i + 1, offset + 4, out'), inp, in_len, out_len, i, offset, out)
      \<in> measure (\<lambda>(inp, in_len, out_len, i, offset, out). unat out_len - unat i)"
    for inp :: bytes and in_len offset :: size_t and out out' :: "u32 list"
    by simp
qed simp

declare bip32_path_read_loop.simps [simp del]

definition bip32_path_read :: "bytes \<Rightarrow> size_t \<Rightarrow> u32 list \<Rightarrow> size_t \<Rightarrow> bool \<times> u32 list" where
  "bip32_path_read inp in_len out out_len =
     (if out_len = 0 \<or> out_len > MAX_BIP32_PATH then (False, out)
      else bip32_path_read_loop inp in_len out_len 0 0 out)"

definition buffer_read_bip32_path :: "buffer_t \<Rightarrow> u32 list \<Rightarrow> size_t \<Rightarrow> bool \<times> u32 list \<times> buffer_t" where
  "buffer_read_bip32_path b out out_len =
     (case bip32_path_read (drop (unat (buf_offset b)) (buf_ptr b)) (buf_size b - buf_offset b) out out_len of (ok, out') \<Rightarrow>
        if \<not> ok then (False, out', b)
        else (True, out', snd (buffer_seek_cur b (4 * out_len))))"

subsection \<open>Validation and comparison\<close>

definition bip32_path_validate :: "u32 list \<Rightarrow> u8 \<Rightarrow> u32 \<Rightarrow> u32 \<Rightarrow> bip32_path_validation_type_e \<Rightarrow> bool" where
  "bip32_path_validate path path_len ptype coin vtype =
     (if path_len \<le> 2 \<or> path ! 0 \<noteq> ptype \<or> path ! 1 \<noteq> coin then False
      else case vtype of
        BIP32_PATH_VALIDATE_COIN \<Rightarrow> True
      | BIP32_PATH_VALIDATE_COIN_GE2_HARD \<Rightarrow>
          list_all (\<lambda>i. \<not> path ! i < BIP32_HARDENED_CONSTANT) [2..<unat path_len]
      | BIP32_PATH_VALIDATE_ACCOUNT_E3 \<Rightarrow> path_len = 3 \<and> path ! 2 \<ge> BIP32_HARDENED_CONSTANT
      | BIP32_PATH_VALIDATE_ACCOUNT_GE3 \<Rightarrow>
          list_all (\<lambda>i. \<not> path ! i < BIP32_HARDENED_CONSTANT) [2..<unat path_len]
      | BIP32_PATH_VALIDATE_ADDRESS_E5 \<Rightarrow>
          path_len = 5 \<and> path ! 2 \<ge> BIP32_HARDENED_CONSTANT \<and> (path ! 3 = 0 \<or> path ! 3 = 1) \<and>
          path ! 4 < BIP32_HARDENED_CONSTANT
      | BIP32_PATH_VALIDATE_ADDRESS_GE5 \<Rightarrow>
          if path_len < 5 then False
          else if path ! 2 < BIP32_HARDENED_CONSTANT then False
          else if path ! 3 \<noteq> 0 \<and> path ! 3 \<noteq> 1 then False
          else list_all (\<lambda>i. \<not> path ! i \<ge> BIP32_HARDENED_CONSTANT) [4..<unat path_len])"

definition path_mem :: "u32 list \<Rightarrow> bytes" where
  "path_mem path = concat (map (\<lambda>w. write_u32_le (replicate 4 0) 0 w) path)"

definition bip32_path_is_equal :: "u32 list \<Rightarrow> u8 \<Rightarrow> u32 list \<Rightarrow> u8 \<Rightarrow> bool" where
  "bip32_path_is_equal path_1 len_1 path_2 len_2 \<longleftrightarrow>
     len_1 = len_2 \<and> memcmp_eq (path_mem path_1) (path_mem path_2) (unat len_1)"

definition bip32_path_same_account :: "u32 list \<Rightarrow> u8 \<Rightarrow> u32 list \<Rightarrow> u8 \<Rightarrow> bool" where
  "bip32_path_same_account path_1 len_1 path_2 len_2 \<longleftrightarrow>
     len_1 \<ge> 3 \<and> len_2 \<ge> 3 \<and> memcmp_eq (path_mem path_1) (path_mem path_2) 3"

subsection \<open>What is read\<close>

definition path_words :: "bytes \<Rightarrow> nat \<Rightarrow> u32 list" where
  "path_words d n = map (\<lambda>k. word_of_be (take 4 (drop (4 * k) d)) 0) [0..<n]"

lemma read_u32_be_word:
  assumes "unat off + 4 \<le> length d" and "unat off + 4 < 2 ^ 32"
  shows "read_u32_be d off = word_of_be (take 4 (drop (unat off) d)) 0"
proof -
  have "unat (off + 0) = unat off" "unat (off + 1) = unat off + 1" "unat (off + 2) = unat off + 2" "unat (off + 3) = unat off + 3"
    using assms(2) by (simp_all add: word_add_no_wrap)
  then show ?thesis
    using assms(1) list_of_4 [of "drop (unat off) d"] by (simp add: read_u32_be_def push_bit_or or.assoc)
qed

lemma bip32_path_read_loop_eq:
  assumes "unat n \<le> 10" "unat i \<le> unat n" "unat off = 4 * unat i" "unat off \<le> unat in_len"
    "unat in_len \<le> length d" "unat n \<le> length out" "take (unat i) out = path_words d (unat i)"
  shows "if 4 * unat n \<le> unat in_len
     then bip32_path_read_loop d in_len n i off out = (True, path_words d (unat n) @ drop (unat n) out)
     else \<not> fst (bip32_path_read_loop d in_len n i off out)"
  using assms
proof (induction d in_len n i off out rule: bip32_path_read_loop.induct)
  case (1 d in_len n i off out)
  show ?case
  proof (cases "i < n")
    case False
    then have "unat i = unat n" using "1.prems"(2) by (simp add: word_less_nat_alt)
    then show ?thesis
      using "1.prems" False append_take_drop_id [of "unat n" out]
      by (simp add: bip32_path_read_loop.simps [of d in_len n i off out])
  next
    case True
    then have lt: "unat i < unat n" by (simp add: word_less_nat_alt)
    have i1: "unat (i + 1) = unat i + 1" using lt "1.prems"(1) by (simp add: word_add_no_wrap)
    have o4: "unat (off + 4) = 4 * unat i + 4" using lt "1.prems"(1,3) by (simp add: word_add_no_wrap)
    show ?thesis
    proof (cases "in_len < off + 4")
      case True
      then have "\<not> 4 * unat n \<le> unat in_len" using lt o4 by (simp add: word_less_nat_alt)
      then show ?thesis using True \<open>i < n\<close> by (simp add: bip32_path_read_loop.simps [of d in_len n i off out])
    next
      case False
      then have le: "4 * unat i + 4 \<le> unat in_len" using o4 by (simp add: word_less_nat_alt)
      have w: "read_u32_be d off = word_of_be (take 4 (drop (4 * unat i) d)) 0"
        using read_u32_be_word [of off d] le "1.prems"(3,5) lt "1.prems"(1) by simp
      have tk: "take (unat i + 1) (out[unat i := read_u32_be d off]) = path_words d (unat i + 1)"
        using "1.prems"(6,7) lt w by (simp add: take_Suc_conv_app_nth path_words_def)
      have dr: "drop (unat n) (out[unat i := read_u32_be d off]) = drop (unat n) out" using lt by simp
      show ?thesis
        using "1.IH" [OF \<open>i < n\<close> False] "1.prems" lt i1 o4 le tk dr False \<open>i < n\<close>
        by (simp add: bip32_path_read_loop.simps [of d in_len n i off out])
    qed
  qed
qed

lemma buffer_read_bip32_path_eq:
  assumes "buffer_wf b" and "length out = 10"
  shows "if 0 < unat n \<and> unat n \<le> 10 \<and> 4 * unat n \<le> length (buffer_data b)
     then buffer_read_bip32_path b out n =
       (True, path_words (buffer_data b) (unat n) @ drop (unat n) out, buffer_skip b (4 * n))
     else \<not> fst (buffer_read_bip32_path b out n)"
proof (cases "0 < unat n \<and> unat n \<le> 10")
  case True
  let ?p = "drop (unat (buf_offset b)) (buf_ptr b)" and ?l = "buf_size b - buf_offset b"
  have l: "unat ?l = length (buffer_data b)" "unat ?l \<le> length ?p"
    using buffer_wfD [OF assms(1)] length_buffer_data [OF assms(1)] by (simp_all add: buffer_data_len_def)
  have ok: "n \<noteq> 0" "\<not> n > MAX_BIP32_PATH" using True by (auto simp: MAX_BIP32_PATH_def word_less_nat_alt)
  have r: "if 4 * unat n \<le> unat ?l then bip32_path_read_loop ?p ?l n 0 0 out = (True, path_words ?p (unat n) @ drop (unat n) out)
     else \<not> fst (bip32_path_read_loop ?p ?l n 0 0 out)"
    using bip32_path_read_loop_eq [of n 0 0 ?l ?p out] True l assms(2) by (simp add: path_words_def)
  have d: "buffer_data b = take (unat ?l) ?p" by (simp add: buffer_data_def buffer_data_len_def buffer_read_ptr_def)
  have w: "path_words ?p (unat n) = path_words (buffer_data b) (unat n)" if "4 * unat n \<le> unat ?l"
    using that by (auto simp: path_words_def d drop_take min_def)
  have n4: "unat (4 * n) = 4 * unat n" using True by (simp add: unat_word_ariths)
  show ?thesis
    using r True ok l w n4 buffer_seek_cur_ok [OF assms(1), of "4 * n"]
    by (cases "4 * unat n \<le> length (buffer_data b)")
      (auto simp: buffer_read_bip32_path_def bip32_path_read_def split: prod.splits)
next
  case False
  then have "n = 0 \<or> n > MAX_BIP32_PATH" by (auto simp: MAX_BIP32_PATH_def word_less_nat_alt unat_eq_zero)
  then show ?thesis using False by (auto simp: buffer_read_bip32_path_def bip32_path_read_def)
qed

text \<open>The big-endian encoding of a path, as the host sends it.\<close>

definition path_be :: "u32 list \<Rightarrow> bytes" where
  "path_be ws = concat (map (\<lambda>w. write_u32_be (replicate 4 0) 0 w) ws)"

lemma write_u32_be_4: "write_u32_be (replicate 4 0) 0 w = [ucast (drop_bit 24 w), ucast (drop_bit 16 w), ucast (drop_bit 8 w), ucast w]"
  by (simp add: write_u32_be_def mem_write_def)

lemma path_words_be: "path_words (path_be ws @ rest) (length ws) = ws"
proof (induction ws)
  case (Cons w ws)
  have "path_words (x # y # z # t # d) (Suc n) = word_of_be [x, y, z, t] 0 # path_words d n" for x y z t d n
    unfolding path_words_def upt_conv_Cons [OF zero_less_Suc] map_Suc_upt [symmetric]
    by (simp add: numeral_eq_Suc)
  with Cons show ?case by (simp add: path_be_def write_u32_be_4 word_of_be_u32 del: word_of_be.simps)
qed (simp add: path_words_def)

lemma length_path_be: "length (path_be ws) = 4 * length ws"
  by (induction ws) (simp_all add: path_be_def write_u32_be_4)

text \<open>
  C27. Reading a path. From a buffer that holds the big-endian encoding of one to ten words, with
  anything behind it, the reader stores exactly these words at the start of the path array, leaves
  the rest of the array alone and moves the buffer behind the path. With no words, more than ten
  or too little data it answers false.
\<close>

theorem bip32_path_roundtrip:
  assumes "buffer_wf b" and "length out = 10"
  shows "(\<forall>ws rest. 0 < length ws \<and> length ws \<le> 10 \<and> buffer_data b = path_be ws @ rest \<longrightarrow>
        buffer_read_bip32_path b out (of_nat (length ws)) =
          (True, ws @ drop (length ws) out, buffer_skip b (4 * of_nat (length ws)))) \<and>
     (\<forall>n. fst (buffer_read_bip32_path b out n) \<longleftrightarrow> 0 < unat n \<and> unat n \<le> 10 \<and> 4 * unat n \<le> length (buffer_data b))"
proof (intro conjI allI impI)
  fix ws rest
  assume a: "0 < length ws \<and> length ws \<le> 10 \<and> buffer_data b = path_be ws @ rest"
  then have n: "unat (of_nat (length ws) :: size_t) = length ws" by (intro unat_of_nat_small) simp
  show "buffer_read_bip32_path b out (of_nat (length ws)) =
      (True, ws @ drop (length ws) out, buffer_skip b (4 * of_nat (length ws)))"
    using buffer_read_bip32_path_eq [OF assms, of "of_nat (length ws)"] a n
    by (simp add: path_words_be length_path_be)
next
  fix n
  show "fst (buffer_read_bip32_path b out n) \<longleftrightarrow> 0 < unat n \<and> unat n \<le> 10 \<and> 4 * unat n \<le> length (buffer_data b)"
    using buffer_read_bip32_path_eq [OF assms, of n] by (auto split: if_splits)
qed

text \<open>Witness: the path 44'/429'.\<close>

theorem bip32_path_roundtrip_witness:
  "fst (snd (buffer_read_bip32_path (buffer_init [0x80, 0, 0, 44, 0x80, 0, 1, 0xAD, 7] 9) (replicate 10 0) 2)) =
     [BIP32_HARDENED 44, BIP32_HARDENED 429] @ replicate 8 0"
proof -
  let ?b = "buffer_init [0x80, 0, 0, 44, 0x80, 0, 1, 0xAD, 7] 9" and ?ws = "[BIP32_HARDENED 44, BIP32_HARDENED 429]"
  have wf: "buffer_wf ?b" by (rule buffer_wf_init) simp
  have d: "buffer_data ?b = path_be ?ws @ [7]" by code_simp
  have "buffer_read_bip32_path ?b (replicate 10 0) (of_nat (length ?ws)) =
      (True, ?ws @ drop (length ?ws) (replicate 10 0), buffer_skip ?b (4 * of_nat (length ?ws)))"
    using conjunct1 [OF bip32_path_roundtrip [OF wf, of "replicate 10 0"], rule_format, of ?ws "[7]"] d by simp
  then show ?thesis by simp
qed

subsection \<open>The kinds of paths\<close>

text \<open>Facts about the validation that the callers rely on.\<close>

lemma validate_e5_iff:
  "bip32_path_validate p n t c BIP32_PATH_VALIDATE_ADDRESS_E5 \<longleftrightarrow>
     n = 5 \<and> bip32_path_validate p n t c BIP32_PATH_VALIDATE_ADDRESS_GE5"
  by (auto simp: bip32_path_validate_def not_less not_le)

lemma validate_prefix:
  "bip32_path_validate p n t c v \<Longrightarrow> 2 < n \<and> p ! 0 = t \<and> p ! 1 = c"
  by (auto simp: bip32_path_validate_def split: if_splits)

lemma write_u32_le_4: "write_u32_le (replicate 4 0) 0 w = [ucast w, ucast (drop_bit 8 w), ucast (drop_bit 16 w), ucast (drop_bit 24 w)]"
  by (simp add: write_u32_le_def mem_write_def)

lemma path_mem_8:
  assumes "2 \<le> length p"
  shows "take 8 (path_mem p) = write_u32_le (replicate 4 0) 0 (p ! 0) @ write_u32_le (replicate 4 0) 0 (p ! 1)"
proof -
  from assms obtain x y q where "p = x # y # q" by (cases p; cases "tl p") auto
  then show ?thesis by (simp add: path_mem_def write_u32_le_4)
qed

lemma bip32_same_account_always:
  assumes "bip32_path_validate p n t c BIP32_PATH_VALIDATE_ADDRESS_GE5"
    and "bip32_path_validate q k t c BIP32_PATH_VALIDATE_ADDRESS_GE5" and "length p = 10" and "length q = 10"
  shows "bip32_path_same_account p n q k \<and> (n = k \<and> n \<le> 8 \<longrightarrow> bip32_path_is_equal p n q k)"
proof -
  have v: "2 < n" "2 < k" "p ! 0 = q ! 0" "p ! 1 = q ! 1"
    using validate_prefix [OF assms(1)] validate_prefix [OF assms(2)] by simp_all
  then have "take 8 (path_mem p) = take 8 (path_mem q)" using path_mem_8 assms(3,4) by simp
  then have tk: "take m (path_mem p) = take m (path_mem q)" if "m \<le> 8" for m using that by (metis take_take min.absorb1)
  have "3 \<le> n" "3 \<le> k" using v by (simp_all add: word_le_nat_alt word_less_nat_alt)
  then show ?thesis
    using tk by (auto simp: bip32_path_same_account_def bip32_path_is_equal_def memcmp_eq_def word_le_nat_alt)
qed

text \<open>
  C28. The comparison of paths counts bytes, not words. For two valid address paths of the same
  purpose and coin, \<open>bip32_path_same_account\<close> always answers true, whatever their accounts, and
  \<open>bip32_path_is_equal\<close> answers true whenever their lengths agree, up to length eight, whatever
  accounts and indices they have. So a change output is never recognised as belonging to another
  account, and after one approved change path of length five every other one counts as approved.
\<close>

theorem bip32_comparison_ignores_account:
  assumes "bip32_path_validate p n t c BIP32_PATH_VALIDATE_ADDRESS_GE5"
    and "bip32_path_validate q k t c BIP32_PATH_VALIDATE_ADDRESS_GE5" and "length p = 10" and "length q = 10"
  shows "bip32_path_same_account p n q k \<and> (n = k \<and> n \<le> 8 \<longrightarrow> bip32_path_is_equal p n q k)"
  by (rule bip32_same_account_always [OF assms])

text \<open>Witness: the first addresses of account 0 and an address of account 7.\<close>

theorem bip32_comparison_ignores_account_witness:
  "bip32_path_is_equal ([BIP32_HARDENED 44, BIP32_HARDENED 429, BIP32_HARDENED 0, 0, 0] @ replicate 5 0) 5
     ([BIP32_HARDENED 44, BIP32_HARDENED 429, BIP32_HARDENED 7, 1, 900] @ replicate 5 0) 5"
proof -
  let ?p = "[BIP32_HARDENED 44, BIP32_HARDENED 429, BIP32_HARDENED 0, 0, 0] @ replicate 5 0"
  let ?q = "[BIP32_HARDENED 44, BIP32_HARDENED 429, BIP32_HARDENED 7, 1, 900] @ replicate 5 0"
  have "bip32_path_validate ?p 5 (BIP32_HARDENED 44) (BIP32_HARDENED BIP32_ERGO_COIN) BIP32_PATH_VALIDATE_ADDRESS_GE5"
    "bip32_path_validate ?q 5 (BIP32_HARDENED 44) (BIP32_HARDENED BIP32_ERGO_COIN) BIP32_PATH_VALIDATE_ADDRESS_GE5"
    by code_simp+
  from bip32_comparison_ignores_account [OF this] show ?thesis by simp
qed

end
