(* ===== verification/OutputInfo.thy ===== *)
theory OutputInfo
  imports Amounts ErgoTree Bip32Ext
begin

text \<open>
  What is shown of an output, \<^verbatim>\<open>src/commands/signtx/stx_output.h\<close> and
  \<^verbatim>\<open>stx_output.c\<close>: its value, its tokens and its kind (change path, address, script,
  script hash, miners fee). The byte \<open>oi_state\<close> packs the kind and two flags as in the source.

  The structure keeps the data of the kind in a union. \<open>out_union\<close> records which member was
  written last; a member read after another one was written is the reinterpretation of its bytes,
  which depends on the layout, so it is given by the parameter \<open>V\<close> (\<open>out_views\<close>). A script is
  hashed as it arrives, and the theorem below says which kind a tree gets, however it is chunked.

  The pointer to the token table is the table argument of the operations that use it.
\<close>

record sign_transaction_bip32_path_t =
  bp_len :: u8
  bp_path :: "u32 list"

type_synonym sign_transaction_output_info_type_e = u8

definition SIGN_TRANSACTION_OUTPUT_INFO_TYPE_UNKNOWN :: u8 where "SIGN_TRANSACTION_OUTPUT_INFO_TYPE_UNKNOWN = 0"
definition SIGN_TRANSACTION_OUTPUT_INFO_TYPE_BIP32 :: u8 where "SIGN_TRANSACTION_OUTPUT_INFO_TYPE_BIP32 = 1"
definition SIGN_TRANSACTION_OUTPUT_INFO_TYPE_ADDRESS :: u8 where "SIGN_TRANSACTION_OUTPUT_INFO_TYPE_ADDRESS = 2"
definition SIGN_TRANSACTION_OUTPUT_INFO_TYPE_SCRIPT :: u8 where "SIGN_TRANSACTION_OUTPUT_INFO_TYPE_SCRIPT = 3"
definition SIGN_TRANSACTION_OUTPUT_INFO_TYPE_SCRIPT_HASH :: u8 where "SIGN_TRANSACTION_OUTPUT_INFO_TYPE_SCRIPT_HASH = 4"
definition SIGN_TRANSACTION_OUTPUT_INFO_TYPE_MINERS_FEE :: u8 where "SIGN_TRANSACTION_OUTPUT_INFO_TYPE_MINERS_FEE = 5"

lemmas out_types = SIGN_TRANSACTION_OUTPUT_INFO_TYPE_UNKNOWN_def SIGN_TRANSACTION_OUTPUT_INFO_TYPE_BIP32_def
  SIGN_TRANSACTION_OUTPUT_INFO_TYPE_ADDRESS_def SIGN_TRANSACTION_OUTPUT_INFO_TYPE_SCRIPT_def
  SIGN_TRANSACTION_OUTPUT_INFO_TYPE_SCRIPT_HASH_def SIGN_TRANSACTION_OUTPUT_INFO_TYPE_MINERS_FEE_def

datatype 'h out_union =
    OutZero
  | OutHash 'h
  | OutKey bytes
  | OutTreeHash bytes
  | OutPath sign_transaction_bip32_path_t

record 'h out_views =
  view_hash :: "'h out_union \<Rightarrow> 'h"
  view_key :: "'h out_union \<Rightarrow> bytes"
  view_tree_hash :: "'h out_union \<Rightarrow> bytes"
  view_path :: "'h out_union \<Rightarrow> sign_transaction_bip32_path_t"

record 'h sign_transaction_output_info_ctx_t =
  oi_value :: u64
  oi_tokens :: "u64 list"
  oi_state :: u8
  oi_union :: "'h out_union"

type_synonym 'h output_info = "'h sign_transaction_output_info_ctx_t"

definition out_hash :: "'h out_views \<Rightarrow> 'h output_info \<Rightarrow> 'h" where
  "out_hash V ctx = (case oi_union ctx of OutHash h \<Rightarrow> h | u \<Rightarrow> view_hash V u)"

definition out_path :: "'h out_views \<Rightarrow> 'h output_info \<Rightarrow> sign_transaction_bip32_path_t" where
  "out_path V ctx =
     (case oi_union ctx of
        OutPath p \<Rightarrow> p
      | OutZero \<Rightarrow> \<lparr>bp_len = 0, bp_path = replicate (unat MAX_BIP32_PATH) 0\<rparr>
      | u \<Rightarrow> view_path V u)"

definition STX_OUTPUT_INFO_TYPE :: "'h output_info \<Rightarrow> sign_transaction_output_info_type_e" where
  "STX_OUTPUT_INFO_TYPE ctx = oi_state ctx AND 0x3F"

definition STX_OUTPUT_INFO_IS_TREE_SET :: "'h output_info \<Rightarrow> bool" where
  "STX_OUTPUT_INFO_IS_TREE_SET ctx \<longleftrightarrow> oi_state ctx AND 0x40 \<noteq> 0"

definition STX_OUTPUT_INFO_IS_BOX_FINISHED :: "'h output_info \<Rightarrow> bool" where
  "STX_OUTPUT_INFO_IS_BOX_FINISHED ctx \<longleftrightarrow> oi_state ctx AND 0x80 \<noteq> 0"

definition STX_OUTPUT_SET_BOX_FINISHED :: "'h output_info \<Rightarrow> 'h output_info" where
  "STX_OUTPUT_SET_BOX_FINISHED ctx = ctx\<lparr>oi_state := oi_state ctx OR 0x80\<rparr>"

definition STX_OUTPUT_SET_TREE_SET :: "'h output_info \<Rightarrow> 'h output_info" where
  "STX_OUTPUT_SET_TREE_SET ctx = ctx\<lparr>oi_state := oi_state ctx OR 0x40\<rparr>"

definition STX_OUTPUT_SET_TYPE :: "'h output_info \<Rightarrow> u8 \<Rightarrow> 'h output_info" where
  "STX_OUTPUT_SET_TYPE ctx ty = ctx\<lparr>oi_state := (oi_state ctx AND 0xC0) OR (ty AND 0x3F)\<rparr>"

definition stx_output_info_init :: "u64 \<Rightarrow> 'h output_info" where
  "stx_output_info_init v =
     \<lparr>oi_value = v, oi_tokens = replicate (unat TOKEN_MAX_COUNT) 0, oi_state = 0, oi_union = OutZero\<rparr>"

definition stx_output_info_type :: "'h output_info \<Rightarrow> sign_transaction_output_info_type_e" where
  "stx_output_info_type ctx = STX_OUTPUT_INFO_TYPE ctx"

definition stx_output_info_is_finished :: "'h output_info \<Rightarrow> bool" where
  "stx_output_info_is_finished ctx \<longleftrightarrow> STX_OUTPUT_INFO_IS_TREE_SET ctx \<and> STX_OUTPUT_INFO_IS_BOX_FINISHED ctx"

definition stx_bip32_path_is_equal :: "sign_transaction_bip32_path_t \<Rightarrow> sign_transaction_bip32_path_t \<Rightarrow> bool" where
  "stx_bip32_path_is_equal p1 p2 = bip32_path_is_equal (bp_path p1) (bp_len p1) (bp_path p2) (bp_len p2)"

definition stx_bip32_path_same_account :: "sign_transaction_bip32_path_t \<Rightarrow> sign_transaction_bip32_path_t \<Rightarrow> bool" where
  "stx_bip32_path_same_account p1 p2 = bip32_path_same_account (bp_path p1) (bp_len p1) (bp_path p2) (bp_len p2)"

text \<open>The file has its own copy of the table search.\<close>

function find_token_loop :: "token_table_t \<Rightarrow> bytes \<Rightarrow> u8 \<Rightarrow> u8" where
  "find_token_loop table tid i =
     (if i < tt_count table then
        if memcmp_eq (tt_tokens table ! unat i) tid (unat ERGO_ID_LEN) then i
        else find_token_loop table tid (i + 1)
      else INDEX_NOT_EXIST)"
  by pat_completeness auto
termination
proof (relation "measure (\<lambda>(table, tid, i). unat (tt_count table) - unat i)")
  fix table tid and i :: u8
  assume "i < tt_count table"
  then have "unat i < unat (tt_count table)" "unat (i + 1) = unat i + 1"
    using unat_u8_less [of "tt_count table"]
    by (simp_all add: word_less_nat_alt word_add_no_wrap)
  then show "((table, tid, i + 1), table, tid, i) \<in> measure (\<lambda>(table, tid, i). unat (tt_count table) - unat i)"
    by simp
qed simp

declare find_token_loop.simps [simp del]

definition find_token_index :: "token_table_t \<Rightarrow> bytes \<Rightarrow> u8" where
  "find_token_index table tid = find_token_loop table tid 0"

definition maybe_finished ::
    "('h, 'x) cx_sdk_scheme \<Rightarrow> 'h out_views \<Rightarrow> 'h output_info \<Rightarrow> ergo_tx_serializer_box_result_e \<times> 'h output_info" where
  "maybe_finished cx V ctx =
     (if stx_output_info_is_finished ctx \<and> STX_OUTPUT_INFO_TYPE ctx = SIGN_TRANSACTION_OUTPUT_INFO_TYPE_SCRIPT then
        case blake2b_256_finalize cx (out_hash V ctx) of (ok, h, digest) \<Rightarrow>
          if \<not> ok then (ERGO_TX_SERIALIZER_BOX_RES_ERR_HASHER, ctx\<lparr>oi_union := OutHash h\<rparr>)
          else (ERGO_TX_SERIALIZER_BOX_RES_OK, ctx\<lparr>oi_union := OutTreeHash (take (unat CX_BLAKE2B_256_SIZE) digest)\<rparr>)
      else (ERGO_TX_SERIALIZER_BOX_RES_OK, ctx))"

definition sw_of :: "ergo_tx_serializer_box_result_e \<times> 'h output_info \<Rightarrow> u16 \<times> 'h output_info" where
  "sw_of p = (sw_from_tx_box_result (fst p), snd p)"

definition stx_output_info_set_bip32 ::
    "('h, 'x) cx_sdk_scheme \<Rightarrow> 'h out_views \<Rightarrow> 'h output_info \<Rightarrow> u32 list \<Rightarrow> u8 \<Rightarrow> u16 \<times> 'h output_info" where
  "stx_output_info_set_bip32 cx V ctx path path_len =
     (if STX_OUTPUT_INFO_TYPE ctx \<noteq> SIGN_TRANSACTION_OUTPUT_INFO_TYPE_UNKNOWN then (SW_BAD_STATE, ctx)
      else let c1 = STX_OUTPUT_SET_TREE_SET (STX_OUTPUT_SET_TYPE ctx SIGN_TRANSACTION_OUTPUT_INFO_TYPE_BIP32);
               p = \<lparr>bp_len = path_len, bp_path = mem_write (bp_path (out_path V c1)) 0 (take (unat path_len) path)\<rparr> in
           sw_of (maybe_finished cx V (c1\<lparr>oi_union := OutPath p\<rparr>)))"

definition stx_output_info_set_fee ::
    "('h, 'x) cx_sdk_scheme \<Rightarrow> 'h out_views \<Rightarrow> 'h output_info \<Rightarrow> u16 \<times> 'h output_info" where
  "stx_output_info_set_fee cx V ctx =
     (if STX_OUTPUT_INFO_TYPE ctx \<noteq> SIGN_TRANSACTION_OUTPUT_INFO_TYPE_UNKNOWN then (SW_BAD_STATE, ctx)
      else sw_of (maybe_finished cx V
             (STX_OUTPUT_SET_TREE_SET (STX_OUTPUT_SET_TYPE ctx SIGN_TRANSACTION_OUTPUT_INFO_TYPE_MINERS_FEE))))"

text \<open>The first half of \<open>stx_output_info_add_tree_chunk\<close>: the kind of a tree by its first chunk.\<close>

definition tree_chunk_type ::
    "('h, 'x) cx_sdk_scheme \<Rightarrow> 'h out_views \<Rightarrow> 'h output_info \<Rightarrow> bytes \<Rightarrow> u16 \<Rightarrow> bool \<Rightarrow> bool \<times> 'h output_info" where
  "tree_chunk_type cx V ctx chunk len is_finished =
     (if STX_OUTPUT_INFO_TYPE ctx \<noteq> SIGN_TRANSACTION_OUTPUT_INFO_TYPE_UNKNOWN then (True, ctx)
      else case (if ucast len = ERGO_TREE_P2PK_LEN \<and> is_finished then ergo_tree_parse_p2pk chunk else None) of
        Some key \<Rightarrow>
          (True, STX_OUTPUT_SET_TREE_SET (STX_OUTPUT_SET_TYPE (ctx\<lparr>oi_union := OutKey key\<rparr>)
                   SIGN_TRANSACTION_OUTPUT_INFO_TYPE_ADDRESS))
      | None \<Rightarrow>
          (case (if ucast len = ERGO_TREE_P2SH_LEN \<and> is_finished then ergo_tree_parse_p2sh chunk else None) of
             Some hash \<Rightarrow>
               (True, STX_OUTPUT_SET_TREE_SET (STX_OUTPUT_SET_TYPE (ctx\<lparr>oi_union := OutTreeHash hash\<rparr>)
                        SIGN_TRANSACTION_OUTPUT_INFO_TYPE_SCRIPT_HASH))
           | None \<Rightarrow>
               (let c1 = STX_OUTPUT_SET_TYPE ctx SIGN_TRANSACTION_OUTPUT_INFO_TYPE_SCRIPT in
                case blake2b_256_init cx (out_hash V c1) of (ok, h) \<Rightarrow> (ok, c1\<lparr>oi_union := OutHash h\<rparr>))))"

definition stx_output_info_add_tree_chunk ::
    "('h, 'x) cx_sdk_scheme \<Rightarrow> 'h out_views \<Rightarrow> 'h output_info \<Rightarrow> bytes \<Rightarrow> u16 \<Rightarrow> bool \<Rightarrow> u16 \<times> 'h output_info" where
  "stx_output_info_add_tree_chunk cx V ctx chunk len is_finished =
     (if STX_OUTPUT_INFO_TYPE ctx \<noteq> SIGN_TRANSACTION_OUTPUT_INFO_TYPE_UNKNOWN \<and>
         STX_OUTPUT_INFO_TYPE ctx \<noteq> SIGN_TRANSACTION_OUTPUT_INFO_TYPE_SCRIPT then (SW_BAD_STATE, ctx)
      else if STX_OUTPUT_INFO_IS_TREE_SET ctx then (SW_BAD_STATE, ctx)
      else case tree_chunk_type cx V ctx chunk len is_finished of (ok, c1) \<Rightarrow>
        if \<not> ok then (SW_HASHER_ERROR, c1)
        else if STX_OUTPUT_INFO_TYPE c1 = SIGN_TRANSACTION_OUTPUT_INFO_TYPE_SCRIPT then
          case blake2b_update cx (out_hash V c1) chunk (ucast len) of (ok2, h) \<Rightarrow>
            let c2 = c1\<lparr>oi_union := OutHash h\<rparr> in
            if \<not> ok2 then (SW_HASHER_ERROR, c2)
            else sw_of (maybe_finished cx V (if is_finished then STX_OUTPUT_SET_TREE_SET c2 else c2))
        else sw_of (maybe_finished cx V c1))"

definition stx_output_info_add_token ::
    "'h output_info \<Rightarrow> token_table_t \<Rightarrow> bytes \<Rightarrow> u64 \<Rightarrow> ergo_tx_serializer_box_result_e \<times> 'h output_info" where
  "stx_output_info_add_token ctx table tn_id v =
     (let index = find_token_index table tn_id in
      if \<not> IS_ELEMENT_FOUND index then (ERGO_TX_SERIALIZER_BOX_RES_ERR_BAD_TOKEN_ID, ctx)
      else if oi_tokens ctx ! unat index \<noteq> 0 then (ERGO_TX_SERIALIZER_BOX_RES_ERR_BAD_TOKEN_VALUE, ctx)
      else (ERGO_TX_SERIALIZER_BOX_RES_OK, ctx\<lparr>oi_tokens := (oi_tokens ctx)[unat index := v]\<rparr>))"

definition stx_output_info_set_box_finished ::
    "('h, 'x) cx_sdk_scheme \<Rightarrow> 'h out_views \<Rightarrow> 'h output_info \<Rightarrow> ergo_tx_serializer_box_result_e \<times> 'h output_info" where
  "stx_output_info_set_box_finished cx V ctx = maybe_finished cx V (STX_OUTPUT_SET_BOX_FINISHED ctx)"

definition stx_output_info_used_tokens_count :: "'h output_info \<Rightarrow> u8" where
  "stx_output_info_used_tokens_count ctx = count_loop (\<lambda>t. t > 0) (oi_tokens ctx)"

definition stx_output_info_used_token_index :: "'h output_info \<Rightarrow> u8 \<Rightarrow> u8" where
  "stx_output_info_used_token_index ctx used_index =
     index_loop (\<lambda>t. t > 0) (oi_tokens ctx) used_index 0 [0..<unat TOKEN_MAX_COUNT]"

subsection \<open>The packed state\<close>

text \<open>Kind and flags are independent.\<close>

lemma or_and_absorb: "((x :: u8) OR y) AND y = y"
  by (rule bit_word_eqI) (auto simp: bit_simps)

lemma pack_simps:
  "((x :: u8) OR 0x40) AND 0x3F = x AND 0x3F" "(x OR 0x80) AND 0x3F = x AND 0x3F"
  "(x OR 0x40) AND 0x80 = x AND 0x80" "(x OR 0x80) AND 0x40 = x AND 0x40"
  "((x AND 0xC0) OR (t AND 0x3F)) AND 0x40 = x AND 0x40" "((x AND 0xC0) OR (t AND 0x3F)) AND 0x80 = x AND 0x80"
  "((x AND 0xC0) OR (t AND 0x3F)) AND 0x3F = t AND 0x3F"
  by (simp_all add: bit.conj_disj_distrib2 and.assoc)

lemma out_state_simps [simp]:
  "STX_OUTPUT_INFO_TYPE (STX_OUTPUT_SET_TREE_SET c) = STX_OUTPUT_INFO_TYPE c"
  "STX_OUTPUT_INFO_TYPE (STX_OUTPUT_SET_BOX_FINISHED c) = STX_OUTPUT_INFO_TYPE c"
  "STX_OUTPUT_INFO_TYPE (STX_OUTPUT_SET_TYPE c t) = t AND 0x3F"
  "STX_OUTPUT_INFO_IS_TREE_SET (STX_OUTPUT_SET_TREE_SET c)"
  "STX_OUTPUT_INFO_IS_TREE_SET (STX_OUTPUT_SET_BOX_FINISHED c) \<longleftrightarrow> STX_OUTPUT_INFO_IS_TREE_SET c"
  "STX_OUTPUT_INFO_IS_TREE_SET (STX_OUTPUT_SET_TYPE c t) \<longleftrightarrow> STX_OUTPUT_INFO_IS_TREE_SET c"
  "STX_OUTPUT_INFO_IS_BOX_FINISHED (STX_OUTPUT_SET_TREE_SET c) \<longleftrightarrow> STX_OUTPUT_INFO_IS_BOX_FINISHED c"
  "STX_OUTPUT_INFO_IS_BOX_FINISHED (STX_OUTPUT_SET_BOX_FINISHED c)"
  "STX_OUTPUT_INFO_IS_BOX_FINISHED (STX_OUTPUT_SET_TYPE c t) \<longleftrightarrow> STX_OUTPUT_INFO_IS_BOX_FINISHED c"
  by (simp_all add: STX_OUTPUT_INFO_TYPE_def STX_OUTPUT_SET_TREE_SET_def STX_OUTPUT_SET_BOX_FINISHED_def
      STX_OUTPUT_SET_TYPE_def STX_OUTPUT_INFO_IS_TREE_SET_def STX_OUTPUT_INFO_IS_BOX_FINISHED_def pack_simps or_and_absorb)

lemma out_union_simps [simp]:
  "oi_union (STX_OUTPUT_SET_TREE_SET c) = oi_union c" "oi_union (STX_OUTPUT_SET_BOX_FINISHED c) = oi_union c"
  "oi_union (STX_OUTPUT_SET_TYPE c t) = oi_union c"
  "oi_tokens (STX_OUTPUT_SET_TREE_SET c) = oi_tokens c" "oi_tokens (STX_OUTPUT_SET_BOX_FINISHED c) = oi_tokens c"
  "oi_tokens (STX_OUTPUT_SET_TYPE c t) = oi_tokens c"
  "oi_value (STX_OUTPUT_SET_TREE_SET c) = oi_value c" "oi_value (STX_OUTPUT_SET_BOX_FINISHED c) = oi_value c"
  "oi_value (STX_OUTPUT_SET_TYPE c t) = oi_value c"
  "STX_OUTPUT_INFO_TYPE (c\<lparr>oi_union := u\<rparr>) = STX_OUTPUT_INFO_TYPE c"
  "STX_OUTPUT_INFO_IS_TREE_SET (c\<lparr>oi_union := u\<rparr>) \<longleftrightarrow> STX_OUTPUT_INFO_IS_TREE_SET c"
  "STX_OUTPUT_INFO_IS_BOX_FINISHED (c\<lparr>oi_union := u\<rparr>) \<longleftrightarrow> STX_OUTPUT_INFO_IS_BOX_FINISHED c"
  by (simp_all add: STX_OUTPUT_SET_TREE_SET_def STX_OUTPUT_SET_BOX_FINISHED_def STX_OUTPUT_SET_TYPE_def
      STX_OUTPUT_INFO_TYPE_def STX_OUTPUT_INFO_IS_TREE_SET_def STX_OUTPUT_INFO_IS_BOX_FINISHED_def)

lemma find_token_index_eq: "find_token_index table tid = token_table_find_token_index table tid"
proof -
  have "find_token_loop table tid i = token_table_find_loop table tid i" for i
  proof (induction table tid i rule: find_token_loop.induct)
    case (1 table tid i)
    then show ?case by (simp add: find_token_loop.simps [of table tid i] token_table_find_loop.simps [of table tid i])
  qed
  then show ?thesis by (simp add: find_token_index_def token_table_find_token_index_def)
qed

subsection \<open>Which kind a tree gets\<close>

text \<open>Feeding a tree in chunks, the last of them marked as such.\<close>

fun tree_feed ::
    "('h, 'x) cx_sdk_scheme \<Rightarrow> 'h out_views \<Rightarrow> 'h output_info \<Rightarrow> bytes list \<Rightarrow> 'h output_info option" where
  "tree_feed cx V ctx [] = Some ctx"
| "tree_feed cx V ctx (d # ds) =
     (case stx_output_info_add_tree_chunk cx V ctx d (of_nat (length d)) (ds = []) of (r, c) \<Rightarrow>
        if r = SW_OK then tree_feed cx V c ds else None)"

text \<open>The kind of a tree and what is kept of it.\<close>

definition p2pk_tree :: "bytes list \<Rightarrow> bytes \<Rightarrow> bool" where
  "p2pk_tree ds key \<longleftrightarrow> ds = [C_ERGO_TREE_P2PK_PREFIX @ key] \<and> length key = 33 \<and> (hd key = 0x02 \<or> hd key = 0x03)"

definition p2sh_tree :: "bytes list \<Rightarrow> bytes \<Rightarrow> bool" where
  "p2sh_tree ds hash \<longleftrightarrow> ds = [C_ERGO_TREE_P2SH_PREFIX @ hash @ C_ERGO_TREE_P2SH_SUFFIX] \<and> length hash = 24"

definition tree_kind :: "('h \<Rightarrow> bytes) \<Rightarrow> bytes list \<Rightarrow> u8 \<Rightarrow> 'h out_union \<Rightarrow> bool" where
  "tree_kind ab ds ty u \<longleftrightarrow>
     ty = SIGN_TRANSACTION_OUTPUT_INFO_TYPE_ADDRESS \<and> (\<exists>key. p2pk_tree ds key \<and> u = OutKey key) \<or>
     ty = SIGN_TRANSACTION_OUTPUT_INFO_TYPE_SCRIPT_HASH \<and> (\<exists>hash. p2sh_tree ds hash \<and> u = OutTreeHash hash) \<or>
     ty = SIGN_TRANSACTION_OUTPUT_INFO_TYPE_SCRIPT \<and> (\<forall>x. \<not> p2pk_tree ds x \<and> \<not> p2sh_tree ds x) \<and>
       (\<exists>h. u = OutHash h \<and> ab h = concat ds)"

lemma maybe_finished_open [simp]:
  "\<not> STX_OUTPUT_INFO_IS_BOX_FINISHED c \<Longrightarrow> maybe_finished cx V c = (ERGO_TX_SERIALIZER_BOX_RES_OK, c)"
  by (simp add: maybe_finished_def stx_output_info_is_finished_def)

text \<open>A script that is being received: chunks go to its hash.\<close>

lemma script_chunk:
  assumes "cx_absorbs cx ab" and "length d < 2 ^ 16" and "\<not> STX_OUTPUT_INFO_IS_BOX_FINISHED ctx"
    and "STX_OUTPUT_INFO_TYPE ctx = SIGN_TRANSACTION_OUTPUT_INFO_TYPE_SCRIPT" and "oi_union ctx = OutHash h"
    and "stx_output_info_add_tree_chunk cx V ctx d (of_nat (length d)) fin = (SW_OK, c)"
  shows "\<not> STX_OUTPUT_INFO_IS_BOX_FINISHED c \<and> STX_OUTPUT_INFO_TYPE c = SIGN_TRANSACTION_OUTPUT_INFO_TYPE_SCRIPT \<and>
     (\<exists>h'. oi_union c = OutHash h' \<and> ab h' = ab h @ d) \<and> (fin \<longrightarrow> STX_OUTPUT_INFO_IS_TREE_SET c)"
proof -
  have "unat (ucast (of_nat (length d) :: u16) :: size_t) = length d"
    using assms(2) by (simp add: unat_ucast_up unat_of_nat_small)
  then show ?thesis
    using assms(3-6)
    by (auto simp: stx_output_info_add_tree_chunk_def tree_chunk_type_def out_types out_hash_def sw_defs Let_def sw_of_def
        split: if_splits prod.splits dest: blake2b_update_absorbs [OF assms(1)])
qed

text \<open>The first chunk, with all of the tree or a part of it.\<close>

lemma first_chunk:
  assumes "cx_absorbs cx ab" and "length d < 2 ^ 16" and "\<not> STX_OUTPUT_INFO_IS_BOX_FINISHED ctx"
    and "STX_OUTPUT_INFO_TYPE ctx = SIGN_TRANSACTION_OUTPUT_INFO_TYPE_UNKNOWN"
    and "stx_output_info_add_tree_chunk cx V ctx d (of_nat (length d)) fin = (SW_OK, c)"
  shows "\<not> STX_OUTPUT_INFO_IS_BOX_FINISHED c \<and> (fin \<longrightarrow> STX_OUTPUT_INFO_IS_TREE_SET c) \<and>
     (if fin then tree_kind ab [d] (STX_OUTPUT_INFO_TYPE c) (oi_union c)
      else STX_OUTPUT_INFO_TYPE c = SIGN_TRANSACTION_OUTPUT_INFO_TYPE_SCRIPT \<and> (\<exists>h. oi_union c = OutHash h \<and> ab h = d))"
proof -
  define w :: u16 where "w = of_nat (length d)"
  have n: "unat (ucast w :: size_t) = length d" using assms(2) by (simp add: w_def unat_ucast_up unat_of_nat_small)
  note run = assms(5) [folded w_def]
  have l: "ucast w = ERGO_TREE_P2PK_LEN \<longleftrightarrow> length d = 36" "ucast w = ERGO_TREE_P2SH_LEN \<longleftrightarrow> length d = 44"
    using n by (simp_all add: word_unat_eq_iff ERGO_TREE_P2PK_LEN_def ERGO_TREE_P2SH_LEN_def)
  have k: "length d = 36 \<Longrightarrow> ergo_tree_parse_p2pk d = Some x \<longleftrightarrow> p2pk_tree [d] x"
    "p2pk_tree [d] x \<Longrightarrow> length d = 36" for x
    using ergo_tree_parse_p2pk_iff [of d x] by (auto simp: p2pk_tree_def C_ERGO_TREE_P2PK_PREFIX_def)
  have h: "length d = 44 \<Longrightarrow> ergo_tree_parse_p2sh d = Some x \<longleftrightarrow> p2sh_tree [d] x"
    "p2sh_tree [d] x \<Longrightarrow> length d = 44" for x
    using ergo_tree_parse_p2sh_form [of d x]
    by (auto simp: p2sh_tree_def C_ERGO_TREE_P2SH_PREFIX_def C_ERGO_TREE_P2SH_SUFFIX_def)
  have g: "\<not> STX_OUTPUT_INFO_IS_TREE_SET ctx" using assms(5) by (auto simp: stx_output_info_add_tree_chunk_def sw_defs split: if_splits)
  consider (key) x where "fin" "length d = 36" "ergo_tree_parse_p2pk d = Some x"
    | (hash) x where "fin" "length d = 44" "ergo_tree_parse_p2sh d = Some x"
    | (script) "\<not> fin \<or> (\<forall>x. \<not> p2pk_tree [d] x \<and> \<not> p2sh_tree [d] x)"
    using k h by blast
  then show ?thesis
  proof cases
    case key
    then show ?thesis
      using assms(3,4) run g k(1) [of x]
      by (auto simp: stx_output_info_add_tree_chunk_def tree_chunk_type_def l out_types sw_of_def tree_kind_def)
  next
    case hash
    then show ?thesis
      using assms(3,4) run g h(1) [of x]
      by (auto simp: stx_output_info_add_tree_chunk_def tree_chunk_type_def l out_types sw_of_def tree_kind_def)
  next
    case script
    have no: "(if ucast w = ERGO_TREE_P2PK_LEN \<and> fin then ergo_tree_parse_p2pk d else None) = None"
      "(if ucast w = ERGO_TREE_P2SH_LEN \<and> fin then ergo_tree_parse_p2sh d else None) = None"
      using script k h l by (metis not_None_eq)+
    show ?thesis
      using assms(3,4) run g script n no
      by (auto simp: stx_output_info_add_tree_chunk_def tree_chunk_type_def out_types out_hash_def sw_defs Let_def sw_of_def
          tree_kind_def split: if_splits prod.splits dest!: blake2b_update_absorbs [OF assms(1)] blake2b_init_absorbs [OF assms(1)])
  qed
qed

lemma script_feed:
  assumes "cx_absorbs cx ab" and "tree_feed cx V ctx ds = Some c" and "\<forall>d \<in> set ds. length d < 2 ^ 16" and "ds \<noteq> []"
    and "\<not> STX_OUTPUT_INFO_IS_BOX_FINISHED ctx"
    and "STX_OUTPUT_INFO_TYPE ctx = SIGN_TRANSACTION_OUTPUT_INFO_TYPE_SCRIPT" and "oi_union ctx = OutHash h"
  shows "\<not> STX_OUTPUT_INFO_IS_BOX_FINISHED c \<and> STX_OUTPUT_INFO_IS_TREE_SET c \<and>
     STX_OUTPUT_INFO_TYPE c = SIGN_TRANSACTION_OUTPUT_INFO_TYPE_SCRIPT \<and>
     (\<exists>h'. oi_union c = OutHash h' \<and> ab h' = ab h @ concat ds)"
  using assms(2-)
proof (induction ds arbitrary: ctx h)
  case (Cons d ds)
  obtain c1 where c1: "stx_output_info_add_tree_chunk cx V ctx d (of_nat (length d)) (ds = []) = (SW_OK, c1)"
    "tree_feed cx V c1 ds = Some c" using Cons.prems(1) by (auto split: prod.splits if_splits)
  from script_chunk [OF assms(1) _ Cons.prems(4-6) c1(1)] Cons.prems(2) obtain h1 where
    s: "\<not> STX_OUTPUT_INFO_IS_BOX_FINISHED c1" "STX_OUTPUT_INFO_TYPE c1 = SIGN_TRANSACTION_OUTPUT_INFO_TYPE_SCRIPT"
    "oi_union c1 = OutHash h1" "ab h1 = ab h @ d" "ds = [] \<longrightarrow> STX_OUTPUT_INFO_IS_TREE_SET c1" by auto
  show ?case
  proof (cases "ds = []")
    case True
    then show ?thesis using s c1(2) by simp
  next
    case False
    then show ?thesis using Cons.IH [OF c1(2) _ False s(1-3)] Cons.prems(2) s(4) by auto
  qed
qed simp

text \<open>
  C29. What the screens say of an output is determined by its tree. When the chunks of a tree were
  accepted, the kind is ADDRESS exactly for one chunk that is a pay-to-public-key tree, with its
  key; SCRIPT_HASH exactly for one chunk that is a pay-to-script-hash tree, with its hash; and
  SCRIPT in every other case, and then the tree hash has absorbed all the chunks. In each case the
  tree is marked as set.
\<close>

theorem output_tree_classified:
  assumes "cx_absorbs cx ab" and "tree_feed cx V (stx_output_info_init v) ds = Some c"
    and "\<forall>d \<in> set ds. length d < 2 ^ 16" and "ds \<noteq> []"
  shows "STX_OUTPUT_INFO_IS_TREE_SET c \<and> tree_kind ab ds (stx_output_info_type c) (oi_union c)"
proof -
  let ?i = "stx_output_info_init v"
  obtain d es where ds: "ds = d # es" using assms(4) by (cases ds) auto
  have i: "\<not> STX_OUTPUT_INFO_IS_BOX_FINISHED ?i" "STX_OUTPUT_INFO_TYPE ?i = SIGN_TRANSACTION_OUTPUT_INFO_TYPE_UNKNOWN"
    by (simp_all add: stx_output_info_init_def STX_OUTPUT_INFO_IS_BOX_FINISHED_def STX_OUTPUT_INFO_TYPE_def out_types)
  obtain c1 where c1: "stx_output_info_add_tree_chunk cx V ?i d (of_nat (length d)) (es = []) = (SW_OK, c1)"
    "tree_feed cx V c1 es = Some c" using assms(2) ds by (auto split: prod.splits if_splits)
  have len: "length d < 2 ^ 16" "\<forall>d \<in> set es. length d < 2 ^ 16" using assms(3) ds by simp_all
  note f = first_chunk [OF assms(1) len(1) i c1(1)]
  show ?thesis
  proof (cases "es = []")
    case True
    then show ?thesis using f c1(2) ds by (simp add: stx_output_info_type_def)
  next
    case False
    with f obtain h where h: "\<not> STX_OUTPUT_INFO_IS_BOX_FINISHED c1"
      "STX_OUTPUT_INFO_TYPE c1 = SIGN_TRANSACTION_OUTPUT_INFO_TYPE_SCRIPT" "oi_union c1 = OutHash h" "ab h = d" by auto
    from script_feed [OF assms(1) c1(2) len(2) False h(1-3)] h(4) False show ?thesis
      by (auto simp: ds stx_output_info_type_def tree_kind_def p2pk_tree_def p2sh_tree_def)
  qed
qed

text \<open>Witness: a pay-to-public-key tree is shown as the address of its key.\<close>

definition demo_views :: "bytes out_views" where
  "demo_views = \<lparr>view_hash = (\<lambda>_. []), view_key = (\<lambda>_. []), view_tree_hash = (\<lambda>_. []),
     view_path = (\<lambda>_. \<lparr>bp_len = 0, bp_path = []\<rparr>)\<rparr>"

definition demo_key :: bytes where
  "demo_key = 0x02 # replicate 32 7"

theorem output_tree_classified_witness:
  "\<exists>c. tree_feed cx_record demo_views (stx_output_info_init 5) [C_ERGO_TREE_P2PK_PREFIX @ demo_key] = Some c \<and>
     stx_output_info_type c = SIGN_TRANSACTION_OUTPUT_INFO_TYPE_ADDRESS \<and> oi_union c = OutKey demo_key"
proof -
  let ?ds = "[C_ERGO_TREE_P2PK_PREFIX @ demo_key]"
  have d: "length (C_ERGO_TREE_P2PK_PREFIX @ demo_key) = 36" by (simp add: C_ERGO_TREE_P2PK_PREFIX_def demo_key_def)
  have p: "ergo_tree_parse_p2pk (C_ERGO_TREE_P2PK_PREFIX @ demo_key) = Some demo_key"
    using ergo_tree_parse_p2pk_iff [OF d] by (simp add: demo_key_def)
  have "tree_feed cx_record demo_views (stx_output_info_init 5) ?ds \<noteq> None"
    unfolding tree_feed.simps d
    by (simp add: stx_output_info_add_tree_chunk_def tree_chunk_type_def p ERGO_TREE_P2PK_LEN_def stx_output_info_init_def
        STX_OUTPUT_INFO_TYPE_def STX_OUTPUT_INFO_IS_TREE_SET_def out_types sw_of_def STX_OUTPUT_SET_TREE_SET_def
        STX_OUTPUT_SET_TYPE_def maybe_finished_def stx_output_info_is_finished_def STX_OUTPUT_INFO_IS_BOX_FINISHED_def sw_defs)
  then obtain c where c: "tree_feed cx_record demo_views (stx_output_info_init 5) ?ds = Some c" by blast
  have k: "p2pk_tree ?ds x \<longleftrightarrow> x = demo_key" for x by (auto simp: p2pk_tree_def demo_key_def)
  have "p2sh_tree ?ds x \<Longrightarrow> length (C_ERGO_TREE_P2PK_PREFIX @ demo_key) = 44" for x
    unfolding p2sh_tree_def by (simp add: C_ERGO_TREE_P2SH_PREFIX_def C_ERGO_TREE_P2SH_SUFFIX_def)
  then have h: "\<not> p2sh_tree ?ds x" for x using d by auto
  have "tree_kind (\<lambda>h. h) ?ds (stx_output_info_type c) (oi_union c)"
    using output_tree_classified [OF cx_record_absorbs c] d by simp
  with k h c show ?thesis by (auto simp: tree_kind_def)
qed

subsection \<open>The tokens of an output\<close>

lemma used_tokens_listed:
  "unat (stx_output_info_used_tokens_count ctx) = length (filter (\<lambda>i. oi_tokens ctx ! i \<noteq> 0) [0..<100])"
  "stx_output_info_used_token_index ctx k =
     (if k < stx_output_info_used_tokens_count ctx
      then of_nat (filter (\<lambda>i. oi_tokens ctx ! i \<noteq> 0) [0..<100] ! unat k) else INDEX_NOT_EXIST)"
  using index_loop_eq [of 0 k "[0..<100]" "\<lambda>t. t > 0" "oi_tokens ctx"] count_loop_eq [of "\<lambda>t. t > 0" "oi_tokens ctx"]
  by (simp_all add: stx_output_info_used_tokens_count_def stx_output_info_used_token_index_def word_less_nat_alt word_neq_0_conv)

text \<open>The amount that an output shows for a token id.\<close>

definition output_amount :: "'h output_info \<Rightarrow> token_table_t \<Rightarrow> bytes \<Rightarrow> u64" where
  "output_amount ctx table tid =
     (let i = token_table_find_token_index table tid in if IS_ELEMENT_FOUND i then oi_tokens ctx ! unat i else 0)"

text \<open>
  An output shows each of its tokens once. For an id in the table whose amount in the output is
  still zero, adding a token records the amount and changes no other token of the output; an id
  that is not in the table, or that already has a non-zero amount, is refused and nothing changes.
\<close>

theorem output_token_once:
  assumes "token_table_wf table" and "length (oi_tokens ctx) = 100" and "length tid = 32"
    and "stx_output_info_add_token ctx table tid v = (r, ctx')"
  shows "(r = ERGO_TX_SERIALIZER_BOX_RES_OK \<longleftrightarrow> tid \<in> set (table_ids table) \<and> output_amount ctx table tid = 0) \<and>
     (r = ERGO_TX_SERIALIZER_BOX_RES_OK \<longrightarrow>
        (\<forall>t. length t = 32 \<longrightarrow> output_amount ctx' table t = (if t = tid then v else output_amount ctx table t))) \<and>
     (r \<noteq> ERGO_TX_SERIALIZER_BOX_RES_OK \<longrightarrow> ctx' = ctx)"
proof -
  let ?i = "token_table_find_token_index table tid"
  have f: "IS_ELEMENT_FOUND ?i \<longleftrightarrow> tid \<in> set (table_ids table)" by (rule tt.find_found [OF assms(1,3)])
  show ?thesis
  proof (cases "IS_ELEMENT_FOUND ?i \<and> oi_tokens ctx ! unat ?i = 0")
    case True
    then have e: "r = ERGO_TX_SERIALIZER_BOX_RES_OK" "ctx' = ctx\<lparr>oi_tokens := (oi_tokens ctx)[unat ?i := v]\<rparr>"
      using assms(4) by (auto simp: stx_output_info_add_token_def Let_def find_token_index_eq)
    have "output_amount ctx' table t = (if t = tid then v else output_amount ctx table t)" if "length t = 32" for t
      using True find_pos_100 [OF assms(1,3)] find_pos_inj [OF assms(1) that assms(3)] assms(2)
      by (auto simp: e output_amount_def Let_def nth_list_update)
    with True f e show ?thesis by (simp add: output_amount_def)
  next
    case False
    then show ?thesis
      using assms(4) f by (auto simp: stx_output_info_add_token_def Let_def find_token_index_eq output_amount_def split: if_splits)
  qed
qed

text \<open>Witness: the only id of a table.\<close>

definition demo_full_table :: token_table_t where
  "demo_full_table = \<lparr>tt_count = 1, tt_tokens = demo_id 9 # replicate 99 (demo_id 0)\<rparr>"

theorem output_token_once_witness:
  "fst (stx_output_info_add_token (stx_output_info_init 5 :: bytes output_info) demo_full_table (demo_id 9) 7) =
     ERGO_TX_SERIALIZER_BOX_RES_OK"
proof -
  let ?c = "stx_output_info_init 5 :: bytes output_info"
  have wf: "token_table_wf demo_full_table" by (simp add: token_table_wf_def demo_full_table_def demo_id_def)
  have l: "length (oi_tokens ?c) = 100" "length (demo_id 9) = 32" by (simp_all add: stx_output_info_init_def demo_id_def)
  have m: "demo_id 9 \<in> set (table_ids demo_full_table)" by (simp add: table_ids_def demo_full_table_def)
  have "output_amount ?c demo_full_table (demo_id 9) = 0"
    using find_pos_100 [OF wf l(2)] by (simp add: output_amount_def stx_output_info_init_def Let_def)
  with m output_token_once [OF wf l, of 7] show ?thesis by (metis prod.collapse)
qed

end
