(* ===== verification/Crypto.thy ===== *)
theory Crypto
  imports Blake2b ErgoTree
begin

text \<open>
  Key derivation, \<^verbatim>\<open>src/helpers/crypto.c\<close>. The functions of the device (elliptic curves,
  modular arithmetic, key derivation from the seed, HMAC) are further fields of the library record
  \<open>cx\<close>. Each returns its error code and what it stores; random bytes are an argument, the
  sequence of draws. Erasing local arrays (\<open>explicit_bzero\<close>) leaves no trace in the model.
\<close>

record 'h cx_device = "'h cx_sdk" +
  cx_zero_hash :: 'h
  os_derive_bip32_no_throw :: "u32 list \<Rightarrow> u8 \<Rightarrow> u32 \<times> bytes \<times> bytes"
  cx_ecfp_init_private_key_no_throw :: "bytes \<Rightarrow> size_t \<Rightarrow> u32 \<times> bytes"
  cx_ecfp_generate_pair_no_throw :: "bytes \<Rightarrow> u32 \<times> bytes"
  cx_ecfp_scalar_mult_no_throw :: "bytes \<Rightarrow> bytes \<Rightarrow> u32 \<times> bytes"
  cx_math_is_zero :: "bytes \<Rightarrow> bool"
  cx_math_cmp_no_throw :: "bytes \<Rightarrow> bytes \<Rightarrow> u32 \<times> int"
  cx_math_multm_no_throw :: "bytes \<Rightarrow> bytes \<Rightarrow> bytes \<Rightarrow> u32 \<times> bytes"
  cx_math_addm_no_throw :: "bytes \<Rightarrow> bytes \<Rightarrow> bytes \<Rightarrow> u32 \<times> bytes"
  cx_hmac_sha256 :: "bytes \<Rightarrow> bytes \<Rightarrow> bytes"

definition PRIVATE_KEY_LEN :: size_t where "PRIVATE_KEY_LEN = 32"
definition PUBLIC_KEY_LEN :: size_t where "PUBLIC_KEY_LEN = 65"

text \<open>Result code, the field \<open>d\<close> of the private key, the chain code.\<close>

definition crypto_derive_private_key ::
    "('h, 'x) cx_device_scheme \<Rightarrow> bytes \<Rightarrow> u32 list \<Rightarrow> u8 \<Rightarrow> u16 \<times> bytes \<times> bytes" where
  "crypto_derive_private_key cx private_key bip32_path bip32_path_len =
     (case os_derive_bip32_no_throw cx bip32_path bip32_path_len of (result, raw_private_key, chain_code) \<Rightarrow>
        if result \<noteq> CX_OK then (ucast result, private_key, chain_code)
        else case cx_ecfp_init_private_key_no_throw cx raw_private_key PRIVATE_KEY_LEN of (result2, d) \<Rightarrow>
          (ucast result2, d, chain_code))"

definition crypto_generate_private_key ::
    "('h, 'x) cx_device_scheme \<Rightarrow> u32 list \<Rightarrow> u8 \<Rightarrow> bytes \<Rightarrow> u16 \<times> bytes" where
  "crypto_generate_private_key cx bip32_path bip32_path_len private_key =
     (case crypto_derive_private_key cx (replicate (unat PRIVATE_KEY_LEN) 0) bip32_path bip32_path_len of (result, d, _) \<Rightarrow>
        (result, if result = 0 then take (unat PRIVATE_KEY_LEN) d else private_key))"

definition crypto_init_public_key ::
    "('h, 'x) cx_device_scheme \<Rightarrow> bytes \<Rightarrow> bytes \<Rightarrow> u16 \<times> bytes" where
  "crypto_init_public_key cx private_key raw_public_key =
     (case cx_ecfp_generate_pair_no_throw cx private_key of (result, w) \<Rightarrow>
        (ucast result, if result = CX_OK then take (unat PUBLIC_KEY_LEN) w else raw_public_key))"

text \<open>The last component is the chain code stored through the pointer, when it is not \<open>NULL\<close>.\<close>

definition crypto_generate_public_key ::
    "('h, 'x) cx_device_scheme \<Rightarrow> u32 list \<Rightarrow> u8 \<Rightarrow> bytes \<Rightarrow> u16 \<times> bytes \<times> bytes" where
  "crypto_generate_public_key cx bip32_path bip32_path_len raw_public_key =
     (case crypto_derive_private_key cx (replicate (unat PRIVATE_KEY_LEN) 0) bip32_path bip32_path_len of
        (result, d, chain_code) \<Rightarrow>
        if result = 0 then
          case crypto_init_public_key cx d raw_public_key of (result2, w) \<Rightarrow> (result2, w, chain_code)
        else (result, raw_public_key, chain_code))"

text \<open>
  What is assumed of the library: it reports failures with codes whose low half is not zero (the
  callers look at the low half only), and stores keys of the documented sizes.
\<close>

definition cx_keys_ok :: "('h, 'x) cx_device_scheme \<Rightarrow> bool" where
  "cx_keys_ok cx \<longleftrightarrow>
     (\<forall>raw n d e. cx_ecfp_init_private_key_no_throw cx raw n = (e, d) \<longrightarrow>
        (e = CX_OK \<longleftrightarrow> (ucast e :: u16) = 0) \<and> (e = CX_OK \<longrightarrow> length d = 32)) \<and>
     (\<forall>d w e. cx_ecfp_generate_pair_no_throw cx d = (e, w) \<longrightarrow>
        (e = CX_OK \<longleftrightarrow> (ucast e :: u16) = 0) \<and> (e = CX_OK \<longrightarrow> length w = 65)) \<and>
     (\<forall>p n e raw c. os_derive_bip32_no_throw cx p n = (e, raw, c) \<longrightarrow> (e = CX_OK \<longleftrightarrow> (ucast e :: u16) = 0))"

text \<open>
  The keys of a path belong together: when a public key is produced for a path, then the
  private key of the same path is produced too, has 32 bytes, and the public key is the one that
  the device computes from it, with 65 bytes. So an address shown for a path and a signature made
  with it use the same key pair.
\<close>

theorem crypto_key_pair:
  assumes "cx_keys_ok cx" and "crypto_generate_public_key cx p n pk0 = (0, pk, code)"
  shows "\<exists>sk. crypto_generate_private_key cx p n sk0 = (0, sk) \<and> length sk = 32 \<and>
     cx_ecfp_generate_pair_no_throw cx sk = (CX_OK, pk) \<and> length pk = 65"
proof -
  obtain e raw c where d: "os_derive_bip32_no_throw cx p n = (e, raw, c)" by (metis prod_cases3)
  obtain e2 sk where i: "cx_ecfp_init_private_key_no_throw cx raw PRIVATE_KEY_LEN = (e2, sk)" by (metis surj_pair)
  obtain e3 w where g: "cx_ecfp_generate_pair_no_throw cx sk = (e3, w)" by (metis surj_pair)
  note k = assms(1) [unfolded cx_keys_ok_def]
  have e: "e = CX_OK \<longleftrightarrow> (ucast e :: u16) = 0" "e2 = CX_OK \<longleftrightarrow> (ucast e2 :: u16) = 0" "e3 = CX_OK \<longleftrightarrow> (ucast e3 :: u16) = 0"
    "e2 = CX_OK \<longrightarrow> length sk = 32" "e3 = CX_OK \<longrightarrow> length w = 65"
    using k d i g by blast+
  have "e = CX_OK" "e2 = CX_OK" "e3 = CX_OK" "pk = take 65 w"
    using assms(2) d i g e
    by (auto simp: crypto_generate_public_key_def crypto_derive_private_key_def crypto_init_public_key_def PUBLIC_KEY_LEN_def
        split: if_splits)
  then show ?thesis
    using d i g e by (simp add: crypto_generate_private_key_def crypto_derive_private_key_def PRIVATE_KEY_LEN_def CX_OK_def)
qed

text \<open>A library for the witnesses: keys are constant arrays, arithmetic is on big-endian numbers.\<close>

definition nat_of_be :: "bytes \<Rightarrow> nat" where
  "nat_of_be bs = foldl (\<lambda>a b. 256 * a + unat b) 0 bs"

fun be_of_nat :: "nat \<Rightarrow> nat \<Rightarrow> bytes" where
  "be_of_nat 0 v = []"
| "be_of_nat (Suc n) v = be_of_nat n (v div 256) @ [of_nat v]"

definition demo_multm :: "bytes \<Rightarrow> bytes \<Rightarrow> bytes \<Rightarrow> u32 \<times> bytes" where
  "demo_multm a b m = (0, be_of_nat 32 (nat_of_be a * nat_of_be b mod nat_of_be m))"

definition demo_addm :: "bytes \<Rightarrow> bytes \<Rightarrow> bytes \<Rightarrow> u32 \<times> bytes" where
  "demo_addm a b m = (0, be_of_nat 32 ((nat_of_be a + nat_of_be b) mod nat_of_be m))"

definition demo_cmp :: "bytes \<Rightarrow> bytes \<Rightarrow> u32 \<times> int" where
  "demo_cmp a b = (0, int (nat_of_be a) - int (nat_of_be b))"

definition demo_point :: "bytes \<Rightarrow> u32 \<times> bytes" where
  "demo_point d = (0, take 65 (4 # d @ d @ replicate 65 0))"

definition demo_is_zero :: "bytes \<Rightarrow> bool" where
  "demo_is_zero d \<longleftrightarrow> nat_of_be d = 0"

lemmas demo_math_defs = demo_multm_def demo_addm_def demo_cmp_def demo_point_def demo_is_zero_def

definition demo_device :: "bytes cx_device" where
  "demo_device = \<lparr>cx_blake2b_init_no_throw = (\<lambda>h n. (0, [])),
     cx_hash_no_throw = (\<lambda>h mode data n. (0, h @ data, take (unat n) (replicate 23 0 @ [5] @ replicate 8 1))),
     cx_blake2b_256_hash = (\<lambda>data. (0, replicate 32 (of_nat (length data)))), cx_zero_hash = [],
     os_derive_bip32_no_throw = (\<lambda>p n. (0, replicate 64 (of_nat (length p)), replicate 32 1)),
     cx_ecfp_init_private_key_no_throw = (\<lambda>raw n. (0, replicate 31 0 @ [5])),
     cx_ecfp_generate_pair_no_throw = demo_point,
     cx_ecfp_scalar_mult_no_throw = (\<lambda>pt d. demo_point d),
     cx_math_is_zero = demo_is_zero, cx_math_cmp_no_throw = demo_cmp,
     cx_math_multm_no_throw = demo_multm, cx_math_addm_no_throw = demo_addm,
     cx_hmac_sha256 = (\<lambda>k d. take 32 (k @ d @ replicate 32 0))\<rparr>"

theorem crypto_key_pair_witness:
  "\<exists>sk. crypto_generate_private_key demo_device [44, 429] 2 [] = (0, sk) \<and> length sk = 32"
proof -
  have u: "(ucast CX_OK :: u16) = 0" by (simp add: CX_OK_def)
  have k: "cx_keys_ok demo_device" using u by (auto simp: cx_keys_ok_def demo_device_def demo_math_defs CX_OK_def)
  have "fst (crypto_generate_public_key demo_device [44, 429] 2 []) = 0"
    by (simp add: crypto_generate_public_key_def crypto_derive_private_key_def crypto_init_public_key_def demo_device_def demo_math_defs CX_OK_def)
  then have p: "crypto_generate_public_key demo_device [44, 429] 2 [] =
      (0, fst (snd (crypto_generate_public_key demo_device [44, 429] 2 [])), snd (snd (crypto_generate_public_key demo_device [44, 429] 2 [])))"
    by (metis prod.collapse)
  from crypto_key_pair [OF k p, of "[]"] show ?thesis by blast
qed

end
