(* ===== verification/Schnorr.thy ===== *)
theory Schnorr
  imports Crypto
begin

text \<open>
  Schnorr signatures over secp256k1, \<^verbatim>\<open>src/ergo/schnorr.c\<close>. Signing is split in two: the
  first half draws the ephemeral key and starts the hash with the commitment (the proof tree with
  the public key, and the ephemeral point), then the transaction is streamed into the hash, and the
  second half turns the digest into the challenge and the response.

  \<open>rnd i\<close> is what the random generator returns in attempt \<open>i\<close>. The array \<open>key\<close> keeps its value when an
  attempt ends before the draw.
\<close>

definition ERGO_SOUNDNESS_BYTES :: nat where "ERGO_SOUNDNESS_BYTES = 24"
definition MAX_ITERATIONS :: nat where "MAX_ITERATIONS = 100"
definition ERGO_SIGNATURE_LEN :: size_t where "ERGO_SIGNATURE_LEN = 56"

definition SECP256K1_G :: bytes where
  "SECP256K1_G = [
     0x79, 0xbe, 0x66, 0x7e, 0xf9, 0xdc, 0xbb, 0xac, 0x55, 0xa0, 0x62, 0x95, 0xce, 0x87, 0x0b, 0x07,
     0x02, 0x9b, 0xfc, 0xdb, 0x2d, 0xce, 0x28, 0xd9, 0x59, 0xf2, 0x81, 0x5b, 0x16, 0xf8, 0x17, 0x98,
     0x48, 0x3a, 0xda, 0x77, 0x26, 0xa3, 0xc4, 0x65, 0x5d, 0xa4, 0xfb, 0xfc, 0x0e, 0x11, 0x08, 0xa8,
     0xfd, 0x17, 0xb4, 0x48, 0xa6, 0x85, 0x54, 0x19, 0x9c, 0x47, 0xd0, 0x8f, 0xfb, 0x10, 0xd4, 0xb8]"

definition SECP256K1_N :: bytes where
  "SECP256K1_N = [
     0xff, 0xff, 0xff, 0xff, 0xff, 0xff, 0xff, 0xff, 0xff, 0xff, 0xff, 0xff, 0xff, 0xff, 0xff, 0xfe,
     0xba, 0xae, 0xdc, 0xe6, 0xaf, 0x48, 0xa0, 0x3b, 0xbf, 0xd2, 0x5e, 0x8c, 0xd0, 0x36, 0x41, 0x41]"

definition P2PK_PREFIX :: bytes where "P2PK_PREFIX = [0x01, 0x00, 0x27, 0x10, 0x01, 0x08, 0xcd]"
definition P2PK_SUFFIX :: bytes where "P2PK_SUFFIX = [0x73, 0x00, 0x00, 0x21]"

text \<open>The compressed form of an uncompressed point: \<open>buf[0]\<close> is set, 33 bytes of \<open>buf\<close> are hashed.\<close>

definition compress_point :: "bytes \<Rightarrow> bytes" where
  "compress_point buf = buf[0 := if buf ! (unat PUBLIC_KEY_LEN - 1) AND 1 = 1 then 0x03 else 0x02]"

definition scalar_base :: "('h, 'x) cx_device_scheme \<Rightarrow> bytes \<Rightarrow> u32 \<times> bytes" where
  "scalar_base cx scalar = cx_ecfp_scalar_mult_no_throw cx (0x04 # SECP256K1_G) scalar"

text \<open>One round of the \<open>for\<close> loop: result, hash context, key.\<close>

definition sign_init_attempt ::
    "('h, 'x) cx_device_scheme \<Rightarrow> bytes \<Rightarrow> bytes \<Rightarrow> 'h \<Rightarrow> bytes \<Rightarrow> bool \<times> 'h \<times> bytes" where
  "sign_init_attempt cx secret draw hash key =
     (case blake2b_256_init cx hash of (ok0, h0) \<Rightarrow>
      if \<not> ok0 then (False, h0, key)
      else case blake2b_update cx h0 P2PK_PREFIX (of_nat (length P2PK_PREFIX)) of (ok1, h1) \<Rightarrow>
      if \<not> ok1 then (False, h1, key)
      else if cx_math_is_zero cx secret then (False, h1, key)
      else case cx_math_cmp_no_throw cx secret SECP256K1_N of (e1, cmp_diff) \<Rightarrow>
      if e1 \<noteq> CX_OK \<or> cmp_diff \<ge> 0 then (False, h1, key)
      else case scalar_base cx secret of (e2, pk) \<Rightarrow>
      if e2 \<noteq> CX_OK then (False, h1, key)
      else case blake2b_update cx h1 (compress_point pk) COMPRESSED_PUBLIC_KEY_LEN of (ok2, h2) \<Rightarrow>
      if \<not> ok2 then (False, h2, key)
      else case blake2b_update cx h2 P2PK_SUFFIX (of_nat (length P2PK_SUFFIX)) of (ok3, h3) \<Rightarrow>
      if \<not> ok3 then (False, h3, key)
      else if cx_math_is_zero cx draw then (False, h3, draw)
      else case cx_math_cmp_no_throw cx draw SECP256K1_N of (e3, cmp_diff2) \<Rightarrow>
      if e3 \<noteq> CX_OK \<or> cmp_diff2 > 0 then (False, h3, draw)
      else case scalar_base cx draw of (e4, w) \<Rightarrow>
      if e4 \<noteq> CX_OK then (False, h3, draw)
      else case blake2b_update cx h3 (compress_point w) COMPRESSED_PUBLIC_KEY_LEN of (ok4, h4) \<Rightarrow>
      (ok4, h4, draw))"

primrec sign_init_loop ::
    "('h, 'x) cx_device_scheme \<Rightarrow> bytes \<Rightarrow> (nat \<Rightarrow> bytes) \<Rightarrow> nat \<Rightarrow> 'h \<Rightarrow> bytes \<Rightarrow> bool \<times> 'h \<times> bytes" where
  "sign_init_loop cx secret rnd 0 hash key = (False, hash, key)"
| "sign_init_loop cx secret rnd (Suc left) hash key =
     (case sign_init_attempt cx secret (rnd (MAX_ITERATIONS - Suc left)) hash key of (result, h, k) \<Rightarrow>
        if result then (True, h, k) else sign_init_loop cx secret rnd left h k)"

definition ergo_secp256k1_schnorr_p2pk_sign_init ::
    "('h, 'x) cx_device_scheme \<Rightarrow> (nat \<Rightarrow> bytes) \<Rightarrow> 'h \<Rightarrow> bytes \<Rightarrow> bytes \<Rightarrow> bool \<times> 'h \<times> bytes" where
  "ergo_secp256k1_schnorr_p2pk_sign_init cx rnd hash key secret = sign_init_loop cx secret rnd MAX_ITERATIONS hash key"

text \<open>Success, the hash context and the array \<open>signature\<close> after the call.\<close>

definition ergo_secp256k1_schnorr_p2pk_sign_finish ::
    "('h, 'x) cx_device_scheme \<Rightarrow> bytes \<Rightarrow> 'h \<Rightarrow> bytes \<Rightarrow> bytes \<Rightarrow> bool \<times> 'h \<times> bytes" where
  "ergo_secp256k1_schnorr_p2pk_sign_finish cx signature hash secret key =
     (case blake2b_256_finalize cx hash of (ok, h, digest) \<Rightarrow>
        let sig1 = mem_write signature 0 (take (unat CX_BLAKE2B_256_SIZE) digest) in
        if \<not> ok then (False, h, sig1)
        else let buf = replicate (unat CX_BLAKE2B_256_SIZE - ERGO_SOUNDNESS_BYTES) 0 @ take ERGO_SOUNDNESS_BYTES sig1 in
          if cx_math_is_zero cx buf then (False, h, sig1)
          else case cx_math_multm_no_throw cx buf secret SECP256K1_N of (e1, buf2) \<Rightarrow>
            if e1 \<noteq> CX_OK then (False, h, sig1)
            else case cx_math_addm_no_throw cx key buf2 SECP256K1_N of (e2, z) \<Rightarrow>
              if e2 \<noteq> CX_OK then (False, h, sig1)
              else (True, h, mem_write sig1 ERGO_SOUNDNESS_BYTES (take (unat PRIVATE_KEY_LEN) z)))"

subsection \<open>What is assumed of the arithmetic of the device\<close>

definition cx_math_ok :: "('h, 'x) cx_device_scheme \<Rightarrow> bool" where
  "cx_math_ok cx \<longleftrightarrow>
     (\<forall>a. cx_math_is_zero cx a \<longleftrightarrow> nat_of_be a = 0) \<and>
     (\<forall>a b d. cx_math_cmp_no_throw cx a b = (CX_OK, d) \<longrightarrow> (d < 0 \<longleftrightarrow> nat_of_be a < nat_of_be b) \<and> (d > 0 \<longleftrightarrow> nat_of_be a > nat_of_be b)) \<and>
     (\<forall>a b r. cx_math_multm_no_throw cx a b SECP256K1_N = (CX_OK, r) \<longrightarrow>
        length r = 32 \<and> nat_of_be r = nat_of_be a * nat_of_be b mod nat_of_be SECP256K1_N) \<and>
     (\<forall>a b r. cx_math_addm_no_throw cx a b SECP256K1_N = (CX_OK, r) \<longrightarrow>
        length r = 32 \<and> nat_of_be r = (nat_of_be a + nat_of_be b) mod nat_of_be SECP256K1_N)"

definition cx_digest_32 :: "('h, 'x) cx_sdk_scheme \<Rightarrow> bool" where
  "cx_digest_32 cx \<longleftrightarrow> (\<forall>h h' out. blake2b_256_finalize cx h = (True, h', out) \<longrightarrow> length out = 32)"

subsection \<open>The commitment\<close>

definition schnorr_commitment :: "bytes \<Rightarrow> bytes \<Rightarrow> bytes" where
  "schnorr_commitment pk w = P2PK_PREFIX @ take 33 (compress_point pk) @ P2PK_SUFFIX @ take 33 (compress_point w)"

lemma sign_init_attempt_True:
  assumes "cx_absorbs cx ab" and "cx_math_ok cx" and "sign_init_attempt cx secret draw hash key = (True, h, k)"
  shows "k = draw \<and> 0 < nat_of_be secret \<and> nat_of_be secret < nat_of_be SECP256K1_N \<and>
     0 < nat_of_be k \<and> nat_of_be k \<le> nat_of_be SECP256K1_N \<and>
     (\<exists>pk w. scalar_base cx secret = (CX_OK, pk) \<and> scalar_base cx k = (CX_OK, w) \<and> ab h = schnorr_commitment pk w)"
proof -
  note run = assms(3) [unfolded sign_init_attempt_def]
  obtain h0 where h0: "blake2b_256_init cx hash = (True, h0)" using run by (auto split: prod.splits if_splits)
  obtain h1 where h1: "blake2b_update cx h0 P2PK_PREFIX (of_nat (length P2PK_PREFIX)) = (True, h1)"
    using run h0 by (auto split: prod.splits if_splits)
  have z: "\<not> cx_math_is_zero cx secret" using run h0 h1 by (auto split: if_splits)
  obtain d1 where d1: "cx_math_cmp_no_throw cx secret SECP256K1_N = (CX_OK, d1)" "d1 < 0"
    using run h0 h1 z by (auto split: prod.splits if_splits)
  obtain pk where pk: "scalar_base cx secret = (CX_OK, pk)" using run h0 h1 z d1 by (auto split: prod.splits if_splits)
  obtain h2 where h2: "blake2b_update cx h1 (compress_point pk) COMPRESSED_PUBLIC_KEY_LEN = (True, h2)"
    using run h0 h1 z d1 pk by (auto split: prod.splits if_splits)
  obtain h3 where h3: "blake2b_update cx h2 P2PK_SUFFIX (of_nat (length P2PK_SUFFIX)) = (True, h3)"
    using run h0 h1 z d1 pk h2 by (auto split: prod.splits if_splits)
  have zd: "\<not> cx_math_is_zero cx draw" using run h0 h1 z d1 pk h2 h3 by (auto split: if_splits)
  obtain d2 where d2: "cx_math_cmp_no_throw cx draw SECP256K1_N = (CX_OK, d2)" "\<not> d2 > 0"
    using run h0 h1 z d1 pk h2 h3 zd by (auto split: prod.splits if_splits)
  obtain w where w: "scalar_base cx draw = (CX_OK, w)"
    using run h0 h1 z d1 pk h2 h3 zd d2 by (auto split: prod.splits if_splits)
  have h4: "blake2b_update cx h3 (compress_point w) COMPRESSED_PUBLIC_KEY_LEN = (True, h) \<and> k = draw"
    using run h0 h1 z d1 pk h2 h3 zd d2 w by (auto split: prod.splits)
  have "ab h0 = []" by (rule blake2b_init_absorbs [OF assms(1) h0])
  moreover have "ab h1 = ab h0 @ P2PK_PREFIX" "ab h3 = ab h2 @ P2PK_SUFFIX"
    using blake2b_update_absorbs [OF assms(1) h1] blake2b_update_absorbs [OF assms(1) h3]
    by (simp_all add: P2PK_PREFIX_def P2PK_SUFFIX_def)
  moreover have "ab h2 = ab h1 @ take 33 (compress_point pk)" "ab h = ab h3 @ take 33 (compress_point w)"
    using blake2b_update_absorbs [OF assms(1) h2] blake2b_update_absorbs [OF assms(1) conjunct1 [OF h4]]
    by (simp_all add: COMPRESSED_PUBLIC_KEY_LEN_def)
  ultimately have "ab h = schnorr_commitment pk w" by (simp add: schnorr_commitment_def)
  moreover have "0 < nat_of_be secret" "nat_of_be secret < nat_of_be SECP256K1_N" "0 < nat_of_be draw"
    "nat_of_be draw \<le> nat_of_be SECP256K1_N"
    using assms(2) z d1 zd d2 by (simp_all add: cx_math_ok_def)
  ultimately show ?thesis using pk w h4 by blast
qed

lemma sign_init_loop_True:
  assumes "sign_init_loop cx secret rnd n hash key = (True, h, k)"
  shows "\<exists>i h0 k0. i < n \<and> sign_init_attempt cx secret (rnd (MAX_ITERATIONS - Suc i)) h0 k0 = (True, h, k)"
  using assms
proof (induction n arbitrary: hash key)
  case 0
  then show ?case by simp
next
  case (Suc n)
  obtain r g k1 where a: "sign_init_attempt cx secret (rnd (MAX_ITERATIONS - Suc n)) hash key = (r, g, k1)" by (metis prod_cases3)
  show ?case
  proof (cases r)
    case True
    then have "g = h \<and> k1 = k" using Suc.prems a by simp
    then have "sign_init_attempt cx secret (rnd (MAX_ITERATIONS - Suc n)) hash key = (True, h, k)" using a True by simp
    then show ?thesis by blast
  next
    case False
    then have "sign_init_loop cx secret rnd n g k1 = (True, h, k)" using Suc.prems a by simp
    then show ?thesis using Suc.IH less_SucI by blast
  qed
qed

lemma nat_of_be_zeros: "nat_of_be (replicate n 0 @ d) = nat_of_be d"
proof -
  have "foldl (\<lambda>a b. 256 * a + unat b) 0 (replicate n (0 :: u8)) = 0" by (induction n) simp_all
  then show ?thesis by (simp add: nat_of_be_def)
qed

lemma sign_finish_True:
  assumes "cx_math_ok cx" and "cx_digest_32 cx" and "length signature = 56"
    and "ergo_secp256k1_schnorr_p2pk_sign_finish cx signature hash secret key = (True, h, sig)"
  shows "\<exists>digest z. blake2b_256_finalize cx hash = (True, h, digest) \<and> sig = take 24 digest @ z \<and> length z = 32 \<and>
     nat_of_be (take 24 digest) \<noteq> 0 \<and>
     nat_of_be z = (nat_of_be key + nat_of_be (take 24 digest) * nat_of_be secret) mod nat_of_be SECP256K1_N"
proof -
  note run = assms(4) [unfolded ergo_secp256k1_schnorr_p2pk_sign_finish_def]
  obtain digest where d: "blake2b_256_finalize cx hash = (True, h, digest)"
    using run by (auto simp: Let_def split: prod.splits if_splits)
  have l: "length digest = 32" using assms(2) d by (simp add: cx_digest_32_def)
  define c where "c = take 24 digest"
  define sig1 where "sig1 = mem_write signature 0 digest"
  have sig1: "sig1 = digest @ drop 32 signature" "take 24 sig1 = c" using l by (simp_all add: sig1_def mem_write_def c_def)
  have run2: "(if cx_math_is_zero cx (replicate 8 0 @ c) then (False, h, sig1)
      else case cx_math_multm_no_throw cx (replicate 8 0 @ c) secret SECP256K1_N of (e1, buf2) \<Rightarrow>
        if e1 \<noteq> CX_OK then (False, h, sig1)
        else case cx_math_addm_no_throw cx key buf2 SECP256K1_N of (e2, z) \<Rightarrow>
          if e2 \<noteq> CX_OK then (False, h, sig1) else (True, h, mem_write sig1 24 (take 32 z))) = (True, h, sig)"
    using run d l sig1(2) by (simp add: sig1_def CX_BLAKE2B_256_SIZE_def ERGO_SOUNDNESS_BYTES_def PRIVATE_KEY_LEN_def Let_def
        cong: if_cong prod.case_cong)
  then have nz: "nat_of_be c \<noteq> 0" using assms(1) by (auto simp: cx_math_ok_def nat_of_be_zeros split: if_splits)
  obtain b where b: "cx_math_multm_no_throw cx (replicate 8 0 @ c) secret SECP256K1_N = (CX_OK, b)"
    using run2 by (auto split: prod.splits if_splits)
  obtain z where z: "cx_math_addm_no_throw cx key b SECP256K1_N = (CX_OK, z)" "sig = mem_write sig1 24 (take 32 z)"
    using run2 b by (auto split: prod.splits if_splits)
  have "nat_of_be b = nat_of_be c * nat_of_be secret mod nat_of_be SECP256K1_N" "length z = 32"
    "nat_of_be z = (nat_of_be key + nat_of_be b) mod nat_of_be SECP256K1_N"
    using assms(1) b z by (simp_all add: cx_math_ok_def nat_of_be_zeros)
  moreover have "sig = c @ z" using z(2) calculation(2) sig1 assms(3) l by (simp add: mem_write_def c_def)
  ultimately show ?thesis using d nz by (auto simp: c_def mod_add_right_eq)
qed

lemma schnorr_equation_absorbed:
  assumes "cx_absorbs cx ab" and "cx_math_ok cx" and "cx_digest_32 cx" and "length signature = 56"
    and "ergo_secp256k1_schnorr_p2pk_sign_init cx rnd h0 key0 secret = (True, h1, key)"
    and "ab h2 = ab h1 @ d"
    and "ergo_secp256k1_schnorr_p2pk_sign_finish cx signature h2 secret key = (True, h3, sig)"
  shows "\<exists>pk w digest z. scalar_base cx secret = (CX_OK, pk) \<and> scalar_base cx key = (CX_OK, w) \<and>
     (\<exists>i < 100. key = rnd i) \<and> 0 < nat_of_be secret \<and> nat_of_be secret < nat_of_be SECP256K1_N \<and> 0 < nat_of_be key \<and>
     ab h2 = schnorr_commitment pk w @ d \<and> blake2b_256_finalize cx h2 = (True, h3, digest) \<and>
     sig = take 24 digest @ z \<and> length z = 32 \<and> nat_of_be (take 24 digest) \<noteq> 0 \<and>
     nat_of_be z = (nat_of_be key + nat_of_be (take 24 digest) * nat_of_be secret) mod nat_of_be SECP256K1_N"
proof -
  from sign_init_loop_True [OF assms(5) [unfolded ergo_secp256k1_schnorr_p2pk_sign_init_def]] obtain i g k where
    i: "i < MAX_ITERATIONS" "sign_init_attempt cx secret (rnd (MAX_ITERATIONS - Suc i)) g k = (True, h1, key)" by blast
  note a = sign_init_attempt_True [OF assms(1,2) i(2)]
  have "\<exists>j < 100. key = rnd j" using a i(1) by (auto simp: MAX_ITERATIONS_def intro: exI [of _ "99 - i"])
  then show ?thesis using a assms(6) sign_finish_True [OF assms(2-4,7)] by auto
qed

text \<open>
  C30. The signature equation. When both halves of signing succeed and the byte strings \<open>ds\<close> were
  hashed in between, then the digest was taken over the commitment (the public key of the secret
  and the point of a fresh ephemeral key, both of non-zero scalars) followed by \<open>ds\<close>, and the 56
  bytes of the signature are the challenge c, the first 24 bytes of that digest, which is not
  zero, and the response z = key + c * secret modulo the group order.
\<close>

theorem schnorr_signature_equation:
  assumes "cx_absorbs cx ab" and "cx_math_ok cx" and "cx_digest_32 cx" and "length signature = 56"
    and "ergo_secp256k1_schnorr_p2pk_sign_init cx rnd h0 key0 secret = (True, h1, key)"
    and "hash_trace cx h1 ds h2"
    and "ergo_secp256k1_schnorr_p2pk_sign_finish cx signature h2 secret key = (True, h3, sig)"
  shows "\<exists>pk w digest z. scalar_base cx secret = (CX_OK, pk) \<and> scalar_base cx key = (CX_OK, w) \<and>
     (\<exists>i < 100. key = rnd i) \<and> 0 < nat_of_be secret \<and> nat_of_be secret < nat_of_be SECP256K1_N \<and> 0 < nat_of_be key \<and>
     ab h2 = schnorr_commitment pk w @ concat ds \<and> blake2b_256_finalize cx h2 = (True, h3, digest) \<and>
     sig = take 24 digest @ z \<and> length z = 32 \<and> nat_of_be (take 24 digest) \<noteq> 0 \<and>
     nat_of_be z = (nat_of_be key + nat_of_be (take 24 digest) * nat_of_be secret) mod nat_of_be SECP256K1_N"
  by (rule schnorr_equation_absorbed [OF assms(1-5) hash_trace_absorbs [OF assms(1,6)] assms(7)])

text \<open>Witness on the library with exact arithmetic; the secret is 7, the first draw is zero, the second is 9.\<close>

definition demo_rnd :: "nat \<Rightarrow> bytes" where
  "demo_rnd i = replicate 31 0 @ [if i = 0 then 0 else 9]"

lemma nat_of_be_snoc: "nat_of_be (bs @ [b]) = 256 * nat_of_be bs + unat b"
  by (simp add: nat_of_be_def)

lemma nat_of_be_of_nat: "nat_of_be (be_of_nat n v) = v mod 256 ^ n"
proof (induction n arbitrary: v)
  case 0
  then show ?case by (simp add: nat_of_be_def)
next
  case (Suc n)
  have "unat (of_nat v :: u8) = v mod 256" by (simp add: unat_of_nat)
  then show ?case using Suc by (simp add: nat_of_be_snoc mod_mult2_eq)
qed

lemma be_of_nat_length [simp]: "length (be_of_nat n v) = n"
  by (induction n arbitrary: v) simp_all

lemma SECP256K1_N_nat:
  "nat_of_be SECP256K1_N = 115792089237316195423570985008687907852837564279074904382605163141518161494337"
  by (simp add: nat_of_be_def SECP256K1_N_def)

lemma mod_N_256: "v mod nat_of_be SECP256K1_N mod 256 ^ 32 = v mod nat_of_be SECP256K1_N"
proof -
  have "v mod nat_of_be SECP256K1_N < nat_of_be SECP256K1_N" by (rule mod_less_divisor) (simp add: SECP256K1_N_nat)
  then have "v mod nat_of_be SECP256K1_N < 256 ^ 32" by (simp add: SECP256K1_N_nat)
  then show ?thesis by (rule mod_less)
qed

lemma demo_device_math: "cx_math_ok demo_device"
  unfolding cx_math_ok_def
proof (intro conjI allI impI)
qed (auto simp: demo_device_def demo_math_defs CX_OK_def nat_of_be_of_nat mod_N_256 simp del: power_numeral)

lemma demo_device_absorbs: "cx_absorbs demo_device (\<lambda>h. h)"
  by (simp add: demo_device_def demo_math_defs cx_absorbs_def hash_absorb_def)

lemma demo_device_digest: "cx_digest_32 demo_device"
  by (simp add: demo_device_def demo_math_defs cx_digest_32_def blake2b_256_finalize_def CX_BLAKE2B_256_SIZE_def)

subsection \<open>Signing starts when a draw is good\<close>

definition sdk_signs :: "('h, 'x) cx_device_scheme \<Rightarrow> ('h \<Rightarrow> bytes) \<Rightarrow> bool" where
  "sdk_signs cx ab \<longleftrightarrow> cx_streams cx ab \<and> cx_math_ok cx \<and>
     (\<forall>a b. fst (cx_math_cmp_no_throw cx a b) = CX_OK) \<and> (\<forall>pt d. fst (cx_ecfp_scalar_mult_no_throw cx pt d) = CX_OK)"

lemma sign_init_attempt_succeeds:
  assumes "sdk_signs cx ab" and "0 < nat_of_be secret" "nat_of_be secret < nat_of_be SECP256K1_N"
    and "0 < nat_of_be draw" "nat_of_be draw \<le> nat_of_be SECP256K1_N"
  shows "\<exists>h'. sign_init_attempt cx secret draw h key = (True, h', draw)"
proof -
  note s = assms(1) [unfolded sdk_signs_def]
  have u: "\<exists>g'. blake2b_update cx g d n = (True, g')" for g d n using blake2b_update_streams [OF conjunct1 [OF s]] by blast
  obtain h0 where h0: "blake2b_256_init cx h = (True, h0)"
    using s by (simp add: blake2b_256_init_def cx_streams_def) (metis (mono_tags, lifting) case_prod_beta)
  obtain h1 where h1: "blake2b_update cx h0 P2PK_PREFIX (of_nat (length P2PK_PREFIX)) = (True, h1)" using u by blast
  have z: "\<not> cx_math_is_zero cx secret" "\<not> cx_math_is_zero cx draw" using s assms by (simp_all add: cx_math_ok_def)
  obtain d1 d2 where d: "cx_math_cmp_no_throw cx secret SECP256K1_N = (CX_OK, d1)"
    "cx_math_cmp_no_throw cx draw SECP256K1_N = (CX_OK, d2)" using s by (metis fst_conv surj_pair)
  then have lt: "d1 < 0" "\<not> d2 > 0" using s assms by (auto simp: cx_math_ok_def)
  obtain pk w where p: "scalar_base cx secret = (CX_OK, pk)" "scalar_base cx draw = (CX_OK, w)"
    using s by (metis fst_conv surj_pair scalar_base_def)
  obtain h2 where h2: "blake2b_update cx h1 (compress_point pk) COMPRESSED_PUBLIC_KEY_LEN = (True, h2)" using u by blast
  obtain h3 where h3: "blake2b_update cx h2 P2PK_SUFFIX (of_nat (length P2PK_SUFFIX)) = (True, h3)" using u by blast
  obtain h4 where h4: "blake2b_update cx h3 (compress_point w) COMPRESSED_PUBLIC_KEY_LEN = (True, h4)" using u by blast
  have "sign_init_attempt cx secret draw h key = (True, h4, draw)"
    using h0 h1 z d lt p h2 h3 h4 by (simp add: sign_init_attempt_def)
  then show ?thesis by blast
qed

lemma sign_init_loop_succeeds:
  assumes "\<And>h key. \<exists>h'. sign_init_attempt cx secret (rnd i) h key = (True, h', rnd i)"
    and "MAX_ITERATIONS - n \<le> i" "i < MAX_ITERATIONS"
  shows "fst (sign_init_loop cx secret rnd n h key)"
  using assms(2)
proof (induction n arbitrary: h key)
  case 0
  then show ?case using assms(3) by simp
next
  case (Suc n)
  obtain r g k where a: "sign_init_attempt cx secret (rnd (MAX_ITERATIONS - Suc n)) h key = (r, g, k)" by (metis prod_cases3)
  show ?case
  proof (cases "r \<or> MAX_ITERATIONS - Suc n = i")
    case True
    then have r using a assms(1) by (metis fst_conv)
    then show ?thesis using a by simp
  next
    case False
    then have "MAX_ITERATIONS - n \<le> i" using Suc.prems by linarith
    then show ?thesis using a False Suc.IH by simp
  qed
qed

text \<open>
  C31. Signing can start: when the library reports no failure, the secret is a scalar of the group and
  at least one of the hundred draws of the random generator is non-zero and not above the group
  order, the first half of signing returns true.
\<close>

theorem sign_init_succeeds:
  assumes "sdk_signs cx ab" and "0 < nat_of_be secret" "nat_of_be secret < nat_of_be SECP256K1_N"
    and "i < 100" and "0 < nat_of_be (rnd i)" "nat_of_be (rnd i) \<le> nat_of_be SECP256K1_N"
  shows "fst (ergo_secp256k1_schnorr_p2pk_sign_init cx rnd h key secret)"
  unfolding ergo_secp256k1_schnorr_p2pk_sign_init_def
  by (rule sign_init_loop_succeeds [where rnd = rnd and i = i, OF sign_init_attempt_succeeds [OF assms(1-3,5,6)]])
     (use assms(4) in \<open>simp_all add: MAX_ITERATIONS_def\<close>)

text \<open>The witnesses: the first draw of the generator is rejected, the second is taken.\<close>

definition demo_secret :: bytes where "demo_secret = be_of_nat 32 7"

lemma demo_secret_range: "0 < nat_of_be demo_secret" "nat_of_be demo_secret < nat_of_be SECP256K1_N"
  by (simp_all add: demo_secret_def nat_of_be_of_nat SECP256K1_N_nat)

lemma demo_rnd_range: "0 < nat_of_be (demo_rnd 1)" "nat_of_be (demo_rnd 1) \<le> nat_of_be SECP256K1_N"
proof -
  have "nat_of_be (demo_rnd 1) = 9" by (simp only: demo_rnd_def nat_of_be_zeros) (simp add: nat_of_be_def)
  then show "0 < nat_of_be (demo_rnd 1)" "nat_of_be (demo_rnd 1) \<le> nat_of_be SECP256K1_N" by (simp_all add: SECP256K1_N_nat)
qed

lemma demo_device_signs: "sdk_signs demo_device (\<lambda>h. h)"
  using demo_device_absorbs demo_device_math by (simp add: sdk_signs_def cx_streams_def) (simp add: demo_device_def demo_math_defs CX_OK_def)

theorem sign_init_succeeds_witness:
  "fst (ergo_secp256k1_schnorr_p2pk_sign_init demo_device demo_rnd [] [] demo_secret)"
  by (rule sign_init_succeeds [where rnd = demo_rnd and i = 1, OF demo_device_signs demo_secret_range _ demo_rnd_range]) simp

lemma demo_sign_init:
  assumes "0 < v" "v < nat_of_be SECP256K1_N"
  shows "\<exists>h k. ergo_secp256k1_schnorr_p2pk_sign_init demo_device demo_rnd h0 k0 (be_of_nat 32 v) = (True, h, k)"
proof -
  have "(256 :: nat) ^ 32 = 115792089237316195423570985008687907853269984665640564039457584007913129639936" by simp
  then have "v < 256 ^ 32" using assms(2) unfolding SECP256K1_N_nat by linarith
  then have r: "0 < nat_of_be (be_of_nat 32 v)" "nat_of_be (be_of_nat 32 v) < nat_of_be SECP256K1_N"
    using assms by (simp_all add: nat_of_be_of_nat)
  show ?thesis unfolding ergo_secp256k1_schnorr_p2pk_sign_init_def
    using sign_init_loop_succeeds [where rnd = demo_rnd and i = 1,
          OF sign_init_attempt_succeeds [OF demo_device_signs r demo_rnd_range], of MAX_ITERATIONS h0 k0]
    by (simp add: MAX_ITERATIONS_def) (metis prod.collapse)
qed

lemma demo_device_finish:
  "fst (ergo_secp256k1_schnorr_p2pk_sign_finish demo_device (replicate 56 0) h secret key)"
  by (simp add: ergo_secp256k1_schnorr_p2pk_sign_finish_def demo_device_def demo_math_defs blake2b_256_finalize_def CX_OK_def
      CX_BLAKE2B_256_SIZE_def ERGO_SOUNDNESS_BYTES_def mem_write_def Let_def nat_of_be_zeros)
    (simp add: nat_of_be_def)

lemma fst_pair_eq: "fst p \<Longrightarrow> p = (True, fst (snd p), snd (snd p))"
  by (simp add: prod_eq_iff)

theorem schnorr_signature_equation_witness:
  "\<exists>sig c z. ergo_secp256k1_schnorr_p2pk_sign_finish demo_device (replicate 56 0)
       (fst (snd (ergo_secp256k1_schnorr_p2pk_sign_init demo_device demo_rnd [] [] demo_secret))) demo_secret
       (snd (snd (ergo_secp256k1_schnorr_p2pk_sign_init demo_device demo_rnd [] [] demo_secret))) = sig \<and>
     fst sig \<and> snd (snd sig) = c @ z \<and> length z = 32"
proof -
  define s where "s = ergo_secp256k1_schnorr_p2pk_sign_init demo_device demo_rnd [] [] demo_secret"
  have "fst s" unfolding s_def ergo_secp256k1_schnorr_p2pk_sign_init_def
    by (rule sign_init_loop_succeeds [where rnd = demo_rnd and i = 1,
          OF sign_init_attempt_succeeds [OF demo_device_signs demo_secret_range demo_rnd_range]])
       (simp_all add: MAX_ITERATIONS_def)
  then have i: "ergo_secp256k1_schnorr_p2pk_sign_init demo_device demo_rnd [] [] demo_secret = (True, fst (snd s), snd (snd s))"
    using fst_pair_eq s_def by metis
  define f where "f = ergo_secp256k1_schnorr_p2pk_sign_finish demo_device (replicate 56 0) (fst (snd s)) demo_secret (snd (snd s))"
  have f: "ergo_secp256k1_schnorr_p2pk_sign_finish demo_device (replicate 56 0) (fst (snd s)) demo_secret (snd (snd s)) =
      (True, fst (snd f), snd (snd f))"
    using fst_pair_eq [OF demo_device_finish] f_def by metis
  have t: "hash_trace demo_device (fst (snd s)) [] (fst (snd s))" by simp
  have l: "length (replicate 56 (0 :: u8)) = 56" by simp
  from schnorr_signature_equation [OF demo_device_absorbs demo_device_math demo_device_digest l i t f]
  show ?thesis using f by (fold s_def) auto
qed

end
