(* ===== verification/Address.thy ===== *)
theory Address
  imports Blake2b ErgoTree
begin

text \<open>
  Ergo addresses, \<^verbatim>\<open>src/ergo/address.c\<close>, and the network identifiers they start with,
  \<^verbatim>\<open>src/ergo/network_id.h\<close>. An address is one byte for the type and the network, the
  content (a compressed key or a script hash) and the first four bytes of the BLAKE2b-256 digest of
  everything before. A function returns its success and the array \<open>address\<close> after the call.
\<close>

definition ADDRESS_CHECKSUM_LEN :: size_t where "ADDRESS_CHECKSUM_LEN = 4"
definition ADDRESS_PREFIX_LEN :: size_t where "ADDRESS_PREFIX_LEN = 1"
definition P2PK_ADDRESS_LEN :: size_t where
  "P2PK_ADDRESS_LEN = COMPRESSED_PUBLIC_KEY_LEN + ADDRESS_PREFIX_LEN + ADDRESS_CHECKSUM_LEN"
definition P2SH_ADDRESS_LEN :: size_t where
  "P2SH_ADDRESS_LEN = P2SH_HASH_LEN + ADDRESS_PREFIX_LEN + ADDRESS_CHECKSUM_LEN"
definition P2PK_ADDRESS_STRING_MAX_LEN :: size_t where "P2PK_ADDRESS_STRING_MAX_LEN = 55"

definition ERGO_ADDRESS_TYPE_P2PK :: u8 where "ERGO_ADDRESS_TYPE_P2PK = 0x01"
definition ERGO_ADDRESS_TYPE_P2SH :: u8 where "ERGO_ADDRESS_TYPE_P2SH = 0x02"

definition network_id_is_mainnet :: "u8 \<Rightarrow> bool" where "network_id_is_mainnet n \<longleftrightarrow> n = 0x00"
definition network_id_is_testnet :: "u8 \<Rightarrow> bool" where "network_id_is_testnet n \<longleftrightarrow> n = 0x10"
definition network_id_is_valid :: "u8 \<Rightarrow> bool" where "network_id_is_valid n \<longleftrightarrow> n \<le> 252"
definition network_id_is_supported :: "u8 \<Rightarrow> bool" where
  "network_id_is_supported n \<longleftrightarrow> network_id_is_mainnet n \<or> network_id_is_testnet n"

text \<open>\<open>blake2b_256\<close> over what the buffer holds, and the checksum appended.\<close>

definition append_checksum :: "('h, 'x) cx_sdk_scheme \<Rightarrow> rw_buffer_t \<Rightarrow> bool \<times> rw_buffer_t" where
  "append_checksum cx buffer =
     (case blake2b_256 cx (rw_buffer_read_ptr buffer) (rw_buffer_data_len buffer) of (ok, hash) \<Rightarrow>
        if \<not> ok then (False, buffer) else rw_buffer_write_bytes buffer hash ADDRESS_CHECKSUM_LEN)"

definition address_from_pubkey ::
    "('h, 'x) cx_sdk_scheme \<Rightarrow> u8 \<Rightarrow> bytes \<Rightarrow> bytes \<Rightarrow> bool \<Rightarrow> bool \<times> bytes" where
  "address_from_pubkey cx network public_key address is_compressed =
     (let b0 = rw_buffer_init address P2PK_ADDRESS_LEN 0 in
      if \<not> network_id_is_valid network then (False, address)
      else case rw_buffer_write_u8 b0 (ERGO_ADDRESS_TYPE_P2PK + network) of (ok1, b1) \<Rightarrow>
      if \<not> ok1 then (False, buf_ptr (rw_read b1))
      else case (if is_compressed then rw_buffer_write_bytes b1 public_key COMPRESSED_PUBLIC_KEY_LEN
           else case rw_buffer_write_u8 b1 (if public_key ! 64 AND 1 \<noteq> 0 then 0x03 else 0x02) of (ok2, b2) \<Rightarrow>
             if \<not> ok2 then (False, b2)
             else rw_buffer_write_bytes b2 (drop 1 public_key) (COMPRESSED_PUBLIC_KEY_LEN - 1)) of (ok3, b3) \<Rightarrow>
      if \<not> ok3 then (False, buf_ptr (rw_read b3))
      else case append_checksum cx b3 of (ok4, b4) \<Rightarrow> (ok4, buf_ptr (rw_read b4)))"

definition ergo_address_from_pubkey :: "('h, 'x) cx_sdk_scheme \<Rightarrow> u8 \<Rightarrow> bytes \<Rightarrow> bytes \<Rightarrow> bool \<times> bytes" where
  "ergo_address_from_pubkey cx network public_key address = address_from_pubkey cx network public_key address False"

definition ergo_address_from_compressed_pubkey ::
    "('h, 'x) cx_sdk_scheme \<Rightarrow> u8 \<Rightarrow> bytes \<Rightarrow> bytes \<Rightarrow> bool \<times> bytes" where
  "ergo_address_from_compressed_pubkey cx network public_key address = address_from_pubkey cx network public_key address True"

definition ergo_address_from_script_hash :: "('h, 'x) cx_sdk_scheme \<Rightarrow> u8 \<Rightarrow> bytes \<Rightarrow> bytes \<Rightarrow> bool \<times> bytes" where
  "ergo_address_from_script_hash cx network hash address =
     (let b0 = rw_buffer_init address P2SH_ADDRESS_LEN 0 in
      if \<not> network_id_is_valid network then (False, address)
      else case rw_buffer_write_u8 b0 (ERGO_ADDRESS_TYPE_P2SH + network) of (ok1, b1) \<Rightarrow>
      if \<not> ok1 then (False, buf_ptr (rw_read b1))
      else case rw_buffer_write_bytes b1 hash P2SH_HASH_LEN of (ok2, b2) \<Rightarrow>
      if \<not> ok2 then (False, buf_ptr (rw_read b2))
      else case append_checksum cx b2 of (ok3, b3) \<Rightarrow> (ok3, buf_ptr (rw_read b3)))"

subsection \<open>Filling an array through a write buffer\<close>

text \<open>The buffer over an array of \<open>n\<close> bytes whose first bytes are \<open>d\<close>.\<close>

definition rw_holds :: "rw_buffer_t \<Rightarrow> nat \<Rightarrow> bytes \<Rightarrow> bool" where
  "rw_holds b n d \<longleftrightarrow> rw_wf b \<and> rw_data b = d \<and> length d + rw_space b = n \<and> unat (rw_size b) = n \<and>
     length (buf_ptr (rw_read b)) = n"

lemma rw_holds_init: "length xs = unat n \<Longrightarrow> rw_holds (rw_buffer_init xs n 0) (unat n) []"
  by (simp add: rw_holds_def wf_intros buf_simps) (simp add: rw_buffer_init_def buffer_init_def)

lemma rw_holds_append:
  assumes "rw_holds b n d" and "length d + length bs \<le> n"
  shows "rw_holds (rw_append b bs) n (d @ bs)"
proof -
  have "length bs \<le> rw_space b" "rw_wf b" using assms by (simp_all add: rw_holds_def)
  then show ?thesis
    using assms rw_append_ptr_length [of b bs] rw_append_props [of b bs] by (simp add: rw_holds_def)
qed

lemma rw_holds_write_u8:
  assumes "rw_holds b n d" and "length d < n"
  shows "\<exists>b'. rw_buffer_write_u8 b v = (True, b') \<and> rw_holds b' n (d @ [v])"
  using assms rw_holds_append [of b n d "[v]"] by (simp add: rw_write_u8_eq rw_holds_def)

lemma rw_holds_write_bytes:
  assumes "rw_holds b n d" and "unat k \<le> length xs" and "length d + unat k \<le> n"
  shows "\<exists>b'. rw_buffer_write_bytes b xs k = (True, b') \<and> rw_holds b' n (d @ take (unat k) xs)"
  using assms rw_holds_append [of b n d "take (unat k) xs"] by (simp add: rw_write_bytes_eq rw_holds_def)

lemma rw_holds_full: "rw_holds b n d \<Longrightarrow> length d = n \<Longrightarrow> buf_ptr (rw_read b) = d"
  using rw_full_buffer [of b d] by (simp add: rw_holds_def)

lemma append_checksum_holds:
  assumes "rw_holds b n d" and "length d + 4 = n" and "\<And>out. blake2b_256 cx d (of_nat (length d)) = (True, out) \<Longrightarrow> 4 \<le> length out"
  shows "fst (append_checksum cx b) = fst (blake2b_256 cx d (of_nat (length d))) \<and>
     (fst (append_checksum cx b) \<longrightarrow>
        buf_ptr (rw_read (snd (append_checksum cx b))) = d @ take 4 (snd (blake2b_256 cx d (of_nat (length d)))))"
proof -
  obtain ok out where h: "blake2b_256 cx d (of_nat (length d)) = (ok, out)" by (metis surj_pair)
  have wf: "rw_wf b" and d: "rw_data b = d" using assms(1) by (simp_all add: rw_holds_def)
  have n: "unat (rw_buffer_data_len b) = length d" using length_rw_data [OF wf] d by simp
  have "unat (of_nat (length d) :: size_t) = length d" by (simp flip: n)
  then have h2: "blake2b_256 cx (rw_buffer_read_ptr b) (rw_buffer_data_len b) = (ok, out)"
    using h rw_read_back [OF wf] d n by (simp add: blake2b_256_def)
  show ?thesis
  proof (cases ok)
    case True
    then have l: "4 \<le> length out" using assms(3) h by simp
    obtain b' where "rw_buffer_write_bytes b out 4 = (True, b')" "rw_holds b' n (d @ take 4 out)"
      using rw_holds_write_bytes [OF assms(1), of 4 out] l assms(2) by auto
    then show ?thesis
      using True h h2 l assms(2) rw_holds_full [of b' n "d @ take 4 out"] by (simp add: append_checksum_def ADDRESS_CHECKSUM_LEN_def)
  qed (use h h2 in \<open>simp add: append_checksum_def\<close>)
qed

subsection \<open>Properties\<close>

text \<open>The reference: type and network, content, checksum.\<close>

definition address_body :: "u8 \<Rightarrow> u8 \<Rightarrow> bytes \<Rightarrow> bytes" where
  "address_body addr_type network content = (addr_type + network) # content"

definition address_of :: "('h, 'x) cx_sdk_scheme \<Rightarrow> bytes \<Rightarrow> bytes" where
  "address_of cx body = body @ take 4 (snd (cx_blake2b_256_hash cx body))"

definition cx_digest_size :: "('h, 'x) cx_sdk_scheme \<Rightarrow> bool" where
  "cx_digest_size cx \<longleftrightarrow> (\<forall>d out. cx_blake2b_256_hash cx d = (CX_OK, out) \<longrightarrow> length out = 32)"

lemma blake2b_256_whole:
  "length d < 256 \<Longrightarrow> blake2b_256 cx d (of_nat (length d)) = (fst (cx_blake2b_256_hash cx d) = CX_OK, snd (cx_blake2b_256_hash cx d))"
  by (simp add: blake2b_256_def unat_of_nat_small split: prod.splits)

lemma address_tail:
  assumes "cx_digest_size cx" and "rw_holds b n d" and "length d + 4 = n" "n < 256"
  shows "fst (append_checksum cx b) = (fst (cx_blake2b_256_hash cx d) = CX_OK)"
    and "fst (append_checksum cx b) \<Longrightarrow> buf_ptr (rw_read (snd (append_checksum cx b))) = address_of cx d"
proof -
  have l: "length d < 256" using assms(3,4) by simp
  have "4 \<le> length out" if "blake2b_256 cx d (of_nat (length d)) = (True, out)" for out
    using that assms(1) unfolding blake2b_256_whole [OF l] cx_digest_size_def by (cases "cx_blake2b_256_hash cx d") auto
  from append_checksum_holds [where cx = cx, OF assms(2,3) this]
  show "fst (append_checksum cx b) = (fst (cx_blake2b_256_hash cx d) = CX_OK)"
    and "fst (append_checksum cx b) \<Longrightarrow> buf_ptr (rw_read (snd (append_checksum cx b))) = address_of cx d"
    unfolding blake2b_256_whole [OF l] by (simp_all add: address_of_def)
qed

lemma address_from_pubkey_eq:
  fixes network :: u8 and compressed :: bool
  assumes "cx_digest_size cx" and "length address = 38"
    and "length pk = (if compressed then 33 else 65)"
  defines "body \<equiv> address_body ERGO_ADDRESS_TYPE_P2PK network (if compressed then pk else compressed_key pk)"
  shows "fst (address_from_pubkey cx network pk address compressed) \<longleftrightarrow>
      network_id_is_valid network \<and> fst (cx_blake2b_256_hash cx body) = CX_OK"
    and "fst (address_from_pubkey cx network pk address compressed) \<Longrightarrow>
      snd (address_from_pubkey cx network pk address compressed) = address_of cx body"
proof -
  have n: "P2PK_ADDRESS_LEN = 38" by (simp add: P2PK_ADDRESS_LEN_def COMPRESSED_PUBLIC_KEY_LEN_def ADDRESS_PREFIX_LEN_def ADDRESS_CHECKSUM_LEN_def)
  define b0 where "b0 = rw_buffer_init address 38 0"
  have 0: "rw_holds b0 38 []" using rw_holds_init [of address 38] assms(2) by (simp add: b0_def)
  obtain b1 where 1: "rw_buffer_write_u8 b0 (ERGO_ADDRESS_TYPE_P2PK + network) = (True, b1)"
    "rw_holds b1 38 [ERGO_ADDRESS_TYPE_P2PK + network]" using rw_holds_write_u8 [OF 0] by auto
  obtain b3 where 3: "(if compressed then rw_buffer_write_bytes b1 pk COMPRESSED_PUBLIC_KEY_LEN
           else case rw_buffer_write_u8 b1 (if pk ! 64 AND 1 \<noteq> 0 then 0x03 else 0x02) of (ok2, b2) \<Rightarrow>
             if \<not> ok2 then (False, b2)
             else rw_buffer_write_bytes b2 (drop 1 pk) (COMPRESSED_PUBLIC_KEY_LEN - 1)) = (True, b3)"
    "rw_holds b3 38 body"
  proof (cases compressed)
    case True
    then show ?thesis
      using that rw_holds_write_bytes [OF 1(2), of 33 pk] assms(3) by (auto simp: body_def address_body_def COMPRESSED_PUBLIC_KEY_LEN_def)
  next
    case False
    obtain b2 where 2: "rw_buffer_write_u8 b1 (if pk ! 64 AND 1 \<noteq> 0 then 0x03 else 0x02) = (True, b2)"
      "rw_holds b2 38 ([ERGO_ADDRESS_TYPE_P2PK + network] @ [if pk ! 64 AND 1 \<noteq> 0 then 0x03 else 0x02])"
      using rw_holds_write_u8 [OF 1(2), of "if pk ! 64 AND 1 \<noteq> 0 then 0x03 else 0x02"] by auto
    have "\<exists>b'. rw_buffer_write_bytes b2 (drop 1 pk) 32 = (True, b') \<and> rw_holds b' 38 body"
      using rw_holds_write_bytes [OF 2(2), of 32 "drop 1 pk"] assms(3) False
      by (simp add: body_def address_body_def compressed_key_def and_1_odd)
    then show ?thesis using that 2(1) False by (auto simp: COMPRESSED_PUBLIC_KEY_LEN_def)
  qed
  have l: "length body + 4 = 38" using assms(3) length_compressed_key [of pk] by (simp add: body_def address_body_def)
  have run: "address_from_pubkey cx network pk address compressed =
      (if \<not> network_id_is_valid network then (False, address)
       else case append_checksum cx b3 of (ok4, b4) \<Rightarrow> (ok4, buf_ptr (rw_read b4)))"
    unfolding address_from_pubkey_def n b0_def [symmetric] Let_def
    by (simp only: 1(1) 3(1) prod.case simp_thms if_True if_False cong: if_cong)
  note t = address_tail [OF assms(1) 3(2) l]
  show "fst (address_from_pubkey cx network pk address compressed) \<longleftrightarrow>
      network_id_is_valid network \<and> fst (cx_blake2b_256_hash cx body) = CX_OK"
    using t(1) by (auto simp: run split: prod.splits)
  show "fst (address_from_pubkey cx network pk address compressed) \<Longrightarrow>
      snd (address_from_pubkey cx network pk address compressed) = address_of cx body"
    using t(2) by (auto simp: run split: prod.splits if_splits)
qed

lemma address_from_script_hash_eq:
  fixes network :: u8
  assumes "cx_digest_size cx" and "length address = 29" and "24 \<le> length hash"
  defines "body \<equiv> address_body ERGO_ADDRESS_TYPE_P2SH network (take 24 hash)"
  shows "fst (ergo_address_from_script_hash cx network hash address) \<longleftrightarrow>
      network_id_is_valid network \<and> fst (cx_blake2b_256_hash cx body) = CX_OK"
    and "fst (ergo_address_from_script_hash cx network hash address) \<Longrightarrow>
      snd (ergo_address_from_script_hash cx network hash address) = address_of cx body"
proof -
  have n: "P2SH_ADDRESS_LEN = 29" by (simp add: P2SH_ADDRESS_LEN_def P2SH_HASH_LEN_def ADDRESS_PREFIX_LEN_def ADDRESS_CHECKSUM_LEN_def)
  define b0 where "b0 = rw_buffer_init address 29 0"
  have 0: "rw_holds b0 29 []" using rw_holds_init [of address 29] assms(2) by (simp add: b0_def)
  obtain b1 where 1: "rw_buffer_write_u8 b0 (ERGO_ADDRESS_TYPE_P2SH + network) = (True, b1)"
    "rw_holds b1 29 [ERGO_ADDRESS_TYPE_P2SH + network]" using rw_holds_write_u8 [OF 0] by auto
  obtain b2 where 2: "rw_buffer_write_bytes b1 hash P2SH_HASH_LEN = (True, b2)" "rw_holds b2 29 body"
    using rw_holds_write_bytes [OF 1(2), of 24 hash] assms(3) by (auto simp: body_def address_body_def P2SH_HASH_LEN_def)
  have l: "length body + 4 = 29" using assms(3) by (simp add: body_def address_body_def)
  have run: "ergo_address_from_script_hash cx network hash address =
      (if \<not> network_id_is_valid network then (False, address)
       else case append_checksum cx b2 of (ok3, b3) \<Rightarrow> (ok3, buf_ptr (rw_read b3)))"
    unfolding ergo_address_from_script_hash_def n b0_def [symmetric] Let_def
    by (simp only: 1(1) 2(1) prod.case simp_thms if_True if_False cong: if_cong)
  note t = address_tail [OF assms(1) 2(2) l]
  show "fst (ergo_address_from_script_hash cx network hash address) \<longleftrightarrow>
      network_id_is_valid network \<and> fst (cx_blake2b_256_hash cx body) = CX_OK"
    using t(1) by (auto simp: run split: prod.splits)
  show "fst (ergo_address_from_script_hash cx network hash address) \<Longrightarrow>
      snd (ergo_address_from_script_hash cx network hash address) = address_of cx body"
    using t(2) by (auto simp: run split: prod.splits if_splits)
qed

text \<open>
  C32. The address of a public key: both functions, the one for a raw key of 65 bytes and the one
  for its compressed form, succeed on the same networks and produce the same 38 bytes, the type
  and network byte, the compressed key and the first four bytes of the digest of the 34 bytes
  before. Two keys with the same address on a network have the same compressed form.
\<close>

theorem address_from_pubkey_correct:
  assumes "cx_digest_size cx" and "length address = 38" and "length pk = 65" "length pk' = 65"
    and "ergo_address_from_pubkey cx network pk address = (True, out)"
  shows "out = address_of cx (address_body ERGO_ADDRESS_TYPE_P2PK network (compressed_key pk)) \<and> length out = 38 \<and>
     network \<le> 252 \<and>
     ergo_address_from_compressed_pubkey cx network (compressed_key pk) address = (True, out) \<and>
     (ergo_address_from_pubkey cx network pk' address = (True, out) \<longrightarrow> compressed_key pk' = compressed_key pk)"
proof -
  let ?B = "\<lambda>k. address_body ERGO_ADDRESS_TYPE_P2PK network (compressed_key k)"
  note r = address_from_pubkey_eq [where compressed = False and network = network, OF assms(1,2), simplified if_False]
  have c: "length (compressed_key pk) = (if True then 33 else 65)" using length_compressed_key [OF assms(3)] by simp
  note rc = address_from_pubkey_eq [where compressed = True and network = network, OF assms(1,2) c, simplified if_True]
  have f: "fst (address_from_pubkey cx network pk address False)" "snd (address_from_pubkey cx network pk address False) = out"
    using assms(5) by (simp_all add: ergo_address_from_pubkey_def)
  have out: "out = address_of cx (?B pk)" using r(2) [OF assms(3)] f by simp
  have ok: "network_id_is_valid network" "fst (cx_blake2b_256_hash cx (?B pk)) = CX_OK" using r(1) [OF assms(3)] f by simp_all
  have l: "length (snd (cx_blake2b_256_hash cx (?B pk))) = 32"
    using ok(2) assms(1) by (metis cx_digest_size_def prod.collapse)
  have "length out = 38" using l length_compressed_key [OF assms(3)] by (simp add: out address_of_def address_body_def)
  moreover have "ergo_address_from_compressed_pubkey cx network (compressed_key pk) address = (True, out)"
    using rc ok out by (simp add: ergo_address_from_compressed_pubkey_def prod_eq_iff)
  moreover have "compressed_key pk' = compressed_key pk" if "ergo_address_from_pubkey cx network pk' address = (True, out)"
  proof -
    have "out = address_of cx (?B pk')" using r(2) [OF assms(4)] that by (simp add: ergo_address_from_pubkey_def)
    then have "take 34 (address_of cx (?B pk')) = take 34 (address_of cx (?B pk))" using out by simp
    then show ?thesis using length_compressed_key assms(3,4) by (simp add: address_of_def address_body_def)
  qed
  ultimately show ?thesis using ok(1) out by (simp add: network_id_is_valid_def)
qed

definition demo_hasher :: "bytes cx_sdk" where
  "demo_hasher = cx_record\<lparr>cx_blake2b_256_hash := (\<lambda>data. (0, replicate 32 (of_nat (length data))))\<rparr>"

theorem address_from_pubkey_correct_witness:
  "ergo_address_from_compressed_pubkey demo_hasher 16 (3 # replicate 32 7) (replicate 38 0) =
     (True, 17 # 3 # replicate 32 7 @ replicate 4 34)"
proof -
  have k: "compressed_key (4 # replicate 64 7) = 3 # replicate 32 7" by code_simp
  have d: "cx_digest_size demo_hasher" by (simp add: cx_digest_size_def demo_hasher_def)
  have r: "ergo_address_from_pubkey demo_hasher 16 (4 # replicate 64 7) (replicate 38 0) =
      (True, 17 # 3 # replicate 32 7 @ replicate 4 34)" by code_simp
  have l: "length (replicate 38 (0 :: u8)) = 38" "length (4 # replicate 64 (7 :: u8)) = 65" by simp_all
  from address_from_pubkey_correct [OF d l(1) l(2) l(2) r] show ?thesis unfolding k by blast
qed

end
