(* ===== verification/AppContext.thy ===== *)
theory AppContext
  imports Crypto SwResult
begin

text \<open>
  The global state of the application, \<^verbatim>\<open>src/context.h\<close> and \<^verbatim>\<open>context.c\<close>,
  its responses (\<^verbatim>\<open>src/helpers/response.h\<close>), session identifiers
  (\<^verbatim>\<open>src/helpers/session_id.h\<close>) and the frames of attested inputs
  (\<^verbatim>\<open>src/helpers/input_frame.c\<close>).

  \<open>'s\<close> is the type of the command context. The source has one union for the contexts of all commands;
  every switch of the current command erases it, and \<open>zero\<close> stands for the erased bytes as a value
  of \<open>'s\<close>. \<open>sent\<close> lists the responses to the host, in the order they were sent, and
  \<open>blind_signing_enabled\<close> is the setting in the non-volatile memory. The return value of the sending
  functions, which only ends the main loop when the transport fails, is not modelled.
\<close>

definition CLA :: u8 where "CLA = 0xE0"
definition SESSION_KEY_LEN :: size_t where "SESSION_KEY_LEN = 16"
definition CHAIN_CODE_LEN :: size_t where "CHAIN_CODE_LEN = 32"
definition EXTENDED_PUBLIC_KEY_LEN :: size_t where
  "EXTENDED_PUBLIC_KEY_LEN = COMPRESSED_PUBLIC_KEY_LEN + CHAIN_CODE_LEN"
definition INPUT_FRAME_SIGNATURE_LEN :: size_t where "INPUT_FRAME_SIGNATURE_LEN = 16"
definition MAX_NUMBER_OF_SCREENS :: u8 where "MAX_NUMBER_OF_SCREENS = 16"
definition MAX_BIP32_STRING_LEN :: size_t where "MAX_BIP32_STRING_LEN = 60"

datatype command_e =
    CMD_NONE
  | CMD_GET_APP_VERSION
  | CMD_GET_APP_NAME
  | CMD_GET_EXTENDED_PUBLIC_KEY
  | CMD_DERIVE_ADDRESS
  | CMD_ATTEST_INPUT_BOX
  | CMD_SIGN_TRANSACTION

text \<open>A response is its data followed by a status word.\<close>

datatype response = Response bytes u16

record 's app_ctx_t =
  connected_app_id :: u32
  session_key :: bytes
  current_command :: command_e
  is_ui_busy :: bool
  commands_ctx :: 's

record 's device_state = "'s app_ctx_t" +
  blind_signing_enabled :: bool
  sent :: "response list"

type_synonym ('s, 'y) device = "('s, 'y) device_state_scheme"

definition app_is_ui_busy :: "('s, 'y) device \<Rightarrow> bool" where "app_is_ui_busy g = is_ui_busy g"
definition app_set_ui_busy :: "bool \<Rightarrow> ('s, 'y) device \<Rightarrow> ('s, 'y) device" where "app_set_ui_busy b g = g\<lparr>is_ui_busy := b\<rparr>"
definition app_connected_app_id :: "('s, 'y) device \<Rightarrow> u32" where "app_connected_app_id g = connected_app_id g"
definition app_set_connected_app_id :: "u32 \<Rightarrow> ('s, 'y) device \<Rightarrow> ('s, 'y) device" where
  "app_set_connected_app_id i g = g\<lparr>connected_app_id := i\<rparr>"
definition app_session_key :: "('s, 'y) device \<Rightarrow> bytes" where "app_session_key g = session_key g"
definition app_current_command :: "('s, 'y) device \<Rightarrow> command_e" where "app_current_command g = current_command g"

definition app_set_current_command :: "'s \<Rightarrow> command_e \<Rightarrow> ('s, 'y) device \<Rightarrow> ('s, 'y) device" where
  "app_set_current_command zero cmd g = (app_set_ui_busy False (g\<lparr>commands_ctx := zero\<rparr>))\<lparr>current_command := cmd\<rparr>"

definition app_init :: "'s \<Rightarrow> bytes \<Rightarrow> ('s, 'y) device \<Rightarrow> ('s, 'y) device" where
  "app_init zero rng g =
     (let g1 = g\<lparr>connected_app_id := 0, session_key := replicate (unat SESSION_KEY_LEN) 0, current_command := CMD_NONE,
                  is_ui_busy := False, commands_ctx := zero\<rparr>
      in app_set_current_command zero CMD_NONE (g1\<lparr>session_key := rng\<rparr>))"

definition io_send :: "response \<Rightarrow> ('s, 'y) device \<Rightarrow> ('s, 'y) device" where "io_send r g = g\<lparr>sent := sent g @ [r]\<rparr>"
definition io_send_sw :: "u16 \<Rightarrow> ('s, 'y) device \<Rightarrow> ('s, 'y) device" where "io_send_sw sw g = io_send (Response [] sw) g"
definition res_ok :: "('s, 'y) device \<Rightarrow> ('s, 'y) device" where "res_ok g = io_send_sw SW_OK g"
definition res_ok_data :: "bytes \<Rightarrow> ('s, 'y) device \<Rightarrow> ('s, 'y) device" where "res_ok_data d g = io_send (Response d SW_OK) g"
definition res_ui_busy :: "('s, 'y) device \<Rightarrow> ('s, 'y) device" where "res_ui_busy g = io_send_sw SW_BUSY g"
definition res_deny :: "('s, 'y) device \<Rightarrow> ('s, 'y) device" where "res_deny g = io_send_sw SW_DENY g"
definition res_error :: "u16 \<Rightarrow> ('s, 'y) device \<Rightarrow> ('s, 'y) device" where "res_error code g = io_send_sw code g"

lemmas res_calls = res_ok_def res_ok_data_def res_ui_busy_def res_deny_def res_error_def io_send_sw_def io_send_def
lemmas app_calls = app_is_ui_busy_def app_set_ui_busy_def app_connected_app_id_def app_set_connected_app_id_def
  app_session_key_def app_current_command_def app_set_current_command_def

end
