(* ===== verification/InputFrame.thy ===== *)
theory InputFrame
  imports AppContext Bip32Ext
begin

text \<open>
  Session identifiers, \<^verbatim>\<open>src/helpers/session_id.h\<close>, and the layout of the frames in
  which attested inputs travel, \<^verbatim>\<open>src/helpers/input_frame.h\<close> and \<^verbatim>\<open>.c\<close>.

  \<open>rng i\<close> is the byte that the random generator returns in the \<open>i\<close>-th round; the loop ends only when
  it returns a usable one, so a session id is an \<open>option\<close>, \<open>None\<close> standing for a loop that never ends.
\<close>

partial_function (option) session_id_loop :: "(nat \<Rightarrow> u8) \<Rightarrow> u8 \<Rightarrow> nat \<Rightarrow> u8 option" where
  "session_id_loop rng old_session_id i =
     (if rng i = 0 \<or> rng i = old_session_id then session_id_loop rng old_session_id (i + 1) else Some (rng i))"

declare session_id_loop.simps [code]

definition session_id_new_random :: "(nat \<Rightarrow> u8) \<Rightarrow> u8 \<Rightarrow> u8 option" where
  "session_id_new_random rng old_session_id = session_id_loop rng old_session_id 0"

definition is_known_application :: "u32 \<Rightarrow> u32 \<Rightarrow> bool" where
  "is_known_application saved app_id \<longleftrightarrow> saved \<noteq> 0 \<and> app_id \<noteq> 0 \<and> app_id = saved"

definition FRAME_MAX_TOKENS_COUNT :: u8 where "FRAME_MAX_TOKENS_COUNT = 4"
definition FRAME_TOKEN_VALUE_PAIR_SIZE :: size_t where "FRAME_TOKEN_VALUE_PAIR_SIZE = ERGO_ID_LEN + 8"
definition FRAME_TOKEN_COUNT_POSITION :: size_t where "FRAME_TOKEN_COUNT_POSITION = ERGO_ID_LEN + 2 + 8"
definition FRAME_TOKEN_PREFIX_LEN :: size_t where "FRAME_TOKEN_PREFIX_LEN = FRAME_TOKEN_COUNT_POSITION + 1"
definition FRAME_MIN_SIZE :: size_t where "FRAME_MIN_SIZE = FRAME_TOKEN_PREFIX_LEN + INPUT_FRAME_SIGNATURE_LEN"
definition FRAME_MAX_SIZE :: size_t where
  "FRAME_MAX_SIZE = FRAME_MIN_SIZE + ucast FRAME_MAX_TOKENS_COUNT * FRAME_TOKEN_VALUE_PAIR_SIZE"

text \<open>The length is computed as \<open>size_t\<close> and stored in a \<open>uint8_t\<close>.\<close>

definition input_frame_data_length :: "buffer_t \<Rightarrow> u8" where
  "input_frame_data_length input =
     (if \<not> buffer_can_read input FRAME_MIN_SIZE then 0
      else let token_count = buffer_read_ptr input ! unat FRAME_TOKEN_COUNT_POSITION;
               data_len = (ucast (ucast token_count * FRAME_TOKEN_VALUE_PAIR_SIZE + FRAME_TOKEN_PREFIX_LEN) :: u8)
           in if \<not> buffer_can_read input (ucast data_len + INPUT_FRAME_SIGNATURE_LEN) then 0 else data_len)"

definition input_frame_signature_ptr :: "buffer_t \<Rightarrow> bytes option" where
  "input_frame_signature_ptr input =
     (let data_len = input_frame_data_length input in
      if data_len = 0 then None else Some (drop (unat data_len) (buffer_read_ptr input)))"

lemmas frame_sizes = FRAME_TOKEN_VALUE_PAIR_SIZE_def FRAME_TOKEN_COUNT_POSITION_def FRAME_TOKEN_PREFIX_LEN_def
  FRAME_MIN_SIZE_def FRAME_MAX_SIZE_def FRAME_MAX_TOKENS_COUNT_def INPUT_FRAME_SIGNATURE_LEN_def ERGO_ID_LEN_def

subsection \<open>Properties\<close>

lemma session_id_loop_Some:
  assumes "session_id_loop rng old i = Some v"
  shows "\<exists>j\<ge>i. v = rng j \<and> rng j \<noteq> 0 \<and> rng j \<noteq> old"
proof (rule session_id_loop.raw_induct
    [where P = "\<lambda>rng old i v. \<exists>j\<ge>i. v = rng j \<and> rng j \<noteq> 0 \<and> rng j \<noteq> old", OF _ assms])
  fix loop and rng :: "nat \<Rightarrow> u8" and old i v
  assume IH: "\<And>r o' k w. loop r o' k = Some w \<Longrightarrow> \<exists>j\<ge>k. w = r j \<and> r j \<noteq> 0 \<and> r j \<noteq> o'"
    and run: "(if rng i = 0 \<or> rng i = old then loop rng old (i + 1) else Some (rng i)) = Some v"
  show "\<exists>j\<ge>i. v = rng j \<and> rng j \<noteq> 0 \<and> rng j \<noteq> old"
  proof (cases "rng i = 0 \<or> rng i = old")
    case True
    then obtain j where "j \<ge> i + 1" "v = rng j \<and> rng j \<noteq> 0 \<and> rng j \<noteq> old" using run IH [of rng old "i + 1" v] by auto
    then show ?thesis by (intro exI [of _ j]) simp
  qed (use run in auto)
qed

lemma session_id_loop_first:
  assumes "\<And>k. i \<le> k \<Longrightarrow> k < i + n \<Longrightarrow> rng k = 0 \<or> rng k = old" and "rng (i + n) \<noteq> 0" "rng (i + n) \<noteq> old"
  shows "session_id_loop rng old i = Some (rng (i + n))"
  using assms
proof (induction n arbitrary: i)
  case 0
  then show ?case by (simp add: session_id_loop.simps)
next
  case (Suc n)
  have "rng i = 0 \<or> rng i = old" using Suc.prems(1) [of i] by simp
  moreover have "session_id_loop rng old (i + 1) = Some (rng (i + 1 + n))"
    by (rule Suc.IH) (use Suc.prems in auto)
  ultimately show ?case by (subst session_id_loop.simps) simp
qed

text \<open>
  C33. The loop for a new session id ends exactly when the generator ever returns a byte that is
  neither zero nor the old id, and then the id is the first such byte.
\<close>

theorem session_id_termination:
  "(session_id_new_random rng old \<noteq> None \<longleftrightarrow> (\<exists>i. rng i \<noteq> 0 \<and> rng i \<noteq> old)) \<and>
   (session_id_new_random rng old = Some v \<longleftrightarrow>
      (\<exists>i. v = rng i \<and> v \<noteq> 0 \<and> v \<noteq> old \<and> (\<forall>k<i. rng k = 0 \<or> rng k = old)))"
proof -
  let ?good = "\<lambda>i. rng i \<noteq> 0 \<and> rng i \<noteq> old"
  have first: "session_id_new_random rng old = Some (rng i)" if "?good i" "\<forall>k<i. \<not> ?good k" for i
    using session_id_loop_first [of 0 i rng old] that by (simp add: session_id_new_random_def)
  have least: "\<exists>i. ?good i \<and> (\<forall>k<i. \<not> ?good k)" if "?good j" for j
    using that exists_least_iff [of ?good] by blast
  have some: "\<exists>j. ?good j" if "session_id_new_random rng old = Some w" for w
    using session_id_loop_Some [of rng old 0 w] that by (auto simp: session_id_new_random_def)
  show ?thesis
  proof (intro conjI iffI)
    assume "session_id_new_random rng old \<noteq> None"
    then show "\<exists>i. ?good i" using some by auto
  next
    assume "\<exists>i. ?good i"
    then show "session_id_new_random rng old \<noteq> None" using least first by force
  next
    assume v: "session_id_new_random rng old = Some v"
    then obtain i where "?good i" "\<forall>k<i. \<not> ?good k" using some least by blast
    then show "\<exists>i. v = rng i \<and> v \<noteq> 0 \<and> v \<noteq> old \<and> (\<forall>k<i. rng k = 0 \<or> rng k = old)"
      using first v by (intro exI [of _ i]) auto
  next
    assume "\<exists>i. v = rng i \<and> v \<noteq> 0 \<and> v \<noteq> old \<and> (\<forall>k<i. rng k = 0 \<or> rng k = old)"
    then show "session_id_new_random rng old = Some v" using first by blast
  qed
qed

text \<open>Witness: a generator that counts up, with 1 as the old id.\<close>

theorem session_id_termination_witness: "session_id_new_random (\<lambda>i. of_nat i) 1 = Some 2"
proof -
  have "\<exists>i. (2 :: u8) = of_nat i \<and> (2 :: u8) \<noteq> 0 \<and> (2 :: u8) \<noteq> 1 \<and> (\<forall>k<i. of_nat k = (0 :: u8) \<or> of_nat k = (1 :: u8))"
    by (rule exI [of _ 2]) (auto simp: less_Suc_eq numeral_2_eq_2)
  then show ?thesis using session_id_termination [of "\<lambda>i. of_nat i" 1 2] by blast
qed

text \<open>The length of a frame as a number.\<close>

lemma input_frame_data_length_eq:
  assumes "buffer_wf b"
  shows "unat (input_frame_data_length b) =
     (let n = length (buffer_data b); d = (43 + 40 * unat (buffer_data b ! 42)) mod 256 in
      if 59 \<le> n \<and> d + 16 \<le> n then d else 0)"
proof (cases "59 \<le> length (buffer_data b)")
  case False
  then show ?thesis using assms by (simp add: input_frame_data_length_def buf_simps frame_sizes)
next
  case True
  let ?t = "buffer_data b ! 42"
  let ?l = "ucast (ucast ?t * 40 + 43 :: size_t) :: u8"
  have t: "buffer_read_ptr b ! 42 = ?t" using True by (simp add: buffer_data_def)
  have "unat (ucast ?t * 40 + 43 :: size_t) = 40 * unat ?t + 43"
    using unat_u8_less [of ?t] by (simp add: unat_word_ariths unat_ucast_up)
  then have l: "unat ?l = (43 + 40 * unat ?t) mod 256" by (simp add: unsigned_ucast_eq take_bit_eq_mod add.commute)
  have "unat (ucast ?l + 16 :: size_t) = unat ?l + 16"
    using unat_u8_less [of ?l] by (simp add: unat_word_ariths unat_ucast_up)
  then show ?thesis using True assms t l
    by (simp add: input_frame_data_length_def buf_simps frame_sizes Let_def)
qed

end
