(* ===== verification/StxOpP2pk.thy ===== *)
theory StxOpP2pk
  imports OutputInfo InputFrame Schnorr Address TxTranscript
begin

text \<open>
  The signing of a transaction with one key, \<^verbatim>\<open>src/commands/signtx/operations/stx_op_p2pk.c\<close>
  without its screens (they are in \<^verbatim>\<open>StxUi\<close>).

  The serializer reaches the hash context, the token table, the amounts and the output info through
  pointers; all four are in the memory \<open>p2pk_mem\<close>, which the callbacks of the serializer update.

  An operation takes the context \<open>p\<close> and returns \<open>Inr p'\<close> for \<open>SW_OK\<close> or \<open>Inl err\<close>. Its error exit
  is \<open>handler_err\<close>, which erases the context and the current command; that effect on the device is
  \<open>p2pk_handler_err\<close>, and \<open>p2pk_call\<close> runs an operation with it.

  Parameters: \<open>cx\<close> is the library of the device, \<open>V\<close> and \<open>ub\<close> read a member of a union after another one
  was written (see \<^verbatim>\<open>OutputInfo\<close> and \<^verbatim>\<open>TxSerFull\<close>).
\<close>

record 'h p2pk_mem = "'h ser_mem" +
  pm_fee :: u64
  pm_value :: u64
  pm_tokens :: "u64 list"
  pm_output :: "'h output_info"

datatype sign_transaction_operation_p2pk_state_e =
    SIGN_TRANSACTION_OPERATION_P2PK_STATE_INITIALIZED
  | SIGN_TRANSACTION_OPERATION_P2PK_STATE_TX_STARTED
  | SIGN_TRANSACTION_OPERATION_P2PK_STATE_INPUTS_STARTED
  | SIGN_TRANSACTION_OPERATION_P2PK_STATE_OUTPUTS_STARTED
  | SIGN_TRANSACTION_OPERATION_P2PK_STATE_TX_FINISHED
  | SIGN_TRANSACTION_OPERATION_P2PK_STATE_FINALIZED
  | SIGN_TRANSACTION_OPERATION_P2PK_STATE_ERROR

record 'h sign_transaction_operation_p2pk_ctx_t =
  p2_state :: sign_transaction_operation_p2pk_state_e
  blind_signing_required :: u8
  schnorr_key :: bytes
  p2_bip32 :: sign_transaction_bip32_path_t
  p2_network_id :: u8
  p2_tx :: "'h p2pk_mem full_ctx"
  last_approved_change :: sign_transaction_bip32_path_t
  p2_mem :: "'h p2pk_mem"

type_synonym 'h p2pk = "'h sign_transaction_operation_p2pk_ctx_t"
type_synonym 'h p2pk_union = "'h p2pk_mem input_ctx \<Rightarrow> 'h p2pk_mem box_ctx"

text \<open>The fields \<open>amounts\<close>, read and written as one structure, and the erased context.\<close>

definition amounts :: "'h p2pk_mem \<Rightarrow> sign_transaction_amounts_ctx_t" where
  "amounts m = \<lparr>am_fee = pm_fee m, am_value = pm_value m, am_tokens = pm_tokens m, am_tokens_table = tokens_table m\<rparr>"

definition set_amounts :: "sign_transaction_amounts_ctx_t \<Rightarrow> 'h p2pk_mem \<Rightarrow> 'h p2pk_mem" where
  "set_amounts a m = m\<lparr>pm_fee := am_fee a, pm_value := am_value a, pm_tokens := am_tokens a, tokens_table := am_tokens_table a\<rparr>"

definition bip32_path_zero :: sign_transaction_bip32_path_t where
  "bip32_path_zero = \<lparr>bp_len = 0, bp_path = replicate (unat MAX_BIP32_PATH) 0\<rparr>"

definition p2pk_zero :: "('h, 'x) cx_device_scheme \<Rightarrow> 'h p2pk" where
  "p2pk_zero cx =
     \<lparr>p2_state = SIGN_TRANSACTION_OPERATION_P2PK_STATE_INITIALIZED, blind_signing_required = 0,
      schnorr_key = replicate (unat PRIVATE_KEY_LEN) 0, p2_bip32 = bip32_path_zero, p2_network_id = 0, p2_tx = full_ctx_zero,
      last_approved_change = bip32_path_zero,
      p2_mem = \<lparr>hash_ctx = cx_zero_hash cx, tokens_table = am_tokens_table stx_amounts_init, pm_fee = 0, pm_value = 0,
                pm_tokens = am_tokens stx_amounts_init, pm_output = stx_output_info_init 0\<rparr>\<rparr>"

subsection \<open>Callbacks of the serializer\<close>

definition p2pk_input_token_cb :: "'h p2pk_mem input_token_cb" where
  "p2pk_input_token_cb box_id tn_id v m =
     (case stx_amounts_add_input_token (amounts m) box_id tn_id v of (res, a) \<Rightarrow> (res, set_amounts a m))"

definition p2pk_output_type_cb :: "'h p2pk_mem box_type_cb" where
  "p2pk_output_type_cb ty v m =
     (case stx_amounts_add_output (amounts m) ty v of (res, a) \<Rightarrow> (res, set_amounts a m))"

definition p2pk_output_token_cb :: "'h p2pk_mem box_token_cb" where
  "p2pk_output_token_cb ty token_id v m =
     (case stx_output_info_add_token (pm_output m) (tokens_table m) token_id v of (res, out) \<Rightarrow>
        let m1 = m\<lparr>pm_output := out\<rparr> in
        if res \<noteq> ERGO_TX_SERIALIZER_BOX_RES_OK then (res, m1)
        else case stx_amounts_add_output_token (amounts m1) ty token_id v of (res2, a) \<Rightarrow> (res2, set_amounts a m1))"

definition p2pk_output_finished_cb :: "('h, 'x) cx_sdk_scheme \<Rightarrow> 'h out_views \<Rightarrow> 'h p2pk_mem box_finished_cb" where
  "p2pk_output_finished_cb cx V ty m =
     (case stx_output_info_set_box_finished cx V (pm_output m) of (res, out) \<Rightarrow> (res, m\<lparr>pm_output := out\<rparr>))"

subsection \<open>The macros of the file\<close>

text \<open>\<open>CHECK_TX_CALL_RESULT_OK\<close>, \<open>CHECK_CALL_RESULT_SW_OK\<close> on the output info, \<open>CHECK_TX_FINISHED\<close>.\<close>

definition check_tx_call ::
    "'h p2pk_mem full_out \<Rightarrow> 'h p2pk \<Rightarrow> ('h p2pk \<Rightarrow> u16 + 'h p2pk) \<Rightarrow> u16 + 'h p2pk" where
  "check_tx_call out p rest =
     (case out of (r, c, m) \<Rightarrow>
        if sw_from_tx_full_result r \<noteq> SW_OK then Inl (sw_from_tx_full_result r) else rest (p\<lparr>p2_tx := c, p2_mem := m\<rparr>))"

definition check_output_call :: "u16 \<times> 'h output_info \<Rightarrow> 'h p2pk \<Rightarrow> ('h p2pk \<Rightarrow> u16 + 'h p2pk) \<Rightarrow> u16 + 'h p2pk" where
  "check_output_call res p rest =
     (if fst res \<noteq> SW_OK then Inl (fst res) else rest (p\<lparr>p2_mem := (p2_mem p)\<lparr>pm_output := snd res\<rparr>\<rparr>))"

definition check_tx_finished :: "'h p2pk \<Rightarrow> 'h p2pk" where
  "check_tx_finished p =
     (if ergo_tx_serializer_full_is_finished (p2_tx p) then p\<lparr>p2_state := SIGN_TRANSACTION_OPERATION_P2PK_STATE_TX_FINISHED\<rparr>
      else p)"

definition check_proper_states ::
    "sign_transaction_operation_p2pk_state_e list \<Rightarrow> 'h p2pk \<Rightarrow> (u16 + 'h p2pk) \<Rightarrow> u16 + 'h p2pk" where
  "check_proper_states sts p rest = (if p2_state p \<notin> set sts then Inl SW_BAD_STATE else rest)"

definition is_blind_signing_tx :: "'h output_info \<Rightarrow> bool" where
  "is_blind_signing_tx out \<longleftrightarrow>
     STX_OUTPUT_INFO_TYPE out \<noteq> SIGN_TRANSACTION_OUTPUT_INFO_TYPE_BIP32 \<and>
     STX_OUTPUT_INFO_TYPE out \<noteq> SIGN_TRANSACTION_OUTPUT_INFO_TYPE_ADDRESS \<and>
     STX_OUTPUT_INFO_TYPE out \<noteq> SIGN_TRANSACTION_OUTPUT_INFO_TYPE_MINERS_FEE"

subsection \<open>The operations\<close>

text \<open>\<open>rnd\<close> gives the draws for the ephemeral key; \<open>bip32_path\<close> may be the path of the context itself.\<close>

definition stx_operation_p2pk_init ::
    "('h, 'x) cx_device_scheme \<Rightarrow> (nat \<Rightarrow> bytes) \<Rightarrow> 'h p2pk \<Rightarrow> u32 list \<Rightarrow> u8 \<Rightarrow> u8 \<Rightarrow> u16 + 'h p2pk" where
  "stx_operation_p2pk_init cx rnd p bip32_path bip32_path_len network_id =
     (if \<not> bip32_path_validate bip32_path bip32_path_len (BIP32_HARDENED 44) (BIP32_HARDENED BIP32_ERGO_COIN)
             BIP32_PATH_VALIDATE_ADDRESS_GE5 then Inl SW_BIP32_BAD_PATH
      else if \<not> network_id_is_supported network_id then Inl SW_BAD_NET_TYPE_VALUE
      else case crypto_generate_private_key cx bip32_path bip32_path_len [] of (r, secret) \<Rightarrow>
        if r \<noteq> 0 then Inl SW_INTERNAL_CRYPTO_ERROR
        else case ergo_secp256k1_schnorr_p2pk_sign_init cx rnd (hash_ctx (p2_mem p)) (schnorr_key p) secret of
          (inited, h, key) \<Rightarrow>
            if \<not> inited then Inl SW_INTERNAL_CRYPTO_ERROR
            else Inr (p\<lparr>p2_mem := (p2_mem p)\<lparr>hash_ctx := h\<rparr>, schnorr_key := key,
                        p2_bip32 := \<lparr>bp_len = bip32_path_len,
                                     bp_path = mem_write (bp_path (p2_bip32 p)) 0 (take (unat bip32_path_len) bip32_path)\<rparr>,
                        p2_network_id := network_id, p2_state := SIGN_TRANSACTION_OPERATION_P2PK_STATE_INITIALIZED,
                        blind_signing_required := 0\<rparr>))"

definition stx_operation_p2pk_start_tx ::
    "('h, 'x) cx_sdk_scheme \<Rightarrow> 'h p2pk \<Rightarrow> u16 \<Rightarrow> u16 \<Rightarrow> u16 \<Rightarrow> u8 \<Rightarrow> u16 + 'h p2pk" where
  "stx_operation_p2pk_start_tx cx p inputs_count data_inputs_count outputs_count tokens_count =
     check_proper_states [SIGN_TRANSACTION_OPERATION_P2PK_STATE_INITIALIZED] p
       (check_tx_call (ergo_tx_serializer_full_init cx inputs_count data_inputs_count outputs_count tokens_count (p2_mem p)) p
         (\<lambda>p. Inr (p\<lparr>p2_mem := set_amounts stx_amounts_init (p2_mem p),
                     p2_state := SIGN_TRANSACTION_OPERATION_P2PK_STATE_TX_STARTED\<rparr>)))"

definition stx_operation_p2pk_add_tokens :: "'h p2pk \<Rightarrow> buffer_t \<Rightarrow> u16 + 'h p2pk" where
  "stx_operation_p2pk_add_tokens p cdata =
     check_proper_states [SIGN_TRANSACTION_OPERATION_P2PK_STATE_TX_STARTED] p
       (check_tx_call (ergo_tx_serializer_full_add_tokens (p2_tx p) (p2_mem p) cdata) p Inr)"

definition stx_operation_p2pk_add_input :: "'h p2pk \<Rightarrow> bytes \<Rightarrow> u64 \<Rightarrow> u8 \<Rightarrow> u32 \<Rightarrow> u16 + 'h p2pk" where
  "stx_operation_p2pk_add_input p box_id erg_amount frames extension_length =
     check_proper_states
       [SIGN_TRANSACTION_OPERATION_P2PK_STATE_TX_STARTED, SIGN_TRANSACTION_OPERATION_P2PK_STATE_INPUTS_STARTED] p
       (check_tx_call (ergo_tx_serializer_full_add_input (p2_tx p) (p2_mem p) box_id frames extension_length) p
         (\<lambda>p. check_tx_call
            (case ergo_tx_serializer_full_set_input_callback (p2_tx p) (Some p2pk_input_token_cb) of (r, c) \<Rightarrow> (r, c, p2_mem p)) p
            (\<lambda>p. case stx_amounts_add_input (amounts (p2_mem p)) erg_amount of (sw, a) \<Rightarrow>
               if sw \<noteq> SW_OK then Inl sw
               else Inr (p\<lparr>p2_mem := set_amounts a (p2_mem p),
                           p2_state := SIGN_TRANSACTION_OPERATION_P2PK_STATE_INPUTS_STARTED\<rparr>))))"

definition stx_operation_p2pk_add_input_tokens ::
    "('h, 'x) cx_sdk_scheme \<Rightarrow> 'h p2pk \<Rightarrow> bytes \<Rightarrow> u8 \<Rightarrow> buffer_t \<Rightarrow> u16 + 'h p2pk" where
  "stx_operation_p2pk_add_input_tokens cx p box_id frame_index tokens =
     check_proper_states [SIGN_TRANSACTION_OPERATION_P2PK_STATE_INPUTS_STARTED] p
       (check_tx_call (ergo_tx_serializer_full_add_input_tokens cx (p2_tx p) (p2_mem p) box_id frame_index tokens) p Inr)"

definition stx_operation_p2pk_add_input_context_extension ::
    "('h, 'x) cx_sdk_scheme \<Rightarrow> 'h p2pk \<Rightarrow> buffer_t \<Rightarrow> u16 + 'h p2pk" where
  "stx_operation_p2pk_add_input_context_extension cx p data =
     check_proper_states [SIGN_TRANSACTION_OPERATION_P2PK_STATE_INPUTS_STARTED] p
       (check_tx_call (ergo_tx_serializer_full_add_input_context_extension cx (p2_tx p) (p2_mem p) data) p Inr)"

definition stx_operation_p2pk_add_data_inputs ::
    "('h, 'x) cx_sdk_scheme \<Rightarrow> 'h p2pk \<Rightarrow> buffer_t \<Rightarrow> u16 + 'h p2pk" where
  "stx_operation_p2pk_add_data_inputs cx p data =
     check_proper_states [SIGN_TRANSACTION_OPERATION_P2PK_STATE_INPUTS_STARTED] p
       (check_tx_call (ergo_tx_serializer_full_add_data_inputs cx (p2_tx p) (p2_mem p) data) p Inr)"

definition stx_operation_p2pk_add_output ::
    "('h, 'x) cx_sdk_scheme \<Rightarrow> 'h out_views \<Rightarrow> 'h p2pk_union \<Rightarrow> 'h p2pk \<Rightarrow> u64 \<Rightarrow> u32 \<Rightarrow> u32 \<Rightarrow> u8 \<Rightarrow> u32 \<Rightarrow> u16 + 'h p2pk" where
  "stx_operation_p2pk_add_output cx V ub p v ergo_tree_size creation_height tokens_count registers_size =
     check_proper_states
       [SIGN_TRANSACTION_OPERATION_P2PK_STATE_INPUTS_STARTED, SIGN_TRANSACTION_OPERATION_P2PK_STATE_OUTPUTS_STARTED] p
       (check_tx_call (ergo_tx_serializer_full_add_box cx (p2_tx p) (p2_mem p) v ergo_tree_size creation_height tokens_count
                         registers_size) p
         (\<lambda>p. check_tx_call
            (case ergo_tx_serializer_full_set_box_callbacks ub (p2_tx p) (Some p2pk_output_type_cb) (Some p2pk_output_token_cb)
                    (Some (p2pk_output_finished_cb cx V)) of (r, c) \<Rightarrow> (r, c, p2_mem p)) p
            (\<lambda>p. Inr (p\<lparr>p2_mem := (p2_mem p)\<lparr>pm_output := stx_output_info_init v\<rparr>,
                        p2_state := SIGN_TRANSACTION_OPERATION_P2PK_STATE_OUTPUTS_STARTED\<rparr>))))"

text \<open>The pointer and length of the chunk are copied before the serializer consumes the buffer.\<close>

definition stx_operation_p2pk_add_output_tree_chunk ::
    "('h, 'x) cx_sdk_scheme \<Rightarrow> 'h out_views \<Rightarrow> 'h p2pk_union \<Rightarrow> 'h p2pk \<Rightarrow> buffer_t \<Rightarrow> u16 + 'h p2pk" where
  "stx_operation_p2pk_add_output_tree_chunk cx V ub p data =
     check_proper_states [SIGN_TRANSACTION_OPERATION_P2PK_STATE_OUTPUTS_STARTED] p
       (let chunk = buffer_read_ptr data; chunk_len = (ucast (buffer_data_len data) :: u16);
            out = ergo_tx_serializer_full_add_box_ergo_tree cx ub (p2_tx p) (p2_mem p) data;
            is_finished = (fst out = ERGO_TX_SERIALIZER_FULL_RES_OK) in
        if \<not> full_res_ok (fst out) then Inl (sw_from_tx_full_result (fst out))
        else check_output_call
          (stx_output_info_add_tree_chunk cx V (pm_output (snd (snd out))) chunk chunk_len is_finished)
          (p\<lparr>p2_tx := fst (snd out), p2_mem := snd (snd out)\<rparr>) (\<lambda>p. Inr (check_tx_finished p)))"

definition stx_operation_p2pk_add_output_tree_fee ::
    "('h, 'x) cx_sdk_scheme \<Rightarrow> 'h out_views \<Rightarrow> 'h p2pk_union \<Rightarrow> 'h p2pk \<Rightarrow> u16 + 'h p2pk" where
  "stx_operation_p2pk_add_output_tree_fee cx V ub p =
     check_proper_states [SIGN_TRANSACTION_OPERATION_P2PK_STATE_OUTPUTS_STARTED] p
       (check_tx_call (ergo_tx_serializer_full_add_box_miners_fee_tree cx ub (p2_tx p) (p2_mem p)
                         (network_id_is_mainnet (p2_network_id p))) p
         (\<lambda>p. check_output_call (stx_output_info_set_fee cx V (pm_output (p2_mem p))) p (\<lambda>p. Inr (check_tx_finished p))))"

definition stx_operation_p2pk_add_output_tree_change ::
    "('h, 'x) cx_sdk_scheme \<Rightarrow> 'h out_views \<Rightarrow> 'h p2pk_union \<Rightarrow> 'h p2pk \<Rightarrow> u32 list \<Rightarrow> u8 \<Rightarrow> bytes \<Rightarrow> u16 + 'h p2pk" where
  "stx_operation_p2pk_add_output_tree_change cx V ub p path path_len pub_key =
     check_proper_states [SIGN_TRANSACTION_OPERATION_P2PK_STATE_OUTPUTS_STARTED] p
       (check_tx_call (ergo_tx_serializer_full_add_box_change_tree cx ub (p2_tx p) (p2_mem p) pub_key) p
         (\<lambda>p. check_output_call (stx_output_info_set_bip32 cx V (pm_output (p2_mem p)) path path_len) p
            (\<lambda>p. Inr (check_tx_finished p))))"

definition stx_operation_p2pk_add_output_tokens ::
    "('h, 'x) cx_sdk_scheme \<Rightarrow> 'h p2pk_union \<Rightarrow> 'h p2pk \<Rightarrow> buffer_t \<Rightarrow> u16 + 'h p2pk" where
  "stx_operation_p2pk_add_output_tokens cx ub p data =
     check_proper_states [SIGN_TRANSACTION_OPERATION_P2PK_STATE_OUTPUTS_STARTED] p
       (check_tx_call (ergo_tx_serializer_full_add_box_tokens cx ub (p2_tx p) (p2_mem p) data) p
         (\<lambda>p. Inr (check_tx_finished p)))"

definition stx_operation_p2pk_add_output_registers ::
    "('h, 'x) cx_sdk_scheme \<Rightarrow> 'h p2pk_union \<Rightarrow> 'h p2pk \<Rightarrow> buffer_t \<Rightarrow> u16 + 'h p2pk" where
  "stx_operation_p2pk_add_output_registers cx ub p data =
     check_proper_states [SIGN_TRANSACTION_OPERATION_P2PK_STATE_OUTPUTS_STARTED] p
       (check_tx_call (ergo_tx_serializer_full_add_box_registers cx ub (p2_tx p) (p2_mem p) data) p
         (\<lambda>p. Inr (check_tx_finished p)))"

definition stx_operation_p2pk_is_tx_finished :: "'h p2pk \<Rightarrow> bool" where
  "stx_operation_p2pk_is_tx_finished p \<longleftrightarrow> p2_state p = SIGN_TRANSACTION_OPERATION_P2PK_STATE_TX_FINISHED"

definition stx_operation_p2pk_should_show_output_confirm_screen :: "'h out_views \<Rightarrow> 'h p2pk \<Rightarrow> bool" where
  "stx_operation_p2pk_should_show_output_confirm_screen V p =
     (let out = pm_output (p2_mem p); path = out_path V out in
      if p2_state p \<noteq> SIGN_TRANSACTION_OPERATION_P2PK_STATE_OUTPUTS_STARTED \<and>
         p2_state p \<noteq> SIGN_TRANSACTION_OPERATION_P2PK_STATE_TX_FINISHED then False
      else if \<not> stx_output_info_is_finished out then False
      else if stx_output_info_type out = SIGN_TRANSACTION_OUTPUT_INFO_TYPE_MINERS_FEE then stx_output_info_used_tokens_count out > 0
      else if stx_output_info_type out = SIGN_TRANSACTION_OUTPUT_INFO_TYPE_BIP32 then
        if \<not> bip32_path_validate (bp_path path) (bp_len path) (BIP32_HARDENED 44) (BIP32_HARDENED BIP32_ERGO_COIN)
               BIP32_PATH_VALIDATE_ADDRESS_E5 then True
        else if stx_bip32_path_is_equal path (last_approved_change p) then False
        else if stx_bip32_path_same_account path (p2_bip32 p) \<and> bp_path path ! 3 = bp_path (p2_bip32 p) ! 3 \<and>
                bp_path path ! 4 < bp_path (p2_bip32 p) ! 4 + 20 then False
        else True
      else True)"

end
