(* ===== verification/StxOpP2pkRun.thy ===== *)
theory StxOpP2pkRun
  imports StxOpP2pk
begin

text \<open>
  Runs of the signing operations, and what the hash context holds after them: the commitment of the
  Schnorr signature followed by the serialization of what was received. That is exactly the announced
  transaction when no output was abandoned; an output that was opened and left unfinished does not
  count as an output of the transaction, and its bytes are hashed all the same.
\<close>

datatype p2pk_op =
    P2Tokens buffer_t
  | P2Input bytes u64 u8 u32
  | P2InputTokens bytes u8 buffer_t
  | P2Extension buffer_t
  | P2DataInputs buffer_t
  | P2Output u64 u32 u32 u8 u32
  | P2TreeChunk buffer_t
  | P2TreeFee
  | P2TreeChange "u32 list" u8 bytes
  | P2OutputTokens buffer_t
  | P2Registers buffer_t

fun p2pk_exec ::
    "('h, 'x) cx_sdk_scheme \<Rightarrow> 'h out_views \<Rightarrow> 'h p2pk_union \<Rightarrow> p2pk_op \<Rightarrow> 'h p2pk \<Rightarrow> u16 + 'h p2pk" where
  "p2pk_exec cx V ub (P2Tokens b) p = stx_operation_p2pk_add_tokens p b"
| "p2pk_exec cx V ub (P2Input bid v fc e) p = stx_operation_p2pk_add_input p bid v fc e"
| "p2pk_exec cx V ub (P2InputTokens bid i b) p = stx_operation_p2pk_add_input_tokens cx p bid i b"
| "p2pk_exec cx V ub (P2Extension b) p = stx_operation_p2pk_add_input_context_extension cx p b"
| "p2pk_exec cx V ub (P2DataInputs b) p = stx_operation_p2pk_add_data_inputs cx p b"
| "p2pk_exec cx V ub (P2Output v ts h n r) p = stx_operation_p2pk_add_output cx V ub p v ts h n r"
| "p2pk_exec cx V ub (P2TreeChunk b) p = stx_operation_p2pk_add_output_tree_chunk cx V ub p b"
| "p2pk_exec cx V ub P2TreeFee p = stx_operation_p2pk_add_output_tree_fee cx V ub p"
| "p2pk_exec cx V ub (P2TreeChange path n pk) p = stx_operation_p2pk_add_output_tree_change cx V ub p path n pk"
| "p2pk_exec cx V ub (P2OutputTokens b) p = stx_operation_p2pk_add_output_tokens cx ub p b"
| "p2pk_exec cx V ub (P2Registers b) p = stx_operation_p2pk_add_output_registers cx ub p b"

primrec p2pk_run ::
    "('h, 'x) cx_sdk_scheme \<Rightarrow> 'h out_views \<Rightarrow> 'h p2pk_union \<Rightarrow> p2pk_op list \<Rightarrow> 'h p2pk \<Rightarrow> 'h p2pk option" where
  "p2pk_run cx V ub [] p = Some p"
| "p2pk_run cx V ub (o1 # os) p =
     (case p2pk_exec cx V ub o1 p of Inl err \<Rightarrow> None | Inr p' \<Rightarrow> p2pk_run cx V ub os p')"

text \<open>The operation of the serializer behind an operation.\<close>

fun tx_op :: "'h p2pk \<Rightarrow> p2pk_op \<Rightarrow> 'h p2pk_mem full_op" where
  "tx_op p (P2Tokens b) = FullTokens b"
| "tx_op p (P2Input bid v fc e) = FullInput bid fc e"
| "tx_op p (P2InputTokens bid i b) = FullInputTokens bid i b"
| "tx_op p (P2Extension b) = FullExtension b"
| "tx_op p (P2DataInputs b) = FullDataInputs b"
| "tx_op p (P2Output v ts h n r) = FullBox v ts h n r"
| "tx_op p (P2TreeChunk b) = FullBoxTree b"
| "tx_op p P2TreeFee = FullBoxFee (network_id_is_mainnet (p2_network_id p))"
| "tx_op p (P2TreeChange path n pk) = FullBoxChange pk"
| "tx_op p (P2OutputTokens b) = FullBoxTokens b"
| "tx_op p (P2Registers b) = FullBoxRegisters b"

primrec p2pk_collect ::
    "('h, 'x) cx_sdk_scheme \<Rightarrow> 'h out_views \<Rightarrow> 'h p2pk_union \<Rightarrow> p2pk_op list \<Rightarrow> 'h p2pk \<Rightarrow> tx_acc \<Rightarrow> tx_acc" where
  "p2pk_collect cx V ub [] p a = a"
| "p2pk_collect cx V ub (o1 # os) p a =
     (case p2pk_exec cx V ub o1 p of Inl err \<Rightarrow> a
      | Inr p' \<Rightarrow> p2pk_collect cx V ub os p' (tx_acc_op a (tx_op p o1) (p2_tx p')))"

fun p2pk_op_wf :: "p2pk_op \<Rightarrow> bool" where
  "p2pk_op_wf (P2Tokens b) = buffer_wf b"
| "p2pk_op_wf (P2Input bid v fc e) = (length bid = 32)"
| "p2pk_op_wf (P2InputTokens bid i b) = (length bid = 32 \<and> buffer_wf b)"
| "p2pk_op_wf (P2Extension b) = buffer_wf b"
| "p2pk_op_wf (P2DataInputs b) = buffer_wf b"
| "p2pk_op_wf (P2Output v ts h n r) = True"
| "p2pk_op_wf (P2TreeChunk b) = buffer_wf b"
| "p2pk_op_wf P2TreeFee = True"
| "p2pk_op_wf (P2TreeChange path n pk) = (length pk = 65)"
| "p2pk_op_wf (P2OutputTokens b) = buffer_wf b"
| "p2pk_op_wf (P2Registers b) = buffer_wf b"

subsection \<open>The callbacks keep their contracts\<close>

lemma set_amounts_simps [simp]:
  "hash_ctx (set_amounts a m) = hash_ctx m" "tokens_table (set_amounts a m) = am_tokens_table a"
  "pm_output (set_amounts a m) = pm_output m" "amounts (set_amounts a m) = a"
  by (simp_all add: set_amounts_def amounts_def)

lemma amounts_simps [simp]:
  "am_tokens_table (amounts m) = tokens_table m" "am_tokens (amounts m) = pm_tokens m"
  "am_value (amounts m) = pm_value m" "am_fee (amounts m) = pm_fee m"
  "amounts (m\<lparr>pm_output := out\<rparr>) = amounts m" "amounts (m\<lparr>hash_ctx := h\<rparr>) = amounts m"
  by (simp_all add: amounts_def)

text \<open>Adding the tokens of an input changes the table only by appending a new id.\<close>

lemma add_input_token_table:
  assumes "stx_amounts_add_input_token a bid tid v = (r, a')"
  shows "am_tokens_table a' = am_tokens_table a \<or> am_tokens_table a' = snd (token_table_add_token (am_tokens_table a) tid)"
  using assms by (auto simp: stx_amounts_add_input_token_def Let_def split: if_splits prod.splits option.splits)

lemma token_table_add_ok:
  assumes "token_table_wf t" "unat nt \<le> unat (tt_count t)" "length tid = 32"
  defines "t' \<equiv> snd (token_table_add_token t tid)"
  shows "token_table_wf t' \<and> unat nt \<le> unat (tt_count t') \<and> take (unat nt) (tt_tokens t') = take (unat nt) (tt_tokens t)"
proof (cases "tt_count t \<ge> TOKEN_MAX_COUNT")
  case True
  then show ?thesis using assms by (simp add: token_table_add_token_def)
next
  case False
  have "IS_ELEMENT_FOUND (fst (token_table_add_token t tid))"
    using token_table_add_spec(1) [OF assms(1), of tid] False assms(1)
    by (simp add: length_table_ids word_le_nat_alt)
  then have w: "token_table_wf t'" using token_table_add_spec(2) [OF assms(1,3)] by (simp add: t'_def)
  have "unat (tt_count t + 1) = unat (tt_count t) + 1"
    using False unat_TOKEN_MAX_COUNT by (intro u8_succ [of _ 100]) (simp_all add: word_le_nat_alt)
  then show ?thesis using w False assms(2) by (simp add: t'_def token_table_add_token_def Let_def)
qed

lemma add_input_token_no_more:
  "fst (stx_amounts_add_input_token a bid tid v) \<noteq> ERGO_TX_SERIALIZER_INPUT_RES_MORE_DATA"
  by (auto simp: stx_amounts_add_input_token_def Let_def split: if_splits prod.splits option.splits)

lemma p2pk_input_cb_ok: "input_cb_ok (Some (p2pk_input_token_cb :: 'h p2pk_mem input_token_cb))"
  unfolding input_cb_ok_def
proof (intro allI impI conjI)
  fix f :: "'h p2pk_mem input_token_cb" and bid tid v nt toks and m :: "'h p2pk_mem"
  assume f: "Some p2pk_input_token_cb = Some f"
  obtain r a where e: "stx_amounts_add_input_token (amounts m) bid tid v = (r, a)" by (metis surj_pair)
  then have run: "f bid tid v m = (r, set_amounts a m)" using f by (auto simp: p2pk_input_token_cb_def)
  show "hash_ctx (snd (f bid tid v m)) = hash_ctx m" using run by simp
  show "fst (f bid tid v m) \<noteq> ERGO_TX_SERIALIZER_INPUT_RES_MORE_DATA"
    using run add_input_token_no_more [of "amounts m" bid tid v] e by simp
  assume "length tid = 32" and t: "table_ok nt toks m"
  then show "table_ok nt toks (snd (f bid tid v m))"
    using run add_input_token_table [OF e] token_table_add_ok [of "tokens_table m" nt tid] by (auto simp: table_ok_def)
qed

lemma p2pk_box_cbs_frame:
  "box_cbs_frame (ergo_tx_serializer_box_set_callbacks box_ctx_zero (Some p2pk_output_type_cb)
     (Some p2pk_output_token_cb) (Some (p2pk_output_finished_cb cx V)))"
  by (auto simp: box_cbs_frame_def ergo_tx_serializer_box_set_callbacks_def p2pk_output_type_cb_def p2pk_output_token_cb_def
      p2pk_output_finished_cb_def Let_def split: prod.splits)

lemma full_inv_table_cong:
  "tokens_table m' = tokens_table m \<Longrightarrow> full_inv base ni nd nt no a h c m' = full_inv base ni nd nt no a h c m"
  by (simp add: full_inv_def table_ok_def split: ergo_tx_serializer_full_state_e.splits)

subsection \<open>One operation\<close>

definition p2pk_inv ::
    "('h \<Rightarrow> bytes) \<Rightarrow> bytes \<Rightarrow> u16 \<Rightarrow> u16 \<Rightarrow> u8 \<Rightarrow> u16 \<Rightarrow> tx_acc \<Rightarrow> 'h p2pk \<Rightarrow> bool" where
  "p2pk_inv ab base ni nd nt no a p \<longleftrightarrow>
     full_inv base ni nd nt no a (ab (hash_ctx (p2_mem p))) (p2_tx p) (p2_mem p) \<and>
     (p2_state p = SIGN_TRANSACTION_OPERATION_P2PK_STATE_OUTPUTS_STARTED \<longrightarrow> full_box_ctx (p2_tx p) \<noteq> None) \<and>
     (p2_state p = SIGN_TRANSACTION_OPERATION_P2PK_STATE_TX_FINISHED \<longrightarrow> ergo_tx_serializer_full_is_finished (p2_tx p))"

lemma sw_full_ok: "sw_from_tx_full_result r = SW_OK \<longleftrightarrow> full_res_ok r"
  by (cases r) (simp_all add: full_res_ok_def sw_defs)

lemma check_tx_call_Inr:
  "check_tx_call out p rest = Inr p' \<longleftrightarrow>
     (\<exists>r c m. out = (r, c, m) \<and> full_res_ok r \<and> rest (p\<lparr>p2_tx := c, p2_mem := m\<rparr>) = Inr p')"
  by (auto simp: check_tx_call_def sw_full_ok split: prod.splits)

lemma check_output_call_Inr:
  "check_output_call res p rest = Inr p' \<longleftrightarrow>
     fst res = SW_OK \<and> rest (p\<lparr>p2_mem := (p2_mem p)\<lparr>pm_output := snd res\<rparr>\<rparr>) = Inr p'"
  by (auto simp: check_output_call_def)

lemma check_proper_states_Inr: "check_proper_states sts p rest = Inr p' \<longleftrightarrow> p2_state p \<in> set sts \<and> rest = Inr p'"
  by (auto simp: check_proper_states_def)

lemmas p2pk_checks = check_tx_call_Inr check_output_call_Inr check_proper_states_Inr

text \<open>An accepted operation is one step of the serializer; what it changes besides keeps the hash and the table.\<close>

definition p2pk_step :: "('h, 'x) cx_sdk_scheme \<Rightarrow> 'h out_views \<Rightarrow> 'h p2pk_union \<Rightarrow> p2pk_op \<Rightarrow> 'h p2pk \<Rightarrow> 'h p2pk \<Rightarrow> bool" where
  "p2pk_step cx V ub q p p' \<longleftrightarrow>
     (\<exists>r c m r2. full_exec cx ub (tx_op p q) (p2_tx p) (p2_mem p) = (r, c, m) \<and> full_res_ok r \<and> full_res_ok r2 \<and>
        (case q of
           P2Input _ _ _ _ \<Rightarrow> ergo_tx_serializer_full_set_input_callback c (Some p2pk_input_token_cb) = (r2, p2_tx p')
         | P2Output _ _ _ _ _ \<Rightarrow> ergo_tx_serializer_full_set_box_callbacks ub c (Some p2pk_output_type_cb)
             (Some p2pk_output_token_cb) (Some (p2pk_output_finished_cb cx V)) = (r2, p2_tx p')
         | _ \<Rightarrow> p2_tx p' = c) \<and>
        hash_ctx (p2_mem p') = hash_ctx m \<and> tokens_table (p2_mem p') = tokens_table m) \<and>
     p2_network_id p' = p2_network_id p \<and> p2_bip32 p' = p2_bip32 p \<and> schnorr_key p' = schnorr_key p \<and>
     (uses_box (tx_op p q) \<longrightarrow> p2_state p = SIGN_TRANSACTION_OPERATION_P2PK_STATE_OUTPUTS_STARTED) \<and>
     (p2_state p' = SIGN_TRANSACTION_OPERATION_P2PK_STATE_OUTPUTS_STARTED \<longrightarrow>
        opens_box (tx_op p q) \<or> p2_state p = SIGN_TRANSACTION_OPERATION_P2PK_STATE_OUTPUTS_STARTED) \<and>
     (p2_state p' = SIGN_TRANSACTION_OPERATION_P2PK_STATE_TX_FINISHED \<longrightarrow> ergo_tx_serializer_full_is_finished (p2_tx p'))"

lemma add_input_frame: "stx_amounts_add_input a v = (sw, a') \<Longrightarrow> am_tokens_table a' = am_tokens_table a"
  by (auto simp: stx_amounts_add_input_def split: option.splits)

lemma check_tx_finished_simps [simp]:
  "p2_tx (check_tx_finished p) = p2_tx p" "p2_mem (check_tx_finished p) = p2_mem p"
  "p2_network_id (check_tx_finished p) = p2_network_id p" "p2_bip32 (check_tx_finished p) = p2_bip32 p"
  "schnorr_key (check_tx_finished p) = schnorr_key p" "last_approved_change (check_tx_finished p) = last_approved_change p"
  "p2_state (check_tx_finished p) =
     (if ergo_tx_serializer_full_is_finished (p2_tx p) then SIGN_TRANSACTION_OPERATION_P2PK_STATE_TX_FINISHED else p2_state p)"
  by (simp_all add: check_tx_finished_def)

lemma p2pk_exec_step:
  assumes "p2pk_exec cx V ub q p = Inr p'"
  shows "p2pk_step cx V ub q p p'"
proof (cases q)
  case (P2Input bid v fc e)
  obtain r c m where 1: "ergo_tx_serializer_full_add_input (p2_tx p) (p2_mem p) bid fc e = (r, c, m)" by (metis prod_cases3)
  obtain r2 c2 where 2: "ergo_tx_serializer_full_set_input_callback c (Some p2pk_input_token_cb) = (r2, c2)" by (metis surj_pair)
  obtain sw a where 3: "stx_amounts_add_input (amounts m) v = (sw, a)" by (metis surj_pair)
  have "full_res_ok r" "full_res_ok r2" "p2_state p \<noteq> SIGN_TRANSACTION_OPERATION_P2PK_STATE_OUTPUTS_STARTED"
    "p' = p\<lparr>p2_tx := c2, p2_mem := set_amounts a m, p2_state := SIGN_TRANSACTION_OPERATION_P2PK_STATE_INPUTS_STARTED\<rparr>"
    using assms P2Input 1 2 3 by (auto simp: stx_operation_p2pk_add_input_def p2pk_checks split: if_splits)
  then show ?thesis using P2Input 1 2 add_input_frame [OF 3] by (simp add: p2pk_step_def)
next
  case (P2Output v ts h n r)
  obtain r1 c m where 1: "ergo_tx_serializer_full_add_box cx (p2_tx p) (p2_mem p) v ts h n r = (r1, c, m)" by (metis prod_cases3)
  obtain r2 c2 where 2: "ergo_tx_serializer_full_set_box_callbacks ub c (Some p2pk_output_type_cb) (Some p2pk_output_token_cb)
      (Some (p2pk_output_finished_cb cx V)) = (r2, c2)" by (metis surj_pair)
  have "full_res_ok r1" "full_res_ok r2"
    "p' = p\<lparr>p2_tx := c2, p2_mem := m\<lparr>pm_output := stx_output_info_init v\<rparr>,
        p2_state := SIGN_TRANSACTION_OPERATION_P2PK_STATE_OUTPUTS_STARTED\<rparr>"
    using assms P2Output 1 2 by (auto simp: stx_operation_p2pk_add_output_def p2pk_checks)
  then show ?thesis using P2Output 1 2 by (simp add: p2pk_step_def)
next
  case (P2TreeChunk b)
  obtain r c m where "ergo_tx_serializer_full_add_box_ergo_tree cx ub (p2_tx p) (p2_mem p) b = (r, c, m)" by (metis prod_cases3)
  then show ?thesis using assms P2TreeChunk unfolding p2pk_step_def
    by (auto simp: stx_operation_p2pk_add_output_tree_chunk_def p2pk_checks Let_def split: if_splits)
qed (use assms in \<open>auto simp: p2pk_step_def p2pk_checks stx_operation_p2pk_add_tokens_def stx_operation_p2pk_add_input_tokens_def
      stx_operation_p2pk_add_input_context_extension_def stx_operation_p2pk_add_data_inputs_def
      stx_operation_p2pk_add_output_tree_fee_def stx_operation_p2pk_add_output_tree_change_def
      stx_operation_p2pk_add_output_tokens_def stx_operation_p2pk_add_output_registers_def split: if_splits\<close>)

lemma full_exec_callbacks:
  "full_exec cx ub (FullInputCallback cb) c m =
     (fst (ergo_tx_serializer_full_set_input_callback c cb), snd (ergo_tx_serializer_full_set_input_callback c cb), m)"
  "full_exec cx ub (FullBoxCallbacks f g k) c m =
     (fst (ergo_tx_serializer_full_set_box_callbacks ub c f g k), snd (ergo_tx_serializer_full_set_box_callbacks ub c f g k), m)"
  by (simp_all split: prod.splits)

lemma p2pk_exec_inv:
  assumes "cx_absorbs cx ab" and "p2pk_inv ab base ni nd nt no a p" and "p2pk_exec cx V ub q p = Inr p'" and "p2pk_op_wf q"
  shows "p2pk_inv ab base ni nd nt no (tx_acc_op a (tx_op p q) (p2_tx p')) p'"
proof -
  note st = p2pk_exec_step [OF assms(3), unfolded p2pk_step_def]
  from st obtain r c m r2 where f: "full_exec cx ub (tx_op p q) (p2_tx p) (p2_mem p) = (r, c, m)" "full_res_ok r" "full_res_ok r2"
    and tail: "case q of
           P2Input _ _ _ _ \<Rightarrow> ergo_tx_serializer_full_set_input_callback c (Some p2pk_input_token_cb) = (r2, p2_tx p')
         | P2Output _ _ _ _ _ \<Rightarrow> ergo_tx_serializer_full_set_box_callbacks ub c (Some p2pk_output_type_cb)
             (Some p2pk_output_token_cb) (Some (p2pk_output_finished_cb cx V)) = (r2, p2_tx p')
         | _ \<Rightarrow> p2_tx p' = c"
    and m: "hash_ctx (p2_mem p') = hash_ctx m" "tokens_table (p2_mem p') = tokens_table m" by blast
  have i: "full_inv base ni nd nt no a (ab (hash_ctx (p2_mem p))) (p2_tx p) (p2_mem p)" using assms(2) by (simp add: p2pk_inv_def)
  have wf: "full_op_wf (tx_op p q)" using assms(4) by (cases q) auto
  have g: "uses_box (tx_op p q) \<longrightarrow> full_box_ctx (p2_tx p) \<noteq> None" using st assms(2) by (auto simp: p2pk_inv_def)
  note s = full_exec_inv [OF assms(1) i f(1,2) wf g]
  have t: "full_inv base ni nd nt no (tx_acc_op a (tx_op p q) (p2_tx p')) (ab (hash_ctx m)) (p2_tx p') m \<and>
      (full_box_ctx c \<noteq> None \<longrightarrow> full_box_ctx (p2_tx p') \<noteq> None)"
  proof (cases q)
    case (P2Input bid v fc e)
    then have cb: "ergo_tx_serializer_full_set_input_callback c (Some p2pk_input_token_cb) = (r2, p2_tx p')" using tail by simp
    have "full_inv base ni nd nt no (tx_acc_op a (tx_op p q) c) (ab (hash_ctx m)) (p2_tx p') m"
      by (rule full_step_input_callback [where ab = ab, OF conjunct1 [OF s] cb f(3) p2pk_input_cb_ok])
    moreover have "p2_tx p' = c\<lparr>full_input_ctx := ergo_tx_serializer_input_set_callback (full_input_ctx c) (Some p2pk_input_token_cb)\<rparr>"
      using cb f(3) by (auto simp: ergo_tx_serializer_full_set_input_callback_def split: if_splits)
    ultimately show ?thesis using P2Input by simp
  next
    case (P2Output v ts h n rs)
    then have cb: "full_exec cx ub (FullBoxCallbacks (Some p2pk_output_type_cb) (Some p2pk_output_token_cb)
        (Some (p2pk_output_finished_cb cx V))) c m = (r2, p2_tx p', m)" using tail by simp
    have o: "full_box_ctx c \<noteq> None" using s P2Output by simp
    have "full_op_wf (FullBoxCallbacks (Some p2pk_output_type_cb) (Some p2pk_output_token_cb) (Some (p2pk_output_finished_cb cx V)))"
      using p2pk_box_cbs_frame by simp
    from full_exec_inv [OF assms(1) conjunct1 [OF s] cb f(3) this] o P2Output show ?thesis by simp
  qed (use tail s in auto)
  have "full_inv base ni nd nt no (tx_acc_op a (tx_op p q) (p2_tx p')) (ab (hash_ctx (p2_mem p'))) (p2_tx p') (p2_mem p')"
    using t m full_inv_table_cong by metis
  moreover have "full_box_ctx (p2_tx p') \<noteq> None" if "p2_state p' = SIGN_TRANSACTION_OPERATION_P2PK_STATE_OUTPUTS_STARTED"
  proof -
    have "opens_box (tx_op p q) \<or> p2_state p = SIGN_TRANSACTION_OPERATION_P2PK_STATE_OUTPUTS_STARTED" using st that by blast
    then have "full_box_ctx (p2_tx p) \<noteq> None \<or> opens_box (tx_op p q)" using assms(2) by (auto simp: p2pk_inv_def)
    then show ?thesis using s t by blast
  qed
  moreover have "p2_state p' = SIGN_TRANSACTION_OPERATION_P2PK_STATE_TX_FINISHED \<longrightarrow> ergo_tx_serializer_full_is_finished (p2_tx p')"
    using st by blast
  ultimately show ?thesis by (simp add: p2pk_inv_def)
qed

lemma p2pk_run_inv:
  assumes "cx_absorbs cx ab" and "p2pk_inv ab base ni nd nt no a p" and "p2pk_run cx V ub qs p = Some p'"
    and "\<forall>q \<in> set qs. p2pk_op_wf q"
  shows "p2pk_inv ab base ni nd nt no (p2pk_collect cx V ub qs p a) p' \<and> schnorr_key p' = schnorr_key p \<and> p2_bip32 p' = p2_bip32 p"
  using assms(2-)
proof (induction qs arbitrary: a p)
  case (Cons q qs)
  from Cons.prems(2) obtain p1 where e: "p2pk_exec cx V ub q p = Inr p1" "p2pk_run cx V ub qs p1 = Some p'"
    by (auto split: sum.splits)
  have wf: "p2pk_op_wf q" "\<forall>q \<in> set qs. p2pk_op_wf q" using Cons.prems(3) by auto
  from Cons.IH [OF p2pk_exec_inv [OF assms(1) Cons.prems(1) e(1) wf(1)] e(2) wf(2)] show ?case
    using e p2pk_exec_step [OF e(1)] by (simp add: p2pk_step_def)
qed simp

lemma p2pk_start_inv:
  assumes "cx_absorbs cx ab" and "stx_operation_p2pk_start_tx cx p ni nd no nt = Inr p'"
  shows "p2pk_inv ab (ab (hash_ctx (p2_mem p))) ni nd nt no tx_acc_empty p' \<and>
     schnorr_key p' = schnorr_key p \<and> p2_bip32 p' = p2_bip32 p"
proof -
  obtain r c m where f: "ergo_tx_serializer_full_init cx ni nd no nt (p2_mem p) = (r, c, m)" by (metis prod_cases3)
  have ok: "full_res_ok r" and p': "p' = p\<lparr>p2_tx := c, p2_mem := set_amounts stx_amounts_init m,
      p2_state := SIGN_TRANSACTION_OPERATION_P2PK_STATE_TX_STARTED\<rparr>"
    using assms(2) f by (auto simp: stx_operation_p2pk_start_tx_def p2pk_checks)
  have r: "r = ERGO_TX_SERIALIZER_FULL_RES_OK"
    using f ok by (auto simp: ergo_tx_serializer_full_init_def Let_def split: if_splits prod.splits)
  have i: "full_inv (ab (hash_ctx (p2_mem p))) ni nd nt no tx_acc_empty (ab (hash_ctx m)) c m"
    by (rule full_init_inv [OF assms(1) f [unfolded r]])
  have "tokens_table m = am_tokens_table stx_amounts_init"
    using f ok unfolding r by (auto simp: ergo_tx_serializer_full_init_def Let_def stx_amounts_init_def
        ergo_tx_serializer_table_init_def hash_u16_def mem_update_def split: if_splits prod.splits)
  then have "tokens_table (p2_mem p') = tokens_table m" by (simp add: p')
  then have "full_inv (ab (hash_ctx (p2_mem p))) ni nd nt no tx_acc_empty (ab (hash_ctx m)) c (p2_mem p')"
    using i full_inv_table_cong by metis
  then show ?thesis by (simp add: p2pk_inv_def p')
qed

subsection \<open>What a signature signs\<close>

lemma private_key_once:
  assumes "crypto_generate_private_key cx path n sk0 = (0, secret)"
  shows "crypto_generate_private_key cx path n sk1 = (0, secret)"
  using assms by (auto simp: crypto_generate_private_key_def split: prod.splits if_splits)

lemma take_drop_min: "take n xs @ drop (min (length xs) n) xs = xs"
  by (cases "length xs \<le> n") simp_all

lemma p2pk_init_Inr:
  assumes "stx_operation_p2pk_init cx rnd p (bp_path (p2_bip32 p)) n net = Inr p'"
  shows "\<exists>secret. crypto_generate_private_key cx (bp_path (p2_bip32 p)) n [] = (0, secret) \<and>
     ergo_secp256k1_schnorr_p2pk_sign_init cx rnd (hash_ctx (p2_mem p)) (schnorr_key p) secret =
       (True, hash_ctx (p2_mem p'), schnorr_key p') \<and>
     p2_bip32 p' = \<lparr>bp_len = n, bp_path = bp_path (p2_bip32 p)\<rparr> \<and>
     p2_state p' = SIGN_TRANSACTION_OPERATION_P2PK_STATE_INITIALIZED \<and> blind_signing_required p' = 0 \<and>
     p2_network_id p' = net \<and> network_id_is_supported net"
  using assms by (auto simp: stx_operation_p2pk_init_def mem_write_def take_drop_min split: if_splits prod.splits)

text \<open>
  The serialization of a transaction in which every box is complete, without any state of the
  serializer; \<open>outputs_opened\<close> lists the outputs that the operations opened, with their announced
  value, height, number of tokens and size of registers.
\<close>

definition box_serial :: "box_rec \<Rightarrow> bytes" where
  "box_serial b =
     box_bytes (br_value b) (acc_tree (br_acc b)) (br_height b) (br_count b) (acc_tokens (br_acc b))
       (br_regs b) (acc_registers (br_acc b))"

definition tx_serial :: "u16 \<Rightarrow> u16 \<Rightarrow> u8 \<Rightarrow> u16 \<Rightarrow> tx_acc \<Rightarrow> bytes" where
  "tx_serial ni nd nt no a =
     vlq (unat ni) @ concat (map in_bytes (ta_inputs a)) @ vlq (unat nd) @ ta_data a @
     vlq (unat nt) @ ta_tokens a @ vlq (unat no) @ concat (map box_serial (ta_boxes a))"

definition box_announced :: "box_rec \<Rightarrow> u64 \<times> u32 \<times> u8 \<times> u32" where
  "box_announced b = (br_value b, br_height b, br_count b, br_regs b)"

fun outputs_opened :: "p2pk_op list \<Rightarrow> (u64 \<times> u32 \<times> u8 \<times> u32) list" where
  "outputs_opened [] = []"
| "outputs_opened (P2Output v ts h n r # qs) = (v, h, n, r) # outputs_opened qs"
| "outputs_opened (_ # qs) = outputs_opened qs"

lemma map_upd_last: "(\<And>x. g (f x) = g x) \<Longrightarrow> map g (upd_last f xs) = map g xs"
  by (cases xs rule: rev_cases) (simp_all add: upd_last_def)

lemma tx_acc_op_announced:
  "map box_announced (ta_boxes (tx_acc_op a (tx_op p q) c)) = map box_announced (ta_boxes a) @ outputs_opened [q]"
  by (cases q) (simp_all add: map_upd_last box_announced_def)

lemma outputs_opened_Cons: "outputs_opened (q # qs) = outputs_opened [q] @ outputs_opened qs"
  by (cases q) simp_all

lemma collect_announced:
  "p2pk_run cx V ub qs p = Some p' \<Longrightarrow>
     map box_announced (ta_boxes (p2pk_collect cx V ub qs p a)) = map box_announced (ta_boxes a) @ outputs_opened qs"
proof (induction qs arbitrary: p a)
  case (Cons q qs)
  then obtain p1 where e: "p2pk_exec cx V ub q p = Inr p1" "p2pk_run cx V ub qs p1 = Some p'" by (auto split: sum.splits)
  then show ?case using Cons.IH [OF e(2)] by (simp add: tx_acc_op_announced outputs_opened_Cons [of q qs])
qed simp

lemma tx_bytes_finished: "list_all br_finished (ta_boxes a) \<Longrightarrow> tx_bytes ni nd nt no a = tx_serial ni nd nt no a"
proof -
  assume f: "list_all br_finished (ta_boxes a)"
  have "map br_bytes (ta_boxes a) = map box_serial (ta_boxes a)"
    by (rule map_cong [OF refl]) (use f in \<open>auto simp: list_all_iff br_finished_def br_bytes_def box_serial_def Let_def\<close>)
  then show ?thesis unfolding tx_bytes_def tx_serial_def by (simp only:)
qed

lemma filter_all: "length (filter P xs) = length xs \<longleftrightarrow> list_all P xs"
  by (metis Ball_set filter_id_conv length_filter_less nat_neq_iff)

text \<open>
  C2. What a signature signs. Take a key path that was accepted at the start of signing, a
  transaction that was then started with its counts, and any sequence of operations that were all
  accepted and finished the transaction. If the second half of signing, with the key of that path,
  then produces a signature, its challenge is the first 24 bytes of the digest of the commitment
  (public key and ephemeral point) followed by what was received: the announced number of complete
  inputs, data inputs and token ids, and the outputs in the order in which the operations opened
  them, with the values, heights, token counts and register sizes announced there. Exactly the announced number
  of these outputs is finished, so at least that many were opened. If no more were opened, all are
  finished and the hashed bytes are the commitment and the reference serialization \<open>tx_serial\<close> of exactly
  the announced transaction. If more were opened, the others were abandoned in some state, and
  \<open>tx_bytes\<close> also has the bytes that were received for them. The response solves the Schnorr equation
  for this challenge, the key of the path and the ephemeral key drawn at the start.
\<close>

theorem signature_signs_transaction:
  assumes "cx_absorbs cx ab" and "cx_math_ok cx" and "cx_digest_32 cx" and "length signature = 56"
    and "stx_operation_p2pk_init cx rnd p0 (bp_path (p2_bip32 p0)) n net = Inr p1"
    and "stx_operation_p2pk_start_tx cx p1 ni nd no nt = Inr p2"
    and "p2pk_run cx V ub qs p2 = Some p" and "\<forall>q \<in> set qs. p2pk_op_wf q"
    and "stx_operation_p2pk_is_tx_finished p"
    and "crypto_generate_private_key cx (bp_path (p2_bip32 p)) (bp_len (p2_bip32 p)) sk0 = (0, secret)"
    and "ergo_secp256k1_schnorr_p2pk_sign_finish cx signature (hash_ctx (p2_mem p)) secret (schnorr_key p) = (True, h, sig)"
    and "a = p2pk_collect cx V ub qs p2 tx_acc_empty"
  shows "\<exists>pk w digest z. scalar_base cx secret = (CX_OK, pk) \<and> scalar_base cx (schnorr_key p) = (CX_OK, w) \<and>
     ab (hash_ctx (p2_mem p)) = schnorr_commitment pk w @ tx_bytes ni nd nt no a \<and>
     blake2b_256_finalize cx (hash_ctx (p2_mem p)) = (True, h, digest) \<and> sig = take 24 digest @ z \<and>
     nat_of_be z = (nat_of_be (schnorr_key p) + nat_of_be (take 24 digest) * nat_of_be secret) mod nat_of_be SECP256K1_N \<and>
     length (ta_inputs a) = unat ni \<and> list_all input_complete (ta_inputs a) \<and>
     length (ta_data a) = 32 * unat nd \<and> length (ta_tokens a) = 32 * unat nt \<and>
     length (filter br_finished (ta_boxes a)) = unat no \<and> list_all br_ok (ta_boxes a) \<and>
     map box_announced (ta_boxes a) = outputs_opened qs \<and> unat no \<le> length (outputs_opened qs) \<and>
     (length (outputs_opened qs) = unat no \<longrightarrow> list_all br_finished (ta_boxes a) \<and>
        ab (hash_ctx (p2_mem p)) = schnorr_commitment pk w @ tx_serial ni nd nt no a)"
proof -
  note s = p2pk_start_inv [OF assms(1,6)]
  note r = p2pk_run_inv [OF assms(1) conjunct1 [OF s] assms(7,8), folded assms(12)]
  have "full_inv (ab (hash_ctx (p2_mem p1))) ni nd nt no a (ab (hash_ctx (p2_mem p))) (p2_tx p) (p2_mem p)"
    "full_state (p2_tx p) = ERGO_TX_SERIALIZER_FULL_STATE_FINISHED"
    using r assms(9) by (simp_all add: p2pk_inv_def stx_operation_p2pk_is_tx_finished_def ergo_tx_serializer_full_is_finished_def)
  then have tx: "ab (hash_ctx (p2_mem p)) = ab (hash_ctx (p2_mem p1)) @ tx_bytes ni nd nt no a"
    "length (ta_inputs a) = unat ni" "list_all input_complete (ta_inputs a)"
    "length (ta_data a) = 32 * unat nd" "length (ta_tokens a) = 32 * unat nt"
    "length (filter br_finished (ta_boxes a)) = unat no" "list_all br_ok (ta_boxes a)"
    by (simp_all add: full_inv_def tx_mid_def tx_head_def tx_bytes_def)
  from p2pk_init_Inr [OF assms(5)] obtain secret' where
    i: "crypto_generate_private_key cx (bp_path (p2_bip32 p0)) n [] = (0, secret')"
      "ergo_secp256k1_schnorr_p2pk_sign_init cx rnd (hash_ctx (p2_mem p0)) (schnorr_key p0) secret' =
         (True, hash_ctx (p2_mem p1), schnorr_key p1)"
      "p2_bip32 p1 = \<lparr>bp_len = n, bp_path = bp_path (p2_bip32 p0)\<rparr>" by blast
  have k: "schnorr_key p = schnorr_key p1" "p2_bip32 p = p2_bip32 p1" using r s by simp_all
  have "secret' = secret" using private_key_once [OF i(1), of sk0] assms(10) i(3) k by simp
  have o: "map box_announced (ta_boxes a) = outputs_opened qs"
    using collect_announced [OF assms(7), of tx_acc_empty] assms(12) by (simp add: tx_acc_empty_def)
  then have l: "length (ta_boxes a) = length (outputs_opened qs)" by (metis length_map)
  have f: "list_all br_finished (ta_boxes a) \<and> tx_bytes ni nd nt no a = tx_serial ni nd nt no a"
    if "length (outputs_opened qs) = unat no"
    using that l tx(6) filter_all [of br_finished "ta_boxes a"] tx_bytes_finished by metis
  have "unat no \<le> length (outputs_opened qs)" using length_filter_le [of br_finished "ta_boxes a"] tx(6) l by simp
  moreover from schnorr_equation_absorbed [OF assms(1-4) i(2) [folded k] tx(1)] \<open>secret' = secret\<close> assms(11)
  obtain pk w digest z where
    "scalar_base cx secret = (CX_OK, pk)" "scalar_base cx (schnorr_key p) = (CX_OK, w)"
    "ab (hash_ctx (p2_mem p)) = schnorr_commitment pk w @ tx_bytes ni nd nt no a"
    "blake2b_256_finalize cx (hash_ctx (p2_mem p)) = (True, h, digest)" "sig = take 24 digest @ z"
    "nat_of_be z = (nat_of_be (schnorr_key p) + nat_of_be (take 24 digest) * nat_of_be secret) mod nat_of_be SECP256K1_N"
    by blast
  ultimately show ?thesis using tx o f by (intro exI [of _ pk] exI [of _ w] exI [of _ digest] exI [of _ z]) simp
qed

text \<open>Witness: one input without tokens, one output with a script of two bytes.\<close>

definition demo_path :: "u32 list" where
  "demo_path = [0x8000002C, 0x800001AD, 0x80000000, 0, 0, 0, 0, 0, 0, 0]"

definition demo_p2pk :: "bytes p2pk" where
  "demo_p2pk = (p2pk_zero demo_device)\<lparr>p2_bip32 := \<lparr>bp_len = 5, bp_path = demo_path\<rparr>\<rparr>"

definition demo_p2pk_ops :: "p2pk_op list" where
  "demo_p2pk_ops = [P2Input (demo_id 5) 1000 1 0, P2InputTokens (demo_id 5) 0 (buffer_init [] 0),
     P2Output 200 2 3 0 0, P2TreeChunk (buffer_init [1, 2] 2)]"

definition demo_p2pk_union :: "bytes p2pk_union" where
  "demo_p2pk_union ic = box_ctx_zero"

lemma demo_p2pk_fields [simp]:
  "p2_state demo_p2pk = SIGN_TRANSACTION_OPERATION_P2PK_STATE_INITIALIZED" "blind_signing_required demo_p2pk = 0"
  "p2_bip32 demo_p2pk = \<lparr>bp_len = 5, bp_path = demo_path\<rparr>" "p2_network_id demo_p2pk = 0"
  by (simp_all add: demo_p2pk_def p2pk_zero_def)


definition demo_opened :: "bytes \<Rightarrow> bytes \<Rightarrow> bytes p2pk" where
  "demo_opened h k = demo_p2pk\<lparr>p2_mem := (p2_mem demo_p2pk)\<lparr>hash_ctx := h\<rparr>, schnorr_key := k,
     p2_bip32 := \<lparr>bp_len = 5, bp_path = demo_path\<rparr>, p2_network_id := 0,
     p2_state := SIGN_TRANSACTION_OPERATION_P2PK_STATE_INITIALIZED, blind_signing_required := 0\<rparr>"

lemma demo_path_valid:
  "bip32_path_validate demo_path 5 (BIP32_HARDENED 44) (BIP32_HARDENED BIP32_ERGO_COIN) BIP32_PATH_VALIDATE_ADDRESS_GE5"
  by code_simp

lemma demo_private_key: "crypto_generate_private_key demo_device demo_path 5 [] = (0, be_of_nat 32 5)"
proof -
  have "replicate 31 0 @ [5] = be_of_nat 32 5" by code_simp
  then show ?thesis
    by (simp add: crypto_generate_private_key_def crypto_derive_private_key_def demo_device_def CX_OK_def PRIVATE_KEY_LEN_def)
qed

lemma demo_p2pk_init:
  "\<exists>h k. stx_operation_p2pk_init demo_device demo_rnd demo_p2pk (bp_path (p2_bip32 demo_p2pk)) 5 0 = Inr (demo_opened h k)"
proof -
  have n: "network_id_is_supported 0" by code_simp
  have "0 < (5 :: nat)" "5 < nat_of_be SECP256K1_N" by (simp_all add: SECP256K1_N_nat)
  from demo_sign_init [OF this] obtain h key where
    "ergo_secp256k1_schnorr_p2pk_sign_init demo_device demo_rnd (hash_ctx (p2_mem demo_p2pk))
      (schnorr_key demo_p2pk) (be_of_nat 32 5) = (True, h, key)" by blast
  then have "stx_operation_p2pk_init demo_device demo_rnd demo_p2pk (bp_path (p2_bip32 demo_p2pk)) 5 0 = Inr (demo_opened h key)"
    using n demo_path_valid demo_private_key
    by (simp add: stx_operation_p2pk_init_def mem_write_def take_drop_min demo_opened_def del: be_of_nat.simps)
  then show ?thesis by blast
qed

definition demo_started ::
    "bytes \<Rightarrow> bytes \<Rightarrow> bytes list \<Rightarrow> u64 list \<Rightarrow> bytes output_info \<Rightarrow> bytes p2pk" where
  "demo_started h k ids bals out =
     \<lparr>p2_state = SIGN_TRANSACTION_OPERATION_P2PK_STATE_TX_STARTED, blind_signing_required = 0, schnorr_key = k,
       p2_bip32 = \<lparr>bp_len = 5, bp_path = demo_path\<rparr>, p2_network_id = 0,
       p2_tx = full_ctx_zero\<lparr>full_inputs_count := 1, full_outputs_count := 1,
         full_state := ERGO_TX_SERIALIZER_FULL_STATE_INPUTS_STARTED,
         full_input_ctx := input_ctx_zero\<lparr>input_state := ERGO_TX_SERIALIZER_INPUT_STATE_FINISHED\<rparr>\<rparr>,
       last_approved_change = \<lparr>bp_len = 0, bp_path = replicate 10 0\<rparr>,
       p2_mem = \<lparr>hash_ctx = h @ [1], tokens_table = \<lparr>tt_count = 0, tt_tokens = ids\<rparr>, pm_fee = 0, pm_value = 0,
                  pm_tokens = bals, pm_output = out\<rparr>\<rparr>"

lemma demo_p2pk_start:
  "stx_operation_p2pk_start_tx demo_device (demo_opened h k) 1 0 1 0 =
     Inr (demo_started h k (replicate 100 (replicate 32 0)) (replicate 100 0) (stx_output_info_init 0))"
proof -
  define m where "m = (p2_mem demo_p2pk)\<lparr>hash_ctx := h\<rparr>"
  have "vlq 1 = [1]" by code_simp
  then have u: "hash_u16 demo_device m 1 = (True, m\<lparr>hash_ctx := h @ [1]\<rparr>)"
    by (simp add: hash_u16_True hash_absorb_def demo_device_def m_def CX_OK_def)
  have f: "ergo_tx_serializer_full_init demo_device 1 0 1 0 m = (ERGO_TX_SERIALIZER_FULL_RES_OK,
      full_ctx_zero\<lparr>full_inputs_count := 1, full_outputs_count := 1,
         full_state := ERGO_TX_SERIALIZER_FULL_STATE_INPUTS_STARTED,
         full_input_ctx := input_ctx_zero\<lparr>input_state := ERGO_TX_SERIALIZER_INPUT_STATE_FINISHED\<rparr>\<rparr>,
      m\<lparr>hash_ctx := h @ [1]\<rparr>)"
    using u by (simp add: ergo_tx_serializer_full_init_def Let_def ergo_tx_serializer_table_init_def full_ctx_zero_def
        m_def demo_p2pk_def p2pk_zero_def stx_amounts_init_def)
  show ?thesis
    using f by (simp add: stx_operation_p2pk_start_tx_def check_proper_states_def check_tx_call_def sw_full_ok m_def
        demo_started_def demo_opened_def bip32_path_zero_def MAX_BIP32_PATH_def demo_p2pk_def p2pk_zero_def set_amounts_def stx_amounts_init_def)
qed

theorem signature_signs_transaction_witness:
  "\<exists>p0 p1 p secret h sig c z. stx_operation_p2pk_init demo_device demo_rnd demo_p2pk demo_path 5 0 = Inr p0 \<and>
     stx_operation_p2pk_start_tx demo_device p0 1 0 1 0 = Inr p1 \<and>
     p2pk_run demo_device demo_views demo_p2pk_union demo_p2pk_ops p1 = Some p \<and>
     ergo_secp256k1_schnorr_p2pk_sign_finish demo_device (replicate 56 0) (hash_ctx (p2_mem p)) secret (schnorr_key p) = (True, h, sig) \<and>
     sig = take 24 c @ z \<and> drop 77 (hash_ctx (p2_mem p)) = 1 # demo_id 5 @ [0, 0, 0, 0, 1, 200, 1, 1, 2, 3, 0, 0]"
proof -
  define ids :: "bytes list" where "ids = replicate 100 (replicate 32 0)"
  define bals :: "u64 list" where "bals = replicate 100 0"
  define out :: "bytes output_info" where "out = stx_output_info_init 0"
  obtain g k where i: "stx_operation_p2pk_init demo_device demo_rnd demo_p2pk (bp_path (p2_bip32 demo_p2pk)) 5 0 = Inr (demo_opened g k)"
    using demo_p2pk_init by blast
  note s = demo_p2pk_start [of g k, folded ids_def bals_def out_def]
  let ?r = "p2pk_run demo_device demo_views demo_p2pk_union demo_p2pk_ops (demo_started g k ids bals out)"
  let ?a = "p2pk_collect demo_device demo_views demo_p2pk_union demo_p2pk_ops (demo_started g k ids bals out) tx_acc_empty"
  have "?r \<noteq> None" by code_simp
  then have r: "?r = Some (the ?r)" by auto
  have fin: "stx_operation_p2pk_is_tx_finished (the ?r)" by code_simp
  have b: "p2_bip32 (the ?r) = \<lparr>bp_len = 5, bp_path = demo_path\<rparr>" by code_simp
  have wf: "\<forall>q \<in> set demo_p2pk_ops. p2pk_op_wf q" by (simp add: demo_p2pk_ops_def) code_simp
  have k: "crypto_generate_private_key demo_device (bp_path (p2_bip32 (the ?r))) (bp_len (p2_bip32 (the ?r))) [] = (0, be_of_nat 32 5)"
    unfolding b using demo_private_key by simp
  define f where "f = ergo_secp256k1_schnorr_p2pk_sign_finish demo_device (replicate 56 0) (hash_ctx (p2_mem (the ?r)))
      (be_of_nat 32 5) (schnorr_key (the ?r))"
  have f: "ergo_secp256k1_schnorr_p2pk_sign_finish demo_device (replicate 56 0) (hash_ctx (p2_mem (the ?r)))
      (be_of_nat 32 5) (schnorr_key (the ?r)) = (True, fst (snd f), snd (snd f))"
    using fst_pair_eq [OF demo_device_finish] f_def by metis
  have l: "length (replicate 56 (0 :: u8)) = 56" by simp
  from signature_signs_transaction [OF demo_device_absorbs demo_device_math demo_device_digest l i s r wf fin k f refl]
  obtain pk w digest z where c: "scalar_base demo_device (be_of_nat 32 5) = (CX_OK, pk)"
      "scalar_base demo_device (schnorr_key (the ?r)) = (CX_OK, w)"
      "snd (snd f) = take 24 digest @ z"
      "length (outputs_opened demo_p2pk_ops) = unat (1 :: u16) \<longrightarrow>
         hash_ctx (p2_mem (the ?r)) = schnorr_commitment pk w @ tx_serial 1 0 0 1 ?a" by blast
  have "length pk = 65" "length w = 65" using c(1,2) by (auto simp: scalar_base_def demo_device_def demo_point_def)
  then have "length (schnorr_commitment pk w) = 77"
    by (simp add: schnorr_commitment_def compress_point_def P2PK_PREFIX_def P2PK_SUFFIX_def)
  moreover have "tx_serial 1 0 0 1 ?a = 1 # demo_id 5 @ [0, 0, 0, 0, 1, 200, 1, 1, 2, 3, 0, 0]" by code_simp
  ultimately have "drop 77 (hash_ctx (p2_mem (the ?r))) = 1 # demo_id 5 @ [0, 0, 0, 0, 1, 200, 1, 1, 2, 3, 0, 0]"
    using c(4) by (simp add: demo_p2pk_ops_def)
  then show ?thesis using i s r f c(3) by (simp del: p2pk_run.simps) blast
qed

end
