(* ===== verification/P2pkScreens.thy ===== *)
theory P2pkScreens
  imports StxOpP2pkRun
begin

text \<open>
  Which outputs the user is asked about, and which are signed without a screen: the rule that the
  source applies to a finished output, and an output that is started and never finished.
\<close>

lemma count_loop_pos: "count_loop P ts > 0 \<longleftrightarrow> (\<exists>i<100. P (ts ! i))"
proof -
  have "count_loop P ts > 0 \<longleftrightarrow> filter (\<lambda>i. P (ts ! i)) [0..<100] \<noteq> []"
    using count_loop_eq [of P ts] by (simp add: word_less_nat_alt)
  then show ?thesis by (auto simp: filter_empty_conv)
qed

lemma validate_E5_GE5:
  assumes "bip32_path_validate p n t c BIP32_PATH_VALIDATE_ADDRESS_E5"
  shows "bip32_path_validate p n t c BIP32_PATH_VALIDATE_ADDRESS_GE5"
proof -
  have f: "n = 5" "p ! 0 = t" "p ! 1 = c" "BIP32_HARDENED_CONSTANT \<le> p ! 2" "p ! 3 = 0 \<or> p ! 3 = 1" "p ! 4 < BIP32_HARDENED_CONSTANT"
    using assms by (simp_all add: bip32_path_validate_def split: if_splits)
  have "[4..<5] = [4 :: nat]" by (simp add: upt_rec)
  then show ?thesis using f by (auto simp: bip32_path_validate_def not_less not_le)
qed

definition ergo_path :: "bip32_path_validation_type_e \<Rightarrow> sign_transaction_bip32_path_t \<Rightarrow> bool" where
  "ergo_path vtype path \<longleftrightarrow> length (bp_path path) = 10 \<and>
     bip32_path_validate (bp_path path) (bp_len path) (BIP32_HARDENED 44) (BIP32_HARDENED BIP32_ERGO_COIN) vtype"

text \<open>
  What the comparison with the last approved change path looks at: the length, the first word and the low byte of
  the second. \<open>counts_as_approved\<close> is the answer for an output path that is an address path of length five.
\<close>

definition counts_as_approved :: "sign_transaction_bip32_path_t \<Rightarrow> bool" where
  "counts_as_approved path \<longleftrightarrow> bp_len path = 5 \<and> bp_path path ! 0 = BIP32_HARDENED 44 \<and>
     (ucast (bp_path path ! 1) :: u8) = ucast (BIP32_HARDENED BIP32_ERGO_COIN)"

lemma u32_bytes_inject:
  fixes v w :: u32
  shows "((ucast v :: u8) = ucast w \<and> (ucast (drop_bit 8 v) :: u8) = ucast (drop_bit 8 w) \<and>
     (ucast (drop_bit 16 v) :: u8) = ucast (drop_bit 16 w) \<and> (ucast (drop_bit 24 v) :: u8) = ucast (drop_bit 24 w)) \<longleftrightarrow> v = w"
proof
  let ?b = "\<lambda>w :: u32. [ucast (drop_bit 24 w), ucast (drop_bit 16 w), ucast (drop_bit 8 w), ucast w] :: bytes"
  assume "(ucast v :: u8) = ucast w \<and> (ucast (drop_bit 8 v) :: u8) = ucast (drop_bit 8 w) \<and>
     (ucast (drop_bit 16 v) :: u8) = ucast (drop_bit 16 w) \<and> (ucast (drop_bit 24 v) :: u8) = ucast (drop_bit 24 w)"
  then have "?b v = ?b w" by (simp only:)
  then have "word_of_be (?b v) (0 :: u32) = word_of_be (?b w) 0" by (rule arg_cong)
  then show "v = w" unfolding word_of_be_u32 .
qed (simp only: simp_thms)

lemma path_mem_5:
  assumes "length p = 10"
  shows "take 5 (path_mem p) = [ucast (p ! 0), ucast (drop_bit 8 (p ! 0)), ucast (drop_bit 16 (p ! 0)), ucast (drop_bit 24 (p ! 0)), ucast (p ! 1)]"
proof -
  have "take 5 (path_mem p) = take 5 (take 8 (path_mem p))" by (simp add: take_take)
  then show ?thesis using assms by (simp add: path_mem_8 write_u32_le_4)
qed

lemma equal_to_approved:
  assumes "ergo_path BIP32_PATH_VALIDATE_ADDRESS_E5 path" and "length (bp_path q) = 10"
  shows "stx_bip32_path_is_equal path q \<longleftrightarrow> counts_as_approved q"
proof -
  have v: "length (bp_path path) = 10" "bp_len path = 5" "bp_path path ! 0 = BIP32_HARDENED 44"
    "bp_path path ! 1 = BIP32_HARDENED BIP32_ERGO_COIN"
    using assms(1) by (auto simp: ergo_path_def bip32_path_validate_def split: if_splits)
  have "take 5 (path_mem (bp_path path)) = take 5 (path_mem (bp_path q)) \<longleftrightarrow>
      bp_path q ! 0 = BIP32_HARDENED 44 \<and> (ucast (bp_path q ! 1) :: u8) = ucast (BIP32_HARDENED BIP32_ERGO_COIN)"
    unfolding path_mem_5 [OF v(1)] path_mem_5 [OF assms(2)] v(3,4)
    using u32_bytes_inject [of "BIP32_HARDENED 44" "bp_path q ! 0"] by auto
  then show ?thesis using v(2)
    by (auto simp: stx_bip32_path_is_equal_def bip32_path_is_equal_def memcmp_eq_def counts_as_approved_def)
qed

text \<open>
  C34. The rule for the screen of an output. A finished output that pays an address, a script or a
  script hash is always shown; a miners fee is shown exactly when it carries a token; a change output is
  shown when its path is not an address path of length five. A change output whose path is such a
  path is skipped in exactly two cases: the last approved change path counts as approved (it has
  length five and agrees in the first word and the low byte of the second), or the change flag is that of the
  signing path and the index is below the signing index plus 20, whatever account it belongs to. In particular it is
  skipped after any address path of length five was approved, whatever account and index either of them has;
  in all other cases it is shown.
\<close>

theorem output_screen_rule:
  assumes "p2_state p = SIGN_TRANSACTION_OPERATION_P2PK_STATE_OUTPUTS_STARTED \<or>
       p2_state p = SIGN_TRANSACTION_OPERATION_P2PK_STATE_TX_FINISHED"
    and "out = pm_output (p2_mem p)" and "stx_output_info_is_finished out" and "ergo_path BIP32_PATH_VALIDATE_ADDRESS_GE5 (p2_bip32 p)"
  shows "(stx_output_info_type out = SIGN_TRANSACTION_OUTPUT_INFO_TYPE_ADDRESS \<or>
          stx_output_info_type out = SIGN_TRANSACTION_OUTPUT_INFO_TYPE_SCRIPT \<or>
          stx_output_info_type out = SIGN_TRANSACTION_OUTPUT_INFO_TYPE_SCRIPT_HASH \<longrightarrow>
          stx_operation_p2pk_should_show_output_confirm_screen V p) \<and>
    (stx_output_info_type out = SIGN_TRANSACTION_OUTPUT_INFO_TYPE_MINERS_FEE \<longrightarrow>
       (stx_operation_p2pk_should_show_output_confirm_screen V p \<longleftrightarrow> (\<exists>i<100. oi_tokens out ! i > 0))) \<and>
    (stx_output_info_type out = SIGN_TRANSACTION_OUTPUT_INFO_TYPE_BIP32 \<and> length (bp_path (out_path V out)) = 10 \<longrightarrow>
       (if \<not> ergo_path BIP32_PATH_VALIDATE_ADDRESS_E5 (out_path V out)
        then stx_operation_p2pk_should_show_output_confirm_screen V p
        else ergo_path BIP32_PATH_VALIDATE_ADDRESS_E5 (last_approved_change p) \<or>
             bp_path (out_path V out) ! 3 = bp_path (p2_bip32 p) ! 3 \<and>
             bp_path (out_path V out) ! 4 < bp_path (p2_bip32 p) ! 4 + 20 \<longrightarrow>
             \<not> stx_operation_p2pk_should_show_output_confirm_screen V p)) \<and>
    (stx_output_info_type out = SIGN_TRANSACTION_OUTPUT_INFO_TYPE_BIP32 \<and> ergo_path BIP32_PATH_VALIDATE_ADDRESS_E5 (out_path V out) \<and>
     length (bp_path (last_approved_change p)) = 10 \<longrightarrow>
       (stx_operation_p2pk_should_show_output_confirm_screen V p \<longleftrightarrow>
          \<not> counts_as_approved (last_approved_change p) \<and>
          \<not> (bp_path (out_path V out) ! 3 = bp_path (p2_bip32 p) ! 3 \<and>
             bp_path (out_path V out) ! 4 < bp_path (p2_bip32 p) ! 4 + 20)))"
proof -
  let ?show = "stx_operation_p2pk_should_show_output_confirm_screen V p"
  note d = stx_operation_p2pk_should_show_output_confirm_screen_def [of V p, folded assms(2)]
  have base: "?show = (if stx_output_info_type out = SIGN_TRANSACTION_OUTPUT_INFO_TYPE_MINERS_FEE then stx_output_info_used_tokens_count out > 0
      else if stx_output_info_type out = SIGN_TRANSACTION_OUTPUT_INFO_TYPE_BIP32 then
        if \<not> bip32_path_validate (bp_path (out_path V out)) (bp_len (out_path V out)) (BIP32_HARDENED 44)
             (BIP32_HARDENED BIP32_ERGO_COIN) BIP32_PATH_VALIDATE_ADDRESS_E5 then True
        else if stx_bip32_path_is_equal (out_path V out) (last_approved_change p) then False
        else if stx_bip32_path_same_account (out_path V out) (p2_bip32 p) \<and> bp_path (out_path V out) ! 3 = bp_path (p2_bip32 p) ! 3 \<and>
                bp_path (out_path V out) ! 4 < bp_path (p2_bip32 p) ! 4 + 20 then False
        else True
      else True)"
    using assms(1,3) by (auto simp: d Let_def)
  have fee: "stx_output_info_used_tokens_count out > 0 \<longleftrightarrow> (\<exists>i<100. oi_tokens out ! i > 0)"
    by (simp add: stx_output_info_used_tokens_count_def count_loop_pos)
  have acc: "stx_bip32_path_same_account (out_path V out) (p2_bip32 p)"
    if "ergo_path BIP32_PATH_VALIDATE_ADDRESS_E5 (out_path V out)"
    unfolding stx_bip32_path_same_account_def
    by (rule conjunct1 [OF bip32_same_account_always [where t = "BIP32_HARDENED 44" and c = "BIP32_HARDENED BIP32_ERGO_COIN", OF validate_E5_GE5]])
      (use that assms(4) in \<open>simp_all add: ergo_path_def\<close>)
  show ?thesis
  proof (intro conjI impI)
    assume "stx_output_info_type out = SIGN_TRANSACTION_OUTPUT_INFO_TYPE_ADDRESS \<or>
          stx_output_info_type out = SIGN_TRANSACTION_OUTPUT_INFO_TYPE_SCRIPT \<or>
          stx_output_info_type out = SIGN_TRANSACTION_OUTPUT_INFO_TYPE_SCRIPT_HASH"
    then show ?show using base by (auto simp: out_types)
  next
    assume "stx_output_info_type out = SIGN_TRANSACTION_OUTPUT_INFO_TYPE_MINERS_FEE"
    then show "?show \<longleftrightarrow> (\<exists>i<100. oi_tokens out ! i > 0)" using base fee by simp
  next
    assume b: "stx_output_info_type out = SIGN_TRANSACTION_OUTPUT_INFO_TYPE_BIP32 \<and> length (bp_path (out_path V out)) = 10"
    show "if \<not> ergo_path BIP32_PATH_VALIDATE_ADDRESS_E5 (out_path V out) then ?show
        else ergo_path BIP32_PATH_VALIDATE_ADDRESS_E5 (last_approved_change p) \<or>
             bp_path (out_path V out) ! 3 = bp_path (p2_bip32 p) ! 3 \<and>
             bp_path (out_path V out) ! 4 < bp_path (p2_bip32 p) ! 4 + 20 \<longrightarrow> \<not> ?show"
    proof (cases "ergo_path BIP32_PATH_VALIDATE_ADDRESS_E5 (out_path V out)")
      case False
      then show ?thesis using b base by (auto simp: ergo_path_def out_types)
    next
      case True
      then have e5: "bip32_path_validate (bp_path (out_path V out)) (bp_len (out_path V out)) (BIP32_HARDENED 44)
          (BIP32_HARDENED BIP32_ERGO_COIN) BIP32_PATH_VALIDATE_ADDRESS_E5" by (simp add: ergo_path_def)
      have v: "ergo_path BIP32_PATH_VALIDATE_ADDRESS_GE5 (out_path V out)" "bp_len (out_path V out) = 5"
        using True validate_E5_GE5 by (auto simp: ergo_path_def bip32_path_validate_def split: if_splits)
      have eq: "stx_bip32_path_is_equal (out_path V out) (last_approved_change p)"
        if l: "ergo_path BIP32_PATH_VALIDATE_ADDRESS_E5 (last_approved_change p)"
      proof -
        have "bp_len (last_approved_change p) = 5" "ergo_path BIP32_PATH_VALIDATE_ADDRESS_GE5 (last_approved_change p)"
          using l validate_E5_GE5 by (auto simp: ergo_path_def bip32_path_validate_def split: if_splits)
        then show ?thesis using bip32_same_account_always v by (auto simp: stx_bip32_path_is_equal_def ergo_path_def)
      qed
      show ?thesis using e5 True b acc [OF True] eq base by (auto simp: out_types)
    qed
  next
    assume b: "stx_output_info_type out = SIGN_TRANSACTION_OUTPUT_INFO_TYPE_BIP32 \<and>
        ergo_path BIP32_PATH_VALIDATE_ADDRESS_E5 (out_path V out) \<and> length (bp_path (last_approved_change p)) = 10"
    then have e5: "bip32_path_validate (bp_path (out_path V out)) (bp_len (out_path V out)) (BIP32_HARDENED 44)
        (BIP32_HARDENED BIP32_ERGO_COIN) BIP32_PATH_VALIDATE_ADDRESS_E5" by (simp add: ergo_path_def)
    show "?show \<longleftrightarrow> \<not> counts_as_approved (last_approved_change p) \<and>
        \<not> (bp_path (out_path V out) ! 3 = bp_path (p2_bip32 p) ! 3 \<and>
           bp_path (out_path V out) ! 4 < bp_path (p2_bip32 p) ! 4 + 20)"
      using e5 b acc equal_to_approved base by (auto simp: out_types)
  qed
qed

text \<open>
  Witness: after one approved change path, a change to index 900 of account 7 is not shown; before any approval it is.
\<close>

definition demo_other_path :: sign_transaction_bip32_path_t where
  "demo_other_path = \<lparr>bp_len = 5, bp_path = [0x8000002C, 0x800001AD, 0x80000007, 1, 900, 0, 0, 0, 0, 0]\<rparr>"

definition demo_change :: "bytes output_info" where
  "demo_change = \<lparr>oi_value = 5, oi_tokens = [], oi_state = 0xC1, oi_union = OutPath demo_other_path\<rparr>"

definition demo_change_state :: "bytes p2pk" where
  "demo_change_state = (demo_started [] [] [] [] demo_change)
     \<lparr>p2_state := SIGN_TRANSACTION_OPERATION_P2PK_STATE_OUTPUTS_STARTED,
      last_approved_change := \<lparr>bp_len = 5, bp_path = demo_path\<rparr>\<rparr>"

definition demo_first_change_state :: "bytes p2pk" where
  "demo_first_change_state = demo_change_state\<lparr>last_approved_change := bip32_path_zero\<rparr>"

theorem output_screen_rule_witness:
  "\<not> stx_operation_p2pk_should_show_output_confirm_screen demo_views demo_change_state \<and>
     stx_operation_p2pk_should_show_output_confirm_screen demo_views demo_first_change_state"
proof -
  have s: "p2_state demo_change_state = SIGN_TRANSACTION_OPERATION_P2PK_STATE_OUTPUTS_STARTED"
    "pm_output (p2_mem demo_change_state) = demo_change" "p2_bip32 demo_change_state = \<lparr>bp_len = 5, bp_path = demo_path\<rparr>"
    "last_approved_change demo_change_state = \<lparr>bp_len = 5, bp_path = demo_path\<rparr>"
    by (simp_all add: demo_change_state_def demo_started_def)
  have s1: "p2_state demo_first_change_state = SIGN_TRANSACTION_OPERATION_P2PK_STATE_OUTPUTS_STARTED"
    "pm_output (p2_mem demo_first_change_state) = demo_change" "p2_bip32 demo_first_change_state = \<lparr>bp_len = 5, bp_path = demo_path\<rparr>"
    "last_approved_change demo_first_change_state = bip32_path_zero"
    using s by (simp_all add: demo_first_change_state_def)
  have f: "stx_output_info_is_finished demo_change" "stx_output_info_type demo_change = SIGN_TRANSACTION_OUTPUT_INFO_TYPE_BIP32"
    "out_path demo_views demo_change = demo_other_path" "length (bp_path demo_other_path) = 10" by code_simp+
  have e: "ergo_path BIP32_PATH_VALIDATE_ADDRESS_E5 demo_other_path"
    "ergo_path BIP32_PATH_VALIDATE_ADDRESS_E5 \<lparr>bp_len = 5, bp_path = demo_path\<rparr>"
    "ergo_path BIP32_PATH_VALIDATE_ADDRESS_GE5 (p2_bip32 demo_change_state)"
    "ergo_path BIP32_PATH_VALIDATE_ADDRESS_GE5 (p2_bip32 demo_first_change_state)" by (unfold s s1) code_simp+
  have c: "\<not> counts_as_approved bip32_path_zero" "length (bp_path bip32_path_zero) = 10"
    "bp_path demo_other_path ! 3 \<noteq> demo_path ! 3" by code_simp+
  have "\<not> stx_operation_p2pk_should_show_output_confirm_screen demo_views demo_change_state"
    using output_screen_rule [where V = demo_views, OF disjI1 [OF s(1)] s(2) [symmetric] f(1) e(3)]
      f(2-4) e(1,2) s(4) by (simp only: simp_thms if_True if_False)
  moreover have "stx_operation_p2pk_should_show_output_confirm_screen demo_views demo_first_change_state"
    using output_screen_rule [where V = demo_views, OF disjI1 [OF s1(1)] s1(2) [symmetric] f(1) e(4)]
      f(2-4) e(1) s1(3,4) c by (simp only: simp_thms sign_transaction_bip32_path_t.select_convs)
  ultimately show ?thesis by simp
qed

subsection \<open>An output that is never finished\<close>

lemma mem_update_streams:
  assumes "cx_streams cx ab"
  shows "\<exists>g. mem_update cx m data len = (True, m\<lparr>hash_ctx := g\<rparr>) \<and> ab g = ab (hash_ctx m) @ take (unat len) data"
proof -
  from blake2b_update_streams [OF assms] obtain g where
    "blake2b_update cx (hash_ctx m) data len = (True, g)" "ab g = ab (hash_ctx m) @ take (unat len) data" by blast
  then show ?thesis by (intro exI [of _ g]) (simp add: mem_update_def)
qed

lemma box_init_streams:
  assumes "cx_streams cx ab" and "n \<le> TOKEN_MAX_COUNT" "ts \<le> MAX_TX_DATA_PART_LEN" "rs \<le> MAX_TX_DATA_PART_LEN"
  shows "\<exists>g. ergo_tx_serializer_box_init cx v ts ht n rs m = (ERGO_TX_SERIALIZER_BOX_RES_OK,
     box_ctx_zero\<lparr>box_ergo_tree_size := ts, box_creation_height := ht, box_tokens_count := n, box_registers_size := rs,
       box_value := v, box_type := ERGO_TX_SERIALIZER_BOX_TYPE_TREE, box_state := ERGO_TX_SERIALIZER_BOX_STATE_INITIALIZED\<rparr>,
     m\<lparr>hash_ctx := g\<rparr>) \<and> ab g = ab (hash_ctx m) @ vlq (unat v)"
proof -
  obtain b where b: "gve_put_u64 (rw_buffer_new_local_empty 10) v = (GVE_OK, b)"
    "take (unat (rw_buffer_data_len b)) (rw_buffer_read_ptr b) = vlq (unat v)"
    using local_u64 [of 10 v] by auto
  from mem_update_streams [OF assms(1), of m "rw_buffer_read_ptr b" "rw_buffer_data_len b"] obtain g where
    "mem_update cx m (rw_buffer_read_ptr b) (rw_buffer_data_len b) = (True, m\<lparr>hash_ctx := g\<rparr>)"
    "ab g = ab (hash_ctx m) @ vlq (unat v)" unfolding b(2) by blast
  then show ?thesis
    using assms(2-4) b(1) by (intro exI [of _ g]) (simp add: ergo_tx_serializer_box_init_def Let_def not_less)
qed

lemma box_add_tree_part_streams:
  assumes "cx_streams cx ab" and "buffer_wf b" and "length (buffer_data b) = 255" and "255 < unat (box_ergo_tree_size c)"
    and "box_state c = ERGO_TX_SERIALIZER_BOX_STATE_INITIALIZED"
  shows "\<exists>g b'. ergo_tx_serializer_box_add_tree cx c m b = (ERGO_TX_SERIALIZER_BOX_RES_MORE_DATA,
     c\<lparr>box_ergo_tree_size := box_ergo_tree_size c - 255\<rparr>, m\<lparr>hash_ctx := g\<rparr>, b') \<and>
     ab g = ab (hash_ctx m) @ buffer_data b"
proof -
  have n: "unat (buffer_data_len b) = 255" using assms(2,3) by (simp add: unat_buffer_data_len)
  then have len: "buffer_data_len b = 255" by (simp add: word_unat_eq_iff)
  from mem_update_streams [OF assms(1), of m "buffer_read_ptr b" 255] obtain g where
    g: "mem_update cx m (buffer_read_ptr b) 255 = (True, m\<lparr>hash_ctx := g\<rparr>)" "ab g = ab (hash_ctx m) @ buffer_data b"
    by (auto simp: buffer_data_def len)
  have sk: "buffer_seek_cur b 255 = (True, buffer_skip b 255)" using assms(2,3) by (simp add: buffer_seek_cur_ok)
  have z: "box_ergo_tree_size c - 255 \<noteq> 0" "\<not> box_ergo_tree_size c < 255"
    using assms(4) by (auto simp: word_less_nat_alt)
  show ?thesis
    using g sk z assms(5) by (intro exI [of _ g] exI [of _ "buffer_skip b 255"])
      (simp add: ergo_tx_serializer_box_add_tree_def Let_def len MAX_DATA_CHUNK_LEN_def)
qed

lemma output_info_part_streams:
  fixes V :: "'h out_views"
  assumes "cx_streams cx ab"
  shows "\<exists>out. stx_output_info_add_tree_chunk cx V (stx_output_info_init v) chunk len False = (SW_OK, out) \<and>
     \<not> stx_output_info_is_finished out"
proof -
  define o1 :: "'h output_info" where "o1 = STX_OUTPUT_SET_TYPE (stx_output_info_init v) SIGN_TRANSACTION_OUTPUT_INFO_TYPE_SCRIPT"
  have st: "oi_state o1 = 3" by (simp add: o1_def STX_OUTPUT_SET_TYPE_def stx_output_info_init_def out_types)
  obtain e h0 where i: "cx_blake2b_init_no_throw cx (out_hash V o1) 256 = (e, h0)" by (metis surj_pair)
  then have i: "blake2b_256_init cx (out_hash V o1) = (True, h0)"
    using assms by (simp add: cx_streams_def blake2b_256_init_def) (metis fst_conv)
  from blake2b_update_streams [OF assms] obtain h1 where u: "blake2b_update cx h0 chunk (ucast len) = (True, h1)" by blast
  have z: "STX_OUTPUT_INFO_TYPE (stx_output_info_init v :: 'h output_info) = SIGN_TRANSACTION_OUTPUT_INFO_TYPE_UNKNOWN"
    "\<not> STX_OUTPUT_INFO_IS_TREE_SET (stx_output_info_init v :: 'h output_info)"
    by (simp_all add: STX_OUTPUT_INFO_TYPE_def STX_OUTPUT_INFO_IS_TREE_SET_def stx_output_info_init_def out_types)
  have tc: "tree_chunk_type cx V (stx_output_info_init v) chunk len False = (True, o1\<lparr>oi_union := OutHash h0\<rparr>)"
    unfolding tree_chunk_type_def o1_def [symmetric] using z i by (simp add: Let_def)
  have k: "STX_OUTPUT_INFO_TYPE (o1\<lparr>oi_union := OutHash h0\<rparr>) = SIGN_TRANSACTION_OUTPUT_INFO_TYPE_SCRIPT"
    "\<not> stx_output_info_is_finished (o1\<lparr>oi_union := OutHash h1\<rparr>)" "out_hash V (o1\<lparr>oi_union := OutHash h0\<rparr>) = h0"
    using st by (simp_all add: STX_OUTPUT_INFO_TYPE_def stx_output_info_is_finished_def STX_OUTPUT_INFO_IS_TREE_SET_def
        out_types out_hash_def)
  have "stx_output_info_add_tree_chunk cx V (stx_output_info_init v) chunk len False = (SW_OK, o1\<lparr>oi_union := OutHash h1\<rparr>)"
    using z tc k u by (simp add: stx_output_info_add_tree_chunk_def Let_def maybe_finished_def sw_of_def sw_defs)
  then show ?thesis using st by (simp add: stx_output_info_is_finished_def STX_OUTPUT_INFO_IS_TREE_SET_def)
qed

text \<open>
  C35. An output can be signed without ever being shown. While outputs are being received, a further
  output can always be started, also when the current one is not complete, and the first 255 bytes
  of its script can be sent: both are accepted, the number of outputs still expected does not
  change, no screen is asked for, and the value and the script bytes are in the hash that is going
  to be signed. The state is again one in which outputs are received, so this can be repeated.
\<close>

theorem unfinished_output_is_hashed:
  fixes p :: "'h p2pk"
  assumes "cx_streams cx ab" and "p2_state p = SIGN_TRANSACTION_OPERATION_P2PK_STATE_OUTPUTS_STARTED"
    and "full_state (p2_tx p) = ERGO_TX_SERIALIZER_FULL_STATE_OUTPUTS_STARTED" and "full_outputs_count (p2_tx p) \<noteq> 0"
    and "255 < ts" "ts \<le> MAX_TX_DATA_PART_LEN" "n \<le> TOKEN_MAX_COUNT" "rs \<le> MAX_TX_DATA_PART_LEN"
    and "buffer_wf b" and "length (buffer_data b) = 255"
  shows "\<exists>p1 p2. stx_operation_p2pk_add_output cx V ub p v ts ht n rs = Inr p1 \<and>
     stx_operation_p2pk_add_output_tree_chunk cx V ub p1 b = Inr p2 \<and>
     p2_state p2 = SIGN_TRANSACTION_OPERATION_P2PK_STATE_OUTPUTS_STARTED \<and>
     full_state (p2_tx p2) = ERGO_TX_SERIALIZER_FULL_STATE_OUTPUTS_STARTED \<and>
     full_outputs_count (p2_tx p2) = full_outputs_count (p2_tx p) \<and>
     ab (hash_ctx (p2_mem p2)) = ab (hash_ctx (p2_mem p)) @ vlq (unat v) @ buffer_data b \<and>
     \<not> stx_operation_p2pk_should_show_output_confirm_screen V p1 \<and>
     \<not> stx_operation_p2pk_should_show_output_confirm_screen V p2"
proof -
  let ?O = SIGN_TRANSACTION_OPERATION_P2PK_STATE_OUTPUTS_STARTED
  obtain g where bi: "ergo_tx_serializer_box_init cx v ts ht n rs (p2_mem p) = (ERGO_TX_SERIALIZER_BOX_RES_OK,
     box_ctx_zero\<lparr>box_ergo_tree_size := ts, box_creation_height := ht, box_tokens_count := n, box_registers_size := rs,
       box_value := v, box_type := ERGO_TX_SERIALIZER_BOX_TYPE_TREE, box_state := ERGO_TX_SERIALIZER_BOX_STATE_INITIALIZED\<rparr>,
     (p2_mem p)\<lparr>hash_ctx := g\<rparr>)" "ab g = ab (hash_ctx (p2_mem p)) @ vlq (unat v)"
    using box_init_streams [OF assms(1,7,6,8)] by blast
  define bc where "bc = ergo_tx_serializer_box_set_callbacks (box_ctx_zero\<lparr>box_ergo_tree_size := ts, box_creation_height := ht,
       box_tokens_count := n, box_registers_size := rs, box_value := v, box_type := ERGO_TX_SERIALIZER_BOX_TYPE_TREE,
       box_state := ERGO_TX_SERIALIZER_BOX_STATE_INITIALIZED\<rparr>) (Some p2pk_output_type_cb) (Some p2pk_output_token_cb)
       (Some (p2pk_output_finished_cb cx V))"
  define m1 where "m1 = (p2_mem p)\<lparr>hash_ctx := g, pm_output := stx_output_info_init v\<rparr>"
  define p1 where "p1 = p\<lparr>p2_tx := (p2_tx p)\<lparr>full_box_ctx := Some bc\<rparr>, p2_mem := m1, p2_state := ?O\<rparr>"
  have 1: "stx_operation_p2pk_add_output cx V ub p v ts ht n rs = Inr p1"
    using assms(2-4) bi(1) by (simp add: stx_operation_p2pk_add_output_def check_proper_states_def check_tx_call_def sw_full_ok
        ergo_tx_serializer_full_add_box_def ergo_tx_serializer_full_set_box_callbacks_def Let_def full_box_def bc_def p1_def m1_def)
  have b1: "255 < unat (box_ergo_tree_size bc)" "box_state bc = ERGO_TX_SERIALIZER_BOX_STATE_INITIALIZED"
    using assms(5) by (simp_all add: bc_def ergo_tx_serializer_box_set_callbacks_def word_less_nat_alt)
  from box_add_tree_part_streams [where c = bc and m = m1, OF assms(1,9,10) b1] obtain g2 b' where
    t: "ergo_tx_serializer_box_add_tree cx bc m1 b = (ERGO_TX_SERIALIZER_BOX_RES_MORE_DATA,
     bc\<lparr>box_ergo_tree_size := box_ergo_tree_size bc - 255\<rparr>, m1\<lparr>hash_ctx := g2\<rparr>, b')" "ab g2 = ab (hash_ctx m1) @ buffer_data b"
    by blast
  from output_info_part_streams [OF assms(1), of V v "buffer_read_ptr b" "ucast (buffer_data_len b)"] obtain out where
    out: "stx_output_info_add_tree_chunk cx V (stx_output_info_init v) (buffer_read_ptr b) (ucast (buffer_data_len b)) False = (SW_OK, out)"
      "\<not> stx_output_info_is_finished out" by blast
  define tx2 where "tx2 = (p2_tx p)\<lparr>full_box_ctx := Some (bc\<lparr>box_ergo_tree_size := box_ergo_tree_size bc - 255\<rparr>)\<rparr>"
  define p2 where "p2 = p1\<lparr>p2_tx := tx2, p2_mem := m1\<lparr>hash_ctx := g2, pm_output := out\<rparr>\<rparr>"
  have e: "ergo_tx_serializer_full_add_box_ergo_tree cx ub (p2_tx p1) (p2_mem p1) b =
      (ERGO_TX_SERIALIZER_FULL_RES_MORE_DATA, tx2, m1\<lparr>hash_ctx := g2\<rparr>)"
    using t(1) assms(3) by (simp add: ergo_tx_serializer_full_add_box_ergo_tree_def p1_def full_box_def tx2_def
        check_call_data_is_finished_def)
  have m1: "pm_output m1 = stx_output_info_init v" by (simp add: m1_def)
  have nf: "\<not> ergo_tx_serializer_full_is_finished tx2" using assms(3) by (simp add: tx2_def ergo_tx_serializer_full_is_finished_def)
  have 2: "stx_operation_p2pk_add_output_tree_chunk cx V ub p1 b = Inr p2"
    using e out(1) nf m1 by (simp add: stx_operation_p2pk_add_output_tree_chunk_def check_proper_states_def Let_def
        check_output_call_def check_tx_finished_def p2_def) (simp add: p1_def)
  have "\<not> stx_output_info_is_finished (stx_output_info_init v :: 'h output_info)"
    by (simp add: stx_output_info_is_finished_def STX_OUTPUT_INFO_IS_TREE_SET_def stx_output_info_init_def)
  then have "\<not> stx_operation_p2pk_should_show_output_confirm_screen V p1" "\<not> stx_operation_p2pk_should_show_output_confirm_screen V p2"
    using out(2) by (simp_all add: stx_operation_p2pk_should_show_output_confirm_screen_def Let_def p1_def p2_def m1_def)
  then show ?thesis
    using 1 2 assms(3) bi(2) t(2) by (intro exI [of _ p1] exI [of _ p2]) (simp add: p2_def p1_def tx2_def m1_def)
qed

text \<open>Witness: 255 bytes of a script of 300 bytes are hashed for an output of value 5.\<close>

definition demo_outputs_state :: "bytes p2pk" where
  "demo_outputs_state = demo_change_state
     \<lparr>p2_tx := full_ctx_zero\<lparr>full_state := ERGO_TX_SERIALIZER_FULL_STATE_OUTPUTS_STARTED, full_outputs_count := 1\<rparr>\<rparr>"

theorem unfinished_output_is_hashed_witness:
  "\<exists>p1 p2. stx_operation_p2pk_add_output cx_record demo_views demo_p2pk_union demo_outputs_state 5 300 1 0 0 = Inr p1 \<and>
     stx_operation_p2pk_add_output_tree_chunk cx_record demo_views demo_p2pk_union p1 (buffer_init (replicate 255 7) 255) = Inr p2 \<and>
     hash_ctx (p2_mem p2) = [1, 5] @ replicate 255 7 \<and> full_outputs_count (p2_tx p2) = 1"
proof -
  have s: "p2_state demo_outputs_state = SIGN_TRANSACTION_OPERATION_P2PK_STATE_OUTPUTS_STARTED"
    "full_state (p2_tx demo_outputs_state) = ERGO_TX_SERIALIZER_FULL_STATE_OUTPUTS_STARTED"
    "full_outputs_count (p2_tx demo_outputs_state) = 1" "hash_ctx (p2_mem demo_outputs_state) = [1]"
    by (simp_all add: demo_outputs_state_def demo_change_state_def demo_started_def)
  have n: "255 < (300 :: u32)" "300 \<le> MAX_TX_DATA_PART_LEN" "0 \<le> TOKEN_MAX_COUNT" "0 \<le> MAX_TX_DATA_PART_LEN"
    by (simp_all add: MAX_TX_DATA_PART_LEN_def TOKEN_MAX_COUNT_def)
  have b: "buffer_wf (buffer_init (replicate 255 7) 255)" "length (buffer_data (buffer_init (replicate 255 (7 :: u8)) 255)) = 255"
    by (simp_all add: buffer_wf_init buffer_data_init)
  have v: "vlq (unat (5 :: u64)) = [5]" by code_simp
  have d: "buffer_data (buffer_init (replicate 255 7) 255) = replicate 255 7" by (simp add: buffer_data_init)
  have nz: "full_outputs_count (p2_tx demo_outputs_state) \<noteq> 0" using s by simp
  from unfinished_output_is_hashed [where V = demo_views and ub = demo_p2pk_union and v = 5 and ht = 1,
      OF cx_record_streams s(1,2) nz n b] show ?thesis
    unfolding s(3,4) v d by auto
qed

end
