(* ===== verification/PathFormat.thy ===== *)
theory PathFormat
  imports Bip32Ext
begin

text \<open>
  The text of a path, \<open>bip32_path_format\<close> of \<^verbatim>\<open>src/unit-tests/utils/bip32.c\<close>. The
  buffer of \<open>out_len\<close> characters is given by the text in it, up to the terminating zero; \<open>None\<close> is the
  result false, after which the buffer is all zero.

  \<open>snprintf\<close> truncates, and the function measures what was written with \<open>strlen\<close>, so a number that did
  not fit is only noticed when something has to follow it.
\<close>

fun dec_digit :: "nat \<Rightarrow> char" where
  "dec_digit d = char_of (48 + d)"

fun dec_of_nat :: "nat \<Rightarrow> string" where
  "dec_of_nat n = (if n < 10 then [dec_digit n] else dec_of_nat (n div 10) @ [dec_digit (n mod 10)])"

declare dec_of_nat.simps [simp del]

text \<open>One \<open>snprintf\<close> at the end of the text and the check of its length.\<close>

definition format_put :: "nat \<Rightarrow> string \<Rightarrow> string \<Rightarrow> string option" where
  "format_put out_len tx s =
     (let room = out_len - length tx; w = take (room - 1) s in
      if length w = 0 \<or> length w \<ge> room then None else Some (tx @ w))"

primrec path_format_loop :: "nat \<Rightarrow> u32 list \<Rightarrow> nat \<Rightarrow> nat list \<Rightarrow> string \<Rightarrow> string option" where
  "path_format_loop out_len path path_len [] tx = Some tx"
| "path_format_loop out_len path path_len (i # is) tx =
     Option.bind (format_put out_len tx (dec_of_nat (unat (path ! i AND 0x7FFFFFFF)))) (\<lambda>t1.
     Option.bind (if path ! i AND 0x80000000 \<noteq> 0 then format_put out_len t1 [CHR 0x27] else Some t1) (\<lambda>t2.
     Option.bind (if i \<noteq> path_len - 1 then format_put out_len t2 ''/'' else Some t2)
       (path_format_loop out_len path path_len is)))"

definition bip32_path_format :: "u32 list \<Rightarrow> nat \<Rightarrow> nat \<Rightarrow> string option" where
  "bip32_path_format path path_len out_len =
     (if path_len = 0 \<or> path_len > unat MAX_BIP32_PATH then None
      else path_format_loop out_len path path_len [0..<path_len] '''')"

subsection \<open>Properties\<close>

text \<open>The reference: the pieces of the text of a path, in order.\<close>

definition path_number :: "u32 \<Rightarrow> string list" where
  "path_number w = dec_of_nat (unat (w AND 0x7FFFFFFF)) # (if w AND 0x80000000 \<noteq> 0 then [[CHR 0x27]] else [])"

fun path_pieces :: "u32 list \<Rightarrow> string list" where
  "path_pieces [] = []"
| "path_pieces [w] = path_number w"
| "path_pieces (w # ws) = path_number w @ [''/''] @ path_pieces ws"

definition path_text :: "u32 list \<Rightarrow> string" where
  "path_text ws = concat (path_pieces ws)"

text \<open>Writing pieces one after the other.\<close>

primrec format_puts :: "nat \<Rightarrow> string \<Rightarrow> string list \<Rightarrow> string option" where
  "format_puts L tx [] = Some tx"
| "format_puts L tx (s # ss) = Option.bind (format_put L tx s) (\<lambda>t. format_puts L t ss)"

lemma format_puts_append: "format_puts L tx (ss @ ss') = Option.bind (format_puts L tx ss) (\<lambda>t. format_puts L t ss')"
  by (induction ss arbitrary: tx) (simp_all add: bind_assoc)

lemma dec_of_nat_not_Nil [simp]: "dec_of_nat n \<noteq> []"
  by (subst dec_of_nat.simps) simp

lemma format_put_eq:
  assumes "s \<noteq> []" and "length tx < L"
  shows "format_put L tx s = (if length tx < L - 1 then Some (take (L - 1) (tx @ s)) else None)"
  using assms by (auto simp: format_put_def Let_def)

lemma format_puts_eq:
  assumes "ss \<noteq> []" and "\<forall>s \<in> set ss. s \<noteq> []" and "length tx < L"
  shows "format_puts L tx ss =
     (if length (tx @ concat (butlast ss)) < L - 1 then Some (take (L - 1) (tx @ concat ss)) else None)"
  using assms
proof (induction ss arbitrary: tx)
  case (Cons s ss)
  show ?case
  proof (cases "ss = []")
    case True
    then show ?thesis using Cons.prems by (simp add: format_put_eq)
  next
    case False
    let ?t = "take (L - 1) (tx @ s)"
    have l: "length ?t < L" using Cons.prems(3) by simp
    have IH: "format_puts L ?t ss =
        (if length (?t @ concat (butlast ss)) < L - 1 then Some (take (L - 1) (?t @ concat ss)) else None)"
      using Cons.IH [OF False _ l] Cons.prems(2) by simp
    show ?thesis
    proof (cases "length (tx @ s) < L - 1")
      case True
      then show ?thesis using IH False Cons.prems by (simp add: format_put_eq)
    next
      case long: False
      then show ?thesis using IH False Cons.prems by (auto simp: format_put_eq min_def)
    qed
  qed
qed simp

lemma path_format_loop_eq:
  assumes "n \<le> length path" and "i < n"
  shows "path_format_loop L path n [i..<n] tx = format_puts L tx (path_pieces (drop i (take (n) path)))"
  using assms(2)
proof (induction "n - i" arbitrary: i tx)
  case 0
  then show ?case by simp
next
  case (Suc d)
  have up: "[i..<n] = i # [Suc i..<n]" using Suc.prems by (simp add: upt_rec)
  have dr: "drop i (take (n) path) = path ! i # drop (Suc i) (take (n) path)"
    using Suc.prems assms(1) by (simp add: Cons_nth_drop_Suc [symmetric])
  show ?case
  proof (cases "Suc i = n")
    case True
    then have e: "drop (Suc i) (take (n) path) = []" "[Suc i..<n] = []" "i = n - 1" by auto
    show ?thesis unfolding up dr e(1,2)
      using e(3) by (auto simp: path_number_def bind_assoc intro: Option.bind_cong)
  next
    case False
    then have lt: "Suc i < n" using Suc.prems by simp
    then obtain w ws where ws: "drop (Suc i) (take (n) path) = w # ws"
      using assms(1) by (cases "drop (Suc i) (take (n) path)") auto
    have IH: "path_format_loop L path n [Suc i..<n] t = format_puts L t (path_pieces (w # ws))" for t
      using Suc.hyps(1) [of "Suc i"] Suc.hyps(2) lt ws by simp
    show ?thesis unfolding up dr ws
      using lt by (auto simp: path_number_def bind_assoc IH format_puts_append intro!: Option.bind_cong)
  qed
qed

lemma path_pieces_not_Nil: "\<forall>s \<in> set (path_pieces ws). s \<noteq> []"
  by (induction ws rule: path_pieces.induct) (auto simp: path_number_def)

lemma path_pieces_eq_Nil [simp]: "path_pieces ws = [] \<longleftrightarrow> ws = []"
  by (cases ws rule: path_pieces.cases) (auto simp: path_number_def)

text \<open>
  C40. The text of a path of one to ten numbers in a buffer of \<open>L\<close> characters is the decimal numbers of
  its components, each hardened one followed by an apostrophe, separated by slashes, cut at \<open>L - 1\<close>
  characters; the call fails exactly when the text without its last piece (the last number, or the
  apostrophe after it) already fills the buffer. So every piece but the last is known to be complete, and the last
  number of a path whose last component is not hardened may be cut without an error.
\<close>

theorem bip32_path_format_correct:
  assumes "n \<le> length path" and "0 < L"
  shows "bip32_path_format path n L =
    (if n = 0 \<or> n > 10 then None
     else let ps = path_pieces (take n path) in
       if length (concat (butlast ps)) < L - 1 then Some (take (L - 1) (concat ps)) else None)"
proof (cases "n = 0 \<or> n > 10")
  case True
  then show ?thesis by (auto simp: bip32_path_format_def MAX_BIP32_PATH_def)
next
  case False
  then have "bip32_path_format path n L = format_puts L [] (path_pieces (take n path))"
    using path_format_loop_eq [OF assms(1), of 0 L] by (simp add: bip32_path_format_def MAX_BIP32_PATH_def)
  also have "\<dots> = (if length (concat (butlast (path_pieces (take n path)))) < L - 1
      then Some (take (L - 1) (concat (path_pieces (take n path)))) else None)"
    using format_puts_eq [of "path_pieces (take n path)" "[]" L] False assms path_pieces_not_Nil
    by (cases "path = []") auto
  finally show ?thesis using False by (simp add: Let_def)
qed

text \<open>In a buffer of 11 characters the path of components 44, 429 (hardened) and 15 loses its last digit without an error.\<close>

theorem bip32_path_format_witness:
  "bip32_path_format [0x8000002C, 0x800001AD, 15] 3 11
     = Some (''44'' @ [CHR 0x27] @ ''/429'' @ [CHR 0x27] @ ''/1'')"
  using bip32_path_format_correct [of 3 "[0x8000002C, 0x800001AD, 15]" 11]
  by (simp add: path_number_def dec_of_nat.simps char_of_def bit_Suc_0_iff)

end
