(* ===== verification/Base58.thy ===== *)
theory Base58
  imports Prelude
begin

text \<open>
  Base-58 texts, \<^verbatim>\<open>src/unit-tests/utils/base58.c\<close> (the copy of the SDK's coder that
  the screens use for addresses).

  A call returns \<open>None\<close> for -1, otherwise \<open>Some\<close> the characters or bytes that it stores at \<open>out\<close>, whose number
  is its result. The indices of the coder are \<open>size_t\<close>, because its inner loop ends by the wrap-around
  below zero; the indices of the decoder are at most 164 and never wrap.
\<close>

definition MAX_DEC_INPUT_SIZE :: nat where "MAX_DEC_INPUT_SIZE = 164"
definition MAX_ENC_INPUT_SIZE :: nat where "MAX_ENC_INPUT_SIZE = 120"

definition BASE58_TABLE :: bytes where
  "BASE58_TABLE = [
     0xFF, 0xFF, 0xFF, 0xFF, 0xFF, 0xFF, 0xFF, 0xFF, 0xFF, 0xFF, 0xFF, 0xFF,
     0xFF, 0xFF, 0xFF, 0xFF, 0xFF, 0xFF, 0xFF, 0xFF, 0xFF, 0xFF, 0xFF, 0xFF,
     0xFF, 0xFF, 0xFF, 0xFF, 0xFF, 0xFF, 0xFF, 0xFF, 0xFF, 0xFF, 0xFF, 0xFF,
     0xFF, 0xFF, 0xFF, 0xFF, 0xFF, 0xFF, 0xFF, 0xFF, 0xFF, 0xFF, 0xFF, 0xFF,
     0xFF, 0x00, 0x01, 0x02, 0x03, 0x04, 0x05, 0x06, 0x07, 0x08, 0xFF, 0xFF,
     0xFF, 0xFF, 0xFF, 0xFF, 0xFF, 0x09, 0x0A, 0x0B, 0x0C, 0x0D, 0x0E, 0x0F,
     0x10, 0xFF, 0x11, 0x12, 0x13, 0x14, 0x15, 0xFF, 0x16, 0x17, 0x18, 0x19,
     0x1A, 0x1B, 0x1C, 0x1D, 0x1E, 0x1F, 0x20, 0xFF, 0xFF, 0xFF, 0xFF, 0xFF,
     0xFF, 0x21, 0x22, 0x23, 0x24, 0x25, 0x26, 0x27, 0x28, 0x29, 0x2A, 0x2B,
     0xFF, 0x2C, 0x2D, 0x2E, 0x2F, 0x30, 0x31, 0x32, 0x33, 0x34, 0x35, 0x36,
     0x37, 0x38, 0x39, 0xFF, 0xFF, 0xFF, 0xFF, 0xFF]"

definition BASE58_ALPHABET :: string where
  "BASE58_ALPHABET = ''123456789ABCDEFGHJKLMNPQRSTUVWXYZabcdefghijkmnopqrstuvwxyz''"

subsection \<open>Encoding\<close>

text \<open>The inner loop: the position where it stopped and the buffer.\<close>

function enc_loop :: "size_t \<Rightarrow> size_t \<Rightarrow> nat \<Rightarrow> bytes \<Rightarrow> size_t \<times> bytes" where
  "enc_loop stop_at j carry buffer =
     (if sint j \<ge> 0 then
        let carry1 = carry + 256 * unat (buffer ! unat j);
            buffer1 = buffer[unat j := of_nat (carry1 mod 58)];
            carry2 = carry1 div 58
        in if j \<le> stop_at - 1 \<and> carry2 = 0 then (j, buffer1) else enc_loop stop_at (j - 1) carry2 buffer1
      else (j, buffer))"
  by pat_completeness auto
termination
proof (relation "measure (\<lambda>(stop_at, j, carry, buffer). if sint j \<ge> 0 then unat j + 1 else 0)")
  fix stop_at j :: size_t and carry :: nat and buffer :: bytes and carry1 buffer1 carry2
  assume j: "0 \<le> sint j"
  have "unat (j - 1) = unat j - 1" if "j \<noteq> 0" using that by (metis unat_minus_one)
  moreover have "unat j \<noteq> 0" if "j \<noteq> 0" using that by (simp add: unat_eq_zero)
  ultimately show "((stop_at, j - 1, carry2, buffer1), stop_at, j, carry, buffer)
      \<in> measure (\<lambda>(stop_at, j, carry, buffer). if sint j \<ge> 0 then unat j + 1 else 0)"
    using j by (cases "j = 0") auto
qed simp

declare enc_loop.simps [simp del]

primrec enc_bytes :: "size_t \<Rightarrow> bytes \<Rightarrow> size_t \<Rightarrow> bytes \<Rightarrow> bytes" where
  "enc_bytes output_size [] stop_at buffer = buffer"
| "enc_bytes output_size (b # bs) stop_at buffer =
     (case enc_loop stop_at (output_size - 1) (unat b) buffer of (j, buffer') \<Rightarrow> enc_bytes output_size bs j buffer')"

definition base58_encode :: "bytes \<Rightarrow> nat \<Rightarrow> string option" where
  "base58_encode inp out_len =
     (if length inp > MAX_ENC_INPUT_SIZE then None
      else let zero_count = length (takeWhile (\<lambda>b. b = 0) inp);
               output_size = (length inp - zero_count) * 138 div 100 + 1;
               buffer = enc_bytes (of_nat output_size) (drop zero_count inp) (of_nat output_size - 1) (replicate output_size 0);
               j = length (takeWhile (\<lambda>b. b = 0) buffer)
           in if out_len < zero_count + output_size - j then None
              else Some (replicate zero_count (BASE58_ALPHABET ! 0) @ map (\<lambda>d. BASE58_ALPHABET ! unat d) (drop j buffer)))"

subsection \<open>Decoding\<close>

text \<open>One division of the digits by 256: the quotient digits and the remainder.\<close>

fun div_loop :: "u16 \<Rightarrow> bytes \<Rightarrow> bytes \<times> u16" where
  "div_loop remainder [] = ([], remainder)"
| "div_loop remainder (d # ds) =
     (let tmp_div = remainder * 58 + (ucast d AND 0xFF) in
      case div_loop (tmp_div mod 256) ds of (qs, r) \<Rightarrow> (ucast (tmp_div div 256) # qs, r))"

lemma length_div_loop [simp]: "length (fst (div_loop r ds)) = length ds"
  by (induction r ds rule: div_loop.induct) (auto simp: Let_def split: prod.splits)

lemma ucast_and_0xFF: "(ucast (d :: u8) :: u16) AND 0xFF = ucast d"
proof -
  have "(0xFF :: u16) = mask 8" by (simp add: mask_eq_exp_minus_1)
  then have "(ucast d :: u16) AND 0xFF = take_bit 8 (ucast d)" by (simp add: take_bit_eq_mask)
  also have "\<dots> = ucast d" by (rule bit_word_eqI) (auto simp: bit_simps dest: bit_imp_le_length)
  finally show ?thesis .
qed

lemma div_loop_Cons:
  "fst (div_loop r (d # ds)) ! 0 = ucast ((r * 58 + ucast d) div 256)"
  by (simp add: Let_def ucast_and_0xFF split: prod.splits)

lemma div_loop_head: "fst (div_loop 0 (d # ds)) ! 0 = 0"
proof -
  have "(0 * 58 + ucast d :: u16) div 256 = 0"
    using unat_u8_less [of d] by (simp add: word_arith_nat_div unat_ucast_up)
  then show ?thesis unfolding div_loop_Cons by simp
qed


function dec_loop :: "nat \<Rightarrow> bytes \<Rightarrow> nat \<Rightarrow> bytes \<Rightarrow> nat \<times> bytes" where
  "dec_loop start_at tmp j buffer =
     (if start_at < length tmp then
        (case div_loop 0 (drop start_at tmp) of (qs, remainder) \<Rightarrow>
           let tmp1 = take start_at tmp @ qs;
               start1 = (if tmp1 ! start_at = 0 then start_at + 1 else start_at)
           in dec_loop start1 tmp1 (j - 1) (buffer[j - 1 := ucast remainder]))
      else (j, buffer))"
  by pat_completeness auto
termination
proof (relation "measure (\<lambda>(start_at, tmp, j, buffer). length tmp - start_at)")
  fix start_at j :: nat and tmp buffer qs :: bytes and remainder :: u16 and tmp1 start1
  assume s: "start_at < length tmp" "(qs, remainder) = div_loop 0 (drop start_at tmp)"
    "tmp1 = take start_at tmp @ qs" "start1 = (if tmp1 ! start_at = 0 then start_at + 1 else start_at)"
  have q: "qs = fst (div_loop 0 (drop start_at tmp))" using s(2) by (metis fst_conv)
  have "tmp1 ! start_at = qs ! 0" using s(1,3) by (simp add: nth_append)
  also have "\<dots> = 0" unfolding q Cons_nth_drop_Suc [OF s(1), symmetric] by (rule div_loop_head)
  finally have "start1 = start_at + 1" using s(4) by simp
  moreover have "length tmp1 = length tmp" using s(1,3) q by simp
  ultimately show "((start1, tmp1, j - 1, buffer[j - 1 := ucast remainder]), start_at, tmp, j, buffer)
      \<in> measure (\<lambda>(start_at, tmp, j, buffer). length tmp - start_at)" using s(1) by simp
qed simp

declare dec_loop.simps [simp del]

definition base58_decode :: "string \<Rightarrow> nat \<Rightarrow> bytes option" where
  "base58_decode inp out_len =
     (let in_len = length inp in
      if in_len > MAX_DEC_INPUT_SIZE \<or> in_len < 2 then None
      else if \<exists>c \<in> set inp. of_char c \<ge> length BASE58_TABLE \<or> BASE58_TABLE ! of_char c = 0xFF then None
      else let tmp = map (\<lambda>c. BASE58_TABLE ! of_char c) inp;
               zero_count = length (takeWhile (\<lambda>b. b = 0) tmp) in
           case dec_loop zero_count tmp in_len (replicate MAX_DEC_INPUT_SIZE 0) of (j, buffer) \<Rightarrow>
             let j2 = j + length (takeWhile (\<lambda>b. b = 0) (drop j (take in_len buffer)));
                 len = in_len - (j2 - zero_count)
             in if out_len < len then None else Some (take len (drop (j2 - zero_count) buffer)))"

subsection \<open>Numbers and digits\<close>

text \<open>The value of digits in a base, most significant first, and the digits of a number.\<close>

definition digits_val :: "nat \<Rightarrow> nat list \<Rightarrow> nat" where
  "digits_val base ds = foldl (\<lambda>a d. base * a + d) 0 ds"

fun digits_of :: "nat \<Rightarrow> nat \<Rightarrow> nat list" where
  "digits_of base v = (if v = 0 \<or> base < 2 then [] else digits_of base (v div base) @ [v mod base])"

declare digits_of.simps [simp del]

lemma digits_val_simps [simp]:
  "digits_val B [] = 0" "digits_val B (ds @ [d]) = B * digits_val B ds + d"
  by (simp_all add: digits_val_def)

lemma digits_val_zeros [simp]: "digits_val B (replicate n 0 @ ds) = digits_val B ds"
  by (induction ds rule: rev_induct)
     (simp_all add: append_assoc [symmetric] del: append_assoc, induction n, simp_all add: digits_val_def)

lemma digits_val_less:
  assumes "\<forall>d \<in> set ds. d < B"
  shows "digits_val B ds < B ^ length ds"
  using assms
proof (induction ds rule: rev_induct)
  case (snoc d ds)
  then have "digits_val B ds + 1 \<le> B ^ length ds" "d < B" by auto
  then have "B * (digits_val B ds + 1) \<le> B * B ^ length ds" by (intro mult_left_mono) auto
  then show ?case using \<open>d < B\<close> by simp
qed simp

text \<open>Digits without leading zeros are the digits of their value.\<close>

lemma digits_val_append: "digits_val B (ds @ es) = digits_val B ds * B ^ length es + digits_val B es"
  by (induction es rule: rev_induct) (simp_all add: append_assoc [symmetric] algebra_simps del: append_assoc)

lemma digits_of_eq_Nil: "2 \<le> B \<Longrightarrow> digits_of B v = [] \<longleftrightarrow> v = 0"
  by (subst digits_of.simps) simp

lemma digits_of_val:
  assumes "\<forall>d \<in> set ds. d < B" "2 \<le> B"
  shows "digits_of B (digits_val B ds) = dropWhile (\<lambda>d. d = 0) ds"
  using assms(1)
proof (induction ds rule: rev_induct)
  case Nil
  then show ?case by (simp add: digits_of.simps)
next
  case (snoc d ds)
  have IH: "digits_of B (digits_val B ds) = dropWhile (\<lambda>d. d = 0) ds" and d: "d < B" using snoc by auto
  show ?case
  proof (cases "digits_val B (ds @ [d]) = 0")
    case True
    then have z: "d = 0" "digits_val B ds = 0" using assms(2) by auto
    then have "dropWhile (\<lambda>d. d = 0) ds = []" using IH by (simp add: digits_of.simps)
    then show ?thesis using z True by (simp add: digits_of.simps dropWhile_append)
  next
    case False
    have m: "(B * digits_val B ds + d) div B = digits_val B ds" "(B * digits_val B ds + d) mod B = d" using d by simp_all
    then have e: "digits_of B (digits_val B (ds @ [d])) = dropWhile (\<lambda>d. d = 0) ds @ [d]"
      using False assms(2) IH by (subst digits_of.simps) simp
    show ?thesis
    proof (cases "dropWhile (\<lambda>d. d = 0) ds = []")
      case True
      then have "digits_val B ds = 0" using IH digits_of_eq_Nil [OF assms(2), of "digits_val B ds"] by simp
      then have "d \<noteq> 0" using False by simp
      then show ?thesis using e True by (simp add: dropWhile_append)
    next
      case False
      then show ?thesis using e by (auto simp: dropWhile_append)
    qed
  qed
qed

subsection \<open>Encoding is base conversion\<close>

definition bytes_val :: "nat \<Rightarrow> bytes \<Rightarrow> nat" where
  "bytes_val base bs = digits_val base (map unat bs)"

lemma bytes_val_snoc [simp]: "bytes_val B [] = 0" "bytes_val B (bs @ [b]) = B * bytes_val B bs + unat b"
  by (simp_all add: bytes_val_def)

lemma bytes_val_zero: "\<forall>b \<in> set bs. b = 0 \<Longrightarrow> bytes_val B bs = 0"
  by (induction bs rule: rev_induct) simp_all

lemma index_word:
  assumes "j < 2 ^ 31"
  shows "unat (of_nat j :: size_t) = j" "sint (of_nat j :: size_t) = int j"
proof -
  show u: "unat (of_nat j :: size_t) = j" using assms by (intro unat_of_nat_small) simp
  have "uint (of_nat j :: size_t) = int j" using u by (metis uint_nat)
  then show "sint (of_nat j :: size_t) = int j"
    using assms by (simp add: sint_uint signed_take_bit_int_eq_self)
qed

text \<open>
  One byte added by the inner loop. \<open>stop\<close> bounds the zero digits in front, \<open>p\<close> is a position that the loop
  does not pass, because the digits from \<open>p\<close> on can hold the new value.
\<close>

lemma enc_loop_spec:
  assumes "length buf < 2 ^ 31" "j < length buf" "p \<le> j" "p < stop" "stop < length buf"
    and "\<forall>k < stop. k \<le> j \<longrightarrow> buf ! k = 0" "\<forall>d \<in> set buf. unat d < 58"
    and "256 * bytes_val 58 (take (j + 1) buf) + c < 58 ^ (j + 1 - p)"
  shows "\<exists>jf buf'. enc_loop (of_nat stop) (of_nat j) c buf = (of_nat jf, buf') \<and> p \<le> jf \<and> jf < stop \<and>
     length buf' = length buf \<and> drop (j + 1) buf' = drop (j + 1) buf \<and>
     bytes_val 58 (take (j + 1) buf') = 256 * bytes_val 58 (take (j + 1) buf) + c \<and>
     (\<forall>k < jf. buf' ! k = 0) \<and> (\<forall>d \<in> set buf'. unat d < 58)"
  using assms
proof (induction j arbitrary: c buf rule: less_induct)
  case (less j)
  let ?V = "bytes_val 58 (take j buf)"
  let ?s = "c + 256 * unat (buf ! j)"
  let ?b = "buf[j := of_nat (?s mod 58)]"
  have tk: "take (j + 1) buf = take j buf @ [buf ! j]" using less.prems(2) by (simp add: take_Suc_conv_app_nth)
  have tb: "take (j + 1) ?b = take j buf @ [of_nat (?s mod 58)]"
    using less.prems(2) by (simp add: take_Suc_conv_app_nth)
  have r: "unat (of_nat (?s mod 58) :: u8) = ?s mod 58" by (rule unat_of_nat_small) simp
  have split: "256 * bytes_val 58 (take (j + 1) buf) + c = 58 * (256 * ?V + ?s div 58) + ?s mod 58"
    unfolding tk bytes_val_snoc by (simp add: algebra_simps)
  have small: "j < 2 ^ 31" "stop < 2 ^ 31" using less.prems(1,2,5) by simp_all
  note ij = index_word [OF small(1)] and ist = index_word [OF small(2)]
  have st1: "(of_nat j \<le> (of_nat stop - 1 :: size_t)) = (j < stop)"
  proof -
    have "(of_nat stop - 1 :: size_t) = of_nat (stop - 1)" using less.prems(4) by (simp add: of_nat_diff)
    then show ?thesis using ij(1) ist(1) less.prems(4) small index_word [of "stop - 1"] by (auto simp: word_le_nat_alt)
  qed
  have eq: "enc_loop (of_nat stop) (of_nat j) c buf =
      (if j < stop \<and> ?s div 58 = 0 then (of_nat j, ?b) else enc_loop (of_nat stop) (of_nat j - 1) (?s div 58) ?b)"
    by (subst enc_loop.simps) (simp add: ij st1 Let_def)
  have dg: "\<forall>d \<in> set ?b. unat d < 58"
    using less.prems(7) r set_update_subset_insert [of buf j "of_nat (?s mod 58)"] by auto
  show ?case
  proof (cases "j < stop \<and> ?s div 58 = 0")
    case True
    have "\<forall>b \<in> set (take j buf). b = 0" using less.prems(2,6) True by (auto simp: in_set_conv_nth)
    then have "?V = 0" by (rule bytes_val_zero)
    then have "bytes_val 58 (take (j + 1) ?b) = 256 * bytes_val 58 (take (j + 1) buf) + c"
      using split True by (simp only: tb bytes_val_snoc r) simp
    moreover have "\<forall>k < j. ?b ! k = 0" using less.prems(6) True by simp
    ultimately show ?thesis using eq True less.prems(3) dg by (intro exI [of _ j] exI [of _ ?b]) simp
  next
    case False
    have "p \<noteq> j"
    proof
      assume "p = j"
      then have "j < stop" "58 * (256 * ?V + ?s div 58) < 58" using less.prems(4,8) split by simp_all
      then show False using False by simp
    qed
    then have pj: "p < j" using less.prems(3) by simp
    have j1: "(of_nat j - 1 :: size_t) = of_nat (j - 1)" using pj by (simp add: of_nat_diff)
    have tk1: "take (j - 1 + 1) ?b = take j buf" using pj by simp
    have "58 * (256 * ?V + ?s div 58) < 58 * 58 ^ (j - p)"
      using less.prems(8) pj split by (simp add: Suc_diff_le flip: power_Suc)
    then have lt: "256 * bytes_val 58 (take (j - 1 + 1) ?b) + ?s div 58 < 58 ^ (j - 1 + 1 - p)"
      unfolding tk1 using pj by simp
    have ex: "\<exists>jf buf'. enc_loop (of_nat stop) (of_nat (j - 1)) (?s div 58) ?b = (of_nat jf, buf') \<and> p \<le> jf \<and> jf < stop \<and>
       length buf' = length ?b \<and> drop (j - 1 + 1) buf' = drop (j - 1 + 1) ?b \<and>
       bytes_val 58 (take (j - 1 + 1) buf') = 256 * bytes_val 58 (take (j - 1 + 1) ?b) + ?s div 58 \<and>
       (\<forall>k < jf. buf' ! k = 0) \<and> (\<forall>d \<in> set buf'. unat d < 58)"
      by (rule less.IH) (use less.prems pj dg lt in auto)
    then obtain jf b' where b': "enc_loop (of_nat stop) (of_nat (j - 1)) (?s div 58) ?b = (of_nat jf, b')"
      "p \<le> jf" "jf < stop" "length b' = length buf" "drop j b' = drop j ?b"
      "bytes_val 58 (take j b') = 256 * ?V + ?s div 58" "\<forall>k < jf. b' ! k = 0" "\<forall>d \<in> set b'. unat d < 58"
      using pj by auto
    have "b' ! j = ?b ! j" using b'(4,5) less.prems(2) by (metis hd_drop_conv_nth length_list_update)
    then have "take (j + 1) b' = take j b' @ [of_nat (?s mod 58)]"
      using b'(4) less.prems(2) by (simp add: take_Suc_conv_app_nth)
    then have v: "bytes_val 58 (take (j + 1) b') = 256 * bytes_val 58 (take (j + 1) buf) + c"
      using b'(6) split by (simp only: bytes_val_snoc r)
    have "drop (j + 1) b' = drop (j + 1) buf"
      using arg_cong [OF b'(5), of "drop 1"] by simp
    then show ?thesis using b' v eq False by (intro exI [of _ jf] exI [of _ b']) (simp add: j1)
  qed
qed

text \<open>138 digits in base 58 hold a hundred bytes, so the buffer is large enough for any number of bytes.\<close>

lemma enough_digits: "(256::nat) ^ m < 58 ^ (138 * m div 100 + 1)"
proof (rule ccontr)
  define q where "q = 138 * m div 100"
  let ?q = "q + 1"
  assume "\<not> ?thesis"
  then have "(58::nat) ^ ?q \<le> 256 ^ m" by (simp only: not_less q_def)
  then have "((58::nat) ^ ?q) ^ 100 \<le> (256 ^ m) ^ 100" by (rule power_mono) (rule zero_le)
  then have 1: "(58::nat) ^ (?q * 100) \<le> 256 ^ (m * 100)" by (simp only: power_mult)
  have "(256::nat) ^ 100 \<le> 58 ^ 138" by simp
  then have "((256::nat) ^ 100) ^ m \<le> (58 ^ 138) ^ m" by (rule power_mono) (rule zero_le)
  then have 2: "(256::nat) ^ (100 * m) \<le> 58 ^ (138 * m)" by (simp only: power_mult)
  have "(58::nat) ^ (?q * 100) \<le> 58 ^ (138 * m)" using 1 2 unfolding mult.commute [of m 100] by (rule order_trans)
  then have "?q * 100 \<le> 138 * m" by (rule power_le_imp_le_exp [rotated]) simp
  moreover have "138 * m < 100 + q * 100" unfolding q_def by (rule dividend_less_div_times) simp
  ultimately show False by simp
qed

lemma enc_bytes_spec:
  assumes "length buf = 138 * N div 100 + 1" "N \<le> 120" "m + length bs = N" "sp < length buf"
    and "length buf - 1 \<le> sp + 138 * m div 100" "\<forall>k < sp. buf ! k = 0" "\<forall>d \<in> set buf. unat d < 58"
    and "bytes_val 58 buf < 256 ^ m"
  shows "length (enc_bytes (of_nat (length buf)) bs (of_nat sp) buf) = length buf \<and>
     (\<forall>d \<in> set (enc_bytes (of_nat (length buf)) bs (of_nat sp) buf). unat d < 58) \<and>
     bytes_val 58 (enc_bytes (of_nat (length buf)) bs (of_nat sp) buf) = bytes_val 58 buf * 256 ^ length bs + bytes_val 256 bs"
  using assms
proof (induction bs arbitrary: m sp buf)
  case (Cons b bs)
  let ?n = "length buf" and ?q = "138 * (m + 1) div 100"
  have N: "m + 1 \<le> N" "?n = 138 * N div 100 + 1" using Cons.prems(1,3) by simp_all
  have q: "138 * m div 100 < ?q" "?q \<le> ?n - 1" using N by (auto intro!: div_le_mono)
  have b: "unat b < 256" by (rule unat_u8_less)
  have small: "256 * bytes_val 58 buf + unat b < 256 ^ (m + 1)"
  proof -
    have "256 * (bytes_val 58 buf + 1) \<le> 256 * 256 ^ m" using Cons.prems(8) by (intro mult_left_mono) simp_all
    then show ?thesis using b by simp
  qed
  have last: "of_nat ?n - 1 = (of_nat (?n - 1) :: size_t)" using N by simp
  have all: "take (?n - 1 + 1) buf = buf" using N by simp
  have "\<exists>jf buf'. enc_loop (of_nat sp) (of_nat (?n - 1)) (unat b) buf = (of_nat jf, buf') \<and> ?n - 1 - ?q \<le> jf \<and> jf < sp \<and>
     length buf' = ?n \<and> drop (?n - 1 + 1) buf' = drop (?n - 1 + 1) buf \<and>
     bytes_val 58 (take (?n - 1 + 1) buf') = 256 * bytes_val 58 (take (?n - 1 + 1) buf) + unat b \<and>
     (\<forall>k < jf. buf' ! k = 0) \<and> (\<forall>d \<in> set buf'. unat d < 58)"
  proof (rule enc_loop_spec)
    show "?n < 2 ^ 31" using Cons.prems(2) N by simp
    show "?n - 1 - ?q < sp" using Cons.prems(5) q by linarith
    have "256 * bytes_val 58 buf + unat b < 58 ^ (?q + 1)" using small enough_digits [of "m + 1"] by linarith
    moreover have "?n - 1 + 1 - (?n - 1 - ?q) = ?q + 1" using q N by simp
    ultimately show "256 * bytes_val 58 (take (?n - 1 + 1) buf) + unat b < 58 ^ (?n - 1 + 1 - (?n - 1 - ?q))"
      unfolding all by simp
  qed (use Cons.prems N in auto)
  then obtain jf buf' where l: "enc_loop (of_nat sp) (of_nat (?n - 1)) (unat b) buf = (of_nat jf, buf')"
    "?n - 1 - ?q \<le> jf" "jf < sp" "length buf' = ?n" "bytes_val 58 (take (?n - 1 + 1) buf') = 256 * bytes_val 58 buf + unat b"
    "\<forall>k < jf. buf' ! k = 0" "\<forall>d \<in> set buf'. unat d < 58" unfolding all by blast
  have v: "bytes_val 58 buf' = 256 * bytes_val 58 buf + unat b" using l(4,5) N by simp
  have e: "enc_bytes (of_nat ?n) (b # bs) (of_nat sp) buf = enc_bytes (of_nat (length buf')) bs (of_nat jf) buf'"
    using l(1,4) last by simp
  note IH = Cons.IH [of buf' "m + 1" jf]
  have "bytes_val 256 (b # bs) = unat b * 256 ^ length bs + bytes_val 256 bs"
    using digits_val_append [of 256 "[unat b]" "map unat bs"] by (simp add: bytes_val_def digits_val_def)
  moreover have "?n - 1 \<le> jf + 138 * (m + 1) div 100" using l(2) q(2) by linarith
  ultimately show ?case unfolding e using IH l(3,4,6,7) v small Cons.prems(1-4) by (simp add: algebra_simps)
qed simp

text \<open>The text of some bytes: one \<open>1\<close> for every zero in front, then the digits of their value.\<close>

definition b58_text :: "bytes \<Rightarrow> string" where
  "b58_text bs = replicate (length (takeWhile (\<lambda>b. b = 0) bs)) (BASE58_ALPHABET ! 0) @
     map (\<lambda>d. BASE58_ALPHABET ! d) (digits_of 58 (bytes_val 256 bs))"

lemma bytes_val_drop_zeros: "bytes_val B (dropWhile (\<lambda>b. b = 0) bs) = bytes_val B bs"
proof (induction bs)
  case (Cons b bs)
  show ?case
  proof (cases "b = 0")
    case True
    then show ?thesis using Cons digits_val_zeros [of B 1 "map unat bs"] by (simp add: bytes_val_def)
  qed simp
qed simp

lemma map_unat_drop_zeros: "map unat (dropWhile (\<lambda>b. b = 0) bs) = dropWhile (\<lambda>d. d = 0) (map unat bs)"
  by (induction bs) (simp_all add: unat_eq_zero)

lemma base58_encode_eq:
  "base58_encode inp out_len =
     (if length inp > 120 \<or> out_len < length (b58_text inp) then None else Some (b58_text inp))"
proof (cases "length inp > 120")
  case True
  then show ?thesis by (simp add: base58_encode_def MAX_ENC_INPUT_SIZE_def)
next
  case False
  define zc where "zc = length (takeWhile (\<lambda>b. b = 0) inp)"
  define N where "N = length inp - zc"
  define n where "n = N * 138 div 100 + 1"
  define buf where "buf = enc_bytes (of_nat n) (drop zc inp) (of_nat n - 1) (replicate n 0)"
  have dr: "drop zc inp = dropWhile (\<lambda>b. b = 0) inp" by (simp add: zc_def dropWhile_eq_drop)
  have len: "length (drop zc inp) = N" "N \<le> 120" using False by (simp_all add: N_def)
  have z: "bytes_val 58 (replicate n 0) = 0" by (rule bytes_val_zero) simp
  have n: "length (replicate n (0::u8)) = 138 * N div 100 + 1" "0 < n" by (simp_all add: n_def mult.commute)
  have "(of_nat n - 1 :: size_t) = of_nat (n - 1)" using n(2) by simp
  then have b: "buf = enc_bytes (of_nat (length (replicate n (0::u8)))) (drop zc inp) (of_nat (n - 1)) (replicate n 0)"
    unfolding buf_def by (simp only: length_replicate)
  have "length buf = length (replicate n (0::u8)) \<and> (\<forall>d \<in> set buf. unat d < 58) \<and>
      bytes_val 58 buf = bytes_val 58 (replicate n 0) * 256 ^ length (drop zc inp) + bytes_val 256 (drop zc inp)"
    unfolding b by (rule enc_bytes_spec [OF n(1) len(2), where m = 0]) (use len(1) n(2) z in \<open>simp_all only:\<close>, simp_all)
  then have e: "length buf = n" "\<forall>d \<in> set buf. unat d < 58" "bytes_val 58 buf = bytes_val 256 (drop zc inp)"
    unfolding z by simp_all
  have ds: "map unat (dropWhile (\<lambda>b. b = 0) buf) = digits_of 58 (bytes_val 256 inp)"
    using digits_of_val [of "map unat buf" 58] e(2,3) dr
    by (simp add: map_unat_drop_zeros bytes_val_drop_zeros flip: bytes_val_def)
  let ?j = "length (takeWhile (\<lambda>b. b = 0) buf)"
  have dj: "drop ?j buf = dropWhile (\<lambda>b. b = 0) buf" by (simp add: dropWhile_eq_drop)
  have t: "replicate zc (BASE58_ALPHABET ! 0) @ map (\<lambda>d. BASE58_ALPHABET ! unat d) (drop ?j buf) = b58_text inp"
    unfolding b58_text_def ds [symmetric] dj by (simp add: zc_def comp_def)
  have "?j \<le> n" using e(1) length_takeWhile_le [of "\<lambda>b. b = 0" buf] by simp
  then have "zc + n - ?j = length (b58_text inp)" using e(1) unfolding t [symmetric] by simp
  moreover have "base58_encode inp out_len = (if out_len < zc + n - ?j then None
     else Some (replicate zc (BASE58_ALPHABET ! 0) @ map (\<lambda>d. BASE58_ALPHABET ! unat d) (drop ?j buf)))"
    using False unfolding base58_encode_def MAX_ENC_INPUT_SIZE_def Let_def zc_def [symmetric] N_def [symmetric]
      n_def [symmetric] buf_def [symmetric] by (rule if_not_P)
  ultimately show ?thesis using False t by simp
qed

text \<open>
  C38. Base-58 encoding is base conversion: for at most 120 bytes the coder, with its early break
  and its estimate of the number of digits, stores one \<open>1\<close> for every leading zero byte and then
  exactly the base-58 digits of the number the bytes denote, and it fails exactly when that text does
  not fit.
\<close>

theorem base58_encode_correct:
  "base58_encode inp out_len =
     (if length inp > 120 \<or> out_len < length (b58_text inp) then None else Some (b58_text inp))"
  by (rule base58_encode_eq)

subsection \<open>Decoding is the inverse conversion\<close>

lemma bytes_val_Cons: "bytes_val B (b # bs) = unat b * B ^ length bs + bytes_val B bs"
  using digits_val_append [of B "[unat b]" "map unat bs"] by (simp add: bytes_val_def digits_val_def)

lemma div_loop_spec:
  assumes "unat r < 256" "\<forall>d \<in> set ds. unat d < 58" "div_loop r ds = (qs, r')"
  shows "unat r' < 256 \<and> (\<forall>d \<in> set qs. unat d < 58) \<and> length qs = length ds \<and>
     unat r * 58 ^ length ds + bytes_val 58 ds = 256 * bytes_val 58 qs + unat r'"
  using assms
proof (induction ds arbitrary: r qs)
  case (Cons d ds)
  let ?t = "r * 58 + ucast d :: u16"
  have d: "unat d < 58" using Cons.prems(2) by simp
  then have t: "unat ?t = 58 * unat r + unat d"
    using Cons.prems(1) by (simp add: unat_word_ariths unat_ucast_up)
  have m: "unat (?t mod 256) = (58 * unat r + unat d) mod 256"
    and q: "unat (ucast (?t div 256) :: u8) = (58 * unat r + unat d) div 256"
    using Cons.prems(1) d t by (simp_all add: unat_mod unat_div unsigned_ucast_eq take_bit_eq_mod)
  obtain qs1 where l: "div_loop (?t mod 256) ds = (qs1, r')" "qs = ucast (?t div 256) # qs1"
    using Cons.prems(3) by (auto simp: Let_def ucast_and_0xFF split: prod.splits)
  have IH: "unat r' < 256" "\<forall>d \<in> set qs1. unat d < 58" "length qs1 = length ds"
    "unat (?t mod 256) * 58 ^ length ds + bytes_val 58 ds = 256 * bytes_val 58 qs1 + unat r'"
    using Cons.IH [OF _ _ l(1)] m Cons.prems(2) by simp_all
  have "unat r * 58 ^ length (d # ds) + bytes_val 58 (d # ds) =
      (256 * ((58 * unat r + unat d) div 256) + (58 * unat r + unat d) mod 256) * 58 ^ length ds + bytes_val 58 ds"
    by (simp add: bytes_val_Cons algebra_simps)
  also have "\<dots> = 256 * (unat (ucast (?t div 256) :: u8) * 58 ^ length ds) + (unat (?t mod 256) * 58 ^ length ds + bytes_val 58 ds)"
    unfolding m q by (simp only: add_mult_distrib mult.assoc add.assoc)
  also have "\<dots> = 256 * bytes_val 58 qs + unat r'"
    unfolding IH(4) l(2) bytes_val_Cons IH(3) by (simp add: algebra_simps)
  finally have v: "unat r * 58 ^ length (d # ds) + bytes_val 58 (d # ds) = 256 * bytes_val 58 qs + unat r'" .
  have "(58 * unat r + unat d) div 256 < 58" using Cons.prems(1) d by (simp add: div_less_iff_less_mult)
  then show ?case using IH v q l(2) by simp
qed simp

lemma dec_loop_spec:
  assumes "s \<le> length tmp" "\<forall>d \<in> set tmp. unat d < 58" "length tmp - s \<le> j" "j \<le> length buf"
  shows "\<exists>bs. length bs = length tmp - s \<and> bytes_val 256 bs = bytes_val 58 (drop s tmp) \<and>
     dec_loop s tmp j buf = (j - (length tmp - s), take (j - (length tmp - s)) buf @ bs @ drop j buf)"
  using assms
proof (induction "length tmp - s" arbitrary: s tmp j buf)
  case 0
  then show ?case by (intro exI [of _ "[]"]) (simp add: dec_loop.simps)
next
  case (Suc d)
  obtain qs r where l: "div_loop 0 (drop s tmp) = (qs, r)" by (metis surj_pair)
  have s: "s < length tmp" using Suc.hyps(2) by simp
  let ?t = "take s tmp @ qs" and ?b = "buf[j - 1 := ucast r]"
  note sp = div_loop_spec [OF _ _ l]
  have q: "unat r < 256" "\<forall>d \<in> set qs. unat d < 58" "length qs = length tmp - s"
    "bytes_val 58 (drop s tmp) = 256 * bytes_val 58 qs + unat r"
    using sp Suc.prems(2) by (auto dest: in_set_dropD)
  have h: "qs ! 0 = 0" using div_loop_head [of "tmp ! s" "drop (Suc s) tmp"] l by (simp add: Cons_nth_drop_Suc [OF s])
  then obtain qs1 where qs: "qs = 0 # qs1" using q(3) s by (cases qs) auto
  have e: "dec_loop s tmp j buf = dec_loop (s + 1) ?t (j - 1) ?b"
    using s l h by (subst dec_loop.simps) (simp add: Let_def nth_append)
  have lt: "length ?t = length tmp" using q(3) s by simp
  have dg: "\<forall>d \<in> set ?t. unat d < 58" using Suc.prems(2) q(2) by (auto dest: in_set_takeD)
  have "\<exists>bs. length bs = length ?t - (s + 1) \<and> bytes_val 256 bs = bytes_val 58 (drop (s + 1) ?t) \<and>
     dec_loop (s + 1) ?t (j - 1) ?b = (j - 1 - (length ?t - (s + 1)), take (j - 1 - (length ?t - (s + 1))) ?b @ bs @ drop (j - 1) ?b)"
    by (rule Suc.hyps(1)) (use Suc.hyps(2) Suc.prems lt dg s in auto)
  then obtain bs where b: "length bs = length tmp - (s + 1)" "bytes_val 256 bs = bytes_val 58 qs1"
    "dec_loop s tmp j buf = (j - 1 - (length tmp - (s + 1)), take (j - 1 - (length tmp - (s + 1))) ?b @ bs @ drop (j - 1) ?b)"
    unfolding e lt using qs s by auto
  have j: "j - 1 - (length tmp - (s + 1)) = j - (length tmp - s)" "j - (length tmp - s) \<le> j - 1" "0 < j"
    using s Suc.prems(3) by simp_all
  have r: "unat (ucast r :: u8) = unat r" using q(1) by (simp add: unsigned_ucast_eq take_bit_eq_mod)
  have "drop (j - 1) ?b = ucast r # drop j buf"
    using j(3) Suc.prems(4) by (simp add: drop_update_swap Cons_nth_drop_Suc [symmetric])
  then have "dec_loop s tmp j buf = (j - (length tmp - s), take (j - (length tmp - s)) buf @ (bs @ [ucast r]) @ drop j buf)"
    using b(3) j by simp
  moreover have "bytes_val 256 (bs @ [ucast r]) = bytes_val 58 (drop s tmp)"
    using b(2) q(4) r by (simp add: qs bytes_val_Cons)
  ultimately show ?case using b(1) s by (intro exI [of _ "bs @ [ucast r]"]) simp
qed

text \<open>The table is the inverse of the alphabet.\<close>

lemma base58_table_checked:
  "list_all (\<lambda>n. if BASE58_TABLE ! n = 0xFF then char_of n \<notin> set BASE58_ALPHABET
     else unat (BASE58_TABLE ! n) < 58 \<and> BASE58_ALPHABET ! unat (BASE58_TABLE ! n) = char_of n) [0..<128]"
  "list_all (\<lambda>d. of_char (BASE58_ALPHABET ! d) < (128::nat) \<and> BASE58_TABLE ! of_char (BASE58_ALPHABET ! d) = of_nat d) [0..<58]"
  "length BASE58_TABLE = 128" "length BASE58_ALPHABET = 58"
  by code_simp+

lemma base58_char:
  "(of_char c \<ge> length BASE58_TABLE \<or> BASE58_TABLE ! of_char c = 0xFF) = (c \<notin> set BASE58_ALPHABET)" (is ?A)
  "c \<in> set BASE58_ALPHABET \<Longrightarrow> unat (BASE58_TABLE ! of_char c) < 58"
proof -
  have low: "of_char c < (128::nat)" if "c \<in> set BASE58_ALPHABET" for c
    using that base58_table_checked(2,4) by (auto simp: list_all_iff in_set_conv_nth)
  have tab: "if BASE58_TABLE ! of_char c = 0xFF then c \<notin> set BASE58_ALPHABET
     else unat (BASE58_TABLE ! of_char c) < 58 \<and> BASE58_ALPHABET ! unat (BASE58_TABLE ! of_char c) = c"
    if "of_char c < (128::nat)"
    using that base58_table_checked(1) by (simp only: list_all_iff) (drule bspec [of _ _ "of_char c"], simp_all split: if_splits)
  have nth: "BASE58_ALPHABET ! d \<in> set BASE58_ALPHABET" if "d < 58" for d
    using that base58_table_checked(4) by simp
  show ?A using low [of c] tab nth base58_table_checked(3) by (metis not_le)
  show "unat (BASE58_TABLE ! of_char c) < 58" if "c \<in> set BASE58_ALPHABET"
    using low [OF that] tab that by (simp split: if_splits)
qed

lemma base58_bad:
  "(\<exists>c \<in> set inp. of_char c \<ge> length BASE58_TABLE \<or> BASE58_TABLE ! of_char c = 0xFF) = (\<not> set inp \<subseteq> set BASE58_ALPHABET)"
  by (simp only: base58_char(1)) blast

text \<open>The bytes of a text: a zero for every \<open>1\<close> in front, then the bytes of its value.\<close>

definition b58_digits :: "string \<Rightarrow> bytes" where
  "b58_digits inp = map (\<lambda>c. BASE58_TABLE ! of_char c) inp"

definition b58_bytes :: "string \<Rightarrow> bytes" where
  "b58_bytes inp = replicate (length (takeWhile (\<lambda>b. b = 0) (b58_digits inp))) 0 @
     map of_nat (digits_of 256 (bytes_val 58 (b58_digits inp)))"

lemma map_of_nat_unat [simp]: "map of_nat (map unat bs) = (bs :: bytes)"
  by (induction bs) simp_all

lemma bytes_of_val: "map of_nat (digits_of 256 (bytes_val 256 bs)) = dropWhile (\<lambda>b. b = 0) (bs :: bytes)"
proof -
  have "digits_of 256 (bytes_val 256 bs) = map unat (dropWhile (\<lambda>b. b = 0) bs)"
    unfolding map_unat_drop_zeros bytes_val_def by (rule digits_of_val) (auto simp: unat_u8_less)
  then show ?thesis by (simp only: map_of_nat_unat)
qed

lemma take_while_zeros: "xs = replicate (length (takeWhile (\<lambda>b. b = 0) xs)) 0 @ dropWhile (\<lambda>b. b = 0) xs"
  by (induction xs) simp_all

lemma base58_decode_eq:
  "base58_decode inp out_len =
     (if length inp < 2 \<or> length inp > 164 \<or> \<not> set inp \<subseteq> set BASE58_ALPHABET \<or> out_len < length (b58_bytes inp) then None
      else Some (b58_bytes inp))"
proof (cases "length inp < 2 \<or> length inp > 164 \<or> \<not> set inp \<subseteq> set BASE58_ALPHABET")
  case True
  then show ?thesis by (auto simp: base58_decode_def MAX_DEC_INPUT_SIZE_def base58_bad Let_def)
next
  case False
  let ?L = "length inp" and ?t = "b58_digits inp"
  define zc where "zc = length (takeWhile (\<lambda>b. b = 0) ?t)"
  define buf where "buf = replicate 164 (0 :: u8)"
  have l: "length ?t = ?L" "zc \<le> ?L" "?L \<le> 164" "length buf = 164" using False length_takeWhile_le [of "\<lambda>b. b = 0" ?t]
    by (simp_all add: b58_digits_def zc_def buf_def)
  have dg: "\<forall>d \<in> set ?t. unat d < 58" using False base58_char(2) by (auto simp: b58_digits_def)
  have "\<exists>bs. length bs = length ?t - zc \<and> bytes_val 256 bs = bytes_val 58 (drop zc ?t) \<and>
     dec_loop zc ?t ?L buf = (?L - (length ?t - zc), take (?L - (length ?t - zc)) buf @ bs @ drop ?L buf)"
    by (rule dec_loop_spec) (use l dg in auto)
  then obtain bs where bs: "length bs = ?L - zc" "bytes_val 256 bs = bytes_val 58 (drop zc ?t)"
    "dec_loop zc ?t ?L buf = (zc, replicate zc 0 @ bs @ drop ?L buf)"
    using l by (auto simp: buf_def min_def)
  let ?k = "length (takeWhile (\<lambda>b. b = 0) bs)" and ?r = "dropWhile (\<lambda>b. b = 0) bs"
  have k: "bs = replicate ?k 0 @ ?r" by (rule take_while_zeros)
  have kl: "?k + length ?r = ?L - zc" using arg_cong [OF k, of length] bs(1) by simp
  have "?r = map of_nat (digits_of 256 (bytes_val 58 ?t))"
    using bytes_of_val [of bs] bs(2) bytes_val_drop_zeros [of 58 ?t] by (simp add: zc_def dropWhile_eq_drop)
  then have out: "b58_bytes inp = replicate zc 0 @ ?r" by (simp add: b58_bytes_def zc_def)
  have tail: "take ?L (replicate zc 0 @ bs @ drop ?L buf) = replicate zc 0 @ bs" using bs(1) l by simp
  have "drop ?k (replicate zc 0 @ bs @ drop ?L buf) = drop ?k (replicate zc 0 @ replicate ?k 0 @ ?r @ drop ?L buf)"
    using k by (metis append_assoc)
  also have "\<dots> = replicate zc 0 @ ?r @ drop ?L buf"
    by (simp add: append_assoc [symmetric] replicate_add [symmetric] add.commute del: append_assoc)
  finally have dr: "take (?L - ?k) (drop ?k (replicate zc 0 @ bs @ drop ?L buf)) = replicate zc 0 @ ?r"
    using kl l by simp
  have "base58_decode inp out_len = (if out_len < ?L - ?k then None else Some (replicate zc 0 @ ?r))"
    using False dr bs(3) tail
    by (simp add: base58_decode_def MAX_DEC_INPUT_SIZE_def base58_bad Let_def b58_digits_def [symmetric]
        zc_def [symmetric] buf_def [symmetric])
  moreover have "length (b58_bytes inp) = ?L - ?k" using kl l unfolding out by simp
  ultimately show ?thesis using False out by simp
qed

text \<open>
  C1. Base-58 decoding is the inverse conversion: the decoder refuses texts shorter than 2 or longer
  than 164 characters, texts with a character outside the alphabet and results that do not fit, and in
  every other case it stores a zero byte for every leading \<open>1\<close> and then exactly the bytes of the
  number the digits denote.
\<close>

theorem base58_decode_correct:
  "base58_decode inp out_len =
     (if length inp < 2 \<or> length inp > 164 \<or> \<not> set inp \<subseteq> set BASE58_ALPHABET \<or> out_len < length (b58_bytes inp) then None
      else Some (b58_bytes inp))"
  by (rule base58_decode_eq)

subsection \<open>Round trip\<close>

lemma digits_of_props:
  assumes "2 \<le> B"
  shows "(\<forall>d \<in> set (digits_of B v). d < B) \<and> digits_val B (digits_of B v) = v"
proof (induction v rule: less_induct)
  case (less v)
  show ?case
  proof (cases "v = 0")
    case True
    then show ?thesis by (simp add: digits_of.simps)
  next
    case False
    then have "v div B < v" using assms by simp
    from less [OF this] show ?thesis using False assms by (subst (1 2) digits_of.simps) auto
  qed
qed

lemma digits_of_no_zero: "2 \<le> B \<Longrightarrow> dropWhile (\<lambda>d. d = 0) (digits_of B v) = digits_of B v"
  using digits_of_val [of "digits_of B v" B] digits_of_props [of B v] by simp

lemma length_digits_of:
  assumes "v < B ^ k" "2 \<le> B"
  shows "length (digits_of B v) \<le> k"
  using assms(1)
proof (induction k arbitrary: v)
  case 0
  then show ?case by (simp add: digits_of.simps)
next
  case (Suc k)
  have "v div B < B ^ k" using Suc.prems by (simp add: less_mult_imp_div_less mult.commute)
  from Suc.IH [OF this] show ?case by (subst digits_of.simps) simp
qed

lemma bytes_val_less: "bytes_val 256 bs < 256 ^ length bs"
  using digits_val_less [of "map unat bs" 256] by (auto simp: bytes_val_def unat_u8_less)

text \<open>The text of at most 120 bytes is short enough for the decoder.\<close>

lemma length_b58_text:
  assumes "length bs \<le> 120"
  shows "length (b58_text bs) \<le> 164"
proof -
  let ?r = "dropWhile (\<lambda>b. b = 0) bs" and ?z = "length (takeWhile (\<lambda>b. b = 0) bs)"
  have l: "?z + length ?r = length bs" using arg_cong [OF take_while_zeros [of bs], of length] by simp
  define M where "M = 120 - ?z"
  have M: "length ?r \<le> M" "M \<le> 120" "?z = 120 - M" using l assms by (simp_all add: M_def)
  have "bytes_val 256 bs < 256 ^ length ?r" using bytes_val_less [of ?r] by (simp add: bytes_val_drop_zeros)
  also have "\<dots> \<le> 256 ^ M" using M(1) by (intro power_increasing) simp_all
  also have "\<dots> \<le> 58 ^ (44 + M)"
  proof -
    have "(256::nat) ^ M * 58 ^ (120 - M) \<le> 256 ^ M * 256 ^ (120 - M)" by (intro mult_left_mono power_mono) simp_all
    also have "\<dots> = 256 ^ 120" using M(2) by (simp add: power_add [symmetric])
    also have "\<dots> \<le> 58 ^ 164" by simp
    also have "\<dots> = 58 ^ (44 + M) * 58 ^ (120 - M)" using M(2) by (simp add: power_add [symmetric])
    finally show ?thesis by simp
  qed
  finally have "length (digits_of 58 (bytes_val 256 bs)) \<le> 44 + M" by (rule length_digits_of) simp
  then show ?thesis using M(2,3) by (simp add: b58_text_def)
qed

lemma b58_digits_text:
  "b58_digits (b58_text bs) = replicate (length (takeWhile (\<lambda>b. b = 0) bs)) 0 @ map of_nat (digits_of 58 (bytes_val 256 bs))"
  "set (b58_text bs) \<subseteq> set BASE58_ALPHABET"
proof -
  have tab: "BASE58_TABLE ! of_char (BASE58_ALPHABET ! d) = of_nat d" if "d < 58" for d
    using base58_table_checked(2) that by (simp add: list_all_iff)
  have dg: "\<forall>d \<in> set (digits_of 58 (bytes_val 256 bs)). d < 58" using digits_of_props by simp
  then show "b58_digits (b58_text bs) = replicate (length (takeWhile (\<lambda>b. b = 0) bs)) 0 @ map of_nat (digits_of 58 (bytes_val 256 bs))"
    using tab [of 0] tab by (auto simp: b58_digits_def b58_text_def)
  show "set (b58_text bs) \<subseteq> set BASE58_ALPHABET"
    using dg base58_table_checked(4) by (auto simp: b58_text_def)
qed

lemma b58_bytes_text: "b58_bytes (b58_text bs) = bs"
proof -
  let ?ds = "digits_of 58 (bytes_val 256 bs)" and ?z = "length (takeWhile (\<lambda>b. b = 0) bs)"
  let ?ws = "map of_nat ?ds :: bytes"
  have p: "\<forall>d \<in> set ?ds. d < 58" "digits_val 58 ?ds = bytes_val 256 bs" using digits_of_props by simp_all
  have u: "map unat ?ws = ?ds" using p(1) by (force intro!: map_idI unat_of_nat_small)
  have "map unat (dropWhile (\<lambda>b. b = 0) ?ws) = map unat ?ws" unfolding map_unat_drop_zeros u by (rule digits_of_no_zero) simp
  then have "length (dropWhile (\<lambda>b. b = 0) ?ws) = length ?ws" by (rule map_eq_imp_length_eq)
  then have "takeWhile (\<lambda>b. b = 0) ?ws = []"
    using arg_cong [OF takeWhile_dropWhile_id [of "\<lambda>b. b = 0" ?ws], of length] unfolding length_append by simp
  then have z: "length (takeWhile (\<lambda>b. b = 0) (replicate ?z 0 @ ?ws)) = ?z" by (simp add: takeWhile_append)
  have v: "bytes_val 58 (replicate ?z 0 @ ?ws) = bytes_val 256 bs"
    unfolding bytes_val_def [of 58] map_append u map_replicate unsigned_0 digits_val_zeros by (rule p(2))
  show ?thesis unfolding b58_bytes_def b58_digits_text z v bytes_of_val by (rule take_while_zeros [symmetric])
qed

lemma base58_decode_text:
  assumes "length bs \<le> 120" "2 \<le> length (b58_text bs)" "length bs \<le> m"
  shows "base58_decode (b58_text bs) m = Some bs"
  using assms length_b58_text [OF assms(1)] b58_digits_text(2) [of bs] by (simp add: base58_decode_eq b58_bytes_text)

text \<open>The text has at least as many characters as there are bytes.\<close>

lemma length_b58_text_ge: "length bs \<le> length (b58_text bs)"
proof -
  let ?v = "bytes_val 256 bs"
  have p: "\<forall>d \<in> set (digits_of 58 ?v). d < 58" "digits_val 58 (digits_of 58 ?v) = ?v" using digits_of_props by simp_all
  have "?v < 58 ^ length (digits_of 58 ?v)" using digits_val_less [OF p(1)] p(2) by simp
  also have "\<dots> \<le> 256 ^ length (digits_of 58 ?v)" by (intro power_mono) simp_all
  finally have "length (digits_of 256 ?v) \<le> length (digits_of 58 ?v)" by (rule length_digits_of) simp
  moreover have "length (digits_of 256 ?v) = length (dropWhile (\<lambda>b. b = 0) bs)"
    using arg_cong [OF bytes_of_val [of bs], of length] by simp
  moreover have "length bs = length (takeWhile (\<lambda>b. b = 0) bs) + length (dropWhile (\<lambda>b. b = 0) bs)"
    using arg_cong [OF take_while_zeros [of bs], of length] by simp
  ultimately show ?thesis by (simp add: b58_text_def)
qed

text \<open>
  C39. Every byte string that the base-58 coder accepts and turns into at least two characters is
  read back by the decoder, byte for byte and with its leading zeros.
\<close>

theorem base58_roundtrip:
  assumes "base58_encode bs n = Some t" and "2 \<le> length t" and "length bs \<le> m"
  shows "base58_decode t m = Some bs"
proof -
  have t: "t = b58_text bs" "length bs \<le> 120" using assms(1) by (simp_all add: base58_encode_eq split: if_splits)
  show ?thesis using base58_decode_text [OF t(2)] assms(2,3) unfolding t(1) by blast
qed

theorem base58_roundtrip_witness: "base58_decode ''15T'' 3 = Some [0, 1, 2]"
proof -
  have "b58_text [0, 1, 2] = ''15T''"
    by (simp add: b58_text_def bytes_val_def digits_val_def digits_of.simps BASE58_ALPHABET_def)
  then have "base58_encode [0, 1, 2] 10 = Some ''15T''" by (simp add: base58_encode_eq)
  then show ?thesis by (rule base58_roundtrip) simp_all
qed

end
