(* ===== verification/StxText.thy ===== *)
theory StxText
  imports StxOpP2pk PathFormat Base58
begin

text \<open>
  The texts of the signing screens, \<^verbatim>\<open>src/commands/signtx/stx_ui_common.h\<close> and
  \<^verbatim>\<open>stx_ui_common.c\<close>, and the title screen of the operation
  (\<open>ui_stx_operation_p2pk_show_tx_screen\<close>).

  A character buffer is the text in it up to the terminating zero; a function that fills a title and a
  text returns its status word with both. The formatters of the SDK (hexadecimal, fixed point, decimal)
  are the parameter \<open>fmt\<close>: each takes the size of the buffer and gives its result and the text it
  leaves there. Base 58 is the coder of \<^verbatim>\<open>Base58\<close>.
\<close>

record sdk_format =
  format_hex :: "bytes \<Rightarrow> nat \<Rightarrow> int \<times> string"
  format_fpu64 :: "nat \<Rightarrow> u64 \<Rightarrow> u8 \<Rightarrow> bool \<times> string"
  format_u64 :: "nat \<Rightarrow> u64 \<Rightarrow> bool \<times> string"

definition ERGO_ID_UI_CHARACTERS_HALF :: nat where "ERGO_ID_UI_CHARACTERS_HALF = 26"
definition ERGO_ERG_FRACTION_DIGIT_COUNT :: u8 where "ERGO_ERG_FRACTION_DIGIT_COUNT = 9"

text \<open>\<open>strncpy(dst, s, n)\<close> into an erased buffer, \<open>snprintf(dst, n, ...)\<close> of a text.\<close>

definition strncpy :: "string \<Rightarrow> nat \<Rightarrow> string" where "strncpy s n = take n s"
definition snprintf :: "nat \<Rightarrow> string \<Rightarrow> string" where "snprintf n s = take (n - 1) s"

definition id_string_remove_middle :: "string \<Rightarrow> nat \<Rightarrow> string" where
  "id_string_remove_middle str len =
     (if len \<le> 2 * ERGO_ID_UI_CHARACTERS_HALF + 3 then str
      else take ERGO_ID_UI_CHARACTERS_HALF str @ ''...'' @
           take ERGO_ID_UI_CHARACTERS_HALF (drop (len - ERGO_ID_UI_CHARACTERS_HALF) str))"

definition format_hex_id :: "sdk_format \<Rightarrow> bytes \<Rightarrow> nat \<Rightarrow> nat \<Rightarrow> bool \<times> string" where
  "format_hex_id fmt i id_len out_len =
     (case format_hex fmt (take id_len i) out_len of (len, s) \<Rightarrow>
        if len \<le> 0 then (False, s) else (True, id_string_remove_middle s (nat (len - 1))))"

definition format_b58_id :: "bytes \<Rightarrow> nat \<Rightarrow> nat \<Rightarrow> bool \<times> string" where
  "format_b58_id i id_len out_len =
     (case base58_encode (take id_len i) out_len of
        None \<Rightarrow> (False, '''')
      | Some s \<Rightarrow> if length s \<le> 0 then (False, '''') else (True, s))"

definition format_erg_amount :: "sdk_format \<Rightarrow> u64 \<Rightarrow> nat \<Rightarrow> bool \<times> string" where
  "format_erg_amount fmt amount out_len =
     (case format_fpu64 fmt out_len amount ERGO_ERG_FRACTION_DIGIT_COUNT of (ok, s) \<Rightarrow>
        if \<not> ok then (False, s)
        else let out_bytes = length s in
          if out_len < 5 \<or> out_bytes > out_len - 5 then (False, s)
          else (True, s @ strncpy '' ERG'' (out_len - out_bytes)))"

text \<open>The members of the union of the output info that only the screens read.\<close>

definition out_key :: "'h out_views \<Rightarrow> 'h output_info \<Rightarrow> bytes" where
  "out_key V ctx = (case oi_union ctx of OutKey k \<Rightarrow> k | u \<Rightarrow> view_key V u)"

definition out_tree_hash :: "'h out_views \<Rightarrow> 'h output_info \<Rightarrow> bytes" where
  "out_tree_hash V ctx = (case oi_union ctx of OutTreeHash k \<Rightarrow> k | u \<Rightarrow> view_tree_hash V u)"

text \<open>
  Status word, title, address text. The local array of the raw address is given the value zero; a
  successful call overwrites it all.
\<close>

definition output_info_print_address ::
    "('h, 'x) cx_sdk_scheme \<Rightarrow> 'h out_views \<Rightarrow> 'h output_info \<Rightarrow> u8 \<Rightarrow> nat \<Rightarrow> nat \<Rightarrow> u16 \<times> string \<times> string" where
  "output_info_print_address cx V ctx network_id title_len address_len =
     (let ty = stx_output_info_type ctx in
      if \<not> stx_output_info_is_finished ctx then (SW_BAD_STATE, '''', '''')
      else if ty = SIGN_TRANSACTION_OUTPUT_INFO_TYPE_BIP32 then
        (let title = strncpy ''Change'' title_len; p = out_path V ctx in
         case bip32_path_format (bp_path p) (unat (bp_len p)) address_len of
           None \<Rightarrow> (SW_BIP32_FORMATTING_FAILED, title, '''')
         | Some s \<Rightarrow> (SW_OK, title, s))
      else if ty = SIGN_TRANSACTION_OUTPUT_INFO_TYPE_ADDRESS then
        (let title = strncpy ''To'' title_len in
         case ergo_address_from_compressed_pubkey cx network_id (out_key V ctx) (replicate (unat P2PK_ADDRESS_LEN) 0) of
           (ok, raw_address) \<Rightarrow>
             if \<not> ok then (SW_ADDRESS_GENERATION_FAILED, title, '''')
             else case format_b58_id raw_address (unat P2PK_ADDRESS_LEN) address_len of (ok2, s) \<Rightarrow>
               ((if ok2 then SW_OK else SW_ADDRESS_FORMATTING_FAILED), title, s))
      else if ty = SIGN_TRANSACTION_OUTPUT_INFO_TYPE_SCRIPT \<or> ty = SIGN_TRANSACTION_OUTPUT_INFO_TYPE_SCRIPT_HASH then
        (let title = strncpy ''Script Hash'' title_len in
         case ergo_address_from_script_hash cx network_id (out_tree_hash V ctx) (replicate (unat P2SH_ADDRESS_LEN) 0) of
           (ok, raw_address) \<Rightarrow>
             if \<not> ok then (SW_ADDRESS_GENERATION_FAILED, title, '''')
             else case format_b58_id raw_address (unat P2SH_ADDRESS_LEN) address_len of (ok2, s) \<Rightarrow>
               ((if ok2 then SW_OK else SW_ADDRESS_FORMATTING_FAILED), title, s))
      else if ty = SIGN_TRANSACTION_OUTPUT_INFO_TYPE_MINERS_FEE then
        (SW_OK, strncpy ''Fee'' title_len, strncpy ''Miners Fee'' address_len)
      else (SW_BAD_STATE, '''', ''''))"

text \<open>The sizes of the members \<open>title\<close> and \<open>text\<close> of both screen contexts.\<close>

definition TITLE_LEN :: nat where "TITLE_LEN = 20"
definition TEXT_LEN :: nat where "TEXT_LEN = 70"

definition token_title :: "u8 \<Rightarrow> string \<Rightarrow> string" where
  "token_title pos suffix = snprintf TITLE_LEN (''Token ['' @ dec_of_nat (unat pos + 1) @ '']'' @ suffix)"

definition ui_stx_display_output_state ::
    "('h, 'x) cx_sdk_scheme \<Rightarrow> sdk_format \<Rightarrow> 'h out_views \<Rightarrow> u8 \<Rightarrow> 'h output_info \<Rightarrow> token_table_t \<Rightarrow> u8 \<Rightarrow>
     u16 \<times> string \<times> string" where
  "ui_stx_display_output_state cx fmt V network_id out table screen =
     (if screen = 0 then output_info_print_address cx V out network_id TITLE_LEN TEXT_LEN
      else if screen = 1 then
        (case format_erg_amount fmt (oi_value out) TEXT_LEN of (ok, s) \<Rightarrow>
           ((if ok then SW_OK else SW_BUFFER_ERROR), strncpy ''Amount'' TITLE_LEN, s))
      else let scr = screen - 2; token_idx = stx_output_info_used_token_index out (scr div 2) in
        if \<not> IS_ELEMENT_FOUND token_idx then (SW_BAD_TOKEN_INDEX, '''', '''')
        else if scr mod 2 = 0 then
          (case format_hex_id fmt (tt_tokens table ! unat token_idx) (unat ERGO_ID_LEN) TEXT_LEN of (ok, s) \<Rightarrow>
             ((if ok then SW_OK else SW_ADDRESS_FORMATTING_FAILED), token_title (scr div 2) '''', s))
        else (SW_OK, token_title (scr div 2) '' Raw Value'', snd (format_u64 fmt TEXT_LEN (oi_tokens out ! unat token_idx))))"

text \<open>
  The screens of the whole transaction. \<open>op_screen\<close> is the callback for the first \<open>op_count\<close> screens,
  with the sizes of the two buffers.
\<close>

definition ui_stx_display_tx_state ::
    "sdk_format \<Rightarrow> u8 \<Rightarrow> (u8 \<Rightarrow> nat \<Rightarrow> nat \<Rightarrow> u16 \<times> string \<times> string) \<Rightarrow> sign_transaction_amounts_ctx_t \<Rightarrow> u8 \<Rightarrow>
     u16 \<times> string \<times> string" where
  "ui_stx_display_tx_state fmt op_count op_screen am screen =
     (if screen < op_count then op_screen screen TITLE_LEN TEXT_LEN
      else if screen - op_count = 0 then
        (case format_erg_amount fmt (am_fee am) TEXT_LEN of (ok, s) \<Rightarrow>
           ((if ok then SW_OK else SW_BUFFER_ERROR), strncpy ''Fee'' TITLE_LEN, s))
      else let scr = screen - op_count - 1; token_idx = stx_amounts_non_zero_token_index am (scr div 2) in
        if \<not> IS_ELEMENT_FOUND token_idx then (SW_BAD_TOKEN_INDEX, '''', '''')
        else if scr mod 2 = 0 then
          (case format_hex_id fmt (tt_tokens (am_tokens_table am) ! unat token_idx) (unat ERGO_ID_LEN) TEXT_LEN of (ok, s) \<Rightarrow>
             ((if ok then SW_OK else SW_ADDRESS_FORMATTING_FAILED), token_title (scr div 2) '''', s))
        else let value = am_tokens am ! unat token_idx in
          if sint value < 0 then
            (SW_OK, token_title (scr div 2) '' Raw Value'', ''Minting: '' @ snd (format_u64 fmt (TEXT_LEN - 9) (- value)))
          else
            (SW_OK, token_title (scr div 2) '' Raw Value'', ''Burning: '' @ snd (format_u64 fmt (TEXT_LEN - 9) value)))"

definition ui_stx_operation_p2pk_show_tx_screen ::
    "sign_transaction_bip32_path_t \<Rightarrow> u8 \<Rightarrow> nat \<Rightarrow> nat \<Rightarrow> u16 \<times> string \<times> string" where
  "ui_stx_operation_p2pk_show_tx_screen path index title_len text_len =
     (if index \<noteq> 0 then (SW_BAD_STATE, '''', '''')
      else case bip32_path_format (bp_path path) (unat (bp_len path)) text_len of
          None \<Rightarrow> (SW_BIP32_FORMATTING_FAILED, strncpy ''P2PK Path'' title_len, '''')
        | Some s \<Rightarrow> (SW_OK, strncpy ''P2PK Path'' title_len, s))"

subsection \<open>Properties\<close>

text \<open>Kind and content of an output, and the address bytes that belong to it.\<close>

definition shown_address :: "('h, 'x) cx_sdk_scheme \<Rightarrow> u8 \<Rightarrow> 'h output_info \<Rightarrow> bytes option" where
  "shown_address cx network_id out =
     (if stx_output_info_type out = SIGN_TRANSACTION_OUTPUT_INFO_TYPE_ADDRESS then
        (case oi_union out of OutKey key \<Rightarrow>
           if length key = 33 then Some (address_of cx (address_body ERGO_ADDRESS_TYPE_P2PK network_id key)) else None
         | _ \<Rightarrow> None)
      else if stx_output_info_type out = SIGN_TRANSACTION_OUTPUT_INFO_TYPE_SCRIPT \<or>
              stx_output_info_type out = SIGN_TRANSACTION_OUTPUT_INFO_TYPE_SCRIPT_HASH then
        (case oi_union out of OutTreeHash hash \<Rightarrow>
           if 24 \<le> length hash then Some (address_of cx (address_body ERGO_ADDRESS_TYPE_P2SH network_id (take 24 hash))) else None
         | _ \<Rightarrow> None)
      else None)"

lemma format_b58_id_full:
  assumes "length bs = n" "2 \<le> n" "n \<le> 120" "format_b58_id bs n m = (True, s)"
  shows "s = b58_text bs \<and> base58_decode s n = Some bs"
proof -
  have "s = b58_text bs" using assms(1,3,4) by (simp add: format_b58_id_def base58_encode_eq split: if_splits)
  then show ?thesis using base58_decode_text [of bs n] length_b58_text_ge [of bs] assms(1-3) by simp
qed

lemma address_lens: "unat P2PK_ADDRESS_LEN = 38" "unat P2SH_ADDRESS_LEN = 29"
  by (simp_all add: P2PK_ADDRESS_LEN_def P2SH_ADDRESS_LEN_def COMPRESSED_PUBLIC_KEY_LEN_def ADDRESS_PREFIX_LEN_def
      ADDRESS_CHECKSUM_LEN_def P2SH_HASH_LEN_def)

lemma length_address_of:
  "cx_digest_size cx \<Longrightarrow> fst (cx_blake2b_256_hash cx body) = CX_OK \<Longrightarrow> length (address_of cx body) = length body + 4"
  by (cases "cx_blake2b_256_hash cx body") (auto simp: address_of_def cx_digest_size_def)

text \<open>
  C36. What the first screen of an output shows. When it is shown without an error for an output that
  pays a key or a script, its text is the base-58 text of exactly the address of that key or script on the network of the
  session, and the text is unambiguous: decoding it gives the bytes of that address back.
\<close>

theorem address_screen_faithful:
  assumes "cx_digest_size cx" and "shown_address cx network_id out = Some a"
    and "ui_stx_display_output_state cx fmt V network_id out table 0 = (SW_OK, title, shown)"
  shows "shown = b58_text a \<and> base58_decode shown (length a) = Some a \<and>
     title = (if stx_output_info_type out = SIGN_TRANSACTION_OUTPUT_INFO_TYPE_ADDRESS then ''To'' else ''Script Hash'')"
proof (cases "stx_output_info_type out = SIGN_TRANSACTION_OUTPUT_INFO_TYPE_ADDRESS")
  case True
  then obtain key where k: "oi_union out = OutKey key" "length key = 33"
      "a = address_of cx (address_body ERGO_ADDRESS_TYPE_P2PK network_id key)"
    using assms(2) by (auto simp: shown_address_def split: out_union.splits if_splits)
  obtain ok raw where r: "ergo_address_from_compressed_pubkey cx network_id key (replicate 38 0) = (ok, raw)" by (metis surj_pair)
  obtain ok2 s where f: "format_b58_id raw 38 70 = (ok2, s)" by (metis surj_pair)
  have sh: "ok" "ok2" "shown = s" "title = ''To''"
    using assms(3) True r f k(1)
    by (auto simp: ui_stx_display_output_state_def output_info_print_address_def Let_def out_types out_key_def address_lens
        TITLE_LEN_def TEXT_LEN_def strncpy_def sw_defs split: if_splits)
  note e = address_from_pubkey_eq [where compressed = True and pk = key and network = network_id and address = "replicate 38 0",
      OF assms(1), simplified, OF k(2)]
  have a: "raw = a" "fst (cx_blake2b_256_hash cx (address_body ERGO_ADDRESS_TYPE_P2PK network_id key)) = CX_OK"
    using e r sh(1) k(3) by (simp_all add: ergo_address_from_compressed_pubkey_def)
  have "length a = 38" using length_address_of [OF assms(1) a(2)] k(2,3) by (simp add: address_body_def)
  then show ?thesis using format_b58_id_full [of raw 38 70 s] f sh a(1) True by auto
next
  case False
  then obtain hash where k: "oi_union out = OutTreeHash hash" "24 \<le> length hash"
      "a = address_of cx (address_body ERGO_ADDRESS_TYPE_P2SH network_id (take 24 hash))"
      "stx_output_info_type out = SIGN_TRANSACTION_OUTPUT_INFO_TYPE_SCRIPT \<or>
       stx_output_info_type out = SIGN_TRANSACTION_OUTPUT_INFO_TYPE_SCRIPT_HASH"
    using assms(2) by (auto simp: shown_address_def split: out_union.splits if_splits)
  obtain ok raw where r: "ergo_address_from_script_hash cx network_id hash (replicate 29 0) = (ok, raw)" by (metis surj_pair)
  obtain ok2 s where f: "format_b58_id raw 29 70 = (ok2, s)" by (metis surj_pair)
  have sh: "ok" "ok2" "shown = s" "title = ''Script Hash''"
    using assms(3) False r f k(1,4)
    by (auto simp: ui_stx_display_output_state_def output_info_print_address_def Let_def out_types out_tree_hash_def address_lens
        TITLE_LEN_def TEXT_LEN_def strncpy_def sw_defs split: if_splits)
  note e = address_from_script_hash_eq [where hash = hash and network = network_id and address = "replicate 29 0",
      OF assms(1), simplified, OF k(2)]
  have a: "raw = a" "fst (cx_blake2b_256_hash cx (address_body ERGO_ADDRESS_TYPE_P2SH network_id (take 24 hash))) = CX_OK"
    using e r sh(1) k(3) by simp_all
  have "length a = 29" using length_address_of [OF assms(1) a(2)] k(2,3) by (simp add: address_body_def)
  then show ?thesis using format_b58_id_full [of raw 29 70 s] f sh a(1) False by auto
qed

text \<open>Witness: an output that pays the key \<open>3, 7, \<dots>, 7\<close> on the test network.\<close>

definition demo_key_output :: "bytes output_info" where
  "demo_key_output = \<lparr>oi_value = 1, oi_tokens = [], oi_state = 0xC2, oi_union = OutKey (3 # replicate 32 7)\<rparr>"

definition demo_address :: bytes where "demo_address = 17 # 3 # replicate 32 7 @ replicate 4 34"

theorem address_screen_faithful_witness:
  "\<forall>fmt V table. \<exists>title shown.
     ui_stx_display_output_state demo_hasher fmt V 16 demo_key_output table 0 = (SW_OK, title, shown) \<and>
     base58_decode shown 38 = Some demo_address"
proof (intro allI)
  fix fmt V table
  have d: "cx_digest_size demo_hasher" by (simp add: cx_digest_size_def demo_hasher_def)
  have s: "shown_address demo_hasher 16 demo_key_output = Some demo_address" by code_simp
  have r: "ergo_address_from_compressed_pubkey demo_hasher 16 (3 # replicate 32 7) (replicate 38 0) = (True, demo_address)"
    by code_simp
  have l: "length demo_address = 38" by (simp add: demo_address_def)
  have "bytes_val 256 demo_address < 58 ^ 70" using bytes_val_less [of demo_address] unfolding l by simp
  then have "length (digits_of 58 (bytes_val 256 demo_address)) \<le> 70" by (rule length_digits_of) simp
  then have "length (b58_text demo_address) \<le> 70" by (simp add: b58_text_def demo_address_def)
  then have f: "format_b58_id demo_address 38 70 = (True, b58_text demo_address)"
    using length_b58_text_ge [of demo_address] l by (auto simp: format_b58_id_def base58_encode_eq)
  have st: "stx_output_info_is_finished demo_key_output"
    "stx_output_info_type demo_key_output = SIGN_TRANSACTION_OUTPUT_INFO_TYPE_ADDRESS" by code_simp+
  have u: "oi_union demo_key_output = OutKey (3 # replicate 32 7)" by (simp add: demo_key_output_def)
  have "ui_stx_display_output_state demo_hasher fmt V 16 demo_key_output table 0 = (SW_OK, ''To'', b58_text demo_address)"
    unfolding ui_stx_display_output_state_def output_info_print_address_def st(2) address_lens TITLE_LEN_def TEXT_LEN_def
      out_key_def u out_union.case r
    by (simp add: st(1) f out_types strncpy_def sw_defs)
  with address_screen_faithful [OF d s this] l
  show "\<exists>title shown. ui_stx_display_output_state demo_hasher fmt V 16 demo_key_output table 0 = (SW_OK, title, shown) \<and>
     base58_decode shown 38 = Some demo_address" by auto
qed

end
