(* ===== verification/Contexts.thy ===== *)
theory Contexts
  imports StxOpP2pk
begin

text \<open>
  The contexts of the commands (\<^verbatim>\<open>ainpt_context.h\<close>, \<^verbatim>\<open>da_context.h\<close>,
  \<^verbatim>\<open>epk_context.h\<close>, \<^verbatim>\<open>stx_context.h\<close>, \<^verbatim>\<open>stx_types.h\<close>) and the
  structure that holds them.

  The source overlays the four contexts in one union, and inside the context of attested inputs the amounts
  with the screen data. Every switch of the current command erases the whole union, a handler
  touches only the context of the command it has just set or checked, and the screen data of an attested
  input is used only before its first amount is stored; so no member is ever read after another one was
  written, and the model keeps them side by side.

  Text buffers are the text in them; a pointer from a screen context to the data it shows is left out,
  because it always points into the same command context.
\<close>

definition APPLICATION_ID_STR_LEN :: nat where "APPLICATION_ID_STR_LEN = 11"

subsection \<open>Attested inputs\<close>

record 'h ainpt_mem = "'h ser_mem" +
  token_amounts :: "u64 list"

datatype attest_input_state_e =
    ATTEST_INPUT_STATE_INITIALIZED
  | ATTEST_INPUT_STATE_FINISHED
  | ATTEST_INPUT_STATE_APPROVED
  | ATTEST_INPUT_STATE_ERROR

record 'h attest_input_ctx_t =
  ai_box_id :: bytes
  ai_app_token :: string
  ai_app_token_value :: u32
  ai_box :: "'h ainpt_mem box_ctx"
  ai_mem :: "'h ainpt_mem"
  ai_box_index :: u16
  ai_session :: u8
  ai_state :: attest_input_state_e

subsection \<open>Addresses and extended public keys\<close>

record derive_address_ctx_t =
  da_app_token_value :: u32
  da_raw_address :: bytes
  da_bip32_path :: string
  da_address :: string
  da_app_id :: string
  da_send :: bool

record extended_public_key_ctx_t =
  epk_app_token_value :: u32
  epk_chain_code :: bytes
  epk_raw_public_key :: bytes
  epk_bip32_path :: string
  epk_app_token :: string

subsection \<open>Signing\<close>

datatype sign_transaction_state_e =
    SIGN_TRANSACTION_STATE_INITIALIZED
  | SIGN_TRANSACTION_STATE_APPROVED
  | SIGN_TRANSACTION_STATE_ERROR

datatype sign_transaction_operation_type_e = SIGN_TRANSACTION_OPERATION_P2PK

text \<open>The screen data of the operation: the members \<open>ui_approve\<close> and \<open>ui_confirm\<close>. \<open>up_response_cb\<close> tells whether
  the callback for the response is set or \<open>NULL\<close>.\<close>

record p2pk_ui_ctx =
  up_app_token_value :: u32
  up_app_token :: string
  up_is_known_application :: bool
  up_bip32_path :: string
  up_op_screen_count :: u8
  up_response_cb :: bool

record 'h sign_transaction_ctx_t =
  stx_state :: sign_transaction_state_e
  stx_session :: u8
  stx_operation :: sign_transaction_operation_type_e
  stx_p2pk :: "'h p2pk"
  stx_ui :: p2pk_ui_ctx

subsection \<open>All of them\<close>

record 'h commands_ctx_t =
  attest_input :: "'h attest_input_ctx_t"
  sign_tx :: "'h sign_transaction_ctx_t"
  derive_address :: derive_address_ctx_t
  ext_pub_key :: extended_public_key_ctx_t

definition ainpt_zero :: "('h, 'x) cx_device_scheme \<Rightarrow> 'h attest_input_ctx_t" where
  "ainpt_zero cx =
     \<lparr>ai_box_id = replicate (unat ERGO_ID_LEN) 0, ai_app_token = '''', ai_app_token_value = 0, ai_box = box_ctx_zero,
      ai_mem = \<lparr>hash_ctx = cx_zero_hash cx, tokens_table = am_tokens_table stx_amounts_init,
                token_amounts = replicate (unat TOKEN_MAX_COUNT) 0\<rparr>,
      ai_box_index = 0, ai_session = 0, ai_state = ATTEST_INPUT_STATE_INITIALIZED\<rparr>"

definition da_zero :: derive_address_ctx_t where
  "da_zero = \<lparr>da_app_token_value = 0, da_raw_address = replicate (unat P2PK_ADDRESS_LEN) 0, da_bip32_path = '''',
     da_address = '''', da_app_id = '''', da_send = False\<rparr>"

definition epk_zero :: extended_public_key_ctx_t where
  "epk_zero = \<lparr>epk_app_token_value = 0, epk_chain_code = replicate (unat CHAIN_CODE_LEN) 0,
     epk_raw_public_key = replicate (unat PUBLIC_KEY_LEN) 0, epk_bip32_path = '''', epk_app_token = ''''\<rparr>"

definition stx_zero :: "('h, 'x) cx_device_scheme \<Rightarrow> 'h sign_transaction_ctx_t" where
  "stx_zero cx =
     \<lparr>stx_state = SIGN_TRANSACTION_STATE_INITIALIZED, stx_session = 0, stx_operation = SIGN_TRANSACTION_OPERATION_P2PK,
      stx_p2pk = p2pk_zero cx,
      stx_ui = \<lparr>up_app_token_value = 0, up_app_token = '''', up_is_known_application = False, up_bip32_path = '''',
                up_op_screen_count = 0, up_response_cb = False\<rparr>\<rparr>"

text \<open>The erased union.\<close>

definition commands_zero :: "('h, 'x) cx_device_scheme \<Rightarrow> 'h commands_ctx_t" where
  "commands_zero cx = \<lparr>attest_input = ainpt_zero cx, sign_tx = stx_zero cx, derive_address = da_zero, ext_pub_key = epk_zero\<rparr>"

end
