(* ===== verification/UiState.thy ===== *)
theory UiState
  imports Contexts PathFormat
begin

text \<open>
  The state of the user interface and the shared screens: the steps of a flow and their display
  (\<^verbatim>\<open>src/ui/ui_main.h\<close>), the application and path screens, the buttons, the menus
  and the blocking dialogs (\<^verbatim>\<open>src/ui/display.c\<close>).

  The source has two user interfaces, chosen at compile time: the buttons of the small devices
  (\<open>HAVE_BAGL\<close>), where a displayed flow leaves the device waiting for a button, and the touch screens
  (\<open>HAVE_NBGL\<close>), where a dialog is answered before its function returns. The model has both, and the answer
  to a dialog is an argument.

  A flow is the array of steps and the length it had when it was displayed. \<open>pages\<close> lists the dialogs of the
  touch screens in the order they were shown. The static arrays of the screens hold
  \<open>N_UX_PAIRS\<close> pairs of title and text and are written without a bounds check; the model records a write
  beyond the array in \<open>ui_overrun\<close> and has no further effect of it, so statements about the pairs hold as long as it is
  not set.
\<close>

datatype ui_library = HAVE_BAGL | HAVE_NBGL

datatype ux_step =
    FLOW_NULL
  | FLOW_LOOP
  | FLOW_END_STEP
  | ux_app_token_step
  | ux_bip32_path_step
  | ux_approve_step
  | ux_reject_step
  | ux_sign_step
  | ux_sign_reject_step
  | ux_dynamic_upper_delimiter_step
  | ux_dynamic_step
  | ux_dynamic_lower_delimiter_step
  | ux_menu_ready_step
  | ux_menu_settings_step
  | ux_menu_about_step
  | ux_menu_exit_step
  | ux_menu_info_step
  | ux_menu_version_step
  | ux_menu_back_step
  | ux_menu_bs_enabled_step
  | ux_menu_bs_disabled_step
  | ux_stx_blind_signing_step
  | ux_stx_blind_signing_enable_warn1_step
  | ux_stx_blind_signing_enable_warn2_step
  | ux_stx_blind_signing_enable_settings_step
  | ux_stx_blind_signing_enable_txreject_step
  | ux_ainpt_display_confirm_step
  | ux_da_display_confirm_addr_step
  | ux_da_display_confirm_send_step
  | ux_da_display_address_step
  | ux_epk_display_confirm_ext_pubkey_step

text \<open>The functions that are installed behind the approve and reject buttons.\<close>

datatype ui_action = ui_action_attest_input | ui_action_derive_address | ui_action_get_extended_pubkey

datatype nbgl_page =
    Page_home
  | Page_choice string string
  | Page_review bool "(string \<times> string) list" string
  | Page_review_light "(string \<times> string) list"
  | Page_address_review string "(string \<times> string) list"
  | Page_status string

record 'h ui_state = "'h commands_ctx_t device_state" +
  G_ux_flow_steps :: "ux_step list"
  ux_flow_len :: nat
  approve_reject_callback :: "ui_action option"
  sign_reject_callback :: bool
  dynamic_screen_count :: u8
  dynamic_current_screen :: u8
  dynamic_title :: string
  dynamic_text :: string
  ui_pairs :: "(string \<times> string) list"
  ui_overrun :: bool
  nb_pairs :: nat
  signtx_screen :: u8
  signtx_outputs_screen :: u8
  ainpt_sub_message :: string
  flow_response :: bool
  pages :: "nbgl_page list"

type_synonym ('h, 'y) app = "('h, 'y) ui_state_scheme"

text \<open>Switching the command, with the erased union of this application.\<close>

definition set_command :: "('h, 'x) cx_device_scheme \<Rightarrow> command_e \<Rightarrow> ('h, 'y) app \<Rightarrow> ('h, 'y) app" where
  "set_command cx cmd g = app_set_current_command (commands_zero cx) cmd g"

subsection \<open>Flows of steps\<close>

definition ui_next_sreen_ptr :: "u8 \<Rightarrow> u8 option \<times> u8" where
  "ui_next_sreen_ptr position =
     (if position \<ge> MAX_NUMBER_OF_SCREENS then (None, position) else (Some position, position + 1))"

definition put_step :: "ux_step \<Rightarrow> u8 \<Rightarrow> ('h, 'y) app \<Rightarrow> ('h, 'y) app" where
  "put_step s i g = g\<lparr>G_ux_flow_steps := (G_ux_flow_steps g)[unat i := s]\<rparr>"

definition ui_add_screen :: "ux_step \<Rightarrow> u8 \<Rightarrow> ('h, 'y) app \<Rightarrow> bool \<times> u8 \<times> ('h, 'y) app" where
  "ui_add_screen screen position g =
     (if position \<ge> MAX_NUMBER_OF_SCREENS then (False, position, g)
      else (True, position + 1, put_step screen position g))"

text \<open>Adding several steps one after the other, ignoring the results, as the callers do.\<close>

primrec ui_add_screens :: "ux_step list \<Rightarrow> u8 \<Rightarrow> ('h, 'y) app \<Rightarrow> u8 \<times> ('h, 'y) app" where
  "ui_add_screens [] position g = (position, g)"
| "ui_add_screens (s # ss) position g = (case ui_add_screen s position g of (_, pos, g1) \<Rightarrow> ui_add_screens ss pos g1)"

text \<open>The subtraction from \<open>MAX_NUMBER_OF_SCREENS\<close> is done in \<open>int\<close>.\<close>

definition screens_left :: "u8 \<Rightarrow> int" where
  "screens_left position = int (unat MAX_NUMBER_OF_SCREENS) - int (unat position)"

definition ui_display_screens :: "u8 \<Rightarrow> ('h, 'y) app \<Rightarrow> bool \<times> u8 \<times> ('h, 'y) app" where
  "ui_display_screens position g =
     (if screens_left position < 2 then (False, position, g)
      else let g1 = put_step FLOW_END_STEP (position + 1) (put_step FLOW_LOOP position g);
               g2 = g1\<lparr>ux_flow_len := unat position + 2\<rparr>
           in (True, position + 2, app_set_ui_busy True g2))"

text \<open>The button a user can press: the steps of the displayed flow, as the array is now.\<close>

definition displayed_steps :: "('h, 'y) app \<Rightarrow> ux_step list" where
  "displayed_steps g = take (ux_flow_len g) (G_ux_flow_steps g)"

definition store_steps :: "u8 option \<Rightarrow> ux_step \<Rightarrow> ('h, 'y) app \<Rightarrow> ('h, 'y) app" where
  "store_steps p s g = (case p of None \<Rightarrow> g | Some i \<Rightarrow> put_step s i g)"

text \<open>Both pointers are taken in the order of the arguments.\<close>

definition ui_approve_reject_screens :: "ui_action \<Rightarrow> u8 option \<Rightarrow> u8 option \<Rightarrow> ('h, 'y) app \<Rightarrow> ('h, 'y) app" where
  "ui_approve_reject_screens cb approve reject g =
     store_steps reject ux_reject_step (store_steps approve ux_approve_step (g\<lparr>approve_reject_callback := Some cb\<rparr>))"

definition ui_sign_reject_screens :: "u8 option \<Rightarrow> u8 option \<Rightarrow> ('h, 'y) app \<Rightarrow> ('h, 'y) app" where
  "ui_sign_reject_screens sign reject g =
     store_steps reject ux_sign_reject_step (store_steps sign ux_sign_step (g\<lparr>sign_reject_callback := True\<rparr>))"

subsection \<open>Application and path screens\<close>

definition hex_digit :: "nat \<Rightarrow> char" where
  "hex_digit d = (if d < 10 then char_of (48 + d) else char_of (87 + d))"

text \<open>The format \<open>0x%08x\<close>.\<close>

definition hex_u32 :: "u32 \<Rightarrow> string" where
  "hex_u32 v = ''0x'' @ map (\<lambda>i. hex_digit (unat (drop_bit (4 * i) v) mod 16)) (rev [0..<8])"

definition ui_application_id_text :: "u32 \<Rightarrow> string" where
  "ui_application_id_text app_id = take (APPLICATION_ID_STR_LEN - 1) (hex_u32 app_id)"

text \<open>The text of the path screen, \<open>None\<close> when the function fails.\<close>

definition ui_bip32_path_screen :: "u32 list \<Rightarrow> u8 \<Rightarrow> nat \<Rightarrow> string option" where
  "ui_bip32_path_screen path path_len buffer_len = bip32_path_format path (unat path_len) buffer_len"

subsection \<open>Menus\<close>

definition show_flow :: "ux_step list \<Rightarrow> ('h, 'y) app \<Rightarrow> ('h, 'y) app" where
  "show_flow steps g = (case ui_add_screens steps 0 g of (pos, g1) \<Rightarrow> snd (snd (ui_display_screens pos g1)))"

definition show_page :: "nbgl_page \<Rightarrow> ('h, 'y) app \<Rightarrow> ('h, 'y) app" where
  "show_page p g = g\<lparr>pages := pages g @ [p]\<rparr>"

definition ui_menu_main :: "ui_library \<Rightarrow> ('h, 'y) app \<Rightarrow> ('h, 'y) app" where
  "ui_menu_main lib g =
     (case lib of
        HAVE_BAGL \<Rightarrow> app_set_ui_busy False
          (show_flow [ux_menu_ready_step, ux_menu_settings_step, ux_menu_about_step, ux_menu_exit_step] g)
      | HAVE_NBGL \<Rightarrow> show_page Page_home g)"

definition ui_menu_about :: "ui_library \<Rightarrow> ('h, 'y) app \<Rightarrow> ('h, 'y) app" where
  "ui_menu_about lib g =
     (case lib of
        HAVE_BAGL \<Rightarrow> app_set_ui_busy False (show_flow [ux_menu_info_step, ux_menu_version_step, ux_menu_back_step] g)
      | HAVE_NBGL \<Rightarrow> show_page Page_home g)"

definition ui_menu_settings :: "('h, 'y) app \<Rightarrow> ('h, 'y) app" where
  "ui_menu_settings g =
     app_set_ui_busy False (show_flow
       [if blind_signing_enabled g then ux_menu_bs_enabled_step else ux_menu_bs_disabled_step, ux_menu_back_step] g)"

definition toggle_blind_signing :: "('h, 'y) app \<Rightarrow> ('h, 'y) app" where
  "toggle_blind_signing g = ui_menu_settings (g\<lparr>blind_signing_enabled := \<not> blind_signing_enabled g\<rparr>)"

definition controls_callback :: "('h, 'y) app \<Rightarrow> ('h, 'y) app" where
  "controls_callback g = g\<lparr>blind_signing_enabled := \<not> blind_signing_enabled g\<rparr>"

subsection \<open>Dialogs of the touch screens\<close>

definition set_flow_response :: "bool \<Rightarrow> ('h, 'y) app \<Rightarrow> ('h, 'y) app" where
  "set_flow_response response g = app_set_ui_busy False (g\<lparr>flow_response := response\<rparr>)"

text \<open>The device waits, busy, until the dialog calls back with the answer.\<close>

definition io_ui_process :: "bool \<Rightarrow> ('h, 'y) app \<Rightarrow> bool \<times> ('h, 'y) app" where
  "io_ui_process answer g =
     (let g1 = set_flow_response answer (app_set_ui_busy True g) in (flow_response g1, g1))"

text \<open>A device after start, for the concrete runs.\<close>

definition demo_app :: "bytes ui_state" where
  "demo_app =
     \<lparr>connected_app_id = 0, session_key = replicate 16 1, current_command = CMD_NONE, is_ui_busy = False,
      commands_ctx = commands_zero demo_device, blind_signing_enabled = False, sent = [],
      G_ux_flow_steps = replicate 17 FLOW_NULL, ux_flow_len = 0, approve_reject_callback = None, sign_reject_callback = False,
      dynamic_screen_count = 0, dynamic_current_screen = 0, dynamic_title = '''', dynamic_text = '''',
      ui_pairs = replicate 210 ('''', ''''), ui_overrun = False, nb_pairs = 0, signtx_screen = 0, signtx_outputs_screen = 0,
      ainpt_sub_message = '''', flow_response = False, pages = []\<rparr>"

end
