(* ===== verification/UiDynamicFlow.thy ===== *)
theory UiDynamicFlow
  imports UiState StxText
begin

text \<open>
  The paging of the button devices, \<^verbatim>\<open>src/ui/ui_dynamic_flow.c\<close>: one step of a flow stands for
  any number of screens. Two invisible delimiter steps around it change the number of the current screen
  and move on, \<open>INDEX_NOT_EXIST\<close> being the number while the user is outside. The screens of signing are
  the stored pairs (\<open>ui_stx_dynamic_display\<close> of \<^verbatim>\<open>stx_ui_bagl.c\<close>).

  A position is the index of a step in the displayed flow; \<open>ux_flow_next\<close> of the SDK goes one step on and
  \<open>bnnn_paging_edgecase\<close> one step back. A delimiter acts as soon as it is entered.
\<close>

definition ui_stx_dynamic_display :: "('h, 'y) app \<Rightarrow> u8 \<Rightarrow> u16 \<times> string \<times> string" where
  "ui_stx_dynamic_display g screen =
     (case ui_pairs g ! unat screen of (title, txt) \<Rightarrow> (SW_OK, strncpy title 20, strncpy txt 70))"

text \<open>The macro \<open>DISPLAY_DYNAMIC_STATE\<close>, with the index that the method of switching leads to.\<close>

definition display_dynamic_state ::
    "('h, 'x) cx_device_scheme \<Rightarrow> nat \<Rightarrow> ('h, 'y) app \<Rightarrow> nat \<times> ('h, 'y) app" where
  "display_dynamic_state cx target g =
     (case ui_stx_dynamic_display g (dynamic_current_screen g) of (res, title, txt) \<Rightarrow>
        let g1 = g\<lparr>dynamic_title := title, dynamic_text := txt\<rparr> in
        if res = SW_OK then (target, g1)
        else (0, ui_menu_main HAVE_BAGL (res_error res (set_command cx CMD_NONE g1))))"

definition ui_dynamic_step_right ::
    "('h, 'x) cx_device_scheme \<Rightarrow> nat \<Rightarrow> ('h, 'y) app \<Rightarrow> nat \<times> ('h, 'y) app" where
  "ui_dynamic_step_right cx index g =
     (if dynamic_current_screen g = INDEX_NOT_EXIST then
        display_dynamic_state cx (index - 1) (g\<lparr>dynamic_current_screen := dynamic_screen_count g - 1\<rparr>)
      else if int (unat (dynamic_current_screen g)) < int (unat (dynamic_screen_count g)) - 1 then
        display_dynamic_state cx (index - 1) (g\<lparr>dynamic_current_screen := dynamic_current_screen g + 1\<rparr>)
      else (index + 1, g\<lparr>dynamic_current_screen := INDEX_NOT_EXIST\<rparr>))"

definition ui_dynamic_step_left ::
    "('h, 'x) cx_device_scheme \<Rightarrow> nat \<Rightarrow> ('h, 'y) app \<Rightarrow> nat \<times> ('h, 'y) app" where
  "ui_dynamic_step_left cx index g =
     (if dynamic_current_screen g = INDEX_NOT_EXIST then
        display_dynamic_state cx (index + 1) (g\<lparr>dynamic_current_screen := 0\<rparr>)
      else if dynamic_current_screen g = 0 then (index - 1, g\<lparr>dynamic_current_screen := INDEX_NOT_EXIST\<rparr>)
      else display_dynamic_state cx (index + 1) (g\<lparr>dynamic_current_screen := dynamic_current_screen g - 1\<rparr>))"

text \<open>Entering a step.\<close>

definition enter_step :: "('h, 'x) cx_device_scheme \<Rightarrow> nat \<Rightarrow> ('h, 'y) app \<Rightarrow> nat \<times> ('h, 'y) app" where
  "enter_step cx index g =
     (if displayed_steps g ! index = ux_dynamic_upper_delimiter_step then ui_dynamic_step_left cx index g
      else if displayed_steps g ! index = ux_dynamic_lower_delimiter_step then ui_dynamic_step_right cx index g
      else (index, g))"

definition ui_add_dynamic_flow_screens :: "u8 \<Rightarrow> u8 \<Rightarrow> ('h, 'y) app \<Rightarrow> bool \<times> u8 \<times> ('h, 'y) app" where
  "ui_add_dynamic_flow_screens screen dyn_count g =
     (if screens_left screen < 3 \<or> dyn_count = 0 \<or> dyn_count = INDEX_NOT_EXIST then (False, screen, g)
      else let g1 = g\<lparr>dynamic_title := '''', dynamic_text := '''', dynamic_screen_count := dyn_count,
                      dynamic_current_screen := INDEX_NOT_EXIST\<rparr>;
               out = ui_add_screens [ux_dynamic_upper_delimiter_step, ux_dynamic_step, ux_dynamic_lower_delimiter_step] screen g1
           in (True, fst out, snd out))"

subsection \<open>Properties\<close>

text \<open>Pressing the right button again and again: the texts seen on the paged step, the position and the state at the end.\<close>

primrec press_right ::
    "('h, 'x) cx_device_scheme \<Rightarrow> nat \<Rightarrow> nat \<Rightarrow> ('h, 'y) app \<Rightarrow> (string \<times> string) list \<times> nat \<times> ('h, 'y) app" where
  "press_right cx 0 index g = ([], index, g)"
| "press_right cx (Suc n) index g =
     (case enter_step cx (index + 1) g of (i1, g1) \<Rightarrow>
        case press_right cx n i1 g1 of (seen, i2, g2) \<Rightarrow>
          ((if displayed_steps g1 ! i1 = ux_dynamic_step then [(dynamic_title g1, dynamic_text g1)] else []) @ seen, i2, g2))"

text \<open>The flow has the three steps of the paging at \<open>u\<close>, after a first static step.\<close>

definition paging_at :: "nat \<Rightarrow> ('h, 'y) app \<Rightarrow> bool" where
  "paging_at u g \<longleftrightarrow> 0 < u \<and> u + 2 < length (displayed_steps g) \<and>
     displayed_steps g ! u = ux_dynamic_upper_delimiter_step \<and> displayed_steps g ! (u + 1) = ux_dynamic_step \<and>
     displayed_steps g ! (u + 2) = ux_dynamic_lower_delimiter_step"

definition pair_text :: "('h, 'y) app \<Rightarrow> nat \<Rightarrow> string \<times> string" where
  "pair_text g i = (take 20 (fst (ui_pairs g ! i)), take 70 (snd (ui_pairs g ! i)))"

lemma display_dynamic_state_eq:
  "display_dynamic_state cx t g =
     (t, g\<lparr>dynamic_title := fst (pair_text g (unat (dynamic_current_screen g))),
           dynamic_text := snd (pair_text g (unat (dynamic_current_screen g)))\<rparr>)"
  by (simp add: display_dynamic_state_def ui_stx_dynamic_display_def pair_text_def strncpy_def sw_defs split: prod.splits)

lemma paging_simps [simp]:
  "displayed_steps (g\<lparr>dynamic_current_screen := a\<rparr>) = displayed_steps g"
  "displayed_steps (g\<lparr>dynamic_title := t\<rparr>) = displayed_steps g" "displayed_steps (g\<lparr>dynamic_text := t\<rparr>) = displayed_steps g"
  "pair_text (g\<lparr>dynamic_current_screen := a\<rparr>) = pair_text g"
  "pair_text (g\<lparr>dynamic_title := t\<rparr>) = pair_text g" "pair_text (g\<lparr>dynamic_text := t\<rparr>) = pair_text g"
  by (simp_all add: displayed_steps_def pair_text_def fun_eq_iff)

lemma press_right_from:
  assumes "paging_at u g" "unat (dynamic_screen_count g) = count" "count < 255"
    and "unat (dynamic_current_screen g) = k" "k < count"
  shows "\<exists>g'. press_right cx (count - 1 - k) (u + 1) g = (map (pair_text g) [Suc k..<count], u + 1, g') \<and>
     displayed_steps g' = displayed_steps g \<and> unat (dynamic_screen_count g') = count \<and>
     unat (dynamic_current_screen g') = count - 1"
  using assms
proof (induction "count - 1 - k" arbitrary: k g)
  case 0
  then show ?case by simp
next
  case (Suc n)
  let ?c = "dynamic_current_screen g"
  have c: "?c \<noteq> INDEX_NOT_EXIST" using Suc.prems by (auto simp: INDEX_NOT_EXIST_def)
  have n: "n = count - 1 - Suc k" using Suc.hyps(2) by simp
  have u1: "unat (?c + 1) = Suc k" using Suc.prems by (simp add: word_add_no_wrap)
  let ?g = "g\<lparr>dynamic_current_screen := ?c + 1, dynamic_title := fst (pair_text g (Suc k)), dynamic_text := snd (pair_text g (Suc k))\<rparr>"
  have e: "enter_step cx (u + 1 + 1) g = (u + 1, ?g)"
    using Suc.prems Suc.hyps(2) c u1
    by (simp add: enter_step_def paging_at_def ui_dynamic_step_right_def display_dynamic_state_eq)
  have p: "paging_at u ?g" "unat (dynamic_screen_count ?g) = count" "unat (dynamic_current_screen ?g) = Suc k" "Suc k < count"
    using Suc.prems Suc.hyps(2) u1 by (simp_all add: paging_at_def)
  obtain g' where g': "press_right cx n (u + 1) ?g = (map (pair_text g) [Suc (Suc k)..<count], u + 1, g')"
    "displayed_steps g' = displayed_steps g" "unat (dynamic_screen_count g') = count"
    "unat (dynamic_current_screen g') = count - 1"
    using Suc.hyps(1) [OF n p(1,2) assms(3) p(3,4)] unfolding n [symmetric] by auto
  have "[Suc k..<count] = Suc k # [Suc (Suc k)..<count]" using p(4) by (simp add: upt_rec)
  then show ?case using g' e Suc.prems(1) unfolding Suc.hyps(2) [symmetric] by (simp add: paging_at_def)
qed

lemma press_right_append:
  "press_right cx (m + n) i g =
     (case press_right cx m i g of (s1, i1, g1) \<Rightarrow> case press_right cx n i1 g1 of (s2, i2, g2) \<Rightarrow> (s1 @ s2, i2, g2))"
  by (induction m arbitrary: i g) (simp_all split: prod.splits)

text \<open>
  C37. Paging shows everything. From the step in front of the paging, the right button shows the
  stored pairs one by one and in order, each on a screen of its own and none twice, and only the press
  after the last of them leaves the paging for the step behind it (the button that signs).
\<close>

theorem paging_shows_every_pair:
  assumes "paging_at u g" and "dynamic_current_screen g = INDEX_NOT_EXIST"
    and "unat (dynamic_screen_count g) = count" "0 < count" "count < 255" "displayed_steps g ! (u + 3) = ux_sign_step"
  shows "\<exists>g1 g2. press_right cx count (u - 1) g = (map (pair_text g) [0..<count], u + 1, g1) \<and>
     press_right cx (count + 1) (u - 1) g = (map (pair_text g) [0..<count], u + 3, g2) \<and>
     dynamic_current_screen g2 = INDEX_NOT_EXIST"
proof -
  obtain n where n: "count = Suc n" using assms(4) by (cases count) auto
  let ?g = "g\<lparr>dynamic_current_screen := 0, dynamic_title := fst (pair_text g 0), dynamic_text := snd (pair_text g 0)\<rparr>"
  have first: "enter_step cx (u - 1 + 1) g = (u + 1, ?g)"
    using assms(1,2) by (simp add: enter_step_def paging_at_def ui_dynamic_step_left_def display_dynamic_state_eq)
  have p: "paging_at u ?g" "unat (dynamic_screen_count ?g) = count" "unat (dynamic_current_screen ?g) = 0"
    using assms(1,3) by (simp_all add: paging_at_def)
  obtain g' where g': "press_right cx n (u + 1) ?g = (map (pair_text g) [Suc 0..<count], u + 1, g')"
    "displayed_steps g' = displayed_steps g" "unat (dynamic_screen_count g') = count" "unat (dynamic_current_screen g') = count - 1"
    using press_right_from [OF p(1,2) assms(5) p(3) assms(4)] n by auto
  have "[0..<count] = 0 # [Suc 0..<count]" using assms(4) by (simp add: upt_rec)
  then have all: "press_right cx count (u - 1) g = (map (pair_text g) [0..<count], u + 1, g')"
    using g'(1) first n assms(1) by (simp add: paging_at_def)
  have "dynamic_current_screen g' \<noteq> INDEX_NOT_EXIST" using g'(4) assms(5) by (auto simp: INDEX_NOT_EXIST_def)
  moreover have "\<not> int (count - Suc 0) < int count - 1" using assms(4) by (simp add: of_nat_diff)
  ultimately have "enter_step cx (u + 1 + 1) g' = (u + 3, g'\<lparr>dynamic_current_screen := INDEX_NOT_EXIST\<rparr>)"
    using assms(1) g' by (simp add: enter_step_def paging_at_def ui_dynamic_step_right_def)
  then have "press_right cx 1 (u + 1) g' = ([], u + 3, g'\<lparr>dynamic_current_screen := INDEX_NOT_EXIST\<rparr>)"
    using assms(6) g'(2) by simp
  then have "press_right cx (count + 1) (u - 1) g = (map (pair_text g) [0..<count], u + 3, g'\<lparr>dynamic_current_screen := INDEX_NOT_EXIST\<rparr>)"
    unfolding press_right_append all by simp
  then show ?thesis using all by (intro exI [of _ g'] exI [of _ "g'\<lparr>dynamic_current_screen := INDEX_NOT_EXIST\<rparr>"]) simp
qed

text \<open>Witness: two pairs between a first screen and the buttons.\<close>

definition demo_paging :: "bytes ui_state" where
  "demo_paging = demo_app\<lparr>G_ux_flow_steps := [ux_bip32_path_step, ux_dynamic_upper_delimiter_step, ux_dynamic_step,
       ux_dynamic_lower_delimiter_step, ux_sign_step, ux_sign_reject_step, FLOW_LOOP, FLOW_END_STEP],
     ux_flow_len := 8, dynamic_screen_count := 2, dynamic_current_screen := INDEX_NOT_EXIST,
     ui_pairs := [(''Fee'', ''0.1 ERG''), (''Token [1]'', ''aa'')]\<rparr>"

theorem paging_shows_every_pair_witness:
  "\<exists>g2. press_right demo_device 3 0 demo_paging = ([(''Fee'', ''0.1 ERG''), (''Token [1]'', ''aa'')], 4, g2)"
proof -
  have "paging_at 1 demo_paging" "displayed_steps demo_paging ! (1 + 3) = ux_sign_step"
    by (simp_all add: paging_at_def displayed_steps_def demo_paging_def)
  moreover have "dynamic_current_screen demo_paging = INDEX_NOT_EXIST" "unat (dynamic_screen_count demo_paging) = 2"
    by (simp_all add: demo_paging_def)
  moreover have "map (pair_text demo_paging) [0..<2] = [(''Fee'', ''0.1 ERG''), (''Token [1]'', ''aa'')]"
    by (simp add: pair_text_def demo_paging_def upt_rec)
  ultimately show ?thesis using paging_shows_every_pair [of 1 demo_paging 2 demo_device] by auto
qed

end
