(* ===== verification/StxUi.thy ===== *)
theory StxUi
  imports UiDynamicFlow
begin

text \<open>
  The screens of signing: \<^verbatim>\<open>src/commands/signtx/stx_ui_bagl.c\<close>,
  \<^verbatim>\<open>stx_ui_nbgl.c\<close>, \<^verbatim>\<open>stx_response.c\<close> and the second half of
  \<^verbatim>\<open>operations/stx_op_p2pk.c\<close>.

  Nothing is shown while the transaction arrives: the texts of an output are stored as pairs when it is
  complete, and the user sees all of them before the confirmation. The operation is approved without a
  question. The names \<open>bagl_\<close> and \<open>nbgl_\<close> stand for the two files; \<open>lib\<close> chooses between them as the
  preprocessor does. A step of a flow that has a callback is a button (\<open>press\<close>), and
  \<open>None\<close> is a call through a null pointer.
\<close>

definition the_stx :: "('h, 'y) app \<Rightarrow> 'h sign_transaction_ctx_t" where
  "the_stx g = sign_tx (commands_ctx g)"

definition upd_stx :: "('h sign_transaction_ctx_t \<Rightarrow> 'h sign_transaction_ctx_t) \<Rightarrow> ('h, 'y) app \<Rightarrow> ('h, 'y) app" where
  "upd_stx f g = g\<lparr>commands_ctx := (commands_ctx g)\<lparr>sign_tx := f (sign_tx (commands_ctx g))\<rparr>\<rparr>"

definition the_p2pk :: "('h, 'y) app \<Rightarrow> 'h p2pk" where "the_p2pk g = stx_p2pk (the_stx g)"

definition upd_p2pk :: "('h p2pk \<Rightarrow> 'h p2pk) \<Rightarrow> ('h, 'y) app \<Rightarrow> ('h, 'y) app" where
  "upd_p2pk f g = upd_stx (\<lambda>s. s\<lparr>stx_p2pk := f (stx_p2pk s)\<rparr>) g"

definition upd_ui :: "(p2pk_ui_ctx \<Rightarrow> p2pk_ui_ctx) \<Rightarrow> ('h, 'y) app \<Rightarrow> ('h, 'y) app" where
  "upd_ui f g = upd_stx (\<lambda>s. s\<lparr>stx_ui := f (stx_ui s)\<rparr>) g"

text \<open>\<open>handler_err\<close> of the operation, and an operation run on the device.\<close>

definition p2pk_handler_err :: "('h, 'x) cx_device_scheme \<Rightarrow> u16 \<Rightarrow> ('h, 'y) app \<Rightarrow> u16 \<times> ('h, 'y) app" where
  "p2pk_handler_err cx err g =
     (err, set_command cx CMD_NONE (upd_p2pk (\<lambda>p. p\<lparr>p2_state := SIGN_TRANSACTION_OPERATION_P2PK_STATE_ERROR\<rparr>) g))"

definition p2pk_call :: "('h, 'x) cx_device_scheme \<Rightarrow> u16 + 'h p2pk \<Rightarrow> ('h, 'y) app \<Rightarrow> u16 \<times> ('h, 'y) app" where
  "p2pk_call cx r g = (case r of Inl err \<Rightarrow> p2pk_handler_err cx err g | Inr p \<Rightarrow> (SW_OK, upd_p2pk (\<lambda>_. p) g))"

text \<open>The static array of pairs.\<close>

definition N_UX_PAIRS :: nat where "N_UX_PAIRS = unat TOKEN_MAX_COUNT * 2 + 10"

definition pair_store :: "nat \<Rightarrow> string \<times> string \<Rightarrow> ('h, 'y) app \<Rightarrow> ('h, 'y) app" where
  "pair_store i p g = (if i < N_UX_PAIRS then g\<lparr>ui_pairs := (ui_pairs g)[i := p]\<rparr> else g\<lparr>ui_overrun := True\<rparr>)"

text \<open>The loop that stores the texts of the screens \<open>is\<close> from a pair on; the status words of the texts are ignored.\<close>

primrec store_pairs :: "(u8 \<Rightarrow> u16 \<times> string \<times> string) \<Rightarrow> nat list \<Rightarrow> nat \<Rightarrow> ('h, 'y) app \<Rightarrow> ('h, 'y) app" where
  "store_pairs display [] pair_index g = g"
| "store_pairs display (i # is) pair_index g =
     store_pairs display is (pair_index + 1) (pair_store pair_index (snd (display (of_nat i))) g)"

definition send_response_sign_transaction_session_id :: "u8 \<Rightarrow> ('h, 'y) app \<Rightarrow> ('h, 'y) app" where
  "send_response_sign_transaction_session_id session_id g = res_ok_data [session_id] g"

subsection \<open>Approving the operation\<close>

definition ui_stx_operation_approve_reject ::
    "ui_library \<Rightarrow> ('h, 'x) cx_device_scheme \<Rightarrow> bool \<Rightarrow> ('h, 'y) app \<Rightarrow> ('h, 'y) app" where
  "ui_stx_operation_approve_reject lib cx approved g =
     (let g1 = app_set_ui_busy False g in
      if approved then
        send_response_sign_transaction_session_id (stx_session (the_stx g1))
          (upd_stx (\<lambda>s. s\<lparr>stx_state := SIGN_TRANSACTION_STATE_APPROVED\<rparr>)
            (app_set_connected_app_id (up_app_token_value (stx_ui (the_stx g1))) g1))
      else ui_menu_main lib (res_deny (set_command cx CMD_NONE g1)))"

definition set_approve_ctx :: "u32 \<Rightarrow> bool \<Rightarrow> ('h, 'y) app \<Rightarrow> ('h, 'y) app" where
  "set_approve_ctx app_access_token known g =
     upd_ui (\<lambda>u. u\<lparr>up_app_token_value := app_access_token, up_is_known_application := known\<rparr>) g"

definition set_app_token :: "u32 \<Rightarrow> ('h, 'y) app \<Rightarrow> ('h, 'y) app" where
  "set_app_token app_access_token g = upd_ui (\<lambda>u. u\<lparr>up_app_token := ui_application_id_text app_access_token\<rparr>) g"

definition bagl_stx_add_operation_approve_screens ::
    "('h, 'x) cx_device_scheme \<Rightarrow> u32 \<Rightarrow> bool \<Rightarrow> ('h, 'y) app \<Rightarrow> bool \<times> ('h, 'y) app" where
  "bagl_stx_add_operation_approve_screens cx app_access_token known g =
     (if screens_left (signtx_screen g) < 3 then (False, g)
      else let g1 = (if \<not> known \<and> app_access_token \<noteq> 0 then
                       case ui_add_screen ux_app_token_step (signtx_screen g) (set_app_token app_access_token g) of
                         (_, pos, g') \<Rightarrow> g'\<lparr>signtx_screen := pos\<rparr>
                     else g)
           in (True, ui_stx_operation_approve_reject HAVE_BAGL cx True (set_approve_ctx app_access_token known g1)))"

definition nbgl_stx_add_operation_approve_screens ::
    "('h, 'x) cx_device_scheme \<Rightarrow> u32 \<Rightarrow> bool \<Rightarrow> ('h, 'y) app \<Rightarrow> bool \<times> ('h, 'y) app" where
  "nbgl_stx_add_operation_approve_screens cx app_access_token known g =
     (if screens_left (signtx_screen g) < 3 then (False, g)
      else let add = (\<not> known \<and> app_access_token \<noteq> 0);
               g1 = (if add then pair_store 0 (''Application'', ui_application_id_text app_access_token)
                                   (set_app_token app_access_token g) else g);
               g2 = (set_approve_ctx app_access_token known g1)\<lparr>nb_pairs := if add then 1 else 0\<rparr>
           in (True, ui_stx_operation_approve_reject HAVE_NBGL cx True g2))"

subsection \<open>Outputs\<close>

text \<open>Both files compute the number of screens of an output in the same way, in \<open>uint8_t\<close>.\<close>

definition output_screen_count :: "'h output_info \<Rightarrow> u8" where
  "output_screen_count out =
     (if stx_output_info_type out \<noteq> SIGN_TRANSACTION_OUTPUT_INFO_TYPE_BIP32
      then 1 + (1 + 2 * stx_output_info_used_tokens_count out) else 1)"

text \<open>The change path that was approved last: erased, and set when the output is change.\<close>

definition store_approved_change :: "'h out_views \<Rightarrow> ('h, 'y) app \<Rightarrow> ('h, 'y) app" where
  "store_approved_change V g =
     upd_p2pk (\<lambda>p. let out = pm_output (p2_mem p) in
       p\<lparr>last_approved_change :=
           if stx_output_info_type out = SIGN_TRANSACTION_OUTPUT_INFO_TYPE_BIP32 then out_path V out else bip32_path_zero\<rparr>) g"

definition bagl_output_confirm_action ::
    "('h, 'x) cx_device_scheme \<Rightarrow> 'h out_views \<Rightarrow> bool \<Rightarrow> ('h, 'y) app \<Rightarrow> bool \<times> ('h, 'y) app" where
  "bagl_output_confirm_action cx V approved g =
     (let g1 = upd_p2pk (\<lambda>p. p\<lparr>last_approved_change := bip32_path_zero\<rparr>) (app_set_ui_busy False g) in
      if approved then (True, store_approved_change V g1)
      else (False, ui_menu_main HAVE_BAGL (set_command cx CMD_NONE g1)))"

definition output_display ::
    "('h, 'x) cx_device_scheme \<Rightarrow> sdk_format \<Rightarrow> 'h out_views \<Rightarrow> ('h, 'y) app \<Rightarrow> u8 \<Rightarrow> u16 \<times> string \<times> string" where
  "output_display cx fmt V g =
     (let p = the_p2pk g in ui_stx_display_output_state cx fmt V (p2_network_id p) (pm_output (p2_mem p)) (tokens_table (p2_mem p)))"

definition bagl_stx_add_output_screens ::
    "('h, 'x) cx_device_scheme \<Rightarrow> sdk_format \<Rightarrow> 'h out_views \<Rightarrow> ('h, 'y) app \<Rightarrow> bool \<times> ('h, 'y) app" where
  "bagl_stx_add_output_screens cx fmt V g =
     (if screens_left (signtx_screen g) < 6 then (False, g)
      else let g1 = upd_p2pk (\<lambda>p. p\<lparr>last_approved_change := bip32_path_zero\<rparr>) g;
               count = output_screen_count (pm_output (p2_mem (the_p2pk g1))) in
        case bagl_output_confirm_action cx V True g1 of (ok, g2) \<Rightarrow>
          if \<not> ok then (False, res_deny g2)
          else let pair_index = unat (signtx_outputs_screen g2);
                   g3 = store_pairs (output_display cx fmt V g2) [0..<unat count] pair_index g2;
                   g4 = g3\<lparr>signtx_outputs_screen := of_nat (pair_index + unat count)\<rparr>
               in if screens_left (signtx_screen g4) < 2 then (False, g4)
                  else (True, res_ok (store_approved_change V g4)))"

definition nbgl_stx_add_output_screens ::
    "('h, 'x) cx_device_scheme \<Rightarrow> sdk_format \<Rightarrow> 'h out_views \<Rightarrow> ('h, 'y) app \<Rightarrow> bool \<times> ('h, 'y) app" where
  "nbgl_stx_add_output_screens cx fmt V g =
     (if screens_left (signtx_screen g) < 6 then (False, g)
      else let g1 = upd_p2pk (\<lambda>p. p\<lparr>last_approved_change := bip32_path_zero\<rparr>) g;
               count = output_screen_count (pm_output (p2_mem (the_p2pk g1))) in
        if screens_left (signtx_screen g1) < 2 then (False, g1)
        else let pair_index = nb_pairs g1;
                 g2 = store_pairs (output_display cx fmt V g1) [0..<unat count] pair_index g1;
                 g3 = g2\<lparr>signtx_outputs_screen := of_nat (pair_index + unat count), nb_pairs := nb_pairs g2 + unat count\<rparr>
             in (True, res_ok (store_approved_change V g3)))"

subsection \<open>The response\<close>

text \<open>The array of the signature is given the value zero before it is filled.\<close>

definition ui_stx_operation_p2pk_send_response ::
    "('h, 'x) cx_device_scheme \<Rightarrow> ('h, 'y) app \<Rightarrow> ('h, 'y) app" where
  "ui_stx_operation_p2pk_send_response cx g =
     (let p = the_p2pk g; erase = (\<lambda>p. p\<lparr>schnorr_key := replicate (unat PRIVATE_KEY_LEN) 0\<rparr>) in
      if p2_state p \<noteq> SIGN_TRANSACTION_OPERATION_P2PK_STATE_FINALIZED then
        res_error SW_BAD_STATE (set_command cx CMD_NONE g)
      else case crypto_generate_private_key cx (bp_path (p2_bip32 p)) (bp_len (p2_bip32 p)) [] of (r, secret) \<Rightarrow>
        if r \<noteq> 0 then res_error SW_INTERNAL_CRYPTO_ERROR (set_command cx CMD_NONE (upd_p2pk erase g))
        else case ergo_secp256k1_schnorr_p2pk_sign_finish cx (replicate (unat ERGO_SIGNATURE_LEN) 0) (hash_ctx (p2_mem p)) secret
                    (schnorr_key p) of (finished, h, signature) \<Rightarrow>
          let g1 = upd_p2pk (\<lambda>p. erase (p\<lparr>p2_mem := (p2_mem p)\<lparr>hash_ctx := h\<rparr>\<rparr>)) g in
          if finished then res_ok_data signature g1
          else res_error SW_SCHNORR_SIGNING_FAILED (set_command cx CMD_NONE g1))"

text \<open>The callback \<open>op_response_cb\<close> of the confirmation.\<close>

definition call_response :: "('h, 'x) cx_device_scheme \<Rightarrow> ('h, 'y) app \<Rightarrow> ('h, 'y) app option" where
  "call_response cx g =
     (if up_response_cb (stx_ui (the_stx g)) then Some (ui_stx_operation_p2pk_send_response cx g) else None)"

definition bagl_operation_execute_action ::
    "('h, 'x) cx_device_scheme \<Rightarrow> bool \<Rightarrow> ('h, 'y) app \<Rightarrow> ('h, 'y) app option" where
  "bagl_operation_execute_action cx approved g =
     (let g1 = app_set_ui_busy False g in
      map_option (\<lambda>g2. ui_menu_main HAVE_BAGL (set_command cx CMD_NONE g2))
        (if approved then call_response cx g1 else Some (res_deny g1)))"

subsection \<open>The confirmation\<close>

definition tx_display ::
    "sdk_format \<Rightarrow> u8 \<Rightarrow> ('h, 'y) app \<Rightarrow> u8 \<Rightarrow> u16 \<times> string \<times> string" where
  "tx_display fmt op_screen_count g =
     ui_stx_display_tx_state fmt op_screen_count (ui_stx_operation_p2pk_show_tx_screen (p2_bip32 (the_p2pk g)))
       (amounts (p2_mem (the_p2pk g)))"

definition set_confirm_ctx :: "u8 \<Rightarrow> bool \<Rightarrow> ('h, 'y) app \<Rightarrow> ('h, 'y) app" where
  "set_confirm_ctx op_screen_count cb g = upd_ui (\<lambda>u. u\<lparr>up_op_screen_count := op_screen_count, up_response_cb := cb\<rparr>) g"

definition tx_pairs_count :: "u8 \<Rightarrow> sign_transaction_amounts_ctx_t \<Rightarrow> nat" where
  "tx_pairs_count op_screen_count am = unat op_screen_count + 1 + 2 * unat (stx_amounts_non_zero_tokens_count am)"

definition bagl_stx_add_transaction_screens ::
    "sdk_format \<Rightarrow> u8 \<Rightarrow> ('h, 'y) app \<Rightarrow> bool \<times> ('h, 'y) app" where
  "bagl_stx_add_transaction_screens fmt op_screen_count g =
     (if screens_left (signtx_screen g) < 6 then (False, g)
      else let g1 = set_confirm_ctx op_screen_count True g;
               pairs_count = tx_pairs_count op_screen_count (amounts (p2_mem (the_p2pk g1)));
               pair_index = unat (signtx_outputs_screen g1);
               g2 = store_pairs (tx_display fmt op_screen_count g1) [0..<pairs_count] pair_index g1 in
        case ui_add_dynamic_flow_screens (signtx_screen g2) (of_nat (pair_index + pairs_count)) g2 of (ok, pos, g3) \<Rightarrow>
          let g4 = g3\<lparr>signtx_screen := pos\<rparr> in
          if \<not> ok \<or> screens_left pos < 2 then (False, g4)
          else case ui_next_sreen_ptr pos of (sign, pos1) \<Rightarrow> case ui_next_sreen_ptr pos1 of (reject, pos2) \<Rightarrow>
            (True, ui_sign_reject_screens sign reject (g4\<lparr>signtx_screen := pos2\<rparr>)))"

text \<open>\<open>answer\<close> is what the user says to the dialog. The pairs of the review are the first \<open>nbPairs\<close> of the array.\<close>

definition nbgl_stx_add_transaction_screens ::
    "('h, 'x) cx_device_scheme \<Rightarrow> sdk_format \<Rightarrow> u8 \<Rightarrow> u8 \<Rightarrow> bool \<Rightarrow> ('h, 'y) app \<Rightarrow> bool \<times> ('h, 'y) app" where
  "nbgl_stx_add_transaction_screens cx fmt blind_required op_screen_count answer g =
     (if screens_left (signtx_screen g) < 6 then (False, g)
      else let g0 = set_confirm_ctx 0 False g in
      if blind_required \<noteq> 0 \<and> \<not> blind_signing_enabled g0 then
        (case io_ui_process answer (show_page (Page_choice ''This transaction cannot be clear-signed''
                ''Enable blind signing in the settings to sign this transaction.'') g0) of (approved, g1) \<Rightarrow>
           let g2 = res_deny (set_command cx CMD_NONE g1) in
           (True, if approved then ui_menu_about HAVE_NBGL g2 else ui_menu_main HAVE_NBGL g2))
      else let g1 = set_confirm_ctx op_screen_count True g0;
               pairs_count = tx_pairs_count op_screen_count (amounts (p2_mem (the_p2pk g1)));
               pair_index = nb_pairs g1;
               g2 = store_pairs (tx_display fmt op_screen_count g1) [0..<pairs_count] pair_index g1;
               g3 = g2\<lparr>signtx_outputs_screen := of_nat (pair_index + pairs_count), nb_pairs := pair_index + pairs_count\<rparr>;
               page = Page_review (blind_required \<noteq> 0) (take (nb_pairs g3) (ui_pairs g3)) (up_bip32_path (stx_ui (the_stx g3))) in
        case io_ui_process answer (show_page page g3) of (approved, g4) \<Rightarrow>
          let g5 = (if approved then
                      show_page (Page_status ''signed'') (set_command cx CMD_NONE (ui_stx_operation_p2pk_send_response cx g4))
                    else show_page (Page_status ''rejected'') (set_command cx CMD_NONE (res_deny g4))) in
          (True, ui_menu_main HAVE_NBGL (snd (io_ui_process True g5))))"

subsection \<open>The screens of the operation\<close>

definition MAX_PATH_TEXT :: nat where "MAX_PATH_TEXT = unat MAX_BIP32_STRING_LEN"

definition ui_stx_operation_p2pk_show_token_and_path ::
    "ui_library \<Rightarrow> ('h, 'x) cx_device_scheme \<Rightarrow> u32 \<Rightarrow> bool \<Rightarrow> ('h, 'y) app \<Rightarrow> u16 \<times> ('h, 'y) app" where
  "ui_stx_operation_p2pk_show_token_and_path lib cx app_access_token known g =
     (let g0 = g\<lparr>signtx_screen := 0, signtx_outputs_screen := 0\<rparr>; path = p2_bip32 (the_p2pk g0) in
      case ui_bip32_path_screen (bp_path path) (bp_len path) MAX_PATH_TEXT of
        None \<Rightarrow> (SW_BIP32_FORMATTING_FAILED, upd_ui (\<lambda>u. u\<lparr>up_bip32_path := ''''\<rparr>) g0)
      | Some s \<Rightarrow>
          (let g1 = upd_ui (\<lambda>u. u\<lparr>up_bip32_path := s\<rparr>) g0;
               g2 = (case lib of
                       HAVE_BAGL \<Rightarrow> (case ui_add_screen ux_bip32_path_step (signtx_screen g1) g1 of (_, pos, g') \<Rightarrow> g'\<lparr>signtx_screen := pos\<rparr>)
                     | HAVE_NBGL \<Rightarrow> g1);
               out = (case lib of
                        HAVE_BAGL \<Rightarrow> bagl_stx_add_operation_approve_screens cx app_access_token known g2
                      | HAVE_NBGL \<Rightarrow> nbgl_stx_add_operation_approve_screens cx app_access_token known g2)
           in (if fst out then SW_OK else SW_SCREENS_BUFFER_OVERFLOW, snd out)))"

text \<open>The warning flow of the button devices, with its own display.\<close>

definition bagl_blind_signing_warning :: "('h, 'y) app \<Rightarrow> u16 \<times> ('h, 'y) app" where
  "bagl_blind_signing_warning g =
     (case ui_add_screens [ux_stx_blind_signing_enable_warn1_step, ux_stx_blind_signing_enable_warn2_step,
             ux_stx_blind_signing_enable_settings_step, ux_stx_blind_signing_enable_txreject_step] (signtx_screen g) g of
        (pos, g1) \<Rightarrow>
          case ui_display_screens pos (g1\<lparr>signtx_screen := pos\<rparr>) of (ok, _, g2) \<Rightarrow>
            (if ok then SW_OK else SW_SCREENS_BUFFER_OVERFLOW, g2))"

definition ui_stx_operation_p2pk_show_output_confirm_screen ::
    "ui_library \<Rightarrow> ('h, 'x) cx_device_scheme \<Rightarrow> sdk_format \<Rightarrow> 'h out_views \<Rightarrow> ('h, 'y) app \<Rightarrow> u16 \<times> ('h, 'y) app" where
  "ui_stx_operation_p2pk_show_output_confirm_screen lib cx fmt V g =
     (if p2_state (the_p2pk g) \<noteq> SIGN_TRANSACTION_OPERATION_P2PK_STATE_OUTPUTS_STARTED \<and>
         p2_state (the_p2pk g) \<noteq> SIGN_TRANSACTION_OPERATION_P2PK_STATE_TX_FINISHED then p2pk_handler_err cx SW_BAD_STATE g
      else let blind = is_blind_signing_tx (pm_output (p2_mem (the_p2pk g)));
               g1 = (if blind then upd_p2pk (\<lambda>p. p\<lparr>blind_signing_required := 1\<rparr>) g else g) in
        case lib of
          HAVE_BAGL \<Rightarrow>
            if blind \<and> \<not> blind_signing_enabled g1 then bagl_blind_signing_warning g1
            else let g2 = (if blind then
                             case ui_add_screen ux_stx_blind_signing_step (signtx_screen g1) g1 of (_, pos, g') \<Rightarrow> g'\<lparr>signtx_screen := pos\<rparr>
                           else g1);
                     out = bagl_stx_add_output_screens cx fmt V g2
                 in (if fst out then SW_OK else SW_SCREENS_BUFFER_OVERFLOW, snd out)
        | HAVE_NBGL \<Rightarrow>
            let out = nbgl_stx_add_output_screens cx fmt V g1
            in (if fst out then SW_OK else SW_SCREENS_BUFFER_OVERFLOW, snd out))"

definition ui_stx_operation_p2pk_show_confirm_screen ::
    "ui_library \<Rightarrow> ('h, 'x) cx_device_scheme \<Rightarrow> sdk_format \<Rightarrow> bool \<Rightarrow> ('h, 'y) app \<Rightarrow> u16 \<times> ('h, 'y) app" where
  "ui_stx_operation_p2pk_show_confirm_screen lib cx fmt answer g =
     (if p2_state (the_p2pk g) \<noteq> SIGN_TRANSACTION_OPERATION_P2PK_STATE_TX_FINISHED then p2pk_handler_err cx SW_BAD_STATE g
      else let g1 = upd_p2pk (\<lambda>p. p\<lparr>p2_state := SIGN_TRANSACTION_OPERATION_P2PK_STATE_FINALIZED\<rparr>) g in
        case lib of
          HAVE_BAGL \<Rightarrow>
            (case bagl_stx_add_transaction_screens fmt 0 g1 of (ok, g2) \<Rightarrow>
               if \<not> ok then (SW_SCREENS_BUFFER_OVERFLOW, g2)
               else case ui_display_screens (signtx_screen g2) g2 of (ok2, _, g3) \<Rightarrow>
                 (if ok2 then SW_OK else SW_SCREENS_BUFFER_OVERFLOW, g3))
        | HAVE_NBGL \<Rightarrow>
            (case nbgl_stx_add_transaction_screens cx fmt (blind_signing_required (the_p2pk g1)) 0 answer g1 of (ok, g2) \<Rightarrow>
               (if ok then SW_OK else SW_SCREENS_BUFFER_OVERFLOW, g2)))"

text \<open>The buttons of the warning, \<open>blind_signing_callback\<close>.\<close>

definition blind_signing_callback :: "bool \<Rightarrow> ('h, 'y) app \<Rightarrow> ('h, 'y) app" where
  "blind_signing_callback is_settings g =
     (if is_settings then ui_menu_settings (res_deny g) else ui_menu_main HAVE_BAGL (res_deny g))"

end
