(* ===== verification/StxHandler.thy ===== *)
theory StxHandler
  imports StxUi
begin

text \<open>
  The handler of the signing command, \<^verbatim>\<open>src/commands/signtx/stx_handler.c\<close> and
  \<^verbatim>\<open>.h\<close>, with the checking macros of \<^verbatim>\<open>src/helpers/cmd_macros.h\<close>.

  A macro that may return early takes the rest of the handler as its last argument; \<open>err\<close> is the
  \<open>COMMAND_ERROR_HANDLER\<close> of the file. What the handler depends on is one record \<open>E\<close>: the
  user interface, the library of the device, the formatters, and how members of unions read after another one was
  written. What happens during one call is a record \<open>d\<close>: the random session ids and keys that are
  drawn, the answer of the user to a dialog, and the bytes that are in the I/O buffer of the SDK.
\<close>

record 'h env =
  env_lib :: ui_library
  env_cx :: "'h cx_device"
  env_fmt :: sdk_format
  env_views :: "'h out_views"
  env_union :: "'h p2pk_union"

record draws =
  draw_ids :: "nat \<Rightarrow> u8"
  draw_keys :: "nat \<Rightarrow> bytes"
  draw_answer :: bool
  draw_io :: bytes

subsection \<open>The macros\<close>

definition check_command :: "(u16 \<Rightarrow> ('h, 'y) app \<Rightarrow> 'r) \<Rightarrow> command_e \<Rightarrow> ('h, 'y) app \<Rightarrow> 'r \<Rightarrow> 'r" where
  "check_command err cmd g rest = (if cmd \<noteq> app_current_command g then err SW_BAD_STATE g else rest)"

definition check_session :: "(u16 \<Rightarrow> ('h, 'y) app \<Rightarrow> 'r) \<Rightarrow> u8 \<Rightarrow> u8 \<Rightarrow> ('h, 'y) app \<Rightarrow> 'r \<Rightarrow> 'r" where
  "check_session err session_id ctx_session g rest = (if session_id \<noteq> ctx_session then err SW_BAD_SESSION_ID g else rest)"

definition check_proper_state :: "(u16 \<Rightarrow> ('h, 'y) app \<Rightarrow> 'r) \<Rightarrow> bool \<Rightarrow> ('h, 'y) app \<Rightarrow> 'r \<Rightarrow> 'r" where
  "check_proper_state err proper g rest = (if \<not> proper then err SW_BAD_STATE g else rest)"

definition check_read_param ::
    "(u16 \<Rightarrow> ('h, 'y) app \<Rightarrow> 'r) \<Rightarrow> 'v option \<times> buffer_t \<Rightarrow> ('h, 'y) app \<Rightarrow> ('v \<Rightarrow> buffer_t \<Rightarrow> 'r) \<Rightarrow> 'r" where
  "check_read_param err r g rest = (case fst r of None \<Rightarrow> err SW_NOT_ENOUGH_DATA g | Some v \<Rightarrow> rest v (snd r))"

definition check_params_finished :: "(u16 \<Rightarrow> ('h, 'y) app \<Rightarrow> 'r) \<Rightarrow> buffer_t \<Rightarrow> ('h, 'y) app \<Rightarrow> 'r \<Rightarrow> 'r" where
  "check_params_finished err b g rest = (if buffer_can_read b 1 then err SW_TOO_MUCH_DATA g else rest)"

definition check_call_result_sw_ok ::
    "(u16 \<Rightarrow> ('h, 'y) app \<Rightarrow> 'r) \<Rightarrow> u16 \<times> ('h, 'y) app \<Rightarrow> (('h, 'y) app \<Rightarrow> 'r) \<Rightarrow> 'r" where
  "check_call_result_sw_ok err r rest = (if fst r \<noteq> SW_OK then err (fst r) (snd r) else rest (snd r))"

lemmas check_macros = check_command_def check_session_def check_proper_state_def check_read_param_def
  check_params_finished_def check_call_result_sw_ok_def

text \<open>What holds of every outcome of a macro.\<close>

lemma macro_rules:
  "(\<And>e. P (err e g)) \<Longrightarrow> P rest \<Longrightarrow> P (check_command err cmd g rest)"
  "(\<And>e. P (err e g)) \<Longrightarrow> (i1 = i2 \<Longrightarrow> P rest) \<Longrightarrow> P (check_session err i1 i2 g rest)"
  "(\<And>e. P (err e g)) \<Longrightarrow> (proper \<Longrightarrow> P rest) \<Longrightarrow> P (check_proper_state err proper g rest)"
  "(\<And>e. P (err e g)) \<Longrightarrow> (\<And>v. fst r = Some v \<Longrightarrow> P (cont v (snd r))) \<Longrightarrow> P (check_read_param err r g cont)"
  "(\<And>e. P (err e g)) \<Longrightarrow> P rest \<Longrightarrow> P (check_params_finished err b g rest)"
  "(\<And>e. P (err e (snd q))) \<Longrightarrow> (fst q = SW_OK \<Longrightarrow> P (then_do (snd q))) \<Longrightarrow> P (check_call_result_sw_ok err q then_do)"
  by (auto simp: check_macros split: option.splits)

text \<open>The optional access token of a command.\<close>

definition read_token :: "bool \<Rightarrow> buffer_t \<Rightarrow> u32 option \<times> buffer_t" where
  "read_token has_token b = (if has_token then buffer_read_u32 b BE else (Some 0, b))"

subsection \<open>Helpers of the file\<close>

definition handler_err :: "'h env \<Rightarrow> u16 \<Rightarrow> ('h, 'y) app \<Rightarrow> ('h, 'y) app" where
  "handler_err E err g =
     res_error err (set_command (env_cx E) CMD_NONE (upd_stx (\<lambda>s. s\<lparr>stx_state := SIGN_TRANSACTION_STATE_ERROR\<rparr>) g))"

text \<open>Status word, length and array of the path, and the rest of the buffer.\<close>

definition read_bip32_path :: "buffer_t \<Rightarrow> u32 list \<Rightarrow> u16 \<times> u8 \<times> u32 list \<times> buffer_t" where
  "read_bip32_path inp path =
     (case buffer_read_u8 inp of
        (None, b) \<Rightarrow> (SW_BUFFER_ERROR, 0, path, b)
      | (Some path_len, b) \<Rightarrow>
          (case buffer_read_bip32_path b path (ucast path_len) of (ok, path', b') \<Rightarrow>
             (if ok then SW_OK else SW_BUFFER_ERROR, path_len, path', b')))"

definition bip32_public_key :: "('h, 'x) cx_device_scheme \<Rightarrow> u32 list \<Rightarrow> u8 \<Rightarrow> u16 \<times> bytes" where
  "bip32_public_key cx path path_len =
     (if \<not> bip32_path_validate path path_len (BIP32_HARDENED 44) (BIP32_HARDENED BIP32_ERGO_COIN)
             BIP32_PATH_VALIDATE_ADDRESS_GE5 then (SW_BIP32_BAD_PATH, replicate (unat PUBLIC_KEY_LEN) 0)
      else case crypto_generate_public_key cx path path_len (replicate (unat PUBLIC_KEY_LEN) 0) of (r, pub_key, _) \<Rightarrow>
        (if r \<noteq> 0 then SW_INTERNAL_CRYPTO_ERROR else SW_OK, pub_key))"

definition show_output_screen_if_needed :: "'h env \<Rightarrow> ('h, 'y) app \<Rightarrow> ('h, 'y) app" where
  "show_output_screen_if_needed E g =
     (if stx_operation_p2pk_should_show_output_confirm_screen (env_views E) (the_p2pk g) then
        check_call_result_sw_ok (handler_err E)
          (ui_stx_operation_p2pk_show_output_confirm_screen (env_lib E) (env_cx E) (env_fmt E) (env_views E) g) (\<lambda>g. g)
      else res_ok g)"

definition stx_approved :: "('h, 'y) app \<Rightarrow> bool" where
  "stx_approved g \<longleftrightarrow> stx_state (the_stx g) = SIGN_TRANSACTION_STATE_APPROVED"

text \<open>An operation whose handler only answers \<open>OK\<close>.\<close>

definition run_p2pk :: "'h env \<Rightarrow> u16 + 'h p2pk \<Rightarrow> ('h, 'y) app \<Rightarrow> (('h, 'y) app \<Rightarrow> ('h, 'y) app) \<Rightarrow> ('h, 'y) app" where
  "run_p2pk E r g rest = check_call_result_sw_ok (handler_err E) (p2pk_call (env_cx E) r g) rest"

subsection \<open>The subcommands\<close>

text \<open>\<open>None\<close> when the search for a session id never ends.\<close>

definition handle_init_p2pk :: "'h env \<Rightarrow> draws \<Rightarrow> buffer_t \<Rightarrow> bool \<Rightarrow> u32 \<Rightarrow> ('h, 'y) app \<Rightarrow> ('h, 'y) app option" where
  "handle_init_p2pk E d cdata has_token app_session_id g =
     (let err = (\<lambda>e g. Some (handler_err E e g)) in
      check_read_param err (buffer_read_u8 cdata) g (\<lambda>network_id b1.
      case read_bip32_path b1 (bp_path (p2_bip32 (the_p2pk g))) of (sw, path_len, path, b2) \<Rightarrow>
      check_call_result_sw_ok err (sw, upd_p2pk (\<lambda>p. p\<lparr>p2_bip32 := \<lparr>bp_len = path_len, bp_path = path\<rparr>\<rparr>) g) (\<lambda>g1.
      check_read_param err (read_token has_token b2) g1 (\<lambda>app_session_id_in b3.
      check_params_finished err b3 g1 (
      case stx_operation_p2pk_init (env_cx E) (draw_keys d) (the_p2pk g1) (bp_path (p2_bip32 (the_p2pk g1)))
             (bp_len (p2_bip32 (the_p2pk g1))) network_id of
        Inl e \<Rightarrow> err e g1
      | Inr p \<Rightarrow>
          (case session_id_new_random (draw_ids d) (stx_session (the_stx g1)) of
             None \<Rightarrow> None
           | Some session_id \<Rightarrow>
               (let g2 = upd_stx (\<lambda>s. s\<lparr>stx_p2pk := p, stx_operation := SIGN_TRANSACTION_OPERATION_P2PK,
                                       stx_state := SIGN_TRANSACTION_STATE_INITIALIZED, stx_session := session_id\<rparr>) g1 in
                check_call_result_sw_ok err
                  (ui_stx_operation_p2pk_show_token_and_path (env_lib E) (env_cx E) app_session_id_in
                     (is_known_application app_session_id app_session_id_in) g2) Some)))))))"

definition handle_tx_start :: "'h env \<Rightarrow> buffer_t \<Rightarrow> ('h, 'y) app \<Rightarrow> ('h, 'y) app" where
  "handle_tx_start E cdata g =
     check_proper_state (handler_err E) (stx_approved g) g (
     check_read_param (handler_err E) (buffer_read_u16 cdata BE) g (\<lambda>inputs_count b1.
     check_read_param (handler_err E) (buffer_read_u16 b1 BE) g (\<lambda>data_inputs_count b2.
     check_read_param (handler_err E) (buffer_read_u8 b2) g (\<lambda>tokens_count b3.
     check_read_param (handler_err E) (buffer_read_u16 b3 BE) g (\<lambda>outputs_count b4.
     check_params_finished (handler_err E) b4 g (
     run_p2pk E (stx_operation_p2pk_start_tx (env_cx E) (the_p2pk g) inputs_count data_inputs_count outputs_count tokens_count) g
       res_ok))))))"

definition handle_tokens :: "'h env \<Rightarrow> buffer_t \<Rightarrow> ('h, 'y) app \<Rightarrow> ('h, 'y) app" where
  "handle_tokens E cdata g =
     check_proper_state (handler_err E) (stx_approved g) g (
     run_p2pk E (stx_operation_p2pk_add_tokens (the_p2pk g) cdata) g res_ok)"

text \<open>
  A frame is accepted only with the right signature. The length of its tokens is computed in
  \<open>uint8_t\<close>, as is the length that was signed.
\<close>

definition frame_signed :: "'h env \<Rightarrow> bytes \<Rightarrow> buffer_t \<Rightarrow> u8 \<Rightarrow> bool" where
  "frame_signed E key cdata frame_data_len =
     (let mac = cx_hmac_sha256 (env_cx E) key (take (unat frame_data_len) (buffer_read_ptr cdata)) in
      memcmp_eq mac (the (input_frame_signature_ptr cdata)) (unat INPUT_FRAME_SIGNATURE_LEN))"

definition handle_input_frame :: "'h env \<Rightarrow> bytes \<Rightarrow> buffer_t \<Rightarrow> ('h, 'y) app \<Rightarrow> ('h, 'y) app" where
  "handle_input_frame E key cdata g =
     (let err = handler_err E; frame_data_len = input_frame_data_length cdata in
      check_proper_state err (stx_approved g) g (
      if frame_data_len = 0 then err SW_NOT_ENOUGH_DATA g
      else if \<not> frame_signed E key cdata frame_data_len then err SW_BAD_FRAME_SIGNATURE g
      else
      check_read_param err (buffer_read_bytes cdata ERGO_ID_LEN) g (\<lambda>id_buffer b1.
      check_read_param err (buffer_read_u8 b1) g (\<lambda>frames_count b2.
      check_read_param err (buffer_read_u8 b2) g (\<lambda>frame_index b3.
      check_read_param err (buffer_read_u64 b3 BE) g (\<lambda>amount b4.
      check_read_param err (buffer_read_u8 b4) g (\<lambda>tokens_count b5.
      let tokens_len = (ucast (ucast tokens_count * FRAME_TOKEN_VALUE_PAIR_SIZE) :: u8);
          tokens = buffer_init (buffer_read_ptr b5) (ucast tokens_len) in
      case buffer_seek_cur b5 (ucast tokens_len + INPUT_FRAME_SIGNATURE_LEN) of (ok, b6) \<Rightarrow>
      if \<not> ok then err SW_NOT_ENOUGH_DATA g
      else let add_tokens = (\<lambda>g. run_p2pk E (stx_operation_p2pk_add_input_tokens (env_cx E) (the_p2pk g) id_buffer frame_index tokens)
                                   g res_ok) in
        if frame_index = 0 then
          check_read_param err (buffer_read_u32 b6 BE) g (\<lambda>extension_len _.
            run_p2pk E (stx_operation_p2pk_add_input (the_p2pk g) id_buffer amount frames_count extension_len) g add_tokens)
        else add_tokens g)))))))"

definition handle_input_context_extension :: "'h env \<Rightarrow> buffer_t \<Rightarrow> ('h, 'y) app \<Rightarrow> ('h, 'y) app" where
  "handle_input_context_extension E cdata g =
     check_proper_state (handler_err E) (stx_approved g) g (
     run_p2pk E (stx_operation_p2pk_add_input_context_extension (env_cx E) (the_p2pk g) cdata) g res_ok)"

definition handle_data_inputs :: "'h env \<Rightarrow> buffer_t \<Rightarrow> ('h, 'y) app \<Rightarrow> ('h, 'y) app" where
  "handle_data_inputs E cdata g =
     check_proper_state (handler_err E) (stx_approved g) g (
     run_p2pk E (stx_operation_p2pk_add_data_inputs (env_cx E) (the_p2pk g) cdata) g res_ok)"

definition handle_output_init :: "'h env \<Rightarrow> buffer_t \<Rightarrow> ('h, 'y) app \<Rightarrow> ('h, 'y) app" where
  "handle_output_init E cdata g =
     (let err = handler_err E in
      check_proper_state err (stx_approved g) g (
      check_read_param err (buffer_read_u64 cdata BE) g (\<lambda>amount b1.
      check_read_param err (buffer_read_u32 b1 BE) g (\<lambda>ergo_tree_size b2.
      check_read_param err (buffer_read_u32 b2 BE) g (\<lambda>creation_height b3.
      check_read_param err (buffer_read_u8 b3) g (\<lambda>tokens_count b4.
      check_read_param err (buffer_read_u32 b4 BE) g (\<lambda>registers_size b5.
      check_params_finished err b5 g (
      run_p2pk E (stx_operation_p2pk_add_output (env_cx E) (env_views E) (env_union E) (the_p2pk g) amount ergo_tree_size
                    creation_height tokens_count registers_size) g res_ok))))))))"

definition handle_output_tree_chunk :: "'h env \<Rightarrow> buffer_t \<Rightarrow> ('h, 'y) app \<Rightarrow> ('h, 'y) app" where
  "handle_output_tree_chunk E cdata g =
     check_proper_state (handler_err E) (stx_approved g) g (
     run_p2pk E (stx_operation_p2pk_add_output_tree_chunk (env_cx E) (env_views E) (env_union E) (the_p2pk g) cdata) g
       (show_output_screen_if_needed E))"

definition handle_output_tree_fee :: "'h env \<Rightarrow> buffer_t \<Rightarrow> ('h, 'y) app \<Rightarrow> ('h, 'y) app" where
  "handle_output_tree_fee E cdata g =
     check_proper_state (handler_err E) (stx_approved g) g (
     check_params_finished (handler_err E) cdata g (
     run_p2pk E (stx_operation_p2pk_add_output_tree_fee (env_cx E) (env_views E) (env_union E) (the_p2pk g)) g
       (show_output_screen_if_needed E)))"

text \<open>The path is read into the output info itself, before the operation checks anything.\<close>

definition set_output_path :: "u8 \<Rightarrow> u32 list \<Rightarrow> 'h p2pk \<Rightarrow> 'h p2pk" where
  "set_output_path path_len path p =
     p\<lparr>p2_mem := (p2_mem p)\<lparr>pm_output := (pm_output (p2_mem p))\<lparr>oi_union := OutPath \<lparr>bp_len = path_len, bp_path = path\<rparr>\<rparr>\<rparr>\<rparr>"

definition handle_output_tree_change :: "'h env \<Rightarrow> buffer_t \<Rightarrow> ('h, 'y) app \<Rightarrow> ('h, 'y) app" where
  "handle_output_tree_change E cdata g =
     (let err = handler_err E; V = env_views E in
      check_proper_state err (stx_approved g) g (
      case read_bip32_path cdata (bp_path (out_path V (pm_output (p2_mem (the_p2pk g))))) of (sw, path_len, path, _) \<Rightarrow>
      check_call_result_sw_ok err (sw, upd_p2pk (set_output_path path_len path) g) (\<lambda>g1.
      case bip32_public_key (env_cx E) path path_len of (sw2, public_key) \<Rightarrow>
      check_call_result_sw_ok err (sw2, g1) (\<lambda>g1.
      run_p2pk E (stx_operation_p2pk_add_output_tree_change (env_cx E) V (env_union E) (the_p2pk g1) path path_len public_key) g1
        (show_output_screen_if_needed E)))))"

definition handle_output_tokens :: "'h env \<Rightarrow> buffer_t \<Rightarrow> ('h, 'y) app \<Rightarrow> ('h, 'y) app" where
  "handle_output_tokens E cdata g =
     check_proper_state (handler_err E) (stx_approved g) g (
     run_p2pk E (stx_operation_p2pk_add_output_tokens (env_cx E) (env_union E) (the_p2pk g) cdata) g
       (show_output_screen_if_needed E))"

definition handle_output_registers :: "'h env \<Rightarrow> buffer_t \<Rightarrow> ('h, 'y) app \<Rightarrow> ('h, 'y) app" where
  "handle_output_registers E cdata g =
     check_proper_state (handler_err E) (stx_approved g) g (
     run_p2pk E (stx_operation_p2pk_add_output_registers (env_cx E) (env_union E) (the_p2pk g) cdata) g
       (show_output_screen_if_needed E))"

definition handle_sign_confirm :: "'h env \<Rightarrow> draws \<Rightarrow> ('h, 'y) app \<Rightarrow> ('h, 'y) app" where
  "handle_sign_confirm E d g =
     check_proper_state (handler_err E) (stx_approved g) g (
     check_call_result_sw_ok (handler_err E)
       (ui_stx_operation_p2pk_show_confirm_screen (env_lib E) (env_cx E) (env_fmt E) (draw_answer d) g) (\<lambda>g. g))"

subsection \<open>The handler\<close>

definition SIGN_TRANSACTION_SUBCOMMAND_SIGN_PK :: u8 where "SIGN_TRANSACTION_SUBCOMMAND_SIGN_PK = 0x01"
definition SIGN_TRANSACTION_SUBCOMMAND_START_TX :: u8 where "SIGN_TRANSACTION_SUBCOMMAND_START_TX = 0x10"
definition SIGN_TRANSACTION_SUBCOMMAND_TOKEN_IDS :: u8 where "SIGN_TRANSACTION_SUBCOMMAND_TOKEN_IDS = 0x11"
definition SIGN_TRANSACTION_SUBCOMMAND_INPUT_FRAME :: u8 where "SIGN_TRANSACTION_SUBCOMMAND_INPUT_FRAME = 0x12"
definition SIGN_TRANSACTION_SUBCOMMAND_INPUT_CONTEXT_EXTENSION :: u8 where
  "SIGN_TRANSACTION_SUBCOMMAND_INPUT_CONTEXT_EXTENSION = 0x13"
definition SIGN_TRANSACTION_SUBCOMMAND_DATA_INPUT :: u8 where "SIGN_TRANSACTION_SUBCOMMAND_DATA_INPUT = 0x14"
definition SIGN_TRANSACTION_SUBCOMMAND_OUTPUT :: u8 where "SIGN_TRANSACTION_SUBCOMMAND_OUTPUT = 0x15"
definition SIGN_TRANSACTION_SUBCOMMAND_OUTPUT_TREE_CHUNK :: u8 where "SIGN_TRANSACTION_SUBCOMMAND_OUTPUT_TREE_CHUNK = 0x16"
definition SIGN_TRANSACTION_SUBCOMMAND_OUTPUT_MINERS_FEE_TREE :: u8 where
  "SIGN_TRANSACTION_SUBCOMMAND_OUTPUT_MINERS_FEE_TREE = 0x17"
definition SIGN_TRANSACTION_SUBCOMMAND_OUTPUT_CHANGE_TREE :: u8 where "SIGN_TRANSACTION_SUBCOMMAND_OUTPUT_CHANGE_TREE = 0x18"
definition SIGN_TRANSACTION_SUBCOMMAND_OUTPUT_TOKENS :: u8 where "SIGN_TRANSACTION_SUBCOMMAND_OUTPUT_TOKENS = 0x19"
definition SIGN_TRANSACTION_SUBCOMMAND_OUTPUT_REGISTERS :: u8 where "SIGN_TRANSACTION_SUBCOMMAND_OUTPUT_REGISTERS = 0x1A"
definition SIGN_TRANSACTION_SUBCOMMAND_CONFIRM :: u8 where "SIGN_TRANSACTION_SUBCOMMAND_CONFIRM = 0x20"

lemmas stx_subcommands = SIGN_TRANSACTION_SUBCOMMAND_SIGN_PK_def SIGN_TRANSACTION_SUBCOMMAND_START_TX_def
  SIGN_TRANSACTION_SUBCOMMAND_TOKEN_IDS_def SIGN_TRANSACTION_SUBCOMMAND_INPUT_FRAME_def
  SIGN_TRANSACTION_SUBCOMMAND_INPUT_CONTEXT_EXTENSION_def SIGN_TRANSACTION_SUBCOMMAND_DATA_INPUT_def
  SIGN_TRANSACTION_SUBCOMMAND_OUTPUT_def SIGN_TRANSACTION_SUBCOMMAND_OUTPUT_TREE_CHUNK_def
  SIGN_TRANSACTION_SUBCOMMAND_OUTPUT_MINERS_FEE_TREE_def SIGN_TRANSACTION_SUBCOMMAND_OUTPUT_CHANGE_TREE_def
  SIGN_TRANSACTION_SUBCOMMAND_OUTPUT_TOKENS_def SIGN_TRANSACTION_SUBCOMMAND_OUTPUT_REGISTERS_def
  SIGN_TRANSACTION_SUBCOMMAND_CONFIRM_def

text \<open>The cases behind \<open>CHECK_COMMAND\<close> and \<open>CHECK_SESSION\<close>; \<open>None\<close> for an unknown subcommand.\<close>

definition stx_subcommand :: "'h env \<Rightarrow> draws \<Rightarrow> buffer_t \<Rightarrow> u8 \<Rightarrow> ('h, 'y) app \<Rightarrow> ('h, 'y) app option" where
  "stx_subcommand E d cdata subcommand g =
     (if subcommand = SIGN_TRANSACTION_SUBCOMMAND_START_TX then Some (handle_tx_start E cdata g)
      else if subcommand = SIGN_TRANSACTION_SUBCOMMAND_TOKEN_IDS then Some (handle_tokens E cdata g)
      else if subcommand = SIGN_TRANSACTION_SUBCOMMAND_INPUT_FRAME then Some (handle_input_frame E (app_session_key g) cdata g)
      else if subcommand = SIGN_TRANSACTION_SUBCOMMAND_INPUT_CONTEXT_EXTENSION then Some (handle_input_context_extension E cdata g)
      else if subcommand = SIGN_TRANSACTION_SUBCOMMAND_DATA_INPUT then Some (handle_data_inputs E cdata g)
      else if subcommand = SIGN_TRANSACTION_SUBCOMMAND_OUTPUT then Some (handle_output_init E cdata g)
      else if subcommand = SIGN_TRANSACTION_SUBCOMMAND_OUTPUT_TREE_CHUNK then Some (handle_output_tree_chunk E cdata g)
      else if subcommand = SIGN_TRANSACTION_SUBCOMMAND_OUTPUT_MINERS_FEE_TREE then Some (handle_output_tree_fee E cdata g)
      else if subcommand = SIGN_TRANSACTION_SUBCOMMAND_OUTPUT_CHANGE_TREE then Some (handle_output_tree_change E cdata g)
      else if subcommand = SIGN_TRANSACTION_SUBCOMMAND_OUTPUT_TOKENS then Some (handle_output_tokens E cdata g)
      else if subcommand = SIGN_TRANSACTION_SUBCOMMAND_OUTPUT_REGISTERS then Some (handle_output_registers E cdata g)
      else if subcommand = SIGN_TRANSACTION_SUBCOMMAND_CONFIRM then Some (handle_sign_confirm E d g)
      else None)"

text \<open>\<open>None\<close> when the handler never returns.\<close>

definition handler_sign_transaction :: "'h env \<Rightarrow> draws \<Rightarrow> buffer_t \<Rightarrow> u8 \<Rightarrow> u8 \<Rightarrow> ('h, 'y) app \<Rightarrow> ('h, 'y) app option" where
  "handler_sign_transaction E d cdata subcommand session_or_token g =
     (if app_is_ui_busy g then Some (res_ui_busy g)
      else if subcommand = SIGN_TRANSACTION_SUBCOMMAND_SIGN_PK then
        if session_or_token \<noteq> 0x01 \<and> session_or_token \<noteq> 0x02 then Some (res_error SW_WRONG_P1P2 g)
        else let g1 = set_command (env_cx E) CMD_SIGN_TRANSACTION g in
          handle_init_p2pk E d cdata (session_or_token = 0x02) (app_connected_app_id g1) g1
      else Some (case stx_subcommand E d cdata subcommand g of
          None \<Rightarrow> handler_err E SW_WRONG_SUBCOMMAND g
        | Some out \<Rightarrow>
            check_command (handler_err E) CMD_SIGN_TRANSACTION g (
            check_session (handler_err E) session_or_token (stx_session (the_stx g)) g out)))"

end
