(* ===== verification/AttestInput.thy ===== *)
theory AttestInput
  imports StxHandler
begin

text \<open>
  Attesting input boxes, \<^verbatim>\<open>src/commands/attestinput/\<close>: the handler, its responses and its
  dialog on both user interfaces. The device hashes a box as it arrives, computes its id, and
  hands out its value and tokens in frames signed with the session key.

  The memory of the serializer holds the token table and the amounts, because its callback writes both. A frame
  is written into \<open>G_io_apdu_buffer\<close>, an array of the SDK whose length is \<open>IO_APDU_BUFFER_SIZE\<close>; here it is
  the argument \<open>io\<close>. The fields of the context that an initialization sets are stored when all parameters have been
  read; on an error before that the context is erased.
\<close>

definition the_ainpt :: "('h, 'y) app \<Rightarrow> 'h attest_input_ctx_t" where
  "the_ainpt g = attest_input (commands_ctx g)"

definition upd_ainpt :: "('h attest_input_ctx_t \<Rightarrow> 'h attest_input_ctx_t) \<Rightarrow> ('h, 'y) app \<Rightarrow> ('h, 'y) app" where
  "upd_ainpt f g = g\<lparr>commands_ctx := (commands_ctx g)\<lparr>attest_input := f (attest_input (commands_ctx g))\<rparr>\<rparr>"

subsection \<open>Responses: \<open>ainpt_response.c\<close>\<close>

definition get_frames_count :: "u8 \<Rightarrow> u8" where
  "get_frames_count tokens_count =
     (let frames_count = (of_nat ((unat tokens_count + (unat FRAME_MAX_TOKENS_COUNT - 1)) div unat FRAME_MAX_TOKENS_COUNT) :: u8)
      in if frames_count = 0 then 1 else frames_count)"

definition send_error :: "'h env \<Rightarrow> u16 \<Rightarrow> ('h, 'y) app \<Rightarrow> ('h, 'y) app" where
  "send_error E err g = res_error err (set_command (env_cx E) CMD_NONE g)"

definition check_write_param ::
    "'h env \<Rightarrow> bool \<times> rw_buffer_t \<Rightarrow> ('h, 'y) app \<Rightarrow> (rw_buffer_t \<Rightarrow> ('h, 'y) app) \<Rightarrow> ('h, 'y) app" where
  "check_write_param E r g rest = (if \<not> fst r then send_error E SW_BUFFER_ERROR g else rest (snd r))"

text \<open>The tokens of a frame, in the order of their indices; the first failed write ends the loop.\<close>

primrec frame_tokens_loop :: "nat list \<Rightarrow> 'h ainpt_mem \<Rightarrow> rw_buffer_t \<Rightarrow> bool \<times> rw_buffer_t" where
  "frame_tokens_loop [] m out = (True, out)"
| "frame_tokens_loop (i # is) m out =
     (case rw_buffer_write_bytes out (tt_tokens (tokens_table m) ! i) ERGO_ID_LEN of (ok, o1) \<Rightarrow>
        if \<not> ok then (False, o1)
        else case rw_buffer_write_u64 o1 (token_amounts m ! i) BE of (ok2, o2) \<Rightarrow>
          if \<not> ok2 then (False, o2) else frame_tokens_loop is m o2)"

definition send_response_attested_input_frame ::
    "'h env \<Rightarrow> bytes \<Rightarrow> bytes \<Rightarrow> u8 \<Rightarrow> ('h, 'y) app \<Rightarrow> ('h, 'y) app" where
  "send_response_attested_input_frame E io key index g =
     (let c = the_ainpt g; count = tt_count (tokens_table (ai_mem c)); frames_count = get_frames_count count in
      if index \<ge> frames_count then send_error E SW_BAD_FRAME_INDEX g
      else let output = rw_buffer_init io (of_nat (length io) - 2) 0 in
      check_write_param E (rw_buffer_write_bytes output (ai_box_id c) ERGO_ID_LEN) g (\<lambda>b1.
      check_write_param E (rw_buffer_write_u8 b1 frames_count) g (\<lambda>b2.
      check_write_param E (rw_buffer_write_u8 b2 index) g (\<lambda>b3.
      check_write_param E (rw_buffer_write_u64 b3 (box_value (ai_box c)) BE) g (\<lambda>b4.
      let left = (count - index * FRAME_MAX_TOKENS_COUNT :: u8);
          tokens_count = (if left < FRAME_MAX_TOKENS_COUNT then left else FRAME_MAX_TOKENS_COUNT) in
      check_write_param E (rw_buffer_write_u8 b4 tokens_count) g (\<lambda>b5.
      let offset = (index * FRAME_MAX_TOKENS_COUNT :: u8) in
      if unat offset + unat tokens_count > 255 then send_error E SW_TOO_MUCH_DATA g
      else
      check_write_param E (frame_tokens_loop [unat offset..<unat (offset + tokens_count)] (ai_mem c) b5) g (\<lambda>b6.
      if \<not> rw_buffer_can_write b6 32 then send_error E SW_BUFFER_ERROR g
      else let mac = cx_hmac_sha256 (env_cx E) key (take (unat (rw_buffer_data_len b6)) (rw_buffer_read_ptr b6));
               b7 = rw_store (\<lambda>p. mem_write p (rw_buffer_write_ptr b6) (take 32 mac)) b6 in
      check_write_param E (rw_buffer_seek_write_cur b7 INPUT_FRAME_SIGNATURE_LEN) g (\<lambda>b8.
      res_ok_data (take (unat (rw_buffer_data_len b8)) (rw_buffer_read_ptr b8)) g))))))))"

definition send_response_attested_input_frame_count :: "u8 \<Rightarrow> ('h, 'y) app \<Rightarrow> ('h, 'y) app" where
  "send_response_attested_input_frame_count tokens_count g = res_ok_data [get_frames_count tokens_count] g"

definition send_response_attested_input_session_id :: "u8 \<Rightarrow> ('h, 'y) app \<Rightarrow> ('h, 'y) app" where
  "send_response_attested_input_session_id session_id g = res_ok_data [session_id] g"

subsection \<open>The dialog: \<open>ainpt_ui_bagl.c\<close> and \<open>ainpt_ui_nbgl.c\<close>\<close>

text \<open>What both files do with the answer; only the button devices return to the menu after an approval.\<close>

definition ainpt_approve :: "('h, 'y) app \<Rightarrow> ('h, 'y) app" where
  "ainpt_approve g =
     (let g1 = app_set_connected_app_id (ai_app_token_value (the_ainpt g)) g;
          g2 = upd_ainpt (\<lambda>c. c\<lparr>ai_state := ATTEST_INPUT_STATE_APPROVED\<rparr>) g1
      in send_response_attested_input_session_id (ai_session (the_ainpt g2)) g2)"

definition bagl_action_attest_input :: "('h, 'x) cx_device_scheme \<Rightarrow> bool \<Rightarrow> ('h, 'y) app \<Rightarrow> ('h, 'y) app" where
  "bagl_action_attest_input cx approved g =
     (let g1 = app_set_ui_busy False g in
      ui_menu_main HAVE_BAGL (if approved then ainpt_approve g1 else res_deny (set_command cx CMD_NONE g1)))"

definition bagl_display_access_token :: "u32 \<Rightarrow> ('h, 'y) app \<Rightarrow> ('h, 'y) app" where
  "bagl_display_access_token app_access_token g =
     (let g1 = upd_ainpt (\<lambda>c. c\<lparr>ai_app_token_value := app_access_token\<rparr>) g in
      case ui_add_screen ux_ainpt_display_confirm_step 0 g1 of (_, pos, g2) \<Rightarrow>
      case (if app_access_token \<noteq> 0 then
              ui_add_screen ux_app_token_step pos (upd_ainpt (\<lambda>c. c\<lparr>ai_app_token := ui_application_id_text app_access_token\<rparr>) g2)
            else (True, pos, g2)) of (_, pos1, g3) \<Rightarrow>
      case ui_next_sreen_ptr pos1 of (approve, pos2) \<Rightarrow> case ui_next_sreen_ptr pos2 of (reject, pos3) \<Rightarrow>
        snd (snd (ui_display_screens pos3 (ui_approve_reject_screens ui_action_attest_input approve reject g3))))"

definition APPLICATION_ID_SUBLEN :: nat where "APPLICATION_ID_SUBLEN = APPLICATION_ID_STR_LEN + 13"

definition nbgl_display_access_token ::
    "('h, 'x) cx_device_scheme \<Rightarrow> bool \<Rightarrow> u32 \<Rightarrow> ('h, 'y) app \<Rightarrow> ('h, 'y) app" where
  "nbgl_display_access_token cx answer app_access_token g =
     (let g1 = upd_ainpt (\<lambda>c. c\<lparr>ai_app_token_value := app_access_token\<rparr>) g;
          g2 = (if app_access_token \<noteq> 0 then
                  (upd_ainpt (\<lambda>c. c\<lparr>ai_app_token := ui_application_id_text app_access_token\<rparr>) g1)
                    \<lparr>ainpt_sub_message := take (APPLICATION_ID_SUBLEN - 1) (''Application: '' @ hex_u32 app_access_token)\<rparr>
                else g1) in
      case io_ui_process answer (show_page (Page_choice ''Confirm Attest Input'' (ainpt_sub_message g2)) g2) of (approved, g3) \<Rightarrow>
        if approved then ainpt_approve g3 else ui_menu_main HAVE_NBGL (res_deny (set_command cx CMD_NONE g3)))"

definition ui_display_access_token :: "'h env \<Rightarrow> bool \<Rightarrow> u32 \<Rightarrow> ('h, 'y) app \<Rightarrow> ('h, 'y) app" where
  "ui_display_access_token E answer app_access_token g =
     (case env_lib E of
        HAVE_BAGL \<Rightarrow> bagl_display_access_token app_access_token g
      | HAVE_NBGL \<Rightarrow> nbgl_display_access_token (env_cx E) answer app_access_token g)"

subsection \<open>The handler: \<open>ainpt_handler.c\<close>\<close>

definition ainpt_err :: "'h env \<Rightarrow> u16 \<Rightarrow> ('h, 'y) app \<Rightarrow> ('h, 'y) app" where
  "ainpt_err E err g =
     res_error err (set_command (env_cx E) CMD_NONE (upd_ainpt (\<lambda>c. c\<lparr>ai_state := ATTEST_INPUT_STATE_ERROR\<rparr>) g))"

definition put_box :: "'h ainpt_mem box_ctx \<Rightarrow> 'h ainpt_mem \<Rightarrow> ('h, 'y) app \<Rightarrow> ('h, 'y) app" where
  "put_box b m g = upd_ainpt (\<lambda>c. c\<lparr>ai_box := b, ai_mem := m\<rparr>) g"

definition check_box_finished :: "'h env \<Rightarrow> ('h, 'y) app \<Rightarrow> ('h, 'y) app" where
  "check_box_finished E g =
     (let c = the_ainpt g in
      if \<not> ergo_tx_serializer_box_is_finished (ai_box c) then res_ok g
      else case ergo_tx_serializer_box_id_hash (env_cx E) (ai_box c) (ai_mem c) (ai_box_id c) (ai_box_index c) (ai_box_id c) of
        ((res, b, m), box_id) \<Rightarrow>
          let g1 = upd_ainpt (\<lambda>c. c\<lparr>ai_box_id := box_id\<rparr>) (put_box b m g) in
          if \<not> box_res_ok res then ainpt_err E (sw_from_tx_box_result res) g1
          else send_response_attested_input_frame_count (tt_count (tokens_table m))
                 (upd_ainpt (\<lambda>c. c\<lparr>ai_state := ATTEST_INPUT_STATE_FINISHED\<rparr>) g1))"

definition ainpt_box_token_cb :: "'h ainpt_mem box_token_cb" where
  "ainpt_box_token_cb type token_id value m =
     (let tt = tokens_table m; count = unat (tt_count tt) in
      if tt_count tt \<ge> TOKEN_MAX_COUNT then (ERGO_TX_SERIALIZER_BOX_RES_ERR_TOO_MANY_TOKENS, m)
      else if \<exists>i\<in>{0..<count}. memcmp_eq token_id (tt_tokens tt ! i) (unat ERGO_ID_LEN) then (ERGO_TX_SERIALIZER_BOX_RES_ERR_BAD_TOKEN_ID, m)
      else (ERGO_TX_SERIALIZER_BOX_RES_OK,
            m\<lparr>tokens_table := tt\<lparr>tt_tokens := (tt_tokens tt)[count := token_id], tt_count := tt_count tt + 1\<rparr>,
              token_amounts := (token_amounts m)[count := value]\<rparr>))"

definition ainpt_handle_init ::
    "'h env \<Rightarrow> draws \<Rightarrow> buffer_t \<Rightarrow> bool \<Rightarrow> u32 \<Rightarrow> ('h, 'y) app \<Rightarrow> ('h, 'y) app option" where
  "ainpt_handle_init E d cdata has_token app_session_id g =
     (let err = (\<lambda>e g. Some (ainpt_err E e g)) in
      check_read_param err (buffer_read_bytes cdata ERGO_ID_LEN) g (\<lambda>box_id b1.
      check_read_param err (buffer_read_u16 b1 BE) g (\<lambda>box_index b2.
      check_read_param err (buffer_read_u64 b2 BE) g (\<lambda>value b3.
      check_read_param err (buffer_read_u32 b3 BE) g (\<lambda>ergo_tree_size b4.
      check_read_param err (buffer_read_u32 b4 BE) g (\<lambda>creation_height b5.
      check_read_param err (buffer_read_u8 b5) g (\<lambda>tokens_count b6.
      check_read_param err (buffer_read_u32 b6 BE) g (\<lambda>registers_size b7.
      check_read_param err (read_token has_token b7) g (\<lambda>app_session_id_in b8.
      check_params_finished err b8 g (
      let m0 = ai_mem (the_ainpt g); m1 = m0\<lparr>tokens_table := (tokens_table m0)\<lparr>tt_count := 0\<rparr>\<rparr> in
      case ergo_tx_serializer_box_id_hash_init (env_cx E) (hash_ctx m1) of (ok, h) \<Rightarrow>
      if \<not> ok then err SW_HASHER_ERROR g
      else case ergo_tx_serializer_box_init (env_cx E) value ergo_tree_size creation_height tokens_count registers_size
                  (m1\<lparr>hash_ctx := h\<rparr>) of (res, b, m2) \<Rightarrow>
        if \<not> box_res_ok res then err (sw_from_tx_box_result res) g
        else case session_id_new_random (draw_ids d) (ai_session (the_ainpt g)) of
          None \<Rightarrow> None
        | Some session_id \<Rightarrow>
            let g1 = upd_ainpt (\<lambda>c. c\<lparr>ai_box_id := box_id, ai_box_index := box_index, ai_app_token := '''', ai_app_token_value := 0,
                        ai_box := ergo_tx_serializer_box_set_callbacks b None (Some ainpt_box_token_cb) None, ai_mem := m2,
                        ai_state := ATTEST_INPUT_STATE_INITIALIZED, ai_session := session_id\<rparr>) g
            in Some (if is_known_application app_session_id app_session_id_in
                     then send_response_attested_input_session_id session_id
                            (upd_ainpt (\<lambda>c. c\<lparr>ai_state := ATTEST_INPUT_STATE_APPROVED\<rparr>) g1)
                     else ui_display_access_token E (draw_answer d) app_session_id_in g1)))))))))))"

definition ainpt_approved :: "('h, 'y) app \<Rightarrow> bool" where
  "ainpt_approved g \<longleftrightarrow> ai_state (the_ainpt g) = ATTEST_INPUT_STATE_APPROVED"

text \<open>\<open>CHECK_CALL_BOX_FINISHED\<close> and the final \<open>res_ok\<close>.\<close>

definition check_call_box_finished ::
    "'h env \<Rightarrow> ergo_tx_serializer_box_result_e \<Rightarrow> ('h, 'y) app \<Rightarrow> ('h, 'y) app" where
  "check_call_box_finished E res g =
     (if res = ERGO_TX_SERIALIZER_BOX_RES_OK then check_box_finished E g
      else if res = ERGO_TX_SERIALIZER_BOX_RES_MORE_DATA then res_ok g
      else ainpt_err E (sw_from_tx_box_result res) g)"

definition ainpt_handle_tree_chunk :: "'h env \<Rightarrow> buffer_t \<Rightarrow> ('h, 'y) app \<Rightarrow> ('h, 'y) app" where
  "ainpt_handle_tree_chunk E cdata g =
     check_proper_state (ainpt_err E) (ainpt_approved g) g (
     case ergo_tx_serializer_box_add_tree (env_cx E) (ai_box (the_ainpt g)) (ai_mem (the_ainpt g)) cdata of (res, b, m, _) \<Rightarrow>
       check_call_box_finished E res (put_box b m g))"

definition ainpt_handle_tokens :: "'h env \<Rightarrow> buffer_t \<Rightarrow> ('h, 'y) app \<Rightarrow> ('h, 'y) app" where
  "ainpt_handle_tokens E cdata g =
     check_proper_state (ainpt_err E) (ainpt_approved g) g (
     case ergo_tx_serializer_box_add_tokens (env_cx E) (ai_box (the_ainpt g)) (ai_mem (the_ainpt g)) cdata None of (res, b, m, _) \<Rightarrow>
       check_call_box_finished E res (put_box b m g))"

definition ainpt_handle_registers_chunk :: "'h env \<Rightarrow> buffer_t \<Rightarrow> ('h, 'y) app \<Rightarrow> ('h, 'y) app" where
  "ainpt_handle_registers_chunk E cdata g =
     check_proper_state (ainpt_err E) (ainpt_approved g) g (
     case ergo_tx_serializer_box_add_registers (env_cx E) (ai_box (the_ainpt g)) (ai_mem (the_ainpt g)) cdata of (res, b, m, _) \<Rightarrow>
       check_call_box_finished E res (put_box b m g))"

definition ainpt_handle_get_frame :: "'h env \<Rightarrow> bytes \<Rightarrow> bytes \<Rightarrow> buffer_t \<Rightarrow> ('h, 'y) app \<Rightarrow> ('h, 'y) app" where
  "ainpt_handle_get_frame E io key cdata g =
     check_proper_state (ainpt_err E) (ai_state (the_ainpt g) = ATTEST_INPUT_STATE_FINISHED) g (
     check_read_param (ainpt_err E) (buffer_read_u8 cdata) g (\<lambda>index b1.
     check_params_finished (ainpt_err E) b1 g (
     send_response_attested_input_frame E io key index g)))"

definition ATTEST_INPUT_SUBCOMMAND_INIT :: u8 where "ATTEST_INPUT_SUBCOMMAND_INIT = 0x01"
definition ATTEST_INPUT_SUBCOMMAND_TREE_CHUNK :: u8 where "ATTEST_INPUT_SUBCOMMAND_TREE_CHUNK = 0x02"
definition ATTEST_INPUT_SUBCOMMAND_TOKENS :: u8 where "ATTEST_INPUT_SUBCOMMAND_TOKENS = 0x03"
definition ATTEST_INPUT_SUBCOMMAND_REGISTERS :: u8 where "ATTEST_INPUT_SUBCOMMAND_REGISTERS = 0x04"
definition ATTEST_INPUT_SUBCOMMAND_GET_RESPONSE_FRAME :: u8 where "ATTEST_INPUT_SUBCOMMAND_GET_RESPONSE_FRAME = 0x05"

definition ainpt_subcommand :: "'h env \<Rightarrow> draws \<Rightarrow> buffer_t \<Rightarrow> u8 \<Rightarrow> ('h, 'y) app \<Rightarrow> ('h, 'y) app option" where
  "ainpt_subcommand E d cdata subcommand g =
     (if subcommand = ATTEST_INPUT_SUBCOMMAND_TREE_CHUNK then Some (ainpt_handle_tree_chunk E cdata g)
      else if subcommand = ATTEST_INPUT_SUBCOMMAND_TOKENS then Some (ainpt_handle_tokens E cdata g)
      else if subcommand = ATTEST_INPUT_SUBCOMMAND_REGISTERS then Some (ainpt_handle_registers_chunk E cdata g)
      else if subcommand = ATTEST_INPUT_SUBCOMMAND_GET_RESPONSE_FRAME then
        Some (ainpt_handle_get_frame E (draw_io d) (app_session_key g) cdata g)
      else None)"

text \<open>\<open>None\<close> when the handler never returns.\<close>

definition handler_attest_input :: "'h env \<Rightarrow> draws \<Rightarrow> buffer_t \<Rightarrow> u8 \<Rightarrow> u8 \<Rightarrow> ('h, 'y) app \<Rightarrow> ('h, 'y) app option" where
  "handler_attest_input E d cdata subcommand session_or_token g =
     (if app_is_ui_busy g then Some (res_ui_busy g)
      else if subcommand = ATTEST_INPUT_SUBCOMMAND_INIT then
        if session_or_token \<noteq> 0x01 \<and> session_or_token \<noteq> 0x02 then Some (ainpt_err E SW_WRONG_P1P2 g)
        else let g1 = set_command (env_cx E) CMD_ATTEST_INPUT_BOX g in
          ainpt_handle_init E d cdata (session_or_token = 0x02) (app_connected_app_id g1) g1
      else Some (case ainpt_subcommand E d cdata subcommand g of
          None \<Rightarrow> ainpt_err E SW_WRONG_SUBCOMMAND g
        | Some out \<Rightarrow>
            check_command (ainpt_err E) CMD_ATTEST_INPUT_BOX g (
            check_session (ainpt_err E) session_or_token (ai_session (the_ainpt g)) g out)))"

end
