(* ===== verification/DeriveAddress.thy ===== *)
theory DeriveAddress
  imports AttestInput
begin

text \<open>
  Deriving an address, \<^verbatim>\<open>src/commands/deriveaddress/\<close>: the handler, the response and the two
  user interfaces. A path that is too long for its text is refused; what the formatter has written of it by then stays
  in the context, where nothing reads it, and is left out.
\<close>

definition the_da :: "('h, 'y) app \<Rightarrow> derive_address_ctx_t" where "the_da g = derive_address (commands_ctx g)"

definition upd_da :: "(derive_address_ctx_t \<Rightarrow> derive_address_ctx_t) \<Rightarrow> ('h, 'y) app \<Rightarrow> ('h, 'y) app" where
  "upd_da f g = g\<lparr>commands_ctx := (commands_ctx g)\<lparr>derive_address := f (derive_address (commands_ctx g))\<rparr>\<rparr>"

text \<open>Reading a path whose length was read before, into an array that is not initialized.\<close>

definition read_path_param :: "u8 \<Rightarrow> buffer_t \<Rightarrow> u32 list option \<times> buffer_t" where
  "read_path_param path_len b =
     (case buffer_read_bip32_path b (replicate (unat MAX_BIP32_PATH) 0) (ucast path_len) of (ok, path, b1) \<Rightarrow>
        (if ok then Some path else None, b1))"

definition da_path_valid :: "u32 list \<Rightarrow> u8 \<Rightarrow> bool" where
  "da_path_valid path path_len \<longleftrightarrow>
     bip32_path_validate path path_len (BIP32_HARDENED 44) (BIP32_HARDENED BIP32_ERGO_COIN) BIP32_PATH_VALIDATE_ADDRESS_GE5"

subsection \<open>The response: \<open>da_response.c\<close>\<close>

definition send_response_address :: "'h env \<Rightarrow> bytes \<Rightarrow> ('h, 'y) app \<Rightarrow> ('h, 'y) app" where
  "send_response_address E address g =
     check_write_param E (rw_buffer_write_bytes (rw_buffer_new_local_empty P2PK_ADDRESS_LEN) address P2PK_ADDRESS_LEN) g (\<lambda>b.
       res_ok_data (take (unat (rw_buffer_data_len b)) (rw_buffer_read_ptr b)) (set_command (env_cx E) CMD_NONE g))"

subsection \<open>The screens: \<open>da_ui_bagl.c\<close> and \<open>da_ui_nbgl.c\<close>\<close>

text \<open>The answer, in both files.\<close>

definition da_answer :: "'h env \<Rightarrow> bool \<Rightarrow> ('h, 'y) app \<Rightarrow> ('h, 'y) app" where
  "da_answer E approved g =
     (if approved then
        let g1 = app_set_connected_app_id (da_app_token_value (the_da g)) g in
        if da_send (the_da g1) then send_response_address E (da_raw_address (the_da g1)) g1
        else res_ok (set_command (env_cx E) CMD_NONE g1)
      else res_deny (set_command (env_cx E) CMD_NONE g))"

definition bagl_action_derive_address :: "'h env \<Rightarrow> bool \<Rightarrow> ('h, 'y) app \<Rightarrow> ('h, 'y) app" where
  "bagl_action_derive_address E approved g = ui_menu_main HAVE_BAGL (da_answer E approved (app_set_ui_busy False g))"

text \<open>The text of the address, \<open>None\<close> when it is refused; empty when only the sending is confirmed.\<close>

definition da_address_text :: "bool \<Rightarrow> bytes \<Rightarrow> string option" where
  "da_address_text send raw_address =
     (if send then Some ''''
      else case base58_encode (take (unat P2PK_ADDRESS_LEN) raw_address) (unat P2PK_ADDRESS_STRING_MAX_LEN) of
        None \<Rightarrow> None
      | Some s \<Rightarrow> if length s \<ge> unat P2PK_ADDRESS_STRING_MAX_LEN then None else Some s)"

definition bagl_display_address ::
    "'h env \<Rightarrow> bool \<Rightarrow> u32 \<Rightarrow> u32 list \<Rightarrow> u8 \<Rightarrow> bytes \<Rightarrow> ('h, 'y) app \<Rightarrow> ('h, 'y) app" where
  "bagl_display_address E send app_access_token path path_len raw_address g =
     (if \<not> da_path_valid path path_len then send_error E SW_BIP32_BAD_PATH g
      else let g1 = upd_da (\<lambda>c. c\<lparr>da_app_token_value := app_access_token, da_send := send\<rparr>) g in
      case ui_add_screen (if send then ux_da_display_confirm_send_step else ux_da_display_confirm_addr_step) 0 g1 of (_, pos, g2) \<Rightarrow>
      case ui_bip32_path_screen path path_len MAX_PATH_TEXT of
        None \<Rightarrow> send_error E SW_BIP32_FORMATTING_FAILED g2
      | Some p_text \<Rightarrow>
      case ui_add_screen ux_bip32_path_step pos (upd_da (\<lambda>c. c\<lparr>da_bip32_path := p_text\<rparr>) g2) of (_, pos1, g3) \<Rightarrow>
      case da_address_text send raw_address of
        None \<Rightarrow> send_error E SW_ADDRESS_FORMATTING_FAILED (upd_da (\<lambda>c. c\<lparr>da_address := ''''\<rparr>) g3)
      | Some addr \<Rightarrow>
      let g4 = upd_da (\<lambda>c. c\<lparr>da_address := addr\<rparr>) g3 in
      case (if send then (True, pos1, g4) else ui_add_screen ux_da_display_address_step pos1 g4) of (_, pos2, g5) \<Rightarrow>
      case (if app_access_token \<noteq> 0 then
              ui_add_screen ux_app_token_step pos2 (upd_da (\<lambda>c. c\<lparr>da_app_id := ui_application_id_text app_access_token\<rparr>) g5)
            else (True, pos2, g5)) of (_, pos3, g6) \<Rightarrow>
      case ui_next_sreen_ptr pos3 of (approve, pos4) \<Rightarrow> case ui_next_sreen_ptr pos4 of (reject, pos5) \<Rightarrow>
      let g7 = upd_da (\<lambda>c. c\<lparr>da_raw_address := take (unat P2PK_ADDRESS_LEN) raw_address\<rparr>)
                 (ui_approve_reject_screens ui_action_derive_address approve reject g6)
      in snd (snd (ui_display_screens pos5 g7)))"

definition nbgl_display_address ::
    "'h env \<Rightarrow> bool \<Rightarrow> bool \<Rightarrow> u32 \<Rightarrow> u32 list \<Rightarrow> u8 \<Rightarrow> bytes \<Rightarrow> ('h, 'y) app \<Rightarrow> ('h, 'y) app" where
  "nbgl_display_address E answer send app_access_token path path_len raw_address g =
     (if \<not> da_path_valid path path_len then send_error E SW_BIP32_BAD_PATH g
      else let g1 = upd_da (\<lambda>c. c\<lparr>da_app_token_value := app_access_token, da_send := send\<rparr>) g in
      case da_address_text send raw_address of
        None \<Rightarrow> send_error E SW_ADDRESS_FORMATTING_FAILED (upd_da (\<lambda>c. c\<lparr>da_address := ''''\<rparr>) g1)
      | Some addr \<Rightarrow>
      let g2 = upd_da (\<lambda>c. c\<lparr>da_address := addr\<rparr>) g1 in
      case ui_bip32_path_screen path path_len MAX_PATH_TEXT of
        None \<Rightarrow> res_error SW_BIP32_BAD_PATH g2
      | Some p_text \<Rightarrow>
      let pairs = (''Derivation path'', p_text) #
                  (if app_access_token \<noteq> 0 then [(''Application'', ui_application_id_text app_access_token)] else []);
          g3 = upd_da (\<lambda>c. c\<lparr>da_bip32_path := p_text\<rparr>) g2;
          g4 = show_page (if send then Page_review_light pairs else Page_address_review addr pairs) g3;
          g5 = upd_da (\<lambda>c. c\<lparr>da_raw_address := take (unat P2PK_ADDRESS_LEN) raw_address\<rparr>) g4 in
      case io_ui_process answer g5 of (approved, g6) \<Rightarrow>
        ui_menu_main HAVE_NBGL (snd (io_ui_process True
          (show_page (Page_status (if send then (if approved then ''Address exported''
                                              else ''Address export'' @ [CHR 0x0A] @ ''cancelled'')
                                   else if approved then ''Address verified'' else ''Address rejected''))
            (da_answer E approved g6)))))"

definition ui_display_address ::
    "'h env \<Rightarrow> bool \<Rightarrow> bool \<Rightarrow> u32 \<Rightarrow> u32 list \<Rightarrow> u8 \<Rightarrow> bytes \<Rightarrow> ('h, 'y) app \<Rightarrow> ('h, 'y) app" where
  "ui_display_address E answer send app_access_token path path_len raw_address g =
     (case env_lib E of
        HAVE_BAGL \<Rightarrow> bagl_display_address E send app_access_token path path_len raw_address g
      | HAVE_NBGL \<Rightarrow> nbgl_display_address E answer send app_access_token path path_len raw_address g)"

subsection \<open>The handler: \<open>da_handler.c\<close>\<close>

definition handler_derive_address :: "'h env \<Rightarrow> draws \<Rightarrow> buffer_t \<Rightarrow> bool \<Rightarrow> bool \<Rightarrow> ('h, 'y) app \<Rightarrow> ('h, 'y) app" where
  "handler_derive_address E d cdata display has_access_token g0 =
     (if app_is_ui_busy g0 then res_ui_busy g0
      else let g = set_command (env_cx E) CMD_DERIVE_ADDRESS g0; err = send_error E in
      check_read_param err (buffer_read_u8 cdata) g (\<lambda>network_type b1.
      check_read_param err (buffer_read_u8 b1) g (\<lambda>bip32_path_len b2.
      check_read_param err (read_path_param bip32_path_len b2) g (\<lambda>bip32_path b3.
      check_read_param err (read_token has_access_token b3) g (\<lambda>access_token b4.
      check_params_finished err b4 g (
      if \<not> da_path_valid bip32_path bip32_path_len then err SW_BIP32_BAD_PATH g
      else case crypto_generate_public_key (env_cx E) bip32_path bip32_path_len (replicate (unat PUBLIC_KEY_LEN) 0) of
        (r, public_key, _) \<Rightarrow>
      if r \<noteq> 0 then err SW_INTERNAL_CRYPTO_ERROR g
      else case ergo_address_from_pubkey (env_cx E) network_type public_key (da_raw_address (the_da g)) of (ok, raw_address) \<Rightarrow>
      let g1 = upd_da (\<lambda>c. c\<lparr>da_raw_address := raw_address\<rparr>) g in
      if \<not> ok then res_error SW_ADDRESS_GENERATION_FAILED g1
      else if \<not> display \<and> is_known_application access_token (app_connected_app_id g1)
      then send_response_address E (da_raw_address (the_da g1)) g1
      else ui_display_address E (draw_answer d) (\<not> display) access_token bip32_path bip32_path_len
             (da_raw_address (the_da g1)) g1))))))"

end
