(* ===== verification/ExtPubKey.thy ===== *)
theory ExtPubKey
  imports DeriveAddress
begin

text \<open>
  Exporting an extended public key, \<^verbatim>\<open>src/commands/extpubkey/\<close>: the handler, the response and the
  two user interfaces.
\<close>

definition the_epk :: "('h, 'y) app \<Rightarrow> extended_public_key_ctx_t" where "the_epk g = ext_pub_key (commands_ctx g)"

definition upd_epk :: "(extended_public_key_ctx_t \<Rightarrow> extended_public_key_ctx_t) \<Rightarrow> ('h, 'y) app \<Rightarrow> ('h, 'y) app" where
  "upd_epk f g = g\<lparr>commands_ctx := (commands_ctx g)\<lparr>ext_pub_key := f (ext_pub_key (commands_ctx g))\<rparr>\<rparr>"

definition epk_path_valid :: "u32 list \<Rightarrow> u8 \<Rightarrow> bool" where
  "epk_path_valid path path_len \<longleftrightarrow>
     bip32_path_validate path path_len (BIP32_HARDENED 44) (BIP32_HARDENED BIP32_ERGO_COIN) BIP32_PATH_VALIDATE_ACCOUNT_GE3"

subsection \<open>The response: \<open>epk_response.c\<close>\<close>

definition send_response_extended_pubkey :: "'h env \<Rightarrow> bytes \<Rightarrow> bytes \<Rightarrow> ('h, 'y) app \<Rightarrow> ('h, 'y) app" where
  "send_response_extended_pubkey E raw_public_key chain_code g =
     check_write_param E (rw_buffer_write_u8 (rw_buffer_new_local_empty EXTENDED_PUBLIC_KEY_LEN)
                            (if raw_public_key ! 64 AND 1 \<noteq> 0 then 0x03 else 0x02)) g (\<lambda>b1.
     check_write_param E (rw_buffer_write_bytes b1 (drop 1 raw_public_key) 32) g (\<lambda>b2.
     check_write_param E (rw_buffer_write_bytes b2 chain_code CHAIN_CODE_LEN) g (\<lambda>b3.
       res_ok_data (take (unat (rw_buffer_data_len b3)) (rw_buffer_read_ptr b3)) (set_command (env_cx E) CMD_NONE g))))"

subsection \<open>The screens: \<open>epk_ui_bagl.c\<close> and \<open>epk_ui_nbgl.c\<close>\<close>

definition epk_answer :: "'h env \<Rightarrow> bool \<Rightarrow> ('h, 'y) app \<Rightarrow> ('h, 'y) app" where
  "epk_answer E approved g =
     set_command (env_cx E) CMD_NONE (
       if approved then
         let g1 = app_set_connected_app_id (epk_app_token_value (the_epk g)) g
         in upd_epk (\<lambda>_. epk_zero) (send_response_extended_pubkey E (epk_raw_public_key (the_epk g1)) (epk_chain_code (the_epk g1)) g1)
       else res_deny (upd_epk (\<lambda>_. epk_zero) g))"

definition bagl_action_get_extended_pubkey :: "'h env \<Rightarrow> bool \<Rightarrow> ('h, 'y) app \<Rightarrow> ('h, 'y) app" where
  "bagl_action_get_extended_pubkey E approved g = ui_menu_main HAVE_BAGL (epk_answer E approved (app_set_ui_busy False g))"

definition epk_store :: "u32 \<Rightarrow> bytes \<Rightarrow> bytes \<Rightarrow> ('h, 'y) app \<Rightarrow> ('h, 'y) app" where
  "epk_store app_access_token raw_pub_key chain_code g =
     upd_epk (\<lambda>c. c\<lparr>epk_app_token_value := app_access_token, epk_raw_public_key := take (unat PUBLIC_KEY_LEN) raw_pub_key,
                     epk_chain_code := take (unat CHAIN_CODE_LEN) chain_code\<rparr>) g"

definition bagl_display_account ::
    "'h env \<Rightarrow> u32 \<Rightarrow> u32 list \<Rightarrow> u8 \<Rightarrow> bytes \<Rightarrow> bytes \<Rightarrow> ('h, 'y) app \<Rightarrow> ('h, 'y) app" where
  "bagl_display_account E app_access_token path path_len raw_pub_key chain_code g =
     (if \<not> epk_path_valid path path_len then res_error SW_BIP32_BAD_PATH g
      else case ui_add_screen ux_epk_display_confirm_ext_pubkey_step 0 g of (_, pos, g1) \<Rightarrow>
      case ui_bip32_path_screen path path_len MAX_PATH_TEXT of
        None \<Rightarrow> res_error SW_BIP32_FORMATTING_FAILED (set_command (env_cx E) CMD_NONE g1)
      | Some p_text \<Rightarrow>
      case ui_add_screen ux_bip32_path_step pos (upd_epk (\<lambda>c. c\<lparr>epk_bip32_path := p_text\<rparr>) g1) of (_, pos1, g2) \<Rightarrow>
      case (if app_access_token \<noteq> 0 then
              ui_add_screen ux_app_token_step pos1 (upd_epk (\<lambda>c. c\<lparr>epk_app_token := ui_application_id_text app_access_token\<rparr>) g2)
            else (True, pos1, g2)) of (_, pos2, g3) \<Rightarrow>
      case ui_next_sreen_ptr pos2 of (approve, pos3) \<Rightarrow> case ui_next_sreen_ptr pos3 of (reject, pos4) \<Rightarrow>
        snd (snd (ui_display_screens pos4 (epk_store app_access_token raw_pub_key chain_code
          (ui_approve_reject_screens ui_action_get_extended_pubkey approve reject g3)))))"

text \<open>The path and, on a second line, the application.\<close>

definition pk_appid :: "string \<Rightarrow> u32 \<Rightarrow> string" where
  "pk_appid p_text app_access_token =
     p_text @ (if app_access_token \<noteq> 0 then
                    CHR 0x0A # take (APPLICATION_ID_STR_LEN + 13 - 1) (''Application: '' @ hex_u32 app_access_token) else '''')"

definition nbgl_display_account ::
    "'h env \<Rightarrow> bool \<Rightarrow> u32 \<Rightarrow> u32 list \<Rightarrow> u8 \<Rightarrow> bytes \<Rightarrow> bytes \<Rightarrow> ('h, 'y) app \<Rightarrow> ('h, 'y) app" where
  "nbgl_display_account E answer app_access_token path path_len raw_pub_key chain_code g =
     (if \<not> epk_path_valid path path_len then res_error SW_BIP32_BAD_PATH g
      else case ui_bip32_path_screen path path_len MAX_PATH_TEXT of
        None \<Rightarrow> res_error SW_BIP32_BAD_PATH g
      | Some p_text \<Rightarrow>
      let g1 = epk_store app_access_token raw_pub_key chain_code (upd_epk (\<lambda>c. c\<lparr>epk_bip32_path := p_text\<rparr>) g) in
      case io_ui_process answer (show_page (Page_choice ''Export Extended Public Key'' (pk_appid p_text app_access_token)) g1) of
        (approved, g2) \<Rightarrow> ui_menu_main HAVE_NBGL (epk_answer E approved g2))"

definition ui_display_account ::
    "'h env \<Rightarrow> bool \<Rightarrow> u32 \<Rightarrow> u32 list \<Rightarrow> u8 \<Rightarrow> bytes \<Rightarrow> bytes \<Rightarrow> ('h, 'y) app \<Rightarrow> ('h, 'y) app" where
  "ui_display_account E answer app_access_token path path_len raw_pub_key chain_code g =
     (case env_lib E of
        HAVE_BAGL \<Rightarrow> bagl_display_account E app_access_token path path_len raw_pub_key chain_code g
      | HAVE_NBGL \<Rightarrow> nbgl_display_account E answer app_access_token path path_len raw_pub_key chain_code g)"

subsection \<open>The handler: \<open>epk_handler.c\<close>\<close>

definition handler_get_extended_public_key :: "'h env \<Rightarrow> draws \<Rightarrow> buffer_t \<Rightarrow> bool \<Rightarrow> ('h, 'y) app \<Rightarrow> ('h, 'y) app" where
  "handler_get_extended_public_key E d cdata has_access_token g0 =
     (if app_is_ui_busy g0 then res_ui_busy g0
      else let g = set_command (env_cx E) CMD_GET_EXTENDED_PUBLIC_KEY g0; err = send_error E in
      check_read_param err (buffer_read_u8 cdata) g (\<lambda>bip32_path_len b1.
      check_read_param err (read_path_param bip32_path_len b1) g (\<lambda>bip32_path b2.
      check_read_param err (read_token has_access_token b2) g (\<lambda>access_token b3.
      check_params_finished err b3 g (
      if \<not> epk_path_valid bip32_path bip32_path_len then err SW_BIP32_BAD_PATH g
      else case crypto_generate_public_key (env_cx E) bip32_path bip32_path_len (epk_raw_public_key (the_epk g)) of
        (r, raw_public_key, chain_code) \<Rightarrow>
      let g1 = upd_epk (\<lambda>c. c\<lparr>epk_raw_public_key := raw_public_key, epk_chain_code := chain_code\<rparr>) g in
      if r \<noteq> 0 then err SW_INTERNAL_CRYPTO_ERROR g1
      else if is_known_application access_token (app_connected_app_id g1)
      then send_response_extended_pubkey E (epk_raw_public_key (the_epk g1)) (epk_chain_code (the_epk g1)) g1
      else ui_display_account E (draw_answer d) access_token bip32_path bip32_path_len (epk_raw_public_key (the_epk g1))
             (epk_chain_code (the_epk g1)) g1)))))"

end
