(* ===== verification/Dispatcher.thy ===== *)
theory Dispatcher
  imports ExtPubKey
begin

text \<open>
  The dispatcher of commands (\<^verbatim>\<open>src/apdu_dispatcher.c\<close>), the start and the loop of the application
  (\<^verbatim>\<open>src/app_main.c\<close>), name and version, and the buttons of the screens: what pressing a step of the
  displayed flow does.

  A parsed command is the record \<open>command_t\<close> of the SDK; \<open>None\<close> is a command that its parser refuses. The texts and
  numbers that the build passes in are the record \<open>build\<close>. Every function returns \<open>None\<close> when the
  application does not go on: an endless search, a call through a null pointer, or the end of the application.
\<close>

record command_t =
  cla :: u8
  ins :: u8
  p1 :: u8
  p2 :: u8
  lc :: u8
  cdata :: bytes

record build =
  APPNAME :: bytes
  MAJOR_VERSION :: u8
  MINOR_VERSION :: u8
  PATCH_VERSION :: u8
  DEBUG_BUILD :: bool

definition handler_get_app_name :: "build \<Rightarrow> ('h, 'y) app \<Rightarrow> ('h, 'y) app" where
  "handler_get_app_name B g = res_ok_data (APPNAME B) g"

definition handler_get_version :: "build \<Rightarrow> ('h, 'y) app \<Rightarrow> ('h, 'y) app" where
  "handler_get_version B g =
     res_ok_data [MAJOR_VERSION B, MINOR_VERSION B, PATCH_VERSION B, if DEBUG_BUILD B then 1 else 0] g"

primrec command_ins :: "command_e \<Rightarrow> u8" where
  "command_ins CMD_NONE = 0x00"
| "command_ins CMD_GET_APP_VERSION = 0x01"
| "command_ins CMD_GET_APP_NAME = 0x02"
| "command_ins CMD_GET_EXTENDED_PUBLIC_KEY = 0x10"
| "command_ins CMD_DERIVE_ADDRESS = 0x11"
| "command_ins CMD_ATTEST_INPUT_BOX = 0x20"
| "command_ins CMD_SIGN_TRANSACTION = 0x21"

definition apdu_dispatcher :: "'h env \<Rightarrow> build \<Rightarrow> draws \<Rightarrow> command_t \<Rightarrow> ('h, 'y) app \<Rightarrow> ('h, 'y) app option" where
  "apdu_dispatcher E B d cmd g =
     (if cla cmd \<noteq> CLA then Some (io_send_sw SW_CLA_NOT_SUPPORTED g)
      else let buf = buffer_init (cdata cmd) (ucast (lc cmd)); wrong = Some (io_send_sw SW_WRONG_P1P2 g) in
      if ins cmd = command_ins CMD_GET_APP_VERSION then
        if p1 cmd \<noteq> 0 \<or> p2 cmd \<noteq> 0 then wrong else Some (handler_get_version B g)
      else if ins cmd = command_ins CMD_GET_APP_NAME then
        if p1 cmd \<noteq> 0 \<or> p2 cmd \<noteq> 0 then wrong else Some (handler_get_app_name B g)
      else if ins cmd = command_ins CMD_GET_EXTENDED_PUBLIC_KEY then
        if p1 cmd = 0 \<or> p1 cmd > 2 \<or> p2 cmd > 0 then wrong
        else Some (handler_get_extended_public_key E d buf (p1 cmd = 2) g)
      else if ins cmd = command_ins CMD_DERIVE_ADDRESS then
        if p1 cmd = 0 \<or> p1 cmd > 2 \<or> p2 cmd = 0 \<or> p2 cmd > 2 then wrong
        else Some (handler_derive_address E d buf (p1 cmd = 2) (p2 cmd = 2) g)
      else if ins cmd = command_ins CMD_ATTEST_INPUT_BOX then
        if p1 cmd = 0 \<or> p2 cmd = 0 then wrong else handler_attest_input E d buf (p1 cmd) (p2 cmd) g
      else if ins cmd = command_ins CMD_SIGN_TRANSACTION then
        if p1 cmd = 0 \<or> p2 cmd = 0 then wrong else handler_sign_transaction E d buf (p1 cmd) (p2 cmd) g
      else Some (io_send_sw SW_INS_NOT_SUPPORTED g))"

subsection \<open>Start and loop: \<open>app_main.c\<close>\<close>

text \<open>\<open>initialized\<close> is the mark in the non-volatile memory, \<open>rng\<close> the random session key.\<close>

definition app_start :: "'h env \<Rightarrow> u8 \<Rightarrow> bytes \<Rightarrow> ('h, 'y) app \<Rightarrow> ('h, 'y) app" where
  "app_start E initialized rng g =
     (let g1 = (if initialized \<noteq> 0x01 then g\<lparr>blind_signing_enabled := False\<rparr> else g)
      in ui_menu_main (env_lib E) (app_init (commands_zero (env_cx E)) rng g1))"

text \<open>One turn of the loop.\<close>

definition app_main_turn :: "'h env \<Rightarrow> build \<Rightarrow> draws \<Rightarrow> command_t option \<Rightarrow> ('h, 'y) app \<Rightarrow> ('h, 'y) app option" where
  "app_main_turn E B d parsed g =
     (case parsed of
        None \<Rightarrow> Some (io_send_sw SW_WRONG_APDU_DATA_LENGTH g)
      | Some cmd \<Rightarrow> apdu_dispatcher E B d cmd g)"

subsection \<open>Buttons\<close>

definition call_approve_reject :: "'h env \<Rightarrow> bool \<Rightarrow> ('h, 'y) app \<Rightarrow> ('h, 'y) app option" where
  "call_approve_reject E approved g =
     (case approve_reject_callback g of
        None \<Rightarrow> None
      | Some ui_action_attest_input \<Rightarrow> Some (bagl_action_attest_input (env_cx E) approved g)
      | Some ui_action_derive_address \<Rightarrow> Some (bagl_action_derive_address E approved g)
      | Some ui_action_get_extended_pubkey \<Rightarrow> Some (bagl_action_get_extended_pubkey E approved g))"

definition call_sign_reject :: "'h env \<Rightarrow> bool \<Rightarrow> ('h, 'y) app \<Rightarrow> ('h, 'y) app option" where
  "call_sign_reject E approved g =
     (if sign_reject_callback g then bagl_operation_execute_action (env_cx E) approved g else None)"

definition press :: "'h env \<Rightarrow> ux_step \<Rightarrow> ('h, 'y) app \<Rightarrow> ('h, 'y) app option" where
  "press E s g =
     (case s of
        ux_approve_step \<Rightarrow> call_approve_reject E True g
      | ux_reject_step \<Rightarrow> call_approve_reject E False g
      | ux_sign_step \<Rightarrow> call_sign_reject E True g
      | ux_sign_reject_step \<Rightarrow> call_sign_reject E False g
      | ux_menu_settings_step \<Rightarrow> Some (ui_menu_settings g)
      | ux_menu_about_step \<Rightarrow> Some (ui_menu_about HAVE_BAGL g)
      | ux_menu_exit_step \<Rightarrow> None
      | ux_menu_back_step \<Rightarrow> Some (ui_menu_main HAVE_BAGL g)
      | ux_menu_bs_enabled_step \<Rightarrow> Some (toggle_blind_signing g)
      | ux_menu_bs_disabled_step \<Rightarrow> Some (toggle_blind_signing g)
      | ux_stx_blind_signing_enable_settings_step \<Rightarrow> Some (blind_signing_callback True g)
      | ux_stx_blind_signing_enable_txreject_step \<Rightarrow> Some (blind_signing_callback False g)
      | _ \<Rightarrow> Some g)"

subsection \<open>The device\<close>

text \<open>What can happen: a command, a button of the displayed flow, moving to another step of it, the switch on the touch screen.\<close>

datatype event = Command draws "command_t option" | Button ux_step | Page nat | Switch

inductive device_step :: "'h env \<Rightarrow> build \<Rightarrow> ('h, 'y) app \<Rightarrow> event \<Rightarrow> ('h, 'y) app \<Rightarrow> bool" for E B where
  step_command: "app_main_turn E B d parsed g = Some g' \<Longrightarrow> device_step E B g (Command d parsed) g'"
| step_button: "env_lib E = HAVE_BAGL \<Longrightarrow> s \<in> set (displayed_steps g) \<Longrightarrow> press E s g = Some g' \<Longrightarrow>
    device_step E B g (Button s) g'"
| step_page: "env_lib E = HAVE_BAGL \<Longrightarrow> i < ux_flow_len g \<Longrightarrow> device_step E B g (Page i) (snd (enter_step (env_cx E) i g))"
| step_switch: "env_lib E = HAVE_NBGL \<Longrightarrow> device_step E B g Switch (controls_callback g)"

inductive_cases device_stepE: "device_step E B g ev g'"
inductive_simps device_step_command: "device_step E B g (Command d parsed) g'"
inductive_simps device_step_button: "device_step E B g (Button s) g'"

text \<open>What the SDK guarantees of a command: its data has the announced length, and the I/O buffer holds at least the status word.\<close>

definition io_ok :: "bytes \<Rightarrow> bool" where
  "io_ok io \<longleftrightarrow> 2 \<le> length io \<and> length io < 2 ^ 32"

fun event_ok :: "event \<Rightarrow> bool" where
  "event_ok (Command d parsed) \<longleftrightarrow>
     io_ok (draw_io d) \<and> (case parsed of None \<Rightarrow> True | Some cmd \<Rightarrow> unat (lc cmd) \<le> length (cdata cmd))"
| "event_ok _ \<longleftrightarrow> True"

inductive reachable :: "'h env \<Rightarrow> build \<Rightarrow> ('h, 'y) app \<Rightarrow> bool" for E B where
  reach_start: "reachable E B (app_start E initialized rng g)"
| reach_step: "reachable E B g \<Longrightarrow> event_ok ev \<Longrightarrow> device_step E B g ev g' \<Longrightarrow> reachable E B g'"

end
