(* ===== verification/AttestFrame.thy ===== *)
theory AttestFrame
  imports AttestInput StxOpP2pkRun
begin

text \<open>
  The frames in which an attested box travels from the attestation command (\<^verbatim>\<open>ainpt_response.c\<close>) through the host
  to the signing command (\<^verbatim>\<open>stx_handler.c\<close>, \<^verbatim>\<open>input_frame.c\<close>). \<open>frame_body\<close> is the layout of
  a frame in front of its signature; the lemmas show that the one side writes it and the other side reads it.
\<close>

definition be64 :: "u64 \<Rightarrow> bytes" where
  "be64 v = [ucast (drop_bit 56 v), ucast (drop_bit 48 v), ucast (drop_bit 40 v), ucast (drop_bit 32 v),
     ucast (drop_bit 24 v), ucast (drop_bit 16 v), ucast (drop_bit 8 v), ucast v]"

definition be32 :: "u32 \<Rightarrow> bytes" where
  "be32 v = [ucast (drop_bit 24 v), ucast (drop_bit 16 v), ucast (drop_bit 8 v), ucast v]"

definition token_pairs :: "(bytes \<times> u64) list \<Rightarrow> bytes" where
  "token_pairs ts = concat (map (\<lambda>(i, v). i @ be64 v) ts)"

definition frame_body :: "bytes \<Rightarrow> u8 \<Rightarrow> u8 \<Rightarrow> u64 \<Rightarrow> (bytes \<times> u64) list \<Rightarrow> bytes" where
  "frame_body box_id frames index value ts = box_id @ [frames, index] @ be64 value @ [of_nat (length ts)] @ token_pairs ts"

definition frame_tokens :: "'h ainpt_mem \<Rightarrow> nat \<Rightarrow> (bytes \<times> u64) list" where
  "frame_tokens m index =
     map (\<lambda>i. (tt_tokens (tokens_table m) ! i, token_amounts m ! i)) [4 * index..<min (4 * index + 4) (unat (tt_count (tokens_table m)))]"

lemma length_be [simp]: "length (be64 v) = 8" "length (be32 w) = 4"
  by (simp_all add: be64_def be32_def)

lemma word_of_be_be [simp]: "word_of_be (be64 v) 0 = v" "word_of_be (be32 w) 0 = w"
  unfolding be64_def be32_def by (rule word_of_be_u64, rule word_of_be_u32)

lemma length_token_pairs: "\<forall>(i, v)\<in>set ts. length i = 32 \<Longrightarrow> length (token_pairs ts) = 40 * length ts"
  by (induction ts) (auto simp: token_pairs_def)

subsection \<open>Writing\<close>

text \<open>One more field at the end of a buffer.\<close>

definition rw_grows :: "rw_buffer_t \<Rightarrow> bytes \<Rightarrow> rw_buffer_t \<Rightarrow> bool" where
  "rw_grows b bs b' \<longleftrightarrow> rw_wf b' \<and> rw_data b' = rw_data b @ bs \<and> rw_space b' = rw_space b - length bs \<and>
     buf_offset (rw_read b') = buf_offset (rw_read b)"

lemma rw_grows_append: "rw_wf b \<Longrightarrow> length bs \<le> rw_space b \<Longrightarrow> rw_grows b bs (rw_append b bs)"
  by (simp add: rw_grows_def rw_append_props) (simp add: rw_append_def)

lemma rw_grows_trans: "rw_grows b bs b1 \<Longrightarrow> rw_grows b1 cs b2 \<Longrightarrow> rw_grows b (bs @ cs) b2"
  by (simp add: rw_grows_def)

lemma rw_grows_refl: "rw_wf b \<Longrightarrow> rw_grows b [] b"
  by (simp add: rw_grows_def)

lemma grow_bytes: "rw_wf b \<Longrightarrow> unat n = length bs \<Longrightarrow> length bs \<le> rw_space b \<Longrightarrow>
    \<exists>b'. rw_buffer_write_bytes b bs n = (True, b') \<and> rw_grows b bs b'"
  using rw_grows_append [of b bs] by (simp add: rw_write_bytes_eq)

lemma grow_u8: "rw_wf b \<Longrightarrow> 1 \<le> rw_space b \<Longrightarrow> \<exists>b'. rw_buffer_write_u8 b v = (True, b') \<and> rw_grows b [v] b'"
  using rw_grows_append [of b "[v]"] by (simp add: rw_write_u8_eq)

lemma grow_u64: "rw_wf b \<Longrightarrow> 8 \<le> rw_space b \<Longrightarrow> \<exists>b'. rw_buffer_write_u64 b v BE = (True, b') \<and> rw_grows b (be64 v) b'"
  using rw_grows_append [of b "be64 v"] by (simp add: rw_write_u64_be_eq be64_def)

lemma frame_tokens_loop_ok:
  assumes "rw_wf b" and "\<forall>i\<in>set is. length (tt_tokens (tokens_table m) ! i) = 32" and "40 * length is \<le> rw_space b"
  shows "\<exists>b'. frame_tokens_loop is m b = (True, b') \<and>
     rw_grows b (token_pairs (map (\<lambda>i. (tt_tokens (tokens_table m) ! i, token_amounts m ! i)) is)) b'"
  using assms
proof (induction "is" arbitrary: b)
  case Nil
  then show ?case by (simp add: token_pairs_def rw_grows_refl)
next
  case (Cons i js)
  let ?id = "tt_tokens (tokens_table m) ! i" and ?v = "token_amounts m ! i"
  obtain b1 where b1: "rw_buffer_write_bytes b ?id ERGO_ID_LEN = (True, b1)" "rw_grows b ?id b1"
    using grow_bytes [of b ERGO_ID_LEN ?id] Cons.prems by (auto simp: ERGO_ID_LEN_def)
  have w1: "rw_wf b1" "8 \<le> rw_space b1" using b1(2) Cons.prems by (simp_all add: rw_grows_def)
  obtain b2 where b2: "rw_buffer_write_u64 b1 ?v BE = (True, b2)" "rw_grows b1 (be64 ?v) b2"
    using grow_u64 [OF w1] by blast
  have w2: "rw_wf b2" "40 * length js \<le> rw_space b2" using b1(2) b2(2) Cons.prems by (simp_all add: rw_grows_def)
  from Cons.IH [OF w2(1) _ w2(2)] Cons.prems(2) obtain b3 where b3: "frame_tokens_loop js m b2 = (True, b3)"
    "rw_grows b2 (token_pairs (map (\<lambda>i. (tt_tokens (tokens_table m) ! i, token_amounts m ! i)) js)) b3" by auto
  from rw_grows_trans [OF rw_grows_trans [OF b1(2) b2(2)] b3(2)] b1(1) b2(1) b3(1)
  show ?case by (simp add: token_pairs_def)
qed

text \<open>A box that may be attested: its id and the ids of its tokens have their length, and there are at most 100 tokens.\<close>

definition ainpt_ready :: "'h attest_input_ctx_t \<Rightarrow> bool" where
  "ainpt_ready c \<longleftrightarrow> length (ai_box_id c) = 32 \<and> unat (tt_count (tokens_table (ai_mem c))) \<le> 100 \<and>
     (\<forall>i < unat (tt_count (tokens_table (ai_mem c))). length (tt_tokens (tokens_table (ai_mem c)) ! i) = 32)"

lemma frames_count:
  assumes "unat count \<le> 100"
  shows "unat (get_frames_count count) = max 1 ((unat count + 3) div 4)"
proof -
  have "(unat count + 3) div 4 < 2 ^ 8" using assms by simp
  then have u: "unat (of_nat ((unat count + 3) div 4) :: u8) = (unat count + 3) div 4" by (simp add: unat_of_nat_small)
  have e: "get_frames_count count = (let n = of_nat ((unat count + 3) div 4) in if n = 0 then 1 else n)"
    by (simp add: get_frames_count_def FRAME_MAX_TOKENS_COUNT_def)
  show ?thesis
  proof (cases "(of_nat ((unat count + 3) div 4) :: u8) = 0")
    case True
    then have "(unat count + 3) div 4 = 0" using u by simp
    then show ?thesis using True by (simp add: e)
  next
    case False
    then have "(unat count + 3) div 4 \<noteq> 0" using u by (metis unat_eq_zero)
    then show ?thesis using False u by (simp add: e Let_def)
  qed
qed

lemma frame_indices:
  assumes "unat count \<le> 100" and "index < get_frames_count count"
  defines "left \<equiv> (count - index * FRAME_MAX_TOKENS_COUNT :: u8)"
  defines "k \<equiv> (if left < FRAME_MAX_TOKENS_COUNT then left else FRAME_MAX_TOKENS_COUNT)"
  shows "unat (index * FRAME_MAX_TOKENS_COUNT) = 4 * unat index" and "unat k = min 4 (unat count - 4 * unat index)"
    and "unat (index * FRAME_MAX_TOKENS_COUNT + k) = min (4 * unat index + 4) (unat count)" and "4 * unat index \<le> unat count"
proof -
  have i: "unat index < max 1 ((unat count + 3) div 4)"
    using assms(2) frames_count [OF assms(1)] by (simp add: word_less_nat_alt)
  then have le: "4 * unat index \<le> unat count" by (auto simp: max_def split: if_splits)
  show o: "unat (index * FRAME_MAX_TOKENS_COUNT) = 4 * unat index"
    using le assms(1) by (simp add: FRAME_MAX_TOKENS_COUNT_def unat_word_ariths)
  then have ole: "index * FRAME_MAX_TOKENS_COUNT \<le> count" using le by (simp add: word_le_nat_alt)
  have l: "unat left = unat count - 4 * unat index" unfolding left_def word_sub_le_unat [OF ole] o ..
  then show k: "unat k = min 4 (unat count - 4 * unat index)"
    by (simp add: k_def FRAME_MAX_TOKENS_COUNT_def word_less_nat_alt min_def)
  show "unat (index * FRAME_MAX_TOKENS_COUNT + k) = min (4 * unat index + 4) (unat count)"
    using o k le assms(1) by (subst word_add_no_wrap) (auto simp: min_def)
  show "4 * unat index \<le> unat count" by (rule le)
qed

lemma length_frame_tokens: "length (frame_tokens m i) = min (4 * i + 4) (unat (tt_count (tokens_table m))) - 4 * i"
  by (simp add: frame_tokens_def)

text \<open>The whole code is stored, and the first half of it becomes part of the frame.\<close>

lemma write_mac:
  assumes "rw_wf b" and "32 \<le> rw_space b" and "length mac = 32"
  shows "\<exists>b'. rw_buffer_seek_write_cur (rw_store (\<lambda>p. mem_write p (rw_buffer_write_ptr b) mac) b) INPUT_FRAME_SIGNATURE_LEN = (True, b') \<and>
     rw_grows b (take 16 mac) b'"
proof -
  have n: "unat INPUT_FRAME_SIGNATURE_LEN = 16" by (simp add: INPUT_FRAME_SIGNATURE_LEN_def)
  note w = rw_wfD [OF assms(1)]
  let ?p = "buf_ptr (rw_read b)" and ?s = "unat (buf_size (rw_read b))"
  let ?f = "\<lambda>p. mem_write p (rw_buffer_write_ptr b) mac"
  define b' where "b' = b\<lparr>rw_read := (rw_read b)\<lparr>buf_ptr := mem_write ?p ?s mac, buf_size := buf_size (rw_read b) + 16\<rparr>\<rparr>"
  have sp: "unat INPUT_FRAME_SIGNATURE_LEN \<le> rw_space b" using n assms(2) by simp
  have seek: "rw_buffer_seek_write_cur (rw_store ?f b) INPUT_FRAME_SIGNATURE_LEN = (True, b')"
    using rw_seek_write_cur_ok(1) [OF assms(1) sp, of ?f]
    by (simp add: b'_def rw_store_def rw_buffer_write_ptr_def INPUT_FRAME_SIGNATURE_LEN_def)
  have u: "unat (buf_size (rw_read b) + 16) = ?s + 16"
    using rw_seek_write_cur_ok(2) [OF assms(1) sp] by (simp add: INPUT_FRAME_SIGNATURE_LEN_def)
  have le: "?s + 32 \<le> length ?p" "?s + 32 \<le> unat (rw_size b)" using assms(2) w by (simp_all add: rw_space_def)
  have len: "length (mem_write ?p ?s mac) = length ?p" using le(1) assms(3) by simp
  have wf: "rw_wf b'" using u le w by (simp add: rw_wf_def b'_def word_le_nat_alt len)
  have "take (?s + 16) (mem_write ?p ?s mac) = take ?s ?p @ take 16 mac"
    using le(1) assms(3) by (simp add: mem_write_def)
  then have "rw_data b' = rw_data b @ take 16 mac"
    using w le(1) u by (simp add: rw_data_eq [OF wf] rw_data_eq [OF assms(1)]) (simp add: b'_def u)
  moreover have "rw_space b' = rw_space b - 16" using u by (simp add: rw_space_def b'_def)
  ultimately have "rw_grows b (take 16 mac) b'" using wf assms(3) by (simp add: rw_grows_def) (simp add: b'_def)
  with seek show ?thesis by blast
qed

lemma send_frame:
  assumes "ainpt_ready (the_ainpt g)" and "index < get_frames_count (tt_count (tokens_table (ai_mem (the_ainpt g))))"
    and "237 \<le> length io" "length io < 2 ^ 32" and "\<And>d. length (cx_hmac_sha256 (env_cx E) key d) = 32"
  defines "c \<equiv> the_ainpt g"
  defines "body \<equiv> frame_body (ai_box_id c) (get_frames_count (tt_count (tokens_table (ai_mem c)))) index (box_value (ai_box c))
      (frame_tokens (ai_mem c) (unat index))"
  shows "send_response_attested_input_frame E io key index g = res_ok_data (body @ take 16 (cx_hmac_sha256 (env_cx E) key body)) g"
proof -
  let ?count = "tt_count (tokens_table (ai_mem c))"
  have rd: "length (ai_box_id c) = 32" "unat ?count \<le> 100" "\<forall>i < unat ?count. length (tt_tokens (tokens_table (ai_mem c)) ! i) = 32"
    using assms(1) by (simp_all add: ainpt_ready_def c_def)
  have idx: "index < get_frames_count ?count" using assms(2) by (simp add: c_def)
  note fi = frame_indices [OF rd(2) idx]
  define k where "k = (if ?count - index * FRAME_MAX_TOKENS_COUNT < FRAME_MAX_TOKENS_COUNT then ?count - index * FRAME_MAX_TOKENS_COUNT
    else FRAME_MAX_TOKENS_COUNT)"
  note fi = fi [folded k_def]
  define n :: size_t where "n = of_nat (length io) - 2"
  have n: "unat n = length io - 2"
    using assms(3,4) word_sub_le_unat [of 2 "of_nat (length io) :: size_t"] by (simp add: n_def unat_of_nat_small word_le_nat_alt)
  let ?b0 = "rw_buffer_init io n 0"
  have b0: "rw_wf ?b0" "rw_space ?b0 = length io - 2" "rw_data ?b0 = []" using n by (simp_all add: wf_intros buf_simps)
  obtain b1 where b1: "rw_buffer_write_bytes ?b0 (ai_box_id c) ERGO_ID_LEN = (True, b1)" "rw_grows ?b0 (ai_box_id c) b1"
    using grow_bytes [OF b0(1), of ERGO_ID_LEN "ai_box_id c"] rd(1) b0(2) assms(3) by (fastforce simp: ERGO_ID_LEN_def)
  have s1: "rw_wf b1" "203 \<le> rw_space b1" using b1(2) b0(2) rd(1) assms(3) by (simp_all add: rw_grows_def)
  obtain b2 where b2: "rw_buffer_write_u8 b1 (get_frames_count ?count) = (True, b2)" "rw_grows b1 [get_frames_count ?count] b2"
    using grow_u8 [OF s1(1)] s1(2) by fastforce
  have s2: "rw_wf b2" "202 \<le> rw_space b2" using b2(2) s1(2) by (simp_all add: rw_grows_def)
  obtain b3 where b3: "rw_buffer_write_u8 b2 index = (True, b3)" "rw_grows b2 [index] b3"
    using grow_u8 [OF s2(1)] s2(2) by fastforce
  have s3: "rw_wf b3" "201 \<le> rw_space b3" using b3(2) s2(2) by (simp_all add: rw_grows_def)
  obtain b4 where b4: "rw_buffer_write_u64 b3 (box_value (ai_box c)) BE = (True, b4)" "rw_grows b3 (be64 (box_value (ai_box c))) b4"
    using grow_u64 [OF s3(1)] s3(2) by fastforce
  have s4: "rw_wf b4" "193 \<le> rw_space b4" using b4(2) s3(2) by (simp_all add: rw_grows_def)
  obtain b5 where b5: "rw_buffer_write_u8 b4 k = (True, b5)" "rw_grows b4 [k] b5"
    using grow_u8 [OF s4(1)] s4(2) by fastforce
  have s5: "rw_wf b5" "192 \<le> rw_space b5" using b5(2) s4(2) by (simp_all add: rw_grows_def)
  let ?is = "[4 * unat index..<min (4 * unat index + 4) (unat ?count)]"
  have li: "length ?is \<le> 4" "length ?is = unat k" using fi(2,4) by (auto simp: min_def)
  obtain b6 where b6: "frame_tokens_loop ?is (ai_mem c) b5 = (True, b6)" "rw_grows b5 (token_pairs (frame_tokens (ai_mem c) (unat index))) b6"
    using frame_tokens_loop_ok [OF s5(1), of ?is "ai_mem c"] rd(3) s5(2) li(1) by (auto simp: frame_tokens_def)
  have lt: "length (token_pairs (frame_tokens (ai_mem c) (unat index))) \<le> 160"
    using rd(3) li by (subst length_token_pairs) (auto simp: frame_tokens_def)
  have s6: "rw_wf b6" "32 \<le> rw_space b6" using b6(2) s5(2) lt by (simp_all add: rw_grows_def)
  have kk: "[k] = [of_nat (length (frame_tokens (ai_mem c) (unat index)))]"
    using li(2) by (simp add: frame_tokens_def)
  have d6: "rw_data b6 = body"
    using b1(2) b2(2) b3(2) b4(2) b5(2) b6(2) b0(3) by (simp add: rw_grows_def body_def frame_body_def kk)
  let ?mac = "cx_hmac_sha256 (env_cx E) key body"
  obtain b8 where b8: "rw_buffer_seek_write_cur (rw_store (\<lambda>p. mem_write p (rw_buffer_write_ptr b6) ?mac) b6) INPUT_FRAME_SIGNATURE_LEN = (True, b8)"
    "rw_grows b6 (take 16 ?mac) b8" using write_mac [OF s6, of ?mac] assms(5) by blast
  have d8: "rw_wf b8" "rw_data b8 = body @ take 16 ?mac" using b8(2) d6 by (simp_all add: rw_grows_def)
  have can: "rw_buffer_can_write b6 32" using s6 by (simp add: rw_can_write_iff)
  have small: "\<not> unat (index * FRAME_MAX_TOKENS_COUNT) + unat k > 255" using fi rd(2) by auto
  show ?thesis
    unfolding send_response_attested_input_frame_def c_def [symmetric] Let_def n_def [symmetric] k_def [symmetric] check_write_param_def
    using idx b1(1) b2(1) b3(1) b4(1) b5(1) b6(1) can small fi(1,3) b8(1) assms(5)
    by (simp add: rw_read_back s6(1) d6 d8 not_le)
qed

subsection \<open>Reading\<close>

lemma frame_length:
  assumes "length box_id = 32" and "\<forall>(i, v)\<in>set ts. length i = 32"
  shows "length (frame_body box_id frames index value ts) = 43 + 40 * length ts"
  using assms by (simp add: frame_body_def length_token_pairs)

lemma read_ptr_take: "buffer_wf b \<Longrightarrow> n \<le> length (buffer_data b) \<Longrightarrow> take n (buffer_read_ptr b) = take n (buffer_data b)"
  by (simp add: take_buffer_read_ptr length_buffer_data)

lemma read_ptr_nth: "buffer_wf b \<Longrightarrow> n < length (buffer_data b) \<Longrightarrow> buffer_read_ptr b ! n = buffer_data b ! n"
  using read_ptr_take [of b "Suc n"] by (metis Suc_leI lessI nth_take)

lemma frame_data_length:
  assumes "buffer_wf b" and "buffer_data b = frame_body box_id frames index value ts @ mac @ rest"
    and "length box_id = 32" and "\<forall>(i, v)\<in>set ts. length i = 32" and "length ts \<le> 4" and "length mac = 16"
  shows "unat (input_frame_data_length b) = 43 + 40 * length ts"
proof -
  let ?body = "frame_body box_id frames index value ts"
  note l = frame_length [OF assms(3,4), of frames index "value"]
  have d: "59 + 40 * length ts \<le> length (buffer_data b)" using l assms(2,6) by simp
  have u: "unat (of_nat (length ts) :: u8) = length ts" using assms(5) by (simp add: unat_of_nat_small)
  have c42: "buffer_read_ptr b ! 42 = of_nat (length ts)"
    using d l assms(3) by (simp add: read_ptr_nth [OF assms(1)] assms(2) nth_append) (simp add: frame_body_def nth_append be64_def)
  have pre: "unat (40 * (of_nat (length ts) :: size_t) + 43) = 43 + 40 * length ts"
    using assms(5) by (simp add: unat_word_ariths unat_of_nat)
  have uc: "(ucast (of_nat (length ts) :: u8) :: size_t) = of_nat (length ts)"
    using u by (metis of_nat_unat)
  let ?n = "ucast (40 * (of_nat (length ts) :: size_t) + 43) :: u8"
  have n: "unat ?n = 43 + 40 * length ts"
    using pre assms(5) by (simp add: unsigned_ucast_eq unsigned_take_bit_eq take_bit_nat_eq_self)
  have n16: "unat ((ucast ?n :: size_t) + 16) = 59 + 40 * length ts"
    using n assms(5) by (subst word_add_no_wrap) (simp_all add: unat_ucast_up)
  have can: "buffer_can_read b FRAME_MIN_SIZE" "buffer_can_read b (ucast ?n + INPUT_FRAME_SIGNATURE_LEN)"
    using d n16 by (simp_all add: buffer_can_read_iff [OF assms(1)] frame_sizes)
  have "input_frame_data_length b = ?n"
    using can c42 uc by (simp add: input_frame_data_length_def Let_def frame_sizes mult.commute)
  with n show ?thesis by simp
qed

lemma frame_is_signed:
  assumes "buffer_wf b" and "buffer_data b = frame_body box_id frames index value ts @ mac @ rest"
    and "length box_id = 32" and "\<forall>(i, v)\<in>set ts. length i = 32" and "length ts \<le> 4" and "length mac = 16"
  shows "frame_signed E key b (input_frame_data_length b) \<longleftrightarrow>
     take 16 (cx_hmac_sha256 (env_cx E) key (frame_body box_id frames index value ts)) = mac"
proof -
  let ?body = "frame_body box_id frames index value ts"
  note l = frame_length [OF assms(3,4), of frames index "value"]
  note n = frame_data_length [OF assms]
  have t1: "take (43 + 40 * length ts) (buffer_read_ptr b) = ?body"
    using l by (subst read_ptr_take [OF assms(1)]) (simp_all add: assms(2))
  have "take (59 + 40 * length ts) (buffer_read_ptr b) = ?body @ mac"
    using l assms(6) by (subst read_ptr_take [OF assms(1)]) (simp_all add: assms(2))
  then have "drop (43 + 40 * length ts) (take (43 + 40 * length ts + 16) (buffer_read_ptr b)) = mac" using l by (simp add: add.commute)
  then have t2: "take 16 (drop (43 + 40 * length ts) (buffer_read_ptr b)) = mac" by (simp add: take_drop add.commute)
  have nz: "input_frame_data_length b \<noteq> 0" using n by auto
  have "take 16 (the (input_frame_signature_ptr b)) = mac"
    using nz n t2 by (simp add: input_frame_signature_ptr_def Let_def)
  then show ?thesis
    unfolding frame_signed_def Let_def n t1 memcmp_eq_def by (auto simp: INPUT_FRAME_SIGNATURE_LEN_def)
qed

lemma receive_frame:
  assumes "buffer_wf b" and "buffer_data b = frame_body box_id frames index value ts @ mac @ rest"
    and "length box_id = 32" and "\<forall>(i, v)\<in>set ts. length i = 32" and "length ts \<le> 4" and "length mac = 16"
    and "take 16 (cx_hmac_sha256 (env_cx E) key (frame_body box_id frames index value ts)) = mac" and "stx_approved g"
  shows "\<exists>tokens b6. buffer_wf tokens \<and> buffer_data tokens = token_pairs ts \<and> buffer_wf b6 \<and> buffer_data b6 = rest \<and>
     handle_input_frame E key b g =
       (let add_tokens = (\<lambda>g. run_p2pk E (stx_operation_p2pk_add_input_tokens (env_cx E) (the_p2pk g) box_id index tokens) g res_ok)
        in if index = 0 then
             check_read_param (handler_err E) (buffer_read_u32 b6 BE) g (\<lambda>extension_len _.
               run_p2pk E (stx_operation_p2pk_add_input (the_p2pk g) box_id value frames extension_len) g add_tokens)
           else add_tokens g)"
proof -
  let ?n = "of_nat (length ts) :: u8"
  have lt: "length (token_pairs ts) = 40 * length ts" using assms(4) by (rule length_token_pairs)
  have d0: "buffer_data b = box_id @ frames # index # be64 value @ ?n # token_pairs ts @ mac @ rest"
    using assms(2) by (simp add: frame_body_def)
  have nz: "input_frame_data_length b \<noteq> 0" using frame_data_length [OF assms(1-6)] by auto
  have sg: "frame_signed E key b (input_frame_data_length b)" unfolding frame_is_signed [OF assms(1-6)] by (rule assms(7))
  let ?b1 = "buffer_skip b 32"
  have b1: "buffer_read_bytes b ERGO_ID_LEN = (Some box_id, ?b1)" "buffer_wf ?b1"
    "buffer_data ?b1 = frames # index # be64 value @ ?n # token_pairs ts @ mac @ rest"
    using assms(1,3) d0 by (simp_all add: buffer_read_bytes_eq ERGO_ID_LEN_def buffer_data_skip buffer_wf_skip)
  let ?b2 = "buffer_skip ?b1 1"
  have b2: "buffer_read_u8 ?b1 = (Some frames, ?b2)" "buffer_wf ?b2" "buffer_data ?b2 = index # be64 value @ ?n # token_pairs ts @ mac @ rest"
    using b1(2,3) by (simp_all add: buffer_read_u8_eq buffer_data_skip buffer_wf_skip)
  let ?b3 = "buffer_skip ?b2 1"
  have b3: "buffer_read_u8 ?b2 = (Some index, ?b3)" "buffer_wf ?b3" "buffer_data ?b3 = be64 value @ ?n # token_pairs ts @ mac @ rest"
    using b2(2,3) by (simp_all add: buffer_read_u8_eq buffer_data_skip buffer_wf_skip)
  let ?b4 = "buffer_skip ?b3 8"
  have b4: "buffer_read_u64 ?b3 BE = (Some value, ?b4)" "buffer_wf ?b4" "buffer_data ?b4 = ?n # token_pairs ts @ mac @ rest"
    using b3(2,3) by (simp_all add: buffer_read_u64_be_eq buffer_data_skip buffer_wf_skip)
  let ?b5 = "buffer_skip ?b4 1"
  have b5: "buffer_read_u8 ?b4 = (Some ?n, ?b5)" "buffer_wf ?b5" "buffer_data ?b5 = token_pairs ts @ mac @ rest"
    using b4(2,3) by (simp_all add: buffer_read_u8_eq buffer_data_skip buffer_wf_skip)
  have u: "unat ?n = length ts" using assms(5) by (simp add: unat_of_nat_small)
  then have un: "(ucast ?n :: size_t) = of_nat (length ts)" by (metis of_nat_unat)
  define tl :: u8 where "tl = ucast (ucast ?n * FRAME_TOKEN_VALUE_PAIR_SIZE)"
  have "unat (of_nat (length ts) * 40 :: size_t) = 40 * length ts"
    using assms(5) by (simp add: unat_word_ariths unat_of_nat)
  then have tlu: "unat tl = 40 * length ts"
    using assms(5) unfolding tl_def un
    by (simp add: frame_sizes unsigned_ucast_eq unsigned_take_bit_eq take_bit_nat_eq_self)
  define tokens where "tokens = buffer_init (buffer_read_ptr ?b5) (ucast tl)"
  have tn: "unat (ucast tl :: size_t) = 40 * length ts" using tlu by (simp add: unat_ucast_up)
  have d5: "40 * length ts \<le> length (buffer_data ?b5)" using lt b5(3) by simp
  then have "40 * length ts \<le> length (buffer_read_ptr ?b5)" by (simp add: buffer_data_def)
  then have tw: "buffer_wf tokens" unfolding tokens_def by (intro buffer_wf_init) (simp add: tn)
  have td: "buffer_data tokens = token_pairs ts"
    unfolding tokens_def buffer_data_init tn using read_ptr_take [OF b5(2) d5] lt b5(3) by simp
  have sl: "unat (ucast tl + INPUT_FRAME_SIGNATURE_LEN :: size_t) = 40 * length ts + 16"
    using tn assms(5) by (subst word_add_no_wrap) (simp_all add: INPUT_FRAME_SIGNATURE_LEN_def)
  let ?b6 = "buffer_skip ?b5 (ucast tl + INPUT_FRAME_SIGNATURE_LEN)"
  have le: "unat (ucast tl + INPUT_FRAME_SIGNATURE_LEN :: size_t) \<le> length (buffer_data ?b5)"
    unfolding sl using lt assms(6) b5(3) by simp
  have b6: "buffer_seek_cur ?b5 (ucast tl + INPUT_FRAME_SIGNATURE_LEN) = (True, ?b6)" "buffer_wf ?b6" "buffer_data ?b6 = rest"
    using buffer_seek_cur_ok [OF b5(2) le] buffer_wf_skip [OF b5(2) le] buffer_data_skip [OF b5(2) le] sl lt assms(6) b5(3) by simp_all
  have "handle_input_frame E key b g =
       (let add_tokens = (\<lambda>g. run_p2pk E (stx_operation_p2pk_add_input_tokens (env_cx E) (the_p2pk g) box_id index tokens) g res_ok)
        in if index = 0 then
             check_read_param (handler_err E) (buffer_read_u32 ?b6 BE) g (\<lambda>extension_len _.
               run_p2pk E (stx_operation_p2pk_add_input (the_p2pk g) box_id value frames extension_len) g add_tokens)
           else add_tokens g)"
    unfolding handle_input_frame_def Let_def check_proper_state_def tokens_def tl_def
    using assms(8) nz sg b1(1) b2(1) b3(1) b4(1) b5(1) b6(1) [unfolded tl_def]
    by (simp add: check_read_param_def)
  with tw td b6(2,3) show ?thesis by blast
qed

subsection \<open>The round trip\<close>

text \<open>What the signing command does with an accepted frame, \<open>rest\<close> being the data behind it.\<close>

definition accept_frame ::
    "'h env \<Rightarrow> bytes \<Rightarrow> u8 \<Rightarrow> u8 \<Rightarrow> u64 \<Rightarrow> buffer_t \<Rightarrow> buffer_t \<Rightarrow> ('h, 'y) app \<Rightarrow> ('h, 'y) app" where
  "accept_frame E box_id frames index value tokens rest g =
     (let add_tokens = (\<lambda>g. run_p2pk E (stx_operation_p2pk_add_input_tokens (env_cx E) (the_p2pk g) box_id index tokens) g res_ok)
      in if index = 0 then
           check_read_param (handler_err E) (buffer_read_u32 rest BE) g (\<lambda>extension_len _.
             run_p2pk E (stx_operation_p2pk_add_input (the_p2pk g) box_id value frames extension_len) g add_tokens)
         else add_tokens g)"

definition attested_frame :: "'h env \<Rightarrow> bytes \<Rightarrow> u8 \<Rightarrow> 'h attest_input_ctx_t \<Rightarrow> bytes" where
  "attested_frame E key index c =
     (let body = frame_body (ai_box_id c) (get_frames_count (tt_count (tokens_table (ai_mem c)))) index (box_value (ai_box c))
        (frame_tokens (ai_mem c) (unat index))
      in body @ take 16 (cx_hmac_sha256 (env_cx E) key body))"

text \<open>
  C8. An attested box reaches the transaction unchanged. For an attested box with up to 100 tokens, every one of
  its frames is sent, as its layout with the truncated authentication code of the session key; and when the signing
  command of the same session receives that frame, with any data behind it, it accepts its signature and hands exactly
  the id, the number of frames, the value and the tokens of the box to the signing operation.
\<close>

theorem attested_frame_roundtrip:
  assumes "ainpt_ready (the_ainpt g)" and "index < get_frames_count (tt_count (tokens_table (ai_mem (the_ainpt g))))"
    and "237 \<le> length io" "length io < 2 ^ 32" and "\<And>d. length (cx_hmac_sha256 (env_cx E) key d) = 32"
    and "buffer_wf b" and "buffer_data b = attested_frame E key index (the_ainpt g) @ rest" and "stx_approved g2"
  shows "send_response_attested_input_frame E io key index g = res_ok_data (attested_frame E key index (the_ainpt g)) g \<and>
     (\<exists>tokens b6. buffer_wf tokens \<and> buffer_data tokens = token_pairs (frame_tokens (ai_mem (the_ainpt g)) (unat index)) \<and>
        buffer_wf b6 \<and> buffer_data b6 = rest \<and>
        handle_input_frame E key b g2 =
          accept_frame E (ai_box_id (the_ainpt g)) (get_frames_count (tt_count (tokens_table (ai_mem (the_ainpt g))))) index
            (box_value (ai_box (the_ainpt g))) tokens b6 g2)"
proof
  let ?c = "the_ainpt g"
  let ?ts = "frame_tokens (ai_mem ?c) (unat index)" and ?frames = "get_frames_count (tt_count (tokens_table (ai_mem ?c)))"
  let ?body = "frame_body (ai_box_id ?c) ?frames index (box_value (ai_box ?c)) ?ts"
  have f: "attested_frame E key index ?c = ?body @ take 16 (cx_hmac_sha256 (env_cx E) key ?body)"
    by (simp add: attested_frame_def Let_def)
  show "send_response_attested_input_frame E io key index g = res_ok_data (attested_frame E key index ?c) g"
    unfolding f by (rule send_frame [OF assms(1-5)])
  have d: "buffer_data b = ?body @ take 16 (cx_hmac_sha256 (env_cx E) key ?body) @ rest" using assms(7) f by simp
  have w: "length (ai_box_id ?c) = 32" "\<forall>(i, v)\<in>set ?ts. length i = 32" "length ?ts \<le> 4"
    using assms(1) by (auto simp: ainpt_ready_def frame_tokens_def)
  have l: "length (take 16 (cx_hmac_sha256 (env_cx E) key ?body)) = 16" using assms(5) by simp
  from receive_frame [OF assms(6) d w l refl assms(8)]
  show "\<exists>tokens b6. buffer_wf tokens \<and> buffer_data tokens = token_pairs ?ts \<and> buffer_wf b6 \<and> buffer_data b6 = rest \<and>
      handle_input_frame E key b g2 = accept_frame E (ai_box_id ?c) ?frames index (box_value (ai_box ?c)) tokens b6 g2"
    unfolding accept_frame_def by blast
qed

text \<open>Witness: a box with one token, attested and added to an approved session.\<close>

definition demo_env :: "bytes env" where
  "demo_env = \<lparr>env_lib = HAVE_NBGL, env_cx = demo_device,
     env_fmt = \<lparr>format_hex = (\<lambda>b n. (0, '''')), format_fpu64 = (\<lambda>n v k. (True, ''1'')), format_u64 = (\<lambda>n v. (True, ''1''))\<rparr>,
     env_views = demo_views, env_union = demo_p2pk_union\<rparr>"

definition demo_attested :: "bytes ui_state" where
  "demo_attested = upd_ainpt (\<lambda>c. c\<lparr>ai_box_id := replicate 32 3, ai_box := (ai_box c)\<lparr>box_value := 500\<rparr>,
     ai_mem := (ai_mem c)\<lparr>tokens_table := \<lparr>tt_count = 1, tt_tokens = demo_id 9 # replicate 99 (demo_id 0)\<rparr>, token_amounts := 7 # replicate 99 0\<rparr>\<rparr>) demo_app"

definition demo_approved :: "bytes ui_state" where
  "demo_approved = upd_stx (\<lambda>c. c\<lparr>stx_state := SIGN_TRANSACTION_STATE_APPROVED\<rparr>) demo_app"

theorem attested_frame_roundtrip_witness:
  "\<exists>frame tokens b6.
     send_response_attested_input_frame demo_env (replicate 260 0) (replicate 16 1) 0 demo_attested = res_ok_data frame demo_attested \<and>
     buffer_data tokens = demo_id 9 @ [0, 0, 0, 0, 0, 0, 0, 7] \<and> buffer_data b6 = [0, 0, 0, 2] \<and>
     handle_input_frame demo_env (replicate 16 1) (buffer_init (frame @ [0, 0, 0, 2]) 103) demo_approved =
       accept_frame demo_env (replicate 32 3) 1 0 500 tokens b6 demo_approved"
proof -
  let ?c = "the_ainpt demo_attested" and ?key = "replicate 16 1 :: bytes"
  let ?f = "attested_frame demo_env ?key 0 ?c"
  let ?b = "buffer_init (?f @ [0, 0, 0, 2]) 103"
  have c: "ai_box_id ?c = replicate 32 3" "box_value (ai_box ?c) = 500"
    "tokens_table (ai_mem ?c) = \<lparr>tt_count = 1, tt_tokens = demo_id 9 # replicate 99 (demo_id 0)\<rparr>"
    "token_amounts (ai_mem ?c) = 7 # replicate 99 0"
    by (simp_all add: demo_attested_def upd_ainpt_def the_ainpt_def)
  have rd: "ainpt_ready ?c" by (simp add: ainpt_ready_def c demo_id_def)
  have fc: "get_frames_count 1 = 1" by code_simp
  have i: "0 < get_frames_count (tt_count (tokens_table (ai_mem ?c)))" by (simp add: c fc)
  have h: "length (cx_hmac_sha256 (env_cx demo_env) ?key d) = 32" for d
    by (simp add: demo_env_def demo_device_def)
  have ts: "frame_tokens (ai_mem ?c) 0 = [(demo_id 9, 7)]" by (simp add: frame_tokens_def c)
  have "length ?f = 99"
    using h by (simp add: attested_frame_def Let_def frame_body_def c fc ts token_pairs_def demo_id_def)
  then have b: "buffer_wf ?b" "buffer_data ?b = ?f @ [0, 0, 0, 2]"
    by (simp_all add: buffer_wf_init buffer_data_init)
  have a: "stx_approved demo_approved" by (simp add: stx_approved_def demo_approved_def the_stx_def upd_stx_def)
  have io: "237 \<le> length (replicate 260 0 :: bytes)" "length (replicate 260 0 :: bytes) < 2 ^ 32" by simp_all
  have tp: "token_pairs [(demo_id 9, 7)] = demo_id 9 @ [0, 0, 0, 0, 0, 0, 0, 7]" by code_simp
  from attested_frame_roundtrip [OF rd i io h b a] show ?thesis
    unfolding c unat_0 ts tp token_table_t.select_convs fc by blast
qed

end
