(* ===== verification/DeviceSafety.thy ===== *)
theory DeviceSafety
  imports Dispatcher AttestFrame
begin

text \<open>
  The device as a whole: in every reachable state the signing context, once it is approved, belongs to a session
  that was opened with a key commitment and has hashed exactly what was accepted since; and a signature is sent only
  when the user signs a transaction that was received completely.

  A signature is recognised by its length: no other response with \<open>SW_OK\<close> has 56 bytes.
\<close>

subsection \<open>The invariant\<close>

definition session_opened :: "'h env \<Rightarrow> ('h \<Rightarrow> bytes) \<Rightarrow> bytes \<Rightarrow> 'h p2pk \<Rightarrow> bool" where
  "session_opened E ab base p \<longleftrightarrow>
     (\<exists>rnd h0 key0 secret h1.
        crypto_generate_private_key (env_cx E) (bp_path (p2_bip32 p)) (bp_len (p2_bip32 p)) [] = (0, secret) \<and>
        ergo_secp256k1_schnorr_p2pk_sign_init (env_cx E) rnd h0 key0 secret = (True, h1, schnorr_key p) \<and> ab h1 = base)"

definition session_tx :: "'h env \<Rightarrow> ('h \<Rightarrow> bytes) \<Rightarrow> 'h p2pk \<Rightarrow> bool" where
  "session_tx E ab p \<longleftrightarrow>
     (\<exists>base ni nd nt no a. session_opened E ab base p \<and> p2pk_inv ab base ni nd nt no a p \<and>
        (p2_state p = SIGN_TRANSACTION_OPERATION_P2PK_STATE_FINALIZED \<longrightarrow> ergo_tx_serializer_full_is_finished (p2_tx p)))"

definition session_ok :: "'h env \<Rightarrow> ('h \<Rightarrow> bytes) \<Rightarrow> 'h p2pk \<Rightarrow> bool" where
  "session_ok E ab p \<longleftrightarrow>
     p2_state p = SIGN_TRANSACTION_OPERATION_P2PK_STATE_ERROR \<or>
     (if p2_state p = SIGN_TRANSACTION_OPERATION_P2PK_STATE_INITIALIZED then session_opened E ab (ab (hash_ctx (p2_mem p))) p
      else session_tx E ab p)"

definition signing_ok :: "'h env \<Rightarrow> ('h \<Rightarrow> bytes) \<Rightarrow> 'h sign_transaction_ctx_t \<Rightarrow> bool" where
  "signing_ok E ab s \<longleftrightarrow>
     (stx_state s = SIGN_TRANSACTION_STATE_APPROVED \<or>
      p2_state (stx_p2pk s) \<noteq> SIGN_TRANSACTION_OPERATION_P2PK_STATE_INITIALIZED \<longrightarrow> session_ok E ab (stx_p2pk s))"

text \<open>What the invariant depends on.\<close>

definition p2pk_core :: "'h p2pk \<Rightarrow> _" where
  "p2pk_core p = (p2_state p, p2_bip32 p, schnorr_key p, p2_tx p, hash_ctx (p2_mem p), tokens_table (p2_mem p))"

definition stx_core :: "'h sign_transaction_ctx_t \<Rightarrow> _" where
  "stx_core s = (stx_state s, p2pk_core (stx_p2pk s))"

lemma p2pk_inv_core:
  assumes "p2pk_core p = p2pk_core q"
  shows "p2pk_inv ab base ni nd nt no a p = p2pk_inv ab base ni nd nt no a q"
proof -
  have c: "p2_state p = p2_state q" "p2_tx p = p2_tx q" "hash_ctx (p2_mem p) = hash_ctx (p2_mem q)"
    "tokens_table (p2_mem p) = tokens_table (p2_mem q)" using assms by (simp_all add: p2pk_core_def)
  have "full_inv base ni nd nt no a (ab (hash_ctx (p2_mem q))) (p2_tx q) (p2_mem p) =
        full_inv base ni nd nt no a (ab (hash_ctx (p2_mem q))) (p2_tx q) (p2_mem q)"
    by (rule full_inv_table_cong) (rule c(4))
  then show ?thesis by (simp add: p2pk_inv_def c)
qed

lemma session_ok_core:
  assumes "p2pk_core p = p2pk_core q"
  shows "session_ok E ab p = session_ok E ab q"
proof -
  have c: "p2_state p = p2_state q" "p2_bip32 p = p2_bip32 q" "schnorr_key p = schnorr_key q" "p2_tx p = p2_tx q"
    "hash_ctx (p2_mem p) = hash_ctx (p2_mem q)" using assms by (simp_all add: p2pk_core_def)
  show ?thesis by (simp add: session_ok_def session_tx_def session_opened_def c p2pk_inv_core [OF assms])
qed

lemma signing_ok_core:
  assumes "stx_core s = stx_core t"
  shows "signing_ok E ab s = signing_ok E ab t"
proof -
  have c: "stx_state s = stx_state t" "p2pk_core (stx_p2pk s) = p2pk_core (stx_p2pk t)" using assms by (simp_all add: stx_core_def)
  then have "p2_state (stx_p2pk s) = p2_state (stx_p2pk t)" by (simp add: p2pk_core_def)
  then show ?thesis unfolding signing_ok_def c(1) session_ok_core [OF c(2)] by simp
qed

lemma stx_zero_states [simp]:
  "stx_state (stx_zero cx) = SIGN_TRANSACTION_STATE_INITIALIZED"
  "p2_state (stx_p2pk (stx_zero cx)) = SIGN_TRANSACTION_OPERATION_P2PK_STATE_INITIALIZED"
  by (simp_all only: stx_zero_def p2pk_zero_def sign_transaction_ctx_t.select_convs sign_transaction_operation_p2pk_ctx_t.select_convs)

lemma signing_ok_zero [simp]: "signing_ok E ab (stx_zero cx)"
  unfolding signing_ok_def stx_zero_states by simp

subsection \<open>Steps that do not sign\<close>

definition no_signature :: "response \<Rightarrow> bool" where
  "no_signature r \<longleftrightarrow> (case r of Response d sw \<Rightarrow> sw = SW_OK \<longrightarrow> length d \<noteq> 56)"

definition quiet :: "('h, 'y) app \<Rightarrow> ('h, 'y) app \<Rightarrow> bool" where
  "quiet g g' \<longleftrightarrow> (\<exists>rs. sent g' = sent g @ rs \<and> list_all no_signature rs)"

definition harmless :: "'h env \<Rightarrow> ('h, 'y) app \<Rightarrow> ('h, 'y) app \<Rightarrow> bool" where
  "harmless E g g' \<longleftrightarrow> quiet g g' \<and> (stx_core (the_stx g') = stx_core (the_stx g) \<or> stx_core (the_stx g') = stx_core (stx_zero (env_cx E)))"

definition good :: "'h env \<Rightarrow> ('h \<Rightarrow> bytes) \<Rightarrow> ('h, 'y) app \<Rightarrow> ('h, 'y) app \<Rightarrow> bool" where
  "good E ab g g' \<longleftrightarrow> quiet g g' \<and> signing_ok E ab (the_stx g')"

lemma quiet_refl [simp]: "quiet g g"
  unfolding quiet_def by (rule exI [of _ "[]"]) simp

lemma quiet_trans: "quiet g1 g2 \<Longrightarrow> quiet g2 g3 \<Longrightarrow> quiet g1 g3"
  unfolding quiet_def by (metis append.assoc list_all_append)

lemma quiet_same: "sent g' = sent g \<Longrightarrow> quiet g g'"
  unfolding quiet_def by (rule exI [of _ "[]"]) simp

lemma harmless_refl [simp]: "harmless E g g"
  by (simp add: harmless_def)

lemma harmless_trans:
  assumes "harmless E g1 g2" and "harmless E g2 g3"
  shows "harmless E g1 g3"
  using assms quiet_trans [of g1 g2 g3] by (auto simp: harmless_def)

lemma harmless_same: "sent g' = sent g \<Longrightarrow> the_stx g' = the_stx g \<Longrightarrow> harmless E g g'"
  by (simp add: harmless_def quiet_same)

lemma harmless_signing_ok:
  assumes "harmless E g g'" and "signing_ok E ab (the_stx g)"
  shows "signing_ok E ab (the_stx g')"
proof -
  consider "stx_core (the_stx g') = stx_core (the_stx g)" | "stx_core (the_stx g') = stx_core (stx_zero (env_cx E))"
    using assms(1) by (auto simp: harmless_def)
  then show ?thesis
  proof cases
    case 1
    from signing_ok_core [OF this] show ?thesis using assms(2) by simp
  next
    case 2
    from signing_ok_core [OF this] show ?thesis by simp
  qed
qed

lemma harmless_good: "harmless E g g' \<Longrightarrow> signing_ok E ab (the_stx g) \<Longrightarrow> good E ab g g'"
  using harmless_signing_ok [of E g g'] by (simp add: good_def harmless_def)

lemma good_harmless:
  assumes "good E ab g1 g2" and "harmless E g2 g3"
  shows "good E ab g1 g3"
  using assms quiet_trans [of g1 g2 g3] harmless_signing_ok [OF assms(2)] by (simp add: good_def harmless_def)

text \<open>Rules: \<open>harmless_intros\<close> reduces a handler to the steps it is made of.\<close>

named_theorems harmless_intros

text \<open>The steps that only change the screens, and the answers that are no signature.\<close>

lemma the_stx_same [simp]:
  "the_stx (io_send r g) = the_stx g" "the_stx (app_set_ui_busy b g) = the_stx g" "the_stx (put_step s i g) = the_stx g"
  "the_stx (app_set_connected_app_id i' g) = the_stx g" "the_stx (upd_ainpt f1 g) = the_stx g" "the_stx (upd_da f2 g) = the_stx g"
  "the_stx (upd_epk f3 g) = the_stx g" "the_stx (pair_store k q g) = the_stx g" "the_stx (show_page pg g) = the_stx g"
  "the_stx (set_command cx cmd g) = stx_zero cx" "the_stx (upd_stx f4 g) = f4 (the_stx g)"
  by (simp_all add: the_stx_def io_send_def app_calls put_step_def upd_ainpt_def upd_da_def upd_epk_def pair_store_def
      show_page_def set_command_def commands_zero_def upd_stx_def)

lemma sent_same [simp]:
  "sent (io_send r g) = sent g @ [r]" "sent (app_set_ui_busy b g) = sent g" "sent (put_step s i g) = sent g"
  "sent (app_set_connected_app_id i' g) = sent g" "sent (upd_ainpt f1 g) = sent g" "sent (upd_da f2 g) = sent g"
  "sent (upd_epk f3 g) = sent g" "sent (pair_store k q g) = sent g" "sent (show_page pg g) = sent g"
  "sent (set_command cx cmd g) = sent g" "sent (upd_stx f4 g) = sent g"
  by (simp_all add: io_send_def app_calls put_step_def upd_ainpt_def upd_da_def upd_epk_def pair_store_def
      show_page_def set_command_def upd_stx_def)

lemma fields_same [simp]:
  "the_stx (g\<lparr>signtx_screen := a1\<rparr>) = the_stx g" "the_stx (g\<lparr>signtx_outputs_screen := a1\<rparr>) = the_stx g"
  "the_stx (g\<lparr>nb_pairs := a2\<rparr>) = the_stx g" "the_stx (g\<lparr>ux_flow_len := a2\<rparr>) = the_stx g"
  "the_stx (g\<lparr>dynamic_title := a3\<rparr>) = the_stx g" "the_stx (g\<lparr>dynamic_text := a3\<rparr>) = the_stx g"
  "the_stx (g\<lparr>dynamic_screen_count := a1\<rparr>) = the_stx g" "the_stx (g\<lparr>dynamic_current_screen := a1\<rparr>) = the_stx g"
  "the_stx (g\<lparr>approve_reject_callback := a4\<rparr>) = the_stx g" "the_stx (g\<lparr>sign_reject_callback := a5\<rparr>) = the_stx g"
  "the_stx (g\<lparr>flow_response := a5\<rparr>) = the_stx g" "the_stx (g\<lparr>blind_signing_enabled := a5\<rparr>) = the_stx g"
  "the_stx (g\<lparr>ainpt_sub_message := a3\<rparr>) = the_stx g"
  by (simp_all add: the_stx_def)

lemma ui_same [simp]:
  "the_stx (snd (snd (ui_add_screen st i g))) = the_stx g" "sent (snd (snd (ui_add_screen st i g))) = sent g"
  "the_stx (snd (snd (ui_display_screens i g))) = the_stx g" "sent (snd (snd (ui_display_screens i g))) = sent g"
  "the_stx (ui_approve_reject_screens cb i1 i2 g) = the_stx g" "sent (ui_approve_reject_screens cb i1 i2 g) = sent g"
  "the_stx (ui_sign_reject_screens i1 i2 g) = the_stx g" "sent (ui_sign_reject_screens i1 i2 g) = sent g"
  "the_stx (set_flow_response b g) = the_stx g" "sent (set_flow_response b g) = sent g"
  "the_stx (snd (io_ui_process b g)) = the_stx g" "sent (snd (io_ui_process b g)) = sent g"
  by (simp_all add: ui_add_screen_def ui_display_screens_def ui_approve_reject_screens_def ui_sign_reject_screens_def
      store_steps_def set_flow_response_def io_ui_process_def Let_def split: option.splits)

lemma add_screens_same [simp]:
  "the_stx (snd (ui_add_screens sts i g)) = the_stx g" "sent (snd (ui_add_screens sts i g)) = sent g"
  by (induction sts arbitrary: i g) (simp_all add: split_beta)

lemma store_pairs_same [simp]:
  "the_stx (store_pairs f is i g) = the_stx g" "sent (store_pairs f is i g) = sent g"
  by (induction "is" arbitrary: i g) simp_all

lemma menus_same [simp]:
  "the_stx (show_flow sts g) = the_stx g" "sent (show_flow sts g) = sent g"
  "the_stx (ui_menu_main lib g) = the_stx g" "sent (ui_menu_main lib g) = sent g"
  "the_stx (ui_menu_about lib g) = the_stx g" "sent (ui_menu_about lib g) = sent g"
  "the_stx (ui_menu_settings g) = the_stx g" "sent (ui_menu_settings g) = sent g"
  by (simp_all add: show_flow_def ui_menu_main_def ui_menu_about_def ui_menu_settings_def split_beta split: ui_library.splits)

lemma settings_same [simp]:
  "the_stx (toggle_blind_signing g) = the_stx g" "sent (toggle_blind_signing g) = sent g"
  "the_stx (controls_callback g) = the_stx g" "sent (controls_callback g) = sent g"
  "the_stx (snd (snd (ui_add_dynamic_flow_screens i n g))) = the_stx g" "sent (snd (snd (ui_add_dynamic_flow_screens i n g))) = sent g"
  by (simp_all add: toggle_blind_signing_def controls_callback_def ui_add_dynamic_flow_screens_def Let_def
      del: ui_add_screens.simps)

lemma harmless_send [harmless_intros]:
  assumes "harmless E g0 g" and "no_signature r"
  shows "harmless E g0 (io_send r g)"
proof (rule harmless_trans [OF assms(1)])
  show "harmless E g (io_send r g)" using assms(2) by (simp add: harmless_def quiet_def)
qed

lemma harmless_command [harmless_intros]: "harmless E g0 g \<Longrightarrow> harmless E g0 (set_command (env_cx E) cmd g)"
  by (erule harmless_trans) (simp add: harmless_def quiet_same)

lemma harmless_responses [harmless_intros]:
  "harmless E g0 g \<Longrightarrow> harmless E g0 (res_ok g)" "harmless E g0 g \<Longrightarrow> harmless E g0 (res_deny g)"
  "harmless E g0 g \<Longrightarrow> harmless E g0 (res_ui_busy g)" "harmless E g0 g \<Longrightarrow> harmless E g0 (res_error e g)"
  "harmless E g0 g \<Longrightarrow> harmless E g0 (io_send_sw e g)"
  "harmless E g0 g \<Longrightarrow> length d \<noteq> 56 \<Longrightarrow> harmless E g0 (res_ok_data d g)"
  unfolding res_ok_def res_deny_def res_ui_busy_def res_error_def io_send_sw_def res_ok_data_def
  by (erule harmless_send, simp add: no_signature_def)+

lemma harmless_upto:
  assumes "harmless E g0 g" and "sent g' = sent g" and "the_stx g' = the_stx g"
  shows "harmless E g0 g'"
  using harmless_trans [OF assms(1) harmless_same [OF assms(2,3)]] .

lemma harmless_ui [harmless_intros]:
  "harmless E g0 g \<Longrightarrow> harmless E g0 (app_set_ui_busy b g)" "harmless E g0 g \<Longrightarrow> harmless E g0 (app_set_connected_app_id i' g)"
  "harmless E g0 g \<Longrightarrow> harmless E g0 (upd_ainpt f1 g)" "harmless E g0 g \<Longrightarrow> harmless E g0 (upd_da f2 g)"
  "harmless E g0 g \<Longrightarrow> harmless E g0 (upd_epk f3 g)" "harmless E g0 g \<Longrightarrow> harmless E g0 (show_page pg g)"
  "harmless E g0 g \<Longrightarrow> harmless E g0 (ui_menu_main lib g)" "harmless E g0 g \<Longrightarrow> harmless E g0 (ui_menu_about lib g)"
  "harmless E g0 g \<Longrightarrow> harmless E g0 (ui_menu_settings g)" "harmless E g0 g \<Longrightarrow> harmless E g0 (snd (io_ui_process b g))"
  "harmless E g0 g \<Longrightarrow> harmless E g0 (snd (snd (ui_add_screen st i g)))"
  "harmless E g0 g \<Longrightarrow> harmless E g0 (snd (ui_add_screens sts i g))"
  "harmless E g0 g \<Longrightarrow> harmless E g0 (snd (snd (ui_display_screens i g)))"
  "harmless E g0 g \<Longrightarrow> harmless E g0 (ui_approve_reject_screens cb i1 i2 g)"
  "harmless E g0 g \<Longrightarrow> harmless E g0 (ui_sign_reject_screens i1 i2 g)"
  "harmless E g0 g \<Longrightarrow> harmless E g0 (toggle_blind_signing g)" "harmless E g0 g \<Longrightarrow> harmless E g0 (controls_callback g)"
  "harmless E g0 g \<Longrightarrow> harmless E g0 (g\<lparr>ainpt_sub_message := t\<rparr>)"
  by (erule harmless_upto; simp)+

text \<open>Branches, and the macros that return early.\<close>

lemma harmless_branches [harmless_intros]:
  "(c \<Longrightarrow> harmless E g0 g1) \<Longrightarrow> (\<not> c \<Longrightarrow> harmless E g0 g2) \<Longrightarrow> harmless E g0 (if c then g1 else g2)"
  "(opt = None \<Longrightarrow> harmless E g0 g1) \<Longrightarrow> (\<And>v. opt = Some v \<Longrightarrow> harmless E g0 (f v)) \<Longrightarrow>
     harmless E g0 (case opt of None \<Rightarrow> g1 | Some v \<Rightarrow> f v)"
  by (auto split: option.splits)

lemmas harmless_macros [harmless_intros] = macro_rules [where P = "harmless E g0" for E g0]

lemma harmless_errors [harmless_intros]:
  "harmless E g0 g \<Longrightarrow> harmless E g0 (send_error E e g)" "harmless E g0 g \<Longrightarrow> harmless E g0 (ainpt_err E e g)"
  unfolding send_error_def ainpt_err_def by (intro harmless_intros; assumption)+

subsection \<open>The length of a response\<close>

definition rw_len :: "rw_buffer_t \<Rightarrow> nat \<Rightarrow> bool" where
  "rw_len b n \<longleftrightarrow> rw_wf b \<and> unat (buf_size (rw_read b)) = n \<and> buf_offset (rw_read b) = 0"

lemma rw_len_data: "rw_len b n \<Longrightarrow> length (take (unat (rw_buffer_data_len b)) (rw_buffer_read_ptr b)) = n"
  using rw_wfD [of b] by (simp add: rw_len_def rw_buffer_data_len_def buffer_data_len_def rw_buffer_read_ptr_def buffer_read_ptr_def)

lemma rw_len_store:
  assumes "rw_len b n" and "unat k \<le> rw_space b" and "\<And>p. length p \<le> length (f p)"
  shows "rw_len (snd (rw_buffer_seek_write_cur (rw_store f b) k)) (n + unat k)"
proof -
  have w: "rw_wf b" using assms(1) by (simp add: rw_len_def)
  note s = rw_store_seek [OF w assms(2)] rw_seek_write_cur_ok(2) [OF w assms(2)]
  have "length (buf_ptr (rw_read b)) \<le> length (f (buf_ptr (rw_read b)))" by (rule assms(3))
  then show ?thesis using assms(1,2) s rw_wfD [OF w]
    by (simp add: rw_len_def rw_wf_def word_le_nat_alt rw_space_def)
qed

lemma length_mem_write_ge: "length p \<le> length (mem_write p i bs)"
  by (simp add: mem_write_def)

lemma rw_len_writes:
  assumes "rw_len b n"
  shows "fst (rw_buffer_write_u8 b v) \<Longrightarrow> rw_len (snd (rw_buffer_write_u8 b v)) (n + 1)"
    and "fst (rw_buffer_write_bytes b bs k) \<Longrightarrow> rw_len (snd (rw_buffer_write_bytes b bs k)) (n + unat k)"
    and "fst (rw_buffer_write_u64 b w BE) \<Longrightarrow> rw_len (snd (rw_buffer_write_u64 b w BE)) (n + 8)"
proof -
  have w: "rw_wf b" using assms by (simp add: rw_len_def)
  have one: "rw_len (snd (rw_buffer_seek_write_cur (rw_store f b) 1)) (n + 1)"
    if "rw_buffer_can_write b 1" "\<And>p. length p \<le> length (f p)" for f
    using rw_len_store [OF assms, of 1 f] that rw_can_write_iff [OF w] by simp
  show "fst (rw_buffer_write_u8 b v) \<Longrightarrow> rw_len (snd (rw_buffer_write_u8 b v)) (n + 1)"
    using one by (auto simp: rw_buffer_write_u8_def split: if_splits)
  show "fst (rw_buffer_write_bytes b bs k) \<Longrightarrow> rw_len (snd (rw_buffer_write_bytes b bs k)) (n + unat k)"
    using rw_len_store [OF assms, of k] rw_can_write_iff [OF w]
    by (auto simp: rw_buffer_write_bytes_def length_mem_write_ge split: if_splits)
  assume ok: "fst (rw_buffer_write_u64 b w BE)"
  then have sp: "8 \<le> rw_space b" by (simp add: rw_write_u64_be_eq [OF assms [unfolded rw_len_def, THEN conjunct1]] split: if_splits)
  have p: "rw_buffer_write_u64 b w BE = (True, snd (rw_buffer_seek_write_cur (rw_store (\<lambda>p. write_u64_be p (buf_size (rw_read b)) w) b) 8))"
    using ok by (simp add: rw_buffer_write_u64_def Let_def split: if_splits)
  have "length p \<le> length (write_u64_be p (buf_size (rw_read b)) w)" for p
    by (simp add: write_u64_be_def length_mem_write_ge)
  then show "rw_len (snd (rw_buffer_write_u64 b w BE)) (n + 8)"
    using rw_len_store [OF assms, of 8 "\<lambda>p. write_u64_be p (buf_size (rw_read b)) w"] sp p by simp
qed

lemma rw_len_local: "rw_len (rw_buffer_new_local_empty k) 0"
  using rw_new_local_empty [of k] by (simp add: rw_len_def rw_buffer_new_local_empty_def rw_buffer_init_def buffer_init_def)

text \<open>The macro that checks a write.\<close>

lemma harmless_check_write:
  assumes "harmless E g0 g" and "fst r \<Longrightarrow> harmless E g0 (rest (snd r))"
  shows "harmless E g0 (check_write_param E r g rest)"
  using assms by (auto simp: check_write_param_def intro: harmless_errors)

subsection \<open>Addresses, keys and attested inputs do not sign\<close>

lemma harmless_rw_data:
  assumes "rw_len b n" and "n \<noteq> 56" and "harmless E g0 g"
  shows "harmless E g0 (res_ok_data (take (unat (rw_buffer_data_len b)) (rw_buffer_read_ptr b)) g)"
  using rw_len_data [OF assms(1)] assms(2) by (intro harmless_responses(6) [OF assms(3)]) simp

lemma harmless_response_address [harmless_intros]: "harmless E g0 g \<Longrightarrow> harmless E g0 (send_response_address E a g)"
  unfolding send_response_address_def
  by (intro harmless_check_write harmless_rw_data [OF rw_len_writes(2) [OF rw_len_local]] harmless_command)
    (simp_all add: P2PK_ADDRESS_LEN_def COMPRESSED_PUBLIC_KEY_LEN_def ADDRESS_PREFIX_LEN_def ADDRESS_CHECKSUM_LEN_def)

lemma harmless_response_pubkey [harmless_intros]: "harmless E g0 g \<Longrightarrow> harmless E g0 (send_response_extended_pubkey E pk code g)"
  unfolding send_response_extended_pubkey_def
  by (intro harmless_check_write harmless_command
      harmless_rw_data [OF rw_len_writes(2) [OF rw_len_writes(2) [OF rw_len_writes(1) [OF rw_len_local]]]])
    (simp_all add: CHAIN_CODE_LEN_def)

lemma harmless_da_answer [harmless_intros]: "harmless E g0 g \<Longrightarrow> harmless E g0 (da_answer E ok g)"
  unfolding da_answer_def Let_def by (intro harmless_intros; assumption)

lemma harmless_epk_answer [harmless_intros]: "harmless E g0 g \<Longrightarrow> harmless E g0 (epk_answer E ok g)"
  unfolding epk_answer_def Let_def by (intro harmless_intros; assumption)

lemma harmless_ainpt_approve [harmless_intros]: "harmless E g0 g \<Longrightarrow> harmless E g0 (ainpt_approve g)"
  unfolding ainpt_approve_def Let_def send_response_attested_input_session_id_def
  by (intro harmless_intros; (assumption | simp))

lemma harmless_if_screen [harmless_intros]:
  "(c \<Longrightarrow> harmless E g0 (snd (snd a))) \<Longrightarrow> (\<not> c \<Longrightarrow> harmless E g0 (snd (snd b))) \<Longrightarrow>
     harmless E g0 (snd (snd (if c then a else b)))"
  "harmless E g0 g \<Longrightarrow> harmless E g0 (snd (snd (x, y, g)))"
  by simp_all

lemma harmless_epk_store [harmless_intros]: "harmless E g0 g \<Longrightarrow> harmless E g0 (epk_store t pk code g)"
  unfolding epk_store_def by (intro harmless_intros)

lemma harmless_displays [harmless_intros]:
  "harmless E g0 g \<Longrightarrow> harmless E g0 (ui_display_address E ok snding tok path n a g)"
  "harmless E g0 g \<Longrightarrow> harmless E g0 (ui_display_account E ok tok path n pk code g)"
  "harmless E g0 g \<Longrightarrow> harmless E g0 (ui_display_access_token E ok tok g)"
  unfolding ui_display_address_def bagl_display_address_def nbgl_display_address_def ui_display_account_def
    bagl_display_account_def nbgl_display_account_def ui_display_access_token_def bagl_display_access_token_def
    nbgl_display_access_token_def Let_def split_beta
  by (cases "env_lib E"; simp only: ui_library.case; intro harmless_intros; assumption)+

lemma rw_len_io: "io_ok io \<Longrightarrow> rw_len (rw_buffer_init io (of_nat (length io) - 2) 0) 0"
proof -
  assume a: "io_ok io"
  have "unat (of_nat (length io) :: size_t) = length io" using a by (simp add: io_ok_def unat_of_nat_small)
  then have "unat (of_nat (length io) - 2 :: size_t) \<le> length io" using a by (subst word_sub_le_unat) (auto simp: io_ok_def word_le_nat_alt)
  from rw_init_empty [OF this] show ?thesis by (simp add: rw_len_def rw_buffer_init_def buffer_init_def)
qed

lemma rw_len_tokens:
  assumes "rw_len b n" and "fst (frame_tokens_loop is m b)"
  shows "\<exists>k. rw_len (snd (frame_tokens_loop is m b)) (n + 40 * k)"
  using assms
proof (induction "is" arbitrary: b n)
  case Nil
  then show ?case by (auto intro: exI [of _ 0])
next
  case (Cons i "is")
  let ?b1 = "rw_buffer_write_bytes b (tt_tokens (tokens_table m) ! i) ERGO_ID_LEN"
  let ?b2 = "rw_buffer_write_u64 (snd ?b1) (token_amounts m ! i) BE"
  have ok: "fst ?b1" "fst ?b2" "fst (frame_tokens_loop is m (snd ?b2))"
    and e: "frame_tokens_loop (i # is) m b = frame_tokens_loop is m (snd ?b2)"
    using Cons.prems(2) by (auto simp: split_beta split: if_splits)
  have "rw_len (snd ?b2) (n + 32 + 8)"
    using rw_len_writes(3) [OF rw_len_writes(2) [OF Cons.prems(1) ok(1)] ok(2)] by (simp add: ERGO_ID_LEN_def)
  from Cons.IH [OF this ok(3)] obtain k where "rw_len (snd (frame_tokens_loop is m (snd ?b2))) (n + 32 + 8 + 40 * k)" by blast
  then show ?case unfolding e by (intro exI [of _ "Suc k"]) (simp add: algebra_simps)
qed

text \<open>A frame has at least 59 bytes.\<close>

definition rw_ge :: "rw_buffer_t \<Rightarrow> nat \<Rightarrow> bool" where
  "rw_ge b n \<longleftrightarrow> (\<exists>k\<ge>n. rw_len b k)"

lemma harmless_writes:
  assumes "harmless E g0 g" and "rw_ge b n"
  shows "(\<And>b'. rw_ge b' (n + 1) \<Longrightarrow> harmless E g0 (rest b')) \<Longrightarrow> harmless E g0 (check_write_param E (rw_buffer_write_u8 b v) g rest)"
    and "(\<And>b'. rw_ge b' (n + unat l) \<Longrightarrow> harmless E g0 (rest b')) \<Longrightarrow>
      harmless E g0 (check_write_param E (rw_buffer_write_bytes b bs l) g rest)"
    and "(\<And>b'. rw_ge b' (n + 8) \<Longrightarrow> harmless E g0 (rest b')) \<Longrightarrow>
      harmless E g0 (check_write_param E (rw_buffer_write_u64 b w BE) g rest)"
    and "(\<And>b'. rw_ge b' n \<Longrightarrow> harmless E g0 (rest b')) \<Longrightarrow>
      harmless E g0 (check_write_param E (frame_tokens_loop is m b) g rest)"
proof -
  from assms(2) obtain k where k: "n \<le> k" "rw_len b k" by (auto simp: rw_ge_def)
  have ge: "rw_ge b' (n + c)" if "rw_len b' (k + c)" for b' c using that k(1) unfolding rw_ge_def by (intro exI [of _ "k + c"]) simp
  show "(\<And>b'. rw_ge b' (n + 1) \<Longrightarrow> harmless E g0 (rest b')) \<Longrightarrow> harmless E g0 (check_write_param E (rw_buffer_write_u8 b v) g rest)"
    using harmless_check_write [OF assms(1)] rw_len_writes(1) [OF k(2)] ge by metis
  show "(\<And>b'. rw_ge b' (n + unat l) \<Longrightarrow> harmless E g0 (rest b')) \<Longrightarrow>
      harmless E g0 (check_write_param E (rw_buffer_write_bytes b bs l) g rest)"
    using harmless_check_write [OF assms(1)] rw_len_writes(2) [OF k(2)] ge by metis
  show "(\<And>b'. rw_ge b' (n + 8) \<Longrightarrow> harmless E g0 (rest b')) \<Longrightarrow>
      harmless E g0 (check_write_param E (rw_buffer_write_u64 b w BE) g rest)"
    using harmless_check_write [OF assms(1)] rw_len_writes(3) [OF k(2)] ge by metis
  have "rw_ge (snd (frame_tokens_loop is m b)) n" if "fst (frame_tokens_loop is m b)"
    using rw_len_tokens [OF k(2) that] k(1) unfolding rw_ge_def by (metis trans_le_add1)
  then show "(\<And>b'. rw_ge b' n \<Longrightarrow> harmless E g0 (rest b')) \<Longrightarrow>
      harmless E g0 (check_write_param E (frame_tokens_loop is m b) g rest)"
    using harmless_check_write [OF assms(1)] by metis
qed

lemma harmless_mac:
  assumes "harmless E g0 g" and "rw_ge b n" and "41 \<le> n" and "rw_buffer_can_write b 32"
  shows "harmless E g0 (check_write_param E (rw_buffer_seek_write_cur (rw_store (\<lambda>p. mem_write p i mac) b) INPUT_FRAME_SIGNATURE_LEN) g
     (\<lambda>b8. res_ok_data (take (unat (rw_buffer_data_len b8)) (rw_buffer_read_ptr b8)) g))"
proof -
  from assms(2) obtain k where k: "n \<le> k" "rw_len b k" by (auto simp: rw_ge_def)
  have "unat INPUT_FRAME_SIGNATURE_LEN \<le> rw_space b"
    using assms(4) k(2) by (simp add: rw_can_write_iff rw_len_def INPUT_FRAME_SIGNATURE_LEN_def)
  from rw_len_store [OF k(2) this length_mem_write_ge]
  have "rw_len (snd (rw_buffer_seek_write_cur (rw_store (\<lambda>p. mem_write p i mac) b) INPUT_FRAME_SIGNATURE_LEN)) (k + 16)"
    by (simp add: INPUT_FRAME_SIGNATURE_LEN_def)
  from harmless_rw_data [OF this _ assms(1)] show ?thesis using assms(1,3) k(1) by (intro harmless_check_write) auto
qed

lemma rw_ge_io: "io_ok io \<Longrightarrow> rw_ge (rw_buffer_init io (of_nat (length io) - 2) 0) 0"
  using rw_len_io [of io] by (auto simp: rw_ge_def)

lemma harmless_frame [harmless_intros]:
  assumes "harmless E g0 g" and "io_ok io"
  shows "harmless E g0 (send_response_attested_input_frame E io key index g)"
  unfolding send_response_attested_input_frame_def Let_def
  by (rule harmless_branches(1), rule harmless_errors, rule assms(1), rule harmless_writes(2), rule assms(1),
      rule rw_ge_io, rule assms(2), (rule harmless_writes(1) harmless_writes(3), rule assms(1), assumption)+,
      rule harmless_branches(1), rule harmless_errors, rule assms(1), rule harmless_writes(4), rule assms(1), assumption,
      rule harmless_branches(1), rule harmless_errors, rule assms(1), rule harmless_mac, rule assms(1), assumption)
    (simp_all add: ERGO_ID_LEN_def)

text \<open>The results of a handler that may not return.\<close>

definition harmless_result :: "'h env \<Rightarrow> ('h, 'y) app \<Rightarrow> ('h, 'y) app option \<Rightarrow> bool" where
  "harmless_result E g res \<longleftrightarrow> (\<forall>g'. res = Some g' \<longrightarrow> harmless E g g')"

named_theorems result_intros

lemma result_rules [result_intros]:
  "harmless E g0 g \<Longrightarrow> harmless_result E g0 (Some g)" "harmless_result E g0 None"
  "(c \<Longrightarrow> harmless_result E g0 r1) \<Longrightarrow> (\<not> c \<Longrightarrow> harmless_result E g0 r2) \<Longrightarrow> harmless_result E g0 (if c then r1 else r2)"
  "(\<And>v. opt = Some v \<Longrightarrow> harmless_result E g0 (f v)) \<Longrightarrow>
     harmless_result E g0 (case opt of None \<Rightarrow> None | Some v \<Rightarrow> f v)"
  by (auto simp: harmless_result_def split: option.splits)

lemmas result_macros [result_intros] = macro_rules [where P = "harmless_result E g0" for E g0]

lemma harmless_put_box [harmless_intros]: "harmless E g0 g \<Longrightarrow> harmless E g0 (put_box b m g)"
  unfolding put_box_def by (intro harmless_intros)

lemma harmless_box_finished [harmless_intros]:
  "harmless E g0 g \<Longrightarrow> harmless E g0 (check_call_box_finished E res g)"
proof -
  assume g: "harmless E g0 g"
  have "harmless E g0 (check_box_finished E g)"
    unfolding check_box_finished_def Let_def split_beta send_response_attested_input_frame_count_def
    by (intro harmless_intros g) simp_all
  then show ?thesis unfolding check_call_box_finished_def by (intro harmless_intros g)
qed

lemma harmless_ainpt_handlers:
  "harmless E g0 g \<Longrightarrow> harmless E g0 (ainpt_handle_tree_chunk E buf g)"
  "harmless E g0 g \<Longrightarrow> harmless E g0 (ainpt_handle_tokens E buf g)"
  "harmless E g0 g \<Longrightarrow> harmless E g0 (ainpt_handle_registers_chunk E buf g)"
  "harmless E g0 g \<Longrightarrow> io_ok io \<Longrightarrow> harmless E g0 (ainpt_handle_get_frame E io key buf g)"
  unfolding ainpt_handle_tree_chunk_def ainpt_handle_tokens_def ainpt_handle_registers_chunk_def ainpt_handle_get_frame_def
    split_beta
  by (intro harmless_intros; assumption)+

lemma harmless_ainpt_init:
  "harmless E g0 g \<Longrightarrow> harmless_result E g0 (ainpt_handle_init E d buf t i g)"
  unfolding ainpt_handle_init_def Let_def split_beta send_response_attested_input_session_id_def
  by (intro result_intros harmless_intros; (assumption | simp))

lemma harmless_ainpt_subcommand:
  assumes "io_ok (draw_io d)" and "ainpt_subcommand E d buf sub g = Some out"
  shows "harmless E g out"
  using assms(2) harmless_ainpt_handlers [OF harmless_refl] assms(1)
  by (auto simp: ainpt_subcommand_def split: if_splits)

lemma harmless_attest_input:
  assumes "io_ok (draw_io d)"
  shows "harmless_result E g (handler_attest_input E d buf sub tok g)"
  unfolding handler_attest_input_def Let_def
  by (intro result_intros harmless_ainpt_init harmless_intros harmless_refl; rule harmless_ainpt_subcommand [OF assms]; assumption)

lemma harmless_derive_address: "harmless E g (handler_derive_address E d buf disp tok g)"
  unfolding handler_derive_address_def Let_def split_beta by (intro harmless_intros harmless_refl)

lemma harmless_extended_key: "harmless E g (handler_get_extended_public_key E d buf tok g)"
  unfolding handler_get_extended_public_key_def Let_def split_beta by (intro harmless_intros harmless_refl)

subsection \<open>The signing handler keeps the invariant\<close>

lemma harmless_core:
  assumes "harmless E g0 g" and "sent g' = sent g" and "stx_core (the_stx g') = stx_core (the_stx g)"
  shows "harmless E g0 g'"
  by (rule harmless_trans [OF assms(1)]) (simp add: harmless_def quiet_same assms)

lemma stx_core_updates [simp]:
  "stx_core (the_stx (upd_ui f1 g)) = stx_core (the_stx g)"
  "stx_core (the_stx (upd_p2pk (\<lambda>p. p\<lparr>blind_signing_required := b p\<rparr>) g)) = stx_core (the_stx g)"
  "stx_core (the_stx (upd_p2pk (\<lambda>p. p\<lparr>last_approved_change := l p\<rparr>) g)) = stx_core (the_stx g)"
  "stx_core (the_stx (upd_p2pk (set_output_path n path) g)) = stx_core (the_stx g)"
  "sent (upd_ui f1 g) = sent g" "sent (upd_p2pk f2 g) = sent g"
  by (simp_all add: upd_ui_def upd_p2pk_def stx_core_def p2pk_core_def set_output_path_def)

lemma harmless_stx_updates [harmless_intros]:
  "harmless E g0 g \<Longrightarrow> harmless E g0 (upd_ui f1 g)"
  "harmless E g0 g \<Longrightarrow> harmless E g0 (upd_p2pk (\<lambda>p. p\<lparr>blind_signing_required := b p\<rparr>) g)"
  "harmless E g0 g \<Longrightarrow> harmless E g0 (upd_p2pk (\<lambda>p. p\<lparr>last_approved_change := l p\<rparr>) g)"
  "harmless E g0 g \<Longrightarrow> harmless E g0 (upd_p2pk (set_output_path n path) g)"
  "harmless E g0 g \<Longrightarrow> harmless E g0 (store_pairs display is i g)"
  "harmless E g0 g \<Longrightarrow> harmless E g0 (g\<lparr>signtx_screen := a1\<rparr>)" "harmless E g0 g \<Longrightarrow> harmless E g0 (g\<lparr>signtx_outputs_screen := a1\<rparr>)"
  "harmless E g0 g \<Longrightarrow> harmless E g0 (g\<lparr>nb_pairs := a2\<rparr>)"
  "harmless E g0 g \<Longrightarrow> harmless E g0 (g\<lparr>signtx_screen := a1, signtx_outputs_screen := a3\<rparr>)"
  "harmless E g0 g \<Longrightarrow> harmless E g0 (g\<lparr>signtx_outputs_screen := a1, nb_pairs := a2\<rparr>)"
  "harmless E g0 g \<Longrightarrow> harmless E g0 (snd (snd (ui_add_dynamic_flow_screens pos n g)))"
  by (erule harmless_core; simp)+

lemma harmless_erased:
  "harmless E g0 g \<Longrightarrow> harmless E g0 (set_command (env_cx E) cmd (upd_stx f g))"
  "harmless E g0 g \<Longrightarrow> harmless E g0 (set_command (env_cx E) cmd (upd_p2pk f2 g))"
  by (erule harmless_trans, simp add: harmless_def quiet_same)+

lemma harmless_handler_err [harmless_intros]:
  "harmless E g0 g \<Longrightarrow> harmless E g0 (handler_err E e g)"
  "harmless E g0 g \<Longrightarrow> harmless E g0 (snd (p2pk_handler_err (env_cx E) e g))"
  unfolding handler_err_def p2pk_handler_err_def snd_conv by (intro harmless_intros harmless_erased; assumption)+

lemma harmless_snd [harmless_intros]:
  "(c \<Longrightarrow> harmless E g0 (snd a)) \<Longrightarrow> (\<not> c \<Longrightarrow> harmless E g0 (snd b)) \<Longrightarrow> harmless E g0 (snd (if c then a else b))"
  "harmless E g0 g \<Longrightarrow> harmless E g0 (snd (x, g))"
  by simp_all

text \<open>The screens of an output.\<close>

lemma harmless_store_change [harmless_intros]: "harmless E g0 g \<Longrightarrow> harmless E g0 (store_approved_change V g)"
  unfolding store_approved_change_def Let_def by (intro harmless_intros)

lemma harmless_confirm_action [harmless_intros]:
  "harmless E g0 g \<Longrightarrow> harmless E g0 (snd (bagl_output_confirm_action (env_cx E) V ok g))"
  unfolding bagl_output_confirm_action_def Let_def by (intro harmless_intros)

lemma harmless_output_screens [harmless_intros]:
  "harmless E g0 g \<Longrightarrow> harmless E g0 (snd (bagl_stx_add_output_screens (env_cx E) fmt V g))"
  "harmless E g0 g \<Longrightarrow> harmless E g0 (snd (nbgl_stx_add_output_screens (env_cx E) fmt V g))"
  "harmless E g0 g \<Longrightarrow> harmless E g0 (snd (bagl_blind_signing_warning g))"
  unfolding bagl_stx_add_output_screens_def nbgl_stx_add_output_screens_def bagl_blind_signing_warning_def Let_def split_beta
  by (intro harmless_intros; assumption)+

lemma harmless_output_confirm [harmless_intros]:
  "harmless E g0 g \<Longrightarrow>
    harmless E g0 (snd (ui_stx_operation_p2pk_show_output_confirm_screen (env_lib E) (env_cx E) fmt V g))"
  unfolding ui_stx_operation_p2pk_show_output_confirm_screen_def Let_def split_beta
  by (cases "env_lib E"; simp only: ui_library.case; intro harmless_intros; assumption)

lemma harmless_show_output [harmless_intros]: "harmless E g0 g \<Longrightarrow> harmless E g0 (show_output_screen_if_needed E g)"
  unfolding show_output_screen_if_needed_def by (intro harmless_intros)

text \<open>One accepted operation on a session.\<close>

lemma p2pk_exec_states:
  assumes "p2pk_exec cx V ub q p = Inr p'"
  shows "p2_state p \<in> {SIGN_TRANSACTION_OPERATION_P2PK_STATE_TX_STARTED, SIGN_TRANSACTION_OPERATION_P2PK_STATE_INPUTS_STARTED,
            SIGN_TRANSACTION_OPERATION_P2PK_STATE_OUTPUTS_STARTED} \<and>
         p2_state p' \<in> {SIGN_TRANSACTION_OPERATION_P2PK_STATE_TX_STARTED, SIGN_TRANSACTION_OPERATION_P2PK_STATE_INPUTS_STARTED,
            SIGN_TRANSACTION_OPERATION_P2PK_STATE_OUTPUTS_STARTED, SIGN_TRANSACTION_OPERATION_P2PK_STATE_TX_FINISHED}"
  using assms
  by (cases q) (auto simp: p2pk_checks stx_operation_p2pk_add_tokens_def stx_operation_p2pk_add_input_def
      stx_operation_p2pk_add_input_tokens_def stx_operation_p2pk_add_input_context_extension_def
      stx_operation_p2pk_add_data_inputs_def stx_operation_p2pk_add_output_def stx_operation_p2pk_add_output_tree_chunk_def
      stx_operation_p2pk_add_output_tree_fee_def stx_operation_p2pk_add_output_tree_change_def
      stx_operation_p2pk_add_output_tokens_def stx_operation_p2pk_add_output_registers_def Let_def split_beta split: if_splits)

lemma session_opened_same:
  "p2_bip32 p' = p2_bip32 p \<Longrightarrow> schnorr_key p' = schnorr_key p \<Longrightarrow> session_opened E ab base p' = session_opened E ab base p"
  by (simp add: session_opened_def)

lemma session_exec:
  assumes "cx_absorbs (env_cx E) ab" and "session_ok E ab p" and "p2pk_exec (env_cx E) V ub q p = Inr p'" and "p2pk_op_wf q"
  shows "session_ok E ab p'"
proof -
  note st = p2pk_exec_states [OF assms(3)]
  have "session_tx E ab p" using assms(2) st by (auto simp: session_ok_def)
  then obtain base ni nd nt no a where i: "session_opened E ab base p" "p2pk_inv ab base ni nd nt no a p"
    by (auto simp: session_tx_def)
  have "p2_bip32 p' = p2_bip32 p" "schnorr_key p' = schnorr_key p" using p2pk_exec_step [OF assms(3)] by (simp_all add: p2pk_step_def)
  then have "session_opened E ab base p'" using i(1) session_opened_same by blast
  moreover have "p2_state p' \<noteq> SIGN_TRANSACTION_OPERATION_P2PK_STATE_FINALIZED" using st by auto
  ultimately have "session_tx E ab p'"
    using p2pk_exec_inv [OF assms(1) i(2) assms(3,4)] unfolding session_tx_def by blast
  then show ?thesis using st by (auto simp: session_ok_def)
qed

lemma session_start:
  assumes "cx_absorbs (env_cx E) ab" and "session_ok E ab p" and "stx_operation_p2pk_start_tx (env_cx E) p ni nd no nt = Inr p'"
  shows "session_ok E ab p'"
proof -
  have st: "p2_state p = SIGN_TRANSACTION_OPERATION_P2PK_STATE_INITIALIZED"
    "p2_state p' = SIGN_TRANSACTION_OPERATION_P2PK_STATE_TX_STARTED"
    using assms(3) by (auto simp: stx_operation_p2pk_start_tx_def p2pk_checks)
  have o: "session_opened E ab (ab (hash_ctx (p2_mem p))) p" using assms(2) st by (simp add: session_ok_def)
  note s = p2pk_start_inv [OF assms(1,3)]
  have "session_opened E ab (ab (hash_ctx (p2_mem p))) p'" using o s session_opened_same by blast
  moreover have "p2_state p' \<noteq> SIGN_TRANSACTION_OPERATION_P2PK_STATE_FINALIZED" using st by simp
  ultimately have "session_tx E ab p'" using s unfolding session_tx_def by blast
  then show ?thesis using st by (simp add: session_ok_def)
qed

lemma session_init:
  assumes "stx_operation_p2pk_init (env_cx E) rnd p (bp_path (p2_bip32 p)) n net = Inr p'"
  shows "session_ok E ab p'"
proof -
  from p2pk_init_Inr [OF assms] obtain secret where
    i: "crypto_generate_private_key (env_cx E) (bp_path (p2_bip32 p)) n [] = (0, secret)"
      "ergo_secp256k1_schnorr_p2pk_sign_init (env_cx E) rnd (hash_ctx (p2_mem p)) (schnorr_key p) secret =
         (True, hash_ctx (p2_mem p'), schnorr_key p')"
      "p2_bip32 p' = \<lparr>bp_len = n, bp_path = bp_path (p2_bip32 p)\<rparr>"
      "p2_state p' = SIGN_TRANSACTION_OPERATION_P2PK_STATE_INITIALIZED" by blast
  have "session_opened E ab (ab (hash_ctx (p2_mem p'))) p'"
    unfolding session_opened_def using i
    by (intro exI [of _ rnd] exI [of _ "hash_ctx (p2_mem p)"] exI [of _ "schnorr_key p"] exI [of _ secret]
        exI [of _ "hash_ctx (p2_mem p')"]) simp
  then show ?thesis using i(4) by (simp add: session_ok_def)
qed

lemma session_init':
  "stx_operation_p2pk_init (env_cx E) rnd p path n net = Inr p' \<Longrightarrow> path = bp_path (p2_bip32 p) \<Longrightarrow> session_ok E ab p'"
  using session_init by blast

lemma session_finalize:
  assumes "session_ok E ab p" and "p2_state p = SIGN_TRANSACTION_OPERATION_P2PK_STATE_TX_FINISHED"
  shows "session_ok E ab (p\<lparr>p2_state := SIGN_TRANSACTION_OPERATION_P2PK_STATE_FINALIZED\<rparr>)"
proof -
  from assms obtain base ni nd nt no a where "session_opened E ab base p" "p2pk_inv ab base ni nd nt no a p"
    by (auto simp: session_ok_def session_tx_def)
  then have "session_tx E ab (p\<lparr>p2_state := SIGN_TRANSACTION_OPERATION_P2PK_STATE_FINALIZED\<rparr>)"
    unfolding session_tx_def session_opened_def p2pk_inv_def using assms(2)
    by (intro exI [of _ base] exI [of _ ni] exI [of _ nd] exI [of _ nt] exI [of _ no] exI [of _ a]) simp
  then show ?thesis by (simp add: session_ok_def)
qed

text \<open>Buffers stay well-formed while a handler reads its parameters.\<close>

lemma wf_seek: "buffer_wf b \<Longrightarrow> buffer_wf (snd (buffer_seek_cur b n))"
  by (auto simp: buffer_seek_cur_def buffer_wf_def Let_def)

lemma wf_reads:
  assumes "buffer_wf b"
  shows "buffer_wf (snd (buffer_read_u8 b))" "buffer_wf (snd (buffer_read_u16 b e))" "buffer_wf (snd (buffer_read_u32 b e))"
    "buffer_wf (snd (buffer_read_u64 b e))" "buffer_wf (snd (buffer_read_bytes b n))"
  using assms wf_seek [OF assms]
  by (auto simp: buffer_read_u8_def buffer_read_u16_def buffer_read_u32_def buffer_read_u64_def buffer_read_bytes_def
      Let_def split_beta split: option.splits bool.splits)

lemma read_bytes_length: "buffer_wf b \<Longrightarrow> fst (buffer_read_bytes b n) = Some v \<Longrightarrow> length v = unat n"
  by (auto simp: buffer_read_bytes_eq split: if_splits)

lemma frame_tokens_wf:
  assumes "buffer_wf b" and "fst (buffer_seek_cur b (ucast (t :: u8) + INPUT_FRAME_SIGNATURE_LEN))"
  shows "buffer_wf (buffer_init (buffer_read_ptr b) (ucast t))"
proof -
  let ?n = "ucast t + INPUT_FRAME_SIGNATURE_LEN :: size_t"
  have n: "unat ?n = unat t + 16"
    using unat_u8_less [of t] by (simp add: INPUT_FRAME_SIGNATURE_LEN_def unat_word_ariths unat_ucast_up)
  have "\<not> buf_offset b + ?n < buf_offset b" "buf_offset b + ?n \<le> buf_size b"
    using assms(2) by (auto simp: buffer_seek_cur_def Let_def not_less split: if_splits)
  then have "unat (buf_offset b) + unat ?n \<le> unat (buf_size b)"
    by (metis (no_types, lifting) linorder_not_less unat_plus_simple word_le_nat_alt)
  then have "unat (buf_offset b) + (unat t + 16) \<le> length (buf_ptr b)" using assms(1) n by (simp add: buffer_wf_def)
  then have "unat (ucast t :: size_t) \<le> length (buffer_read_ptr b)" by (simp add: buffer_read_ptr_def unat_ucast_up)
  then show ?thesis by (rule buffer_wf_init)
qed

subsection \<open>The subcommands\<close>

named_theorems good_intros

lemma good_rules [good_intros]:
  "good E ab g0 g \<Longrightarrow> good E ab g0 (handler_err E e g)" "good E ab g0 g \<Longrightarrow> good E ab g0 (res_ok g)"
  "good E ab g0 g \<Longrightarrow> good E ab g0 (show_output_screen_if_needed E g)"
  by (erule good_harmless, intro harmless_intros harmless_refl)+

lemmas good_macros [good_intros] = macro_rules [where P = "good E ab g0" for E ab g0]

lemma good_if [good_intros]: "(c \<Longrightarrow> good E ab g0 a) \<Longrightarrow> (\<not> c \<Longrightarrow> good E ab g0 b) \<Longrightarrow> good E ab g0 (if c then a else b)"
  by simp

lemma the_p2pk_upd [simp]: "the_p2pk (upd_p2pk f g) = f (the_p2pk g)"
  by (simp add: the_p2pk_def upd_p2pk_def)

lemma good_refl: "signing_ok E ab (the_stx g) \<Longrightarrow> good E ab g g"
  by (simp add: good_def)

lemma good_run:
  assumes "good E ab g0 g" and "\<And>p. r = Inr p \<Longrightarrow> session_ok E ab p"
    and "\<And>g'. good E ab g0 g' \<Longrightarrow> good E ab g0 (cont g')"
  shows "good E ab g0 (run_p2pk E r g cont)"
proof (cases r)
  case (Inl e)
  have "good E ab g0 (snd (p2pk_handler_err (env_cx E) e g))"
    by (rule good_harmless [OF assms(1)]) (intro harmless_intros harmless_refl)
  then show ?thesis using Inl
    by (simp add: run_p2pk_def p2pk_call_def check_call_result_sw_ok_def good_rules assms(3))
next
  case (Inr p)
  let ?g = "upd_p2pk (\<lambda>_. p) g"
  have s: "session_ok E ab p" using assms(2) Inr by simp
  have "signing_ok E ab (the_stx ?g)" using s by (simp add: signing_ok_def upd_p2pk_def)
  moreover have "quiet g0 ?g" using assms(1) quiet_trans [of g0 g ?g] by (simp add: good_def quiet_same)
  ultimately have "good E ab g0 ?g" by (simp add: good_def)
  from assms(3) [OF this] show ?thesis using Inr
    by (simp add: run_p2pk_def p2pk_call_def check_call_result_sw_ok_def)
qed

text \<open>The operations are refused before the transaction is started, so a state with \<open>signing_ok\<close> is enough.\<close>

lemma signing_session:
  "signing_ok E ab (the_stx g) \<Longrightarrow> p2_state (the_p2pk g) \<noteq> SIGN_TRANSACTION_OPERATION_P2PK_STATE_INITIALIZED \<Longrightarrow>
    session_ok E ab (the_p2pk g)"
  "signing_ok E ab (the_stx g) \<Longrightarrow> stx_approved g \<Longrightarrow> session_ok E ab (the_p2pk g)"
  by (simp_all add: signing_ok_def the_p2pk_def stx_approved_def)

lemma good_exec:
  assumes "cx_absorbs (env_cx E) ab" and "good E ab g0 g" and "p2pk_op_wf q"
    and "\<And>g'. good E ab g0 g' \<Longrightarrow> good E ab g0 (cont g')"
  shows "good E ab g0 (run_p2pk E (p2pk_exec (env_cx E) V ub q (the_p2pk g)) g cont)"
proof (rule good_run [OF assms(2) _ assms(4)])
  fix p
  assume run: "p2pk_exec (env_cx E) V ub q (the_p2pk g) = Inr p"
  have "p2_state (the_p2pk g) \<noteq> SIGN_TRANSACTION_OPERATION_P2PK_STATE_INITIALIZED" using p2pk_exec_states [OF run] by auto
  then have "session_ok E ab (the_p2pk g)" using assms(2) signing_session(1) unfolding good_def by blast
  then show "session_ok E ab p" by (rule session_exec [OF assms(1) _ run assms(3)])
qed

lemmas good_op [good_intros] =
  good_exec [where q = "P2Tokens b" for b, unfolded p2pk_exec.simps p2pk_op_wf.simps]
  good_exec [where q = "P2Input bid v fc e" for bid v fc e, unfolded p2pk_exec.simps p2pk_op_wf.simps]
  good_exec [where q = "P2InputTokens bid i b" for bid i b, unfolded p2pk_exec.simps p2pk_op_wf.simps]
  good_exec [where q = "P2Extension b" for b, unfolded p2pk_exec.simps p2pk_op_wf.simps]
  good_exec [where q = "P2DataInputs b" for b, unfolded p2pk_exec.simps p2pk_op_wf.simps]
  good_exec [where q = "P2Output v ts h n r" for v ts h n r, unfolded p2pk_exec.simps p2pk_op_wf.simps]
  good_exec [where q = "P2TreeChunk b" for b, unfolded p2pk_exec.simps p2pk_op_wf.simps]
  good_exec [where q = "P2TreeFee", unfolded p2pk_exec.simps p2pk_op_wf.simps]
  good_exec [where q = "P2TreeChange path n pk" for path n pk, unfolded p2pk_exec.simps p2pk_op_wf.simps]
  good_exec [where q = "P2OutputTokens b" for b, unfolded p2pk_exec.simps p2pk_op_wf.simps]
  good_exec [where q = "P2Registers b" for b, unfolded p2pk_exec.simps p2pk_op_wf.simps]

lemma good_handlers:
  assumes "cx_absorbs (env_cx E) ab" and "signing_ok E ab (the_stx g)" and "buffer_wf buf"
  shows "good E ab g (handle_tokens E buf g)" "good E ab g (handle_input_context_extension E buf g)"
    "good E ab g (handle_data_inputs E buf g)" "good E ab g (handle_output_init E buf g)"
    "good E ab g (handle_output_tree_chunk E buf g)" "good E ab g (handle_output_tree_fee E buf g)"
    "good E ab g (handle_output_tokens E buf g)" "good E ab g (handle_output_registers E buf g)"
  unfolding handle_tokens_def handle_input_context_extension_def handle_data_inputs_def handle_output_init_def
    handle_output_tree_chunk_def handle_output_tree_fee_def handle_output_tokens_def handle_output_registers_def Let_def
  by (intro good_intros good_refl assms TrueI; assumption?)+

lemma good_tx_start:
  assumes "cx_absorbs (env_cx E) ab" and "signing_ok E ab (the_stx g)"
  shows "good E ab g (handle_tx_start E buf g)"
  unfolding handle_tx_start_def
  by (intro good_intros good_run good_refl assms;
      (assumption | rule session_start [OF assms(1) signing_session(2) [OF assms(2)]], assumption, assumption))

lemma good_input_frame:
  assumes "cx_absorbs (env_cx E) ab" and "signing_ok E ab (the_stx g)" and "buffer_wf buf"
  shows "good E ab g (handle_input_frame E key buf g)"
  unfolding handle_input_frame_def Let_def split_beta
  by (intro good_intros good_refl assms conjI TrueI frame_tokens_wf wf_reads; (assumption | simp)?)
    (simp_all add: read_bytes_length [OF assms(3)] ERGO_ID_LEN_def)

lemma bip32_public_key_length:
  assumes "cx_keys_ok (env_cx E)" and "fst (bip32_public_key (env_cx E) path n) = SW_OK"
  shows "length (snd (bip32_public_key (env_cx E) path n)) = 65"
  using assms crypto_key_pair [OF assms(1)]
  by (auto simp: bip32_public_key_def sw_defs split_beta split: if_splits) (metis prod.collapse)

lemma good_tree_change:
  assumes "cx_absorbs (env_cx E) ab" and "cx_keys_ok (env_cx E)" and "signing_ok E ab (the_stx g)"
  shows "good E ab g (handle_output_tree_change E buf g)"
proof -
  have path: "good E ab g (upd_p2pk (set_output_path n path) g)" for n path
    by (rule good_harmless [OF good_refl [OF assms(3)]]) (intro harmless_intros harmless_refl)
  show ?thesis
    unfolding handle_output_tree_change_def Let_def split_beta
    by (intro good_intros good_refl path assms; simp add: path bip32_public_key_length [OF assms(2)])
qed

text \<open>Opening a session.\<close>

lemma approve_reject_same:
  "sent (ui_stx_operation_approve_reject lib cx True g) = sent g @ [Response [stx_session (the_stx g)] SW_OK]"
  "stx_p2pk (the_stx (ui_stx_operation_approve_reject lib cx True g)) = stx_p2pk (the_stx g)"
  by (simp_all add: ui_stx_operation_approve_reject_def Let_def send_response_sign_transaction_session_id_def res_ok_data_def)

definition same_session :: "('h, 'y) app \<Rightarrow> ('h, 'y) app \<Rightarrow> bool" where
  "same_session g g' \<longleftrightarrow> quiet g g' \<and> stx_p2pk (the_stx g') = stx_p2pk (the_stx g)"

lemma same_session_upto:
  "same_session g0 g \<Longrightarrow> sent g' = sent g \<Longrightarrow> stx_p2pk (the_stx g') = stx_p2pk (the_stx g) \<Longrightarrow> same_session g0 g'"
  using quiet_trans [of g0 g g'] by (simp add: same_session_def quiet_same)

lemma same_session_approve:
  assumes "same_session g0 g"
  shows "same_session g0 (ui_stx_operation_approve_reject lib cx True g)"
proof -
  have "quiet g (ui_stx_operation_approve_reject lib cx True g)"
    unfolding quiet_def approve_reject_same
    by (rule exI [of _ "[Response [stx_session (the_stx g)] SW_OK]"]) (simp add: no_signature_def)
  then show ?thesis using assms quiet_trans [of g0 g] by (simp add: same_session_def approve_reject_same)
qed

lemma same_session_screens:
  assumes "same_session g0 g"
  shows "same_session g0 (snd (bagl_stx_add_operation_approve_screens cx tok known g))"
    "same_session g0 (snd (nbgl_stx_add_operation_approve_screens cx tok known g))"
  unfolding bagl_stx_add_operation_approve_screens_def nbgl_stx_add_operation_approve_screens_def Let_def split_beta
  using assms
  by (auto simp: set_approve_ctx_def set_app_token_def upd_ui_def intro!: same_session_approve elim!: same_session_upto)

lemma show_token_and_path_same:
  "same_session g (snd (ui_stx_operation_p2pk_show_token_and_path lib cx tok known g))"
proof -
  have g: "same_session g g" by (simp add: same_session_def)
  show ?thesis
    unfolding ui_stx_operation_p2pk_show_token_and_path_def Let_def split_beta
    by (cases lib; auto intro!: same_session_screens same_session_upto [OF g] simp: upd_ui_def split: option.splits)
qed

lemma good_show_token_and_path:
  assumes "quiet g0 g" and "session_ok E ab (stx_p2pk (the_stx g))"
  shows "good E ab g0 (snd (ui_stx_operation_p2pk_show_token_and_path lib cx tok known g))"
  using show_token_and_path_same [of g lib cx tok known] quiet_trans [OF assms(1)] assms(2)
  by (simp add: good_def signing_ok_def same_session_def)

definition good_result :: "'h env \<Rightarrow> ('h \<Rightarrow> bytes) \<Rightarrow> ('h, 'y) app \<Rightarrow> ('h, 'y) app option \<Rightarrow> bool" where
  "good_result E ab g0 res \<longleftrightarrow> (\<forall>g'. res = Some g' \<longrightarrow> good E ab g0 g')"

lemma good_result_rules:
  "good E ab g0 g \<Longrightarrow> good_result E ab g0 (Some g)" "good_result E ab g0 None"
  "(\<And>e. opt = Inl e \<Longrightarrow> good_result E ab g0 (f e)) \<Longrightarrow> (\<And>p. opt = Inr p \<Longrightarrow> good_result E ab g0 (h p)) \<Longrightarrow>
     good_result E ab g0 (case opt of Inl e \<Rightarrow> f e | Inr p \<Rightarrow> h p)"
  "(\<And>v. opt' = Some v \<Longrightarrow> good_result E ab g0 (k v)) \<Longrightarrow> good_result E ab g0 (case opt' of None \<Rightarrow> None | Some v \<Rightarrow> k v)"
  by (auto simp: good_result_def split: sum.splits option.splits)

lemmas good_result_macros = macro_rules [where P = "good_result E ab g0" for E ab g0]

lemma good_init:
  assumes "the_stx g = stx_zero (env_cx E)" and "quiet g0 g"
  shows "good_result E ab g0 (handle_init_p2pk E d buf t i g)"
proof -
  have path: "good E ab g0 (upd_p2pk (\<lambda>p. p\<lparr>p2_bip32 := b\<rparr>) g)" for b
    using assms quiet_trans [OF assms(2), of "upd_p2pk (\<lambda>p. p\<lparr>p2_bip32 := b\<rparr>) g"]
    by (simp add: good_def signing_ok_def upd_p2pk_def quiet_same)
  have g: "good E ab g0 g" using assms by (simp add: good_def)
  show ?thesis
    unfolding handle_init_p2pk_def Let_def split_beta
    by (intro good_result_macros good_result_rules good_rules g; (simp add: path good_rules)?;
        rule good_show_token_and_path)
      (simp_all add: assms quiet_trans [OF assms(2)] quiet_same upd_p2pk_def session_init')
qed

subsection \<open>The signature\<close>

text \<open>
  \<open>sig\<close> is the signature of the session \<open>p\<close>: its hash context holds the commitment to the key of its path and the
  ephemeral key, followed by the serialization of a complete transaction, and \<open>sig\<close> is the Schnorr proof for it.
\<close>

definition signed :: "'h env \<Rightarrow> ('h \<Rightarrow> bytes) \<Rightarrow> 'h p2pk \<Rightarrow> bytes \<Rightarrow> bool" where
  "signed E ab p sig \<longleftrightarrow>
     (\<exists>ni nd nt no a secret pk w h digest z.
        crypto_generate_private_key (env_cx E) (bp_path (p2_bip32 p)) (bp_len (p2_bip32 p)) [] = (0, secret) \<and>
        scalar_base (env_cx E) secret = (CX_OK, pk) \<and> scalar_base (env_cx E) (schnorr_key p) = (CX_OK, w) \<and>
        ab (hash_ctx (p2_mem p)) = schnorr_commitment pk w @ tx_bytes ni nd nt no a \<and>
        length (ta_inputs a) = unat ni \<and> list_all input_complete (ta_inputs a) \<and>
        length (ta_data a) = 32 * unat nd \<and> length (ta_tokens a) = 32 * unat nt \<and>
        length (filter br_finished (ta_boxes a)) = unat no \<and> list_all br_ok (ta_boxes a) \<and>
        blake2b_256_finalize (env_cx E) (hash_ctx (p2_mem p)) = (True, h, digest) \<and> sig = take 24 digest @ z \<and>
        nat_of_be z = (nat_of_be (schnorr_key p) + nat_of_be (take 24 digest) * nat_of_be secret) mod nat_of_be SECP256K1_N)"

definition response_ok :: "'h env \<Rightarrow> ('h \<Rightarrow> bytes) \<Rightarrow> 'h p2pk \<Rightarrow> response \<Rightarrow> bool" where
  "response_ok E ab p r \<longleftrightarrow> no_signature r \<or> (\<exists>sig. r = Response sig SW_OK \<and> signed E ab p sig)"

definition outcome :: "'h env \<Rightarrow> ('h \<Rightarrow> bytes) \<Rightarrow> ('h, 'y) app \<Rightarrow> ('h, 'y) app \<Rightarrow> bool" where
  "outcome E ab g g' \<longleftrightarrow> (\<exists>rs. sent g' = sent g @ rs \<and> list_all (response_ok E ab (the_p2pk g)) rs) \<and> signing_ok E ab (the_stx g')"

definition crypto_ok :: "'h env \<Rightarrow> ('h \<Rightarrow> bytes) \<Rightarrow> bool" where
  "crypto_ok E ab \<longleftrightarrow> cx_absorbs (env_cx E) ab \<and> cx_math_ok (env_cx E) \<and> cx_digest_32 (env_cx E) \<and> cx_keys_ok (env_cx E)"

lemma good_outcome:
  assumes "good E ab g g'"
  shows "outcome E ab g g'"
proof -
  obtain rs where rs: "sent g' = sent g @ rs" "list_all no_signature rs" using assms by (auto simp: good_def quiet_def)
  have "list_all (response_ok E ab (the_p2pk g)) rs" by (rule list.pred_mono_strong [OF rs(2)]) (simp add: response_ok_def)
  then show ?thesis using rs(1) assms by (auto simp: outcome_def good_def)
qed

lemma session_signed:
  assumes "crypto_ok E ab" and "session_ok E ab p" and "p2_state p = SIGN_TRANSACTION_OPERATION_P2PK_STATE_FINALIZED"
    and "crypto_generate_private_key (env_cx E) (bp_path (p2_bip32 p)) (bp_len (p2_bip32 p)) [] = (0, secret)"
    and "ergo_secp256k1_schnorr_p2pk_sign_finish (env_cx E) (replicate (unat ERGO_SIGNATURE_LEN) 0) (hash_ctx (p2_mem p)) secret
           (schnorr_key p) = (True, h, sig)"
  shows "signed E ab p sig"
proof -
  have "session_tx E ab p" using assms(2,3) by (simp add: session_ok_def)
  then obtain base ni nd nt no a where o: "session_opened E ab base p" and i: "p2pk_inv ab base ni nd nt no a p"
    and f: "ergo_tx_serializer_full_is_finished (p2_tx p)" using assms(3) by (auto simp: session_tx_def)
  from o obtain rnd h0 key0 secret' h1 where s: "crypto_generate_private_key (env_cx E) (bp_path (p2_bip32 p)) (bp_len (p2_bip32 p)) [] = (0, secret')"
    "ergo_secp256k1_schnorr_p2pk_sign_init (env_cx E) rnd h0 key0 secret' = (True, h1, schnorr_key p)" "ab h1 = base"
    by (auto simp: session_opened_def)
  have tx: "ab (hash_ctx (p2_mem p)) = ab h1 @ tx_bytes ni nd nt no a"
    "length (ta_inputs a) = unat ni" "list_all input_complete (ta_inputs a)"
    "length (ta_data a) = 32 * unat nd" "length (ta_tokens a) = 32 * unat nt"
    "length (filter br_finished (ta_boxes a)) = unat no" "list_all br_ok (ta_boxes a)"
    using i f s(3) by (simp_all add: p2pk_inv_def ergo_tx_serializer_full_is_finished_def full_inv_def tx_mid_def tx_head_def tx_bytes_def)
  have l: "length (replicate (unat ERGO_SIGNATURE_LEN) (0 :: u8)) = 56" by (simp add: ERGO_SIGNATURE_LEN_def)
  have "secret' = secret" using s(1) assms(4) by simp
  then have init: "ergo_secp256k1_schnorr_p2pk_sign_init (env_cx E) rnd h0 key0 secret = (True, h1, schnorr_key p)" using s(2) by simp
  have c: "cx_absorbs (env_cx E) ab" "cx_math_ok (env_cx E)" "cx_digest_32 (env_cx E)" using assms(1) by (simp_all add: crypto_ok_def)
  from schnorr_equation_absorbed [OF c l init tx(1) assms(5)] assms(4) tx(2-) show ?thesis
    unfolding signed_def by metis
qed

lemma send_response_outcome:
  fixes g :: "('h, 'y) app"
  assumes "crypto_ok E ab" and "signing_ok E ab (the_stx g)"
  shows "\<exists>r. sent (ui_stx_operation_p2pk_send_response (env_cx E) g) = sent g @ [r] \<and> response_ok E ab (the_p2pk g) r"
proof (cases "p2_state (the_p2pk g) = SIGN_TRANSACTION_OPERATION_P2PK_STATE_FINALIZED")
  case False
  then show ?thesis
    by (auto simp: ui_stx_operation_p2pk_send_response_def Let_def res_error_def io_send_sw_def response_ok_def no_signature_def)
next
  case True
  let ?p = "the_p2pk g"
  have s: "session_ok E ab ?p" using signing_session(1) [OF assms(2)] True by simp
  obtain r secret where k: "crypto_generate_private_key (env_cx E) (bp_path (p2_bip32 ?p)) (bp_len (p2_bip32 ?p)) [] = (r, secret)"
    by (metis surj_pair)
  obtain fin h sig where f: "ergo_secp256k1_schnorr_p2pk_sign_finish (env_cx E) (replicate (unat ERGO_SIGNATURE_LEN) 0)
      (hash_ctx (p2_mem ?p)) secret (schnorr_key ?p) = (fin, h, sig)" by (metis prod_cases3)
  have "signed E ab ?p sig" if "r = 0" "fin" using session_signed [OF assms(1) s True] k f that by simp
  then show ?thesis using True k f
    by (auto simp: ui_stx_operation_p2pk_send_response_def Let_def res_error_def res_ok_data_def io_send_sw_def response_ok_def
        no_signature_def split: if_splits)
qed

text \<open>The signature response belongs to what the session has hashed, however its screens are.\<close>

lemma signed_core:
  assumes "p2_bip32 p = p2_bip32 q" "schnorr_key p = schnorr_key q" "hash_ctx (p2_mem p) = hash_ctx (p2_mem q)"
  shows "response_ok E ab p r = response_ok E ab q r"
  by (simp add: response_ok_def signed_def assms)

lemma outcome_after_response:
  assumes "crypto_ok E ab" and "harmless E g1 g2" and "stx_core (the_stx g2) = stx_core (the_stx g1)"
    and "signing_ok E ab (the_stx g1)" and "sent g1 = sent g"
    and "p2_bip32 (the_p2pk g1) = p2_bip32 (the_p2pk g)" "schnorr_key (the_p2pk g1) = schnorr_key (the_p2pk g)"
      "hash_ctx (p2_mem (the_p2pk g1)) = hash_ctx (p2_mem (the_p2pk g))"
    and "harmless E (set_command (env_cx E) cmd (ui_stx_operation_p2pk_send_response (env_cx E) g2)) g'"
  shows "outcome E ab g g'"
proof -
  have "signing_ok E ab (the_stx g2)" using assms(3,4) signing_ok_core by blast
  from send_response_outcome [OF assms(1) this] obtain r where
    r: "sent (ui_stx_operation_p2pk_send_response (env_cx E) g2) = sent g2 @ [r]" "response_ok E ab (the_p2pk g2) r" by blast
  have q: "p2_bip32 (the_p2pk g2) = p2_bip32 (the_p2pk g)" "schnorr_key (the_p2pk g2) = schnorr_key (the_p2pk g)"
    "hash_ctx (p2_mem (the_p2pk g2)) = hash_ctx (p2_mem (the_p2pk g))"
    using assms(3,6-8) by (simp_all add: stx_core_def p2pk_core_def the_p2pk_def)
  obtain rs where rs: "sent g2 = sent g @ rs" "list_all no_signature rs" using assms(2,5) by (auto simp: harmless_def quiet_def)
  obtain rs' where rs': "sent g' = sent g2 @ [r] @ rs'" "list_all no_signature rs'"
    using assms(9) r(1) by (auto simp: harmless_def quiet_def)
  have n: "list_all (response_ok E ab (the_p2pk g)) xs" if "list_all no_signature xs" for xs
    by (rule list.pred_mono_strong [OF that]) (simp add: response_ok_def)
  have "response_ok E ab (the_p2pk g) r" using r(2) signed_core [OF q] by simp
  then have "list_all (response_ok E ab (the_p2pk g)) (rs @ [r] @ rs')" using n rs(2) rs'(2) by simp
  moreover have "signing_ok E ab (the_stx g')" using harmless_signing_ok [OF assms(9)] by simp
  ultimately show ?thesis using rs(1) rs'(1) unfolding outcome_def by (metis append.assoc)
qed

text \<open>Pressing the sign button.\<close>

lemma outcome_sign_button:
  assumes "crypto_ok E ab" and "signing_ok E ab (the_stx g)" and "call_sign_reject E ok g = Some g'"
  shows "outcome E ab g g'"
proof -
  have h: "bagl_operation_execute_action (env_cx E) ok g = Some g'" using assms(3) by (simp add: call_sign_reject_def split: if_splits)
  show ?thesis
  proof (cases ok)
    case True
    let ?g1 = "app_set_ui_busy False g"
    have g': "g' = ui_menu_main HAVE_BAGL (set_command (env_cx E) CMD_NONE (ui_stx_operation_p2pk_send_response (env_cx E) ?g1))"
      using h True by (auto simp: bagl_operation_execute_action_def call_response_def Let_def split: if_splits)
    show ?thesis
      by (rule outcome_after_response [where ?g1.0 = g and ?g2.0 = ?g1 and cmd = CMD_NONE, OF assms(1)])
        (simp_all add: assms(2) g' harmless_ui(1,7) harmless_refl)
  next
    case False
    then have "g' = ui_menu_main HAVE_BAGL (set_command (env_cx E) CMD_NONE (res_deny (app_set_ui_busy False g)))"
      using h by (auto simp: bagl_operation_execute_action_def Let_def)
    then have "harmless E g g'" by (simp only:) (intro harmless_intros harmless_refl)
    from good_outcome [OF harmless_good [OF this assms(2)]] show ?thesis .
  qed
qed

text \<open>The confirmation: only the review of the touch screens, when it is accepted, leads to the response.\<close>

lemma harmless_confirm_ctx [harmless_intros]: "harmless E g0 g \<Longrightarrow> harmless E g0 (set_confirm_ctx n cb g)"
  unfolding set_confirm_ctx_def by (intro harmless_intros)

lemma stx_core_confirm [simp]:
  "stx_core (the_stx (set_confirm_ctx n cb g)) = stx_core (the_stx g)" "sent (set_confirm_ctx n cb g) = sent g"
  by (simp_all add: set_confirm_ctx_def)

lemma harmless_bagl_confirm [harmless_intros]:
  "harmless E g0 g \<Longrightarrow> harmless E g0 (snd (bagl_stx_add_transaction_screens fmt n g))"
  unfolding bagl_stx_add_transaction_screens_def Let_def split_beta by (intro harmless_intros)

lemma outcome_nbgl_confirm:
  assumes "crypto_ok E ab" and "signing_ok E ab (the_stx g1)" and "sent g1 = sent g"
    and "p2_bip32 (the_p2pk g1) = p2_bip32 (the_p2pk g)" "schnorr_key (the_p2pk g1) = schnorr_key (the_p2pk g)"
      "hash_ctx (p2_mem (the_p2pk g1)) = hash_ctx (p2_mem (the_p2pk g))"
  shows "outcome E ab g (snd (nbgl_stx_add_transaction_screens (env_cx E) fmt blind n ok g1))"
proof -
  let ?g0 = "set_confirm_ctx 0 False g1"
  have h: "outcome E ab g g'" if "harmless E g1 g'" for g'
  proof -
    have "good E ab g g'"
      using that harmless_signing_ok [OF that assms(2)] assms(3) by (auto simp: good_def harmless_def quiet_def)
    then show ?thesis by (rule good_outcome)
  qed
  consider "screens_left (signtx_screen g1) < 6" | "\<not> screens_left (signtx_screen g1) < 6" "blind \<noteq> 0 \<and> \<not> blind_signing_enabled ?g0"
    | "\<not> screens_left (signtx_screen g1) < 6" "\<not> (blind \<noteq> 0 \<and> \<not> blind_signing_enabled ?g0)" by blast
  then show ?thesis
  proof cases
    case 1
    then show ?thesis using h [OF harmless_refl] by (simp add: nbgl_stx_add_transaction_screens_def)
  next
    case 2
    then show ?thesis
      unfolding nbgl_stx_add_transaction_screens_def Let_def split_beta if_P [OF 2(2)] if_not_P [OF 2(1)] snd_conv
      by (intro h harmless_intros harmless_refl)
  next
    case 3
    let ?ga = "set_confirm_ctx n True ?g0"
    let ?k = "tx_pairs_count n (amounts (p2_mem (the_p2pk ?ga)))"
    let ?gb = "store_pairs (tx_display fmt n ?ga) [0..<?k] (nb_pairs ?ga) ?ga"
    let ?gc = "?gb\<lparr>signtx_outputs_screen := of_nat (nb_pairs ?ga + ?k), nb_pairs := nb_pairs ?ga + ?k\<rparr>"
    let ?page = "Page_review (blind \<noteq> 0) (take (nb_pairs ?gc) (ui_pairs ?gc)) (up_bip32_path (stx_ui (the_stx ?gc)))"
    let ?io = "io_ui_process ok (show_page ?page ?gc)"
    let ?fin = "\<lambda>g5. ui_menu_main HAVE_NBGL (snd (io_ui_process True g5))"
    have e: "snd (nbgl_stx_add_transaction_screens (env_cx E) fmt blind n ok g1) =
        ?fin (if fst ?io then show_page (Page_status ''signed'')
                (set_command (env_cx E) CMD_NONE (ui_stx_operation_p2pk_send_response (env_cx E) (snd ?io)))
              else show_page (Page_status ''rejected'') (set_command (env_cx E) CMD_NONE (res_deny (snd ?io))))"
      unfolding nbgl_stx_add_transaction_screens_def Let_def split_beta if_not_P [OF 3(1)] if_not_P [OF 3(2)] by (simp only: snd_conv)
    have c: "harmless E g1 (snd ?io)" by (intro harmless_intros harmless_refl)
    have core: "stx_core (the_stx (snd ?io)) = stx_core (the_stx g1)" by simp
    show ?thesis
    proof (cases "fst ?io")
      case True
      show ?thesis unfolding e if_P [OF True]
        by (rule outcome_after_response [OF assms(1) c core assms(2-6), where cmd = CMD_NONE])
          (intro harmless_intros harmless_refl)
    next
      case False
      show ?thesis unfolding e if_not_P [OF False] by (intro h harmless_intros c)
    qed
  qed
qed

lemma outcome_harmless:
  assumes "outcome E ab g g1" and "harmless E g1 g2"
  shows "outcome E ab g g2"
proof -
  obtain rs where rs: "sent g1 = sent g @ rs" "list_all (response_ok E ab (the_p2pk g)) rs" using assms(1) by (auto simp: outcome_def)
  obtain qs where qs: "sent g2 = sent g1 @ qs" "list_all no_signature qs" using assms(2) by (auto simp: harmless_def quiet_def)
  have "list_all (response_ok E ab (the_p2pk g)) qs" by (rule list.pred_mono_strong [OF qs(2)]) (simp add: response_ok_def)
  then have "sent g2 = sent g @ (rs @ qs) \<and> list_all (response_ok E ab (the_p2pk g)) (rs @ qs)" using rs qs(1) by simp
  moreover have "signing_ok E ab (the_stx g2)" using harmless_signing_ok [OF assms(2)] assms(1) by (simp add: outcome_def)
  ultimately show ?thesis unfolding outcome_def by blast
qed

lemma outcome_checked:
  assumes "outcome E ab g (snd out)"
  shows "outcome E ab g (check_call_result_sw_ok (handler_err E) out (\<lambda>g. g))"
  using outcome_harmless [OF assms harmless_handler_err(1) [OF harmless_refl]] assms by (simp add: check_call_result_sw_ok_def)

lemma outcome_sign_confirm:
  assumes "crypto_ok E ab" and "signing_ok E ab (the_stx g)"
  shows "outcome E ab g (handle_sign_confirm E d g)"
proof -
  have err: "outcome E ab g (handler_err E e g)" "outcome E ab g (snd (p2pk_handler_err (env_cx E) e g))" for e
    by (rule good_outcome [OF harmless_good [OF _ assms(2)]], intro harmless_intros harmless_refl)+
  have "outcome E ab g (snd (ui_stx_operation_p2pk_show_confirm_screen (env_lib E) (env_cx E) (env_fmt E) (draw_answer d) g))"
  proof (cases "p2_state (the_p2pk g) = SIGN_TRANSACTION_OPERATION_P2PK_STATE_TX_FINISHED")
    case False
    then show ?thesis using err(2) by (simp add: ui_stx_operation_p2pk_show_confirm_screen_def)
  next
    case True
    let ?g1 = "upd_p2pk (\<lambda>p. p\<lparr>p2_state := SIGN_TRANSACTION_OPERATION_P2PK_STATE_FINALIZED\<rparr>) g"
    have "session_ok E ab (the_p2pk g)" using signing_session(1) [OF assms(2)] True by simp
    from session_finalize [OF this True] have ok: "signing_ok E ab (the_stx ?g1)"
      by (simp add: signing_ok_def upd_p2pk_def the_p2pk_def)
    have bagl: "outcome E ab g g'" if "harmless E ?g1 g'" for g'
      using that harmless_signing_ok [OF that ok] by (intro good_outcome) (simp add: good_def harmless_def quiet_def)
    show ?thesis
    proof (cases "env_lib E")
      case HAVE_BAGL
      show ?thesis
        unfolding ui_stx_operation_p2pk_show_confirm_screen_def Let_def split_beta HAVE_BAGL ui_library.case
        by (simp only: True not_True_eq_False if_False simp_thms) (intro bagl harmless_intros harmless_refl)
    next
      case HAVE_NBGL
      show ?thesis
        unfolding ui_stx_operation_p2pk_show_confirm_screen_def Let_def split_beta HAVE_NBGL ui_library.case
        by (simp only: True not_True_eq_False if_False simp_thms snd_conv) (rule outcome_nbgl_confirm [OF assms(1) ok]; simp)
    qed
  qed
  from outcome_checked [OF this] err(1) show ?thesis by (simp add: handle_sign_confirm_def check_proper_state_def)
qed

text \<open>Without the consent of the user nothing is signed.\<close>

lemma io_answer [simp]: "fst (io_ui_process ok g) = ok"
  by (simp add: io_ui_process_def set_flow_response_def Let_def app_calls)

lemma harmless_nbgl_denied:
  "harmless E g (snd (nbgl_stx_add_transaction_screens (env_cx E) fmt blind n False g))"
  unfolding nbgl_stx_add_transaction_screens_def Let_def split_beta io_answer if_False
  by (intro harmless_intros harmless_refl)

lemma good_confirm_denied:
  assumes "signing_ok E ab (the_stx g)" and "\<not> (env_lib E = HAVE_NBGL \<and> draw_answer d)"
  shows "good E ab g (handle_sign_confirm E d g)"
proof -
  let ?g1 = "upd_p2pk (\<lambda>p. p\<lparr>p2_state := SIGN_TRANSACTION_OPERATION_P2PK_STATE_FINALIZED\<rparr>) g"
  let ?out = "ui_stx_operation_p2pk_show_confirm_screen (env_lib E) (env_cx E) (env_fmt E) (draw_answer d) g"
  have err: "good E ab g (handler_err E e g')" if "good E ab g g'" for e g' using that by (rule good_rules)
  have "good E ab g (snd ?out)"
  proof (cases "p2_state (the_p2pk g) = SIGN_TRANSACTION_OPERATION_P2PK_STATE_TX_FINISHED")
    case False
    then show ?thesis
      by (simp add: ui_stx_operation_p2pk_show_confirm_screen_def harmless_good [OF harmless_handler_err(2) [OF harmless_refl] assms(1)])
  next
    case True
    have "session_ok E ab (the_p2pk g)" using signing_session(1) [OF assms(1)] True by simp
    from session_finalize [OF this True] have "signing_ok E ab (the_stx ?g1)"
      by (simp add: signing_ok_def upd_p2pk_def the_p2pk_def)
    then have g: "good E ab g g'" if "harmless E ?g1 g'" for g'
      using that harmless_signing_ok [OF that] by (simp add: good_def harmless_def quiet_def)
    show ?thesis
      using assms(2) True g [OF harmless_nbgl_denied]
      unfolding ui_stx_operation_p2pk_show_confirm_screen_def Let_def split_beta
      by (cases "env_lib E") (simp_all, intro conjI impI g harmless_intros harmless_refl)
  qed
  then show ?thesis
    unfolding handle_sign_confirm_def by (intro good_intros good_refl assms) simp_all
qed

text \<open>The signing handler.\<close>

lemma signing_handler:
  assumes "crypto_ok E ab" and "signing_ok E ab (the_stx g)" and "buffer_wf buf"
    and "handler_sign_transaction E d buf sub tok g = Some g'"
  shows "outcome E ab g g' \<and> (\<not> (sub = SIGN_TRANSACTION_SUBCOMMAND_CONFIRM \<and> env_lib E = HAVE_NBGL \<and> draw_answer d) \<longrightarrow> good E ab g g')"
proof -
  have c: "cx_absorbs (env_cx E) ab" "cx_keys_ok (env_cx E)" using assms(1) by (simp_all add: crypto_ok_def)
  note good = good_tx_start [OF c(1) assms(2)] good_input_frame [OF c(1) assms(2,3)] good_handlers [OF c(1) assms(2,3)]
    good_tree_change [OF c assms(2)]
  have init: "good_result E ab g (handle_init_p2pk E d buf t i (set_command (env_cx E) CMD_SIGN_TRANSACTION g))" for t i
    by (rule good_init) (simp_all add: quiet_same)
  have err: "good E ab g (handler_err E e g)" "good E ab g (res_ui_busy g)" "good E ab g (res_error e g)" for e
    by (rule harmless_good [OF _ assms(2)], intro harmless_intros harmless_refl)+
  let ?confirmed = "sub = SIGN_TRANSACTION_SUBCOMMAND_CONFIRM \<and> env_lib E = HAVE_NBGL \<and> draw_answer d"
  have sub: "good E ab g out" if "stx_subcommand E d buf sub g = Some out" "\<not> ?confirmed" for out
    using that good good_confirm_denied [OF assms(2), of d] unfolding stx_subcommand_def
    by (auto split: if_splits)
  have all: "outcome E ab g out" if "stx_subcommand E d buf sub g = Some out" for out
  proof (cases ?confirmed)
    case False
    then show ?thesis using sub [OF that] good_outcome by blast
  next
    case True
    then have "out = handle_sign_confirm E d g" using that by (simp add: stx_subcommand_def stx_subcommands)
    then show ?thesis using outcome_sign_confirm [OF assms(1,2)] by simp
  qed
  have "good E ab g g' \<or> stx_subcommand E d buf sub g = Some g'"
    using assms(4) init err
    by (auto simp: handler_sign_transaction_def good_result_def check_command_def check_session_def Let_def
        split: if_splits option.splits)
  then show ?thesis using sub all good_outcome by blast
qed

text \<open>One step of the device.\<close>

fun user_signs :: "'h env \<Rightarrow> event \<Rightarrow> bool" where
  "user_signs E (Button s) \<longleftrightarrow> s = ux_sign_step"
| "user_signs E (Command d (Some cmd)) \<longleftrightarrow>
     env_lib E = HAVE_NBGL \<and> draw_answer d \<and> ins cmd = command_ins CMD_SIGN_TRANSACTION \<and>
     p1 cmd = SIGN_TRANSACTION_SUBCOMMAND_CONFIRM"
| "user_signs E _ \<longleftrightarrow> False"

lemma step_command:
  assumes "crypto_ok E ab" and "signing_ok E ab (the_stx g)" and "event_ok (Command d parsed)" and "length (APPNAME B) < 56"
    and "app_main_turn E B d parsed g = Some g'"
  shows "outcome E ab g g' \<and> (\<not> user_signs E (Command d parsed) \<longrightarrow> good E ab g g')"
proof (cases parsed)
  case None
  then have "g' = io_send_sw SW_WRONG_APDU_DATA_LENGTH g" using assms(5) by (simp add: app_main_turn_def)
  then have "harmless E g g'" by (simp only:) (intro harmless_intros harmless_refl)
  from harmless_good [OF this assms(2)] show ?thesis using good_outcome by blast
next
  case (Some cmd)
  let ?buf = "buffer_init (cdata cmd) (ucast (lc cmd))"
  have wf: "buffer_wf ?buf" using assms(3) Some by (intro buffer_wf_init) (simp add: unat_ucast_up)
  have io: "io_ok (draw_io d)" using assms(3) Some by simp
  have run: "apdu_dispatcher E B d cmd g = Some g'" using assms(5) Some by (simp add: app_main_turn_def)
  show ?thesis
  proof (cases "handler_sign_transaction E d ?buf (p1 cmd) (p2 cmd) g = Some g' \<and> ins cmd = command_ins CMD_SIGN_TRANSACTION")
    case True
    then show ?thesis using signing_handler [OF assms(1,2) wf, of d "p1 cmd" "p2 cmd" g'] Some by auto
  next
    case False
    have short: "harmless E g (io_send_sw sw g)" "harmless E g (handler_get_version B g)" "harmless E g (handler_get_app_name B g)" for sw
      unfolding handler_get_version_def handler_get_app_name_def
      using assms(4) by (intro harmless_intros harmless_refl; simp)+
    have attest: "harmless E g g'" if "handler_attest_input E d ?buf (p1 cmd) (p2 cmd) g = Some g'"
      using that harmless_attest_input [OF io] unfolding harmless_result_def by blast
    have "harmless E g g'"
      using run False short harmless_derive_address harmless_extended_key attest
      by (auto simp: apdu_dispatcher_def Let_def split: if_splits)
    from harmless_good [OF this assms(2)] show ?thesis using good_outcome by blast
  qed
qed

lemma harmless_press:
  assumes "press E s g = Some g'" and "s \<noteq> ux_sign_step"
  shows "harmless E g g'"
proof -
  have c: "harmless E g g1" if "call_approve_reject E ok g = Some g1" for ok g1
    using that unfolding call_approve_reject_def bagl_action_attest_input_def bagl_action_derive_address_def
      bagl_action_get_extended_pubkey_def Let_def
    by (auto split: option.splits ui_action.splits if_splits intro!: harmless_intros)
  have r: "harmless E g g1" if "call_sign_reject E False g = Some g1" for g1
    using that unfolding call_sign_reject_def bagl_operation_execute_action_def Let_def
    by (auto split: if_splits intro!: harmless_intros)
  have b: "harmless E g (blind_signing_callback t g)" for t
    unfolding blind_signing_callback_def by (intro harmless_intros harmless_refl)
  show ?thesis using assms c r b
    by (cases s) (auto simp: press_def intro!: harmless_intros)
qed

lemma harmless_page: "harmless E g (snd (enter_step (env_cx E) i g))"
proof -
  have d: "harmless E g (snd (display_dynamic_state (env_cx E) t g1))" if "harmless E g g1" for t g1
  proof -
    have "harmless E g (g1\<lparr>dynamic_title := a, dynamic_text := b\<rparr>)" for a b
      by (rule harmless_upto [OF that]) simp_all
    then show ?thesis by (simp add: display_dynamic_state_eq)
  qed
  have f: "harmless E g (g\<lparr>dynamic_current_screen := k\<rparr>)" for k by (rule harmless_same) simp_all
  show ?thesis using d [OF f] f
    by (simp add: enter_step_def ui_dynamic_step_left_def ui_dynamic_step_right_def)
qed

lemma step_outcome:
  assumes "crypto_ok E ab" and "signing_ok E ab (the_stx g)" and "event_ok ev" and "length (APPNAME B) < 56"
    and "device_step E B g ev g'"
  shows "outcome E ab g g' \<and> (\<not> user_signs E ev \<longrightarrow> good E ab g g')"
  using assms(5)
proof cases
  case (step_command d parsed)
  then show ?thesis using DeviceSafety.step_command [OF assms(1,2) _ assms(4)] assms(3) by blast
next
  case (step_button s)
  show ?thesis
  proof (cases "s = ux_sign_step")
    case True
    then have "call_sign_reject E True g = Some g'" using step_button by (simp add: press_def)
    from outcome_sign_button [OF assms(1,2) this] show ?thesis using step_button True by simp
  next
    case False
    from harmless_good [OF harmless_press [OF step_button(4) False] assms(2)] show ?thesis using good_outcome by blast
  qed
next
  case (step_page i)
  then show ?thesis using harmless_good [OF harmless_page assms(2)] good_outcome by blast
next
  case step_switch
  then show ?thesis using harmless_good [OF harmless_ui(17) [OF harmless_refl] assms(2)] good_outcome by blast
qed

lemma reachable_signing_ok:
  assumes "reachable E B g" and "crypto_ok E ab" and "length (APPNAME B) < 56"
  shows "signing_ok E ab (the_stx g)"
  using assms(1)
proof induction
  case (reach_start initialized rng g)
  have "the_stx (app_start E initialized rng g) = stx_zero (env_cx E)"
    by (simp add: app_start_def Let_def) (simp add: the_stx_def app_init_def app_calls commands_zero_def)
  then show ?case by simp
next
  case (reach_step g ev g')
  then show ?case using step_outcome [OF assms(2) _ _ assms(3)] by (auto simp: outcome_def)
qed

subsection \<open>The property\<close>

text \<open>
  C1. What the device signs. In every state that a device can reach from its start, by commands with any
  data and in any order, by buttons and by settings, the next step sends a response of 56 bytes with status
  \<open>OK\<close> (the length of a signature, and of no other response) only if it is the user's consent: the
  sign button, or the accepted review of the confirmation command on a touch screen. And then the response is a
  Schnorr signature, with the key of the path the session was opened with, of the serialization of a transaction
  that was received completely: the announced number of inputs, data inputs, token ids and finished outputs. Outputs that
  were opened and left unfinished are not among these, and what was received of them is signed as well.
\<close>

theorem device_signs_only_approved:
  assumes "crypto_ok E ab" and "length (APPNAME B) < 56" and "reachable E B g" and "event_ok ev"
    and "device_step E B g ev g'"
  shows "\<exists>rs. sent g' = sent g @ rs \<and>
     (\<forall>sig. Response sig SW_OK \<in> set rs \<and> length sig = 56 \<longrightarrow> user_signs E ev \<and> signed E ab (the_p2pk g) sig)"
proof -
  have s: "outcome E ab g g' \<and> (\<not> user_signs E ev \<longrightarrow> good E ab g g')"
    by (rule step_outcome [OF assms(1) reachable_signing_ok [OF assms(3,1,2)] assms(4,2,5)])
  then obtain rs where rs: "sent g' = sent g @ rs" "list_all (response_ok E ab (the_p2pk g)) rs" by (auto simp: outcome_def)
  have "user_signs E ev \<and> signed E ab (the_p2pk g) sig" if "Response sig SW_OK \<in> set rs" "length sig = 56" for sig
  proof
    show "signed E ab (the_p2pk g) sig"
      using rs(2) that by (auto simp: list_all_iff response_ok_def no_signature_def)
    show "user_signs E ev"
    proof (rule ccontr)
      assume "\<not> user_signs E ev"
      then have "quiet g g'" using s by (simp add: good_def)
      then have "list_all no_signature rs" using rs(1) by (auto simp: quiet_def)
      then show False using that by (auto simp: list_all_iff no_signature_def)
    qed
  qed
  then show ?thesis using rs(1) by blast
qed

text \<open>Witness: the confirmation command in a fresh device, which the user does not accept.\<close>

definition demo_build :: build where
  "demo_build = \<lparr>APPNAME = [69, 114, 103, 111], MAJOR_VERSION = 0, MINOR_VERSION = 0, PATCH_VERSION = 8, DEBUG_BUILD = False\<rparr>"

definition demo_draws :: draws where
  "demo_draws = \<lparr>draw_ids = (\<lambda>i. 5), draw_keys = demo_rnd, draw_answer = False, draw_io = replicate 260 0\<rparr>"

definition demo_confirm :: command_t where
  "demo_confirm = \<lparr>cla = 0xE0, ins = 0x21, p1 = 0x20, p2 = 1, lc = 0, cdata = []\<rparr>"

definition demo_start :: "bytes ui_state" where
  "demo_start = app_start demo_env 1 (replicate 16 7) demo_app"

lemma demo_crypto_ok: "crypto_ok demo_env (\<lambda>h. h)"
proof -
  have u: "(ucast CX_OK :: u16) = 0" by (simp add: CX_OK_def)
  have "cx_keys_ok demo_device" using u by (auto simp: cx_keys_ok_def demo_device_def demo_math_defs CX_OK_def)
  then show ?thesis using demo_device_math demo_device_absorbs demo_device_digest by (simp add: crypto_ok_def demo_env_def)
qed

theorem device_signs_only_approved_witness:
  "\<exists>g' rs. device_step demo_env demo_build demo_start (Command demo_draws (Some demo_confirm)) g' \<and>
     sent g' = sent demo_start @ rs \<and> \<not> (\<exists>sig. Response sig SW_OK \<in> set rs \<and> length sig = 56)"
proof -
  have busy: "\<not> app_is_ui_busy demo_start" "app_current_command demo_start = CMD_NONE"
    by (simp_all add: demo_start_def app_start_def demo_env_def ui_menu_main_def show_page_def app_init_def app_calls Let_def)
  have "\<exists>g'. apdu_dispatcher demo_env demo_build demo_draws demo_confirm demo_start = Some g'"
    using busy by (auto simp: apdu_dispatcher_def demo_confirm_def CLA_def Let_def handler_sign_transaction_def
        stx_subcommands split: option.splits)
  then obtain g' where a: "apdu_dispatcher demo_env demo_build demo_draws demo_confirm demo_start = Some g'" by blast
  have g': "device_step demo_env demo_build demo_start (Command demo_draws (Some demo_confirm)) g'"
    by (rule device_step.step_command) (simp add: app_main_turn_def a)
  have r: "reachable demo_env demo_build demo_start" unfolding demo_start_def by (rule reach_start)
  have e: "event_ok (Command demo_draws (Some demo_confirm))" by (simp add: demo_draws_def demo_confirm_def io_ok_def)
  have b: "length (APPNAME demo_build) < 56" by (simp add: demo_build_def)
  have "\<not> user_signs demo_env (Command demo_draws (Some demo_confirm))" by (simp add: demo_draws_def)
  with device_signs_only_approved [OF demo_crypto_ok b r e g'] g' show ?thesis by blast
qed

end
