(* ===== verification/Blake2bRef.thy ===== *)
theory Blake2bRef
  imports Prelude
begin

text \<open>
  The hash function that the unit tests of the application link instead of the library of the device:
  \<^verbatim>\<open>blake2b-ref.c\<close>, \<^verbatim>\<open>blake2b-ref.h\<close> and \<^verbatim>\<open>blake2-impl.h\<close> under
  \<^verbatim>\<open>unit-tests/utils/\<close>. Arrays are lists, \<open>int\<close> results are their 32-bit words, a pointer that the
  code compares with \<open>NULL\<close> is an option.

  \<open>b2_hash\<close> is the specification, RFC 7693 read as a recursion over the whole message. The main lemma says that the
  streaming state, with its buffer of at most one block and its two counter words, represents the message
  absorbed so far, whatever the sizes of the updates.
\<close>

subsection \<open>Loads, stores, rotation\<close>

definition load64 :: "bytes \<Rightarrow> u64" where
  "load64 p =
     push_bit 0 (ucast (p ! 0)) OR push_bit 8 (ucast (p ! 1)) OR push_bit 16 (ucast (p ! 2)) OR push_bit 24 (ucast (p ! 3)) OR
     push_bit 32 (ucast (p ! 4)) OR push_bit 40 (ucast (p ! 5)) OR push_bit 48 (ucast (p ! 6)) OR push_bit 56 (ucast (p ! 7))"

definition store32 :: "u32 \<Rightarrow> bytes" where
  "store32 w = [ucast (drop_bit 0 w), ucast (drop_bit 8 w), ucast (drop_bit 16 w), ucast (drop_bit 24 w)]"

definition store64 :: "u64 \<Rightarrow> bytes" where
  "store64 w =
     [ucast (drop_bit 0 w), ucast (drop_bit 8 w), ucast (drop_bit 16 w), ucast (drop_bit 24 w),
      ucast (drop_bit 32 w), ucast (drop_bit 40 w), ucast (drop_bit 48 w), ucast (drop_bit 56 w)]"

definition rotr64 :: "u64 \<Rightarrow> nat \<Rightarrow> u64" where
  "rotr64 w c = drop_bit c w OR push_bit (64 - c) w"

subsection \<open>State and parameters\<close>

definition BLAKE2B_BLOCKBYTES :: size_t where "BLAKE2B_BLOCKBYTES = 128"
definition BLAKE2B_OUTBYTES :: size_t where "BLAKE2B_OUTBYTES = 64"
definition BLAKE2B_KEYBYTES :: size_t where "BLAKE2B_KEYBYTES = 64"

lemmas b2_sizes = BLAKE2B_BLOCKBYTES_def BLAKE2B_OUTBYTES_def BLAKE2B_KEYBYTES_def

record blake2b_state =
  bs_h :: "u64 list"
  bs_t :: "u64 list"
  bs_f :: "u64 list"
  bs_buf :: bytes
  bs_buflen :: size_t
  bs_outlen :: size_t
  bs_last_node :: u8

record blake2b_param =
  bp_digest_length :: u8
  bp_key_length :: u8
  bp_fanout :: u8
  bp_depth :: u8
  bp_leaf_length :: u32
  bp_node_offset :: u32
  bp_xof_length :: u32
  bp_node_depth :: u8
  bp_inner_length :: u8
  bp_reserved :: bytes
  bp_salt :: bytes
  bp_personal :: bytes

text \<open>The packed structure in memory.\<close>

definition param_bytes :: "blake2b_param \<Rightarrow> bytes" where
  "param_bytes P =
     [bp_digest_length P, bp_key_length P, bp_fanout P, bp_depth P] @ store32 (bp_leaf_length P) @ store32 (bp_node_offset P) @
     store32 (bp_xof_length P) @ [bp_node_depth P, bp_inner_length P] @ bp_reserved P @ bp_salt P @ bp_personal P"

definition blake2b_IV :: "u64 list" where
  "blake2b_IV = [0x6a09e667f3bcc908, 0xbb67ae8584caa73b, 0x3c6ef372fe94f82b, 0xa54ff53a5f1d36f1,
     0x510e527fade682d1, 0x9b05688c2b3e6c1f, 0x1f83d9abfb41bd6b, 0x5be0cd19137e2179]"

definition blake2b_sigma :: "nat list list" where
  "blake2b_sigma =
    [[0, 1, 2, 3, 4, 5, 6, 7, 8, 9, 10, 11, 12, 13, 14, 15],
     [14, 10, 4, 8, 9, 15, 13, 6, 1, 12, 0, 2, 11, 7, 5, 3],
     [11, 8, 12, 0, 5, 2, 15, 13, 10, 14, 3, 6, 7, 1, 9, 4],
     [7, 9, 3, 1, 13, 12, 11, 14, 2, 6, 5, 10, 4, 0, 15, 8],
     [9, 0, 5, 7, 2, 4, 10, 15, 14, 1, 11, 12, 6, 8, 3, 13],
     [2, 12, 6, 10, 0, 11, 8, 3, 4, 13, 7, 5, 15, 14, 1, 9],
     [12, 5, 1, 15, 14, 13, 4, 10, 0, 7, 6, 3, 9, 2, 8, 11],
     [13, 11, 7, 14, 12, 1, 3, 9, 5, 0, 15, 4, 8, 6, 2, 10],
     [6, 15, 14, 9, 11, 3, 0, 8, 12, 2, 13, 7, 1, 4, 10, 5],
     [10, 2, 8, 4, 7, 6, 1, 5, 15, 11, 9, 14, 3, 12, 13, 0],
     [0, 1, 2, 3, 4, 5, 6, 7, 8, 9, 10, 11, 12, 13, 14, 15],
     [14, 10, 4, 8, 9, 15, 13, 6, 1, 12, 0, 2, 11, 7, 5, 3]]"

definition blake2b_set_lastnode :: "blake2b_state \<Rightarrow> blake2b_state" where
  "blake2b_set_lastnode S = S\<lparr>bs_f := (bs_f S)[1 := - 1]\<rparr>"

definition blake2b_is_lastblock :: "blake2b_state \<Rightarrow> bool" where
  "blake2b_is_lastblock S \<longleftrightarrow> bs_f S ! 0 \<noteq> 0"

definition blake2b_set_lastblock :: "blake2b_state \<Rightarrow> blake2b_state" where
  "blake2b_set_lastblock S =
     (let S1 = (if bs_last_node S \<noteq> 0 then blake2b_set_lastnode S else S) in S1\<lparr>bs_f := (bs_f S1)[0 := - 1]\<rparr>)"

definition blake2b_increment_counter :: "blake2b_state \<Rightarrow> u64 \<Rightarrow> blake2b_state" where
  "blake2b_increment_counter S inc =
     (let S1 = S\<lparr>bs_t := (bs_t S)[0 := bs_t S ! 0 + inc]\<rparr>
      in S1\<lparr>bs_t := (bs_t S1)[1 := bs_t S1 ! 1 + (if bs_t S1 ! 0 < inc then 1 else 0)]\<rparr>)"

definition blake2b_init0 :: blake2b_state where
  "blake2b_init0 = \<lparr>bs_h = blake2b_IV, bs_t = [0, 0], bs_f = [0, 0], bs_buf = replicate 128 0, bs_buflen = 0, bs_outlen = 0, bs_last_node = 0\<rparr>"

definition blake2b_ref_init_param :: "blake2b_param \<Rightarrow> blake2b_state" where
  "blake2b_ref_init_param P =
     (let S = blake2b_init0
      in S\<lparr>bs_h := map (\<lambda>i. bs_h S ! i XOR load64 (drop (8 * i) (param_bytes P))) [0..<8], bs_outlen := ucast (bp_digest_length P)\<rparr>)"

subsection \<open>Compression\<close>

text \<open>The macros \<open>G\<close> and \<open>ROUND\<close>; their arguments are entries of \<open>v\<close>.\<close>

definition b2_G :: "u64 list \<Rightarrow> nat \<Rightarrow> nat \<Rightarrow> nat \<Rightarrow> nat \<Rightarrow> nat \<Rightarrow> nat \<Rightarrow> u64 list \<Rightarrow> u64 list" where
  "b2_G m r i a b c d v =
     (let v1 = v[a := v ! a + v ! b + m ! (blake2b_sigma ! r ! (2 * i + 0))];
          v2 = v1[d := rotr64 (v1 ! d XOR v1 ! a) 32];
          v3 = v2[c := v2 ! c + v2 ! d];
          v4 = v3[b := rotr64 (v3 ! b XOR v3 ! c) 24];
          v5 = v4[a := v4 ! a + v4 ! b + m ! (blake2b_sigma ! r ! (2 * i + 1))];
          v6 = v5[d := rotr64 (v5 ! d XOR v5 ! a) 16];
          v7 = v6[c := v6 ! c + v6 ! d]
      in v7[b := rotr64 (v7 ! b XOR v7 ! c) 63])"

definition b2_ROUND :: "u64 list \<Rightarrow> nat \<Rightarrow> u64 list \<Rightarrow> u64 list" where
  "b2_ROUND m r v =
     (let v0 = b2_G m r 0 0 4 8 12 v; v1 = b2_G m r 1 1 5 9 13 v0; v2 = b2_G m r 2 2 6 10 14 v1; v3 = b2_G m r 3 3 7 11 15 v2;
          v4 = b2_G m r 4 0 5 10 15 v3; v5 = b2_G m r 5 1 6 11 12 v4; v6 = b2_G m r 6 2 7 8 13 v5
      in b2_G m r 7 3 4 9 14 v6)"

definition blake2b_compress :: "blake2b_state \<Rightarrow> bytes \<Rightarrow> blake2b_state" where
  "blake2b_compress S block =
     (let m = map (\<lambda>i. load64 (drop (8 * i) block)) [0..<16];
          v = bs_h S @ [blake2b_IV ! 0, blake2b_IV ! 1, blake2b_IV ! 2, blake2b_IV ! 3,
                blake2b_IV ! 4 XOR bs_t S ! 0, blake2b_IV ! 5 XOR bs_t S ! 1, blake2b_IV ! 6 XOR bs_f S ! 0, blake2b_IV ! 7 XOR bs_f S ! 1];
          w = fold (b2_ROUND m) [0..<12] v
      in S\<lparr>bs_h := map (\<lambda>i. bs_h S ! i XOR w ! i XOR w ! (i + 8)) [0..<8]\<rparr>)"

subsection \<open>Streaming interface\<close>

function blake2b_update_loop :: "blake2b_state \<Rightarrow> bytes \<Rightarrow> size_t \<Rightarrow> blake2b_state \<times> bytes \<times> size_t" where
  "blake2b_update_loop S inp inlen =
     (if inlen > BLAKE2B_BLOCKBYTES
      then blake2b_update_loop (blake2b_compress (blake2b_increment_counter S (ucast BLAKE2B_BLOCKBYTES)) inp)
             (drop 128 inp) (inlen - BLAKE2B_BLOCKBYTES)
      else (S, inp, inlen))"
  by pat_completeness auto
termination
  by (relation "measure (\<lambda>(S, inp, inlen). unat inlen)")
    (auto simp: b2_sizes word_less_nat_alt word_sub_le_unat word_le_nat_alt)

declare blake2b_update_loop.simps [simp del]

definition blake2b_ref_update :: "blake2b_state \<Rightarrow> bytes \<Rightarrow> size_t \<Rightarrow> u32 \<times> blake2b_state" where
  "blake2b_ref_update S inp inlen =
     (if inlen > 0 then
        let left = bs_buflen S; fill = BLAKE2B_BLOCKBYTES - left;
            (S1, in1, len1) =
              (if inlen > fill then
                 let S0 = S\<lparr>bs_buflen := 0\<rparr>;
                     S0 = S0\<lparr>bs_buf := mem_write (bs_buf S0) (unat left) (take (unat fill) inp)\<rparr>;
                     S0 = blake2b_increment_counter S0 (ucast BLAKE2B_BLOCKBYTES);
                     S0 = blake2b_compress S0 (bs_buf S0)
                 in blake2b_update_loop S0 (drop (unat fill) inp) (inlen - fill)
               else (S, inp, inlen));
            S2 = S1\<lparr>bs_buf := mem_write (bs_buf S1) (unat (bs_buflen S1)) (take (unat len1) in1)\<rparr>
        in (0, S2\<lparr>bs_buflen := bs_buflen S2 + len1\<rparr>)
      else (0, S))"

definition blake2b_ref_final :: "blake2b_state \<Rightarrow> bytes option \<Rightarrow> size_t \<Rightarrow> u32 \<times> blake2b_state \<times> bytes option" where
  "blake2b_ref_final S out outlen =
     (if out = None \<or> outlen < bs_outlen S then (- 1, S, out)
      else if blake2b_is_lastblock S then (- 1, S, out)
      else
        let S1 = blake2b_increment_counter S (ucast (bs_buflen S));
            S2 = blake2b_set_lastblock S1;
            S3 = S2\<lparr>bs_buf := mem_write (bs_buf S2) (unat (bs_buflen S2)) (replicate (unat (BLAKE2B_BLOCKBYTES - bs_buflen S2)) 0)\<rparr>;
            S4 = blake2b_compress S3 (bs_buf S3);
            buffer = concat (map (\<lambda>i. store64 (bs_h S4 ! i)) [0..<8])
        in (0, S4, Some (mem_write (the out) 0 (take (unat (bs_outlen S4)) buffer))))"

definition blake2b_ref_init :: "size_t \<Rightarrow> blake2b_state option" where
  "blake2b_ref_init outlen =
     (if outlen = 0 \<or> outlen > BLAKE2B_OUTBYTES then None
      else Some (blake2b_ref_init_param
        \<lparr>bp_digest_length = ucast outlen, bp_key_length = 0, bp_fanout = 1, bp_depth = 1, bp_leaf_length = 0, bp_node_offset = 0,
         bp_xof_length = 0, bp_node_depth = 0, bp_inner_length = 0, bp_reserved = replicate 14 0, bp_salt = replicate 16 0,
         bp_personal = replicate 16 0\<rparr>))"

definition blake2b_ref_init_key :: "size_t \<Rightarrow> bytes option \<Rightarrow> size_t \<Rightarrow> blake2b_state option" where
  "blake2b_ref_init_key outlen key keylen =
     (if outlen = 0 \<or> outlen > BLAKE2B_OUTBYTES then None
      else if key = None \<or> keylen = 0 \<or> keylen > BLAKE2B_KEYBYTES then None
      else let S = blake2b_ref_init_param
        \<lparr>bp_digest_length = ucast outlen, bp_key_length = ucast keylen, bp_fanout = 1, bp_depth = 1, bp_leaf_length = 0,
         bp_node_offset = 0, bp_xof_length = 0, bp_node_depth = 0, bp_inner_length = 0, bp_reserved = replicate 14 0,
         bp_salt = replicate 16 0, bp_personal = replicate 16 0\<rparr>
      in Some (snd (blake2b_ref_update S (mem_write (replicate 128 0) 0 (take (unat keylen) (the key))) BLAKE2B_BLOCKBYTES)))"

text \<open>The one-call interface; \<open>None\<close> is the result \<open>-1\<close>.\<close>

definition blake2b_ref :: "bytes option \<Rightarrow> size_t \<Rightarrow> bytes option \<Rightarrow> size_t \<Rightarrow> bytes option \<Rightarrow> size_t \<Rightarrow> bytes option" where
  "blake2b_ref out outlen inp inlen key keylen =
     (if inp = None \<and> inlen > 0 then None
      else if out = None then None
      else if key = None \<and> keylen > 0 then None
      else if outlen = 0 \<or> outlen > BLAKE2B_OUTBYTES then None
      else if keylen > BLAKE2B_KEYBYTES then None
      else case (if keylen > 0 then blake2b_ref_init_key outlen key keylen else blake2b_ref_init outlen) of
        None \<Rightarrow> None
      | Some S \<Rightarrow> snd (snd (blake2b_ref_final (snd (blake2b_ref_update S (case inp of None \<Rightarrow> [] | Some p \<Rightarrow> p) inlen)) out outlen)))"

subsection \<open>The specification\<close>

text \<open>The compression function of RFC 7693 with the offset counter as a number: it is the code's, on a state with that counter.\<close>

definition b2_F :: "u64 list \<Rightarrow> bytes \<Rightarrow> nat \<Rightarrow> bool \<Rightarrow> u64 list" where
  "b2_F h block t final =
     bs_h (blake2b_compress (blake2b_init0\<lparr>bs_h := h, bs_t := [of_nat t, of_nat (t div 2 ^ 64)], bs_f := [if final then - 1 else 0, 0]\<rparr>) block)"

text \<open>All blocks but the last, which is kept; then the last one, padded.\<close>

function b2_absorb :: "u64 list \<Rightarrow> nat \<Rightarrow> bytes \<Rightarrow> u64 list \<times> nat \<times> bytes" where
  "b2_absorb h t d = (if length d \<le> 128 then (h, t, d) else b2_absorb (b2_F h (take 128 d) (t + 128) False) (t + 128) (drop 128 d))"
  by pat_completeness auto
termination by (relation "measure (\<lambda>(h, t, d). length d)") auto

declare b2_absorb.simps [simp del]

definition b2_last :: "u64 list \<times> nat \<times> bytes \<Rightarrow> u64 list" where
  "b2_last s = (case s of (h, t, r) \<Rightarrow> b2_F h (r @ replicate (128 - length r) 0) (t + length r) True)"

definition b2_start :: "u8 \<Rightarrow> u8 \<Rightarrow> u64 list" where
  "b2_start nn kk = blake2b_IV[0 := blake2b_IV ! 0 XOR 0x01010000 XOR push_bit 8 (ucast kk) XOR ucast nn]"

definition b2_hash :: "size_t \<Rightarrow> bytes \<Rightarrow> bytes \<Rightarrow> bytes" where
  "b2_hash outlen key data =
     (let msg = (if key = [] then [] else key @ replicate (128 - length key) 0) @ data
      in take (unat outlen) (concat (map store64 (b2_last (b2_absorb (b2_start (ucast outlen) (of_nat (length key))) 0 msg)))))"

subsection \<open>Streaming represents the message\<close>

definition b2_repr :: "u64 list \<Rightarrow> blake2b_state \<Rightarrow> bytes \<Rightarrow> bool" where
  "b2_repr h0 S d \<longleftrightarrow>
     (case b2_absorb h0 0 d of (h, t, r) \<Rightarrow>
        bs_h S = h \<and> bs_t S = [of_nat t, of_nat (t div 2 ^ 64)] \<and> bs_f S = [0, 0] \<and> bs_last_node S = 0 \<and>
        unat (bs_buflen S) = length r \<and> length (bs_buf S) = 128 \<and> take (length r) (bs_buf S) = r)"

lemma length_b2_F [simp]: "length (b2_F h block t final) = 8"
  by (simp add: b2_F_def blake2b_compress_def Let_def)

lemma b2_absorb_short: "length d \<le> 128 \<Longrightarrow> b2_absorb h t d = (h, t, d)"
  by (simp add: b2_absorb.simps)

lemma b2_absorb_rest: "b2_absorb h t d = (h', t', r) \<Longrightarrow> length r \<le> 128"
proof (induction h t d rule: b2_absorb.induct)
  case (1 h t d)
  show ?case using 1 b2_absorb.simps [of h t d] by (cases "length d \<le> 128") auto
qed

lemma b2_absorb_append:
  "b2_absorb h t d = (h', t', r) \<Longrightarrow> b2_absorb h t (d @ x) = b2_absorb h' t' (r @ x)"
proof (induction h t d rule: b2_absorb.induct)
  case (1 h t d)
  show ?case
  proof (cases "length d \<le> 128")
    case True
    then show ?thesis using 1(2) by (simp add: b2_absorb_short)
  next
    case False
    then have "b2_absorb (b2_F h (take 128 d) (t + 128) False) (t + 128) (drop 128 d) = (h', t', r)"
      using 1(2) by (simp add: b2_absorb.simps [of h t d])
    from 1(1) [OF False this] False show ?thesis by (simp add: b2_absorb.simps [of h t "d @ x"])
  qed
qed

text \<open>The two counter words.\<close>

lemma counter_carry:
  fixes t inc :: nat
  assumes "inc < 2 ^ 64"
  shows "(of_nat (t div 2 ^ 64) :: u64) + (if (of_nat t :: u64) + of_nat inc < of_nat inc then 1 else 0) = of_nat ((t + inc) div 2 ^ 64)"
proof -
  define a where "a = t mod 2 ^ 64"
  have t: "t = 2 ^ 64 * (t div 2 ^ 64) + a" by (simp add: a_def)
  have a: "a < 2 ^ 64" by (simp add: a_def)
  have w: "(of_nat t :: u64) + of_nat inc = of_nat (a + inc)"
  proof -
    have "(2 ^ 64 :: u64) = 0" by simp
    then have "(of_nat (2 ^ 64 * (t div 2 ^ 64)) :: u64) = 0" unfolding of_nat_mult of_nat_power of_nat_numeral by (simp only: mult_zero_left)
    then show ?thesis by (subst t) (simp only: of_nat_add add.left_neutral)
  qed
  have inc: "unat (of_nat inc :: u64) = inc" using assms by (simp add: unat_of_nat_small)
  have d: "(t + inc) div 2 ^ 64 = t div 2 ^ 64 + (a + inc) div 2 ^ 64"
    by (subst t) (simp add: div_mult_self4 add.assoc)
  have u: "unat (of_nat (a + inc) :: u64) = (a + inc) mod 2 ^ 64" unfolding unat_of_nat by simp
  show ?thesis
  proof (cases "a + inc < 2 ^ 64")
    case True
    then show ?thesis unfolding w d word_less_nat_alt u inc by simp
  next
    case False
    then have "(a + inc) div 2 ^ 64 = 1" "(a + inc) mod 2 ^ 64 = a + inc - 2 ^ 64"
      using a assms by (simp_all add: div_nat_eqI le_mod_geq)
    moreover have "a + inc - 2 ^ 64 < inc" using a False by linarith
    ultimately show ?thesis unfolding w d word_less_nat_alt u inc by simp
  qed
qed

definition b2_counter :: "nat \<Rightarrow> u64 list" where
  "b2_counter t = [of_nat t, of_nat (t div 2 ^ 64)]"

lemma increment_counter:
  assumes "bs_t S = b2_counter t" and "n < 2 ^ 64"
  shows "blake2b_increment_counter S (of_nat n) = S\<lparr>bs_t := b2_counter (t + n)\<rparr>"
  using assms(1) counter_carry [OF assms(2), of t]
  unfolding blake2b_increment_counter_def b2_counter_def Let_def by simp

lemma load64_take:
  assumes "i < 16"
  shows "load64 (drop (8 * i) (take 128 block)) = load64 (drop (8 * i) block)"
proof -
  have "take (128 - 8 * i) (drop (8 * i) block) ! j = drop (8 * i) block ! j" if "j < 8" for j
    using assms that by (intro nth_take) linarith
  then show ?thesis by (simp add: load64_def drop_take del: nth_take)
qed

lemma compress_take: "blake2b_compress S (take 128 block) = blake2b_compress S block"
proof -
  have "map (\<lambda>i. load64 (drop (8 * i) (take 128 block))) [0..<16] = map (\<lambda>i. load64 (drop (8 * i) block)) [0..<16]"
    by (rule map_cong) (auto intro: load64_take)
  then show ?thesis by (simp only: blake2b_compress_def)
qed

lemma compress_eq:
  assumes "bs_t S = b2_counter t" and "bs_f S = [if final then - 1 else 0, 0]"
  shows "blake2b_compress S block = S\<lparr>bs_h := b2_F (bs_h S) block t final\<rparr>"
  using assms by (simp add: b2_F_def blake2b_compress_def b2_counter_def Let_def)

lemma update_loop:
  assumes "bs_t S = b2_counter t" and "bs_f S = [0, 0]" and "length inp = unat inlen"
  shows "blake2b_update_loop S inp inlen =
     (case b2_absorb (bs_h S) t inp of (h', t', r) \<Rightarrow> (S\<lparr>bs_h := h', bs_t := b2_counter t'\<rparr>, r, of_nat (length r)))"
  using assms
proof (induction S inp inlen arbitrary: t rule: blake2b_update_loop.induct)
  case (1 S inp inlen)
  show ?case
  proof (cases "inlen > BLAKE2B_BLOCKBYTES")
    case False
    then have "length inp \<le> 128" using 1(4) by (simp add: b2_sizes word_less_nat_alt)
    then show ?thesis using False 1(2,4) by (simp add: blake2b_update_loop.simps b2_absorb_short)
  next
    case True
    have n: "(ucast BLAKE2B_BLOCKBYTES :: u64) = of_nat 128" by (simp add: b2_sizes)
    have long: "\<not> length inp \<le> 128" "length (drop 128 inp) = unat (inlen - BLAKE2B_BLOCKBYTES)"
      using True 1(4) by (simp_all add: b2_sizes word_less_nat_alt word_sub_le_unat word_le_nat_alt)
    define S1 where "S1 = blake2b_compress (blake2b_increment_counter S (ucast BLAKE2B_BLOCKBYTES)) inp"
    have S1: "S1 = S\<lparr>bs_t := b2_counter (t + 128), bs_h := b2_F (bs_h S) (take 128 inp) (t + 128) False\<rparr>"
    proof -
      have i: "blake2b_increment_counter S (ucast BLAKE2B_BLOCKBYTES) = S\<lparr>bs_t := b2_counter (t + 128)\<rparr>"
        unfolding n by (rule increment_counter [OF 1(2)]) simp
      show ?thesis unfolding S1_def i
        by (subst compress_take [symmetric], subst compress_eq [where final = False and t = "t + 128"]) (simp_all add: 1(3))
    qed
    have "blake2b_update_loop S1 (drop 128 inp) (inlen - BLAKE2B_BLOCKBYTES) =
        (case b2_absorb (bs_h S1) (t + 128) (drop 128 inp) of (h', t', r) \<Rightarrow>
          (S1\<lparr>bs_h := h', bs_t := b2_counter t'\<rparr>, r, of_nat (length r)))"
      unfolding S1_def by (rule 1(1) [OF True]) (use S1 1(3) long(2) in \<open>simp_all add: S1_def [symmetric]\<close>)
    then show ?thesis using True long(1)
      by (subst blake2b_update_loop.simps, subst b2_absorb.simps)
        (simp add: S1_def [symmetric], simp add: S1 split: prod.splits)
  qed
qed

lemma update_repr:
  assumes "b2_repr h0 S d" and "length inp = unat inlen" and "blake2b_ref_update S inp inlen = (e, S')"
  shows "e = 0 \<and> b2_repr h0 S' (d @ inp) \<and> bs_outlen S' = bs_outlen S"
proof -
  obtain h t r where a: "b2_absorb h0 0 d = (h, t, r)" by (metis prod_cases3)
  have S: "bs_h S = h" "bs_t S = b2_counter t" "bs_f S = [0, 0]" "bs_last_node S = 0" "unat (bs_buflen S) = length r"
    "length (bs_buf S) = 128" "take (length r) (bs_buf S) = r"
    using assms(1) by (simp_all add: b2_repr_def a b2_counter_def)
  have r: "length r \<le> 128" by (rule b2_absorb_rest [OF a])
  have left: "bs_buflen S \<le> 128" using S(5) r by (simp add: word_le_nat_alt)
  have fill: "unat (BLAKE2B_BLOCKBYTES - bs_buflen S) = 128 - length r"
    using word_sub_le_unat [OF left] S(5) by (simp add: b2_sizes)
  have ab: "b2_absorb h0 0 (d @ inp) = b2_absorb h t (r @ inp)" by (rule b2_absorb_append [OF a])
  consider "inlen = 0" | "inlen > 0" "\<not> inlen > BLAKE2B_BLOCKBYTES - bs_buflen S" | "inlen > BLAKE2B_BLOCKBYTES - bs_buflen S"
    by (metis word_neq_0_conv)
  then show ?thesis
  proof cases
    case 1
    then show ?thesis using assms by (auto simp: blake2b_ref_update_def)
  next
    case 2
    then have len: "length r + length inp \<le> 128" using fill r assms(2) by (simp add: word_less_nat_alt)
    have u: "unat (bs_buflen S + inlen) = length r + length inp"
      using len S(5) assms(2) by (simp add: word_add_no_wrap)
    have S': "e = 0" "S' = S\<lparr>bs_buf := mem_write (bs_buf S) (length r) inp, bs_buflen := bs_buflen S + inlen\<rparr>"
      using assms(2,3) 2 S(5) by (auto simp: blake2b_ref_update_def Let_def)
    have m: "take (length r + length inp) (mem_write (bs_buf S) (length r) inp) = r @ inp"
      using take_mem_write_all [of "length r" inp "bs_buf S"] len S(6,7) by simp
    show ?thesis using S' S len u m
      by (simp add: b2_repr_def ab b2_absorb_short b2_counter_def)
  next
    case 3
    define n where "n = 128 - length r"
    have n: "length r + n = 128" "n < length inp" using r 3 fill assms(2) by (simp_all add: n_def word_less_nat_alt)
    then have pos: "inlen > 0" using assms(2) by (metis gr_implies_not0 unat_0 word_neq_0_conv)
    define block where "block = r @ take n inp"
    have lb: "length block = 128" using n by (simp add: block_def)
    define S0 where "S0 = S\<lparr>bs_buflen := 0, bs_buf := block, bs_t := b2_counter (t + 128), bs_h := b2_F h block (t + 128) False\<rparr>"
    have mb: "mem_write (bs_buf S) (length r) (take n inp) = block"
      using n S(6,7) by (simp add: mem_write_def block_def)
    have i: "blake2b_increment_counter (S\<lparr>bs_buflen := 0, bs_buf := block\<rparr>) (ucast BLAKE2B_BLOCKBYTES) =
        S\<lparr>bs_buflen := 0, bs_buf := block, bs_t := b2_counter (t + 128)\<rparr>"
      using increment_counter [of "S\<lparr>bs_buflen := 0, bs_buf := block\<rparr>" t 128] S(2) by (simp add: b2_sizes)
    have S0: "blake2b_compress (blake2b_increment_counter (S\<lparr>bs_buflen := 0, bs_buf := block\<rparr>) (ucast BLAKE2B_BLOCKBYTES)) block = S0"
      unfolding i S0_def using S(1,3) by (subst compress_eq [where final = False and t = "t + 128"]) simp_all
    have lrest: "length (drop n inp) = unat (inlen - (BLAKE2B_BLOCKBYTES - bs_buflen S))"
      using 3 fill n assms(2) by (simp add: word_sub_le_unat n_def)
    obtain h' t' r' where ab': "b2_absorb (b2_F h block (t + 128) False) (t + 128) (drop n inp) = (h', t', r')" by (metis prod_cases3)
    have r': "length r' \<le> 128" by (rule b2_absorb_rest [OF ab'])
    have loop: "blake2b_update_loop S0 (drop n inp) (inlen - (BLAKE2B_BLOCKBYTES - bs_buflen S)) =
        (S0\<lparr>bs_h := h', bs_t := b2_counter t'\<rparr>, r', of_nat (length r'))"
      using update_loop [of S0 "t + 128", OF _ _ lrest] S(3) ab' by (simp add: S0_def)
    have u: "unat (of_nat (length r') :: size_t) = length r'" using r' by (simp add: unat_of_nat_small)
    have bufi: "bs_buf (blake2b_increment_counter (S\<lparr>bs_buflen := 0, bs_buf := block\<rparr>) (ucast BLAKE2B_BLOCKBYTES)) = block"
      unfolding i by simp
    have fn: "unat (BLAKE2B_BLOCKBYTES - bs_buflen S) = n" using fill by (simp add: n_def)
    have "blake2b_ref_update S inp inlen =
        (0, S0\<lparr>bs_h := h', bs_t := b2_counter t', bs_buf := mem_write block 0 r', bs_buflen := of_nat (length r')\<rparr>)"
      using pos 3 by (simp add: blake2b_ref_update_def Let_def fn S(5) mb bufi S0 loop u) (simp add: S0_def)
    then have S': "e = 0" "S' = S0\<lparr>bs_h := h', bs_t := b2_counter t', bs_buf := mem_write block 0 r', bs_buflen := of_nat (length r')\<rparr>"
      using assms(3) by simp_all
    have "b2_absorb h t (r @ inp) = (h', t', r')"
      using ab' n by (subst b2_absorb.simps) (simp add: block_def n_def)
    moreover have "take (length r') (mem_write block 0 r') = r'" "length (mem_write block 0 r') = 128"
      using r' lb take_mem_write_all [of 0 r' block] by simp_all
    ultimately show ?thesis using S' S u by (simp add: b2_repr_def ab b2_counter_def S0_def)
  qed
qed

subsection \<open>Start and end of a stream\<close>

lemma load64_params: "load64 (nn # kk # 1 # 1 # 0 # 0 # 0 # 0 # ps) = 0x01010000 XOR push_bit 8 (ucast kk) XOR ucast nn"
proof -
  have b: "bit (0x01010000 :: u64) n \<longleftrightarrow> n = 16 \<or> n = 24" for n
  proof -
    have "(0x01010000 :: u64) = push_bit 16 1 OR push_bit 24 1" by simp
    then have "bit (0x01010000 :: u64) n \<longleftrightarrow> bit (push_bit 16 (1 :: u64) OR push_bit 24 1) n" by simp
    also have "\<dots> \<longleftrightarrow> n = 16 \<or> n = 24"
      by (simp only: bit_or_iff bit_push_bit_iff bit_1_iff possible_bit_word) auto
    finally show ?thesis .
  qed
  show ?thesis
  proof (rule bit_word_eqI)
    fix n assume n: "n < LENGTH(64)"
    have nn: "bit nn n \<Longrightarrow> n < 8" and kk: "bit kk (n - 8) \<Longrightarrow> n - 8 < 8" by (auto dest: bit_imp_le_length)
    have "bit (load64 (nn # kk # 1 # 1 # 0 # 0 # 0 # 0 # ps)) n \<longleftrightarrow> bit nn n \<or> 8 \<le> n \<and> bit kk (n - 8) \<or> n = 16 \<or> n = 24"
      using n b [of n] by (auto simp: load64_def bit_simps)
    also have "\<dots> \<longleftrightarrow> bit (0x01010000 XOR push_bit 8 (ucast kk) XOR ucast nn :: u64) n"
      unfolding bit_xor_iff b bit_push_bit_iff bit_ucast_iff possible_bit_word using n nn kk by auto
    finally show "bit (load64 (nn # kk # 1 # 1 # 0 # 0 # 0 # 0 # ps)) n \<longleftrightarrow>
        bit (0x01010000 XOR push_bit 8 (ucast kk) XOR ucast nn :: u64) n" .
  qed
qed

lemma init_param_repr:
  fixes nn kk :: u8
  defines "P \<equiv> \<lparr>bp_digest_length = nn, bp_key_length = kk, bp_fanout = 1, bp_depth = 1, bp_leaf_length = 0,
         bp_node_offset = 0, bp_xof_length = 0, bp_node_depth = 0, bp_inner_length = 0, bp_reserved = replicate 14 0,
         bp_salt = replicate 16 0, bp_personal = replicate 16 0\<rparr>"
  shows "b2_repr (b2_start nn kk) (blake2b_ref_init_param P) [] \<and> bs_outlen (blake2b_ref_init_param P) = ucast nn"
proof -
  have p: "param_bytes P = nn # kk # 1 # 1 # replicate 60 0"
    by (simp add: P_def param_bytes_def store32_def numeral_eq_Suc)
  have z: "load64 (drop (8 * i) (param_bytes P)) = 0" if "1 \<le> i" "i < 8" for i
  proof -
    have "drop (8 * i) (param_bytes P) = replicate (64 - 8 * i) 0"
      using that unfolding p by (simp add: drop_Cons' drop_replicate)
    then show ?thesis using that by (simp add: load64_def)
  qed
  have z0: "load64 (drop (8 * 0) (param_bytes P)) = 0x01010000 XOR push_bit 8 (ucast kk) XOR ucast nn"
    unfolding p by (simp add: numeral_eq_Suc load64_params [simplified numeral_eq_Suc])
  have "map (\<lambda>i. blake2b_IV ! i XOR load64 (drop (8 * i) (param_bytes P))) [0..<8] = b2_start nn kk"
  proof (rule nth_equalityI)
    show "length (map (\<lambda>i. blake2b_IV ! i XOR load64 (drop (8 * i) (param_bytes P))) [0..<8]) = length (b2_start nn kk)"
      by (simp add: b2_start_def blake2b_IV_def)
  next
    fix i assume "i < length (map (\<lambda>i. blake2b_IV ! i XOR load64 (drop (8 * i) (param_bytes P))) [0..<8])"
    then have i: "i < 8" by simp
    have l: "length blake2b_IV = 8" by (simp add: blake2b_IV_def)
    show "map (\<lambda>i. blake2b_IV ! i XOR load64 (drop (8 * i) (param_bytes P))) [0..<8] ! i = b2_start nn kk ! i"
    proof (cases "i = 0")
      case True
      then show ?thesis using z0 l by (simp add: b2_start_def ac_simps)
    next
      case False
      then show ?thesis using z [of i] i by (simp add: b2_start_def)
    qed
  qed
  then show ?thesis
    by (simp add: b2_repr_def b2_absorb_short blake2b_ref_init_param_def blake2b_init0_def Let_def) (simp add: P_def)
qed

lemma final_repr:
  assumes "b2_repr h0 S d" and "bs_outlen S \<le> outlen"
  shows "\<exists>S'. blake2b_ref_final S (Some out) outlen =
     (0, S', Some (mem_write out 0 (take (unat (bs_outlen S)) (concat (map store64 (b2_last (b2_absorb h0 0 d)))))))"
proof -
  obtain h t r where a: "b2_absorb h0 0 d = (h, t, r)" by (metis prod_cases3)
  have S: "bs_h S = h" "bs_t S = b2_counter t" "bs_f S = [0, 0]" "bs_last_node S = 0" "unat (bs_buflen S) = length r"
    "length (bs_buf S) = 128" "take (length r) (bs_buf S) = r"
    using assms(1) by (simp_all add: b2_repr_def a b2_counter_def)
  have r: "length r \<le> 128" by (rule b2_absorb_rest [OF a])
  have left: "bs_buflen S \<le> 128" using S(5) r by (simp add: word_le_nat_alt)
  have pad: "unat (BLAKE2B_BLOCKBYTES - bs_buflen S) = 128 - length r"
    using word_sub_le_unat [OF left] S(5) by (simp add: b2_sizes)
  have uc: "(ucast (bs_buflen S) :: u64) = of_nat (length r)"
  proof -
    have "unat (ucast (bs_buflen S) :: u64) = length r" using S(5) by (simp add: unat_ucast_up)
    then have "of_nat (unat (ucast (bs_buflen S) :: u64)) = (of_nat (length r) :: u64)" by (rule arg_cong)
    then show ?thesis by simp
  qed
  have i: "blake2b_increment_counter S (ucast (bs_buflen S)) = S\<lparr>bs_t := b2_counter (t + length r)\<rparr>"
    unfolding uc using increment_counter [OF S(2), of "length r"] r by simp
  define block where "block = r @ replicate (128 - length r) 0"
  have mb: "mem_write (bs_buf S) (length r) (replicate (128 - length r) 0) = block"
    using r S(6,7) by (simp add: mem_write_def block_def)
  define S3 where "S3 = S\<lparr>bs_t := b2_counter (t + length r), bs_f := [- 1, 0], bs_buf := block\<rparr>"
  have c: "blake2b_compress S3 block = S3\<lparr>bs_h := b2_F h block (t + length r) True\<rparr>"
    using compress_eq [of S3 "t + length r" True block] S(1) by (simp add: S3_def)
  have m: "map (\<lambda>i. store64 (b2_F h block (t + length r) True ! i)) [0..<8] = map store64 (b2_last (b2_absorb h0 0 d))"
    unfolding a b2_last_def block_def [symmetric] prod.case
    by (rule nth_equalityI) (simp_all add: block_def [symmetric])
  have "blake2b_ref_final S (Some out) outlen = (0, S3\<lparr>bs_h := b2_F h block (t + length r) True\<rparr>,
      Some (mem_write out 0 (take (unat (bs_outlen S)) (concat (map store64 (b2_last (b2_absorb h0 0 d)))))))"
  proof -
    have l: "blake2b_set_lastblock (S\<lparr>bs_t := b2_counter (t + length r)\<rparr>) = S\<lparr>bs_t := b2_counter (t + length r), bs_f := [- 1, 0]\<rparr>"
      using S(3,4) by (simp add: blake2b_set_lastblock_def Let_def)
    have nl: "\<not> blake2b_is_lastblock S" using S(3) by (simp add: blake2b_is_lastblock_def)
    have o: "\<not> outlen < bs_outlen S" using assms(2) by simp
    have bo: "bs_outlen (S3\<lparr>bs_h := b2_F h block (t + length r) True\<rparr>) = bs_outlen S" by (simp add: S3_def)
    have S3': "S\<lparr>bs_t := b2_counter (t + length r), bs_f := [- 1, 0], bs_buf := block\<rparr> = S3" by (simp add: S3_def)
    have b3: "bs_buf S3 = block" by (simp add: S3_def)
    show ?thesis
      using nl o unfolding blake2b_ref_final_def Let_def i l
      by (simp add: S(5) pad mb S3' b3 c bo m)
  qed
  then show ?thesis by blast
qed

lemma ucast_digest_size:
  assumes "outlen \<le> BLAKE2B_OUTBYTES"
  shows "ucast (ucast outlen :: u8) = outlen"
proof -
  have "unat outlen < 2 ^ 8" using assms by (simp add: b2_sizes word_le_nat_alt)
  then show ?thesis
    by (intro word_unat_eq_iff [THEN iffD2]) (simp add: unsigned_ucast_eq unsigned_take_bit_eq take_bit_nat_eq_self)
qed

lemma ref_init:
  assumes "0 < outlen" and "outlen \<le> BLAKE2B_OUTBYTES"
  shows "\<exists>S. blake2b_ref_init outlen = Some S \<and> b2_repr (b2_start (ucast outlen) 0) S [] \<and> bs_outlen S = outlen"
  using assms init_param_repr [of "ucast outlen" 0] unfolding ucast_digest_size [OF assms(2)]
    by (simp add: blake2b_ref_init_def word_gt_0 not_less)

lemma length_b2_digest: "length (concat (map store64 (b2_last s))) = 64"
proof -
  have "length (b2_last s) = 8" by (simp add: b2_last_def split: prod.splits)
  moreover have "length (concat (map store64 hs)) = 8 * length hs" for hs by (induction hs) (simp_all add: store64_def)
  ultimately show ?thesis by simp
qed

text \<open>A sequence of updates.\<close>

primrec b2_updates :: "bytes list \<Rightarrow> blake2b_state \<Rightarrow> blake2b_state" where
  "b2_updates [] S = S"
| "b2_updates (c # cs) S = b2_updates cs (snd (blake2b_ref_update S c (of_nat (length c))))"

lemma updates_repr:
  assumes "b2_repr h0 S d" and "\<forall>c\<in>set cs. length c < 2 ^ 32"
  shows "b2_repr h0 (b2_updates cs S) (d @ concat cs) \<and> bs_outlen (b2_updates cs S) = bs_outlen S"
  using assms
proof (induction cs arbitrary: S d)
  case (Cons c cs)
  have l: "length c = unat (of_nat (length c) :: size_t)" using Cons.prems(2) by (simp add: unat_of_nat_small)
  obtain e S' where u: "blake2b_ref_update S c (of_nat (length c)) = (e, S')" by (cases "blake2b_ref_update S c (of_nat (length c))")
  from update_repr [OF Cons.prems(1) l u] have "b2_repr h0 S' (d @ c)" "bs_outlen S' = bs_outlen S" by auto
  with Cons.IH [of S' "d @ c"] Cons.prems(2) u show ?case by simp
qed simp

lemma b2_hash_unkeyed: "b2_hash outlen [] d = take (unat outlen) (concat (map store64 (b2_last (b2_absorb (b2_start (ucast outlen) 0) 0 d))))"
  by (simp add: b2_hash_def Let_def)

text \<open>
  The streaming hash is BLAKE2b. Started for a digest of 1 to 64 bytes and fed with any number of chunks of any
  sizes, the reference implementation never fails and stores exactly the digest that RFC 7693 defines for the
  concatenation of the chunks, at the start of the output.
\<close>

theorem blake2b_streaming:
  assumes "0 < outlen" and "outlen \<le> BLAKE2B_OUTBYTES" and "\<forall>c\<in>set cs. length c < 2 ^ 32"
  shows "\<exists>S S'. blake2b_ref_init outlen = Some S \<and>
     blake2b_ref_final (b2_updates cs S) (Some out) outlen = (0, S', Some (mem_write out 0 (b2_hash outlen [] (concat cs))))"
proof -
  obtain S where S: "blake2b_ref_init outlen = Some S" "b2_repr (b2_start (ucast outlen) 0) S []" "bs_outlen S = outlen"
    using ref_init [OF assms(1,2)] by blast
  from updates_repr [OF S(2) assms(3)] S(3)
  have u: "b2_repr (b2_start (ucast outlen) 0) (b2_updates cs S) (concat cs)" "bs_outlen (b2_updates cs S) = outlen" by auto
  with final_repr [OF u(1), of outlen out] show ?thesis using S(1) by (simp add: b2_hash_unkeyed)
qed

theorem blake2b_streaming_witness:
  "\<exists>S S'. blake2b_ref_init 32 = Some S \<and>
     blake2b_ref_final (b2_updates [[97], [98, 99]] S) (Some (replicate 40 7)) 32 =
       (0, S', Some (mem_write (replicate 40 7) 0 (b2_hash 32 [] [97, 98, 99])))"
  using blake2b_streaming [of 32 "[[97], [98, 99]]" "replicate 40 7"] by (simp add: b2_sizes)

lemma ref_eq:
  assumes "0 < outlen" and "outlen \<le> BLAKE2B_OUTBYTES" and "unat inlen = length inp" and "unat keylen = length key" and "keylen \<le> BLAKE2B_KEYBYTES"
  shows "blake2b_ref (Some out) outlen (Some inp) inlen (Some key) keylen = Some (mem_write out 0 (b2_hash outlen key inp))"
proof (cases "keylen = 0")
  case True
  then have key: "key = []" using assms(4) by simp
  obtain S where S: "blake2b_ref_init outlen = Some S" "b2_repr (b2_start (ucast outlen) 0) S []" "bs_outlen S = outlen"
    using ref_init [OF assms(1,2)] by blast
  obtain e S1 where u: "blake2b_ref_update S inp inlen = (e, S1)" by (cases "blake2b_ref_update S inp inlen")
  from update_repr [OF S(2) assms(3) [symmetric] u] S(3)
  have r: "b2_repr (b2_start (ucast outlen) 0) S1 inp" "bs_outlen S1 = outlen" by auto
  from final_repr [OF r(1), of outlen out] r(2) show ?thesis
    using assms(1,2) True S(1) u by (auto simp: blake2b_ref_def key b2_hash_unkeyed b2_sizes word_gt_0 not_less)
next
  case False
  have kl: "length key \<le> 64" "key \<noteq> []" using assms(4,5) False
    by (auto simp: b2_sizes word_le_nat_alt unat_eq_zero)
  note uo = ucast_digest_size [OF assms(2)]
  have uk: "(ucast keylen :: u8) = of_nat (length key)" using assms(4) by (metis of_nat_unat)
  let ?blk = "key @ replicate (128 - length key) 0"
  have blk: "mem_write (replicate 128 0) 0 (take (unat keylen) key) = ?blk"
    using assms(4) kl by (simp add: mem_write_def drop_replicate)
  let ?h0 = "b2_start (ucast outlen) (of_nat (length key))"
  obtain S where S: "blake2b_ref_init_key outlen (Some key) keylen = Some S" "b2_repr ?h0 S ?blk" "bs_outlen S = outlen"
  proof -
    let ?P = "\<lparr>bp_digest_length = ucast outlen, bp_key_length = ucast keylen, bp_fanout = 1, bp_depth = 1, bp_leaf_length = 0,
         bp_node_offset = 0, bp_xof_length = 0, bp_node_depth = 0, bp_inner_length = 0, bp_reserved = replicate 14 0,
         bp_salt = replicate 16 0, bp_personal = replicate 16 0\<rparr>"
    obtain e S1 where u: "blake2b_ref_update (blake2b_ref_init_param ?P) ?blk BLAKE2B_BLOCKBYTES = (e, S1)"
      by (cases "blake2b_ref_update (blake2b_ref_init_param ?P) ?blk BLAKE2B_BLOCKBYTES")
    have l: "length ?blk = unat BLAKE2B_BLOCKBYTES" using kl by (simp add: b2_sizes)
    have ip: "b2_repr ?h0 (blake2b_ref_init_param ?P) []" "bs_outlen (blake2b_ref_init_param ?P) = outlen"
      using init_param_repr [of "ucast outlen" "ucast keylen"] uk uo by simp_all
    have "b2_repr ?h0 S1 ?blk" "bs_outlen S1 = outlen" using update_repr [OF ip(1) l u] ip(2) by auto
    moreover have "blake2b_ref_init_key outlen (Some key) keylen = Some S1"
      using assms(1,2,5) False u blk by (auto simp: blake2b_ref_init_key_def Let_def word_gt_0 not_less)
    ultimately show ?thesis using that by blast
  qed
  obtain e S1 where u: "blake2b_ref_update S inp inlen = (e, S1)" by (cases "blake2b_ref_update S inp inlen")
  from update_repr [OF S(2) assms(3) [symmetric] u] S(3)
  have r: "b2_repr ?h0 S1 (?blk @ inp)" "bs_outlen S1 = outlen" by auto
  have k0: "keylen > 0" using False by (simp add: word_gt_0)
  from final_repr [OF r(1), of outlen out] r(2) show ?thesis
    using assms(1,2,5) k0 S(1) u kl(2) by (auto simp: blake2b_ref_def b2_hash_def Let_def word_gt_0 not_less)
qed

end
