(* ===== verification/Blake2Impl.thy ===== *)
theory Blake2Impl
  imports Blake2bRef
begin

text \<open>
  The rest of \<^verbatim>\<open>unit-tests/utils/blake2-impl.h\<close>: the loads, stores and rotations of the widths that
  BLAKE2b itself does not use. Every load reads what the store of its width wrote, the six-byte pair up to the two bytes it
  drops, and the rotations, written with two shifts, are the rotation of words.
\<close>

unbundle bit_operations_syntax

definition load16 :: "bytes \<Rightarrow> u16" where
  "load16 p = ucast (push_bit 0 (ucast (p ! 0) :: u32) OR push_bit 8 (ucast (p ! 1)))"

definition load32 :: "bytes \<Rightarrow> u32" where
  "load32 p =
     push_bit 0 (ucast (p ! 0)) OR push_bit 8 (ucast (p ! 1)) OR push_bit 16 (ucast (p ! 2)) OR push_bit 24 (ucast (p ! 3))"

definition load48 :: "bytes \<Rightarrow> u64" where
  "load48 p =
     push_bit 0 (ucast (p ! 0)) OR push_bit 8 (ucast (p ! 1)) OR push_bit 16 (ucast (p ! 2)) OR push_bit 24 (ucast (p ! 3)) OR
     push_bit 32 (ucast (p ! 4)) OR push_bit 40 (ucast (p ! 5))"

text \<open>\<open>store16\<close> shifts its argument between the two bytes.\<close>

definition store16 :: "u16 \<Rightarrow> bytes" where
  "store16 w = (let w' = drop_bit 8 w in [ucast w, ucast w'])"

definition store48 :: "u64 \<Rightarrow> bytes" where
  "store48 w =
     [ucast (drop_bit 0 w), ucast (drop_bit 8 w), ucast (drop_bit 16 w), ucast (drop_bit 24 w),
      ucast (drop_bit 32 w), ucast (drop_bit 40 w)]"

definition rotr32 :: "u32 \<Rightarrow> nat \<Rightarrow> u32" where
  "rotr32 w c = drop_bit c w OR push_bit (32 - c) w"

lemma load16_store16: "load16 (store16 w) = w"
  by (rule bit_word_eqI) (auto simp: load16_def store16_def Let_def bit_simps)

lemma load32_store32: "load32 (store32 w) = w"
  unfolding load32_def store32_def by (rule bit_word_eqI) (simp add: bit_or_iff bit_byte_at del: push_bit_0_id drop_bit_0, arith)

lemma load64_store64: "load64 (store64 w) = w"
  unfolding load64_def store64_def by (rule bit_word_eqI) (simp add: bit_or_iff bit_byte_at del: push_bit_0_id drop_bit_0, arith)

lemma load48_store48: "load48 (store48 w) = take_bit 48 w"
  unfolding load48_def store48_def
  by (rule bit_word_eqI) (simp add: bit_or_iff bit_take_bit_iff bit_byte_at del: push_bit_0_id drop_bit_0, arith)

text \<open>Where a bit comes from when the two shifted parts do not overlap.\<close>

lemma bit_shifted_parts:
  "bit (drop_bit c w OR push_bit (LENGTH('a) - c) w) n \<longleftrightarrow> bit w ((n + c) mod LENGTH('a))"
  if "c < LENGTH('a)" "n < LENGTH('a)" for w :: "'a::len word"
proof (cases "n + c < LENGTH('a)")
  case True
  then have "\<not> LENGTH('a) - c \<le> n" by arith
  then show ?thesis using True by (simp add: bit_or_iff bit_drop_bit_eq bit_push_bit_iff add.commute)
next
  case False
  then have "(n + c) mod LENGTH('a) = n + c - LENGTH('a)" "LENGTH('a) - c \<le> n" "n - (LENGTH('a) - c) = n + c - LENGTH('a)"
    using that by (simp_all add: le_mod_geq)
  moreover have "\<not> bit w (c + n)" using False by (auto simp: add.commute dest: bit_imp_le_length)
  ultimately show ?thesis using that by (simp add: bit_or_iff bit_drop_bit_eq bit_push_bit_iff)
qed

lemma rotr32_word_rotr: "c < 32 \<Longrightarrow> rotr32 w c = word_rotr c w"
  using bit_shifted_parts [of c _ w] by (intro bit_word_eqI) (simp add: rotr32_def bit_word_rotr_iff)

lemma rotr64_word_rotr: "c < 64 \<Longrightarrow> rotr64 w c = word_rotr c w"
  using bit_shifted_parts [of c _ w] by (intro bit_word_eqI) (simp add: rotr64_def bit_word_rotr_iff)

end
