(* ===== verification/TxPhases.thy ===== *)
theory TxPhases
  imports TxRun
begin

text \<open>
  The phases of a transaction. The states of \<^verbatim>\<open>tx_ser_full.h\<close> are ordered as a transaction passes them: the token
  table, the inputs, the data inputs, the outputs, the end, and an error above all of them. No operation goes back, and
  none lets a counter of what is still to come wrap around.
\<close>

subsection \<open>The order of the states\<close>

primrec full_phase :: "ergo_tx_serializer_full_state_e \<Rightarrow> nat" where
  "full_phase ERGO_TX_SERIALIZER_FULL_STATE_TOKENS_STARTED = 0"
| "full_phase ERGO_TX_SERIALIZER_FULL_STATE_INPUTS_STARTED = 1"
| "full_phase ERGO_TX_SERIALIZER_FULL_STATE_DATA_INPUTS_STARTED = 2"
| "full_phase ERGO_TX_SERIALIZER_FULL_STATE_OUTPUTS_STARTED = 3"
| "full_phase ERGO_TX_SERIALIZER_FULL_STATE_FINISHED = 4"
| "full_phase ERGO_TX_SERIALIZER_FULL_STATE_ERROR = 5"

lemma full_phase_inject: "full_phase a = full_phase b \<Longrightarrow> a = b"
  by (cases a; cases b) simp_all

instantiation ergo_tx_serializer_full_state_e :: linorder
begin

definition less_eq_ergo_tx_serializer_full_state_e ::
    "ergo_tx_serializer_full_state_e \<Rightarrow> ergo_tx_serializer_full_state_e \<Rightarrow> bool" where
  "less_eq_ergo_tx_serializer_full_state_e a b \<longleftrightarrow> full_phase a \<le> full_phase b"

definition less_ergo_tx_serializer_full_state_e ::
    "ergo_tx_serializer_full_state_e \<Rightarrow> ergo_tx_serializer_full_state_e \<Rightarrow> bool" where
  "less_ergo_tx_serializer_full_state_e a b \<longleftrightarrow> full_phase a < full_phase b"

instance
  by standard (auto simp: less_eq_ergo_tx_serializer_full_state_e_def less_ergo_tx_serializer_full_state_e_def
    intro: full_phase_inject)

end

lemmas full_state_order = less_eq_ergo_tx_serializer_full_state_e_def less_ergo_tx_serializer_full_state_e_def

lemma full_state_top [simp]: "s \<le> ERGO_TX_SERIALIZER_FULL_STATE_ERROR"
  by (cases s) (simp_all add: full_state_order)

subsection \<open>What is still to come\<close>

text \<open>\<open>counts_due\<close>: a phase that has not ended has something left, a phase that was passed has nothing left.\<close>

definition counts_due :: "'m full_ctx \<Rightarrow> bool" where
  "counts_due c \<longleftrightarrow> full_state c = ERGO_TX_SERIALIZER_FULL_STATE_ERROR \<or>
     (full_inputs_count c = 0 \<longleftrightarrow> ERGO_TX_SERIALIZER_FULL_STATE_INPUTS_STARTED < full_state c) \<and>
     (ERGO_TX_SERIALIZER_FULL_STATE_DATA_INPUTS_STARTED \<le> full_state c \<longrightarrow>
        (full_data_inputs_count c = 0 \<longleftrightarrow> ERGO_TX_SERIALIZER_FULL_STATE_DATA_INPUTS_STARTED < full_state c)) \<and>
     (full_outputs_count c = 0 \<longleftrightarrow> ERGO_TX_SERIALIZER_FULL_STATE_OUTPUTS_STARTED < full_state c)"

definition onward :: "'m full_ctx \<Rightarrow> 'm full_ctx \<Rightarrow> bool" where
  "onward c c' \<longleftrightarrow> full_state c \<le> full_state c' \<and> full_inputs_count c' \<le> full_inputs_count c \<and>
     full_data_inputs_count c' \<le> full_data_inputs_count c \<and> full_outputs_count c' \<le> full_outputs_count c"

lemma onward_refl [simp]: "onward c c"
  by (simp add: onward_def)

lemma onward_trans: "onward c d \<Longrightarrow> onward d e \<Longrightarrow> onward c e"
  by (auto simp: onward_def)

text \<open>\<open>moves c out\<close>: an answer that goes on from \<open>c\<close> as it should.\<close>

definition moves :: "'m full_ctx \<Rightarrow> 'm full_out \<Rightarrow> bool" where
  "moves c out \<longleftrightarrow> onward c (fst (snd out)) \<and> counts_due (fst (snd out))"

lemma u16_pred: "n \<noteq> 0 \<Longrightarrow> n - 1 \<le> n" for n :: u16
  by (simp add: word_le_nat_alt word_sub_le_unat unat_minus_one)

lemma moves_error [simp]:
  "full_inputs_count d \<le> full_inputs_count c \<Longrightarrow> full_data_inputs_count d \<le> full_data_inputs_count c \<Longrightarrow>
   full_outputs_count d \<le> full_outputs_count c \<Longrightarrow> moves c (full_res_error d m e)"
  by (simp add: moves_def onward_def counts_due_def full_res_error_def)

lemma moves_same:
  "counts_due c \<Longrightarrow> full_state d = full_state c \<Longrightarrow> full_inputs_count d = full_inputs_count c \<Longrightarrow>
   full_data_inputs_count d = full_data_inputs_count c \<Longrightarrow> full_outputs_count d = full_outputs_count c \<Longrightarrow> moves c (r, d, m)"
  by (simp add: moves_def onward_def counts_due_def)

subsection \<open>No operation goes back\<close>

lemma moves_check:
  "moves c0 (check_call_data_is_finished r c m block)"
  if "counts_due c0" "full_state c = full_state c0" "full_inputs_count c = full_inputs_count c0"
    "full_data_inputs_count c = full_data_inputs_count c0" "full_outputs_count c = full_outputs_count c0" "moves c0 (block c m)"
  using that by (auto simp: check_call_data_is_finished_def intro: moves_same)

lemma moves_data_inputs_finished:
  "moves c0 (data_inputs_finished cx c m)"
  if "full_state c0 \<le> ERGO_TX_SERIALIZER_FULL_STATE_DATA_INPUTS_STARTED" "full_inputs_count c = 0" "full_data_inputs_count c = 0"
    "full_outputs_count c \<noteq> 0" "full_outputs_count c = full_outputs_count c0"
  using that by (auto simp: data_inputs_finished_def moves_def onward_def counts_due_def full_res_error_def full_state_order Let_def
      split: prod.splits)

lemma moves_input_finished:
  "moves c0 (input_finished cx c m)"
  if "counts_due c0" "full_state c0 = ERGO_TX_SERIALIZER_FULL_STATE_INPUTS_STARTED" "full_state c = full_state c0"
    "full_inputs_count c = full_inputs_count c0" "full_data_inputs_count c = full_data_inputs_count c0"
    "full_outputs_count c = full_outputs_count c0"
proof -
  have n: "full_inputs_count c0 \<noteq> 0" "full_outputs_count c0 \<noteq> 0" "full_inputs_count c0 - 1 \<le> full_inputs_count c0"
    using that(1,2) by (auto simp: counts_due_def full_state_order intro: u16_pred)
  show ?thesis
  proof (cases "full_inputs_count c0 = 1 \<and> full_data_inputs_count c0 = 0")
    case True
    then show ?thesis using that n
      by (auto simp: input_finished_def Let_def full_state_order intro!: moves_data_inputs_finished split: prod.splits)
  next
    case False
    then show ?thesis using that n
      by (auto simp: input_finished_def Let_def moves_def onward_def counts_due_def full_state_order full_res_error_def split: prod.splits)
  qed
qed

lemma moves_output_finished:
  "moves c0 (output_finished c m)"
  if "counts_due c0" "full_state c0 = ERGO_TX_SERIALIZER_FULL_STATE_OUTPUTS_STARTED" "full_state c = full_state c0"
    "full_inputs_count c = full_inputs_count c0" "full_data_inputs_count c = full_data_inputs_count c0"
    "full_outputs_count c = full_outputs_count c0"
proof -
  have "full_outputs_count c0 \<noteq> 0" using that(1,2) by (auto simp: counts_due_def full_state_order)
  then show ?thesis using that u16_pred [of "full_outputs_count c0"]
    by (auto simp: output_finished_def Let_def moves_def onward_def counts_due_def full_state_order)
qed

lemma data_inputs_loop_counts:
  "case data_inputs_loop cx c m b of
     Inl out \<Rightarrow> full_state (fst (snd out)) = ERGO_TX_SERIALIZER_FULL_STATE_ERROR \<and> full_inputs_count (fst (snd out)) = full_inputs_count c \<and>
       full_data_inputs_count (fst (snd out)) \<le> full_data_inputs_count c \<and> full_outputs_count (fst (snd out)) = full_outputs_count c
   | Inr (c', m') \<Rightarrow> full_state c' = full_state c \<and> full_inputs_count c' = full_inputs_count c \<and>
       full_data_inputs_count c' \<le> full_data_inputs_count c \<and> full_outputs_count c' = full_outputs_count c"
proof (induction cx c m b rule: data_inputs_loop.induct)
  case (1 cx c m b)
  show ?case
  proof (cases "buffer_data_len b > 0 \<and> full_data_inputs_count c \<noteq> 0")
    case False
    then show ?thesis by (simp add: data_inputs_loop.simps [of cx c m b] full_res_error_def)
  next
    case True
    obtain bid b1 where r: "buffer_read_bytes b ERGO_ID_LEN = (bid, b1)" by (cases "buffer_read_bytes b ERGO_ID_LEN")
    show ?thesis
    proof (cases bid)
      case None
      then show ?thesis using True r by (simp add: data_inputs_loop.simps [of cx c m b] full_res_error_def)
    next
      case (Some x)
      obtain ok m1 where u: "mem_update cx m x ERGO_ID_LEN = (ok, m1)" by (cases "mem_update cx m x ERGO_ID_LEN")
      show ?thesis
      proof (cases ok)
        case False
        then show ?thesis using True r u Some by (simp add: data_inputs_loop.simps [of cx c m b] full_res_error_def)
      next
        case ok: True
        show ?thesis
          using "1.IH" [OF _ _ r [symmetric] Some u [symmetric]] True ok r u Some u16_pred [of "full_data_inputs_count c"]
          by (auto simp: data_inputs_loop.simps [of cx c m b] intro: order_trans split: sum.splits)
      qed
    qed
  qed
qed

lemma moves_box_done:
  "moves c0 (box_done ub c m)"
  if "counts_due c0" "full_state c0 = ERGO_TX_SERIALIZER_FULL_STATE_OUTPUTS_STARTED" "full_state c = full_state c0"
    "full_inputs_count c = full_inputs_count c0" "full_data_inputs_count c = full_data_inputs_count c0"
    "full_outputs_count c = full_outputs_count c0"
  using that by (auto simp: box_done_def intro: moves_output_finished moves_same)

lemma moves_add_data_inputs:
  "counts_due c \<Longrightarrow> moves c (ergo_tx_serializer_full_add_data_inputs cx c m b)"
proof (cases "full_state c = ERGO_TX_SERIALIZER_FULL_STATE_DATA_INPUTS_STARTED")
  case st: True
  assume d: "counts_due c"
  have out: "full_outputs_count c \<noteq> 0" "full_inputs_count c = 0" using d st by (auto simp: counts_due_def full_state_order)
  note counts = data_inputs_loop_counts [where cx = cx and c = c and m = m and b = b]
  show ?thesis
  proof (cases "data_inputs_loop cx c m b")
    case (Inl res)
    with counts st show ?thesis
      by (simp add: ergo_tx_serializer_full_add_data_inputs_def moves_def onward_def counts_due_def)
  next
    case (Inr s)
    obtain c1 m1 where s: "s = (c1, m1)" by (cases s)
    show ?thesis
    proof (cases "full_data_inputs_count c1 = 0")
      case True
      have "moves c (data_inputs_finished cx c1 m1)"
        using counts Inr s True out st by (intro moves_data_inputs_finished) (simp_all add: full_state_order)
      then show ?thesis using Inr s True st by (simp add: ergo_tx_serializer_full_add_data_inputs_def)
    next
      case False
      then show ?thesis using Inr s st counts out
        by (simp add: ergo_tx_serializer_full_add_data_inputs_def moves_def onward_def counts_due_def full_state_order)
    qed
  qed
qed (simp add: ergo_tx_serializer_full_add_data_inputs_def)

lemma moves_fail [simp]: "moves c (r, c\<lparr>full_state := ERGO_TX_SERIALIZER_FULL_STATE_ERROR\<rparr>, m)"
  by (simp add: moves_def onward_def counts_due_def)

lemma moves_tokens_end:
  "counts_due c \<Longrightarrow> full_state c = ERGO_TX_SERIALIZER_FULL_STATE_TOKENS_STARTED \<Longrightarrow>
   moves c (r, c\<lparr>full_state := ERGO_TX_SERIALIZER_FULL_STATE_INPUTS_STARTED, full_input_ctx := i\<rparr>, m)"
  by (simp add: moves_def onward_def counts_due_def full_state_order)

lemma full_exec_moves: "counts_due c \<Longrightarrow> moves c (full_exec cx ub p c m)"
  by (cases p)
    (auto simp: ergo_tx_serializer_full_add_tokens_def ergo_tx_serializer_full_add_input_def
      ergo_tx_serializer_full_set_input_callback_def ergo_tx_serializer_full_add_input_tokens_def
      ergo_tx_serializer_full_add_input_context_extension_def
      ergo_tx_serializer_full_add_box_def ergo_tx_serializer_full_set_box_callbacks_def
      ergo_tx_serializer_full_add_box_ergo_tree_def ergo_tx_serializer_full_add_box_change_tree_def
      ergo_tx_serializer_full_add_box_miners_fee_tree_def ergo_tx_serializer_full_add_box_tokens_def
      ergo_tx_serializer_full_add_box_registers_def Let_def moves_same
      intro!: moves_check moves_input_finished moves_output_finished moves_box_done moves_add_data_inputs
      moves_tokens_end intro: moves_same split: prod.splits)

subsection \<open>The token phase\<close>

text \<open>
  The number of ids in the table, while the announced ones are read and when the phase ends. Behind
  that the callbacks of the inputs may append to the table, so only the end of the phase counts.
\<close>

type_synonym ('h, 'z) full_conf = "('h, 'z) ser_mem_scheme full_ctx \<times> ('h, 'z) ser_mem_scheme"

definition ids_received :: "('h, 'z) full_conf \<Rightarrow> u8" where
  "ids_received x = tt_count (tokens_table (snd x))"

primrec token_phase :: "u8 \<Rightarrow> ('h, 'z) full_conf list \<Rightarrow> bool" where
  "token_phase tc [] = True"
| "token_phase tc (x # xs) =
     (case full_state (fst x) of
        ERGO_TX_SERIALIZER_FULL_STATE_TOKENS_STARTED \<Rightarrow> ids_received x < tc \<and> token_phase tc xs
      | ERGO_TX_SERIALIZER_FULL_STATE_ERROR \<Rightarrow> True
      | _ \<Rightarrow> ids_received x = tc)"

lemma parse_token_count:
  "parse_token b t n = (ERGO_TX_SERIALIZER_TABLE_RES_OK, t', b') \<Longrightarrow> tt_count t < n \<and> tt_count t' = tt_count t + 1"
  by (auto simp: parse_token_def Let_def split: if_splits option.splits prod.splits)

lemma table_add_count:
  "tt_count t \<le> distinct_tokens_count ctx \<Longrightarrow> ergo_tx_serializer_table_add ctx t b = (res, t', b') \<Longrightarrow>
     (res = ERGO_TX_SERIALIZER_TABLE_RES_OK \<longrightarrow> tt_count t' = distinct_tokens_count ctx) \<and>
     (res = ERGO_TX_SERIALIZER_TABLE_RES_MORE_DATA \<longrightarrow> tt_count t' < distinct_tokens_count ctx)"
proof (induction ctx t b rule: ergo_tx_serializer_table_add.induct)
  case (1 ctx t b)
  show ?case
  proof (cases "buffer_data_len b > 0")
    case True
    obtain r t1 b1 where p: "parse_token b t (distinct_tokens_count ctx) = (r, t1, b1)" by (metis prod_cases3)
    show ?thesis
    proof (cases "r = ERGO_TX_SERIALIZER_TABLE_RES_OK")
      case ok: True
      note c = parse_token_count [OF p [unfolded ok]]
      then have "tt_count t1 \<le> distinct_tokens_count ctx" by (simp add: inc_le)
      then show ?thesis using "1.IH" [OF True p [symmetric]] ok True p "1.prems"(2)
        by (simp add: ergo_tx_serializer_table_add.simps [of ctx t b])
    next
      case False
      have "r \<noteq> ERGO_TX_SERIALIZER_TABLE_RES_MORE_DATA"
        using p by (auto simp: parse_token_def Let_def split: if_splits option.splits prod.splits)
      then show ?thesis using False True p "1.prems"(2) by (simp add: ergo_tx_serializer_table_add.simps [of ctx t b])
    qed
  next
    case False
    then show ?thesis using "1.prems"
      by (auto simp: ergo_tx_serializer_table_add.simps [of ctx t b] ergo_tx_serializer_table_is_finished_def split: if_splits)
  qed
qed

lemma full_exec_tokens:
  assumes "full_state c = ERGO_TX_SERIALIZER_FULL_STATE_TOKENS_STARTED" and "ids_received (c, m) < distinct_tokens_count (full_table_ctx c)"
    and "full_exec cx ub p c m = (r, c', m')"
  shows "full_state c' = ERGO_TX_SERIALIZER_FULL_STATE_ERROR \<or>
     distinct_tokens_count (full_table_ctx c') = distinct_tokens_count (full_table_ctx c) \<and>
     (if full_state c' = ERGO_TX_SERIALIZER_FULL_STATE_TOKENS_STARTED then ids_received (c', m') < distinct_tokens_count (full_table_ctx c)
      else ids_received (c', m') = distinct_tokens_count (full_table_ctx c))"
proof (cases "\<exists>b. p = FullTokens b")
  case True
  then obtain b where b: "p = FullTokens b" by blast
  obtain res t b1 where t: "ergo_tx_serializer_table_add (full_table_ctx c) (tokens_table m) b = (res, t, b1)" by (metis prod_cases3)
  from table_add_count [OF _ t] assms(2) have
    "(res = ERGO_TX_SERIALIZER_TABLE_RES_OK \<longrightarrow> tt_count t = distinct_tokens_count (full_table_ctx c)) \<and>
     (res = ERGO_TX_SERIALIZER_TABLE_RES_MORE_DATA \<longrightarrow> tt_count t < distinct_tokens_count (full_table_ctx c))"
    by (simp add: ids_received_def)
  then show ?thesis using assms(1,3) t b
    by (cases res) (auto simp: ergo_tx_serializer_full_add_tokens_def check_call_data_is_finished_def full_res_error_def ids_received_def)
next
  case False
  then show ?thesis using assms(1,3)
    by (cases p)
      (auto simp: ergo_tx_serializer_full_add_input_def ergo_tx_serializer_full_set_input_callback_def
        ergo_tx_serializer_full_add_input_tokens_def ergo_tx_serializer_full_add_input_context_extension_def
        ergo_tx_serializer_full_add_data_inputs_def ergo_tx_serializer_full_add_box_def
        ergo_tx_serializer_full_set_box_callbacks_def ergo_tx_serializer_full_add_box_ergo_tree_def
        ergo_tx_serializer_full_add_box_change_tree_def ergo_tx_serializer_full_add_box_miners_fee_tree_def
        ergo_tx_serializer_full_add_box_tokens_def ergo_tx_serializer_full_add_box_registers_def full_res_error_def)
qed

subsection \<open>Whole runs\<close>

text \<open>
  The contexts that a sequence of operations goes through, refused operations included, the first one in front; each
  with the memory at that moment.
\<close>

primrec full_trace ::
    "('h, 'x) cx_sdk_scheme \<Rightarrow> ('h, 'z) union_box \<Rightarrow> ('h, 'z) ser_mem_scheme full_op list \<Rightarrow>
     ('h, 'z) ser_mem_scheme full_ctx \<Rightarrow> ('h, 'z) ser_mem_scheme \<Rightarrow> ('h, 'z) full_conf list" where
  "full_trace cx ub [] c m = [(c, m)]"
| "full_trace cx ub (p # ps) c m = (case full_exec cx ub p c m of (r, c', m') \<Rightarrow> (c, m) # full_trace cx ub ps c' m')"

definition full_session ::
    "('h, 'x) cx_sdk_scheme \<Rightarrow> ('h, 'z) union_box \<Rightarrow> u16 \<Rightarrow> u16 \<Rightarrow> u16 \<Rightarrow> u8 \<Rightarrow> ('h, 'z) ser_mem_scheme full_op list \<Rightarrow>
     ('h, 'z) ser_mem_scheme \<Rightarrow> ('h, 'z) full_conf list" where
  "full_session cx ub ic dc oc tc ps m =
     (case ergo_tx_serializer_full_init cx ic dc oc tc m of (r, c, m') \<Rightarrow> full_trace cx ub ps c m')"

lemma full_trace_onward:
  "counts_due c \<Longrightarrow> sorted_wrt onward (map fst (full_trace cx ub ps c m)) \<and>
     list_all (\<lambda>d. onward c d \<and> counts_due d) (map fst (full_trace cx ub ps c m))"
proof (induction ps arbitrary: c m)
  case Nil
  then show ?case by simp
next
  case (Cons p ps)
  obtain r c' m' where e: "full_exec cx ub p c m = (r, c', m')" by (cases "full_exec cx ub p c m") auto
  then have "onward c c'" "counts_due c'" using full_exec_moves [OF Cons.prems, of cx ub p m] by (simp_all add: moves_def)
  with Cons.IH [of c' m'] Cons.prems e show ?case
    by (auto simp: list_all_iff intro: onward_trans)
qed

lemma full_trace_Cons: "\<exists>xs. full_trace cx ub ps c m = (c, m) # xs"
  by (cases ps) (auto split: prod.splits)

lemma token_phase_past:
  "full_state c \<noteq> ERGO_TX_SERIALIZER_FULL_STATE_TOKENS_STARTED \<Longrightarrow>
     full_state c = ERGO_TX_SERIALIZER_FULL_STATE_ERROR \<or> ids_received (c, m) = tc \<Longrightarrow> token_phase tc (full_trace cx ub ps c m)"
  using full_trace_Cons [of cx ub ps c m] by (auto split: ergo_tx_serializer_full_state_e.split)

lemma full_trace_token_phase:
  "full_state c = ERGO_TX_SERIALIZER_FULL_STATE_TOKENS_STARTED \<Longrightarrow> ids_received (c, m) < tc \<Longrightarrow>
     distinct_tokens_count (full_table_ctx c) = tc \<Longrightarrow> token_phase tc (full_trace cx ub ps c m)"
proof (induction ps arbitrary: c m)
  case (Cons p ps)
  obtain r c' m' where e: "full_exec cx ub p c m = (r, c', m')" by (cases "full_exec cx ub p c m") auto
  note s = full_exec_tokens [OF Cons.prems(1) _ e, unfolded Cons.prems(3), OF Cons.prems(2)]
  have "token_phase tc (full_trace cx ub ps c' m')"
  proof (cases "full_state c' = ERGO_TX_SERIALIZER_FULL_STATE_TOKENS_STARTED")
    case True
    then show ?thesis using s Cons.IH [OF True] by simp
  next
    case False
    then show ?thesis using s by (intro token_phase_past) auto
  qed
  then show ?case using Cons.prems e by simp
qed simp

lemma full_init_counts: "counts_due (fst (snd (ergo_tx_serializer_full_init cx ic dc oc tc m)))"
  by (auto simp: ergo_tx_serializer_full_init_def full_res_error_def counts_due_def full_state_order Let_def split: prod.splits)

text \<open>What an initialization announces: the context starts with the counts of the call, and no id has been received.\<close>

definition counts_announced :: "u16 \<Rightarrow> u16 \<Rightarrow> u16 \<Rightarrow> 'm full_ctx \<Rightarrow> bool" where
  "counts_announced ic dc oc c \<longleftrightarrow> full_state c = ERGO_TX_SERIALIZER_FULL_STATE_ERROR \<or>
     full_inputs_count c = ic \<and> full_data_inputs_count c = dc \<and> full_outputs_count c = oc"

lemma full_init_announced:
  assumes "ergo_tx_serializer_full_init cx ic dc oc tc m = (r, c, m')"
  shows "counts_announced ic dc oc c" and "token_phase tc (full_trace cx ub ps c m')"
proof -
  have i: "full_state c = ERGO_TX_SERIALIZER_FULL_STATE_ERROR \<or>
      full_inputs_count c = ic \<and> full_data_inputs_count c = dc \<and> full_outputs_count c = oc \<and>
      distinct_tokens_count (full_table_ctx c) = tc \<and> ids_received (c, m') = 0 \<and>
      full_state c = (if tc = 0 then ERGO_TX_SERIALIZER_FULL_STATE_INPUTS_STARTED else ERGO_TX_SERIALIZER_FULL_STATE_TOKENS_STARTED)"
    using assms by (auto simp: ergo_tx_serializer_full_init_def full_res_error_def Let_def ergo_tx_serializer_table_init_def
        ids_received_def full_res_ok_def full_ctx_zero_def split: prod.splits if_splits)
  then show "counts_announced ic dc oc c" by (auto simp: counts_announced_def)
  show "token_phase tc (full_trace cx ub ps c m')"
  proof (cases "full_state c = ERGO_TX_SERIALIZER_FULL_STATE_TOKENS_STARTED")
    case True
    then have "0 < tc" "ids_received (c, m') < tc" "distinct_tokens_count (full_table_ctx c) = tc"
      using i by (auto simp: word_gt_0 split: if_splits)
    then show ?thesis by (intro full_trace_token_phase True)
  next
    case False
    then show ?thesis using i by (intro token_phase_past) (auto split: if_splits)
  qed
qed

text \<open>
  C17. A transaction passes its phases in order: in the contexts that any sequence of operations goes through after any
  initialization, accepted or refused, the states only go up and the counters only go down, so none of them wraps around
  and no phase is entered twice. The counters start at the announced numbers, unless the initialization failed. As long as
  the token phase lasts, fewer ids than announced have been received, and at the moment it is left, without an error, the
  table holds exactly the announced number of ids. Unless an error has ended the transaction, the inputs and the outputs are all
  counted off exactly when their phase has been passed, and the data inputs exactly when the outputs have begun: a finished
  transaction has nothing left to receive.
\<close>

theorem transaction_phases_in_order:
  "sorted_wrt (\<lambda>c d. full_state c \<le> full_state d \<and> full_inputs_count d \<le> full_inputs_count c \<and>
       full_data_inputs_count d \<le> full_data_inputs_count c \<and> full_outputs_count d \<le> full_outputs_count c)
     (map fst (full_session cx ub ic dc oc tc ps m)) \<and>
   list_all counts_due (map fst (full_session cx ub ic dc oc tc ps m)) \<and>
   counts_announced ic dc oc (fst (hd (full_session cx ub ic dc oc tc ps m))) \<and>
   token_phase tc (full_session cx ub ic dc oc tc ps m)"
proof -
  obtain r c m' where i: "ergo_tx_serializer_full_init cx ic dc oc tc m = (r, c, m')"
    by (cases "ergo_tx_serializer_full_init cx ic dc oc tc m") auto
  then have "counts_due c" using full_init_counts [of cx ic dc oc tc m] by simp
  from full_trace_onward [OF this, of cx ub ps m'] full_init_announced [OF i] full_trace_Cons [of cx ub ps c m'] show ?thesis
    by (auto simp: full_session_def i list_all_iff onward_def [abs_def])
qed

end
