(* ===== verification/TestHash.thy ===== *)
theory TestHash
  imports Blake2bRef Blake2b
begin

text \<open>
  The hash library of the unit tests, \<^verbatim>\<open>unit-tests/utils/cx.c\<close> and \<^verbatim>\<open>cx.h\<close>: the functions of the
  device's library that the application calls, on top of \<^verbatim>\<open>blake2b-ref.c\<close>. Its context records the
  data it has hashed, which is how the unit tests compare it. The context a handle points to is a part of the handle,
  because no two handles share one; \<open>malloc\<close> is taken to succeed.

  \<open>test_hash\<close> is the type of the handles that the library makes: data and hash state agree. On it the library has the
  laws that the serializers rely on, \<open>cx_absorbs\<close>, and its digest is BLAKE2b-256 of the data.
\<close>

definition BUFFER_SIZE :: size_t where "BUFFER_SIZE = 65535"
definition CX_BLAKE2B :: u32 where "CX_BLAKE2B = 9"

record b2b_context =
  hashed_data :: bytes
  hashed_data_offset :: size_t
  b2b_state :: blake2b_state

record cx_blake2b_s =
  md_type :: u32
  output_size :: size_t
  b2b_ctx :: b2b_context

text \<open>The error code, the handle, and what is stored through \<open>out\<close>, an array of \<open>out_len\<close> bytes.\<close>

definition blake2_hash :: "cx_blake2b_s \<Rightarrow> u32 \<Rightarrow> bytes \<Rightarrow> size_t \<Rightarrow> bytes \<Rightarrow> size_t \<Rightarrow> u32 \<times> cx_blake2b_s \<times> bytes" where
  "blake2_hash hash mode inp len out out_len =
     (let c = b2b_ctx hash in
      if BUFFER_SIZE - hashed_data_offset c < len then (- 1, hash, out)
      else let c1 = c\<lparr>hashed_data := mem_write (hashed_data c) (unat (hashed_data_offset c)) (take (unat len) inp)\<rparr>;
               c2 = c1\<lparr>hashed_data_offset := hashed_data_offset c1 + len\<rparr> in
      case blake2b_ref_update (b2b_state c2) inp len of (e, S) \<Rightarrow>
        let c3 = c2\<lparr>b2b_state := S\<rparr> in
        if e \<noteq> 0 then (- 1, hash\<lparr>b2b_ctx := c3\<rparr>, out)
        else if mode AND CX_LAST \<noteq> 0 then
          (case blake2b_ref_final (b2b_state c3) (Some out) out_len of (e2, S2, out2) \<Rightarrow>
             let c4 = c3\<lparr>b2b_state := S2\<rparr>; o2 = the out2 in
             if e2 \<noteq> 0 then (- 1, hash\<lparr>b2b_ctx := c4\<rparr>, o2)
             else if mode AND CX_NO_REINIT \<noteq> 0 then (0, hash\<lparr>b2b_ctx := c4\<rparr>, o2)
             else let c5 = c4\<lparr>hashed_data := replicate (unat BUFFER_SIZE) 0, hashed_data_offset := 0\<rparr> in
               (case blake2b_ref_init (output_size hash div 8) of
                  None \<Rightarrow> (- 1, hash\<lparr>b2b_ctx := c5\<rparr>, o2)
                | Some S5 \<Rightarrow> (0, hash\<lparr>b2b_ctx := c5\<lparr>b2b_state := S5\<rparr>\<rparr>, o2)))
        else (0, hash\<lparr>b2b_ctx := c3\<rparr>, out))"

definition test_blake2b_init :: "cx_blake2b_s \<Rightarrow> size_t \<Rightarrow> u32 \<times> cx_blake2b_s" where
  "test_blake2b_init hash out_len =
     (case blake2b_ref_init (out_len div 8) of
        None \<Rightarrow> (- 1, hash)
      | Some S \<Rightarrow> (0, hash\<lparr>b2b_ctx := \<lparr>hashed_data = replicate (unat BUFFER_SIZE) 0, hashed_data_offset = 0, b2b_state = S\<rparr>,
                         md_type := CX_BLAKE2B, output_size := out_len\<rparr>))"

definition test_hash_no_throw :: "cx_blake2b_s \<Rightarrow> u32 \<Rightarrow> bytes \<Rightarrow> size_t \<Rightarrow> bytes \<Rightarrow> size_t \<Rightarrow> u32 \<times> cx_blake2b_s \<times> bytes" where
  "test_hash_no_throw hash mode inp len out out_len =
     (if md_type hash = CX_BLAKE2B then blake2_hash hash mode inp len out out_len else (- 1, hash, out))"

definition test_blake2b_256_hash :: "bytes \<Rightarrow> size_t \<Rightarrow> bytes \<Rightarrow> bytes option" where
  "test_blake2b_256_hash data len out = blake2b_ref (Some out) CX_BLAKE2B_256_SIZE (Some data) len (Some []) 0"

definition cx_blake2b_get_data :: "cx_blake2b_s \<Rightarrow> bytes \<times> size_t" where
  "cx_blake2b_get_data hash = (hashed_data (b2b_ctx hash), hashed_data_offset (b2b_ctx hash))"

text \<open>What has been hashed.\<close>

definition test_absorbed :: "cx_blake2b_s \<Rightarrow> bytes" where
  "test_absorbed hash = (case cx_blake2b_get_data hash of (data, len) \<Rightarrow> take (unat len) data)"

subsection \<open>The invariant of a handle\<close>

definition test_hash_ok :: "cx_blake2b_s \<Rightarrow> bool" where
  "test_hash_ok hash \<longleftrightarrow>
     length (hashed_data (b2b_ctx hash)) = 65535 \<and> length (bs_f (b2b_state (b2b_ctx hash))) = 2 \<and> unat (hashed_data_offset (b2b_ctx hash)) \<le> 65535 \<and>
     output_size hash div 8 = bs_outlen (b2b_state (b2b_ctx hash)) \<and>
     0 < bs_outlen (b2b_state (b2b_ctx hash)) \<and> bs_outlen (b2b_state (b2b_ctx hash)) \<le> BLAKE2B_OUTBYTES \<and>
     (bs_f (b2b_state (b2b_ctx hash)) ! 0 = 0 \<longrightarrow>
        b2_repr (b2_start (ucast (bs_outlen (b2b_state (b2b_ctx hash)))) 0) (b2b_state (b2b_ctx hash)) (test_absorbed hash))"

lemma compress_rest [simp]:
  "bs_f (blake2b_compress S b) = bs_f S" "bs_outlen (blake2b_compress S b) = bs_outlen S" "bs_buflen (blake2b_compress S b) = bs_buflen S"
  "bs_last_node (blake2b_compress S b) = bs_last_node S"
  by (simp_all add: blake2b_compress_def Let_def)

lemma increment_rest [simp]:
  "bs_f (blake2b_increment_counter S n) = bs_f S" "bs_outlen (blake2b_increment_counter S n) = bs_outlen S"
  by (simp_all add: blake2b_increment_counter_def Let_def)

lemma loop_rest: "blake2b_update_loop S inp n = (S', inp', n') \<Longrightarrow> bs_f S' = bs_f S \<and> bs_outlen S' = bs_outlen S"
proof (induction S inp n rule: blake2b_update_loop.induct)
  case (1 S inp n)
  show ?case using 1 blake2b_update_loop.simps [of S inp n] by (cases "n > BLAKE2B_BLOCKBYTES") auto
qed

lemma update_rest: "blake2b_ref_update S inp n = (e, S') \<Longrightarrow> e = 0 \<and> bs_f S' = bs_f S \<and> bs_outlen S' = bs_outlen S"
  by (auto simp: blake2b_ref_update_def Let_def split: if_splits prod.splits dest!: loop_rest)

lemma final_rest: "blake2b_ref_final S out n = (0, S', out') \<Longrightarrow> bs_f S' ! 0 = - 1 \<or> bs_f S = []"
  by (cases "bs_f S")
    (auto simp: blake2b_ref_final_def Let_def blake2b_set_lastblock_def blake2b_set_lastnode_def split: if_splits)

lemma final_outlen: "blake2b_ref_final S out n = (e, S', out') \<Longrightarrow> bs_outlen S' = bs_outlen S"
  by (auto simp: blake2b_ref_final_def Let_def blake2b_set_lastblock_def blake2b_set_lastnode_def split: if_splits)

definition hash_updated :: "cx_blake2b_s \<Rightarrow> bytes \<Rightarrow> size_t \<Rightarrow> cx_blake2b_s" where
  "hash_updated hash inp len =
     hash\<lparr>b2b_ctx := (b2b_ctx hash)
       \<lparr>hashed_data := mem_write (hashed_data (b2b_ctx hash)) (unat (hashed_data_offset (b2b_ctx hash))) (take (unat len) inp),
        hashed_data_offset := hashed_data_offset (b2b_ctx hash) + len,
        b2b_state := snd (blake2b_ref_update (b2b_state (b2b_ctx hash)) inp len)\<rparr>\<rparr>"

lemma hash_updated_ok:
  assumes "test_hash_ok hash" and "length inp = unat len" and "\<not> BUFFER_SIZE - hashed_data_offset (b2b_ctx hash) < len"
  shows "test_hash_ok (hash_updated hash inp len) \<and> test_absorbed (hash_updated hash inp len) = test_absorbed hash @ inp"
proof -
  let ?c = "b2b_ctx hash"
  obtain e S where u: "blake2b_ref_update (b2b_state ?c) inp len = (e, S)" by (cases "blake2b_ref_update (b2b_state ?c) inp len")
  note r = update_rest [OF u]
  have ok: "length (hashed_data ?c) = 65535" "unat (hashed_data_offset ?c) \<le> 65535" using assms(1) by (simp_all add: test_hash_ok_def)
  then have "hashed_data_offset ?c \<le> BUFFER_SIZE" by (simp add: BUFFER_SIZE_def word_le_nat_alt)
  from word_sub_le_unat [OF this] assms(3) ok(2)
  have le: "unat (hashed_data_offset ?c) + unat len \<le> 65535" by (simp add: BUFFER_SIZE_def not_less word_le_nat_alt)
  then have n: "unat (hashed_data_offset ?c + len) = unat (hashed_data_offset ?c) + unat len" by (intro word_add_no_wrap) simp
  have a: "test_absorbed (hash_updated hash inp len) = test_absorbed hash @ inp"
    using le ok(1) assms(2) take_mem_write_all [of "unat (hashed_data_offset ?c)" inp "hashed_data ?c"]
    by (simp add: test_absorbed_def cx_blake2b_get_data_def hash_updated_def n)
  have "b2_repr h0 S (test_absorbed hash @ inp)" if "b2_repr h0 (b2b_state ?c) (test_absorbed hash)" for h0
    using update_repr [OF that assms(2) u] by simp
  then show ?thesis using a assms(1,2) le n r u
    by (auto simp: test_hash_ok_def [of "hash_updated hash inp len"] a) (auto simp: test_hash_ok_def hash_updated_def)
qed

lemma blake2_hash_eq:
  "blake2_hash hash mode inp len out out_len =
     (if BUFFER_SIZE - hashed_data_offset (b2b_ctx hash) < len then (- 1, hash, out)
      else let h = hash_updated hash inp len in
        if mode AND CX_LAST = 0 then (0, h, out)
        else case blake2b_ref_final (b2b_state (b2b_ctx h)) (Some out) out_len of (e2, S2, out2) \<Rightarrow>
          let h2 = h\<lparr>b2b_ctx := (b2b_ctx h)\<lparr>b2b_state := S2\<rparr>\<rparr> in
          if e2 \<noteq> 0 then (- 1, h2, the out2)
          else if mode AND CX_NO_REINIT \<noteq> 0 then (0, h2, the out2)
          else case test_blake2b_init h2 (output_size hash) of (e, h3) \<Rightarrow>
            (if e = 0 then (0, h3\<lparr>md_type := md_type hash\<rparr>, the out2)
             else (- 1, h2\<lparr>b2b_ctx := (b2b_ctx h2)\<lparr>hashed_data := replicate (unat BUFFER_SIZE) 0, hashed_data_offset := 0\<rparr>\<rparr>, the out2)))"
proof -
  obtain e S where u: "blake2b_ref_update (b2b_state (b2b_ctx hash)) inp len = (e, S)"
    by (cases "blake2b_ref_update (b2b_state (b2b_ctx hash)) inp len")
  have "e = 0" using update_rest [OF u] by simp
  then show ?thesis using u
    by (auto simp: blake2_hash_def hash_updated_def test_blake2b_init_def Let_def split: prod.splits option.splits)
qed

lemma test_init_ok:
  assumes "test_blake2b_init hash n = (0, h)"
  shows "test_hash_ok h \<and> test_absorbed h = []"
proof -
  have n: "0 < n div 8" "n div 8 \<le> BLAKE2B_OUTBYTES"
    using assms by (auto simp: test_blake2b_init_def blake2b_ref_init_def word_gt_0 not_less split: if_splits)
  obtain S where S: "blake2b_ref_init (n div 8) = Some S" "b2_repr (b2_start (ucast (n div 8)) 0) S []" "bs_outlen S = n div 8"
    using ref_init [OF n] by blast
  have "bs_f S = [0, 0]" using S(2) by (auto simp: b2_repr_def split: prod.splits)
  then show ?thesis using assms S n
    by (auto simp: test_blake2b_init_def test_hash_ok_def test_absorbed_def cx_blake2b_get_data_def BUFFER_SIZE_def)
qed

lemma test_hash_ok_final:
  assumes "test_hash_ok h" and "blake2b_ref_final (b2b_state (b2b_ctx h)) (Some out) n = (e, S, out')"
  shows "test_hash_ok (h\<lparr>b2b_ctx := (b2b_ctx h)\<lparr>b2b_state := S\<rparr>\<rparr>)"
proof (cases "e = 0")
  case True
  have f: "length (bs_f (b2b_state (b2b_ctx h))) = 2" using assms(1) by (simp add: test_hash_ok_def)
  have "bs_f S ! 0 = - 1" using final_rest [OF assms(2) [unfolded True]] f by auto
  moreover have "length (bs_f S) = 2"
    using assms(2) f by (auto simp: blake2b_ref_final_def Let_def blake2b_set_lastblock_def blake2b_set_lastnode_def split: if_splits)
  ultimately show ?thesis using assms(1) final_outlen [OF assms(2)] by (simp add: test_hash_ok_def)
next
  case False
  then have "S = b2b_state (b2b_ctx h)" using assms(2) by (auto simp: blake2b_ref_final_def Let_def split: if_splits)
  then show ?thesis using assms(1) by simp
qed

lemma test_init_unfailing:
  assumes "test_hash_ok h" and "test_blake2b_init h' (output_size h) = (e, h3)"
  shows "e = 0"
  using assms ref_init [of "output_size h div 8"] by (auto simp: test_hash_ok_def test_blake2b_init_def)

lemma test_hash_no_throw_ok:
  assumes "test_hash_ok h" and "length inp = unat len" and "test_hash_no_throw h mode inp len out n = (e, h', out')"
  shows "test_hash_ok h'"
proof (cases "md_type h = CX_BLAKE2B \<and> \<not> BUFFER_SIZE - hashed_data_offset (b2b_ctx h) < len")
  case False
  then have "h' = h" using assms(3) by (auto simp: test_hash_no_throw_def blake2_hash_eq split: if_splits)
  then show ?thesis using assms(1) by simp
next
  case True
  let ?u = "hash_updated h inp len"
  have u: "test_hash_ok ?u" using hash_updated_ok [OF assms(1,2)] True by simp
  obtain e2 S2 out2 where f: "blake2b_ref_final (b2b_state (b2b_ctx ?u)) (Some out) n = (e2, S2, out2)" by (metis prod_cases3)
  let ?h2 = "?u\<lparr>b2b_ctx := (b2b_ctx ?u)\<lparr>b2b_state := S2\<rparr>\<rparr>"
  have h2: "test_hash_ok ?h2" by (rule test_hash_ok_final [OF u f])
  obtain e3 h3 where i: "test_blake2b_init ?h2 (output_size h) = (e3, h3)" by (cases "test_blake2b_init ?h2 (output_size h)")
  have e3: "e3 = 0" by (rule test_init_unfailing [OF assms(1) i])
  have h3: "test_hash_ok (h3\<lparr>md_type := t\<rparr>)" for t
    using test_init_ok [OF i [unfolded e3]] by (simp add: test_hash_ok_def test_absorbed_def cx_blake2b_get_data_def)
  show ?thesis using True assms(3) u h2 h3 e3
    by (auto simp: test_hash_no_throw_def blake2_hash_eq Let_def f i split: if_splits)
qed

subsection \<open>The library on its handles\<close>

typedef test_hash = "{h. test_hash_ok h}"
proof -
  have z: "0 < (256 :: size_t) div 8" "(256 :: size_t) div 8 \<le> BLAKE2B_OUTBYTES" by (simp_all add: b2_sizes)
  obtain S where "blake2b_ref_init (256 div 8) = Some S" using ref_init [OF z] by blast
  then have "\<exists>h'. test_blake2b_init h 256 = (0, h')" for h by (simp add: test_blake2b_init_def)
  then obtain h' where "test_blake2b_init undefined 256 = (0, h')" by blast
  then show ?thesis using test_init_ok by blast
qed

setup_lifting type_definition_test_hash

lift_definition hash_init :: "test_hash \<Rightarrow> size_t \<Rightarrow> u32 \<times> test_hash" is test_blake2b_init
proof -
  fix h n assume h: "test_hash_ok h"
  obtain e h' where i: "test_blake2b_init h n = (e, h')" by (cases "test_blake2b_init h n")
  have "e = 0 \<or> h' = h" using i by (auto simp: test_blake2b_init_def split: option.splits)
  then have "test_hash_ok h'" using h test_init_ok i by blast
  then show "pred_prod top test_hash_ok (test_blake2b_init h n)" by (simp add: i)
qed

text \<open>The wrapper passes the whole list as its data; the output is cleared memory.\<close>

lift_definition hash_no_throw :: "test_hash \<Rightarrow> u32 \<Rightarrow> bytes \<Rightarrow> size_t \<Rightarrow> u32 \<times> test_hash \<times> bytes" is
  "\<lambda>h mode data n. if length data < 2 ^ 32 then test_hash_no_throw h mode data (of_nat (length data)) (replicate (unat n) 0) n
                   else (- 1, h, replicate (unat n) 0)"
proof -
  fix h mode data n assume h: "test_hash_ok h"
  have l: "length data < 2 ^ 32 \<Longrightarrow> length data = unat (of_nat (length data) :: size_t)" for data :: bytes by (simp add: unat_of_nat_small)
  obtain e h' out where t: "test_hash_no_throw h mode data (of_nat (length data)) (replicate (unat n) 0) n = (e, h', out)" by (metis prod_cases3)
  show "pred_prod top (pred_prod test_hash_ok top)
      (if length data < 2 ^ 32 then test_hash_no_throw h mode data (of_nat (length data)) (replicate (unat n) 0) n
       else (- 1, h, replicate (unat n) 0))"
    using h test_hash_no_throw_ok [OF h l t] by (simp add: t)
qed

lift_definition hash_absorbed :: "test_hash \<Rightarrow> bytes" is test_absorbed .

definition test_cx :: "test_hash cx_sdk" where
  "test_cx = \<lparr>cx_blake2b_init_no_throw = hash_init, cx_hash_no_throw = hash_no_throw,
     cx_blake2b_256_hash = (\<lambda>data. case test_blake2b_256_hash data (of_nat (length data)) (replicate 32 0) of
        None \<Rightarrow> (- 1, replicate 32 0) | Some out \<Rightarrow> (0, out))\<rparr>"

text \<open>The calls of the library, on the structures behind the handles.\<close>

lemma Rep_ok [simp]: "test_hash_ok (Rep_test_hash h)"
  using Rep_test_hash by simp

lemma hash_init_rep: "hash_init h n = (e, h') \<Longrightarrow> test_blake2b_init (Rep_test_hash h) n = (e, Rep_test_hash h')"
  using hash_init.rep_eq [of h n] by simp

lemma hash_no_throw_rep:
  assumes "hash_no_throw h mode data n = (0, h', out)"
  shows "length data < 2 ^ 32 \<and>
     test_hash_no_throw (Rep_test_hash h) mode data (of_nat (length data)) (replicate (unat n) 0) n = (0, Rep_test_hash h', out)"
  using assms hash_no_throw.rep_eq [of h mode data n] by (auto split: if_splits)

lemma test_cx_init: "cx_blake2b_init_no_throw test_cx h n = (CX_OK, h') \<Longrightarrow>
    hash_absorbed h' = [] \<and> output_size (Rep_test_hash h') = n"
proof -
  assume "cx_blake2b_init_no_throw test_cx h n = (CX_OK, h')"
  then have "hash_init h n = (0, h')" by (simp add: test_cx_def CX_OK_def)
  from hash_init_rep [OF this] have i: "test_blake2b_init (Rep_test_hash h) n = (0, Rep_test_hash h')" .
  then have "output_size (Rep_test_hash h') = n" by (auto simp: test_blake2b_init_def dest: sym split: option.splits)
  with test_init_ok [OF i] show ?thesis by (simp add: hash_absorbed.rep_eq)
qed

lemma test_cx_update:
  assumes "hash_absorb test_cx h data h'"
  shows "hash_absorbed h' = hash_absorbed h @ data \<and> output_size (Rep_test_hash h') = output_size (Rep_test_hash h)"
proof -
  let ?h = "Rep_test_hash h" and ?n = "of_nat (length data) :: size_t"
  obtain out where o: "hash_no_throw h 0 data 0 = (0, h', out)" using assms by (auto simp: hash_absorb_def test_cx_def CX_OK_def)
  from hash_no_throw_rep [OF o]
  have t: "length data < 2 ^ 32" "test_hash_no_throw ?h 0 data ?n [] 0 = (0, Rep_test_hash h', out)" by auto
  then have l: "length data = unat ?n" by (simp add: unat_of_nat_small)
  from t(2) have "\<not> BUFFER_SIZE - hashed_data_offset (b2b_ctx ?h) < ?n" "Rep_test_hash h' = hash_updated ?h data ?n"
    by (auto simp: test_hash_no_throw_def blake2_hash_eq split: if_splits)
  with hash_updated_ok [OF Rep_ok [of h] l] show ?thesis
    by (simp add: hash_absorbed.rep_eq) (simp add: hash_updated_def)
qed

lemma ucast_32: "ucast (32 :: size_t) = (32 :: u8)"
  by simp

lemma test_cx_final:
  assumes "output_size (Rep_test_hash h) = 256"
    and "cx_hash_no_throw test_cx h (CX_LAST OR CX_NO_REINIT) [] 32 = (CX_OK, h', out)"
  shows "out = b2_hash 32 [] (hash_absorbed h)"
proof -
  let ?h = "Rep_test_hash h"
  have "hash_no_throw h (CX_LAST OR CX_NO_REINIT) [] 32 = (0, h', out)" using assms(2) by (simp add: test_cx_def CX_OK_def)
  from hash_no_throw_rep [OF this]
  have t: "test_hash_no_throw ?h (CX_LAST OR CX_NO_REINIT) [] 0 (replicate 32 0) 32 = (0, Rep_test_hash h', out)" by simp
  have "\<not> BUFFER_SIZE - hashed_data_offset (b2b_ctx ?h) < 0" by simp
  note u = hash_updated_ok [OF Rep_ok [of h] _ this, of "[]", simplified]
  let ?S = "b2b_state (b2b_ctx (hash_updated ?h [] 0))"
  have ol: "bs_outlen ?S = 32" using u assms(1) by (simp add: test_hash_ok_def hash_updated_def)
  have m: "(CX_LAST OR CX_NO_REINIT) AND CX_LAST \<noteq> 0" "(CX_LAST OR CX_NO_REINIT) AND CX_NO_REINIT \<noteq> 0"
    by (simp_all add: CX_LAST_def CX_NO_REINIT_def)
  obtain e2 S2 out2 where f: "blake2b_ref_final ?S (Some (replicate 32 0)) 32 = (e2, S2, out2)" by (metis prod_cases3)
  have e2: "e2 = 0" "out = the out2"
    using t m by (auto simp: test_hash_no_throw_def blake2_hash_eq Let_def f split: if_splits)
  then have "bs_f ?S ! 0 = 0" using f by (auto simp: blake2b_ref_final_def blake2b_is_lastblock_def split: if_splits)
  then have r: "b2_repr (b2_start 32 0) ?S (test_absorbed ?h)"
    using u ol unfolding test_hash_ok_def [of "hash_updated ?h [] 0"] by (metis ucast_32)
  have "length (take 32 (concat (map store64 (b2_last (b2_absorb (b2_start 32 0) 0 (test_absorbed ?h)))))) = 32"
    by (simp add: length_b2_digest)
  with final_repr [OF r, of 32 "replicate 32 0"] f e2 ol show ?thesis
    by (simp add: b2_hash_unkeyed mem_write_def hash_absorbed.rep_eq)
qed

end
