(* ===== verification/BoxId.thy ===== *)
theory BoxId
  imports TxSerBox TestHash
begin

text \<open>
  The id of a box: the BLAKE2b-256 digest of its serialization, the id of its transaction and its index there. The
  interface \<open>digest_provider\<close> is what a client relies on when it starts a hash, updates it and finishes it; \<open>live\<close>
  marks the contexts that were started for 256 bits. The library of the unit tests provides it, with the
  digest of RFC 7693.
\<close>

locale digest_provider =
  fixes cx :: "('h, 'x) cx_sdk_scheme" and ab :: "'h \<Rightarrow> bytes" and live :: "'h \<Rightarrow> bool" and H :: "bytes \<Rightarrow> bytes"
  assumes absorbs: "cx_absorbs cx ab"
    and init_live: "cx_blake2b_init_no_throw cx h 256 = (CX_OK, h') \<Longrightarrow> live h'"
    and update_live: "hash_absorb cx h data h' \<Longrightarrow> live h' = live h"
    and digest: "live h \<Longrightarrow> cx_hash_no_throw cx h (CX_LAST OR CX_NO_REINIT) [] CX_BLAKE2B_256_SIZE = (CX_OK, h', out) \<Longrightarrow>
      out = H (ab h)"
begin

lemma finalize_digest: "blake2b_256_finalize cx h = (True, h', out) \<Longrightarrow> live h \<Longrightarrow> out = H (ab h)"
  using digest [of h h' out] by (auto simp: blake2b_256_finalize_def split: prod.splits)

lemma init_start: "blake2b_256_init cx h = (True, h') \<Longrightarrow> live h' \<and> ab h' = []"
  using init_live [of h h'] blake2b_init_absorbs [OF absorbs] by (auto simp: blake2b_256_init_def split: prod.splits)

text \<open>A context that is not live keeps a mark in front of what it has absorbed.\<close>

lemma marked_absorbs: "cx_absorbs cx (\<lambda>h. (if live h then [] else [0]) @ ab h)"
  using absorbs init_live update_live by (auto simp: cx_absorbs_def)

lemma box_hashed_live:
  assumes "live (hash_ctx m0)"
    and "ergo_tx_serializer_box_init cx v tree_size height count regs m0 = (ERGO_TX_SERIALIZER_BOX_RES_OK, c0, m1)"
    and "c1 = ergo_tx_serializer_box_set_callbacks c0 f g k" and "box_cbs_frame c1"
    and "\<forall>p \<in> set ps. box_op_wf p"
    and "box_run cx ps c1 m1 = Some (c, m)" and "ergo_tx_serializer_box_is_finished c"
  shows "live (hash_ctx m) \<and> ab (hash_ctx m) = ab (hash_ctx m0) @
      box_bytes v (concat (map op_tree ps)) height count (concat (map op_tokens ps)) regs (concat (map op_registers ps))"
  using box_hashed [OF absorbs assms(2-7)] box_hashed [OF marked_absorbs assms(2-7)] assms(1)
  by (simp split: if_splits)

lemma id_hash_digest:
  assumes "live (hash_ctx m)" and "length tx_id = 32"
    and "ergo_tx_serializer_box_id_hash cx c m tx_id box_index box_id = ((ERGO_TX_SERIALIZER_BOX_RES_OK, c', m'), out)"
  shows "out = H (ab (hash_ctx m) @ tx_id @ vlq (unat box_index))"
proof -
  obtain b where b: "gve_put_u16 (rw_buffer_new_local_empty 4) box_index = (GVE_OK, b)"
    "take (unat (rw_buffer_data_len b)) (rw_buffer_read_ptr b) = vlq (unat box_index)"
    using local_u16 [of 4 box_index] by auto
  have n: "take (unat ERGO_ID_LEN) tx_id = tx_id" using assms(2) by (simp add: ERGO_ID_LEN_def)
  obtain h1 h2 h3 where h: "hash_absorb cx (hash_ctx m) tx_id h1" "hash_absorb cx h1 (vlq (unat box_index)) h2"
    "blake2b_256_finalize cx h2 = (True, h3, out)"
    using assms(3) b n unfolding ergo_tx_serializer_box_id_hash_def
    by (auto simp: box_res_error_def mem_update_True split: if_splits prod.splits)
  have "ab h2 = ab (hash_ctx m) @ tx_id @ vlq (unat box_index)" "live h2"
    using h(1,2) absorbs update_live assms(1) by (auto simp: cx_absorbs_def)
  with finalize_digest [OF h(3)] show ?thesis by simp
qed

end

subsection \<open>Providers\<close>

interpretation unit_tests: digest_provider test_cx hash_absorbed "\<lambda>h. output_size (Rep_test_hash h) = 256" "b2_hash 32 []"
proof unfold_locales
  show "cx_absorbs test_cx hash_absorbed"
    using test_cx_init test_cx_update by (auto simp: cx_absorbs_def)
qed (use test_cx_init test_cx_update test_cx_final in \<open>auto simp: CX_BLAKE2B_256_SIZE_def\<close>)

interpretation recorded: digest_provider cx_record "\<lambda>h. h" "\<lambda>h. True" "take 32"
  by unfold_locales (rule cx_record_absorbs, auto simp: cx_record_def CX_BLAKE2B_256_SIZE_def)

text \<open>
  C9. The id of a box. With any hash library that absorbs what it is updated with and finishes with a digest \<open>H\<close> of
  it, a box that was started, initialised, filled by any sequence of accepted chunks, finished and hashed gets
  the id \<open>H\<close> of exactly its serialization, the id of its transaction and the variable-length code of its index.
\<close>

theorem box_id_correct:
  assumes "digest_provider cx ab live H"
    and "ergo_tx_serializer_box_id_hash_init cx h = (True, hash_ctx m0)"
    and "ergo_tx_serializer_box_init cx v tree_size height count regs m0 = (ERGO_TX_SERIALIZER_BOX_RES_OK, c0, m1)"
    and "c1 = ergo_tx_serializer_box_set_callbacks c0 f g k" and "box_cbs_frame c1"
    and "\<forall>p \<in> set ps. box_op_wf p"
    and "box_run cx ps c1 m1 = Some (c, m)" and "ergo_tx_serializer_box_is_finished c" and "length tx_id = 32"
    and "ergo_tx_serializer_box_id_hash cx c m tx_id box_index box_id = ((ERGO_TX_SERIALIZER_BOX_RES_OK, c', m'), out)"
  shows "out = H (box_bytes v (concat (map op_tree ps)) height count (concat (map op_tokens ps)) regs (concat (map op_registers ps)) @
     tx_id @ vlq (unat box_index))"
proof -
  have s: "live (hash_ctx m0)" "ab (hash_ctx m0) = []"
    using digest_provider.init_start [OF assms(1)] assms(2) by (auto simp: ergo_tx_serializer_box_id_hash_init_def)
  from digest_provider.box_hashed_live [OF assms(1) s(1) assms(3-8)] s(2)
    digest_provider.id_hash_digest [OF assms(1) _ assms(9,10)]
  show ?thesis by simp
qed

text \<open>
  Witness: with the recording library the digest is the first 32 bytes; the box of the witness above, in transaction
  \<open>1, 1, \<dots>\<close> at index 300.
\<close>

definition demo_tx_id :: bytes where "demo_tx_id = replicate 32 1"

theorem box_id_correct_witness:
  "\<exists>c m c' m'. box_run cx_record demo_box_ops (ergo_tx_serializer_box_set_callbacks (fst (snd demo_box)) None None None)
       (snd (snd demo_box)) = Some (c, m) \<and>
     ergo_tx_serializer_box_id_hash cx_record c m demo_tx_id 300 [] =
       ((ERGO_TX_SERIALIZER_BOX_RES_OK, c', m'), take 32 ([0xAC, 2] @ [1, 2, 3] @ [5] @ [1] @ demo_id 9 @ [7] @ [1, 4] @ demo_tx_id @ [0xAC, 2]))"
proof -
  let ?c0 = "fst (snd demo_box)" and ?m1 = "snd (snd demo_box)"
  let ?c1 = "ergo_tx_serializer_box_set_callbacks ?c0 None None None"
  let ?r = "box_run cx_record demo_box_ops ?c1 ?m1"
  have st: "ergo_tx_serializer_box_id_hash_init cx_record [] = (True, hash_ctx demo_mem)" by code_simp
  have "fst demo_box = ERGO_TX_SERIALIZER_BOX_RES_OK" by code_simp
  then have i: "ergo_tx_serializer_box_init cx_record 300 3 5 1 2 demo_mem = (ERGO_TX_SERIALIZER_BOX_RES_OK, ?c0, ?m1)"
    by (metis demo_box_def prod.collapse)
  have "?r \<noteq> None" by code_simp
  then have r: "?r = Some (fst (the ?r), snd (the ?r))" by auto
  let ?h = "ergo_tx_serializer_box_id_hash cx_record (fst (the ?r)) (snd (the ?r)) demo_tx_id 300 []"
  have fin: "ergo_tx_serializer_box_is_finished (fst (the ?r))" by code_simp
  have wf: "\<forall>p \<in> set demo_box_ops. box_op_wf p" by code_simp
  have fr: "box_cbs_frame ?c1" by (simp add: box_cbs_frame_def ergo_tx_serializer_box_set_callbacks_def)
  have "fst (fst ?h) = ERGO_TX_SERIALIZER_BOX_RES_OK" by code_simp
  then have h: "?h = ((ERGO_TX_SERIALIZER_BOX_RES_OK, fst (snd (fst ?h)), snd (snd (fst ?h))), snd ?h)"
    by (metis prod.collapse)
  have l: "length demo_tx_id = 32" by (simp add: demo_tx_id_def)
  have "snd ?h = take 32 (box_bytes 300 (concat (map op_tree demo_box_ops)) 5 1 (concat (map op_tokens demo_box_ops)) 2
      (concat (map op_registers demo_box_ops)) @ demo_tx_id @ vlq (unat (300 :: u16)))"
    by (rule box_id_correct [OF recorded.digest_provider_axioms st i refl fr wf r fin l h])
  moreover have "box_bytes 300 (concat (map op_tree demo_box_ops)) 5 1 (concat (map op_tokens demo_box_ops)) 2
      (concat (map op_registers demo_box_ops)) @ demo_tx_id @ vlq (unat (300 :: u16)) =
      [0xAC, 2] @ [1, 2, 3] @ [5] @ [1] @ demo_id 9 @ [7] @ [1, 4] @ demo_tx_id @ [0xAC, 2]" by code_simp
  ultimately show ?thesis using r h by metis
qed

end
