(* ===== verification/HashFrame.thy ===== *)
theory HashFrame
  imports TxSerBox
begin

text \<open>
  Which part of its memory the box serializer writes itself: the hash context. Everything else of the memory changes
  only in the callbacks, so a relation between memories that the callbacks keep is kept by every operation. The locale
  states this once; its interpretations are the relation \<open>only_hash\<close> for callbacks that are not installed, and the sizes of
  the arrays of a signing session (\<^verbatim>\<open>SessionTypes\<close>).
\<close>

definition only_hash :: "('h, 'z) ser_mem_scheme \<Rightarrow> ('h, 'z) ser_mem_scheme \<Rightarrow> bool" where
  "only_hash m m' \<longleftrightarrow> (\<exists>h. m' = m\<lparr>hash_ctx := h\<rparr>)"

lemma only_hash_refl [simp]: "only_hash m m"
  unfolding only_hash_def by (rule exI [of _ "hash_ctx m"]) simp

lemma only_hash_trans: "only_hash m m1 \<Longrightarrow> only_hash m1 m2 \<Longrightarrow> only_hash m m2"
  by (auto simp: only_hash_def)

lemma only_hash_update: "mem_update cx m data n = (ok, m') \<Longrightarrow> only_hash m m'"
  by (auto simp: mem_update_def only_hash_def split: prod.splits)

lemma only_hash_height: "add_height_and_token_count cx c m = (r, c', m') \<Longrightarrow> only_hash m m'"
  by (auto simp: add_height_and_token_count_def box_res_error_def split: prod.splits if_splits
      dest!: only_hash_update intro: only_hash_trans)

lemma only_hash_registers_count: "add_empty_registers_count cx c m = (r, c', m') \<Longrightarrow> only_hash m m'"
  by (auto simp: add_empty_registers_count_def box_res_error_def split: prod.splits if_splits dest!: only_hash_update)

lemma only_hash_init: "ergo_tx_serializer_box_init cx v tree_size height count regs m = (r, c, m') \<Longrightarrow> only_hash m m'"
  by (auto simp: ergo_tx_serializer_box_init_def box_res_error_def Let_def split: if_splits prod.splits dest: only_hash_update)

lemma callbacks_same:
  "add_height_and_token_count cx c m = (r, c', m') \<Longrightarrow> box_callbacks c' = box_callbacks c"
  "add_empty_registers_count cx c m = (r, c', m') \<Longrightarrow> box_callbacks c' = box_callbacks c"
  by (auto simp: add_height_and_token_count_def add_empty_registers_count_def box_res_error_def split: prod.splits if_splits)

subsection \<open>Relations that the callbacks keep\<close>

locale box_frame =
  fixes keep :: "('h, 'z) ser_mem_scheme \<Rightarrow> ('h, 'z) ser_mem_scheme \<Rightarrow> bool"
    and installed :: "('h, 'z) ser_mem_scheme ergo_tx_serializer_box_callbacks_t \<Rightarrow> bool"
  assumes keep_hash: "only_hash m m' \<Longrightarrow> keep m m'"
    and keep_trans: "keep m m1 \<Longrightarrow> keep m1 m2 \<Longrightarrow> keep m m2"
    and keep_type: "installed cb \<Longrightarrow> on_type cb = Some f \<Longrightarrow> keep m (snd (f t v m))"
    and keep_finished: "installed cb \<Longrightarrow> on_finished cb = Some k \<Longrightarrow> keep m (snd (k t m))"
begin

lemma keep_refl: "keep m m"
  by (simp add: keep_hash)

lemma finished:
  assumes "box_finished c m = (r, c', m')" and "installed (box_callbacks c)"
  shows "keep m m'"
  using assms keep_finished [OF assms(2)] keep_refl
  by (auto simp: box_finished_def box_res_error_def split_beta split: if_splits option.splits)

lemma tree_added:
  assumes "ergo_tree_added cx c m = (r, c', m')" and "installed (box_callbacks c)"
  shows "keep m m'"
proof -
  obtain r1 m1 where ty: "(case on_type (box_callbacks c) of None \<Rightarrow> (ERGO_TX_SERIALIZER_BOX_RES_OK, m)
      | Some cb \<Rightarrow> cb (box_type c) (box_value c) m) = (r1, m1)" by (metis surj_pair)
  have 1: "keep m m1"
    using ty keep_type [OF assms(2), of _ m "box_type c" "box_value c"] keep_refl by (auto split: option.splits)
  obtain r2 c2 m2 where h: "add_height_and_token_count cx c m1 = (r2, c2, m2)" by (metis prod_cases3)
  have 2: "keep m1 m2" "installed (box_callbacks c2)"
    using only_hash_height [OF h] callbacks_same(1) [OF h] assms(2) by (simp_all add: keep_hash)
  let ?c3 = "c2\<lparr>box_state := ERGO_TX_SERIALIZER_BOX_STATE_TOKENS_ADDED\<rparr>"
  obtain r4 c4 m4 where e: "add_empty_registers_count cx ?c3 m2 = (r4, c4, m4)" by (metis prod_cases3)
  have 4: "keep m2 m4" "installed (box_callbacks c4)"
    using only_hash_registers_count [OF e] callbacks_same(2) [OF e] 2(2) by (simp_all add: keep_hash)
  obtain r5 c5 m5 where f: "box_finished c4 m4 = (r5, c5, m5)" by (metis prod_cases3)
  have "m' = m1 \<or> m' = m2 \<or> m' = m4 \<or> m' = m5"
    using assms(1) ty h e f by (auto simp: ergo_tree_added_def box_res_error_def Let_def split: if_splits)
  then show ?thesis using 1 2(1) 4(1) finished [OF f 4(2)] keep_trans by metis
qed

lemma tree:
  assumes "ergo_tx_serializer_box_add_tree cx c m b = (r, c', m', b')" and "installed (box_callbacks c)"
  shows "keep m m'"
proof -
  obtain ok m1 where u: "mem_update cx m (buffer_read_ptr b) (buffer_data_len b) = (ok, m1)" by (metis surj_pair)
  let ?c1 = "c\<lparr>box_ergo_tree_size := box_ergo_tree_size c - buffer_data_len b\<rparr>"
  obtain r2 c2 m2 where t: "ergo_tree_added cx (?c1\<lparr>box_type := ERGO_TX_SERIALIZER_BOX_TYPE_TREE\<rparr>) m1 = (r2, c2, m2)" by (metis prod_cases3)
  have q: "installed (box_callbacks (?c1\<lparr>box_type := ERGO_TX_SERIALIZER_BOX_TYPE_TREE\<rparr>))" using assms(2) by simp
  have "m' = m \<or> m' = m1 \<or> m' = m2"
    using assms(1) u t by (auto simp: ergo_tx_serializer_box_add_tree_def box_res_error_def Let_def split: if_splits prod.splits)
  then show ?thesis using keep_hash [OF only_hash_update [OF u]] tree_added [OF t q] keep_trans keep_refl by metis
qed

lemma fee_tree:
  assumes "ergo_tx_serializer_box_add_miners_fee_tree cx c m mainnet = (r, c', m')" and "installed (box_callbacks c)"
  shows "keep m m'"
proof -
  obtain tr n ok m1 where u: "ergo_tree_miners_fee_tree mainnet = (tr, n)" "mem_update cx m tr n = (ok, m1)" by (metis surj_pair)
  obtain r2 c2 m2 where t: "ergo_tree_added cx (c\<lparr>box_type := ERGO_TX_SERIALIZER_BOX_TYPE_FEE\<rparr>) m1 = (r2, c2, m2)" by (metis prod_cases3)
  have "m' = m \<or> m' = m1 \<or> m' = m2"
    using assms(1) u t by (auto simp: ergo_tx_serializer_box_add_miners_fee_tree_def box_res_error_def split: if_splits)
  moreover have "keep m1 m2" by (rule tree_added [OF t]) (use assms(2) in simp)
  ultimately show ?thesis using keep_hash [OF only_hash_update [OF u(2)]] keep_trans keep_refl by metis
qed

lemma change_tree:
  assumes "ergo_tx_serializer_box_add_change_tree cx c m raw = (r, c', m')" and "installed (box_callbacks c)"
  shows "keep m m'"
proof -
  obtain ok m1 where u: "mem_update cx m (ergo_tree_generate_p2pk raw (replicate (unat ERGO_TREE_P2PK_LEN) 0)) ERGO_TREE_P2PK_LEN = (ok, m1)"
    by (metis surj_pair)
  obtain r2 c2 m2 where t: "ergo_tree_added cx (c\<lparr>box_type := ERGO_TX_SERIALIZER_BOX_TYPE_CHANGE\<rparr>) m1 = (r2, c2, m2)" by (metis prod_cases3)
  have "m' = m \<or> m' = m1 \<or> m' = m2"
    using assms(1) u t by (auto simp: ergo_tx_serializer_box_add_change_tree_def box_res_error_def Let_def split: if_splits)
  moreover have "keep m1 m2" by (rule tree_added [OF t]) (use assms(2) in simp)
  ultimately show ?thesis using keep_hash [OF only_hash_update [OF u]] keep_trans keep_refl by metis
qed

lemma registers:
  assumes "ergo_tx_serializer_box_add_registers cx c m b = (r, c', m', b')" and "installed (box_callbacks c)"
  shows "keep m m'"
proof -
  obtain ok m1 where u: "mem_update cx m (buffer_read_ptr b) (buffer_data_len b) = (ok, m1)" by (metis surj_pair)
  let ?c1 = "c\<lparr>box_registers_size := box_registers_size c - buffer_data_len b\<rparr>"
  obtain r2 c2 m2 where f: "box_finished ?c1 m1 = (r2, c2, m2)" by (metis prod_cases3)
  have "m' = m \<or> m' = m1 \<or> m' = m2"
    using assms(1) u f by (auto simp: ergo_tx_serializer_box_add_registers_def box_res_error_def Let_def split: if_splits prod.splits)
  moreover have "keep m1 m2" by (rule finished [OF f]) (use assms(2) in simp)
  ultimately show ?thesis using keep_hash [OF only_hash_update [OF u]] keep_trans keep_refl by metis
qed

end

text \<open>The same with the tokens of a box.\<close>

locale box_token_frame = box_frame +
  assumes keep_token: "installed cb \<Longrightarrow> on_token cb = Some f \<Longrightarrow> keep m (snd (f t i v m))"
begin

lemma token_step:
  assumes "box_token_step cx c m buffer input table = Inr (c', m', buffer', input')" and "installed (box_callbacks c)"
  shows "keep m m' \<and> box_callbacks c' = box_callbacks c"
proof -
  obtain tid m1 b1 i1 where i: "box_token_id cx c m buffer input table = Inr (tid, m1, b1, i1)"
    using assms(1) by (auto simp: box_token_step_def split: if_splits sum.splits)
  have "only_hash m m1"
    using i by (auto simp: box_token_id_def split: option.splits prod.splits if_splits dest!: only_hash_update)
  then have 1: "keep m m1" by (rule keep_hash)
  obtain v i2 where v: "buffer_read_u64 i1 BE = (Some v, i2)"
    using assms(1) i by (auto simp: box_token_step_def split: if_splits option.splits prod.splits)
  obtain g b2 where g: "gve_put_u64 (rw_buffer_empty b1) v = (g, b2)" by (metis surj_pair)
  obtain ok m2 where u: "mem_update cx m1 (rw_buffer_read_ptr b2) (rw_buffer_data_len b2) = (ok, m2)" by (metis surj_pair)
  have 2: "keep m1 m2" by (rule keep_hash [OF only_hash_update [OF u]])
  have m': "m' = snd (case on_token (box_callbacks c) of None \<Rightarrow> (ERGO_TX_SERIALIZER_BOX_RES_OK, m2) | Some cb \<Rightarrow> cb (box_type c) tid v m2)"
    and c': "box_callbacks c' = box_callbacks c"
    using assms(1) i v g u by (auto simp: box_token_step_def split: if_splits prod.splits)
  have "keep m2 m'" using m' keep_token [OF assms(2)] keep_refl by (simp split: option.splits)
  then show ?thesis using 1 2 c' keep_trans by blast
qed

lemma tokens_loop:
  assumes "box_tokens_loop cx c m buffer input table = Inr (c', m', input')" and "installed (box_callbacks c)"
  shows "keep m m' \<and> box_callbacks c' = box_callbacks c"
  using assms
proof (induction cx c m buffer input table rule: box_tokens_loop.induct)
  case (1 cx c m buffer input table)
  show ?case
  proof (cases "buffer_data_len input > 0")
    case False
    then show ?thesis using "1.prems"(1) by (simp add: box_tokens_loop.simps [of cx c m buffer input table] keep_refl)
  next
    case True
    then obtain c1 m1 b1 i1 where st: "box_token_step cx c m buffer input table = Inr (c1, m1, b1, i1)"
      and r: "box_tokens_loop cx c1 m1 b1 i1 table = Inr (c', m', input')"
      using "1.prems"(1) unfolding box_tokens_loop.simps [of cx c m buffer input table] by (auto split: sum.splits)
    note s = token_step [OF st "1.prems"(2)]
    from "1.IH" [OF True st refl refl refl r] s "1.prems"(2) keep_trans show ?thesis by simp metis
  qed
qed

lemma tokens:
  assumes "ergo_tx_serializer_box_add_tokens cx c m b table = (r, c', m', b')" and "box_res_ok r" and "installed (box_callbacks c)"
  shows "keep m m'"
proof -
  let ?l = "box_tokens_loop cx c m (rw_buffer_new_local_empty 10) b table"
  have st: "box_state c = ERGO_TX_SERIALIZER_BOX_STATE_TREE_ADDED"
    using assms(1,2) by (auto simp: ergo_tx_serializer_box_add_tokens_def box_res_error_def box_res_ok_def Let_def split: if_splits)
  then obtain c2 m2 b2 where lp: "?l = Inr (c2, m2, b2)"
    using assms(1,2) box_tokens_loop_Inl [of cx c m "rw_buffer_new_local_empty 10" b table]
    by (cases ?l) (auto simp: ergo_tx_serializer_box_add_tokens_def Let_def)
  note t = tokens_loop [OF lp assms(3)]
  obtain r3 c3 m3 where e: "add_empty_registers_count cx c2 m2 = (r3, c3, m3)" by (metis prod_cases3)
  obtain r4 c4 m4 where f: "box_finished c3 m3 = (r4, c4, m4)" by (metis prod_cases3)
  have "installed (box_callbacks c3)" using t callbacks_same(2) [OF e] assms(3) by simp
  note k = t keep_hash [OF only_hash_registers_count [OF e]] finished [OF f this]
  have "m' = m2 \<or> m' = m3 \<or> m' = m4"
    using assms(1) st lp e f by (auto simp: ergo_tx_serializer_box_add_tokens_def box_res_error_def Let_def split: if_splits)
  then show ?thesis using k keep_trans by metis
qed

end

text \<open>Without callbacks for the type and the end of a box, only the hash changes.\<close>

interpretation quiet: box_frame only_hash "\<lambda>cb. on_type cb = None \<and> on_finished cb = None"
  by unfold_locales (auto intro: only_hash_trans)

definition quiet_callbacks :: "'m box_ctx \<Rightarrow> bool" where
  "quiet_callbacks c \<longleftrightarrow> on_type (box_callbacks c) = None \<and> on_finished (box_callbacks c) = None"

lemma only_hash_finished:
  "box_finished c m = (r, c', m') \<Longrightarrow> on_finished (box_callbacks c) = None \<Longrightarrow> only_hash m m'"
  by (auto simp: box_finished_def box_res_error_def split: if_splits)

lemmas only_hash_tree = quiet.tree [folded quiet_callbacks_def]
lemmas only_hash_registers = quiet.registers [folded quiet_callbacks_def]

end
