(* ===== verification/AttestBox.thy ===== *)
theory AttestBox
  imports AttestFrame BoxId HashFrame
begin

text \<open>
  What an attestation means. The context of the command is followed from an accepted initialization to the
  finished box: the bytes that the serializer has hashed and the amounts and tokens that its callback has stored
  are the same box.
\<close>

subsection \<open>The tokens in memory\<close>

definition att_tokens :: "'h ainpt_mem \<Rightarrow> (bytes \<times> u64) list" where
  "att_tokens m = map (\<lambda>i. (tt_tokens (tokens_table m) ! i, token_amounts m ! i)) [0..<unat (tt_count (tokens_table m))]"

definition att_wf :: "'h ainpt_mem \<Rightarrow> bool" where
  "att_wf m \<longleftrightarrow> unat (tt_count (tokens_table m)) \<le> 100 \<and> length (tt_tokens (tokens_table m)) = 100 \<and> length (token_amounts m) = 100 \<and>
     (\<forall>(i, v)\<in>set (att_tokens m). length i = 32) \<and> distinct (map fst (att_tokens m))"

text \<open>The tokens of a box as they are serialized, and as they arrive.\<close>

definition tokens_bytes :: "(bytes \<times> u64) list \<Rightarrow> bytes" where
  "tokens_bytes ts = concat (map (\<lambda>(i, v). i @ vlq (unat v)) ts)"

definition token_of :: "bytes \<Rightarrow> bytes \<times> u64" where
  "token_of e = (take 32 e, word_of_be (take 8 (drop 32 e)) 0)"

lemma token_parts_bytes: "concat (token_parts None e) = tokens_bytes [token_of e]"
  by (simp add: token_parts_def tokens_bytes_def token_of_def)

lemma tokens_bytes_append [simp]: "tokens_bytes (ts @ us) = tokens_bytes ts @ tokens_bytes us"
  by (simp add: tokens_bytes_def)

lemma token_parts_chunks: "concat (concat (map (token_parts None) es)) = tokens_bytes (map token_of es)"
proof (induction es)
  case (Cons e es)
  then show ?case using tokens_bytes_append [of "[token_of e]" "map token_of es"] by (simp add: token_parts_bytes)
qed (simp add: tokens_bytes_def)

lemma att_tokens_hash [simp]: "att_tokens (m\<lparr>hash_ctx := h\<rparr>) = att_tokens m" "att_wf (m\<lparr>hash_ctx := h\<rparr>) = att_wf m"
  by (simp_all add: att_tokens_def att_wf_def)

text \<open>The callback appends a token, or refuses it.\<close>

lemma token_cb:
  assumes "ainpt_box_token_cb t i v m = (r, m')" and "box_res_ok r" and "att_wf m" and "length i = 32"
  shows "att_wf m' \<and> att_tokens m' = att_tokens m @ [(i, v)] \<and> hash_ctx m' = hash_ctx m"
proof -
  let ?tt = "tokens_table m" let ?n = "unat (tt_count ?tt)"
  have n: "\<not> tt_count ?tt \<ge> TOKEN_MAX_COUNT"
    and new: "\<not> (\<exists>k\<in>{0..<?n}. memcmp_eq i (tt_tokens ?tt ! k) (unat ERGO_ID_LEN))"
    and m': "m' = m\<lparr>tokens_table := ?tt\<lparr>tt_tokens := (tt_tokens ?tt)[?n := i], tt_count := tt_count ?tt + 1\<rparr>,
       token_amounts := (token_amounts m)[?n := v]\<rparr>"
    using assms(1,2) unfolding ainpt_box_token_cb_def Let_def by (auto split: if_splits)
  have lt: "?n < 100" using n by (simp add: TOKEN_MAX_COUNT_def word_le_nat_alt)
  then have u: "unat (tt_count ?tt + 1) = Suc ?n" by (subst word_add_no_wrap) simp_all
  have len: "length (tt_tokens ?tt) = 100" "length (token_amounts m) = 100" using assms(3) by (simp_all add: att_wf_def)
  have at: "att_tokens m' = att_tokens m @ [(i, v)]"
    using lt len by (auto simp: att_tokens_def m' u nth_list_update)
  have "i \<notin> set (map fst (att_tokens m))"
  proof
    assume "i \<in> set (map fst (att_tokens m))"
    then obtain k where k: "k < ?n" "i = tt_tokens ?tt ! k" by (auto simp: att_tokens_def)
    then show False using new by (auto simp: memcmp_eq_def)
  qed
  with at lt assms(3,4) len u show ?thesis by (auto simp: att_wf_def at) (auto simp: m')
qed

lemma token_step_memory:
  assumes "box_token_step cx c m buffer input None = Inr (c', m', buffer', input')"
    and "on_token (box_callbacks c) = Some ainpt_box_token_cb" and "att_wf m" and "buffer_wf input" and "rw_wf buffer" "rw_size buffer = 10"
  shows "att_wf m' \<and> att_tokens m' = att_tokens m @ [token_of (take 40 (buffer_data input))]"
proof -
  let ?d = "buffer_data input"
  obtain tid m1 buffer1 input1 where i: "box_token_id cx c m buffer input None = Inr (tid, m1, buffer1, input1)"
    using assms(1) by (auto simp: box_token_step_def split: if_splits sum.splits)
  then obtain h where h: "tid = take 32 ?d" "length tid = 32" "m1 = m\<lparr>hash_ctx := h\<rparr>"
    using assms(4) by (auto simp: box_token_id_def buf_simps ERGO_ID_LEN_def mem_update_True split: prod.splits if_splits)
  have 1: "32 \<le> length ?d" "buffer_wf input1" "buffer_data input1 = drop 32 ?d"
    using box_token_id_trace [OF i assms(4-6)] by auto
  have "8 \<le> length (drop 32 ?d)"
    using assms(1) i 1 by (auto simp: box_token_step_def buffer_read_u64_be_eq split: if_splits)
  then have rd: "buffer_read_u64 input1 BE = (Some (word_of_be (take 8 (drop 32 ?d)) 0), buffer_skip input1 8)"
    using 1 by (simp add: buffer_read_u64_be_eq)
  let ?v = "word_of_be (take 8 (drop 32 ?d)) 0 :: u64"
  obtain h2 r where cb: "ainpt_box_token_cb (box_type c) tid ?v (m1\<lparr>hash_ctx := h2\<rparr>) = (r, m')" "box_res_ok r"
    using assms(1,2) i rd by (auto simp: box_token_step_def mem_update_True split: if_splits prod.splits)
  have "att_wf (m1\<lparr>hash_ctx := h2\<rparr>)" "att_tokens (m1\<lparr>hash_ctx := h2\<rparr>) = att_tokens m" using assms(3) h(3) by simp_all
  with token_cb [OF cb _ h(2)] h(1) show ?thesis by (simp add: token_of_def drop_take)
qed

lemma tokens_loop_memory:
  assumes "box_tokens_loop cx c m buffer input None = Inr (c', m', input')"
    and "on_token (box_callbacks c) = Some ainpt_box_token_cb" and "att_wf m" and "buffer_wf input" and "rw_wf buffer" "rw_size buffer = 10"
    and "box_cbs_frame c"
  shows "att_wf m' \<and> att_tokens m' = att_tokens m @ map token_of (chunks 40 (buffer_data input))"
  using assms
proof (induction cx c m buffer input "None :: ergo_tx_serializer_table_context_t option" rule: box_tokens_loop.induct)
  case (1 cx c m buffer input)
  note run = "1.prems"(1) [unfolded box_tokens_loop.simps [of cx c m buffer input None]]
  show ?case
  proof (cases "buffer_data input = []")
    case True
    then have "buffer_data_len input = 0" using "1.prems"(4) by (simp add: buffer_data_empty_iff)
    with run True "1.prems"(3) show ?thesis by (simp add: chunks.simps)
  next
    case False
    then have pos: "0 < buffer_data_len input" using "1.prems"(4) by (simp add: buffer_data_empty_iff word_neq_0_conv)
    then obtain c1 m1 buffer1 input1 where st: "box_token_step cx c m buffer input None = Inr (c1, m1, buffer1, input1)"
      and r: "box_tokens_loop cx c1 m1 buffer1 input1 None = Inr (c', m', input')"
      using run by (auto split: sum.splits)
    note t = box_token_step_trace [OF st "1.prems"(4-7)]
    note s = token_step_memory [OF st "1.prems"(2-6)]
    have w: "token_width (None :: ergo_tx_serializer_table_context_t option) = 40" by (simp add: token_width_def)
    have c1: "on_token (box_callbacks c1) = Some ainpt_box_token_cb" "box_cbs_frame c1"
      using t(7) "1.prems"(2,7) by (simp_all add: box_cbs_frame_def)
    have ch: "chunks 40 (buffer_data input) = take 40 (buffer_data input) # chunks 40 (drop 40 (buffer_data input))"
      using t(1) unfolding w by (subst chunks.simps) simp
    from "1.hyps" [OF pos st refl refl refl r c1(1) _ t(2,4,5) c1(2)] s t(3)
    show ?thesis unfolding w ch by simp
  qed
qed

lemma only_hash_att: "only_hash m m' \<Longrightarrow> att_tokens m' = att_tokens m \<and> att_wf m' = att_wf m"
  by (auto simp: only_hash_def)

lemma add_tokens_memory:
  assumes "ergo_tx_serializer_box_add_tokens cx c m b None = (r, c', m', b')" and "box_res_ok r" and "buffer_wf b"
    and "quiet_callbacks c" and "on_token (box_callbacks c) = Some ainpt_box_token_cb" and "att_wf m" and "box_cbs_frame c"
  shows "att_wf m' \<and> att_tokens m' = att_tokens m @ map token_of (chunks 40 (buffer_data b))"
proof -
  let ?l = "box_tokens_loop cx c m (rw_buffer_new_local_empty 10) b None"
  have st: "box_state c = ERGO_TX_SERIALIZER_BOX_STATE_TREE_ADDED"
    using assms(1,2) by (auto simp: ergo_tx_serializer_box_add_tokens_def Let_def split: if_splits)
  then obtain c2 m2 b2 where lp: "?l = Inr (c2, m2, b2)"
    using assms(1,2) box_tokens_loop_Inl [of cx c m "rw_buffer_new_local_empty 10" b None]
    by (cases ?l) (auto simp: ergo_tx_serializer_box_add_tokens_def Let_def)
  have b0: "rw_wf (rw_buffer_new_local_empty 10)" "rw_size (rw_buffer_new_local_empty 10) = 10" by (simp_all add: wf_intros buf_simps)
  note t = tokens_loop_memory [OF lp assms(5,6,3) b0 assms(7)]
  have cb: "box_callbacks c2 = box_callbacks c" using box_tokens_loop_trace [OF lp assms(3) b0 assms(7)] by simp
  obtain r3 c3 m3 where e: "add_empty_registers_count cx c2 m2 = (r3, c3, m3)" by (metis prod_cases3)
  obtain r4 c4 m4 where f: "box_finished c3 m3 = (r4, c4, m4)" by (metis prod_cases3)
  have q: "on_finished (box_callbacks c3) = None" using callbacks_same(2) [OF e] cb assms(4) by (simp add: quiet_callbacks_def)
  have "m' = m2 \<or> m' = m3 \<or> m' = m4"
    using assms(1) st lp e f by (auto simp: ergo_tx_serializer_box_add_tokens_def box_res_error_def Let_def split: if_splits)
  then have "only_hash m2 m'" using only_hash_registers_count [OF e] only_hash_finished [OF f q] only_hash_trans only_hash_refl by metis
  with t only_hash_att show ?thesis by metis
qed

subsection \<open>An open box and an attested box\<close>

definition box_open :: "('h \<Rightarrow> bytes) \<Rightarrow> ('h \<Rightarrow> bool) \<Rightarrow> 'h attest_input_ctx_t \<Rightarrow> bool" where
  "box_open ab live c \<longleftrightarrow> live (hash_ctx (ai_mem c)) \<and> length (ai_box_id c) = 32 \<and> att_wf (ai_mem c) \<and>
     box_callbacks (ai_box c) = \<lparr>on_type = None, on_token = Some ainpt_box_token_cb, on_finished = None\<rparr> \<and>
     (\<exists>height count regs a. box_inv [] (box_value (ai_box c)) height count regs a (ab (hash_ctx (ai_mem c))) (ai_box c) \<and>
        acc_tokens a = tokens_bytes (att_tokens (ai_mem c)) \<and> acc_count a = length (att_tokens (ai_mem c)))"

text \<open>The id of the context is the digest of a box with its value and its tokens, of a transaction and an index there.\<close>

definition box_attested :: "(bytes \<Rightarrow> bytes) \<Rightarrow> 'h attest_input_ctx_t \<Rightarrow> bool" where
  "box_attested H c \<longleftrightarrow> att_wf (ai_mem c) \<and>
     (\<exists>tree height count regs regs_bytes tx_id index. length tx_id = 32 \<and> unat count = length (att_tokens (ai_mem c)) \<and>
        length regs_bytes = unat regs \<and>
        ai_box_id c = H (box_bytes (box_value (ai_box c)) tree height count (tokens_bytes (att_tokens (ai_mem c))) regs regs_bytes @
          tx_id @ vlq (unat (index :: u16))))"

lemma box_inv_hash: "box_inv base v height count regs a h c \<Longrightarrow> box_inv base v height count regs a h' c \<Longrightarrow> h = h'"
  by (auto simp: box_inv_def split: ergo_tx_serializer_box_state_e.splits)

lemma cb_frame:
  assumes "box_callbacks c = \<lparr>on_type = None, on_token = Some ainpt_box_token_cb, on_finished = None\<rparr>"
  shows "box_cbs_frame c"
  using assms by (auto simp: box_cbs_frame_def ainpt_box_token_cb_def Let_def)

definition attest_op :: "box_op \<Rightarrow> bool" where
  "attest_op p \<longleftrightarrow> (\<exists>b. buffer_wf b \<and> (p = BoxTree b \<or> p = BoxTokens b None \<or> p = BoxRegisters b))"

lemma attest_op_memory:
  assumes "attest_op p" and "box_exec cx p c m = (r, c', m')" and "box_res_ok r" and "att_wf m"
    and "box_callbacks c = \<lparr>on_type = None, on_token = Some ainpt_box_token_cb, on_finished = None\<rparr>"
  shows "\<exists>ts. att_wf m' \<and> att_tokens m' = att_tokens m @ ts \<and> op_tokens p = tokens_bytes ts \<and> op_token_count p = length ts"
proof -
  have q: "quiet_callbacks c" "on_token (box_callbacks c) = Some ainpt_box_token_cb" using assms(5) by (simp_all add: quiet_callbacks_def)
  obtain b where b: "buffer_wf b" "p = BoxTree b \<or> p = BoxTokens b None \<or> p = BoxRegisters b"
    using assms(1) by (auto simp: attest_op_def)
  have e: "tokens_bytes [] = []" by (simp add: tokens_bytes_def)
  from b(2) show ?thesis
  proof (elim disjE)
    assume p: "p = BoxTree b"
    then have "only_hash m m'" using assms(2) only_hash_tree [OF _ q(1)] by (auto split: prod.splits)
    then show ?thesis using only_hash_att assms(4) e p by (intro exI [of _ "[]"]) auto
  next
    assume p: "p = BoxRegisters b"
    then have "only_hash m m'" using assms(2) only_hash_registers [OF _ q(1)] by (auto split: prod.splits)
    then show ?thesis using only_hash_att assms(4) e p by (intro exI [of _ "[]"]) auto
  next
    assume p: "p = BoxTokens b None"
    then obtain b' where a: "ergo_tx_serializer_box_add_tokens cx c m b None = (r, c', m', b')" using assms(2) by (auto split: prod.splits)
    have w: "token_width (None :: ergo_tx_serializer_table_context_t option) = 40" by (simp add: token_width_def)
    note t = box_add_tokens_trace [OF a assms(3) b(1) cb_frame [OF assms(5)], unfolded w]
    have "length (chunks 40 d) = length d div 40" if "length d mod 40 = 0" for d :: bytes
      using that by (simp add: length_chunks)
    then show ?thesis
      using add_tokens_memory [OF a assms(3) b(1) q assms(4) cb_frame [OF assms(5)]] t p w
      by (intro exI [of _ "map token_of (chunks 40 (buffer_data b))"]) (simp add: token_parts_chunks)
  qed
qed

context digest_provider
begin

lemma box_open_exec:
  assumes "box_open ab live c" and "attest_op p" and "box_exec cx p (ai_box c) (ai_mem c) = (r, bx, m)" and "box_res_ok r"
  shows "box_open ab live (c\<lparr>ai_box := bx, ai_mem := m\<rparr>)"
proof -
  let ?mark = "\<lambda>h. (if live h then [] else [0]) @ ab h"
  obtain height count regs a where i: "box_inv [] (box_value (ai_box c)) height count regs a (ab (hash_ctx (ai_mem c))) (ai_box c)"
    and a: "acc_tokens a = tokens_bytes (att_tokens (ai_mem c))" "acc_count a = length (att_tokens (ai_mem c))"
    and l: "live (hash_ctx (ai_mem c))" "length (ai_box_id c) = 32" "att_wf (ai_mem c)"
    and cb: "box_callbacks (ai_box c) = \<lparr>on_type = None, on_token = Some ainpt_box_token_cb, on_finished = None\<rparr>"
    using assms(1) by (auto simp: box_open_def)
  have wf: "box_op_wf p" using assms(2) by (auto simp: attest_op_def)
  note s = box_exec_inv [OF absorbs i assms(3,4) wf cb_frame [OF cb]]
  have "box_inv [] (box_value (ai_box c)) height count regs a (?mark (hash_ctx (ai_mem c))) (ai_box c)" using i l(1) by simp
  note s2 = box_exec_inv [OF marked_absorbs this assms(3,4) wf cb_frame [OF cb]]
  have live: "live (hash_ctx m)" using box_inv_hash [OF conjunct1 [OF s] conjunct1 [OF s2]] by (simp split: if_splits)
  obtain ts where m: "att_wf m" "att_tokens m = att_tokens (ai_mem c) @ ts" "op_tokens p = tokens_bytes ts" "op_token_count p = length ts"
    using attest_op_memory [OF assms(2,3,4) l(3) cb] by blast
  have v: "box_value bx = box_value (ai_box c)" using s by (simp add: box_inv_def)
  have "box_inv [] (box_value bx) height count regs (acc_op a p) (ab (hash_ctx m)) bx" using s v by simp
  moreover have "acc_tokens (acc_op a p) = tokens_bytes (att_tokens m)" "acc_count (acc_op a p) = length (att_tokens m)"
    using a m by (simp_all add: acc_op_def)
  ultimately show ?thesis using live l(2) m(1) s cb by (auto simp: box_open_def)
qed

lemma box_open_finish:
  assumes "box_open ab live c"
    and "ergo_tx_serializer_box_id_hash cx (ai_box c) (ai_mem c) (ai_box_id c) (ai_box_index c) box_id = ((r, bx, m), out)" and "box_res_ok r"
  shows "box_attested H (c\<lparr>ai_box := bx, ai_mem := m, ai_box_id := out, ai_state := s\<rparr>)"
proof -
  have st: "box_state (ai_box c) = ERGO_TX_SERIALIZER_BOX_STATE_FINISHED"
    using assms(2,3) by (auto simp: ergo_tx_serializer_box_id_hash_def box_res_error_def split: if_splits)
  obtain height count regs a where i: "box_inv [] (box_value (ai_box c)) height count regs a (ab (hash_ctx (ai_mem c))) (ai_box c)"
    and a: "acc_tokens a = tokens_bytes (att_tokens (ai_mem c))" "acc_count a = length (att_tokens (ai_mem c))"
    and l: "live (hash_ctx (ai_mem c))" "length (ai_box_id c) = 32" "att_wf (ai_mem c)"
    using assms(1) by (auto simp: box_open_def)
  have r: "r = ERGO_TX_SERIALIZER_BOX_RES_OK" "only_hash (ai_mem c) m" "box_value bx = box_value (ai_box c)"
    using assms(2,3) unfolding ergo_tx_serializer_box_id_hash_def
    by (auto simp: box_res_error_def only_hash_def mem_update_True split: if_splits prod.splits)
  have "out = H (ab (hash_ctx (ai_mem c)) @ ai_box_id c @ vlq (unat (ai_box_index c)))"
    by (rule id_hash_digest [OF l(1,2) assms(2) [unfolded r(1)]])
  moreover have "ab (hash_ctx (ai_mem c)) =
      box_bytes (box_value (ai_box c)) (acc_tree a) height count (tokens_bytes (att_tokens (ai_mem c))) regs (acc_registers a)"
    "unat count = length (att_tokens (ai_mem c))" "length (acc_registers a) = unat regs"
    using i st a by (simp_all add: box_inv_def)
  ultimately show ?thesis using l only_hash_att [OF r(2)] r(3) unfolding box_attested_def by (auto intro!: exI)
qed

end

subsection \<open>The command\<close>

definition attest_ok :: "('h \<Rightarrow> bytes) \<Rightarrow> ('h \<Rightarrow> bool) \<Rightarrow> (bytes \<Rightarrow> bytes) \<Rightarrow> 'h attest_input_ctx_t \<Rightarrow> bool" where
  "attest_ok ab live H c \<longleftrightarrow>
     (case ai_state c of
        ATTEST_INPUT_STATE_INITIALIZED \<Rightarrow> box_open ab live c
      | ATTEST_INPUT_STATE_APPROVED \<Rightarrow> box_open ab live c
      | ATTEST_INPUT_STATE_FINISHED \<Rightarrow> box_attested H c
      | ATTEST_INPUT_STATE_ERROR \<Rightarrow> True)"

definition attest_inv :: "('h \<Rightarrow> bytes) \<Rightarrow> ('h \<Rightarrow> bool) \<Rightarrow> (bytes \<Rightarrow> bytes) \<Rightarrow> ('h, 'y) app \<Rightarrow> bool" where
  "attest_inv ab live H g \<longleftrightarrow> (app_current_command g = CMD_ATTEST_INPUT_BOX \<longrightarrow> attest_ok ab live H (the_ainpt g))"

text \<open>What the invariant looks at, and the calls that leave it alone.\<close>

definition att_view :: "('h, 'y) app \<Rightarrow> command_e \<times> 'h commands_ctx_t" where
  "att_view g = (app_current_command g, commands_ctx g)"

lemma attest_inv_view: "att_view g' = att_view g \<Longrightarrow> attest_inv ab live H g' = attest_inv ab live H g"
  by (simp add: attest_inv_def att_view_def the_ainpt_def)

lemma view_same [simp]:
  "att_view (io_send r g) = att_view g" "att_view (app_set_ui_busy b g) = att_view g" "att_view (put_step s i g) = att_view g"
  "att_view (app_set_connected_app_id i' g) = att_view g" "att_view (show_page pg g) = att_view g"
  "att_view (res_ok g) = att_view g" "att_view (res_deny g) = att_view g" "att_view (res_ui_busy g) = att_view g"
  "att_view (res_error e g) = att_view g" "att_view (res_ok_data d g) = att_view g"
  by (simp_all add: att_view_def io_send_def app_calls put_step_def show_page_def res_ok_def res_deny_def res_ui_busy_def res_error_def
      res_ok_data_def io_send_sw_def)

lemma view_fields [simp]:
  "att_view (g\<lparr>ux_flow_len := a2\<rparr>) = att_view g" "att_view (g\<lparr>approve_reject_callback := a4\<rparr>) = att_view g"
  "att_view (g\<lparr>flow_response := a5\<rparr>) = att_view g" "att_view (g\<lparr>ainpt_sub_message := a3\<rparr>) = att_view g"
  by (simp_all add: att_view_def app_calls)

lemma view_ui [simp]:
  "att_view (snd (snd (ui_add_screen st i g))) = att_view g" "att_view (snd (snd (ui_display_screens i g))) = att_view g"
  "att_view (ui_approve_reject_screens cb i1 i2 g) = att_view g" "att_view (snd (io_ui_process b g)) = att_view g"
  by (simp_all add: ui_add_screen_def ui_display_screens_def ui_approve_reject_screens_def store_steps_def set_flow_response_def
      io_ui_process_def Let_def split: option.splits)

lemma view_menus [simp]: "att_view (ui_menu_main lib g) = att_view g"
proof -
  have "att_view (snd (ui_add_screens sts i g)) = att_view g" for sts i and g :: "('a, 'b) app"
    by (induction sts arbitrary: i g) (simp_all add: split_beta)
  then show ?thesis by (simp add: ui_menu_main_def show_flow_def split_beta split: ui_library.splits)
qed

lemma inv_command [simp]: "cmd \<noteq> CMD_ATTEST_INPUT_BOX \<Longrightarrow> attest_inv ab live H (set_command cx cmd g)"
  by (simp add: attest_inv_def set_command_def app_calls)

lemma inv_same [simp]:
  "attest_inv ab live H (io_send r g) = attest_inv ab live H g" "attest_inv ab live H (res_ok g) = attest_inv ab live H g"
  "attest_inv ab live H (res_deny g) = attest_inv ab live H g" "attest_inv ab live H (res_ui_busy g) = attest_inv ab live H g"
  "attest_inv ab live H (res_error e g) = attest_inv ab live H g" "attest_inv ab live H (res_ok_data d g) = attest_inv ab live H g"
  "attest_inv ab live H (ui_menu_main lib g) = attest_inv ab live H g" "attest_inv ab live H (app_set_ui_busy b g) = attest_inv ab live H g"
  "attest_inv ab live H (snd (io_ui_process b g)) = attest_inv ab live H g"
  by (rule attest_inv_view, simp)+

lemma inv_ui:
  "attest_inv ab live H (snd (snd (ui_add_screen st i g))) = attest_inv ab live H g"
  "attest_inv ab live H (snd (snd (ui_display_screens i g))) = attest_inv ab live H g"
  "attest_inv ab live H (ui_approve_reject_screens cb i1 i2 g) = attest_inv ab live H g"
  by (rule attest_inv_view, simp)+

lemma inv_fields: "attest_inv ab live H (g\<lparr>ainpt_sub_message := a3\<rparr>) = attest_inv ab live H g"
  by (rule attest_inv_view, simp)

lemma inv_error [simp]: "attest_inv ab live H (ainpt_err E e g)" "attest_inv ab live H (send_error E e g)"
  by (simp_all add: ainpt_err_def send_error_def)

text \<open>Updates of the context that keep what is attested.\<close>

lemma the_ainpt_upd [simp]: "the_ainpt (upd_ainpt f g) = f (the_ainpt g)" "app_current_command (upd_ainpt f g) = app_current_command g"
  by (simp_all add: the_ainpt_def upd_ainpt_def app_calls)

lemma view_the: "att_view g' = att_view g \<Longrightarrow> the_ainpt g' = the_ainpt g \<and> app_current_command g' = app_current_command g"
  by (simp add: att_view_def the_ainpt_def)

lemma attest_ok_app_token:
  "attest_ok ab live H (c\<lparr>ai_app_token := t\<rparr>) = attest_ok ab live H c"
  "attest_ok ab live H (c\<lparr>ai_app_token_value := v\<rparr>) = attest_ok ab live H c"
  by (simp_all add: attest_ok_def box_open_def box_attested_def split: attest_input_state_e.splits)

lemma inv_app_token:
  "attest_inv ab live H (upd_ainpt (\<lambda>c. c\<lparr>ai_app_token := t\<rparr>) g) = attest_inv ab live H g"
  "attest_inv ab live H (upd_ainpt (\<lambda>c. c\<lparr>ai_app_token_value := v\<rparr>) g) = attest_inv ab live H g"
  by (simp_all add: attest_inv_def attest_ok_app_token)

lemma box_open_state: "box_open ab live (c\<lparr>ai_state := s\<rparr>) = box_open ab live c"
  by (simp add: box_open_def)

lemma inv_approve:
  assumes "app_current_command g = CMD_ATTEST_INPUT_BOX \<Longrightarrow> box_open ab live (the_ainpt g)"
  shows "attest_inv ab live H (ainpt_approve g)"
proof -
  have v: "att_view (app_set_connected_app_id i g) = att_view g" for i by simp
  show ?thesis
    using assms view_the [OF v]
    by (simp add: ainpt_approve_def Let_def send_response_attested_input_session_id_def)
      (simp add: attest_inv_def attest_ok_def box_open_state)
qed

lemmas inv_macros = macro_rules [where P = "attest_inv ab live H" and err = "ainpt_err E" for ab live H E, OF inv_error(1)]

lemma the_ainpt_message: "the_ainpt (g\<lparr>ainpt_sub_message := t\<rparr>) = the_ainpt g"
  by (simp add: the_ainpt_def app_calls)

lemma inv_open:
  "attest_inv ab live H g \<Longrightarrow> app_current_command g = CMD_ATTEST_INPUT_BOX \<Longrightarrow>
     ai_state (the_ainpt g) \<in> {ATTEST_INPUT_STATE_INITIALIZED, ATTEST_INPUT_STATE_APPROVED} \<Longrightarrow> box_open ab live (the_ainpt g)"
  by (auto simp: attest_inv_def attest_ok_def)

lemma inv_display:
  assumes "attest_inv ab live H g" and "ai_state (the_ainpt g) = ATTEST_INPUT_STATE_INITIALIZED"
  shows "attest_inv ab live H (ui_display_access_token E answer app_id g)"
proof (cases "env_lib E")
  case HAVE_BAGL
  then show ?thesis using assms(1)
    by (simp add: ui_display_access_token_def bagl_display_access_token_def split_beta Let_def inv_ui inv_app_token)
next
  case HAVE_NBGL
  let ?g1 = "upd_ainpt (\<lambda>c. c\<lparr>ai_app_token_value := app_id\<rparr>) g"
  let ?g2 = "if app_id \<noteq> 0 then
                  (upd_ainpt (\<lambda>c. c\<lparr>ai_app_token := ui_application_id_text app_id\<rparr>) ?g1)
                    \<lparr>ainpt_sub_message := take (APPLICATION_ID_SUBLEN - 1) (''Application: '' @ hex_u32 app_id)\<rparr>
                else ?g1"
  let ?s = "show_page (Page_choice ''Confirm Attest Input'' (ainpt_sub_message ?g2)) ?g2"
  have "att_view (snd (io_ui_process answer ?s)) = att_view ?g2" by simp
  moreover have "attest_inv ab live H ?g2 \<and> (ai_state (the_ainpt ?g2) = ATTEST_INPUT_STATE_INITIALIZED)"
    using assms by (simp add: inv_app_token inv_fields the_ainpt_message)
  ultimately have "app_current_command (snd (io_ui_process answer ?s)) = CMD_ATTEST_INPUT_BOX \<Longrightarrow>
      box_open ab live (the_ainpt (snd (io_ui_process answer ?s)))"
    using view_the [of "snd (io_ui_process answer ?s)" ?g2] inv_open [of ab live H ?g2] by simp
  then have "attest_inv ab live H (ainpt_approve (snd (io_ui_process answer ?s)))" by (rule inv_approve)
  then show ?thesis using HAVE_NBGL
    by (simp add: ui_display_access_token_def nbgl_display_access_token_def split_beta Let_def)
qed

lemma inv_box_finished:
  assumes p: "digest_provider (env_cx E) ab live H"
    and o: "app_current_command g = CMD_ATTEST_INPUT_BOX \<Longrightarrow> ai_state (the_ainpt g) = ATTEST_INPUT_STATE_APPROVED \<and> box_open ab live (the_ainpt g)"
  shows "attest_inv ab live H (check_box_finished E g)"
proof -
  let ?c = "the_ainpt g"
  have i: "attest_inv ab live H g" using o by (simp add: attest_inv_def attest_ok_def)
  obtain res b m box_id where h: "ergo_tx_serializer_box_id_hash (env_cx E) (ai_box ?c) (ai_mem ?c) (ai_box_id ?c) (ai_box_index ?c) (ai_box_id ?c) =
      ((res, b, m), box_id)" by (metis prod.collapse)
  have "attest_inv ab live H (upd_ainpt (\<lambda>c. c\<lparr>ai_state := ATTEST_INPUT_STATE_FINISHED\<rparr>)
      (upd_ainpt (\<lambda>c. c\<lparr>ai_box_id := box_id\<rparr>) (put_box b m g)))" if "box_res_ok res"
    using digest_provider.box_open_finish [OF p _ h that] o by (auto simp: attest_inv_def attest_ok_def put_box_def)
  with i show ?thesis by (simp add: check_box_finished_def Let_def h send_response_attested_input_frame_count_def)
qed

lemma inv_box_call:
  assumes p: "digest_provider (env_cx E) ab live H" and "attest_inv ab live H g" and "ainpt_approved g" and "attest_op q"
    and "box_exec (env_cx E) q (ai_box (the_ainpt g)) (ai_mem (the_ainpt g)) = (r, b, m)"
  shows "attest_inv ab live H (check_call_box_finished E r (put_box b m g))"
proof (cases "box_res_ok r")
  case True
  have st: "ai_state (the_ainpt g) = ATTEST_INPUT_STATE_APPROVED" using assms(3) by (simp add: ainpt_approved_def)
  have o: "app_current_command g = CMD_ATTEST_INPUT_BOX \<Longrightarrow> box_open ab live (the_ainpt (put_box b m g))"
    using inv_open [OF assms(2)] st digest_provider.box_open_exec [OF p _ assms(4,5) True] by (simp add: put_box_def)
  have i: "attest_inv ab live H (put_box b m g)" using o st by (simp add: attest_inv_def attest_ok_def put_box_def)
  have "attest_inv ab live H (check_box_finished E (put_box b m g))"
    by (rule inv_box_finished [OF p]) (use o st in \<open>simp add: put_box_def\<close>)
  with i show ?thesis by (simp add: check_call_box_finished_def)
next
  case False
  then show ?thesis by (auto simp: check_call_box_finished_def)
qed

lemma inv_chunks:
  assumes "digest_provider (env_cx E) ab live H" and "attest_inv ab live H g" and "buffer_wf cdata"
  shows "attest_inv ab live H (ainpt_handle_tree_chunk E cdata g)" "attest_inv ab live H (ainpt_handle_tokens E cdata g)"
    "attest_inv ab live H (ainpt_handle_registers_chunk E cdata g)"
  using inv_box_call [OF assms(1,2), of "BoxTree cdata"] inv_box_call [OF assms(1,2), of "BoxTokens cdata None"]
    inv_box_call [OF assms(1,2), of "BoxRegisters cdata"] assms(3)
  by (auto simp: ainpt_handle_tree_chunk_def ainpt_handle_tokens_def ainpt_handle_registers_chunk_def attest_op_def
      split: prod.splits intro!: inv_macros)

lemma inv_check_write: "(\<And>b. attest_inv ab live H (rest b)) \<Longrightarrow> attest_inv ab live H (check_write_param E r g rest)"
  by (simp add: check_write_param_def)

lemma inv_frame:
  assumes "attest_inv ab live H g"
  shows "attest_inv ab live H (ainpt_handle_get_frame E io key cdata g)"
proof -
  have "attest_inv ab live H (send_response_attested_input_frame E io key index g)" for index
    unfolding send_response_attested_input_frame_def Let_def using assms by (auto intro!: inv_check_write)
  then show ?thesis by (auto simp: ainpt_handle_get_frame_def intro!: inv_macros)
qed

subsection \<open>The initialization\<close>

context digest_provider
begin

lemma init_open:
  assumes "att_wf m" and "tt_count (tokens_table m) = 0"
    and "ergo_tx_serializer_box_id_hash_init cx (hash_ctx m) = (True, h)"
    and "ergo_tx_serializer_box_init cx v tree_size height count regs (m\<lparr>hash_ctx := h\<rparr>) = (r, b, m2)" and "box_res_ok r"
    and "length (ai_box_id c) = 32" and "ai_box c = ergo_tx_serializer_box_set_callbacks b None (Some ainpt_box_token_cb) None"
    and "ai_mem c = m2"
  shows "box_open ab live c"
proof -
  let ?mark = "\<lambda>h. (if live h then [] else [0]) @ ab h"
  let ?a = "\<lparr>acc_tree = [], acc_tokens = [], acc_count = 0, acc_registers = []\<rparr>"
  note t = box_init_trace [OF assms(4,5)]
  have s: "live h" "ab h = []" using init_start assms(3) by (auto simp: ergo_tx_serializer_box_id_hash_init_def)
  have tr: "hash_trace cx h [vlq (unat v)] (hash_ctx m2)" using t by simp
  have "ab (hash_ctx m2) = vlq (unat v)" "?mark (hash_ctx m2) = vlq (unat v)"
    using hash_trace_absorbs [OF absorbs tr] hash_trace_absorbs [OF marked_absorbs tr] s by simp_all
  then have h2: "ab (hash_ctx m2) = vlq (unat v)" "live (hash_ctx m2)" by (auto split: if_splits)
  have "only_hash (m\<lparr>hash_ctx := h\<rparr>) m2" by (rule only_hash_init [OF assms(4)])
  then have m2: "att_wf m2" "att_tokens m2 = []"
    using only_hash_att [of "m\<lparr>hash_ctx := h\<rparr>" m2] assms(1,2) by (simp_all add: att_tokens_def)
  have e: "tokens_bytes [] = []" by (simp add: tokens_bytes_def)
  have i: "box_inv [] v height count regs ?a (ab (hash_ctx m2)) (ai_box c)"
    and bx: "box_value (ai_box c) = v" "box_callbacks (ai_box c) = \<lparr>on_type = None, on_token = Some ainpt_box_token_cb, on_finished = None\<rparr>"
    using t h2 by (simp_all add: assms(7) box_inv_def ergo_tx_serializer_box_set_callbacks_def)
  have "\<exists>height count regs a. box_inv [] (box_value (ai_box c)) height count regs a (ab (hash_ctx (ai_mem c))) (ai_box c) \<and>
      acc_tokens a = tokens_bytes (att_tokens (ai_mem c)) \<and> acc_count a = length (att_tokens (ai_mem c))"
    by (rule exI [of _ height], rule exI [of _ count], rule exI [of _ regs], rule exI [of _ ?a]) (use i bx m2 assms(8) e in simp)
  then show ?thesis unfolding box_open_def using bx m2 h2 assms(6,8) by simp
qed

end

lemma zero_tables:
  assumes "app_current_command g = CMD_ATTEST_INPUT_BOX" and "commands_ctx g = commands_zero cx"
  shows "att_wf (ai_mem (the_ainpt g))" "tt_count (tokens_table (ai_mem (the_ainpt g))) = 0"
  using assms by (simp_all add: the_ainpt_def commands_zero_def ainpt_zero_def att_wf_def att_tokens_def stx_amounts_init_def
      TOKEN_MAX_COUNT_def)

lemmas inv_result = macro_rules [where P = "\<lambda>r. \<forall>g'. r = Some g' \<longrightarrow> attest_inv ab live H g'"
  and err = "\<lambda>e g. Some (ainpt_err E e g)" for ab live H E, simplified]

lemma inv_opened:
  assumes "box_open ab live (f (the_ainpt g))" and "ai_state (f (the_ainpt g)) = ATTEST_INPUT_STATE_INITIALIZED"
  shows "attest_inv ab live H (send_response_attested_input_session_id i
        (upd_ainpt (\<lambda>c. c\<lparr>ai_state := ATTEST_INPUT_STATE_APPROVED\<rparr>) (upd_ainpt f g)))"
    "attest_inv ab live H (ui_display_access_token E answer app_id (upd_ainpt f g))"
proof -
  have "attest_inv ab live H (upd_ainpt f g)"
    "attest_inv ab live H (upd_ainpt (\<lambda>c. c\<lparr>ai_state := ATTEST_INPUT_STATE_APPROVED\<rparr>) (upd_ainpt f g))"
    using assms by (simp_all add: attest_inv_def attest_ok_def box_open_state)
  then show "attest_inv ab live H (send_response_attested_input_session_id i
        (upd_ainpt (\<lambda>c. c\<lparr>ai_state := ATTEST_INPUT_STATE_APPROVED\<rparr>) (upd_ainpt f g)))"
    "attest_inv ab live H (ui_display_access_token E answer app_id (upd_ainpt f g))"
    using assms(2) by (simp_all add: send_response_attested_input_session_id_def inv_display)
qed

lemma inv_init:
  assumes p: "digest_provider (env_cx E) ab live H" and "buffer_wf cdata"
    and z: "att_wf (ai_mem (the_ainpt g))" "tt_count (tokens_table (ai_mem (the_ainpt g))) = 0"
    and "ainpt_handle_init E d cdata has_token app_session_id g = Some g'"
  shows "attest_inv ab live H g'"
proof -
  let ?inv = "\<lambda>r. \<forall>g'. r = Some g' \<longrightarrow> attest_inv ab live H g'"
  let ?m = "ai_mem (the_ainpt g)"
  have m: "?m\<lparr>tokens_table := (tokens_table ?m)\<lparr>tt_count := 0\<rparr>\<rparr> = ?m" using z(2) by simp
  have id: "length box_id = 32" if "fst (buffer_read_bytes cdata ERGO_ID_LEN) = Some box_id" for box_id
    using that assms(2) by (auto simp: buffer_read_bytes_eq ERGO_ID_LEN_def split: if_splits)
  have o: "box_open ab live (the_ainpt g\<lparr>ai_box_id := box_id, ai_box_index := i, ai_app_token := '''', ai_app_token_value := 0,
      ai_box := ergo_tx_serializer_box_set_callbacks b None (Some ainpt_box_token_cb) None, ai_mem := m2,
      ai_state := ATTEST_INPUT_STATE_INITIALIZED, ai_session := s\<rparr>)"
    if "length box_id = 32" "ergo_tx_serializer_box_id_hash_init (env_cx E) (hash_ctx ?m) = (True, h)"
      "ergo_tx_serializer_box_init (env_cx E) v tree_size height count regs (?m\<lparr>hash_ctx := h\<rparr>) = (r, b, m2)" "box_res_ok r"
    for box_id i b m2 s h v tree_size height count regs r
    by (rule digest_provider.init_open [OF p z that(2,3,4)]) (simp_all add: that(1))
  have "?inv (ainpt_handle_init E d cdata has_token app_session_id g)"
    unfolding ainpt_handle_init_def Let_def m
    by (intro inv_result) (auto split: prod.splits option.splits intro!: inv_opened intro: o dest!: id)
  with assms(5) show ?thesis by simp
qed

text \<open>The whole handler.\<close>

lemma inv_handler:
  assumes p: "digest_provider (env_cx E) ab live H" and i: "attest_inv ab live H g" and b: "buffer_wf cdata"
    and h: "handler_attest_input E d cdata subcommand session_or_token g = Some g'"
  shows "attest_inv ab live H g'"
proof -
  let ?g1 = "set_command (env_cx E) CMD_ATTEST_INPUT_BOX g"
  have z: "att_wf (ai_mem (the_ainpt ?g1))" "tt_count (tokens_table (ai_mem (the_ainpt ?g1))) = 0"
    by (rule zero_tables [where cx = "env_cx E"]; simp add: set_command_def app_calls)+
  have s: "attest_inv ab live H out" if "ainpt_subcommand E d cdata subcommand g = Some out" for out
    using that inv_chunks [OF p i b] inv_frame [OF i] by (auto simp: ainpt_subcommand_def split: if_splits)
  show ?thesis
    using h i inv_init [OF p b z] s
    by (auto simp: handler_attest_input_def Let_def split: if_splits option.splits intro!: inv_macros)
qed

subsection \<open>Sessions\<close>

text \<open>
  What happens to the command: a command of the protocol, the answer of the user to the dialog that an initialization
  has shown (on the button devices), and everything else, after which another command is active or none.
\<close>

inductive attest_session :: "'h env \<Rightarrow> ('h, 'y) app \<Rightarrow> bool" for E :: "'h env" where
  session_other: "app_current_command g \<noteq> CMD_ATTEST_INPUT_BOX \<Longrightarrow> attest_session E g"
| session_command: "attest_session E g \<Longrightarrow> buffer_wf cdata \<Longrightarrow>
    handler_attest_input E d cdata subcommand session_or_token g = Some g' \<Longrightarrow> attest_session E g'"
| session_answer: "attest_session E g \<Longrightarrow> ai_state (the_ainpt g) = ATTEST_INPUT_STATE_INITIALIZED \<Longrightarrow>
    attest_session E (bagl_action_attest_input (env_cx E) approved g)"

lemma session_inv:
  assumes "attest_session E g" and p: "digest_provider (env_cx E) ab live H"
  shows "attest_inv ab live H g"
  using assms(1)
proof induction
  case (session_other g)
  then show ?case by (simp add: attest_inv_def)
next
  case (session_command g cdata d subcommand session_or_token g')
  then show ?case using inv_handler [OF p] by blast
next
  case (session_answer g approved)
  have v: "att_view (app_set_ui_busy False g) = att_view g" by simp
  have "attest_inv ab live H (ainpt_approve (app_set_ui_busy False g))"
    by (rule inv_approve) (use session_answer view_the [OF v] inv_open [of ab live H g] in simp)
  then show ?case by (simp add: bagl_action_attest_input_def Let_def)
qed

lemma frame_tokens_att: "frame_tokens m i = take 4 (drop (4 * i) (att_tokens m))"
proof -
  have "take 4 (drop (4 * i) [0..<n]) = [4 * i..<min (4 * i + 4) n]" for n
    by (cases "4 * i \<le> n") (simp_all add: min_def)
  then show ?thesis by (simp add: frame_tokens_def att_tokens_def take_map drop_map)
qed

text \<open>The frame number \<open>index\<close> of a box.\<close>

definition box_frame ::
    "'h env \<Rightarrow> bytes \<Rightarrow> bytes \<Rightarrow> u8 \<Rightarrow> u64 \<Rightarrow> u8 \<Rightarrow> (bytes \<times> u64) list \<Rightarrow> bytes" where
  "box_frame E key box_id index value count tokens =
     (let body = frame_body box_id (get_frames_count count) index value (take 4 (drop (4 * unat index) tokens))
      in body @ take 16 (cx_hmac_sha256 (env_cx E) key body))"

text \<open>The frame command sends a frame only of a finished box, and then the frame with that number.\<close>

lemma sent_simps [simp]:
  "sent (upd_ainpt f g) = sent g" "sent (set_command cx cmd g) = sent g" "sent (res_error e g) = sent g @ [Response [] e]"
  "sent (res_ok_data d g) = sent g @ [Response d SW_OK]" "sent (res_ui_busy g) = sent g @ [Response [] SW_BUSY]"
  "sent (ainpt_err E e g) = sent g @ [Response [] e]" "sent (send_error E e g) = sent g @ [Response [] e]"
  by (simp_all add: upd_ainpt_def set_command_def res_error_def res_ok_data_def res_ui_busy_def io_send_sw_def io_send_def app_calls
      ainpt_err_def send_error_def)

lemma frame_sent:
  assumes "handler_attest_input E d cdata ATTEST_INPUT_SUBCOMMAND_GET_RESPONSE_FRAME session_id g = Some g'"
    and "sent g' = sent g @ [Response frame SW_OK]"
  shows "app_current_command g = CMD_ATTEST_INPUT_BOX \<and> ai_state (the_ainpt g) = ATTEST_INPUT_STATE_FINISHED \<and>
     (\<exists>index. g' = send_response_attested_input_frame E (draw_io d) (app_session_key g) index g \<and>
        index < get_frames_count (tt_count (tokens_table (ai_mem (the_ainpt g)))))"
proof -
  note sw = SW_OK_def SW_BUSY_def SW_BAD_STATE_def SW_BAD_SESSION_ID_def SW_NOT_ENOUGH_DATA_def SW_TOO_MUCH_DATA_def SW_BAD_FRAME_INDEX_def
  note sub = ATTEST_INPUT_SUBCOMMAND_INIT_def ATTEST_INPUT_SUBCOMMAND_TREE_CHUNK_def ATTEST_INPUT_SUBCOMMAND_TOKENS_def
    ATTEST_INPUT_SUBCOMMAND_REGISTERS_def ATTEST_INPUT_SUBCOMMAND_GET_RESPONSE_FRAME_def
  have "g' = check_command (ainpt_err E) CMD_ATTEST_INPUT_BOX g (check_session (ainpt_err E) session_id (ai_session (the_ainpt g)) g
      (ainpt_handle_get_frame E (draw_io d) (app_session_key g) cdata g)) \<or> g' = res_ui_busy g"
    using assms(1) by (auto simp: handler_attest_input_def ainpt_subcommand_def sub split: if_splits)
  then have c: "app_current_command g = CMD_ATTEST_INPUT_BOX" "ai_state (the_ainpt g) = ATTEST_INPUT_STATE_FINISHED"
    and r: "\<exists>index. g' = send_response_attested_input_frame E (draw_io d) (app_session_key g) index g"
    using assms(2) by (auto simp: check_macros ainpt_handle_get_frame_def sw split: if_splits option.splits)
  then obtain index where g': "g' = send_response_attested_input_frame E (draw_io d) (app_session_key g) index g" by blast
  have "index < get_frames_count (tt_count (tokens_table (ai_mem (the_ainpt g))))"
  proof (rule ccontr)
    assume "\<not> ?thesis"
    then have "g' = send_error E SW_BAD_FRAME_INDEX g" by (simp add: g' send_response_attested_input_frame_def Let_def not_less)
    then show False using assms(2) by (simp add: sw)
  qed
  then show ?thesis using c g' by blast
qed

lemma attested_frame_box:
  "attested_frame E key index c =
     box_frame E key (ai_box_id c) index (box_value (ai_box c)) (tt_count (tokens_table (ai_mem c))) (att_tokens (ai_mem c))"
  by (simp add: attested_frame_def box_frame_def frame_tokens_att Let_def)

text \<open>
  C4. Attestations are truthful. Whatever commands the host sends and however the user answers, a frame that the
  device signs with its session key describes an existing box: there are a value, tokens with distinct ids, a script,
  a creation height and registers, a transaction and an index, such that the id in the frame is the digest of
  the serialization of that box, of the id of the transaction and of the index, and the value and
  the tokens in the frame are those of that box.
\<close>

theorem attestation_truthful:
  assumes "digest_provider (env_cx E) ab live H" and "\<And>bs. length (H bs) = 32"
    and "\<And>key bs. length (cx_hmac_sha256 (env_cx E) key bs) = 32" and "237 \<le> length (draw_io d)" "length (draw_io d) < 2 ^ 32"
    and "attest_session E g"
    and "handler_attest_input E d cdata ATTEST_INPUT_SUBCOMMAND_GET_RESPONSE_FRAME session_id g = Some g'"
    and "sent g' = sent g @ [Response frame SW_OK]"
  shows "\<exists>v tree height count tokens regs registers tx_id box_index index.
     unat count = length tokens \<and> distinct (map fst tokens) \<and> length registers = unat regs \<and> length tx_id = 32 \<and>
     frame = box_frame E (app_session_key g)
       (H (box_bytes v tree height count (tokens_bytes tokens) regs registers @ tx_id @ vlq (unat (box_index :: u16)))) index v count tokens"
proof -
  let ?c = "the_ainpt g" and ?m = "ai_mem (the_ainpt g)"
  obtain index where c: "app_current_command g = CMD_ATTEST_INPUT_BOX" "ai_state ?c = ATTEST_INPUT_STATE_FINISHED"
    and g': "g' = send_response_attested_input_frame E (draw_io d) (app_session_key g) index g"
    and i: "index < get_frames_count (tt_count (tokens_table ?m))"
    using frame_sent [OF assms(7,8)] by blast
  have b: "box_attested H ?c" using session_inv [OF assms(6,1)] c by (simp add: attest_inv_def attest_ok_def)
  then obtain tree height count regs registers tx_id box_index where x: "length tx_id = 32" "unat count = length (att_tokens ?m)"
    "length registers = unat regs" "att_wf ?m"
    "ai_box_id ?c = H (box_bytes (box_value (ai_box ?c)) tree height count (tokens_bytes (att_tokens ?m)) regs registers @
        tx_id @ vlq (unat (box_index :: u16)))"
    by (auto simp: box_attested_def)
  have n: "tt_count (tokens_table ?m) = count" using x(2) by (simp add: att_tokens_def word_unat_eq_iff)
  have "ainpt_ready ?c" using x assms(2) by (auto simp: ainpt_ready_def att_wf_def att_tokens_def)
  from send_frame [OF this i assms(4,5) assms(3)] have "sent g' = sent g @ [Response (attested_frame E (app_session_key g) index ?c) SW_OK]"
    by (simp add: g' attested_frame_def Let_def)
  then have "frame = attested_frame E (app_session_key g) index ?c" using assms(8) by simp
  then have "frame = box_frame E (app_session_key g) (ai_box_id ?c) index (box_value (ai_box ?c)) count (att_tokens ?m)"
    by (simp add: attested_frame_box n)
  then show ?thesis using x unfolding x(5) att_wf_def by blast
qed

text \<open>
  Witness: a device that knows the application, a box with one token, and its only frame. The digest of this library
  is a sum.
\<close>

definition att_env :: "bytes env" where
  "att_env = demo_env\<lparr>env_cx := demo_device\<lparr>cx_hash_no_throw :=
     (\<lambda>h mode data n. (0, h @ data, replicate 31 0 @ [sum_list (h @ data)]))\<rparr>\<rparr>"

definition att_draws :: draws where
  "att_draws = \<lparr>draw_ids = (\<lambda>i. 5), draw_keys = demo_rnd, draw_answer = False, draw_io = replicate 260 0\<rparr>"

definition att_command :: "u8 \<Rightarrow> u8 \<Rightarrow> bytes \<Rightarrow> bytes ui_state \<Rightarrow> bytes ui_state option" where
  "att_command subcommand session_or_token d g =
     handler_attest_input att_env att_draws (buffer_init d (of_nat (length d))) subcommand session_or_token g"

definition att_data :: bytes where
  "att_data = replicate 32 3 @ [0, 1] @ [0, 0, 0, 0, 0, 0, 1, 244] @ [0, 0, 0, 1] @ [0, 0, 0, 7] @ [1] @ [0, 0, 0, 0] @ [0, 0, 0, 9]"

definition att_start :: "bytes ui_state" where "att_start = demo_app\<lparr>connected_app_id := 9\<rparr>"

text \<open>The state after the initialization.\<close>

definition att_ctx :: "bytes attest_input_ctx_t \<Rightarrow> bytes attest_input_ctx_t" where
  "att_ctx c = c\<lparr>ai_box_id := replicate 32 3, ai_box_index := 1, ai_app_token := '''', ai_app_token_value := 0,
     ai_box := ergo_tx_serializer_box_set_callbacks
       (box_ctx_zero\<lparr>box_ergo_tree_size := 1, box_creation_height := 7, box_tokens_count := 1, box_registers_size := 0, box_value := 500,
          box_type := ERGO_TX_SERIALIZER_BOX_TYPE_TREE, box_state := ERGO_TX_SERIALIZER_BOX_STATE_INITIALIZED\<rparr>)
       None (Some ainpt_box_token_cb) None,
     ai_mem := (ai_mem c)\<lparr>hash_ctx := vlq 500\<rparr>, ai_state := ATTEST_INPUT_STATE_INITIALIZED, ai_session := 5\<rparr>"

definition att_opened :: "bytes ui_state" where
  "att_opened = send_response_attested_input_session_id 5 (upd_ainpt (\<lambda>c. c\<lparr>ai_state := ATTEST_INPUT_STATE_APPROVED\<rparr>)
     (upd_ainpt att_ctx (set_command (env_cx att_env) CMD_ATTEST_INPUT_BOX att_start)))"

lemma init_box:
  assumes "fst (ergo_tx_serializer_box_init cx v tree_size height count regs m) = ERGO_TX_SERIALIZER_BOX_RES_OK"
    and "hash_ctx (snd (snd (ergo_tx_serializer_box_init cx v tree_size height count regs m))) = h"
  shows "ergo_tx_serializer_box_init cx v tree_size height count regs m = (ERGO_TX_SERIALIZER_BOX_RES_OK,
     box_ctx_zero\<lparr>box_ergo_tree_size := tree_size, box_creation_height := height, box_tokens_count := count, box_registers_size := regs,
       box_value := v, box_type := ERGO_TX_SERIALIZER_BOX_TYPE_TREE, box_state := ERGO_TX_SERIALIZER_BOX_STATE_INITIALIZED\<rparr>, m\<lparr>hash_ctx := h\<rparr>)"
proof -
  obtain r b m2 where x: "ergo_tx_serializer_box_init cx v tree_size height count regs m = (r, b, m2)" by (metis prod_cases3)
  then have ok: "r = ERGO_TX_SERIALIZER_BOX_RES_OK" "hash_ctx m2 = h" using assms by simp_all
  have "m2 = m\<lparr>hash_ctx := h\<rparr>" using only_hash_init [OF x] ok(2) by (auto simp: only_hash_def)
  then show ?thesis using box_init_trace [OF x] ok x by simp
qed

lemma att_init: "att_command 1 2 att_data att_start = Some att_opened"
proof -
  let ?b = "\<lambda>n. buffer_skip (buffer_init att_data (of_nat (length att_data))) n"
  let ?g = "set_command (env_cx att_env) CMD_ATTEST_INPUT_BOX att_start"
  have r: "buffer_read_bytes (buffer_init att_data (of_nat (length att_data))) ERGO_ID_LEN = (Some (replicate 32 3), ?b 32)" "buffer_read_u16 (?b 32) BE = (Some 1, ?b 34)"
    "buffer_read_u64 (?b 34) BE = (Some 500, ?b 42)" "buffer_read_u32 (?b 42) BE = (Some 1, ?b 46)"
    "buffer_read_u32 (?b 46) BE = (Some 7, ?b 50)" "buffer_read_u8 (?b 50) = (Some 1, ?b 51)"
    "buffer_read_u32 (?b 51) BE = (Some 0, ?b 55)" "read_token True (?b 55) = (Some 9, ?b 59)" "\<not> buffer_can_read (?b 59) 1"
    by code_simp+
  have g: "app_is_ui_busy att_start = False" "app_connected_app_id ?g = 9" "is_known_application 9 9"
    "session_id_new_random (draw_ids att_draws) (ai_session (the_ainpt ?g)) = Some 5" "tt_count (tokens_table (ai_mem (the_ainpt ?g))) = 0"
    by code_simp+
  define m where "m = ai_mem (the_ainpt ?g)"
  have m: "m\<lparr>tokens_table := (tokens_table m)\<lparr>tt_count := 0\<rparr>\<rparr> = m" using g(5) by (simp add: m_def)
  have h: "ergo_tx_serializer_box_id_hash_init (env_cx att_env) (hash_ctx m) = (True, [])" unfolding m_def by code_simp
  have "fst (ergo_tx_serializer_box_init (env_cx att_env) 500 1 7 1 0 (m\<lparr>hash_ctx := []\<rparr>)) = ERGO_TX_SERIALIZER_BOX_RES_OK"
    "hash_ctx (snd (snd (ergo_tx_serializer_box_init (env_cx att_env) 500 1 7 1 0 (m\<lparr>hash_ctx := []\<rparr>)))) = vlq 500"
    unfolding m_def by code_simp+
  note bx = init_box [OF this]
  have "ainpt_handle_init att_env att_draws (buffer_init att_data (of_nat (length att_data))) True 9 ?g = Some att_opened"
    unfolding ainpt_handle_init_def check_macros Let_def m_def [symmetric]
    using r g m h bx
    by (simp add: att_opened_def)
      (simp add: upd_ainpt_def att_ctx_def m_def the_ainpt_def)
  then show ?thesis
    using g by (simp add: att_command_def handler_attest_input_def ATTEST_INPUT_SUBCOMMAND_INIT_def Let_def)
qed

definition att_tree :: "bytes ui_state" where "att_tree = the (att_command 2 5 [42] att_opened)"
definition att_closed :: "bytes ui_state" where "att_closed = the (att_command 3 5 (demo_id 9 @ [0, 0, 0, 0, 0, 0, 0, 8]) att_tree)"

lemma att_steps: "\<not> Option.is_none (att_command 2 5 [42] att_opened)"
  "\<not> Option.is_none (att_command 3 5 (demo_id 9 @ [0, 0, 0, 0, 0, 0, 0, 8]) att_tree)"
  by code_simp+

lemma att_final: "app_current_command att_closed = CMD_ATTEST_INPUT_BOX" "ai_state (the_ainpt att_closed) = ATTEST_INPUT_STATE_FINISHED"
  "ai_session (the_ainpt att_closed) = 5" "app_is_ui_busy att_closed = False" "length (ai_box_id (the_ainpt att_closed)) = 32"
  "tt_count (tokens_table (ai_mem (the_ainpt att_closed))) = 1"
  "length (hd (tt_tokens (tokens_table (ai_mem (the_ainpt att_closed))))) = 32"
  by code_simp+

lemma att_session: "attest_session att_env att_closed"
proof -
  have s: "attest_session att_env g'" if "attest_session att_env g" "att_command sub tok d g = Some g'" "length d < 2 ^ 32" for g g' sub tok d
    using session_command [OF that(1), of "buffer_init d (of_nat (length d))"] that(2,3)
    by (simp add: att_command_def buffer_wf_init unat_of_nat_small)
  have some: "x = Some (the x)" if "\<not> Option.is_none x" for x :: "bytes ui_state option"
    using that by (cases x) simp_all
  have "attest_session att_env att_start" by (rule session_other) (simp add: att_start_def demo_app_def app_calls)
  from s [OF this att_init] have "attest_session att_env att_opened" by (simp add: att_data_def)
  from s [OF this some [OF att_steps(1)]] have "attest_session att_env att_tree" by (simp add: att_tree_def)
  from s [OF this some [OF att_steps(2)]] show ?thesis by (simp add: att_closed_def demo_id_def)
qed

interpretation summed: digest_provider "env_cx att_env" "\<lambda>h. h" "\<lambda>h. True" "\<lambda>bs. replicate 31 0 @ [sum_list bs]"
  by unfold_locales (auto simp: att_env_def demo_device_def cx_absorbs_def hash_absorb_def)

theorem attestation_truthful_witness:
  "\<exists>g' frame v tree height count tokens regs registers tx_id box_index index.
     handler_attest_input att_env att_draws (buffer_init [0] 1) ATTEST_INPUT_SUBCOMMAND_GET_RESPONSE_FRAME 5 att_closed = Some g' \<and>
     sent g' = sent att_closed @ [Response frame SW_OK] \<and> unat count = length tokens \<and> length tx_id = 32 \<and> length registers = unat regs \<and>
     frame = box_frame att_env (app_session_key att_closed)
       (replicate 31 0 @ [sum_list (box_bytes v tree height count (tokens_bytes tokens) regs registers @ tx_id @ vlq (unat (box_index :: u16)))])
       index v count tokens"
proof -
  let ?key = "app_session_key att_closed"
  have d: "draw_io att_draws = replicate 260 0" by (simp add: att_draws_def)
  have io: "237 \<le> length (draw_io att_draws)" "length (draw_io att_draws) < 2 ^ 32" by (simp_all add: d)
  have mac: "length (cx_hmac_sha256 (env_cx att_env) k bs) = 32" for k bs by (simp add: att_env_def demo_env_def demo_device_def)
  have u: "unat (1 :: u8) = 1" by simp
  have wf: "att_wf (ai_mem (the_ainpt att_closed))"
    using session_inv [OF att_session summed.digest_provider_axioms] att_final(1,2)
    by (simp add: attest_inv_def attest_ok_def box_attested_def)
  then have "tt_tokens (tokens_table (ai_mem (the_ainpt att_closed))) \<noteq> []" by (auto simp: att_wf_def)
  then have rd: "ainpt_ready (the_ainpt att_closed)" using att_final(5-7) by (simp add: ainpt_ready_def hd_conv_nth)
  have i: "(0 :: u8) < get_frames_count (tt_count (tokens_table (ai_mem (the_ainpt att_closed))))"
    unfolding att_final(6) by code_simp
  let ?g' = "send_response_attested_input_frame att_env (draw_io att_draws) ?key 0 att_closed"
  have rb: "buffer_read_u8 (buffer_init [0] 1) = (Some 0, buffer_skip (buffer_init [0] 1) 1)"
    "\<not> buffer_can_read (buffer_skip (buffer_init [0] 1) 1) 1" by code_simp+
  have h: "handler_attest_input att_env att_draws (buffer_init [0] 1) ATTEST_INPUT_SUBCOMMAND_GET_RESPONSE_FRAME 5 att_closed = Some ?g'"
    using att_final(1-4) rb
    by (simp add: handler_attest_input_def ainpt_subcommand_def ainpt_handle_get_frame_def check_macros
        ATTEST_INPUT_SUBCOMMAND_INIT_def ATTEST_INPUT_SUBCOMMAND_TREE_CHUNK_def ATTEST_INPUT_SUBCOMMAND_TOKENS_def
        ATTEST_INPUT_SUBCOMMAND_REGISTERS_def ATTEST_INPUT_SUBCOMMAND_GET_RESPONSE_FRAME_def)
  obtain frame where f: "?g' = res_ok_data frame att_closed" using send_frame [OF rd i io mac] by blast
  have s: "sent ?g' = sent att_closed @ [Response frame SW_OK]" unfolding f by simp
  have l: "length (replicate 31 0 @ [sum_list bs]) = 32" for bs :: bytes by simp
  from attestation_truthful [OF summed.digest_provider_axioms l mac io att_session h s] h s show ?thesis by blast
qed

end
