(* ===== verification/Varint.thy ===== *)
theory Varint
  imports Buffer
begin

text \<open>
  The rest of the buffer of the SDK in the copy the unit tests build against: the variable-length integers of
  Bitcoin (\<^verbatim>\<open>unit-tests/utils/varint.c\<close>), and reading one of them, copying and moving the
  rest of a buffer (\<^verbatim>\<open>buffer.c\<close>). The application itself uses the codes of \<^verbatim>\<open>gve.c\<close>.

  \<open>varint_read\<close> returns \<open>None\<close> for \<open>-1\<close>, otherwise the value and the length of the code. \<open>buffer_copy\<close>
  returns the bytes that have been copied to the front of \<open>out\<close>.
\<close>

definition varint_size :: "u64 \<Rightarrow> u8" where
  "varint_size value =
     (if value \<le> 0xFC then 1
      else if value \<le> 0xFFFF then 3
      else if value \<le> 0xFFFFFFFF then 5
      else 9)"

definition varint_read :: "bytes \<Rightarrow> size_t \<Rightarrow> (u64 \<times> size_t) option" where
  "varint_read inp in_len =
     (if in_len < 1 then None
      else let prefix = inp ! 0 in
      if prefix = 0xFD then (if in_len < 3 then None else Some (ucast (read_u16_le inp 1), 3))
      else if prefix = 0xFE then (if in_len < 5 then None else Some (ucast (read_u32_le inp 1), 5))
      else if prefix = 0xFF then (if in_len < 9 then None else Some (ucast (read_u64_le inp 1), 9))
      else Some (ucast prefix, 1))"

text \<open>The memory after the write, and the length (\<open>None\<close> for \<open>-1\<close>).\<close>

definition varint_write :: "bytes \<Rightarrow> size_t \<Rightarrow> u64 \<Rightarrow> bytes \<times> u8 option" where
  "varint_write out offset value =
     (let varint_len = varint_size value in
      if varint_len = 1 then (mem_write out (unat offset) [ucast value], Some varint_len)
      else if varint_len = 3 then (write_u16_le (mem_write out (unat offset) [0xFD]) (offset + 1) (ucast value), Some varint_len)
      else if varint_len = 5 then (write_u32_le (mem_write out (unat offset) [0xFE]) (offset + 1) (ucast value), Some varint_len)
      else if varint_len = 9 then (write_u64_le (mem_write out (unat offset) [0xFF]) (offset + 1) (ucast value), Some varint_len)
      else (out, None))"

definition buffer_read_varint :: "buffer_t \<Rightarrow> u64 option \<times> buffer_t" where
  "buffer_read_varint b =
     (case varint_read (buffer_read_ptr b) (buf_size b - buf_offset b) of
        None \<Rightarrow> (None, b)
      | Some (value, n) \<Rightarrow> (case buffer_seek_cur b n of (True, b') \<Rightarrow> (Some value, b') | (False, b') \<Rightarrow> (None, b')))"

definition buffer_copy :: "buffer_t \<Rightarrow> size_t \<Rightarrow> bytes option" where
  "buffer_copy b out_len =
     (if buf_size b - buf_offset b > out_len then None
      else Some (take (unat (buf_size b - buf_offset b)) (buffer_read_ptr b)))"

definition buffer_move :: "buffer_t \<Rightarrow> size_t \<Rightarrow> bytes option \<times> buffer_t" where
  "buffer_move b out_len =
     (case buffer_copy b out_len of
        None \<Rightarrow> (None, b)
      | Some out \<Rightarrow> (Some out, snd (buffer_seek_cur b out_len)))"

subsection \<open>Codes\<close>

definition le_bytes :: "nat \<Rightarrow> u64 \<Rightarrow> bytes" where
  "le_bytes n v = map (\<lambda>i. ucast (drop_bit (8 * i) v)) [0..<n]"

definition varint_code :: "u64 \<Rightarrow> bytes" where
  "varint_code v =
     (if v \<le> 0xFC then [ucast v]
      else if v \<le> 0xFFFF then 0xFD # le_bytes 2 v
      else if v \<le> 0xFFFFFFFF then 0xFE # le_bytes 4 v
      else 0xFF # le_bytes 8 v)"

lemma upt_bytes: "[0..<2] = [0, 1 :: nat]" "[0..<4] = [0, 1, 2, 3 :: nat]" "[0..<8] = [0, 1, 2, 3, 4, 5, 6, 7 :: nat]"
  by (simp_all add: upt_rec)

lemma length_varint_code: "length (varint_code v) = unat (varint_size v)"
  by (simp add: varint_code_def varint_size_def le_bytes_def)

lemma mem_write_twice:
  "mem_write (mem_write out n [x]) (Suc n) ys = mem_write out n (x # ys)" if "n < length out"
  using that by (simp add: mem_write_def min_def add.commute)

lemma narrow_byte:
  "n + 8 \<le> LENGTH('w) \<Longrightarrow> (ucast (drop_bit n (ucast (v :: u64) :: 'w::len word)) :: u8) = ucast (drop_bit n v)"
  by (rule bit_word_eqI) (auto simp: bit_simps)

lemma narrow_byte_0: "8 \<le> LENGTH('w) \<Longrightarrow> (ucast (ucast (v :: u64) :: 'w::len word) :: u8) = ucast v"
  using narrow_byte [of 0 v] by simp

lemma varint_write_code:
  assumes "unat offset + unat (varint_size v) \<le> length out" and "length out < 2 ^ 32"
  shows "varint_write out offset v = (mem_write out (unat offset) (varint_code v), Some (varint_size v))"
proof -
  have u: "unat (offset + 1) = Suc (unat offset)"
    using assms by (subst word_add_no_wrap) (auto simp: varint_size_def split: if_splits)
  have n: "unat offset < length out" using assms(1) by (auto simp: varint_size_def split: if_splits)
  show ?thesis
    unfolding varint_write_def varint_size_def varint_code_def le_bytes_def upt_bytes write_u16_le_def write_u32_le_def write_u64_le_def u
    using n by (simp add: mem_write_twice Let_def narrow_byte narrow_byte_0)
qed

text \<open>Reading gives back what is in the code.\<close>

lemma bit_byte_0: "bit (ucast (ucast (v :: u64) :: u8) :: 'w::len word) n \<longleftrightarrow> n < 8 \<and> n < LENGTH('w) \<and> bit v n"
  by (auto simp: bit_simps)

lemma le_read:
  "read_u16_le (x # le_bytes 2 v @ rest) 1 = ucast v"
  "read_u32_le (x # le_bytes 4 v @ rest) 1 = ucast v"
  "read_u64_le (x # le_bytes 8 v @ rest) 1 = v"
  unfolding le_bytes_def upt_bytes read_u16_le_def read_u32_le_def read_u64_le_def
  by (rule bit_word_eqI, simp add: bit_or_iff bit_byte_at bit_byte_0, (simp add: bit_simps)?, linarith)+

lemma unat_narrow: "unat v < 2 ^ LENGTH('w) \<Longrightarrow> unat (ucast (v :: u64) :: 'w::len word) = unat v"
  by (simp add: unsigned_ucast_eq unsigned_take_bit_eq take_bit_nat_eq_self)

lemma varint_read_code:
  assumes "unat in_len \<ge> unat (varint_size v)"
  shows "varint_read (varint_code v @ rest) in_len = Some (v, ucast (varint_size v))"
proof -
  have s: "v \<le> 0xFC \<Longrightarrow> ucast (ucast v :: u8) = v" "v \<le> 0xFFFF \<Longrightarrow> ucast (ucast v :: u16) = v"
    "v \<le> 0xFFFFFFFF \<Longrightarrow> ucast (ucast v :: u32) = v"
    by (rule word_unat_eq_iff [THEN iffD2], simp add: word_le_nat_alt unat_narrow unat_ucast_up)+
  have p: "v \<le> 0xFC \<Longrightarrow> (ucast v :: u8) \<noteq> 0xFD \<and> (ucast v :: u8) \<noteq> 0xFE \<and> (ucast v :: u8) \<noteq> 0xFF"
    by (auto simp: word_le_nat_alt dest!: arg_cong [of _ _ "unat :: u8 \<Rightarrow> nat"] simp: unat_narrow)
  show ?thesis
    using assms s p
    by (auto simp: varint_read_def varint_code_def varint_size_def le_read word_less_nat_alt Let_def split: if_splits)
qed

text \<open>
  Writing a value into a memory with room for it changes exactly
  the one, three, five or nine bytes of its code, and a buffer over that memory whose cursor is at the code reads the
  value back and moves behind it.
\<close>

theorem varint_roundtrip:
  assumes "unat offset + unat (varint_size v) \<le> unat sz" and "unat sz \<le> length out" and "length out < 2 ^ 32"
  shows "\<exists>out'. varint_write out offset v = (out', Some (varint_size v)) \<and> length out' = length out \<and>
     take (unat offset) out' = take (unat offset) out \<and>
     drop (unat offset + unat (varint_size v)) out' = drop (unat offset + unat (varint_size v)) out \<and>
     buffer_read_varint \<lparr>buf_ptr = out', buf_size = sz, buf_offset = offset\<rparr> =
       (Some v, \<lparr>buf_ptr = out', buf_size = sz, buf_offset = offset + ucast (varint_size v)\<rparr>)"
proof -
  let ?n = "unat offset" and ?k = "unat (varint_size v)"
  let ?out = "mem_write out ?n (varint_code v)"
  have len: "length (varint_code v) = ?k" by (rule length_varint_code)
  have w: "varint_write out offset v = (?out, Some (varint_size v))"
    by (rule varint_write_code) (use assms in simp_all)
  have d: "drop ?n ?out = varint_code v @ drop (?n + ?k) out"
    using assms len by (simp add: mem_write_def)
  have le: "offset \<le> sz" using assms(1) by (simp add: word_le_nat_alt)
  have "?k \<le> unat (sz - offset)" using assms(1) le by (simp add: word_sub_le_unat)
  then have r: "varint_read (drop ?n ?out) (sz - offset) = Some (v, ucast (varint_size v))"
    unfolding d by (rule varint_read_code)
  let ?b = "\<lparr>buf_ptr = ?out, buf_size = sz, buf_offset = offset\<rparr>"
  have "buffer_wf ?b" using le assms(2) len by (simp add: buffer_wf_def) (use assms in simp)
  then have s: "buffer_seek_cur ?b (ucast (varint_size v)) = (True, buffer_skip ?b (ucast (varint_size v)))"
    using assms(1) by (intro buffer_seek_cur_ok) (simp_all add: length_buffer_data unat_buffer_data_len word_sub_le_unat [OF le] buffer_data_len_def unat_ucast_up)
  have "take ?n ?out = take ?n out" "drop (?n + ?k) ?out = drop (?n + ?k) out" "length ?out = length out"
    using assms len by (simp_all add: mem_write_def)
  with w r s show ?thesis by (simp add: buffer_read_varint_def buffer_read_ptr_def buffer_skip_def)
qed

text \<open>Witness: 300 in a memory of six bytes, from the second one on.\<close>

theorem varint_roundtrip_witness:
  "\<exists>out'. varint_write [9, 9, 9, 9, 9, 9] 1 300 = (out', Some 3) \<and> take 1 out' = [9] \<and> drop 4 out' = [9, 9] \<and>
     fst (buffer_read_varint \<lparr>buf_ptr = out', buf_size = 6, buf_offset = 1\<rparr>) = Some 300"
proof -
  have n: "varint_size 300 = 3" by code_simp
  have "unat (1 :: size_t) + unat (varint_size 300) \<le> unat (6 :: size_t)" by (simp add: n)
  from varint_roundtrip [OF this, of "[9, 9, 9, 9, 9, 9]"] show ?thesis by (auto simp: n)
qed

text \<open>
  Copying the rest, and moving it: \<open>buffer_move\<close> advances by \<open>out_len\<close>, not by what it has copied, and ignores that
  the seek fails, so that its cursor stays where it was unless \<open>out\<close> has exactly the length of the rest.
\<close>

lemma buffer_copy_eq:
  "buffer_wf b \<Longrightarrow> buffer_copy b n = (if unat n < length (buffer_data b) then None else Some (buffer_data b))"
  by (simp add: buffer_copy_def length_buffer_data word_less_nat_alt flip: buffer_data_len_def)
    (simp add: buffer_data_def)

lemma buffer_move_eq:
  assumes "buffer_wf b"
  shows "buffer_move b n =
     (if unat n < length (buffer_data b) then (None, b)
      else (Some (buffer_data b), if unat n = length (buffer_data b) then buffer_skip b n else b))"
proof (cases "unat n \<le> length (buffer_data b)")
  case True
  then show ?thesis using buffer_seek_cur_ok [OF assms True] by (simp add: buffer_move_def buffer_copy_eq [OF assms])
next
  case False
  note w = buffer_wfD [OF assms]
  have l: "length (buffer_data b) = unat (buf_size b) - unat (buf_offset b)" using assms w(3) by (simp add: length_buffer_data)
  have "\<not> buffer_seek_cur b n = (True, b')" for b'
  proof
    assume s: "buffer_seek_cur b n = (True, b')"
    then have c: "buf_offset b \<le> buf_offset b + n" "buf_offset b + n \<le> buf_size b"
      by (auto simp: buffer_seek_cur_def not_less split: if_splits)
    have "unat (buf_offset b + n) = unat (buf_offset b) + unat n"
      using c(1) by (metis unat_plus_simple)
    then show False using c(2) False l w(1) by (simp add: word_le_nat_alt)
  qed
  then have "fst (buffer_seek_cur b n) = False" by (metis prod.collapse)
  then have "snd (buffer_seek_cur b n) = b" by (auto simp: buffer_seek_cur_def split: if_splits)
  then show ?thesis using False by (simp add: buffer_move_def buffer_copy_eq [OF assms])
qed

end
