(* ===== verification/SessionAmounts.thy ===== *)
theory SessionAmounts
  imports StxOpP2pkRun HashFrame
begin

text \<open>
  The amounts of a signing session (\<^verbatim>\<open>stx_op_p2pk.c\<close> over \<^verbatim>\<open>stx_amounts.c\<close>): what the confirmation
  screen shows is an exact account of the inputs and outputs that were hashed. Every operation has its ledger entries;
  the callbacks of the serializers post exactly these.
\<close>

definition accounts :: "amount_op list \<Rightarrow> 'h p2pk_mem \<Rightarrow> 'h p2pk_mem \<Rightarrow> bool" where
  "accounts ps m m' \<longleftrightarrow>
     amounts_wf (amounts m') \<and> uint (pm_value m') = uint (pm_value m) + (\<Sum>p\<leftarrow>ps. value_delta p) \<and>
     uint (pm_fee m') = uint (pm_fee m) + (\<Sum>p\<leftarrow>ps. fee_delta p) \<and>
     (\<forall>t. length t = 32 \<longrightarrow> token_balance (amounts m') t = token_balance (amounts m) t + (\<Sum>p\<leftarrow>ps. token_delta t p))"

lemma accounts_same: "amounts_wf (amounts m) \<Longrightarrow> amounts m' = amounts m \<Longrightarrow> accounts [] m m'"
  by (simp add: accounts_def) (metis amounts_simps(3,4))

lemma accounts_wf: "accounts ps m m' \<Longrightarrow> amounts_wf (amounts m')"
  by (simp add: accounts_def)

lemma accounts_append: "accounts ps m m1 \<Longrightarrow> accounts qs m1 m2 \<Longrightarrow> accounts (ps @ qs) m m2"
  by (simp add: accounts_def)

lemma accounts_then_same: "accounts ps m m1 \<Longrightarrow> amounts m2 = amounts m1 \<Longrightarrow> accounts ps m m2"
  using accounts_append [of ps m m1 "[]" m2] accounts_same [of m1 m2] by (simp add: accounts_wf)

lemma accounts_after_same: "accounts ps m1 m2 \<Longrightarrow> amounts m = amounts m1 \<Longrightarrow> accounts ps m m2"
  by (simp add: accounts_def) (metis amounts_simps(3,4))

lemma accounts_exec:
  assumes "amount_exec (amounts m) p = Some a" and "amounts_wf (amounts m)" and "amount_op_wf p" and "amounts m' = a"
  shows "accounts [p] m m'"
proof -
  have "pm_value m' = am_value a" "pm_fee m' = am_fee a" using assms(4) by (metis amounts_simps(3,4))+
  then show ?thesis using amount_exec_exact [OF assms(1-3)] assms(4) by (simp add: accounts_def)
qed

lemma only_hash_amounts: "only_hash m m' \<Longrightarrow> amounts m' = amounts m \<and> tokens_table m' = tokens_table m"
  by (auto simp: only_hash_def)

subsection \<open>The callbacks post their entries\<close>

lemma input_callback_posts:
  assumes "accumulate (deliver_token c) m tvs = Some m'" and "on_token_cb c = Some p2pk_input_token_cb"
    and "\<forall>(i, v)\<in>set tvs. length i = 32" and "amounts_wf (amounts m)"
  shows "accounts (map (\<lambda>(i, v). AmInputToken (input_box_id c) i v) tvs) m m'"
  using assms(1,3,4)
proof (induction tvs arbitrary: m)
  case Nil
  then show ?case by (simp add: accounts_same)
next
  case (Cons tv tvs)
  obtain m1 where m1: "deliver_token c m tv = Some m1" "accumulate (deliver_token c) m1 tvs = Some m'"
    using Cons.prems(1) by (auto split: option.splits)
  obtain i v where tv: "tv = (i, v)" "length i = 32" using Cons.prems(2) by (cases tv) auto
  obtain a where a: "amount_exec (amounts m) (AmInputToken (input_box_id c) i v) = Some a" "m1 = set_amounts a m"
    using m1(1) assms(2) by (auto simp: deliver_token_def p2pk_input_token_cb_def tv split: prod.splits if_splits)
  have s: "accounts [AmInputToken (input_box_id c) i v] m m1"
    by (rule accounts_exec [OF a(1) Cons.prems(3)]) (simp_all add: a(2) tv)
  from accounts_append [OF s Cons.IH [OF m1(2) _ accounts_wf [OF s]]] Cons.prems(2) show ?case by (simp add: tv)
qed

lemma input_callback_output:
  "accumulate (deliver_token c) m tvs = Some m' \<Longrightarrow> on_token_cb c = Some p2pk_input_token_cb \<Longrightarrow> pm_output m' = pm_output m"
  by (induction tvs arbitrary: m) (auto simp: deliver_token_def p2pk_input_token_cb_def split: option.splits prod.splits if_splits)

definition session_callbacks :: "('h, 'x) cx_sdk_scheme \<Rightarrow> 'h out_views \<Rightarrow> 'h p2pk_mem box_ctx \<Rightarrow> bool" where
  "session_callbacks cx V c \<longleftrightarrow>
     box_callbacks c = \<lparr>on_type = Some p2pk_output_type_cb, on_token = Some p2pk_output_token_cb, on_finished = Some (p2pk_output_finished_cb cx V)\<rparr>"

lemma box_finished_amounts:
  "session_callbacks cx V c \<Longrightarrow> box_finished c m = (r, c', m') \<Longrightarrow>
     amounts m' = amounts m \<and> box_callbacks c' = box_callbacks c \<and> box_value c' = box_value c"
  by (auto simp: session_callbacks_def box_finished_def p2pk_output_finished_cb_def box_res_error_def split: prod.splits if_splits)

lemma height_same:
  "add_height_and_token_count cx c m = (r, c', m') \<Longrightarrow> box_res_ok r \<Longrightarrow> c' = c"
  "add_empty_registers_count cx c m = (r, c', m') \<Longrightarrow> box_res_ok r \<Longrightarrow> c' = c"
  by (auto simp: add_height_and_token_count_def add_empty_registers_count_def split: prod.splits if_splits)

lemma tree_added_posts:
  assumes "ergo_tree_added cx c m = (r, c', m')" and "box_res_ok r" and "session_callbacks cx V c" and "amounts_wf (amounts m)"
  shows "accounts [AmOutput (box_type c) (box_value c)] m m' \<and> session_callbacks cx V c' \<and> box_value c' = box_value c"
proof -
  obtain res a where t: "stx_amounts_add_output (amounts m) (box_type c) (box_value c) = (res, a)" by (metis surj_pair)
  have cb: "p2pk_output_type_cb (box_type c) (box_value c) m = (res, set_amounts a m)" by (simp add: p2pk_output_type_cb_def t)
  have tc: "on_type (box_callbacks c) = Some p2pk_output_type_cb" using assms(3) by (simp add: session_callbacks_def)
  have "box_res_ok res" using assms(1,2) tc cb by (auto simp: ergo_tree_added_def split: if_splits)
  then have res: "res = ERGO_TX_SERIALIZER_BOX_RES_OK"
    using t by (auto simp: box_res_ok_def stx_amounts_add_output_def Let_def split: ergo_tx_serializer_box_type_e.splits option.splits)
  have s: "accounts [AmOutput (box_type c) (box_value c)] m (set_amounts a m)"
    by (rule accounts_exec [where a = a]) (use t res assms(4) in simp_all)
  obtain r2 c2 m2 where h: "add_height_and_token_count cx c (set_amounts a m) = (r2, c2, m2)" by (metis prod_cases3)
  have r2: "box_res_ok r2" using assms(1,2) tc cb h res by (auto simp: ergo_tree_added_def split: if_splits)
  then have c2: "c2 = c" using height_same(1) [OF h] by simp
  have am2: "amounts m2 = a" using only_hash_amounts [OF only_hash_height [OF h]] by simp
  let ?c3 = "c\<lparr>box_state := ERGO_TX_SERIALIZER_BOX_STATE_TOKENS_ADDED\<rparr>"
  obtain r4 c4 m4 where e: "add_empty_registers_count cx ?c3 m2 = (r4, c4, m4)" by (metis prod_cases3)
  obtain r5 c5 m5 where f: "box_finished c4 m4 = (r5, c5, m5)" by (metis prod_cases3)
  have am4: "amounts m4 = a" using only_hash_amounts [OF only_hash_registers_count [OF e]] am2 by simp
  have "(m' = m2 \<and> box_callbacks c' = box_callbacks c \<and> box_value c' = box_value c) \<or>
      (m' = m5 \<and> c' = c5 \<and> box_res_ok r4)"
    using assms(1,2) tc cb h res r2 c2 e f by (auto simp: ergo_tree_added_def Let_def split: if_splits)
  then show ?thesis
  proof
    assume "m' = m2 \<and> box_callbacks c' = box_callbacks c \<and> box_value c' = box_value c"
    then show ?thesis using accounts_then_same [OF s, of m'] am2 assms(3) by (simp add: session_callbacks_def)
  next
    assume m5: "m' = m5 \<and> c' = c5 \<and> box_res_ok r4"
    then have c4: "c4 = ?c3" using height_same(2) [OF e] by simp
    then have sc: "session_callbacks cx V c4" using assms(3) by (simp add: session_callbacks_def)
    note x = box_finished_amounts [OF sc f]
    then show ?thesis using accounts_then_same [OF s, of m'] am4 m5 c4 assms(3) by (simp add: session_callbacks_def)
  qed
qed

subsection \<open>The box operations\<close>

definition box_posts ::
    "('h, 'x) cx_sdk_scheme \<Rightarrow> 'h out_views \<Rightarrow> amount_op list \<Rightarrow> 'h p2pk_mem box_ctx \<Rightarrow> 'h p2pk_mem \<Rightarrow> 'h p2pk_mem box_ctx \<Rightarrow> 'h p2pk_mem \<Rightarrow> bool" where
  "box_posts cx V ps c m c' m' \<longleftrightarrow>
     accounts ps m m' \<and> session_callbacks cx V c' \<and> box_value c' = box_value c"

lemma update_amounts: "mem_update cx m d n = (ok, m1) \<Longrightarrow> amounts m1 = amounts m"
  using only_hash_amounts [OF only_hash_update] by blast

lemma callbacks_cong: "box_callbacks c' = box_callbacks c \<Longrightarrow> session_callbacks cx V c' = session_callbacks cx V c"
  by (simp add: session_callbacks_def)

lemma tree_added_box_posts:
  assumes "ergo_tree_added cx c1 m1 = (r, c', m')" and "box_res_ok r" and "session_callbacks cx V c1" and "amounts_wf (amounts m)"
    and "amounts m1 = amounts m" and "box_value c1 = box_value c"
  shows "box_posts cx V [AmOutput (box_type c1) (box_value c)] c m c' m'"
  using tree_added_posts [OF assms(1-3)] assms(4-6) accounts_after_same [of _ m1 m' m] by (simp add: box_posts_def)

lemma box_posts_same:
  "amounts_wf (amounts m) \<Longrightarrow> amounts m' = amounts m \<Longrightarrow> session_callbacks cx V c' \<Longrightarrow> box_value c' = box_value c \<Longrightarrow>
     box_posts cx V [] c m c' m'"
  by (simp add: box_posts_def accounts_same)

lemma accounts_tree: "accounts [AmOutput ERGO_TX_SERIALIZER_BOX_TYPE_TREE v] m m' = accounts [] m m'"
  by (simp add: accounts_def)

lemma tree_chunk_posts:
  assumes "ergo_tx_serializer_box_add_tree cx c m b = (r, c', m', b')" and "box_res_ok r"
    and "session_callbacks cx V c" and "amounts_wf (amounts m)"
  shows "box_posts cx V [] c m c' m'"
proof -
  obtain ok m1 where u: "mem_update cx m (buffer_read_ptr b) (buffer_data_len b) = (ok, m1)" by (metis surj_pair)
  let ?c1 = "c\<lparr>box_ergo_tree_size := box_ergo_tree_size c - buffer_data_len b\<rparr>"
  let ?c2 = "?c1\<lparr>box_type := ERGO_TX_SERIALIZER_BOX_TYPE_TREE\<rparr>"
  obtain r2 c2 m2 where t: "ergo_tree_added cx ?c2 m1 = (r2, c2, m2)" by (metis prod_cases3)
  have sc: "session_callbacks cx V ?c1" "session_callbacks cx V ?c2" using assms(3) by (simp_all add: session_callbacks_def)
  have "(r = r2 \<and> c' = c2 \<and> m' = m2) \<or> (c' = ?c1 \<and> m' = m1)"
    using assms(1,2) u t by (auto simp: ergo_tx_serializer_box_add_tree_def Let_def split: if_splits prod.splits)
  then show ?thesis
  proof
    assume e: "r = r2 \<and> c' = c2 \<and> m' = m2"
    with tree_added_box_posts [OF t _ sc(2) assms(4) update_amounts [OF u], of c] assms(2) show ?thesis
      by (simp add: box_posts_def accounts_tree)
  qed (use update_amounts [OF u] assms(4) sc in \<open>auto intro: box_posts_same\<close>)
qed

lemma fee_tree_posts:
  assumes "ergo_tx_serializer_box_add_miners_fee_tree cx c m mainnet = (r, c', m')" and "box_res_ok r"
    and "session_callbacks cx V c" and "amounts_wf (amounts m)"
  shows "box_posts cx V [AmOutput ERGO_TX_SERIALIZER_BOX_TYPE_FEE (box_value c)] c m c' m'"
proof -
  obtain tree n where tr: "ergo_tree_miners_fee_tree mainnet = (tree, n)" by (metis surj_pair)
  obtain ok m1 where u: "mem_update cx m tree n = (ok, m1)" by (metis surj_pair)
  let ?c1 = "c\<lparr>box_type := ERGO_TX_SERIALIZER_BOX_TYPE_FEE\<rparr>"
  have t: "ergo_tree_added cx ?c1 m1 = (r, c', m')"
    using assms(1,2) u tr by (auto simp: ergo_tx_serializer_box_add_miners_fee_tree_def split: if_splits)
  have "session_callbacks cx V ?c1" using assms(3) by (simp add: session_callbacks_def)
  from tree_added_box_posts [OF t assms(2) this assms(4) update_amounts [OF u], of c] show ?thesis by simp
qed

lemma change_tree_posts:
  assumes "ergo_tx_serializer_box_add_change_tree cx c m raw = (r, c', m')" and "box_res_ok r"
    and "session_callbacks cx V c" and "amounts_wf (amounts m)"
  shows "box_posts cx V [AmOutput ERGO_TX_SERIALIZER_BOX_TYPE_CHANGE (box_value c)] c m c' m'"
proof -
  let ?tree = "ergo_tree_generate_p2pk raw (replicate (unat ERGO_TREE_P2PK_LEN) 0)"
  obtain ok m1 where u: "mem_update cx m ?tree ERGO_TREE_P2PK_LEN = (ok, m1)" by (metis surj_pair)
  let ?c1 = "c\<lparr>box_type := ERGO_TX_SERIALIZER_BOX_TYPE_CHANGE\<rparr>"
  have t: "ergo_tree_added cx ?c1 m1 = (r, c', m')"
    using assms(1,2) u by (auto simp: ergo_tx_serializer_box_add_change_tree_def Let_def split: if_splits)
  have "session_callbacks cx V ?c1" using assms(3) by (simp add: session_callbacks_def)
  from tree_added_box_posts [OF t assms(2) this assms(4) update_amounts [OF u], of c] show ?thesis by simp
qed

lemma registers_posts:
  assumes "ergo_tx_serializer_box_add_registers cx c m b = (r, c', m', b')" and "box_res_ok r"
    and "session_callbacks cx V c" and "amounts_wf (amounts m)"
  shows "box_posts cx V [] c m c' m'"
proof -
  obtain ok m1 where u: "mem_update cx m (buffer_read_ptr b) (buffer_data_len b) = (ok, m1)" by (metis surj_pair)
  let ?c1 = "c\<lparr>box_registers_size := box_registers_size c - buffer_data_len b\<rparr>"
  obtain r2 c2 m2 where f: "box_finished ?c1 m1 = (r2, c2, m2)" by (metis prod_cases3)
  have sc: "session_callbacks cx V ?c1" using assms(3) by (simp add: session_callbacks_def)
  have "(c' = c2 \<and> m' = m2) \<or> (c' = ?c1 \<and> m' = m1)"
    using assms(1,2) u f by (auto simp: ergo_tx_serializer_box_add_registers_def Let_def split: if_splits prod.splits)
  then show ?thesis
    using box_finished_amounts [OF sc f] update_amounts [OF u] assms(3,4) sc callbacks_cong [of c' ?c1 cx V]
    by (auto intro: box_posts_same)
qed

text \<open>The tokens of an output: their ids are given by index in the token table.\<close>

definition output_token_entries :: "ergo_tx_serializer_box_type_e \<Rightarrow> token_table_t \<Rightarrow> bytes \<Rightarrow> amount_op list" where
  "output_token_entries ty table d =
     map (\<lambda>e. AmOutputToken ty (tt_tokens table ! unat (word_of_be (take 4 e) 0 :: u32)) (word_of_be (take 8 (drop 4 e)) 0))
       (chunks 12 d)"

lemma output_token_cb_posts:
  assumes "p2pk_output_token_cb ty tid v m = (r, m')" and "box_res_ok r" and "amounts_wf (amounts m)" and "length tid = 32"
  shows "accounts [AmOutputToken ty tid v] m m' \<and> tokens_table m' = tokens_table m"
proof -
  obtain r1 out where i: "stx_output_info_add_token (pm_output m) (tokens_table m) tid v = (r1, out)" by (metis surj_pair)
  have r1: "r1 = ERGO_TX_SERIALIZER_BOX_RES_OK"
    using assms(1,2) i by (auto simp: p2pk_output_token_cb_def stx_output_info_add_token_def Let_def box_res_ok_def split: if_splits prod.splits)
  obtain r2 a where t: "stx_amounts_add_output_token (amounts m) ty tid v = (r2, a)" by (metis surj_pair)
  have e: "r = r2" "m' = set_amounts a (m\<lparr>pm_output := out\<rparr>)" using assms(1) i r1 t by (auto simp: p2pk_output_token_cb_def)
  have "r2 = ERGO_TX_SERIALIZER_BOX_RES_OK"
    using t e(1) assms(2) by (auto simp: stx_amounts_add_output_token_def Let_def box_res_ok_def split: if_splits option.splits)
  with t have ok: "stx_amounts_add_output_token (amounts m) ty tid v = (ERGO_TX_SERIALIZER_BOX_RES_OK, a)" by simp
  have "accounts [AmOutputToken ty tid v] m m'"
    by (rule accounts_exec [where a = a]) (use ok assms(3,4) e in simp_all)
  moreover have "am_tokens_table a = tokens_table m" using add_output_token_exact [OF assms(3,4) ok] by simp
  ultimately show ?thesis using e(2) by simp
qed

lemma token_step_posts:
  assumes "box_token_step cx c m buffer input (Some tc) = Inr (c', m', buffer', input')"
    and "session_callbacks cx V c" and "amounts_wf (amounts m)" and "unat (distinct_tokens_count tc) \<le> 100"
    and "buffer_wf input" and "rw_wf buffer" "rw_size buffer = 10"
  defines "e \<equiv> take 12 (buffer_data input)"
  shows "accounts (output_token_entries (box_type c) (tokens_table m) e) m m' \<and> tokens_table m' = tokens_table m"
proof -
  let ?d = "buffer_data input"
  have frame: "box_cbs_frame c"
    using assms(2) by (auto simp: session_callbacks_def box_cbs_frame_def p2pk_output_type_cb_def p2pk_output_token_cb_def
        p2pk_output_finished_cb_def Let_def split: prod.splits)
  have w: "token_width (Some tc) = 12" by (simp add: token_width_def)
  have l: "12 \<le> length ?d" using box_token_step_trace(1) [OF assms(1,5-7) frame] by (simp add: w)
  obtain tid m1 buffer1 input1 where i: "box_token_id cx c m buffer input (Some tc) = Inr (tid, m1, buffer1, input1)"
    using assms(1) by (auto simp: box_token_step_def split: if_splits sum.splits)
  let ?i = "word_of_be (take 4 ?d) 0 :: u32"
  have rd4: "buffer_read_u32 input BE = (Some ?i, buffer_skip input 4)" using l assms(5) by (simp add: buffer_read_u32_be_eq)
  have 1: "only_hash m m1" "tid = tt_tokens (tokens_table m) ! unat ?i" "?i < ucast (distinct_tokens_count tc)"
    "buffer_wf input1" "buffer_data input1 = drop 4 ?d"
    using i rd4 box_token_id_trace [OF i assms(5-7)]
    by (auto simp: box_token_id_def not_le dest!: only_hash_update only_hash_amounts split: if_splits prod.splits)
  have "unat ?i < 100" using 1(3) assms(4) by (simp add: word_less_nat_alt unat_ucast_up)
  then have tid: "length tid = 32" using assms(3) 1(2) by (simp add: amounts_wf_def token_table_wf_def)
  let ?v = "word_of_be (take 8 (drop 4 ?d)) 0 :: u64"
  have rd8: "buffer_read_u64 input1 BE = (Some ?v, buffer_skip input1 8)" using l 1(4,5) by (simp add: buffer_read_u64_be_eq)
  obtain m2 res where m2: "only_hash m1 m2" and cb: "p2pk_output_token_cb (box_type c) tid ?v m2 = (res, m')" "box_res_ok res"
    using assms(1,2) i rd8 by (auto simp: box_token_step_def session_callbacks_def dest!: only_hash_update split: if_splits prod.splits)
  have am: "amounts m2 = amounts m" "tokens_table m2 = tokens_table m"
    using only_hash_amounts [OF only_hash_trans [OF 1(1) m2]] by simp_all
  have "output_token_entries (box_type c) (tokens_table m) e = [AmOutputToken (box_type c) tid ?v]"
    using l by (simp add: output_token_entries_def e_def chunks.simps [of 12 "take 12 ?d"] chunks.simps [of 12 "[]"] 1(2) drop_take min_def)
  with output_token_cb_posts [OF cb _ tid] am assms(3) accounts_after_same [of _ m2 m' m] show ?thesis by simp
qed

lemma entries_Cons:
  assumes "12 \<le> length d"
  shows "output_token_entries ty table d =
     output_token_entries ty table (take 12 d) @ output_token_entries ty table (drop 12 d)"
proof -
  have "chunks 12 d = chunks 12 (take 12 d) @ chunks 12 (drop 12 d)"
    using assms by (subst chunks.simps) (simp add: chunks.simps [of 12 "take 12 d"] chunks.simps [of 12 "[]"])
  then show ?thesis by (simp add: output_token_entries_def)
qed

lemma tokens_loop_posts:
  assumes "box_tokens_loop cx c m buffer input (Some tc) = Inr (c', m', input')"
    and "session_callbacks cx V c" and "amounts_wf (amounts m)" and "unat (distinct_tokens_count tc) \<le> 100"
    and "buffer_wf input" and "rw_wf buffer" "rw_size buffer = 10"
  shows "accounts (output_token_entries (box_type c) (tokens_table m) (buffer_data input)) m m' \<and>
     box_callbacks c' = box_callbacks c \<and> box_value c' = box_value c"
  using assms
proof (induction cx c m buffer input "Some tc" rule: box_tokens_loop.induct)
  case (1 cx c m buffer input)
  note run = "1.prems"(1) [unfolded box_tokens_loop.simps [of cx c m buffer input "Some tc"]]
  have frame: "box_cbs_frame c"
    using "1.prems"(2) by (auto simp: session_callbacks_def box_cbs_frame_def p2pk_output_type_cb_def p2pk_output_token_cb_def
        p2pk_output_finished_cb_def Let_def split: prod.splits)
  show ?case
  proof (cases "buffer_data input = []")
    case True
    then have "buffer_data_len input = 0" using "1.prems"(5) by (simp add: buffer_data_empty_iff)
    with run True "1.prems"(3) show ?thesis by (simp add: output_token_entries_def chunks.simps accounts_same)
  next
    case False
    then have pos: "0 < buffer_data_len input" using "1.prems"(5) by (simp add: buffer_data_empty_iff word_neq_0_conv)
    then obtain c1 m1 buffer1 input1 where st: "box_token_step cx c m buffer input (Some tc) = Inr (c1, m1, buffer1, input1)"
      and r: "box_tokens_loop cx c1 m1 buffer1 input1 (Some tc) = Inr (c', m', input')"
      using run by (auto split: sum.splits)
    note t = box_token_step_trace [OF st "1.prems"(5-7) frame]
    note s = token_step_posts [OF st "1.prems"(2-7)]
    have w: "token_width (Some tc) = 12" by (simp add: token_width_def)
    have c1: "session_callbacks cx V c1" "box_type c1 = box_type c" "box_callbacks c1 = box_callbacks c" "box_value c1 = box_value c"
      using t(7) "1.prems"(2) by (simp_all add: session_callbacks_def)
    note IH = "1.hyps" [OF pos st refl refl refl r c1(1) accounts_wf [OF conjunct1 [OF s]] "1.prems"(4) t(2,4,5)]
    have d: "output_token_entries (box_type c) (tokens_table m) (buffer_data input) =
        output_token_entries (box_type c) (tokens_table m) (take 12 (buffer_data input)) @
        output_token_entries (box_type c1) (tokens_table m1) (buffer_data input1)"
      using entries_Cons [of "buffer_data input"] t(1,3) s c1(2) by (simp add: w)
    show ?thesis unfolding d using accounts_append [OF conjunct1 [OF s] conjunct1 [OF IH]] IH c1 by simp
  qed
qed

lemma output_tokens_posts:
  assumes "ergo_tx_serializer_box_add_tokens cx c m b (Some tc) = (r, c', m', b')" and "box_res_ok r"
    and "session_callbacks cx V c" and "amounts_wf (amounts m)" and "unat (distinct_tokens_count tc) \<le> 100" and "buffer_wf b"
  shows "box_posts cx V (output_token_entries (box_type c) (tokens_table m) (buffer_data b)) c m c' m'"
proof -
  let ?l = "box_tokens_loop cx c m (rw_buffer_new_local_empty 10) b (Some tc)"
  have st: "box_state c = ERGO_TX_SERIALIZER_BOX_STATE_TREE_ADDED"
    using assms(1,2) by (auto simp: ergo_tx_serializer_box_add_tokens_def Let_def split: if_splits)
  then obtain c2 m2 b2 where lp: "?l = Inr (c2, m2, b2)"
    using assms(1,2) box_tokens_loop_Inl [of cx c m "rw_buffer_new_local_empty 10" b "Some tc"]
    by (cases ?l) (auto simp: ergo_tx_serializer_box_add_tokens_def Let_def)
  have b0: "rw_wf (rw_buffer_new_local_empty 10)" "rw_size (rw_buffer_new_local_empty 10) = 10" by (simp_all add: wf_intros buf_simps)
  note s = tokens_loop_posts [OF lp assms(3-6) b0]
  let ?c3 = "c2\<lparr>box_state := ERGO_TX_SERIALIZER_BOX_STATE_TOKENS_ADDED\<rparr>"
  obtain r3 c3 m3 where e: "add_empty_registers_count cx c2 m2 = (r3, c3, m3)" by (metis prod_cases3)
  obtain r4 c4 m4 where f: "box_finished c3 m3 = (r4, c4, m4)" by (metis prod_cases3)
  have am3: "amounts m3 = amounts m2" using only_hash_amounts [OF only_hash_registers_count [OF e]] by simp
  have "(m' = m2 \<and> box_callbacks c' = box_callbacks c2 \<and> box_value c' = box_value c2) \<or> (m' = m4 \<and> c' = c4 \<and> box_res_ok r3)"
    using assms(1,2) st lp e f by (auto simp: ergo_tx_serializer_box_add_tokens_def Let_def split: if_splits)
  then show ?thesis
  proof
    assume x: "m' = m2 \<and> box_callbacks c' = box_callbacks c2 \<and> box_value c' = box_value c2"
    then show ?thesis using s assms(3) by (simp add: box_posts_def session_callbacks_def)
  next
    assume x: "m' = m4 \<and> c' = c4 \<and> box_res_ok r3"
    then have "c3 = c2" using height_same(2) [OF e] by simp
    then have sc: "session_callbacks cx V c3" "box_value c3 = box_value c" using s assms(3) by (simp_all add: session_callbacks_def)
    note y = box_finished_amounts [OF sc(1) f]
    have "amounts m' = amounts m2" using y am3 x by simp
    then show ?thesis
      using accounts_then_same [OF conjunct1 [OF s], of m'] y x sc by (simp add: box_posts_def session_callbacks_def)
  qed
qed

subsection \<open>The whole serializer\<close>

text \<open>What stays of the contexts and of the memory at the end of an input and of the data inputs.\<close>

definition kept :: "'h p2pk_mem full_ctx \<Rightarrow> 'h p2pk_mem \<Rightarrow> 'h p2pk_mem full_ctx \<Rightarrow> 'h p2pk_mem \<Rightarrow> bool" where
  "kept c m c' m' \<longleftrightarrow> only_hash m m' \<and> full_input_ctx c' = full_input_ctx c \<and> full_table_ctx c' = full_table_ctx c"

lemma kept_trans: "kept c m c1 m1 \<Longrightarrow> kept c1 m1 c2 m2 \<Longrightarrow> kept c m c2 m2"
  using only_hash_trans by (auto simp: kept_def)

lemma hash_u16_only: "hash_u16 cx m v = (ok, m') \<Longrightarrow> only_hash m m'"
  by (auto simp: hash_u16_def split: prod.splits if_splits dest!: only_hash_update)

lemma only_hash_store: "only_hash (m\<lparr>hash_ctx := h\<rparr>) m' = only_hash m m'"
  by (auto simp: only_hash_def)

lemma data_inputs_finished_kept: "data_inputs_finished cx c m = (r, c', m') \<Longrightarrow> kept c m c' m'"
  by (auto simp: data_inputs_finished_def kept_def full_res_error_def Let_def only_hash_store split: prod.splits if_splits
      dest!: hash_u16_only) (auto simp: only_hash_def)

lemma input_finished_kept:
  assumes "input_finished cx c m = (r, c', m')"
  shows "kept c m c' m'"
proof -
  let ?c1 = "c\<lparr>full_inputs_count := full_inputs_count c - 1\<rparr>"
  let ?c2 = "?c1\<lparr>full_state := ERGO_TX_SERIALIZER_FULL_STATE_DATA_INPUTS_STARTED\<rparr>"
  obtain ok m1 where h: "hash_u16 cx m (full_data_inputs_count ?c1) = (ok, m1)" by (metis surj_pair)
  have k: "kept c m c1 m1" if "full_input_ctx c1 = full_input_ctx c" "full_table_ctx c1 = full_table_ctx c" for c1
    using hash_u16_only [OF h] that by (simp add: kept_def)
  have "kept c m c' m' \<or> data_inputs_finished cx ?c2 m1 = (r, c', m')"
    using assms h k by (auto simp: input_finished_def full_res_error_def Let_def kept_def split: if_splits)
  then show ?thesis using kept_trans [OF k [of ?c2] data_inputs_finished_kept] by auto
qed

lemma data_inputs_loop_kept: "data_inputs_loop cx c m b = Inr (c', m') \<Longrightarrow> kept c m c' m'"
proof (induction cx c m b rule: data_inputs_loop.induct)
  case (1 cx c m b)
  show ?case
  proof (cases "buffer_data_len b > 0")
    case True
    let ?c1 = "c\<lparr>full_data_inputs_count := full_data_inputs_count c - 1\<rparr>"
    obtain id b1 where rd: "buffer_read_bytes b ERGO_ID_LEN = (Some id, b1)"
      using "1.prems" True unfolding data_inputs_loop.simps [of cx c m b] by (auto split: if_splits option.splits prod.splits)
    obtain m1 where u: "mem_update cx m id ERGO_ID_LEN = (True, m1)" and r: "data_inputs_loop cx ?c1 m1 b1 = Inr (c', m')"
      and nz: "full_data_inputs_count c \<noteq> 0"
      using "1.prems" True rd unfolding data_inputs_loop.simps [of cx c m b] by (auto split: if_splits prod.splits)
    have "kept ?c1 m1 c' m'" using "1.IH" True nz rd u r by simp
    moreover have "kept c m ?c1 m1" using only_hash_update [OF u] by (simp add: kept_def)
    ultimately show ?thesis by (rule kept_trans [rotated])
  next
    case False
    then show ?thesis using "1.prems" unfolding data_inputs_loop.simps [of cx c m b] by (simp add: kept_def)
  qed
qed

lemma data_inputs_kept:
  assumes "ergo_tx_serializer_full_add_data_inputs cx c m b = (r, c', m')" and "full_res_ok r"
  shows "kept c m c' m'"
proof -
  have "\<exists>c1 m1. data_inputs_loop cx c m b = Inr (c1, m1)"
    using assms data_inputs_loop_not_ok [of cx c m b]
    by (cases "data_inputs_loop cx c m b") (auto simp: ergo_tx_serializer_full_add_data_inputs_def split: if_splits)
  then obtain c1 m1 where l: "data_inputs_loop cx c m b = Inr (c1, m1)" by blast
  note k = data_inputs_loop_kept [OF l]
  have "data_inputs_finished cx c1 m1 = (r, c', m') \<or> (c' = c1 \<and> m' = m1)"
    using assms l by (auto simp: ergo_tx_serializer_full_add_data_inputs_def split: if_splits)
  then show ?thesis using k kept_trans [OF k data_inputs_finished_kept] by blast
qed

lemma extension_amounts:
  fixes m :: "'h p2pk_mem"
  assumes "ergo_tx_serializer_full_add_input_context_extension cx c m b = (r, c', m')" and "full_res_ok r"
  shows "only_hash m m' \<and> on_token_cb (full_input_ctx c') = on_token_cb (full_input_ctx c) \<and>
     input_box_id (full_input_ctx c') = input_box_id (full_input_ctx c) \<and> full_table_ctx c' = full_table_ctx c"
proof -
  obtain r1 ic m1 where i: "ergo_tx_serializer_input_add_context_extension cx (full_input_ctx c) m b = (r1, ic, m1)" by (metis prod_cases3)
  have ic: "only_hash m m1 \<and> on_token_cb ic = on_token_cb (full_input_ctx c) \<and> input_box_id ic = input_box_id (full_input_ctx c)"
    using i by (auto simp: ergo_tx_serializer_input_add_context_extension_def input_res_error_def Let_def
        split: if_splits prod.splits dest!: only_hash_update)
  let ?c1 = "c\<lparr>full_input_ctx := ic\<rparr>"
  have "input_finished cx ?c1 m1 = (r, c', m') \<or> (c' = ?c1 \<and> m' = m1)"
    using assms i by (auto simp: ergo_tx_serializer_full_add_input_context_extension_def check_call_data_is_finished_def
        full_res_ok_def split: if_splits)
  then have "kept ?c1 m1 c' m'"
  proof
    assume "input_finished cx ?c1 m1 = (r, c', m')"
    then show ?thesis by (rule input_finished_kept)
  qed (simp add: kept_def)
  then show ?thesis using ic only_hash_trans by (auto simp: kept_def)
qed

lemma input_tokens_posts:
  assumes "ergo_tx_serializer_full_add_input_tokens cx c m bid i b = (r, c', m')" and "full_res_ok r"
    and "on_token_cb (full_input_ctx c) = Some p2pk_input_token_cb" and "length (input_box_id (full_input_ctx c)) = 32"
    and "amounts_wf (amounts m)" and "buffer_wf b" and "length bid = 32"
  shows "accounts (map (\<lambda>(t, v). AmInputToken bid t v) (frame_tokens (buffer_data b))) m m' \<and>
     on_token_cb (full_input_ctx c') = Some p2pk_input_token_cb \<and>
     length (input_box_id (full_input_ctx c')) = 32 \<and> full_table_ctx c' = full_table_ctx c \<and> pm_output m' = pm_output m"
proof -
  let ?ic = "full_input_ctx c"
  obtain r1 ic m1 where s: "ergo_tx_serializer_input_add_tokens cx ?ic m bid i b = (r1, ic, m1)" by (metis prod_cases3)
  have nm: "input_cb_no_more ?ic"
    using assms(3) p2pk_input_cb_ok by (auto simp: input_cb_no_more_def input_cb_ok_def)
  have ok: "input_res_ok r1"
    using assms(1,2) s by (auto simp: ergo_tx_serializer_full_add_input_tokens_def check_call_data_is_finished_def split: if_splits)
  obtain m2 where d: "accumulate (deliver_token ?ic) m (frame_tokens (buffer_data b)) = Some m2"
    and bid: "bid = input_box_id ?ic"
    and e: "(\<exists>c1. c1 = ?ic\<lparr>frames_processed := frames_processed ?ic + 1\<rparr> \<and>
        (input_frames_done cx c1 m2 bid = (r1, ic, m1) \<or> (ic = c1 \<and> m1 = m2)))"
    using input_add_tokens_trace [OF s ok assms(6,7,4) nm] by (auto split: if_splits)
  have len: "\<forall>(t, v)\<in>set (frame_tokens (buffer_data b)). length t = 32"
    using length_frame_token [of _ "buffer_data b"] by auto
  note p = input_callback_posts [OF d assms(3) len assms(5)]
  have ic: "only_hash m2 m1" "on_token_cb ic = on_token_cb ?ic \<and> input_box_id ic = input_box_id ?ic"
    using e by (auto simp: input_frames_done_def input_res_error_def split: if_splits prod.splits dest!: only_hash_update
        intro: only_hash_trans)
  let ?c1 = "c\<lparr>full_input_ctx := ic\<rparr>"
  have "input_finished cx ?c1 m1 = (r, c', m') \<or> (c' = ?c1 \<and> m' = m1)"
    using assms(1,2) s by (auto simp: ergo_tx_serializer_full_add_input_tokens_def check_call_data_is_finished_def
        full_res_ok_def split: if_splits)
  then have "kept ?c1 m1 c' m'"
  proof
    assume "input_finished cx ?c1 m1 = (r, c', m')"
    then show ?thesis by (rule input_finished_kept)
  qed (simp add: kept_def)
  then have "only_hash m2 m'" "full_input_ctx c' = ic" "full_table_ctx c' = full_table_ctx c"
    using only_hash_trans [OF ic(1)] by (auto simp: kept_def)
  moreover from this(1) have "amounts m' = amounts m2" "pm_output m' = pm_output m2" by (auto simp: only_hash_def)
  ultimately show ?thesis
    using accounts_then_same [OF p, of m'] input_callback_output [OF d assms(3)] ic(2) assms(3,4) bid by simp
qed


subsection \<open>The ledger of a session\<close>

text \<open>
  The entries of an operation. \<open>cur\<close> is the value of the output that is open; the entry of the output is posted by its
  script. A script that the host sends in chunks makes it a payment, which enters neither the value nor the fee.
\<close>

fun session_entries :: "'h p2pk_union \<Rightarrow> u64 \<Rightarrow> 'h p2pk \<Rightarrow> p2pk_op \<Rightarrow> amount_op list" where
  "session_entries ub cur p (P2Input bid v fc e) = [AmInput v]"
| "session_entries ub cur p (P2InputTokens bid i b) = map (\<lambda>(t, v). AmInputToken bid t v) (frame_tokens (buffer_data b))"
| "session_entries ub cur p P2TreeFee = [AmOutput ERGO_TX_SERIALIZER_BOX_TYPE_FEE cur]"
| "session_entries ub cur p (P2TreeChange path n pk) = [AmOutput ERGO_TX_SERIALIZER_BOX_TYPE_CHANGE cur]"
| "session_entries ub cur p (P2OutputTokens b) =
     output_token_entries (box_type (full_box ub (p2_tx p))) (tokens_table (p2_mem p)) (buffer_data b)"
| "session_entries ub cur p q = []"

fun open_value :: "u64 \<Rightarrow> p2pk_op \<Rightarrow> u64" where
  "open_value cur (P2Output v ts h n r) = v"
| "open_value cur q = cur"

primrec session_ledger ::
    "('h, 'x) cx_sdk_scheme \<Rightarrow> 'h out_views \<Rightarrow> 'h p2pk_union \<Rightarrow> u64 \<Rightarrow> p2pk_op list \<Rightarrow> 'h p2pk \<Rightarrow> amount_op list" where
  "session_ledger cx V ub cur [] p = []"
| "session_ledger cx V ub cur (q # qs) p =
     session_entries ub cur p q @
     (case p2pk_exec cx V ub q p of Inl err \<Rightarrow> [] | Inr p' \<Rightarrow> session_ledger cx V ub (open_value cur q) qs p')"

definition ledger_inv :: "('h, 'x) cx_sdk_scheme \<Rightarrow> 'h out_views \<Rightarrow> u64 \<Rightarrow> 'h p2pk \<Rightarrow> bool" where
  "ledger_inv cx V cur p \<longleftrightarrow>
     amounts_wf (amounts (p2_mem p)) \<and> unat (distinct_tokens_count (full_table_ctx (p2_tx p))) \<le> 100 \<and>
     (p2_state p = SIGN_TRANSACTION_OPERATION_P2PK_STATE_TX_STARTED \<longrightarrow>
        pm_tokens (p2_mem p) = replicate 100 0 \<and>
        length (table_ids (tokens_table (p2_mem p))) \<le> unat (distinct_tokens_count (full_table_ctx (p2_tx p)))) \<and>
     (p2_state p = SIGN_TRANSACTION_OPERATION_P2PK_STATE_INPUTS_STARTED \<longrightarrow>
        on_token_cb (full_input_ctx (p2_tx p)) = Some p2pk_input_token_cb \<and>
        length (input_box_id (full_input_ctx (p2_tx p))) = 32) \<and>
     (p2_state p = SIGN_TRANSACTION_OPERATION_P2PK_STATE_OUTPUTS_STARTED \<longrightarrow>
        (\<exists>bc. full_box_ctx (p2_tx p) = Some bc \<and> session_callbacks cx V bc \<and> box_value bc = cur))"

text \<open>An operation and the ledger: it posts its entries and keeps the invariant.\<close>

definition posts_entries :: "('h, 'x) cx_sdk_scheme \<Rightarrow> 'h out_views \<Rightarrow> u64 \<Rightarrow> amount_op list \<Rightarrow> 'h p2pk \<Rightarrow> 'h p2pk \<Rightarrow> bool" where
  "posts_entries cx V cur es p p' \<longleftrightarrow> accounts es (p2_mem p) (p2_mem p') \<and> ledger_inv cx V cur p'"

lemma start_ledger_inv:
  assumes "stx_operation_p2pk_start_tx cx p ni nd no nt = Inr p'"
  shows "ledger_inv cx V cur p' \<and> amounts (p2_mem p') = stx_amounts_init"
proof -
  obtain r c m where f: "ergo_tx_serializer_full_init cx ni nd no nt (p2_mem p) = (r, c, m)" by (metis prod_cases3)
  have ok: "full_res_ok r" and p': "p' = p\<lparr>p2_tx := c, p2_mem := set_amounts stx_amounts_init m,
      p2_state := SIGN_TRANSACTION_OPERATION_P2PK_STATE_TX_STARTED\<rparr>"
    using assms f by (auto simp: stx_operation_p2pk_start_tx_def p2pk_checks)
  have "distinct_tokens_count (full_table_ctx c) = nt \<and> nt \<le> TOKEN_MAX_COUNT"
    using f ok by (auto simp: ergo_tx_serializer_full_init_def Let_def full_res_error_def full_res_ok_def
        ergo_tx_serializer_table_init_def full_ctx_zero_def split: if_splits prod.splits)
  then have n: "unat (distinct_tokens_count (full_table_ctx c)) \<le> 100" by (simp add: word_le_nat_alt)
  have a: "amounts (p2_mem p') = stx_amounts_init" by (simp add: p')
  then have "pm_tokens (p2_mem p') = replicate 100 0" "tokens_table (p2_mem p') = am_tokens_table stx_amounts_init"
    by (metis amounts_simps(2) stx_amounts_init_def sign_transaction_amounts_ctx_t.select_convs(3) unat_TOKEN_MAX_COUNT,
        metis amounts_simps(1))
  then show ?thesis using n a amounts_wf_init
    by (simp add: ledger_inv_def p' stx_amounts_init_def table_ids_def)
qed

lemma token_balance_zero:
  assumes "amounts_wf a" and "am_tokens a = replicate 100 0" and "length t = 32"
  shows "token_balance a t = 0"
  using assms find_pos_100 [of "am_tokens_table a" t] by (auto simp: token_balance_def amounts_wf_def Let_def)

lemma tokens_ledger:
  assumes "stx_operation_p2pk_add_tokens p b = Inr p'" and "ledger_inv cx V cur p" and "buffer_wf b"
  shows "posts_entries cx V cur [] p p'"
proof -
  let ?c = "full_table_ctx (p2_tx p)" and ?t = "tokens_table (p2_mem p)"
  have st: "p2_state p = SIGN_TRANSACTION_OPERATION_P2PK_STATE_TX_STARTED"
    using assms(1) by (auto simp: stx_operation_p2pk_add_tokens_def p2pk_checks)
  obtain r t b1 where ad: "ergo_tx_serializer_table_add ?c ?t b = (r, t, b1)" by (metis prod_cases3)
  have i: "token_table_wf ?t" "unat (distinct_tokens_count ?c) \<le> 100" "length (table_ids ?t) \<le> unat (distinct_tokens_count ?c)"
    "pm_tokens (p2_mem p) = replicate 100 0"
    using assms(2) st by (simp_all add: ledger_inv_def amounts_wf_def)
  note s = table_add_spec [OF i(1) assms(3) i(2,3) ad]
  have r: "r = ERGO_TX_SERIALIZER_TABLE_RES_OK \<or> r = ERGO_TX_SERIALIZER_TABLE_RES_MORE_DATA" and
    p': "p2_state p' = p2_state p" "p2_mem p' = (p2_mem p)\<lparr>tokens_table := t\<rparr>" "full_table_ctx (p2_tx p') = ?c"
    using assms(1) ad by (auto simp: stx_operation_p2pk_add_tokens_def p2pk_checks ergo_tx_serializer_full_add_tokens_def
        check_call_data_is_finished_def full_res_error_def split: if_splits)
  have t: "token_table_wf t" "length (table_ids t) \<le> unat (distinct_tokens_count ?c)"
    using s r by (auto simp: length_chunks split: if_splits)
  have wf: "amounts_wf (amounts (p2_mem p'))" using t i(4) by (simp add: amounts_wf_def amounts_def p')
  have bal: "token_balance (amounts (p2_mem p')) u = 0 \<and> token_balance (amounts (p2_mem p)) u = 0" if "length u = 32" for u
    using token_balance_zero [OF _ _ that] wf assms(2) i(4) by (simp add: ledger_inv_def p')
  then show ?thesis
    using wf t i(2,4) st by (simp add: posts_entries_def accounts_def ledger_inv_def p')
qed


lemma ledger_input_posts:
  assumes "ledger_inv cx V cur p" and "p2_state p = SIGN_TRANSACTION_OPERATION_P2PK_STATE_INPUTS_STARTED"
    and "p2_state p' = p2_state p" and "accounts es (p2_mem p) (p2_mem p')"
    and "on_token_cb (full_input_ctx (p2_tx p')) = on_token_cb (full_input_ctx (p2_tx p))"
    and "length (input_box_id (full_input_ctx (p2_tx p'))) = length (input_box_id (full_input_ctx (p2_tx p)))"
    and "full_table_ctx (p2_tx p') = full_table_ctx (p2_tx p)"
  shows "posts_entries cx V cur es p p'"
  using assms by (simp add: posts_entries_def ledger_inv_def accounts_wf)

lemma input_ledger:
  assumes "stx_operation_p2pk_add_input p bid v fc e = Inr p'" and "ledger_inv cx V cur p" and "length bid = 32"
  shows "posts_entries cx V cur [AmInput v] p p'"
proof -
  obtain r c m where 1: "ergo_tx_serializer_full_add_input (p2_tx p) (p2_mem p) bid fc e = (r, c, m)" by (metis prod_cases3)
  obtain r2 c2 where 2: "ergo_tx_serializer_full_set_input_callback c (Some p2pk_input_token_cb) = (r2, c2)" by (metis surj_pair)
  obtain sw a where 3: "stx_amounts_add_input (amounts m) v = (sw, a)" by (metis surj_pair)
  have p': "full_res_ok r" "full_res_ok r2" "sw = SW_OK"
    "p' = p\<lparr>p2_tx := c2, p2_mem := set_amounts a m, p2_state := SIGN_TRANSACTION_OPERATION_P2PK_STATE_INPUTS_STARTED\<rparr>"
    using assms 1 2 3 by (auto simp: stx_operation_p2pk_add_input_def p2pk_checks split: if_splits)
  have c: "m = p2_mem p" "input_box_id (full_input_ctx c) = bid" "full_table_ctx c = full_table_ctx (p2_tx p)"
    using 1 p'(1) assms(3) by (auto simp: ergo_tx_serializer_full_add_input_def full_res_error_def full_res_ok_def
        ergo_tx_serializer_input_init_def Let_def ERGO_ID_LEN_def split: if_splits)
  have c2: "on_token_cb (full_input_ctx c2) = Some p2pk_input_token_cb" "input_box_id (full_input_ctx c2) = bid"
    "full_table_ctx c2 = full_table_ctx (p2_tx p)"
    using 2 p'(2) c by (auto simp: ergo_tx_serializer_full_set_input_callback_def ergo_tx_serializer_input_set_callback_def
        full_res_ok_def split: if_splits)
  have "accounts [AmInput v] (p2_mem p) (p2_mem p')"
    by (rule accounts_exec [where a = a]) (use 3 p' c assms(2) in \<open>simp_all add: ledger_inv_def\<close>)
  with accounts_wf [OF this] c2 assms(2,3) show ?thesis by (simp add: posts_entries_def ledger_inv_def p')
qed

lemma input_tokens_ledger:
  assumes "stx_operation_p2pk_add_input_tokens cx p bid i b = Inr p'" and "ledger_inv cx V cur p" and "length bid = 32" and "buffer_wf b"
  shows "posts_entries cx V cur (map (\<lambda>(t, v). AmInputToken bid t v) (frame_tokens (buffer_data b))) p p'"
proof -
  obtain r c m where f: "ergo_tx_serializer_full_add_input_tokens cx (p2_tx p) (p2_mem p) bid i b = (r, c, m)" by (metis prod_cases3)
  have st: "p2_state p = SIGN_TRANSACTION_OPERATION_P2PK_STATE_INPUTS_STARTED" "full_res_ok r" "p' = p\<lparr>p2_tx := c, p2_mem := m\<rparr>"
    using assms(1) f by (auto simp: stx_operation_p2pk_add_input_tokens_def p2pk_checks)
  have i: "on_token_cb (full_input_ctx (p2_tx p)) = Some p2pk_input_token_cb" "length (input_box_id (full_input_ctx (p2_tx p))) = 32"
    "amounts_wf (amounts (p2_mem p))"
    using assms(2) st(1) by (simp_all add: ledger_inv_def)
  from input_tokens_posts [OF f st(2) i assms(4,3)] show ?thesis
    by (intro ledger_input_posts [OF assms(2) st(1)]) (simp_all add: st(3) i)
qed

lemma extension_ledger:
  assumes "stx_operation_p2pk_add_input_context_extension cx p b = Inr p'" and "ledger_inv cx V cur p"
  shows "posts_entries cx V cur [] p p'"
proof -
  obtain r c m where f: "ergo_tx_serializer_full_add_input_context_extension cx (p2_tx p) (p2_mem p) b = (r, c, m)" by (metis prod_cases3)
  have st: "p2_state p = SIGN_TRANSACTION_OPERATION_P2PK_STATE_INPUTS_STARTED" "full_res_ok r" "p' = p\<lparr>p2_tx := c, p2_mem := m\<rparr>"
    using assms(1) f by (auto simp: stx_operation_p2pk_add_input_context_extension_def p2pk_checks)
  from extension_amounts [OF f st(2)] assms(2) show ?thesis
    by (intro ledger_input_posts [OF assms(2) st(1)]) (auto simp: st(3) ledger_inv_def dest: only_hash_amounts intro: accounts_same)
qed

lemma data_inputs_ledger:
  assumes "stx_operation_p2pk_add_data_inputs cx p b = Inr p'" and "ledger_inv cx V cur p"
  shows "posts_entries cx V cur [] p p'"
proof -
  obtain r c m where f: "ergo_tx_serializer_full_add_data_inputs cx (p2_tx p) (p2_mem p) b = (r, c, m)" by (metis prod_cases3)
  have st: "p2_state p = SIGN_TRANSACTION_OPERATION_P2PK_STATE_INPUTS_STARTED" "full_res_ok r" "p' = p\<lparr>p2_tx := c, p2_mem := m\<rparr>"
    using assms(1) f by (auto simp: stx_operation_p2pk_add_data_inputs_def p2pk_checks)
  from data_inputs_kept [OF f st(2)] assms(2) show ?thesis
    by (intro ledger_input_posts [OF assms(2) st(1)]) (auto simp: st(3) ledger_inv_def kept_def dest: only_hash_amounts intro: accounts_same)
qed

subsection \<open>The entries of the outputs\<close>

lemma output_ledger:
  assumes "stx_operation_p2pk_add_output cx V ub p v ts h n r = Inr p'" and "ledger_inv cx V cur p"
  shows "posts_entries cx V v [] p p'"
proof -
  obtain r1 c m where 1: "ergo_tx_serializer_full_add_box cx (p2_tx p) (p2_mem p) v ts h n r = (r1, c, m)" by (metis prod_cases3)
  obtain r2 c2 where 2: "ergo_tx_serializer_full_set_box_callbacks ub c (Some p2pk_output_type_cb) (Some p2pk_output_token_cb)
      (Some (p2pk_output_finished_cb cx V)) = (r2, c2)" by (metis surj_pair)
  have p': "full_res_ok r1" "full_res_ok r2"
    "p' = p\<lparr>p2_tx := c2, p2_mem := m\<lparr>pm_output := stx_output_info_init v\<rparr>,
        p2_state := SIGN_TRANSACTION_OPERATION_P2PK_STATE_OUTPUTS_STARTED\<rparr>"
    using assms 1 2 by (auto simp: stx_operation_p2pk_add_output_def p2pk_checks)
  obtain r3 bc m1 where 3: "ergo_tx_serializer_box_init cx v ts h n r (p2_mem p) = (r3, bc, m1)" by (metis prod_cases3)
  have c: "m = m1" "box_res_ok r3" "full_box_ctx c = Some bc" "full_table_ctx c = full_table_ctx (p2_tx p)"
    using 1 3 p'(1) by (auto simp: ergo_tx_serializer_full_add_box_def full_res_error_def Let_def split: if_splits)
  have bc: "box_value bc = v" "amounts m1 = amounts (p2_mem p)"
    using 3 c(2) by (auto simp: ergo_tx_serializer_box_init_def box_res_error_def box_res_ok_def Let_def update_amounts
        split: if_splits prod.splits)
  have "full_box_ctx c2 = Some (ergo_tx_serializer_box_set_callbacks bc (Some p2pk_output_type_cb) (Some p2pk_output_token_cb)
      (Some (p2pk_output_finished_cb cx V)))" "full_table_ctx c2 = full_table_ctx (p2_tx p)"
    using 2 p'(2) c by (auto simp: ergo_tx_serializer_full_set_box_callbacks_def full_box_def full_res_ok_def split: if_splits)
  then show ?thesis using bc c assms(2)
    by (simp add: posts_entries_def ledger_inv_def p' session_callbacks_def ergo_tx_serializer_box_set_callbacks_def accounts_same)
qed

text \<open>The end of a box operation keeps the memory, the box and the table context.\<close>

definition closes_box :: "'h p2pk_mem full_ctx \<Rightarrow> 'h p2pk_mem box_ctx \<Rightarrow> 'h p2pk_mem \<Rightarrow> 'h p2pk_mem full_ctx \<Rightarrow> 'h p2pk_mem \<Rightarrow> bool" where
  "closes_box c bc m c' m' \<longleftrightarrow> m' = m \<and> full_box_ctx c' = Some bc \<and> full_table_ctx c' = full_table_ctx c"

lemma output_finished_closes: "output_finished (c\<lparr>full_box_ctx := Some bc\<rparr>) m = (r, c', m') \<Longrightarrow> closes_box c bc m c' m'"
  by (auto simp: output_finished_def closes_box_def Let_def)

lemma box_done_closes: "box_done ub (c\<lparr>full_box_ctx := Some bc\<rparr>) m = (r, c', m') \<Longrightarrow> closes_box c bc m c' m'"
  by (auto simp: box_done_def closes_box_def dest!: output_finished_closes split: if_splits)

lemma check_closes:
  assumes "check_call_data_is_finished (map_box_result r1) (c\<lparr>full_box_ctx := Some bc\<rparr>) m block = (r, c', m')" and "full_res_ok r"
    and "\<And>r c' m'. block (c\<lparr>full_box_ctx := Some bc\<rparr>) m = (r, c', m') \<Longrightarrow> closes_box c bc m c' m'"
  shows "box_res_ok r1 \<and> closes_box c bc m c' m'"
proof -
  have "full_res_ok (map_box_result r1)"
    using assms(1,2) by (auto simp: check_call_data_is_finished_def full_res_error_def full_res_ok_def split: if_splits)
  moreover have "closes_box c bc m c' m'"
    using assms by (auto simp: check_call_data_is_finished_def full_res_error_def closes_box_def split: if_splits)
  ultimately show ?thesis by simp
qed

text \<open>An operation on the open box, with what the box posts.\<close>

lemma box_ledger:
  assumes "ledger_inv cx V cur p" and "p2_state p = SIGN_TRANSACTION_OPERATION_P2PK_STATE_OUTPUTS_STARTED"
    and "p2_state p' \<in> {p2_state p, SIGN_TRANSACTION_OPERATION_P2PK_STATE_TX_FINISHED}"
    and "closes_box (p2_tx p) bc m (p2_tx p') m1" and "amounts (p2_mem p') = amounts m1"
    and "box_posts cx V es (full_box ub (p2_tx p)) (p2_mem p) bc m"
  shows "posts_entries cx V cur es p p'"
proof -
  have "box_value (full_box ub (p2_tx p)) = cur" using assms(1,2) by (auto simp: ledger_inv_def full_box_def)
  moreover have "accounts es (p2_mem p) (p2_mem p')"
    using assms(4-6) accounts_then_same [of es "p2_mem p" m "p2_mem p'"] by (simp add: box_posts_def closes_box_def)
  ultimately show ?thesis
    using assms by (auto simp: posts_entries_def ledger_inv_def closes_box_def box_posts_def accounts_wf)
qed

lemma open_box:
  assumes "ledger_inv cx V cur p" and "p2_state p = SIGN_TRANSACTION_OPERATION_P2PK_STATE_OUTPUTS_STARTED"
  shows "session_callbacks cx V (full_box ub (p2_tx p))" "box_value (full_box ub (p2_tx p)) = cur" "amounts_wf (amounts (p2_mem p))"
    "unat (distinct_tokens_count (full_table_ctx (p2_tx p))) \<le> 100"
  using assms by (auto simp: ledger_inv_def full_box_def)


lemma tree_chunk_ledger:
  assumes "stx_operation_p2pk_add_output_tree_chunk cx V ub p b = Inr p'" and "ledger_inv cx V cur p"
  shows "posts_entries cx V cur [] p p'"
proof -
  obtain r c m where f: "ergo_tx_serializer_full_add_box_ergo_tree cx ub (p2_tx p) (p2_mem p) b = (r, c, m)" by (metis prod_cases3)
  have st: "p2_state p = SIGN_TRANSACTION_OPERATION_P2PK_STATE_OUTPUTS_STARTED" "full_res_ok r" "p2_tx p' = c"
    "p2_state p' \<in> {p2_state p, SIGN_TRANSACTION_OPERATION_P2PK_STATE_TX_FINISHED}" "amounts (p2_mem p') = amounts m"
    using assms(1) f by (auto simp: stx_operation_p2pk_add_output_tree_chunk_def p2pk_checks Let_def split: if_splits)
  obtain r1 bc m1 b1 where t: "ergo_tx_serializer_box_add_tree cx (full_box ub (p2_tx p)) (p2_mem p) b = (r1, bc, m1, b1)" by (metis prod_cases4)
  have cl: "box_res_ok r1 \<and> closes_box (p2_tx p) bc m1 (p2_tx p') m"
    by (rule check_closes [where block = "box_done ub", OF _ st(2) box_done_closes])
      (use f t st(2,3) in \<open>auto simp: ergo_tx_serializer_full_add_box_ergo_tree_def full_res_error_def full_res_ok_def split: if_splits\<close>)
  note po = tree_chunk_posts [OF t conjunct1 [OF cl] open_box(1,3) [OF assms(2) st(1)]]
  show ?thesis using box_ledger [OF assms(2) st(1,4) conjunct2 [OF cl] st(5) po] by simp
qed

lemma fee_tree_ledger:
  assumes "stx_operation_p2pk_add_output_tree_fee cx V ub p = Inr p'" and "ledger_inv cx V cur p"
  shows "posts_entries cx V cur [AmOutput ERGO_TX_SERIALIZER_BOX_TYPE_FEE cur] p p'"
proof -
  let ?n = "network_id_is_mainnet (p2_network_id p)"
  obtain r c m where f: "ergo_tx_serializer_full_add_box_miners_fee_tree cx ub (p2_tx p) (p2_mem p) ?n = (r, c, m)" by (metis prod_cases3)
  have st: "p2_state p = SIGN_TRANSACTION_OPERATION_P2PK_STATE_OUTPUTS_STARTED" "full_res_ok r" "p2_tx p' = c"
    "p2_state p' \<in> {p2_state p, SIGN_TRANSACTION_OPERATION_P2PK_STATE_TX_FINISHED}" "amounts (p2_mem p') = amounts m"
    using assms(1) f by (auto simp: stx_operation_p2pk_add_output_tree_fee_def p2pk_checks split: if_splits)
  obtain r1 bc m1 where t: "ergo_tx_serializer_box_add_miners_fee_tree cx (full_box ub (p2_tx p)) (p2_mem p) ?n = (r1, bc, m1)"
    by (metis prod_cases3)
  have cl: "box_res_ok r1 \<and> closes_box (p2_tx p) bc m1 (p2_tx p') m"
    using f t st(2,3) by (auto simp: ergo_tx_serializer_full_add_box_miners_fee_tree_def full_res_error_def Let_def
        dest!: box_done_closes split: if_splits)
  note o = open_box [OF assms(2) st(1)]
  note po = fee_tree_posts [OF t conjunct1 [OF cl] o(1,3)]
  show ?thesis using box_ledger [OF assms(2) st(1,4) conjunct2 [OF cl] st(5) po] o(2) by simp
qed

lemma change_tree_ledger:
  assumes "stx_operation_p2pk_add_output_tree_change cx V ub p path n pk = Inr p'" and "ledger_inv cx V cur p"
  shows "posts_entries cx V cur [AmOutput ERGO_TX_SERIALIZER_BOX_TYPE_CHANGE cur] p p'"
proof -
  obtain r c m where f: "ergo_tx_serializer_full_add_box_change_tree cx ub (p2_tx p) (p2_mem p) pk = (r, c, m)" by (metis prod_cases3)
  have st: "p2_state p = SIGN_TRANSACTION_OPERATION_P2PK_STATE_OUTPUTS_STARTED" "full_res_ok r" "p2_tx p' = c"
    "p2_state p' \<in> {p2_state p, SIGN_TRANSACTION_OPERATION_P2PK_STATE_TX_FINISHED}" "amounts (p2_mem p') = amounts m"
    using assms(1) f by (auto simp: stx_operation_p2pk_add_output_tree_change_def p2pk_checks split: if_splits)
  obtain r1 bc m1 where t: "ergo_tx_serializer_box_add_change_tree cx (full_box ub (p2_tx p)) (p2_mem p) pk = (r1, bc, m1)"
    by (metis prod_cases3)
  have cl: "box_res_ok r1 \<and> closes_box (p2_tx p) bc m1 (p2_tx p') m"
    using f t st(2,3) by (auto simp: ergo_tx_serializer_full_add_box_change_tree_def full_res_error_def Let_def
        dest!: box_done_closes split: if_splits)
  note o = open_box [OF assms(2) st(1)]
  note po = change_tree_posts [OF t conjunct1 [OF cl] o(1,3)]
  show ?thesis using box_ledger [OF assms(2) st(1,4) conjunct2 [OF cl] st(5) po] o(2) by simp
qed

lemma output_tokens_ledger:
  assumes "stx_operation_p2pk_add_output_tokens cx ub p b = Inr p'" and "ledger_inv cx V cur p" and "buffer_wf b"
  shows "posts_entries cx V cur (session_entries ub cur p (P2OutputTokens b)) p p'"
proof -
  obtain r c m where f: "ergo_tx_serializer_full_add_box_tokens cx ub (p2_tx p) (p2_mem p) b = (r, c, m)" by (metis prod_cases3)
  have st: "p2_state p = SIGN_TRANSACTION_OPERATION_P2PK_STATE_OUTPUTS_STARTED" "full_res_ok r" "p2_tx p' = c"
    "p2_state p' \<in> {p2_state p, SIGN_TRANSACTION_OPERATION_P2PK_STATE_TX_FINISHED}" "amounts (p2_mem p') = amounts m"
    using assms(1) f by (auto simp: stx_operation_p2pk_add_output_tokens_def p2pk_checks split: if_splits)
  obtain r1 bc m1 b1 where t: "ergo_tx_serializer_box_add_tokens cx (full_box ub (p2_tx p)) (p2_mem p) b
      (Some (full_table_ctx (p2_tx p))) = (r1, bc, m1, b1)" by (metis prod_cases4)
  have cl: "box_res_ok r1 \<and> closes_box (p2_tx p) bc m1 (p2_tx p') m"
    by (rule check_closes [where block = "box_done ub", OF _ st(2) box_done_closes])
      (use f t st(2,3) in \<open>auto simp: ergo_tx_serializer_full_add_box_tokens_def full_res_error_def full_res_ok_def split: if_splits\<close>)
  note po = output_tokens_posts [OF t conjunct1 [OF cl] open_box(1,3,4) [OF assms(2) st(1)] assms(3)]
  show ?thesis using box_ledger [OF assms(2) st(1,4) conjunct2 [OF cl] st(5) po] by simp
qed

lemma registers_ledger:
  assumes "stx_operation_p2pk_add_output_registers cx ub p b = Inr p'" and "ledger_inv cx V cur p"
  shows "posts_entries cx V cur [] p p'"
proof -
  obtain r c m where f: "ergo_tx_serializer_full_add_box_registers cx ub (p2_tx p) (p2_mem p) b = (r, c, m)" by (metis prod_cases3)
  have st: "p2_state p = SIGN_TRANSACTION_OPERATION_P2PK_STATE_OUTPUTS_STARTED" "full_res_ok r" "p2_tx p' = c"
    "p2_state p' \<in> {p2_state p, SIGN_TRANSACTION_OPERATION_P2PK_STATE_TX_FINISHED}" "amounts (p2_mem p') = amounts m"
    using assms(1) f by (auto simp: stx_operation_p2pk_add_output_registers_def p2pk_checks split: if_splits)
  obtain r1 bc m1 b1 where t: "ergo_tx_serializer_box_add_registers cx (full_box ub (p2_tx p)) (p2_mem p) b = (r1, bc, m1, b1)"
    by (metis prod_cases4)
  have cl: "box_res_ok r1 \<and> closes_box (p2_tx p) bc m1 (p2_tx p') m"
    by (rule check_closes [where block = output_finished, OF _ st(2) output_finished_closes])
      (use f t st(2,3) in \<open>auto simp: ergo_tx_serializer_full_add_box_registers_def full_res_error_def full_res_ok_def split: if_splits\<close>)
  note po = registers_posts [OF t conjunct1 [OF cl] open_box(1,3) [OF assms(2) st(1)]]
  show ?thesis using box_ledger [OF assms(2) st(1,4) conjunct2 [OF cl] st(5) po] by simp
qed

lemmas op_ledgers = tokens_ledger input_ledger input_tokens_ledger extension_ledger data_inputs_ledger output_ledger
  tree_chunk_ledger fee_tree_ledger change_tree_ledger output_tokens_ledger registers_ledger

lemma exec_ledger:
  assumes "p2pk_exec cx V ub q p = Inr p'" and "ledger_inv cx V cur p" and "p2pk_op_wf q"
  shows "posts_entries cx V (open_value cur q) (session_entries ub cur p q) p p'"
  using assms by (cases q) (auto intro: op_ledgers simp del: session_entries.simps(5) simp: session_entries.simps(5) [symmetric])

lemma run_ledger:
  assumes "p2pk_run cx V ub qs p = Some p'" and "ledger_inv cx V cur p" and "\<forall>q \<in> set qs. p2pk_op_wf q"
  shows "accounts (session_ledger cx V ub cur qs p) (p2_mem p) (p2_mem p')"
  using assms
proof (induction qs arbitrary: cur p)
  case Nil
  then show ?case by (simp add: ledger_inv_def accounts_same)
next
  case (Cons q qs)
  from Cons.prems(1) obtain p1 where e: "p2pk_exec cx V ub q p = Inr p1" "p2pk_run cx V ub qs p1 = Some p'"
    by (auto split: sum.splits)
  have "posts_entries cx V (open_value cur q) (session_entries ub cur p q) p p1"
    using exec_ledger [OF e(1) Cons.prems(2)] Cons.prems(3) by simp
  with Cons.IH [OF e(2)] Cons.prems(3) e(1) show ?case by (auto simp: posts_entries_def intro: accounts_append)
qed


text \<open>
  C3. What the user confirms is what is signed. Start a transaction and feed it any sequence of operations that are all
  accepted. Then the amounts of the context, whose fee and token balances the confirmation screens show (the value is on none
  of them), are exact accounts of the received transaction over the integers: the value is the sum of the input values minus the values of the outputs that return
  to the wallet (change) or pay the miners' fee, the fee is the sum of the fee outputs, and for every token id the
  balance is what the inputs bring minus what the outputs carry, each token of an output counted under the id its index
  names in the token table. No sequence of operations wraps an amount around.
\<close>

theorem confirmed_amounts_exact:
  assumes "stx_operation_p2pk_start_tx cx p0 ni nd no nt = Inr p1"
    and "p2pk_run cx V ub qs p1 = Some p" and "\<forall>q \<in> set qs. p2pk_op_wf q" and "es = session_ledger cx V ub 0 qs p1"
  shows "uint (pm_value (p2_mem p)) = (\<Sum>e\<leftarrow>es. value_delta e) \<and> uint (pm_fee (p2_mem p)) = (\<Sum>e\<leftarrow>es. fee_delta e) \<and>
     (\<forall>t. length t = 32 \<longrightarrow> token_balance (amounts (p2_mem p)) t = (\<Sum>e\<leftarrow>es. token_delta t e))"
proof -
  note s = start_ledger_inv [OF assms(1), of _ 0]
  have z: "pm_value (p2_mem p1) = 0" "pm_fee (p2_mem p1) = 0" "am_tokens (amounts (p2_mem p1)) = replicate 100 0"
    using s by (metis amounts_simps(3) stx_amounts_init_def sign_transaction_amounts_ctx_t.select_convs(2),
      metis amounts_simps(4) stx_amounts_init_def sign_transaction_amounts_ctx_t.select_convs(1),
      simp add: stx_amounts_init_def)
  have "token_balance (amounts (p2_mem p1)) t = 0" if "length t = 32" for t
    using token_balance_zero [OF _ _ that] z(3) s amounts_wf_init by simp
  with run_ledger [OF assms(2) conjunct1 [OF s] assms(3)] z show ?thesis by (simp add: accounts_def assms(4))
qed

text \<open>Witness: an input of 1000 with seven units of a token, and a fee output of 200.\<close>

definition demo_ledger_ops :: "p2pk_op list" where
  "demo_ledger_ops = [P2Input (demo_id 5) 1000 1 0,
     P2InputTokens (demo_id 5) 0 (buffer_init (demo_id 9 @ [0, 0, 0, 0, 0, 0, 0, 7]) 40), P2Output 200 105 3 0 0, P2TreeFee]"

lemma demo_ledger_run:
  "\<not> Option.is_none (p2pk_run demo_device demo_views demo_p2pk_union demo_ledger_ops
     (demo_started h k (replicate 100 (replicate 32 0)) (replicate 100 0) (stx_output_info_init 0)))"
  by code_simp


lemma demo_ledger_entries:
  "session_ledger demo_device demo_views demo_p2pk_union 0 demo_ledger_ops
     (demo_started h k (replicate 100 (replicate 32 0)) (replicate 100 0) (stx_output_info_init 0)) =
   [AmInput 1000, AmInputToken (demo_id 5) (demo_id 9) 7, AmOutput ERGO_TX_SERIALIZER_BOX_TYPE_FEE 200]"
  by code_simp

theorem confirmed_amounts_exact_witness:
  "\<exists>p1 p. stx_operation_p2pk_start_tx demo_device (demo_opened [] []) 1 0 1 0 = Inr p1 \<and>
     p2pk_run demo_device demo_views demo_p2pk_union demo_ledger_ops p1 = Some p \<and>
     uint (pm_value (p2_mem p)) = 800 \<and> uint (pm_fee (p2_mem p)) = 200 \<and> token_balance (amounts (p2_mem p)) (demo_id 9) = 7"
proof -
  let ?p1 = "demo_started [] [] (replicate 100 (replicate 32 0)) (replicate 100 0) (stx_output_info_init 0)"
  obtain p where p: "p2pk_run demo_device demo_views demo_p2pk_union demo_ledger_ops ?p1 = Some p"
    using demo_ledger_run [of "[]" "[]"] by (auto simp: Option.is_none_def)
  have id32: "length (demo_id x) = 32" for x by (simp add: demo_id_def)
  have wf: "\<forall>q \<in> set demo_ledger_ops. p2pk_op_wf q" by (simp add: demo_ledger_ops_def id32 wf_intros)
  from confirmed_amounts_exact [OF demo_p2pk_start p wf refl] demo_p2pk_start p show ?thesis
    by (simp add: demo_ledger_entries id32 del: p2pk_run.simps)
qed

end
