(* ===== verification/SessionTypes.thy ===== *)
theory SessionTypes
  imports SessionAmounts
begin

text \<open>
  The types of a signing session. A context of \<^verbatim>\<open>stx_op_p2pk.h\<close> conforms when every array in it has its declared
  number of entries and every counter that bounds an access is within the array: the table of token ids, the balances
  of the tokens, the tokens of the output on display, the path and the ephemeral key. Lists and the partial indexing
  of HOL then stand for the arrays of the source.
\<close>

definition slots_kept :: "'h p2pk_mem \<Rightarrow> 'h p2pk_mem \<Rightarrow> bool" where
  "slots_kept m m' \<longleftrightarrow> length (oi_tokens (pm_output m')) = length (oi_tokens (pm_output m))"

lemma slots_same: "pm_output m' = pm_output m \<Longrightarrow> slots_kept m m'"
  by (simp add: slots_kept_def)

lemma slots_trans: "slots_kept m m1 \<Longrightarrow> slots_kept m1 m2 \<Longrightarrow> slots_kept m m2"
  by (simp add: slots_kept_def)

lemma maybe_finished_tokens: "oi_tokens (snd (maybe_finished cx V out)) = oi_tokens out"
  by (simp add: maybe_finished_def split: prod.splits)

lemma add_token_slots: "length (oi_tokens (snd (stx_output_info_add_token out t i v))) = length (oi_tokens out)"
  by (simp add: stx_output_info_add_token_def Let_def)

text \<open>The callbacks of a session keep the slots of the output.\<close>

interpretation session_slots: box_token_frame slots_kept
  "\<lambda>cb. cb = \<lparr>on_type = Some p2pk_output_type_cb, on_token = Some p2pk_output_token_cb, on_finished = Some (p2pk_output_finished_cb cx V)\<rparr>"
  for cx V
proof unfold_locales
  show "only_hash m m' \<Longrightarrow> slots_kept m m'" for m m' :: "'h p2pk_mem" by (auto simp: only_hash_def slots_kept_def)
qed (auto simp: slots_kept_def p2pk_output_type_cb_def p2pk_output_token_cb_def p2pk_output_finished_cb_def split_beta Let_def
    stx_output_info_set_box_finished_def maybe_finished_tokens add_token_slots)

lemma session_slots_rule: "session_callbacks cx V c \<Longrightarrow>
  box_callbacks c = \<lparr>on_type = Some p2pk_output_type_cb, on_token = Some p2pk_output_token_cb, on_finished = Some (p2pk_output_finished_cb cx V)\<rparr>"
  by (simp add: session_callbacks_def)


subsection \<open>The slots over one operation\<close>

abbreviation out_slots :: "'h p2pk \<Rightarrow> nat" where
  "out_slots p \<equiv> length (oi_tokens (pm_output (p2_mem p)))"

lemma info_slots:
  "oi_tokens (snd (stx_output_info_set_fee cx V out)) = oi_tokens out"
  "oi_tokens (snd (stx_output_info_set_bip32 cx V out path n)) = oi_tokens out"
  by (simp_all add: stx_output_info_set_fee_def stx_output_info_set_bip32_def sw_of_def maybe_finished_tokens Let_def)

lemma tree_type_slots: "oi_tokens (snd (tree_chunk_type cx V out chunk n fin)) = oi_tokens out"
  by (simp add: tree_chunk_type_def Let_def split_beta split: option.split)

lemma tree_chunk_slots: "oi_tokens (snd (stx_output_info_add_tree_chunk cx V out chunk n fin)) = oi_tokens out"
  by (simp add: stx_output_info_add_tree_chunk_def sw_of_def maybe_finished_tokens Let_def split_beta tree_type_slots)

text \<open>An operation on the open box.\<close>

lemma box_slots:
  assumes "ledger_inv cx V cur p" and "p2_state p = SIGN_TRANSACTION_OPERATION_P2PK_STATE_OUTPUTS_STARTED"
  shows "box_callbacks (full_box ub (p2_tx p)) = \<lparr>on_type = Some p2pk_output_type_cb, on_token = Some p2pk_output_token_cb,
     on_finished = Some (p2pk_output_finished_cb cx V)\<rparr>"
  by (rule session_slots_rule [OF open_box(1) [OF assms]])

lemma done_memory:
  "box_done ub c m = (r, c', m') \<Longrightarrow> m' = m" "output_finished c m = (r, c', m') \<Longrightarrow> m' = m"
  by (auto simp: box_done_def output_finished_def Let_def split: if_splits)

lemma output_op_slots:
  assumes "ledger_inv cx V cur p" and "p2_state p = SIGN_TRANSACTION_OPERATION_P2PK_STATE_OUTPUTS_STARTED" and "full_res_ok r"
  shows "ergo_tx_serializer_full_add_box_ergo_tree cx ub (p2_tx p) (p2_mem p) b = (r, c, m) \<Longrightarrow> slots_kept (p2_mem p) m"
    and "ergo_tx_serializer_full_add_box_miners_fee_tree cx ub (p2_tx p) (p2_mem p) mainnet = (r, c, m) \<Longrightarrow> slots_kept (p2_mem p) m"
    and "ergo_tx_serializer_full_add_box_change_tree cx ub (p2_tx p) (p2_mem p) pk = (r, c, m) \<Longrightarrow> slots_kept (p2_mem p) m"
    and "ergo_tx_serializer_full_add_box_tokens cx ub (p2_tx p) (p2_mem p) b = (r, c, m) \<Longrightarrow> slots_kept (p2_mem p) m"
    and "ergo_tx_serializer_full_add_box_registers cx ub (p2_tx p) (p2_mem p) b = (r, c, m) \<Longrightarrow> slots_kept (p2_mem p) m"
proof -
  note cb = box_slots [OF assms(1,2)]
  let ?bc = "full_box ub (p2_tx p)"
  show "slots_kept (p2_mem p) m" if "ergo_tx_serializer_full_add_box_ergo_tree cx ub (p2_tx p) (p2_mem p) b = (r, c, m)"
    using that session_slots.tree [OF _ cb] slots_same [OF refl]
    by (auto simp: ergo_tx_serializer_full_add_box_ergo_tree_def check_call_data_is_finished_def full_res_error_def
        split: if_splits prod.splits dest!: done_memory)
  show "slots_kept (p2_mem p) m" if "ergo_tx_serializer_full_add_box_miners_fee_tree cx ub (p2_tx p) (p2_mem p) mainnet = (r, c, m)"
    using that session_slots.fee_tree [OF _ cb] slots_same [OF refl]
    by (auto simp: ergo_tx_serializer_full_add_box_miners_fee_tree_def full_res_error_def Let_def
        split: if_splits prod.splits dest!: done_memory)
  show "slots_kept (p2_mem p) m" if "ergo_tx_serializer_full_add_box_change_tree cx ub (p2_tx p) (p2_mem p) pk = (r, c, m)"
    using that session_slots.change_tree [OF _ cb] slots_same [OF refl]
    by (auto simp: ergo_tx_serializer_full_add_box_change_tree_def full_res_error_def Let_def
        split: if_splits prod.splits dest!: done_memory)
  show "slots_kept (p2_mem p) m" if "ergo_tx_serializer_full_add_box_registers cx ub (p2_tx p) (p2_mem p) b = (r, c, m)"
    using that session_slots.registers [OF _ cb] slots_same [OF refl]
    by (auto simp: ergo_tx_serializer_full_add_box_registers_def check_call_data_is_finished_def full_res_error_def
        split: if_splits prod.splits dest!: done_memory)
  show "slots_kept (p2_mem p) m" if f: "ergo_tx_serializer_full_add_box_tokens cx ub (p2_tx p) (p2_mem p) b = (r, c, m)"
  proof -
    obtain r1 bc m1 b1 where t: "ergo_tx_serializer_box_add_tokens cx ?bc (p2_mem p) b (Some (full_table_ctx (p2_tx p))) = (r1, bc, m1, b1)"
      by (metis prod_cases4)
    have "box_res_ok r1 \<and> closes_box (p2_tx p) bc m1 c m"
      by (rule check_closes [where block = "box_done ub", OF _ assms(3) box_done_closes])
        (use f t assms(2,3) in \<open>auto simp: ergo_tx_serializer_full_add_box_tokens_def full_res_error_def full_res_ok_def split: if_splits\<close>)
    then show ?thesis using session_slots.tokens [OF t _ cb] by (simp add: closes_box_def)
  qed
qed


lemma input_op_slots:
  assumes "ledger_inv cx V cur p" and "p2_state p = SIGN_TRANSACTION_OPERATION_P2PK_STATE_INPUTS_STARTED" and "full_res_ok r"
  shows "ergo_tx_serializer_full_add_input_tokens cx (p2_tx p) (p2_mem p) bid i b = (r, c, m) \<Longrightarrow> length bid = 32 \<Longrightarrow> buffer_wf b \<Longrightarrow>
      pm_output m = pm_output (p2_mem p)"
    and "ergo_tx_serializer_full_add_input_context_extension cx (p2_tx p) (p2_mem p) b = (r, c, m) \<Longrightarrow> pm_output m = pm_output (p2_mem p)"
    and "ergo_tx_serializer_full_add_data_inputs cx (p2_tx p) (p2_mem p) b = (r, c, m) \<Longrightarrow> pm_output m = pm_output (p2_mem p)"
proof -
  have i: "on_token_cb (full_input_ctx (p2_tx p)) = Some p2pk_input_token_cb" "length (input_box_id (full_input_ctx (p2_tx p))) = 32"
    "amounts_wf (amounts (p2_mem p))"
    using assms(1,2) by (simp_all add: ledger_inv_def)
  show "pm_output m = pm_output (p2_mem p)"
    if "ergo_tx_serializer_full_add_input_tokens cx (p2_tx p) (p2_mem p) bid i b = (r, c, m)" "length bid = 32" "buffer_wf b"
    using input_tokens_posts [OF that(1) assms(3) i that(3,2)] by simp
  show "pm_output m = pm_output (p2_mem p)"
    if "ergo_tx_serializer_full_add_input_context_extension cx (p2_tx p) (p2_mem p) b = (r, c, m)"
    using extension_amounts [OF that assms(3)] by (auto simp: only_hash_def)
  show "pm_output m = pm_output (p2_mem p)" if "ergo_tx_serializer_full_add_data_inputs cx (p2_tx p) (p2_mem p) b = (r, c, m)"
    using data_inputs_kept [OF that assms(3)] by (auto simp: kept_def only_hash_def)
qed

lemma opening_slots:
  "ergo_tx_serializer_full_add_tokens c m b = (r, c', m') \<Longrightarrow> pm_output m' = pm_output m"
  "ergo_tx_serializer_full_add_input c m bid fc e = (r, c', m') \<Longrightarrow> pm_output m' = pm_output m"
  by (auto simp: ergo_tx_serializer_full_add_tokens_def ergo_tx_serializer_full_add_input_def check_call_data_is_finished_def
      full_res_error_def Let_def split: if_splits prod.splits)

lemma exec_slots:
  assumes "p2pk_exec cx V ub q p = Inr p'" and "ledger_inv cx V cur p" and "p2pk_op_wf q" and "out_slots p = 100"
  shows "out_slots p' = 100"
proof (cases q)
  case (P2Tokens b)
  then show ?thesis using assms by (auto simp: stx_operation_p2pk_add_tokens_def p2pk_checks opening_slots(1))
next
  case (P2Input bid v fc e)
  then show ?thesis using assms
    by (auto simp: stx_operation_p2pk_add_input_def p2pk_checks opening_slots(2) split_beta split: if_splits)
next
  case (P2InputTokens bid i b)
  then show ?thesis using assms
    by (auto simp: stx_operation_p2pk_add_input_tokens_def p2pk_checks dest: input_op_slots(1) [OF assms(2)])
next
  case (P2Extension b)
  then show ?thesis using assms
    by (auto simp: stx_operation_p2pk_add_input_context_extension_def p2pk_checks dest: input_op_slots(2) [OF assms(2)])
next
  case (P2DataInputs b)
  then show ?thesis using assms
    by (auto simp: stx_operation_p2pk_add_data_inputs_def p2pk_checks dest: input_op_slots(3) [OF assms(2)])
next
  case (P2Output v ts h n r)
  then show ?thesis using assms by (auto simp: stx_operation_p2pk_add_output_def p2pk_checks stx_output_info_init_def split_beta)
next
  case (P2TreeChunk b)
  obtain r c m where f: "ergo_tx_serializer_full_add_box_ergo_tree cx ub (p2_tx p) (p2_mem p) b = (r, c, m)" by (metis prod_cases3)
  then have "p2_state p = SIGN_TRANSACTION_OPERATION_P2PK_STATE_OUTPUTS_STARTED" "full_res_ok r"
    "length (oi_tokens (pm_output m)) = out_slots p'"
    using assms(1) P2TreeChunk
    by (auto simp: stx_operation_p2pk_add_output_tree_chunk_def p2pk_checks tree_chunk_slots Let_def split: if_splits)
  then show ?thesis using output_op_slots(1) [OF assms(2) _ _ f] assms(4) by (simp add: slots_kept_def)
next
  case P2TreeFee
  then show ?thesis using assms
    by (auto simp: stx_operation_p2pk_add_output_tree_fee_def p2pk_checks info_slots slots_kept_def dest: output_op_slots(2) [OF assms(2)])
next
  case (P2TreeChange path n pk)
  then show ?thesis using assms
    by (auto simp: stx_operation_p2pk_add_output_tree_change_def p2pk_checks info_slots slots_kept_def dest: output_op_slots(3) [OF assms(2)])
next
  case (P2OutputTokens b)
  then show ?thesis using assms
    by (auto simp: stx_operation_p2pk_add_output_tokens_def p2pk_checks slots_kept_def dest: output_op_slots(4) [OF assms(2)])
next
  case (P2Registers b)
  then show ?thesis using assms
    by (auto simp: stx_operation_p2pk_add_output_registers_def p2pk_checks slots_kept_def dest: output_op_slots(5) [OF assms(2)])
qed


subsection \<open>Conformance\<close>

definition path_conforms :: "sign_transaction_bip32_path_t \<Rightarrow> bool" where
  "path_conforms p \<longleftrightarrow> length (bp_path p) = 10 \<and> unat (bp_len p) \<le> 10"

definition p2pk_conforms :: "'h p2pk \<Rightarrow> bool" where
  "p2pk_conforms p \<longleftrightarrow>
     length (tt_tokens (tokens_table (p2_mem p))) = 100 \<and> unat (tt_count (tokens_table (p2_mem p))) \<le> 100 \<and>
     (\<forall>i < unat (tt_count (tokens_table (p2_mem p))). length (tt_tokens (tokens_table (p2_mem p)) ! i) = 32) \<and>
     length (pm_tokens (p2_mem p)) = 100 \<and> length (oi_tokens (pm_output (p2_mem p))) = 100 \<and>
     unat (distinct_tokens_count (full_table_ctx (p2_tx p))) \<le> 100 \<and>
     path_conforms (p2_bip32 p) \<and> length (schnorr_key p) = 32"

lemma sign_init_key:
  assumes "ergo_secp256k1_schnorr_p2pk_sign_init cx rnd h key secret = (True, h', key')" and "\<forall>k. length (rnd k) = 32"
  shows "length key' = 32"
proof -
  have "length k' = 32"
    if "sign_init_loop cx secret rnd n h0 k = (True, h1, k')" for n h0 k h1 k'
    using that
  proof (induction n arbitrary: h0 k)
    case (Suc n)
    obtain ok h2 k2 where a: "sign_init_attempt cx secret (rnd (MAX_ITERATIONS - Suc n)) h0 k = (ok, h2, k2)" by (metis prod_cases3)
    show ?case
    proof (cases ok)
      case True
      then have "k2 = rnd (MAX_ITERATIONS - Suc n)" using a by (auto simp: sign_init_attempt_def split: if_splits prod.splits)
      with Suc.prems a True spec [OF assms(2), of "MAX_ITERATIONS - Suc n"] show ?thesis by auto
    next
      case False
      with Suc a show ?thesis by simp
    qed
  qed simp
  with assms(1) show ?thesis by (simp add: ergo_secp256k1_schnorr_p2pk_sign_init_def)
qed

lemma run_conforms:
  assumes "p2pk_run cx V ub qs p = Some p'" and "ledger_inv cx V cur p" and "\<forall>q \<in> set qs. p2pk_op_wf q" and "out_slots p = 100"
  shows "(\<exists>cur'. ledger_inv cx V cur' p') \<and> out_slots p' = 100 \<and> p2_bip32 p' = p2_bip32 p \<and> schnorr_key p' = schnorr_key p"
  using assms
proof (induction qs arbitrary: cur p)
  case (Cons q qs)
  from Cons.prems(1) obtain p1 where e: "p2pk_exec cx V ub q p = Inr p1" "p2pk_run cx V ub qs p1 = Some p'"
    by (auto split: sum.splits)
  have q: "p2pk_op_wf q" "\<forall>q \<in> set qs. p2pk_op_wf q" using Cons.prems(3) by auto
  have "ledger_inv cx V (open_value cur q) p1" using exec_ledger [OF e(1) Cons.prems(2) q(1)] by (simp add: posts_entries_def)
  with Cons.IH [OF e(2) _ q(2)] exec_slots [OF e(1) Cons.prems(2) q(1) Cons.prems(4)] p2pk_exec_step [OF e(1)]
  show ?case by (simp add: p2pk_step_def)
qed auto

lemma start_conforms:
  assumes "stx_operation_p2pk_start_tx cx p ni nd no nt = Inr p'"
  shows "out_slots p' = out_slots p \<and> p2_bip32 p' = p2_bip32 p \<and> schnorr_key p' = schnorr_key p"
proof -
  obtain r c m where f: "ergo_tx_serializer_full_init cx ni nd no nt (p2_mem p) = (r, c, m)" by (metis prod_cases3)
  have "pm_output m = pm_output (p2_mem p)"
    using f by (auto simp: ergo_tx_serializer_full_init_def Let_def full_res_error_def split: if_splits prod.splits
        dest!: hash_u16_only) (auto simp: only_hash_def)
  then show ?thesis using assms f by (auto simp: stx_operation_p2pk_start_tx_def p2pk_checks)
qed

text \<open>
  C6. The memory of a session keeps its types. Start from a context with arrays of the declared sizes, such as the
  erased one, open a session with a path of at most ten components and 32-byte draws, start a transaction, and run any
  sequence of operations that are accepted. Then the token table has its 100 entries, at most 100 of them in use and
  each of those an id of 32 bytes; there are 100 balances and 100 slots for the tokens of the output on display; at most
  100 ids were announced; the path has ten components with at most ten in use; and the ephemeral key has 32 bytes. So
  every index that the operations compute lies within its array.
\<close>

theorem session_memory_typed:
  assumes "p2pk_conforms p0" and "\<forall>k. length (rnd k) = 32" and "unat n \<le> 10"
    and "stx_operation_p2pk_init cx rnd p0 path n net = Inr p1" and "stx_operation_p2pk_start_tx cx p1 ni nd no nt = Inr p2"
    and "p2pk_run cx V ub qs p2 = Some p" and "\<forall>q \<in> set qs. p2pk_op_wf q"
  shows "p2pk_conforms p"
proof -
  have 1: "path_conforms (p2_bip32 p1)" "length (schnorr_key p1) = 32" "out_slots p1 = 100"
    using assms(1,3,4) sign_init_key [OF _ assms(2)]
    by (auto simp: stx_operation_p2pk_init_def p2pk_conforms_def path_conforms_def mem_write_def split: if_splits prod.splits)
  note s = start_conforms [OF assms(5)]
  note r = run_conforms [OF assms(6) conjunct1 [OF start_ledger_inv [OF assms(5), of V 0]] assms(7)]
  have "out_slots p2 = 100" using s 1(3) by simp
  from r [OF this] s 1 show ?thesis
    by (auto simp: p2pk_conforms_def ledger_inv_def amounts_wf_def token_table_wf_def)
qed


text \<open>Witness: the session of the ledger example, from the erased context.\<close>

theorem session_memory_typed_witness:
  "\<exists>h k p. stx_operation_p2pk_init demo_device demo_rnd demo_p2pk demo_path 5 0 = Inr (demo_opened h k) \<and>
     p2pk_run demo_device demo_views demo_p2pk_union demo_ledger_ops
       (demo_started h k (replicate 100 (replicate 32 0)) (replicate 100 0) (stx_output_info_init 0)) = Some p \<and>
     p2pk_conforms p"
proof -
  have c: "p2pk_conforms demo_p2pk"
    by (simp add: p2pk_conforms_def path_conforms_def demo_p2pk_def p2pk_zero_def stx_amounts_init_def stx_output_info_init_def
        full_ctx_zero_def demo_path_def PRIVATE_KEY_LEN_def)
  have draws: "\<forall>k. length (demo_rnd k) = 32" by (simp add: demo_rnd_def)
  obtain h k where i: "stx_operation_p2pk_init demo_device demo_rnd demo_p2pk demo_path 5 0 = Inr (demo_opened h k)"
    using demo_p2pk_init by auto
  let ?p2 = "demo_started h k (replicate 100 (replicate 32 0)) (replicate 100 0) (stx_output_info_init 0)"
  obtain p where p: "p2pk_run demo_device demo_views demo_p2pk_union demo_ledger_ops ?p2 = Some p"
    using demo_ledger_run [of h k] by (auto simp: Option.is_none_def)
  have wf: "\<forall>q \<in> set demo_ledger_ops. p2pk_op_wf q" by (simp add: demo_ledger_ops_def demo_id_def wf_intros)
  have n: "unat (5 :: u8) \<le> 10" by simp
  from session_memory_typed [OF c draws n i demo_p2pk_start p wf] i p show ?thesis by (simp del: p2pk_run.simps) blast
qed

end
