(* ===== verification/ErrorPaths.thy ===== *)
theory ErrorPaths
  imports DeviceSafety AttestBox
begin

text \<open>
  What an error does to a session. The commands for signing and for attesting inputs take several calls, and the context
  between them lives in the union \<^verbatim>\<open>commands_ctx\<close> (\<^verbatim>\<open>src/context.c\<close>). A call that answers with an error status word
  erases the union and leaves the device without a command, whichever of the handlers, serializers or screens failed.
\<close>

fun response_status :: "response \<Rightarrow> u16" where
  "response_status (Response d sw) = sw"

definition no_fault :: "response \<Rightarrow> bool" where
  "no_fault r \<longleftrightarrow> response_status r = SW_OK \<or> response_status r = SW_DENY"

definition idle :: "'h env \<Rightarrow> ('h, 'y) app \<Rightarrow> bool" where
  "idle E g \<longleftrightarrow> app_current_command g = CMD_NONE \<and> commands_ctx g = commands_zero (env_cx E)"

definition fault_stops :: "'h env \<Rightarrow> ('h, 'y) app \<Rightarrow> ('h, 'y) app \<Rightarrow> bool" where
  "fault_stops E g g' \<longleftrightarrow> (\<exists>rs. sent g' = sent g @ rs \<and> (list_all no_fault rs \<or> idle E g'))"

definition fault_stops_result :: "'h env \<Rightarrow> ('h, 'y) app \<Rightarrow> ('h, 'y) app option \<Rightarrow> bool" where
  "fault_stops_result E g r \<longleftrightarrow> (\<forall>g'. r = Some g' \<longrightarrow> fault_stops E g g')"

lemma idle_view: "idle E g \<longleftrightarrow> att_view g = (CMD_NONE, commands_zero (env_cx E))"
  by (simp add: idle_def att_view_def)

lemma view_none [simp]: "att_view (set_command cx CMD_NONE g) = (CMD_NONE, commands_zero cx)"
  by (simp add: att_view_def set_command_def app_calls)

lemma sent_responses [simp]:
  "sent (res_ok g) = sent g @ [Response [] SW_OK]" "sent (res_deny g) = sent g @ [Response [] SW_DENY]"
  "sent (res_error e g) = sent g @ [Response [] e]" "sent (res_ok_data d g) = sent g @ [Response d SW_OK]"
  by (simp_all add: res_calls)

text \<open>The ways a call ends.\<close>

lemma fault_ends:
  "sent g1 = sent g @ rs \<Longrightarrow> fault_stops E g (handler_err E e g1)"
  "sent g1 = sent g @ rs \<Longrightarrow> fault_stops E g (ainpt_err E e g1)"
  "sent g1 = sent g @ rs \<Longrightarrow> fault_stops E g (send_error E e g1)"
  by (auto simp: fault_stops_def handler_err_def ainpt_err_def send_error_def idle_view)

lemma calm_ends:
  "sent g1 = sent g @ rs \<Longrightarrow> list_all no_fault rs \<Longrightarrow> fault_stops E g g1"
  "sent g1 = sent g \<Longrightarrow> fault_stops E g g1"
  "sent g1 = sent g \<Longrightarrow> fault_stops E g (res_ok g1)"
  "sent g1 = sent g \<Longrightarrow> fault_stops E g (res_ok_data d g1)"
  by (auto simp: fault_stops_def no_fault_def)

lemma fault_errors:
  "sent g1 = sent g \<Longrightarrow> fault_stops E g (handler_err E e g1)"
  "sent g1 = sent g \<Longrightarrow> fault_stops E g (ainpt_err E e g1)"
  "sent g1 = sent g \<Longrightarrow> fault_stops E g (send_error E e g1)"
  using fault_ends [of g1 g "[]"] by auto

lemmas fault_macros = macro_rules [where P = "fault_stops E g0" for E g0]
lemmas fault_result_macros = macro_rules [where P = "fault_stops_result E g0" for E g0]

lemma fault_branches:
  "(c \<Longrightarrow> fault_stops E g g1) \<Longrightarrow> (\<not> c \<Longrightarrow> fault_stops E g g2) \<Longrightarrow> fault_stops E g (if c then g1 else g2)"
  by simp

lemma sent_call [simp]: "sent (snd (p2pk_call cx r g)) = sent g" "sent (snd (p2pk_handler_err cx e g)) = sent g"
  by (simp_all add: p2pk_call_def p2pk_handler_err_def upd_p2pk_def split: sum.splits)

subsection \<open>Signing\<close>

text \<open>The screens of an output answer only when they are stored.\<close>

lemma output_screens_sent:
  assumes "ui_stx_operation_p2pk_show_output_confirm_screen lib cx fmt V g = (sw, g')"
  shows "sent g' = sent g \<or> sent g' = sent g @ [Response [] SW_OK]"
proof -
  have b: "fst (bagl_output_confirm_action cx V True g1) \<and> sent (snd (bagl_output_confirm_action cx V True g1)) = sent g1" for g1
    by (simp add: bagl_output_confirm_action_def Let_def store_approved_change_def upd_p2pk_def)
  show ?thesis
    using assms b
    by (auto simp: ui_stx_operation_p2pk_show_output_confirm_screen_def Let_def split_beta bagl_stx_add_output_screens_def
        nbgl_stx_add_output_screens_def bagl_blind_signing_warning_def store_approved_change_def upd_p2pk_def p2pk_handler_err_def
        simp del: ui_add_screens.simps split: if_splits ui_library.splits)
qed


lemma fault_show_output:
  assumes "sent g1 = sent g"
  shows "fault_stops E g (show_output_screen_if_needed E g1)"
proof -
  obtain sw g2 where u: "ui_stx_operation_p2pk_show_output_confirm_screen (env_lib E) (env_cx E) (env_fmt E) (env_views E) g1 = (sw, g2)"
    by (metis surj_pair)
  have "\<exists>rs. sent g2 = sent g @ rs \<and> list_all no_fault rs"
    using output_screens_sent [OF u] assms by (auto simp: no_fault_def)
  then have "fault_stops E g g2" "fault_stops E g (handler_err E sw g2)" using calm_ends(1) fault_ends(1) by blast+
  then show ?thesis using u calm_ends(3) [OF assms]
    by (simp add: show_output_screen_if_needed_def check_call_result_sw_ok_def)
qed

lemma fault_run:
  assumes "sent g1 = sent g" and "\<And>g2. sent g2 = sent g \<Longrightarrow> fault_stops E g (rest g2)"
  shows "fault_stops E g (run_p2pk E r g1 rest)"
  unfolding run_p2pk_def by (rule fault_macros) (simp_all add: assms fault_errors)

lemmas stx_handlers = handle_tx_start_def handle_tokens_def handle_input_frame_def handle_input_context_extension_def
  handle_data_inputs_def handle_output_init_def handle_output_tree_chunk_def handle_output_tree_fee_def
  handle_output_tree_change_def handle_output_tokens_def handle_output_registers_def

lemma fault_stx_handlers:
  "fault_stops E g (handle_tx_start E b g)" "fault_stops E g (handle_tokens E b g)"
  "fault_stops E g (handle_input_frame E key b g)" "fault_stops E g (handle_input_context_extension E b g)"
  "fault_stops E g (handle_data_inputs E b g)" "fault_stops E g (handle_output_init E b g)"
  "fault_stops E g (handle_output_tree_chunk E b g)" "fault_stops E g (handle_output_tree_fee E b g)"
  "fault_stops E g (handle_output_tree_change E b g)" "fault_stops E g (handle_output_tokens E b g)"
  "fault_stops E g (handle_output_registers E b g)"
  unfolding stx_handlers Let_def split_beta
  by (intro fault_macros fault_run fault_branches fault_errors fault_show_output calm_ends(3); simp add: upd_p2pk_def)+

definition signature_response :: "('h, 'x) cx_device_scheme \<Rightarrow> ('h, 'y) app \<Rightarrow> response" where
  "signature_response cx g = last (sent (ui_stx_operation_p2pk_send_response cx g))"

lemma signature_sent: "sent (ui_stx_operation_p2pk_send_response cx g) = sent g @ [signature_response cx g]"
  by (simp add: signature_response_def) (simp add: ui_stx_operation_p2pk_send_response_def Let_def split_beta upd_p2pk_def)

lemma confirm_ctx_sent [simp]: "sent (set_confirm_ctx n cb g) = sent g"
  by (simp add: set_confirm_ctx_def upd_ui_def)

lemma bagl_confirm_sent: "sent (snd (bagl_stx_add_transaction_screens fmt n g)) = sent g"
  by (simp add: bagl_stx_add_transaction_screens_def Let_def split_beta)

lemma nbgl_confirm_sent:
  fixes g :: "('h, 'y) app"
  assumes "nbgl_stx_add_transaction_screens cx fmt blind n answer g = (ok, g')"
  shows "sent g' = sent g \<or> (\<exists>x. sent g' = sent g @ [x] \<and> att_view g' = (CMD_NONE, commands_zero cx))"
proof -
  have v: "att_view (ui_menu_about HAVE_NBGL g1) = att_view g1" for g1 :: "('h, 'y) app" by (simp add: ui_menu_about_def)
  show ?thesis
    using assms unfolding nbgl_stx_add_transaction_screens_def Let_def split_beta
    by (simp add: v signature_sent split: if_splits) (auto simp: v signature_sent)
qed


lemma fault_confirm: "fault_stops E g (handle_sign_confirm E d g)"
proof -
  let ?u = "ui_stx_operation_p2pk_show_confirm_screen (env_lib E) (env_cx E) (env_fmt E) (draw_answer d) g"
  obtain sw g2 where u: "?u = (sw, g2)" by (metis surj_pair)
  have n: "\<exists>rs. sent (snd r) = sent g1 @ rs \<and> (rs = [] \<or> idle E (snd r))"
    if "r = nbgl_stx_add_transaction_screens (env_cx E) fmt b k (draw_answer d) g1" for r fmt b k g1
    using nbgl_confirm_sent [of "env_cx E" fmt b k "draw_answer d" g1 "fst r" "snd r"] that unfolding idle_view by auto
  have "\<exists>rs. sent g2 = sent g @ rs \<and> (rs = [] \<or> idle E g2)"
  proof (cases "env_lib E")
    case HAVE_BAGL
    then have "sent g2 = sent g"
      using u by (auto simp: ui_stx_operation_p2pk_show_confirm_screen_def Let_def split_beta bagl_confirm_sent upd_p2pk_def
          p2pk_handler_err_def split: if_splits)
    then show ?thesis by simp
  next
    case HAVE_NBGL
    let ?g1 = "upd_p2pk (\<lambda>p. p\<lparr>p2_state := SIGN_TRANSACTION_OPERATION_P2PK_STATE_FINALIZED\<rparr>) g"
    let ?r = "nbgl_stx_add_transaction_screens (env_cx E) (env_fmt E) (blind_signing_required (the_p2pk ?g1)) 0 (draw_answer d) ?g1"
    have "g2 = snd ?r \<or> sent g2 = sent g"
      using u HAVE_NBGL by (auto simp: ui_stx_operation_p2pk_show_confirm_screen_def Let_def split_beta p2pk_handler_err_def upd_p2pk_def
          split: if_splits)
    moreover have "sent ?g1 = sent g" by (simp add: upd_p2pk_def)
    ultimately show ?thesis using n [OF refl, of "env_fmt E" "blind_signing_required (the_p2pk ?g1)" 0 ?g1] by auto
  qed
  then obtain rs where rs: "sent g2 = sent g @ rs" "rs = [] \<or> idle E g2" by blast
  have "fault_stops E g g2" using rs unfolding fault_stops_def by auto
  moreover have "fault_stops E g (handler_err E e g2)" for e by (rule fault_ends(1) [OF rs(1)])
  ultimately show ?thesis unfolding handle_sign_confirm_def u by (intro fault_macros) (simp_all add: fault_errors)
qed

lemma fault_result_rules:
  "fault_stops E g g1 \<Longrightarrow> fault_stops_result E g (Some g1)" "fault_stops_result E g None"
  "(\<And>e. opt = Inl e \<Longrightarrow> fault_stops_result E g (f e)) \<Longrightarrow> (\<And>p. opt = Inr p \<Longrightarrow> fault_stops_result E g (h p)) \<Longrightarrow>
     fault_stops_result E g (case opt of Inl e \<Rightarrow> f e | Inr p \<Rightarrow> h p)"
  "(\<And>v. opt' = Some v \<Longrightarrow> fault_stops_result E g (k v)) \<Longrightarrow> fault_stops_result E g (case opt' of None \<Rightarrow> None | Some v \<Rightarrow> k v)"
  "(c \<Longrightarrow> fault_stops_result E g r1) \<Longrightarrow> (\<not> c \<Longrightarrow> fault_stops_result E g r2) \<Longrightarrow> fault_stops_result E g (if c then r1 else r2)"
  by (auto simp: fault_stops_result_def split: sum.splits option.splits)

definition answers_ok :: "('h, 'y) app \<Rightarrow> ('h, 'y) app \<Rightarrow> bool" where
  "answers_ok g g' \<longleftrightarrow> (\<exists>rs. sent g' = sent g @ rs \<and> list_all no_fault rs)"

lemma answers_same: "sent g' = sent g \<Longrightarrow> answers_ok g g'"
  unfolding answers_ok_def by (intro exI [of _ "[]"]) simp

lemma answers_approve: "sent g1 = sent g \<Longrightarrow> answers_ok g (ui_stx_operation_approve_reject lib cx True g1)"
  unfolding answers_ok_def approve_reject_same by (intro exI [of _ "[Response [stx_session (the_stx g1)] SW_OK]"]) (simp add: no_fault_def)

lemma approve_screens_sent:
  assumes "sent g1 = sent g"
  shows "answers_ok g (snd (bagl_stx_add_operation_approve_screens cx tok known g1))"
    "answers_ok g (snd (nbgl_stx_add_operation_approve_screens cx tok known g1))"
  unfolding bagl_stx_add_operation_approve_screens_def nbgl_stx_add_operation_approve_screens_def Let_def split_beta
  by (simp_all add: assms set_approve_ctx_def set_app_token_def upd_ui_def answers_same answers_approve)

lemma token_and_path_sent:
  assumes "sent g1 = sent g"
  shows "answers_ok g (snd (ui_stx_operation_p2pk_show_token_and_path lib cx tok known g1))"
proof -
  have "answers_ok g (snd (bagl_stx_add_operation_approve_screens cx tok known (snd (snd (ui_add_screen st i g2))\<lparr>signtx_screen := n\<rparr>)))"
    if "sent g2 = sent g" for g2 st i n
    by (rule approve_screens_sent) (simp add: that)
  then show ?thesis
    unfolding ui_stx_operation_p2pk_show_token_and_path_def Let_def split_beta
    by (cases lib) (simp_all add: assms answers_same approve_screens_sent upd_ui_def split: option.split)
qed

lemma fault_token_and_path:
  assumes "sent g1 = sent g"
  shows "fault_stops_result E g (check_call_result_sw_ok (\<lambda>e g. Some (handler_err E e g))
     (ui_stx_operation_p2pk_show_token_and_path lib cx tok known g1) Some)"
proof -
  let ?u = "ui_stx_operation_p2pk_show_token_and_path lib cx tok known g1"
  have "fault_stops E g (snd ?u)" "fault_stops E g (handler_err E e (snd ?u))" for e
    using token_and_path_sent [OF assms, of lib cx tok known] calm_ends(1) fault_ends(1) unfolding answers_ok_def by blast+
  then show ?thesis by (intro fault_result_macros fault_result_rules)
qed

lemma fault_init: "sent g1 = sent g \<Longrightarrow> fault_stops_result E g (handle_init_p2pk E d b has app g1)"
  unfolding handle_init_p2pk_def Let_def split_beta
  by (intro fault_result_macros fault_result_rules fault_errors fault_token_and_path; simp add: upd_p2pk_def)


subsection \<open>Attesting inputs\<close>

lemma fault_display_token:
  assumes "sent g1 = sent g"
  shows "fault_stops E g (ui_display_access_token E answer tok g1)"
proof -
  have a: "answers_ok g (ainpt_approve g2)" "answers_ok g (res_deny g2)" if "sent g2 = sent g" for g2
    unfolding answers_ok_def
    using that by (auto simp: ainpt_approve_def Let_def send_response_attested_input_session_id_def no_fault_def)
  have f: "sent (g2\<lparr>ainpt_sub_message := t\<rparr>) = sent g2" for g2 :: "('a, 'b) app" and t by simp
  have m: "answers_ok g (ui_menu_main lib g2) = answers_ok g g2" for lib g2 by (simp add: answers_ok_def)
  have "answers_ok g (ui_display_access_token E answer tok g1)"
    unfolding ui_display_access_token_def bagl_display_access_token_def nbgl_display_access_token_def Let_def split_beta
    by (simp add: assms answers_same a m split: ui_library.split)
  then show ?thesis using calm_ends(1) by (auto simp: answers_ok_def)
qed

lemma fault_attest_init: "sent g1 = sent g \<Longrightarrow> fault_stops_result E g (ainpt_handle_init E d b has app g1)"
  unfolding ainpt_handle_init_def Let_def split_beta send_response_attested_input_session_id_def
  by (intro fault_result_macros fault_result_rules fault_branches fault_errors fault_display_token calm_ends(4); simp)

lemma fault_box_finished: "sent g1 = sent g \<Longrightarrow> fault_stops E g (check_call_box_finished E r g1)"
  unfolding check_call_box_finished_def check_box_finished_def Let_def split_beta put_box_def
    send_response_attested_input_frame_count_def
  by (intro fault_branches fault_errors calm_ends(3,4); simp)

lemma fault_write: "(\<And>b. fault_stops E g (rest b)) \<Longrightarrow> fault_stops E g (check_write_param E r g rest)"
  by (simp add: check_write_param_def fault_errors)

lemma fault_attest_handlers:
  "fault_stops E g (ainpt_handle_tree_chunk E b g)" "fault_stops E g (ainpt_handle_tokens E b g)"
  "fault_stops E g (ainpt_handle_registers_chunk E b g)" "fault_stops E g (ainpt_handle_get_frame E io key b g)"
  unfolding ainpt_handle_tree_chunk_def ainpt_handle_tokens_def ainpt_handle_registers_chunk_def ainpt_handle_get_frame_def
    split_beta send_response_attested_input_frame_def Let_def put_box_def
  by (intro fault_macros fault_branches fault_errors fault_box_finished fault_write calm_ends(4); simp)+

subsection \<open>The commands\<close>

lemma fault_signing:
  assumes "handler_sign_transaction E d b sub tok g = Some g'" and "\<not> app_is_ui_busy g"
    and "sub = SIGN_TRANSACTION_SUBCOMMAND_SIGN_PK \<Longrightarrow> tok = 0x01 \<or> tok = 0x02"
  shows "fault_stops E g g'"
proof (cases "sub = SIGN_TRANSACTION_SUBCOMMAND_SIGN_PK")
  case True
  have "sent (set_command (env_cx E) CMD_SIGN_TRANSACTION g) = sent g" by simp
  from fault_init [OF this] show ?thesis
    using assms True by (auto simp: handler_sign_transaction_def Let_def fault_stops_result_def)
next
  case False
  have out: "fault_stops E g out" if "stx_subcommand E d b sub g = Some out" for out
    using that fault_stx_handlers fault_confirm unfolding stx_subcommand_def by (auto split: if_splits)
  show ?thesis
    using assms(1,2) False out
    by (auto simp: handler_sign_transaction_def fault_errors check_command_def check_session_def split: option.splits if_splits)
qed

lemma fault_attesting:
  assumes "handler_attest_input E d b sub tok g = Some g'" and "\<not> app_is_ui_busy g"
  shows "fault_stops E g g'"
proof (cases "sub = ATTEST_INPUT_SUBCOMMAND_INIT")
  case True
  have "sent (set_command (env_cx E) CMD_ATTEST_INPUT_BOX g) = sent g" by simp
  from fault_attest_init [OF this] show ?thesis
    using assms True by (auto simp: handler_attest_input_def Let_def fault_stops_result_def fault_errors split: if_splits)
next
  case False
  have out: "fault_stops E g out" if "ainpt_subcommand E d b sub g = Some out" for out
    using that fault_attest_handlers unfolding ainpt_subcommand_def by (auto split: if_splits)
  show ?thesis
    using assms False out
    by (auto simp: handler_attest_input_def fault_errors check_command_def check_session_def split: option.splits if_splits)
qed


text \<open>
  C5. Errors end the session. Let a call of the signing or the attestation command return, while no dialog is open. (The
  one error of these commands that is left out is a malformed first call of the signing command, which is refused before
  the running command is touched.) Then the call has answered only with success or with a refusal by the user, or the device
  is without a command and the union of the command contexts, with the keys, the hash and the amounts in it, is erased.
\<close>

theorem errors_end_session:
  assumes "handler_sign_transaction E d b sub tok g = Some g' \<and> (sub = SIGN_TRANSACTION_SUBCOMMAND_SIGN_PK \<longrightarrow> tok \<in> {1, 2}) \<or>
      handler_attest_input E d b sub tok g = Some g'"
    and "\<not> app_is_ui_busy g"
  shows "\<exists>rs. sent g' = sent g @ rs \<and>
     ((\<forall>r \<in> set rs. response_status r \<in> {SW_OK, SW_DENY}) \<or>
      app_current_command g' = CMD_NONE \<and> commands_ctx g' = commands_zero (env_cx E))"
proof -
  have "fault_stops E g g'" using assms fault_signing fault_attesting by blast
  then show ?thesis by (auto simp: fault_stops_def no_fault_def idle_def list_all_iff)
qed

text \<open>Witness: a signing session that is not approved receives the start of a transaction.\<close>

theorem errors_end_session_witness:
  defines "g \<equiv> set_command demo_device CMD_SIGN_TRANSACTION demo_app"
  shows "\<exists>g'. handler_sign_transaction demo_env demo_draws (buffer_init [] 0) SIGN_TRANSACTION_SUBCOMMAND_START_TX 0 g = Some g' \<and>
     sent g' = sent g @ [Response [] SW_BAD_STATE] \<and>
     app_current_command g = CMD_SIGN_TRANSACTION \<and> app_current_command g' = CMD_NONE"
proof -
  let ?g' = "handler_err demo_env SW_BAD_STATE g"
  have c: "app_current_command g = CMD_SIGN_TRANSACTION" "\<not> app_is_ui_busy g" "the_stx g = stx_zero demo_device"
    by (simp_all add: g_def) (simp_all add: set_command_def app_calls demo_app_def)
  have "stx_session (the_stx g) = 0" "\<not> stx_approved g"
    by (simp_all add: c(3) stx_approved_def stx_zero_def)
  then have r: "handler_sign_transaction demo_env demo_draws (buffer_init [] 0) SIGN_TRANSACTION_SUBCOMMAND_START_TX 0 g = Some ?g'"
    using c by (simp add: handler_sign_transaction_def stx_subcommand_def handle_tx_start_def stx_subcommands check_command_def
        check_session_def check_proper_state_def)
  have s: "sent ?g' = sent g @ [Response [] SW_BAD_STATE]" by (simp add: handler_err_def)
  have "handler_sign_transaction demo_env demo_draws (buffer_init [] 0) SIGN_TRANSACTION_SUBCOMMAND_START_TX 0 g = Some ?g' \<and>
      (SIGN_TRANSACTION_SUBCOMMAND_START_TX = SIGN_TRANSACTION_SUBCOMMAND_SIGN_PK \<longrightarrow> (0 :: u8) \<in> {1, 2}) \<or>
      handler_attest_input demo_env demo_draws (buffer_init [] 0) SIGN_TRANSACTION_SUBCOMMAND_START_TX 0 g = Some ?g'"
    using r by (simp add: stx_subcommands)
  from errors_end_session [OF this c(2)] s have "app_current_command ?g' = CMD_NONE" by (auto simp: sw_defs)
  with r s c(1) show ?thesis by blast
qed

end
