(* ===== verification/AccessToken.thy ===== *)
theory AccessToken
  imports DeviceSafety
begin

text \<open>
  The access token of a host (\<^verbatim>\<open>app_connected_app_id\<close> in \<^verbatim>\<open>src/context.c\<close>). The device remembers one token: a command
  that presents the same token is answered without a question to the user. This theory follows how the token gets there.
\<close>

subsection \<open>The token of a request\<close>

text \<open>A request with a token carries it in its last four bytes.\<close>

definition request_token :: "bytes \<Rightarrow> u32" where
  "request_token d = word_of_be (drop (length d - 4) d) 0"

definition rest_of :: "bytes \<Rightarrow> buffer_t \<Rightarrow> bool" where
  "rest_of d b \<longleftrightarrow> buffer_wf b \<and> (\<exists>k. buffer_data b = drop k d)"

lemma rest_start: "buffer_wf b \<Longrightarrow> rest_of (buffer_data b) b"
  unfolding rest_of_def by (auto intro: exI [of _ 0])

lemma rest_skip: "rest_of d b \<Longrightarrow> unat n \<le> length (buffer_data b) \<Longrightarrow> rest_of d (buffer_skip b n)"
  by (auto simp: rest_of_def buffer_wf_skip buffer_data_skip)

lemma rest_seek:
  assumes "rest_of d b"
  shows "rest_of d (snd (buffer_seek_cur b n))"
proof (cases "fst (buffer_seek_cur b n)")
  case True
  then have o: "\<not> buf_offset b + n < buf_offset b" "buf_offset b + n \<le> buf_size b"
    by (auto simp: buffer_seek_cur_def not_less split: if_splits)
  then have "unat (buf_offset b) + unat n \<le> unat (buf_size b)"
    by (metis (no_types, lifting) linorder_not_less unat_plus_simple word_le_nat_alt)
  then have n: "unat n \<le> length (buffer_data b)"
    using assms buffer_wfD [of b] by (simp add: rest_of_def length_buffer_data)
  with buffer_seek_cur_ok [OF _ n] rest_skip [OF assms n] assms show ?thesis by (simp add: rest_of_def)
next
  case False
  then show ?thesis using assms by (auto simp: buffer_seek_cur_def split: if_splits)
qed

lemma rest_u8: "rest_of d b \<Longrightarrow> rest_of d (snd (buffer_read_u8 b))"
  using rest_skip [of d b 1] by (auto simp: rest_of_def buffer_read_u8_eq split: list.splits)

lemma rest_path: "rest_of d b \<Longrightarrow> rest_of d (snd (snd (buffer_read_bip32_path b out n)))"
  using rest_seek by (simp add: buffer_read_bip32_path_def split: prod.splits)

lemma token_last:
  assumes "rest_of d b" and "buffer_read_u32 b BE = (Some t, b1)" and "\<not> buffer_can_read b1 1"
  shows "t = request_token d"
proof -
  obtain k where b: "buffer_wf b" "buffer_data b = drop k d" using assms(1) by (auto simp: rest_of_def)
  have r: "4 \<le> length (buffer_data b)" "t = word_of_be (take 4 (buffer_data b)) 0" "b1 = buffer_skip b 4"
    using assms(2) by (auto simp: buffer_read_u32_be_eq [OF b(1)] split: if_splits)
  have "length (buffer_data b) = 4"
    using assms(3) r b(1) by (simp add: buffer_can_read_iff buffer_wf_skip buffer_data_skip)
  then have "k = length d - 4" "take 4 (buffer_data b) = buffer_data b" using b(2) by auto
  then show ?thesis using r(2) b(2) by (simp add: request_token_def)
qed

subsection \<open>Opening a signing session\<close>

text \<open>What an accepted opening leaves behind: the token is the one of the request, and nobody was asked.\<close>

definition connected :: "u32 \<Rightarrow> ('h, 'y) app \<Rightarrow> ('h, 'y) app \<Rightarrow> bool" where
  "connected t g g' \<longleftrightarrow> app_connected_app_id g' = t \<and> \<not> app_is_ui_busy g' \<and> pages g' = pages g"

lemma command_after_err [simp]: "app_current_command (handler_err E e g) = CMD_NONE"
  by (simp add: handler_err_def set_command_def app_calls res_calls)

lemma approve_connects:
  "connected (up_app_token_value (stx_ui (the_stx g))) g (ui_stx_operation_approve_reject lib cx True g)"
  by (simp add: connected_def ui_stx_operation_approve_reject_def Let_def send_response_sign_transaction_session_id_def upd_stx_def)
    (simp add: res_calls app_calls the_stx_def)

lemma same_display [simp]:
  "pages (upd_ui f g) = pages g" "pages (put_step st i g) = pages g" "pages (pair_store k q g) = pages g"
  "pages (upd_p2pk f1 g) = pages g" "pages (upd_stx f2 g) = pages g" "pages (set_command cx cmd g) = pages g"
  "pages (snd (snd (ui_add_screen st i g))) = pages g"
  by (simp_all add: upd_ui_def upd_stx_def upd_p2pk_def put_step_def pair_store_def set_command_def app_calls ui_add_screen_def)

lemma approve_ctx_token [simp]:
  "up_app_token_value (stx_ui (the_stx (set_approve_ctx tok known g))) = tok" "pages (set_approve_ctx tok known g) = pages g"
  by (simp_all add: set_approve_ctx_def) (simp add: upd_ui_def the_stx_def upd_stx_def)

lemma connected_pages: "connected t g1 g' \<Longrightarrow> pages g1 = pages g \<Longrightarrow> connected t g g'"
  by (simp add: connected_def)

lemma approve_connected:
  "up_app_token_value (stx_ui (the_stx g1)) = tok \<Longrightarrow> pages g1 = pages g \<Longrightarrow> connected tok g (ui_stx_operation_approve_reject lib cx True g1)"
  using approve_connects [of g1 lib cx] by (auto elim: connected_pages)

lemma approve_screens_connect:
  assumes "pages g1 = pages g"
  shows "fst (bagl_stx_add_operation_approve_screens cx tok known g1) \<Longrightarrow>
      connected tok g (snd (bagl_stx_add_operation_approve_screens cx tok known g1))"
    and "fst (nbgl_stx_add_operation_approve_screens cx tok known g1) \<Longrightarrow>
      connected tok g (snd (nbgl_stx_add_operation_approve_screens cx tok known g1))"
  unfolding bagl_stx_add_operation_approve_screens_def nbgl_stx_add_operation_approve_screens_def Let_def split_beta
  by (simp_all add: approve_connected set_app_token_def assms split: if_splits)

lemma show_token_connects:
  assumes "ui_stx_operation_p2pk_show_token_and_path lib cx tok known g1 = (SW_OK, g')" and "pages g1 = pages g"
  shows "connected tok g g'"
proof (cases lib)
  case HAVE_BAGL
  then show ?thesis
    using assms by (auto simp: ui_stx_operation_p2pk_show_token_and_path_def Let_def split_beta sw_defs
        intro!: approve_screens_connect(1) split: option.splits if_splits)
next
  case HAVE_NBGL
  then show ?thesis
    using assms by (auto simp: ui_stx_operation_p2pk_show_token_and_path_def Let_def split_beta sw_defs
        intro!: approve_screens_connect(2) split: option.splits if_splits)
qed

text \<open>The opening reads its parameters in order, the token last.\<close>

lemma init_connects:
  assumes "handle_init_p2pk E d b True app g = Some g'" and "app_current_command g' \<noteq> CMD_NONE" and "buffer_wf b"
  shows "connected (request_token (buffer_data b)) g g'"
proof -
  obtain net b1 where 1: "buffer_read_u8 b = (Some net, b1)"
    using assms(1,2) by (auto simp: handle_init_p2pk_def check_read_param_def Let_def split: option.splits) (metis prod.collapse)
  obtain sw n path b2 where 2: "read_bip32_path b1 (bp_path (p2_bip32 (the_p2pk g))) = (sw, n, path, b2)" by (metis prod_cases4)
  have r2: "rest_of (buffer_data b) b2"
  proof -
    have r1: "rest_of (buffer_data b) b1" using rest_u8 [OF rest_start [OF assms(3)]] 1 by simp
    then show ?thesis using 2 rest_u8 [OF r1] rest_path
      by (auto simp: read_bip32_path_def split: prod.splits option.splits) (metis snd_conv)+
  qed
  obtain t b3 where 3: "buffer_read_u32 b2 BE = (Some t, b3)" "\<not> buffer_can_read b3 1"
    and sw: "sw = SW_OK"
    using assms(1,2) 1 2
    by (auto simp: handle_init_p2pk_def check_macros read_token_def Let_def split: option.splits if_splits) (metis prod.collapse)
  have t: "t = request_token (buffer_data b)" by (rule token_last [OF r2 3])
  let ?g1 = "upd_p2pk (\<lambda>p. p\<lparr>p2_bip32 := \<lparr>bp_len = n, bp_path = path\<rparr>\<rparr>) g"
  obtain p where p: "stx_operation_p2pk_init (env_cx E) (draw_keys d) (the_p2pk ?g1) (bp_path (p2_bip32 (the_p2pk ?g1)))
      (bp_len (p2_bip32 (the_p2pk ?g1))) net = Inr p"
    using assms(1,2) 1 2 3 sw by (auto simp: handle_init_p2pk_def check_macros read_token_def Let_def split: sum.splits)
  obtain sid where s: "session_id_new_random (draw_ids d) (stx_session (the_stx ?g1)) = Some sid"
    using assms(1) 1 2 3 sw p by (auto simp: handle_init_p2pk_def check_macros read_token_def Let_def split: option.splits)
  let ?g2 = "upd_stx (\<lambda>s. s\<lparr>stx_p2pk := p, stx_operation := SIGN_TRANSACTION_OPERATION_P2PK,
      stx_state := SIGN_TRANSACTION_STATE_INITIALIZED, stx_session := sid\<rparr>) ?g1"
  have "ui_stx_operation_p2pk_show_token_and_path (env_lib E) (env_cx E) t (is_known_application app t) ?g2 = (SW_OK, g')"
    using assms(1,2) 1 2 3 sw p s
    by (auto simp: handle_init_p2pk_def check_macros read_token_def Let_def split: if_splits) (metis prod.collapse)
  from show_token_connects [OF this] show ?thesis by (simp add: t)
qed

subsection \<open>Using the token\<close>

text \<open>With the remembered token the extended public key is sent at once, whatever the user would say.\<close>

lemma calm_updates [simp]:
  "pages (upd_epk f g) = pages g" "pages (res_error e g) = pages g" "pages (res_ok_data r g) = pages g" "pages (send_error E e g) = pages g"
  "app_is_ui_busy (upd_epk f g) = app_is_ui_busy g" "\<not> app_is_ui_busy (set_command cx cmd g)"
  "\<not> app_is_ui_busy (send_error E e g)" "app_is_ui_busy (res_ok_data r g) = app_is_ui_busy g"
  "app_connected_app_id (upd_epk f g) = app_connected_app_id g" "app_connected_app_id (set_command cx cmd g) = app_connected_app_id g"
  by (simp_all add: upd_epk_def set_command_def send_error_def res_calls app_calls)

lemma epk_response_calm [simp]:
  "pages (send_response_extended_pubkey E pk code g) = pages g"
  "\<not> app_is_ui_busy (send_response_extended_pubkey E pk code g)"
  by (simp_all add: send_response_extended_pubkey_def check_write_param_def)

lemma epk_without_dialog:
  assumes "app_connected_app_id g = t" and "\<not> app_is_ui_busy g" and "t \<noteq> 0" and "buffer_wf b" and "request_token (buffer_data b) = t"
  shows "handler_get_extended_public_key E (d\<lparr>draw_answer := answer\<rparr>) b True g = handler_get_extended_public_key E d b True g \<and>
     pages (handler_get_extended_public_key E d b True g) = pages g \<and>
     \<not> app_is_ui_busy (handler_get_extended_public_key E d b True g)"
proof -
  let ?b2 = "\<lambda>n. snd (read_path_param n (snd (buffer_read_u8 b)))"
  have r: "rest_of (buffer_data b) (?b2 n)" for n
    using rest_path [OF rest_u8 [OF rest_start [OF assms(4)]]] by (auto simp: read_path_param_def split: prod.splits) (metis snd_conv)+
  have tok: "is_known_application t' t" if "fst (buffer_read_u32 (?b2 n) BE) = Some t'" "\<not> buffer_can_read (snd (buffer_read_u32 (?b2 n) BE)) 1" for n t'
    using token_last [OF r, of n t'] that assms(3,5) by (simp add: is_known_application_def) (metis prod.collapse)
  show ?thesis
    using assms(1,2) tok by (auto simp: handler_get_extended_public_key_def check_macros read_token_def Let_def split_beta split: option.splits)
qed


text \<open>
  A request for an extended public key as the host writes it: the number of steps of the path, the steps, the token.
  The key that is sent for it: the compressed public key and the chain code.
\<close>

definition epk_request :: "u32 list \<Rightarrow> u32 \<Rightarrow> bytes" where
  "epk_request ws t = of_nat (length ws) # path_be ws @ write_u32_be (replicate 4 0) 0 t"

definition epk_reply :: "bytes \<Rightarrow> bytes \<Rightarrow> bytes" where
  "epk_reply pk code = (if pk ! 64 AND 1 \<noteq> 0 then 0x03 else 0x02) # take 32 (drop 1 pk) @ code"

lemma epk_request_reads:
  assumes "buffer_wf b" and "buffer_data b = epk_request ws t" and "0 < length ws" and "length ws \<le> 10"
  shows "\<exists>b1 b2 b3. buffer_read_u8 b = (Some (of_nat (length ws)), b1) \<and>
     read_path_param (of_nat (length ws)) b1 = (Some (ws @ replicate (10 - length ws) 0), b2) \<and>
     read_token True b2 = (Some t, b3) \<and> \<not> buffer_can_read b3 1"
proof -
  let ?n = "of_nat (length ws) :: u8" and ?tok = "write_u32_be (replicate 4 0) 0 t"
  have n: "unat (ucast ?n :: size_t) = length ws" using assms(4) by (simp add: unat_of_nat unsigned_ucast_eq take_bit_eq_mod)
  have u: "buffer_read_u8 b = (Some ?n, buffer_skip b 1)" using assms(1,2) by (simp add: buffer_read_u8_eq epk_request_def)
  have w1: "buffer_wf (buffer_skip b 1)" "buffer_data (buffer_skip b 1) = path_be ws @ ?tok"
    using assms(1,2) by (simp_all add: buffer_wf_skip buffer_data_skip epk_request_def)
  let ?b2 = "buffer_skip (buffer_skip b 1) (4 * ucast ?n)"
  have n4: "unat (4 * ucast ?n :: size_t) = 4 * length ws" using n assms(4) by (simp add: unat_word_ariths)
  have p: "read_path_param ?n (buffer_skip b 1) = (Some (ws @ replicate (10 - length ws) 0), ?b2)"
    using buffer_read_bip32_path_eq [OF w1(1), of "replicate 10 0" "ucast ?n"] w1(2) n assms(3,4)
    by (simp add: read_path_param_def MAX_BIP32_PATH_def path_words_be length_path_be)
  have w2: "buffer_wf ?b2" "buffer_data ?b2 = ?tok"
    using w1 n4 by (simp_all add: buffer_wf_skip buffer_data_skip length_path_be)
  have l: "length ?tok = 4" by (simp add: write_u32_be_4)
  have t: "read_token True ?b2 = (Some t, buffer_skip ?b2 4)"
    using w2 l by (simp add: read_token_def buffer_read_u32_be_eq write_u32_be_4 word_of_be_u32 del: word_of_be.simps)
  have "\<not> buffer_can_read (buffer_skip ?b2 4) 1"
    using w2 l by (simp add: buffer_can_read_iff buffer_wf_skip buffer_data_skip)
  with u p t show ?thesis by blast
qed

lemma epk_response_sent:
  assumes "length pk = 65" and "length code = 32"
  shows "sent (send_response_extended_pubkey E pk code g) = sent g @ [Response (epk_reply pk code) SW_OK]"
proof -
  let ?c = "if pk ! 64 AND 1 \<noteq> 0 then 0x03 else 0x02 :: u8"
  have s: "unat EXTENDED_PUBLIC_KEY_LEN = 65" "unat CHAIN_CODE_LEN = 32"
    by (simp_all add: EXTENDED_PUBLIC_KEY_LEN_def COMPRESSED_PUBLIC_KEY_LEN_def CHAIN_CODE_LEN_def)
  have h0: "rw_holds (rw_buffer_new_local_empty EXTENDED_PUBLIC_KEY_LEN) 65 []"
    using rw_holds_init [of "replicate 65 0" EXTENDED_PUBLIC_KEY_LEN] s by (simp add: rw_buffer_new_local_empty_def)
  obtain b1 where 1: "rw_buffer_write_u8 (rw_buffer_new_local_empty EXTENDED_PUBLIC_KEY_LEN) ?c = (True, b1)" "rw_holds b1 65 [?c]"
    using rw_holds_write_u8 [OF h0, of ?c] by auto
  obtain b2 where 2: "rw_buffer_write_bytes b1 (drop 1 pk) 32 = (True, b2)" "rw_holds b2 65 (?c # take 32 (drop 1 pk))"
    using rw_holds_write_bytes [OF 1(2), of 32 "drop 1 pk"] assms(1) by auto
  obtain b3 where 3: "rw_buffer_write_bytes b2 code CHAIN_CODE_LEN = (True, b3)" "rw_holds b3 65 (epk_reply pk code)"
    using rw_holds_write_bytes [OF 2(2), of CHAIN_CODE_LEN code] assms s by (auto simp: epk_reply_def)
  have "take (unat (rw_buffer_data_len b3)) (rw_buffer_read_ptr b3) = epk_reply pk code"
    using 3(2) by (simp add: rw_holds_def rw_data_def buffer_data_def rw_buffer_data_len_def rw_buffer_read_ptr_def)
  then show ?thesis
    unfolding send_response_extended_pubkey_def 1(1) check_write_param_def
    using 2(1) 3(1) by (simp add: res_calls set_command_def app_calls)
qed

text \<open>With the remembered token the key of any account path is in the answer.\<close>

lemma epk_known_sent:
  assumes "app_connected_app_id g = t" and "\<not> app_is_ui_busy g" and "t \<noteq> 0"
    and "buffer_wf b" and "buffer_data b = epk_request ws t" and "0 < length ws" and "length ws \<le> 10"
    and "epk_path_valid (ws @ replicate (10 - length ws) 0) (of_nat (length ws))"
    and "crypto_generate_public_key (env_cx E) (ws @ replicate (10 - length ws) 0) (of_nat (length ws)) (epk_raw_public_key epk_zero) =
      (0, pk, code)" and "length pk = 65" and "length code = 32"
  shows "sent (handler_get_extended_public_key E d b True g) = sent g @ [Response (epk_reply pk code) SW_OK]"
proof -
  obtain b1 b2 b3 where r: "buffer_read_u8 b = (Some (of_nat (length ws)), b1)"
    "read_path_param (of_nat (length ws)) b1 = (Some (ws @ replicate (10 - length ws) 0), b2)"
    "read_token True b2 = (Some t, b3)" "\<not> buffer_can_read b3 1"
    using epk_request_reads [OF assms(4-7)] by blast
  let ?g = "set_command (env_cx E) CMD_GET_EXTENDED_PUBLIC_KEY g"
  have z: "the_epk ?g = epk_zero" "app_connected_app_id ?g = t" "sent ?g = sent g"
    using assms(1) by (simp_all add: the_epk_def set_command_def app_calls commands_zero_def)
  have k: "is_known_application t t" using assms(3) by (simp add: is_known_application_def)
  let ?g1 = "upd_epk (\<lambda>c. c\<lparr>epk_raw_public_key := pk, epk_chain_code := code\<rparr>) ?g"
  have "handler_get_extended_public_key E d b True g = send_response_extended_pubkey E pk code ?g1"
    using assms(2,8,9) r z k
    by (simp add: handler_get_extended_public_key_def check_macros Let_def) (simp add: the_epk_def upd_epk_def)
  moreover have "sent ?g1 = sent g" using z(3) by (simp add: upd_epk_def)
  ultimately show ?thesis by (simp add: epk_response_sent [OF assms(10,11)])
qed

text \<open>
  C7. Starting to sign connects the host. Suppose a request to open a signing session, with a token other than zero, is
  accepted. Then the device has remembered the token of that request although it has shown no screen and waits for no
  button; and from that state every request for an extended public key that carries the token gives the same result
  whatever answer the user has in mind, again without a screen or a button. If that request names a valid account path
  and the library derives a key for it, the answer is the key: the compressed public key and the chain code of
  the path are sent at once, with the status of success.
\<close>

theorem session_start_connects:
  assumes "handler_sign_transaction E d b SIGN_TRANSACTION_SUBCOMMAND_SIGN_PK 0x02 g = Some g'" and "\<not> app_is_ui_busy g"
    and "app_current_command g' = CMD_SIGN_TRANSACTION" and "buffer_wf b" and "t = request_token (buffer_data b)" and "t \<noteq> 0"
  shows "app_connected_app_id g' = t \<and> pages g' = pages g \<and> \<not> app_is_ui_busy g' \<and>
     (\<forall>d2 b2 answer. buffer_wf b2 \<and> request_token (buffer_data b2) = t \<longrightarrow>
        handler_get_extended_public_key E (d2\<lparr>draw_answer := answer\<rparr>) b2 True g' = handler_get_extended_public_key E d2 b2 True g' \<and>
        pages (handler_get_extended_public_key E d2 b2 True g') = pages g \<and>
        \<not> app_is_ui_busy (handler_get_extended_public_key E d2 b2 True g')) \<and>
     (\<forall>d2 b2 ws pk code. buffer_wf b2 \<and> buffer_data b2 = epk_request ws t \<and> 0 < length ws \<and> length ws \<le> 10 \<and>
        epk_path_valid (ws @ replicate (10 - length ws) 0) (of_nat (length ws)) \<and>
        crypto_generate_public_key (env_cx E) (ws @ replicate (10 - length ws) 0) (of_nat (length ws)) (epk_raw_public_key epk_zero) =
          (0, pk, code) \<and> length pk = 65 \<and> length code = 32 \<longrightarrow>
        sent (handler_get_extended_public_key E d2 b2 True g') = sent g' @ [Response (epk_reply pk code) SW_OK])"
proof -
  let ?g1 = "set_command (env_cx E) CMD_SIGN_TRANSACTION g"
  have "handle_init_p2pk E d b True (app_connected_app_id ?g1) ?g1 = Some g'"
    using assms(1,2) by (simp add: handler_sign_transaction_def Let_def)
  from init_connects [OF this _ assms(4)] assms(3,5) have c: "connected t ?g1 g'" by simp
  then have g': "app_connected_app_id g' = t" "\<not> app_is_ui_busy g'" "pages g' = pages g" by (simp_all add: connected_def)
  show ?thesis
    using epk_without_dialog [OF g'(1,2) assms(6)] epk_known_sent [OF g'(1,2) assms(6)] g' by (intro conjI allI impI) simp_all
qed


text \<open>Witness: a host with the token 9 opens a session on a fresh device, and then gets the public key of the account 0.\<close>

definition demo_open_request :: buffer_t where
  "demo_open_request = buffer_init ([0, 5, 0x80, 0, 0, 0x2C, 0x80, 0, 1, 0xAD, 0x80, 0, 0, 0, 0, 0, 0, 0, 0, 0, 0, 0, 0, 0, 0, 9]) 26"

definition demo_account :: "u32 list" where
  "demo_account = [0x8000002C, 0x800001AD, 0x80000000]"

definition demo_key_request :: buffer_t where
  "demo_key_request = buffer_init (epk_request demo_account 9) 17"

lemma demo_key_request_wf: "buffer_wf demo_key_request" "buffer_data demo_key_request = epk_request demo_account 9"
proof -
  have "length (epk_request demo_account 9) = 17" by code_simp
  then show "buffer_wf demo_key_request" "buffer_data demo_key_request = epk_request demo_account 9"
    by (simp_all add: demo_key_request_def wf_intros buf_simps)
qed

lemma demo_account_key:
  "\<exists>pk. crypto_generate_public_key demo_device (demo_account @ replicate 7 0) 3 pk0 = (0, pk, replicate 32 1) \<and> length pk = 65"
  by (simp add: crypto_generate_public_key_def crypto_derive_private_key_def crypto_init_public_key_def demo_device_def demo_math_defs
      CX_OK_def PUBLIC_KEY_LEN_def demo_point_def)

lemma demo_open_reads:
  "buffer_read_u8 demo_open_request = (Some 0, buffer_skip demo_open_request 1)"
  "read_bip32_path (buffer_skip demo_open_request 1) (replicate 10 0) = (SW_OK, 5, demo_path, buffer_skip demo_open_request 22)"
  "buffer_read_u32 (buffer_skip demo_open_request 22) BE = (Some 9, buffer_skip demo_open_request 26)"
  "\<not> buffer_can_read (buffer_skip demo_open_request 26) 1" "request_token (buffer_data demo_open_request) = 9"
  by code_simp+

lemma demo_session_id: "session_id_new_random (\<lambda>i. 5) 0 = Some 5"
  by code_simp

lemma demo_path_text: "ui_bip32_path_screen demo_path 5 MAX_PATH_TEXT = Some ''44'/429'/0'/0/0''"
  by code_simp


lemma demo_open_shown:
  assumes "p2_bip32 (the_p2pk g) = \<lparr>bp_len = 5, bp_path = demo_path\<rparr>"
  shows "\<exists>g'. ui_stx_operation_p2pk_show_token_and_path HAVE_NBGL cx 9 False g = (SW_OK, g') \<and>
     app_current_command g' = app_current_command g"
proof -
  have u: "app_current_command (upd_ui f g1) = app_current_command g1" "app_current_command (pair_store k q g1) = app_current_command g1"
    "app_current_command (ui_stx_operation_approve_reject lib cx True g1) = app_current_command g1"
    "app_current_command (g1\<lparr>nb_pairs := n\<rparr>) = app_current_command g1" "signtx_screen (upd_ui f g1) = signtx_screen g1"
    for f lib and g1 :: "('a, 'b) app" and k q n
    by (simp_all add: ui_stx_operation_approve_reject_def send_response_sign_transaction_session_id_def res_calls upd_ui_def upd_stx_def
        pair_store_def app_calls Let_def)
  let ?g = "g\<lparr>signtx_screen := 0, signtx_outputs_screen := 0\<rparr>"
  have p: "the_p2pk ?g = the_p2pk g" "app_current_command ?g = app_current_command g"
    by (simp_all add: the_p2pk_def app_calls)
  have l: "\<not> screens_left 0 < 3" by (simp add: screens_left_def MAX_NUMBER_OF_SCREENS_def)
  show ?thesis
    using assms p l demo_path_text
    by (simp add: ui_stx_operation_p2pk_show_token_and_path_def Let_def nbgl_stx_add_operation_approve_screens_def u
        set_approve_ctx_def set_app_token_def)
qed

theorem session_start_connects_witness:
  "\<exists>g' pk. handler_sign_transaction demo_env demo_draws demo_open_request SIGN_TRANSACTION_SUBCOMMAND_SIGN_PK 0x02 demo_app = Some g' \<and>
     app_connected_app_id demo_app = 0 \<and> app_connected_app_id g' = 9 \<and> pages g' = pages demo_app \<and>
     sent (handler_get_extended_public_key demo_env demo_draws demo_key_request True g') =
       sent g' @ [Response (epk_reply pk (replicate 32 1)) SW_OK]"
proof -
  let ?g = "set_command demo_device CMD_SIGN_TRANSACTION demo_app"
  have i: "\<not> app_is_ui_busy demo_app" "app_connected_app_id demo_app = 0" by (simp_all add: demo_app_def app_calls)
  have z: "the_p2pk ?g = p2pk_zero demo_device" "stx_session (the_stx ?g) = 0"
    by (simp_all add: the_p2pk_def) (simp_all add: stx_zero_def)
  have path: "bp_path (p2_bip32 (p2pk_zero demo_device)) = replicate 10 0"
    by (simp add: p2pk_zero_def bip32_path_zero_def MAX_BIP32_PATH_def)
  let ?g1 = "upd_p2pk (\<lambda>p. p\<lparr>p2_bip32 := \<lparr>bp_len = 5, bp_path = demo_path\<rparr>\<rparr>) ?g"
  have g1: "the_p2pk ?g1 = demo_p2pk" "stx_session (the_stx ?g1) = 0"
    using z by (simp_all add: demo_p2pk_def) (simp add: upd_p2pk_def)
  obtain h k where o: "stx_operation_p2pk_init demo_device demo_rnd demo_p2pk demo_path 5 0 = Inr (demo_opened h k)"
    using demo_p2pk_init by auto
  let ?g2 = "upd_stx (\<lambda>s. s\<lparr>stx_p2pk := demo_opened h k, stx_operation := SIGN_TRANSACTION_OPERATION_P2PK,
      stx_state := SIGN_TRANSACTION_STATE_INITIALIZED, stx_session := 5\<rparr>) ?g1"
  have "p2_bip32 (the_p2pk ?g2) = \<lparr>bp_len = 5, bp_path = demo_path\<rparr>" by (simp add: the_p2pk_def demo_opened_def)
  from demo_open_shown [OF this, of demo_device] obtain g' where
    s: "ui_stx_operation_p2pk_show_token_and_path HAVE_NBGL demo_device 9 False ?g2 = (SW_OK, g')"
    and c: "app_current_command g' = app_current_command ?g2" by blast
  have cmd: "app_current_command g' = CMD_SIGN_TRANSACTION"
    using c by (simp add: upd_stx_def upd_p2pk_def set_command_def app_calls)
  have "app_connected_app_id ?g = 0" by (simp add: i)
  then have r: "handler_sign_transaction demo_env demo_draws demo_open_request SIGN_TRANSACTION_SUBCOMMAND_SIGN_PK 0x02 demo_app = Some g'"
    using i s g1 o demo_session_id z(1) path
    by (simp add: handler_sign_transaction_def handle_init_p2pk_def check_macros demo_open_reads read_token_def demo_env_def
        demo_draws_def Let_def is_known_application_def)
  have wf: "buffer_wf demo_open_request" by (simp add: demo_open_request_def wf_intros)
  obtain pk where pk: "crypto_generate_public_key demo_device (demo_account @ replicate 7 0) 3 (epk_raw_public_key epk_zero) =
      (0, pk, replicate 32 1)" "length pk = 65" using demo_account_key by blast
  have a: "length demo_account = 3" "epk_path_valid (demo_account @ replicate 7 0) 3" by code_simp+
  have "(9 :: u32) \<noteq> 0" by simp
  note c = session_start_connects [OF r i(1) cmd wf demo_open_reads(5) [symmetric] this]
  from c have k: "buffer_wf demo_key_request \<and> buffer_data demo_key_request = epk_request demo_account 9 \<and>
      0 < length demo_account \<and> length demo_account \<le> 10 \<and>
      epk_path_valid (demo_account @ replicate (10 - length demo_account) 0) (of_nat (length demo_account)) \<and>
      crypto_generate_public_key (env_cx demo_env) (demo_account @ replicate (10 - length demo_account) 0) (of_nat (length demo_account))
        (epk_raw_public_key epk_zero) = (0, pk, replicate 32 1) \<and> length pk = 65 \<and> length (replicate 32 1 :: bytes) = 32 \<longrightarrow>
      sent (handler_get_extended_public_key demo_env demo_draws demo_key_request True g') =
        sent g' @ [Response (epk_reply pk (replicate 32 1)) SW_OK]" by blast
  have "env_cx demo_env = demo_device" by (simp add: demo_env_def)
  then have "sent (handler_get_extended_public_key demo_env demo_draws demo_key_request True g') =
      sent g' @ [Response (epk_reply pk (replicate 32 1)) SW_OK]"
    using k pk a demo_key_request_wf by simp
  then show ?thesis using c r i by (intro exI [of _ g'] exI [of _ pk]) simp
qed

end
