(* ===== verification/Blake2bRfc.thy ===== *)
theory Blake2bRfc
  imports Blake2bRef
begin

text \<open>
  BLAKE2b in the notation of RFC 7693: words are integers, addition is modulo \<open>2 ^ 64\<close>, and a rotation is a division with its
  remainder moved to the top. The code works on machine words with shifts. Both compress a block to the same words, so
  that the published test vector can be computed on integers and holds of the code.
\<close>

unbundle bit_operations_syntax

subsection \<open>The arithmetic of the RFC\<close>

definition rfc_add :: "nat \<Rightarrow> nat \<Rightarrow> int \<Rightarrow> int list \<Rightarrow> int list" where
  "rfc_add a b x v = v[a := (v ! a + v ! b + x) mod 18446744073709551616]"

definition rfc_xor_rotate :: "nat \<Rightarrow> nat \<Rightarrow> nat \<Rightarrow> int list \<Rightarrow> int list" where
  "rfc_xor_rotate d a n v =
     v[d := (let z = xor (v ! d) (v ! a) in z div 2 ^ n + (z mod 2 ^ n) * 2 ^ (64 - n))]"

definition rfc_G :: "nat \<Rightarrow> nat \<Rightarrow> nat \<Rightarrow> nat \<Rightarrow> int \<Rightarrow> int \<Rightarrow> int list \<Rightarrow> int list" where
  "rfc_G a b c d x y v =
     rfc_xor_rotate b c 63 (rfc_add c d 0 (rfc_xor_rotate d a 16 (rfc_add a b y
       (rfc_xor_rotate b c 24 (rfc_add c d 0 (rfc_xor_rotate d a 32 (rfc_add a b x v)))))))"

definition rfc_round :: "int list \<Rightarrow> nat list \<Rightarrow> int list \<Rightarrow> int list" where
  "rfc_round m s v =
     rfc_G 3 4 9 14 (m ! (s ! 14)) (m ! (s ! 15)) (rfc_G 2 7 8 13 (m ! (s ! 12)) (m ! (s ! 13))
       (rfc_G 1 6 11 12 (m ! (s ! 10)) (m ! (s ! 11)) (rfc_G 0 5 10 15 (m ! (s ! 8)) (m ! (s ! 9))
         (rfc_G 3 7 11 15 (m ! (s ! 6)) (m ! (s ! 7)) (rfc_G 2 6 10 14 (m ! (s ! 4)) (m ! (s ! 5))
           (rfc_G 1 5 9 13 (m ! (s ! 2)) (m ! (s ! 3)) (rfc_G 0 4 8 12 (m ! (s ! 0)) (m ! (s ! 1)) v)))))))"

definition rfc_IV :: "int list" where
  "rfc_IV = [0x6A09E667F3BCC908, 0xBB67AE8584CAA73B, 0x3C6EF372FE94F82B, 0xA54FF53A5F1D36F1,
     0x510E527FADE682D1, 0x9B05688C2B3E6C1F, 0x1F83D9ABFB41BD6B, 0x5BE0CD19137E2179]"

definition rfc_F :: "int list \<Rightarrow> int list \<Rightarrow> int \<Rightarrow> bool \<Rightarrow> int list" where
  "rfc_F h m t f =
     (let v = fold (rfc_round m) blake2b_sigma
        (h @ [rfc_IV ! 0, rfc_IV ! 1, rfc_IV ! 2, rfc_IV ! 3,
              xor (rfc_IV ! 4) (t mod 2 ^ 64), xor (rfc_IV ! 5) (t div 2 ^ 64),
              (if f then 2 ^ 64 - 1 - rfc_IV ! 6 else rfc_IV ! 6), rfc_IV ! 7])
      in map (\<lambda>i. xor (xor (h ! i) (v ! i)) (v ! (i + 8))) [0..<8])"

subsection \<open>Words and integers\<close>

abbreviation W :: "int \<Rightarrow> u64" where "W \<equiv> word_of_int"

text \<open>A list of integers that are values of 64-bit words.\<close>

definition in_u64 :: "int list \<Rightarrow> bool" where
  "in_u64 v \<longleftrightarrow> list_all (\<lambda>x. 0 \<le> x \<and> x < 18446744073709551616) v"

lemma in_u64_nth: "in_u64 v \<Longrightarrow> i < length v \<Longrightarrow> 0 \<le> v ! i \<and> v ! i < 18446744073709551616"
  by (simp add: in_u64_def list_all_length)

lemma in_u64_update: "in_u64 v \<Longrightarrow> 0 \<le> x \<and> x < 18446744073709551616 \<Longrightarrow> in_u64 (v[i := x])"
  by (auto simp: in_u64_def list_all_iff dest!: set_update_subset_insert [THEN subsetD])

lemma length_rfc [simp]: "length (rfc_add a b x v) = length v" "length (rfc_xor_rotate d a n v) = length v"
  by (simp_all add: rfc_add_def rfc_xor_rotate_def)

lemma length_rfc_G [simp]: "length (rfc_G a b c d x y v) = length v"
  by (simp add: rfc_G_def)

lemma length_rfc_round [simp]: "length (rfc_round m s v) = length v"
  by (simp add: rfc_round_def)

lemma W_mod: "W (z mod 18446744073709551616) = W z"
proof -
  have "take_bit 64 (z mod 18446744073709551616) = take_bit 64 z" by (simp add: take_bit_eq_mod)
  then show ?thesis by (simp add: word_of_int_eq_iff)
qed

lemma W_add: "W ((x + y + z) mod 18446744073709551616) = W x + W y + W z"
  unfolding W_mod by simp

lemma xor_range:
  assumes "0 \<le> x \<and> x < 18446744073709551616" and "0 \<le> y \<and> y < (18446744073709551616 :: int)"
  shows "0 \<le> xor x y \<and> xor x y < 18446744073709551616"
  using assms XOR_upper [of x 64 y] by simp

lemma rotate_range:
  assumes "0 \<le> z \<and> z < (18446744073709551616 :: int)" and "0 < n" "n < 64"
  shows "0 \<le> z div 2 ^ n + (z mod 2 ^ n) * 2 ^ (64 - n) \<and> z div 2 ^ n + (z mod 2 ^ n) * 2 ^ (64 - n) < 18446744073709551616"
proof -
  have e: "(18446744073709551616 :: int) = 2 ^ (64 - n) * 2 ^ n" using assms(3) by (simp flip: power_add)
  have q: "0 \<le> z div 2 ^ n" using assms(1) by (simp add: pos_imp_zdiv_nonneg_iff)
  have "0 \<le> z mod 2 ^ n" by simp
  then have "(z div 2 ^ n) * 2 ^ n < 2 ^ (64 - n) * 2 ^ n"
    using assms(1) minus_mod_eq_div_mult [of z "2 ^ n"] unfolding e by linarith
  then have q': "z div 2 ^ n < 2 ^ (64 - n)" by simp
  have "z mod 2 ^ n \<le> 2 ^ n - 1" by simp
  then have "(z mod 2 ^ n) * 2 ^ (64 - n) \<le> (2 ^ n - 1) * 2 ^ (64 - n)" by (intro mult_right_mono) simp_all
  then have "z div 2 ^ n + (z mod 2 ^ n) * 2 ^ (64 - n) < 2 ^ (64 - n) * 2 ^ n" using q' by (simp add: algebra_simps)
  then show ?thesis using q(1) unfolding e by (simp add: add_nonneg_nonneg)
qed

lemma bit_u64_range: "0 \<le> z \<and> z < (18446744073709551616 :: int) \<Longrightarrow> bit z k \<Longrightarrow> k < 64"
proof -
  assume "0 \<le> z \<and> z < (18446744073709551616 :: int)" "bit z k"
  then have "take_bit 64 z = z" by (simp add: take_bit_int_eq_self_iff)
  with \<open>bit z k\<close> show "k < 64" by (metis bit_take_bit_iff)
qed

lemma W_rotate:
  assumes "0 \<le> z \<and> z < (18446744073709551616 :: int)" and "0 < n" "n < 64"
  shows "W (z div 2 ^ n + (z mod 2 ^ n) * 2 ^ (64 - n)) = rotr64 (W z) n"
proof -
  have lo: "W (z div 2 ^ n) = drop_bit n (W z)"
    unfolding drop_bit_eq_div [symmetric]
    by (rule bit_word_eqI) (auto simp: bit_simps dest: bit_u64_range [OF assms(1)])
  have e: "(2 :: int) ^ 64 = 2 ^ (64 - n) * 2 ^ n" using assms(3) by (simp flip: power_add)
  have "((z mod 2 ^ n) * 2 ^ (64 - n)) mod 2 ^ 64 = (z * 2 ^ (64 - n)) mod (2 ^ 64 :: int)"
    unfolding e by (simp add: mult.commute)
  then have "W ((z mod 2 ^ n) * 2 ^ (64 - n)) = W (z * 2 ^ (64 - n))"
    unfolding word_of_int_eq_iff by (simp add: take_bit_eq_mod del: of_int_mult)
  also have "\<dots> = push_bit (64 - n) (W z)" by (simp add: push_bit_eq_mult)
  finally have hi: "W ((z mod 2 ^ n) * 2 ^ (64 - n)) = push_bit (64 - n) (W z)" .
  have "drop_bit n (W z) AND push_bit (64 - n) (W z) = 0"
    using assms(2) by (intro bit_word_eqI) (auto simp: bit_simps dest: bit_u64_range [OF assms(1)])
  then have "drop_bit n (W z) + push_bit (64 - n) (W z) = rotr64 (W z) n"
    by (simp add: rotr64_def disjunctive_add_eq_or)
  then show ?thesis unfolding of_int_add lo hi .
qed

subsection \<open>The same compression\<close>

text \<open>A step of the code on the words of a list that is in range.\<close>

lemma rfc_add_words:
  assumes "in_u64 v" and "a < length v" "b < length v"
  shows "in_u64 (rfc_add a b x v)" and "(map W v)[a := map W v ! a + map W v ! b + W x] = map W (rfc_add a b x v)"
  using assms by (simp_all add: rfc_add_def in_u64_update map_update W_add)

lemma W_xor: "W (xor x y) = W x XOR W y"
  by (rule bit_word_eqI) (simp add: bit_simps)

lemma rfc_xor_rotate_words:
  assumes "in_u64 v" and "d < length v" "a < length v" and "0 < n" "n < 64"
  shows "in_u64 (rfc_xor_rotate d a n v)"
    and "(map W v)[d := rotr64 (map W v ! d XOR map W v ! a) n] = map W (rfc_xor_rotate d a n v)"
proof -
  have z: "0 \<le> xor (v ! d) (v ! a) \<and> xor (v ! d) (v ! a) < 18446744073709551616"
    using assms in_u64_nth xor_range by blast
  show "in_u64 (rfc_xor_rotate d a n v)"
    unfolding rfc_xor_rotate_def Let_def by (rule in_u64_update [OF assms(1) rotate_range [OF z assms(4,5)]])
  show "(map W v)[d := rotr64 (map W v ! d XOR map W v ! a) n] = map W (rfc_xor_rotate d a n v)"
    unfolding rfc_xor_rotate_def Let_def map_update W_rotate [OF z assms(4,5)]
    using assms(2,3) by (simp add: W_xor)
qed

lemma b2_G_words:
  assumes "in_u64 v" and "a < length v" "b < length v" "c < length v" "d < length v"
    and "blake2b_sigma ! r ! (2 * i) < length m" "blake2b_sigma ! r ! (2 * i + 1) < length m"
  shows "in_u64 (rfc_G a b c d (m ! (blake2b_sigma ! r ! (2 * i))) (m ! (blake2b_sigma ! r ! (2 * i + 1))) v)"
    and "b2_G (map W m) r i a b c d (map W v) =
      map W (rfc_G a b c d (m ! (blake2b_sigma ! r ! (2 * i))) (m ! (blake2b_sigma ! r ! (2 * i + 1))) v)"
proof -
  note steps = rfc_add_words rfc_xor_rotate_words
  show "in_u64 (rfc_G a b c d (m ! (blake2b_sigma ! r ! (2 * i))) (m ! (blake2b_sigma ! r ! (2 * i + 1))) v)"
    using assms by (simp add: rfc_G_def steps(1,3))
  have zero: "in_u64 u \<Longrightarrow> c < length u \<Longrightarrow> d < length u \<Longrightarrow> (map W u)[c := map W u ! c + map W u ! d] = map W (rfc_add c d 0 u)" for u
    using rfc_add_words(2) [of u c d 0] by simp
  have mk: "k < length m \<Longrightarrow> map W m ! k = W (m ! k)" for k by simp
  show "b2_G (map W m) r i a b c d (map W v) =
      map W (rfc_G a b c d (m ! (blake2b_sigma ! r ! (2 * i))) (m ! (blake2b_sigma ! r ! (2 * i + 1))) v)"
    using assms unfolding b2_G_def rfc_G_def Let_def
    by (simp only: mk steps zero length_rfc add_0_right zero_less_numeral rel_simps)
qed

text \<open>The rows of the table are permutations of the positions in a block.\<close>

lemma sigma_rows: "r < 12 \<Longrightarrow> k < 16 \<Longrightarrow> blake2b_sigma ! r ! k < 16"
proof -
  have "list_all (\<lambda>s. length s = 16 \<and> list_all (\<lambda>j. j < 16) s) blake2b_sigma" by (simp add: blake2b_sigma_def)
  moreover have "length blake2b_sigma = 12" by (simp add: blake2b_sigma_def)
  ultimately show "r < 12 \<Longrightarrow> k < 16 \<Longrightarrow> blake2b_sigma ! r ! k < 16" by (auto simp: list_all_length)
qed

text \<open>A round is eight mixings, four on the columns and four on the diagonals.\<close>

definition mixings :: "(nat \<times> nat \<times> nat \<times> nat \<times> nat) list" where
  "mixings = [(0, 0, 4, 8, 12), (1, 1, 5, 9, 13), (2, 2, 6, 10, 14), (3, 3, 7, 11, 15),
     (4, 0, 5, 10, 15), (5, 1, 6, 11, 12), (6, 2, 7, 8, 13), (7, 3, 4, 9, 14)]"

lemma b2_ROUND_mixings: "b2_ROUND m r v = fold (\<lambda>(i, a, b, c, d). b2_G m r i a b c d) mixings v"
  by (simp add: b2_ROUND_def mixings_def Let_def)

lemma rfc_round_mixings:
  "rfc_round m s v = fold (\<lambda>(i, a, b, c, d). rfc_G a b c d (m ! (s ! (2 * i))) (m ! (s ! (2 * i + 1)))) mixings v"
  by (simp add: rfc_round_def mixings_def)

lemma mixings_words:
  assumes "list_all (\<lambda>(i, a, b, c, d). i < 8 \<and> a < 16 \<and> b < 16 \<and> c < 16 \<and> d < 16) qs"
    and "in_u64 v" "length v = 16" "length m = 16" "r < 12"
  shows "in_u64 (fold (\<lambda>(i, a, b, c, d). rfc_G a b c d (m ! (blake2b_sigma ! r ! (2 * i))) (m ! (blake2b_sigma ! r ! (2 * i + 1)))) qs v) \<and>
     fold (\<lambda>(i, a, b, c, d). b2_G (map W m) r i a b c d) qs (map W v) =
     map W (fold (\<lambda>(i, a, b, c, d). rfc_G a b c d (m ! (blake2b_sigma ! r ! (2 * i))) (m ! (blake2b_sigma ! r ! (2 * i + 1)))) qs v)"
  using assms
proof (induction qs arbitrary: v)
  case (Cons q qs)
  obtain i a b c d where q: "q = (i, a, b, c, d)" by (cases q)
  have k: "blake2b_sigma ! r ! (2 * i) < length m" "blake2b_sigma ! r ! (2 * i + 1) < length m"
    using Cons.prems q by (simp_all add: sigma_rows del: One_nat_def)
  have "a < length v" "b < length v" "c < length v" "d < length v" using Cons.prems q by simp_all
  note G = b2_G_words [OF Cons.prems(2) this k]
  show ?case using Cons.IH [OF _ G(1)] Cons.prems G(2) q by simp
qed simp

lemma b2_ROUND_words:
  assumes "in_u64 v" and "length v = 16" "length m = 16" "r < 12"
  shows "in_u64 (rfc_round m (blake2b_sigma ! r) v)"
    and "b2_ROUND (map W m) r (map W v) = map W (rfc_round m (blake2b_sigma ! r) v)"
  using mixings_words [of mixings, OF _ assms] by (simp_all add: b2_ROUND_mixings rfc_round_mixings) (simp_all add: mixings_def)

text \<open>All rounds.\<close>

lemma rounds_words:
  assumes "in_u64 v" and "length v = 16" "length m = 16" "list_all (\<lambda>r. r < 12) rs"
  shows "fold (b2_ROUND (map W m)) rs (map W v) = map W (fold (rfc_round m) (map ((!) blake2b_sigma) rs) v)"
  using assms by (induction rs arbitrary: v) (simp_all add: b2_ROUND_words)

lemma all_rounds: "map ((!) blake2b_sigma) [0..<12] = blake2b_sigma"
proof -
  have "length blake2b_sigma = 12" by (simp add: blake2b_sigma_def)
  then show ?thesis by (metis map_nth)
qed

subsection \<open>Blocks\<close>

text \<open>The word of eight bytes, the first one lowest, and the sixteen words of a block.\<close>

definition rfc_word :: "bytes \<Rightarrow> int" where
  "rfc_word p = foldr (\<lambda>b w. uint b + 256 * w) (take 8 p) 0"

definition rfc_words :: "bytes \<Rightarrow> int list" where
  "rfc_words block = map (\<lambda>i. rfc_word (drop (8 * i) block)) [0..<16]"

lemma or_byte:
  assumes "unat a < 2 ^ s" and "s + 8 \<le> 64"
  shows "a OR push_bit s (ucast (b :: u8)) = a + W (uint b * 2 ^ s)" and "unat (a OR push_bit s (ucast b)) < 2 ^ (s + 8)"
proof -
  have u: "unat (push_bit s (ucast b :: u64)) = unat b * 2 ^ s"
  proof -
    have "unat b * 2 ^ s < 2 ^ 8 * 2 ^ s" using unsigned_less [of b] by simp
    also have "\<dots> = 2 ^ (8 + s)" by (simp add: power_add)
    also have "\<dots> \<le> (2 :: nat) ^ 64" using assms(2) by (intro power_increasing) simp_all
    finally show ?thesis unfolding unsigned_push_bit_eq
      by (simp add: unat_ucast_up take_bit_nat_eq_self push_bit_eq_mult)
  qed
  have "push_bit s (ucast b :: u64) = W (uint b * 2 ^ s)" by (simp add: push_bit_eq_mult)
  then show "a OR push_bit s (ucast b) = a + W (uint b * 2 ^ s)" unfolding or_push_bit_add [OF assms(1)] by simp
  have "unat b \<le> 255" using unat_u8_less [of b] by simp
  then have m: "unat b * 2 ^ s \<le> 255 * 2 ^ s" by (rule mult_right_mono) simp
  have "(2 :: nat) ^ (s + 8) = 256 * 2 ^ s" by (simp add: power_add)
  then have "unat a + unat b * 2 ^ s < 2 ^ (s + 8)" using assms(1) m by linarith
  then show "unat (a OR push_bit s (ucast b)) < 2 ^ (s + 8)"
    unfolding or_push_bit_add [OF assms(1)] unat_word_ariths(1) u by (rule order.strict_trans1 [OF mod_less_eq_dividend])
qed

lemma load64_word:
  assumes "8 \<le> length p"
  shows "load64 p = W (rfc_word p)"
proof -
  have "take 8 p = map ((!) p) [0..<8]" using assms by (intro nth_equalityI) simp_all
  then have t: "take 8 p = [p ! 0, p ! 1, p ! 2, p ! 3, p ! 4, p ! 5, p ! 6, p ! 7]"
    by (simp add: upt_rec numeral_eq_Suc)
  have s0: "ucast (p ! 0) = W (uint (p ! 0))" "unat (ucast (p ! 0) :: u64) < 2 ^ 8"
    using unsigned_less [of "p ! 0"] by (simp_all add: unat_ucast_up)
  note num = rel_simps arith_simps simp_thms
  have s1: "ucast (p ! 0) OR push_bit 8 (ucast (p ! 1)) = W (uint (p ! 0)) + W (uint (p ! 1) * 2 ^ 8)"
    by (rule trans [OF or_byte(1) [OF s0(2)]]) (simp_all only: s0(1) num)
  have u1: "unat (ucast (p ! 0) OR push_bit 8 (ucast (p ! 1)) :: u64) < 2 ^ 16"
    using or_byte(2) [OF s0(2), of "p ! 1"] by (simp only: num)
  have s2: "(ucast (p ! 0) OR push_bit 8 (ucast (p ! 1))) OR push_bit 16 (ucast (p ! 2)) = W (uint (p ! 0)) + W (uint (p ! 1) * 2 ^ 8) + W (uint (p ! 2) * 2 ^ 16)"
    by (rule trans [OF or_byte(1) [OF u1]]) (simp_all only: s1 num)
  have u2: "unat ((ucast (p ! 0) OR push_bit 8 (ucast (p ! 1))) OR push_bit 16 (ucast (p ! 2)) :: u64) < 2 ^ 24"
    using or_byte(2) [OF u1, of "p ! 2"] by (simp only: num)
  have s3: "((ucast (p ! 0) OR push_bit 8 (ucast (p ! 1))) OR push_bit 16 (ucast (p ! 2))) OR push_bit 24 (ucast (p ! 3)) = W (uint (p ! 0)) + W (uint (p ! 1) * 2 ^ 8) + W (uint (p ! 2) * 2 ^ 16) + W (uint (p ! 3) * 2 ^ 24)"
    by (rule trans [OF or_byte(1) [OF u2]]) (simp_all only: s2 num)
  have u3: "unat (((ucast (p ! 0) OR push_bit 8 (ucast (p ! 1))) OR push_bit 16 (ucast (p ! 2))) OR push_bit 24 (ucast (p ! 3)) :: u64) < 2 ^ 32"
    using or_byte(2) [OF u2, of "p ! 3"] by (simp only: num)
  have s4: "(((ucast (p ! 0) OR push_bit 8 (ucast (p ! 1))) OR push_bit 16 (ucast (p ! 2))) OR push_bit 24 (ucast (p ! 3))) OR push_bit 32 (ucast (p ! 4)) = W (uint (p ! 0)) + W (uint (p ! 1) * 2 ^ 8) + W (uint (p ! 2) * 2 ^ 16) + W (uint (p ! 3) * 2 ^ 24) + W (uint (p ! 4) * 2 ^ 32)"
    by (rule trans [OF or_byte(1) [OF u3]]) (simp_all only: s3 num)
  have u4: "unat ((((ucast (p ! 0) OR push_bit 8 (ucast (p ! 1))) OR push_bit 16 (ucast (p ! 2))) OR push_bit 24 (ucast (p ! 3))) OR push_bit 32 (ucast (p ! 4)) :: u64) < 2 ^ 40"
    using or_byte(2) [OF u3, of "p ! 4"] by (simp only: num)
  have s5: "((((ucast (p ! 0) OR push_bit 8 (ucast (p ! 1))) OR push_bit 16 (ucast (p ! 2))) OR push_bit 24 (ucast (p ! 3))) OR push_bit 32 (ucast (p ! 4))) OR push_bit 40 (ucast (p ! 5)) = W (uint (p ! 0)) + W (uint (p ! 1) * 2 ^ 8) + W (uint (p ! 2) * 2 ^ 16) + W (uint (p ! 3) * 2 ^ 24) + W (uint (p ! 4) * 2 ^ 32) + W (uint (p ! 5) * 2 ^ 40)"
    by (rule trans [OF or_byte(1) [OF u4]]) (simp_all only: s4 num)
  have u5: "unat (((((ucast (p ! 0) OR push_bit 8 (ucast (p ! 1))) OR push_bit 16 (ucast (p ! 2))) OR push_bit 24 (ucast (p ! 3))) OR push_bit 32 (ucast (p ! 4))) OR push_bit 40 (ucast (p ! 5)) :: u64) < 2 ^ 48"
    using or_byte(2) [OF u4, of "p ! 5"] by (simp only: num)
  have s6: "(((((ucast (p ! 0) OR push_bit 8 (ucast (p ! 1))) OR push_bit 16 (ucast (p ! 2))) OR push_bit 24 (ucast (p ! 3))) OR push_bit 32 (ucast (p ! 4))) OR push_bit 40 (ucast (p ! 5))) OR push_bit 48 (ucast (p ! 6)) = W (uint (p ! 0)) + W (uint (p ! 1) * 2 ^ 8) + W (uint (p ! 2) * 2 ^ 16) + W (uint (p ! 3) * 2 ^ 24) + W (uint (p ! 4) * 2 ^ 32) + W (uint (p ! 5) * 2 ^ 40) + W (uint (p ! 6) * 2 ^ 48)"
    by (rule trans [OF or_byte(1) [OF u5]]) (simp_all only: s5 num)
  have u6: "unat ((((((ucast (p ! 0) OR push_bit 8 (ucast (p ! 1))) OR push_bit 16 (ucast (p ! 2))) OR push_bit 24 (ucast (p ! 3))) OR push_bit 32 (ucast (p ! 4))) OR push_bit 40 (ucast (p ! 5))) OR push_bit 48 (ucast (p ! 6)) :: u64) < 2 ^ 56"
    using or_byte(2) [OF u5, of "p ! 6"] by (simp only: num)
  have s7: "((((((ucast (p ! 0) OR push_bit 8 (ucast (p ! 1))) OR push_bit 16 (ucast (p ! 2))) OR push_bit 24 (ucast (p ! 3))) OR push_bit 32 (ucast (p ! 4))) OR push_bit 40 (ucast (p ! 5))) OR push_bit 48 (ucast (p ! 6))) OR push_bit 56 (ucast (p ! 7)) = W (uint (p ! 0)) + W (uint (p ! 1) * 2 ^ 8) + W (uint (p ! 2) * 2 ^ 16) + W (uint (p ! 3) * 2 ^ 24) + W (uint (p ! 4) * 2 ^ 32) + W (uint (p ! 5) * 2 ^ 40) + W (uint (p ! 6) * 2 ^ 48) + W (uint (p ! 7) * 2 ^ 56)"
    by (rule trans [OF or_byte(1) [OF u6]]) (simp_all only: s6 num)
  have "rfc_word p = uint (p ! 0) + uint (p ! 1) * 2 ^ 8 + uint (p ! 2) * 2 ^ 16 + uint (p ! 3) * 2 ^ 24 + uint (p ! 4) * 2 ^ 32 +
      uint (p ! 5) * 2 ^ 40 + uint (p ! 6) * 2 ^ 48 + uint (p ! 7) * 2 ^ 56"
    unfolding rfc_word_def t by simp
  then show ?thesis unfolding load64_def push_bit_0_id id_apply or.assoc [symmetric] s7 by (simp only: of_int_add)
qed

subsection \<open>The compression function and the digest\<close>

lemma IV_words: "blake2b_IV = map W rfc_IV"
  by (simp add: blake2b_IV_def rfc_IV_def)

lemma in_u64_Cons [simp]: "in_u64 (x # v) \<longleftrightarrow> (0 \<le> x \<and> x < 18446744073709551616) \<and> in_u64 v"
  by (simp add: in_u64_def)

lemma in_u64_append [simp]: "in_u64 (u @ v) \<longleftrightarrow> in_u64 u \<and> in_u64 v"
  by (simp add: in_u64_def)

lemma in_u64_Nil [simp]: "in_u64 []"
  by (simp add: in_u64_def)

lemma rounds_in_u64:
  "in_u64 v \<Longrightarrow> length v = 16 \<Longrightarrow> length m = 16 \<Longrightarrow> list_all (\<lambda>r. r < 12) rs \<Longrightarrow>
   in_u64 (fold (rfc_round m) (map ((!) blake2b_sigma) rs) v) \<and> length (fold (rfc_round m) (map ((!) blake2b_sigma) rs) v) = 16"
  by (induction rs arbitrary: v) (simp_all add: b2_ROUND_words)

text \<open>The start of the rounds: the chaining values and the constants with the counter and the mark of the last block.\<close>

definition rfc_start :: "int list \<Rightarrow> int \<Rightarrow> bool \<Rightarrow> int list" where
  "rfc_start h t f =
     h @ [rfc_IV ! 0, rfc_IV ! 1, rfc_IV ! 2, rfc_IV ! 3, xor (rfc_IV ! 4) (t mod 2 ^ 64), xor (rfc_IV ! 5) (t div 2 ^ 64),
          (if f then 2 ^ 64 - 1 - rfc_IV ! 6 else rfc_IV ! 6), rfc_IV ! 7]"

lemma rfc_F_start:
  "rfc_F h m t f = (let v = fold (rfc_round m) blake2b_sigma (rfc_start h t f)
     in map (\<lambda>i. xor (xor (h ! i) (v ! i)) (v ! (i + 8))) [0..<8])"
  by (simp add: rfc_F_def rfc_start_def)

lemma rfc_start_words:
  assumes "in_u64 h" and "length h = 8" "t < 2 ^ 128"
  shows "in_u64 (rfc_start h (int t) f)" and "length (rfc_start h (int t) f) = 16"
    and "map W h @ [blake2b_IV ! 0, blake2b_IV ! 1, blake2b_IV ! 2, blake2b_IV ! 3, blake2b_IV ! 4 XOR of_nat t,
        blake2b_IV ! 5 XOR of_nat (t div 2 ^ 64), blake2b_IV ! 6 XOR (if f then - 1 else 0), blake2b_IV ! 7 XOR 0] =
      map W (rfc_start h (int t) f)"
proof -
  have "t div 2 ^ 64 < 2 ^ 64" using assms(3) by (intro less_mult_imp_div_less) simp
  then have "int (t div 2 ^ 64) < 2 ^ 64" by (metis of_nat_less_iff of_nat_numeral of_nat_power)
  then have hi: "0 \<le> int t div 18446744073709551616 \<and> int t div 18446744073709551616 < 18446744073709551616"
    by (simp add: zdiv_int)
  have lo: "0 \<le> int t mod 18446744073709551616 \<and> int t mod 18446744073709551616 < 18446744073709551616" by simp
  have x: "0 \<le> xor 5840696475078001361 (int t mod 18446744073709551616)" "xor 5840696475078001361 (int t mod 18446744073709551616) < 18446744073709551616"
    "0 \<le> xor 11170449401992604703 (int t div 18446744073709551616)" "xor 11170449401992604703 (int t div 18446744073709551616) < 18446744073709551616"
    using xor_range [OF _ lo, of 5840696475078001361] xor_range [OF _ hi, of 11170449401992604703] by simp_all
  show "in_u64 (rfc_start h (int t) f)" using assms(1) x by (simp add: rfc_start_def rfc_IV_def)
  show "length (rfc_start h (int t) f) = 16" using assms(2) by (simp add: rfc_start_def)
  have final: "(2270897969802886507 :: u64) XOR - 1 = 16175846103906665108" by code_simp
  have "of_nat (t div 18446744073709551616) = W (int t div 18446744073709551616)"
    by (metis of_int_of_nat_eq of_nat_numeral zdiv_int)
  then show "map W h @ [blake2b_IV ! 0, blake2b_IV ! 1, blake2b_IV ! 2, blake2b_IV ! 3, blake2b_IV ! 4 XOR of_nat t,
        blake2b_IV ! 5 XOR of_nat (t div 2 ^ 64), blake2b_IV ! 6 XOR (if f then - 1 else 0), blake2b_IV ! 7 XOR 0] =
      map W (rfc_start h (int t) f)"
    by (simp add: rfc_start_def rfc_IV_def blake2b_IV_def W_xor W_mod final)
qed

lemma b2_F_words:
  assumes "in_u64 h" and "length h = 8" "t < 2 ^ 128" "length block = 128"
  shows "in_u64 (rfc_F h (rfc_words block) (int t) f)"
    and "b2_F (map W h) block t f = map W (rfc_F h (rfc_words block) (int t) f)"
proof -
  note st = rfc_start_words [OF assms(1-3)]
  have m: "map (\<lambda>i. load64 (drop (8 * i) block)) [0..<16] = map W (rfc_words block)"
    using assms(4) by (simp add: rfc_words_def load64_word)
  have len: "length (rfc_words block) = 16" by (simp add: rfc_words_def)
  have rs: "list_all (\<lambda>r. r < 12) [0..<12]" by (simp add: list_all_iff)
  define v where "v = fold (rfc_round (rfc_words block)) blake2b_sigma (rfc_start h (int t) f)"
  have v: "in_u64 v" "length v = 16"
    using rounds_in_u64 [OF st(1,2) len rs, of f] unfolding all_rounds v_def by simp_all
  have w: "fold (b2_ROUND (map W (rfc_words block))) [0..<12] (map W (rfc_start h (int t) f)) = map W v"
    using rounds_words [OF st(1,2) len rs, of f] unfolding all_rounds v_def .
  have F: "rfc_F h (rfc_words block) (int t) f = map (\<lambda>i. xor (xor (h ! i) (v ! i)) (v ! (i + 8))) [0..<8]"
    by (simp add: rfc_F_start v_def Let_def)
  show "in_u64 (rfc_F h (rfc_words block) (int t) f)"
    unfolding F using assms(1,2) v by (auto simp: in_u64_def list_all_length intro!: xor_range [THEN conjunct1] xor_range [THEN conjunct2] xor_range)
  show "b2_F (map W h) block t f = map W (rfc_F h (rfc_words block) (int t) f)"
    unfolding F b2_F_def blake2b_compress_def Let_def
    using st(3) [of f] assms(2) v(2) by (simp add: m w W_xor xor.assoc)
qed

text \<open>All blocks of a message: the last one is padded with zeros and marked, and the counter counts the bytes of the message.\<close>

function rfc_blocks :: "int list \<Rightarrow> nat \<Rightarrow> bytes \<Rightarrow> int list" where
  "rfc_blocks h t d =
     (if length d \<le> 128 then rfc_F h (rfc_words (d @ replicate (128 - length d) 0)) (int (t + length d)) True
      else rfc_blocks (rfc_F h (rfc_words (take 128 d)) (int (t + 128)) False) (t + 128) (drop 128 d))"
  by pat_completeness auto
termination by (relation "measure (\<lambda>(h, t, d). length d)") auto

declare rfc_blocks.simps [simp del]

definition rfc_bytes :: "int \<Rightarrow> bytes" where
  "rfc_bytes x = map (\<lambda>k. word_of_int (x div 2 ^ (8 * k))) [0..<8]"

text \<open>The digest of \<open>nn\<close> bytes of a message under a key, which is a block of its own in front when it is not empty.\<close>

definition rfc_blake2b :: "nat \<Rightarrow> bytes \<Rightarrow> bytes \<Rightarrow> bytes" where
  "rfc_blake2b nn key d =
     take nn (concat (map rfc_bytes (rfc_blocks
       (rfc_IV[0 := xor (xor (xor (rfc_IV ! 0) 0x01010000) (256 * int (length key))) (int nn)]) 0
       ((if key = [] then [] else key @ replicate (128 - length key) 0) @ d))))"

lemma length_rfc_F [simp]: "length (rfc_F h m t f) = 8"
  by (simp add: rfc_F_def Let_def)

lemma blocks_words:
  assumes "in_u64 h" and "length h = 8" "t + length d < 2 ^ 128"
  shows "in_u64 (rfc_blocks h t d) \<and> b2_last (b2_absorb (map W h) t d) = map W (rfc_blocks h t d)"
  using assms
proof (induction h t d rule: rfc_blocks.induct)
  case (1 h t d)
  show ?case
  proof (cases "length d \<le> 128")
    case True
    then show ?thesis
      using b2_F_words [OF "1.prems", of "d @ replicate (128 - length d) 0" True]
      by (simp add: rfc_blocks.simps [of h t d] b2_absorb_short b2_last_def)
  next
    case False
    have F: "in_u64 (rfc_F h (rfc_words (take 128 d)) (int (t + 128)) False)"
      "b2_F (map W h) (take 128 d) (t + 128) False = map W (rfc_F h (rfc_words (take 128 d)) (int (t + 128)) False)"
      using b2_F_words [OF "1.prems"(1,2), of "t + 128" "take 128 d" False] "1.prems"(3) False by simp_all
    show ?thesis
      using "1.IH" [OF False F(1)] "1.prems"(3) False F(2)
      by (simp add: rfc_blocks.simps [of h t d] b2_absorb.simps [of "map W h" t d])
  qed
qed

lemma store64_word: "0 \<le> x \<and> x < 18446744073709551616 \<Longrightarrow> store64 (W x) = rfc_bytes x"
proof -
  assume x: "0 \<le> x \<and> x < 18446744073709551616"
  have "ucast (drop_bit (8 * k) (W x)) = (word_of_int (x div 2 ^ (8 * k)) :: u8)" for k
    unfolding drop_bit_eq_div [symmetric]
    by (rule bit_word_eqI) (auto simp: bit_simps dest: bit_u64_range [OF x])
  from this [of 0] this [of 1] this [of 2] this [of 3] this [of 4] this [of 5] this [of 6] this [of 7]
  show "store64 (W x) = rfc_bytes x" by (simp add: store64_def rfc_bytes_def upt_rec)
qed

lemma b2_hash_rfc:
  assumes "0 < outlen" and "outlen \<le> BLAKE2B_OUTBYTES" and "length key \<le> 64" "length d < 2 ^ 64"
  shows "b2_hash outlen key d = rfc_blake2b (unat outlen) key d"
proof -
  let ?h = "rfc_IV[0 := xor (xor (xor (rfc_IV ! 0) 0x01010000) (256 * int (length key))) (int (unat outlen))]"
  let ?msg = "(if key = [] then [] else key @ replicate (128 - length key) 0) @ d"
  have n: "unat outlen \<le> 64" "uint outlen \<le> 64" using assms(2) by (simp add: b2_sizes word_le_nat_alt, simp add: b2_sizes word_le_def)
  have r: "0 \<le> xor (xor (xor (rfc_IV ! 0) 0x01010000) (256 * int (length key))) (int (unat outlen)) \<and>
     xor (xor (xor (rfc_IV ! 0) 0x01010000) (256 * int (length key))) (int (unat outlen)) < 18446744073709551616"
    using assms(3) n by (intro xor_range) (simp_all add: rfc_IV_def)
  then have h: "in_u64 ?h" "length ?h = 8" by (simp_all add: rfc_IV_def)
  have "length ?msg < 2 ^ 128" using assms(3,4) by simp
  then have b: "in_u64 (rfc_blocks ?h 0 ?msg)" "b2_last (b2_absorb (map W ?h) 0 ?msg) = map W (rfc_blocks ?h 0 ?msg)"
    using blocks_words [OF h, of 0 ?msg] by simp_all
  have "uint (ucast outlen :: u8) = uint outlen"
    using n(2) by (simp only: unsigned_ucast_eq) (simp add: take_bit_int_eq_self)
  then have nn: "(ucast (ucast outlen :: u8) :: u64) = W (int (unat outlen))" by (simp only: ucast_eq uint_nat)
  have "uint (of_nat (length key) :: u8) = int (length key)"
    using assms(3) by (simp add: uint_nat unat_of_nat_small del: of_nat_unat)
  then have kk: "push_bit 8 (ucast (of_nat (length key) :: u8)) = W (256 * int (length key))"
    by (simp only: ucast_eq push_bit_eq_mult of_int_mult) simp
  have iv0: "map W rfc_IV ! 0 = W (rfc_IV ! 0)" by (simp add: rfc_IV_def)
  have "b2_start (ucast outlen) (of_nat (length key)) = map W ?h"
    unfolding b2_start_def IV_words nn kk using iv0 by (simp only: map_update W_xor xor.assoc of_int_numeral)
  moreover have "concat (map store64 (map W v)) = concat (map rfc_bytes v)" if "in_u64 v" for v
    using that by (induction v) (simp_all add: store64_word)
  ultimately show ?thesis unfolding b2_hash_def rfc_blake2b_def Let_def using b by simp
qed

text \<open>
  C10. The hash of the unit tests is BLAKE2b. Started for a digest of 1 to 64 bytes, fed with any number of chunks of any
  sizes and finished, the reference implementation never fails and stores exactly the digest that RFC 7693 defines
  for the concatenation of the chunks, computed with integers and without any state in between.
\<close>

theorem blake2b_is_rfc7693:
  assumes "0 < outlen" and "outlen \<le> BLAKE2B_OUTBYTES" and "\<forall>c\<in>set cs. length c < 2 ^ 32" and "length (concat cs) < 2 ^ 64"
  shows "\<exists>S S'. blake2b_ref_init outlen = Some S \<and>
     blake2b_ref_final (b2_updates cs S) (Some out) outlen =
       (0, S', Some (mem_write out 0 (rfc_blake2b (unat outlen) [] (concat cs))))"
  using blake2b_streaming [OF assms(1-3)] b2_hash_rfc [OF assms(1,2) _ assms(4), of "[]"] by simp

text \<open>Witness: the test vector of RFC 7693, appendix A: \<open>abc\<close>, in two updates.\<close>

definition rfc_digest_abc :: bytes where
  "rfc_digest_abc =
    [0xBA, 0x80, 0xA5, 0x3F, 0x98, 0x1C, 0x4D, 0x0D, 0x6A, 0x27, 0x97, 0xB6, 0x9F, 0x12, 0xF6, 0xE9,
     0x4C, 0x21, 0x2F, 0x14, 0x68, 0x5A, 0xC4, 0xB7, 0x4B, 0x12, 0xBB, 0x6F, 0xDB, 0xFF, 0xA2, 0xD1,
     0x7D, 0x87, 0xC5, 0x39, 0x2A, 0xAB, 0x79, 0x2D, 0xC2, 0x52, 0xD5, 0xDE, 0x45, 0x33, 0xCC, 0x95,
     0x18, 0xD3, 0x8A, 0xA8, 0xDB, 0xF1, 0x92, 0x5A, 0xB9, 0x23, 0x86, 0xED, 0xD4, 0x00, 0x99, 0x23]"

theorem blake2b_is_rfc7693_witness:
  "\<exists>S S'. blake2b_ref_init 64 = Some S \<and>
     blake2b_ref_final (b2_updates [[0x61], [0x62, 0x63]] S) (Some (replicate 64 7)) 64 = (0, S', Some rfc_digest_abc)"
proof -
  have v: "rfc_blake2b 64 [] [0x61, 0x62, 0x63] = rfc_digest_abc" by code_simp
  have l: "length rfc_digest_abc = 64" by (simp add: rfc_digest_abc_def)
  show ?thesis
    using blake2b_is_rfc7693 [of 64 "[[0x61], [0x62, 0x63]]" "replicate 64 7"] v l by (simp add: b2_sizes mem_write_def)
qed

end
