(* ===== verification/UnitTests.thy ===== *)
theory UnitTests
  imports Blake2bRfc BoxId TxPhases Address InputFrame
begin

text \<open>
  Unit tests of the repository, \<^verbatim>\<open>unit-tests/test_*.c\<close>, run on the model. A test is the sequence of calls of its
  function, and its theorem says that the calls answer what the test expects. The hash library of a test is
  \<open>cx_message\<close>: its context is the message so far, and its digest is BLAKE2b as the RFC defines it, which is what the
  replacement of the library in the tests computes (Blake2bRfc, TestHash).
\<close>

subsection \<open>The hash library\<close>

definition cx_message :: "bytes cx_sdk" where
  "cx_message = \<lparr>cx_blake2b_init_no_throw = (\<lambda>h n. (CX_OK, [])),
     cx_hash_no_throw = (\<lambda>h mode data n.
       (CX_OK, h @ data, if mode AND CX_LAST = 0 then [] else take (unat n) (rfc_blake2b 32 [] (h @ data)))),
     cx_blake2b_256_hash = (\<lambda>data. (CX_OK, rfc_blake2b 32 [] data))\<rparr>"

lemma length_rfc_blocks: "length (rfc_blocks h t d) = 8"
  by (induction h t d rule: rfc_blocks.induct) (subst rfc_blocks.simps, simp)

lemma length_rfc_blake2b: "nn \<le> 64 \<Longrightarrow> length (rfc_blake2b nn key d) = nn"
proof -
  have "length (concat (map rfc_bytes xs)) = 8 * length xs" for xs
    by (induction xs) (simp_all add: rfc_bytes_def)
  then show "nn \<le> 64 \<Longrightarrow> length (rfc_blake2b nn key d) = nn" by (simp add: rfc_blake2b_def length_rfc_blocks)
qed

interpretation executable: digest_provider cx_message "\<lambda>h. h" "\<lambda>h. True" "rfc_blake2b 32 []"
  by unfold_locales
    (auto simp: cx_message_def cx_absorbs_def hash_absorb_def CX_BLAKE2B_256_SIZE_def CX_LAST_def CX_NO_REINIT_def
      bit_or_iff length_rfc_blake2b)

subsection \<open>A whole transaction: \<open>test_simple_send_tx\<close>\<close>

definition buffer_of :: "bytes \<Rightarrow> buffer_t" where
  "buffer_of a = buffer_init a (of_nat (length a))"

definition zero_table :: token_table_t where
  "zero_table = \<lparr>tt_count = 0, tt_tokens = replicate (unat TOKEN_MAX_COUNT) (replicate (unat ERGO_ID_LEN) 0)\<rparr>"

definition test_mem :: "bytes ser_mem" where
  "test_mem = \<lparr>hash_ctx = snd (blake2b_256_init cx_message []), tokens_table = zero_table\<rparr>"

definition INPUT_BOX_0_ID :: bytes where
  "INPUT_BOX_0_ID =
    [0xEE, 0x52, 0x85, 0xA4, 0x1E, 0x36, 0x80, 0x26, 0x9C, 0x80, 0xBF, 0x87, 0xD3, 0x0E, 0xF7, 0x02, 0x9D, 0x64, 0x60, 0x39,
      0xC3, 0x5D, 0xFE, 0x96, 0x78, 0x61, 0xB3, 0x9F, 0x33, 0x03, 0x15, 0x64]"

definition OUT_ERGO_TREE :: bytes where
  "OUT_ERGO_TREE =
    [0x00, 0x08, 0xCD, 0x03, 0x20, 0x94, 0xBC, 0x1F, 0xC3, 0xE5, 0x13, 0x36, 0x2A, 0x2E, 0x3D, 0x2E, 0xB8, 0x02, 0x28, 0x3C,
      0x98, 0xBC, 0x31, 0x40, 0xDF, 0xF8, 0xF5, 0x4C, 0x6F, 0x40, 0x9D, 0xD6, 0x4E, 0xAE, 0x18, 0xC3]"

definition CHANGE_ERGO_TREE :: bytes where
  "CHANGE_ERGO_TREE =
    [0x00, 0x08, 0xCD, 0x03, 0x4B, 0x47, 0xC2, 0xA9, 0x67, 0x60, 0xCB, 0xCE, 0x18, 0xF8, 0x47, 0x9A, 0xD9, 0x1A, 0x8D, 0x3C,
      0x29, 0x46, 0xCD, 0x29, 0xA1, 0xBD, 0xE4, 0xB2, 0x3F, 0xB5, 0x90, 0xC3, 0x84, 0x14, 0xF7, 0x7D]"

definition EXPECTED_TX_ID :: bytes where
  "EXPECTED_TX_ID =
    [0xE2, 0xD0, 0x4A, 0xDE, 0x88, 0x0E, 0xF0, 0x4B, 0xEE, 0xDC, 0x6A, 0xC5, 0x70, 0x40, 0xC8, 0x35, 0xC7, 0x18, 0x6D, 0x8D,
      0x41, 0x78, 0x01, 0x58, 0xD5, 0xB3, 0xBE, 0x56, 0x45, 0x56, 0x4A, 0x5D]"

text \<open>The calls after the initialization, and the answers, the last context and the id.\<close>

definition send_ops :: "bytes ser_mem full_op list" where
  "send_ops =
    [FullInput INPUT_BOX_0_ID 1 0, FullInputTokens INPUT_BOX_0_ID 0 (buffer_init [0] 0),
     FullBox 1000000 36 201644 0 0, FullBoxTree (buffer_of OUT_ERGO_TREE),
     FullBox 1100000 0 201644 0 0, FullBoxFee False,
     FullBox 4997900000 36 201644 0 0, FullBoxTree (buffer_of CHANGE_ERGO_TREE)]"

text \<open>The operations of a test, and its initialization in front of them. No test reads a box context before a box.\<close>

definition test_full_ops ::
    "bytes ser_mem full_op list \<Rightarrow> bytes ser_mem full_ctx \<Rightarrow> bytes ser_mem \<Rightarrow>
     ergo_tx_serializer_full_result_e list \<times> bytes ser_mem full_ctx \<times> bytes ser_mem" where
  "test_full_ops ps c m = answers (\<lambda>p s. full_exec cx_message (\<lambda>i. box_ctx_zero) p (fst s) (snd s)) ps (c, m)"

definition test_simple_send_tx :: bool where
  "test_simple_send_tx \<longleftrightarrow>
     (case ergo_tx_serializer_full_init cx_message 1 0 3 0 test_mem of (r, c0, m0) \<Rightarrow>
      case test_full_ops send_ops c0 m0 of (rs, c, m) \<Rightarrow>
      case blake2b_256_finalize cx_message (hash_ctx m) of (ok, _, tx_id) \<Rightarrow>
        r = ERGO_TX_SERIALIZER_FULL_RES_OK \<and> rs = replicate 8 ERGO_TX_SERIALIZER_FULL_RES_OK \<and>
        ergo_tx_serializer_full_is_finished c \<and> ok \<and> tx_id = EXPECTED_TX_ID)"

text \<open>The state after the initialization for \<open>tc\<close> tokens.\<close>

definition test_start :: "u16 \<Rightarrow> u16 \<Rightarrow> u16 \<Rightarrow> u8 \<Rightarrow> bytes ser_mem full_ctx" where
  "test_start ic dc oc tc = full_ctx_zero\<lparr>full_inputs_count := ic, full_data_inputs_count := dc, full_outputs_count := oc,
     full_table_ctx := \<lparr>distinct_tokens_count = tc\<rparr>,
     full_state := (if tc = 0 then ERGO_TX_SERIALIZER_FULL_STATE_INPUTS_STARTED else ERGO_TX_SERIALIZER_FULL_STATE_TOKENS_STARTED),
     full_input_ctx := (if tc = 0 then input_ctx_zero\<lparr>input_state := ERGO_TX_SERIALIZER_INPUT_STATE_FINISHED\<rparr> else input_ctx_zero)\<rparr>"

lemma hash_u16_1: "hash_u16 cx_message \<lparr>hash_ctx = h, tokens_table = t\<rparr> 1 = (True, \<lparr>hash_ctx = h @ [1], tokens_table = t\<rparr>)"
  by (code_simp, simp)

lemma test_init:
  assumes "oc \<noteq> 0" and "\<not> TOKEN_MAX_COUNT < tc"
  shows "ergo_tx_serializer_full_init cx_message 1 dc oc tc test_mem =
    (ERGO_TX_SERIALIZER_FULL_RES_OK, test_start 1 dc oc tc, \<lparr>hash_ctx = [1], tokens_table = zero_table\<rparr>)"
  using assms hash_u16_1 [of "[]" zero_table]
  by (simp add: ergo_tx_serializer_full_init_def test_mem_def ergo_tx_serializer_table_init_def test_start_def zero_table_def
      full_ctx_zero_def blake2b_256_init_def cx_message_def Let_def)

text \<open>The message that has been hashed.\<close>

definition send_message :: bytes where
  "send_message = [1] @ INPUT_BOX_0_ID @ [0, 0, 0, 0, 3] @
     [0xC0, 0x84, 0x3D] @ OUT_ERGO_TREE @ [0xAC, 0xA7, 0x0C, 0, 0] @
     [0xE0, 0x91, 0x43] @ C_ERGO_TREE_MINERS_HASH_FEE_MAINNET @ [0xAC, 0xA7, 0x0C, 0, 0] @
     [0xE0, 0xCD, 0x97, 0xCF, 0x12] @ CHANGE_ERGO_TREE @ [0xAC, 0xA7, 0x0C, 0, 0]"

lemma send_run:
  "case test_full_ops send_ops (test_start 1 0 3 0) \<lparr>hash_ctx = [1], tokens_table = t\<rparr> of (rs, c, m) \<Rightarrow>
     rs = replicate 8 ERGO_TX_SERIALIZER_FULL_RES_OK \<and> ergo_tx_serializer_full_is_finished c \<and> hash_ctx m = send_message"
  by code_simp

lemma send_digest: "rfc_blake2b 32 [] send_message = EXPECTED_TX_ID"
  by code_simp

lemma message_final: "blake2b_256_finalize cx_message h = (True, h, rfc_blake2b 32 [] h)"
proof -
  have "(CX_LAST OR CX_NO_REINIT) AND CX_LAST \<noteq> 0" by code_simp
  then show ?thesis
    by (simp add: blake2b_256_finalize_def cx_message_def CX_BLAKE2B_256_SIZE_def length_rfc_blake2b)
qed

text \<open>
  A real transaction gets its id. The ten calls of \<open>test_simple_send_tx\<close>, with one input and an output, a fee and a change box, are
  all accepted, the serializer is finished, and the BLAKE2b-256 digest of what it has hashed is the id of that transaction
  in the test.
\<close>

lemma simple_send_tx: test_simple_send_tx
proof -
  have i: "ergo_tx_serializer_full_init cx_message 1 0 3 0 test_mem =
      (ERGO_TX_SERIALIZER_FULL_RES_OK, test_start 1 0 3 0, \<lparr>hash_ctx = [1], tokens_table = zero_table\<rparr>)"
    by (rule test_init) (simp_all add: TOKEN_MAX_COUNT_def)
  obtain rs c m where r: "test_full_ops send_ops (test_start 1 0 3 0) \<lparr>hash_ctx = [1], tokens_table = zero_table\<rparr> = (rs, c, m)"
    by (metis prod_cases3)
  have "rs = replicate 8 ERGO_TX_SERIALIZER_FULL_RES_OK" "ergo_tx_serializer_full_is_finished c" "hash_ctx m = send_message"
    using send_run [of zero_table] by (simp_all add: r)
  moreover have "blake2b_256_finalize cx_message send_message = (True, send_message, EXPECTED_TX_ID)"
    using send_digest by (simp add: message_final)
  ultimately show ?thesis by (simp add: test_simple_send_tx_def i r)
qed

subsection \<open>The rest of \<open>test_full_tx.c\<close>\<close>

text \<open>\<open>ERGO_TX_SERIALIZER_FULL_ADD_BOX\<close>: everything up to the first box.\<close>

definition add_box_ops :: "bytes ser_mem full_op list" where
  "add_box_ops =
    [FullTokens (buffer_of (replicate 32 2)), FullInput (replicate 32 3) 1 2,
     FullInputTokens (replicate 32 3) 0 (buffer_of (replicate 32 4 @ [1, 2, 3, 4, 5, 6, 7, 8])),
     FullExtension (buffer_of [1, 2]), FullDataInputs (buffer_of (replicate 32 5)), FullBox 12345 1 1 1 1]"

definition test_public_key :: bytes where
  "test_public_key =
    [0x04, 0x8B, 0x9F, 0xF8, 0x5D, 0xDD, 0x9F, 0x1E, 0x22, 0x88, 0xFC, 0x53, 0x9D, 0x39, 0xC7, 0xC4, 0xEE, 0xB7, 0xA5, 0x56,
      0xF4, 0xD8, 0x11, 0xCB, 0x73, 0x99, 0x64, 0x18, 0xDE, 0x5A, 0xBD, 0xCB, 0x2A, 0xFA, 0x2D, 0x53, 0x17, 0x16, 0x0A, 0x59,
      0x50, 0x0F, 0x5D, 0x31, 0xFA, 0xE8, 0x6B, 0xCE, 0xE9, 0xAB, 0x1A, 0x60, 0x53, 0xA1, 0x1D, 0x53, 0x5D, 0x2D, 0x04, 0x3C,
      0xE5, 0xCF, 0xF1, 0x0A, 0xE7]"

text \<open>All the calls answer \<open>OK\<close>, after an initialization for one input, \<open>dc\<close> data inputs, one output and one token.\<close>

definition all_ok :: "nat \<Rightarrow> u16 \<Rightarrow> bytes ser_mem full_op list \<Rightarrow> bool" where
  "all_ok n dc ps \<longleftrightarrow>
     (case ergo_tx_serializer_full_init cx_message 1 dc 1 1 test_mem of (r, c0, m0) \<Rightarrow>
        r # fst (test_full_ops ps c0 m0) = replicate n ERGO_TX_SERIALIZER_FULL_RES_OK)"

definition test_ergo_tx_serializer_full_init :: bool where
  "test_ergo_tx_serializer_full_init \<longleftrightarrow>
     (case ergo_tx_serializer_full_init cx_message 1 0 1 1 test_mem of (r, c, m) \<Rightarrow>
        r = ERGO_TX_SERIALIZER_FULL_RES_OK \<and> hash_ctx m = [1] \<and> full_inputs_count c = 1 \<and> full_data_inputs_count c = 0 \<and>
        full_outputs_count c = 1 \<and> tt_count (tokens_table m) = 0 \<and> distinct_tokens_count (full_table_ctx c) = 1 \<and>
        full_state c = ERGO_TX_SERIALIZER_FULL_STATE_TOKENS_STARTED)"

definition test_ergo_tx_serializer_full_init_zero_tokens :: bool where
  "test_ergo_tx_serializer_full_init_zero_tokens \<longleftrightarrow>
     (case ergo_tx_serializer_full_init cx_message 1 0 1 0 test_mem of (r, c, m) \<Rightarrow>
        r = ERGO_TX_SERIALIZER_FULL_RES_OK \<and> hash_ctx m = [1] \<and> full_inputs_count c = 1 \<and> full_data_inputs_count c = 0 \<and>
        full_outputs_count c = 1 \<and> tt_count (tokens_table m) = 0 \<and> distinct_tokens_count (full_table_ctx c) = 0 \<and>
        full_state c = ERGO_TX_SERIALIZER_FULL_STATE_INPUTS_STARTED \<and>
        input_state (full_input_ctx c) = ERGO_TX_SERIALIZER_INPUT_STATE_FINISHED)"

text \<open>The tests of the single calls repeat the calls before them, with no data input as long as they stop before it.\<close>

definition test_ergo_tx_serializer_full_add_tokens :: bool where
  "test_ergo_tx_serializer_full_add_tokens \<longleftrightarrow>
     (case ergo_tx_serializer_full_init cx_message 1 0 1 1 test_mem of (r, c, m) \<Rightarrow>
      case test_full_ops (take 1 add_box_ops) c m of (rs, c', m') \<Rightarrow>
        r # rs = replicate 2 ERGO_TX_SERIALIZER_FULL_RES_OK \<and> full_state c' = ERGO_TX_SERIALIZER_FULL_STATE_INPUTS_STARTED \<and>
        input_state (full_input_ctx c') = ERGO_TX_SERIALIZER_INPUT_STATE_FINISHED)"

definition test_ergo_tx_serializer_full_add_input :: bool where
  "test_ergo_tx_serializer_full_add_input \<longleftrightarrow> all_ok 3 0 (take 2 add_box_ops)"

definition test_ergo_tx_serializer_full_add_input_tokens :: bool where
  "test_ergo_tx_serializer_full_add_input_tokens \<longleftrightarrow> all_ok 4 0 (take 3 add_box_ops)"

definition test_ergo_tx_serializer_full_add_input_context_extension :: bool where
  "test_ergo_tx_serializer_full_add_input_context_extension \<longleftrightarrow> all_ok 5 0 (take 4 add_box_ops)"

definition test_ergo_tx_serializer_full_add_data_inputs :: bool where
  "test_ergo_tx_serializer_full_add_data_inputs \<longleftrightarrow> all_ok 6 1 (take 5 add_box_ops)"

definition test_ergo_tx_serializer_full_add_box :: bool where
  "test_ergo_tx_serializer_full_add_box \<longleftrightarrow> all_ok 7 1 add_box_ops"

definition test_ergo_tx_serializer_full_add_box_ergo_tree :: bool where
  "test_ergo_tx_serializer_full_add_box_ergo_tree \<longleftrightarrow> all_ok 8 1 (add_box_ops @ [FullBoxTree (buffer_of [1])])"

definition test_ergo_tx_serializer_full_add_box_change_tree :: bool where
  "test_ergo_tx_serializer_full_add_box_change_tree \<longleftrightarrow> all_ok 8 1 (add_box_ops @ [FullBoxChange test_public_key])"

definition test_ergo_tx_serializer_full_add_box_miners_fee_tree :: bool where
  "test_ergo_tx_serializer_full_add_box_miners_fee_tree \<longleftrightarrow> all_ok 8 1 (add_box_ops @ [FullBoxFee True])"

definition test_ergo_tx_serializer_full_add_box_tokens :: bool where
  "test_ergo_tx_serializer_full_add_box_tokens \<longleftrightarrow>
     all_ok 9 1 (add_box_ops @ [FullBoxTree (buffer_of [1]), FullBoxTokens (buffer_of [0, 0, 0, 0, 1, 1, 1, 1, 1, 1, 1, 1])])"

definition test_ergo_tx_serializer_full_add_box_registers :: bool where
  "test_ergo_tx_serializer_full_add_box_registers \<longleftrightarrow>
     all_ok 10 1 (add_box_ops @ [FullBoxTree (buffer_of [1]), FullBoxTokens (buffer_of [0, 0, 0, 0, 1, 1, 1, 1, 1, 1, 1, 1]),
       FullBoxRegisters (buffer_of [1])])"

lemma zero_table_Cons: "zero_table = \<lparr>tt_count = 0, tt_tokens = replicate 32 0 # replicate 99 (replicate 32 0)\<rparr>"
proof -
  have n: "unat TOKEN_MAX_COUNT = Suc 99" "unat ERGO_ID_LEN = 32" by (simp_all add: TOKEN_MAX_COUNT_def ERGO_ID_LEN_def)
  show ?thesis unfolding zero_table_def n by (simp only: replicate_Suc)
qed

lemma all_okI:
  assumes "\<And>ts. fst (test_full_ops ps (test_start 1 dc 1 1) \<lparr>hash_ctx = [1],
      tokens_table = \<lparr>tt_count = 0, tt_tokens = replicate 32 0 # ts\<rparr>\<rparr>) = replicate n ERGO_TX_SERIALIZER_FULL_RES_OK"
  shows "all_ok (Suc n) dc ps"
proof -
  have i: "ergo_tx_serializer_full_init cx_message 1 dc 1 1 test_mem =
      (ERGO_TX_SERIALIZER_FULL_RES_OK, test_start 1 dc 1 1, \<lparr>hash_ctx = [1], tokens_table = zero_table\<rparr>)"
    by (rule test_init) (simp_all add: TOKEN_MAX_COUNT_def)
  show ?thesis using assms by (simp add: all_ok_def i zero_table_Cons)
qed

lemma full_tx_init_tests:
  test_ergo_tx_serializer_full_init
  test_ergo_tx_serializer_full_init_zero_tokens
  test_ergo_tx_serializer_full_add_tokens
proof -
  have i: "ergo_tx_serializer_full_init cx_message 1 0 1 tc test_mem =
      (ERGO_TX_SERIALIZER_FULL_RES_OK, test_start 1 0 1 tc, \<lparr>hash_ctx = [1], tokens_table = zero_table\<rparr>)" if "tc \<le> 1" for tc
    using that by (intro test_init) (auto simp: TOKEN_MAX_COUNT_def word_le_nat_alt word_less_nat_alt)
  show test_ergo_tx_serializer_full_init
    by (simp add: test_ergo_tx_serializer_full_init_def i test_start_def zero_table_def full_ctx_zero_def)
  show test_ergo_tx_serializer_full_init_zero_tokens
    by (simp add: test_ergo_tx_serializer_full_init_zero_tokens_def i test_start_def zero_table_def full_ctx_zero_def)
  have run: "case test_full_ops (take 1 add_box_ops) (test_start 1 0 1 1)
      \<lparr>hash_ctx = [1], tokens_table = \<lparr>tt_count = 0, tt_tokens = replicate 32 0 # ts\<rparr>\<rparr> of (rs, c', m') \<Rightarrow>
        rs = [ERGO_TX_SERIALIZER_FULL_RES_OK] \<and> full_state c' = ERGO_TX_SERIALIZER_FULL_STATE_INPUTS_STARTED \<and>
        input_state (full_input_ctx c') = ERGO_TX_SERIALIZER_INPUT_STATE_FINISHED" for ts
    by code_simp
  show test_ergo_tx_serializer_full_add_tokens
    using run [of "replicate 99 (replicate 32 0)"]
    by (auto simp: test_ergo_tx_serializer_full_add_tokens_def i zero_table_Cons numeral_2_eq_2 split: prod.splits)
qed

text \<open>The tests of the later calls; the number is that of the calls behind the initialization.\<close>

lemma full_tx_tests:
  test_ergo_tx_serializer_full_add_input test_ergo_tx_serializer_full_add_input_tokens
  test_ergo_tx_serializer_full_add_input_context_extension test_ergo_tx_serializer_full_add_data_inputs
  test_ergo_tx_serializer_full_add_box test_ergo_tx_serializer_full_add_box_ergo_tree
  test_ergo_tx_serializer_full_add_box_change_tree test_ergo_tx_serializer_full_add_box_miners_fee_tree
  test_ergo_tx_serializer_full_add_box_tokens test_ergo_tx_serializer_full_add_box_registers
proof -
  note ok = all_okI [of _ _ 2, simplified] all_okI [of _ _ 3, simplified] all_okI [of _ _ 4, simplified] all_okI [of _ _ 5, simplified]
    all_okI [of _ _ 6, simplified] all_okI [of _ _ 7, simplified] all_okI [of _ _ 8, simplified] all_okI [of _ _ 9, simplified]
  show test_ergo_tx_serializer_full_add_input unfolding test_ergo_tx_serializer_full_add_input_def by (rule ok) code_simp
  show test_ergo_tx_serializer_full_add_input_tokens unfolding test_ergo_tx_serializer_full_add_input_tokens_def by (rule ok) code_simp
  show test_ergo_tx_serializer_full_add_input_context_extension unfolding test_ergo_tx_serializer_full_add_input_context_extension_def by (rule ok) code_simp
  show test_ergo_tx_serializer_full_add_data_inputs unfolding test_ergo_tx_serializer_full_add_data_inputs_def by (rule ok) code_simp
  show test_ergo_tx_serializer_full_add_box unfolding test_ergo_tx_serializer_full_add_box_def by (rule ok) code_simp
  show test_ergo_tx_serializer_full_add_box_ergo_tree unfolding test_ergo_tx_serializer_full_add_box_ergo_tree_def by (rule ok) code_simp
  show test_ergo_tx_serializer_full_add_box_change_tree unfolding test_ergo_tx_serializer_full_add_box_change_tree_def by (rule ok) code_simp
  show test_ergo_tx_serializer_full_add_box_miners_fee_tree unfolding test_ergo_tx_serializer_full_add_box_miners_fee_tree_def by (rule ok) code_simp
  show test_ergo_tx_serializer_full_add_box_tokens unfolding test_ergo_tx_serializer_full_add_box_tokens_def by (rule ok) code_simp
  show test_ergo_tx_serializer_full_add_box_registers unfolding test_ergo_tx_serializer_full_add_box_registers_def by (rule ok) code_simp
qed

end
