(* ===== verification/UnitTestsParts.thy ===== *)
theory UnitTestsParts
  imports UnitTests Varint
begin

text \<open>
  The unit tests of the parts: integer codes, checked arithmetic, the token table, the frames, trees and addresses
  (\<^verbatim>\<open>test_gve.c\<close>, \<^verbatim>\<open>test_zigzag.c\<close>, \<^verbatim>\<open>test_safeint.c\<close>, \<^verbatim>\<open>test_tx_ser_table.c\<close>, \<^verbatim>\<open>test_input_frame.c\<close>,
  \<^verbatim>\<open>test_ergo_tree.c\<close>, \<^verbatim>\<open>test_address.c\<close>). A definition collects the assertions of neighbouring test functions.
\<close>

subsection \<open>Integer codes\<close>

definition test_gve_get_u8 :: bool where
  "test_gve_get_u8 \<longleftrightarrow>
     (case gve_get_u8 (buffer_of [0x01, 0x02]) of (r1, v1, b1) \<Rightarrow> case gve_get_u8 b1 of (r2, v2, b2) \<Rightarrow>
        r1 = GVE_OK \<and> v1 = 0x01 \<and> r2 = GVE_OK \<and> v2 = 0x02 \<and> fst (gve_get_u8 b2) = GVE_ERR_DATA_SIZE)"

definition test_gve_get_i8 :: bool where
  "test_gve_get_i8 \<longleftrightarrow>
     (case gve_get_i8 (buffer_of [0x01, - 0x02]) of (r1, v1, b1) \<Rightarrow> case gve_get_i8 b1 of (r2, v2, b2) \<Rightarrow>
        r1 = GVE_OK \<and> v1 = 0x01 \<and> r2 = GVE_OK \<and> v2 = - 0x02 \<and> fst (gve_get_i8 b2) = GVE_ERR_DATA_SIZE)"

text \<open>The answer and the value; an answer other than \<open>GVE_OK\<close> leaves the value unset.\<close>

definition got :: "gve_result_e \<times> 'v \<times> buffer_t \<Rightarrow> 'v \<Rightarrow> bool" where
  "got out v \<longleftrightarrow> fst out = GVE_OK \<and> fst (snd out) = v"

definition test_gve_get :: bool where
  "test_gve_get \<longleftrightarrow>
     got (gve_get_u16 (buffer_of [0x83, 0x82, 0x01])) 16643 \<and>
     fst (gve_get_u16 (buffer_of [0x84, 0x83, 0x82, 0x01])) = GVE_ERR_INT_TO_BIG \<and>
     got (gve_get_i16 (buffer_of [0x83, 0x82, 0x01])) (- 8322) \<and>
     got (gve_get_u32 (buffer_of [0x84, 0x83, 0x82, 0x01])) 2130308 \<and>
     got (gve_get_i32 (buffer_of [0x85, 0x83, 0x82, 0x01])) (- 1065155) \<and>
     got (gve_get_u64 (buffer_of [0x86, 0x85, 0x84, 0x83, 0x82, 0x01])) 34902966918 \<and>
     got (gve_get_i64 (buffer_of [0x87, 0x85, 0x84, 0x83, 0x82, 0x01])) (- 17451483460)"

text \<open>An empty buffer over an array of zeros, and what a put has stored from its start.\<close>

definition empty_array :: "nat \<Rightarrow> rw_buffer_t" where
  "empty_array n = rw_buffer_init (replicate n 0) (of_nat n) 0"

definition put :: "gve_result_e \<times> rw_buffer_t \<Rightarrow> bytes \<Rightarrow> bool" where
  "put out expected \<longleftrightarrow> fst out = GVE_OK \<and> take (length expected) (buf_ptr (rw_read (snd out))) = expected"

definition test_gve_put_u8 :: bool where
  "test_gve_put_u8 \<longleftrightarrow>
     (case gve_put_u8 (empty_array 2) 0x01 of (r1, b1) \<Rightarrow> case gve_put_u8 b1 0x02 of (r2, b2) \<Rightarrow>
        put (r1, b1) [0x01] \<and> put (r2, b2) [0x01, 0x02] \<and> fst (gve_put_u8 b2 0x03) = GVE_ERR_DATA_SIZE)"

definition test_gve_put_i8 :: bool where
  "test_gve_put_i8 \<longleftrightarrow>
     (case gve_put_i8 (empty_array 2) (- 0x01) of (r1, b1) \<Rightarrow> case gve_put_i8 b1 (- 0x02) of (r2, b2) \<Rightarrow>
        put (r1, b1) [- 0x01] \<and> put (r2, b2) [- 0x01, - 0x02] \<and> fst (gve_put_i8 b2 (- 0x03)) = GVE_ERR_DATA_SIZE)"

definition test_gve_put :: bool where
  "test_gve_put \<longleftrightarrow>
     put (gve_put_u16 (empty_array 3) 16643) [0x83, 0x82, 0x01] \<and>
     put (gve_put_i16 (empty_array 3) (- 8322)) [0x83, 0x82, 0x01] \<and>
     put (gve_put_u32 (empty_array 4) 2130308) [0x84, 0x83, 0x82, 0x01] \<and>
     put (gve_put_i32 (empty_array 4) (- 1065155)) [0x85, 0x83, 0x82, 0x01] \<and>
     put (gve_put_u64 (empty_array 6) 34902966918) [0x86, 0x85, 0x84, 0x83, 0x82, 0x01] \<and>
     put (gve_put_i64 (empty_array 6) (- 17451483460)) [0x87, 0x85, 0x84, 0x83, 0x82, 0x01]"

text \<open>
  The expected values of the 32-bit codes are converted to \<open>int32_t\<close> in the tests: the codes of the two extreme
  values are compared with \<open>- 1\<close> and \<open>- 2\<close>, extended to 64 bits, which they are not meant to be.
\<close>

definition test_zigzag_encode :: bool where
  "test_zigzag_encode \<longleftrightarrow>
     zigzag_encode_i32 0 = 0 \<and> zigzag_encode_i32 (- 1) = 1 \<and> zigzag_encode_i32 1 = 2 \<and>
     zigzag_encode_i32 (- 123456) = 246911 \<and>
     zigzag_encode_i32 (- 2147483648) = scast (4294967295 :: u32) \<and> zigzag_encode_i32 2147483647 = scast (4294967294 :: u32) \<and>
     zigzag_encode_i64 0 = 0 \<and> zigzag_encode_i64 (- 1) = 1 \<and> zigzag_encode_i64 1 = 2 \<and>
     zigzag_encode_i64 (- 12345678901) = 24691357801 \<and>
     zigzag_encode_i64 (- 9223372036854775808) = 18446744073709551615 \<and>
     zigzag_encode_i64 9223372036854775807 = 18446744073709551614"

definition test_zigzag_decode :: bool where
  "test_zigzag_decode \<longleftrightarrow>
     zigzag_decode_i32 0 = 0 \<and> zigzag_decode_i32 1 = - 1 \<and> zigzag_decode_i32 2 = 1 \<and>
     zigzag_decode_i32 246911 = - 123456 \<and>
     zigzag_decode_i32 4294967295 = - 2147483648 \<and> zigzag_decode_i32 4294967294 = 2147483647 \<and>
     zigzag_decode_i64 0 = 0 \<and> zigzag_decode_i64 1 = - 1 \<and> zigzag_decode_i64 2 = 1 \<and>
     zigzag_decode_i64 24691357801 = - 12345678901 \<and>
     zigzag_decode_i64 18446744073709551615 = - 9223372036854775808 \<and>
     zigzag_decode_i64 18446744073709551614 = 9223372036854775807"

definition test_safeint :: bool where
  "test_safeint \<longleftrightarrow>
     checked_add_u64 0 0 = Some 0 \<and> checked_add_u64 0 UINT64_MAX = Some UINT64_MAX \<and> checked_add_u64 1 UINT64_MAX = None \<and>
     checked_add_u64 1 2 = Some 3 \<and>
     checked_sub_u64 0 0 = Some 0 \<and> checked_sub_u64 UINT64_MAX UINT64_MAX = Some 0 \<and> checked_sub_u64 0 1 = None"

lemma code_tests:
  test_gve_get_u8 test_gve_get_i8 test_gve_get test_gve_put_u8 test_gve_put_i8 test_gve_put
  test_zigzag_encode test_zigzag_decode test_safeint
  by code_simp+

subsection \<open>The token table\<close>

definition test_table_init :: bool where
  "test_table_init \<longleftrightarrow>
     (case ergo_tx_serializer_table_init 1 \<lparr>tt_count = 0, tt_tokens = (tt_tokens zero_table)[0 := replicate 32 1]\<rparr>
        \<lparr>distinct_tokens_count = 0\<rparr> of (r, c, t) \<Rightarrow>
        r = ERGO_TX_SERIALIZER_TABLE_RES_OK \<and> distinct_tokens_count c = 1 \<and> t = zero_table) \<and>
     fst (ergo_tx_serializer_table_init (TOKEN_MAX_COUNT + 1) zero_table \<lparr>distinct_tokens_count = 0\<rparr>) =
       ERGO_TX_SERIALIZER_TABLE_RES_ERR_TOO_MANY_TOKENS"

text \<open>The answer of an initialization for \<open>n\<close> tokens followed by the ids in \<open>a\<close>, and the table after it.\<close>

definition table_added :: "u8 \<Rightarrow> bytes \<Rightarrow> ergo_tx_serializer_table_result_e \<times> token_table_t" where
  "table_added n a =
     (case ergo_tx_serializer_table_init n zero_table \<lparr>distinct_tokens_count = 0\<rparr> of (r, c, t) \<Rightarrow>
        case ergo_tx_serializer_table_add c t (buffer_of a) of (r', t', _) \<Rightarrow> (r', t'))"

definition test_table_add :: bool where
  "test_table_add \<longleftrightarrow>
     (case table_added 2 (replicate 32 1 @ replicate 32 2) of (r, t) \<Rightarrow>
        r = ERGO_TX_SERIALIZER_TABLE_RES_OK \<and> tt_count t = 2 \<and>
        tt_tokens t = replicate 32 1 # replicate 32 2 # drop 2 (tt_tokens zero_table)) \<and>
     fst (table_added 1 (replicate 32 1 @ replicate 32 2)) = ERGO_TX_SERIALIZER_TABLE_RES_ERR_TOO_MANY_TOKENS \<and>
     fst (table_added 2 (replicate 32 1 @ replicate 31 2)) = ERGO_TX_SERIALIZER_TABLE_RES_ERR_BAD_TOKEN_ID \<and>
     fst (table_added 2 (replicate 32 2)) = ERGO_TX_SERIALIZER_TABLE_RES_MORE_DATA"

definition test_table_hash :: bool where
  "test_table_hash \<longleftrightarrow>
     (case table_added 1 (replicate 32 1) of (r, t) \<Rightarrow>
        r = ERGO_TX_SERIALIZER_TABLE_RES_OK \<and>
        ergo_tx_serializer_table_hash cx_message \<lparr>distinct_tokens_count = 1\<rparr> t [] =
          (ERGO_TX_SERIALIZER_TABLE_RES_OK, 1 # replicate 32 1))"

text \<open>The additions do not look at the table behind its second entry.\<close>

definition two_rows :: "bytes list \<Rightarrow> token_table_t" where
  "two_rows ts = \<lparr>tt_count = 0, tt_tokens = replicate 32 0 # replicate 32 0 # ts\<rparr>"

lemma zero_table_rows: "zero_table = two_rows (drop 2 (tt_tokens zero_table))"
proof -
  have n: "unat TOKEN_MAX_COUNT = Suc (Suc 98)" "unat ERGO_ID_LEN = 32" by (simp_all add: TOKEN_MAX_COUNT_def ERGO_ID_LEN_def)
  show ?thesis unfolding zero_table_def two_rows_def n
    by (simp only: replicate_Suc token_table_t.simps drop_Suc_Cons numeral_2_eq_2 drop_0)
qed

lemma table_init: "n \<le> 2 \<Longrightarrow> ergo_tx_serializer_table_init n zero_table \<lparr>distinct_tokens_count = 0\<rparr> =
    (ERGO_TX_SERIALIZER_TABLE_RES_OK, \<lparr>distinct_tokens_count = n\<rparr>, zero_table)"
  by (auto simp: ergo_tx_serializer_table_init_def zero_table_def TOKEN_MAX_COUNT_def word_less_nat_alt word_le_nat_alt)

lemma table_added_rows:
  "n \<le> 2 \<Longrightarrow> table_added n a =
     (case ergo_tx_serializer_table_add \<lparr>distinct_tokens_count = n\<rparr> (two_rows (drop 2 (tt_tokens zero_table))) (buffer_of a) of
        (r, t, _) \<Rightarrow> (r, t))"
  by (simp add: table_added_def table_init zero_table_rows [symmetric])

lemma two_rows_add:
  "case ergo_tx_serializer_table_add \<lparr>distinct_tokens_count = 2\<rparr> (two_rows ts) (buffer_of (replicate 32 1 @ replicate 32 2)) of
     (r, t, _) \<Rightarrow> r = ERGO_TX_SERIALIZER_TABLE_RES_OK \<and> tt_count t = 2 \<and> tt_tokens t = replicate 32 1 # replicate 32 2 # ts"
  "fst (ergo_tx_serializer_table_add \<lparr>distinct_tokens_count = 1\<rparr> (two_rows ts) (buffer_of (replicate 32 1 @ replicate 32 2))) =
     ERGO_TX_SERIALIZER_TABLE_RES_ERR_TOO_MANY_TOKENS"
  "fst (ergo_tx_serializer_table_add \<lparr>distinct_tokens_count = 2\<rparr> (two_rows ts) (buffer_of (replicate 32 1 @ replicate 31 2))) =
     ERGO_TX_SERIALIZER_TABLE_RES_ERR_BAD_TOKEN_ID"
  "fst (ergo_tx_serializer_table_add \<lparr>distinct_tokens_count = 2\<rparr> (two_rows ts) (buffer_of (replicate 32 2))) =
     ERGO_TX_SERIALIZER_TABLE_RES_MORE_DATA"
  "case ergo_tx_serializer_table_add \<lparr>distinct_tokens_count = 1\<rparr> (two_rows ts) (buffer_of (replicate 32 1)) of
     (r, t, _) \<Rightarrow> r = ERGO_TX_SERIALIZER_TABLE_RES_OK \<and>
       ergo_tx_serializer_table_hash cx_message \<lparr>distinct_tokens_count = 1\<rparr> t [] = (ERGO_TX_SERIALIZER_TABLE_RES_OK, 1 # replicate 32 1)"
  by (code_simp, simp?)+

lemma table_tests: test_table_init test_table_add test_table_hash
proof -
  have "zero_table = \<lparr>tt_count = 0, tt_tokens = tt_tokens zero_table\<rparr>" by (simp add: zero_table_def)
  then show test_table_init
    by (simp add: test_table_init_def ergo_tx_serializer_table_init_def zero_table_def TOKEN_MAX_COUNT_def)
  note rows = two_rows_add [of "drop 2 (tt_tokens zero_table)"]
  show test_table_add using rows(1-4) by (auto simp: test_table_add_def table_added_rows split: prod.splits)
  show test_table_hash using rows(5) by (auto simp: test_table_hash_def table_added_rows split: prod.splits)
qed

subsection \<open>Frames, trees and addresses\<close>

text \<open>The array of the tests: an id, an index and a value of zeros, then ones: a token count of 1, one token and the signature.\<close>

definition frame_array :: "nat \<Rightarrow> bytes" where
  "frame_array n = replicate 42 0 @ replicate n 1"

definition test_input_frame_data_length :: bool where
  "test_input_frame_data_length \<longleftrightarrow>
     input_frame_data_length (buffer_of (frame_array 57)) = 83 \<and>
     input_frame_data_length (buffer_of (replicate 58 0)) = 0 \<and>
     input_frame_data_length (buffer_of (frame_array 56)) = 0"

definition test_input_frame_signature_ptr :: bool where
  "test_input_frame_signature_ptr \<longleftrightarrow>
     input_frame_signature_ptr (buffer_of (frame_array 57)) = Some (drop 83 (buffer_read_ptr (buffer_of (frame_array 57)))) \<and>
     input_frame_signature_ptr (buffer_of (frame_array 56)) = None"

definition test_ergo_tree_generate_p2pk :: bool where
  "test_ergo_tree_generate_p2pk \<longleftrightarrow>
     ergo_tree_generate_p2pk test_public_key (replicate (unat ERGO_TREE_P2PK_LEN) 0) =
       [0x00, 0x08, 0xCD] @ [0x03] @ take 32 (drop 1 test_public_key)"

definition expected_address :: bytes where
  "expected_address =
    [0x01, 0x03, 0x8B, 0x9F, 0xF8, 0x5D, 0xDD, 0x9F, 0x1E, 0x22, 0x88, 0xFC, 0x53, 0x9D, 0x39, 0xC7, 0xC4, 0xEE, 0xB7, 0xA5,
      0x56, 0xF4, 0xD8, 0x11, 0xCB, 0x73, 0x99, 0x64, 0x18, 0xDE, 0x5A, 0xBD, 0xCB, 0x2A, 0xB5, 0x2D, 0xCA, 0xCE]"

definition test_ergo_address_from_pubkey :: bool where
  "test_ergo_address_from_pubkey \<longleftrightarrow>
     ergo_address_from_pubkey cx_message 0 test_public_key (replicate 38 0) = (True, expected_address)"

lemma frame_tests: test_input_frame_data_length test_input_frame_signature_ptr test_ergo_tree_generate_p2pk
  by code_simp+

lemma address_test: test_ergo_address_from_pubkey
  by code_simp

end
