(* ===== verification/UnitTestsSerializers.thy ===== *)
theory UnitTestsSerializers
  imports UnitTestsParts
begin

text \<open>
  The unit tests of the input and box serializers (\<^verbatim>\<open>test_tx_ser_input.c\<close>, \<^verbatim>\<open>test_tx_ser_box.c\<close>). A definition collects
  the assertions of neighbouring test functions. \<open>VERIFY_HASH\<close> compares the bytes hashed so far, which are the
  context of \<open>cx_message\<close>. Two tests read variables that they never initialize, the hash of
  \<open>test_ergo_tx_serializer_box_init_bad_hash\<close> and the state of
  \<open>test_ergo_tx_serializer_box_add_miners_fee_tree_bad_state\<close>; C gives them no meaning and they have no model.
\<close>

subsection \<open>Inputs\<close>

definition test_box_id :: bytes where
  "test_box_id =
    [0xF1, 0xCA, 0x1E, 0x06, 0x0A, 0xA1, 0x1F, 0x98, 0x9B, 0x3D, 0x70, 0xEC, 0x0E, 0x0C, 0x98, 0x7C, 0x95, 0x2E, 0x23, 0x89,
      0xBE, 0x5B, 0x82, 0x0B, 0xC7, 0xDB, 0xFC, 0x32, 0x6F, 0x86, 0x13, 0x73]"

definition test_tokens_table :: token_table_t where
  "test_tokens_table = \<lparr>tt_count = 1, tt_tokens = (tt_tokens zero_table)[0 := replicate 32 1]\<rparr>"

text \<open>An initialization for \<open>frames\<close> frames and \<open>ext\<close> bytes of extension, and operations behind it.\<close>

definition input_tested ::
    "u8 \<Rightarrow> u32 \<Rightarrow> input_op list \<Rightarrow>
     ergo_tx_serializer_input_result_e list \<times> bytes ser_mem input_ctx \<times> bytes ser_mem" where
  "input_tested frames ext ps =
     (case ergo_tx_serializer_input_init test_box_id frames ext of (r, c) \<Rightarrow>
      case answers (\<lambda>p s. input_exec cx_message p (fst s) (snd s)) ps (c, test_mem\<lparr>tokens_table := test_tokens_table\<rparr>) of
        (rs, c', m') \<Rightarrow> (r # rs, c', m'))"

text \<open>All answers are \<open>OK\<close> but the last; then the state and the bytes hashed.\<close>

definition input_gives ::
    "u8 \<Rightarrow> u32 \<Rightarrow> input_op list \<Rightarrow> ergo_tx_serializer_input_result_e \<Rightarrow> ergo_tx_serializer_input_state_e \<Rightarrow> bytes \<Rightarrow> bool" where
  "input_gives frames ext ps r st h \<longleftrightarrow>
     (case input_tested frames ext ps of (rs, c, m) \<Rightarrow>
        rs = replicate (length ps) ERGO_TX_SERIALIZER_INPUT_RES_OK @ [r] \<and> input_state c = st \<and> hash_ctx m = h)"

definition tokens_of :: "nat \<Rightarrow> buffer_t" where
  "tokens_of n = buffer_of (replicate n 1)"

definition test_ergo_tx_serializer_input_init :: bool where
  "test_ergo_tx_serializer_input_init \<longleftrightarrow>
     (case input_tested 1 3 [] of (rs, c, m) \<Rightarrow>
        rs = [ERGO_TX_SERIALIZER_INPUT_RES_OK] \<and> input_box_id c = test_box_id \<and> frames_count c = 1 \<and> frames_processed c = 0 \<and>
        context_extension_data_size c = 3 \<and> tokens_table m = test_tokens_table \<and> hash_ctx m = [] \<and>
        input_state c = ERGO_TX_SERIALIZER_INPUT_STATE_FRAMES_STARTED) \<and>
     input_gives 1 1 [] ERGO_TX_SERIALIZER_INPUT_RES_ERR_BAD_CONTEXT_EXTENSION_SIZE ERGO_TX_SERIALIZER_INPUT_STATE_ERROR []"

definition test_ergo_tx_serializer_input_add_tokens :: bool where
  "test_ergo_tx_serializer_input_add_tokens \<longleftrightarrow>
     input_gives 1 3 [InputTokens test_box_id 0 (tokens_of 40)] ERGO_TX_SERIALIZER_INPUT_RES_OK
       ERGO_TX_SERIALIZER_INPUT_STATE_EXTENSION_STARTED (test_box_id @ [0]) \<and>
     input_gives 1 0 [InputTokens test_box_id 0 (tokens_of 40)] ERGO_TX_SERIALIZER_INPUT_RES_OK
       ERGO_TX_SERIALIZER_INPUT_STATE_FINISHED (test_box_id @ [0, 0])"

text \<open>The context of the test of a bad state is an arbitrary one, \<open>c\<close>, in the state of the extension.\<close>

definition test_ergo_tx_serializer_input_add_tokens_bad_state :: "bytes ser_mem input_ctx \<Rightarrow> bool" where
  "test_ergo_tx_serializer_input_add_tokens_bad_state c \<longleftrightarrow>
     (case ergo_tx_serializer_input_add_tokens cx_message (c\<lparr>input_state := ERGO_TX_SERIALIZER_INPUT_STATE_EXTENSION_STARTED\<rparr>)
        test_mem test_box_id 0 (tokens_of 40) of (r, c', m') \<Rightarrow>
        r = ERGO_TX_SERIALIZER_INPUT_RES_ERR_BAD_STATE \<and> input_state c' = ERGO_TX_SERIALIZER_INPUT_STATE_ERROR)"

definition test_ergo_tx_serializer_input_add_tokens_errors :: bool where
  "test_ergo_tx_serializer_input_add_tokens_errors \<longleftrightarrow>
     input_gives 1 3 [InputTokens (replicate 32 1) 0 (tokens_of 40)] ERGO_TX_SERIALIZER_INPUT_RES_ERR_BAD_INPUT_ID
       ERGO_TX_SERIALIZER_INPUT_STATE_ERROR [] \<and>
     input_gives 1 3 [InputTokens test_box_id 1 (tokens_of 40)] ERGO_TX_SERIALIZER_INPUT_RES_ERR_TOO_MANY_INPUT_FRAMES
       ERGO_TX_SERIALIZER_INPUT_STATE_ERROR [] \<and>
     input_gives 2 3 [InputTokens test_box_id 1 (tokens_of 40)] ERGO_TX_SERIALIZER_INPUT_RES_ERR_BAD_FRAME_INDEX
       ERGO_TX_SERIALIZER_INPUT_STATE_ERROR [] \<and>
     input_gives 1 3 [InputTokens test_box_id 0 (tokens_of 31)] ERGO_TX_SERIALIZER_INPUT_RES_ERR_BAD_TOKEN_ID
       ERGO_TX_SERIALIZER_INPUT_STATE_ERROR [] \<and>
     input_gives 1 3 [InputTokens test_box_id 0 (tokens_of 39)] ERGO_TX_SERIALIZER_INPUT_RES_ERR_BAD_TOKEN_VALUE
       ERGO_TX_SERIALIZER_INPUT_STATE_ERROR [] \<and>
     input_gives 2 3 [InputTokens test_box_id 0 (tokens_of 40)] ERGO_TX_SERIALIZER_INPUT_RES_MORE_DATA
       ERGO_TX_SERIALIZER_INPUT_STATE_FRAMES_STARTED []"

definition test_ergo_tx_serializer_input_add_context_extension :: bool where
  "test_ergo_tx_serializer_input_add_context_extension \<longleftrightarrow>
     (let ts = InputTokens test_box_id 0 (tokens_of 40) in
     input_gives 1 3 [ts, InputExtension (buffer_of [1, 2, 3])] ERGO_TX_SERIALIZER_INPUT_RES_OK
       ERGO_TX_SERIALIZER_INPUT_STATE_FINISHED (test_box_id @ [0, 1, 2, 3]) \<and>
     context_extension_data_size (fst (snd (input_tested 1 3 [ts, InputExtension (buffer_of [1, 2, 3])]))) = 0 \<and>
     input_gives 1 3 [InputExtension (buffer_of [1, 2, 3])] ERGO_TX_SERIALIZER_INPUT_RES_ERR_BAD_STATE
       ERGO_TX_SERIALIZER_INPUT_STATE_ERROR [] \<and>
     input_gives 1 3 [ts, InputExtension (buffer_of [1, 2, 3, 4])] ERGO_TX_SERIALIZER_INPUT_RES_ERR_TOO_MUCH_PROOF_DATA
       ERGO_TX_SERIALIZER_INPUT_STATE_ERROR (test_box_id @ [0]) \<and>
     input_gives 1 3 [ts, InputExtension (buffer_of [1, 2])] ERGO_TX_SERIALIZER_INPUT_RES_MORE_DATA
       ERGO_TX_SERIALIZER_INPUT_STATE_EXTENSION_STARTED (test_box_id @ [0, 1, 2]))"

lemma input_mem: "\<exists>t. test_mem\<lparr>tokens_table := test_tokens_table\<rparr> = \<lparr>hash_ctx = [], tokens_table = t\<rparr>"
  by (simp add: test_mem_def blake2b_256_init_def cx_message_def)

text \<open>The rows of the table do not matter: they are a variable in the evaluations.\<close>

lemma input_tests:
  test_ergo_tx_serializer_input_init
  test_ergo_tx_serializer_input_add_tokens
  "test_ergo_tx_serializer_input_add_tokens_bad_state c"
  test_ergo_tx_serializer_input_add_tokens_errors
  test_ergo_tx_serializer_input_add_context_extension
proof -
  obtain t where m: "test_mem\<lparr>tokens_table := test_tokens_table\<rparr> = \<lparr>hash_ctx = [], tokens_table = t\<rparr>" using input_mem by blast
  show test_ergo_tx_serializer_input_init
    unfolding test_ergo_tx_serializer_input_init_def input_gives_def input_tested_def
    by (simp add: test_mem_def blake2b_256_init_def cx_message_def ergo_tx_serializer_input_init_def input_ctx_zero_def
        MAX_TX_DATA_PART_LEN_def test_box_id_def ERGO_ID_LEN_def Let_def)
  show test_ergo_tx_serializer_input_add_tokens
    unfolding test_ergo_tx_serializer_input_add_tokens_def input_gives_def input_tested_def m by code_simp
  show "test_ergo_tx_serializer_input_add_tokens_bad_state c"
    by (simp add: test_ergo_tx_serializer_input_add_tokens_bad_state_def ergo_tx_serializer_input_add_tokens_def input_res_error_def)
  show test_ergo_tx_serializer_input_add_tokens_errors
    unfolding test_ergo_tx_serializer_input_add_tokens_errors_def input_gives_def input_tested_def m by code_simp
  show test_ergo_tx_serializer_input_add_context_extension
    unfolding test_ergo_tx_serializer_input_add_context_extension_def input_gives_def input_tested_def m by code_simp
qed

subsection \<open>Boxes\<close>

text \<open>\<open>ERGO_TX_SERIALIZER_BOX_INIT\<close> with other sizes, and operations behind it.\<close>

definition box_tested ::
    "u32 \<Rightarrow> u8 \<Rightarrow> u32 \<Rightarrow> token_table_t \<Rightarrow> box_op list \<Rightarrow>
     ergo_tx_serializer_box_result_e list \<times> bytes ser_mem box_ctx \<times> bytes ser_mem" where
  "box_tested tree tokens regs t ps =
     (case ergo_tx_serializer_box_init cx_message 12345 tree 3 tokens regs (test_mem\<lparr>tokens_table := t\<rparr>) of (r, c, m) \<Rightarrow>
      case answers (\<lambda>p s. box_exec cx_message p (fst s) (snd s)) ps (c, m) of (rs, c', m') \<Rightarrow> (r # rs, c', m'))"

definition box_gives ::
    "u32 \<Rightarrow> u8 \<Rightarrow> u32 \<Rightarrow> box_op list \<Rightarrow> ergo_tx_serializer_box_result_e \<Rightarrow> ergo_tx_serializer_box_state_e \<Rightarrow> bytes \<Rightarrow> bool" where
  "box_gives tree tokens regs ps r st h \<longleftrightarrow>
     (case box_tested tree tokens regs zero_table ps of (rs, c, m) \<Rightarrow>
        rs = replicate (length ps) ERGO_TX_SERIALIZER_BOX_RES_OK @ [r] \<and> box_state c = st \<and> hash_ctx m = h)"

definition test_ergo_tx_serializer_box_init :: bool where
  "test_ergo_tx_serializer_box_init \<longleftrightarrow>
     (case box_tested 2 2 2 zero_table [] of (rs, c, m) \<Rightarrow>
        rs = [ERGO_TX_SERIALIZER_BOX_RES_OK] \<and> box_ergo_tree_size c = 2 \<and> box_creation_height c = 3 \<and> box_tokens_count c = 2 \<and>
        box_registers_size c = 2 \<and> hash_ctx m = [0xB9, 0x60] \<and> box_value c = 12345 \<and>
        box_type c = ERGO_TX_SERIALIZER_BOX_TYPE_TREE \<and> box_state c = ERGO_TX_SERIALIZER_BOX_STATE_INITIALIZED)"

definition test_ergo_tx_serializer_box_init_errors :: bool where
  "test_ergo_tx_serializer_box_init_errors \<longleftrightarrow>
     box_gives 2 (TOKEN_MAX_COUNT + 1) 1 [] ERGO_TX_SERIALIZER_BOX_RES_ERR_TOO_MANY_TOKENS ERGO_TX_SERIALIZER_BOX_STATE_ERROR [] \<and>
     box_gives (MAX_TX_DATA_PART_LEN + 1) 1 1 [] ERGO_TX_SERIALIZER_BOX_RES_ERR_TOO_MUCH_DATA ERGO_TX_SERIALIZER_BOX_STATE_ERROR [] \<and>
     box_gives 2 1 (MAX_TX_DATA_PART_LEN + 1) [] ERGO_TX_SERIALIZER_BOX_RES_ERR_TOO_MUCH_DATA ERGO_TX_SERIALIZER_BOX_STATE_ERROR []"

definition test_ergo_tx_serializer_box_add_tree :: bool where
  "test_ergo_tx_serializer_box_add_tree \<longleftrightarrow>
     box_gives 2 2 2 [BoxTree (buffer_of [1, 2])] ERGO_TX_SERIALIZER_BOX_RES_OK ERGO_TX_SERIALIZER_BOX_STATE_TREE_ADDED
       [0xB9, 0x60, 0x01, 0x02, 0x03, 0x02] \<and>
     box_type (fst (snd (box_tested 2 2 2 zero_table [BoxTree (buffer_of [1, 2])]))) = ERGO_TX_SERIALIZER_BOX_TYPE_TREE"

text \<open>The tests of a bad state start from a zeroed context in the state behind the tree.\<close>

definition after_tree :: "bytes ser_mem box_ctx" where
  "after_tree = box_ctx_zero\<lparr>box_state := ERGO_TX_SERIALIZER_BOX_STATE_TREE_ADDED\<rparr>"

definition box_bad_state :: "box_op \<Rightarrow> bool" where
  "box_bad_state p \<longleftrightarrow>
     (case box_exec cx_message p after_tree test_mem of (r, c, m) \<Rightarrow>
        r = ERGO_TX_SERIALIZER_BOX_RES_ERR_BAD_STATE \<and> box_state c = ERGO_TX_SERIALIZER_BOX_STATE_ERROR)"

definition test_ergo_tx_serializer_box_add_tree_bad_state :: bool where
  "test_ergo_tx_serializer_box_add_tree_bad_state \<longleftrightarrow> box_bad_state (BoxTree (buffer_of [1, 2]))"

definition test_ergo_tx_serializer_box_add_tree_too_much_data :: bool where
  "test_ergo_tx_serializer_box_add_tree_too_much_data \<longleftrightarrow>
     box_gives 1 1 1 [BoxTree (buffer_of [1, 2])] ERGO_TX_SERIALIZER_BOX_RES_ERR_TOO_MUCH_DATA
       ERGO_TX_SERIALIZER_BOX_STATE_ERROR [0xB9, 0x60]"

text \<open>
  The tests of a bad hash clear the hash context in between: the library then refuses it, because the kind of hash is
  read from the context (lemma \<open>cleared_hash\<close>).
\<close>

definition cx_cleared :: "bytes cx_sdk" where
  "cx_cleared = cx_message\<lparr>cx_hash_no_throw := (\<lambda>h mode data n. (- 1, h, []))\<rparr>"

lemma cleared_hash: "test_hash_no_throw (hash\<lparr>md_type := 0\<rparr>) mode inp len out n = (- 1, hash\<lparr>md_type := 0\<rparr>, out)"
  by (simp add: test_hash_no_throw_def CX_BLAKE2B_def)

definition box_bad_hash :: "u32 \<Rightarrow> u8 \<Rightarrow> u32 \<Rightarrow> box_op \<Rightarrow> bool" where
  "box_bad_hash tree tokens regs p \<longleftrightarrow>
     (case box_tested tree tokens regs zero_table [] of (rs, c, m) \<Rightarrow>
      case box_exec cx_cleared p c m of (r, c', m') \<Rightarrow>
        r = ERGO_TX_SERIALIZER_BOX_RES_ERR_HASHER \<and> box_state c' = ERGO_TX_SERIALIZER_BOX_STATE_ERROR)"

definition test_ergo_tx_serializer_box_add_tree_bad_hash :: bool where
  "test_ergo_tx_serializer_box_add_tree_bad_hash \<longleftrightarrow> box_bad_hash 2 1 1 (BoxTree (buffer_of [1, 2]))"

definition test_ergo_tx_serializer_box_add_tree_more_data :: bool where
  "test_ergo_tx_serializer_box_add_tree_more_data \<longleftrightarrow>
     (case box_tested (MAX_DATA_CHUNK_LEN + 1) 1 1 zero_table [BoxTree (buffer_of (replicate (unat MAX_DATA_CHUNK_LEN) 0))] of
        (rs, c, m) \<Rightarrow> rs = [ERGO_TX_SERIALIZER_BOX_RES_OK, ERGO_TX_SERIALIZER_BOX_RES_MORE_DATA] \<and>
          box_type c = ERGO_TX_SERIALIZER_BOX_TYPE_TREE \<and> box_state c = ERGO_TX_SERIALIZER_BOX_STATE_INITIALIZED)"

text \<open>The tree of the fees, for both networks.\<close>

definition expected_fee_tree :: bytes where
  "expected_fee_tree =
    [0x10, 0x05, 0x04, 0x00, 0x04, 0x00, 0x0E, 0x36, 0x10, 0x02, 0x04, 0xA0, 0x0B, 0x08, 0xCD, 0x02, 0x79, 0xBE, 0x66, 0x7E,
      0xF9, 0xDC, 0xBB, 0xAC, 0x55, 0xA0, 0x62, 0x95, 0xCE, 0x87, 0x0B, 0x07, 0x02, 0x9B, 0xFC, 0xDB, 0x2D, 0xCE, 0x28, 0xD9,
      0x59, 0xF2, 0x81, 0x5B, 0x16, 0xF8, 0x17, 0x98, 0xEA, 0x02, 0xD1, 0x92, 0xA3, 0x9A, 0x8C, 0xC7, 0xA7, 0x01, 0x73, 0x00,
      0x73, 0x01, 0x10, 0x01, 0x02, 0x04, 0x02, 0xD1, 0x96, 0x83, 0x03, 0x01, 0x93, 0xA3, 0x8C, 0xC7, 0xB2, 0xA5, 0x73, 0x00,
      0x00, 0x01, 0x93, 0xC2, 0xB2, 0xA5, 0x73, 0x01, 0x00, 0x74, 0x73, 0x02, 0x73, 0x03, 0x83, 0x01, 0x08, 0xCD, 0xEE, 0xAC,
      0x93, 0xB1, 0xA5, 0x73, 0x04]"

definition test_ergo_tx_serializer_box_add_miners_fee_tree :: bool where
  "test_ergo_tx_serializer_box_add_miners_fee_tree \<longleftrightarrow>
     list_all (\<lambda>net.
       box_gives 2 2 2 [BoxFeeTree net] ERGO_TX_SERIALIZER_BOX_RES_OK ERGO_TX_SERIALIZER_BOX_STATE_TREE_ADDED
         ([0xB9, 0x60] @ expected_fee_tree @ [0x03, 0x02]) \<and>
       box_type (fst (snd (box_tested 2 2 2 zero_table [BoxFeeTree net]))) = ERGO_TX_SERIALIZER_BOX_TYPE_FEE) [True, False]"

definition test_ergo_tx_serializer_box_add_miners_fee_tree_bad_hash :: bool where
  "test_ergo_tx_serializer_box_add_miners_fee_tree_bad_hash \<longleftrightarrow> box_bad_hash 2 2 2 (BoxFeeTree True)"

definition test_ergo_tx_serializer_box_add_change_tree :: bool where
  "test_ergo_tx_serializer_box_add_change_tree \<longleftrightarrow>
     box_gives 2 2 2 [BoxChangeTree test_public_key] ERGO_TX_SERIALIZER_BOX_RES_OK ERGO_TX_SERIALIZER_BOX_STATE_TREE_ADDED
       ([0xB9, 0x60, 0x00, 0x08, 0xCD, 0x03] @ take 32 (drop 1 test_public_key) @ [0x03, 0x02]) \<and>
     box_type (fst (snd (box_tested 2 2 2 zero_table [BoxChangeTree test_public_key]))) = ERGO_TX_SERIALIZER_BOX_TYPE_CHANGE \<and>
     box_bad_state (BoxChangeTree (replicate 65 0)) \<and>
     box_bad_hash 2 2 2 (BoxChangeTree (replicate 65 0))"

text \<open>
  The tokens, the registers and the id, over a table with two rows made by the table serializer; the expected bytes are those
  of the test of the id, of which the other two expect a beginning. The id of the box is the id of the input tests.
\<close>

definition tokens_chunk :: bytes where
  "tokens_chunk = [0, 0, 0, 0, 1, 1, 1, 1, 1, 1, 1, 1, 0, 0, 0, 1, 2, 2, 2, 2, 2, 2, 2, 2]"

definition box_ops :: "box_op list" where
  "box_ops = [BoxTree (buffer_of [1, 2]), BoxTokens (buffer_of tokens_chunk) (Some \<lparr>distinct_tokens_count = 2\<rparr>),
     BoxRegisters (buffer_of [1, 2])]"

definition expected_box :: bytes where
  "expected_box =
    [0xB9, 0x60, 0x01, 0x02, 0x03, 0x02, 0x00, 0x81, 0x82, 0x84, 0x88, 0x90, 0xA0, 0xC0, 0x80, 0x01, 0x01, 0x82, 0x84, 0x88,
      0x90, 0xA0, 0xC0, 0x80, 0x81, 0x02, 0x01, 0x02]"

definition box_over_table :: "box_op list \<Rightarrow> ergo_tx_serializer_box_result_e list \<times> bytes ser_mem box_ctx \<times> bytes ser_mem" where
  "box_over_table ps = box_tested 2 2 2 (snd (table_added 2 (replicate 32 1 @ replicate 32 2))) ps"

definition test_ergo_tx_serializer_box_add_tokens :: bool where
  "test_ergo_tx_serializer_box_add_tokens \<longleftrightarrow>
     fst (table_added 2 (replicate 32 1 @ replicate 32 2)) = ERGO_TX_SERIALIZER_TABLE_RES_OK \<and>
     (case box_over_table (take 2 box_ops) of (rs, c, m) \<Rightarrow>
        rs = replicate 3 ERGO_TX_SERIALIZER_BOX_RES_OK \<and> hash_ctx m = take 26 expected_box \<and>
        box_state c = ERGO_TX_SERIALIZER_BOX_STATE_TOKENS_ADDED)"

definition test_ergo_tx_serializer_box_add_registers :: bool where
  "test_ergo_tx_serializer_box_add_registers \<longleftrightarrow>
     (case box_over_table box_ops of (rs, c, m) \<Rightarrow>
        rs = replicate 4 ERGO_TX_SERIALIZER_BOX_RES_OK \<and> hash_ctx m = expected_box \<and>
        box_state c = ERGO_TX_SERIALIZER_BOX_STATE_FINISHED)"

definition test_ergo_tx_serializer_box_id_hash :: bool where
  "test_ergo_tx_serializer_box_id_hash \<longleftrightarrow>
     (case box_over_table box_ops of (rs, c, m) \<Rightarrow>
      case ergo_tx_serializer_box_id_hash cx_message c m (replicate 32 1) 1 (replicate 32 0) of ((r, c', m'), box_id) \<Rightarrow>
        r = ERGO_TX_SERIALIZER_BOX_RES_OK \<and> box_id = test_box_id \<and>
        hash_ctx m' = expected_box @ replicate 32 1 @ [1] \<and> box_state c' = ERGO_TX_SERIALIZER_BOX_STATE_HASH_FINALIZED)"

lemma box_mem: "test_mem\<lparr>tokens_table := t\<rparr> = \<lparr>hash_ctx = [], tokens_table = t\<rparr>"
  by (simp add: test_mem_def blake2b_256_init_def cx_message_def)

lemma box_tests:
  test_ergo_tx_serializer_box_init
  test_ergo_tx_serializer_box_init_errors
  test_ergo_tx_serializer_box_add_tree
  test_ergo_tx_serializer_box_add_tree_bad_state
  test_ergo_tx_serializer_box_add_tree_too_much_data
  test_ergo_tx_serializer_box_add_tree_bad_hash
  test_ergo_tx_serializer_box_add_tree_more_data
  test_ergo_tx_serializer_box_add_miners_fee_tree
  test_ergo_tx_serializer_box_add_miners_fee_tree_bad_hash
  test_ergo_tx_serializer_box_add_change_tree
proof -
  note d = box_gives_def box_tested_def box_bad_hash_def
  obtain t where m: "test_mem\<lparr>tokens_table := zero_table\<rparr> = \<lparr>hash_ctx = [], tokens_table = t\<rparr>" using box_mem by blast
  show test_ergo_tx_serializer_box_init unfolding test_ergo_tx_serializer_box_init_def d m by code_simp
  show test_ergo_tx_serializer_box_init_errors unfolding test_ergo_tx_serializer_box_init_errors_def d m by code_simp
  show test_ergo_tx_serializer_box_add_tree unfolding test_ergo_tx_serializer_box_add_tree_def d m by code_simp
  show test_ergo_tx_serializer_box_add_tree_bad_state
    by (simp add: test_ergo_tx_serializer_box_add_tree_bad_state_def box_bad_state_def after_tree_def ergo_tx_serializer_box_add_tree_def
        box_res_error_def Let_def)
  show test_ergo_tx_serializer_box_add_tree_too_much_data
    unfolding test_ergo_tx_serializer_box_add_tree_too_much_data_def d m by code_simp
  show test_ergo_tx_serializer_box_add_tree_bad_hash unfolding test_ergo_tx_serializer_box_add_tree_bad_hash_def d m by code_simp
  show test_ergo_tx_serializer_box_add_tree_more_data unfolding test_ergo_tx_serializer_box_add_tree_more_data_def d m by code_simp
  show test_ergo_tx_serializer_box_add_miners_fee_tree unfolding test_ergo_tx_serializer_box_add_miners_fee_tree_def d m by code_simp
  show test_ergo_tx_serializer_box_add_miners_fee_tree_bad_hash
    unfolding test_ergo_tx_serializer_box_add_miners_fee_tree_bad_hash_def d m by code_simp
  have "box_bad_state (BoxChangeTree k)" for k
    by (simp add: box_bad_state_def after_tree_def ergo_tx_serializer_box_add_change_tree_def box_res_error_def)
  then show test_ergo_tx_serializer_box_add_change_tree
    unfolding test_ergo_tx_serializer_box_add_change_tree_def by (simp add: d m) code_simp
qed

text \<open>What the tests of the tokens, the registers and the id evaluate, with the table as a variable.\<close>

lemma box_runs:
  defines "run ps t \<equiv> (case ergo_tx_serializer_box_init cx_message 12345 2 3 2 2 \<lparr>hash_ctx = [], tokens_table = t\<rparr> of (r, c, m) \<Rightarrow>
      case answers (\<lambda>p s. box_exec cx_message p (fst s) (snd s)) ps (c, m) of (rs, c', m') \<Rightarrow> (r # rs, c', m'))"
  shows "case run (take 2 box_ops) t of (rs, c, m) \<Rightarrow>
      rs = replicate 3 ERGO_TX_SERIALIZER_BOX_RES_OK \<and> hash_ctx m = take 26 expected_box \<and>
      box_state c = ERGO_TX_SERIALIZER_BOX_STATE_TOKENS_ADDED"
    and "case run box_ops t of (rs, c, m) \<Rightarrow>
      rs = replicate 4 ERGO_TX_SERIALIZER_BOX_RES_OK \<and> m = \<lparr>hash_ctx = expected_box, tokens_table = t\<rparr> \<and>
      box_state c = ERGO_TX_SERIALIZER_BOX_STATE_FINISHED"
  unfolding run_def by (code_simp, simp?)+

lemma message_update:
  "mem_update cx_message \<lparr>hash_ctx = h, tokens_table = t\<rparr> data len = (True, \<lparr>hash_ctx = h @ take (unat len) data, tokens_table = t\<rparr>)"
  by (simp add: mem_update_def blake2b_update_def cx_message_def)

lemma box_index_code:
  "case gve_put_u16 (rw_buffer_new_local_empty 4) 1 of (r, b) \<Rightarrow>
     r = GVE_OK \<and> take (unat (rw_buffer_data_len b)) (rw_buffer_read_ptr b) = [1]"
  by code_simp

lemma box_id_digest: "rfc_blake2b 32 [] (expected_box @ replicate 32 1 @ [1]) = test_box_id"
  by code_simp

lemma box_table_tests:
  test_ergo_tx_serializer_box_add_tokens
  test_ergo_tx_serializer_box_add_registers
  test_ergo_tx_serializer_box_id_hash
proof -
  let ?t = "snd (table_added 2 (replicate 32 1 @ replicate 32 2))"
  show test_ergo_tx_serializer_box_add_tokens
    using box_runs(1) [of ?t] table_tests(2)
    by (simp add: test_ergo_tx_serializer_box_add_tokens_def box_over_table_def box_tested_def box_mem test_table_add_def split: prod.splits)
  have r: "case box_over_table box_ops of (rs, c, m) \<Rightarrow> rs = replicate 4 ERGO_TX_SERIALIZER_BOX_RES_OK \<and>
      m = \<lparr>hash_ctx = expected_box, tokens_table = ?t\<rparr> \<and> box_state c = ERGO_TX_SERIALIZER_BOX_STATE_FINISHED"
    using box_runs(2) [of ?t] by (simp add: box_over_table_def box_tested_def box_mem)
  then show test_ergo_tx_serializer_box_add_registers
    by (auto simp: test_ergo_tx_serializer_box_add_registers_def)
  obtain rs c m where o: "box_over_table box_ops = (rs, c, m)" by (metis prod_cases3)
  obtain b where b: "gve_put_u16 (rw_buffer_new_local_empty 4) 1 = (GVE_OK, b)"
      "take (unat (rw_buffer_data_len b)) (rw_buffer_read_ptr b) = [1]"
    using box_index_code by (auto split: prod.splits)
  show test_ergo_tx_serializer_box_id_hash
    using r box_id_digest unfolding test_ergo_tx_serializer_box_id_hash_def o
    by (simp add: ergo_tx_serializer_box_id_hash_def message_update message_final b ERGO_ID_LEN_def)
qed

subsection \<open>What is left of the trees and the table\<close>

definition test_ergo_tree_miners_fee_tree :: bool where
  "test_ergo_tree_miners_fee_tree \<longleftrightarrow> list_all (\<lambda>net. ergo_tree_miners_fee_tree net = (expected_fee_tree, 105)) [True, False]"

definition test_table_hash_bad_hash :: bool where
  "test_table_hash_bad_hash \<longleftrightarrow>
     (case table_added 1 (replicate 32 2) of (r, t) \<Rightarrow>
        r = ERGO_TX_SERIALIZER_TABLE_RES_OK \<and>
        fst (ergo_tx_serializer_table_hash cx_cleared \<lparr>distinct_tokens_count = 1\<rparr> t []) = ERGO_TX_SERIALIZER_TABLE_RES_ERR_HASHER)"

lemma fee_tree_test: test_ergo_tree_miners_fee_tree
  by code_simp

lemma bad_hash_runs:
  "case ergo_tx_serializer_table_add \<lparr>distinct_tokens_count = 1\<rparr> (two_rows ts) (buffer_of (replicate 32 2)) of
     (r, t, _) \<Rightarrow> r = ERGO_TX_SERIALIZER_TABLE_RES_OK \<and>
       fst (ergo_tx_serializer_table_hash cx_cleared \<lparr>distinct_tokens_count = 1\<rparr> t []) = ERGO_TX_SERIALIZER_TABLE_RES_ERR_HASHER"
  by (code_simp, simp?)

lemma bad_hash_test: test_table_hash_bad_hash
  using bad_hash_runs [of "drop 2 (tt_tokens zero_table)"]
  by (auto simp: test_table_hash_bad_hash_def table_added_rows split: prod.splits)

end
