(* ===== verification/UnitTestsBuffers.thy ===== *)
theory UnitTestsBuffers
  imports RwBuffer Bip32Ext FailStop
begin

text \<open>
  The unit tests of the read/write buffers and of the validation of paths (\<^verbatim>\<open>test_buffer.c\<close>, \<^verbatim>\<open>test_bip32.c\<close>). A test of a
  buffer is a script of calls, each with what the test expects of it.
\<close>

subsection \<open>Scripts\<close>

text \<open>The macros \<open>RW_BUFFER_FROM_ARRAY_FULL\<close> and \<open>RW_BUFFER_FROM_ARRAY_EMPTY\<close> over a whole array.\<close>

definition rw_buffer_from_array_full :: "bytes \<Rightarrow> rw_buffer_t" where
  "rw_buffer_from_array_full a = rw_buffer_init a (of_nat (length a)) (of_nat (length a))"

definition rw_buffer_from_array_empty :: "bytes \<Rightarrow> rw_buffer_t" where
  "rw_buffer_from_array_empty a = rw_buffer_init a (of_nat (length a)) 0"

text \<open>What a call tells: failure is \<open>None\<close>; success comes with the numbers that the call or a look at the buffer gives.\<close>

type_synonym told = "int list option"

definition did :: "(rw_buffer_t \<Rightarrow> bool \<times> rw_buffer_t) \<Rightarrow> rw_buffer_t \<Rightarrow> told \<times> rw_buffer_t" where
  "did f b = (case f b of (ok, b') \<Rightarrow> (if ok then Some [] else None, b'))"

definition got_word :: "(rw_buffer_t \<Rightarrow> 'w::len word option \<times> rw_buffer_t) \<Rightarrow> rw_buffer_t \<Rightarrow> told \<times> rw_buffer_t" where
  "got_word f b = (case f b of (v, b') \<Rightarrow> (map_option (\<lambda>w. [uint w]) v, b'))"

definition got_bytes :: "(rw_buffer_t \<Rightarrow> bytes option \<times> rw_buffer_t) \<Rightarrow> rw_buffer_t \<Rightarrow> told \<times> rw_buffer_t" where
  "got_bytes f b = (case f b of (v, b') \<Rightarrow> (map_option (map uint) v, b'))"

definition may :: "(rw_buffer_t \<Rightarrow> bool) \<Rightarrow> rw_buffer_t \<Rightarrow> told \<times> rw_buffer_t" where
  "may f b = (if f b then Some [] else None, b)"

definition see :: "(rw_buffer_t \<Rightarrow> size_t) \<Rightarrow> rw_buffer_t \<Rightarrow> told \<times> rw_buffer_t" where
  "see f b = (Some [uint (f b)], b)"

definition see_array :: "nat \<Rightarrow> rw_buffer_t \<Rightarrow> told \<times> rw_buffer_t" where
  "see_array n b = (Some (map uint (take n (buf_ptr (rw_read b)))), b)"

definition script :: "rw_buffer_t \<Rightarrow> ((rw_buffer_t \<Rightarrow> told \<times> rw_buffer_t) \<times> told) list \<Rightarrow> bool" where
  "script b ps \<longleftrightarrow> fst (answers (\<lambda>p. p) (map fst ps) b) = map snd ps"

subsection \<open>Buffers\<close>

text \<open>The fields after an initialization: the array, its size, the offset and the size of the data.\<close>

definition fields :: "rw_buffer_t \<Rightarrow> bytes \<Rightarrow> size_t \<Rightarrow> size_t \<Rightarrow> size_t \<Rightarrow> bool" where
  "fields b a n offset data \<longleftrightarrow>
     buf_ptr (rw_read b) = a \<and> rw_size b = n \<and> buf_offset (rw_read b) = offset \<and> buf_size (rw_read b) = data"

definition test_buffer_init :: bool where
  "test_buffer_init \<longleftrightarrow> fields (rw_buffer_init [0x01, 0x02, 0x00] 3 2) [0x01, 0x02, 0x00] 3 0 2"

definition test_buffer_from :: bool where
  "test_buffer_from \<longleftrightarrow>
     fields (rw_buffer_from_array_full [0x01]) [0x01] 1 0 1 \<and> fields (rw_buffer_from_array_empty [0x01]) [0x01] 1 0 0 \<and>
     fields (rw_buffer_new_local_empty 1) [0] 1 0 0"

definition set_offset :: "size_t \<Rightarrow> rw_buffer_t \<Rightarrow> rw_buffer_t" where
  "set_offset n b = b\<lparr>rw_read := (rw_read b)\<lparr>buf_offset := n\<rparr>\<rparr>"

definition test_buffer_empty :: bool where
  "test_buffer_empty \<longleftrightarrow> fields (rw_buffer_empty (set_offset 1 (rw_buffer_from_array_full [0x01]))) [0x01] 1 0 0"

definition test_buffer_ptrs :: bool where
  "test_buffer_ptrs \<longleftrightarrow>
     rw_buffer_read_ptr (set_offset 1 (rw_buffer_from_array_full [0x01, 0x02])) = drop 1 [0x01, 0x02] \<and>
     rw_buffer_write_ptr (rw_buffer_from_array_full [0x01, 0x02]) = 2"

definition zeros :: "nat \<Rightarrow> bytes" where
  "zeros n = replicate n 0"

definition test_buffer_can :: bool where
  "test_buffer_can \<longleftrightarrow>
     script (rw_buffer_from_array_full (zeros 20))
       [(may (\<lambda>b. rw_buffer_can_read b 20), Some []), (did (\<lambda>b. rw_buffer_seek_read_cur b 20), Some []),
        (may (\<lambda>b. rw_buffer_can_read b 1), None)] \<and>
     script (rw_buffer_from_array_empty [0x01])
       [(may (\<lambda>b. rw_buffer_can_write b 1), Some []), (may (\<lambda>b. rw_buffer_can_write b 2), None),
        (did (\<lambda>b. rw_buffer_seek_write_cur b 1), Some []), (may (\<lambda>b. rw_buffer_can_write b 1), None)]"

definition test_buffer_lengths :: bool where
  "test_buffer_lengths \<longleftrightarrow>
     script (rw_buffer_from_array_empty [0x01])
       [(see rw_buffer_empty_space_len, Some [1]), (did (\<lambda>b. rw_buffer_seek_write_cur b 1), Some []),
        (see rw_buffer_empty_space_len, Some [0])] \<and>
     script (rw_buffer_from_array_empty [0x01])
       [(see rw_buffer_data_len, Some [0]), (did (\<lambda>b. rw_buffer_seek_write_cur b 1), Some []), (see rw_buffer_data_len, Some [1]),
        (did (\<lambda>b. rw_buffer_seek_read_cur b 1), Some []), (see rw_buffer_data_len, Some [0])] \<and>
     script (rw_buffer_from_array_full [0x01])
       [(see rw_buffer_read_position, Some [0]), (did (\<lambda>b. rw_buffer_seek_read_cur b 1), Some []),
        (see rw_buffer_read_position, Some [1])] \<and>
     script (rw_buffer_from_array_empty [0x01])
       [(see rw_buffer_write_position, Some [0]), (did (\<lambda>b. rw_buffer_seek_write_cur b 1), Some []),
        (see rw_buffer_write_position, Some [1])]"

definition test_buffer_seek_read :: bool where
  "test_buffer_seek_read \<longleftrightarrow>
     script (rw_buffer_from_array_full (zeros 20))
       [(may (\<lambda>b. rw_buffer_can_read b 20), Some []), (did (\<lambda>b. rw_buffer_seek_read_cur b 20), Some []),
        (may (\<lambda>b. rw_buffer_can_read b 1), None), (did (\<lambda>b. rw_buffer_seek_read_cur b 1), None),
        (did (\<lambda>b. rw_buffer_seek_read_end b 19), Some []), (see rw_buffer_read_position, Some [1]),
        (did (\<lambda>b. rw_buffer_seek_read_end b 21), None),
        (did (\<lambda>b. rw_buffer_seek_read_set b 10), Some []), (see rw_buffer_read_position, Some [10]),
        (did (\<lambda>b. rw_buffer_seek_read_set b 21), None)]"

definition test_buffer_seek_write :: bool where
  "test_buffer_seek_write \<longleftrightarrow>
     script (rw_buffer_from_array_empty (zeros 20))
       [(may (\<lambda>b. rw_buffer_can_write b 20), Some []), (did (\<lambda>b. rw_buffer_seek_write_cur b 20), Some []),
        (may (\<lambda>b. rw_buffer_can_write b 1), None), (did (\<lambda>b. rw_buffer_seek_write_cur b 1), None),
        (did (\<lambda>b. rw_buffer_seek_write_end b 19), Some []), (see rw_buffer_write_position, Some [1]),
        (did (\<lambda>b. rw_buffer_seek_write_end b 21), None),
        (did (\<lambda>b. rw_buffer_seek_write_set b 10), Some []), (see rw_buffer_write_position, Some [10]),
        (did (\<lambda>b. rw_buffer_seek_write_set b 21), None)]"

definition test_buffer_read :: bool where
  "test_buffer_read \<longleftrightarrow>
     script (rw_buffer_from_array_full [0xFF, 0x01, 0x02, 0x03, 0x04, 0x05, 0x06, 0x07, 0x08, 0x09, 0x0A, 0x0B, 0x0C, 0x0D, 0x0E])
       [(got_word rw_buffer_read_u8, Some [255]), (did (\<lambda>b. rw_buffer_seek_read_end b 0), Some []),
        (got_word rw_buffer_read_u8, None), (did (\<lambda>b. rw_buffer_seek_read_set b 1), Some []),
        (got_word (\<lambda>b. rw_buffer_read_u16 b BE), Some [258]), (did (\<lambda>b. rw_buffer_seek_read_set b 1), Some []),
        (got_word (\<lambda>b. rw_buffer_read_u16 b LE), Some [513]), (did (\<lambda>b. rw_buffer_seek_read_set b 14), Some []),
        (got_word (\<lambda>b. rw_buffer_read_u16 b BE), None), (did (\<lambda>b. rw_buffer_seek_read_set b 3), Some []),
        (got_word (\<lambda>b. rw_buffer_read_u32 b BE), Some [50595078]), (did (\<lambda>b. rw_buffer_seek_read_set b 3), Some []),
        (got_word (\<lambda>b. rw_buffer_read_u32 b LE), Some [100992003]), (did (\<lambda>b. rw_buffer_seek_read_set b 12), Some []),
        (got_word (\<lambda>b. rw_buffer_read_u32 b BE), None), (did (\<lambda>b. rw_buffer_seek_read_set b 7), Some []),
        (got_word (\<lambda>b. rw_buffer_read_u64 b BE), Some [506664896818842894]),
        (did (\<lambda>b. rw_buffer_seek_read_set b 7), Some []),
        (got_word (\<lambda>b. rw_buffer_read_u64 b LE), Some [1012478732780767239]),
        (did (\<lambda>b. rw_buffer_seek_read_set b 8), Some []), (got_word (\<lambda>b. rw_buffer_read_u64 b BE), None)]"

definition test_buffer_write :: bool where
  "test_buffer_write \<longleftrightarrow>
     script (rw_buffer_from_array_empty (zeros 8))
       [(did (\<lambda>b. rw_buffer_write_u8 b 0xFF), Some []), (see_array 1, Some [255]),
        (did (\<lambda>b. rw_buffer_seek_write_end b 0), Some []), (did (\<lambda>b. rw_buffer_write_u8 b 0xFF), None),
        (did (\<lambda>b. rw_buffer_seek_write_set b 0), Some []), (did (\<lambda>b. rw_buffer_write_u16 b 0x0102 BE), Some []),
        (see_array 2, Some [1, 2]), (did (\<lambda>b. rw_buffer_seek_write_set b 0), Some []),
        (did (\<lambda>b. rw_buffer_write_u16 b 0x0102 LE), Some []), (see_array 2, Some [2, 1]),
        (did (\<lambda>b. rw_buffer_seek_write_set b 7), Some []), (did (\<lambda>b. rw_buffer_write_u16 b 0x0102 BE), None),
        (did (\<lambda>b. rw_buffer_seek_write_set b 0), Some []), (did (\<lambda>b. rw_buffer_write_u32 b 0x03040506 BE), Some []),
        (see_array 4, Some [3, 4, 5, 6]), (did (\<lambda>b. rw_buffer_seek_write_set b 0), Some []),
        (did (\<lambda>b. rw_buffer_write_u32 b 0x03040506 LE), Some []), (see_array 4, Some [6, 5, 4, 3]),
        (did (\<lambda>b. rw_buffer_seek_write_set b 5), Some []), (did (\<lambda>b. rw_buffer_write_u32 b 0x03040506 BE), None),
        (did (\<lambda>b. rw_buffer_seek_write_set b 0), Some []),
        (did (\<lambda>b. rw_buffer_write_u64 b 0x0708090A0B0C0D0E BE), Some []), (see_array 8, Some [7, 8, 9, 10, 11, 12, 13, 14]),
        (did (\<lambda>b. rw_buffer_seek_write_set b 0), Some []),
        (did (\<lambda>b. rw_buffer_write_u64 b 0x0708090A0B0C0D0E LE), Some []), (see_array 8, Some [14, 13, 12, 11, 10, 9, 8, 7]),
        (did (\<lambda>b. rw_buffer_seek_write_set b 1), Some []),
        (did (\<lambda>b. rw_buffer_write_u64 b 0x0708090A0B0C0D0E BE), None)]"

text \<open>A function that only the tests call. A test compares the first five bytes of the words that it reads.\<close>

definition rw_buffer_read_bip32_path :: "rw_buffer_t \<Rightarrow> u32 list \<Rightarrow> size_t \<Rightarrow> bool \<times> u32 list \<times> rw_buffer_t" where
  "rw_buffer_read_bip32_path b out out_len =
     (case buffer_read_bip32_path (rw_read b) out out_len of (ok, out', rb) \<Rightarrow> (ok, out', b\<lparr>rw_read := rb\<rparr>))"

definition test_buffer_read_bip32_path :: bool where
  "test_buffer_read_bip32_path \<longleftrightarrow>
     (case rw_buffer_read_bip32_path
        (rw_buffer_from_array_full ([0x80, 0x00, 0x00, 0x2C, 0x80, 0x00, 0x00, 0x01, 0x80, 0x00, 0x00, 0x00] @ zeros 8)) [0, 0, 0, 0, 0] 5 of
        (ok, out, b) \<Rightarrow> ok \<and> memcmp_eq (path_mem out) (path_mem [0x8000002C, 0x80000001, 0x80000000, 0, 0]) 5 \<and>
          buf_offset (rw_read b) = 20 \<and> \<not> fst (rw_buffer_read_bip32_path b out 6))"

definition test_buffer_read_bytes :: bool where
  "test_buffer_read_bytes \<longleftrightarrow>
     script (rw_buffer_from_array_full [1, 2, 3, 4, 5])
       [(got_bytes (\<lambda>b. rw_buffer_read_bytes b 5), Some [1, 2, 3, 4, 5]), (see rw_buffer_read_position, Some [5]),
        (got_bytes (\<lambda>b. rw_buffer_read_bytes b 3), None)]"

definition test_buffer_copy_bytes :: bool where
  "test_buffer_copy_bytes \<longleftrightarrow>
     script (rw_buffer_from_array_full [1, 2, 3, 4, 5])
       [(got_bytes (\<lambda>b. (rw_buffer_copy_bytes b 5, b)), Some [1, 2, 3, 4, 5]), (did (\<lambda>b. rw_buffer_seek_read_set b 2), Some []),
        (got_bytes (\<lambda>b. (rw_buffer_copy_bytes b 3, b)), Some [3, 4, 5]), (did (\<lambda>b. rw_buffer_seek_read_set b 3), Some []),
        (got_bytes (\<lambda>b. (rw_buffer_copy_bytes b 3, b)), None)]"

definition test_buffer_write_bytes :: bool where
  "test_buffer_write_bytes \<longleftrightarrow>
     script (rw_buffer_from_array_empty (zeros 5))
       [(did (\<lambda>b. rw_buffer_write_bytes b [1, 2] 2), Some []), (see_array 2, Some [1, 2]), (see rw_buffer_write_position, Some [2]),
        (did (\<lambda>b. rw_buffer_write_bytes b [3, 4, 5] 3), Some []), (see rw_buffer_write_position, Some [5]),
        (see_array 5, Some [1, 2, 3, 4, 5]), (did (\<lambda>b. rw_buffer_write_bytes b [1] 1), None),
        (see rw_buffer_write_position, Some [5]), (see_array 5, Some [1, 2, 3, 4, 5])]"

definition test_buffer_shift_data :: bool where
  "test_buffer_shift_data \<longleftrightarrow>
     script (rw_buffer_from_array_full [1, 2, 3, 4, 5])
       [(did (\<lambda>b. rw_buffer_seek_read_cur b 2), Some []), (\<lambda>b. (Some [], rw_buffer_shift_data b), Some []),
        (see rw_buffer_write_position, Some [3]), (see rw_buffer_read_position, Some [0]), (see_array 3, Some [3, 4, 5])]"

lemma buffer_tests:
  test_buffer_init test_buffer_from test_buffer_empty test_buffer_ptrs test_buffer_can test_buffer_lengths
  test_buffer_seek_read test_buffer_seek_write test_buffer_read test_buffer_write test_buffer_read_bip32_path
  test_buffer_read_bytes test_buffer_copy_bytes test_buffer_write_bytes test_buffer_shift_data
  by code_simp+

subsection \<open>Paths\<close>

text \<open>\<open>BIP32_VALIDATE_OK\<close> and \<open>BIP32_VALIDATE_ERR\<close>.\<close>

definition validates :: "bip32_path_validation_type_e \<Rightarrow> u32 list \<Rightarrow> bool" where
  "validates vtype path = bip32_path_validate path (of_nat (length path)) (BIP32_HARDENED 44) (BIP32_HARDENED 429) vtype"

definition test_bip32_validate_account :: bool where
  "test_bip32_validate_account \<longleftrightarrow>
     validates BIP32_PATH_VALIDATE_ACCOUNT_E3 [0x8000002C, 0x800001AD, 0x80000000] \<and>
     list_all (validates BIP32_PATH_VALIDATE_ACCOUNT_GE3)
       [[0x8000002C, 0x800001AD, 0x80000000], [0x8000002C, 0x800001AD, 0x80000000, 0x80000001],
        [0x8000002C, 0x800001AD, 0x80000000, 0x80000001, 0x80000002]]"

definition test_bip32_validate_address :: bool where
  "test_bip32_validate_address \<longleftrightarrow>
     validates BIP32_PATH_VALIDATE_ADDRESS_E5 [0x8000002C, 0x800001AD, 0x80000000, 0, 1] \<and>
     list_all (validates BIP32_PATH_VALIDATE_ADDRESS_GE5)
       [[0x8000002C, 0x800001AD, 0x80000000, 0, 1], [0x8000002C, 0x800001AD, 0x80000000, 0, 1, 2]]"

definition test_bad_bip32_validate_account :: bool where
  "test_bad_bip32_validate_account \<longleftrightarrow>
     list_all (\<lambda>p. \<not> validates BIP32_PATH_VALIDATE_ACCOUNT_E3 p \<and> \<not> validates BIP32_PATH_VALIDATE_ACCOUNT_GE3 p)
       [[0x8000002C, 0x800001AD], [0x8000002C, 0x800001AD, 0x80], [0x80000000, 0x800001AD, 0x80000000],
        [0x8000002C, 0x80000000, 0x80000000], [0x8000002C, 0x800001AD, 0x80000000, 0], [0x8000002C, 0x800001AD, 0x80000000, 1, 2],
        [0x8000002C, 0x800001AD, 0x80000000, 0x80000000, 2], [0x8000002C, 0x800001AD, 0x80000000, 1, 0x80000000]]"

definition test_bad_bip32_validate_address :: bool where
  "test_bad_bip32_validate_address \<longleftrightarrow>
     list_all (\<lambda>p. \<not> validates BIP32_PATH_VALIDATE_ADDRESS_E5 p \<and> \<not> validates BIP32_PATH_VALIDATE_ADDRESS_GE5 p)
       [[0x8000002C, 0x800001AD], [0x8000002C, 0x800001AD, 0x80000000], [0x8000002C, 0x800001AD, 0x80000000, 0],
        [0x8000002C, 0x800001AD, 0x80000000, 0x80000000, 2], [0x8000002C, 0x800001AD, 0x80000000, 3, 2],
        [0x8000002C, 0x800001AD, 0x80000000, 1, 0x80000000], [0x80000000, 0x800001AD, 0x80000000, 1, 1],
        [0x8000002C, 0x80000000, 0x80000000, 1, 1]] \<and>
     \<not> validates BIP32_PATH_VALIDATE_ADDRESS_E5 [0x8000002C, 0x800001AD, 0x80000000, 1, 1, 1] \<and>
     validates BIP32_PATH_VALIDATE_ADDRESS_GE5 [0x8000002C, 0x800001AD, 0x80000000, 1, 1, 1]"

lemma path_tests:
  test_bip32_validate_account test_bip32_validate_address test_bad_bip32_validate_account test_bad_bip32_validate_address
  by code_simp+

end
