(* ===== verification/Fuzzing.thy ===== *)
theory Fuzzing
  imports DeviceSafety
begin

text \<open>
  The fuzzing harnesses (\<^verbatim>\<open>fuzzing/src/*_harness.c\<close>): each reads commands from the input of the fuzzer and passes them to
  one handler, without the dispatcher. The libraries they link instead of those of the device are the environment \<open>E\<close> and the draws,
  as for the device; \<open>al\<close> says which calls of \<open>malloc\<close> succeed. An exception of the SDK ends a command and is caught; the
  model has none.
\<close>

subsection \<open>The loop\<close>

text \<open>The input is consumed from the front. \<open>n\<close> counts the turns, the byte of the instruction is not looked at.\<close>

function fuzz_loop ::
    "(draws \<Rightarrow> buffer_t \<Rightarrow> u8 \<Rightarrow> u8 \<Rightarrow> 's \<Rightarrow> 's option) \<Rightarrow> (nat \<Rightarrow> bool) \<Rightarrow> (nat \<Rightarrow> draws) \<Rightarrow> nat \<Rightarrow> bytes \<Rightarrow> 's \<Rightarrow> 's option" where
  "fuzz_loop h al ds n data g =
     (if length data > 5 then
        let p1 = data ! 1; p2 = data ! 2; lc = data ! 3; rest = drop 4 data in
        if length rest < unat lc then Some g
        else if \<not> al n then Some g
        else case h (ds n) (buffer_init (take (unat lc) rest) (ucast lc)) p1 p2 g of
            None \<Rightarrow> None
          | Some g' \<Rightarrow> fuzz_loop h al ds (Suc n) (drop (unat lc) rest) g'
      else Some g)"
  by pat_completeness auto
termination by (relation "measure (\<lambda>(h, al, ds, n, data, g). length data)") auto

declare fuzz_loop.simps [simp del]

definition ainpt_harness where
  "ainpt_harness E al ds data g = fuzz_loop (handler_attest_input E) al ds 0 data g"

definition stx_harness where
  "stx_harness E al ds data g = fuzz_loop (handler_sign_transaction E) al ds 0 data g"

definition da_harness where
  "da_harness E al ds data g =
     fuzz_loop (\<lambda>d buf p1 p2 g. Some (handler_derive_address E d buf (p1 = 2) (p2 = 2) g)) al ds 0 data g"

definition epk_harness where
  "epk_harness E al ds data g =
     fuzz_loop (\<lambda>d buf p1 p2 g. Some (handler_get_extended_public_key E d buf (p1 = 2) g)) al ds 0 data g"

subsection \<open>What a harness runs\<close>

text \<open>A command as it stands in the input, and the handler called for several of them.\<close>

record fuzz_command =
  fz_ins :: u8
  fz_p1 :: u8
  fz_p2 :: u8
  fz_data :: bytes

definition fuzz_frame :: "fuzz_command \<Rightarrow> bytes" where
  "fuzz_frame c = [fz_ins c, fz_p1 c, fz_p2 c, of_nat (length (fz_data c))] @ fz_data c"

primrec fuzz_run where
  "fuzz_run h ds n [] g = Some g"
| "fuzz_run h ds n (c # cs) g =
     (case h (ds n) (buffer_init (fz_data c) (of_nat (length (fz_data c)))) (fz_p1 c) (fz_p2 c) g of
        None \<Rightarrow> None | Some g' \<Rightarrow> fuzz_run h ds (Suc n) cs g')"

text \<open>The commands in an input.\<close>

function fuzz_commands :: "bytes \<Rightarrow> fuzz_command list" where
  "fuzz_commands data =
     (if length data > 5 \<and> unat (data ! 3) \<le> length (drop 4 data) then
        \<lparr>fz_ins = data ! 0, fz_p1 = data ! 1, fz_p2 = data ! 2, fz_data = take (unat (data ! 3)) (drop 4 data)\<rparr> #
          fuzz_commands (drop (unat (data ! 3)) (drop 4 data))
      else [])"
  by pat_completeness auto
termination by (relation "measure length") auto

declare fuzz_commands.simps [simp del]

lemma fuzz_commands_frames:
  "\<exists>tail. data = concat (map fuzz_frame (fuzz_commands data)) @ tail \<and> list_all (\<lambda>c. length (fz_data c) < 256) (fuzz_commands data)"
proof (induction data rule: fuzz_commands.induct)
  case (1 data)
  let ?lc = "data ! 3" and ?rest = "drop 4 data"
  let ?c = "\<lparr>fz_ins = data ! 0, fz_p1 = data ! 1, fz_p2 = data ! 2, fz_data = take (unat ?lc) ?rest\<rparr>"
  show ?case
  proof (cases "length data > 5 \<and> unat ?lc \<le> length ?rest")
    case False
    then have "fuzz_commands data = []" by (subst fuzz_commands.simps) (simp only: if_False)
    then show ?thesis by simp
  next
    case True
    then have len: "length (fz_data ?c) = unat ?lc" by simp
    have "data = take 4 data @ take (unat ?lc) ?rest @ drop (unat ?lc) ?rest" by (simp only: append_take_drop_id)
    moreover have "take 4 data = [data ! 0, data ! 1, data ! 2, data ! 3]"
      using True by (intro nth_equalityI) (auto simp: less_Suc_eq numeral_eq_Suc)
    moreover have "of_nat (unat ?lc) = ?lc" by simp
    ultimately have frame: "data = fuzz_frame ?c @ drop (unat ?lc) ?rest" unfolding fuzz_frame_def len by simp
    have small: "length (fz_data ?c) < 256" using len unat_u8_less [of ?lc] by simp
    have cs: "fuzz_commands data = ?c # fuzz_commands (drop (unat ?lc) ?rest)"
      unfolding fuzz_commands.simps [of data] using True by (simp only: if_True simp_thms)
    obtain tail where "drop (unat ?lc) ?rest = concat (map fuzz_frame (fuzz_commands (drop (unat ?lc) ?rest))) @ tail"
      "list_all (\<lambda>c. length (fz_data c) < 256) (fuzz_commands (drop (unat ?lc) ?rest))"
      using "1.IH" [OF True] by auto
    then show ?thesis using frame small unfolding cs by (intro exI [of _ tail]) simp
  qed
qed

text \<open>A harness runs commands of its input in order; a \<open>malloc\<close> that fails ends it early.\<close>

lemma fuzz_loop_run: "\<exists>k. fuzz_loop h al ds n data g = fuzz_run h ds n (take k (fuzz_commands data)) g"
proof (induction h al ds n data g rule: fuzz_loop.induct)
  case (1 h al ds n data g)
  let ?lc = "data ! 3" and ?rest = "drop 4 data"
  let ?c = "\<lparr>fz_ins = data ! 0, fz_p1 = data ! 1, fz_p2 = data ! 2, fz_data = take (unat ?lc) ?rest\<rparr>"
  show ?case
  proof (cases "length data > 5 \<and> \<not> length ?rest < unat ?lc \<and> al n")
    case False
    then have "fuzz_loop h al ds n data g = fuzz_run h ds n (take 0 (fuzz_commands data)) g"
      by (auto simp: fuzz_loop.simps [of h al ds n data g] Let_def)
    then show ?thesis by blast
  next
    case True
    then have cs: "fuzz_commands data = ?c # fuzz_commands (drop (unat ?lc) ?rest)"
      unfolding fuzz_commands.simps [of data] by (simp only: if_True not_less simp_thms)
    have "length (fz_data ?c) = unat ?lc" using True by simp
    then have buf: "buffer_init (fz_data ?c) (of_nat (length (fz_data ?c))) = buffer_init (take (unat ?lc) ?rest) (ucast ?lc)"
      by simp
    show ?thesis
    proof (cases "h (ds n) (buffer_init (take (unat ?lc) ?rest) (ucast ?lc)) (data ! 1) (data ! 2) g")
      case None
      then have "fuzz_loop h al ds n data g = fuzz_run h ds n (take 1 (fuzz_commands data)) g"
        using True buf unfolding cs by (simp add: fuzz_loop.simps [of h al ds n data g] Let_def)
      then show ?thesis by blast
    next
      case (Some g')
      obtain k where "fuzz_loop h al ds (Suc n) (drop (unat ?lc) ?rest) g' =
          fuzz_run h ds (Suc n) (take k (fuzz_commands (drop (unat ?lc) ?rest))) g'"
        using "1.IH" [OF _ refl refl refl refl _ _ Some] True by auto
      then have "fuzz_loop h al ds n data g = fuzz_run h ds n (take (Suc k) (fuzz_commands data)) g"
        using True buf Some unfolding cs by (simp add: fuzz_loop.simps [of h al ds n data g] Let_def)
      then show ?thesis by blast
    qed
  qed
qed

subsection \<open>What the dispatcher would have run\<close>

text \<open>The command of the device that reaches the same handler.\<close>

definition device_command :: "command_e \<Rightarrow> u8 \<Rightarrow> u8 \<Rightarrow> fuzz_command \<Rightarrow> command_t" where
  "device_command k q1 q2 c =
     \<lparr>cla = CLA, ins = command_ins k, p1 = q1, p2 = q2, lc = of_nat (length (fz_data c)), cdata = fz_data c\<rparr>"

lemma device_command_turn:
  assumes "length (fz_data c) < 256"
  shows "q1 \<noteq> 0 \<Longrightarrow> q2 \<noteq> 0 \<Longrightarrow> app_main_turn E B d (Some (device_command CMD_ATTEST_INPUT_BOX q1 q2 c)) g =
       handler_attest_input E d (buffer_init (fz_data c) (of_nat (length (fz_data c)))) q1 q2 g"
    and "q1 \<noteq> 0 \<Longrightarrow> q2 \<noteq> 0 \<Longrightarrow> app_main_turn E B d (Some (device_command CMD_SIGN_TRANSACTION q1 q2 c)) g =
       handler_sign_transaction E d (buffer_init (fz_data c) (of_nat (length (fz_data c)))) q1 q2 g"
    and "app_main_turn E B d (Some (device_command CMD_DERIVE_ADDRESS (if u1 then 2 else 1) (if u2 then 2 else 1) c)) g =
       Some (handler_derive_address E d (buffer_init (fz_data c) (of_nat (length (fz_data c)))) u1 u2 g)"
    and "app_main_turn E B d (Some (device_command CMD_GET_EXTENDED_PUBLIC_KEY (if u1 then 2 else 1) 0 c)) g =
       Some (handler_get_extended_public_key E d (buffer_init (fz_data c) (of_nat (length (fz_data c)))) u1 g)"
proof -
  have "(ucast (of_nat (length (fz_data c)) :: u8) :: size_t) = of_nat (length (fz_data c))"
    using assms by (intro word_unat_eq_iff [THEN iffD2]) (simp add: unat_ucast_up unat_of_nat_small)
  then show "q1 \<noteq> 0 \<Longrightarrow> q2 \<noteq> 0 \<Longrightarrow> app_main_turn E B d (Some (device_command CMD_ATTEST_INPUT_BOX q1 q2 c)) g =
       handler_attest_input E d (buffer_init (fz_data c) (of_nat (length (fz_data c)))) q1 q2 g"
    and "q1 \<noteq> 0 \<Longrightarrow> q2 \<noteq> 0 \<Longrightarrow> app_main_turn E B d (Some (device_command CMD_SIGN_TRANSACTION q1 q2 c)) g =
       handler_sign_transaction E d (buffer_init (fz_data c) (of_nat (length (fz_data c)))) q1 q2 g"
    and "app_main_turn E B d (Some (device_command CMD_DERIVE_ADDRESS (if u1 then 2 else 1) (if u2 then 2 else 1) c)) g =
       Some (handler_derive_address E d (buffer_init (fz_data c) (of_nat (length (fz_data c)))) u1 u2 g)"
    and "app_main_turn E B d (Some (device_command CMD_GET_EXTENDED_PUBLIC_KEY (if u1 then 2 else 1) 0 c)) g =
       Some (handler_get_extended_public_key E d (buffer_init (fz_data c) (of_nat (length (fz_data c)))) u1 g)"
    by (simp_all add: app_main_turn_def apdu_dispatcher_def device_command_def)
qed

text \<open>A run is a run of the device if each of its turns is one.\<close>

lemma fuzz_run_reachable:
  assumes "\<And>d c g. ok c \<Longrightarrow> length (fz_data c) < 256 \<Longrightarrow>
      \<exists>k q1 q2. app_main_turn E B d (Some (device_command k q1 q2 c)) g =
        h d (buffer_init (fz_data c) (of_nat (length (fz_data c)))) (fz_p1 c) (fz_p2 c) g"
    and "\<forall>n. io_ok (draw_io (ds n))" and "reachable E B g" "list_all (\<lambda>c. length (fz_data c) < 256) cs" "list_all ok cs"
    and "fuzz_run h ds n cs g = Some g'"
  shows "reachable E B g'"
  using assms(3-6)
proof (induction cs arbitrary: n g)
  case (Cons c cs)
  obtain k q1 q2 where t: "app_main_turn E B (ds n) (Some (device_command k q1 q2 c)) g =
      h (ds n) (buffer_init (fz_data c) (of_nat (length (fz_data c)))) (fz_p1 c) (fz_p2 c) g"
    using assms(1) [of c "ds n" g] Cons.prems by auto
  obtain g1 where g1: "h (ds n) (buffer_init (fz_data c) (of_nat (length (fz_data c)))) (fz_p1 c) (fz_p2 c) g = Some g1"
    and rest: "fuzz_run h ds (Suc n) cs g1 = Some g'" using Cons.prems(4) by (auto split: option.splits)
  have "length (fz_data c) < 256" using Cons.prems(2) by simp
  then have "event_ok (Command (ds n) (Some (device_command k q1 q2 c)))"
    using assms(2) by (simp add: device_command_def unat_of_nat_small)
  moreover have "device_step E B g (Command (ds n) (Some (device_command k q1 q2 c))) g1"
    using t g1 by (simp add: device_step_command)
  ultimately have "reachable E B g1" using Cons.prems(1) reach_step by blast
  then show ?case using Cons.IH rest Cons.prems by simp
qed simp

lemma fuzz_loop_reachable:
  assumes "\<And>d c g. ok c \<Longrightarrow> length (fz_data c) < 256 \<Longrightarrow>
      \<exists>k q1 q2. app_main_turn E B d (Some (device_command k q1 q2 c)) g =
        h d (buffer_init (fz_data c) (of_nat (length (fz_data c)))) (fz_p1 c) (fz_p2 c) g"
    and "\<forall>n. io_ok (draw_io (ds n))" and "reachable E B g" "list_all ok (fuzz_commands data)"
    and "fuzz_loop h al ds n data g = Some g'"
  shows "reachable E B g'"
proof -
  obtain k where k: "fuzz_loop h al ds n data g = fuzz_run h ds n (take k (fuzz_commands data)) g"
    using fuzz_loop_run [of h al ds n data g] by blast
  have "list_all (\<lambda>c. length (fz_data c) < 256) (take k (fuzz_commands data))" "list_all ok (take k (fuzz_commands data))"
    using fuzz_commands_frames [of data] assms(4) by (auto simp: list_all_iff dest: in_set_takeD)
  with fuzz_run_reachable [of ok E B h ds g "take k (fuzz_commands data)" n g', OF assms(1-3)] assms(5) k
  show ?thesis by simp
qed

text \<open>A run takes the device from a reachable state to a reachable state.\<close>

lemma harness_stays_in_device:
  assumes "reachable E B g" and "\<forall>n. io_ok (draw_io (ds n))"
  shows "(da_harness E al ds data g = Some g1 \<longrightarrow> reachable E B g1) \<and>
     (epk_harness E al ds data g = Some g2 \<longrightarrow> reachable E B g2) \<and>
     (list_all (\<lambda>c. fz_p1 c \<noteq> 0 \<and> fz_p2 c \<noteq> 0) (fuzz_commands data) \<longrightarrow>
        (ainpt_harness E al ds data g = Some g3 \<longrightarrow> reachable E B g3) \<and>
        (stx_harness E al ds data g = Some g4 \<longrightarrow> reachable E B g4))"
proof (intro conjI impI)
  note turn = device_command_turn [where E = E and B = B]
  have T: "list_all (\<lambda>c. True) (fuzz_commands data)" by (simp add: list_all_iff)
  show "reachable E B g1" if "da_harness E al ds data g = Some g1"
    by (rule fuzz_loop_reachable [OF _ assms(2,1) T that [unfolded da_harness_def]]) (blast intro: turn(3))
  show "reachable E B g2" if "epk_harness E al ds data g = Some g2"
    by (rule fuzz_loop_reachable [OF _ assms(2,1) T that [unfolded epk_harness_def]]) (blast intro: turn(4))
  show "reachable E B g3" if "list_all (\<lambda>c. fz_p1 c \<noteq> 0 \<and> fz_p2 c \<noteq> 0) (fuzz_commands data)" "ainpt_harness E al ds data g = Some g3"
    by (rule fuzz_loop_reachable [OF _ assms(2,1) that(1) that(2) [unfolded ainpt_harness_def]]) (blast intro: turn(1))
  show "reachable E B g4" if "list_all (\<lambda>c. fz_p1 c \<noteq> 0 \<and> fz_p2 c \<noteq> 0) (fuzz_commands data)" "stx_harness E al ds data g = Some g4"
    by (rule fuzz_loop_reachable [OF _ assms(2,1) that(1) that(2) [unfolded stx_harness_def]]) (blast intro: turn(2))
qed

subsection \<open>Exactly which commands are run\<close>















subsection \<open>The first dialog ends a fuzzing session\<close>

text \<open>
  Nobody presses a button in a harness, and the state of the application outlives the input: once a dialog of the button
  devices is shown, every later command is refused, in this input and in all that follow.
\<close>

lemma fuzz_run_busy:
  assumes "\<And>d buf p1 p2 g. app_is_ui_busy g \<Longrightarrow> h d buf p1 p2 g = Some (res_ui_busy g)" and "app_is_ui_busy g"
  shows "fuzz_run h ds n cs g = Some (g\<lparr>sent := sent g @ replicate (length cs) (Response [] SW_BUSY)\<rparr>)"
  using assms(2)
proof (induction cs arbitrary: n g)
  case (Cons c cs)
  then have "app_is_ui_busy (res_ui_busy g)" by (simp add: app_is_ui_busy_def res_calls)
  from Cons.IH [OF this] assms(1) [OF Cons.prems] show ?case by (simp add: res_calls)
qed simp

lemma fuzz_loop_busy:
  assumes "\<And>d buf p1 p2 g. app_is_ui_busy g \<Longrightarrow> h d buf p1 p2 g = Some (res_ui_busy g)" and "app_is_ui_busy g"
  shows "\<exists>k. fuzz_loop h al ds n data g = Some (g\<lparr>sent := sent g @ replicate k (Response [] SW_BUSY)\<rparr>)"
  using fuzz_loop_run [of h al ds n data g] fuzz_run_busy [of h g, OF assms] by metis

theorem harness_stuck_in_dialog:
  assumes "app_is_ui_busy g"
  shows "(\<exists>k. ainpt_harness E al ds data g = Some (g\<lparr>sent := sent g @ replicate k (Response [] SW_BUSY)\<rparr>)) \<and>
     (\<exists>k. stx_harness E al ds data g = Some (g\<lparr>sent := sent g @ replicate k (Response [] SW_BUSY)\<rparr>)) \<and>
     (\<exists>k. da_harness E al ds data g = Some (g\<lparr>sent := sent g @ replicate k (Response [] SW_BUSY)\<rparr>)) \<and>
     (\<exists>k. epk_harness E al ds data g = Some (g\<lparr>sent := sent g @ replicate k (Response [] SW_BUSY)\<rparr>))"
  unfolding ainpt_harness_def stx_harness_def da_harness_def epk_harness_def
  by (intro conjI fuzz_loop_busy assms)
    (simp_all add: handler_attest_input_def handler_sign_transaction_def handler_derive_address_def handler_get_extended_public_key_def)

end
