(* ===== verification/ScreenTexts.thy ===== *)
theory ScreenTexts
  imports DeviceSafety
begin

text \<open>
  The fixed texts of the steps of the button devices, line by line, as the macros \<^verbatim>\<open>UX_STEP_NOCB\<close> and \<^verbatim>\<open>UX_STEP_CB\<close> and the layouts
  of \<^verbatim>\<open>ui_application_id_bagl.c\<close> declare them (icons left out), and what they tell the user of the button behind them. Lines that
  are filled in when a screen is made, such as a path or the pair of the paging, are not among them. The name and the version of the
  application come from the build.
\<close>

definition menu_lines :: "string \<Rightarrow> ux_step \<Rightarrow> string list" where
  "menu_lines name s =
     (case s of
        ux_menu_ready_step \<Rightarrow> [name, ''is ready'']
      | ux_menu_settings_step \<Rightarrow> [''Settings'']
      | ux_menu_about_step \<Rightarrow> [''About'']
      | ux_menu_exit_step \<Rightarrow> [''Quit'']
      | _ \<Rightarrow> [])"

definition about_lines :: "string \<Rightarrow> string \<Rightarrow> ux_step \<Rightarrow> string list" where
  "about_lines name version s =
     (case s of
        ux_menu_info_step \<Rightarrow> [name @ '' App'', ''(c) 2024 Ergo'']
      | ux_menu_version_step \<Rightarrow> [''Version'', version]
      | ux_menu_back_step \<Rightarrow> [''Back'']
      | _ \<Rightarrow> [])"

definition settings_lines :: "ux_step \<Rightarrow> string list" where
  "settings_lines s =
     (case s of
        ux_menu_bs_enabled_step \<Rightarrow> [''Blind signing'', ''Enable transaction'', ''blind signing.'', ''Enabled'']
      | ux_menu_bs_disabled_step \<Rightarrow> [''Blind signing'', ''Enable transaction'', ''blind signing.'', ''Disabled'']
      | _ \<Rightarrow> [])"

definition blind_signing_lines :: "ux_step \<Rightarrow> string list" where
  "blind_signing_lines s =
     (case s of
        ux_stx_blind_signing_step \<Rightarrow> [''Blind'', ''signing'']
      | ux_stx_blind_signing_enable_warn1_step \<Rightarrow> [''Transaction cannot'', ''be clear-signed'']
      | ux_stx_blind_signing_enable_warn2_step \<Rightarrow>
          [''Blind signing'', ''Enable blind signing in the settings to sign this transaction.'']
      | ux_stx_blind_signing_enable_settings_step \<Rightarrow> [''Go to settings'']
      | ux_stx_blind_signing_enable_txreject_step \<Rightarrow> [''Reject transaction'']
      | _ \<Rightarrow> [])"

definition approve_lines :: "ux_step \<Rightarrow> string list" where
  "approve_lines s =
     (case s of
        ux_approve_step \<Rightarrow> [''Approve'']
      | ux_reject_step \<Rightarrow> [''Reject'']
      | _ \<Rightarrow> [])"

definition sign_lines :: "ux_step \<Rightarrow> string list" where
  "sign_lines s =
     (case s of
        ux_sign_step \<Rightarrow> [''Sign transaction'']
      | ux_sign_reject_step \<Rightarrow> [''Reject'']
      | _ \<Rightarrow> [])"

definition application_lines :: "ux_step \<Rightarrow> string list" where
  "application_lines s =
     (case s of
        ux_app_token_step \<Rightarrow> [''Application'']
      | _ \<Rightarrow> [])"

definition attest_lines :: "ux_step \<Rightarrow> string list" where
  "attest_lines s =
     (case s of
        ux_ainpt_display_confirm_step \<Rightarrow> [''Confirm Attest Input'']
      | _ \<Rightarrow> [])"

definition address_lines :: "ux_step \<Rightarrow> string list" where
  "address_lines s =
     (case s of
        ux_da_display_confirm_addr_step \<Rightarrow> [''Confirm Address'']
      | ux_da_display_confirm_send_step \<Rightarrow> [''Confirm Send Address'']
      | ux_da_display_address_step \<Rightarrow> [''Address'']
      | _ \<Rightarrow> [])"

definition pubkey_lines :: "ux_step \<Rightarrow> string list" where
  "pubkey_lines s =
     (case s of
        ux_epk_display_confirm_ext_pubkey_step \<Rightarrow> [''Ext PubKey Export'']
      | _ \<Rightarrow> [])"

definition step_lines :: "string \<Rightarrow> string \<Rightarrow> ux_step \<Rightarrow> string list" where
  "step_lines name version s =
     menu_lines name s @ about_lines name version s @ settings_lines s @ blind_signing_lines s @ approve_lines s @ sign_lines s @
     application_lines s @ attest_lines s @ address_lines s @ pubkey_lines s"

lemmas step_lines_defs = step_lines_def menu_lines_def about_lines_def settings_lines_def blind_signing_lines_def approve_lines_def
  sign_lines_def application_lines_def attest_lines_def address_lines_def pubkey_lines_def

subsection \<open>What a text promises\<close>

text \<open>No other step reads like the button that signs, and two different steps with a button read the same only when both reject.\<close>

lemma sign_text: "step_lines name version s = [''Sign transaction''] \<longleftrightarrow> s = ux_sign_step"
  by (cases s) (simp_all add: step_lines_defs)

lemma reject_text: "step_lines name version s = [''Reject''] \<longleftrightarrow> s = ux_reject_step \<or> s = ux_sign_reject_step"
  by (cases s) (simp_all add: step_lines_defs)

text \<open>
  On a device with buttons a step that makes a response of the length of a signature is a press of a displayed step that reads \<open>Sign
  transaction\<close>, and pressing a step that reads \<open>Reject\<close> sends none.
\<close>

theorem signature_needs_sign_text:
  assumes "crypto_ok E ab" and "length (APPNAME B) < 56" and "reachable E B g" and "event_ok ev" and "device_step E B g ev g'"
    and "env_lib E = HAVE_BAGL" and "sent g' = sent g @ rs" and "Response sig SW_OK \<in> set rs" and "length sig = 56"
  shows "\<exists>s. ev = Button s \<and> s \<in> set (displayed_steps g) \<and> step_lines name version s = [''Sign transaction'']"
proof -
  have "user_signs E ev"
  proof (rule ccontr)
    assume "\<not> user_signs E ev"
    then have "quiet g g'"
      using step_outcome [OF assms(1) reachable_signing_ok [OF assms(3,1,2)] assms(4,2,5)] by (simp add: good_def)
    then show False using assms(7-9) by (auto simp: quiet_def list_all_iff no_signature_def)
  qed
  moreover have "\<not> user_signs E (Command d parsed)" for d parsed using assms(6) by (cases parsed) simp_all
  ultimately obtain s where ev: "ev = Button s" "s = ux_sign_step" by (cases ev) auto
  with assms(5) have "s \<in> set (displayed_steps g)" by (simp add: device_step_button)
  with ev show ?thesis by (simp add: sign_text)
qed

theorem reject_sends_no_signature:
  assumes "crypto_ok E ab" and "length (APPNAME B) < 56" and "reachable E B g" and "device_step E B g (Button s) g'"
    and "step_lines name version s = [''Reject'']"
  shows "quiet g g'"
  using step_outcome [OF assms(1) reachable_signing_ok [OF assms(3,1,2)] _ assms(2,4)] assms(5)
  by (auto simp: reject_text good_def)

end
