(* ===== verification/Spec2Isabelle.thy ===== *)
theory Spec2Isabelle
  imports Prelude SafeInt Zigzag Buffer RwBuffer Gve ChunkSink Blake2b TxSerTable ErgoTree TxSerBox FailStop TxSerInput TxSerFull TxRun TxTranscript SwResult Amounts Bip32Ext OutputInfo Crypto Schnorr Address AppContext InputFrame StxOpP2pk StxOpP2pkRun P2pkScreens PathFormat
    Base58 StxText Contexts UiState UiDynamicFlow StxUi StxHandler AttestInput DeriveAddress ExtPubKey Dispatcher DeviceSafety
    Blake2bRef Blake2Impl TxPhases TestHash BoxId AttestFrame AttestBox Varint HashFrame
    SessionAmounts SessionTypes ErrorPaths AccessToken Blake2bRfc UnitTests UnitTestsParts UnitTestsSerializers
    UnitTestsBuffers Fuzzing ScreenTexts
begin

text \<open>
  Verification of the Ergo application for Ledger devices: the C program under \<^verbatim>\<open>src/\<close> of the repository
  (called \<^verbatim>\<open>src/\<close> below) and the library code under \<^verbatim>\<open>unit-tests/utils/\<close> that its tests build against.

  \<^bold>\<open>The program.\<close> A host sends commands (APDUs). The loop of \<^verbatim>\<open>app_main.c\<close> reads one and calls the dispatcher
  (\<^verbatim>\<open>apdu_dispatcher.c\<close>), which calls the handler of the instruction with a read buffer over the payload. The
  handlers of extended public keys and addresses answer one call each; those of signing and of input attestation take
  many calls and keep their context in between in one union (\<^verbatim>\<open>context.c\<close>). They feed the payloads to streaming
  serializers (\<^verbatim>\<open>ergo/tx_ser_*.c\<close>), which check the format, hash what they accept and hand amounts and tokens to
  callbacks. Anything that leaves the device passes a screen (\<^verbatim>\<open>ui/\<close>, \<^verbatim>\<open>*_ui_*.c\<close>), whose buttons run further
  callbacks and send the response.

  \<^bold>\<open>How the model reads.\<close> A C struct is a \<open>record\<close>, an enum a \<open>datatype\<close> (or its numbers, where the code computes with
  them), an integer a word of its width, an array a list of its declared length. The union of the command contexts is a
  record, because it is erased before another member is used (Contexts); the union in an output is a datatype. A function that
  writes through a pointer returns the new value of what it points to; a function that returns a status returns the
  status too, with the memory as it is left on every error path. \<open>size_t\<close> is a 32-bit word, as on the devices.
  A function pointer is an argument of the operation that calls it, in an option where it may be \<open>NULL\<close>. Loops are recursions over lists or with a measure;
  the one loop whose end depends on the device, the search for a session id, is a \<open>partial_function\<close>, and
  \<open>session_id_termination\<close> says when it ends. No fuel is used.

  \<^bold>\<open>Parameters.\<close> The library of the device is not in the repository. Its functions are the fields of records that
  the definitions take as an argument: hashing in \<open>cx_sdk\<close> (Blake2b), curves, big numbers and key derivation in
  \<open>cx_device\<close> (Crypto), formatting of texts in \<open>sdk_format\<close> (StxText), the constants of the build in \<open>build\<close> (Dispatcher).
  Random bytes are functions from the number of the draw. Properties that need a law of the library have it as a
  hypothesis, and a witness gives an instance.
  The bytes of the union in an output, read as a member that was not written last, are the parameter \<open>out_views\<close> (OutputInfo);
  an input context read as a box context is the parameter \<open>ub\<close> (TxSerFull).

  \<^bold>\<open>Theories.\<close>
  \<^item> Prelude: machine types, the memory functions of the C library, bytes of words, shared lemmas and collections.
  \<^item> SafeInt (\<^verbatim>\<open>common/safeint.h\<close>), Zigzag (\<^verbatim>\<open>common/zigzag.h\<close>), Gve (\<^verbatim>\<open>common/gve.c\<close>): checked arithmetic with its
    overflow test, and the variable-length codes. The locale \<open>checked_accum\<close> says that a fold of a checked operation is exact or
    fails; its four interpretations are the four checked operations.
  \<^item> Buffer, RwBuffer, Varint: the cursors over a byte memory (\<^verbatim>\<open>buffer.c\<close>, \<^verbatim>\<open>read.c\<close>, \<^verbatim>\<open>write.c\<close>, \<^verbatim>\<open>buffer_ext.c\<close>,
    \<^verbatim>\<open>rwbuffer.c\<close>, \<^verbatim>\<open>varint.c\<close>), their invariant and what each read and write does to the unread data.
  \<^item> Blake2b, Blake2bRef, Blake2Impl, TestHash: the hash wrapper of the application over a hash library, the reference implementation of
    BLAKE2b (\<^verbatim>\<open>blake2b-ref.c\<close>), and the replacement of the library in the unit tests. Blake2bRfc writes the RFC down with
    integers, apart from the code, and shows that the code computes it. BoxId states as the locale
    \<open>digest_provider\<close> what a client of a hash relies on, proves box ids inside it, and interprets it on the code of the unit tests.
  \<^item> Bip32Ext, PathFormat, Base58, Address, ErgoTree: paths and their text, base-58 text, addresses, scripts.
  \<^item> Crypto, Schnorr: key derivation, and the signature with its retries of the ephemeral key.
  \<^item> ChunkSink, FailStop: two contracts of the serializers, as locales. A \<open>chunk_sink\<close> takes a string of declared length in
    chunks; a \<open>fail_stop\<close> machine refuses everything after its first error.
  \<^item> TxSerTable, TxSerInput, TxSerBox, TxSerFull: the serializers (\<^verbatim>\<open>tx_ser_table.c\<close>, \<^verbatim>\<open>tx_ser_input.c\<close>,
    \<^verbatim>\<open>tx_ser_box.c\<close>, \<^verbatim>\<open>tx_ser_full.c\<close>), each with its states, an accepted run of its operations and the bytes it has hashed.
    TxRun, TxPhases and TxTranscript: runs of the whole, the order of their phases with the counts and token ids that end them, and the ghost record of what was
    received. HashFrame: what a box serializer
    leaves alone outside its callbacks, as the locales \<open>box_frame\<close> and \<open>box_token_frame\<close>.
  \<^item> InputFrame, AttestFrame, AttestInput, AttestBox: session ids and frames (\<^verbatim>\<open>input_frame.c\<close>, \<^verbatim>\<open>session_id.h\<close>), the
    attestation command (\<^verbatim>\<open>commands/attestinput/\<close>), and what a frame signed by it means.
  \<^item> Amounts, OutputInfo, StxOpP2pk, StxOpP2pkRun, SessionAmounts, SessionTypes: the accounts of a transaction
    (\<^verbatim>\<open>stx_amounts.c\<close>), the description of an output (\<^verbatim>\<open>stx_output.c\<close>), and the signing operation that composes them with the
    serializer (\<^verbatim>\<open>stx_op_p2pk.c\<close>): what its hash, its accounts and its arrays hold after any accepted run.
  \<^item> StxText, UiState, UiDynamicFlow, StxUi, P2pkScreens: the texts (\<^verbatim>\<open>stx_ui_common.c\<close>), the state of the screens, the
    paging (\<^verbatim>\<open>ui_dynamic_flow.c\<close>), the flows with buttons and the reviews of the touch screen, and which outputs have a screen.
  \<^item> SwResult, AppContext, Contexts, StxHandler, DeriveAddress, ExtPubKey, Dispatcher: status words, the global context, the
    handlers, and the loop.
  \<^item> DeviceSafety, ErrorPaths, AccessToken: the device as a state machine. A \<open>device_step\<close> is a command of the host or an
    answer of the user; the theorems hold in every reachable state. ScreenTexts holds the fixed texts of the steps, and says that
    only a button that reads \<open>Sign transaction\<close> makes a signature.
  \<^item> UnitTests, UnitTestsParts, UnitTestsSerializers, UnitTestsBuffers (\<^verbatim>\<open>unit-tests/test_*.c\<close>): the test functions of the repository as calls of the model, each
    with the answers that it expects; the hash library is an executable BLAKE2b, so that the ids of the tests come out.
  \<^item> Fuzzing (\<^verbatim>\<open>fuzzing/src/\<close>): the loops of the harnesses, which commands of an input they run, and that they do for them what
    the main loop of the device does.

  \<^bold>\<open>What is proved.\<close> From the bottom up:
  checked arithmetic and the codes are exact in their ranges and round-trip; the buffers move only what they say;
  BLAKE2b over pieces is the function of RFC 7693 on the whole;
  whatever the chunking, each serializer has hashed the reference serialization of what it accepted, and it accepts only
  complete parts in order; the accounts are inputs minus outputs, with no wrap-around;
  a session signs the hash of the key commitment and of what it received, which is exactly the announced transaction when no
  output was abandoned;
  its confirmed amounts are the exact accounts of the frames and outputs it received; its memory stays within the declared sizes;
  an attestation carries the id, value and tokens of a box that was hashed completely, and a frame that the device
  made is read back unchanged; the screens show the stored texts, and the skipped outputs are exactly those of the rule;
  a signature leaves the device only when the user consents; an error ends the session.

  Some properties state a weakness of the code as it is: the comparison of paths stops after the first bytes
  (\<open>bip32_comparison_ignores_account\<close>), a box can be left unfinished and is hashed all the same
  (\<open>unfinished_output_is_hashed\<close>), a signing session connects the token of the host without a question and the
  public keys are then sent without one (\<open>session_start_connects\<close>), codes of 32-bit integers round-trip on half of the range only (\<open>gve_i32_roundtrip_range\<close>).

  \<^bold>\<open>Not modelled.\<close>
  \<^item> The drawing of a screen by the UX and touch libraries, glyphs, the about pages and the exit to the operating system: calls
    of libraries without a result that the application reads. The steps, their texts and their callbacks are modelled.
  \<^item> The registration of the unit tests, and two of them that read uninitialized variables; the empty system functions of
    \<^verbatim>\<open>fuzzing/src/utils/\<close> (the environment of the model stands for any of them), the Python tests, and the build.
  \<^item> Erasing of keys in memory that goes out of scope (the model has no dead memory), and the exceptions of the SDK.
\<close>

end
